(* ===== verification/Prelude.thy ===== *)
theory Prelude
  imports Complex_Main "HOL-Library.AList" "HOL-Library.Char_ord" "HOL-Library.List_Lexorder"
    "HOL-Library.Product_Lexorder" "HOL-Library.Word"
begin

text \<open>
  The shared vocabulary of the development.

  \<^item> \<open>decimal\<close>: a value of the crate \<open>rust_decimal\<close>. A \<open>Decimal\<close> denotes a rational number
    \<open>m / 10^s\<close>; the model keeps the number it denotes. Addition, subtraction, multiplication,
    comparison, \<open>min\<close> and \<open>max\<close> are taken on that number, which is what the crate documents while
    the result has at most 28 significant digits. Everything where the crate rounds, may fail or
    formats is not defined here: division, the \<open>checked_\<close> operations and the printed form are the
    fields of the parameter \<open>dec_ops\<close>, an argument of every definition that uses them.
  \<^item> hash maps: association lists with \<open>map_of\<close>, \<open>AList.update\<close> and \<open>AList.delete\<close>; where Rust
    iterates over a \<open>HashMap\<close>, the list order stands for the map's (unspecified) order.
  \<^item> ordered sets: finite sets, read in order through \<open>sorted_list_of_set\<close>.
  \<^item> times and durations (\<open>i64\<close> milliseconds): \<open>int\<close>; counters (\<open>u64\<close>, \<open>usize\<close>): \<open>nat\<close>.
\<close>

section \<open>Decimals\<close>

type_synonym decimal = rat

text \<open>What the code asks of the third-party decimal type beyond exact ring arithmetic: the
  operator \<open>/\<close>, the checked operations (\<open>None\<close> is overflow or a zero divisor), \<open>to_string\<close>, and what
  \<open>from_str_exact\<close> reads from the JSON text of a double (\<open>None\<close> is a text it refuses).\<close>

record dec_ops =
  ddiv :: "decimal \<Rightarrow> decimal \<Rightarrow> decimal"
  checked_mul :: "decimal \<Rightarrow> decimal \<Rightarrow> decimal option"
  checked_add :: "decimal \<Rightarrow> decimal \<Rightarrow> decimal option"
  checked_div :: "decimal \<Rightarrow> decimal \<Rightarrow> decimal option"
  dshow :: "decimal \<Rightarrow> string"
  dnum :: "decimal \<Rightarrow> decimal option"

text \<open>One concrete instance, for witnesses: unlimited precision, and a one-letter printed form.\<close>

definition exact_dec :: dec_ops where
  "exact_dec = \<lparr>ddiv = (\<lambda>a b. a / b), checked_mul = (\<lambda>a b. Some (a * b)),
     checked_add = (\<lambda>a b. Some (a + b)),
     checked_div = (\<lambda>a b. if b = 0 then None else Some (a / b)), dshow = (\<lambda>_. ''#''), dnum = Some\<rparr>"

lemma exact_dec_sel [simp]:
  "ddiv exact_dec a b = a / b" "checked_mul exact_dec a b = Some (a * b)"
  "checked_add exact_dec a b = Some (a + b)"
  "checked_div exact_dec a b = (if b = 0 then None else Some (a / b))"
  "dshow exact_dec a = ''#''" "dnum exact_dec a = Some a"
  by (simp_all add: exact_dec_def)

section \<open>Collections of rules\<close>

named_theorems frame_simps \<open>fields an operation leaves alone\<close>
named_theorems inv_intros \<open>operations that keep a component's invariant\<close>

section \<open>Error messages\<close>

text \<open>A formatted message, as the parts of the \<open>format!\<close> call: literal text and the values it
  interpolates.\<close>

datatype msg_part = Txt string | Dec decimal | Num int

type_synonym message = "msg_part list"

section \<open>Association lists\<close>

lemma map_of_update [simp]: "map_of (AList.update k v m) = (map_of m)(k \<mapsto> v)"
  by (rule update_conv')

lemma map_of_delete [simp]: "map_of (AList.delete k m) = (map_of m)(k := None)"
  by (rule delete_conv')

lemma distinct_keys_update [simp]:
  "distinct (map fst (AList.update k v m)) \<longleftrightarrow> distinct (map fst m)"
  by (induction m) (auto simp: dom_update)

lemma distinct_keys_delete [simp]:
  "distinct (map fst m) \<Longrightarrow> distinct (map fst (AList.delete k m))"
  by (simp add: distinct_delete)

lemma set_delete_eq: "set (AList.delete k m) = {(k', v) \<in> set m. k' \<noteq> k}"
  by (induction m) auto

lemma delete_absent [simp]: "map_of m k = None \<Longrightarrow> AList.delete k m = m"
  by (induction m) (auto split: if_splits)

lemma length_delete_le: "length (AList.delete k m) \<le> length m"
  by (induction m) auto

lemma length_delete_less: "map_of m k = Some v \<Longrightarrow> length (AList.delete k m) < length m"
proof (induction m)
  case (Cons kv m)
  then show ?case
    using length_delete_le [of k m] by (cases kv) (auto split: if_splits)
qed simp

lemma length_update: "length (AList.update k v m) = (if map_of m k = None then Suc (length m) else length m)"
  by (induction m) (auto split: if_splits)

lemma map_of_SomeD_snd: "map_of m k = Some v \<Longrightarrow> v \<in> snd ` set m"
  by (force dest: map_of_SomeD)

lemma update_same: "map_of m k = Some v \<Longrightarrow> AList.update k v m = m"
  by (induction m) (auto split: if_splits)

lemma snd_set_update:
  "snd ` set (AList.update k v m) \<subseteq> insert v (snd ` set m)"
  by (induction m) auto

lemma map_of_values: "distinct (map fst m) \<Longrightarrow> x \<in> snd ` set m \<longleftrightarrow> (\<exists>k. map_of m k = Some x)"
  by (force simp: map_of_eq_Some_iff)

text \<open>Summing a weight of the values of a table.\<close>

lemma sum_update:
  fixes w :: "'v \<Rightarrow> 'a::comm_monoid_add"
  shows "sum_list (map (w \<circ> snd) (AList.update k v m)) + (case map_of m k of None \<Rightarrow> 0 | Some u \<Rightarrow> w u) =
    sum_list (map (w \<circ> snd) m) + w v"
  by (induction m) (auto simp: ac_simps split: option.splits)

lemma sum_delete:
  fixes w :: "'v \<Rightarrow> 'a::comm_monoid_add"
  shows "distinct (map fst m) \<Longrightarrow>
    sum_list (map (w \<circ> snd) (AList.delete k m)) + (case map_of m k of None \<Rightarrow> 0 | Some u \<Rightarrow> w u) =
    sum_list (map (w \<circ> snd) m)"
  by (induction m) (auto simp: ac_simps map_of_eq_None_iff image_iff split: option.splits)

section \<open>Tables of amounts\<close>

text \<open>The interface a reservation book needs of its table: a keyed store with a total. \<open>held\<close> is the
  amount under a key, zero when there is none.\<close>

locale amount_table =
  fixes get :: "'m \<Rightarrow> 'k \<Rightarrow> decimal option"
    and put :: "'k \<Rightarrow> decimal \<Rightarrow> 'm \<Rightarrow> 'm"
    and del :: "'k \<Rightarrow> 'm \<Rightarrow> 'm"
    and total :: "'m \<Rightarrow> decimal"
    and wf :: "'m \<Rightarrow> bool"
  assumes get_put: "get (put k v m) = (get m)(k \<mapsto> v)"
    and get_del: "get (del k m) = (get m)(k := None)"
    and wf_put: "wf m \<Longrightarrow> wf (put k v m)"
    and wf_del: "wf m \<Longrightarrow> wf (del k m)"
    and total_put: "wf m \<Longrightarrow> total (put k v m) = total m - (case get m k of None \<Rightarrow> 0 | Some w \<Rightarrow> w) + v"
    and total_del: "wf m \<Longrightarrow> total (del k m) = total m - (case get m k of None \<Rightarrow> 0 | Some w \<Rightarrow> w)"
begin

lemma total_take_part:
  assumes "wf m" and "get m k = Some h"
  shows "total (if h - a > 0 then put k (h - a) m else del k m) = total m - (if h - a > 0 then a else h)"
  using assms by (simp add: total_put total_del)

lemma total_replace:
  assumes "wf m"
  shows "total (if v > 0 then put k v (del k m) else del k m)
       = total m - (case get m k of None \<Rightarrow> 0 | Some w \<Rightarrow> w) + (if v > 0 then v else 0)"
  using assms by (simp add: total_put total_del wf_del get_del)

end

definition held :: "('k \<times> decimal) list \<Rightarrow> 'k \<Rightarrow> decimal" where
  "held m k = (case map_of m k of None \<Rightarrow> 0 | Some w \<Rightarrow> w)"

definition table_total :: "('k \<times> decimal) list \<Rightarrow> decimal" where
  "table_total m = sum_list (map snd m)"

lemma table_total_Nil [simp]: "table_total [] = 0"
  by (simp add: table_total_def)

lemma table_total_update:
  "table_total (AList.update k v m) = table_total m - held m k + v"
  by (induction m) (auto simp: table_total_def held_def)

lemma table_total_delete:
  "distinct (map fst m) \<Longrightarrow> table_total (AList.delete k m) = table_total m - held m k"
proof (induction m)
  case (Cons kv m)
  then show ?case
    by (cases kv) (auto simp: table_total_def held_def map_of_eq_None_iff split: option.splits)
qed (simp add: table_total_def held_def)

lemma table_total_nonneg: "(\<forall>v \<in> snd ` set m. 0 \<le> v) \<Longrightarrow> 0 \<le> table_total m"
  by (induction m) (auto simp: table_total_def)

lemma held_le_total:
  "(\<forall>v \<in> snd ` set m. 0 \<le> v) \<Longrightarrow> held m k \<le> table_total m"
proof (induction m)
  case (Cons kv m)
  then show ?case
    using table_total_nonneg [of m] by (cases kv) (auto simp: table_total_def held_def)
qed (simp add: table_total_def held_def)

interpretation amounts: amount_table map_of AList.update AList.delete table_total
    "\<lambda>m. distinct (map fst m)"
  by unfold_locales
    (simp_all add: table_total_update table_total_delete held_def split: option.splits)

section \<open>Machines and their invariants\<close>

text \<open>Every stateful component is a step function over its operations; what all its runs keep is
  proved once, here.\<close>

fun run :: "('s \<Rightarrow> 'op \<Rightarrow> 's) \<Rightarrow> 's \<Rightarrow> 'op list \<Rightarrow> 's" where
  "run step s [] = s"
| "run step s (x # xs) = run step (step s x) xs"

lemma run_append: "run step s (xs @ ys) = run step (run step s xs) ys"
  by (induction xs arbitrary: s) auto

lemma run_filter: "run step s (filter P xs) = run (\<lambda>s x. if P x then step s x else s) s xs"
  by (induction xs arbitrary: s) auto

locale invariant_machine =
  fixes step :: "'s \<Rightarrow> 'op \<Rightarrow> 's"
    and inv :: "'s \<Rightarrow> bool"
  assumes step_inv: "inv s \<Longrightarrow> inv (step s x)"
begin

lemma run_inv: "inv s \<Longrightarrow> inv (run step s xs)"
  by (induction xs arbitrary: s) (auto intro: step_inv)

end

text \<open>A machine with a quantity no step may decrease.\<close>

locale monotone_machine = invariant_machine step inv
  for step :: "'s \<Rightarrow> 'op \<Rightarrow> 's" and inv :: "'s \<Rightarrow> bool" +
  fixes measure_of :: "'s \<Rightarrow> 'a::preorder"
  assumes step_mono: "inv s \<Longrightarrow> measure_of s \<le> measure_of (step s x)"
begin

lemma run_mono: "inv s \<Longrightarrow> measure_of s \<le> measure_of (run step s xs)"
proof (induction xs arbitrary: s)
  case (Cons x xs)
  then show ?case
    using step_mono [of s x] step_inv [of s x] by (auto intro: order_trans)
qed simp

end

section \<open>Lists\<close>

lemma find_Some_prop: "List.find P xs = Some x \<Longrightarrow> x \<in> set xs \<and> P x"
  by (auto simp: find_Some_iff)

lemma set_map_filter_map_of:
  "set (List.map_filter (map_of m) ks) = {v. \<exists>k \<in> set ks. map_of m k = Some v}"
  by (induction ks) (auto simp: List.map_filter_simps split: option.splits)

text \<open>The newest \<open>n\<close> elements of a history: what a bounded buffer that drops its oldest element
  holds.\<close>

definition last_n :: "nat \<Rightarrow> 'a list \<Rightarrow> 'a list" where
  "last_n n xs = drop (length xs - n) xs"

lemma last_n_Nil [simp]: "last_n n [] = []"
  by (simp add: last_n_def)

lemma length_last_n [simp]: "length (last_n n xs) = min (length xs) n"
  by (simp add: last_n_def min_def)

lemma last_n_push:
  assumes "0 < n"
  shows "(if n \<le> length (last_n n xs) then tl (last_n n xs) else last_n n xs) @ [e] = last_n n (xs @ [e])"
proof (cases "n \<le> length xs")
  case True
  then have "Suc (length xs) - n = Suc (length xs - n)" by simp
  moreover have "Suc 0 - n = 0" using assms by simp
  ultimately show ?thesis using True by (simp add: last_n_def drop_Suc tl_drop)
next
  case False
  then show ?thesis by (simp add: last_n_def)
qed

lemma last_n_eq_Nil: "0 < n \<Longrightarrow> last_n n xs = [] \<longleftrightarrow> xs = []"
  by (cases xs) (auto simp: last_n_def)

lemma last_last_n: "0 < n \<Longrightarrow> xs \<noteq> [] \<Longrightarrow> last (last_n n xs) = last xs"
  by (simp add: last_n_def)

lemma set_last_n: "set (last_n n xs) \<subseteq> set xs"
  by (simp add: last_n_def set_drop_subset)

text \<open>\<open>iter().position(P)\<close> with \<open>remove\<close>, \<open>iter_mut().find(P)\<close>, and \<open>rposition(P)\<close> with \<open>remove\<close>.\<close>

fun remove_first :: "('a \<Rightarrow> bool) \<Rightarrow> 'a list \<Rightarrow> 'a list" where
  "remove_first P [] = []"
| "remove_first P (x # xs) = (if P x then xs else x # remove_first P xs)"

fun update_first :: "('a \<Rightarrow> bool) \<Rightarrow> ('a \<Rightarrow> 'a) \<Rightarrow> 'a list \<Rightarrow> 'a list" where
  "update_first P f [] = []"
| "update_first P f (x # xs) = (if P x then f x # xs else x # update_first P f xs)"

definition remove_last :: "('a \<Rightarrow> bool) \<Rightarrow> 'a list \<Rightarrow> 'a list" where
  "remove_last P xs = rev (remove_first P (rev xs))"

lemma remove_first_none: "List.find P xs = None \<Longrightarrow> remove_first P xs = xs"
  by (induction xs) (auto split: if_splits)

lemma update_first_none: "List.find P xs = None \<Longrightarrow> update_first P f xs = xs"
  by (induction xs) (auto split: if_splits)

lemma find_update_first:
  "(\<And>x. P x \<Longrightarrow> P (f x)) \<Longrightarrow> List.find P (update_first P f xs) = map_option f (List.find P xs)"
  by (induction xs) auto

lemma find_update_other:
  "(\<And>x. P x \<Longrightarrow> \<not> Q x) \<Longrightarrow> (\<And>x. P x \<Longrightarrow> \<not> Q (f x)) \<Longrightarrow> List.find Q (update_first P f xs) = List.find Q xs"
  by (induction xs) auto

lemma length_update_first [simp]: "length (update_first P f xs) = length xs"
  by (induction xs) auto

lemma map_update_first: "(\<And>x. g (f x) = g x) \<Longrightarrow> map g (update_first P f xs) = map g xs"
  by (induction xs) auto

lemma find_append: "List.find P (xs @ ys) = (case List.find P xs of Some x \<Rightarrow> Some x | None \<Rightarrow> List.find P ys)"
  by (induction xs) auto

lemma remove_first_append:
  "remove_first P (xs @ ys) = (case List.find P xs of Some x \<Rightarrow> remove_first P xs @ ys | None \<Rightarrow> xs @ remove_first P ys)"
  by (induction xs) (auto split: option.splits)

lemma remove_last_snoc: "P x \<Longrightarrow> remove_last P (xs @ [x]) = xs"
  by (simp add: remove_last_def)

lemma set_remove_first: "set (remove_first P xs) \<subseteq> set xs"
  by (induction xs) auto

lemma all_update_first:
  "(\<forall>x \<in> set xs. Q x) \<Longrightarrow> (\<And>x. List.find P xs = Some x \<Longrightarrow> Q x \<Longrightarrow> Q (f x)) \<Longrightarrow>
    (\<forall>x \<in> set (update_first P f xs). Q x)"
  by (induction xs) auto

lemma all_remove_first: "(\<forall>x \<in> set xs. Q x) \<Longrightarrow> (\<forall>x \<in> set (remove_first P xs). Q x)"
  using set_remove_first by fast

lemma update_first_hit: "List.find P xs = Some x \<Longrightarrow> f x \<in> set (update_first P f xs)"
  by (induction xs) (auto split: if_splits)

lemma find_None_all: "List.find P xs = None \<longleftrightarrow> (\<forall>x \<in> set xs. \<not> P x)"
  by (auto simp: find_None_iff)

text \<open>Integer division of \<open>i64\<close>: towards zero.\<close>

definition tdiv :: "int \<Rightarrow> int \<Rightarrow> int" where
  "tdiv a b = sgn a * sgn b * (abs a div abs b)"

end
