(* ===== verification/Types.thy ===== *)
theory Types
  imports Prelude
begin

text \<open>
  The market-agnostic primitives (\<open>core/bk_contract/src/types.rs\<close>, \<open>account.rs\<close>) and the core's
  domain model (\<open>core/blitzkrieg_core/src/model.rs\<close>): enums as datatypes, structs as records, the
  predicates and folds the order engine and the books are written with. Serialisation attributes
  are not modelled.
\<close>

section \<open>Sides, policies, statuses\<close>

type_synonym token_id = string
type_synonym order_id = string
type_synonym trade_id = string

datatype side = Buy | Sell

fun side_invert :: "side \<Rightarrow> side" where
  "side_invert Buy = Sell"
| "side_invert Sell = Buy"

fun side_as_str :: "side \<Rightarrow> string" where
  "side_as_str Buy = ''buy''"
| "side_as_str Sell = ''sell''"

datatype order_type = Gtc | Fok | Fak | Gtd

datatype fill_policy = PolTaker | PolMaker | PolMakerThenTaker

fun venue_order_type :: "fill_policy \<Rightarrow> order_type" where
  "venue_order_type PolTaker = Fok"
| "venue_order_type PolMaker = Gtc"
| "venue_order_type PolMakerThenTaker = Gtc"

definition post_only :: "fill_policy \<Rightarrow> bool" where
  "post_only p \<longleftrightarrow> p = PolMaker \<or> p = PolMakerThenTaker"

definition immediate :: "fill_policy \<Rightarrow> bool" where
  "immediate p \<longleftrightarrow> p = PolTaker"

datatype order_status = StPending | StLive | StPartiallyFilled | StFilled | StCancelled
  | StRejected | StFailed | StForceClosed

fun is_terminal :: "order_status \<Rightarrow> bool" where
  "is_terminal StFilled = True"
| "is_terminal StCancelled = True"
| "is_terminal StRejected = True"
| "is_terminal StFailed = True"
| "is_terminal StForceClosed = True"
| "is_terminal _ = False"

fun is_live :: "order_status \<Rightarrow> bool" where
  "is_live StPending = True"
| "is_live StLive = True"
| "is_live StPartiallyFilled = True"
| "is_live _ = False"

lemma live_iff_not_terminal: "is_live st \<longleftrightarrow> \<not> is_terminal st"
  by (cases st) simp_all

datatype fill_status = FsMatched | FsMined | FsConfirmed | FsFailed

section \<open>Errors\<close>

datatype core_error_code = InvalidParams | UnknownOrder | InvalidOrderState | WouldCross
  | InvalidTickSize | InvalidSize | InsufficientFunds | RiskRejected | AccountLimit
  | KillSwitchActive | MarketHalted | NotAuthenticated | VenueError | Timeout | Internal

record core_error =
  ce_code :: core_error_code
  ce_message :: message
  ce_raw :: "string option"

definition core_error_new :: "core_error_code \<Rightarrow> message \<Rightarrow> core_error" where
  "core_error_new c m = \<lparr>ce_code = c, ce_message = m, ce_raw = None\<rparr>"

definition core_error_with_raw :: "core_error \<Rightarrow> string \<Rightarrow> core_error" where
  "core_error_with_raw e r = e\<lparr>ce_raw := Some r\<rparr>"

lemma core_error_new_sel [simp]:
  "ce_code (core_error_new c m) = c" "ce_message (core_error_new c m) = m"
  "ce_raw (core_error_new c m) = None"
  by (simp_all add: core_error_new_def)

section \<open>Order intents\<close>

datatype market_type = Prediction | Spot | Margin | Futures | Options | Earn | Bot

datatype order_kind = KindLimit | KindMarket | KindStopLimit | KindPostOnly

datatype time_in_force = TifGtc | TifFok | TifFak | TifGtd

fun order_type_of_tif :: "time_in_force \<Rightarrow> order_type" where
  "order_type_of_tif TifGtc = Gtc"
| "order_type_of_tif TifFok = Fok"
| "order_type_of_tif TifFak = Fak"
| "order_type_of_tif TifGtd = Gtd"

record order_intent =
  oi_market :: market_type
  oi_symbol :: string
  oi_side :: side
  oi_order_kind :: order_kind
  oi_price :: "decimal option"
  oi_size :: decimal
  oi_time_in_force :: time_in_force
  oi_metadata :: "(string \<times> string) list"

definition needs_price :: "order_kind \<Rightarrow> bool" where
  "needs_price k \<longleftrightarrow> k = KindLimit \<or> k = KindStopLimit \<or> k = KindPostOnly"

definition order_intent_validate :: "order_intent \<Rightarrow> core_error + unit" where
  "order_intent_validate i =
    (if oi_symbol i = [] then Inl (core_error_new InvalidParams [Txt ''symbol is required''])
     else if oi_size i \<le> 0 then Inl (core_error_new InvalidSize [Txt ''size must be positive''])
     else if needs_price (oi_order_kind i) \<and> oi_price i = None
       then Inl (core_error_new InvalidParams [Txt ''limit/stop/post-only orders require a price''])
     else case oi_price i of
       Some p \<Rightarrow>
         if (p \<le> 0 \<or> p > 1) \<and> oi_market i = Prediction
         then Inl (core_error_new InvalidParams [Txt ''prediction price must be in (0,1]''])
         else Inr ()
     | None \<Rightarrow> Inr ())"

lemma order_intent_validate_ok:
  "order_intent_validate i = Inr () \<longleftrightarrow>
     oi_symbol i \<noteq> [] \<and> 0 < oi_size i \<and> (needs_price (oi_order_kind i) \<longrightarrow> oi_price i \<noteq> None) \<and>
     (\<forall>p. oi_price i = Some p \<longrightarrow> oi_market i = Prediction \<longrightarrow> 0 < p \<and> p \<le> 1)"
  by (auto simp: order_intent_validate_def split: option.splits)

section \<open>Accounts\<close>

datatype account_id = AccountId (as_str: string)

definition default_account_id :: account_id where
  "default_account_id = AccountId ''default''"

text \<open>\<open>AccountId\<close> derives \<open>Ord\<close>: the order of the wrapped string.\<close>

instantiation account_id :: linorder
begin

definition less_eq_account_id :: "account_id \<Rightarrow> account_id \<Rightarrow> bool" where
  "less_eq_account_id a b \<longleftrightarrow> as_str a \<le> as_str b"

definition less_account_id :: "account_id \<Rightarrow> account_id \<Rightarrow> bool" where
  "less_account_id a b \<longleftrightarrow> as_str a < as_str b"

instance
  by standard (auto simp: less_eq_account_id_def less_account_id_def account_id.expand)

end

section \<open>Run modes\<close>

datatype mode = ModeDry | ModeLive | ModeReadOnly

definition readonly :: "mode \<Rightarrow> bool" where
  "readonly m \<longleftrightarrow> m = ModeReadOnly"

definition may_trade :: "mode \<Rightarrow> bool" where
  "may_trade m \<longleftrightarrow> m = ModeLive"

definition settles_locally :: "mode \<Rightarrow> bool" where
  "settles_locally m \<longleftrightarrow> m \<noteq> ModeLive"

section \<open>Order roles\<close>

datatype order_role = RolePending | RoleMaker | RoleTaker | RoleMakerThenTaker

definition is_maker :: "order_role \<Rightarrow> bool" where
  "is_maker r \<longleftrightarrow> r = RoleMaker"

fun after_fill :: "order_role \<Rightarrow> order_role \<Rightarrow> order_role" where
  "after_fill RolePending r = r"
| "after_fill RoleMaker RoleTaker = RoleMakerThenTaker"
| "after_fill RoleTaker RoleMaker = RoleMakerThenTaker"
| "after_fill RoleMakerThenTaker _ = RoleMakerThenTaker"
| "after_fill r _ = r"

fun role_from_fill_policy :: "fill_policy \<Rightarrow> order_role" where
  "role_from_fill_policy PolTaker = RoleTaker"
| "role_from_fill_policy PolMaker = RoleMaker"
| "role_from_fill_policy PolMakerThenTaker = RoleMaker"

text \<open>A fill is a maker fill or a taker fill; the role of an order is what all its fills were.\<close>

definition resolved_role :: "order_role list \<Rightarrow> order_role" where
  "resolved_role rs =
    (if rs = [] then RolePending
     else if \<forall>r \<in> set rs. r = RoleMaker then RoleMaker
     else if \<forall>r \<in> set rs. r = RoleTaker then RoleTaker
     else RoleMakerThenTaker)"

lemma after_fill_resolved:
  assumes "set rs \<subseteq> {RoleMaker, RoleTaker}" and "r \<in> {RoleMaker, RoleTaker}"
  shows "after_fill (resolved_role rs) r = resolved_role (rs @ [r])"
  using assms by (cases rs) (auto simp: resolved_role_def)

lemma foldl_after_fill:
  "set rs \<subseteq> {RoleMaker, RoleTaker} \<Longrightarrow> foldl after_fill RolePending rs = resolved_role rs"
proof (induction rs rule: rev_induct)
  case Nil
  then show ?case by (simp add: resolved_role_def)
next
  case (snoc r rs)
  then show ?case by (simp add: after_fill_resolved)
qed

section \<open>Requests, fills, tracked orders\<close>

record order_request =
  rq_token_id :: token_id
  rq_condition_id :: string
  rq_side :: side
  rq_mode :: fill_policy
  rq_price :: decimal
  rq_size :: decimal
  rq_internal_key :: string
  rq_strategy :: string
  rq_asset :: string
  rq_direction :: string
  rq_round_slot :: int
  rq_account_id :: account_id

record fill =
  f_order_id :: order_id
  f_trade_id :: "trade_id option"
  f_token_id :: token_id
  f_side :: side
  f_price :: decimal
  f_size :: decimal
  f_status :: fill_status
  f_ts_ms :: int
  f_tx_hash :: "string option"
  f_maker :: "bool option"
  f_account_id :: account_id

record tracked_order =
  o_order_id :: order_id
  o_internal_key :: string
  o_strategy :: string
  o_asset :: string
  o_direction :: string
  o_token_id :: token_id
  o_condition_id :: string
  o_side :: side
  o_mode :: fill_policy
  o_role :: order_role
  o_price :: decimal
  o_size :: decimal
  o_filled_size :: decimal
  o_avg_fill_price :: "decimal option"
  o_status :: order_status
  o_round_slot :: int
  o_submitted_at_ms :: int
  o_updated_at_ms :: int
  o_decision_at_ms :: int
  o_execute_at_ms :: int
  o_report_at_ms :: int
  o_venue_order_id :: "string option"
  o_place_uncertain :: bool
  o_escalate_at_ms :: "int option"
  o_maker_timeout_ms :: int
  o_account_id :: account_id
  o_venue :: string
  o_round_duration_sec :: int
  o_rejected_reason :: "string option"

text \<open>The round length a record trades on: its own stamp, else the market's declaration when it is
  positive, else the global grid.\<close>

definition effective_round_duration :: "int \<Rightarrow> int option \<Rightarrow> int \<Rightarrow> int" where
  "effective_round_duration own decl global_sec =
    (if own > 0 then own
     else case decl of Some d \<Rightarrow> if d > 0 then d else global_sec | None \<Rightarrow> global_sec)"

definition order_effective_round_duration_sec :: "tracked_order \<Rightarrow> int option \<Rightarrow> int \<Rightarrow> int" where
  "order_effective_round_duration_sec ord decl global_sec =
    effective_round_duration (o_round_duration_sec ord) decl global_sec"

definition order_backfill_round_duration :: "int \<Rightarrow> tracked_order \<Rightarrow> tracked_order" where
  "order_backfill_round_duration sec ord =
    (if o_round_duration_sec ord = 0 then ord\<lparr>o_round_duration_sec := sec\<rparr> else ord)"

datatype exit_reason = TakeProfit | StopLoss | RatchetFloor | TrailingStop | BreakevenLock
  | DepthCollapse | StaleProfit | StagnantProfit | TimeExit | ForceExit | Manual | StrategySignal
  | Settlement | Merge | UnverifiableExpiry | ThesisDeathExit

datatype signal_direction = Up | Down

fun direction_as_str :: "signal_direction \<Rightarrow> string" where
  "direction_as_str Up = ''up''"
| "direction_as_str Down = ''down''"

end
