(* ===== verification/Ome.thy ===== *)
theory Ome
  imports Types
begin

text \<open>
  The order management engine, \<open>core/blitzkrieg_core/src/ome.rs\<close>: the order table with its four
  indexes, the idempotent fill ledger (\<open>applied\<close>), its mutation journal, and the buffer of fills no
  order is known for. Every operation is a function on the record \<open>ome\<close>; an operation that can fail
  returns the state together with a sum (\<open>Inl\<close> is the error). The engine does no I/O; its log lines
  (\<open>tracing\<close>) are not modelled.
\<close>

section \<open>State\<close>

record fill_delta =
  fd_order_id :: order_id
  fd_token_id :: token_id
  fd_account_id :: account_id
  fd_side :: side
  fd_delta :: decimal
  fd_price :: decimal
  fd_cumulative :: decimal
  fd_strategy :: string
  fd_asset :: string
  fd_direction :: string
  fd_condition_id :: string
  fd_round_slot :: int
  fd_mode :: fill_policy
  fd_role :: order_role
  fd_limit_price :: decimal
  fd_trade_id :: string

record late_fill =
  lf_order_id :: order_id
  lf_trade_id :: string
  lf_absorbed_by :: "order_status option"
  lf_size :: decimal
  lf_cumulative :: decimal
  lf_reported_cumulative :: decimal
  lf_order_size :: decimal
  lf_overfill :: bool

record ghost_fill =
  gf_trade_id :: string
  gf_token_id :: token_id
  gf_side :: side
  gf_size :: decimal
  gf_price :: decimal

record fill_outcome =
  oc_delta :: "fill_delta option"
  oc_late_fill :: "late_fill option"
  oc_ghost_fill :: "ghost_fill option"

definition no_outcome :: fill_outcome where
  "no_outcome = \<lparr>oc_delta = None, oc_late_fill = None, oc_ghost_fill = None\<rparr>"

record applied_fill =
  af_applied :: decimal
  af_price :: decimal
  af_order_id :: order_id
  af_seq :: nat

record applied_fill_record =
  afr_trade_key :: string
  afr_order_id :: order_id
  afr_applied :: decimal
  afr_price :: decimal
  afr_seq :: nat
  afr_evicted :: bool

record pending_fill =
  pf_fill :: fill
  pf_at_ms :: int

record submit_params =
  sp_order_id :: order_id
  sp_request :: order_request
  sp_submitted_at_ms :: int
  sp_decision_at_ms :: int
  sp_execute_at_ms :: int
  sp_report_at_ms :: int
  sp_maker_timeout_ms :: int
  sp_round_duration_sec :: int

type_synonym order_key = "int \<times> order_id"

record ome =
  orders :: "(order_id \<times> tracked_order) list"
  by_internal :: "(string \<times> order_id) list"
  by_submitted :: "order_key set"
  live_by_submitted :: "order_key set"
  live_by_token :: "(token_id \<times> order_key set) list"
  filled_sell_times :: "(token_id \<times> int set) list"
  applied :: "(string \<times> applied_fill) list"
  applied_journal :: "applied_fill_record list"
  applied_seq :: nat
  pending_fills :: "pending_fill list"
  pending_ttl_ms :: int
  ghost_alerted :: "string set"

definition APPLIED_CAP :: nat where
  "APPLIED_CAP = 5000"

definition APPLIED_JOURNAL_CAP :: nat where
  "APPLIED_JOURNAL_CAP = 16384"

definition ome_new :: ome where
  "ome_new = \<lparr>orders = [], by_internal = [], by_submitted = {}, live_by_submitted = {},
     live_by_token = [], filled_sell_times = [], applied = [], applied_journal = [],
     applied_seq = 0, pending_fills = [], pending_ttl_ms = 30000, ghost_alerted = {}\<rparr>"

section \<open>Reading orders, keeping the indexes\<close>

definition ome_get :: "ome \<Rightarrow> order_id \<Rightarrow> tracked_order option" where
  "ome_get s i = map_of (orders s) i"

text \<open>A map whose values are sets: \<open>entry(k).or_default().insert(v)\<close> adds to a bucket, and a removal
  prunes a bucket it empties.\<close>

definition bucket :: "('k \<times> 'v set) list \<Rightarrow> 'k \<Rightarrow> 'v set" where
  "bucket m k = (case map_of m k of None \<Rightarrow> {} | Some b \<Rightarrow> b)"

definition bucket_add :: "'k \<Rightarrow> 'v \<Rightarrow> ('k \<times> 'v set) list \<Rightarrow> ('k \<times> 'v set) list" where
  "bucket_add k v m = AList.update k (insert v (bucket m k)) m"

definition bucket_remove :: "'k \<Rightarrow> 'v \<Rightarrow> ('k \<times> 'v set) list \<Rightarrow> ('k \<times> 'v set) list" where
  "bucket_remove k v m =
    (case map_of m k of
       None \<Rightarrow> m
     | Some b \<Rightarrow> if b - {v} = {} then AList.delete k m else AList.update k (b - {v}) m)"

definition index_insert :: "int \<Rightarrow> order_id \<Rightarrow> token_id \<Rightarrow> bool \<Rightarrow> ome \<Rightarrow> ome" where
  "index_insert submitted i token live s =
    (let key = (submitted, i);
         s1 = s\<lparr>by_submitted := insert key (by_submitted s)\<rparr>
     in if live
        then s1\<lparr>live_by_submitted := insert key (live_by_submitted s1),
                live_by_token := bucket_add token key (live_by_token s1)\<rparr>
        else s1)"

definition index_remove :: "order_id \<Rightarrow> ome \<Rightarrow> ome" where
  "index_remove i s =
    (case map_of (orders s) i of
       None \<Rightarrow> s
     | Some ord \<Rightarrow>
         let key = (o_submitted_at_ms ord, o_order_id ord)
         in s\<lparr>by_submitted := by_submitted s - {key},
              live_by_submitted := live_by_submitted s - {key},
              live_by_token := bucket_remove (o_token_id ord) key (live_by_token s)\<rparr>)"

definition sync_live_index :: "order_id \<Rightarrow> bool \<Rightarrow> ome \<Rightarrow> ome" where
  "sync_live_index i was_live s =
    (case map_of (orders s) i of
       None \<Rightarrow> s
     | Some ord \<Rightarrow>
         let live = is_live (o_status ord);
             key = (o_submitted_at_ms ord, o_order_id ord);
             s1 = (if \<not> was_live \<and> live
                   then s\<lparr>live_by_submitted := insert key (live_by_submitted s),
                          live_by_token := bucket_add (o_token_id ord) key (live_by_token s)\<rparr>
                   else if was_live \<and> \<not> live
                   then s\<lparr>live_by_submitted := live_by_submitted s - {key},
                          live_by_token := bucket_remove (o_token_id ord) key (live_by_token s)\<rparr>
                   else s)
         in if was_live \<and> \<not> live \<and> o_side ord = Sell \<and> o_status ord = StFilled
            then s1\<lparr>filled_sell_times :=
                   bucket_add (o_token_id ord) (o_updated_at_ms ord) (filled_sell_times s1)\<rparr>
            else s1)"

definition remaining :: "ome \<Rightarrow> order_id \<Rightarrow> decimal" where
  "remaining s i =
    (case map_of (orders s) i of
       Some ord \<Rightarrow> max (o_size ord - o_filled_size ord) 0
     | None \<Rightarrow> 0)"

text \<open>\<open>remove_account_orders\<close>: drop every row of one account, counting them.\<close>

definition remove_account_orders :: "string \<Rightarrow> ome \<Rightarrow> ome \<times> nat" where
  "remove_account_orders account s =
    (let doomed = map o_order_id
           (filter (\<lambda>ord. as_str (o_account_id ord) = account) (map snd (orders s)))
     in (fold (\<lambda>i s. (let s1 = index_remove i s in s1\<lparr>orders := AList.delete i (orders s1)\<rparr>))
           doomed s,
         length doomed))"

section \<open>Restoring from the persisted logs\<close>

definition restore_one :: "tracked_order \<Rightarrow> ome \<Rightarrow> ome" where
  "restore_one ord s =
    (let live = is_live (o_status ord);
         i = o_order_id ord;
         s1 = s\<lparr>by_internal := AList.update (o_internal_key ord) i (by_internal s)\<rparr>;
         s2 = index_remove i s1;
         s3 = s2\<lparr>orders := AList.update i ord (orders s2)\<rparr>;
         s4 = index_insert (o_submitted_at_ms ord) i (o_token_id ord) live s3
     in if o_side ord = Sell \<and> o_status ord = StFilled
        then s4\<lparr>filled_sell_times :=
               bucket_add (o_token_id ord) (o_updated_at_ms ord) (filled_sell_times s4)\<rparr>
        else s4)"

definition restore :: "tracked_order list \<Rightarrow> ome \<Rightarrow> ome" where
  "restore os s = fold restore_one os s"

definition restore_applied_one :: "applied_fill_record \<Rightarrow> ome \<Rightarrow> ome" where
  "restore_applied_one r s =
    (if afr_evicted r then s\<lparr>applied := AList.delete (afr_trade_key r) (applied s)\<rparr>
     else (let q = Suc (applied_seq s)
       in s\<lparr>applied_seq := q,
            applied := AList.update (afr_trade_key r)
              \<lparr>af_applied = afr_applied r, af_price = afr_price r, af_order_id = afr_order_id r,
               af_seq = q\<rparr> (applied s)\<rparr>))"

definition restore_applied :: "applied_fill_record list \<Rightarrow> ome \<Rightarrow> ome" where
  "restore_applied rs s = fold restore_applied_one rs s"

definition record_of :: "string \<Rightarrow> applied_fill \<Rightarrow> bool \<Rightarrow> applied_fill_record" where
  "record_of k a ev = \<lparr>afr_trade_key = k, afr_order_id = af_order_id a, afr_applied = af_applied a,
     afr_price = af_price a, afr_seq = af_seq a, afr_evicted = ev\<rparr>"

definition applied_snapshot :: "ome \<Rightarrow> applied_fill_record list" where
  "applied_snapshot s = sort_key afr_seq (map (\<lambda>(k, a). record_of k a False) (applied s))"

definition take_applied_journal :: "ome \<Rightarrow> ome \<times> applied_fill_record list" where
  "take_applied_journal s = (s\<lparr>applied_journal := []\<rparr>, applied_journal s)"

definition applied_len :: "ome \<Rightarrow> nat" where
  "applied_len s = length (applied s)"

definition applied_order_ids :: "ome \<Rightarrow> order_id set" where
  "applied_order_ids s = set (map (af_order_id \<circ> snd) (applied s))"

definition already_applied :: "ome \<Rightarrow> string \<Rightarrow> bool" where
  "already_applied s k = (case map_of (applied s) k of Some a \<Rightarrow> af_applied a > 0 | None \<Rightarrow> False)"

section \<open>The fill ledger: journal, eviction, remembering\<close>

definition journal :: "applied_fill_record \<Rightarrow> ome \<Rightarrow> ome" where
  "journal r s =
    (let j = applied_journal s @ [r]
     in s\<lparr>applied_journal :=
          (if length j > APPLIED_JOURNAL_CAP
           then drop (length j - APPLIED_JOURNAL_CAP div 2) j else j)\<rparr>)"

text \<open>Is the order of an entry live, hence the entry not evictable?\<close>

definition entry_live :: "ome \<Rightarrow> applied_fill \<Rightarrow> bool" where
  "entry_live s a = (case map_of (orders s) (af_order_id a) of
     Some ord \<Rightarrow> is_live (o_status ord) | None \<Rightarrow> False)"

fun min_by_seq :: "(string \<times> applied_fill) list \<Rightarrow> (string \<times> applied_fill) option" where
  "min_by_seq [] = None"
| "min_by_seq (x # xs) = (case min_by_seq xs of
     None \<Rightarrow> Some x
   | Some y \<Rightarrow> if af_seq (snd y) < af_seq (snd x) then Some y else Some x)"

definition victim :: "ome \<Rightarrow> (string \<times> applied_fill) option" where
  "victim s = min_by_seq (filter (\<lambda>(_, a). \<not> entry_live s a) (applied s))"

definition evict_one :: "string \<Rightarrow> applied_fill \<Rightarrow> ome \<Rightarrow> ome" where
  "evict_one k a s = journal (record_of k a True) (s\<lparr>applied := AList.delete k (applied s)\<rparr>)"

lemma min_by_seq_mem: "min_by_seq xs = Some x \<Longrightarrow> x \<in> set xs"
  by (induction xs arbitrary: x) (auto split: option.splits if_splits)

lemma victim_mem: "victim s = Some (k, a) \<Longrightarrow> (k, a) \<in> set (applied s) \<and> \<not> entry_live s a"
  unfolding victim_def by (drule min_by_seq_mem) simp

lemma journal_sel [simp, frame_simps]:
  "orders (journal r s) = orders s" "by_internal (journal r s) = by_internal s"
  "by_submitted (journal r s) = by_submitted s"
  "live_by_submitted (journal r s) = live_by_submitted s"
  "live_by_token (journal r s) = live_by_token s"
  "filled_sell_times (journal r s) = filled_sell_times s"
  "applied (journal r s) = applied s" "applied_seq (journal r s) = applied_seq s"
  "pending_fills (journal r s) = pending_fills s" "pending_ttl_ms (journal r s) = pending_ttl_ms s"
  "ghost_alerted (journal r s) = ghost_alerted s"
  by (simp_all add: journal_def Let_def)

lemma applied_evict_one [simp]: "applied (evict_one k a s) = AList.delete k (applied s)"
  by (simp add: evict_one_def)

lemma victim_shrinks:
  "victim s = Some (k, a) \<Longrightarrow> length (applied (evict_one k a s)) < length (applied s)"
proof -
  assume "victim s = Some (k, a)"
  then have "k \<in> fst ` set (applied s)"
    by (force dest: victim_mem)
  then obtain b where "map_of (applied s) k = Some b"
    by (cases "map_of (applied s) k") (auto simp: map_of_eq_None_iff)
  then show ?thesis by (simp add: length_delete_less)
qed

text \<open>The eviction loop: every round removes the victim, so the table's length bounds it.\<close>

function evict_applied :: "ome \<Rightarrow> ome" where
  "evict_applied s =
    (if length (applied s) > APPLIED_CAP
     then (case victim s of None \<Rightarrow> s | Some (k, a) \<Rightarrow> evict_applied (evict_one k a s))
     else s)"
  by pat_completeness auto
termination
  by (relation "measure (\<lambda>s. length (applied s))") (auto simp del: applied_evict_one dest: victim_shrinks)

declare evict_applied.simps [simp del]

definition remember :: "string \<Rightarrow> order_id \<Rightarrow> decimal \<Rightarrow> decimal \<Rightarrow> ome \<Rightarrow> ome" where
  "remember k i amount price s =
    (case map_of (applied s) k of
       Some e \<Rightarrow>
         if af_applied e = amount \<and> af_price e = price then s
         else (let e' = e\<lparr>af_applied := amount, af_price := price\<rparr>
           in evict_applied (journal (record_of k e' False)
                (s\<lparr>applied := AList.update k e' (applied s)\<rparr>)))
     | None \<Rightarrow>
         (let q = Suc (applied_seq s);
              e' = \<lparr>af_applied = amount, af_price = price, af_order_id = i, af_seq = q\<rparr>
          in evict_applied (journal (record_of k e' False)
               (s\<lparr>applied_seq := q, applied := AList.update k e' (applied s)\<rparr>))))"

section \<open>Queries\<close>

definition known_venue_ids :: "ome \<Rightarrow> string set" where
  "known_venue_ids s = set (List.map_filter o_venue_order_id (map snd (orders s)))"

definition rows :: "ome \<Rightarrow> order_key set \<Rightarrow> tracked_order list" where
  "rows s ks = List.map_filter (map_of (orders s)) (map snd (sorted_list_of_set ks))"

definition all_orders :: "ome \<Rightarrow> tracked_order list" where
  "all_orders s = rows s (by_submitted s)"

definition live_orders :: "ome \<Rightarrow> tracked_order list" where
  "live_orders s = filter (\<lambda>ord. is_live (o_status ord)) (rows s (live_by_submitted s))"

definition live_for :: "ome \<Rightarrow> token_id \<Rightarrow> side \<Rightarrow> tracked_order list" where
  "live_for s token sd =
    filter (\<lambda>ord. is_live (o_status ord) \<and> o_side ord = sd) (rows s (bucket (live_by_token s) token))"

definition has_filled_sell_since :: "ome \<Rightarrow> token_id \<Rightarrow> int \<Rightarrow> bool" where
  "has_filled_sell_since s token since =
    (case map_of (filled_sell_times s) token of
       Some ts \<Rightarrow> \<exists>t \<in> ts. since \<le> t
     | None \<Rightarrow> False)"

definition by_key :: "ome \<Rightarrow> string \<Rightarrow> tracked_order option" where
  "by_key s k = Option.bind (map_of (by_internal s) k) (map_of (orders s))"

definition has_pending :: "ome \<Rightarrow> string \<Rightarrow> bool" where
  "has_pending s k = (case by_key s k of Some ord \<Rightarrow> is_live (o_status ord) | None \<Rightarrow> False)"

definition live_id_for :: "ome \<Rightarrow> string \<Rightarrow> order_id option" where
  "live_id_for s k = (case by_key s k of
     Some ord \<Rightarrow> if is_live (o_status ord) then Some (o_order_id ord) else None
   | None \<Rightarrow> None)"

definition next_escalation_ms :: "ome \<Rightarrow> int" where
  "next_escalation_ms s =
    (case List.map_filter o_escalate_at_ms (rows s (live_by_submitted s)) of
       [] \<Rightarrow> 2 ^ 63 - 1
     | t # ts \<Rightarrow> fold min ts t)"

definition by_venue_or_id :: "ome \<Rightarrow> string \<Rightarrow> tracked_order option" where
  "by_venue_or_id s ext =
    (case map_of (orders s) ext of
       Some ord \<Rightarrow> Some ord
     | None \<Rightarrow> List.find (\<lambda>ord. o_venue_order_id ord = Some ext) (map snd (orders s)))"

section \<open>Submitting and moving orders\<close>

definition fresh_order :: "submit_params \<Rightarrow> tracked_order" where
  "fresh_order p =
    (let r = sp_request p in
     \<lparr>o_order_id = sp_order_id p, o_internal_key = rq_internal_key r, o_strategy = rq_strategy r,
      o_asset = rq_asset r, o_direction = rq_direction r, o_token_id = rq_token_id r,
      o_condition_id = rq_condition_id r, o_side = rq_side r, o_mode = rq_mode r,
      o_role = RolePending, o_price = rq_price r, o_size = rq_size r, o_filled_size = 0,
      o_avg_fill_price = None, o_status = StPending, o_round_slot = rq_round_slot r,
      o_submitted_at_ms = sp_submitted_at_ms p, o_updated_at_ms = sp_submitted_at_ms p,
      o_decision_at_ms =
        (if sp_decision_at_ms p > 0 then sp_decision_at_ms p else sp_submitted_at_ms p),
      o_execute_at_ms = sp_execute_at_ms p, o_report_at_ms = sp_report_at_ms p,
      o_venue_order_id = None, o_place_uncertain = False, o_escalate_at_ms = None,
      o_maker_timeout_ms = sp_maker_timeout_ms p, o_account_id = rq_account_id r, o_venue = [],
      o_round_duration_sec = sp_round_duration_sec p, o_rejected_reason = None\<rparr>)"

definition submit :: "submit_params \<Rightarrow> ome \<Rightarrow> ome \<times> (core_error + unit)" where
  "submit p s =
    (let key = rq_internal_key (sp_request p) in
     if has_pending s key
     then (s, Inl (core_error_new InvalidParams [Txt ''duplicate internal key: '', Txt key]))
     else if map_of (orders s) (sp_order_id p) \<noteq> None
     then (s, Inl (core_error_new InvalidParams
                [Txt ''order already registered: '', Txt (sp_order_id p)]))
     else
       let ord = fresh_order p;
           s1 = s\<lparr>by_internal := AList.update key (sp_order_id p) (by_internal s)\<rparr>;
           s2 = index_insert (sp_submitted_at_ms p) (sp_order_id p) (rq_token_id (sp_request p))
                  (is_live (o_status ord)) s1
       in (s2\<lparr>orders := AList.update (sp_order_id p) ord (orders s2)\<rparr>, Inr ()))"

definition unknown_order :: "order_id \<Rightarrow> core_error" where
  "unknown_order i = core_error_new UnknownOrder [Txt ''unknown order: '', Txt i]"

text \<open>\<open>mutate\<close>: run an update on one order, stamp the time, and re-place its live-index membership.\<close>

definition mutate ::
  "order_id \<Rightarrow> int \<Rightarrow> (tracked_order \<Rightarrow> core_error + tracked_order) \<Rightarrow> ome \<Rightarrow> ome \<times> (core_error + unit)"
where
  "mutate i now f s =
    (case map_of (orders s) i of
       None \<Rightarrow> (s, Inl (unknown_order i))
     | Some ord \<Rightarrow>
         (case f ord of
            Inl e \<Rightarrow> (s, Inl e)
          | Inr ord' \<Rightarrow>
              (sync_live_index i (is_live (o_status ord))
                 (s\<lparr>orders := AList.update i (ord'\<lparr>o_updated_at_ms := now\<rparr>) (orders s)\<rparr>), Inr ())))"

definition mark_live :: "order_id \<Rightarrow> int \<Rightarrow> ome \<Rightarrow> ome \<times> (core_error + unit)" where
  "mark_live i now = mutate i now
    (\<lambda>ord. Inr (if o_status ord = StPending then ord\<lparr>o_status := StLive\<rparr> else ord))"

definition mark_terminal ::
  "order_id \<Rightarrow> order_status \<Rightarrow> int \<Rightarrow> ome \<Rightarrow> ome \<times> (core_error + unit)" where
  "mark_terminal i st now = mutate i now (\<lambda>ord. Inr (ord\<lparr>o_status := st\<rparr>))"

definition set_escalation :: "order_id \<Rightarrow> int \<Rightarrow> ome \<Rightarrow> ome \<times> (core_error + unit)" where
  "set_escalation i at_ms = mutate i at_ms (\<lambda>ord. Inr (ord\<lparr>o_escalate_at_ms := Some at_ms\<rparr>))"

definition bind_venue :: "order_id \<Rightarrow> string \<Rightarrow> int \<Rightarrow> ome \<Rightarrow> ome \<times> (core_error + unit)" where
  "bind_venue i v now = mutate i now (\<lambda>ord. Inr (ord\<lparr>o_venue_order_id := Some v\<rparr>))"

definition mark_place_uncertain :: "order_id \<Rightarrow> int \<Rightarrow> ome \<Rightarrow> ome \<times> (core_error + unit)" where
  "mark_place_uncertain i now = mutate i now (\<lambda>ord. Inr (ord\<lparr>o_place_uncertain := True\<rparr>))"

definition mark_rejected_with_reason ::
  "order_id \<Rightarrow> string \<Rightarrow> int \<Rightarrow> ome \<Rightarrow> ome \<times> (core_error + unit)" where
  "mark_rejected_with_reason i reason now = mutate i now
    (\<lambda>ord. Inr (ord\<lparr>o_status := StRejected, o_rejected_reason := Some reason\<rparr>))"

definition backfill_round_duration :: "order_id \<Rightarrow> int \<Rightarrow> ome \<Rightarrow> ome" where
  "backfill_round_duration i sec s =
    (if sec \<le> 0 then s
     else case map_of (orders s) i of
       Some ord \<Rightarrow> s\<lparr>orders := AList.update i (order_backfill_round_duration sec ord) (orders s)\<rparr>
     | None \<Rightarrow> s)"

section \<open>Fills\<close>

text \<open>\<open>resolve\<close>: the order a fill belongs to: its core or venue id, else the newest live order on
  the same token and side (a stable sort by descending submission time, of which the first).\<close>

definition resolve :: "ome \<Rightarrow> fill \<Rightarrow> order_id option" where
  "resolve s f =
    (case by_venue_or_id s (f_order_id f) of
       Some ord \<Rightarrow> Some (o_order_id ord)
     | None \<Rightarrow>
         (case sort_key (\<lambda>ord. - o_submitted_at_ms ord) (live_for s (f_token_id f) (f_side f)) of
            [] \<Rightarrow> None
          | ord # _ \<Rightarrow> Some (o_order_id ord)))"

text \<open>The volume-weighted average after a positive fill; \<open>None\<close> is an overflow, which leaves the old
  average standing.\<close>

definition weighted_avg ::
  "dec_ops \<Rightarrow> decimal option \<Rightarrow> decimal \<Rightarrow> decimal \<Rightarrow> decimal \<Rightarrow> decimal \<Rightarrow> decimal option" where
  "weighted_avg D avg prev price effective capped =
    (if capped > 0
     then (case (checked_mul D (case avg of Some a \<Rightarrow> a | None \<Rightarrow> 0) prev, checked_mul D price effective) of
             (Some cur, Some w) \<Rightarrow> Option.bind (checked_add D cur w) (\<lambda>total. checked_div D total capped)
           | _ \<Rightarrow> None)
     else Some price)"

text \<open>The pieces of \<open>record_delta\<close>: the size after the cap, the role of the fill, the order row after
  it, and the two reports.\<close>

definition capped_size :: "tracked_order \<Rightarrow> decimal \<Rightarrow> decimal" where
  "capped_size ord requested =
    (if o_size ord > 0 then min requested (o_size ord) else requested)"

definition fill_role :: "tracked_order \<Rightarrow> bool option \<Rightarrow> order_role" where
  "fill_role ord maker = (case maker of
     Some True \<Rightarrow> RoleMaker
   | Some False \<Rightarrow> RoleTaker
   | None \<Rightarrow> role_from_fill_policy (o_mode ord))"

definition filled_order ::
  "dec_ops \<Rightarrow> tracked_order \<Rightarrow> decimal \<Rightarrow> decimal \<Rightarrow> int \<Rightarrow> bool option \<Rightarrow> tracked_order" where
  "filled_order D ord capped price now maker =
    (let prev = o_filled_size ord;
         effective = capped - prev;
         avg = (if effective > 0
                then (case weighted_avg D (o_avg_fill_price ord) prev price effective capped of
                        Some a \<Rightarrow> Some a | None \<Rightarrow> o_avg_fill_price ord)
                else o_avg_fill_price ord);
         st = (if is_terminal (o_status ord) then o_status ord
               else if capped \<ge> o_size ord then StFilled
               else if capped > 0 then StPartiallyFilled
               else o_status ord);
         role = (if effective > 0 then after_fill (o_role ord) (fill_role ord maker) else o_role ord)
     in ord\<lparr>o_updated_at_ms := now, o_avg_fill_price := avg, o_filled_size := capped,
            o_status := st, o_role := role\<rparr>)"

definition late_of ::
  "order_id \<Rightarrow> tracked_order \<Rightarrow> decimal \<Rightarrow> decimal \<Rightarrow> decimal \<Rightarrow> late_fill" where
  "late_of i ord sz cumulative requested =
    \<lparr>lf_order_id = i, lf_trade_id = [],
     lf_absorbed_by = (if is_terminal (o_status ord) then Some (o_status ord) else None),
     lf_size = sz, lf_cumulative = cumulative, lf_reported_cumulative = requested,
     lf_order_size = o_size ord, lf_overfill = (requested > cumulative)\<rparr>"

definition delta_of ::
  "order_id \<Rightarrow> tracked_order \<Rightarrow> decimal \<Rightarrow> decimal \<Rightarrow> bool option \<Rightarrow> fill_delta" where
  "delta_of i ord capped price maker =
    \<lparr>fd_order_id = i, fd_token_id = o_token_id ord, fd_account_id = o_account_id ord,
     fd_side = o_side ord, fd_delta = capped - o_filled_size ord, fd_price = price,
     fd_cumulative = capped, fd_strategy = o_strategy ord, fd_asset = o_asset ord,
     fd_direction = o_direction ord, fd_condition_id = o_condition_id ord,
     fd_round_slot = o_round_slot ord, fd_mode = o_mode ord, fd_role = fill_role ord maker,
     fd_limit_price = o_price ord, fd_trade_id = []\<rparr>"

definition record_delta ::
  "dec_ops \<Rightarrow> order_id \<Rightarrow> decimal \<Rightarrow> decimal \<Rightarrow> int \<Rightarrow> bool option \<Rightarrow> ome \<Rightarrow>
   ome \<times> (core_error + fill_delta option \<times> late_fill option)" where
  "record_delta D i moved price now maker s =
    (case map_of (orders s) i of
       None \<Rightarrow> (s, Inl (unknown_order i))
     | Some ord \<Rightarrow>
         let prev = o_filled_size ord;
             requested = max (prev + moved) 0;
             capped = capped_size ord requested;
             effective = capped - prev;
             overfill = (requested > capped)
         in if effective = 0
            then (s\<lparr>orders := AList.update i (ord\<lparr>o_updated_at_ms := now\<rparr>) (orders s)\<rparr>,
                  Inr (None,
                       if overfill \<and> moved > 0
                       then Some (late_of i ord 0 prev requested) else None))
            else (sync_live_index i (is_live (o_status ord))
                    (s\<lparr>orders := AList.update i (filled_order D ord capped price now maker) (orders s)\<rparr>),
                  Inr (Some (delta_of i ord capped price maker),
                       if is_terminal (o_status ord) \<or> overfill
                       then Some (late_of i ord effective capped requested) else None)))"

definition or_else :: "'a option \<Rightarrow> 'a option \<Rightarrow> 'a option" where
  "or_else a b = (case a of Some x \<Rightarrow> Some x | None \<Rightarrow> b)"

definition raw_key :: "fill \<Rightarrow> string" where
  "raw_key f = (case or_else (f_trade_id f) (f_tx_hash f) of Some k \<Rightarrow> k | None \<Rightarrow> [])"

definition trade_key :: "dec_ops \<Rightarrow> order_id \<Rightarrow> fill \<Rightarrow> string" where
  "trade_key D i f = (case or_else (f_trade_id f) (f_tx_hash f) of
     Some k \<Rightarrow> k
   | None \<Rightarrow> i @ '':'' @ dshow D (f_size f) @ '':'' @ dshow D (f_price f))"

text \<open>The guard before resolution: this trade was booked for an order no longer tracked.\<close>

definition duplicate_untracked :: "fill \<Rightarrow> ome \<Rightarrow> bool" where
  "duplicate_untracked f s \<longleftrightarrow>
    f_status f \<noteq> FsFailed \<and> raw_key f \<noteq> [] \<and>
    (case map_of (applied s) (raw_key f) of
       Some prev \<Rightarrow> af_applied prev > 0 \<and> map_of (orders s) (af_order_id prev) = None
     | None \<Rightarrow> False)"

text \<open>The resolve-miss branch: buffer the fill (500 at most, the oldest dropped), and flag a trade
  seen for the first time.\<close>

definition buffer_ghost :: "fill \<Rightarrow> int \<Rightarrow> ome \<Rightarrow> ome \<times> fill_outcome" where
  "buffer_ghost f now s =
    (let key = raw_key f;
         is_ghost = (f_status f \<noteq> FsFailed \<and> key \<noteq> []);
         first_seen = (is_ghost \<and> key \<notin> ghost_alerted s);
         buf = pending_fills s @ [\<lparr>pf_fill = f, pf_at_ms = now\<rparr>];
         s1 = s\<lparr>ghost_alerted := (if is_ghost then insert key (ghost_alerted s) else ghost_alerted s),
                pending_fills := (if length buf > 500 then tl buf else buf)\<rparr>
     in (s1, no_outcome\<lparr>oc_ghost_fill :=
           (if first_seen
            then Some \<lparr>gf_trade_id = key, gf_token_id = f_token_id f, gf_side = f_side f,
                       gf_size = f_size f, gf_price = f_price f\<rparr>
            else None)\<rparr>))"

text \<open>Stamp the trade key on the two reports.\<close>

definition stamped :: "string \<Rightarrow> fill_delta option \<times> late_fill option \<Rightarrow> fill_outcome" where
  "stamped k r = \<lparr>oc_delta = map_option (\<lambda>d. d\<lparr>fd_trade_id := k\<rparr>) (fst r),
     oc_late_fill = map_option (\<lambda>l. l\<lparr>lf_trade_id := k\<rparr>) (snd r), oc_ghost_fill = None\<rparr>"

definition apply_failed ::
  "dec_ops \<Rightarrow> fill \<Rightarrow> order_id \<Rightarrow> string \<Rightarrow> int \<Rightarrow> ome \<Rightarrow> ome \<times> (core_error + fill_outcome)" where
  "apply_failed D f i k now s =
    (case map_of (applied s) k of
       None \<Rightarrow> (s, Inr no_outcome)
     | Some prev \<Rightarrow>
         if \<not> af_applied prev > 0 then (s, Inr no_outcome)
         else (case record_delta D i (- af_applied prev) (af_price prev) now (f_maker f) s of
            (s1, Inl e) \<Rightarrow> (s1, Inl e)
          | (s1, Inr r) \<Rightarrow> (remember k i 0 (af_price prev) s1, Inr (stamped k r))))"

definition apply_reported ::
  "dec_ops \<Rightarrow> fill \<Rightarrow> order_id \<Rightarrow> string \<Rightarrow> int \<Rightarrow> ome \<Rightarrow> ome \<times> (core_error + fill_outcome)" where
  "apply_reported D f i k now s =
    (let reported = max (f_size f) 0;
         (prev_applied, prev_price) =
           (case map_of (applied s) k of Some a \<Rightarrow> (af_applied a, af_price a) | None \<Rightarrow> (0, f_price f));
         delta_raw = reported - prev_applied
     in if delta_raw \<le> 0
        then (remember k i (max prev_applied reported) prev_price s, Inr no_outcome)
        else (case record_delta D i delta_raw (f_price f) now (f_maker f) s of
           (s1, Inl e) \<Rightarrow> (s1, Inl e)
         | (s1, Inr r) \<Rightarrow> (remember k i reported (f_price f) s1, Inr (stamped k r))))"

definition apply_fill_report ::
  "dec_ops \<Rightarrow> fill \<Rightarrow> int \<Rightarrow> ome \<Rightarrow> ome \<times> (core_error + fill_outcome)" where
  "apply_fill_report D f now s =
    (if duplicate_untracked f s then (s, Inr no_outcome)
     else case resolve s f of
       None \<Rightarrow> (case buffer_ghost f now s of (s1, out) \<Rightarrow> (s1, Inr out))
     | Some i \<Rightarrow>
         let s1 = s\<lparr>ghost_alerted := (if raw_key f \<noteq> [] then ghost_alerted s - {raw_key f}
                                      else ghost_alerted s)\<rparr>;
             f1 = f\<lparr>f_order_id := i\<rparr>;
             k = trade_key D i f1
         in if f_status f1 = FsFailed then apply_failed D f1 i k now s1
            else apply_reported D f1 i k now s1)"

definition apply_fill ::
  "dec_ops \<Rightarrow> fill \<Rightarrow> int \<Rightarrow> ome \<Rightarrow> ome \<times> (core_error + fill_delta option)" where
  "apply_fill D f now s =
    (case apply_fill_report D f now s of
       (s1, Inl e) \<Rightarrow> (s1, Inl e)
     | (s1, Inr out) \<Rightarrow> (s1, Inr (oc_delta out)))"

fun drain_loop ::
  "dec_ops \<Rightarrow> int \<Rightarrow> pending_fill list \<Rightarrow> fill_outcome list \<Rightarrow> ome \<Rightarrow>
   ome \<times> (core_error + fill_outcome list)" where
  "drain_loop D now [] out s = (s, Inr out)"
| "drain_loop D now (pf # pfs) out s =
    (if now - pf_at_ms pf > pending_ttl_ms s then drain_loop D now pfs out s
     else if resolve s (pf_fill pf) \<noteq> None
     then (case apply_fill_report D (pf_fill pf) now s of
         (s1, Inl e) \<Rightarrow> (s1, Inl e)
       | (s1, Inr oc) \<Rightarrow>
           drain_loop D now pfs
             (if oc_delta oc \<noteq> None \<or> oc_late_fill oc \<noteq> None then out @ [oc] else out) s1)
     else drain_loop D now pfs out (s\<lparr>pending_fills := pending_fills s @ [pf]\<rparr>))"

definition drain_pending :: "dec_ops \<Rightarrow> int \<Rightarrow> ome \<Rightarrow> ome \<times> (core_error + fill_outcome list)" where
  "drain_pending D now s = drain_loop D now (pending_fills s) [] (s\<lparr>pending_fills := []\<rparr>)"

definition pending_unknown_count :: "ome \<Rightarrow> nat" where
  "pending_unknown_count s = length (pending_fills s)"

end
