(* ===== verification/OmeIndex.thy ===== *)
theory OmeIndex
  imports Ome
begin

text \<open>
  The order table and its indexes agree: in every state the engine reaches, \<open>by_submitted\<close>,
  \<open>live_by_submitted\<close> and the per-token buckets hold exactly the keys of the orders, of the live
  orders, and of the live orders of the token. The theory proves it for each operation, runs it
  through \<open>invariant_machine\<close>, and reads the queries (\<open>live_orders\<close>, \<open>live_for\<close>) off the order table.
\<close>

section \<open>Buckets\<close>

lemma bucket_add_apply [simp]:
  "bucket (bucket_add k v m) k' = (if k' = k then insert v (bucket m k) else bucket m k')"
  by (auto simp: bucket_def bucket_add_def)

lemma bucket_remove_apply [simp]:
  "bucket (bucket_remove k v m) k' = (if k' = k then bucket m k - {v} else bucket m k')"
  by (auto simp: bucket_def bucket_remove_def split: option.splits)

definition buckets_ok :: "('k \<times> 'v set) list \<Rightarrow> bool" where
  "buckets_ok m \<longleftrightarrow> distinct (map fst m) \<and> (\<forall>k b. map_of m k = Some b \<longrightarrow> b \<noteq> {})"

lemma buckets_ok_Nil [simp]: "buckets_ok []"
  by (simp add: buckets_ok_def)

lemma buckets_ok_add [simp]: "buckets_ok m \<Longrightarrow> buckets_ok (bucket_add k v m)"
  by (auto simp: buckets_ok_def bucket_add_def simp del: map_of_eq_Some_iff)

lemma buckets_ok_remove [simp]: "buckets_ok m \<Longrightarrow> buckets_ok (bucket_remove k v m)"
  by (auto simp: buckets_ok_def bucket_remove_def simp del: map_of_eq_Some_iff split: option.splits)

section \<open>What the operations leave alone\<close>

lemma index_insert_frame [simp, frame_simps]:
  "orders (index_insert t i k l s) = orders s" "by_internal (index_insert t i k l s) = by_internal s"
  "filled_sell_times (index_insert t i k l s) = filled_sell_times s"
  "applied (index_insert t i k l s) = applied s"
  "applied_journal (index_insert t i k l s) = applied_journal s"
  "applied_seq (index_insert t i k l s) = applied_seq s"
  "pending_fills (index_insert t i k l s) = pending_fills s"
  "pending_ttl_ms (index_insert t i k l s) = pending_ttl_ms s"
  "ghost_alerted (index_insert t i k l s) = ghost_alerted s"
  by (simp_all add: index_insert_def Let_def)

lemma index_remove_frame [simp, frame_simps]:
  "orders (index_remove i s) = orders s" "by_internal (index_remove i s) = by_internal s"
  "filled_sell_times (index_remove i s) = filled_sell_times s"
  "applied (index_remove i s) = applied s" "applied_journal (index_remove i s) = applied_journal s"
  "applied_seq (index_remove i s) = applied_seq s"
  "pending_fills (index_remove i s) = pending_fills s"
  "pending_ttl_ms (index_remove i s) = pending_ttl_ms s"
  "ghost_alerted (index_remove i s) = ghost_alerted s"
  by (simp_all add: index_remove_def Let_def split: option.splits)

lemma sync_live_index_frame [simp, frame_simps]:
  "orders (sync_live_index i w s) = orders s" "by_internal (sync_live_index i w s) = by_internal s"
  "by_submitted (sync_live_index i w s) = by_submitted s"
  "applied (sync_live_index i w s) = applied s"
  "applied_journal (sync_live_index i w s) = applied_journal s"
  "applied_seq (sync_live_index i w s) = applied_seq s"
  "pending_fills (sync_live_index i w s) = pending_fills s"
  "pending_ttl_ms (sync_live_index i w s) = pending_ttl_ms s"
  "ghost_alerted (sync_live_index i w s) = ghost_alerted s"
  by (simp_all add: sync_live_index_def Let_def split: option.splits)

lemma evict_applied_frame [simp, frame_simps]:
  "orders (evict_applied s) = orders s" "by_internal (evict_applied s) = by_internal s"
  "by_submitted (evict_applied s) = by_submitted s"
  "live_by_submitted (evict_applied s) = live_by_submitted s"
  "live_by_token (evict_applied s) = live_by_token s"
  "filled_sell_times (evict_applied s) = filled_sell_times s"
  "applied_seq (evict_applied s) = applied_seq s"
  "pending_fills (evict_applied s) = pending_fills s"
  "pending_ttl_ms (evict_applied s) = pending_ttl_ms s"
  "ghost_alerted (evict_applied s) = ghost_alerted s"
  by (induction s rule: evict_applied.induct;
      subst evict_applied.simps; simp add: evict_one_def split: option.splits prod.splits)+

lemma remember_frame [simp, frame_simps]:
  "orders (remember k i a p s) = orders s" "by_internal (remember k i a p s) = by_internal s"
  "by_submitted (remember k i a p s) = by_submitted s"
  "live_by_submitted (remember k i a p s) = live_by_submitted s"
  "live_by_token (remember k i a p s) = live_by_token s"
  "filled_sell_times (remember k i a p s) = filled_sell_times s"
  "pending_fills (remember k i a p s) = pending_fills s"
  "pending_ttl_ms (remember k i a p s) = pending_ttl_ms s"
  "ghost_alerted (remember k i a p s) = ghost_alerted s"
  by (simp_all add: remember_def Let_def split: option.splits)

section \<open>The index invariant\<close>

definition keys_where :: "(order_id \<times> tracked_order) list \<Rightarrow> (tracked_order \<Rightarrow> bool) \<Rightarrow> order_key set" where
  "keys_where os P = {(t, k). \<exists>ord. map_of os k = Some ord \<and> P ord \<and> t = o_submitted_at_ms ord}"

abbreviation live :: "tracked_order \<Rightarrow> bool" where
  "live ord \<equiv> is_live (o_status ord)"

definition index_inv :: "ome \<Rightarrow> bool" where
  "index_inv s \<longleftrightarrow>
    distinct (map fst (orders s)) \<and>
    (\<forall>k ord. map_of (orders s) k = Some ord \<longrightarrow> o_order_id ord = k) \<and>
    by_submitted s = keys_where (orders s) (\<lambda>_. True) \<and>
    live_by_submitted s = keys_where (orders s) live \<and>
    (\<forall>tok. bucket (live_by_token s) tok =
       keys_where (orders s) (\<lambda>ord. live ord \<and> o_token_id ord = tok)) \<and>
    buckets_ok (live_by_token s)"

lemma index_invI:
  assumes "distinct (map fst (orders s))"
    and "\<And>k ord. map_of (orders s) k = Some ord \<Longrightarrow> o_order_id ord = k"
    and "by_submitted s = keys_where (orders s) (\<lambda>_. True)"
    and "live_by_submitted s = keys_where (orders s) live"
    and "\<And>tok. bucket (live_by_token s) tok =
       keys_where (orders s) (\<lambda>ord. live ord \<and> o_token_id ord = tok)"
    and "buckets_ok (live_by_token s)"
  shows "index_inv s"
  using assms by (auto simp: index_inv_def)

lemma index_inv_id: "index_inv s \<Longrightarrow> map_of (orders s) k = Some ord \<Longrightarrow> o_order_id ord = k"
  by (simp add: index_inv_def)

lemma index_inv_new: "index_inv ome_new"
  by (auto simp: index_inv_def ome_new_def keys_where_def bucket_def)

lemma index_inv_cong:
  assumes "orders s' = orders s" "by_submitted s' = by_submitted s"
    and "live_by_submitted s' = live_by_submitted s" "live_by_token s' = live_by_token s"
  shows "index_inv s' \<longleftrightarrow> index_inv s"
  using assms by (simp add: index_inv_def)

lemma index_inv_upd [simp]:
  "index_inv (s\<lparr>pending_fills := a\<rparr>) \<longleftrightarrow> index_inv s" "index_inv (s\<lparr>ghost_alerted := b\<rparr>) \<longleftrightarrow> index_inv s"
  "index_inv (s\<lparr>filled_sell_times := c\<rparr>) \<longleftrightarrow> index_inv s" "index_inv (s\<lparr>by_internal := d\<rparr>) \<longleftrightarrow> index_inv s"
  "index_inv (s\<lparr>applied := e\<rparr>) \<longleftrightarrow> index_inv s" "index_inv (s\<lparr>applied_journal := g\<rparr>) \<longleftrightarrow> index_inv s"
  "index_inv (s\<lparr>applied_seq := h\<rparr>) \<longleftrightarrow> index_inv s"
  by (simp_all add: index_inv_def)

lemma finite_keys_where: "finite (keys_where os P)"
proof (rule finite_subset)
  show "keys_where os P \<subseteq> (\<lambda>(k, ord). (o_submitted_at_ms ord, k)) ` set os"
    by (force simp: keys_where_def dest: map_of_SomeD)
qed simp

text \<open>Storing a row that keeps the identity fields of the one it replaces, then re-syncing.\<close>

definition same_identity :: "tracked_order \<Rightarrow> tracked_order \<Rightarrow> bool" where
  "same_identity a b \<longleftrightarrow> o_order_id a = o_order_id b \<and> o_submitted_at_ms a = o_submitted_at_ms b \<and>
     o_token_id a = o_token_id b"

lemma keys_where_update:
  assumes "map_of os i = Some ord" and "o_submitted_at_ms ord' = o_submitted_at_ms ord"
  shows "keys_where (AList.update i ord' os) P =
    (if P ord' then insert (o_submitted_at_ms ord, i) (keys_where os P)
     else keys_where os P - {(o_submitted_at_ms ord, i)})"
  using assms by (auto simp: keys_where_def split: if_splits)

lemma keys_where_mem:
  "map_of os i = Some ord \<Longrightarrow> (o_submitted_at_ms ord, i) \<in> keys_where os P \<longleftrightarrow> P ord"
  by (auto simp: keys_where_def)

lemma store_index_inv [inv_intros]:
  assumes inv: "index_inv s" and old: "map_of (orders s) i = Some ord"
    and same: "same_identity ord' ord"
  shows "index_inv (sync_live_index i (live ord) (s\<lparr>orders := AList.update i ord' (orders s)\<rparr>))"
proof -
  let ?os = "AList.update i ord' (orders s)"
  let ?t = "sync_live_index i (live ord) (s\<lparr>orders := ?os\<rparr>)"
  have idi: "o_order_id ord' = i" "o_submitted_at_ms ord' = o_submitted_at_ms ord"
    "o_token_id ord' = o_token_id ord"
    using same index_inv_id [OF inv old] by (auto simp: same_identity_def)
  note upd = keys_where_update [OF old idi(2)]
  note mem = keys_where_mem [OF old]
  show ?thesis
  proof (rule index_invI)
    show "live_by_submitted ?t = keys_where (orders ?t) live"
      using inv mem [of live] by (auto simp: sync_live_index_def Let_def index_inv_def upd idi)
    show "bucket (live_by_token ?t) tok =
      keys_where (orders ?t) (\<lambda>ord. live ord \<and> o_token_id ord = tok)" for tok
      using inv mem [of "\<lambda>ord. live ord \<and> o_token_id ord = tok"]
      by (auto simp: sync_live_index_def Let_def index_inv_def upd idi)
    show "buckets_ok (live_by_token ?t)"
      using inv by (simp add: sync_live_index_def Let_def index_inv_def)
    show "by_submitted ?t = keys_where (orders ?t) (\<lambda>_. True)"
      using inv mem [of "\<lambda>_. True"] by (auto simp: index_inv_def upd)
    show "distinct (map fst (orders ?t))"
      using inv by (simp add: index_inv_def)
    show "o_order_id x = k" if "map_of (orders ?t) k = Some x" for k x
      using that inv idi by (auto simp: index_inv_def split: if_splits)
  qed
qed

lemma store_same_status_index_inv [inv_intros]:
  assumes "index_inv s" and "map_of (orders s) i = Some ord" and "same_identity ord' ord"
    and "o_status ord' = o_status ord"
  shows "index_inv (s\<lparr>orders := AList.update i ord' (orders s)\<rparr>)"
proof -
  have "sync_live_index i (live ord) (s\<lparr>orders := AList.update i ord' (orders s)\<rparr>)
      = s\<lparr>orders := AList.update i ord' (orders s)\<rparr>"
    using assms(4) by (auto simp: sync_live_index_def Let_def)
  with store_index_inv [OF assms(1-3)] show ?thesis by simp
qed

text \<open>A row leaving or entering the table under an arbitrary time and token.\<close>

lemma keys_where_delete:
  "keys_where (AList.delete i os) P = {(t, k) \<in> keys_where os P. k \<noteq> i}"
  by (auto simp: keys_where_def)

lemma keys_where_insert:
  "keys_where (AList.update i ord os) P =
    {(t, k) \<in> keys_where os P. k \<noteq> i} \<union> (if P ord then {(o_submitted_at_ms ord, i)} else {})"
  by (auto simp: keys_where_def split: if_splits)

lemma keys_where_drop:
  assumes "map_of os i = Some ord"
  shows "keys_where os P - {(o_submitted_at_ms ord, i)} = {(t, k) \<in> keys_where os P. k \<noteq> i}"
  using assms by (auto simp: keys_where_def)

lemma keys_where_absent:
  "map_of os i = None \<Longrightarrow> {(t, k) \<in> keys_where os P. k \<noteq> i} = keys_where os P"
  by (auto simp: keys_where_def)

lemma keys_where_mono_drop:
  assumes "map_of os i = Some ord" and "\<not> P ord"
  shows "{(t, k) \<in> keys_where os P. k \<noteq> i} = keys_where os P"
  using assms by (auto simp: keys_where_def)

lemma index_remove_sets:
  assumes inv: "index_inv s"
  shows "by_submitted (index_remove i s) = {(t, k) \<in> keys_where (orders s) (\<lambda>_. True). k \<noteq> i}"
    and "live_by_submitted (index_remove i s) = {(t, k) \<in> keys_where (orders s) live. k \<noteq> i}"
    and "bucket (live_by_token (index_remove i s)) tok =
      {(t, k) \<in> keys_where (orders s) (\<lambda>ord. live ord \<and> o_token_id ord = tok). k \<noteq> i}"
    and "buckets_ok (live_by_token (index_remove i s))"
proof -
  let ?ks = "\<lambda>P. {(t, k) \<in> keys_where (orders s) P. k \<noteq> i}"
  have "by_submitted (index_remove i s) = ?ks (\<lambda>_. True) \<and>
    live_by_submitted (index_remove i s) = ?ks live \<and>
    (\<forall>tok. bucket (live_by_token (index_remove i s)) tok = ?ks (\<lambda>ord. live ord \<and> o_token_id ord = tok)) \<and>
    buckets_ok (live_by_token (index_remove i s))"
  proof (cases "map_of (orders s) i")
    case None
    then show ?thesis
      using inv by (simp add: index_remove_def keys_where_absent index_inv_def)
  next
    case (Some ord)
    then have "o_order_id ord = i" using inv by (simp add: index_inv_def)
    with Some show ?thesis
      using inv by (auto simp: index_remove_def Let_def index_inv_def keys_where_drop
          keys_where_mono_drop simp del: map_of_eq_Some_iff)
  qed
  then show "by_submitted (index_remove i s) = ?ks (\<lambda>_. True)"
    "live_by_submitted (index_remove i s) = ?ks live"
    "bucket (live_by_token (index_remove i s)) tok = ?ks (\<lambda>ord. live ord \<and> o_token_id ord = tok)"
    "buckets_ok (live_by_token (index_remove i s))"
    by simp_all
qed

definition remove_row :: "order_id \<Rightarrow> ome \<Rightarrow> ome" where
  "remove_row i s = (let s1 = index_remove i s in s1\<lparr>orders := AList.delete i (orders s1)\<rparr>)"

lemma remove_row_index_inv [inv_intros]:
  assumes "index_inv s"
  shows "index_inv (remove_row i s)"
  using assms index_remove_sets [OF assms, of i]
  by (auto simp: remove_row_def Let_def index_inv_def keys_where_delete
      simp del: map_of_eq_Some_iff split: if_splits)

lemma insert_row_index_inv:
  assumes inv: "index_inv s" and i: "o_order_id ord = i"
  defines "s1 \<equiv> index_remove i s"
  shows "index_inv (index_insert (o_submitted_at_ms ord) i (o_token_id ord) (live ord)
           (s1\<lparr>orders := AList.update i ord (orders s1)\<rparr>))"
proof -
  note sets = index_remove_sets [OF inv, of i, folded s1_def]
  have os: "orders s1 = orders s" by (simp add: s1_def)
  let ?t = "index_insert (o_submitted_at_ms ord) i (o_token_id ord) (live ord)
           (s1\<lparr>orders := AList.update i ord (orders s1)\<rparr>)"
  show ?thesis
  proof (rule index_invI)
    show "distinct (map fst (orders ?t))"
      using inv os by (simp add: index_inv_def)
    show "o_order_id x = k" if "map_of (orders ?t) k = Some x" for k x
      using that inv i os by (auto simp: index_inv_def split: if_splits)
    show "by_submitted ?t = keys_where (orders ?t) (\<lambda>_. True)"
      using sets(1) by (auto simp: index_insert_def Let_def keys_where_insert os)
    show "live_by_submitted ?t = keys_where (orders ?t) live"
      using sets(2) by (auto simp: index_insert_def Let_def keys_where_insert os)
    show "bucket (live_by_token ?t) tok =
        keys_where (orders ?t) (\<lambda>ord. live ord \<and> o_token_id ord = tok)" for tok
      using sets(3) by (auto simp: index_insert_def Let_def keys_where_insert os)
    show "buckets_ok (live_by_token ?t)"
      using sets(4) by (simp add: index_insert_def Let_def)
  qed
qed

lemma index_remove_absent: "map_of (orders s) i = None \<Longrightarrow> index_remove i s = s"
  by (simp add: index_remove_def)

section \<open>Every operation keeps it\<close>

lemma index_insert_orders_commute:
  "(index_insert t i k l s)\<lparr>orders := os\<rparr> = index_insert t i k l (s\<lparr>orders := os\<rparr>)"
  by (simp add: index_insert_def Let_def)

lemma submit_index_inv [inv_intros]:
  assumes inv: "index_inv s"
  shows "index_inv (fst (submit p s))"
proof (cases "has_pending s (rq_internal_key (sp_request p)) \<or> map_of (orders s) (sp_order_id p) \<noteq> None")
  case True
  with inv show ?thesis by (auto simp: submit_def Let_def)
next
  case False
  let ?s1 = "s\<lparr>by_internal := AList.update (rq_internal_key (sp_request p)) (sp_order_id p) (by_internal s)\<rparr>"
  have "index_inv ?s1" using inv by simp
  from insert_row_index_inv [OF this, of "fresh_order p" "sp_order_id p"]
  show ?thesis
    using False index_remove_absent [of ?s1 "sp_order_id p"]
    by (simp add: submit_def Let_def fresh_order_def index_insert_orders_commute)
qed

lemma mutate_index_inv [inv_intros]:
  assumes "index_inv s" and "\<And>ord ord'. f ord = Inr ord' \<Longrightarrow> same_identity ord' ord"
  shows "index_inv (fst (mutate i now f s))"
proof (cases "map_of (orders s) i")
  case None
  with assms(1) show ?thesis by (simp add: mutate_def)
next
  case (Some ord)
  show ?thesis
  proof (cases "f ord")
    case (Inr ord')
    have "same_identity (ord'\<lparr>o_updated_at_ms := now\<rparr>) ord"
      using assms(2) [OF Inr] by (simp add: same_identity_def)
    with store_index_inv [OF assms(1) Some] Some Inr show ?thesis
      by (simp add: mutate_def)
  qed (use assms(1) Some in \<open>simp add: mutate_def\<close>)
qed

lemmas mutators = mark_live_def mark_terminal_def set_escalation_def bind_venue_def
  mark_place_uncertain_def mark_rejected_with_reason_def

lemma mutators_index_inv [inv_intros]:
  assumes "index_inv s"
  shows "index_inv (fst (mark_live i now s))" "index_inv (fst (mark_terminal i st now s))"
    "index_inv (fst (set_escalation i now s))" "index_inv (fst (bind_venue i v now s))"
    "index_inv (fst (mark_place_uncertain i now s))"
    "index_inv (fst (mark_rejected_with_reason i reason now s))"
  using assms by (auto simp: mutators same_identity_def intro!: mutate_index_inv)

lemma backfill_index_inv [inv_intros]:
  "index_inv s \<Longrightarrow> index_inv (backfill_round_duration i sec s)"
  by (auto simp: backfill_round_duration_def order_backfill_round_duration_def same_identity_def
      split: option.splits intro!: store_same_status_index_inv)

lemma restore_one_index_inv [inv_intros]:
  assumes "index_inv s"
  shows "index_inv (restore_one ord s)"
proof -
  let ?s1 = "s\<lparr>by_internal := AList.update (o_internal_key ord) (o_order_id ord) (by_internal s)\<rparr>"
  have "index_inv ?s1" using assms by simp
  note ins = insert_row_index_inv [OF this refl, of ord]
  from ins show ?thesis
    by (auto simp: restore_one_def Let_def)
qed

lemma fold_keeps: "(\<And>x s. x \<in> set xs \<Longrightarrow> P s \<Longrightarrow> P (f x s)) \<Longrightarrow> P s \<Longrightarrow> P (fold f xs s)"
  by (induction xs arbitrary: s) auto

lemma restore_index_inv [inv_intros]: "index_inv s \<Longrightarrow> index_inv (restore os s)"
  unfolding restore_def by (erule fold_keeps [rotated]) (rule restore_one_index_inv)

lemma restore_applied_frame [simp, frame_simps]:
  "orders (restore_applied rs s) = orders s" "by_internal (restore_applied rs s) = by_internal s"
  "by_submitted (restore_applied rs s) = by_submitted s"
  "live_by_submitted (restore_applied rs s) = live_by_submitted s"
  "live_by_token (restore_applied rs s) = live_by_token s"
  "pending_fills (restore_applied rs s) = pending_fills s"
  by (induction rs arbitrary: s; simp add: restore_applied_def restore_applied_one_def Let_def)+

lemma remove_account_index_inv [inv_intros]:
  "index_inv s \<Longrightarrow> index_inv (fst (remove_account_orders a s))"
  unfolding remove_account_orders_def Let_def fst_conv
  by (erule fold_keeps [rotated]) (rule remove_row_index_inv [unfolded remove_row_def Let_def])

lemma filled_order_identity: "same_identity (filled_order D ord c p now m) ord"
  by (simp add: filled_order_def Let_def same_identity_def)

lemma record_delta_index_inv [inv_intros]:
  assumes "index_inv s"
  shows "index_inv (fst (record_delta D i moved price now m s))"
proof (cases "map_of (orders s) i")
  case None
  with assms show ?thesis by (simp add: record_delta_def)
next
  case (Some ord)
  have "index_inv (s\<lparr>orders := AList.update i (ord\<lparr>o_updated_at_ms := now\<rparr>) (orders s)\<rparr>)"
    by (rule store_same_status_index_inv [OF assms Some]) (simp_all add: same_identity_def)
  with Some store_index_inv [OF assms Some filled_order_identity] show ?thesis
    by (simp add: record_delta_def Let_def)
qed

lemma remember_index_inv [inv_intros]: "index_inv s \<Longrightarrow> index_inv (remember k i a p s)"
  by (simp add: index_inv_def)

lemma buffer_ghost_frame [simp, frame_simps]:
  "orders (fst (buffer_ghost f now s)) = orders s"
  "by_internal (fst (buffer_ghost f now s)) = by_internal s"
  "by_submitted (fst (buffer_ghost f now s)) = by_submitted s"
  "live_by_submitted (fst (buffer_ghost f now s)) = live_by_submitted s"
  "live_by_token (fst (buffer_ghost f now s)) = live_by_token s"
  "applied (fst (buffer_ghost f now s)) = applied s"
  "applied_seq (fst (buffer_ghost f now s)) = applied_seq s"
  "applied_journal (fst (buffer_ghost f now s)) = applied_journal s"
  "pending_ttl_ms (fst (buffer_ghost f now s)) = pending_ttl_ms s"
  by (simp_all add: buffer_ghost_def Let_def)

lemma buffer_ghost_index_inv [inv_intros]: "index_inv s \<Longrightarrow> index_inv (fst (buffer_ghost f now s))"
  by (subst index_inv_cong [where s = s]) simp_all

text \<open>A fill report changes the state only by buffering, by \<open>record_delta\<close> and by \<open>remember\<close>: a
  property those keep, and that ignores the ghost table, is kept by the report.\<close>

lemma apply_fill_report_keeps:
  assumes P: "P s"
    and ghosts: "\<And>s g. P (s\<lparr>ghost_alerted := g\<rparr>) \<longleftrightarrow> P s"
    and buffers: "\<And>s f now. P s \<Longrightarrow> P (fst (buffer_ghost f now s))"
    and deltas: "\<And>s i d p now m. P s \<Longrightarrow> P (fst (record_delta D i d p now m s))"
    and remembers: "\<And>s k i a p. P s \<Longrightarrow> P (remember k i a p s)"
  shows "P (fst (apply_fill_report D f now s))"
proof -
  have failed: "P (fst (apply_failed D f i k now s))" if "P s" for f i k s
    using that deltas [OF that]
    by (auto simp: apply_failed_def split: option.splits prod.splits sum.splits intro!: remembers)
      (metis fst_conv)+
  have reported: "P (fst (apply_reported D f i k now s))" if "P s" for f i k s
    using that deltas [OF that]
    by (auto simp: apply_reported_def Let_def split: prod.splits sum.splits intro!: remembers)
      (metis fst_conv)+
  show ?thesis
    using P buffers [OF P]
    by (auto simp: apply_fill_report_def Let_def ghosts
        split: option.splits prod.splits intro!: failed reported) (metis fst_conv)+
qed

lemma apply_fill_report_index_inv [inv_intros]:
  "index_inv s \<Longrightarrow> index_inv (fst (apply_fill_report D f now s))"
  by (rule apply_fill_report_keeps)
    (auto intro: record_delta_index_inv remember_index_inv buffer_ghost_index_inv)

lemma drain_loop_keeps:
  assumes "P s"
    and "\<And>s pf. P (s\<lparr>pending_fills := pf\<rparr>) \<longleftrightarrow> P s"
    and "\<And>s f. P s \<Longrightarrow> P (fst (apply_fill_report D f now s))"
  shows "P (fst (drain_loop D now pfs out s))"
  using assms(1)
proof (induction pfs arbitrary: s out)
  case (Cons pf pfs)
  from assms(3) [OF Cons.prems, of "pf_fill pf"] show ?case
    using Cons by (auto simp: assms(2) split: prod.splits sum.splits)
qed simp

lemma drain_pending_index_inv [inv_intros]:
  "index_inv s \<Longrightarrow> index_inv (fst (drain_pending D now s))"
  unfolding drain_pending_def
  by (rule drain_loop_keeps) (auto intro: apply_fill_report_index_inv)

section \<open>The engine as a machine\<close>

text \<open>One constructor per public operation that changes the state. \<open>mark_terminal\<close> asserts (in debug
  builds) that the status it is given is terminal: a call that breaks the assertion is no step.\<close>

datatype ome_op = OpSubmit submit_params | OpMarkLive order_id int
  | OpMarkTerminal order_id order_status int | OpSetEscalation order_id int
  | OpBindVenue order_id string int | OpMarkPlaceUncertain order_id int
  | OpMarkRejected order_id string int | OpBackfill order_id int
  | OpApplyFill fill int | OpDrainPending int | OpTakeJournal
  | OpRemoveAccount string | OpRestore "tracked_order list"
  | OpRestoreApplied "applied_fill_record list"

fun ome_step :: "dec_ops \<Rightarrow> ome \<Rightarrow> ome_op \<Rightarrow> ome" where
  "ome_step D s (OpSubmit p) = fst (submit p s)"
| "ome_step D s (OpMarkLive i now) = fst (mark_live i now s)"
| "ome_step D s (OpMarkTerminal i st now) = (if is_terminal st then fst (mark_terminal i st now s) else s)"
| "ome_step D s (OpSetEscalation i t) = fst (set_escalation i t s)"
| "ome_step D s (OpBindVenue i v now) = fst (bind_venue i v now s)"
| "ome_step D s (OpMarkPlaceUncertain i now) = fst (mark_place_uncertain i now s)"
| "ome_step D s (OpMarkRejected i r now) = fst (mark_rejected_with_reason i r now s)"
| "ome_step D s (OpBackfill i sec) = backfill_round_duration i sec s"
| "ome_step D s (OpApplyFill f now) = fst (apply_fill_report D f now s)"
| "ome_step D s (OpDrainPending now) = fst (drain_pending D now s)"
| "ome_step D s OpTakeJournal = fst (take_applied_journal s)"
| "ome_step D s (OpRemoveAccount a) = fst (remove_account_orders a s)"
| "ome_step D s (OpRestore os) = restore os s"
| "ome_step D s (OpRestoreApplied rs) = restore_applied rs s"

lemma ome_step_index_inv [inv_intros]:
  assumes "index_inv s"
  shows "index_inv (ome_step D s x)"
proof (cases x)
  case (OpRestoreApplied rs)
  have "index_inv (restore_applied rs s) \<longleftrightarrow> index_inv s" by (rule index_inv_cong) simp_all
  with assms OpRestoreApplied show ?thesis by simp
qed (use assms in \<open>auto simp: take_applied_journal_def intro: inv_intros\<close>)

interpretation index_machine: invariant_machine "ome_step D" index_inv for D
  by unfold_locales (rule ome_step_index_inv)

lemma reachable_index_inv: "index_inv (run (ome_step D) ome_new ops)"
  by (rule index_machine.run_inv) (rule index_inv_new)

section \<open>The queries, read off the order table\<close>

definition order_key_of :: "tracked_order \<Rightarrow> order_key" where
  "order_key_of ord = (o_submitted_at_ms ord, o_order_id ord)"

lemma rows_keys:
  assumes inv: "index_inv s" and ks: "set ks \<subseteq> keys_where (orders s) P"
  shows "map order_key_of (List.map_filter (map_of (orders s)) (map snd ks)) = ks \<and>
    (\<forall>ord \<in> set (List.map_filter (map_of (orders s)) (map snd ks)). P ord)"
  using ks
proof (induction ks)
  case (Cons k ks)
  from Cons.prems obtain t i ord where k: "k = (t, i)" "map_of (orders s) i = Some ord" "P ord"
    "t = o_submitted_at_ms ord"
    by (cases k) (auto simp: keys_where_def simp del: map_of_eq_Some_iff)
  from Cons have IH: "map order_key_of (List.map_filter (map_of (orders s)) (map snd ks)) = ks"
    "\<forall>ord \<in> set (List.map_filter (map_of (orders s)) (map snd ks)). P ord"
    by auto
  have "List.map_filter (map_of (orders s)) (map snd (k # ks)) =
      ord # List.map_filter (map_of (orders s)) (map snd ks)"
    using k by (simp add: List.map_filter_simps)
  moreover have "order_key_of ord = k"
    using k index_inv_id [OF inv k(2)] by (simp add: order_key_of_def)
  ultimately show ?case using IH k(3) by simp
qed (simp add: List.map_filter_simps)

lemma rows_of_keys_where:
  assumes "index_inv s"
  shows "map order_key_of (rows s (keys_where (orders s) P)) =
      sorted_list_of_set (keys_where (orders s) P)"
    and "ord \<in> set (rows s (keys_where (orders s) P)) \<Longrightarrow> P ord"
  using rows_keys [OF assms, of "sorted_list_of_set (keys_where (orders s) P)" P]
  by (auto simp: rows_def finite_keys_where)

lemma set_rows_keys_where:
  assumes "index_inv s"
  shows "set (rows s (keys_where (orders s) P)) = {ord \<in> snd ` set (orders s). P ord}"
proof -
  have "set (rows s (keys_where (orders s) P)) = {ord. \<exists>k. map_of (orders s) k = Some ord \<and> P ord}"
    by (auto simp: rows_def set_map_filter_map_of finite_keys_where keys_where_def [of "orders s" P]
        set_sorted_list_of_set [OF finite_keys_where, unfolded keys_where_def] image_iff Bex_def
        simp del: map_of_eq_Some_iff set_sorted_list_of_set)
  also have "\<dots> = {ord \<in> snd ` set (orders s). P ord}"
    using assms map_of_values [of "orders s"] by (auto simp: index_inv_def simp del: map_of_eq_Some_iff)
  finally show ?thesis .
qed

lemma rows_filter_id:
  "index_inv s \<Longrightarrow> (\<And>ord. P ord \<Longrightarrow> Q ord) \<Longrightarrow>
    filter Q (rows s (keys_where (orders s) P)) = rows s (keys_where (orders s) P)"
  using rows_of_keys_where(2) by (metis (no_types, lifting) filter_True)

lemma live_orders_eq: "index_inv s \<Longrightarrow> live_orders s = rows s (keys_where (orders s) live)"
  using rows_filter_id [of s live live] by (simp add: live_orders_def index_inv_def)

lemma live_for_eq:
  assumes "index_inv s"
  shows "live_for s tok sd = filter (\<lambda>ord. o_side ord = sd)
    (rows s (keys_where (orders s) (\<lambda>ord. live ord \<and> o_token_id ord = tok)))"
proof -
  have "live_for s tok sd = filter (\<lambda>ord. o_side ord = sd) (filter live
    (rows s (keys_where (orders s) (\<lambda>ord. live ord \<and> o_token_id ord = tok))))"
    using assms by (simp add: live_for_def index_inv_def conj_commute)
  then show ?thesis
    using rows_filter_id [OF assms, of "\<lambda>ord. live ord \<and> o_token_id ord = tok" live] by simp
qed

end
