(* ===== verification/OmeSafety.thy ===== *)
theory OmeSafety
  imports OmeIndex
begin

text \<open>
  What no run of the engine breaks besides the indexes: a size never exceeds its order
  (\<open>size_inv\<close>), an internal key never has two live orders (\<open>key_inv\<close>), a terminal order never comes
  back to life (\<open>terminal_ids\<close> only grows), the fill ledger's sequence numbers are distinct
  (\<open>ledger_inv\<close>), and eviction takes only entries of orders that are not live, oldest first.
\<close>

section \<open>Sizes\<close>

definition size_ok :: "tracked_order \<Rightarrow> bool" where
  "size_ok ord \<longleftrightarrow> 0 \<le> o_filled_size ord \<and> (0 < o_size ord \<longrightarrow> o_filled_size ord \<le> o_size ord)"

definition order_rows :: "ome \<Rightarrow> tracked_order set" where
  "order_rows s = {ord. \<exists>k. map_of (orders s) k = Some ord}"

definition size_inv :: "ome \<Rightarrow> bool" where
  "size_inv s \<longleftrightarrow> (\<forall>k ord. map_of (orders s) k = Some ord \<longrightarrow> size_ok ord)"

lemma size_inv_orders: "orders s' = orders s \<Longrightarrow> size_inv s' \<longleftrightarrow> size_inv s"
  by (simp add: size_inv_def)

lemma size_inv_upd [simp]:
  "size_inv (s\<lparr>pending_fills := a\<rparr>) \<longleftrightarrow> size_inv s" "size_inv (s\<lparr>ghost_alerted := b\<rparr>) \<longleftrightarrow> size_inv s"
  by (simp_all add: size_inv_def)

lemma size_inv_update:
  "size_inv s \<Longrightarrow> size_ok ord \<Longrightarrow> size_inv (s\<lparr>orders := AList.update i ord (orders s)\<rparr>)"
  by (auto simp: size_inv_def split: if_splits)

lemma size_inv_sync [simp]: "size_inv (sync_live_index i w s) \<longleftrightarrow> size_inv s"
  by (simp add: size_inv_def)

lemma capped_size_ok:
  "0 \<le> r \<Longrightarrow> size_ok (filled_order D ord (capped_size ord r) p now m)"
  by (auto simp: size_ok_def filled_order_def capped_size_def Let_def)

lemma size_ok_time [simp]: "size_ok (ord\<lparr>o_updated_at_ms := t\<rparr>) = size_ok ord"
  by (simp add: size_ok_def)

lemma record_delta_size_inv [inv_intros]:
  assumes "size_inv s"
  shows "size_inv (fst (record_delta D i moved p now m s))"
proof (cases "map_of (orders s) i")
  case None
  with assms show ?thesis by (simp add: record_delta_def)
next
  case (Some ord)
  then have "size_ok ord" using assms by (simp add: size_inv_def)
  with Some assms show ?thesis
    by (auto simp: record_delta_def Let_def intro!: size_inv_update capped_size_ok)
qed

lemma submit_size_inv [inv_intros]: "size_inv s \<Longrightarrow> size_inv (fst (submit p s))"
  by (auto simp: submit_def Let_def size_inv_def size_ok_def fresh_order_def split: if_splits)

lemma mutate_size_inv [inv_intros]:
  assumes "size_inv s" and "\<And>ord ord'. f ord = Inr ord' \<Longrightarrow> size_ok ord \<Longrightarrow> size_ok ord'"
  shows "size_inv (fst (mutate i now f s))"
  using assms
  by (auto simp: mutate_def split: option.splits sum.splits intro!: size_inv_update)
    (auto simp: size_inv_def)

lemma mutators_size_inv [inv_intros]:
  assumes "size_inv s"
  shows "size_inv (fst (mark_live i now s))" "size_inv (fst (mark_terminal i st now s))"
    "size_inv (fst (set_escalation i now s))" "size_inv (fst (bind_venue i v now s))"
    "size_inv (fst (mark_place_uncertain i now s))"
    "size_inv (fst (mark_rejected_with_reason i reason now s))"
  using assms by (auto simp: mutators size_ok_def intro!: mutate_size_inv)

lemma backfill_size_inv [inv_intros]: "size_inv s \<Longrightarrow> size_inv (backfill_round_duration i sec s)"
  by (auto simp: backfill_round_duration_def order_backfill_round_duration_def split: option.splits
      intro!: size_inv_update) (auto simp: size_inv_def size_ok_def)

lemma fill_report_size_inv [inv_intros]:
  "size_inv s \<Longrightarrow> size_inv (fst (apply_fill_report D f now s))"
  by (rule apply_fill_report_keeps)
    (auto simp: size_inv_orders [of "fst (buffer_ghost _ _ _)"] size_inv_orders [of "remember _ _ _ _ _"]
      intro: record_delta_size_inv)

lemma drain_size_inv [inv_intros]: "size_inv s \<Longrightarrow> size_inv (fst (drain_pending D now s))"
  unfolding drain_pending_def by (rule drain_loop_keeps) (auto intro: fill_report_size_inv)

lemma orders_remove_row [simp]: "orders (remove_row i s) = AList.delete i (orders s)"
  by (simp add: remove_row_def Let_def)

lemma remove_account_keeps:
  assumes "P s" and "\<And>i s. P s \<Longrightarrow> P (remove_row i s)"
  shows "P (fst (remove_account_orders a s))"
  unfolding remove_account_orders_def Let_def fst_conv
  by (rule fold_keeps [where P = P])
    (use assms(1) assms(2) [unfolded remove_row_def Let_def] in auto)

lemma remove_account_size_inv [inv_intros]:
  "size_inv s \<Longrightarrow> size_inv (fst (remove_account_orders a s))"
  by (erule remove_account_keeps) (auto simp: size_inv_def split: if_splits)

lemma orders_restore_one [simp]: "orders (restore_one ord s) = AList.update (o_order_id ord) ord (orders s)"
  by (simp add: restore_one_def Let_def)

lemma restore_size_inv [inv_intros]:
  "size_inv s \<Longrightarrow> \<forall>ord \<in> set os. size_ok ord \<Longrightarrow> size_inv (restore os s)"
  unfolding restore_def
  by (erule fold_keeps [rotated]) (auto simp: size_inv_def split: if_splits)

text \<open>Operations whose arguments come from outside carry rows within bounds.\<close>

fun op_sizes_ok :: "ome_op \<Rightarrow> bool" where
  "op_sizes_ok (OpRestore os) = (\<forall>ord \<in> set os. size_ok ord)"
| "op_sizes_ok _ = True"

lemma ome_step_size_inv [inv_intros]:
  "size_inv s \<Longrightarrow> op_sizes_ok x \<Longrightarrow> size_inv (ome_step D s x)"
  by (cases x) (auto simp: take_applied_journal_def size_inv_orders [of "restore_applied _ _"]
      size_inv_orders [of "_\<lparr>applied_journal := _\<rparr>"] intro: inv_intros)

interpretation size_machine:
  invariant_machine "\<lambda>s x. if op_sizes_ok x then ome_step D s x else s" size_inv for D
  by unfold_locales (auto intro: ome_step_size_inv)

section \<open>One live order per internal key\<close>

definition key_inv :: "ome \<Rightarrow> bool" where
  "key_inv s \<longleftrightarrow> (\<forall>k ord. map_of (orders s) k = Some ord \<longrightarrow> live ord \<longrightarrow>
      map_of (by_internal s) (o_internal_key ord) = Some k)"

lemma key_inv_cong: "orders s' = orders s \<Longrightarrow> by_internal s' = by_internal s \<Longrightarrow> key_inv s' \<longleftrightarrow> key_inv s"
  by (simp add: key_inv_def)

lemma key_inv_update:
  assumes "key_inv s" and "map_of (orders s) i = Some ord"
    and "o_internal_key ord' = o_internal_key ord" and "live ord' \<longrightarrow> live ord"
  shows "key_inv (s\<lparr>orders := AList.update i ord' (orders s)\<rparr>)"
  using assms by (auto simp: key_inv_def simp del: map_of_eq_Some_iff split: if_splits)

lemma key_inv_sync [simp]: "key_inv (sync_live_index i w s) \<longleftrightarrow> key_inv s"
  by (simp add: key_inv_def)

lemma filled_order_live: "live (filled_order D ord c p now m) \<Longrightarrow> live ord"
  by (auto simp: filled_order_def Let_def live_iff_not_terminal split: if_splits)

lemma filled_order_key [simp]:
  "o_internal_key (filled_order D ord c p now m) = o_internal_key ord"
  by (simp add: filled_order_def Let_def)

lemma record_delta_key_inv [inv_intros]:
  assumes "key_inv s"
  shows "key_inv (fst (record_delta D i moved p now m s))"
proof (cases "map_of (orders s) i")
  case None
  with assms show ?thesis by (simp add: record_delta_def)
next
  case (Some ord)
  with assms show ?thesis
    by (auto simp: record_delta_def Let_def intro!: key_inv_update dest: filled_order_live)
qed

lemma submit_key_inv [inv_intros]:
  assumes "key_inv s"
  shows "key_inv (fst (submit p s))"
proof (cases "has_pending s (rq_internal_key (sp_request p)) \<or> map_of (orders s) (sp_order_id p) \<noteq> None")
  case True
  with assms show ?thesis by (auto simp: submit_def Let_def)
next
  case False
  have fresh: "o_internal_key ord \<noteq> rq_internal_key (sp_request p)"
    if "map_of (orders s) k = Some ord" and "live ord" for k ord
  proof (rule notI)
    assume "o_internal_key ord = rq_internal_key (sp_request p)"
    moreover have "map_of (by_internal s) (o_internal_key ord) = Some k"
      using assms that unfolding key_inv_def by blast
    ultimately have "by_key s (rq_internal_key (sp_request p)) = Some ord"
      using that by (simp add: by_key_def)
    with that False show False by (simp add: has_pending_def)
  qed
  with False assms show ?thesis
    by (auto simp: submit_def Let_def key_inv_def fresh_order_def simp del: map_of_eq_Some_iff
        split: if_splits)
qed

lemma mutate_key_inv [inv_intros]:
  assumes "key_inv s"
    and "\<And>ord ord'. f ord = Inr ord' \<Longrightarrow> o_internal_key ord' = o_internal_key ord \<and> (live ord' \<longrightarrow> live ord)"
  shows "key_inv (fst (mutate i now f s))"
  using assms
  by (auto simp: mutate_def split: option.splits sum.splits intro!: key_inv_update)

lemma mutators_key_inv [inv_intros]:
  assumes "key_inv s"
  shows "key_inv (fst (mark_live i now s))"
    "is_terminal st \<Longrightarrow> key_inv (fst (mark_terminal i st now s))"
    "key_inv (fst (set_escalation i now s))" "key_inv (fst (bind_venue i v now s))"
    "key_inv (fst (mark_place_uncertain i now s))"
    "key_inv (fst (mark_rejected_with_reason i reason now s))"
  using assms by (auto simp: mutators live_iff_not_terminal split: if_splits intro!: mutate_key_inv)

lemma backfill_key_inv [inv_intros]: "key_inv s \<Longrightarrow> key_inv (backfill_round_duration i sec s)"
  by (auto simp: backfill_round_duration_def order_backfill_round_duration_def split: option.splits
      intro!: key_inv_update)

lemma key_inv_upd [simp]:
  "key_inv (s\<lparr>pending_fills := a\<rparr>) \<longleftrightarrow> key_inv s" "key_inv (s\<lparr>ghost_alerted := b\<rparr>) \<longleftrightarrow> key_inv s"
  "key_inv (s\<lparr>applied_journal := g\<rparr>) \<longleftrightarrow> key_inv s"
  by (simp_all add: key_inv_def)

lemma fill_report_key_inv [inv_intros]:
  "key_inv s \<Longrightarrow> key_inv (fst (apply_fill_report D f now s))"
  by (rule apply_fill_report_keeps)
    (auto simp: key_inv_cong [of "fst (buffer_ghost _ _ _)"] key_inv_cong [of "remember _ _ _ _ _"]
      intro: record_delta_key_inv)

lemma drain_key_inv [inv_intros]: "key_inv s \<Longrightarrow> key_inv (fst (drain_pending D now s))"
  unfolding drain_pending_def by (rule drain_loop_keeps) (auto intro: fill_report_key_inv)

lemma by_internal_remove_row [simp]: "by_internal (remove_row i s) = by_internal s"
  by (simp add: remove_row_def Let_def)

lemma remove_account_key_inv [inv_intros]: "key_inv s \<Longrightarrow> key_inv (fst (remove_account_orders a s))"
  by (erule remove_account_keeps) (auto simp: key_inv_def split: if_splits)

text \<open>Restoring replaces rows wholesale from the log: it is a boot operation, not a trading step.\<close>

fun op_trading :: "ome_op \<Rightarrow> bool" where
  "op_trading (OpRestore os) = False"
| "op_trading _ = True"

lemma ome_step_key_inv [inv_intros]:
  "key_inv s \<Longrightarrow> op_trading x \<Longrightarrow> key_inv (ome_step D s x)"
  by (cases x) (auto simp: take_applied_journal_def key_inv_cong [of "restore_applied _ _"]
      intro: inv_intros)

interpretation key_machine:
  invariant_machine "\<lambda>s x. if op_trading x then ome_step D s x else s" key_inv for D
  by unfold_locales (auto intro: ome_step_key_inv)

section \<open>A terminal order stays terminal\<close>

definition terminal_ids :: "ome \<Rightarrow> order_id set" where
  "terminal_ids s = {k. \<exists>ord. map_of (orders s) k = Some ord \<and> is_terminal (o_status ord)}"

lemma terminal_ids_cong: "orders s' = orders s \<Longrightarrow> terminal_ids s' = terminal_ids s"
  by (simp add: terminal_ids_def)

lemma terminal_ids_update:
  assumes "map_of (orders s) i = Some ord" and "is_terminal (o_status ord) \<longrightarrow> is_terminal (o_status ord')"
  shows "terminal_ids s \<subseteq> terminal_ids (s\<lparr>orders := AList.update i ord' (orders s)\<rparr>)"
  using assms by (auto simp: terminal_ids_def)

lemma terminal_ids_sync [simp]: "terminal_ids (sync_live_index i w s) = terminal_ids s"
  by (simp add: terminal_ids_def)

lemma filled_order_terminal:
  "is_terminal (o_status ord) \<Longrightarrow> o_status (filled_order D ord c p now m) = o_status ord"
  by (simp add: filled_order_def Let_def)

lemma record_delta_terminal:
  "terminal_ids s \<subseteq> terminal_ids (fst (record_delta D i moved p now m s))"
proof (cases "map_of (orders s) i")
  case (Some ord)
  show ?thesis
    using terminal_ids_update [OF Some, of "ord\<lparr>o_updated_at_ms := now\<rparr>"]
      terminal_ids_update [OF Some, of "filled_order D ord c p now m" for c] Some
    by (simp add: record_delta_def Let_def filled_order_terminal)
qed (simp add: record_delta_def)

lemma mutate_terminal:
  assumes "\<And>ord ord'. f ord = Inr ord' \<Longrightarrow> is_terminal (o_status ord) \<Longrightarrow> is_terminal (o_status ord')"
  shows "terminal_ids s \<subseteq> terminal_ids (fst (mutate i now f s))"
  using assms
  by (auto simp: mutate_def terminal_ids_def split: option.splits sum.splits)

lemma mutators_terminal:
  "terminal_ids s \<subseteq> terminal_ids (fst (mark_live i now s))"
  "is_terminal st \<Longrightarrow> terminal_ids s \<subseteq> terminal_ids (fst (mark_terminal i st now s))"
  "terminal_ids s \<subseteq> terminal_ids (fst (set_escalation i now s))"
  "terminal_ids s \<subseteq> terminal_ids (fst (bind_venue i v now s))"
  "terminal_ids s \<subseteq> terminal_ids (fst (mark_place_uncertain i now s))"
  "terminal_ids s \<subseteq> terminal_ids (fst (mark_rejected_with_reason i reason now s))"
  by (unfold mutators; rule mutate_terminal; auto split: if_splits)+

lemma fill_report_terminal: "terminal_ids s \<subseteq> terminal_ids (fst (apply_fill_report D f now s))"
proof -
  have "terminal_ids s \<subseteq> terminal_ids s" ..
  then show ?thesis
    by (rule apply_fill_report_keeps [where P = "\<lambda>t. terminal_ids s \<subseteq> terminal_ids t"])
      (auto simp: terminal_ids_cong [of "fst (buffer_ghost _ _ _)"]
        terminal_ids_cong [of "remember _ _ _ _ _"] terminal_ids_cong [of "_\<lparr>ghost_alerted := _\<rparr>"]
        dest: record_delta_terminal [THEN subsetD])
qed

lemma drain_terminal: "terminal_ids s \<subseteq> terminal_ids (fst (drain_pending D now s))"
proof -
  have "terminal_ids s \<subseteq> terminal_ids (s\<lparr>pending_fills := []\<rparr>)"
    by (simp add: terminal_ids_cong [of "_\<lparr>pending_fills := _\<rparr>"])
  then show ?thesis
    unfolding drain_pending_def
    by (rule drain_loop_keeps [where P = "\<lambda>t. terminal_ids s \<subseteq> terminal_ids t"])
      (auto simp: terminal_ids_cong [of "_\<lparr>pending_fills := _\<rparr>"]
        dest: fill_report_terminal [THEN subsetD])
qed

lemma submit_terminal: "terminal_ids s \<subseteq> terminal_ids (fst (submit p s))"
  by (auto simp: submit_def Let_def terminal_ids_def)

lemma backfill_terminal: "terminal_ids s \<subseteq> terminal_ids (backfill_round_duration i sec s)"
  by (auto simp: backfill_round_duration_def order_backfill_round_duration_def terminal_ids_def
      split: option.splits)

text \<open>The steps of a session: no boot restore, no account reset (which deletes rows).\<close>

fun op_session :: "ome_op \<Rightarrow> bool" where
  "op_session (OpRestore os) = False"
| "op_session (OpRemoveAccount a) = False"
| "op_session _ = True"

lemma ome_step_terminal: "op_session x \<Longrightarrow> terminal_ids s \<subseteq> terminal_ids (ome_step D s x)"
  by (cases x) (simp_all add: mutators_terminal fill_report_terminal drain_terminal submit_terminal
      backfill_terminal take_applied_journal_def terminal_ids_cong [of "restore_applied _ _"]
      terminal_ids_cong [of "_\<lparr>applied_journal := _\<rparr>"])

interpretation terminal_machine:
  monotone_machine "\<lambda>s x. if op_session x then ome_step D s x else s" "\<lambda>_. True" terminal_ids for D
  by unfold_locales (use ome_step_terminal in auto)

section \<open>The fill ledger and its eviction\<close>

definition ledger_inv :: "ome \<Rightarrow> bool" where
  "ledger_inv s \<longleftrightarrow> distinct (map fst (applied s)) \<and> distinct (map (af_seq \<circ> snd) (applied s)) \<and>
     (\<forall>e \<in> set (applied s). af_seq (snd e) \<le> applied_seq s)"

lemma min_by_seq_None: "min_by_seq xs = None \<longleftrightarrow> xs = []"
  by (cases xs) (auto split: option.splits)

lemma min_by_seq_le: "min_by_seq xs = Some x \<Longrightarrow> y \<in> set xs \<Longrightarrow> af_seq (snd x) \<le> af_seq (snd y)"
proof (induction xs arbitrary: x)
  case (Cons z zs)
  show ?case
  proof (cases "min_by_seq zs")
    case None
    with Cons.prems show ?thesis by (auto simp: min_by_seq_None)
  next
    case (Some w)
    with Cons.prems have x: "x = (if af_seq (snd w) < af_seq (snd z) then w else z)"
      by (auto split: if_splits)
    from Cons.prems(2) Cons.IH [OF Some] show ?thesis by (auto simp: x)
  qed
qed simp

lemma entry_live_cong: "orders s' = orders s \<Longrightarrow> entry_live s' a = entry_live s a"
  by (simp add: entry_live_def)

lemma evict_one_frame [simp]:
  "orders (evict_one k a s) = orders s" "applied_seq (evict_one k a s) = applied_seq s"
  by (simp_all add: evict_one_def)

lemma evict_applied_stop:
  "length (applied s) \<le> APPLIED_CAP \<or> victim s = None \<Longrightarrow> evict_applied s = s"
  by (subst evict_applied.simps) auto

lemma evict_applied_step:
  "APPLIED_CAP < length (applied s) \<Longrightarrow> victim s = Some (k, a) \<Longrightarrow>
     evict_applied s = evict_applied (evict_one k a s)"
  by (subst evict_applied.simps) simp

lemma evict_induct [case_names stop step]:
  assumes stop: "\<And>s. length (applied s) \<le> APPLIED_CAP \<or> victim s = None \<Longrightarrow> P s"
    and step: "\<And>s k a. APPLIED_CAP < length (applied s) \<Longrightarrow> victim s = Some (k, a) \<Longrightarrow>
       P (evict_one k a s) \<Longrightarrow> P s"
  shows "P s"
proof (induction s rule: evict_applied.induct)
  case (1 s)
  show ?case
  proof (cases "length (applied s) \<le> APPLIED_CAP \<or> victim s = None")
    case False
    then obtain k a where "victim s = Some (k, a)" by auto
    with False 1 show ?thesis by (intro step [of s k a]) auto
  qed (rule stop)
qed

lemma evict_applied_keeps:
  assumes "P s" and "\<And>s k a. P s \<Longrightarrow> P (evict_one k a s)"
  shows "P (evict_applied s)"
  using assms(1)
proof (induction s rule: evict_induct)
  case (stop s)
  then show ?case by (simp add: evict_applied_stop)
next
  case (step s k a)
  then show ?case by (simp add: evict_applied_step assms(2))
qed

lemma distinct_delete_seq:
  "distinct (map (af_seq \<circ> snd) m) \<Longrightarrow> distinct (map (af_seq \<circ> snd) (AList.delete k m))"
  by (induction m) (auto simp: set_delete_eq)

lemma evict_ledger_inv [inv_intros]: "ledger_inv s \<Longrightarrow> ledger_inv (evict_applied s)"
  by (rule evict_applied_keeps)
    (auto simp: ledger_inv_def set_delete_eq intro!: distinct_delete_seq simp del: map_map)

text \<open>What eviction does: the kept entries are a subset; every removed entry belongs to an order that
  is not live and is no younger than any kept entry that could have been removed; and it stops only
  at the cap or when every kept entry is live.\<close>

lemma evict_applied_subset: "set (applied (evict_applied s)) \<subseteq> set (applied s)"
  by (rule evict_applied_keeps [where P = "\<lambda>t. set (applied t) \<subseteq> set (applied s)"])
    (auto simp: set_delete_eq)

lemma evict_applied_removed:
  assumes "ledger_inv s" and "e \<in> set (applied s)" and "e \<notin> set (applied (evict_applied s))"
  shows "\<not> entry_live s (snd e) \<and>
    (\<forall>e' \<in> set (applied (evict_applied s)). \<not> entry_live s (snd e') \<longrightarrow> af_seq (snd e) \<le> af_seq (snd e'))"
  using assms
proof (induction s rule: evict_induct)
  case (stop s)
  then show ?case by (simp add: evict_applied_stop)
next
  case (step s k a)
  let ?t = "evict_one k a s"
  note eq = evict_applied_step [OF step.hyps]
  have mem: "(k, a) \<in> set (applied s)" "\<not> entry_live s a" using victim_mem [OF step.hyps(2)] by auto
  have oldest: "af_seq a \<le> af_seq (snd e')" if "e' \<in> set (applied s)" "\<not> entry_live s (snd e')" for e'
    using min_by_seq_le [OF step.hyps(2) [unfolded victim_def], of e'] that
    by (auto simp: case_prod_beta)
  have invt: "ledger_inv ?t"
    using step.prems(1) by (auto simp: ledger_inv_def set_delete_eq intro!: distinct_delete_seq)
  show ?case
  proof (cases "e \<in> set (applied ?t)")
    case True
    then show ?thesis
      using step.IH invt step.prems(3) eq by (simp add: entry_live_cong [of ?t s])
  next
    case False
    with step.prems(2) have "fst e = k" by (auto simp: set_delete_eq)
    with step.prems(1,2) mem have "e = (k, a)"
      by (cases e) (auto simp: ledger_inv_def dest: eq_key_imp_eq_value)
    with mem oldest show ?thesis
      using evict_applied_subset [of s] by auto
  qed
qed

lemma evict_applied_stops:
  "length (applied (evict_applied s)) \<le> APPLIED_CAP \<or>
   (\<forall>e \<in> set (applied (evict_applied s)). entry_live s (snd e))"
proof (induction s rule: evict_induct)
  case (stop s)
  then show ?case
    by (auto simp: evict_applied_stop victim_def min_by_seq_None filter_empty_conv)
next
  case (step s k a)
  then show ?case
    by (simp add: evict_applied_step entry_live_cong [of "evict_one k a s" s])
qed

lemma set_update_distinct:
  "distinct (map fst m) \<Longrightarrow> set (AList.update k v m) = insert (k, v) {(k', w) \<in> set m. k' \<noteq> k}"
  by (induction m) (auto simp: image_iff)

lemma update_absent: "map_of m k = None \<Longrightarrow> AList.update k v m = m @ [(k, v)]"
  by (induction m) (auto split: if_splits)

lemma update_seqs:
  "map_of m k = Some e \<Longrightarrow> af_seq v = af_seq e \<Longrightarrow>
     map (af_seq \<circ> snd) (AList.update k v m) = map (af_seq \<circ> snd) m"
  by (induction m) (auto split: if_splits)

lemma ledger_inv_journal [simp]: "ledger_inv (journal r s) \<longleftrightarrow> ledger_inv s"
  by (simp add: ledger_inv_def)

lemma ledger_inv_insert:
  assumes "ledger_inv s" and "map_of (applied s) k = None"
  shows "ledger_inv (s\<lparr>applied_seq := Suc (applied_seq s),
    applied := AList.update k (a\<lparr>af_seq := Suc (applied_seq s)\<rparr>) (applied s)\<rparr>)"
  using assms by (fastforce simp: ledger_inv_def update_absent)

lemma ledger_inv_revise:
  assumes "ledger_inv s" and "map_of (applied s) k = Some e" and "af_seq v = af_seq e"
  shows "ledger_inv (s\<lparr>applied := AList.update k v (applied s)\<rparr>)"
  using assms
  by (auto simp: ledger_inv_def set_update_distinct simp del: map_map
      simp: update_seqs [OF assms(2,3)])

lemma remember_ledger_inv [inv_intros]:
  assumes inv: "ledger_inv s"
  shows "ledger_inv (remember k i a p s)"
proof (cases "map_of (applied s) k")
  case None
  show ?thesis
    using ledger_inv_insert [OF inv None, of "\<lparr>af_applied = a, af_price = p, af_order_id = i, af_seq = 0\<rparr>"]
      None
    by (auto simp: remember_def Let_def intro!: evict_ledger_inv)
next
  case (Some e)
  with inv show ?thesis
    by (auto simp: remember_def Let_def intro!: evict_ledger_inv ledger_inv_revise)
qed

end
