(* ===== verification/OmeFills.thy ===== *)
theory OmeFills
  imports OmeSafety
begin

text \<open>
  What one fill does. A fill report never fails, moves exactly the size its delta announces and
  nothing else, books a trade at most once, is taken back by a FAILED notice, and leaves in the
  journal exactly the records from which the fill ledger can be rebuilt.
\<close>

section \<open>Resolution names tracked orders\<close>

lemma by_venue_or_id_tracked:
  assumes inv: "index_inv s" and r: "by_venue_or_id s ext = Some ord"
  shows "map_of (orders s) (o_order_id ord) = Some ord"
proof (cases "map_of (orders s) ext")
  case None
  with r have "ord \<in> snd ` set (orders s)"
    by (auto simp: by_venue_or_id_def dest: find_Some_prop)
  then obtain k where "map_of (orders s) k = Some ord"
    using inv map_of_values [of "orders s" ord] by (auto simp: index_inv_def simp del: map_of_eq_Some_iff)
  with index_inv_id [OF inv this] show ?thesis by simp
next
  case (Some x)
  with r index_inv_id [OF inv Some] show ?thesis by (simp add: by_venue_or_id_def)
qed

lemma live_for_tracked:
  assumes inv: "index_inv s" and "ord \<in> set (live_for s tok sd)"
  shows "map_of (orders s) (o_order_id ord) = Some ord \<and> live ord \<and> o_token_id ord = tok \<and> o_side ord = sd"
proof -
  let ?P = "\<lambda>ord. live ord \<and> o_token_id ord = tok"
  have mem: "ord \<in> set (rows s (keys_where (orders s) ?P))" "o_side ord = sd"
    using assms by (simp_all add: live_for_eq)
  then have "ord \<in> snd ` set (orders s)" "?P ord"
    using set_rows_keys_where [OF inv, of ?P] by auto
  then obtain k where "map_of (orders s) k = Some ord"
    using inv map_of_values [of "orders s" ord] by (auto simp: index_inv_def simp del: map_of_eq_Some_iff)
  with index_inv_id [OF inv this] mem \<open>?P ord\<close> show ?thesis by simp
qed

lemma resolve_tracked:
  assumes inv: "index_inv s" and r: "resolve s f = Some i"
  shows "\<exists>ord. map_of (orders s) i = Some ord"
proof (cases "by_venue_or_id s (f_order_id f)")
  case (Some ord)
  with r by_venue_or_id_tracked [OF inv Some] show ?thesis by (auto simp: resolve_def)
next
  case None
  let ?l = "sort_key (\<lambda>ord. - o_submitted_at_ms ord) (live_for s (f_token_id f) (f_side f))"
  from None r obtain ord rest where "?l = ord # rest" "i = o_order_id ord"
    by (auto simp: resolve_def split: list.splits)
  moreover from this have "ord \<in> set (live_for s (f_token_id f) (f_side f))"
    by (metis list.set_intros(1) set_sort)
  ultimately show ?thesis
    using live_for_tracked [OF inv] by blast
qed

section \<open>One size change\<close>

definition filled_of :: "ome \<Rightarrow> order_id \<Rightarrow> decimal" where
  "filled_of s i = (case map_of (orders s) i of Some ord \<Rightarrow> o_filled_size ord | None \<Rightarrow> 0)"

definition delta_size :: "order_id \<Rightarrow> fill_delta option \<Rightarrow> decimal" where
  "delta_size i d = (case d of Some x \<Rightarrow> if fd_order_id x = i then fd_delta x else 0 | None \<Rightarrow> 0)"

lemma filled_of_cong: "orders s' = orders s \<Longrightarrow> filled_of s' i = filled_of s i"
  by (simp add: filled_of_def)

lemma record_delta_ok:
  assumes "map_of (orders s) i = Some ord"
  shows "\<exists>s1 d l. record_delta D i moved p now m s = (s1, Inr (d, l))"
  using assms by (simp add: record_delta_def Let_def)

lemma record_delta_filled:
  assumes "record_delta D i moved p now m s = (s', Inr (d, l))"
  shows "filled_of s' j = filled_of s j + delta_size j d"
proof -
  obtain ord where "map_of (orders s) i = Some ord"
    using assms by (auto simp: record_delta_def split: option.splits)
  with assms show ?thesis
    by (auto simp: record_delta_def Let_def filled_of_def delta_size_def delta_of_def filled_order_def
        split: if_splits)
qed

lemma stamped_sel [simp]:
  "delta_size j (oc_delta (stamped k r)) = delta_size j (fst r)"
  "oc_delta (stamped k r) = None \<longleftrightarrow> fst r = None"
  "oc_ghost_fill (stamped k r) = None"
  by (auto simp: stamped_def delta_size_def split: option.splits)

lemma no_outcome_sel [simp]:
  "oc_delta no_outcome = None" "oc_late_fill no_outcome = None" "oc_ghost_fill no_outcome = None"
  by (simp_all add: no_outcome_def)

lemma delta_size_None [simp]: "delta_size j None = 0"
  by (simp add: delta_size_def)

text \<open>The two ways a resolved fill goes, as the state and outcome they produce.\<close>

lemma apply_failed_cases:
  assumes "map_of (orders s) i = Some ord"
  obtains (nothing) "apply_failed D f i k now s = (s, Inr no_outcome)"
  | (rollback) prev s1 d l where "map_of (applied s) k = Some prev" "af_applied prev > 0"
      "record_delta D i (- af_applied prev) (af_price prev) now (f_maker f) s = (s1, Inr (d, l))"
      "apply_failed D f i k now s = (remember k i 0 (af_price prev) s1, Inr (stamped k (d, l)))"
proof (cases "\<exists>prev. map_of (applied s) k = Some prev \<and> af_applied prev > 0")
  case True
  then obtain prev where prev: "map_of (applied s) k = Some prev" "af_applied prev > 0" by auto
  obtain s1 d l where
    "record_delta D i (- af_applied prev) (af_price prev) now (f_maker f) s = (s1, Inr (d, l))"
    using record_delta_ok [OF assms] by blast
  with prev show ?thesis by - (rule rollback [of prev s1 d l], simp_all add: apply_failed_def)
next
  case False
  then show ?thesis
    by - (rule nothing, auto simp: apply_failed_def simp del: map_of_eq_Some_iff split: option.splits)
qed

definition prev_applied :: "ome \<Rightarrow> string \<Rightarrow> decimal" where
  "prev_applied s k = (case map_of (applied s) k of Some a \<Rightarrow> af_applied a | None \<Rightarrow> 0)"

definition prev_price :: "ome \<Rightarrow> string \<Rightarrow> decimal \<Rightarrow> decimal" where
  "prev_price s k p = (case map_of (applied s) k of Some a \<Rightarrow> af_price a | None \<Rightarrow> p)"

lemma apply_reported_eq:
  "apply_reported D f i k now s =
    (if max (f_size f) 0 \<le> prev_applied s k
     then (remember k i (prev_applied s k) (prev_price s k (f_price f)) s, Inr no_outcome)
     else (case record_delta D i (max (f_size f) 0 - prev_applied s k) (f_price f) now (f_maker f) s of
        (s1, Inl e) \<Rightarrow> (s1, Inl e)
      | (s1, Inr r) \<Rightarrow> (remember k i (max (f_size f) 0) (f_price f) s1, Inr (stamped k r))))"
proof -
  define q where "q = max (f_size f) 0"
  show ?thesis
    unfolding apply_reported_def Let_def q_def [symmetric]
    by (cases "map_of (applied s) k")
      (simp_all add: prev_applied_def prev_price_def max_absorb1 del: map_of_eq_Some_iff)
qed

lemma apply_reported_cases:
  assumes "map_of (orders s) i = Some ord"
  obtains (nothing) "max (f_size f) 0 \<le> prev_applied s k"
      "apply_reported D f i k now s =
        (remember k i (prev_applied s k) (prev_price s k (f_price f)) s, Inr no_outcome)"
  | (booked) s1 d l where "prev_applied s k < max (f_size f) 0"
      "record_delta D i (max (f_size f) 0 - prev_applied s k) (f_price f) now (f_maker f) s = (s1, Inr (d, l))"
      "apply_reported D f i k now s = (remember k i (max (f_size f) 0) (f_price f) s1, Inr (stamped k (d, l)))"
proof (cases "max (f_size f) 0 \<le> prev_applied s k")
  case True
  then show ?thesis by - (rule nothing, simp_all only: apply_reported_eq if_True)
next
  case False
  let ?d = "max (f_size f) 0 - prev_applied s k"
  obtain s1 d l where "record_delta D i ?d (f_price f) now (f_maker f) s = (s1, Inr (d, l))"
    using record_delta_ok [OF assms] by blast
  moreover from this False have "apply_reported D f i k now s =
      (remember k i (max (f_size f) 0) (f_price f) s1, Inr (stamped k (d, l)))"
    by (simp only: apply_reported_eq if_False prod.case sum.case)
  moreover from False have "prev_applied s k < max (f_size f) 0" by (simp only: not_le)
  ultimately show ?thesis by - (rule booked)
qed

section \<open>A fill report succeeds and moves what it announces\<close>

lemma fill_report_accounts:
  assumes inv: "index_inv s"
  shows "\<exists>s' out. apply_fill_report D f now s = (s', Inr out) \<and>
    (\<forall>j. filled_of s' j = filled_of s j + delta_size j (oc_delta out))"
proof -
  let ?ghost = "s\<lparr>ghost_alerted := (if raw_key f \<noteq> [] then ghost_alerted s - {raw_key f}
                                      else ghost_alerted s)\<rparr>"
  consider (dup) "duplicate_untracked f s" | (none) "\<not> duplicate_untracked f s" "resolve s f = None"
    | (some) i where "\<not> duplicate_untracked f s" "resolve s f = Some i"
    by (cases "resolve s f") auto
  then show ?thesis
  proof cases
    case dup
    then show ?thesis by (simp add: apply_fill_report_def)
  next
    case none
    obtain s1 out where g: "buffer_ghost f now s = (s1, out)" by (cases "buffer_ghost f now s") auto
    then have "orders s1 = orders s" "oc_delta out = None"
      using buffer_ghost_frame(1) [of f now s] by (auto simp: buffer_ghost_def Let_def)
    with none g show ?thesis by (simp add: apply_fill_report_def filled_of_cong [of s1 s])
  next
    case some
    obtain ord where "map_of (orders s) i = Some ord" using resolve_tracked [OF inv some(2)] by auto
    then have tracked: "map_of (orders ?ghost) i = Some ord" by simp
    let ?f = "f\<lparr>f_order_id := i\<rparr>" and ?k = "trade_key D i (f\<lparr>f_order_id := i\<rparr>)"
    have gh: "filled_of ?ghost j = filled_of s j" for j by (simp add: filled_of_def)
    show ?thesis
    proof (cases "f_status f = FsFailed")
      case True
      then have eq: "apply_fill_report D f now s = apply_failed D ?f i ?k now ?ghost"
        using some by (simp add: apply_fill_report_def Let_def)
      show ?thesis
        by (rule apply_failed_cases [OF tracked, of D ?f ?k now])
          (use eq gh record_delta_filled in \<open>auto simp: filled_of_cong [of "remember _ _ _ _ _"]\<close>)
    next
      case False
      then have eq: "apply_fill_report D f now s = apply_reported D ?f i ?k now ?ghost"
        using some by (simp add: apply_fill_report_def Let_def)
      show ?thesis
        by (rule apply_reported_cases [OF tracked, of ?f ?k D now])
          (use eq gh record_delta_filled in \<open>auto simp: filled_of_cong [of "remember _ _ _ _ _"]\<close>)
    qed
  qed
qed

lemma fill_report_Inr: "index_inv s \<Longrightarrow> \<exists>out. snd (apply_fill_report D f now s) = Inr out"
  using fill_report_accounts by (metis snd_conv)

lemma drain_loop_Inr:
  "index_inv s \<Longrightarrow> \<exists>out'. snd (drain_loop D now pfs out s) = Inr out'"
proof (induction pfs arbitrary: s out)
  case (Cons pf pfs)
  obtain s' oc where r: "apply_fill_report D (pf_fill pf) now s = (s', Inr oc)"
    using fill_report_accounts [OF Cons.prems] by blast
  with Cons.prems have "index_inv s'" by (metis apply_fill_report_index_inv fst_conv)
  with r Cons show ?case by simp
qed simp

text \<open>A session's reports, in order, with every outcome.\<close>

fun report_all :: "dec_ops \<Rightarrow> (fill \<times> int) list \<Rightarrow> ome \<Rightarrow> ome \<times> fill_outcome list" where
  "report_all D [] s = (s, [])"
| "report_all D ((f, now) # fs) s =
    (case apply_fill_report D f now s of
       (s1, Inl e) \<Rightarrow> report_all D fs s1
     | (s1, Inr out) \<Rightarrow> (case report_all D fs s1 of (s2, outs) \<Rightarrow> (s2, out # outs)))"

lemma report_all_accounts:
  "index_inv s \<Longrightarrow> filled_of (fst (report_all D fs s)) j =
     filled_of s j + (\<Sum>out\<leftarrow>snd (report_all D fs s). delta_size j (oc_delta out))"
proof (induction fs arbitrary: s)
  case (Cons fn fs)
  obtain f now where fn: "fn = (f, now)" by (cases fn)
  obtain s' out where r: "apply_fill_report D f now s = (s', Inr out)"
    "filled_of s' j = filled_of s j + delta_size j (oc_delta out)"
    using fill_report_accounts [OF Cons.prems] by blast
  from r(1) Cons.prems have "index_inv s'" by (metis apply_fill_report_index_inv fst_conv)
  with Cons.IH [of s'] r fn show ?case by (auto split: prod.splits)
qed simp

section \<open>The fill ledger remembers\<close>

lemma remember_no_evict:
  assumes "length (applied s) < APPLIED_CAP"
  shows "\<exists>e. map_of (applied (remember k i a p s)) k = Some e \<and> af_applied e = a \<and> af_price e = p"
    and "k' \<noteq> k \<Longrightarrow> map_of (applied (remember k i a p s)) k' = map_of (applied s) k'"
proof -
  have stop: "evict_applied t = t" if "length (applied t) \<le> APPLIED_CAP" for t
    using that by (simp add: evict_applied_stop)
  have "length (AList.update k v (applied s)) \<le> APPLIED_CAP" for v
    using assms by (simp add: length_update)
  then show "\<exists>e. map_of (applied (remember k i a p s)) k = Some e \<and> af_applied e = a \<and> af_price e = p"
    "k' \<noteq> k \<Longrightarrow> map_of (applied (remember k i a p s)) k' = map_of (applied s) k'"
    by (auto simp: remember_def Let_def stop simp del: map_of_eq_Some_iff split: option.splits)
qed

lemma prev_applied_remember:
  "length (applied s) < APPLIED_CAP \<Longrightarrow> prev_applied (remember k i a p s) k = a"
  using remember_no_evict(1) [of s k i a p] by (auto simp: prev_applied_def simp del: map_of_eq_Some_iff)

lemma remember_unchanged:
  "map_of (applied s) k = Some e \<Longrightarrow> af_applied e = a \<Longrightarrow> af_price e = p \<Longrightarrow> remember k i a p s = s"
  by (simp add: remember_def)

lemma record_delta_frame:
  "applied (fst (record_delta D i d p now m s)) = applied s"
  "applied_journal (fst (record_delta D i d p now m s)) = applied_journal s"
  "applied_seq (fst (record_delta D i d p now m s)) = applied_seq s"
  by (simp_all add: record_delta_def Let_def split: option.splits)

lemma record_delta_frame':
  assumes "record_delta D i d p now m s = (s1, r)"
  shows "applied s1 = applied s" "applied_journal s1 = applied_journal s"
    "applied_seq s1 = applied_seq s"
  using record_delta_frame [of D i d p now m s] assms by simp_all

text \<open>The key a fill is booked under, when the venue gave it one.\<close>

definition venue_key :: "fill \<Rightarrow> string option" where
  "venue_key f = or_else (f_trade_id f) (f_tx_hash f)"

lemma trade_key_venue: "venue_key f = Some k \<Longrightarrow> trade_key D i (f\<lparr>f_order_id := j\<rparr>) = k"
  by (simp add: venue_key_def trade_key_def)

lemma trade_key_venue_id: "venue_key f = Some k \<Longrightarrow> trade_key D i f = k"
  by (simp add: venue_key_def trade_key_def)

lemma raw_key_venue: "venue_key f = Some k \<Longrightarrow> raw_key f = k"
  by (simp add: venue_key_def raw_key_def)

text \<open>A trade already booked with at least this size moves nothing, whatever order it resolves to.\<close>

lemma booked_trade_moves_nothing:
  assumes inv: "index_inv s" and key: "venue_key f = Some k" and st: "f_status f \<noteq> FsFailed"
    and known: "map_of (applied s) k \<noteq> None" and sz: "max (f_size f) 0 \<le> prev_applied s k"
  shows "\<exists>s' out. apply_fill_report D f now s = (s', Inr out) \<and> orders s' = orders s \<and>
    applied s' = applied s \<and> oc_delta out = None \<and> oc_late_fill out = None"
proof -
  obtain a where a: "map_of (applied s) k = Some a" using known by blast
  then have prev: "prev_applied s k = af_applied a" "prev_price s k p = af_price a" for p
    by (simp_all add: prev_applied_def prev_price_def)
  consider (dup) "duplicate_untracked f s" | (none) "\<not> duplicate_untracked f s" "resolve s f = None"
    | (some) i where "\<not> duplicate_untracked f s" "resolve s f = Some i"
    by (cases "resolve s f") auto
  then show ?thesis
  proof cases
    case dup
    then show ?thesis by (simp add: apply_fill_report_def)
  next
    case none
    then show ?thesis
      using buffer_ghost_frame(1,6) [of f now s]
      by (auto simp: apply_fill_report_def buffer_ghost_def Let_def)
  next
    case some
    let ?g = "s\<lparr>ghost_alerted := (if raw_key f \<noteq> [] then ghost_alerted s - {raw_key f}
                                      else ghost_alerted s)\<rparr>"
    have "apply_fill_report D f now s = apply_reported D (f\<lparr>f_order_id := i\<rparr>) i k now ?g"
      using some st by (simp add: apply_fill_report_def Let_def trade_key_venue [OF key])
    also have "\<dots> = (remember k i (af_applied a) (af_price a) ?g, Inr no_outcome)"
      using sz a by (simp add: apply_reported_eq prev_applied_def prev_price_def)
    also have "remember k i (af_applied a) (af_price a) ?g = ?g"
      using a by (intro remember_unchanged) simp_all
    finally show ?thesis by simp
  qed
qed

text \<open>What a report leaves in the fill ledger.\<close>

lemma resolve_cong:
  assumes "orders s1 = orders s" and "live_by_token s1 = live_by_token s"
  shows "resolve s1 f = resolve s f"
proof -
  have "by_venue_or_id s1 x = by_venue_or_id s x" for x
    by (simp only: by_venue_or_id_def assms)
  moreover have "live_for s1 t d = live_for s t d" for t d
    by (simp only: live_for_def rows_def assms)
  ultimately show ?thesis by (simp only: resolve_def)
qed

lemma report_remembers:
  assumes inv: "index_inv s" and key: "venue_key f = Some k" and st: "f_status f \<noteq> FsFailed"
    and room: "length (applied s) < APPLIED_CAP"
    and rep: "apply_fill_report D f now s = (s1, r)"
  shows "orders s1 = orders s \<and> resolve s f = None \<and> resolve s1 f = None \<and> applied s1 = applied s \<or>
    map_of (applied s1) k \<noteq> None \<and> max (f_size f) 0 \<le> prev_applied s1 k \<or>
    duplicate_untracked f s \<and> s1 = s"
proof -
  consider (dup) "duplicate_untracked f s" | (none) "\<not> duplicate_untracked f s" "resolve s f = None"
    | (some) i where "\<not> duplicate_untracked f s" "resolve s f = Some i"
    by (cases "resolve s f") auto
  then show ?thesis
  proof cases
    case dup
    with rep show ?thesis by (simp add: apply_fill_report_def)
  next
    case none
    with rep have "s1 = fst (buffer_ghost f now s)"
      by (auto simp: apply_fill_report_def split: prod.splits)
    then have same: "orders s1 = orders s" "live_by_token s1 = live_by_token s" "applied s1 = applied s"
      by simp_all
    then have "resolve s1 f = resolve s f"
      by (intro resolve_cong)
    with same none show ?thesis by simp
  next
    case some
    let ?g = "s\<lparr>ghost_alerted := (if raw_key f \<noteq> [] then ghost_alerted s - {raw_key f}
                                      else ghost_alerted s)\<rparr>"
    let ?f = "f\<lparr>f_order_id := i\<rparr>"
    obtain ord where "map_of (orders s) i = Some ord" using resolve_tracked [OF inv some(2)] by auto
    then have tracked: "map_of (orders ?g) i = Some ord" by simp
    have eq: "apply_fill_report D f now s = apply_reported D ?f i k now ?g"
      using some st by (simp add: apply_fill_report_def Let_def trade_key_venue [OF key])
    have room': "length (applied ?g) < APPLIED_CAP" using room by simp
    show ?thesis
    proof (rule apply_reported_cases [OF tracked, of ?f k D now])
      assume le: "max (f_size ?f) 0 \<le> prev_applied ?g k"
        and r: "apply_reported D ?f i k now ?g =
          (remember k i (prev_applied ?g k) (prev_price ?g k (f_price ?f)) ?g, Inr no_outcome)"
      from r have "s1 = fst (apply_reported D ?f i k now ?g)" using eq rep by (metis fst_conv)
      then have s1: "s1 = remember k i (prev_applied ?g k) (prev_price ?g k (f_price ?f)) ?g"
        by (simp only: r fst_conv)
      have "prev_applied s1 k = prev_applied ?g k"
        unfolding s1 by (rule prev_applied_remember [OF room'])
      moreover have "map_of (applied s1) k \<noteq> None"
        unfolding s1 using remember_no_evict(1) [OF room', of k i] by (metis option.distinct(1))
      ultimately show ?thesis using le by (simp split del: if_split)
    next
      fix t d l
      assume rd: "record_delta D i (max (f_size ?f) 0 - prev_applied ?g k) (f_price ?f) now (f_maker ?f) ?g
          = (t, Inr (d, l))"
        and r: "apply_reported D ?f i k now ?g =
          (remember k i (max (f_size ?f) 0) (f_price ?f) t, Inr (stamped k (d, l)))"
      have room'': "length (applied t) < APPLIED_CAP"
        using room record_delta_frame' [OF rd] by simp
      from r have "s1 = fst (apply_reported D ?f i k now ?g)" using eq rep by (metis fst_conv)
      then have s1: "s1 = remember k i (max (f_size ?f) 0) (f_price ?f) t"
        by (simp only: r fst_conv)
      have "prev_applied s1 k = max (f_size ?f) 0"
        unfolding s1 by (rule prev_applied_remember [OF room''])
      moreover have "map_of (applied s1) k \<noteq> None"
        unfolding s1 using remember_no_evict(1) [OF room'', of k i] by (metis option.distinct(1))
      ultimately show ?thesis by simp
    qed
  qed
qed

lemma redelivery_moves_nothing:
  assumes inv: "index_inv s" and key: "venue_key f = Some k" and st: "f_status f \<noteq> FsFailed"
    and room: "length (applied s) < APPLIED_CAP"
    and rep: "apply_fill_report D f now s = (s1, r)"
  shows "\<exists>s2 out. apply_fill_report D f now' s1 = (s2, Inr out) \<and> orders s2 = orders s1 \<and>
    oc_delta out = None \<and> oc_late_fill out = None"
proof -
  have inv1: "index_inv s1" using apply_fill_report_index_inv [OF inv, of D f now] rep by simp
  from report_remembers [OF inv key st room rep] consider
      (none) "resolve s1 f = None" | (known) "map_of (applied s1) k \<noteq> None" "max (f_size f) 0 \<le> prev_applied s1 k"
    | (dup) "duplicate_untracked f s1"
    by auto
  then show ?thesis
  proof cases
    case none
    then show ?thesis
      using buffer_ghost_frame(1) [of f now' s1]
      by (auto simp: apply_fill_report_def buffer_ghost_def Let_def)
  next
    case known
    with booked_trade_moves_nothing [OF inv1 key st] show ?thesis by metis
  next
    case dup
    then show ?thesis by (simp add: apply_fill_report_def)
  qed
qed

section \<open>A fill taken back\<close>

lemma record_delta_row:
  assumes "map_of (orders s) i = Some ord"
  shows "\<exists>ord'. map_of (orders (fst (record_delta D i moved p now m s))) i = Some ord' \<and>
    o_filled_size ord' = capped_size ord (max (o_filled_size ord + moved) 0) \<and>
    o_size ord' = o_size ord"
  using assms by (simp add: record_delta_def Let_def filled_order_def)

lemma resolve_by_id:
  "index_inv s \<Longrightarrow> map_of (orders s) (f_order_id f) = Some ord \<Longrightarrow> resolve s f = Some (f_order_id f)"
  by (simp add: resolve_def by_venue_or_id_def index_inv_id)

text \<open>A first report of a positive size, and the FAILED notice of a booked trade, as state changes.\<close>

lemma first_report:
  assumes inv: "index_inv s" and ord: "map_of (orders s) (f_order_id f) = Some ord"
    and key: "venue_key f = Some k" and st: "f_status f \<noteq> FsFailed"
    and new: "map_of (applied s) k = None" and pos: "0 < f_size f"
    and room: "length (applied s) < APPLIED_CAP"
    and rep: "apply_fill_report D f now s = (s1, r)"
  shows "(\<exists>ord'. map_of (orders s1) (f_order_id f) = Some ord' \<and>
      o_filled_size ord' = capped_size ord (max (o_filled_size ord + f_size f) 0) \<and>
      o_size ord' = o_size ord) \<and>
    (\<exists>e. map_of (applied s1) k = Some e \<and> af_applied e = f_size f)"
proof -
  define g where "g = s\<lparr>ghost_alerted := (if raw_key f \<noteq> [] then ghost_alerted s - {raw_key f}
                                      else ghost_alerted s)\<rparr>"
  have gs: "orders g = orders s" "applied g = applied s" by (simp_all add: g_def)
  have dup: "\<not> duplicate_untracked f s"
    using new raw_key_venue [OF key] by (simp add: duplicate_untracked_def)
  have eq: "apply_fill_report D f now s = apply_reported D f (f_order_id f) k now g"
    using st dup resolve_by_id [OF inv ord] trade_key_venue_id [OF key]
    by (simp add: apply_fill_report_def Let_def g_def)
  have ordg: "map_of (orders g) (f_order_id f) = Some ord" using ord gs by simp
  have prev: "prev_applied g k = 0" using new gs by (simp add: prev_applied_def)
  show ?thesis
  proof (rule apply_reported_cases [OF ordg, of f k D now])
    assume "max (f_size f) 0 \<le> prev_applied g k"
    with prev pos show ?thesis by simp
  next
    fix t d l
    assume rd: "record_delta D (f_order_id f) (max (f_size f) 0 - prev_applied g k) (f_price f) now
        (f_maker f) g = (t, Inr (d, l))"
      and ap: "apply_reported D f (f_order_id f) k now g =
        (remember k (f_order_id f) (max (f_size f) 0) (f_price f) t, Inr (stamped k (d, l)))"
    have s1: "s1 = remember k (f_order_id f) (f_size f) (f_price f) t"
      using rep eq ap pos by simp
    have "length (applied t) < APPLIED_CAP" using room gs record_delta_frame' [OF rd] by simp
    then show ?thesis
      using record_delta_row [OF ordg, of D "f_size f" "f_price f" now "f_maker f"] rd prev pos
        remember_no_evict(1) [of t k "f_order_id f" "f_size f" "f_price f"]
      by (auto simp: s1)
  qed
qed

lemma failed_notice:
  assumes inv: "index_inv s" and ord: "map_of (orders s) (f_order_id f) = Some ord"
    and key: "venue_key f = Some k" and st: "f_status f = FsFailed"
    and prev: "map_of (applied s) k = Some e" and pos: "0 < af_applied e"
  shows "\<exists>s1 r ord'. apply_fill_report D f now s = (s1, r) \<and>
      map_of (orders s1) (f_order_id f) = Some ord' \<and>
      o_filled_size ord' = capped_size ord (max (o_filled_size ord - af_applied e) 0)"
proof -
  define g where "g = s\<lparr>ghost_alerted := (if raw_key f \<noteq> [] then ghost_alerted s - {raw_key f}
                                      else ghost_alerted s)\<rparr>"
  have gs: "orders g = orders s" "applied g = applied s" by (simp_all add: g_def)
  have eq: "apply_fill_report D f now s = apply_failed D f (f_order_id f) k now g"
    using st resolve_by_id [OF inv ord] trade_key_venue_id [OF key]
    by (simp add: apply_fill_report_def duplicate_untracked_def Let_def g_def)
  have ordg: "map_of (orders g) (f_order_id f) = Some ord" using ord gs by simp
  obtain t d l where rd: "record_delta D (f_order_id f) (- af_applied e) (af_price e) now (f_maker f) g
      = (t, Inr (d, l))"
    using record_delta_ok [OF ordg] by blast
  then have "apply_fill_report D f now s =
      (remember k (f_order_id f) 0 (af_price e) t, Inr (stamped k (d, l)))"
    using prev pos gs eq by (simp add: apply_failed_def)
  then show ?thesis
    using record_delta_row [OF ordg, of D "- af_applied e" "af_price e" now "f_maker f"] rd by auto
qed

text \<open>Fill then failure: what stays on the order.\<close>

lemma fill_then_failed:
  assumes inv: "index_inv s" and ord: "map_of (orders s) (f_order_id f) = Some ord"
    and ok: "size_ok ord" and key: "venue_key f = Some k" and st: "f_status f \<noteq> FsFailed"
    and new: "map_of (applied s) k = None" and pos: "0 < f_size f"
    and room: "length (applied s) < APPLIED_CAP"
    and s1_def: "s1 = fst (apply_fill_report D f now s)"
    and s2_def: "s2 = fst (apply_fill_report D (f\<lparr>f_status := FsFailed\<rparr>) now' s1)"
  shows "filled_of s2 (f_order_id f) =
    max (capped_size ord (o_filled_size ord + f_size f) - f_size f) 0"
proof -
  obtain r where rep: "apply_fill_report D f now s = (s1, r)"
    by (cases "apply_fill_report D f now s") (auto simp: s1_def)
  have nonneg: "0 \<le> o_filled_size ord" using ok by (simp add: size_ok_def)
  obtain o1 e where o1: "map_of (orders s1) (f_order_id f) = Some o1"
      "o_filled_size o1 = capped_size ord (o_filled_size ord + f_size f)" "o_size o1 = o_size ord"
    and e: "map_of (applied s1) k = Some e" "af_applied e = f_size f"
    using first_report [OF inv ord key st new pos room rep] nonneg pos by (auto simp: max_absorb1)
  have inv1: "index_inv s1" using apply_fill_report_index_inv [OF inv, of D f now] rep by simp
  let ?g = "f\<lparr>f_status := FsFailed\<rparr>"
  have gk: "venue_key ?g = Some k" using key by (simp add: venue_key_def)
  obtain o2 where "map_of (orders s2) (f_order_id f) = Some o2"
    "o_filled_size o2 = capped_size o1 (max (o_filled_size o1 - af_applied e) 0)"
    using failed_notice [OF inv1 _ gk _ e(1), of o1 D now'] o1 e pos by (auto simp: s2_def)
  then show ?thesis
    using o1 e pos by (auto simp: filled_of_def capped_size_def)
qed

section \<open>The journal rebuilds the ledger\<close>

text \<open>What the fill ledger says of a trade: the amount booked, its price, its order. The sequence
  numbers, which only order the eviction, are not part of it.\<close>

definition booked :: "ome \<Rightarrow> string \<Rightarrow> (decimal \<times> decimal \<times> order_id) option" where
  "booked s k = map_option (\<lambda>a. (af_applied a, af_price a, af_order_id a)) (map_of (applied s) k)"

definition apply_record ::
  "applied_fill_record \<Rightarrow> (string \<Rightarrow> (decimal \<times> decimal \<times> order_id) option) \<Rightarrow>
   string \<Rightarrow> (decimal \<times> decimal \<times> order_id) option" where
  "apply_record r m = (if afr_evicted r then m(afr_trade_key r := None)
     else m(afr_trade_key r \<mapsto> (afr_applied r, afr_price r, afr_order_id r)))"

lemma booked_restore_one: "booked (restore_applied_one r s) = apply_record r (booked s)"
  by (rule ext) (simp add: booked_def apply_record_def restore_applied_one_def Let_def)

lemma booked_restore: "booked (restore_applied rs s) = fold apply_record rs (booked s)"
proof (induction rs arbitrary: s)
  case (Cons r rs)
  then show ?case by (simp add: restore_applied_def booked_restore_one)
qed (simp add: restore_applied_def)

text \<open>\<open>t\<close> follows \<open>s\<close> by journal records alone, none of them cut off.\<close>

definition journalled :: "ome \<Rightarrow> ome \<Rightarrow> bool" where
  "journalled s t \<longleftrightarrow> (\<exists>rs. applied_journal t = applied_journal s @ rs \<and>
     booked t = fold apply_record rs (booked s) \<and>
     length rs + length (applied t) \<le> length (applied s) + 2 \<and>
     length (applied t) \<le> Suc (length (applied s)))"

lemma journal_appends:
  "length (applied_journal s) < APPLIED_JOURNAL_CAP \<Longrightarrow>
   applied_journal (journal r s) = applied_journal s @ [r]"
  by (simp add: journal_def Let_def)

lemma booked_upd [simp]:
  "booked (journal r s) = booked s"
  "booked (s\<lparr>applied := AList.delete k m\<rparr>) = (booked (s\<lparr>applied := m\<rparr>))(k := None)"
  "booked (s\<lparr>applied := AList.update k a m\<rparr>) =
     (booked (s\<lparr>applied := m\<rparr>))(k \<mapsto> (af_applied a, af_price a, af_order_id a))"
  "booked (s\<lparr>applied_seq := q\<rparr>) = booked s"
  by (auto simp: booked_def)

lemma evict_journalled:
  "length (applied_journal s) + length (applied s) \<le> APPLIED_JOURNAL_CAP \<Longrightarrow>
   \<exists>rs. applied_journal (evict_applied s) = applied_journal s @ rs \<and>
     booked (evict_applied s) = fold apply_record rs (booked s) \<and>
     length rs + length (applied (evict_applied s)) \<le> length (applied s)"
proof (induction s rule: evict_induct)
  case (stop s)
  then show ?case by (simp add: evict_applied_stop)
next
  case (step s k a)
  let ?t = "evict_one k a s"
  note eq = evict_applied_step [OF step.hyps]
  have less: "length (applied ?t) < length (applied s)" by (rule victim_shrinks [OF step.hyps(2)])
  with step.prems have j: "applied_journal ?t = applied_journal s @ [record_of k a True]"
    by (simp add: evict_one_def journal_appends)
  have b: "booked ?t = apply_record (record_of k a True) (booked s)"
    by (simp add: evict_one_def apply_record_def record_of_def)
  obtain rs where "applied_journal (evict_applied ?t) = applied_journal ?t @ rs"
    "booked (evict_applied ?t) = fold apply_record rs (booked ?t)"
    "length rs + length (applied (evict_applied ?t)) \<le> length (applied ?t)"
    using step.IH step.prems less j by auto
  with less j b eq show ?case
    by (intro exI [of _ "record_of k a True # rs"]) simp
qed

lemma remember_journalled:
  assumes room: "length (applied_journal s) + length (applied s) + 2 \<le> APPLIED_JOURNAL_CAP"
  shows "journalled s (remember k i a p s)"
proof -
  have main: "journalled s (evict_applied (journal (record_of k e False) t))"
    if "applied t = AList.update k e (applied s)" "applied_journal t = applied_journal s" for t e
  proof -
    let ?u = "journal (record_of k e False) t"
    have len: "length (applied ?u) \<le> Suc (length (applied s))" using that by (simp add: length_update)
    have j: "applied_journal ?u = applied_journal s @ [record_of k e False]"
      using room that by (simp add: journal_appends)
    have b: "booked ?u = apply_record (record_of k e False) (booked s)"
      using that by (auto simp: booked_def apply_record_def record_of_def)
    obtain rs where "applied_journal (evict_applied ?u) = applied_journal ?u @ rs"
      "booked (evict_applied ?u) = fold apply_record rs (booked ?u)"
      "length rs + length (applied (evict_applied ?u)) \<le> length (applied ?u)"
      using evict_journalled [of ?u] room len j by auto
    with len j b show ?thesis
      by (auto simp: journalled_def intro!: exI [of _ "record_of k e False # rs"])
  qed
  have refl: "journalled s s" by (auto simp: journalled_def intro: exI [of _ "[]"])
  show ?thesis
    by (auto simp: remember_def Let_def refl simp del: map_of_eq_Some_iff split: option.splits
        intro!: main)
qed

lemma journalled_from:
  "applied s' = applied s \<Longrightarrow> applied_journal s' = applied_journal s \<Longrightarrow>
   journalled s' t \<Longrightarrow> journalled s t"
  unfolding journalled_def booked_def by simp

lemma report_journalled:
  assumes inv: "index_inv s"
    and room: "length (applied_journal s) + length (applied s) + 2 \<le> APPLIED_JOURNAL_CAP"
  shows "journalled s (fst (apply_fill_report D f now s))"
proof -
  define C where "C = (applied s, applied_journal s)"
  have refl: "journalled s t" if "applied t = applied s" "applied_journal t = applied_journal s" for t
    using that by (auto simp: journalled_def booked_def intro: exI [of _ "[]"])
  have rem: "journalled s (remember k i a p t)"
    if "applied t = applied s" "applied_journal t = applied_journal s" for k i a p t
    using remember_journalled [of t k i a p] room that by (auto intro: journalled_from [of t s])
  let ?g = "s\<lparr>ghost_alerted := (if raw_key f \<noteq> [] then ghost_alerted s - {raw_key f}
                                      else ghost_alerted s)\<rparr>"
  have failed: "journalled s (fst (apply_failed D f' i k now ?g))" for f' i k
    using record_delta_frame [of D i _ _ now "f_maker f'" ?g]
    by (auto simp: apply_failed_def split: option.splits prod.splits sum.splits intro!: refl rem)
      (metis fst_conv)+
  have reported: "journalled s (fst (apply_reported D f' i k now ?g))" for f' i k
    unfolding apply_reported_eq
    using record_delta_frame [of D i _ _ now "f_maker f'" ?g]
    by (auto split: prod.splits sum.splits simp del: max_less_iff_conj intro!: refl rem)
      (metis fst_conv)+
  consider (dup) "duplicate_untracked f s" | (none) "\<not> duplicate_untracked f s" "resolve s f = None"
    | (some) i where "\<not> duplicate_untracked f s" "resolve s f = Some i"
    by (cases "resolve s f") auto
  then show ?thesis
  proof cases
    case none
    then have "fst (apply_fill_report D f now s) = fst (buffer_ghost f now s)"
      by (simp add: apply_fill_report_def split: prod.splits)
    then show ?thesis by (intro refl) simp_all
  next
    case some
    then show ?thesis
      using failed reported
      by (simp add: apply_fill_report_def Let_def split del: if_split cong: if_cong) (simp split: if_split)
  qed (intro refl; simp add: apply_fill_report_def)
qed

text \<open>A session as the service runs it: after every report the journal is drained to the durable
  log.\<close>

fun session ::
  "dec_ops \<Rightarrow> (fill \<times> int) list \<Rightarrow> ome \<Rightarrow> applied_fill_record list \<Rightarrow> ome \<times> applied_fill_record list" where
  "session D [] s lg = (s, lg)"
| "session D ((f, now) # fs) s lg =
    (case take_applied_journal (fst (apply_fill_report D f now s)) of
       (s1, rs) \<Rightarrow> session D fs s1 (lg @ rs))"

lemma session_replays:
  assumes "index_inv s" and "applied_journal s = []"
    and "length (applied s) + length fs + 2 \<le> APPLIED_JOURNAL_CAP"
    and "booked (restore_applied lg s0) = booked s"
  shows "booked (restore_applied (snd (session D fs s lg)) s0) = booked (fst (session D fs s lg))"
  using assms
proof (induction fs arbitrary: s lg)
  case (Cons fn fs)
  obtain f now where fn: "fn = (f, now)" by (cases fn)
  let ?t = "fst (apply_fill_report D f now s)"
  let ?u = "?t\<lparr>applied_journal := []\<rparr>"
  have "journalled s ?t" using report_journalled [OF Cons.prems(1)] Cons.prems(2,3) by simp
  then have j: "booked ?t = fold apply_record (applied_journal ?t) (booked s)"
    "length (applied ?t) \<le> Suc (length (applied s))"
    using Cons.prems(2) by (auto simp: journalled_def)
  have "booked ?u = booked ?t" unfolding booked_def by simp
  with j Cons.prems(4) have "booked (restore_applied (lg @ applied_journal ?t) s0) = booked ?u"
    by (simp add: booked_restore)
  moreover have "index_inv ?u" using apply_fill_report_index_inv [OF Cons.prems(1)] by simp
  ultimately have "booked (restore_applied (snd (session D fs ?u (lg @ applied_journal ?t))) s0)
      = booked (fst (session D fs ?u (lg @ applied_journal ?t)))"
    using Cons.IH [of ?u "lg @ applied_journal ?t"] j(2) Cons.prems(3) by simp
  then show ?case by (simp add: fn take_applied_journal_def)
qed simp

text \<open>The compacted form of the log, one record per entry, restores the same ledger.\<close>

lemma fold_apply_distinct:
  assumes "distinct (map afr_trade_key rs)" and "\<forall>r \<in> set rs. \<not> afr_evicted r"
  shows "fold apply_record rs m k =
    (case map_of (map (\<lambda>r. (afr_trade_key r, r)) rs) k of
       Some r \<Rightarrow> Some (afr_applied r, afr_price r, afr_order_id r) | None \<Rightarrow> m k)"
  using assms
proof (induction rs arbitrary: m)
  case (Cons r rs)
  have "map_of (map (\<lambda>r. (afr_trade_key r, r)) rs) (afr_trade_key r) = None"
    using Cons.prems(1) by (auto simp: map_of_eq_None_iff)
  with Cons show ?case by (auto simp: apply_record_def split: option.splits)
qed simp

lemma snapshot_restores:
  assumes "distinct (map fst (applied s))" and new: "booked s0 = (\<lambda>_. None)"
  shows "booked (restore_applied (applied_snapshot s) s0) = booked s"
proof (rule ext)
  fix k
  let ?rs = "applied_snapshot s"
  let ?kv = "map (\<lambda>r. (afr_trade_key r, r)) ?rs"
  have "distinct (map afr_trade_key (map (\<lambda>(k, a). record_of k a False) (applied s)))"
    using assms(1) by (simp add: record_of_def case_prod_beta comp_def)
  then have d: "distinct (map afr_trade_key ?rs)"
    unfolding applied_snapshot_def by (subst (asm) distinct_map) (subst distinct_map, simp)
  have set: "set ?rs = (\<lambda>(k, a). record_of k a False) ` set (applied s)"
    by (simp add: applied_snapshot_def)
  have ne: "\<forall>r \<in> set ?rs. \<not> afr_evicted r" by (auto simp: set record_of_def)
  have "map_of ?kv k = map_option (\<lambda>a. record_of k a False) (map_of (applied s) k)"
  proof (cases "map_of (applied s) k")
    case None
    then have "map_of ?kv k = None" by (auto simp: map_of_eq_None_iff set record_of_def image_iff)
    with None show ?thesis by simp
  next
    case (Some a)
    then have "(k, record_of k a False) \<in> set ?kv"
      using map_of_SomeD [OF Some] by (force simp: set record_of_def)
    with d Some show ?thesis by (simp add: comp_def)
  qed
  with fold_apply_distinct [OF d ne, of "booked s0" k] show "booked (restore_applied ?rs s0) k = booked s k"
    by (simp add: booked_restore new booked_def record_of_def split: option.splits)
qed

section \<open>The buffer of unknown fills\<close>

definition buffer_inv :: "ome \<Rightarrow> bool" where
  "buffer_inv s \<longleftrightarrow> length (pending_fills s) \<le> 500"

lemma pending_record_delta [simp]:
  "pending_fills (fst (record_delta D i d p now m s)) = pending_fills s"
  by (simp add: record_delta_def Let_def split: option.splits)

lemma pending_record_delta':
  "record_delta D i d p now m s = (s1, r) \<Longrightarrow> pending_fills s1 = pending_fills s"
  using pending_record_delta [of D i d p now m s] by simp

lemma fill_report_buffer_inv: "buffer_inv s \<Longrightarrow> buffer_inv (fst (apply_fill_report D f now s))"
  by (rule apply_fill_report_keeps) (auto simp: buffer_inv_def buffer_ghost_def Let_def)

lemma report_resolved_pending:
  assumes r: "resolve s f = Some i"
  shows "pending_fills (fst (apply_fill_report D f now s)) = pending_fills s"
proof -
  let ?P = "\<lambda>t. pending_fills t = pending_fills s"
  have failed: "?P (fst (apply_failed D f i k now t))" if "?P t" for f i k t
    using that
    by (auto simp: apply_failed_def dest: pending_record_delta' split: option.splits prod.splits sum.splits)
  have reported: "?P (fst (apply_reported D f i k now t))" if "?P t" for f i k t
    using that
    by (auto simp: apply_reported_eq dest: pending_record_delta' split: prod.splits sum.splits
        simp del: max_less_iff_conj)
  show ?thesis
    using r by (simp add: apply_fill_report_def Let_def failed reported)
qed

lemma drain_loop_buffer:
  "length (pending_fills s) + length pfs \<le> 500 \<Longrightarrow> buffer_inv (fst (drain_loop D now pfs out s))"
proof (induction pfs arbitrary: s out)
  case (Cons pf pfs)
  show ?case
  proof (cases "resolve s (pf_fill pf)")
    case None
    with Cons show ?thesis by simp
  next
    case (Some i)
    then have "pending_fills (fst (apply_fill_report D (pf_fill pf) now s)) = pending_fills s"
      by (rule report_resolved_pending)
    with Cons Some show ?thesis
      by (auto simp: buffer_inv_def split: prod.splits sum.splits)
  qed
qed (simp add: buffer_inv_def)

lemma drain_buffer_inv: "buffer_inv s \<Longrightarrow> buffer_inv (fst (drain_pending D now s))"
  unfolding drain_pending_def by (rule drain_loop_buffer) (simp add: buffer_inv_def)

lemma mutate_pending [simp]: "pending_fills (fst (mutate i now f s)) = pending_fills s"
  by (simp add: mutate_def split: option.splits sum.splits)

lemma ome_step_buffer_inv: "buffer_inv s \<Longrightarrow> buffer_inv (ome_step D s x)"
proof (cases x)
  case (OpRemoveAccount a)
  assume "buffer_inv s"
  then have "buffer_inv (fst (remove_account_orders a s))"
    by (rule remove_account_keeps) (simp add: buffer_inv_def remove_row_def Let_def)
  with OpRemoveAccount show ?thesis by simp
next
  case (OpRestore os)
  assume "buffer_inv s"
  then have "buffer_inv (restore os s)"
    unfolding restore_def
    by (rule fold_keeps [rotated]) (simp add: buffer_inv_def restore_one_def Let_def)
  with OpRestore show ?thesis by simp
qed (auto simp: fill_report_buffer_inv drain_buffer_inv,
    auto simp: buffer_inv_def mutators submit_def Let_def backfill_round_duration_def
      take_applied_journal_def split: option.splits)

interpretation buffer_machine: invariant_machine "ome_step D" buffer_inv for D
  by unfold_locales (rule ome_step_buffer_inv)

end
