(* ===== verification/OmeProps.thy ===== *)
theory OmeProps
  imports OmeFills
begin

text \<open>
  The properties of the order engine, each a theorem over the operations of \<open>Ome\<close> or over any run of
  them from the empty engine, with the concrete orders and fills the witnesses use.
\<close>

section \<open>Sample data\<close>

definition sample_request :: order_request where
  "sample_request = \<lparr>rq_token_id = ''tok'', rq_condition_id = ''cond'', rq_side = Buy,
     rq_mode = PolMaker, rq_price = 1/2, rq_size = 10, rq_internal_key = ''key'',
     rq_strategy = ''strat'', rq_asset = ''btc'', rq_direction = ''up'', rq_round_slot = 7,
     rq_account_id = default_account_id\<rparr>"

definition sample_params :: submit_params where
  "sample_params = \<lparr>sp_order_id = ''o1'', sp_request = sample_request, sp_submitted_at_ms = 100,
     sp_decision_at_ms = 90, sp_execute_at_ms = 95, sp_report_at_ms = 0, sp_maker_timeout_ms = 3000,
     sp_round_duration_sec = 300\<rparr>"

definition sample_fill :: "decimal \<Rightarrow> fill" where
  "sample_fill q = \<lparr>f_order_id = ''o1'', f_trade_id = Some ''t1'', f_token_id = ''tok'',
     f_side = Buy, f_price = 1/2, f_size = q, f_status = FsMatched, f_ts_ms = 120, f_tx_hash = None,
     f_maker = Some True, f_account_id = default_account_id\<rparr>"

text \<open>The engine with one submitted order of size 10, of which \<open>q\<close> is filled.\<close>

definition sample_row :: "decimal \<Rightarrow> tracked_order" where
  "sample_row q = (fresh_order sample_params)\<lparr>o_filled_size := q\<rparr>"

definition sample_ome :: "decimal \<Rightarrow> ome" where
  "sample_ome q = restore [sample_row q] ome_new"

lemma sample_row_sel [simp]:
  "o_order_id (sample_row q) = ''o1''" "o_size (sample_row q) = 10"
  "o_filled_size (sample_row q) = q" "o_status (sample_row q) = StPending"
  by (simp_all add: sample_row_def fresh_order_def sample_params_def sample_request_def)

lemma sample_fill_sel [simp]:
  "f_order_id (sample_fill q) = ''o1''" "f_status (sample_fill q) = FsMatched"
  "f_size (sample_fill q) = q" "venue_key (sample_fill q) = Some ''t1''"
  by (simp_all add: sample_fill_def venue_key_def or_else_def)

lemma sample_ome_facts [simp]:
  "index_inv (sample_ome q)" "map_of (orders (sample_ome q)) ''o1'' = Some (sample_row q)"
  "applied (sample_ome q) = []" "applied_journal (sample_ome q) = []"
proof -
  show "index_inv (sample_ome q)"
    unfolding sample_ome_def by (intro restore_index_inv index_inv_new)
  show "map_of (orders (sample_ome q)) ''o1'' = Some (sample_row q)"
    by (simp add: sample_ome_def restore_def)
  show "applied (sample_ome q) = []" "applied_journal (sample_ome q) = []"
    by (simp_all add: sample_ome_def restore_def restore_one_def Let_def ome_new_def)
qed

lemma caps [simp]: "0 < APPLIED_CAP" "4 \<le> APPLIED_JOURNAL_CAP"
  by (simp_all add: APPLIED_CAP_def APPLIED_JOURNAL_CAP_def)

section \<open>Lemmas over runs\<close>

lemma order_rows_values: "index_inv s \<Longrightarrow> order_rows s = snd ` set (orders s)"
  using map_of_values [of "orders s"] by (auto simp: order_rows_def index_inv_def simp del: map_of_eq_Some_iff)

lemma rows_exact:
  assumes "index_inv s"
  shows "set (rows s (keys_where (orders s) P)) = {ord \<in> order_rows s. P ord}"
    and "sorted_wrt (<) (map order_key_of (rows s (keys_where (orders s) P)))"
  using assms rows_of_keys_where(1) [of s P] set_rows_keys_where [of s P]
  by (simp_all add: order_rows_values)

lemma sorted_filter_rows:
  "sorted_wrt (<) (map f xs) \<Longrightarrow> sorted_wrt (<) (map f (filter P xs))"
  by (simp add: sorted_wrt_map sorted_wrt_filter)

lemma distinct_seqs_update:
  "distinct (map fst m) \<Longrightarrow> distinct (map (af_seq \<circ> snd) m) \<Longrightarrow> \<forall>e \<in> set m. af_seq (snd e) < af_seq v \<Longrightarrow>
   distinct (map (af_seq \<circ> snd) (AList.update k v m))"
  by (induction m) (auto simp: set_update_distinct)

lemma ledger_inv_fresh_seq:
  assumes "ledger_inv s" and "af_seq a = Suc (applied_seq s)"
  shows "ledger_inv (s\<lparr>applied_seq := Suc (applied_seq s), applied := AList.update k a (applied s)\<rparr>)"
proof -
  have le: "\<forall>e \<in> set (applied s). af_seq (snd e) \<le> applied_seq s"
    and d: "distinct (map fst (applied s))" "distinct (map (af_seq \<circ> snd) (applied s))"
    using assms by (auto simp: ledger_inv_def)
  have "\<forall>e \<in> set (applied s). af_seq (snd e) < af_seq a"
    using le assms(2) by (auto simp: less_Suc_eq_le)
  with distinct_seqs_update [OF d] le d assms(2) show ?thesis
    by (auto simp: ledger_inv_def set_update_distinct le_SucI simp del: map_map)
qed

lemma restore_applied_one_ledger_inv: "ledger_inv s \<Longrightarrow> ledger_inv (restore_applied_one r s)"
  by (auto simp: restore_applied_one_def Let_def intro: ledger_inv_fresh_seq)
    (auto simp: ledger_inv_def set_delete_eq intro!: distinct_delete_seq simp del: map_map)

lemma restore_applied_ledger_inv: "ledger_inv s \<Longrightarrow> ledger_inv (restore_applied rs s)"
  unfolding restore_applied_def by (erule fold_keeps [rotated]) (rule restore_applied_one_ledger_inv)

lemma ledger_inv_cong:
  "applied t = applied s \<Longrightarrow> applied_seq t = applied_seq s \<Longrightarrow> ledger_inv t \<longleftrightarrow> ledger_inv s"
  by (simp add: ledger_inv_def)

lemma ledger_inv_upd [simp]:
  "ledger_inv (s\<lparr>pending_fills := a\<rparr>) \<longleftrightarrow> ledger_inv s" "ledger_inv (s\<lparr>ghost_alerted := b\<rparr>) \<longleftrightarrow> ledger_inv s"
  "ledger_inv (s\<lparr>applied_journal := g\<rparr>) \<longleftrightarrow> ledger_inv s" "ledger_inv (s\<lparr>orders := os\<rparr>) \<longleftrightarrow> ledger_inv s"
  "ledger_inv (s\<lparr>by_internal := d\<rparr>) \<longleftrightarrow> ledger_inv s"
  "ledger_inv (sync_live_index i w s) \<longleftrightarrow> ledger_inv s"
  "ledger_inv (index_insert t i k l s) \<longleftrightarrow> ledger_inv s" "ledger_inv (index_remove i s) \<longleftrightarrow> ledger_inv s"
  "ledger_inv (s\<lparr>filled_sell_times := c\<rparr>) \<longleftrightarrow> ledger_inv s"
  by (simp_all add: ledger_inv_def)

lemma fill_report_ledger_inv: "ledger_inv s \<Longrightarrow> ledger_inv (fst (apply_fill_report D f now s))"
  by (rule apply_fill_report_keeps)
    (auto simp: ledger_inv_cong [OF record_delta_frame(1,3)]
      ledger_inv_cong [of "fst (buffer_ghost _ _ _)"] intro: remember_ledger_inv)

lemma applied_frames [simp]:
  "applied (fst (mutate i now g s)) = applied s" "applied_seq (fst (mutate i now g s)) = applied_seq s"
  "applied (fst (submit p s)) = applied s" "applied_seq (fst (submit p s)) = applied_seq s"
  "applied (backfill_round_duration i sec s) = applied s"
  "applied_seq (backfill_round_duration i sec s) = applied_seq s"
  by (simp_all add: mutate_def submit_def Let_def backfill_round_duration_def
      split: option.splits sum.splits)

lemma ledger_inv_same:
  "ledger_inv s \<Longrightarrow> applied t = applied s \<Longrightarrow> applied_seq t = applied_seq s \<Longrightarrow> ledger_inv t"
  by (simp add: ledger_inv_def)

lemma remove_account_ledger_inv: "ledger_inv s \<Longrightarrow> ledger_inv (fst (remove_account_orders a s))"
  by (erule remove_account_keeps) (simp add: remove_row_def Let_def)

lemma restore_ledger_inv: "ledger_inv s \<Longrightarrow> ledger_inv (restore os s)"
  unfolding restore_def by (erule fold_keeps [rotated]) (simp add: restore_one_def Let_def)

lemma drain_ledger_inv: "ledger_inv s \<Longrightarrow> ledger_inv (fst (drain_pending D now s))"
  unfolding drain_pending_def by (rule drain_loop_keeps) (auto intro: fill_report_ledger_inv)

lemmas ledger_inv_ops = fill_report_ledger_inv drain_ledger_inv remove_account_ledger_inv
  restore_ledger_inv restore_applied_ledger_inv

lemma ome_step_ledger_inv:
  assumes "ledger_inv s"
  shows "ledger_inv (ome_step D s x)"
  by (cases x)
    (simp_all only: ome_step.simps mutators take_applied_journal_def fst_conv ledger_inv_upd
      ledger_inv_ops assms,
     (rule ledger_inv_same [OF assms]; simp)+)

interpretation ledger_machine: invariant_machine "ome_step D" ledger_inv for D
  by unfold_locales (rule ome_step_ledger_inv)

lemma ledger_inv_new: "ledger_inv ome_new"
  by (simp add: ledger_inv_def ome_new_def)

lemma reachable_ledger_inv: "ledger_inv (run (ome_step D) ome_new ops)"
  by (rule ledger_machine.run_inv) (rule ledger_inv_new)

lemma size_inv_new: "size_inv ome_new"
  by (simp add: size_inv_def ome_new_def)

lemma key_inv_new: "key_inv ome_new"
  by (simp add: key_inv_def ome_new_def)

text \<open>A report that announces a delta made exactly one size change, on a tracked order.\<close>

lemma report_with_delta:
  assumes inv: "index_inv s" and rep: "apply_fill_report D f now s = (s', Inr out)"
    and d: "oc_delta out = Some d"
  shows "\<exists>g i k moved p m s1 d0 l. record_delta D i moved p now m g = (s1, Inr (Some d0, l)) \<and>
    orders g = orders s \<and> orders s' = orders s1 \<and> out = stamped k (Some d0, l)"
proof -
  define g where "g = s\<lparr>ghost_alerted := (if raw_key f \<noteq> [] then ghost_alerted s - {raw_key f}
                                      else ghost_alerted s)\<rparr>"
  have gs: "orders g = orders s" by (simp add: g_def)
  have dup: "\<not> duplicate_untracked f s"
    using rep d by (auto simp: apply_fill_report_def)
  obtain i where i: "resolve s f = Some i"
    using rep d dup by (cases "resolve s f") (auto simp: apply_fill_report_def buffer_ghost_def Let_def)
  let ?f = "f\<lparr>f_order_id := i\<rparr>"
  let ?k = "trade_key D i ?f"
  obtain ord where "map_of (orders g) i = Some ord" using resolve_tracked [OF inv i] gs by auto
  note tracked = this
  show ?thesis
  proof (cases "f_status f = FsFailed")
    case True
    then have eq: "apply_failed D ?f i ?k now g = (s', Inr out)"
      using rep dup i by (simp add: apply_fill_report_def Let_def g_def split del: if_split)
    show ?thesis
    proof (rule apply_failed_cases [OF tracked, of D ?f ?k now])
      fix prev s1 d1 l
      assume "record_delta D i (- af_applied prev) (af_price prev) now (f_maker ?f) g = (s1, Inr (d1, l))"
        and "apply_failed D ?f i ?k now g = (remember ?k i 0 (af_price prev) s1, Inr (stamped ?k (d1, l)))"
      moreover from this(2) eq d obtain d0 where "d1 = Some d0" by (auto simp: stamped_def)
      ultimately show ?thesis using eq gs by auto blast
    qed (use eq d in simp)
  next
    case False
    then have eq: "apply_reported D ?f i ?k now g = (s', Inr out)"
      using rep dup i by (simp add: apply_fill_report_def Let_def g_def split del: if_split)
    show ?thesis
    proof (rule apply_reported_cases [OF tracked, of ?f ?k D now])
      fix s1 d1 l
      assume "record_delta D i (max (f_size ?f) 0 - prev_applied g ?k) (f_price ?f) now (f_maker ?f) g
          = (s1, Inr (d1, l))"
        and "apply_reported D ?f i ?k now g =
          (remember ?k i (max (f_size ?f) 0) (f_price ?f) s1, Inr (stamped ?k (d1, l)))"
      moreover from this(2) eq d obtain d0 where "d1 = Some d0" by (auto simp: stamped_def)
      ultimately show ?thesis using eq gs by auto blast
    qed (use eq d in simp)
  qed
qed

lemma record_delta_terminal_late:
  assumes "map_of (orders g) i = Some ord" and "is_terminal (o_status ord)"
    and "record_delta D i moved p now m g = (s1, Inr (Some d, l))"
  shows "fd_order_id d = i \<and>
    (\<exists>lf ord'. l = Some lf \<and> lf_absorbed_by lf = Some (o_status ord) \<and> lf_size lf = fd_delta d \<and>
      map_of (orders s1) i = Some ord' \<and> o_status ord' = o_status ord)"
  using assms
  by (auto simp: record_delta_def Let_def delta_of_def late_of_def filled_order_terminal split: if_splits)

section \<open>Queries\<close>

text \<open>C5: after any history of the engine, \<open>live_orders\<close> returns exactly the orders whose status is
  live, each once, in ascending (submission time, id) order: the incremental live index never drifts
  from the order table.\<close>

theorem ome_live_orders_exact:
  fixes D :: dec_ops and ops :: "ome_op list"
  defines "s \<equiv> run (ome_step D) ome_new ops"
  shows "set (live_orders s) = {ord \<in> order_rows s. is_live (o_status ord)} \<and>
    sorted_wrt (<) (map order_key_of (live_orders s))"
  unfolding s_def using rows_exact [OF reachable_index_inv]
  by (simp add: live_orders_eq [OF reachable_index_inv])

text \<open>After any history, \<open>live_for\<close> returns exactly the live orders of the asked token and side,
  in ascending submission order: the per-token bucket a ghost fill is attributed through is exact.\<close>

theorem ome_live_for_exact:
  fixes D :: dec_ops and ops :: "ome_op list"
  defines "s \<equiv> run (ome_step D) ome_new ops"
  shows "set (live_for s tok sd) =
      {ord \<in> order_rows s. is_live (o_status ord) \<and> o_token_id ord = tok \<and> o_side ord = sd} \<and>
    sorted_wrt (<) (map order_key_of (live_for s tok sd))"
  unfolding s_def using rows_exact [OF reachable_index_inv]
  by (auto simp: live_for_eq [OF reachable_index_inv] intro: sorted_filter_rows)

section \<open>Sizes, keys, statuses\<close>

text \<open>C3: whatever fills arrive, duplicated, out of order, for more than was ordered or taken back,
  the filled size of every order stays between zero and its size (when it has one).\<close>

theorem ome_no_overfill:
  fixes D :: dec_ops and ops :: "ome_op list"
  defines "s \<equiv> run (ome_step D) ome_new (filter op_sizes_ok ops)"
  shows "order_rows s \<subseteq> {ord. 0 \<le> o_filled_size ord \<and> (o_size ord \<le> 0 \<or> o_filled_size ord \<le> o_size ord)}"
  unfolding s_def run_filter using size_machine.run_inv [OF size_inv_new, of D ops]
  by (force simp: size_inv_def size_ok_def order_rows_def not_le)

text \<open>In any trading history (boot restores apart) two live orders never carry the same internal
  key, so the duplicate guard of \<open>submit\<close> is never bypassed.\<close>

theorem ome_one_live_order_per_key:
  fixes D :: dec_ops and ops :: "ome_op list"
  defines "s \<equiv> run (ome_step D) ome_new (filter op_trading ops)"
  shows "inj_on o_internal_key {ord \<in> order_rows s. is_live (o_status ord)}"
proof (rule inj_onI)
  fix a b
  assume "a \<in> {ord \<in> order_rows s. is_live (o_status ord)}" "b \<in> {ord \<in> order_rows s. is_live (o_status ord)}"
    and eq: "o_internal_key a = o_internal_key b"
  then obtain i j where "map_of (orders s) i = Some a" "map_of (orders s) j = Some b"
    and "live a" "live b"
    by (auto simp: order_rows_def)
  moreover have "key_inv s"
    unfolding s_def run_filter by (rule key_machine.run_inv) (rule key_inv_new)
  ultimately show "a = b" using eq unfolding key_inv_def by (metis option.inject)
qed

text \<open>C6: within a session no order ever leaves a terminal status: whatever operations follow, every
  order that was terminal is still there and still terminal.\<close>

theorem ome_terminal_absorbs:
  "terminal_ids s \<subseteq> terminal_ids (run (ome_step D) s (filter op_session ops))"
  unfolding run_filter using terminal_machine.run_mono by simp

section \<open>Submitting\<close>

text \<open>\<open>submit\<close> is refused, with the state untouched and an InvalidParams error, exactly when the
  internal key has a live order or the order id is taken; otherwise the order is registered as
  pending and unfilled, every other row is as before, and the key now resolves to it and is held.\<close>

theorem ome_submit_behaviour:
  fixes p :: submit_params and s :: ome
  defines "key \<equiv> rq_internal_key (sp_request p)" and "i \<equiv> sp_order_id p"
  shows "if has_pending s key \<or> i \<in> dom (map_of (orders s))
    then fst (submit p s) = s \<and> (\<exists>e. snd (submit p s) = Inl e \<and> ce_code e = InvalidParams)
    else snd (submit p s) = Inr () \<and>
      map_of (orders (fst (submit p s))) = (map_of (orders s))(i \<mapsto> fresh_order p) \<and>
      by_key (fst (submit p s)) key = Some (fresh_order p) \<and>
      has_pending (fst (submit p s)) key \<and> live_id_for (fst (submit p s)) key = Some i"
  unfolding key_def i_def
  by (auto simp: submit_def Let_def by_key_def has_pending_def live_id_for_def fresh_order_def)

section \<open>Fills\<close>

text \<open>A fill that reaches an order already terminal still moves the size it announces, but never
  silently: the outcome carries a late-fill report naming the status that absorbed it and exactly
  the size moved, and the order's status is untouched.\<close>

theorem ome_terminal_fill_reported:
  assumes "index_inv s" and "apply_fill_report D f now s = (s', Inr out)"
    and "oc_delta out = Some d" and "map_of (orders s) (fd_order_id d) = Some ord"
    and "is_terminal (o_status ord)"
  shows "\<exists>l ord'. oc_late_fill out = Some l \<and> lf_absorbed_by l = Some (o_status ord) \<and>
    lf_size l = fd_delta d \<and> map_of (orders s') (fd_order_id d) = Some ord' \<and>
    o_status ord' = o_status ord"
proof -
  obtain g i k moved p m s1 d0 l where rd: "record_delta D i moved p now m g = (s1, Inr (Some d0, l))"
    and os: "orders g = orders s" "orders s' = orders s1" and out: "out = stamped k (Some d0, l)"
    using report_with_delta [OF assms(1-3)] by blast
  have d: "d = d0\<lparr>fd_trade_id := k\<rparr>" using assms(3) out by (simp add: stamped_def)
  obtain x where x: "map_of (orders g) i = Some x"
    using rd by (auto simp: record_delta_def split: option.splits)
  with rd have "fd_order_id d0 = i" by (auto simp: record_delta_def Let_def delta_of_def split: if_splits)
  with record_delta_terminal_late [of g i ord D moved p now m s1 d0 l] rd os out d assms(4,5)
  show ?thesis by (auto simp: stamped_def)
qed

theorem ome_terminal_fill_reported_witness:
  "\<exists>s' out d l. apply_fill_report exact_dec (sample_fill 4) 130
      (fst (mark_terminal ''o1'' StCancelled 110 (sample_ome 0))) = (s', Inr out) \<and>
    oc_delta out = Some d \<and> fd_delta d = 4 \<and> oc_late_fill out = Some l \<and> lf_size l = 4"
proof -
  let ?s = "fst (mark_terminal ''o1'' StCancelled 110 (sample_ome 0))"
  have inv: "index_inv ?s" by (simp add: mutators_index_inv)
  obtain s' out where rep: "apply_fill_report exact_dec (sample_fill 4) 130 ?s = (s', Inr out)"
    using fill_report_accounts [OF inv] by blast
  have ord: "map_of (orders ?s) ''o1'' = Some ((sample_row 0)\<lparr>o_status := StCancelled, o_updated_at_ms := 110\<rparr>)"
    by (simp add: mark_terminal_def mutate_def)
  have "\<exists>d. oc_delta out = Some d \<and> fd_delta d = 4 \<and> fd_order_id d = ''o1''"
    using rep resolve_by_id [OF inv, of "sample_fill 4"] ord
    by (auto simp: apply_fill_report_def apply_reported_def record_delta_def capped_size_def delta_of_def
        stamped_def duplicate_untracked_def Let_def mark_terminal_def mutate_def split: prod.splits)
  with ome_terminal_fill_reported [OF inv rep] ord show ?thesis using rep by fastforce
qed

text \<open>C2: over any sequence of fill reports, from any reachable state, the filled size of every order
  changes by exactly the sum of the deltas the outcomes announce for it: what the caller books and
  what the engine holds never drift apart.\<close>

theorem ome_fill_accounting:
  fixes D :: dec_ops and ops :: "ome_op list"
  defines "s \<equiv> run (ome_step D) ome_new ops"
  shows "filled_of (fst (report_all D fs s)) j =
    filled_of s j + (\<Sum>out\<leftarrow>snd (report_all D fs s). delta_size j (oc_delta out))"
  unfolding s_def by (rule report_all_accounts) (rule reachable_index_inv)

text \<open>In every reachable state a fill report and a drain of the buffered fills succeed: the error
  results in their signatures are never returned, so a drain never loses the fills behind the first.\<close>

theorem ome_fills_never_err:
  fixes D :: dec_ops and ops :: "ome_op list"
  defines "s \<equiv> run (ome_step D) ome_new ops"
  shows "(\<exists>out. snd (apply_fill_report D f now s) = Inr out) \<and>
    (\<exists>outs. snd (drain_pending D now s) = Inr outs)"
  unfolding s_def drain_pending_def
  using fill_report_Inr [OF reachable_index_inv] drain_loop_Inr reachable_index_inv by simp

text \<open>C4: a redelivered trade moves nothing: while the fill ledger holds fewer trades than its cap, after any
  report that is not FAILED of a trade that carries a venue id, repeating it (at any time) leaves every order as it is and announces neither a delta nor a late
  fill.\<close>

theorem ome_redelivery_idempotent:
  assumes "index_inv s" and "venue_key f = Some k" and "f_status f \<noteq> FsFailed"
    and "length (applied s) < APPLIED_CAP"
  shows "\<exists>out. snd (apply_fill_report D f now' (fst (apply_fill_report D f now s))) = Inr out \<and>
    orders (fst (apply_fill_report D f now' (fst (apply_fill_report D f now s)))) =
      orders (fst (apply_fill_report D f now s)) \<and>
    oc_delta out = None \<and> oc_late_fill out = None"
proof -
  obtain s1 r where "apply_fill_report D f now s = (s1, r)"
    by (cases "apply_fill_report D f now s") auto
  with redelivery_moves_nothing [OF assms this, of now'] show ?thesis by auto
qed

theorem ome_redelivery_idempotent_witness:
  "\<exists>out. snd (apply_fill_report exact_dec (sample_fill 4) 200
      (fst (apply_fill_report exact_dec (sample_fill 4) 130 (sample_ome 0)))) = Inr out \<and>
    oc_delta out = None"
  using ome_redelivery_idempotent [of "sample_ome 0" "sample_fill 4" "''t1''" exact_dec 200 130] by auto

text \<open>A trade the venue fails is taken back exactly: on an order with room for it, the fill
  followed by its FAILED notice restores the filled size.\<close>

theorem ome_failed_fill_rolled_back:
  assumes "index_inv s" and "map_of (orders s) (f_order_id f) = Some ord" and "size_ok ord"
    and "venue_key f = Some k" and "f_status f \<noteq> FsFailed" and "map_of (applied s) k = None"
    and "0 < f_size f" and "length (applied s) < APPLIED_CAP"
    and fits: "o_size ord \<le> 0 \<or> o_filled_size ord + f_size f \<le> o_size ord"
  shows "filled_of (fst (apply_fill_report D (f\<lparr>f_status := FsFailed\<rparr>) now'
      (fst (apply_fill_report D f now s)))) (f_order_id f) = filled_of s (f_order_id f)"
  using fill_then_failed [OF assms(1-8) refl refl, of D now' now] fits assms(2,3)
  by (auto simp: capped_size_def filled_of_def size_ok_def)

theorem ome_failed_fill_rolled_back_witness:
  "filled_of (fst (apply_fill_report exact_dec ((sample_fill 4)\<lparr>f_status := FsFailed\<rparr>) 200
      (fst (apply_fill_report exact_dec (sample_fill 4) 130 (sample_ome 3))))) ''o1'' = 3"
  using ome_failed_fill_rolled_back [of "sample_ome 3" "sample_fill 4" "sample_row 3" "''t1''" exact_dec 200 130]
  by (simp add: size_ok_def filled_of_def)

text \<open>On an order the trade overfills, the rollback overshoots. The engine books only the room
  that was left, but remembers the reported size, so the FAILED notice of the trade takes back more
  than the trade moved and leaves the order with less than it had before the trade.\<close>

theorem ome_overfill_rollback_overshoots:
  assumes "index_inv s" and "map_of (orders s) (f_order_id f) = Some ord" and "size_ok ord"
    and "venue_key f = Some k" and "f_status f \<noteq> FsFailed" and "map_of (applied s) k = None"
    and "0 < f_size f" and "length (applied s) < APPLIED_CAP"
    and "0 < o_filled_size ord" and "o_size ord < o_filled_size ord + f_size f"
    and "0 < o_size ord"
  shows "filled_of (fst (apply_fill_report D (f\<lparr>f_status := FsFailed\<rparr>) now'
      (fst (apply_fill_report D f now s)))) (f_order_id f) < filled_of s (f_order_id f)"
  using fill_then_failed [OF assms(1-8) refl refl, of D now' now] assms(2,3,9-11)
  by (auto simp: capped_size_def filled_of_def size_ok_def)

theorem ome_overfill_rollback_overshoots_witness:
  "filled_of (fst (apply_fill_report exact_dec ((sample_fill 5)\<lparr>f_status := FsFailed\<rparr>) 200
      (fst (apply_fill_report exact_dec (sample_fill 5) 130 (sample_ome 8))))) ''o1'' < 8"
  using ome_overfill_rollback_overshoots
    [of "sample_ome 8" "sample_fill 5" "sample_row 8" "''t1''" exact_dec 200 130]
  by (simp add: size_ok_def filled_of_def)

section \<open>The fill ledger\<close>

lemma booked_empty: "applied s = [] \<Longrightarrow> booked s = (\<lambda>_. None)"
  by (rule ext) (simp add: booked_def)

lemma applied_new [simp]: "applied ome_new = []"
  by (simp add: ome_new_def)

text \<open>Compacting the log to the snapshot loses nothing: in any reachable state, restoring the
  snapshot into a fresh engine rebuilds the fill ledger.\<close>

theorem ome_snapshot_roundtrip:
  fixes D :: dec_ops and ops :: "ome_op list"
  defines "s \<equiv> run (ome_step D) ome_new ops"
  shows "booked (restore_applied (applied_snapshot s) ome_new) = booked s"
  unfolding s_def
proof (rule snapshot_restores)
  show "distinct (map fst (applied (run (ome_step D) ome_new ops)))"
    using reachable_ledger_inv [of D ops] by (simp add: ledger_inv_def)
qed (simp add: booked_empty)

text \<open>The buffer of fills no order is known for never holds more than 500, whatever the engine is
  asked to do.\<close>

theorem ome_pending_bounded:
  "length (pending_fills (run (ome_step D) ome_new ops)) \<le> 500"
  using buffer_machine.run_inv [of ome_new D ops] by (simp add: buffer_inv_def ome_new_def)

lemma remember_as_evict:
  assumes inv: "ledger_inv s"
  shows "remember k i q p s = s \<or>
    (\<exists>u. remember k i q p s = evict_applied u \<and> orders u = orders s \<and> ledger_inv u \<and>
      (\<forall>k' a. map_of (applied s) k' = Some a \<longrightarrow>
        (\<exists>b. map_of (applied u) k' = Some b \<and> af_seq b = af_seq a \<and> af_order_id b = af_order_id a)))"
proof (cases "map_of (applied s) k")
  case None
  let ?e = "\<lparr>af_applied = q, af_price = p, af_order_id = i, af_seq = Suc (applied_seq s)\<rparr>"
  let ?u = "journal (record_of k ?e False)
    (s\<lparr>applied_seq := Suc (applied_seq s), applied := AList.update k ?e (applied s)\<rparr>)"
  have "remember k i q p s = evict_applied ?u" using None by (simp add: remember_def Let_def)
  moreover have "ledger_inv ?u" using ledger_inv_fresh_seq [OF inv, of ?e k] by simp
  ultimately show ?thesis using None by (intro disjI2 exI [of _ ?u]) auto
next
  case (Some e)
  let ?e = "e\<lparr>af_applied := q, af_price := p\<rparr>"
  let ?u = "journal (record_of k ?e False) (s\<lparr>applied := AList.update k ?e (applied s)\<rparr>)"
  have "ledger_inv ?u" using ledger_inv_revise [OF inv Some, of ?e] by simp
  then show ?thesis
    using Some
    by (cases "af_applied e = q \<and> af_price e = p")
      (auto simp: remember_def Let_def intro!: exI [of _ ?u])
qed

lemma ledger_lookup: "ledger_inv s \<Longrightarrow> map_of (applied s) k = Some a \<longleftrightarrow> (k, a) \<in> set (applied s)"
  by (simp add: ledger_inv_def)

text \<open>What an operation taking \<open>s\<close> to \<open>s'\<close> forgot, and what it kept but could have forgotten.\<close>

definition forgotten :: "ome \<Rightarrow> ome \<Rightarrow> applied_fill set" where
  "forgotten s s' = {a. \<exists>k. map_of (applied s) k = Some a \<and> map_of (applied s') k = None}"

definition evictable :: "ome \<Rightarrow> ome \<Rightarrow> applied_fill set" where
  "evictable s s' = {b. \<exists>k. map_of (applied s') k = Some b \<and> \<not> entry_live s b}"

lemma remember_forgets:
  assumes inv: "ledger_inv s"
    and "map_of (applied s) k' = Some a" and "map_of (applied (remember k i q p s)) k' = None"
  shows "\<not> entry_live s a \<and>
    (\<forall>k2 b. map_of (applied (remember k i q p s)) k2 = Some b \<longrightarrow> \<not> entry_live s b \<longrightarrow> af_seq a \<le> af_seq b)"
proof -
  have "remember k i q p s \<noteq> s" using assms by auto
  then obtain u c where u: "remember k i q p s = evict_applied u" "orders u = orders s" "ledger_inv u"
    and c: "map_of (applied u) k' = Some c" "af_seq c = af_seq a" "af_order_id c = af_order_id a"
    using remember_as_evict [OF inv, of k i q p] assms(2) by blast
  have live: "entry_live u x = entry_live s x" for x by (rule entry_live_cong [OF u(2)])
  have gone: "(k', c) \<notin> set (applied (evict_applied u))"
    using assms(3) u by (force simp: map_of_eq_None_iff)
  have "\<not> entry_live u c \<and>
    (\<forall>e' \<in> set (applied (evict_applied u)). \<not> entry_live u (snd e') \<longrightarrow> af_seq c \<le> af_seq (snd e'))"
    using evict_applied_removed [OF u(3) _ gone] c(1) u(3) by (simp add: ledger_lookup)
  moreover have "entry_live s c = entry_live s a" using c by (simp add: entry_live_def)
  ultimately show ?thesis using c u(1) live by (fastforce dest!: map_of_SomeD)
qed

text \<open>Booking a trade, in any reachable state, never makes the engine forget a trade of a live
  order (which a redelivery could then count twice), and what it does forget is no younger than any
  entry it keeps that it could have forgotten instead.\<close>

theorem ome_eviction_safe:
  fixes D :: dec_ops and ops :: "ome_op list" and k i :: string and q p :: decimal
  defines "s \<equiv> run (ome_step D) ome_new ops"
  defines "s' \<equiv> remember k i q p s"
  shows "forgotten s s' \<subseteq> {a. \<not> entry_live s a} \<and>
    af_seq ` forgotten s s' \<times> af_seq ` evictable s s' \<subseteq> {(x, y). x \<le> y}"
proof -
  have inv: "ledger_inv s" unfolding s_def by (rule reachable_ledger_inv)
  show ?thesis
    unfolding forgotten_def evictable_def s'_def
    using remember_forgets [OF inv, of _ _ k i q p] by blast
qed

section \<open>Roles\<close>

lemma fold_roles:
  "foldl (\<lambda>r maker. after_fill r (fill_role ord (Some maker))) r0 ms =
    foldl after_fill r0 (map (\<lambda>m. if m then RoleMaker else RoleTaker) ms)"
  by (induction ms arbitrary: r0) (auto simp: fill_role_def)

text \<open>The role of an order is what its fills were, whatever their sequence: pending before the
  first, maker (taker) when every fill was, and maker-then-taker as soon as both kinds occurred.\<close>

theorem ome_role_resolution:
  "foldl (\<lambda>r maker. after_fill r (fill_role ord (Some maker))) RolePending ms =
    (if ms = [] then RolePending
     else if set ms = {True} then RoleMaker
     else if set ms = {False} then RoleTaker
     else RoleMakerThenTaker)"
proof -
  have "foldl after_fill RolePending (map (\<lambda>m. if m then RoleMaker else RoleTaker) ms) =
      resolved_role (map (\<lambda>m. if m then RoleMaker else RoleTaker) ms)"
    by (rule foldl_after_fill) auto
  moreover have "ms = [] \<or> set ms = {True} \<or> set ms = {False} \<or> set ms = {True, False}"
    by (cases "True \<in> set ms"; cases "False \<in> set ms"; cases ms; auto; metis (full_types))
  ultimately show ?thesis
    by (auto simp: fold_roles resolved_role_def)
qed

end
