(* ===== verification/StdLib.thy ===== *)
theory StdLib
  imports Prelude "HOL-Library.Log_Nat"
begin

text \<open>
  Three pieces of the language's standard library the components share.

  \<^item> \<open>f64\<close>: a finite double is kept as the rational it denotes, and every arithmetic result and
    decimal literal is rounded by \<open>f64_round\<close>, round-to-nearest-even to 53 significant bits. The
    exponent is unbounded: subnormals, infinities and NaN are not modelled, and the code modelled
    with it divides by positive counts and keeps its values far inside the normal range.
  \<^item> \<open>BTreeMap\<close>: an association list sorted by key, so that \<open>keys\<close> and \<open>values\<close> come in key order.
  \<^item> The ASCII operations on the bytes of a string.
\<close>

section \<open>Rounding to 53 bits\<close>

definition round_even :: "rat \<Rightarrow> int" where
  "round_even r = (let f = \<lfloor>r\<rfloor>; d = r - of_int f in
     if d < 1/2 then f else if d > 1/2 then f + 1 else if even f then f else f + 1)"

text \<open>The binary exponent: the \<open>k\<close> with \<open>2^k \<le> x < 2^(k+1)\<close>, from the lengths of the two parts of
  the fraction.\<close>

definition f64_exponent :: "rat \<Rightarrow> int" where
  "f64_exponent x = (let (n, d) = quotient_of x; k = bitlen n - bitlen d in
     if 2 powi k \<le> x then k else k - 1)"

definition f64_pos :: "rat \<Rightarrow> rat" where
  "f64_pos x = (let u = 2 powi (f64_exponent x - 52) in of_int (round_even (x / u)) * u)"

definition f64_round :: "rat \<Rightarrow> rat" where
  "f64_round x = (if x = 0 then 0 else if 0 < x then f64_pos x else - f64_pos (- x))"

lemma round_even_int [simp]: "round_even (of_int n) = n"
  by (simp add: round_even_def)

lemma round_even_mono:
  assumes "a \<le> b"
  shows "round_even a \<le> round_even b"
proof (cases "\<lfloor>a\<rfloor> = \<lfloor>b\<rfloor>")
  case True
  with assms show ?thesis by (auto simp: round_even_def Let_def)
next
  case False
  with assms have "\<lfloor>a\<rfloor> < \<lfloor>b\<rfloor>" by (simp add: floor_mono order_less_le)
  then show ?thesis by (auto simp: round_even_def Let_def)
qed

lemma bitlen_pos_bounds:
  fixes n :: int
  assumes "0 < n"
  shows "2 powi (bitlen n - 1) \<le> (of_int n :: rat) \<and> (of_int n :: rat) < 2 powi bitlen n"
proof -
  from bitlen_bounds [OF assms]
  have b: "2 ^ nat (bitlen n - 1) \<le> n" "n < 2 ^ nat (bitlen n)" by auto
  have p: "1 \<le> bitlen n" using assms bitlen_ge_iff_power [of 1 n] by simp
  have e: "(2::rat) powi k = of_int (2 ^ nat k)" if "0 \<le> k" for k
    using that by (simp add: power_int_def)
  have "(2::rat) powi (bitlen n - 1) \<le> of_int n" using b(1) p by (simp only: e of_int_le_iff)
  moreover have "(of_int n :: rat) < 2 powi bitlen n" using b(2) p by (simp only: e of_int_less_iff)
  ultimately show ?thesis by simp
qed

lemma f64_exponent_bounds:
  assumes "0 < x"
  shows "2 powi f64_exponent x \<le> x \<and> x < 2 powi (f64_exponent x + 1)"
proof -
  obtain n d where q: "quotient_of x = (n, d)" by (cases "quotient_of x")
  have d: "0 < d" using q by (rule quotient_of_denom_pos)
  have x: "x = of_int n / of_int d" using q by (rule quotient_of_div)
  have n: "0 < n" using assms x d by (simp add: zero_less_divide_iff)
  let ?k = "bitlen n - bitlen d"
  note nb = bitlen_pos_bounds [OF n] and db = bitlen_pos_bounds [OF d]
  have dp: "0 < (of_int d :: rat)" using d by simp
  have "x * of_int d < 2 powi bitlen n" using nb x dp by simp
  also have "\<dots> = 2 powi (?k + 1) * 2 powi (bitlen d - 1)" by (simp flip: power_int_add)
  also have "\<dots> \<le> 2 powi (?k + 1) * of_int d" using db by (intro mult_left_mono) auto
  finally have up: "x < 2 powi (?k + 1)" using dp by simp
  have "2 powi (?k - 1) * of_int d \<le> (2 powi (?k - 1) * 2 powi bitlen d :: rat)"
    using db by (intro mult_left_mono) auto
  also have "\<dots> = 2 powi (bitlen n - 1)" by (simp flip: power_int_add)
  also have "\<dots> \<le> x * of_int d" using nb x dp by simp
  finally have lo: "2 powi (?k - 1) \<le> x" using dp by simp
  show ?thesis using up lo by (simp add: f64_exponent_def q Let_def)
qed

lemma f64_exponent_mono:
  assumes "0 < x" "x \<le> y"
  shows "f64_exponent x \<le> f64_exponent y"
proof (rule ccontr)
  assume "\<not> ?thesis"
  then have "(2::rat) powi (f64_exponent y + 1) \<le> 2 powi f64_exponent x"
    by (intro power_int_increasing) auto
  with f64_exponent_bounds [of x] f64_exponent_bounds [of y] assms show False by auto
qed

lemma f64_pos_bounds:
  assumes "0 < x"
  shows "2 powi f64_exponent x \<le> f64_pos x \<and> f64_pos x \<le> 2 powi (f64_exponent x + 1)"
proof -
  let ?e = "f64_exponent x" and ?u = "2 powi (f64_exponent x - 52) :: rat"
  have u: "0 < ?u" by simp
  note b = f64_exponent_bounds [OF assms]
  have "(2::rat) powi ?e = of_int (2 ^ 52) * ?u" by (simp flip: power_int_add power_int_numeral)
      (simp add: power_int_diff)
  then have "of_int (2 ^ 52) \<le> x / ?u" using b u by (simp add: pos_le_divide_eq)
  from round_even_mono [OF this] have lo: "2 ^ 52 \<le> round_even (x / ?u)" by (simp only: round_even_int)
  have e1: "(2::rat) powi (?e + 1) = of_int (2 ^ 53) * ?u" by (simp add: power_int_diff power_int_add)
  then have "x / ?u \<le> of_int (2 ^ 53)" using b u by (simp add: pos_divide_le_eq)
  from round_even_mono [OF this] have hi: "round_even (x / ?u) \<le> 2 ^ 53" by (simp only: round_even_int)
  have "of_int (2 ^ 52) * ?u \<le> of_int (round_even (x / ?u)) * ?u"
    using lo u by (intro mult_right_mono) (simp_all only: of_int_le_iff less_imp_le)
  moreover have "of_int (round_even (x / ?u)) * ?u \<le> of_int (2 ^ 53) * ?u"
    using hi u by (intro mult_right_mono) (simp_all only: of_int_le_iff less_imp_le)
  ultimately show ?thesis
    using e1 by (simp add: f64_pos_def Let_def power_int_diff)
qed

lemma f64_pos_mono:
  assumes "0 < x" "x \<le> y"
  shows "f64_pos x \<le> f64_pos y"
proof (cases "f64_exponent x = f64_exponent y")
  case True
  have "x / 2 powi (f64_exponent x - 52) \<le> y / 2 powi (f64_exponent x - 52)"
    using assms(2) by (intro divide_right_mono) auto
  then show ?thesis
    using round_even_mono by (auto simp: f64_pos_def Let_def True intro!: mult_right_mono)
next
  case False
  then have "f64_exponent x + 1 \<le> f64_exponent y" using f64_exponent_mono [OF assms] by simp
  then have "(2::rat) powi (f64_exponent x + 1) \<le> 2 powi f64_exponent y"
    by (intro power_int_increasing) auto
  then show ?thesis using f64_pos_bounds [of x] f64_pos_bounds [of y] assms by auto
qed

lemma f64_pos_positive: "0 < x \<Longrightarrow> 0 < f64_pos x"
  using f64_pos_bounds [of x] by (meson less_le_trans zero_less_power_int zero_less_numeral)

lemma f64_round_mono: "x \<le> y \<Longrightarrow> f64_round x \<le> f64_round y"
  using f64_pos_mono [of x y] f64_pos_mono [of "- y" "- x"] f64_pos_positive [of y]
    f64_pos_positive [of "- x"]
  by (auto simp: f64_round_def)

lemma f64_exponent_unique:
  assumes "2 powi e \<le> x" "x < 2 powi (e + 1)"
  shows "f64_exponent x = e"
proof -
  have pos: "0 < x" using assms(1) by (meson less_le_trans zero_less_power_int zero_less_numeral)
  note b = f64_exponent_bounds [OF pos]
  have "(2::rat) powi e < 2 powi (f64_exponent x + 1)" "(2::rat) powi f64_exponent x < 2 powi (e + 1)"
    using assms b by auto
  moreover have less: "(2::rat) powi i < 2 powi j \<Longrightarrow> i < j" for i j :: int
    by (metis linorder_not_less one_le_numeral power_int_increasing)
  ultimately have "e < f64_exponent x + 1" "f64_exponent x < e + 1" by (blast intro: less)+
  then show ?thesis by simp
qed

lemma f64_pos_grid:
  assumes "2 ^ 52 \<le> n" "n < 2 ^ 53"
  shows "f64_pos (of_int n * 2 powi (e - 52)) = of_int n * 2 powi (e - 52)"
proof -
  let ?u = "2 powi (e - 52) :: rat"
  have u: "0 < ?u" by simp
  have split: "(2::rat) powi e = of_int (2 ^ 52) * ?u" "(2::rat) powi (e + 1) = of_int (2 ^ 53) * ?u"
    by (simp_all add: power_int_diff power_int_add)
  have "2 powi e \<le> of_int n * ?u" unfolding split
    using assms(1) u by (intro mult_right_mono) (simp_all only: of_int_le_iff less_imp_le)
  moreover have "of_int n * ?u < 2 powi (e + 1)" unfolding split
    using assms(2) u by (intro mult_strict_right_mono) (simp_all only: of_int_less_iff)
  ultimately have "f64_exponent (of_int n * ?u) = e" by (rule f64_exponent_unique)
  then show ?thesis using u by (simp add: f64_pos_def Let_def round_even_int)
qed

lemma f64_pos_idem:
  assumes "0 < x"
  shows "f64_pos (f64_pos x) = f64_pos x"
proof -
  let ?e = "f64_exponent x" and ?u = "2 powi (f64_exponent x - 52) :: rat"
  let ?n = "round_even (x / ?u)"
  have v: "f64_pos x = of_int ?n * ?u" by (simp add: f64_pos_def Let_def)
  have split: "(2::rat) powi ?e = of_int (2 ^ 52) * ?u" "(2::rat) powi (?e + 1) = of_int (2 ^ 53) * ?u"
    by (simp_all add: power_int_diff power_int_add)
  have "of_int (2 ^ 52) * ?u \<le> of_int ?n * ?u" "of_int ?n * ?u \<le> of_int (2 ^ 53) * ?u"
    using f64_pos_bounds [OF assms] unfolding v split by auto
  then have n: "2 ^ 52 \<le> ?n" "?n \<le> 2 ^ 53"
    by (simp_all only: mult_le_cancel_right zero_less_power_int zero_less_numeral of_int_le_iff)
  show ?thesis
  proof (cases "?n = 2 ^ 53")
    case True
    have "f64_pos x = of_int (2 ^ 52) * 2 powi ((?e + 1) - 52)"
      unfolding v True by (simp add: power_int_diff power_int_add)
    then show ?thesis using f64_pos_grid [of "2 ^ 52" "?e + 1"] by simp
  next
    case False
    then show ?thesis unfolding v using n f64_pos_grid [of ?n ?e] by simp
  qed
qed

lemma f64_round_idem [simp]: "f64_round (f64_round x) = f64_round x"
  using f64_pos_idem [of x] f64_pos_idem [of "- x"] f64_pos_positive [of x] f64_pos_positive [of "- x"]
  by (auto simp: f64_round_def)

lemma f64_round_0 [simp]: "f64_round 0 = 0"
  by (simp add: f64_round_def)

lemma f64_round_1 [simp]: "f64_round 1 = 1"
  by code_simp

lemma f64_round_unit: "0 \<le> x \<Longrightarrow> x \<le> 1 \<Longrightarrow> 0 \<le> f64_round x \<and> f64_round x \<le> 1"
  using f64_round_mono [of 0 x] f64_round_mono [of x 1] by simp

text \<open>A decimal written to a file and read back (\<open>core/bk_contract/src/decimal.rs\<close>): the writer parses
  its text as a double and writes that as a JSON number, the reader parses the number's text.\<close>

definition wire_decimal :: "dec_ops \<Rightarrow> decimal \<Rightarrow> decimal option" where
  "wire_decimal D d = dnum D (f64_round d)"

lemma wire_collapses: "f64_round a = f64_round b \<Longrightarrow> wire_decimal D a = wire_decimal D b"
  by (simp add: wire_decimal_def)

section \<open>Ordered maps\<close>

fun bt_insert :: "'k::linorder \<Rightarrow> 'v \<Rightarrow> ('k \<times> 'v) list \<Rightarrow> ('k \<times> 'v) list" where
  "bt_insert k v [] = [(k, v)]"
| "bt_insert k v (e # m) = (if k < fst e then (k, v) # e # m
     else if k = fst e then (k, v) # m else e # bt_insert k v m)"

definition bt_sorted :: "('k::linorder \<times> 'v) list \<Rightarrow> bool" where
  "bt_sorted m \<longleftrightarrow> sorted_wrt (<) (map fst m)"

lemma bt_sorted_Nil [simp]: "bt_sorted []"
  by (simp add: bt_sorted_def)

lemma set_bt_insert_keys: "fst ` set (bt_insert k v m) = insert k (fst ` set m)"
  by (induction m) auto

lemma bt_sorted_insert [simp]: "bt_sorted m \<Longrightarrow> bt_sorted (bt_insert k v m)"
proof (induction m)
  case (Cons e m)
  have "\<forall>x \<in> fst ` set (bt_insert k v m). x = k \<or> x \<in> fst ` set m"
    by (simp add: set_bt_insert_keys)
  with Cons show ?case by (fastforce simp: bt_sorted_def)
qed (simp add: bt_sorted_def)

lemma bt_sorted_distinct: "bt_sorted m \<Longrightarrow> distinct (map fst m)"
  by (simp add: bt_sorted_def strict_sorted_iff)

lemma bt_sorted_delete [simp]: "bt_sorted m \<Longrightarrow> bt_sorted (AList.delete k m)"
  by (induction m) (auto simp: bt_sorted_def set_delete_eq)

lemma map_of_bt_insert [simp]: "bt_sorted m \<Longrightarrow> map_of (bt_insert k v m) = (map_of m)(k \<mapsto> v)"
proof (induction m)
  case (Cons e m)
  then show ?case by (cases e) (auto simp: bt_sorted_def fun_eq_iff)
qed simp

lemma set_bt_insert: "bt_sorted m \<Longrightarrow> set (bt_insert k v m) = insert (k, v) {e \<in> set m. fst e \<noteq> k}"
proof (induction m)
  case (Cons e m)
  then show ?case by (cases e) (auto simp: bt_sorted_def)
qed simp

text \<open>An ordered map is determined by its lookups.\<close>

lemma bt_sorted_eqI:
  assumes "bt_sorted m" and "bt_sorted n" and "map_of m = map_of n"
  shows "m = n"
proof -
  have dm: "distinct (map fst m)" and dn: "distinct (map fst n)"
    using assms by (simp_all add: bt_sorted_distinct)
  have "set m = set n"
    using assms(3) map_of_eq_Some_iff [OF dm] map_of_eq_Some_iff [OF dn] by (metis set_eqI surj_pair)
  moreover have "inj_on fst (set m \<union> set n)" using dm calculation by (simp add: distinct_map)
  ultimately show ?thesis
    using assms(1,2) by (intro map_sorted_distinct_set_unique [of fst])
      (auto simp: bt_sorted_def strict_sorted_iff)
qed

text \<open>Reading an ordered map back entry by entry rebuilds it.\<close>

lemma bt_insert_last:
  "\<forall>x \<in> fst ` set m. x < k \<Longrightarrow> bt_insert k v m = m @ [(k, v)]"
  by (induction m) (auto dest: less_not_sym)

lemma bt_rebuild: "bt_sorted (m @ n) \<Longrightarrow> foldl (\<lambda>a (k, v). bt_insert k v a) m n = m @ n"
proof (induction n arbitrary: m)
  case (Cons e n)
  then show ?case
    by (cases e) (auto simp: bt_sorted_def sorted_wrt_append bt_insert_last)
qed simp

section \<open>ASCII\<close>

definition alnum_byte :: "char \<Rightarrow> bool" where
  "alnum_byte c \<longleftrightarrow> (let n = of_char c :: nat in
     48 \<le> n \<and> n \<le> 57 \<or> 65 \<le> n \<and> n \<le> 90 \<or> 97 \<le> n \<and> n \<le> 122)"

definition ascii_lowercase :: "char \<Rightarrow> char" where
  "ascii_lowercase c = (let n = of_char c :: nat in if 65 \<le> n \<and> n \<le> 90 then char_of (n + 32) else c)"

definition eq_ignore_ascii_case :: "string \<Rightarrow> string \<Rightarrow> bool" where
  "eq_ignore_ascii_case s t \<longleftrightarrow> map ascii_lowercase s = map ascii_lowercase t"

end
