(* ===== verification/Ledger.thy ===== *)
theory Ledger
  imports Types StdLib
begin

text \<open>
  The cash ledger, \<open>core/blitzkrieg_core/src/ledger.rs\<close>, and the contract the order pipeline holds
  it to, \<open>ledger_api.rs\<close>. A ledger is a balance, the table of BUY reservations, a bounded window of
  journal rows and, when one is attached, the rows of the durable journal file. The clock and the
  outcome of a disk write are arguments (\<open>io\<close>): a failed append is swallowed, as in \<open>jsonl::append\<close>.
\<close>

section \<open>State\<close>

datatype journal_kind = KSeed | KBuyFill | KSellFill | KFee | KMerge | KRedemption
  | KExpiryFallback | KCashflow | KRealign | KReset

record journal_entry =
  je_at_ms :: int
  je_kind :: journal_kind
  je_amount :: decimal
  je_balance_after :: decimal
  je_ref :: string

definition JOURNAL_CAP :: nat where
  "JOURNAL_CAP = 10000"

text \<open>\<open>l_file\<close> stands for \<open>journal_path\<close> and what the file at that path holds: \<open>None\<close> is a
  memory-only ledger, \<open>Some rows\<close> an attached file with these rows (a missing file has none).\<close>

record ledger =
  l_balance :: decimal
  l_reservations :: "(order_id \<times> decimal) list"
  l_journal :: "journal_entry list"
  l_journal_total :: nat
  l_file :: "journal_entry list option"
  l_venue_reported :: bool

definition ledger_new :: ledger where
  "ledger_new = \<lparr>l_balance = 0, l_reservations = [], l_journal = [], l_journal_total = 0,
     l_file = None, l_venue_reported = False\<rparr>"

record io =
  io_now :: int
  io_ok :: bool

section \<open>The journal\<close>

definition set_journal_path :: "journal_entry list \<Rightarrow> ledger \<Rightarrow> ledger" where
  "set_journal_path rows l = l\<lparr>l_file := Some rows\<rparr>"

text \<open>\<open>pop_front\<close> at the cap, then \<open>push_back\<close>.\<close>

definition push_window :: "journal_entry \<Rightarrow> journal_entry list \<Rightarrow> journal_entry list" where
  "push_window e w = (if length w = JOURNAL_CAP then tl w else w) @ [e]"

definition replay_journal :: "journal_entry list \<Rightarrow> ledger \<Rightarrow> ledger" where
  "replay_journal rws l =
    (let w = fold push_window rws [];
         l1 = l\<lparr>l_journal := w, l_journal_total := length w\<rparr>
     in if w = [] then l1 else l1\<lparr>l_balance := je_balance_after (last w)\<rparr>)"

text \<open>The rows \<open>jsonl::load\<close> gets back from the file: amounts pass through \<open>wire_decimal\<close>, a row with an
  amount the reader refuses is skipped.\<close>

definition read_row :: "dec_ops \<Rightarrow> journal_entry \<Rightarrow> journal_entry option" where
  "read_row D e = (case (wire_decimal D (je_amount e), wire_decimal D (je_balance_after e)) of
     (Some a, Some b) \<Rightarrow> Some (e\<lparr>je_amount := a, je_balance_after := b\<rparr>)
   | _ \<Rightarrow> None)"

definition load_rows :: "dec_ops \<Rightarrow> journal_entry list \<Rightarrow> journal_entry list" where
  "load_rows D rws = List.map_filter (read_row D) rws"

definition journal_seq_basis :: "ledger \<Rightarrow> nat \<times> nat" where
  "journal_seq_basis l = (l_journal_total l, length (l_journal l))"

definition append_file :: "io \<Rightarrow> journal_entry \<Rightarrow> ledger \<Rightarrow> ledger" where
  "append_file x e l = (case l_file l of
     Some rws \<Rightarrow> l\<lparr>l_file := Some (if io_ok x then rws @ [e] else rws)\<rparr>
   | None \<Rightarrow> l)"

text \<open>\<open>apply\<close>: the one entry every balance change goes through; the recorded amount is the actual
  change after the clamp at zero.\<close>

definition apply_cash :: "io \<Rightarrow> journal_kind \<Rightarrow> decimal \<Rightarrow> string \<Rightarrow> ledger \<Rightarrow> ledger \<times> decimal" where
  "apply_cash x kind requested r l =
    (let new_balance = max (l_balance l + requested) 0;
         amount = new_balance - l_balance l;
         l1 = l\<lparr>l_balance := new_balance\<rparr>
     in if amount \<noteq> 0
        then (let e = \<lparr>je_at_ms = io_now x, je_kind = kind, je_amount = amount,
                       je_balance_after = new_balance, je_ref = r\<rparr>;
                  l2 = append_file x e l1
              in (l2\<lparr>l_journal := push_window e (l_journal l2),
                     l_journal_total := Suc (l_journal_total l2)\<rparr>, amount))
        else (l1, amount))"

definition journal_snapshot :: "ledger \<Rightarrow> journal_entry list" where
  "journal_snapshot l = l_journal l"

definition seed :: "io \<Rightarrow> decimal \<Rightarrow> ledger \<Rightarrow> ledger" where
  "seed x b l = fst (apply_cash x KSeed (max b 0 - l_balance l) ''boot'' l)"

definition fund :: "io \<Rightarrow> decimal \<Rightarrow> string \<Rightarrow> ledger \<Rightarrow> ledger" where
  "fund x amount r l = fst (apply_cash x KSeed (max amount 0) r l)"

section \<open>Reservations\<close>

definition reserved :: "ledger \<Rightarrow> decimal" where
  "reserved l = foldl (+) 0 (map snd (l_reservations l))"

definition available :: "ledger \<Rightarrow> decimal" where
  "available l = max (l_balance l - reserved l) 0"

definition reserve :: "order_id \<Rightarrow> decimal \<Rightarrow> ledger \<Rightarrow> ledger \<times> (core_error + unit)" where
  "reserve i notional l =
    (if notional < 0 then (l, Inl (core_error_new InvalidParams [Txt ''negative notional'']))
     else if map_of (l_reservations l) i \<noteq> None then (l, Inr ())
     else if notional > available l
     then (l, Inl (core_error_new InsufficientFunds
            [Txt ''reserve '', Dec notional, Txt '' exceeds available '', Dec (available l),
             Txt '' (balance '', Dec (l_balance l), Txt '', reserved '', Dec (reserved l), Txt '')'']))
     else (l\<lparr>l_reservations := AList.update i notional (l_reservations l)\<rparr>, Inr ()))"

text \<open>\<open>HashMap::remove(..).unwrap_or(ZERO)\<close>.\<close>

definition take_reservation :: "order_id \<Rightarrow> ledger \<Rightarrow> ledger \<times> decimal" where
  "take_reservation i l =
    (l\<lparr>l_reservations := AList.delete i (l_reservations l)\<rparr>, held (l_reservations l) i)"

definition release :: "order_id \<Rightarrow> ledger \<Rightarrow> ledger \<times> decimal" where
  "release i l = take_reservation i l"

definition set_balance :: "io \<Rightarrow> decimal \<Rightarrow> ledger \<Rightarrow> ledger" where
  "set_balance x b l = fst (apply_cash x KRealign (max b 0 - l_balance l) ''venue'' l)"

definition apply_venue_report :: "io \<Rightarrow> decimal \<Rightarrow> ledger \<Rightarrow> ledger" where
  "apply_venue_report x b l = set_balance x b (l\<lparr>l_venue_reported := True\<rparr>)"

definition sync_buy_reservation :: "order_id \<Rightarrow> decimal \<Rightarrow> ledger \<Rightarrow> ledger \<times> decimal" where
  "sync_buy_reservation i remaining_notional l =
    (let target = max remaining_notional 0;
         (l1, prev) = take_reservation i l
     in (if target > 0
         then l1\<lparr>l_reservations := AList.update i target (l_reservations l1)\<rparr> else l1, prev))"

definition settle_buy_fill ::
  "io \<Rightarrow> order_id \<Rightarrow> decimal \<Rightarrow> decimal \<Rightarrow> ledger \<Rightarrow> ledger \<times> decimal" where
  "settle_buy_fill x i cost_usd reserved_released l =
    (let h = held (l_reservations l) i;
         draw = min (max reserved_released 0) h;
         l1 = (if draw > 0
               then (let left = h - draw in
                     if left > 0
                     then l\<lparr>l_reservations := AList.update i left (l_reservations l)\<rparr>
                     else l\<lparr>l_reservations := AList.delete i (l_reservations l)\<rparr>)
               else l)
     in (fst (apply_cash x KBuyFill (- cost_usd) i l1), draw))"

definition is_balanced :: "ledger \<Rightarrow> bool" where
  "is_balanced l \<longleftrightarrow> available l + reserved l = l_balance l"

definition unfunded_reserved :: "ledger \<Rightarrow> decimal" where
  "unfunded_reserved l = max (reserved l - l_balance l) 0"

definition reservations_snapshot :: "ledger \<Rightarrow> (order_id \<times> decimal) list" where
  "reservations_snapshot l = sort_key fst (l_reservations l)"

section \<open>Cash events\<close>

definition settle_sell_fill :: "io \<Rightarrow> decimal \<Rightarrow> decimal \<Rightarrow> ledger \<Rightarrow> ledger" where
  "settle_sell_fill x proceeds fee_usd l =
    fst (apply_cash x KSellFill (proceeds - fee_usd) ''sell'' l)"

definition charge_fee :: "io \<Rightarrow> decimal \<Rightarrow> ledger \<Rightarrow> ledger" where
  "charge_fee x fee_usd l = fst (apply_cash x KFee (- fee_usd) ''entry fee'' l)"

text \<open>The four credits share a shape: nothing for a non-positive amount, else one journalled row.\<close>

definition credit_as :: "journal_kind \<Rightarrow> io \<Rightarrow> decimal \<Rightarrow> string \<Rightarrow> ledger \<Rightarrow> ledger" where
  "credit_as kind x amount r l = (if amount \<le> 0 then l else fst (apply_cash x kind amount r l))"

definition credit_redemption :: "io \<Rightarrow> decimal \<Rightarrow> string \<Rightarrow> ledger \<Rightarrow> ledger" where
  "credit_redemption = credit_as KRedemption"

definition credit_expiry_fallback :: "io \<Rightarrow> decimal \<Rightarrow> string \<Rightarrow> ledger \<Rightarrow> ledger" where
  "credit_expiry_fallback = credit_as KExpiryFallback"

definition credit_merge :: "io \<Rightarrow> decimal \<Rightarrow> string \<Rightarrow> ledger \<Rightarrow> ledger" where
  "credit_merge = credit_as KMerge"

definition credit_cashflow :: "io \<Rightarrow> decimal \<Rightarrow> string \<Rightarrow> ledger \<Rightarrow> ledger" where
  "credit_cashflow = credit_as KCashflow"

definition reset_to_seed :: "io \<Rightarrow> decimal \<Rightarrow> ledger \<Rightarrow> ledger" where
  "reset_to_seed x sd l =
    fst (apply_cash x KReset (max sd 0 - l_balance l) ''reset'' (l\<lparr>l_venue_reported := False\<rparr>))"

text \<open>The journal shrinks to one \<open>Reset\<close> row; a failed rewrite leaves the file as it was and is
  reported, the memory is renewed either way.\<close>

definition reset_account_to_seed :: "io \<Rightarrow> decimal \<Rightarrow> ledger \<Rightarrow> ledger \<times> bool" where
  "reset_account_to_seed x sd l =
    (let target = max sd 0;
         e = \<lparr>je_at_ms = io_now x, je_kind = KReset, je_amount = target,
              je_balance_after = target, je_ref = ''reset''\<rparr>;
         l1 = l\<lparr>l_reservations := [], l_balance := target, l_journal := [],
                l_venue_reported := False, l_journal_total := Suc (l_journal_total l)\<rparr>
     in case l_file l1 of
          Some rws \<Rightarrow>
            if io_ok x then (l1\<lparr>l_file := Some [e], l_journal := [e]\<rparr>, True)
            else (l1\<lparr>l_journal := [e]\<rparr>, False)
        | None \<Rightarrow> (l1\<lparr>l_journal := [e]\<rparr>, True))"

definition retire_journal_file :: "io \<Rightarrow> ledger \<Rightarrow> ledger \<times> bool" where
  "retire_journal_file x l =
    (let l1 = l\<lparr>l_journal := [], l_venue_reported := False\<rparr> in
     case l_file l1 of
       Some rws \<Rightarrow> if io_ok x then (l1\<lparr>l_file := Some []\<rparr>, True) else (l1, False)
     | None \<Rightarrow> (l1, True))"

text \<open>The trait \<open>LedgerApi\<close>, implemented by the ledger.\<close>

definition reserve_for_order :: "order_id \<Rightarrow> decimal \<Rightarrow> ledger \<Rightarrow> ledger \<times> (core_error + unit)" where
  "reserve_for_order = reserve"

definition release_reservation :: "order_id \<Rightarrow> ledger \<Rightarrow> ledger \<times> decimal" where
  "release_reservation = release"

definition settle_reservation :: "io \<Rightarrow> order_id \<Rightarrow> decimal \<Rightarrow> ledger \<Rightarrow> ledger" where
  "settle_reservation x i filled_notional l = fst (settle_buy_fill x i filled_notional filled_notional l)"

definition available_for :: "string \<Rightarrow> ledger \<Rightarrow> decimal" where
  "available_for asset l = available l"

end
