(* ===== verification/LedgerProps.thy ===== *)
theory LedgerProps
  imports Ledger
begin

text \<open>
  What the cash ledger keeps: every balance change is one journalled row, the durable file sums to
  the balance and replays to it, the memory window is the newest part of the file, reservations never
  exceed the cash behind them, and a filled order leaves no reservation behind.
\<close>

section \<open>One cash movement\<close>

lemma apply_cash_balance [simp]:
  "l_balance (fst (apply_cash x k q r l)) = max (l_balance l + q) 0"
  by (simp add: apply_cash_def append_file_def Let_def split: option.splits)

lemma apply_cash_frame [simp]:
  "l_reservations (fst (apply_cash x k q r l)) = l_reservations l"
  "l_venue_reported (fst (apply_cash x k q r l)) = l_venue_reported l"
  by (simp_all add: apply_cash_def append_file_def Let_def split: option.splits)

text \<open>The row a movement appends, if any, and what appending does to the trail.\<close>

definition cash_row :: "io \<Rightarrow> journal_kind \<Rightarrow> decimal \<Rightarrow> string \<Rightarrow> ledger \<Rightarrow> journal_entry" where
  "cash_row x k q r l = \<lparr>je_at_ms = io_now x, je_kind = k,
     je_amount = max (l_balance l + q) 0 - l_balance l, je_balance_after = max (l_balance l + q) 0,
     je_ref = r\<rparr>"

lemma apply_cash_trail:
  "fst (apply_cash x k q r l) =
    (if max (l_balance l + q) 0 = l_balance l then l
     else (append_file x (cash_row x k q r l) l)\<lparr>l_balance := max (l_balance l + q) 0,
       l_journal := push_window (cash_row x k q r l) (l_journal l),
       l_journal_total := Suc (l_journal_total l)\<rparr>)"
  by (auto simp: apply_cash_def cash_row_def append_file_def Let_def split: option.splits)

section \<open>The window\<close>

lemma push_window_length: "length w \<le> JOURNAL_CAP \<Longrightarrow> length (push_window e w) \<le> JOURNAL_CAP"
  by (auto simp: push_window_def JOURNAL_CAP_def)

abbreviation newest :: "journal_entry list \<Rightarrow> journal_entry list" where
  "newest rws \<equiv> last_n JOURNAL_CAP rws"

lemma journal_cap_pos [simp]: "0 < JOURNAL_CAP"
  by (simp add: JOURNAL_CAP_def)

lemma push_newest: "push_window e (newest rws) = newest (rws @ [e])"
  using last_n_push [of JOURNAL_CAP rws e] by (auto simp: push_window_def split: if_splits)

lemma fold_push_newest: "fold push_window rws (newest r0) = newest (r0 @ rws)"
  by (induction rws arbitrary: r0) (simp_all add: push_newest)

lemma fold_push: "fold push_window rws [] = newest rws"
  using fold_push_newest [of rws "[]"] by simp

lemma newest_single [simp]: "newest [e] = [e]"
  by (simp add: last_n_def JOURNAL_CAP_def)

lemma newest_eq_Nil [simp]: "newest rws = [] \<longleftrightarrow> rws = []"
  by (simp add: last_n_eq_Nil)

lemma last_newest: "rws \<noteq> [] \<Longrightarrow> last (newest rws) = last rws"
  by (simp add: last_last_n)

section \<open>The trail\<close>

text \<open>\<open>rws\<close> leads from \<open>b\<close> to \<open>e\<close>: every row starts where the one before it ended.\<close>

fun chained :: "decimal \<Rightarrow> journal_entry list \<Rightarrow> decimal \<Rightarrow> bool" where
  "chained b [] e \<longleftrightarrow> b = e"
| "chained b (r # rs) e \<longleftrightarrow> je_balance_after r = b + je_amount r \<and> chained (je_balance_after r) rs e"

lemma chained_append: "chained b (rs @ [r]) e \<longleftrightarrow>
    (\<exists>m. chained b rs m \<and> je_balance_after r = m + je_amount r \<and> e = je_balance_after r)"
  by (induction rs arbitrary: b) auto

lemma chained_sum: "chained b rs e \<Longrightarrow> e = b + sum_list (map je_amount rs)"
  by (induction rs arbitrary: b) force+

lemma chained_last: "chained b rs e \<Longrightarrow> rs \<noteq> [] \<Longrightarrow> je_balance_after (last rs) = e"
  by (induction rs arbitrary: b) (auto split: if_splits)

text \<open>An attached ledger and its file agree: the rows lead from zero to the balance, and the window
  is the newest part of them.\<close>

definition trail_inv :: "ledger \<Rightarrow> bool" where
  "trail_inv l \<longleftrightarrow> (\<exists>rws. l_file l = Some rws \<and> chained 0 rws (l_balance l) \<and> l_journal l = newest rws)"

lemma trail_inv_cong:
  "l_file t = l_file l \<Longrightarrow> l_balance t = l_balance l \<Longrightarrow> l_journal t = l_journal l \<Longrightarrow>
   trail_inv t \<longleftrightarrow> trail_inv l"
  by (simp add: trail_inv_def)

lemma apply_cash_trail_inv [inv_intros]:
  assumes "io_ok x" and "trail_inv l"
  shows "trail_inv (fst (apply_cash x k q r l))"
proof -
  obtain rws where "l_file l = Some rws" "chained 0 rws (l_balance l)" "l_journal l = newest rws"
    using assms(2) by (auto simp: trail_inv_def)
  with assms show ?thesis
    by (simp add: apply_cash_trail)
      (auto simp: trail_inv_def append_file_def push_newest chained_append cash_row_def)
qed

lemma trail_inv_upd [simp]:
  "trail_inv (l\<lparr>l_reservations := rs\<rparr>) \<longleftrightarrow> trail_inv l"
  "trail_inv (l\<lparr>l_venue_reported := b\<rparr>) \<longleftrightarrow> trail_inv l"
  by (simp_all add: trail_inv_def)

section \<open>The ledger as a machine\<close>

datatype ledger_op = LSeed io decimal | LFund io decimal string | LReserve order_id decimal
  | LRelease order_id | LSetBalance io decimal | LVenueReport io decimal
  | LSync order_id decimal | LBuyFill io order_id decimal decimal | LSellFill io decimal decimal
  | LFee io decimal | LRedemption io decimal string | LExpiry io decimal string
  | LMerge io decimal string | LCashflow io decimal string | LResetSeed io decimal
  | LResetAccount io decimal

fun ledger_step :: "ledger \<Rightarrow> ledger_op \<Rightarrow> ledger" where
  "ledger_step l (LSeed x b) = seed x b l"
| "ledger_step l (LFund x a r) = fund x a r l"
| "ledger_step l (LReserve i n) = fst (reserve i n l)"
| "ledger_step l (LRelease i) = fst (release i l)"
| "ledger_step l (LSetBalance x b) = set_balance x b l"
| "ledger_step l (LVenueReport x b) = apply_venue_report x b l"
| "ledger_step l (LSync i n) = fst (sync_buy_reservation i n l)"
| "ledger_step l (LBuyFill x i c r) = fst (settle_buy_fill x i c r l)"
| "ledger_step l (LSellFill x p f) = settle_sell_fill x p f l"
| "ledger_step l (LFee x f) = charge_fee x f l"
| "ledger_step l (LRedemption x a r) = credit_redemption x a r l"
| "ledger_step l (LExpiry x a r) = credit_expiry_fallback x a r l"
| "ledger_step l (LMerge x a r) = credit_merge x a r l"
| "ledger_step l (LCashflow x a r) = credit_cashflow x a r l"
| "ledger_step l (LResetSeed x s) = reset_to_seed x s l"
| "ledger_step l (LResetAccount x s) = fst (reset_account_to_seed x s l)"

text \<open>Operations whose disk write, if any, succeeds.\<close>

fun disk_ok :: "ledger_op \<Rightarrow> bool" where
  "disk_ok (LSeed x b) = io_ok x"
| "disk_ok (LFund x a r) = io_ok x"
| "disk_ok (LReserve i n) = True"
| "disk_ok (LRelease i) = True"
| "disk_ok (LSetBalance x b) = io_ok x"
| "disk_ok (LVenueReport x b) = io_ok x"
| "disk_ok (LSync i n) = True"
| "disk_ok (LBuyFill x i c r) = io_ok x"
| "disk_ok (LSellFill x p f) = io_ok x"
| "disk_ok (LFee x f) = io_ok x"
| "disk_ok (LRedemption x a r) = io_ok x"
| "disk_ok (LExpiry x a r) = io_ok x"
| "disk_ok (LMerge x a r) = io_ok x"
| "disk_ok (LCashflow x a r) = io_ok x"
| "disk_ok (LResetSeed x s) = io_ok x"
| "disk_ok (LResetAccount x s) = io_ok x"

lemmas cash_ops = seed_def fund_def set_balance_def apply_venue_report_def settle_sell_fill_def
  charge_fee_def credit_as_def credit_redemption_def credit_expiry_fallback_def credit_merge_def
  credit_cashflow_def reset_to_seed_def

lemmas reservation_ops = reserve_def release_def take_reservation_def sync_buy_reservation_def

lemma step_trail_inv:
  assumes "disk_ok op" and "trail_inv l"
  shows "trail_inv (ledger_step l op)"
proof (cases op)
  case (LResetAccount x s)
  with assms show ?thesis
    by (auto simp: trail_inv_def reset_account_to_seed_def Let_def)
qed (use assms in \<open>auto simp: cash_ops reservation_ops settle_buy_fill_def Let_def
      intro!: apply_cash_trail_inv\<close>)

interpretation trail_machine:
  invariant_machine "\<lambda>l x. if disk_ok x then ledger_step l x else l" trail_inv
  by unfold_locales (auto intro: step_trail_inv)

definition opened :: ledger where
  "opened = set_journal_path [] ledger_new"

lemma trail_inv_opened: "trail_inv opened"
  by (simp add: trail_inv_def opened_def set_journal_path_def ledger_new_def)

text \<open>The window and the row counter, whatever the disk does.\<close>

definition window_inv :: "ledger \<Rightarrow> bool" where
  "window_inv l \<longleftrightarrow> length (l_journal l) \<le> JOURNAL_CAP \<and> length (l_journal l) \<le> l_journal_total l"

lemma apply_cash_window_inv: "window_inv l \<Longrightarrow> window_inv (fst (apply_cash x k q r l))"
  unfolding apply_cash_trail
  by (auto simp: window_inv_def append_file_def push_window_def JOURNAL_CAP_def split: option.splits)

lemma step_window_inv: "window_inv l \<Longrightarrow> window_inv (ledger_step l op)"
proof (cases op)
  case (LResetAccount x s)
  then show "window_inv l \<Longrightarrow> window_inv (ledger_step l op)"
    by (auto simp: window_inv_def reset_account_to_seed_def JOURNAL_CAP_def Let_def split: option.splits)
qed (auto simp: cash_ops reservation_ops settle_buy_fill_def Let_def intro!: apply_cash_window_inv,
    auto simp: window_inv_def)

interpretation window_machine: invariant_machine ledger_step window_inv
  by unfold_locales (rule step_window_inv)

section \<open>Reservations\<close>

lemma foldl_plus: "foldl (+) (a::decimal) xs = a + sum_list xs"
  by (induction xs arbitrary: a) (auto simp: algebra_simps)

lemma reserved_total: "reserved l = table_total (l_reservations l)"
  by (simp add: reserved_def table_total_def foldl_plus)

text \<open>The reservation table is well formed; the book is funded when the cash covers it.\<close>

definition reservations_ok :: "ledger \<Rightarrow> bool" where
  "reservations_ok l \<longleftrightarrow> distinct (map fst (l_reservations l)) \<and>
     (\<forall>v \<in> snd ` set (l_reservations l). 0 \<le> v)"

definition funded :: "ledger \<Rightarrow> bool" where
  "funded l \<longleftrightarrow> reservations_ok l \<and> 0 \<le> l_balance l \<and> reserved l \<le> l_balance l"

lemma reserved_nonneg: "reservations_ok l \<Longrightarrow> 0 \<le> reserved l"
  by (simp add: reserved_total reservations_ok_def table_total_nonneg)

lemma held_nonneg: "reservations_ok l \<Longrightarrow> 0 \<le> held (l_reservations l) i"
  by (auto simp: reservations_ok_def held_def split: option.splits dest: map_of_SomeD_snd)

lemma held_le_reserved: "reservations_ok l \<Longrightarrow> held (l_reservations l) i \<le> reserved l"
  by (simp add: reserved_total reservations_ok_def held_le_total)

lemma reservations_ok_put:
  assumes "reservations_ok l" and "0 \<le> v"
  shows "reservations_ok (l\<lparr>l_reservations := AList.update i v (l_reservations l)\<rparr>)"
proof -
  have "\<forall>x \<in> insert v (snd ` set (l_reservations l)). 0 \<le> x"
    using assms by (auto simp: reservations_ok_def)
  then have "\<forall>x \<in> snd ` set (AList.update i v (l_reservations l)). 0 \<le> x"
    using snd_set_update [of i v "l_reservations l"] by blast
  with assms(1) show ?thesis by (simp add: reservations_ok_def)
qed

lemma reservations_ok_del:
  "reservations_ok l \<Longrightarrow> reservations_ok (l\<lparr>l_reservations := AList.delete i (l_reservations l)\<rparr>)"
  by (auto simp: reservations_ok_def set_delete_eq)

lemma reserved_put:
  "reserved (l\<lparr>l_reservations := AList.update i v m\<rparr>) = table_total m - held m i + v"
  by (simp add: reserved_total table_total_update)

lemma reserved_del:
  "distinct (map fst m) \<Longrightarrow> reserved (l\<lparr>l_reservations := AList.delete i m\<rparr>) = table_total m - held m i"
  by (simp add: reserved_total table_total_delete)

lemma held_put [simp]: "held (AList.update i v m) j = (if j = i then v else held m j)"
  by (simp add: held_def)

lemma held_del [simp]: "held (AList.delete i m) j = (if j = i then 0 else held m j)"
  by (simp add: held_def)

lemma reserved_apply_cash [simp]: "reserved (fst (apply_cash x k q r l)) = reserved l"
  by (simp add: reserved_def)

lemma reservations_ok_cong:
  "l_reservations t = l_reservations l \<Longrightarrow> reservations_ok t \<longleftrightarrow> reservations_ok l"
  by (simp add: reservations_ok_def)

lemma available_funded: "funded l \<Longrightarrow> available l = l_balance l - reserved l"
  by (simp add: funded_def available_def)

lemma reserve_cases:
  assumes "reserve i n l = (l', Inr u)"
  obtains (again) "map_of (l_reservations l) i \<noteq> None" "l' = l"
  | (fresh) "0 \<le> n" "map_of (l_reservations l) i = None" "n \<le> available l"
      "l' = l\<lparr>l_reservations := AList.update i n (l_reservations l)\<rparr>"
  using assms by (auto simp: reserve_def split: if_splits)

lemma reserve_refused: "reserve i n l = (l', Inl e) \<Longrightarrow> l' = l"
  by (auto simp: reserve_def split: if_splits)

lemma reserve_fresh_reserved:
  "map_of (l_reservations l) i = None \<Longrightarrow>
   reserved (l\<lparr>l_reservations := AList.update i n (l_reservations l)\<rparr>) = reserved l + n"
  by (simp add: reserved_total table_total_update held_def)

lemma reserve_funded:
  assumes f: "funded l"
  shows "funded (fst (reserve i n l))"
proof (cases "reserve i n l")
  case (Pair l' res)
  show ?thesis
  proof (cases res)
    case (Inl e)
    with Pair f reserve_refused [of i n l l' e] show ?thesis by simp
  next
    case (Inr u)
    with Pair have "reserve i n l = (l', Inr u)" by simp
    then show ?thesis
    proof (cases rule: reserve_cases)
      case again
      with Pair f show ?thesis by simp
    next
      case fresh
      then show ?thesis
        using Pair f reservations_ok_put [of l n i] reserve_fresh_reserved [OF fresh(2), of n]
          available_funded [OF f]
        by (simp add: funded_def)
    qed
  qed
qed

lemma release_funded: "funded l \<Longrightarrow> funded (fst (release i l))"
  using held_nonneg [of l i]
  by (auto simp: funded_def release_def take_reservation_def reservations_ok_del reserved_del reserved_total)
    (auto simp: reservations_ok_def table_total_delete reserved_total)

section \<open>The contract of the order pipeline\<close>

text \<open>What the pipeline relies on in a \<open>LedgerApi\<close>: an accepted reservation commits exactly its
  amount out of what was free, a refused one changes nothing, and releasing frees exactly what was
  committed. \<open>committed\<close> and \<open>sound\<close> are the provider's own view of its table and of its invariant.\<close>

locale ledger_api =
  fixes reserve_op :: "string \<Rightarrow> decimal \<Rightarrow> 's \<Rightarrow> 's \<times> (core_error + unit)"
    and release_op :: "string \<Rightarrow> 's \<Rightarrow> 's \<times> decimal"
    and available_op :: "string \<Rightarrow> 's \<Rightarrow> decimal"
    and committed :: "'s \<Rightarrow> string \<Rightarrow> decimal option"
    and sound :: "'s \<Rightarrow> bool"
  assumes reserve_sound: "sound s \<Longrightarrow> sound (fst (reserve_op i a s))"
    and release_sound: "sound s \<Longrightarrow> sound (fst (release_op i s))"
    and reserve_refuse: "reserve_op i a s = (s', Inl e) \<Longrightarrow> s' = s"
    and reserve_accept: "sound s \<Longrightarrow> committed s i = None \<Longrightarrow> reserve_op i a s = (s', Inr u) \<Longrightarrow>
      committed s' = (committed s)(i \<mapsto> a) \<and> available_op c s' = available_op c s - a \<and>
      0 \<le> a \<and> a \<le> available_op c s"
    and release_frees: "sound s \<Longrightarrow>
      committed (fst (release_op i s)) = (committed s)(i := None) \<and>
      available_op c (fst (release_op i s)) = available_op c s + snd (release_op i s) \<and>
      snd (release_op i s) = (case committed s i of None \<Rightarrow> 0 | Some a \<Rightarrow> a)"
begin

lemma reserve_then_release:
  assumes "sound s" and "committed s i = None"
  shows "available_op c (fst (release_op i (fst (reserve_op i a s)))) = available_op c s \<and>
    committed (fst (release_op i (fst (reserve_op i a s)))) = committed s"
proof (cases "reserve_op i a s")
  case (Pair s' res)
  show ?thesis
  proof (cases res)
    case (Inl e)
    then have "s' = s" using reserve_refuse Pair by simp
    with Pair assms release_frees [OF assms(1), of i c] show ?thesis by (simp add: fun_upd_idem)
  next
    case (Inr u)
    then have acc: "committed s' = (committed s)(i \<mapsto> a)" "available_op c s' = available_op c s - a"
      using reserve_accept [OF assms] Pair by auto
    have "sound s'" using reserve_sound [OF assms(1), of i a] Pair by simp
    with release_frees [of s' i c] acc Pair assms(2) show ?thesis by (simp add: fun_upd_idem)
  qed
qed

text \<open>What a batch of orders can commit is bounded by what was free at the start.\<close>

lemma batch_never_overcommits:
  "sound s \<Longrightarrow> distinct (map fst os) \<Longrightarrow> \<forall>i \<in> fst ` set os. committed s i = None \<Longrightarrow>
   0 \<le> available_op c s \<Longrightarrow>
   0 \<le> available_op c (fold (\<lambda>(i, a) s. fst (reserve_op i a s)) os s) \<and>
   available_op c (fold (\<lambda>(i, a) s. fst (reserve_op i a s)) os s) \<le> available_op c s"
proof (induction os arbitrary: s)
  case (Cons o1 os)
  obtain i a where o1: "o1 = (i, a)" by (cases o1)
  obtain s' res where r: "reserve_op i a s = (s', res)" by (cases "reserve_op i a s") auto
  have snd': "sound s'" using reserve_sound [OF Cons.prems(1), of i a] r by simp
  have ci: "committed s i = None" using Cons.prems(3) o1 by simp
  have "0 \<le> available_op c s' \<and> available_op c s' \<le> available_op c s \<and>
      (\<forall>j \<in> fst ` set os. committed s' j = None)"
  proof (cases res)
    case (Inl e)
    with reserve_refuse r have "s' = s" by simp
    with Cons.prems show ?thesis by simp
  next
    case (Inr u)
    with reserve_accept [OF Cons.prems(1) ci, of a s' u c] r Cons.prems o1 show ?thesis by auto
  qed
  with Cons.IH [OF snd'] Cons.prems(2) r show ?case by (auto simp: o1 intro: order_trans)
qed simp

end

interpretation lapi: ledger_api reserve_for_order release_reservation available_for
    "\<lambda>l. map_of (l_reservations l)" funded
proof
  fix i a and s :: ledger
  show "funded s \<Longrightarrow> funded (fst (reserve_for_order i a s))"
    by (simp add: reserve_for_order_def reserve_funded)
next
  fix i and s :: ledger
  show "funded s \<Longrightarrow> funded (fst (release_reservation i s))"
    by (simp add: release_reservation_def release_funded)
next
  fix i a s s' e
  show "reserve_for_order i a s = (s', Inl e) \<Longrightarrow> s' = s"
    by (simp add: reserve_for_order_def reserve_refused)
next
  fix s s' :: ledger and i a u c
  assume f: "funded s" and none: "map_of (l_reservations s) i = None"
    and r: "reserve_for_order i a s = (s', Inr u)"
  from r have "reserve i a s = (s', Inr u)" by (simp add: reserve_for_order_def)
  then show "map_of (l_reservations s') = (map_of (l_reservations s))(i \<mapsto> a) \<and>
      available_for c s' = available_for c s - a \<and> 0 \<le> a \<and> a \<le> available_for c s"
  proof (cases rule: reserve_cases)
    case fresh
    have "funded s'" using reserve_funded [OF f, of i a] r by (simp add: reserve_for_order_def)
    then show ?thesis
      using fresh available_funded [OF f] available_funded [of s'] reserve_fresh_reserved [OF none, of a]
      by (simp add: available_for_def)
  qed (simp add: none)
next
  fix s :: ledger and i c
  assume f: "funded s"
  have "funded (fst (release i s))" by (rule release_funded [OF f])
  then have "available (fst (release i s)) = available s + held (l_reservations s) i"
    using available_funded [OF f] available_funded [of "fst (release i s)"] f
    by (simp add: release_def take_reservation_def reserved_total table_total_delete funded_def
        reservations_ok_def)
  then show "map_of (l_reservations (fst (release_reservation i s))) = (map_of (l_reservations s))(i := None) \<and>
      available_for c (fst (release_reservation i s)) =
        available_for c s + snd (release_reservation i s) \<and>
      snd (release_reservation i s) = (case map_of (l_reservations s) i of None \<Rightarrow> 0 | Some a \<Rightarrow> a)"
    by (simp add: release_reservation_def release_def take_reservation_def available_for_def held_def)
qed

section \<open>Settling buys\<close>

lemma settle_buy_fill_sets:
  assumes "reservations_ok l"
  shows "l_reservations (fst (settle_buy_fill x i c r l)) =
      (let d = min (max r 0) (held (l_reservations l) i) in
       if d > 0 then (if held (l_reservations l) i - d > 0
           then AList.update i (held (l_reservations l) i - d) (l_reservations l)
           else AList.delete i (l_reservations l))
       else l_reservations l)"
  by (simp add: settle_buy_fill_def Let_def)

lemma settle_buy_fill_effect:
  fixes x :: io and i j :: order_id and c r :: decimal
  assumes ok: "reservations_ok l"
  defines "l' \<equiv> fst (settle_buy_fill x i c r l)"
  defines "d \<equiv> snd (settle_buy_fill x i c r l)"
  shows "d = min (max r 0) (held (l_reservations l) i)"
    and "l_balance l' = max (l_balance l - c) 0"
    and "reserved l' = reserved l - d"
    and "held (l_reservations l') i = held (l_reservations l) i - d"
    and "j \<noteq> i \<Longrightarrow> held (l_reservations l') j = held (l_reservations l) j"
    and "reservations_ok l'"
proof -
  let ?h = "held (l_reservations l) i"
  have h0: "0 \<le> ?h" by (rule held_nonneg [OF ok])
  show d: "d = min (max r 0) ?h" by (simp add: d_def settle_buy_fill_def Let_def)
  show "l_balance l' = max (l_balance l - c) 0"
    by (simp add: l'_def settle_buy_fill_def Let_def)
  have res: "l_reservations l' = (if d > 0 then (if ?h - d > 0 then AList.update i (?h - d) (l_reservations l)
      else AList.delete i (l_reservations l)) else l_reservations l)"
    unfolding l'_def d settle_buy_fill_sets [OF ok] by (simp add: Let_def)
  have dle: "d \<le> ?h" "0 \<le> d" using h0 d by auto
  have dist: "distinct (map fst (l_reservations l))" using ok by (simp add: reservations_ok_def)
  show "reserved l' = reserved l - d"
    using dle dist by (auto simp: reserved_total res table_total_update table_total_delete)
  show "held (l_reservations l') i = ?h - d" using dle by (auto simp: res)
  show "j \<noteq> i \<Longrightarrow> held (l_reservations l') j = held (l_reservations l) j" by (simp add: res)
  have "reservations_ok (l\<lparr>l_reservations := l_reservations l'\<rparr>)"
    using reservations_ok_put [OF ok, of "?h - d" i] reservations_ok_del [OF ok, of i] ok
    by (simp add: res)
  then show "reservations_ok l'" by (simp add: reservations_ok_def)
qed

text \<open>The fills of one buy order, each settled for the notional its shares had reserved.\<close>

fun settle_fills :: "io \<Rightarrow> order_id \<Rightarrow> decimal \<Rightarrow> (decimal \<times> decimal) list \<Rightarrow> ledger \<Rightarrow> ledger" where
  "settle_fills x i limit [] l = l"
| "settle_fills x i limit ((cost, q) # fs) l =
    settle_fills x i limit fs (fst (settle_buy_fill x i cost (limit * q) l))"

lemma settle_fills_held:
  "reservations_ok l \<Longrightarrow> 0 \<le> limit \<Longrightarrow> \<forall>f \<in> set fs. 0 \<le> snd f \<Longrightarrow>
   held (l_reservations l) i = limit * (filled + sum_list (map snd fs)) \<Longrightarrow> 0 \<le> filled \<Longrightarrow>
   held (l_reservations (settle_fills x i limit fs l)) i = limit * filled \<and>
   reserved (settle_fills x i limit fs l) = reserved l - limit * sum_list (map snd fs)"
proof (induction fs arbitrary: l)
  case (Cons f fs)
  obtain c q where f: "f = (c, q)" by (cases f)
  have q0: "0 \<le> limit * q" using Cons.prems f by simp
  have rest: "0 \<le> sum_list (map snd fs)" using Cons.prems(3) by (intro sum_list_nonneg) auto
  have le: "limit * q \<le> held (l_reservations l) i"
    using Cons.prems(2,4,5) rest f by (simp add: mult_left_mono)
  note eff = settle_buy_fill_effect [OF Cons.prems(1), where x = x and i = i and c = c and r = "limit * q"]
  let ?l = "fst (settle_buy_fill x i c (limit * q) l)"
  have d: "snd (settle_buy_fill x i c (limit * q) l) = limit * q" using eff(1) q0 le by simp
  have "held (l_reservations ?l) i = limit * (filled + sum_list (map snd fs))"
    using eff(4) d Cons.prems(4) f by (simp add: algebra_simps)
  with Cons.IH [OF eff(6)] Cons.prems eff(3) d f show ?case by (simp add: algebra_simps)
qed simp

section \<open>Properties\<close>

text \<open>A batch of orders put through the trait's reservation call, the refused ones included.\<close>

definition reserve_batch :: "(order_id \<times> decimal) list \<Rightarrow> ledger \<Rightarrow> ledger" where
  "reserve_batch os l = fold (\<lambda>(i, a) l. fst (reserve_for_order i a l)) os l"

fun venue_word :: "ledger_op \<Rightarrow> bool" where
  "venue_word (LVenueReport x b) = True"
| "venue_word _ = False"

lemma step_venue_flag:
  "\<not> venue_word op \<Longrightarrow> \<not> l_venue_reported l \<Longrightarrow> \<not> l_venue_reported (ledger_step l op)"
proof (cases op)
  case (LBuyFill x i c r)
  then show "\<not> l_venue_reported l \<Longrightarrow> \<not> l_venue_reported (ledger_step l op)"
    by (simp add: settle_buy_fill_def Let_def)
next
  case (LResetAccount x s)
  then show "\<not> l_venue_reported (ledger_step l op)"
    by (simp add: reset_account_to_seed_def Let_def split: option.splits)
qed (simp_all add: cash_ops reservation_ops Let_def)

interpretation flag_machine:
  invariant_machine "\<lambda>l x. if \<not> venue_word x then ledger_step l x else l" "\<lambda>l. \<not> l_venue_reported l"
  by unfold_locales (metis step_venue_flag)

text \<open>C8: over any history of cash and reservation operations on a freshly attached ledger whose disk
  writes succeed, the durable file is a complete explanation of the balance: its rows chain from
  zero to the live balance, their amounts sum to it, and the memory window is the file's newest part.\<close>

theorem ledger_trail_explains_balance:
  fixes ops :: "ledger_op list"
  defines "l \<equiv> run ledger_step opened (filter disk_ok ops)"
  shows "\<exists>rws. l_file l = Some rws \<and> chained 0 rws (l_balance l) \<and>
    l_balance l = sum_list (map je_amount rws) \<and> l_journal l = newest rws"
proof -
  have "trail_inv l" unfolding l_def run_filter by (rule trail_machine.run_inv) (rule trail_inv_opened)
  then obtain rws where rws: "l_file l = Some rws" "chained 0 rws (l_balance l)" "l_journal l = newest rws"
    by (auto simp: trail_inv_def)
  with chained_sum [OF rws(2)] show ?thesis by simp
qed

lemma load_rows_exact: "(\<forall>e \<in> set rws. read_row D e = Some e) \<Longrightarrow> load_rows D rws = rws"
  by (induction rws) (simp_all add: load_rows_def List.map_filter_simps)

lemma replay_chained:
  assumes "chained 0 rws (l_balance l)" and "l_journal l = newest rws"
  shows "l_balance (replay_journal rws ledger_new) = l_balance l \<and>
    l_journal (replay_journal rws ledger_new) = l_journal l"
proof (cases "rws = []")
  case True
  with assms show ?thesis by (simp add: replay_journal_def ledger_new_def Let_def fold_push)
next
  case False
  with assms chained_last [OF assms(1)] show ?thesis
    by (simp add: replay_journal_def fold_push last_newest Let_def)
qed

text \<open>C9: a restart loses nothing the file can hold: if every disk write succeeded and every row of the file
  survives the round trip through its JSON numbers, replaying the loaded file into a new ledger restores the balance and the
  window the previous process held, whatever it had done (its disk writes succeeding).\<close>

theorem ledger_boot_replay_restores:
  fixes ops :: "ledger_op list"
  defines "l \<equiv> run ledger_step opened (filter disk_ok ops)"
  assumes "l_file l = Some rws" and "\<forall>e \<in> set rws. read_row D e = Some e"
  shows "l_balance (replay_journal (load_rows D rws) ledger_new) = l_balance l \<and>
    l_journal (replay_journal (load_rows D rws) ledger_new) = l_journal l"
proof -
  have "trail_inv l" unfolding l_def run_filter by (rule trail_machine.run_inv) (rule trail_inv_opened)
  then show ?thesis
    using assms replay_chained load_rows_exact [OF assms(3)] by (auto simp: trail_inv_def)
qed

theorem ledger_boot_replay_restores_witness:
  "l_balance (replay_journal (load_rows exact_dec
      [\<lparr>je_at_ms = 0, je_kind = KSeed, je_amount = 5, je_balance_after = 5, je_ref = ''boot''\<rparr>]) ledger_new) = 5"
proof -
  let ?e = "\<lparr>je_at_ms = 0, je_kind = KSeed, je_amount = 5, je_balance_after = 5, je_ref = ''boot''\<rparr>"
  let ?ops = "[LSeed \<lparr>io_now = 0, io_ok = True\<rparr> 5]"
  have 1: "l_file (run ledger_step opened (filter disk_ok ?ops)) = Some [?e]"
    "l_balance (run ledger_step opened (filter disk_ok ?ops)) = 5"
    by (simp_all add: opened_def set_journal_path_def ledger_new_def seed_def apply_cash_def Let_def append_file_def)
  have "f64_round 5 = 5" by code_simp
  then have 2: "\<forall>e \<in> set [?e]. read_row exact_dec e = Some e" by (simp add: read_row_def wire_decimal_def)
  show ?thesis using ledger_boot_replay_restores [OF 1(1) 2] 1(2) by simp
qed

text \<open>The file cannot hold every balance: amounts are written as doubles. Two ledgers seeded with
  different amounts that round to the same double come back from their files with the same balance, so
  one of them, at least, is not restored.\<close>

theorem ledger_boot_loses_digits:
  fixes a b :: decimal
  defines "la \<equiv> seed \<lparr>io_now = 0, io_ok = True\<rparr> a opened" and "lb \<equiv> seed \<lparr>io_now = 0, io_ok = True\<rparr> b opened"
  assumes "0 < a" and "0 < b" and "a \<noteq> b" and "f64_round a = f64_round b"
  shows "l_balance la \<noteq> l_balance lb \<and> l_file la \<noteq> None \<and> l_file lb \<noteq> None \<and>
    l_balance (replay_journal (load_rows D (the (l_file la))) ledger_new) =
      l_balance (replay_journal (load_rows D (the (l_file lb))) ledger_new)"
  using assms wire_collapses [OF assms(6), of D]
  by (auto simp: la_def lb_def opened_def set_journal_path_def ledger_new_def seed_def apply_cash_def Let_def
      append_file_def load_rows_def List.map_filter_simps read_row_def replay_journal_def push_window_def
      JOURNAL_CAP_def split: option.splits)

theorem ledger_boot_loses_digits_witness:
  "l_balance (replay_journal (load_rows exact_dec (the (l_file
      (seed \<lparr>io_now = 0, io_ok = True\<rparr> (1234567890123456789 / 10 ^ 9) opened)))) ledger_new) =
   l_balance (replay_journal (load_rows exact_dec (the (l_file
      (seed \<lparr>io_now = 0, io_ok = True\<rparr> (1234567890123456788 / 10 ^ 9) opened)))) ledger_new)"
proof -
  have "f64_round (1234567890123456789 / 10 ^ 9) = f64_round (1234567890123456788 / 10 ^ 9)" by code_simp
  then show ?thesis
    using ledger_boot_loses_digits [of "1234567890123456789 / 10 ^ 9" "1234567890123456788 / 10 ^ 9" exact_dec]
    by simp
qed

text \<open>\<open>reserve\<close> on every branch. A negative notional and one beyond the free cash are refused with
  their error and no effect; a repeated order is accepted without reserving twice; otherwise exactly
  the notional moves from available to reserved.\<close>

theorem ledger_reserve_behaviour:
  "if n < 0 then fst (reserve i n l) = l \<and> (\<exists>e. snd (reserve i n l) = Inl e \<and> ce_code e = InvalidParams)
   else if i \<in> dom (map_of (l_reservations l)) then reserve i n l = (l, Inr ())
   else if available l < n
   then fst (reserve i n l) = l \<and> (\<exists>e. snd (reserve i n l) = Inl e \<and> ce_code e = InsufficientFunds)
   else snd (reserve i n l) = Inr () \<and> reserved (fst (reserve i n l)) = reserved l + n \<and>
     available (fst (reserve i n l)) = available l - n \<and>
     l_balance (fst (reserve i n l)) = l_balance l"
proof -
  have "available (l\<lparr>l_reservations := AList.update i n (l_reservations l)\<rparr>) = available l - n"
    if "map_of (l_reservations l) i = None" "0 \<le> n" "n \<le> available l"
    using that reserve_fresh_reserved [OF that(1), of n] by (auto simp: available_def max_def split: if_splits)
  then show ?thesis
    using reserve_fresh_reserved [of l i n] by (auto simp: reserve_def domIff not_less)
qed

lemma reserve_balance: "l_balance (fst (reserve i n l)) = l_balance l"
  by (simp add: reserve_def)

text \<open>A batch of orders put through the pipeline's reservation interface never over-commits: on a ledger whose cash
  covers what it holds, whatever is asked and whatever is refused, the cash stays and still covers all
  that is then held, so the free cash is the difference of the two and never cut off at zero.\<close>

theorem ledger_batch_never_overcommits:
  assumes "funded l"
  shows "reserved (reserve_batch os l) \<le> l_balance (reserve_batch os l) \<and> l_balance (reserve_batch os l) = l_balance l \<and>
    available_for c (reserve_batch os l) = l_balance l - reserved (reserve_batch os l)"
proof -
  have "funded (reserve_batch os l) \<and> l_balance (reserve_batch os l) = l_balance l"
    using assms unfolding reserve_batch_def
    by (induction os arbitrary: l) (auto simp: reserve_for_order_def reserve_funded reserve_balance)
  then show ?thesis
    using available_funded [of "reserve_batch os l"] by (simp add: funded_def available_for_def)
qed

theorem ledger_batch_never_overcommits_witness:
  "reserved (reserve_batch [(''a'', 60), (''b'', 70)] (ledger_new\<lparr>l_balance := 100\<rparr>)) \<le> 100"
proof -
  let ?l = "ledger_new\<lparr>l_balance := 100\<rparr>"
  have "funded ?l" by (simp add: funded_def reservations_ok_def reserved_def ledger_new_def)
  from ledger_batch_never_overcommits [OF this, of "[(''a'', 60), (''b'', 70)]" "''USDC''"]
  show ?thesis by simp
qed

text \<open>Cancelling an order right after placing it is free: reserve then release leaves the free
  cash and every other reservation as they were, accepted or not.\<close>

theorem ledger_reserve_release_roundtrip:
  assumes "funded l" and "map_of (l_reservations l) i = None"
  shows "available_for c (fst (release_reservation i (fst (reserve_for_order i a l)))) = available_for c l \<and>
    map_of (l_reservations (fst (release_reservation i (fst (reserve_for_order i a l))))) =
      map_of (l_reservations l)"
  using lapi.reserve_then_release [OF assms] by blast

theorem ledger_reserve_release_roundtrip_witness:
  "available_for ''USDC'' (fst (release_reservation ''a''
     (fst (reserve_for_order ''a'' 60 (ledger_new\<lparr>l_balance := 100\<rparr>))))) = 100"
proof -
  let ?l = "ledger_new\<lparr>l_balance := 100\<rparr>"
  have "available_for ''USDC'' (fst (release_reservation ''a'' (fst (reserve_for_order ''a'' 60 ?l)))) =
      available_for ''USDC'' ?l"
    using ledger_reserve_release_roundtrip [of ?l "''a''" "''USDC''" 60]
    by (simp add: funded_def reservations_ok_def reserved_def ledger_new_def)
  also have "\<dots> = 100" by (simp add: available_for_def available_def reserved_def ledger_new_def)
  finally show ?thesis .
qed

text \<open>A fully filled buy leaves no residue. Of an order that reserved limit times size, fills that
  add up to the size, at whatever execution prices, release exactly that reservation: nothing stays
  held for it, and the total reserved is back where it was before the order.\<close>

theorem ledger_full_fill_leaves_no_residue:
  assumes "reservations_ok l" and "map_of (l_reservations l) i = None"
    and "0 \<le> limit" and "\<forall>f \<in> set fs. 0 \<le> snd f" and "sum_list (map snd fs) = n"
    and "reserve i (limit * n) l = (l', Inr ())"
  shows "held (l_reservations (settle_fills x i limit fs l')) i = 0 \<and>
    reserved (settle_fills x i limit fs l') = reserved l"
proof -
  from assms(6) have l': "l' = l\<lparr>l_reservations := AList.update i (limit * n) (l_reservations l)\<rparr>"
    using assms(2) by (auto elim!: reserve_cases)
  have n: "0 \<le> limit * n" using assms(3-5) by (auto intro!: mult_nonneg_nonneg sum_list_nonneg)
  have "reservations_ok l'" unfolding l' by (rule reservations_ok_put [OF assms(1) n])
  moreover have "held (l_reservations l') i = limit * (0 + sum_list (map snd fs))"
    by (simp add: l' assms(5))
  moreover have "reserved l' = reserved l + limit * n"
    unfolding l' by (rule reserve_fresh_reserved [OF assms(2)])
  ultimately show ?thesis
    using settle_fills_held [of l' limit fs i 0 x] assms(3-5) by simp
qed

theorem ledger_full_fill_leaves_no_residue_witness:
  "reserved (settle_fills \<lparr>io_now = 1, io_ok = True\<rparr> ''a'' (1/2) [(1, 4), (2, 6)]
     (fst (reserve ''a'' (1/2 * 10) (ledger_new\<lparr>l_balance := 100\<rparr>)))) = 0"
proof -
  have "reserve ''a'' (1/2 * 10) (ledger_new\<lparr>l_balance := 100\<rparr>) =
      (ledger_new\<lparr>l_balance := 100, l_reservations := [(''a'', 5)]\<rparr>, Inr ())"
    by (simp add: reserve_def ledger_new_def available_def reserved_def)
  with ledger_full_fill_leaves_no_residue [of "ledger_new\<lparr>l_balance := 100\<rparr>" "''a''" "1/2"
      "[(1, 4), (2, 6)]" 10 _ "\<lparr>io_now = 1, io_ok = True\<rparr>"]
  show ?thesis by (simp add: reservations_ok_def reserved_def ledger_new_def)
qed

text \<open>A buy fill settles exactly: the cash falls by the execution cost (not below zero), the
  reservation by the notional the shares had reserved (not below zero), no other reservation moves,
  and the released amount is returned.\<close>

theorem ledger_settle_buy_fill_exact:
  assumes "reservations_ok l" and "settle_buy_fill x i cost r l = (l', d)"
  shows "d = min (max r 0) (held (l_reservations l) i) \<and> l_balance l' = max (l_balance l - cost) 0 \<and>
    reserved l' = reserved l - d \<and>
    held (l_reservations l') = (held (l_reservations l))(i := held (l_reservations l) i - d)"
  using settle_buy_fill_effect [OF assms(1), where x = x and i = i and c = cost and r = r] assms(2)
  by auto

theorem ledger_settle_buy_fill_exact_witness:
  "\<exists>l' d. settle_buy_fill \<lparr>io_now = 1, io_ok = True\<rparr> ''a'' 3 4
      (ledger_new\<lparr>l_balance := 10, l_reservations := [(''a'', 5)]\<rparr>) = (l', d) \<and>
    d = 4 \<and> l_balance l' = 7 \<and> reserved l' = 1"
proof -
  let ?l = "ledger_new\<lparr>l_balance := 10, l_reservations := [(''a'', 5)]\<rparr>"
  obtain l' d where s: "settle_buy_fill \<lparr>io_now = 1, io_ok = True\<rparr> ''a'' 3 4 ?l = (l', d)"
    by (cases "settle_buy_fill \<lparr>io_now = 1, io_ok = True\<rparr> ''a'' 3 4 ?l") auto
  from ledger_settle_buy_fill_exact [OF _ this] show ?thesis
    by (intro exI [of _ l'] exI [of _ d] conjI s)
      (auto simp: reservations_ok_def held_def reserved_def)
qed

text \<open>The cash identity, available plus reserved equals balance, holds exactly when no reserved
  notional is unfunded.\<close>

theorem ledger_balanced_iff_funded:
  "is_balanced l \<longleftrightarrow> unfunded_reserved l = 0"
  by (auto simp: is_balanced_def unfunded_reserved_def available_def max_def)

text \<open>After any history at all, failed disk writes included, the memory window holds at most its
  cap and the row counter never runs behind it, so a row's global sequence number (counter minus
  window length plus index) is defined.\<close>

theorem ledger_window_bounded:
  "case journal_seq_basis (run ledger_step ledger_new ops) of
     (n, w) \<Rightarrow> w \<le> JOURNAL_CAP \<and> w \<le> n"
  using window_machine.run_inv [of ledger_new ops]
  by (simp add: journal_seq_basis_def window_inv_def ledger_new_def)

text \<open>Resetting one account re-seeds it completely: the balance is the seed (never negative), no
  reservation is left, and, unless the rewrite of the file failed, what the next boot replays from
  the file is that same balance, as the file can write it.\<close>

theorem ledger_account_reset_replays_to_seed:
  "case reset_account_to_seed x sd l of (l', ok) \<Rightarrow>
     l_balance l' = max sd 0 \<and> reserved l' = 0 \<and> \<not> l_venue_reported l' \<and>
     ok = (l_file l = None \<or> io_ok x) \<and>
     (if ok then l_file l' = None \<or>
        (\<exists>rws. l_file l' = Some rws \<and> (\<forall>a. wire_decimal D (max sd 0) = Some a \<longrightarrow>
          l_balance (replay_journal (load_rows D rws) ledger_new) = a))
      else l_file l' = l_file l)"
  by (auto simp: reset_account_to_seed_def reserved_def replay_journal_def push_window_def
      JOURNAL_CAP_def Let_def load_rows_def List.map_filter_simps read_row_def split: option.splits)

text \<open>The book claims venue-reported cash only because a venue spoke: no history without a venue
  report ever sets the flag, however the balance moved.\<close>

theorem ledger_venue_reported_only_by_venue:
  "\<not> l_venue_reported (run ledger_step ledger_new (filter (\<lambda>x. \<not> venue_word x) ops))"
  unfolding run_filter using flag_machine.run_inv [of ledger_new ops] by (simp add: ledger_new_def)

end
