(* ===== verification/Kline.thy ===== *)
theory Kline
  imports Types
begin

text \<open>
  Candlesticks: the bar and its interval, \<open>core/bk_contract/src/kline.rs\<close>, and the stream
  aggregator, \<open>core/blitzkrieg_core/src/kline/aggregator.rs\<close>. Times are \<open>int\<close> milliseconds; the \<open>i64\<close>
  arithmetic of the bucket bounds (and its saturating subtraction) agrees with it for every time
  within \<open>2^63 - 86400000\<close> of zero.
\<close>

section \<open>Intervals\<close>

datatype kline_interval = Sec1 | Sec5 | Sec15 | Min1 | Min5 | Min15 | Hour1 | Hour4 | Day1

fun secs :: "kline_interval \<Rightarrow> int" where
  "secs Sec1 = 1"
| "secs Sec5 = 5"
| "secs Sec15 = 15"
| "secs Min1 = 60"
| "secs Min5 = 300"
| "secs Min15 = 900"
| "secs Hour1 = 3600"
| "secs Hour4 = 14400"
| "secs Day1 = 86400"

text \<open>\<open>div_euclid\<close> by a positive number is the floor division of \<open>int\<close>.\<close>

definition bucket_open_ms :: "kline_interval \<Rightarrow> int \<Rightarrow> int" where
  "bucket_open_ms iv ts_ms = (let s = secs iv * 1000 in ts_ms div s * s)"

definition bucket_close_ms :: "kline_interval \<Rightarrow> int \<Rightarrow> int" where
  "bucket_close_ms iv open_ms = open_ms + secs iv * 1000 - 1"

fun wire_name :: "kline_interval \<Rightarrow> string" where
  "wire_name Sec1 = ''sec1''"
| "wire_name Sec5 = ''sec5''"
| "wire_name Sec15 = ''sec15''"
| "wire_name Min1 = ''min1''"
| "wire_name Min5 = ''min5''"
| "wire_name Min15 = ''min15''"
| "wire_name Hour1 = ''hour1''"
| "wire_name Hour4 = ''hour4''"
| "wire_name Day1 = ''day1''"

definition from_wire :: "string \<Rightarrow> kline_interval option" where
  "from_wire s =
    (if s = ''sec1'' then Some Sec1 else if s = ''sec5'' then Some Sec5
     else if s = ''sec15'' then Some Sec15 else if s = ''min1'' then Some Min1
     else if s = ''min5'' then Some Min5 else if s = ''min15'' then Some Min15
     else if s = ''hour1'' then Some Hour1 else if s = ''hour4'' then Some Hour4
     else if s = ''day1'' then Some Day1 else None)"

section \<open>Bars\<close>

record kline =
  k_symbol :: string
  k_interval :: kline_interval
  k_open_time_ms :: int
  k_close_time_ms :: int
  k_open :: decimal
  k_high :: decimal
  k_low :: decimal
  k_close :: decimal
  k_volume :: decimal
  k_trade_count :: nat
  k_is_closed :: bool

definition kline_new :: "string \<Rightarrow> kline_interval \<Rightarrow> int \<Rightarrow> decimal \<Rightarrow> decimal \<Rightarrow> kline" where
  "kline_new symbol iv open_time_ms price sz =
    \<lparr>k_symbol = symbol, k_interval = iv, k_open_time_ms = open_time_ms,
     k_close_time_ms = bucket_close_ms iv open_time_ms, k_open = price, k_high = price,
     k_low = price, k_close = price, k_volume = sz, k_trade_count = 1, k_is_closed = False\<rparr>"

definition apply_trade :: "decimal \<Rightarrow> decimal \<Rightarrow> kline \<Rightarrow> kline" where
  "apply_trade price sz b =
    (let b1 = (if price > k_high b then b\<lparr>k_high := price\<rparr> else b);
         b2 = (if price < k_low b1 then b1\<lparr>k_low := price\<rparr> else b1)
     in b2\<lparr>k_close := price, k_volume := k_volume b2 + sz, k_trade_count := Suc (k_trade_count b2)\<rparr>)"

section \<open>The aggregator\<close>

type_synonym bar_key = "string \<times> kline_interval"

definition CLOSED_HISTORY_CAP :: nat where
  "CLOSED_HISTORY_CAP = 1000"

definition DEFAULT_INTERVALS :: "kline_interval list" where
  "DEFAULT_INTERVALS = [Sec1, Sec5, Sec15, Min1, Min5, Min15, Hour1, Hour4, Day1]"

record aggregator =
  ag_intervals :: "kline_interval list"
  ag_bars :: "(bar_key \<times> kline) list"
  ag_closed :: "(bar_key \<times> kline list) list"
  ag_pending_closed :: "kline list"
  ag_dropped :: nat
  ag_no_data_bars :: nat
  ag_symbols_seen :: "string set"

definition aggregator_new :: "kline_interval list \<Rightarrow> aggregator" where
  "aggregator_new ivs = \<lparr>ag_intervals = ivs, ag_bars = [], ag_closed = [], ag_pending_closed = [],
     ag_dropped = 0, ag_no_data_bars = 0, ag_symbols_seen = {}\<rparr>"

definition with_default_intervals :: aggregator where
  "with_default_intervals = aggregator_new DEFAULT_INTERVALS"

definition tail_of :: "aggregator \<Rightarrow> bar_key \<Rightarrow> kline list" where
  "tail_of a key = (case map_of (ag_closed a) key of Some t \<Rightarrow> t | None \<Rightarrow> [])"

definition push_tail :: "kline \<Rightarrow> kline list \<Rightarrow> kline list" where
  "push_tail b t = (if length t \<ge> CLOSED_HISTORY_CAP then tl t else t) @ [b]"

text \<open>Closing the growing bar of a key: it enters the key's bounded tail.\<close>

definition close_bar :: "bar_key \<Rightarrow> kline \<Rightarrow> nat \<Rightarrow> aggregator \<Rightarrow> aggregator" where
  "close_bar key bar skipped a =
    a\<lparr>ag_bars := AList.delete key (ag_bars a), ag_no_data_bars := ag_no_data_bars a + skipped,
      ag_closed := AList.update key (push_tail bar (tail_of a key)) (ag_closed a)\<rparr>"

text \<open>One iteration of the loop over the intervals; the second component collects the bars closed
  so far.\<close>

definition fold_interval ::
  "string \<Rightarrow> decimal \<Rightarrow> decimal \<Rightarrow> int \<Rightarrow> kline_interval \<Rightarrow> aggregator \<times> kline list \<Rightarrow>
   aggregator \<times> kline list" where
  "fold_interval symbol price sz ts_ms iv st =
    (case st of (a, cl) \<Rightarrow>
      let key = (symbol, iv);
          bucket = bucket_open_ms iv ts_ms
      in (case map_of (ag_bars a) key of
        None \<Rightarrow>
          (a\<lparr>ag_bars := AList.update key (kline_new symbol iv bucket price sz) (ag_bars a)\<rparr>, cl)
      | Some bar \<Rightarrow>
          if ts_ms < k_open_time_ms bar then (a\<lparr>ag_dropped := Suc (ag_dropped a)\<rparr>, cl)
          else if bucket = k_open_time_ms bar
          then (a\<lparr>ag_bars := AList.update key (apply_trade price sz bar) (ag_bars a)\<rparr>, cl)
          else
            let bar' = bar\<lparr>k_is_closed := True\<rparr>;
                skipped = nat ((bucket - k_open_time_ms bar) div (secs iv * 1000) - 1);
                a1 = close_bar key bar' skipped a
            in (a1\<lparr>ag_bars := AList.update key (kline_new symbol iv bucket price sz) (ag_bars a1)\<rparr>,
                cl @ [bar'])))"

definition on_trade ::
  "string \<Rightarrow> decimal \<Rightarrow> decimal \<Rightarrow> int \<Rightarrow> aggregator \<Rightarrow> aggregator \<times> kline list" where
  "on_trade symbol price sz ts_ms a =
    (let a0 = a\<lparr>ag_symbols_seen := insert symbol (ag_symbols_seen a)\<rparr>;
         (a1, cl) = fold (fold_interval symbol price sz ts_ms) (ag_intervals a0) (a0, [])
     in (a1\<lparr>ag_pending_closed := ag_pending_closed a1 @ cl\<rparr>, cl))"

definition current :: "aggregator \<Rightarrow> string \<Rightarrow> kline_interval \<Rightarrow> kline option" where
  "current a symbol iv = map_of (ag_bars a) (symbol, iv)"

definition history :: "aggregator \<Rightarrow> string \<Rightarrow> kline_interval \<Rightarrow> nat \<Rightarrow> kline list" where
  "history a symbol iv limit =
    (let out = tail_of a (symbol, iv) @
           (case map_of (ag_bars a) (symbol, iv) of Some bar \<Rightarrow> [bar] | None \<Rightarrow> [])
     in if length out > limit then drop (length out - limit) out else out)"

definition take_closed :: "aggregator \<Rightarrow> aggregator \<times> kline list" where
  "take_closed a = (a\<lparr>ag_pending_closed := []\<rparr>, ag_pending_closed a)"

definition current_bars :: "aggregator \<Rightarrow> kline list" where
  "current_bars a = map snd (ag_bars a)"

record aggregator_stats =
  as_symbols :: nat
  as_live_bars :: nat
  as_closed_bars :: nat
  as_dropped_out_of_order :: nat
  as_no_data_bars :: nat
  as_intervals :: "kline_interval list"

definition stats :: "aggregator \<Rightarrow> aggregator_stats" where
  "stats a = \<lparr>as_symbols = card (ag_symbols_seen a), as_live_bars = length (ag_bars a),
     as_closed_bars = sum_list (map (length \<circ> snd) (ag_closed a)),
     as_dropped_out_of_order = ag_dropped a, as_no_data_bars = ag_no_data_bars a,
     as_intervals = ag_intervals a\<rparr>"

definition memory_bound_bytes :: "nat \<Rightarrow> aggregator_stats \<Rightarrow> nat" where
  "memory_bound_bytes kline_size_hint st =
    as_symbols st * length (as_intervals st) * (1 + CLOSED_HISTORY_CAP) * kline_size_hint"

end
