(* ===== verification/KlineProps.thy ===== *)
theory KlineProps
  imports Kline
begin

text \<open>
  What the aggregator's bars are: well-formed and aligned, closed in time order, counting every tick
  they were fed, and equal, lane by lane, to the bars an offline grouping of the same ticks gives.
\<close>

section \<open>Buckets\<close>

lemma secs_pos [simp]: "0 < secs iv"
  by (cases iv) simp_all

lemma bucket_open_bounds:
  "bucket_open_ms iv ts \<le> ts" "ts \<le> bucket_close_ms iv (bucket_open_ms iv ts)"
proof -
  let ?s = "secs iv * 1000"
  have s: "0 < ?s" by simp
  have eq: "ts div ?s * ?s + ts mod ?s = ts" by (rule div_mult_mod_eq)
  have lo: "0 \<le> ts mod ?s" and hi: "ts mod ?s < ?s" using s by simp_all
  show "bucket_open_ms iv ts \<le> ts" using eq lo unfolding bucket_open_ms_def Let_def by linarith
  show "ts \<le> bucket_close_ms iv (bucket_open_ms iv ts)"
    using eq hi unfolding bucket_open_ms_def bucket_close_ms_def Let_def by linarith
qed

definition aligned :: "kline_interval \<Rightarrow> int \<Rightarrow> bool" where
  "aligned iv t \<longleftrightarrow> bucket_open_ms iv t = t"

lemma bucket_aligned [simp]: "aligned iv (bucket_open_ms iv t)"
  by (simp add: aligned_def bucket_open_ms_def Let_def)

lemma bucket_mono: "a \<le> b \<Longrightarrow> bucket_open_ms iv a \<le> bucket_open_ms iv b"
  by (simp add: bucket_open_ms_def Let_def zdiv_mono1)

lemma aligned_le_bucket: "aligned iv t \<Longrightarrow> t \<le> ts \<Longrightarrow> t \<le> bucket_open_ms iv ts"
  using bucket_mono [of t ts iv] by (simp add: aligned_def)

lemma wire_roundtrip: "from_wire (wire_name iv) = Some iv"
  by (cases iv) (simp_all add: from_wire_def)

section \<open>Bars\<close>

definition bar_ok :: "kline \<Rightarrow> bool" where
  "bar_ok b \<longleftrightarrow> k_low b \<le> k_open b \<and> k_open b \<le> k_high b \<and> k_low b \<le> k_close b \<and> k_close b \<le> k_high b \<and>
     aligned (k_interval b) (k_open_time_ms b) \<and>
     k_close_time_ms b = bucket_close_ms (k_interval b) (k_open_time_ms b) \<and> 0 < k_trade_count b"

lemma bar_ok_new [simp]: "bar_ok (kline_new s iv (bucket_open_ms iv ts) p q)"
  by (simp add: bar_ok_def kline_new_def)

lemma bar_ok_apply [simp]: "bar_ok b \<Longrightarrow> bar_ok (apply_trade p q b)"
  by (auto simp: bar_ok_def apply_trade_def Let_def)

lemma bar_ok_closed [simp]: "bar_ok (b\<lparr>k_is_closed := c\<rparr>) = bar_ok b"
  by (simp add: bar_ok_def)

lemma kline_new_sel [simp]:
  "k_symbol (kline_new s iv t p q) = s" "k_interval (kline_new s iv t p q) = iv"
  "k_open_time_ms (kline_new s iv t p q) = t" "k_trade_count (kline_new s iv t p q) = 1"
  "k_volume (kline_new s iv t p q) = q" "k_is_closed (kline_new s iv t p q) = False"
  by (simp_all add: kline_new_def)

lemma apply_trade_sel [simp]:
  "k_symbol (apply_trade p q b) = k_symbol b" "k_interval (apply_trade p q b) = k_interval b"
  "k_open_time_ms (apply_trade p q b) = k_open_time_ms b"
  "k_close_time_ms (apply_trade p q b) = k_close_time_ms b"
  "k_trade_count (apply_trade p q b) = Suc (k_trade_count b)"
  "k_volume (apply_trade p q b) = k_volume b + q" "k_is_closed (apply_trade p q b) = k_is_closed b"
  "k_open (apply_trade p q b) = k_open b" "k_close (apply_trade p q b) = p"
  "k_high (apply_trade p q b) = max p (k_high b)"
  by (simp_all add: apply_trade_def Let_def max_def)

section \<open>One lane\<close>

text \<open>The state of one \<open>(symbol, interval)\<close> lane: its growing bar, the bars it ever closed, and the
  ticks it dropped. \<open>lane_step\<close> is what a tick does to it.\<close>

record lane =
  ln_cur :: "kline option"
  ln_done :: "kline list"
  ln_dropped :: nat

type_synonym tick = "decimal \<times> decimal \<times> int"

definition lane_step :: "string \<Rightarrow> kline_interval \<Rightarrow> lane \<Rightarrow> tick \<Rightarrow> lane" where
  "lane_step s iv la t =
    (case t of (p, q, ts) \<Rightarrow>
      let bucket = bucket_open_ms iv ts in
      case ln_cur la of
        None \<Rightarrow> la\<lparr>ln_cur := Some (kline_new s iv bucket p q)\<rparr>
      | Some b \<Rightarrow>
          if ts < k_open_time_ms b then la\<lparr>ln_dropped := Suc (ln_dropped la)\<rparr>
          else if bucket = k_open_time_ms b then la\<lparr>ln_cur := Some (apply_trade p q b)\<rparr>
          else la\<lparr>ln_cur := Some (kline_new s iv bucket p q), ln_done := ln_done la @ [b\<lparr>k_is_closed := True\<rparr>]\<rparr>)"

definition lane_new :: lane where
  "lane_new = \<lparr>ln_cur = None, ln_done = [], ln_dropped = 0\<rparr>"

definition lane_ok :: "string \<Rightarrow> kline_interval \<Rightarrow> lane \<Rightarrow> bool" where
  "lane_ok s iv la \<longleftrightarrow>
    (\<forall>b \<in> set (ln_done la). bar_ok b \<and> k_is_closed b \<and> k_symbol b = s \<and> k_interval b = iv) \<and>
    sorted_wrt (<) (map k_open_time_ms (ln_done la)) \<and>
    (case ln_cur la of None \<Rightarrow> ln_done la = []
     | Some c \<Rightarrow> bar_ok c \<and> \<not> k_is_closed c \<and> k_symbol c = s \<and> k_interval c = iv \<and>
         (\<forall>b \<in> set (ln_done la). k_open_time_ms b < k_open_time_ms c))"

lemma lane_ok_new: "lane_ok s iv lane_new"
  by (simp add: lane_ok_def lane_new_def)

lemma lane_step_ok:
  assumes ok: "lane_ok s iv la"
  shows "lane_ok s iv (lane_step s iv la t)"
proof -
  obtain p q ts where t: "t = (p, q, ts)" by (cases t)
  show ?thesis
  proof (cases "ln_cur la")
    case None
    with ok show ?thesis by (simp add: t lane_step_def lane_ok_def Let_def)
  next
    case (Some b)
    with ok have b: "bar_ok b" "k_interval b = iv" "k_symbol b = s" by (simp_all add: lane_ok_def)
    show ?thesis
    proof (cases "ts < k_open_time_ms b")
      case True
      with ok Some show ?thesis by (simp add: t lane_step_def lane_ok_def Let_def)
    next
      case False
      have le: "k_open_time_ms b \<le> bucket_open_ms iv ts"
        using aligned_le_bucket [of iv "k_open_time_ms b" ts] b False by (simp add: bar_ok_def)
      with ok Some b False show ?thesis
        by (fastforce simp: t lane_step_def lane_ok_def Let_def sorted_wrt_append)
    qed
  qed
qed

lemma lane_run_ok: "lane_ok s iv la \<Longrightarrow> lane_ok s iv (run (lane_step s iv) la ts)"
  by (induction ts arbitrary: la) (auto intro: lane_step_ok)

section \<open>The offline reference\<close>

text \<open>The bars an offline pass gives: one per bucket that has ticks, in time order, each summarising
  the ticks of its bucket.\<close>

definition tick_bucket :: "kline_interval \<Rightarrow> tick \<Rightarrow> int" where
  "tick_bucket iv t = bucket_open_ms iv (snd (snd t))"

definition bar_of :: "string \<Rightarrow> kline_interval \<Rightarrow> int \<Rightarrow> tick list \<Rightarrow> kline" where
  "bar_of s iv b g =
    \<lparr>k_symbol = s, k_interval = iv, k_open_time_ms = b, k_close_time_ms = bucket_close_ms iv b,
     k_open = fst (hd g), k_high = Max (set (map fst g)), k_low = Min (set (map fst g)),
     k_close = fst (last g), k_volume = sum_list (map (fst \<circ> snd) g), k_trade_count = length g,
     k_is_closed = False\<rparr>"

definition in_bucket :: "kline_interval \<Rightarrow> int \<Rightarrow> tick list \<Rightarrow> tick list" where
  "in_bucket iv b ts = filter (\<lambda>t. tick_bucket iv t = b) ts"

definition offline :: "string \<Rightarrow> kline_interval \<Rightarrow> tick list \<Rightarrow> kline list" where
  "offline s iv ts = map (\<lambda>b. bar_of s iv b (in_bucket iv b ts))
     (sorted_list_of_set (tick_bucket iv ` set ts))"

lemma bar_of_single: "bar_of s iv b [(p, q, ts)] = kline_new s iv b p q"
  by (simp add: bar_of_def kline_new_def)

lemma apply_trade_eq:
  "apply_trade p q b = b\<lparr>k_high := max p (k_high b), k_low := min p (k_low b), k_close := p,
     k_volume := k_volume b + q, k_trade_count := Suc (k_trade_count b)\<rparr>"
  by (simp add: apply_trade_def Let_def max_def min_def)

lemma bar_of_snoc:
  assumes "g \<noteq> []"
  shows "bar_of s iv b (g @ [(p, q, ts)]) = apply_trade p q (bar_of s iv b g)"
  using assms by (simp add: bar_of_def apply_trade_eq)

lemma sorted_list_of_set_snoc:
  assumes "finite A" and "\<forall>a \<in> A. a < (b::int)"
  shows "sorted_list_of_set (insert b A) = sorted_list_of_set A @ [b]"
proof -
  have "sorted (sorted_list_of_set A @ [b])" "distinct (sorted_list_of_set A @ [b])"
    using assms by (auto simp: sorted_append intro: less_imp_le)
  then have "sorted_list_of_set (set (sorted_list_of_set A @ [b])) = sorted_list_of_set A @ [b]"
    by (rule sorted_list_of_set.idem_if_sorted_distinct)
  then show ?thesis using assms(1) by simp
qed

definition in_order :: "tick list \<Rightarrow> bool" where
  "in_order ts \<longleftrightarrow> sorted (map (snd \<circ> snd) ts)"

text \<open>The lane an in-order stream leads to.\<close>

definition lane_of :: "kline list \<Rightarrow> lane" where
  "lane_of bs = (if bs = [] then lane_new else
     \<lparr>ln_cur = Some (last bs), ln_done = map (\<lambda>b. b\<lparr>k_is_closed := True\<rparr>) (butlast bs), ln_dropped = 0\<rparr>)"

lemma offline_snoc_same:
  assumes "in_order (ts @ [(p, q, t)])" and "bucket_open_ms iv t \<in> tick_bucket iv ` set ts"
  shows "offline s iv (ts @ [(p, q, t)]) =
    butlast (offline s iv ts) @ [apply_trade p q (last (offline s iv ts))] \<and>
    offline s iv ts \<noteq> [] \<and> k_open_time_ms (last (offline s iv ts)) = bucket_open_ms iv t"
proof -
  let ?B = "bucket_open_ms iv t" and ?S = "tick_bucket iv ` set ts"
  have le: "\<forall>x \<in> ?S. x \<le> ?B"
    using assms(1) by (auto simp: in_order_def sorted_append tick_bucket_def intro!: bucket_mono)
  define bs where "bs = sorted_list_of_set (?S - {?B})"
  have "sorted_list_of_set (insert ?B (?S - {?B})) = bs @ [?B]"
    unfolding bs_def using le by (intro sorted_list_of_set_snoc) (auto simp: order.strict_iff_order)
  then have all: "sorted_list_of_set ?S = bs @ [?B]" using assms(2) by (simp add: insert_absorb)
  have new: "tick_bucket iv ` set (ts @ [(p, q, t)]) = ?S"
    using assms(2) by (auto simp: tick_bucket_def)
  have ne: "in_bucket iv ?B ts \<noteq> []" using assms(2) by (auto simp: in_bucket_def filter_empty_conv)
  have other: "in_bucket iv b (ts @ [(p, q, t)]) = in_bucket iv b ts" if "b \<in> set bs" for b
    using that by (auto simp: in_bucket_def bs_def tick_bucket_def)
  have this_one: "in_bucket iv ?B (ts @ [(p, q, t)]) = in_bucket iv ?B ts @ [(p, q, t)]"
    by (simp add: in_bucket_def tick_bucket_def)
  define pre where "pre = map (\<lambda>b. bar_of s iv b (in_bucket iv b ts)) bs"
  have "offline s iv (ts @ [(p, q, t)]) = pre @ [apply_trade p q (bar_of s iv ?B (in_bucket iv ?B ts))]"
    unfolding offline_def new all pre_def
    by (simp add: this_one bar_of_snoc [OF ne] other cong: map_cong)
  moreover have "offline s iv ts = pre @ [bar_of s iv ?B (in_bucket iv ?B ts)]"
    unfolding offline_def all pre_def by simp
  ultimately show ?thesis by (simp add: bar_of_def)
qed

lemma offline_snoc_new:
  assumes "in_order (ts @ [(p, q, t)])" and "bucket_open_ms iv t \<notin> tick_bucket iv ` set ts"
  shows "offline s iv (ts @ [(p, q, t)]) =
    offline s iv ts @ [kline_new s iv (bucket_open_ms iv t) p q]"
proof -
  let ?B = "bucket_open_ms iv t" and ?S = "tick_bucket iv ` set ts"
  have le: "\<forall>x \<in> ?S. x \<le> ?B"
    using assms(1) by (auto simp: in_order_def sorted_append tick_bucket_def intro!: bucket_mono)
  then have lt: "\<forall>x \<in> ?S. x < ?B" using assms(2) by (metis order.strict_iff_order)
  have new: "tick_bucket iv ` set (ts @ [(p, q, t)]) = insert ?B ?S"
    by (auto simp: tick_bucket_def)
  have all: "sorted_list_of_set (insert ?B ?S) = sorted_list_of_set ?S @ [?B]"
    by (rule sorted_list_of_set_snoc) (use lt in auto)
  have other: "in_bucket iv b (ts @ [(p, q, t)]) = in_bucket iv b ts" if "b \<in> ?S" for b
    using that lt by (auto simp: in_bucket_def tick_bucket_def)
  have this_one: "in_bucket iv ?B (ts @ [(p, q, t)]) = [(p, q, t)]"
  proof -
    have "\<forall>x \<in> set ts. tick_bucket iv x \<noteq> ?B" using assms(2) by (metis imageI)
    then show ?thesis by (simp add: in_bucket_def tick_bucket_def)
  qed
  show ?thesis
    unfolding offline_def new all
    by (simp add: this_one bar_of_single other cong: map_cong)
qed

lemma last_offline_open:
  assumes "ts \<noteq> []"
  shows "offline s iv ts \<noteq> [] \<and> k_open_time_ms (last (offline s iv ts)) \<in> tick_bucket iv ` set ts"
proof -
  let ?l = "sorted_list_of_set (tick_bucket iv ` set ts)"
  have ne: "?l \<noteq> []" using assms by (simp add: sorted_list_of_set_eq_Nil_iff)
  then have "last ?l \<in> tick_bucket iv ` set ts"
    using last_in_set [OF ne] by simp
  with ne show ?thesis by (simp add: offline_def last_map bar_of_def)
qed

lemma lane_equals_offline:
  "in_order ts \<Longrightarrow> run (lane_step s iv) lane_new ts = lane_of (offline s iv ts)"
proof (induction ts rule: rev_induct)
  case Nil
  then show ?case by (simp add: offline_def lane_of_def)
next
  case (snoc x ts)
  obtain p q t where x: "x = (p, q, t)" by (cases x)
  have "in_order ts" using snoc.prems by (auto simp: in_order_def sorted_append)
  then have IH: "run (lane_step s iv) lane_new ts = lane_of (offline s iv ts)" by (rule snoc.IH)
  let ?B = "bucket_open_ms iv t"
  have step: "run (lane_step s iv) lane_new (ts @ [x]) = lane_step s iv (lane_of (offline s iv ts)) x"
    by (simp add: run_append IH)
  show ?case
  proof (cases "ts = []")
    case True
    then show ?thesis
      using offline_snoc_new [of ts p q t iv s] snoc.prems x
      by (simp add: lane_of_def lane_new_def lane_step_def offline_def Let_def)
  next
    case False
    let ?o = "offline s iv ts"
    have ne: "?o \<noteq> []" and mem: "k_open_time_ms (last ?o) \<in> tick_bucket iv ` set ts"
      using last_offline_open [OF False] by auto
    then obtain y where y: "y \<in> set ts" "k_open_time_ms (last ?o) = tick_bucket iv y" by auto
    have "snd (snd y) \<le> t" using snoc.prems y x by (auto simp: in_order_def sorted_append)
    with y bucket_open_bounds(1) [of iv "snd (snd y)"] have le: "k_open_time_ms (last ?o) \<le> t"
      by (simp add: tick_bucket_def)
    show ?thesis
    proof (cases "?B \<in> tick_bucket iv ` set ts")
      case True
      from offline_snoc_same [OF snoc.prems [unfolded x] True, of s] le ne
      have "lane_step s iv (lane_of ?o) x = lane_of (offline s iv (ts @ [x]))"
        by (simp add: x lane_of_def lane_step_def Let_def)
      with step show ?thesis by simp
    next
      case neq: False
      with mem have "?B \<noteq> k_open_time_ms (last ?o)" by auto
      with offline_snoc_new [OF snoc.prems [unfolded x] neq, of s] le ne
      have "lane_step s iv (lane_of ?o) x = lane_of (offline s iv (ts @ [x]))"
        by (simp add: x lane_of_def lane_step_def Let_def butlast_append)
          (metis append_butlast_last_id list.simps(8,9) map_append)
      with step show ?thesis by simp
    qed
  qed
qed

section \<open>The aggregator is its lanes\<close>

definition lanes_of :: "aggregator \<Rightarrow> (bar_key \<Rightarrow> lane) \<Rightarrow> bool" where
  "lanes_of a L \<longleftrightarrow> (\<forall>key. map_of (ag_bars a) key = ln_cur (L key) \<and>
     tail_of a key = last_n CLOSED_HISTORY_CAP (ln_done (L key)))"

lemma push_tail_last_n: "push_tail b (last_n CLOSED_HISTORY_CAP xs) = last_n CLOSED_HISTORY_CAP (xs @ [b])"
  unfolding push_tail_def by (rule last_n_push) (simp add: CLOSED_HISTORY_CAP_def)

lemma tail_of_close [simp]:
  "tail_of (close_bar key b n a) k = (if k = key then push_tail b (tail_of a key) else tail_of a k)"
  by (simp add: tail_of_def close_bar_def)

lemma tail_of_bars [simp]:
  "tail_of (a\<lparr>ag_bars := m\<rparr>) k = tail_of a k" "tail_of (a\<lparr>ag_dropped := n\<rparr>) k = tail_of a k"
  "tail_of (a\<lparr>ag_symbols_seen := ss\<rparr>) k = tail_of a k"
  "tail_of (a\<lparr>ag_pending_closed := pc\<rparr>) k = tail_of a k"
  by (simp_all add: tail_of_def)

lemma bars_close [simp]: "ag_bars (close_bar key b n a) = AList.delete key (ag_bars a)"
  by (simp add: close_bar_def)

lemma fold_interval_lanes:
  assumes R: "lanes_of a L"
  shows "lanes_of (fst (fold_interval s p q ts iv (a, cl)))
    (L((s, iv) := lane_step s iv (L (s, iv)) (p, q, ts)))"
proof (cases "map_of (ag_bars a) (s, iv)")
  case None
  then have "ln_cur (L (s, iv)) = None" using R by (metis lanes_of_def)
  with None R show ?thesis
    by (simp add: fold_interval_def lane_step_def lanes_of_def Let_def del: map_of_eq_None_iff)
next
  case (Some b)
  then have cur: "ln_cur (L (s, iv)) = Some b" using R by (metis lanes_of_def)
  from R have tl: "tail_of a (s, iv) = last_n CLOSED_HISTORY_CAP (ln_done (L (s, iv)))"
    by (simp add: lanes_of_def)
  from Some R cur show ?thesis
    by (simp add: fold_interval_def lane_step_def lanes_of_def Let_def tl push_tail_last_n
        del: map_of_eq_Some_iff)
qed

lemma fold_intervals_lanes:
  assumes "lanes_of a L" and "distinct ivs"
  shows "lanes_of (fst (fold (fold_interval s p q ts) ivs (a, cl)))
    (\<lambda>key. if fst key = s \<and> snd key \<in> set ivs then lane_step s (snd key) (L key) (p, q, ts) else L key)"
  using assms
proof (induction ivs arbitrary: a cl L)
  case (Cons iv ivs)
  obtain a1 cl1 where f: "fold_interval s p q ts iv (a, cl) = (a1, cl1)"
    by (cases "fold_interval s p q ts iv (a, cl)")
  define L1 where "L1 = L((s, iv) := lane_step s iv (L (s, iv)) (p, q, ts))"
  have "lanes_of a1 L1" using fold_interval_lanes [OF Cons.prems(1), of s p q ts iv cl] f
    by (simp add: L1_def)
  from Cons.IH [OF this, of cl1] Cons.prems(2)
  have IH: "lanes_of (fst (fold (fold_interval s p q ts) ivs (a1, cl1)))
    (\<lambda>key. if fst key = s \<and> snd key \<in> set ivs then lane_step s (snd key) (L1 key) (p, q, ts) else L1 key)"
    by simp
  have "(\<lambda>key. if fst key = s \<and> snd key \<in> set ivs then lane_step s (snd key) (L1 key) (p, q, ts) else L1 key)
    = (\<lambda>key. if fst key = s \<and> snd key \<in> set (iv # ivs) then lane_step s (snd key) (L key) (p, q, ts) else L key)"
    using Cons.prems(2) by (auto simp: L1_def fun_eq_iff)
  with IH f show ?case by simp
qed (simp add: lanes_of_def)

lemma fold_intervals_frame:
  "ag_intervals (fst (fold (fold_interval s p q ts) ivs st)) = ag_intervals (fst st)"
proof (induction ivs arbitrary: st)
  case (Cons iv ivs)
  have "ag_intervals (fst (fold_interval s p q ts iv st)) = ag_intervals (fst st)"
    by (simp add: fold_interval_def close_bar_def Let_def split: prod.splits option.splits)
  with Cons show ?case by simp
qed simp

definition agg_step :: "aggregator \<Rightarrow> string \<times> tick \<Rightarrow> aggregator" where
  "agg_step a x = (case x of (s, p, q, ts) \<Rightarrow> fst (on_trade s p q ts a))"

lemma agg_step_intervals [simp]: "ag_intervals (agg_step a x) = ag_intervals a"
  using fold_intervals_frame [of _ _ _ _ "ag_intervals a"]
  by (auto simp: agg_step_def on_trade_def Let_def split: prod.splits) (metis (no_types, lifting) aggregator.select_convs(1) aggregator.surjective aggregator.update_convs(7) fst_conv)

lemma run_intervals [simp]: "ag_intervals (run agg_step a xs) = ag_intervals a"
  by (induction xs arbitrary: a) simp_all

lemma agg_step_lanes:
  assumes "lanes_of a L" and "distinct (ag_intervals a)"
  shows "lanes_of (agg_step a (s, t))
    (\<lambda>key. if fst key = s \<and> snd key \<in> set (ag_intervals a) then lane_step s (snd key) (L key) t else L key)"
proof -
  obtain p q ts where t: "t = (p, q, ts)" by (cases t)
  let ?a0 = "a\<lparr>ag_symbols_seen := insert s (ag_symbols_seen a)\<rparr>"
  have "lanes_of ?a0 L" using assms(1) by (simp add: lanes_of_def)
  from fold_intervals_lanes [OF this assms(2), of s p q ts "[]"]
  show ?thesis
    by (auto simp: agg_step_def on_trade_def t Let_def lanes_of_def split: prod.splits)
qed

definition ticks_of :: "string \<Rightarrow> (string \<times> tick) list \<Rightarrow> tick list" where
  "ticks_of s xs = map snd (filter (\<lambda>x. fst x = s) xs)"

lemma run_lanes:
  assumes "lanes_of a L" and "distinct (ag_intervals a)"
  shows "lanes_of (run agg_step a xs)
    (\<lambda>key. if snd key \<in> set (ag_intervals a)
       then run (lane_step (fst key) (snd key)) (L key) (ticks_of (fst key) xs) else L key)"
  using assms
proof (induction xs arbitrary: a L)
  case Nil
  then show ?case by (simp add: lanes_of_def ticks_of_def)
next
  case (Cons x xs)
  obtain s t where x: "x = (s, t)" by (cases x)
  have eq: "(if snd key \<in> set (ag_intervals a) then run (lane_step (fst key) (snd key))
        (if fst key = s \<and> snd key \<in> set (ag_intervals a) then lane_step s (snd key) (L key) t else L key)
        (ticks_of (fst key) xs)
      else if fst key = s \<and> snd key \<in> set (ag_intervals a) then lane_step s (snd key) (L key) t else L key) =
     (if snd key \<in> set (ag_intervals a)
       then run (lane_step (fst key) (snd key)) (L key) (ticks_of (fst key) (x # xs)) else L key)" for key
    by (auto simp: x ticks_of_def)
  from Cons.IH [OF agg_step_lanes [OF Cons.prems, of s t]] Cons.prems(2) show ?case
    by (simp add: x [symmetric] eq)
qed

lemma lanes_of_new: "lanes_of (aggregator_new ivs) (\<lambda>_. lane_new)"
  by (simp add: lanes_of_def aggregator_new_def lane_new_def tail_of_def)

lemma reachable_lanes:
  assumes "distinct ivs" and "iv \<in> set ivs"
  shows "current (run agg_step (aggregator_new ivs) xs) s iv =
      ln_cur (run (lane_step s iv) lane_new (ticks_of s xs))"
    and "tail_of (run agg_step (aggregator_new ivs) xs) (s, iv) =
      last_n CLOSED_HISTORY_CAP (ln_done (run (lane_step s iv) lane_new (ticks_of s xs)))"
  using run_lanes [OF lanes_of_new, of ivs xs] assms
  by (simp_all add: lanes_of_def current_def aggregator_new_def)

section \<open>Counting ticks\<close>

definition bars_count :: "kline list \<Rightarrow> nat" where
  "bars_count bs = sum_list (map k_trade_count bs)"

lemma bars_count_append [simp]: "bars_count (xs @ ys) = bars_count xs + bars_count ys"
  by (simp add: bars_count_def)

lemma bars_count_simps [simp]:
  "bars_count [] = 0" "bars_count (b # bs) = k_trade_count b + bars_count bs"
  by (simp_all add: bars_count_def)

lemma bars_update:
  "bars_count (map snd (AList.update k b m)) + (case map_of m k of None \<Rightarrow> 0 | Some c \<Rightarrow> k_trade_count c) =
   bars_count (map snd m) + k_trade_count b"
  using sum_update [of k_trade_count k b m] by (simp add: bars_count_def comp_def)

lemma bars_delete:
  "distinct (map fst m) \<Longrightarrow>
   bars_count (map snd (AList.delete k m)) + (case map_of m k of None \<Rightarrow> 0 | Some c \<Rightarrow> k_trade_count c) =
   bars_count (map snd m)"
  using sum_delete [of m k_trade_count k] by (simp add: bars_count_def comp_def)

definition seen_count :: "aggregator \<times> kline list \<Rightarrow> nat" where
  "seen_count st = bars_count (current_bars (fst st)) + bars_count (snd st) +
     bars_count (ag_pending_closed (fst st)) + ag_dropped (fst st)"

lemma fold_interval_count:
  assumes d: "distinct (map fst (ag_bars (fst st)))"
  shows "seen_count (fold_interval s p q ts iv st) = Suc (seen_count st) \<and>
    distinct (map fst (ag_bars (fst (fold_interval s p q ts iv st))))"
proof -
  obtain a cl where st: "st = (a, cl)" by (cases st)
  let ?k = "(s, iv)"
  show ?thesis
  proof (cases "map_of (ag_bars a) ?k")
    case None
    with d bars_update [of ?k _ "ag_bars a"] show ?thesis
      by (simp add: st fold_interval_def seen_count_def current_bars_def Let_def del: map_of_eq_None_iff)
  next
    case (Some b)
    have del: "map_of (AList.delete ?k (ag_bars a)) ?k = None" by simp
    from Some d bars_update [of ?k "apply_trade p q b" "ag_bars a"]
      bars_delete [of "ag_bars a" ?k]
      bars_update [of ?k "kline_new s iv (bucket_open_ms iv ts) p q" "AList.delete ?k (ag_bars a)"] del
    show ?thesis
      by (simp add: st fold_interval_def seen_count_def current_bars_def close_bar_def Let_def
          del: map_of_eq_Some_iff map_of_eq_None_iff)
  qed
qed

lemma fold_intervals_count:
  "distinct (map fst (ag_bars (fst st))) \<Longrightarrow>
   seen_count (fold (fold_interval s p q ts) ivs st) = seen_count st + length ivs \<and>
   distinct (map fst (ag_bars (fst (fold (fold_interval s p q ts) ivs st))))"
proof (induction ivs arbitrary: st)
  case (Cons iv ivs)
  from fold_interval_count [OF Cons.prems, of s p q ts iv] Cons.IH show ?case by simp
qed simp

lemma agg_step_count:
  assumes "distinct (map fst (ag_bars a))"
  shows "seen_count (agg_step a x, []) = seen_count (a, []) + length (ag_intervals a) \<and>
    distinct (map fst (ag_bars (agg_step a x)))"
proof -
  obtain s p q ts where x: "x = (s, p, q, ts)" by (cases x)
  let ?a0 = "a\<lparr>ag_symbols_seen := insert s (ag_symbols_seen a)\<rparr>"
  obtain a1 cl where f: "fold (fold_interval s p q ts) (ag_intervals a) (?a0, []) = (a1, cl)"
    by (cases "fold (fold_interval s p q ts) (ag_intervals a) (?a0, [])")
  have "seen_count (a1, cl) = seen_count (?a0, []) + length (ag_intervals a) \<and> distinct (map fst (ag_bars a1))"
    using fold_intervals_count [of "(?a0, [])" s p q ts "ag_intervals a"] assms f by simp
  then show ?thesis
    by (simp add: x agg_step_def on_trade_def f seen_count_def current_bars_def Let_def)
qed

lemma run_count:
  "distinct (map fst (ag_bars a)) \<Longrightarrow>
   seen_count (run agg_step a xs, []) = seen_count (a, []) + length xs * length (ag_intervals a)"
proof (induction xs arbitrary: a)
  case (Cons x xs)
  from agg_step_count [OF Cons.prems, of x] Cons.IH [of "agg_step a x"] show ?case by simp
qed simp

section \<open>Properties\<close>

text \<open>The streaming aggregator equals the offline one. For every configured interval and every
  symbol whose ticks arrive in time order (interleaved with other symbols in any way), the growing
  bar is the last bar of the offline grouping of that symbol's ticks, and the retained history is the
  newest part of the offline bars before it, closed.\<close>

theorem kline_matches_offline:
  fixes xs :: "(string \<times> tick) list" and s :: string
  assumes "distinct ivs" and "iv \<in> set ivs" and "in_order (ticks_of s xs)"
  defines "bs \<equiv> offline s iv (ticks_of s xs)"
  shows "current (run agg_step (aggregator_new ivs) xs) s iv = (if bs = [] then None else Some (last bs)) \<and>
    tail_of (run agg_step (aggregator_new ivs) xs) (s, iv) =
      last_n CLOSED_HISTORY_CAP (map (\<lambda>b. b\<lparr>k_is_closed := True\<rparr>) (butlast bs))"
  using reachable_lanes [OF assms(1,2), of xs s] lane_equals_offline [OF assms(3), of s iv]
  by (simp add: bs_def lane_of_def lane_new_def)

theorem kline_matches_offline_witness:
  "current (run agg_step (aggregator_new [Min1, Min5])
      [(''btc'', 2, 1, 1000), (''eth'', 9, 1, 500), (''btc'', 5, 3, 61000)]) ''btc'' Min1 =
    Some (last (offline ''btc'' Min1 [(2, 1, 1000), (5, 3, 61000)]))"
  using kline_matches_offline [of "[Min1, Min5]" Min1 "''btc''"
      "[(''btc'', 2, 1, 1000), (''eth'', 9, 1, 500), (''btc'', 5, 3, 61000)]"]
  by (simp add: in_order_def ticks_of_def offline_def tick_bucket_def sorted_list_of_set_eq_Nil_iff)

text \<open>Whatever ticks arrive, out of order ones included, every bar the aggregator holds is well
  formed: low and high enclose open and close, it starts on its interval's grid and ends one
  millisecond before the next slot, it counted a tick; retained bars are closed and strictly
  ascending in time, and all of them precede the growing one, which is not closed.\<close>

theorem kline_bars_well_formed:
  fixes xs :: "(string \<times> tick) list" and s :: string
  assumes "distinct ivs" and "iv \<in> set ivs"
  defines "a \<equiv> run agg_step (aggregator_new ivs) xs"
  shows "set (tail_of a (s, iv)) \<subseteq> {b. bar_ok b \<and> k_is_closed b \<and> k_symbol b = s \<and> k_interval b = iv} \<and>
    sorted_wrt (<) (map k_open_time_ms (tail_of a (s, iv))) \<and>
    (case current a s iv of None \<Rightarrow> tail_of a (s, iv) = []
     | Some c \<Rightarrow> bar_ok c \<and> \<not> k_is_closed c \<and> k_open_time_ms ` set (tail_of a (s, iv)) \<subseteq> {..<k_open_time_ms c})"
proof -
  let ?la = "run (lane_step s iv) lane_new (ticks_of s xs)"
  have ok: "lane_ok s iv ?la" by (rule lane_run_ok) (rule lane_ok_new)
  note r = reachable_lanes [OF assms(1,2), of xs s, folded a_def]
  have sub: "set (tail_of a (s, iv)) \<subseteq> set (ln_done ?la)" by (simp add: r set_last_n)
  have "sorted_wrt (<) (map k_open_time_ms (tail_of a (s, iv)))"
    using ok by (simp add: r lane_ok_def last_n_def drop_map [symmetric] sorted_wrt_drop)
  with ok sub show ?thesis
    by (auto simp: lane_ok_def r(1) split: option.splits dest: subsetD)
qed

theorem kline_bars_well_formed_witness:
  "set (tail_of (run agg_step (aggregator_new DEFAULT_INTERVALS)
      [(''btc'', 2, 1, 61000), (''btc'', 7, 1, 500), (''btc'', 5, 3, 121000)]) (''btc'', Min1)) \<subseteq>
    {b. bar_ok b \<and> k_is_closed b \<and> k_symbol b = ''btc'' \<and> k_interval b = Min1}"
  using kline_bars_well_formed [of DEFAULT_INTERVALS Min1
      "[(''btc'', 2, 1, 61000), (''btc'', 7, 1, 500), (''btc'', 5, 3, 121000)]" "''btc''"]
  by (simp add: DEFAULT_INTERVALS_def)

text \<open>No tick disappears: over any stream, each tick is counted once per configured interval,
  either in a bar (growing, or closed and handed over) or in the visible drop counter.\<close>

theorem kline_ticks_conserved:
  fixes ivs :: "kline_interval list" and xs :: "(string \<times> tick) list"
  defines "a \<equiv> run agg_step (aggregator_new ivs) xs"
  shows "bars_count (current_bars a) + bars_count (snd (take_closed a)) + ag_dropped a =
    length xs * length ivs"
  using run_count [of "aggregator_new ivs" xs]
  by (simp add: a_def seen_count_def take_closed_def aggregator_new_def current_bars_def)

end
