(* ===== verification/VirtualAccount.thy ===== *)
theory VirtualAccount
  imports Types
begin

text \<open>
  The strategy-level virtual accounts, \<open>core/blitzkrieg_core/src/risk/virtual_account.rs\<close>: one pot of
  outstanding reservations per (account, strategy), a cap for the governed pairs, and the all-or-
  nothing batch reservation. Below, what the book keeps: the cap, independence of the pots, the
  running total, and where the running total and the table can part.
\<close>

section \<open>State\<close>

record pot =
  pt_reservations :: "(string \<times> decimal) list"
  pt_outstanding :: decimal

definition pot_new :: pot where
  "pot_new = \<lparr>pt_reservations = [], pt_outstanding = 0\<rparr>"

type_synonym scope = "string \<times> string"

record virtual_accounts =
  va_pots :: "(scope \<times> pot) list"
  va_caps :: "(scope \<times> decimal) list"

text \<open>\<open>VirtualAccountLimit\<close> of the service configuration.\<close>

record virtual_limit =
  vl_max_batch_notional_usd :: "decimal option"
  vl_accounts :: "string list"

section \<open>Pots\<close>

definition pot_used :: "pot \<Rightarrow> decimal" where
  "pot_used p = pt_outstanding p"

definition pot_reserve :: "string \<Rightarrow> decimal \<Rightarrow> pot \<Rightarrow> pot" where
  "pot_reserve k amount p =
    (if amount \<le> 0 then p
     else p\<lparr>pt_reservations := AList.update k amount (pt_reservations p),
            pt_outstanding := pt_outstanding p + amount\<rparr>)"

definition pot_release :: "string \<Rightarrow> decimal \<Rightarrow> pot \<Rightarrow> pot" where
  "pot_release k amount p =
    (if amount \<le> 0 then p
     else case map_of (pt_reservations p) k of
       None \<Rightarrow> p
     | Some h \<Rightarrow>
         let taken = min h amount; h' = h - taken
         in p\<lparr>pt_reservations :=
                (if h' \<le> 0 then AList.delete k (pt_reservations p)
                 else AList.update k h' (pt_reservations p)),
              pt_outstanding := pt_outstanding p - taken\<rparr>)"

definition pot_release_all :: "string \<Rightarrow> pot \<Rightarrow> pot" where
  "pot_release_all k p =
    (case map_of (pt_reservations p) k of
       None \<Rightarrow> p
     | Some h \<Rightarrow> p\<lparr>pt_reservations := AList.delete k (pt_reservations p),
                  pt_outstanding := pt_outstanding p - h\<rparr>)"

section \<open>The book\<close>

definition add_scope :: "string \<Rightarrow> decimal \<Rightarrow> string \<Rightarrow> virtual_accounts \<Rightarrow> virtual_accounts" where
  "add_scope s cap ac v = v\<lparr>va_caps := AList.update (ac, s) cap (va_caps v),
     va_pots := AList.update (ac, s) pot_new (va_pots v)\<rparr>"

definition va_new :: "(string \<times> virtual_limit) list \<Rightarrow> virtual_accounts" where
  "va_new limits =
    fold (\<lambda>(strategy, l) v.
        case vl_max_batch_notional_usd l of
          None \<Rightarrow> v
        | Some cap \<Rightarrow>
            fold (add_scope strategy cap) (vl_accounts l) v)
      limits \<lparr>va_pots = [], va_caps = []\<rparr>"

definition governed :: "string \<Rightarrow> string \<Rightarrow> virtual_accounts \<Rightarrow> bool" where
  "governed account strategy v \<longleftrightarrow> map_of (va_caps v) (account, strategy) \<noteq> None"

definition scopes :: "virtual_accounts \<Rightarrow> scope list" where
  "scopes v = sort (map fst (va_caps v))"

definition pot_of :: "string \<Rightarrow> string \<Rightarrow> virtual_accounts \<Rightarrow> pot" where
  "pot_of account strategy v =
    (case map_of (va_pots v) (account, strategy) of Some p \<Rightarrow> p | None \<Rightarrow> pot_new)"

text \<open>\<open>pot_mut\<close>: the pot of a scope, created empty when missing, updated in place.\<close>

definition pot_mut :: "string \<Rightarrow> string \<Rightarrow> (pot \<Rightarrow> pot) \<Rightarrow> virtual_accounts \<Rightarrow> virtual_accounts" where
  "pot_mut account strategy f v =
    v\<lparr>va_pots := AList.update (account, strategy) (f (pot_of account strategy v)) (va_pots v)\<rparr>"

definition va_used :: "string \<Rightarrow> string \<Rightarrow> virtual_accounts \<Rightarrow> decimal" where
  "va_used account strategy v =
    (case map_of (va_pots v) (account, strategy) of Some p \<Rightarrow> pot_used p | None \<Rightarrow> 0)"

definition va_cap :: "string \<Rightarrow> string \<Rightarrow> virtual_accounts \<Rightarrow> decimal option" where
  "va_cap account strategy v = map_of (va_caps v) (account, strategy)"

definition legs_total :: "(string \<times> decimal) list \<Rightarrow> decimal" where
  "legs_total legs = sum_list (map (\<lambda>(_, a). max a 0) legs)"

definition batch_fits ::
  "string \<Rightarrow> string \<Rightarrow> (string \<times> decimal) list \<Rightarrow> decimal \<Rightarrow> virtual_accounts \<Rightarrow> message + unit" where
  "batch_fits account strategy legs committed_elsewhere v =
    (case map_of (va_caps v) (account, strategy) of
       None \<Rightarrow> Inr ()
     | Some cap \<Rightarrow>
         let used = va_used account strategy v;
             tot = legs_total legs
         in if used + committed_elsewhere + tot > cap
            then Inl [Txt ''virtual account cap ('', Dec used, Txt ''+'', Dec committed_elsewhere,
                      Txt ''+'', Dec tot, Txt '' > '', Dec cap, Txt '')'']
            else Inr ())"

definition va_reserve_batch ::
  "string \<Rightarrow> string \<Rightarrow> (string \<times> decimal) list \<Rightarrow> decimal \<Rightarrow> virtual_accounts \<Rightarrow>
   virtual_accounts \<times> (message + unit)" where
  "va_reserve_batch account strategy legs committed_elsewhere v =
    (if \<not> governed account strategy v then (v, Inr ())
     else case batch_fits account strategy legs committed_elsewhere v of
       Inl e \<Rightarrow> (v, Inl e)
     | Inr _ \<Rightarrow> (pot_mut account strategy (fold (\<lambda>(k, a). pot_reserve k a) legs) v, Inr ()))"

definition va_release :: "string \<Rightarrow> string \<Rightarrow> string \<Rightarrow> decimal \<Rightarrow> virtual_accounts \<Rightarrow> virtual_accounts" where
  "va_release account strategy k amount v =
    (if \<not> governed account strategy v then v else pot_mut account strategy (pot_release k amount) v)"

definition va_release_all :: "string \<Rightarrow> string \<Rightarrow> string \<Rightarrow> virtual_accounts \<Rightarrow> virtual_accounts" where
  "va_release_all account strategy k v =
    (if \<not> governed account strategy v then v else pot_mut account strategy (pot_release_all k) v)"

section \<open>What a pot keeps\<close>

text \<open>The running total agrees with the table, and every entry is positive.\<close>

definition pot_inv :: "pot \<Rightarrow> bool" where
  "pot_inv p \<longleftrightarrow> distinct (map fst (pt_reservations p)) \<and>
     (\<forall>k a. map_of (pt_reservations p) k = Some a \<longrightarrow> 0 < a) \<and>
     pt_outstanding p = table_total (pt_reservations p)"

lemma pot_inv_new [simp]: "pot_inv pot_new"
  by (simp add: pot_inv_def pot_new_def)

lemma pot_reserve_inv:
  assumes "pot_inv p" and "map_of (pt_reservations p) k = None"
  shows "pot_inv (pot_reserve k a p)"
  using assms
  by (auto simp: pot_inv_def pot_reserve_def table_total_update held_def simp del: map_of_eq_Some_iff)

lemma pot_release_inv:
  assumes "pot_inv p"
  shows "pot_inv (pot_release k a p)"
  using assms
  by (auto simp: pot_inv_def pot_release_def table_total_update table_total_delete held_def Let_def
      simp del: map_of_eq_Some_iff split: option.splits)

lemma pot_release_all_inv:
  assumes "pot_inv p"
  shows "pot_inv (pot_release_all k p)"
  using assms
  by (auto simp: pot_inv_def pot_release_all_def table_total_delete held_def
      simp del: map_of_eq_Some_iff split: option.splits)

lemma pot_reserve_outstanding: "pt_outstanding (pot_reserve k a p) = pt_outstanding p + max a 0"
  by (simp add: pot_reserve_def)

lemma fold_reserve_outstanding:
  "pt_outstanding (fold (\<lambda>(k, a). pot_reserve k a) legs p) = pt_outstanding p + legs_total legs"
  by (induction legs arbitrary: p) (auto simp: legs_total_def pot_reserve_outstanding)

lemma pot_reserve_keys:
  "map_of (pt_reservations (pot_reserve k a p)) j = None \<longleftrightarrow>
    map_of (pt_reservations p) j = None \<and> (j = k \<longrightarrow> a \<le> 0)"
  by (auto simp: pot_reserve_def simp del: map_of_eq_None_iff)

lemma fold_reserve_inv:
  "pot_inv p \<Longrightarrow> distinct (map fst legs) \<Longrightarrow> \<forall>k \<in> fst ` set legs. map_of (pt_reservations p) k = None \<Longrightarrow>
   pot_inv (fold (\<lambda>(k, a). pot_reserve k a) legs p)"
proof (induction legs arbitrary: p)
  case (Cons leg legs)
  obtain k a where leg: "leg = (k, a)" by (cases leg)
  have "pot_inv (pot_reserve k a p)" using Cons.prems leg by (auto intro: pot_reserve_inv)
  moreover have "\<forall>j \<in> fst ` set legs. map_of (pt_reservations (pot_reserve k a p)) j = None"
  proof
    fix j assume j: "j \<in> fst ` set legs"
    then have "j \<noteq> k" using Cons.prems(2) leg by auto
    moreover have "map_of (pt_reservations p) j = None" using j Cons.prems(3) leg by auto
    ultimately show "map_of (pt_reservations (pot_reserve k a p)) j = None"
      by (simp add: pot_reserve_keys)
  qed
  ultimately show ?case using Cons.IH Cons.prems(2) by (simp add: leg)
qed simp

section \<open>The book as a machine\<close>

datatype va_op = VReserve string string "(string \<times> decimal) list" decimal
  | VRelease string string string decimal | VReleaseAll string string string

fun va_step :: "virtual_accounts \<Rightarrow> va_op \<Rightarrow> virtual_accounts" where
  "va_step v (VReserve ac st legs c) = fst (va_reserve_batch ac st legs c v)"
| "va_step v (VRelease ac st k a) = va_release ac st k a v"
| "va_step v (VReleaseAll ac st k) = va_release_all ac st k v"

lemma pot_mut_sel [simp]:
  "va_caps (pot_mut ac st f v) = va_caps v"
  "pot_of ac' st' (pot_mut ac st f v) = (if (ac', st') = (ac, st) then f (pot_of ac st v) else pot_of ac' st' v)"
  by (auto simp: pot_mut_def pot_of_def)

lemma va_used_pot: "va_used ac st v = pt_outstanding (pot_of ac st v)"
  by (simp add: va_used_def pot_of_def pot_used_def pot_new_def split: option.splits)

text \<open>Every operation either leaves the book alone or updates one pot of a governed scope.\<close>

lemma va_step_caps [simp]: "va_caps (va_step v x) = va_caps v"
  by (cases x) (simp_all add: va_reserve_batch_def va_release_def va_release_all_def split: sum.splits)

text \<open>The cap: entries are positive, and no governed pot holds more than its cap.\<close>

definition cap_inv :: "virtual_accounts \<Rightarrow> bool" where
  "cap_inv v \<longleftrightarrow> (\<forall>ac st k a. map_of (pt_reservations (pot_of ac st v)) k = Some a \<longrightarrow> 0 < a) \<and>
     (\<forall>ac st cap. map_of (va_caps v) (ac, st) = Some cap \<longrightarrow> va_used ac st v \<le> cap)"

lemma pot_release_le:
  assumes "\<forall>j b. map_of (pt_reservations p) j = Some b \<longrightarrow> 0 < b"
  shows "pt_outstanding (pot_release k a p) \<le> pt_outstanding p"
    and "\<forall>j b. map_of (pt_reservations (pot_release k a p)) j = Some b \<longrightarrow> 0 < b"
  using assms
  by (fastforce simp: pot_release_def Let_def simp del: map_of_eq_Some_iff split: option.splits)
    (use assms in \<open>auto simp: pot_release_def Let_def simp del: map_of_eq_Some_iff split: option.splits if_splits\<close>)

lemma pot_release_all_le:
  assumes "\<forall>j b. map_of (pt_reservations p) j = Some b \<longrightarrow> 0 < b"
  shows "pt_outstanding (pot_release_all k p) \<le> pt_outstanding p"
    and "\<forall>j b. map_of (pt_reservations (pot_release_all k p)) j = Some b \<longrightarrow> 0 < b"
  using assms
  by (fastforce simp: pot_release_all_def simp del: map_of_eq_Some_iff split: option.splits)
    (use assms in \<open>auto simp: pot_release_all_def simp del: map_of_eq_Some_iff split: option.splits if_splits\<close>)

lemma fold_reserve_positive:
  "\<forall>j b. map_of (pt_reservations p) j = Some b \<longrightarrow> 0 < b \<Longrightarrow>
   \<forall>j b. map_of (pt_reservations (fold (\<lambda>(k, a). pot_reserve k a) legs p)) j = Some b \<longrightarrow> 0 < b"
proof (induction legs arbitrary: p)
  case (Cons leg legs)
  obtain k a where leg: "leg = (k, a)" by (cases leg)
  have "\<forall>j b. map_of (pt_reservations (pot_reserve k a p)) j = Some b \<longrightarrow> 0 < b"
    using Cons.prems by (auto simp: pot_reserve_def simp del: map_of_eq_Some_iff split: if_splits)
  from Cons.IH [OF this] show ?case by (simp add: leg)
qed simp

text \<open>Operations that report a non-negative commitment elsewhere (a sum of cost bases).\<close>

fun committed_ok :: "va_op \<Rightarrow> bool" where
  "committed_ok (VReserve ac st legs c) = (0 \<le> c)"
| "committed_ok _ = True"

lemma pot_mut_cap_inv:
  assumes "cap_inv v"
    and "\<forall>j b. map_of (pt_reservations (f (pot_of ac st v))) j = Some b \<longrightarrow> 0 < b"
    and "\<And>cap. map_of (va_caps v) (ac, st) = Some cap \<Longrightarrow> pt_outstanding (f (pot_of ac st v)) \<le> cap"
  shows "cap_inv (pot_mut ac st f v)"
  using assms by (auto simp: cap_inv_def va_used_pot simp del: map_of_eq_Some_iff)

lemma va_step_cap_inv:
  assumes inv: "cap_inv v" and c: "committed_ok x"
  shows "cap_inv (va_step v x)"
proof (cases x)
  case (VReserve ac st legs c)
  let ?f = "fold (\<lambda>(k, a). pot_reserve k a) legs"
  show ?thesis
  proof (cases "governed ac st v \<and> batch_fits ac st legs c v = Inr ()")
    case True
    have "cap_inv (pot_mut ac st ?f v)"
    proof (rule pot_mut_cap_inv [OF inv])
      show "\<forall>j b. map_of (pt_reservations (?f (pot_of ac st v))) j = Some b \<longrightarrow> 0 < b"
        by (rule fold_reserve_positive) (use inv in \<open>auto simp: cap_inv_def simp del: map_of_eq_Some_iff\<close>)
    next
      fix cap assume "map_of (va_caps v) (ac, st) = Some cap"
      with True have "va_used ac st v + c + legs_total legs \<le> cap"
        by (auto simp: batch_fits_def Let_def split: if_splits)
      moreover have "0 \<le> c" using assms VReserve by simp
      ultimately show "pt_outstanding (?f (pot_of ac st v)) \<le> cap"
        by (simp add: fold_reserve_outstanding va_used_pot)
    qed
    with True VReserve show ?thesis by (simp add: va_reserve_batch_def)
  next
    case False
    then have "va_step v x = v"
      using VReserve by (auto simp: va_reserve_batch_def split: sum.splits)
    with inv show ?thesis by simp
  qed
next
  case (VRelease ac st k a)
  have pos: "\<forall>j b. map_of (pt_reservations (pot_of ac st v)) j = Some b \<longrightarrow> 0 < b"
    and le: "\<And>cap. map_of (va_caps v) (ac, st) = Some cap \<Longrightarrow> pt_outstanding (pot_of ac st v) \<le> cap"
    using inv by (auto simp: cap_inv_def va_used_pot simp del: map_of_eq_Some_iff)
  have "cap_inv (pot_mut ac st (pot_release k a) v)"
    using pot_release_le [OF pos, of k a] le by (intro pot_mut_cap_inv [OF inv]) (auto intro: order_trans)
  with inv VRelease show ?thesis by (simp add: va_release_def)
next
  case (VReleaseAll ac st k)
  have pos: "\<forall>j b. map_of (pt_reservations (pot_of ac st v)) j = Some b \<longrightarrow> 0 < b"
    and le: "\<And>cap. map_of (va_caps v) (ac, st) = Some cap \<Longrightarrow> pt_outstanding (pot_of ac st v) \<le> cap"
    using inv by (auto simp: cap_inv_def va_used_pot simp del: map_of_eq_Some_iff)
  have "cap_inv (pot_mut ac st (pot_release_all k) v)"
    using pot_release_all_le [OF pos, of k] le by (intro pot_mut_cap_inv [OF inv]) (auto intro: order_trans)
  with inv VReleaseAll show ?thesis by (simp add: va_release_all_def)
qed

interpretation cap_machine: invariant_machine "\<lambda>v x. if committed_ok x then va_step v x else v" cap_inv
  by unfold_locales (auto intro: va_step_cap_inv)

text \<open>The totals: every pot's running total is the sum of its table, while no held key is reserved
  again.\<close>

definition book_inv :: "virtual_accounts \<Rightarrow> bool" where
  "book_inv v \<longleftrightarrow> (\<forall>ac st. pot_inv (pot_of ac st v))"

fun keys_fresh :: "virtual_accounts \<Rightarrow> va_op \<Rightarrow> bool" where
  "keys_fresh v (VReserve ac st legs c) = (distinct (map fst legs) \<and>
     (\<forall>k \<in> fst ` set legs. map_of (pt_reservations (pot_of ac st v)) k = None))"
| "keys_fresh v _ = True"

lemma va_step_book_inv:
  assumes inv: "book_inv v" and fresh: "keys_fresh v x"
  shows "book_inv (va_step v x)"
proof (cases x)
  case (VReserve ac st legs c)
  have "pot_inv (fold (\<lambda>(k, a). pot_reserve k a) legs (pot_of ac st v))"
    using inv fresh VReserve by (intro fold_reserve_inv) (auto simp: book_inv_def)
  with inv VReserve show ?thesis
    by (auto simp: va_reserve_batch_def book_inv_def split: sum.splits)
qed (use inv in \<open>auto simp: va_release_def va_release_all_def book_inv_def pot_release_inv pot_release_all_inv\<close>)

interpretation book_machine: invariant_machine "\<lambda>v x. if keys_fresh v x then va_step v x else v" book_inv
  by unfold_locales (auto intro: va_step_book_inv)

section \<open>The configured book\<close>

definition limits_ok :: "(string \<times> virtual_limit) list \<Rightarrow> bool" where
  "limits_ok limits \<longleftrightarrow> (\<forall>(s, l) \<in> set limits. case vl_max_batch_notional_usd l of Some c \<Rightarrow> 0 \<le> c | None \<Rightarrow> True)"

definition empty_book :: "virtual_accounts \<Rightarrow> bool" where
  "empty_book v \<longleftrightarrow> (\<forall>ac st. pot_of ac st v = pot_new)"

definition configured :: "virtual_accounts \<Rightarrow> bool" where
  "configured v \<longleftrightarrow> empty_book v \<and> (\<forall>sc cap. map_of (va_caps v) sc = Some cap \<longrightarrow> 0 \<le> cap)"

lemma add_scope_configured: "configured v \<Longrightarrow> 0 \<le> cap \<Longrightarrow> configured (add_scope s cap ac v)"
  by (auto simp: configured_def add_scope_def empty_book_def pot_of_def)

lemma va_new_configured:
  assumes "limits_ok limits"
  shows "configured (va_new limits)"
proof -
  define f where "f = (\<lambda>(s :: string, l :: virtual_limit) v. case vl_max_batch_notional_usd l of None \<Rightarrow> v
    | Some cap \<Rightarrow> fold (add_scope s cap) (vl_accounts l) v)"
  have one: "configured (f sl v)" if "sl \<in> set limits" "configured v" for sl v
  proof -
    obtain s l where sl: "sl = (s, l)" by (cases sl)
    show ?thesis
    proof (cases "vl_max_batch_notional_usd l")
      case (Some cap)
      have "0 \<le> cap" using assms that(1) sl Some by (fastforce simp: limits_ok_def)
      then have "configured (fold (add_scope s cap) acs v)" for acs
        using that(2) by (induction acs arbitrary: v) (auto intro: add_scope_configured)
      then show ?thesis by (simp add: f_def sl Some)
    qed (simp add: f_def sl that(2))
  qed
  have "configured (fold f xs v)" if "set xs \<subseteq> set limits" "configured v" for xs v
    using that by (induction xs arbitrary: v) (auto intro: one)
  moreover have "configured \<lparr>va_pots = [], va_caps = []\<rparr>"
    by (simp add: configured_def empty_book_def pot_of_def)
  moreover have "va_new limits = fold f limits \<lparr>va_pots = [], va_caps = []\<rparr>"
    by (simp add: va_new_def f_def)
  ultimately show ?thesis by simp
qed

lemma configured_cap_inv: "configured v \<Longrightarrow> cap_inv v"
  by (auto simp: configured_def cap_inv_def empty_book_def va_used_pot pot_new_def)

lemma configured_book_inv: "configured v \<Longrightarrow> book_inv v"
  by (simp add: configured_def book_inv_def empty_book_def)

lemma run_caps: "va_caps (run (\<lambda>v x. if committed_ok x then va_step v x else v) v xs) = va_caps v"
  by (induction xs arbitrary: v) simp_all

section \<open>Properties\<close>

definition sample_limits :: "(string \<times> virtual_limit) list" where
  "sample_limits = [(''arb'', \<lparr>vl_max_batch_notional_usd = Some 100, vl_accounts = [''a1'', ''a2'']\<rparr>)]"

text \<open>A batch is all or nothing. A refused batch changes nothing; an accepted one on a governed
  scope raises that pot's use by exactly the sum of its legs, keeps use plus the commitment
  elsewhere within the cap, and touches no other pot; an ungoverned scope is transparent.\<close>

theorem va_batch_all_or_nothing:
  "case va_reserve_batch ac st legs c v of
     (v', Inl e) \<Rightarrow> v' = v
   | (v', Inr _) \<Rightarrow>
       va_caps v' = va_caps v \<and>
       (case va_cap ac st v of
          None \<Rightarrow> v' = v
        | Some cap \<Rightarrow>
            va_used ac st v' = va_used ac st v + legs_total legs \<and> va_used ac st v' + c \<le> cap \<and>
            (\<lambda>(a, s). pot_of a s v') = (\<lambda>(a, s). pot_of a s v)((ac, st) := pot_of ac st v'))"
proof (cases "va_cap ac st v")
  case None
  then show ?thesis by (simp add: va_reserve_batch_def governed_def va_cap_def)
next
  case (Some cap)
  then have g: "governed ac st v" "map_of (va_caps v) (ac, st) = Some cap"
    by (simp_all add: governed_def va_cap_def)
  show ?thesis
  proof (cases "va_used ac st v + c + legs_total legs > cap")
    case True
    with g show ?thesis by (simp add: va_reserve_batch_def batch_fits_def Let_def)
  next
    case False
    with g show ?thesis
      by (auto simp: va_reserve_batch_def batch_fits_def Let_def va_used_pot fold_reserve_outstanding
          va_cap_def fun_eq_iff)
  qed
qed

text \<open>The cap holds over any history. On a book built from non-negative caps, whatever batches
  are tried and whatever is released (held or not, once or repeatedly), no governed pot ever exceeds
  its cap.\<close>

theorem va_cap_never_exceeded:
  assumes "limits_ok limits" and "map_of (va_caps (va_new limits)) (ac, st) = Some cap"
  shows "va_used ac st (run va_step (va_new limits) (filter committed_ok ops)) \<le> cap"
proof -
  let ?v = "run va_step (va_new limits) (filter committed_ok ops)"
  have "cap_inv ?v"
    unfolding run_filter
    by (rule cap_machine.run_inv) (intro configured_cap_inv va_new_configured assms(1))
  moreover have "map_of (va_caps ?v) (ac, st) = Some cap"
    using assms(2) by (simp add: run_filter run_caps)
  ultimately show ?thesis by (simp add: cap_inv_def)
qed

theorem va_cap_never_exceeded_witness:
  "va_used ''a1'' ''arb'' (run va_step (va_new sample_limits) (filter committed_ok
     [VReserve ''a1'' ''arb'' [(''k1'', 60), (''k2'', 30)] 0, VReserve ''a1'' ''arb'' [(''k3'', 20)] 0])) \<le> 100"
  by (rule va_cap_never_exceeded) (simp_all add: sample_limits_def limits_ok_def va_new_def add_scope_def)

text \<open>While no key is reserved again before it is released, the running total of every pot is
  the sum of its table, over any history.\<close>

theorem va_total_matches_table:
  assumes "limits_ok limits"
  shows "va_used ac st (run (\<lambda>v x. if keys_fresh v x then va_step v x else v) (va_new limits) ops) =
    table_total (pt_reservations
      (pot_of ac st (run (\<lambda>v x. if keys_fresh v x then va_step v x else v) (va_new limits) ops)))"
proof -
  have "book_inv (run (\<lambda>v x. if keys_fresh v x then va_step v x else v) (va_new limits) ops)"
    by (rule book_machine.run_inv) (intro configured_book_inv va_new_configured assms)
  then show ?thesis by (simp add: book_inv_def pot_inv_def va_used_pot)
qed

theorem va_total_matches_table_witness:
  "\<exists>v. va_used ''a1'' ''arb'' v = table_total (pt_reservations (pot_of ''a1'' ''arb'' v)) \<and>
    v = run (\<lambda>v x. if keys_fresh v x then va_step v x else v) (va_new sample_limits)
      [VReserve ''a1'' ''arb'' [(''k1'', 60), (''k2'', 30)] 0, VRelease ''a1'' ''arb'' ''k1'' 20]"
  using va_total_matches_table [of sample_limits "''a1''" "''arb''"
      "[VReserve ''a1'' ''arb'' [(''k1'', 60), (''k2'', 30)] 0, VRelease ''a1'' ''arb'' ''k1'' 20]"]
  by (simp add: sample_limits_def limits_ok_def)

text \<open>Reserving a key that is still held breaks the total for good. The table entry is replaced
  while the total grows by the whole new amount, so releasing the key completely afterwards leaves
  the pot charged with the replaced amount although the key holds nothing.\<close>

theorem va_rereserve_leaks:
  assumes "pot_inv (pot_of ac st v)" and "map_of (pt_reservations (pot_of ac st v)) k = Some h"
    and "va_cap ac st v = Some cap" and "0 < a" and "va_used ac st v + a \<le> cap"
  defines "v' \<equiv> va_release_all ac st k (fst (va_reserve_batch ac st [(k, a)] 0 v))"
  shows "map_of (pt_reservations (pot_of ac st v')) k = None \<and>
    va_used ac st v' = table_total (pt_reservations (pot_of ac st v')) + h \<and> 0 < h"
proof -
  let ?p = "pot_of ac st v"
  have g: "governed ac st v" using assms(3) by (simp add: governed_def va_cap_def)
  have fits: "batch_fits ac st [(k, a)] 0 v = Inr ()"
    using assms(3-5) by (simp add: batch_fits_def va_cap_def Let_def legs_total_def)
  have p': "pot_of ac st v' = pot_release_all k (pot_reserve k a ?p)"
    using g fits by (simp add: v'_def va_reserve_batch_def va_release_all_def governed_def)
  have inv: "distinct (map fst (pt_reservations ?p))" "pt_outstanding ?p = table_total (pt_reservations ?p)"
    "0 < h"
    using assms(1,2) by (auto simp: pot_inv_def simp del: map_of_eq_Some_iff)
  have "pt_reservations (pot_of ac st v') = AList.delete k (AList.update k a (pt_reservations ?p))"
    "pt_outstanding (pot_of ac st v') = pt_outstanding ?p"
    using assms(4) by (simp_all add: p' pot_reserve_def pot_release_all_def)
  then show ?thesis
    using inv assms(2)
    by (simp add: va_used_pot table_total_delete table_total_update held_def)
qed

theorem va_rereserve_leaks_witness:
  "va_used ''a1'' ''arb'' (va_release_all ''a1'' ''arb'' ''k1''
     (fst (va_reserve_batch ''a1'' ''arb'' [(''k1'', 30)] 0
       \<lparr>va_pots = [((''a1'', ''arb''), \<lparr>pt_reservations = [(''k1'', 20)], pt_outstanding = 20\<rparr>)],
        va_caps = [((''a1'', ''arb''), 100)]\<rparr>))) = 20"
proof -
  let ?v = "\<lparr>va_pots = [((''a1'', ''arb''), \<lparr>pt_reservations = [(''k1'', 20)], pt_outstanding = 20\<rparr>)],
        va_caps = [((''a1'', ''arb''), 100)]\<rparr>"
  let ?v' = "va_release_all ''a1'' ''arb'' ''k1'' (fst (va_reserve_batch ''a1'' ''arb'' [(''k1'', 30)] 0 ?v))"
  have "va_used ''a1'' ''arb'' ?v' = table_total (pt_reservations (pot_of ''a1'' ''arb'' ?v')) + 20"
    using va_rereserve_leaks [of "''a1''" "''arb''" ?v "''k1''" 20 100 30]
    by (simp add: pot_of_def pot_inv_def va_cap_def va_used_def pot_used_def table_total_def)
  moreover have "pt_reservations (pot_of ''a1'' ''arb'' ?v') = []"
    by (simp add: va_release_all_def va_reserve_batch_def governed_def batch_fits_def legs_total_def
        va_used_def pot_used_def pot_of_def pot_mut_def pot_reserve_def pot_release_all_def Let_def)
  ultimately show ?thesis by simp
qed

end
