(* ===== verification/Fees.thy ===== *)
theory Fees
  imports Types
begin

text \<open>
  The taker-fee schedule, \<open>core/blitzkrieg_core/src/exit_fees.rs\<close>: the curve, its two unit views, the
  named schedules, and the set-once active schedule (the process-wide \<open>OnceLock\<close> is an option passed
  as state).
\<close>

record fee_schedule =
  fs_name :: string
  fs_rate :: decimal
  fs_exponent :: nat
  fs_source :: string

text \<open>The loop multiplies an accumulator, starting at one, \<open>exponent\<close> times.\<close>

definition fee_per_share :: "fee_schedule \<Rightarrow> decimal \<Rightarrow> decimal" where
  "fee_per_share s price =
    (if price \<le> 0 \<or> price \<ge> 1 then 0
     else let base = price * (1 - price)
       in fs_rate s * ((\<lambda>acc. acc * base) ^^ fs_exponent s) 1)"

definition fee_pct :: "dec_ops \<Rightarrow> fee_schedule \<Rightarrow> decimal \<Rightarrow> decimal" where
  "fee_pct D s price = (if price \<le> 0 then 0 else ddiv D (fee_per_share s price) price * 100)"

definition legacy_quadratic_schedule :: fee_schedule where
  "legacy_quadratic_schedule = \<lparr>fs_name = ''legacy_quadratic'', fs_rate = 125 / 1000, fs_exponent = 2,
     fs_source = ''history: unchanged since the fee was first charged; no external publication states this curve (see #203, fee-model.mjs)''\<rparr>"

definition official_schedule :: fee_schedule where
  "official_schedule = \<lparr>fs_name = ''official'', fs_rate = 7 / 100, fs_exponent = 1,
     fs_source = ''Polymarket docs, fees: fee = C x feeRate x p x (1-p); Crypto feeRate = 0.07, maker 0''\<rparr>"

definition FEE_SCHEDULE_NAMES :: "string list" where
  "FEE_SCHEDULE_NAMES = [''legacy_quadratic'', ''official'']"

definition fee_schedule_by_name :: "string \<Rightarrow> fee_schedule option" where
  "fee_schedule_by_name name =
    (if name = ''legacy_quadratic'' then Some legacy_quadratic_schedule
     else if name = ''official'' then Some official_schedule else None)"

definition pinned_fee_parameters :: "string \<Rightarrow> (decimal \<times> nat) option" where
  "pinned_fee_parameters name =
    (if name = ''legacy_quadratic'' then Some (125 / 1000, 2)
     else if name = ''official'' then Some (7 / 100, 1) else None)"

definition active_schedule :: "fee_schedule option \<Rightarrow> fee_schedule" where
  "active_schedule st = (case st of Some s \<Rightarrow> s | None \<Rightarrow> legacy_quadratic_schedule)"

definition set_fee_schedule ::
  "fee_schedule \<Rightarrow> fee_schedule option \<Rightarrow> fee_schedule option \<times> (message + unit)" where
  "set_fee_schedule s st = (case st of
     None \<Rightarrow> (Some s, Inr ())
   | Some _ \<Rightarrow> (st, Inl [Txt ''the taker-fee schedule is already set for this process'']))"

definition taker_fee_pct :: "dec_ops \<Rightarrow> fee_schedule option \<Rightarrow> decimal \<Rightarrow> decimal" where
  "taker_fee_pct D st price = fee_pct D (active_schedule st) price"

section \<open>The curve\<close>

lemma loop_power: "((\<lambda>acc. acc * b) ^^ n) a = a * b ^ n" for a b :: decimal
  by (induction n) (simp_all add: algebra_simps)

lemma fee_per_share_eq:
  "0 < p \<Longrightarrow> p < 1 \<Longrightarrow> fee_per_share s p = fs_rate s * (p * (1 - p)) ^ fs_exponent s"
  by (simp add: fee_per_share_def loop_power Let_def)

lemma quarter_bound: "0 < p \<Longrightarrow> p < 1 \<Longrightarrow> 0 \<le> p * (1 - p) \<and> p * (1 - p) \<le> 1 / 4" for p :: decimal
proof
  have "0 \<le> (p - 1/2) * (p - 1/2)" by simp
  then show "p * (1 - p) \<le> 1 / 4" by (simp add: algebra_simps)
qed simp

lemma fee_per_share_nonneg: "0 \<le> fs_rate s \<Longrightarrow> 0 \<le> fee_per_share s p"
  using quarter_bound [of p] fee_per_share_eq [of p s]
  by (cases "0 < p \<and> p < 1") (auto simp: fee_per_share_def not_less)

lemma fee_per_share_le: "0 \<le> fs_rate s \<Longrightarrow> fee_per_share s p \<le> fs_rate s * (1 / 4) ^ fs_exponent s"
proof (cases "0 < p \<and> p < 1")
  case True
  assume "0 \<le> fs_rate s"
  moreover have "(p * (1 - p)) ^ fs_exponent s \<le> (1 / 4) ^ fs_exponent s"
    using quarter_bound [of p] True by (intro power_mono) auto
  ultimately show ?thesis using fee_per_share_eq [of p s] True by (simp add: mult_left_mono)
next
  case False
  assume "0 \<le> fs_rate s"
  with False show ?thesis by (auto simp: fee_per_share_def)
qed

text \<open>The fee curve is a fee at every price: for a non-negative rate it is never negative, never
  above its mid-price value, zero at and beyond both ends of the price range, and symmetric between
  the two outcomes of a market.\<close>

theorem fee_curve_bounds:
  assumes "0 \<le> fs_rate s"
  shows "0 \<le> fee_per_share s p \<and> fee_per_share s p \<le> fee_per_share s (1/2) \<and>
    fee_per_share s (1 - p) = fee_per_share s p \<and> fee_per_share s 1 = 0 \<and> fee_per_share s 0 = 0"
proof -
  have "fee_per_share s (1/2) = fs_rate s * (1 / 4) ^ fs_exponent s"
    using fee_per_share_eq [of "1/2" s] by simp
  then show ?thesis
    using fee_per_share_nonneg [OF assms, of p] fee_per_share_le [OF assms, of p]
    by (auto simp: fee_per_share_def Let_def algebra_simps)
qed

theorem fee_curve_bounds_witness:
  "fee_per_share legacy_quadratic_schedule (3/10) \<le> fee_per_share legacy_quadratic_schedule (1/2)"
  using fee_curve_bounds [of legacy_quadratic_schedule "3/10"]
  by (simp add: legacy_quadratic_schedule_def)

end
