(* ===== verification/ExitPolicy.thy ===== *)
theory ExitPolicy
  imports Fees
begin

text \<open>
  The exit policy, \<open>core/blitzkrieg_core/src/exit_policy.rs\<close>: the configuration, the stop and trail
  tables, the prices a rule may judge on and an order may be priced at, the update of a position's
  exit state from a book, and the pure exit decision. A book is its scalar projection \<open>book_view\<close>; the
  trait \<open>BookScalarView\<close> is that record's selectors. \<open>saturating_sub\<close> of two times is their
  difference.
\<close>

section \<open>Configuration\<close>

record exit_config =
  xc_force_exit_sec :: int
  xc_min_time_left_sec :: int
  xc_take_profit_pct :: decimal
  xc_stop_loss_pct :: decimal
  xc_holder_stop_pct :: decimal
  xc_simple_exit_enabled :: bool
  xc_dynamic_stop_enabled :: bool
  xc_stop_tighten_start_sec :: int
  xc_stop_min_pct :: decimal
  xc_trailing_enabled :: bool
  xc_trailing_min_high_pct :: decimal
  xc_min_trail_pct :: decimal
  xc_proportional_trail_enabled :: bool
  xc_proportional_trail_pct :: decimal
  xc_proportional_trail_min_pct :: decimal
  xc_proportional_trail_min_giveback_pct :: decimal
  xc_tight_stop_enabled :: bool
  xc_tight_stop_pct :: decimal
  xc_ratchet_enabled :: bool
  xc_ratchet_confirm_ticks :: nat
  xc_ratchet_confirm_tolerance_pct :: decimal
  xc_max_bid_wick_pct :: decimal
  xc_max_last_price_age_sec :: int
  xc_stale_profit_pct :: decimal
  xc_stale_profit_bid_unchanged_sec :: int
  xc_stagnant_profit_pct :: decimal
  xc_stagnant_duration_sec :: int
  xc_depth_collapse_threshold_pct :: decimal
  xc_exit_grace_sec :: int
  xc_maker_exits_for_tp_only :: bool
  xc_maker_first_exit_enabled :: bool
  xc_strategy_exit_maker_first :: bool
  xc_exit_maker_timeout_ms :: int
  xc_max_book_age_sec :: int

definition QUOTE_TRUST_SEC :: int where
  "QUOTE_TRUST_SEC = 30"

definition BOOK_TRUST_SEC :: int where
  "BOOK_TRUST_SEC = QUOTE_TRUST_SEC * 2"

definition HOLDS_STOP_PCT :: decimal where
  "HOLDS_STOP_PCT = 50"

definition exit_config_default :: exit_config where
  "exit_config_default = \<lparr>xc_force_exit_sec = 0, xc_min_time_left_sec = 0, xc_take_profit_pct = 100,
     xc_stop_loss_pct = 12, xc_holder_stop_pct = HOLDS_STOP_PCT, xc_simple_exit_enabled = True,
     xc_dynamic_stop_enabled = True, xc_stop_tighten_start_sec = 300, xc_stop_min_pct = 10,
     xc_trailing_enabled = False, xc_trailing_min_high_pct = 15, xc_min_trail_pct = 8,
     xc_proportional_trail_enabled = True, xc_proportional_trail_pct = 15,
     xc_proportional_trail_min_pct = 15, xc_proportional_trail_min_giveback_pct = 3,
     xc_tight_stop_enabled = True, xc_tight_stop_pct = 12, xc_ratchet_enabled = False,
     xc_ratchet_confirm_ticks = 3, xc_ratchet_confirm_tolerance_pct = 5 / 10,
     xc_max_bid_wick_pct = 8, xc_max_last_price_age_sec = QUOTE_TRUST_SEC, xc_stale_profit_pct = 20,
     xc_stale_profit_bid_unchanged_sec = 10, xc_stagnant_profit_pct = 5,
     xc_stagnant_duration_sec = 30, xc_depth_collapse_threshold_pct = 60, xc_exit_grace_sec = 3,
     xc_maker_exits_for_tp_only = False, xc_maker_first_exit_enabled = True,
     xc_strategy_exit_maker_first = False, xc_exit_maker_timeout_ms = 250,
     xc_max_book_age_sec = BOOK_TRUST_SEC\<rparr>"

definition holder_view :: "exit_config \<Rightarrow> exit_config" where
  "holder_view c = c\<lparr>xc_stop_loss_pct := xc_holder_stop_pct c, xc_stop_min_pct := xc_holder_stop_pct c,
     xc_tight_stop_pct := xc_holder_stop_pct c\<rparr>"

section \<open>Tables\<close>

definition RATCHET_TABLE :: "(int \<times> int) list" where
  "RATCHET_TABLE = [(100, 94), (50, 44), (40, 35), (30, 25), (25, 20), (20, 15), (15, 10), (10, 6),
     (8, 4), (6, 3), (5, 2), (4, 1), (3, 0), (2, - 2), (1, - 4)]"

definition RATCHET_DEFAULT_FLOOR :: int where
  "RATCHET_DEFAULT_FLOOR = - 12"

fun ratchet_lookup :: "(int \<times> int) list \<Rightarrow> decimal \<Rightarrow> decimal" where
  "ratchet_lookup [] h = of_int RATCHET_DEFAULT_FLOOR"
| "ratchet_lookup ((threshold, fl) # rest) h =
    (if h \<ge> of_int threshold then of_int fl else ratchet_lookup rest h)"

definition get_ratchet_floor :: "decimal \<Rightarrow> decimal" where
  "get_ratchet_floor h = ratchet_lookup RATCHET_TABLE h"

definition profit_trail_table :: "decimal \<Rightarrow> decimal" where
  "profit_trail_table h =
    (if h \<ge> 50 then 15 else if h \<ge> 30 then 12 else if h \<ge> 20 then 9 else if h \<ge> 10 then 6
     else if h \<ge> 5 then 4 else if h \<ge> 3 then 3 else 2)"

definition get_profit_trail_pct :: "dec_ops \<Rightarrow> decimal \<Rightarrow> exit_config \<Rightarrow> decimal" where
  "get_profit_trail_pct D h cfg =
    (let tab = profit_trail_table h in
     if xc_proportional_trail_enabled cfg \<and> h \<ge> xc_proportional_trail_min_pct cfg
     then let prop = h * ddiv D (xc_proportional_trail_pct cfg) 100
       in max (xc_proportional_trail_min_giveback_pct cfg) (min tab prop)
     else tab)"

definition get_time_trail_pct :: "int \<Rightarrow> decimal" where
  "get_time_trail_pct time_left = (if time_left > 420 then 12 else if time_left > 180 then 8 else 6)"

definition effective_stop_pct :: "dec_ops \<Rightarrow> decimal \<Rightarrow> int \<Rightarrow> exit_config \<Rightarrow> decimal" where
  "effective_stop_pct D base time_left cfg =
    (if \<not> xc_dynamic_stop_enabled cfg then base
     else
       let start = xc_stop_tighten_start_sec cfg;
           floor_t = min (xc_force_exit_sec cfg) (max (start - 1) 1);
           min_pct = min base (xc_stop_min_pct cfg)
       in if time_left \<ge> start then base
          else if time_left \<le> floor_t then min_pct
          else min_pct + (base - min_pct) *
            ddiv D (of_int (time_left - floor_t)) (of_int (start - floor_t)))"

definition holder_effective_stop_pct :: "dec_ops \<Rightarrow> int \<Rightarrow> exit_config \<Rightarrow> decimal" where
  "holder_effective_stop_pct D time_left cfg =
    effective_stop_pct D (xc_holder_stop_pct cfg) time_left (holder_view cfg)"

section \<open>State and prices\<close>

record exit_state =
  es_high_pnl_pct :: decimal
  es_low_pnl_pct :: decimal
  es_was_ever_positive :: bool
  es_high_water_mark :: decimal
  es_hwm_confirm_count :: nat
  es_confirmed_high :: decimal
  es_last_bid_price :: decimal
  es_bid_unchanged_since :: int
  es_last_quote_at_ms :: int
  es_last_progress_at :: int
  es_last_progress_pct :: decimal
  es_initial_depth :: decimal

definition exit_state_new :: "decimal \<Rightarrow> int \<Rightarrow> exit_state" where
  "exit_state_new entry_price now =
    \<lparr>es_high_pnl_pct = 0, es_low_pnl_pct = 0, es_was_ever_positive = False,
     es_high_water_mark = entry_price, es_hwm_confirm_count = 0, es_confirmed_high = entry_price,
     es_last_bid_price = entry_price, es_bid_unchanged_since = now, es_last_quote_at_ms = now,
     es_last_progress_at = now, es_last_progress_pct = 0, es_initial_depth = 0\<rparr>"

definition pnl_pct :: "dec_ops \<Rightarrow> decimal \<Rightarrow> decimal \<Rightarrow> decimal" where
  "pnl_pct D price entry_price =
    (if entry_price > 0 then ddiv D (price - entry_price) entry_price * 100 else 0)"

record book_view =
  bv_bid_depth :: decimal
  bv_ask_depth :: decimal
  bv_best_bid :: decimal
  bv_best_ask :: decimal
  bv_mid_price :: decimal
  bv_timestamp :: int
  bv_has_bids :: bool
  bv_has_asks :: bool

text \<open>The mirrored book of the simulated matcher: levels as price and size, in no order.\<close>

record sim_book =
  sb_bids :: "(decimal \<times> decimal) list"
  sb_asks :: "(decimal \<times> decimal) list"

definition book_view_from_book :: "dec_ops \<Rightarrow> sim_book \<Rightarrow> int \<Rightarrow> book_view" where
  "book_view_from_book D b timestamp =
    (let bids = map fst (sb_bids b); asks = map fst (sb_asks b);
         best_bid = (case bids of [] \<Rightarrow> 0 | p # ps \<Rightarrow> foldl max p ps);
         best_ask = (case asks of [] \<Rightarrow> 1 | p # ps \<Rightarrow> foldl min p ps);
         both = (bids \<noteq> [] \<and> asks \<noteq> [] \<and> best_bid > 0 \<and> best_ask > 0)
     in \<lparr>bv_bid_depth = sum_list (map snd (sb_bids b)), bv_ask_depth = sum_list (map snd (sb_asks b)),
         bv_best_bid = best_bid, bv_best_ask = best_ask,
         bv_mid_price = (if both then ddiv D (best_bid + best_ask) 2 else 0),
         bv_timestamp = timestamp, bv_has_bids = (bids \<noteq> []), bv_has_asks = (asks \<noteq> [])\<rparr>)"

definition executable_bid :: "book_view option \<Rightarrow> decimal" where
  "executable_bid book = (case book of
     None \<Rightarrow> 0
   | Some b \<Rightarrow> if bv_best_bid b > 0 then bv_best_bid b else 0)"

definition reference_price :: "book_view option \<Rightarrow> decimal \<Rightarrow> decimal" where
  "reference_price book fallback = (case book of
     Some b \<Rightarrow> if bv_best_bid b > 0 then bv_best_bid b
              else if bv_mid_price b > 0 then bv_mid_price b else fallback
   | None \<Rightarrow> fallback)"

definition book_age_ms :: "book_view \<Rightarrow> int \<Rightarrow> int option" where
  "book_age_ms b now = (if bv_timestamp b > 0 then Some (now - bv_timestamp b) else None)"

definition book_is_fresh :: "book_view \<Rightarrow> int \<Rightarrow> exit_config \<Rightarrow> bool" where
  "book_is_fresh b now cfg = (case book_age_ms b now of
     Some age \<Rightarrow> age \<le> xc_max_book_age_sec cfg * 1000
   | None \<Rightarrow> True)"

datatype stop_ref_source = RefBid | RefMid | RefAsk | RefLastKnown

record stop_reference_t =
  sr_price :: decimal
  sr_source :: stop_ref_source
  sr_suppressed_bid :: "decimal option"

record suppressed_stop =
  ss_bid :: decimal
  ss_mid :: decimal
  ss_pnl_pct_at_bid :: decimal
  ss_pnl_pct_at_mid :: decimal
  ss_stop_pct :: decimal

record exit_decision =
  xd_reason :: exit_reason
  xd_use_maker :: bool

record exit_verdict =
  ev_decision :: "exit_decision option"
  ev_suppressed_stop :: "suppressed_stop option"
  ev_stop_reference :: "stop_reference_t option"

definition verdict_exit :: "exit_reason \<Rightarrow> bool \<Rightarrow> stop_reference_t option \<Rightarrow> exit_verdict" where
  "verdict_exit reason use_maker judged = \<lparr>ev_decision = Some \<lparr>xd_reason = reason, xd_use_maker = use_maker\<rparr>,
     ev_suppressed_stop = None, ev_stop_reference = judged\<rparr>"

definition verdict_hold :: exit_verdict where
  "verdict_hold = \<lparr>ev_decision = None, ev_suppressed_stop = None, ev_stop_reference = None\<rparr>"

definition within_trust :: "exit_state \<Rightarrow> int \<Rightarrow> exit_config \<Rightarrow> bool" where
  "within_trust s now cfg \<longleftrightarrow> now - es_last_quote_at_ms s \<le> max (xc_max_last_price_age_sec cfg) 1 * 1000"

definition positive_price :: "decimal option \<Rightarrow> decimal option" where
  "positive_price fallback = (case fallback of Some p \<Rightarrow> if p > 0 then Some p else None | None \<Rightarrow> None)"

definition last_known_price :: "decimal option \<Rightarrow> exit_state \<Rightarrow> int \<Rightarrow> exit_config \<Rightarrow> decimal option" where
  "last_known_price fallback s now cfg = (case positive_price fallback of
     None \<Rightarrow> None
   | Some p \<Rightarrow> if es_last_quote_at_ms s \<le> 0 then Some p
              else if within_trust s now cfg then Some p else None)"

definition profit_reference ::
  "book_view option \<Rightarrow> decimal option \<Rightarrow> exit_state \<Rightarrow> int \<Rightarrow> exit_config \<Rightarrow> decimal option" where
  "profit_reference book fallback s now cfg =
    (let from_book = reference_price book 0 in
     if from_book > 0 then Some from_book
     else case positive_price fallback of
       None \<Rightarrow> None
     | Some p \<Rightarrow> if es_last_quote_at_ms s \<le> 0 then None
                else if within_trust s now cfg then Some p else None)"

definition best_live_ask :: "book_view \<Rightarrow> decimal option" where
  "best_live_ask b = (if bv_has_asks b \<and> bv_best_ask b > 0 then Some (bv_best_ask b) else None)"

definition last_known_reference ::
  "decimal option \<Rightarrow> exit_state \<Rightarrow> int \<Rightarrow> exit_config \<Rightarrow> stop_reference_t option" where
  "last_known_reference fallback s now cfg = map_option
     (\<lambda>p. \<lparr>sr_price = p, sr_source = RefLastKnown, sr_suppressed_bid = None\<rparr>)
     (last_known_price fallback s now cfg)"

definition stop_reference ::
  "dec_ops \<Rightarrow> book_view option \<Rightarrow> decimal option \<Rightarrow> exit_state \<Rightarrow> int \<Rightarrow> exit_config
     \<Rightarrow> stop_reference_t option" where
  "stop_reference D book fallback s now cfg = (case book of
     None \<Rightarrow> last_known_reference fallback s now cfg
   | Some b \<Rightarrow>
       if bv_best_bid b > 0
       then if bv_mid_price b > 0 \<and>
               ddiv D (bv_mid_price b - bv_best_bid b) (bv_mid_price b) > ddiv D (xc_max_bid_wick_pct cfg) 100
            then Some \<lparr>sr_price = bv_mid_price b, sr_source = RefMid, sr_suppressed_bid = Some (bv_best_bid b)\<rparr>
            else Some \<lparr>sr_price = bv_best_bid b, sr_source = RefBid, sr_suppressed_bid = None\<rparr>
       else case best_live_ask b of
         Some ask \<Rightarrow> Some \<lparr>sr_price = (case last_known_price fallback s now cfg of
                None \<Rightarrow> ask | Some known \<Rightarrow> min known ask),
              sr_source = RefAsk, sr_suppressed_bid = None\<rparr>
       | None \<Rightarrow> last_known_reference fallback s now cfg)"

datatype stop_verdict_t = StopFire | StopSuppressed suppressed_stop | StopNothing

definition stop_verdict :: "dec_ops \<Rightarrow> decimal \<Rightarrow> decimal \<Rightarrow> stop_reference_t option \<Rightarrow> stop_verdict_t" where
  "stop_verdict D entry_price stop_pct reference = (case reference of
     None \<Rightarrow> StopNothing
   | Some r \<Rightarrow>
       let pct = pnl_pct D (sr_price r) entry_price in
       if pct \<le> - stop_pct then StopFire
       else case sr_suppressed_bid r of
         None \<Rightarrow> StopNothing
       | Some bid \<Rightarrow>
           let at_bid = pnl_pct D bid entry_price in
           if at_bid \<le> - stop_pct
           then StopSuppressed \<lparr>ss_bid = bid, ss_mid = sr_price r, ss_pnl_pct_at_bid = at_bid,
                  ss_pnl_pct_at_mid = pct, ss_stop_pct = stop_pct\<rparr>
           else StopNothing)"

section \<open>The update of the exit state\<close>

definition REPLAY_TICK_BOUNDARY_MS :: int where
  "REPLAY_TICK_BOUNDARY_MS = 1"

definition U32_MAX :: nat where
  "U32_MAX = 4294967295"

definition u32_saturating_add :: "nat \<Rightarrow> nat \<Rightarrow> nat" where
  "u32_saturating_add a b = min (a + b) U32_MAX"

definition skipped_boundaries :: "int \<Rightarrow> int \<Rightarrow> int \<Rightarrow> nat" where
  "skipped_boundaries now last_run tick =
    (if last_run \<ge> now then 0
     else let gap = nat (max (now - last_run) 0);
              step = (if tick > 0 then nat tick else nat REPLAY_TICK_BOUNDARY_MS)
       in (gap - 1) div max step 1)"

definition near_high :: "dec_ops \<Rightarrow> decimal \<Rightarrow> exit_state \<Rightarrow> exit_config \<Rightarrow> bool" where
  "near_high D v s cfg \<longleftrightarrow> es_high_water_mark s > 0 \<and>
     ddiv D \<bar>v - es_high_water_mark s\<bar> (es_high_water_mark s) * 100 < xc_ratchet_confirm_tolerance_pct cfg"

text \<open>The steps of the update on a usable bid \<open>v\<close>, in the order of the code: the stamps and extremes,
  the high-water mark and its confirmation counter, the depth, the bid's age and the progress.\<close>

definition note_pnl :: "decimal \<Rightarrow> int \<Rightarrow> exit_state \<Rightarrow> exit_state" where
  "note_pnl pct now s = s\<lparr>es_last_quote_at_ms := now,
     es_high_pnl_pct := (if pct > es_high_pnl_pct s then pct else es_high_pnl_pct s),
     es_low_pnl_pct := (if pct < es_low_pnl_pct s then pct else es_low_pnl_pct s),
     es_was_ever_positive := (es_was_ever_positive s \<or> pct > 0)\<rparr>"

definition note_high :: "dec_ops \<Rightarrow> decimal \<Rightarrow> nat \<Rightarrow> exit_config \<Rightarrow> exit_state \<Rightarrow> exit_state" where
  "note_high D v skipped cfg s =
    (if v > es_high_water_mark s then s\<lparr>es_high_water_mark := v, es_hwm_confirm_count := 1\<rparr>
     else if near_high D v s cfg
     then let n = u32_saturating_add
                (u32_saturating_add (es_hwm_confirm_count s) (min skipped (U32_MAX - 1))) 1;
              s1 = s\<lparr>es_hwm_confirm_count := n\<rparr>
       in if n \<ge> xc_ratchet_confirm_ticks cfg then s1\<lparr>es_confirmed_high := es_high_water_mark s\<rparr> else s1
     else s\<lparr>es_hwm_confirm_count := 0\<rparr>)"

definition note_depth :: "book_view \<Rightarrow> exit_state \<Rightarrow> exit_state" where
  "note_depth b s = (if es_initial_depth s = 0 then s\<lparr>es_initial_depth := bv_bid_depth b + bv_ask_depth b\<rparr>
     else s)"

definition note_bid :: "book_view \<Rightarrow> int \<Rightarrow> exit_state \<Rightarrow> exit_state" where
  "note_bid b now s = (if bv_best_bid b \<noteq> es_last_bid_price s
     then s\<lparr>es_last_bid_price := bv_best_bid b, es_bid_unchanged_since := now\<rparr> else s)"

definition note_progress :: "decimal \<Rightarrow> int \<Rightarrow> exit_state \<Rightarrow> exit_state" where
  "note_progress pct now s = (if \<bar>pct - es_last_progress_pct s\<bar> > 1
     then s\<lparr>es_last_progress_at := now, es_last_progress_pct := pct\<rparr> else s)"

definition update_exit_state_interval ::
  "dec_ops \<Rightarrow> decimal \<Rightarrow> book_view option \<Rightarrow> int \<Rightarrow> exit_config \<Rightarrow> int \<Rightarrow> int \<Rightarrow> exit_state \<Rightarrow> exit_state" where
  "update_exit_state_interval D entry_price book now cfg last_run tick s = (case book of
     None \<Rightarrow> s
   | Some b \<Rightarrow>
       if entry_price \<le> 0 then s
       else let v = executable_bid (Some b) in
         if v \<le> 0 then s
         else let pct = pnl_pct D v entry_price in
           note_progress pct now (note_bid b now (note_depth b
             (note_high D v (skipped_boundaries now last_run tick) cfg (note_pnl pct now s)))))"

definition update_exit_state ::
  "dec_ops \<Rightarrow> decimal \<Rightarrow> book_view option \<Rightarrow> int \<Rightarrow> exit_config \<Rightarrow> exit_state \<Rightarrow> exit_state" where
  "update_exit_state D entry_price book now cfg s =
    update_exit_state_interval D entry_price book now cfg now REPLAY_TICK_BOUNDARY_MS s"

definition update_exit_state_interval_2x ::
  "dec_ops \<Rightarrow> decimal \<Rightarrow> book_view option \<Rightarrow> int \<Rightarrow> exit_config \<Rightarrow> int \<Rightarrow> int \<Rightarrow> exit_state \<Rightarrow> exit_state" where
  "update_exit_state_interval_2x D entry_price book now cfg last_run tick s =
    update_exit_state_interval D entry_price book now cfg last_run (2 * tick) s"

section \<open>The decision\<close>

record exit_tick_input =
  xi_entry_price :: decimal
  xi_book :: "book_view option"
  xi_fallback_price :: "decimal option"
  xi_time_left_sec :: int
  xi_hold_sec :: int
  xi_state :: exit_state
  xi_now_ms :: int
  xi_cfg :: exit_config

definition BREAKEVEN_LOCK_TRIGGER_PCT :: int where
  "BREAKEVEN_LOCK_TRIGGER_PCT = 3"

text \<open>The rules in order, as a first match: a rule gives a verdict or passes.\<close>

fun first_verdict :: "exit_verdict option list \<Rightarrow> exit_verdict \<Rightarrow> exit_verdict" where
  "first_verdict [] dflt = dflt"
| "first_verdict (None # rs) dflt = first_verdict rs dflt"
| "first_verdict (Some v # rs) dflt = v"

definition rule_exit :: "bool \<Rightarrow> exit_reason \<Rightarrow> bool \<Rightarrow> exit_verdict option" where
  "rule_exit c reason use_maker = (if c then Some (verdict_exit reason use_maker None) else None)"

text \<open>The stop's place in the ladder: what it decides, and what it reports as withheld.\<close>

definition stop_rule :: "stop_verdict_t \<Rightarrow> stop_reference_t option \<Rightarrow> exit_verdict option" where
  "stop_rule v stop_ref = (case v of
     StopFire \<Rightarrow> Some (verdict_exit StopLoss False stop_ref) | _ \<Rightarrow> None)"

definition stop_withheld :: "stop_verdict_t \<Rightarrow> suppressed_stop option" where
  "stop_withheld v = (case v of StopSuppressed s \<Rightarrow> Some s | _ \<Rightarrow> None)"

definition trailing_fires :: "dec_ops \<Rightarrow> decimal \<Rightarrow> int \<Rightarrow> exit_state \<Rightarrow> exit_config \<Rightarrow> bool" where
  "trailing_fires D pct time_left s cfg \<longleftrightarrow>
     xc_trailing_enabled cfg \<and> es_high_pnl_pct s \<ge> xc_trailing_min_high_pct cfg \<and>
     es_high_pnl_pct s - pct \<ge> max (xc_min_trail_pct cfg)
       (min (get_profit_trail_pct D (es_high_pnl_pct s) cfg) (get_time_trail_pct time_left))"

definition simple_verdict ::
  "dec_ops \<Rightarrow> exit_tick_input \<Rightarrow> stop_reference_t option \<Rightarrow> decimal option \<Rightarrow> exit_verdict" where
  "simple_verdict D i stop_ref judge =
    (let cfg = xi_cfg i; t = xi_time_left_sec i; s = xi_state i;
         pct = (case judge of None \<Rightarrow> 0 | Some p \<Rightarrow> pnl_pct D p (xi_entry_price i));
         tp = xc_take_profit_pct cfg;
         sv = stop_verdict D (xi_entry_price i)
           (effective_stop_pct D (xc_stop_loss_pct cfg) t cfg) stop_ref
     in first_verdict
       [rule_exit (judge \<noteq> None \<and> tp > 0 \<and> tp < 9999 \<and> pct \<ge> tp) TakeProfit (xc_maker_first_exit_enabled cfg),
        stop_rule sv stop_ref,
        rule_exit (judge \<noteq> None \<and> trailing_fires D pct t s cfg) TrailingStop False,
        rule_exit (judge \<noteq> None \<and> t \<le> xc_min_time_left_sec cfg) TimeExit False]
       \<lparr>ev_decision = None, ev_suppressed_stop = stop_withheld sv, ev_stop_reference = stop_ref\<rparr>)"

definition depth_collapsed :: "dec_ops \<Rightarrow> book_view option \<Rightarrow> decimal \<Rightarrow> decimal \<Rightarrow> exit_state \<Rightarrow> exit_config \<Rightarrow> bool" where
  "depth_collapsed D book judge pct s cfg \<longleftrightarrow> (case book of
     None \<Rightarrow> False
   | Some b \<Rightarrow> es_initial_depth s > 0 \<and>
       ddiv D (bv_bid_depth b + bv_ask_depth b - es_initial_depth s) (es_initial_depth s) * 100
         \<le> - xc_depth_collapse_threshold_pct cfg \<and>
       judge < es_high_water_mark s \<and> pct \<ge> 2)"

definition profit_rules ::
  "dec_ops \<Rightarrow> fee_schedule option \<Rightarrow> exit_tick_input \<Rightarrow> decimal \<Rightarrow> exit_verdict option list" where
  "profit_rules D fees i judge =
    (let cfg = xi_cfg i; t = xi_time_left_sec i; s = xi_state i; now = xi_now_ms i;
         pct = pnl_pct D judge (xi_entry_price i)
     in [rule_exit (xc_ratchet_enabled cfg \<and>
           pct \<le> get_ratchet_floor (pnl_pct D (es_confirmed_high s) (xi_entry_price i))) RatchetFloor False,
         rule_exit (es_high_pnl_pct s \<ge> of_int BREAKEVEN_LOCK_TRIGGER_PCT \<and>
           pct \<le> max (5 / 10) (taker_fee_pct D fees judge + 2 / 10)) BreakevenLock False,
         rule_exit (trailing_fires D pct t s cfg) TrailingStop False,
         rule_exit (depth_collapsed D (xi_book i) judge pct s cfg) DepthCollapse False,
         rule_exit (pct \<ge> xc_stale_profit_pct cfg \<and>
           tdiv (now - es_bid_unchanged_since s) 1000 \<ge> xc_stale_profit_bid_unchanged_sec cfg)
           StaleProfit True,
         rule_exit (pct \<ge> xc_stagnant_profit_pct cfg \<and> pct < xc_take_profit_pct cfg \<and>
           tdiv (now - es_last_progress_at s) 1000 \<ge> xc_stagnant_duration_sec cfg)
           StagnantProfit True,
         rule_exit (t \<le> xc_min_time_left_sec cfg) TimeExit (xc_maker_exits_for_tp_only cfg)])"

definition full_verdict ::
  "dec_ops \<Rightarrow> fee_schedule option \<Rightarrow> exit_tick_input \<Rightarrow> stop_reference_t option \<Rightarrow> decimal option \<Rightarrow> exit_verdict" where
  "full_verdict D fees i stop_ref judge =
    (let cfg = xi_cfg i;
         pct = (case judge of None \<Rightarrow> 0 | Some p \<Rightarrow> pnl_pct D p (xi_entry_price i));
         base = (if xc_tight_stop_enabled cfg then xc_tight_stop_pct cfg else xc_stop_loss_pct cfg);
         sv = stop_verdict D (xi_entry_price i)
           (effective_stop_pct D base (xi_time_left_sec i) cfg) stop_ref
     in if xi_hold_sec i < xc_exit_grace_sec cfg then verdict_hold
        else first_verdict
          ([rule_exit (judge \<noteq> None \<and> pct \<ge> xc_take_profit_pct cfg) TakeProfit (xc_maker_first_exit_enabled cfg),
            stop_rule sv stop_ref] @
           (case judge of None \<Rightarrow> [] | Some j \<Rightarrow> profit_rules D fees i j))
          \<lparr>ev_decision = None, ev_suppressed_stop = stop_withheld sv, ev_stop_reference = stop_ref\<rparr>)"

definition decide_exit_verdict :: "dec_ops \<Rightarrow> fee_schedule option \<Rightarrow> exit_tick_input \<Rightarrow> exit_verdict" where
  "decide_exit_verdict D fees i =
    (let cfg = xi_cfg i; bid = executable_bid (xi_book i); live = (bid > 0); t = xi_time_left_sec i in
     if xi_entry_price i \<le> 0 then verdict_hold
     else if xc_force_exit_sec cfg > 0 \<and> t \<le> xc_force_exit_sec cfg
     then if \<not> live then verdict_hold else verdict_exit ForceExit False None
     else if xc_force_exit_sec cfg \<le> 0 \<and> t \<le> 0 then verdict_hold
     else
       let stop_ref = stop_reference D (xi_book i) (xi_fallback_price i) (xi_state i) (xi_now_ms i) cfg;
           judge = (if live then Some bid
             else profit_reference (xi_book i) (xi_fallback_price i) (xi_state i) (xi_now_ms i) cfg)
       in if judge = None \<and> stop_ref = None then verdict_hold
          else if xc_simple_exit_enabled cfg then simple_verdict D i stop_ref judge
          else full_verdict D fees i stop_ref judge)"

definition decide_exit :: "dec_ops \<Rightarrow> fee_schedule option \<Rightarrow> exit_tick_input \<Rightarrow> exit_decision option" where
  "decide_exit D fees i = ev_decision (decide_exit_verdict D fees i)"

end
