(* ===== verification/Position.thy ===== *)
theory Position
  imports ExitPolicy
begin

text \<open>
  The position manager, \<open>core/blitzkrieg_core/src/position/\<close> (\<open>mod.rs\<close>, \<open>open.rs\<close>, \<open>book.rs\<close>,
  \<open>daily.rs\<close>): open positions and the cash flows they accrue, the close that settles them, the merge
  of complete pairs, the entry gate, and the per-account daily-loss budget. The exit sweep
  (\<open>exits.rs\<close>) is the theory \<open>PositionExits\<close>, the rules it applies are \<open>ExitPolicy\<close>. Divisions of
  decimals go through the parameter \<open>D\<close>.
\<close>

section \<open>Arithmetic helpers\<close>

definition share_grid :: decimal where
  "share_grid = 1 / 100"

definition floor_to_grid :: "dec_ops \<Rightarrow> decimal \<Rightarrow> decimal" where
  "floor_to_grid D v = of_int \<lfloor>ddiv D v share_grid\<rfloor> * share_grid"

definition pct_of :: "dec_ops \<Rightarrow> decimal \<Rightarrow> decimal \<Rightarrow> decimal" where
  "pct_of D fee notional = (if notional > 0 then ddiv D fee notional * 100 else 0)"

definition DAY_MS :: int where
  "DAY_MS = 86400000"

definition utc_day_index :: "int \<Rightarrow> int" where
  "utc_day_index ms = ms div DAY_MS"

definition same_day_rebase_deviation_pct :: decimal where
  "same_day_rebase_deviation_pct = 50"

text \<open>Decimal numerals of \<open>u64\<close>: what \<open>format!\<close> prints and \<open>str::parse\<close> reads.\<close>

definition digit_char :: "nat \<Rightarrow> char" where
  "digit_char d = ''0123456789'' ! d"

fun nat_str :: "nat \<Rightarrow> string" where
  "nat_str n = (if n < 10 then [digit_char n] else nat_str (n div 10) @ [digit_char (n mod 10)])"

declare nat_str.simps [simp del]

definition int_str :: "int \<Rightarrow> string" where
  "int_str i = (if i < 0 then ''-'' @ nat_str (nat (- i)) else nat_str (nat i))"

definition digit_value :: "char \<Rightarrow> nat option" where
  "digit_value c = map_of (zip ''0123456789'' [0..<10]) c"

fun digits_value :: "nat \<Rightarrow> string \<Rightarrow> nat option" where
  "digits_value acc [] = Some acc"
| "digits_value acc (c # cs) = (case digit_value c of
     Some d \<Rightarrow> if acc * 10 + d < 2 ^ 64 then digits_value (acc * 10 + d) cs else None
   | None \<Rightarrow> None)"

definition parse_u64 :: "string \<Rightarrow> nat option" where
  "parse_u64 s =
    (let body = (case s of c # cs \<Rightarrow> if c = CHR ''+'' then cs else s | [] \<Rightarrow> s)
     in if body = [] then None else digits_value 0 body)"

definition hft_prefix :: string where
  "hft_prefix = ''hft-''"

text \<open>\<open>strip_prefix("hft-")\<close> and \<open>parse::<u64>\<close>.\<close>

definition hft_number :: "string \<Rightarrow> nat option" where
  "hft_number i = (if take 4 i = hft_prefix then parse_u64 (drop 4 i) else None)"

section \<open>Records\<close>

record cash_flows =
  cf_entry_cost_usd :: decimal
  cf_entry_fee_usd :: decimal
  cf_proceeds_usd :: decimal
  cf_exit_fee_usd :: decimal
  cf_maker_rebate_usd :: decimal
  cf_opened_shares :: decimal
  cf_sold_shares :: decimal

definition no_flows :: cash_flows where
  "no_flows = \<lparr>cf_entry_cost_usd = 0, cf_entry_fee_usd = 0, cf_proceeds_usd = 0, cf_exit_fee_usd = 0,
     cf_maker_rebate_usd = 0, cf_opened_shares = 0, cf_sold_shares = 0\<rparr>"

record ladder_step =
  ls_at_pct :: decimal
  ls_close_ratio :: decimal
  ls_move_stop_to :: "decimal option"

record position_config =
  pc_exit :: exit_config
  pc_max_positions :: nat
  pc_max_positions_per_asset :: nat
  pc_max_daily_loss_usd :: decimal
  pc_max_daily_loss_equity_pct :: decimal
  pc_daily_pnl_path :: "string option"
  pc_stop_suppression_repeat_sec :: int
  pc_daily_loss_marks_unrealized :: bool
  pc_stop_loss_cooldown_sec :: int
  pc_exit_cooldown_sec :: int
  pc_asset_cooldown_sec :: int
  pc_loss_cooldown_sec :: int
  pc_exit_ladder :: "ladder_step list"

definition position_config_default :: position_config where
  "position_config_default = \<lparr>pc_exit = exit_config_default, pc_max_positions = 2, pc_max_positions_per_asset = 1,
     pc_max_daily_loss_usd = 0, pc_max_daily_loss_equity_pct = 20, pc_daily_pnl_path = None,
     pc_stop_suppression_repeat_sec = 30, pc_daily_loss_marks_unrealized = True,
     pc_stop_loss_cooldown_sec = 180, pc_exit_cooldown_sec = 60, pc_asset_cooldown_sec = 90,
     pc_loss_cooldown_sec = 180, pc_exit_ladder = []\<rparr>"

datatype equity_basis = BasisDry | BasisLive

fun basis_as_str :: "equity_basis \<Rightarrow> string" where
  "basis_as_str BasisDry = ''dry''"
| "basis_as_str BasisLive = ''live''"

record daily_loss_state =
  dl_day_index :: "int option"
  dl_realized_pnl_usd :: decimal
  dl_opening_equity_usd :: decimal
  dl_equity_basis :: "equity_basis option"
  dl_tripped :: bool
  dl_tripped_at_ms :: int
  dl_tripped_limit_usd :: decimal
  dl_tripped_reported :: bool
  dl_opened_at_ms :: int

definition daily_default :: daily_loss_state where
  "daily_default = \<lparr>dl_day_index = None, dl_realized_pnl_usd = 0, dl_opening_equity_usd = 0,
     dl_equity_basis = None, dl_tripped = False, dl_tripped_at_ms = 0, dl_tripped_limit_usd = 0,
     dl_tripped_reported = False, dl_opened_at_ms = 0\<rparr>"

record daily_roll =
  dr_day_index :: int
  dr_previous_day_index :: "int option"
  dr_previous_realized_pnl_usd :: decimal
  dr_opening_equity_usd :: decimal
  dr_limit_usd :: decimal
  dr_previous_tripped :: bool

record daily_trip =
  dt_day_index :: int
  dt_realized_pnl_usd :: decimal
  dt_limit_usd :: decimal
  dt_opening_equity_usd :: decimal
  dt_at_ms :: int

record open_position =
  p_id :: string
  p_strategy :: string
  p_asset :: string
  p_direction :: signal_direction
  p_token_id :: string
  p_condition_id :: string
  p_entry_price :: decimal
  p_current_price :: decimal
  p_prev_price :: decimal
  p_shares :: decimal
  p_cost_usd :: decimal
  p_was_maker_entry :: bool
  p_entry_fee_pct :: decimal
  p_entry_role :: order_role
  p_exit_role :: order_role
  p_target_exit_price :: "decimal option"
  p_entered_at_ms :: int
  p_expires_at_ms :: int
  p_account_id :: account_id
  p_venue :: string
  p_partner_token_id :: string
  p_last_book_ts :: int
  p_round_duration_sec :: int
  p_round_slot :: int
  p_state :: exit_state
  p_flows :: cash_flows

record closed_position =
  c_id :: string
  c_strategy :: string
  c_asset :: string
  c_direction :: signal_direction
  c_token_id :: string
  c_condition_id :: string
  c_entry_price :: decimal
  c_exit_price :: decimal
  c_shares :: decimal
  c_cost_usd :: decimal
  c_was_maker_entry :: bool
  c_was_maker_exit :: bool
  c_entry_fee_pct :: decimal
  c_exit_fee_pct :: decimal
  c_maker_rebate_usd :: decimal
  c_pnl_usd :: decimal
  c_pnl_pct :: decimal
  c_net_pnl_usd :: decimal
  c_net_pnl_pct :: decimal
  c_high_pnl_pct :: decimal
  c_low_pnl_pct :: decimal
  c_hold_time_sec :: int
  c_exit_reason :: exit_reason
  c_entered_at_ms :: int
  c_exited_at_ms :: int
  c_entry_role :: order_role
  c_exit_role :: order_role
  c_dust_shares :: decimal
  c_account_id :: account_id
  c_venue :: string
  c_source :: string
  c_original_fallback_price :: "decimal option"

record merge_outcome =
  mo_condition_id :: string
  mo_account_id :: account_id
  mo_venue :: string
  mo_pairs_merged :: decimal
  mo_cash_credited_usd :: decimal
  mo_closed :: "closed_position list"
  mo_unpaired_shares :: decimal

record open_params =
  opn_strategy :: string
  opn_asset :: string
  opn_direction :: signal_direction
  opn_token_id :: string
  opn_condition_id :: string
  opn_account_id :: account_id
  opn_venue :: string
  opn_partner_token_id :: string
  opn_entry_price :: decimal
  opn_expires_at_ms :: int
  opn_was_maker :: bool
  opn_target_exit_price :: "decimal option"
  opn_round_duration_sec :: int
  opn_round_slot :: int

text \<open>The daily-loss file: absent, the envelope, the bare state of older builds, or neither.\<close>

datatype daily_file = DfMissing | DfEnvelope "(string \<times> daily_loss_state) list"
  | DfBare daily_loss_state | DfUnreadable

text \<open>An exit the sweep wanted and no order followed for.\<close>

datatype stop_suppression_cause = WickGuard | NoExecutableQuote | StaleBook

record suppressed_stop_event =
  se_cause :: stop_suppression_cause
  se_reason :: "exit_reason option"
  se_position_id :: string
  se_token_id :: string
  se_strategy :: string
  se_asset :: string
  se_entry_price :: decimal
  se_bid :: decimal
  se_mid :: decimal
  se_pnl_pct_at_bid :: decimal
  se_pnl_pct_at_mid :: decimal
  se_stop_pct :: decimal
  se_book_age_ms :: "int option"
  se_unpriceable_for_ms :: int
  se_escalated :: bool
  se_now_ms :: int

text \<open>\<open>pm_daily_file\<close> is the daily-loss store: \<open>None\<close> without a path, else what its file holds;
  \<open>pm_disk_ok\<close> is the environment's answer to the next writes.\<close>

record position_manager =
  pm_config :: position_config
  pm_open :: "open_position list"
  pm_closed :: "closed_position list"
  pm_next_id :: nat
  pm_daily :: "(account_id \<times> daily_loss_state) list"
  pm_daily_file :: "daily_file option"
  pm_disk_ok :: bool
  pm_last_stop_loss_at :: int
  pm_exit_cooldowns :: "(string \<times> int) list"
  pm_asset_last_exit_at :: "(string \<times> int) list"
  pm_asset_last_loss_at :: "(string \<times> int) list"
  pm_suppressed_stops :: "suppressed_stop_event list"
  pm_suppressed_stop_count :: nat
  pm_last_suppression_at :: "(string \<times> int) list"
  pm_unpriceable_since :: "(string \<times> int) list"
  pm_exit_ladder_last_run :: "(string \<times> int) list"
  pm_ladder_steps_done :: "(string \<times> nat) list"
  pm_ladder_stop_floor :: "(string \<times> decimal) list"
  pm_trailing_overrides :: "(string \<times> bool) list"
  pm_holder_stop_overrides :: "(string \<times> decimal) list"

section \<open>The daily-loss store\<close>

definition daily_save :: "(account_id \<times> daily_loss_state) list \<Rightarrow> daily_file" where
  "daily_save m = DfEnvelope (map (\<lambda>(a, d). (as_str a, d)) m)"

text \<open>Reading back: \<open>tripped_reported\<close> is not serialised; an unreadable file is reported and read as
  an empty book.\<close>

definition daily_load :: "daily_file \<Rightarrow> (account_id \<times> daily_loss_state) list" where
  "daily_load f = (case f of
     DfMissing \<Rightarrow> []
   | DfEnvelope m \<Rightarrow> map (\<lambda>(a, d). (AccountId a, d\<lparr>dl_tripped_reported := False\<rparr>)) m
   | DfBare d \<Rightarrow> [(AccountId ''default'', d\<lparr>dl_tripped_reported := False\<rparr>)]
   | DfUnreadable \<Rightarrow> [])"

definition reset_file_to_empty :: "bool \<Rightarrow> daily_file \<Rightarrow> daily_file" where
  "reset_file_to_empty ok f = (if ok then DfEnvelope [] else f)"

definition persist_daily :: "position_manager \<Rightarrow> position_manager" where
  "persist_daily m = (case pm_daily_file m of
     None \<Rightarrow> m
   | Some f \<Rightarrow> if pm_disk_ok m then m\<lparr>pm_daily_file := Some (daily_save (pm_daily m))\<rparr> else m)"

section \<open>Manager: construction and small operations\<close>

text \<open>The file a configured path names is read through \<open>disk\<close>.\<close>

definition manager_new :: "(string \<Rightarrow> daily_file) \<Rightarrow> position_config \<Rightarrow> position_manager" where
  "manager_new disk cfg =
    (let store = map_option disk (pc_daily_pnl_path cfg) in
     \<lparr>pm_config = cfg, pm_open = [], pm_closed = [], pm_next_id = 1,
      pm_daily = (case store of Some f \<Rightarrow> daily_load f | None \<Rightarrow> []), pm_daily_file = store,
      pm_disk_ok = True, pm_last_stop_loss_at = 0, pm_exit_cooldowns = [],
      pm_asset_last_exit_at = [], pm_asset_last_loss_at = [], pm_suppressed_stops = [],
      pm_suppressed_stop_count = 0, pm_last_suppression_at = [],
      pm_unpriceable_since = [], pm_exit_ladder_last_run = [], pm_ladder_steps_done = [],
      pm_ladder_stop_floor = [], pm_trailing_overrides = [], pm_holder_stop_overrides = []\<rparr>)"

definition set_config ::
  "(string \<Rightarrow> daily_file) \<Rightarrow> position_config \<Rightarrow> position_manager \<Rightarrow> position_manager" where
  "set_config disk cfg m =
    (let changed = (pc_daily_pnl_path cfg \<noteq> pc_daily_pnl_path (pm_config m));
         m1 = m\<lparr>pm_config := cfg\<rparr>
     in if changed
        then (case pc_daily_pnl_path cfg of
            None \<Rightarrow> m1\<lparr>pm_daily_file := None\<rparr>
          | Some path \<Rightarrow> m1\<lparr>pm_daily_file := Some (disk path), pm_daily := daily_load (disk path)\<rparr>)
        else m1)"

definition set_trailing_overrides :: "(string \<times> bool) list \<Rightarrow> position_manager \<Rightarrow> position_manager" where
  "set_trailing_overrides o1 m = m\<lparr>pm_trailing_overrides := o1\<rparr>"

definition set_holder_stop_overrides :: "(string \<times> decimal) list \<Rightarrow> position_manager \<Rightarrow> position_manager" where
  "set_holder_stop_overrides o1 m = m\<lparr>pm_holder_stop_overrides := o1\<rparr>"

definition position_effective_round_duration_sec :: "open_position \<Rightarrow> int option \<Rightarrow> int \<Rightarrow> int" where
  "position_effective_round_duration_sec p decl global_sec =
    effective_round_duration (p_round_duration_sec p) decl global_sec"

definition position_backfill :: "int \<Rightarrow> open_position \<Rightarrow> open_position" where
  "position_backfill sec p =
    (if p_round_duration_sec p = 0 then p\<lparr>p_round_duration_sec := sec\<rparr> else p)"

definition backfill_round_families :: "(string \<Rightarrow> int) \<Rightarrow> position_manager \<Rightarrow> position_manager" where
  "backfill_round_families family_of m = m\<lparr>pm_open := map (\<lambda>p.
     let fam = family_of (p_token_id p) in if fam > 0 then position_backfill fam p else p) (pm_open m)\<rparr>"

definition restore_open ::
  "open_position list \<Rightarrow> nat option \<Rightarrow> position_manager \<Rightarrow> position_manager" where
  "restore_open ps history_max m =
    (let ids = List.map_filter hft_number (map p_id ps);
         max_id = foldr max ids 0;
         sd = max max_id (case history_max of Some h \<Rightarrow> h | None \<Rightarrow> 0);
         m1 = (if sd + 1 > pm_next_id m then m\<lparr>pm_next_id := sd + 1\<rparr> else m)
     in m1\<lparr>pm_open := ps, pm_exit_ladder_last_run := [], pm_ladder_steps_done := [],
           pm_ladder_stop_floor := []\<rparr>)"

definition remove_account_positions ::
  "string \<Rightarrow> position_manager \<Rightarrow> position_manager \<times> (nat \<times> nat)" where
  "remove_account_positions account m =
    (let m1 = m\<lparr>pm_open := filter (\<lambda>p. as_str (p_account_id p) \<noteq> account) (pm_open m),
                pm_closed := filter (\<lambda>c. as_str (c_account_id c) \<noteq> account) (pm_closed m)\<rparr>
     in (m1, (length (pm_open m) - length (pm_open m1), length (pm_closed m) - length (pm_closed m1))))"

section \<open>Fills\<close>

definition find_open :: "string \<Rightarrow> position_manager \<Rightarrow> open_position option" where
  "find_open pid m = List.find (\<lambda>p. p_id p = pid) (pm_open m)"

definition update_open ::
  "string \<Rightarrow> (open_position \<Rightarrow> open_position) \<Rightarrow> position_manager \<Rightarrow> position_manager" where
  "update_open pid f m = m\<lparr>pm_open := update_first (\<lambda>p. p_id p = pid) f (pm_open m)\<rparr>"

definition open_pm :: "open_params \<Rightarrow> int \<Rightarrow> position_manager \<Rightarrow> position_manager \<times> open_position" where
  "open_pm o1 now m =
    (let pos = \<lparr>p_id = hft_prefix @ nat_str (pm_next_id m), p_strategy = opn_strategy o1,
       p_asset = opn_asset o1, p_direction = opn_direction o1, p_token_id = opn_token_id o1,
       p_condition_id = opn_condition_id o1, p_entry_price = opn_entry_price o1,
       p_current_price = opn_entry_price o1, p_prev_price = opn_entry_price o1, p_shares = 0,
       p_cost_usd = 0, p_was_maker_entry = opn_was_maker o1, p_entry_fee_pct = 0,
       p_entry_role = (if opn_was_maker o1 then RoleMaker else RoleTaker),
       p_exit_role = RolePending, p_target_exit_price = opn_target_exit_price o1,
       p_entered_at_ms = now, p_expires_at_ms = opn_expires_at_ms o1,
       p_account_id = opn_account_id o1, p_venue = opn_venue o1,
       p_partner_token_id = opn_partner_token_id o1, p_last_book_ts = 0,
       p_round_duration_sec = opn_round_duration_sec o1, p_round_slot = opn_round_slot o1,
       p_state = exit_state_new (opn_entry_price o1) now, p_flows = no_flows\<rparr>
     in (m\<lparr>pm_next_id := pm_next_id m + 1, pm_open := pm_open m @ [pos]\<rparr>, pos))"

definition refresh_view :: "dec_ops \<Rightarrow> open_position \<Rightarrow> open_position" where
  "refresh_view D p =
    (let fee = cf_entry_fee_usd (p_flows p);
         p1 = p\<lparr>p_entry_fee_pct := pct_of D fee (cf_entry_cost_usd (p_flows p)),
                p_was_maker_entry := (fee = 0)\<rparr>
     in if p_shares p > 0 then p1\<lparr>p_entry_price := ddiv D (p_cost_usd p) (p_shares p)\<rparr> else p1)"

definition entry_fill_row ::
  "dec_ops \<Rightarrow> decimal \<Rightarrow> decimal \<Rightarrow> decimal \<Rightarrow> order_role \<Rightarrow> open_position \<Rightarrow> open_position" where
  "entry_fill_row D shares price fee role p =
    (let cost = price * shares;
         f = p_flows p;
         f1 = f\<lparr>cf_opened_shares := max (cf_opened_shares f + shares) 0,
                cf_entry_cost_usd := max (cf_entry_cost_usd f + cost) 0,
                cf_entry_fee_usd := max (cf_entry_fee_usd f + fee) 0\<rparr>;
         held_shares = max (p_shares p + shares) 0;
         p1 = p\<lparr>p_flows := f1, p_shares := held_shares,
                p_cost_usd := (if held_shares = 0 then 0 else max (p_cost_usd p + cost) 0),
                p_entry_role := (if shares > 0 then after_fill (p_entry_role p) role
                                 else p_entry_role p)\<rparr>;
         p2 = refresh_view D p1
     in if shares > 0 then p2\<lparr>p_state := exit_state_new (p_entry_price p2) (p_entered_at_ms p2)\<rparr>
        else p2)"

definition apply_entry_fill ::
  "dec_ops \<Rightarrow> string \<Rightarrow> decimal \<Rightarrow> decimal \<Rightarrow> decimal \<Rightarrow> order_role \<Rightarrow> position_manager
     \<Rightarrow> position_manager \<times> open_position option" where
  "apply_entry_fill D pid shares price fee role m =
    (let m1 = update_open pid (entry_fill_row D shares price fee role) m
     in (m1, map_option (entry_fill_row D shares price fee role) (find_open pid m)))"

definition rebate_row :: "decimal \<Rightarrow> open_position \<Rightarrow> open_position" where
  "rebate_row rebate p = p\<lparr>p_flows := (p_flows p)\<lparr>cf_maker_rebate_usd :=
     max (cf_maker_rebate_usd (p_flows p) + rebate) 0\<rparr>\<rparr>"

definition accrue_maker_rebate :: "string \<Rightarrow> decimal \<Rightarrow> position_manager \<Rightarrow> position_manager" where
  "accrue_maker_rebate pid rebate m = (if rebate = 0 then m else update_open pid (rebate_row rebate) m)"

definition backfill_round_duration_pm :: "string \<Rightarrow> int \<Rightarrow> position_manager \<Rightarrow> position_manager" where
  "backfill_round_duration_pm pid sec m =
    (if sec \<le> 0 then m else update_open pid (position_backfill sec) m)"

text \<open>An exit fill: the basis leaves at the position's own average.\<close>

definition exit_fill_row ::
  "dec_ops \<Rightarrow> decimal \<Rightarrow> decimal \<Rightarrow> decimal \<Rightarrow> order_role \<Rightarrow> decimal \<Rightarrow> open_position \<Rightarrow> open_position" where
  "exit_fill_row D shares price fee role rebate p =
    (let f = p_flows p;
         f1 = f\<lparr>cf_sold_shares := max (cf_sold_shares f + shares) 0,
                cf_proceeds_usd := max (cf_proceeds_usd f + price * shares) 0,
                cf_exit_fee_usd := max (cf_exit_fee_usd f + fee) 0,
                cf_maker_rebate_usd := max (cf_maker_rebate_usd f + rebate) 0\<rparr>;
         per_share = (if p_shares p > 0 then ddiv D (p_cost_usd p) (p_shares p) else 0);
         released = min (per_share * shares) (p_cost_usd p);
         held_shares = max (p_shares p - shares) 0
     in p\<lparr>p_flows := f1,
          p_exit_role := (if shares > 0 then after_fill (p_exit_role p) role else p_exit_role p),
          p_shares := held_shares,
          p_cost_usd := (if held_shares = 0 then 0 else max (p_cost_usd p - released) 0)\<rparr>)"

definition apply_exit_fill ::
  "dec_ops \<Rightarrow> string \<Rightarrow> decimal \<Rightarrow> decimal \<Rightarrow> decimal \<Rightarrow> order_role \<Rightarrow> decimal \<Rightarrow> position_manager
     \<Rightarrow> position_manager \<times> decimal option" where
  "apply_exit_fill D pid shares price fee role rebate m =
    (let f = exit_fill_row D shares price fee role rebate
     in (update_open pid f m, map_option (\<lambda>p. p_shares (f p)) (find_open pid m)))"

definition drop_if_empty :: "string \<Rightarrow> position_manager \<Rightarrow> position_manager \<times> bool" where
  "drop_if_empty pid m =
    (let P = (\<lambda>p. p_id p = pid \<and> p_shares p \<le> 0 \<and> p_cost_usd p = 0)
     in case List.find P (pm_open m) of
       Some _ \<Rightarrow> (m\<lparr>pm_open := remove_first P (pm_open m)\<rparr>, True)
     | None \<Rightarrow> (m, False))"

section \<open>The daily-loss budget\<close>

definition daily_bucket :: "string \<Rightarrow> position_manager \<Rightarrow> daily_loss_state" where
  "daily_bucket account m =
    (case map_of (pm_daily m) (AccountId account) of Some d \<Rightarrow> d | None \<Rightarrow> daily_default)"

definition put_daily :: "string \<Rightarrow> daily_loss_state \<Rightarrow> position_manager \<Rightarrow> position_manager" where
  "put_daily account d m = m\<lparr>pm_daily := AList.update (AccountId account) d (pm_daily m)\<rparr>"

definition daily_pnl_for :: "string \<Rightarrow> position_manager \<Rightarrow> decimal" where
  "daily_pnl_for account m = dl_realized_pnl_usd (daily_bucket account m)"

definition daily_pnl_total :: "position_manager \<Rightarrow> decimal" where
  "daily_pnl_total m = sum_list (map (\<lambda>(_, d). dl_realized_pnl_usd d) (pm_daily m))"

definition daily_state_for :: "string \<Rightarrow> position_manager \<Rightarrow> daily_loss_state" where
  "daily_state_for account m = daily_bucket account m"

definition recent_pnl_1h_for :: "string \<Rightarrow> int \<Rightarrow> position_manager \<Rightarrow> decimal" where
  "recent_pnl_1h_for account now m = sum_list (map c_net_pnl_usd
     (filter (\<lambda>c. as_str (c_account_id c) = account \<and> now - c_exited_at_ms c \<le> 3600000) (pm_closed m)))"

definition paper_pnl :: "open_position list \<Rightarrow> decimal" where
  "paper_pnl ps = sum_list (map (\<lambda>p. (p_current_price p - p_entry_price p) * p_shares p)
     (filter (\<lambda>p. p_shares p > 0 \<and> p_current_price p > 0) ps))"

definition unrealized_pnl_usd :: "position_manager \<Rightarrow> decimal" where
  "unrealized_pnl_usd m = paper_pnl (pm_open m)"

definition unrealized_pnl_usd_for :: "string \<Rightarrow> position_manager \<Rightarrow> decimal" where
  "unrealized_pnl_usd_for account m =
    paper_pnl (filter (\<lambda>p. as_str (p_account_id p) = account) (pm_open m))"

definition daily_drawdown_input :: "string \<Rightarrow> position_manager \<Rightarrow> decimal" where
  "daily_drawdown_input account m =
    (let realized = dl_realized_pnl_usd (daily_bucket account m)
     in if pc_daily_loss_marks_unrealized (pm_config m)
        then realized + unrealized_pnl_usd_for account m else realized)"

definition effective_daily_loss_limit_for :: "dec_ops \<Rightarrow> string \<Rightarrow> position_manager \<Rightarrow> decimal" where
  "effective_daily_loss_limit_for D account m =
    (let a = pc_max_daily_loss_usd (pm_config m);
         pct = pc_max_daily_loss_equity_pct (pm_config m);
         opening = dl_opening_equity_usd (daily_bucket account m);
         rel = (if pct > 0 \<and> opening > 0 then ddiv D (opening * pct) 100 else 0)
     in if a > 0 \<and> rel > 0 then min a rel else if a > 0 then a else if rel > 0 then rel else 0)"

definition daily_loss_tripped_for :: "dec_ops \<Rightarrow> string \<Rightarrow> position_manager \<Rightarrow> bool" where
  "daily_loss_tripped_for D account m =
    (dl_tripped (daily_bucket account m) \<or>
     (let limit = effective_daily_loss_limit_for D account m
      in limit > 0 \<and> daily_drawdown_input account m \<le> - limit))"

definition reconcile_same_day_base ::
  "dec_ops \<Rightarrow> string \<Rightarrow> int \<Rightarrow> decimal \<Rightarrow> equity_basis \<Rightarrow> position_manager \<Rightarrow> position_manager" where
  "reconcile_same_day_base D account now equity basis m =
    (if equity \<le> 0 then m
     else
       let d = daily_bucket account m;
           old = dl_opening_equity_usd d;
           m0 = put_daily account d m;
           d1 = d\<lparr>dl_opening_equity_usd := equity, dl_equity_basis := Some basis\<rparr>
       in if old \<le> 0 then persist_daily (put_daily account d1 m)
       else
         let basis_changed = (dl_equity_basis d \<noteq> Some basis);
             moved_pct = ddiv D (abs (equity - old)) old * 100
         in if \<not> basis_changed \<and> moved_pct \<le> same_day_rebase_deviation_pct then m0
         else if equity \<ge> old then m0
         else
           let m1 = put_daily account d1 m;
               limit = effective_daily_loss_limit_for D account m1;
               breached = (limit > 0 \<and> daily_drawdown_input account m1 \<le> - limit);
               d2 = (if dl_tripped d1 then d1 else d1\<lparr>dl_tripped := True, dl_tripped_at_ms := now\<rparr>);
               m2 = (if breached
                     then put_daily account (d2\<lparr>dl_tripped_limit_usd := limit, dl_tripped_reported := False\<rparr>) m1
                     else m1)
           in persist_daily m2)"

definition roll_daily ::
  "dec_ops \<Rightarrow> string \<Rightarrow> int \<Rightarrow> decimal \<Rightarrow> equity_basis \<Rightarrow> position_manager
     \<Rightarrow> position_manager \<times> daily_roll option" where
  "roll_daily D account now equity basis m =
    (let today = utc_day_index now;
         d = daily_bucket account m
     in if dl_day_index d = Some today
        then (reconcile_same_day_base D account now equity basis m, None)
        else
          let first_stamp = (dl_day_index d = None);
              carried_trip = (first_stamp \<and> dl_tripped d);
              d1 = \<lparr>dl_day_index = Some today,
                dl_realized_pnl_usd = (if first_stamp then dl_realized_pnl_usd d else 0),
                dl_opening_equity_usd = max equity 0, dl_equity_basis = Some basis,
                dl_tripped = carried_trip,
                dl_tripped_at_ms = (if carried_trip then dl_tripped_at_ms d else 0),
                dl_tripped_limit_usd = (if carried_trip then dl_tripped_limit_usd d else 0),
                dl_tripped_reported = False, dl_opened_at_ms = now\<rparr>;
              m1 = put_daily account d1 m;
              m2 = (if first_stamp then m1
                    else m1\<lparr>pm_last_stop_loss_at := 0, pm_exit_cooldowns := []\<rparr>);
              m3 = persist_daily m2
          in (m3, Some \<lparr>dr_day_index = today, dr_previous_day_index = dl_day_index d,
                dr_previous_realized_pnl_usd = dl_realized_pnl_usd d,
                dr_opening_equity_usd = dl_opening_equity_usd (daily_bucket account m3),
                dr_limit_usd = effective_daily_loss_limit_for D account m3,
                dr_previous_tripped = dl_tripped d\<rparr>))"

text \<open>Announcing trips: one pass over the accounts in their order.\<close>

definition trip_step ::
  "dec_ops \<Rightarrow> account_id \<Rightarrow> position_manager \<times> (account_id \<times> daily_trip) list
     \<Rightarrow> position_manager \<times> (account_id \<times> daily_trip) list" where
  "trip_step D acc = (\<lambda>(m, trips).
    let account = as_str acc in
    if \<not> daily_loss_tripped_for D account m then (m, trips)
    else
      let latch_limit = effective_daily_loss_limit_for D account m;
          d = daily_bucket account m;
          d1 = (if dl_tripped d then d
                else d\<lparr>dl_tripped := True, dl_tripped_at_ms := dl_opened_at_ms d,
                       dl_tripped_limit_usd := latch_limit\<rparr>)
      in if dl_tripped_reported d1 then (put_daily account d1 m, trips)
         else (persist_daily (put_daily account (d1\<lparr>dl_tripped_reported := True\<rparr>) m),
               trips @ [(acc, \<lparr>dt_day_index = (case dl_day_index d1 of Some i \<Rightarrow> i | None \<Rightarrow> 0),
                  dt_realized_pnl_usd = dl_realized_pnl_usd d1, dt_limit_usd = dl_tripped_limit_usd d1,
                  dt_opening_equity_usd = dl_opening_equity_usd d1, dt_at_ms = dl_tripped_at_ms d1\<rparr>)]))"

definition take_daily_trips ::
  "dec_ops \<Rightarrow> position_manager \<Rightarrow> position_manager \<times> (account_id \<times> daily_trip) list" where
  "take_daily_trips D m = fold (trip_step D) (sort (map fst (pm_daily m))) (m, [])"

text \<open>Latching the breaker with the loss. A bucket that was never opened is not created.\<close>

definition note_daily_drawdown :: "dec_ops \<Rightarrow> string \<Rightarrow> int \<Rightarrow> position_manager \<Rightarrow> position_manager" where
  "note_daily_drawdown D account now m =
    (let limit = effective_daily_loss_limit_for D account m in
     persist_daily
       (if limit > 0 \<and> daily_drawdown_input account m \<le> - limit \<and> \<not> dl_tripped (daily_bucket account m)
        then (case map_of (pm_daily m) (AccountId account) of
            Some d \<Rightarrow> put_daily account
              (d\<lparr>dl_tripped := True, dl_tripped_at_ms := now, dl_tripped_limit_usd := limit\<rparr>) m
          | None \<Rightarrow> m)
        else m))"

section \<open>Closing\<close>

definition cooldown_key :: "string \<Rightarrow> signal_direction \<Rightarrow> string" where
  "cooldown_key asset dir = asset @ ''_'' @ direction_as_str dir"

definition dust_fee_for :: "dec_ops \<Rightarrow> fee_schedule \<Rightarrow> decimal \<Rightarrow> decimal \<Rightarrow> bool \<Rightarrow> decimal" where
  "dust_fee_for D s exit_price dust_notional was_maker =
    (if was_maker then 0 else ddiv D (fee_pct D s exit_price) 100 * dust_notional)"

text \<open>The cash flows, repaired for a snapshot written before they were recorded.\<close>

definition flows :: "dec_ops \<Rightarrow> open_position \<Rightarrow> cash_flows" where
  "flows D p =
    (if cf_opened_shares (p_flows p) > 0 \<or> cf_entry_cost_usd (p_flows p) > 0 then p_flows p
     else no_flows\<lparr>cf_entry_cost_usd := p_cost_usd p,
       cf_entry_fee_usd := ddiv D (p_entry_fee_pct p) 100 * p_entry_price p * p_shares p,
       cf_opened_shares := p_shares p\<rparr>)"

text \<open>The settled record of one open position.\<close>

definition closed_record ::
  "dec_ops \<Rightarrow> fee_schedule \<Rightarrow> open_position \<Rightarrow> decimal \<Rightarrow> exit_reason \<Rightarrow> bool \<Rightarrow> int \<Rightarrow> string
     \<Rightarrow> closed_position" where
  "closed_record D s p exit_price reason was_maker now source =
    (let f = flows D p;
         exit_role = after_fill (p_exit_role p) (if was_maker then RoleMaker else RoleTaker);
         opened = cf_opened_shares f;
         sold = min (cf_sold_shares f) opened;
         dust = max (opened - sold) 0;
         dust_notional = exit_price * dust;
         exit_notional = cf_proceeds_usd f + dust_notional;
         dust_fee = dust_fee_for D s exit_price dust_notional was_maker;
         cost = cf_entry_cost_usd f;
         entry_fee = cf_entry_fee_usd f;
         exit_fee = cf_exit_fee_usd f + dust_fee;
         rebate = cf_maker_rebate_usd f;
         gross = exit_notional - cost;
         net = gross - entry_fee - exit_fee + rebate;
         avg_exit = (if sold > 0 then ddiv D (cf_proceeds_usd f) sold else exit_price)
     in \<lparr>c_id = p_id p, c_strategy = p_strategy p, c_asset = p_asset p, c_direction = p_direction p,
         c_token_id = p_token_id p, c_condition_id = p_condition_id p, c_entry_price = p_entry_price p,
         c_exit_price = avg_exit, c_shares = opened, c_cost_usd = cost,
         c_was_maker_entry = (entry_fee = 0), c_was_maker_exit = (exit_fee = 0),
         c_entry_fee_pct = pct_of D entry_fee cost, c_exit_fee_pct = pct_of D exit_fee exit_notional,
         c_maker_rebate_usd = rebate, c_pnl_usd = gross,
         c_pnl_pct = pnl_pct D avg_exit (p_entry_price p), c_net_pnl_usd = net,
         c_net_pnl_pct = (if cost > 0 then ddiv D net cost * 100 else 0),
         c_high_pnl_pct = es_high_pnl_pct (p_state p), c_low_pnl_pct = es_low_pnl_pct (p_state p),
         c_hold_time_sec = tdiv (now - p_entered_at_ms p) 1000, c_exit_reason = reason,
         c_entered_at_ms = p_entered_at_ms p, c_exited_at_ms = now, c_entry_role = p_entry_role p,
         c_exit_role = exit_role, c_dust_shares = dust, c_account_id = p_account_id p,
         c_venue = p_venue p, c_source = source,
         c_original_fallback_price = (if source = ''fallback'' then Some exit_price else None)\<rparr>)"

definition CLOSED_CAP :: nat where
  "CLOSED_CAP = 5000"

text \<open>The manager's side of a close: the account's day, the cooldowns, the breaker, the ledgers keyed
  by the position's id.\<close>

definition close_effects ::
  "dec_ops \<Rightarrow> open_position \<Rightarrow> closed_position \<Rightarrow> int \<Rightarrow> position_manager \<Rightarrow> position_manager" where
  "close_effects D p c now m =
    (let account = as_str (p_account_id p);
         net = c_net_pnl_usd c;
         d = daily_bucket account m;
         m1 = put_daily account (d\<lparr>dl_realized_pnl_usd := dl_realized_pnl_usd d + net\<rparr>) m;
         m2 = (if c_exit_reason c = StopLoss then m1\<lparr>pm_last_stop_loss_at := now\<rparr> else m1);
         m3 = m2\<lparr>pm_exit_cooldowns := AList.update (cooldown_key (p_asset p) (p_direction p)) now
                   (pm_exit_cooldowns m2),
                 pm_asset_last_exit_at := AList.update (p_asset p) now (pm_asset_last_exit_at m2)\<rparr>;
         m4 = (if net < 0
               then m3\<lparr>pm_asset_last_loss_at := AList.update (p_asset p) now (pm_asset_last_loss_at m3)\<rparr>
               else m3);
         m5 = note_daily_drawdown D account now m4
     in m5\<lparr>pm_last_suppression_at := AList.delete (p_id p) (pm_last_suppression_at m5),
           pm_unpriceable_since := AList.delete (p_id p) (pm_unpriceable_since m5),
           pm_exit_ladder_last_run := AList.delete (p_id p) (pm_exit_ladder_last_run m5),
           pm_ladder_steps_done := AList.delete (p_id p) (pm_ladder_steps_done m5),
           pm_ladder_stop_floor := AList.delete (p_id p) (pm_ladder_stop_floor m5)\<rparr>)"

definition close_pm ::
  "dec_ops \<Rightarrow> fee_schedule option \<Rightarrow> string \<Rightarrow> decimal \<Rightarrow> exit_reason \<Rightarrow> bool \<Rightarrow> int \<Rightarrow> string
     \<Rightarrow> position_manager \<Rightarrow> position_manager \<times> closed_position option" where
  "close_pm D st pid exit_price reason was_maker now source m = (case find_open pid m of
     None \<Rightarrow> (m, None)
   | Some p \<Rightarrow>
       (let m1 = m\<lparr>pm_open := remove_first (\<lambda>q. p_id q = pid) (pm_open m)\<rparr>;
            c = closed_record D (active_schedule st) p exit_price reason was_maker now source;
            m2 = close_effects D p c now m1
        in (m2\<lparr>pm_closed := last_n CLOSED_CAP (pm_closed m2 @ [c])\<rparr>, Some c)))"

definition restore_closed :: "open_position \<Rightarrow> closed_position \<Rightarrow> position_manager \<Rightarrow> position_manager \<times> bool" where
  "restore_closed pre c m =
    (if \<exists>p \<in> set (pm_open m). p_id p = p_id pre then (m, False)
     else
       let account = as_str (c_account_id c);
           d = daily_bucket account m;
           m1 = put_daily account (d\<lparr>dl_realized_pnl_usd := dl_realized_pnl_usd d - c_net_pnl_usd c\<rparr>) m
       in (m1\<lparr>pm_closed := remove_last (\<lambda>x. c_id x = c_id c \<and> c_exited_at_ms x = c_exited_at_ms c)
                (pm_closed m1),
              pm_open := pm_open m1 @ [pre]\<rparr>, True))"

definition sell_shares :: "dec_ops \<Rightarrow> string \<Rightarrow> position_manager \<Rightarrow> decimal option" where
  "sell_shares D pid m = (case find_open pid m of
     None \<Rightarrow> None
   | Some p \<Rightarrow> (let grid = floor_to_grid D (p_shares p) in if grid \<le> 0 then None else Some grid))"

section \<open>Merging complete pairs\<close>

definition find_leg :: "string \<Rightarrow> signal_direction \<Rightarrow> position_manager \<Rightarrow> open_position option" where
  "find_leg cond dir m = List.find (\<lambda>p. p_condition_id p = cond \<and> p_direction p = dir) (pm_open m)"

definition merge_leg_price :: decimal where
  "merge_leg_price = 5 / 10"

definition merge_leg ::
  "dec_ops \<Rightarrow> fee_schedule option \<Rightarrow> decimal \<Rightarrow> int \<Rightarrow> open_position
     \<Rightarrow> position_manager \<times> closed_position list \<Rightarrow> position_manager \<times> closed_position list" where
  "merge_leg D st pairs now leg = (\<lambda>(m, cs).
    case apply_exit_fill D (p_id leg) pairs merge_leg_price 0 RoleMaker 0 m of
      (m1, remaining) \<Rightarrow>
        if remaining = Some 0
        then (case close_pm D st (p_id leg) merge_leg_price Merge True now ''venue'' m1 of
            (m2, Some c) \<Rightarrow> (m2, cs @ [c])
          | (m2, None) \<Rightarrow> (m2, cs))
        else (m1, cs))"

definition clear_cooldowns :: "closed_position \<Rightarrow> position_manager \<Rightarrow> position_manager" where
  "clear_cooldowns c m = m\<lparr>
     pm_exit_cooldowns := AList.delete (cooldown_key (c_asset c) (c_direction c)) (pm_exit_cooldowns m),
     pm_asset_last_exit_at := AList.delete (c_asset c) (pm_asset_last_exit_at m),
     pm_asset_last_loss_at := AList.delete (c_asset c) (pm_asset_last_loss_at m)\<rparr>"

definition merge_condition ::
  "dec_ops \<Rightarrow> fee_schedule option \<Rightarrow> string \<Rightarrow> int \<Rightarrow> position_manager
     \<Rightarrow> position_manager \<times> merge_outcome option" where
  "merge_condition D st cond now m = (case (find_leg cond Up m, find_leg cond Down m) of
     (Some up, Some down) \<Rightarrow>
       if p_account_id up \<noteq> p_account_id down then (m, None)
       else
         (let pairs = min (floor_to_grid D (p_shares up)) (floor_to_grid D (p_shares down)) in
          if pairs \<le> 0 then (m, None)
          else (case fold (merge_leg D st pairs now) [up, down] (m, []) of
            (m1, closed_legs) \<Rightarrow>
              (let m2 = fold clear_cooldowns closed_legs m1
               in (m2, Some \<lparr>mo_condition_id = cond, mo_account_id = p_account_id up,
                    mo_venue = p_venue up, mo_pairs_merged = pairs, mo_cash_credited_usd = pairs,
                    mo_closed = closed_legs,
                    mo_unpaired_shares = sum_list (map p_shares
                      (filter (\<lambda>p. p_condition_id p = cond) (pm_open m2)))\<rparr>))))
   | _ \<Rightarrow> (m, None))"

section \<open>The entry gate\<close>

text \<open>Seconds left of a cooldown of \<open>sec\<close> seconds that began at \<open>since\<close>: \<open>None\<close> once it is over.\<close>

definition cooldown_left :: "int \<Rightarrow> int \<Rightarrow> int \<Rightarrow> int option" where
  "cooldown_left sec since now =
    (if now - since < sec * 1000 then Some (tdiv (sec * 1000 - (now - since)) 1000 + 1) else None)"

definition live_positions :: "string \<Rightarrow> int \<Rightarrow> position_manager \<Rightarrow> open_position list" where
  "live_positions account now m =
    filter (\<lambda>p. p_expires_at_ms p > now \<and> as_str (p_account_id p) = account) (pm_open m)"

definition can_open ::
  "dec_ops \<Rightarrow> string \<Rightarrow> string option \<Rightarrow> signal_direction option \<Rightarrow> int \<Rightarrow> position_manager
     \<Rightarrow> message + unit" where
  "can_open D account asset_opt dir_opt now m =
    (let cfg = pm_config m;
         d = daily_bucket account m;
         limit = (if dl_tripped_limit_usd d > 0 then dl_tripped_limit_usd d
                  else effective_daily_loss_limit_for D account m);
         stop_left = (if pc_stop_loss_cooldown_sec cfg > 0 \<and> pm_last_stop_loss_at m > 0
                      then cooldown_left (pc_stop_loss_cooldown_sec cfg) (pm_last_stop_loss_at m) now
                      else None);
         in_asset = (\<lambda>a. length (filter (\<lambda>p. p_asset p = a) (live_positions account now m)));
         since = (\<lambda>k tab sec. case map_of tab k of
            Some t0 \<Rightarrow> cooldown_left sec t0 now | None \<Rightarrow> None)
     in if length (live_positions account now m) \<ge> pc_max_positions cfg
        then Inl [Txt ''Max positions ('', Num (int (pc_max_positions cfg)), Txt '')'']
        else if daily_loss_tripped_for D account m
        then Inl [Txt ''Daily loss limit for account '', Txt account, Txt '' ($'', Dec limit,
               Txt ''; realized $'', Dec (dl_realized_pnl_usd d), Txt '', day '',
               Num (case dl_day_index d of Some i \<Rightarrow> i | None \<Rightarrow> 0), Txt '')'']
        else case stop_left of
          Some l \<Rightarrow> Inl [Txt ''SL cooldown: '', Num l, Txt ''s'']
        | None \<Rightarrow> (case asset_opt of
            None \<Rightarrow> Inr ()
          | Some a \<Rightarrow>
              if in_asset a \<ge> pc_max_positions_per_asset cfg then Inl [Txt ''Already in '', Txt a]
              else case (case dir_opt of
                  Some dir \<Rightarrow> since (cooldown_key a dir) (pm_exit_cooldowns m) (pc_exit_cooldown_sec cfg)
                | None \<Rightarrow> None) of
                Some l \<Rightarrow> Inl [Txt ''Exit cooldown '', Txt a, Txt '' '',
                    Txt (case dir_opt of Some dir \<Rightarrow> direction_as_str dir | None \<Rightarrow> []),
                    Txt '': '', Num l, Txt ''s'']
              | None \<Rightarrow> (case (if pc_loss_cooldown_sec cfg > 0
                    then since a (pm_asset_last_loss_at m) (pc_loss_cooldown_sec cfg) else None) of
                  Some l \<Rightarrow> Inl [Txt ''Loss cooldown '', Txt a, Txt '': '', Num l, Txt ''s'']
                | None \<Rightarrow> (case (if pc_asset_cooldown_sec cfg > 0
                      then since a (pm_asset_last_exit_at m) (pc_asset_cooldown_sec cfg) else None) of
                    Some l \<Rightarrow> Inl [Txt ''Asset cooldown '', Txt a, Txt '': '', Num l, Txt ''s'']
                  | None \<Rightarrow> Inr ()))))"

section \<open>Unverified exposure\<close>

record unverified_exposure_entry =
  ue_position_id :: string
  ue_condition_id :: string
  ue_token_id :: string
  ue_account_id :: account_id
  ue_strategy :: string
  ue_shares :: decimal
  ue_cost_usd :: decimal
  ue_fallback_price :: decimal
  ue_original_fallback_price :: "decimal option"
  ue_net_pnl_usd :: decimal
  ue_exited_at_ms :: int
  ue_percentage_of_total_cost :: decimal

record unverified_exposure_report_t =
  ur_entries :: "unverified_exposure_entry list"
  ur_total_positions :: nat
  ur_total_shares :: decimal
  ur_total_cost_usd :: decimal
  ur_total_percentage_of_closed_cost :: decimal

definition is_fallback :: "closed_position \<Rightarrow> bool" where
  "is_fallback c \<longleftrightarrow> c_source c = ''fallback''"

definition exposure_entry :: "dec_ops \<Rightarrow> decimal \<Rightarrow> closed_position \<Rightarrow> unverified_exposure_entry" where
  "exposure_entry D total_cost c = \<lparr>ue_position_id = c_id c, ue_condition_id = c_condition_id c,
     ue_token_id = c_token_id c, ue_account_id = c_account_id c, ue_strategy = c_strategy c,
     ue_shares = c_shares c, ue_cost_usd = c_cost_usd c, ue_fallback_price = c_exit_price c,
     ue_original_fallback_price = c_original_fallback_price c, ue_net_pnl_usd = c_net_pnl_usd c,
     ue_exited_at_ms = c_exited_at_ms c,
     ue_percentage_of_total_cost =
       (if total_cost > 0 then ddiv D (c_cost_usd c) total_cost * 100 else 0)\<rparr>"

definition unverified_exposure_report ::
  "dec_ops \<Rightarrow> position_manager \<Rightarrow> unverified_exposure_report_t" where
  "unverified_exposure_report D m =
    (let total_cost = sum_list (map c_cost_usd (pm_closed m));
         rows = filter is_fallback (pm_closed m);
         fallback_cost = sum_list (map c_cost_usd rows);
         entries = sort_key (\<lambda>e. - ue_cost_usd e) (map (exposure_entry D total_cost) rows)
     in \<lparr>ur_entries = entries, ur_total_positions = length entries,
         ur_total_shares = sum_list (map ue_shares entries), ur_total_cost_usd = fallback_cost,
         ur_total_percentage_of_closed_cost =
           (if total_cost > 0 then ddiv D fallback_cost total_cost * 100 else 0)\<rparr>)"

definition flip_to_venue :: "closed_position \<Rightarrow> closed_position" where
  "flip_to_venue c = c\<lparr>c_original_fallback_price := Some (c_exit_price c), c_source := ''venue''\<rparr>"

definition backfill_rows ::
  "(closed_position \<Rightarrow> bool) \<Rightarrow> position_manager \<Rightarrow> position_manager \<times> nat" where
  "backfill_rows P m =
    (m\<lparr>pm_closed := map (\<lambda>c. if P c \<and> is_fallback c then flip_to_venue c else c) (pm_closed m)\<rparr>,
     length (filter (\<lambda>c. P c \<and> is_fallback c) (pm_closed m)))"

definition backfill_fallback_to_venue :: "string \<Rightarrow> position_manager \<Rightarrow> position_manager \<times> nat" where
  "backfill_fallback_to_venue cond = backfill_rows (\<lambda>c. c_condition_id c = cond)"

definition backfill_fallback_to_venue_tokens ::
  "string set \<Rightarrow> position_manager \<Rightarrow> position_manager \<times> nat" where
  "backfill_fallback_to_venue_tokens tokens = backfill_rows (\<lambda>c. c_token_id c \<in> tokens)"

end
