(* ===== verification/ExitPolicyProps.thy ===== *)
theory ExitPolicyProps
  imports ExitPolicy
begin

text \<open>
  What the exit policy guarantees: the width of the stop over a round, the stop that is never
  silently withheld, the invariant of the exit state, and the replay's interval update against the
  pass of every tick.
\<close>

section \<open>Division\<close>

text \<open>What the rounding division of the decimal type keeps: it is monotone in its numerator, and
  exact on zero and on equal arguments.\<close>

definition div_laws :: "dec_ops \<Rightarrow> bool" where
  "div_laws D \<longleftrightarrow> (\<forall>a b c. 0 < c \<longrightarrow> a \<le> b \<longrightarrow> ddiv D a c \<le> ddiv D b c) \<and>
     (\<forall>c. 0 < c \<longrightarrow> ddiv D 0 c = 0 \<and> ddiv D c c = 1)"

lemma div_laws_mono: "div_laws D \<Longrightarrow> 0 < c \<Longrightarrow> a \<le> b \<Longrightarrow> ddiv D a c \<le> ddiv D b c"
  by (simp add: div_laws_def)

lemma div_laws_zero: "div_laws D \<Longrightarrow> 0 < c \<Longrightarrow> ddiv D 0 c = 0"
  by (simp add: div_laws_def)

lemma div_laws_unit: "div_laws D \<Longrightarrow> 0 \<le> a \<Longrightarrow> a \<le> c \<Longrightarrow> 0 < c \<Longrightarrow> 0 \<le> ddiv D a c \<and> ddiv D a c \<le> 1"
  by (metis div_laws_def)

lemma exact_div_laws [simp]: "div_laws exact_dec"
  by (simp add: div_laws_def divide_right_mono)

lemma pnl_pct_mono: "div_laws D \<Longrightarrow> a \<le> b \<Longrightarrow> pnl_pct D a e \<le> pnl_pct D b e"
  by (simp add: pnl_pct_def div_laws_mono)

lemma pnl_pct_entry [simp]: "div_laws D \<Longrightarrow> pnl_pct D e e = 0"
  by (simp add: pnl_pct_def div_laws_zero)

section \<open>The stop over a round\<close>

abbreviation stop_floor_t :: "exit_config \<Rightarrow> int" where
  "stop_floor_t cfg \<equiv> min (xc_force_exit_sec cfg) (max (xc_stop_tighten_start_sec cfg - 1) 1)"

lemma stop_fraction_bounds:
  assumes "div_laws D" "\<not> t \<le> f" "t < s"
  shows "0 \<le> ddiv D (of_int (t - f)) (of_int (s - f))" "ddiv D (of_int (t - f)) (of_int (s - f)) \<le> 1"
  using assms by (auto intro!: div_laws_unit[THEN conjunct1] div_laws_unit[THEN conjunct2])

lemma effective_stop_bounds:
  assumes "div_laws D"
  shows "min base (xc_stop_min_pct cfg) \<le> effective_stop_pct D base t cfg"
    and "effective_stop_pct D base t cfg \<le> base"
proof -
  let ?m = "min base (xc_stop_min_pct cfg)"
  let ?f = "ddiv D (of_int (t - stop_floor_t cfg)) (of_int (xc_stop_tighten_start_sec cfg - stop_floor_t cfg))"
  have mid: "?m \<le> ?m + (base - ?m) * ?f" "?m + (base - ?m) * ?f \<le> base"
    if "0 \<le> ?f" "?f \<le> 1"
  proof -
    have d: "0 \<le> base - ?m" by simp
    show "?m \<le> ?m + (base - ?m) * ?f" using mult_nonneg_nonneg[OF d that(1)] by simp
    show "?m + (base - ?m) * ?f \<le> base" using mult_left_mono[OF that(2) d] by simp
  qed
  show "?m \<le> effective_stop_pct D base t cfg" "effective_stop_pct D base t cfg \<le> base"
    using mid stop_fraction_bounds[OF assms, of t "stop_floor_t cfg" "xc_stop_tighten_start_sec cfg"]
    by (auto simp: effective_stop_pct_def Let_def)
qed

lemma effective_stop_mono:
  assumes D: "div_laws D" and le: "t \<le> u"
  shows "effective_stop_pct D base t cfg \<le> effective_stop_pct D base u cfg"
proof -
  let ?m = "min base (xc_stop_min_pct cfg)" and ?s = "xc_stop_tighten_start_sec cfg"
  consider "\<not> xc_dynamic_stop_enabled cfg" | "u \<ge> ?s" | "t \<le> stop_floor_t cfg" "xc_dynamic_stop_enabled cfg" "t < ?s"
    | "xc_dynamic_stop_enabled cfg" "\<not> t \<le> stop_floor_t cfg" "u < ?s"
    using le by (meson le_less_trans not_le)
  thus ?thesis
  proof cases
    case 1 thus ?thesis by (simp add: effective_stop_pct_def)
  next
    case 2
    hence "effective_stop_pct D base u cfg = base" by (simp add: effective_stop_pct_def Let_def)
    thus ?thesis using effective_stop_bounds(2)[OF D] by simp
  next
    case 3
    hence "effective_stop_pct D base t cfg = ?m" by (simp add: effective_stop_pct_def Let_def)
    thus ?thesis using effective_stop_bounds(1)[OF D] by simp
  next
    case 4
    have "ddiv D (of_int (t - stop_floor_t cfg)) (of_int (?s - stop_floor_t cfg)) \<le>
        ddiv D (of_int (u - stop_floor_t cfg)) (of_int (?s - stop_floor_t cfg))"
      using 4 le by (intro div_laws_mono[OF D]) auto
    moreover have "0 \<le> base - ?m" by simp
    ultimately show ?thesis using 4 le
      by (auto simp: effective_stop_pct_def Let_def intro!: add_left_mono mult_left_mono)
  qed
qed


text \<open>. The width of the protective stop over a round: it stays between the configured minimum and
  the base width, it only tightens as the time left runs down, and for a strategy that holds to
  settlement it is the holder's width at every instant.\<close>

theorem exit_stop_width:
  assumes "div_laws D"
  shows "min base (xc_stop_min_pct cfg) \<le> effective_stop_pct D base t cfg \<and>
    effective_stop_pct D base t cfg \<le> base \<and>
    (t \<le> u \<longrightarrow> effective_stop_pct D base t cfg \<le> effective_stop_pct D base u cfg) \<and>
    holder_effective_stop_pct D t cfg = xc_holder_stop_pct cfg"
proof -
  have "holder_effective_stop_pct D t cfg = xc_holder_stop_pct cfg"
    using effective_stop_bounds[OF assms, where base = "xc_holder_stop_pct cfg" and cfg = "holder_view cfg" and t = t]
    by (simp add: holder_effective_stop_pct_def holder_view_def)
  thus ?thesis using effective_stop_bounds[OF assms] effective_stop_mono[OF assms] by blast
qed

section \<open>The stop is never lost\<close>

lemma first_verdict_some:
  "first_verdict rs d = v \<Longrightarrow> v = d \<or> Some v \<in> set rs"
  by (induction rs d rule: first_verdict.induct) auto

lemma first_verdict_default: "(\<forall>r\<in>set rs. r = None) \<Longrightarrow> first_verdict rs d = d"
  by (induction rs d rule: first_verdict.induct) auto

lemma rule_exit_eq_Some [simp]:
  "rule_exit c r m = Some v \<longleftrightarrow> c \<and> v = verdict_exit r m None"
  "Some v = rule_exit c r m \<longleftrightarrow> c \<and> v = verdict_exit r m None"
  by (auto simp: rule_exit_def)

lemma verdict_sel [simp]:
  "ev_decision (verdict_exit r m j) = Some \<lparr>xd_reason = r, xd_use_maker = m\<rparr>"
  "ev_suppressed_stop (verdict_exit r m j) = None" "ev_stop_reference (verdict_exit r m j) = j"
  "ev_decision verdict_hold = None" "ev_suppressed_stop verdict_hold = None"
  by (simp_all add: verdict_exit_def verdict_hold_def)

text \<open>On a live bid the stop either fires or is withheld for exactly that bid.\<close>

lemma stop_verdict_live:
  assumes "0 < bv_best_bid b" "pnl_pct D (bv_best_bid b) e \<le> - w"
  shows "stop_verdict D e w (stop_reference D (Some b) fb s now cfg) = StopFire \<or>
    (\<exists>x. stop_verdict D e w (stop_reference D (Some b) fb s now cfg) = StopSuppressed x \<and>
      ss_bid x = bv_best_bid b \<and> ss_mid x = bv_mid_price b \<and> ss_stop_pct x = w \<and>
      - w < pnl_pct D (bv_mid_price b) e)"
  using assms by (auto simp: stop_verdict_def stop_reference_def Let_def)

definition stop_width :: "dec_ops \<Rightarrow> exit_tick_input \<Rightarrow> decimal" where
  "stop_width D i = effective_stop_pct D
     (if xc_simple_exit_enabled (xi_cfg i) \<or> \<not> xc_tight_stop_enabled (xi_cfg i)
      then xc_stop_loss_pct (xi_cfg i) else xc_tight_stop_pct (xi_cfg i)) (xi_time_left_sec i) (xi_cfg i)"

text \<open>The ladder reaches its rules: no grace period, not settlement's round.\<close>

definition ladder_open :: "exit_tick_input \<Rightarrow> bool" where
  "ladder_open i \<longleftrightarrow> 0 < xi_entry_price i \<and>
     (xc_force_exit_sec (xi_cfg i) > 0 \<or> xi_time_left_sec i > 0) \<and>
     (xc_simple_exit_enabled (xi_cfg i) \<or> xc_exit_grace_sec (xi_cfg i) \<le> xi_hold_sec i)"

text \<open>With the ladder open, a firing stop exits (through some rule), a withheld stop exits or is
  reported.\<close>

lemma ladder_outcome:
  assumes "ladder_open i"
    and ref: "stop_reference D (xi_book i) (xi_fallback_price i) (xi_state i) (xi_now_ms i) (xi_cfg i) = Some r"
    and noforce: "xc_force_exit_sec (xi_cfg i) \<le> 0 \<or> xc_force_exit_sec (xi_cfg i) < xi_time_left_sec i"
    and sv: "stop_verdict D (xi_entry_price i) (stop_width D i) (Some r) = v"
  shows "(v = StopFire \<longrightarrow> ev_decision (decide_exit_verdict D fees i) \<noteq> None) \<and>
    (\<forall>x. v = StopSuppressed x \<longrightarrow> ev_decision (decide_exit_verdict D fees i) \<noteq> None \<or>
       ev_suppressed_stop (decide_exit_verdict D fees i) = Some x)"
proof -
  let ?judge = "if executable_bid (xi_book i) > 0 then Some (executable_bid (xi_book i))
    else profit_reference (xi_book i) (xi_fallback_price i) (xi_state i) (xi_now_ms i) (xi_cfg i)"
  have dv: "decide_exit_verdict D fees i = (if xc_simple_exit_enabled (xi_cfg i)
      then simple_verdict D i (Some r) ?judge else full_verdict D fees i (Some r) ?judge)"
    using assms(1) noforce ref by (auto simp: decide_exit_verdict_def ladder_open_def Let_def)
  have rules: "Some v' \<in> set (profit_rules D fees i j) \<Longrightarrow> ev_decision v' \<noteq> None" for v' j
    by (auto simp: profit_rules_def Let_def)
  show ?thesis
  proof (cases "xc_simple_exit_enabled (xi_cfg i)")
    case True
    thus ?thesis using sv unfolding dv simple_verdict_def stop_width_def
      by (auto simp: Let_def rule_exit_def stop_rule_def stop_withheld_def split: stop_verdict_t.splits)
  next
    case False
    define w where "w = (case ?judge of None \<Rightarrow> [] | Some j \<Rightarrow> profit_rules D fees i j)"
    have w: "Some v' \<in> set w \<Longrightarrow> ev_decision v' \<noteq> None" for v'
      using rules by (auto simp: w_def split: option.splits if_splits)
    have fv: "ev_decision (first_verdict w d) \<noteq> None \<or> first_verdict w d = d" for d
      using first_verdict_some[of w d] w by blast
    have base: "stop_width D i = effective_stop_pct D (if xc_tight_stop_enabled (xi_cfg i)
        then xc_tight_stop_pct (xi_cfg i) else xc_stop_loss_pct (xi_cfg i)) (xi_time_left_sec i) (xi_cfg i)"
      using False by (simp add: stop_width_def)
    have grace: "\<not> xi_hold_sec i < xc_exit_grace_sec (xi_cfg i)"
      using assms(1) False by (simp add: ladder_open_def)
    show ?thesis using False sv fv unfolding dv full_verdict_def w_def[symmetric]
      by (auto simp: Let_def grace base[symmetric] rule_exit_def stop_rule_def stop_withheld_def
        split: stop_verdict_t.splits)
        (metis exit_verdict.select_convs(2))+
  qed
qed


lemma stop_reference_live_bid:
  "0 < bv_best_bid b \<Longrightarrow> \<exists>r. stop_reference D (Some b) fb s now cfg = Some r"
  by (auto simp: stop_reference_def)

lemma stop_reference_swept:
  assumes "\<not> 0 < bv_best_bid b" "bv_has_asks b" "0 < bv_best_ask b"
  shows "\<exists>r. stop_reference D (Some b) fb s now cfg = Some r \<and> sr_source r = RefAsk \<and> sr_price r \<le> bv_best_ask b"
  using assms by (auto simp: stop_reference_def best_live_ask_def split: option.splits)

lemma decide_force_live:
  assumes "0 < xi_entry_price i" "xi_book i = Some b" "0 < bv_best_bid b" "0 < xc_force_exit_sec (xi_cfg i)"
    "xi_time_left_sec i \<le> xc_force_exit_sec (xi_cfg i)"
  shows "decide_exit_verdict D fees i = verdict_exit ForceExit False None"
  using assms by (simp add: decide_exit_verdict_def executable_bid_def)

text \<open>C25. The protective stop is never silently lost on a live bid: whenever the ladder reaches its
  rules and the bid is at or below the stop's width, the verdict exits, or it reports the withheld
  stop with that very bid, the mid it was judged on, and a mid that had not breached. A wick can
  delay a stop but cannot hide one.\<close>

theorem exit_stop_never_swallowed:
  assumes "ladder_open i" "xi_book i = Some b" "0 < bv_best_bid b"
    and "pnl_pct D (bv_best_bid b) (xi_entry_price i) \<le> - stop_width D i"
  shows "ev_decision (decide_exit_verdict D fees i) \<noteq> None \<or>
    (\<exists>x. ev_suppressed_stop (decide_exit_verdict D fees i) = Some x \<and> ss_bid x = bv_best_bid b \<and>
       ss_mid x = bv_mid_price b \<and> - stop_width D i < pnl_pct D (bv_mid_price b) (xi_entry_price i))"
proof (cases "0 < xc_force_exit_sec (xi_cfg i) \<and> xi_time_left_sec i \<le> xc_force_exit_sec (xi_cfg i)")
  case True
  thus ?thesis using assms decide_force_live by (simp add: ladder_open_def)
next
  case False
  obtain r where r: "stop_reference D (xi_book i) (xi_fallback_price i) (xi_state i) (xi_now_ms i) (xi_cfg i) = Some r"
    using stop_reference_live_bid[OF assms(3)] unfolding assms(2) by blast
  have v: "stop_verdict D (xi_entry_price i) (stop_width D i) (Some r) = StopFire \<or>
    (\<exists>x. stop_verdict D (xi_entry_price i) (stop_width D i) (Some r) = StopSuppressed x \<and>
      ss_bid x = bv_best_bid b \<and> ss_mid x = bv_mid_price b \<and> ss_stop_pct x = stop_width D i \<and>
      - stop_width D i < pnl_pct D (bv_mid_price b) (xi_entry_price i))"
    using stop_verdict_live[OF assms(3,4)] r unfolding assms(2) by metis
  have nf: "xc_force_exit_sec (xi_cfg i) \<le> 0 \<or> xc_force_exit_sec (xi_cfg i) < xi_time_left_sec i"
    using False by linarith
  show ?thesis using v ladder_outcome[OF assms(1) r nf refl] by blast
qed

text \<open>. A swept book does not look like a quiet one: with no bid, a live ask at or below the stop's
  width makes the ladder exit whatever price was remembered before.\<close>

theorem exit_swept_book_stops:
  assumes "ladder_open i" "xi_book i = Some b" "\<not> 0 < bv_best_bid b" "bv_has_asks b" "0 < bv_best_ask b"
    and "div_laws D" "pnl_pct D (bv_best_ask b) (xi_entry_price i) \<le> - stop_width D i"
    and nf: "xc_force_exit_sec (xi_cfg i) \<le> 0 \<or> xc_force_exit_sec (xi_cfg i) < xi_time_left_sec i"
  shows "ev_decision (decide_exit_verdict D fees i) \<noteq> None"
proof -
  obtain r where r: "stop_reference D (xi_book i) (xi_fallback_price i) (xi_state i) (xi_now_ms i) (xi_cfg i) = Some r"
    and le: "sr_price r \<le> bv_best_ask b"
    using stop_reference_swept[OF assms(3-5)] unfolding assms(2) by blast
  have "pnl_pct D (sr_price r) (xi_entry_price i) \<le> - stop_width D i"
    using pnl_pct_mono[OF assms(6) le] assms(7) order_trans by blast
  hence "stop_verdict D (xi_entry_price i) (stop_width D i) (Some r) = StopFire"
    by (simp add: stop_verdict_def Let_def)
  thus ?thesis using ladder_outcome[OF assms(1) r nf refl] by blast
qed

section \<open>The exit state\<close>

text \<open>What the state says about the position's life: the extremes bracket zero, the confirmed high was
  a high, and the best percentage is the one of the high-water mark.\<close>

definition exit_state_ok :: "dec_ops \<Rightarrow> decimal \<Rightarrow> exit_state \<Rightarrow> bool" where
  "exit_state_ok D e s \<longleftrightarrow> es_low_pnl_pct s \<le> 0 \<and> 0 \<le> es_high_pnl_pct s \<and>
     e \<le> es_high_water_mark s \<and> es_confirmed_high s \<le> es_high_water_mark s \<and>
     es_high_pnl_pct s = pnl_pct D (es_high_water_mark s) e \<and> es_hwm_confirm_count s \<le> U32_MAX"

lemma exit_state_ok_new: "div_laws D \<Longrightarrow> exit_state_ok D e (exit_state_new e now)"
  by (simp add: exit_state_ok_def exit_state_new_def)

lemma u32_saturating_le [simp]: "u32_saturating_add a b \<le> U32_MAX"
  by (simp add: u32_saturating_add_def)

lemma high_pnl_update:
  assumes "div_laws D" "h = pnl_pct D w e"
  shows "(if h < pnl_pct D v e then pnl_pct D v e else h) = pnl_pct D (if w < v then v else w) e"
  using pnl_pct_mono[OF assms(1), of w v e] pnl_pct_mono[OF assms(1), of v w e] assms(2) by auto

lemma note_frames [simp]:
  "es_high_pnl_pct (note_high D v k cfg s) = es_high_pnl_pct s"
  "es_low_pnl_pct (note_high D v k cfg s) = es_low_pnl_pct s"
  "es_high_water_mark (note_high D v k cfg s) = (if es_high_water_mark s < v then v else es_high_water_mark s)"
  "es_high_water_mark (note_pnl p n s) = es_high_water_mark s"
  "es_hwm_confirm_count (note_pnl p n s) = es_hwm_confirm_count s"
  "es_confirmed_high (note_pnl p n s) = es_confirmed_high s"
  by (auto simp: note_high_def note_pnl_def Let_def)

lemma note_tail_frames [simp]:
  "es_high_pnl_pct (note_depth b s) = es_high_pnl_pct s" "es_low_pnl_pct (note_depth b s) = es_low_pnl_pct s"
  "es_high_water_mark (note_depth b s) = es_high_water_mark s" "es_confirmed_high (note_depth b s) = es_confirmed_high s"
  "es_hwm_confirm_count (note_depth b s) = es_hwm_confirm_count s"
  "es_high_pnl_pct (note_bid b n s) = es_high_pnl_pct s" "es_low_pnl_pct (note_bid b n s) = es_low_pnl_pct s"
  "es_high_water_mark (note_bid b n s) = es_high_water_mark s" "es_confirmed_high (note_bid b n s) = es_confirmed_high s"
  "es_hwm_confirm_count (note_bid b n s) = es_hwm_confirm_count s"
  "es_high_pnl_pct (note_progress p n s) = es_high_pnl_pct s" "es_low_pnl_pct (note_progress p n s) = es_low_pnl_pct s"
  "es_high_water_mark (note_progress p n s) = es_high_water_mark s"
  "es_confirmed_high (note_progress p n s) = es_confirmed_high s"
  "es_hwm_confirm_count (note_progress p n s) = es_hwm_confirm_count s"
  by (simp_all add: note_depth_def note_bid_def note_progress_def)

lemma note_high_ok:
  assumes "es_confirmed_high s \<le> es_high_water_mark s" "es_hwm_confirm_count s \<le> U32_MAX"
  shows "es_confirmed_high (note_high D v k cfg s) \<le> es_high_water_mark (note_high D v k cfg s)"
    and "es_hwm_confirm_count (note_high D v k cfg s) \<le> U32_MAX"
proof -
  have "(1::nat) \<le> U32_MAX" by (simp add: U32_MAX_def)
  thus "es_confirmed_high (note_high D v k cfg s) \<le> es_high_water_mark (note_high D v k cfg s)"
    "es_hwm_confirm_count (note_high D v k cfg s) \<le> U32_MAX"
    using assms by (auto simp: note_high_def Let_def)
qed

lemma note_pnl_extremes [simp]:
  "es_high_pnl_pct (note_pnl p n s) = (if p > es_high_pnl_pct s then p else es_high_pnl_pct s)"
  "es_low_pnl_pct (note_pnl p n s) = (if p < es_low_pnl_pct s then p else es_low_pnl_pct s)"
  by (simp_all add: note_pnl_def)

lemma exit_state_ok_quote:
  assumes "div_laws D" "exit_state_ok D e s"
  shows "exit_state_ok D e (note_high D v k cfg (note_pnl (pnl_pct D v e) now s))"
proof -
  let ?s = "note_pnl (pnl_pct D v e) now s"
  have ok: "es_low_pnl_pct s \<le> 0" "0 \<le> es_high_pnl_pct s" "e \<le> es_high_water_mark s"
    "es_confirmed_high s \<le> es_high_water_mark s" "es_hwm_confirm_count s \<le> U32_MAX"
    and h: "es_high_pnl_pct s = pnl_pct D (es_high_water_mark s) e"
    using assms(2) by (simp_all add: exit_state_ok_def)
  have "es_confirmed_high ?s \<le> es_high_water_mark ?s" "es_hwm_confirm_count ?s \<le> U32_MAX"
    using ok by simp_all
  note nh = note_high_ok[OF this, of D v k cfg]
  have "es_high_pnl_pct (note_high D v k cfg ?s) = pnl_pct D (es_high_water_mark (note_high D v k cfg ?s)) e"
    using high_pnl_update[OF assms(1) h, of v] by simp
  moreover have "0 \<le> es_high_pnl_pct (note_high D v k cfg ?s)" using ok by simp
  moreover have "es_low_pnl_pct (note_high D v k cfg ?s) \<le> 0" using ok by simp
  moreover have "e \<le> es_high_water_mark (note_high D v k cfg ?s)" using ok by simp
  ultimately show ?thesis using nh unfolding exit_state_ok_def by blast
qed

theorem exit_state_ok_update:
  assumes "div_laws D" "exit_state_ok D e s"
  shows "exit_state_ok D e (update_exit_state_interval D e book now cfg lst tick s)"
  using assms(2) exit_state_ok_quote[OF assms]
  by (auto simp: update_exit_state_interval_def Let_def exit_state_ok_def split: option.splits)


section \<open>The replay's interval update\<close>

text \<open>The instants of the skipped maintenance ticks between two runs.\<close>

definition boundaries :: "int \<Rightarrow> int \<Rightarrow> nat \<Rightarrow> int list" where
  "boundaries lst tick n = map (\<lambda>i. lst + tick * int (Suc i)) [0..<n]"

text \<open>The quiet part of the state: what a re-run against the same book leaves as it is.\<close>

definition settled :: "dec_ops \<Rightarrow> decimal \<Rightarrow> book_view \<Rightarrow> exit_state \<Rightarrow> bool" where
  "settled D e b s \<longleftrightarrow> pnl_pct D (bv_best_bid b) e \<le> es_high_pnl_pct s \<and>
     es_low_pnl_pct s \<le> pnl_pct D (bv_best_bid b) e \<and>
     (pnl_pct D (bv_best_bid b) e > 0 \<longrightarrow> es_was_ever_positive s) \<and>
     bv_best_bid b \<le> es_high_water_mark s \<and>
     (es_initial_depth s = 0 \<longrightarrow> bv_bid_depth b + bv_ask_depth b = 0) \<and>
     es_last_bid_price s = bv_best_bid b \<and>
     \<bar>pnl_pct D (bv_best_bid b) e - es_last_progress_pct s\<bar> \<le> 1"

definition usable :: "decimal \<Rightarrow> book_view \<Rightarrow> bool" where
  "usable e b \<longleftrightarrow> 0 < e \<and> 0 < bv_best_bid b"

lemma update_usable:
  assumes "usable e b"
  shows "update_exit_state_interval D e (Some b) now cfg lst tick s =
    (let pct = pnl_pct D (bv_best_bid b) e in
     note_progress pct now (note_bid b now (note_depth b
       (note_high D (bv_best_bid b) (skipped_boundaries now lst tick) cfg (note_pnl pct now s)))))"
  using assms by (simp add: update_exit_state_interval_def usable_def executable_bid_def Let_def)

lemma note_settles [simp]:
  "es_last_bid_price (note_bid b n s) = bv_best_bid b"
  "es_last_bid_price (note_progress p n s) = es_last_bid_price s"
  "es_last_progress_pct (note_progress p n s) =
     (if \<bar>p - es_last_progress_pct s\<bar> > 1 then p else es_last_progress_pct s)"
  "es_initial_depth (note_depth b s) =
     (if es_initial_depth s = 0 then bv_bid_depth b + bv_ask_depth b else es_initial_depth s)"
  "es_initial_depth (note_bid b n s) = es_initial_depth s"
  "es_initial_depth (note_progress p n s) = es_initial_depth s"
  "es_was_ever_positive (note_pnl p n s) \<longleftrightarrow> es_was_ever_positive s \<or> p > 0"
  "es_was_ever_positive (note_high D v k cfg s) = es_was_ever_positive s"
  "es_was_ever_positive (note_depth b s) = es_was_ever_positive s"
  "es_was_ever_positive (note_bid b n s) = es_was_ever_positive s"
  "es_was_ever_positive (note_progress p n s) = es_was_ever_positive s"
  by (simp_all add: note_bid_def note_progress_def note_depth_def note_pnl_def note_high_def Let_def)

lemma settled_update:
  assumes "usable e b"
  shows "settled D e b (update_exit_state_interval D e (Some b) now cfg lst tick s)"
  unfolding update_usable[OF assms] settled_def Let_def
  by (intro conjI) (simp_all split: if_splits)

text \<open>On a settled state a run only walks the counter and stamps the quote.\<close>

definition walk :: "dec_ops \<Rightarrow> book_view \<Rightarrow> exit_config \<Rightarrow> nat \<Rightarrow> int \<Rightarrow> exit_state \<Rightarrow> exit_state" where
  "walk D b cfg k now s =
    (let s1 = s\<lparr>es_last_quote_at_ms := now\<rparr> in
     if near_high D (bv_best_bid b) s cfg
     then let n = min (es_hwm_confirm_count s + min k U32_MAX) U32_MAX
       in if n \<ge> xc_ratchet_confirm_ticks cfg
          then s1\<lparr>es_hwm_confirm_count := n, es_confirmed_high := es_high_water_mark s\<rparr>
          else s1\<lparr>es_hwm_confirm_count := n\<rparr>
     else s1\<lparr>es_hwm_confirm_count := 0\<rparr>)"

lemma saturating_walk:
  "u32_saturating_add (u32_saturating_add c (min k (U32_MAX - Suc 0))) (Suc 0) =
     min (c + min (Suc k) U32_MAX) U32_MAX"
  by (auto simp: u32_saturating_add_def U32_MAX_def)

lemma settled_run:
  assumes "usable e b" "settled D e b s"
  shows "update_exit_state_interval D e (Some b) now cfg lst tick s =
    walk D b cfg (Suc (skipped_boundaries now lst tick)) now s"
proof -
  let ?p = "pnl_pct D (bv_best_bid b) e"
  have np: "note_pnl ?p now s = s\<lparr>es_last_quote_at_ms := now\<rparr>"
    using assms(2) by (cases s) (auto simp: note_pnl_def settled_def)
  have nh: "note_high D (bv_best_bid b) k cfg (s\<lparr>es_last_quote_at_ms := now\<rparr>) = walk D b cfg (Suc k) now s" for k
    using assms(2) by (simp add: note_high_def walk_def near_high_def settled_def Let_def saturating_walk)
  have w: "es_initial_depth (walk D b cfg j now s) = es_initial_depth s"
    "es_last_bid_price (walk D b cfg j now s) = es_last_bid_price s"
    "es_last_progress_pct (walk D b cfg j now s) = es_last_progress_pct s" for j
    by (simp_all add: walk_def Let_def)
  have dep: "note_depth b (walk D b cfg j now s) = walk D b cfg j now s" for j
    using assms(2) w(1)[of j] by (cases "walk D b cfg j now s") (auto simp: note_depth_def settled_def)
  show ?thesis using assms(2) unfolding update_usable[OF assms(1)] Let_def np nh dep
    by (simp add: note_bid_def note_progress_def w settled_def)
qed


lemma settled_walk: "settled D e b s \<Longrightarrow> settled D e b (walk D b cfg k now s)"
  by (simp add: settled_def walk_def Let_def)

text \<open>Two walks are one: the counter adds up, saturation included.\<close>

lemma walk_walk: "walk D b cfg j t2 (walk D b cfg k t1 s) = walk D b cfg (k + j) t2 s" if "0 < j"
proof (cases "near_high D (bv_best_bid b) s cfg")
  case True
  have sat: "min (min (c + min k U32_MAX) U32_MAX + min j U32_MAX) U32_MAX = min (c + min (k + j) U32_MAX) U32_MAX"
    for c :: nat by (simp add: min_def)
  have nh: "near_high D (bv_best_bid b) (walk D b cfg k t1 s) cfg"
    using True by (simp add: near_high_def walk_def Let_def)
  have cnt: "es_hwm_confirm_count (walk D b cfg k t1 s) = min (es_hwm_confirm_count s + min k U32_MAX) U32_MAX"
    using True by (simp add: walk_def Let_def)
  have mono: "min (c + min k U32_MAX) U32_MAX \<le> min (c + min (k + j) U32_MAX) U32_MAX" for c :: nat
    by (simp add: min_def)
  show ?thesis using True nh mono[of "es_hwm_confirm_count s"]
    unfolding walk_def[of D b cfg j] cnt by (auto simp: walk_def Let_def sat)
next
  case False
  have "\<not> near_high D (bv_best_bid b) (walk D b cfg k t1 s) cfg"
    using False by (simp add: near_high_def walk_def Let_def)
  thus ?thesis using False by (simp add: walk_def Let_def)
qed

lemma skipped_self [simp]: "skipped_boundaries now now tick = 0"
  by (simp add: skipped_boundaries_def)

lemma settled_tick:
  assumes "usable e b" "settled D e b s"
  shows "update_exit_state D e (Some b) now cfg s = walk D b cfg 1 now s"
  using settled_run[OF assms] by (simp add: update_exit_state_def)

lemma walk_ticks:
  assumes "usable e b" "settled D e b s" "ts \<noteq> []"
  shows "fold (\<lambda>t. update_exit_state D e (Some b) t cfg) ts s = walk D b cfg (length ts) (last ts) s"
  using assms(3)
proof (induction ts rule: rev_nonempty_induct)
  case (single x)
  show ?case using settled_tick[OF assms(1,2)] by simp
next
  case (snoc x xs)
  show ?case using settled_tick[OF assms(1) settled_walk[OF assms(2)]] snoc walk_walk[of 1] by simp
qed

text \<open>. The interval update is the pass of every tick, skipped: between two runs over an unchanged
  book, one compensated update leaves exactly the state that an update at every skipped maintenance
  tick and at the present instant would have left, counter saturation and latching included. (With
  no usable bid neither does anything.)\<close>

theorem exit_interval_is_every_tick:
  assumes "0 < tick" "lst < now" "usable e b"
  shows "update_exit_state_interval D e (Some b) now cfg lst tick (update_exit_state D e (Some b) lst cfg s) =
    fold (\<lambda>t. update_exit_state D e (Some b) t cfg)
      (boundaries lst tick (skipped_boundaries now lst tick) @ [now]) (update_exit_state D e (Some b) lst cfg s)"
proof -
  have st: "settled D e b (update_exit_state D e (Some b) lst cfg s)"
    unfolding update_exit_state_def by (rule settled_update[OF assms(3)])
  have ne: "boundaries lst tick n @ [now] \<noteq> []" for n by simp
  show ?thesis unfolding settled_run[OF assms(3) st] walk_ticks[OF assms(3) st ne]
    by (simp add: boundaries_def)
qed

lemma boundaries_between:
  assumes "0 < tick" "lst < now" "t \<in> set (boundaries lst tick (skipped_boundaries now lst tick))"
  shows "lst < t \<and> t < now \<and> tick dvd (t - lst)"
proof -
  obtain i where i: "i \<in> {0..<skipped_boundaries now lst tick}" "t = lst + tick * int (Suc i)"
    using assms(3) unfolding boundaries_def set_map set_upt by auto
  have n: "skipped_boundaries now lst tick = nat (now - lst - 1) div nat tick"
    using assms(1,2) by (cases "tick = 1") (auto simp: skipped_boundaries_def Let_def nat_diff_distrib max_def nat_le_iff)
  have "Suc i \<le> skipped_boundaries now lst tick" using i(1) by simp
  hence "Suc i * nat tick \<le> nat (now - lst - 1)"
    unfolding n using assms(1) by (simp add: less_eq_div_iff_mult_less_eq)
  hence "int (Suc i) * tick \<le> now - lst - 1"
    using assms(1,2) by (metis (no_types) int_eq_iff int_nat_eq of_nat_le_iff of_nat_mult nat_int less_imp_le zle_diff1_eq diff_gt_0_iff_gt)
  moreover have "0 < int (Suc i) * tick" using assms(1) by simp
  ultimately show ?thesis unfolding i(2) by (simp add: mult.commute)
qed


lemma half_ceil:
  assumes "0 < n" "0 < (k::nat)"
  shows "Suc ((n * k - 1) div (2 * k)) = (n + 1) div 2"
proof (cases "even n")
  case True
  then obtain m where m: "n = 2 * m" "0 < m" using assms(1) by (auto elim!: evenE)
  have "n * k - 1 = (2 * k - 1) + (m - 1) * (2 * k)"
    using m assms(2) by (cases m) (auto simp: algebra_simps)
  hence "(n * k - 1) div (2 * k) = (m - 1) + (2 * k - 1) div (2 * k)"
    using assms(2) by (metis add.commute div_mult_self1 mult_is_0 neq0_conv zero_neq_numeral)
  thus ?thesis using m assms(2) by simp
next
  case False
  then obtain m where m: "n = 2 * m + 1" by (auto elim!: oddE)
  have "n * k - 1 = (k - 1) + m * (2 * k)" using m assms(2) by (simp add: algebra_simps)
  hence "(n * k - 1) div (2 * k) = m + (k - 1) div (2 * k)"
    using assms(2) by (metis add.commute div_mult_self1 mult_is_0 neq0_conv zero_neq_numeral)
  thus ?thesis using m assms(2) by simp
qed

lemma skipped_double_step:
  assumes "0 < tick" "0 < n"
  shows "Suc (skipped_boundaries (lst + int n * tick) lst (2 * tick)) = (n + 1) div 2"
proof -
  have g: "\<not> int n * tick \<le> 0" using assms by (simp add: not_le)
  hence "skipped_boundaries (lst + int n * tick) lst (2 * tick) = (n * nat tick - 1) div (2 * nat tick)"
    using assms by (simp add: skipped_boundaries_def Let_def max_def nat_mult_distrib nat_le_iff g)
  thus ?thesis using half_ceil[OF assms(2), of "nat tick"] assms(1) by simp
qed

lemma walk_counter:
  assumes "near_high D (bv_best_bid b) s cfg" "es_hwm_confirm_count s + k \<le> U32_MAX"
  shows "es_hwm_confirm_count (walk D b cfg k now s) = es_hwm_confirm_count s + k"
  using assms by (simp add: walk_def Let_def)

text \<open>The base kernel's maintenance tick updates the state twice: in the valuation pass and in the
  ladder.\<close>

definition twice_per_tick :: "int \<Rightarrow> int \<Rightarrow> nat \<Rightarrow> int list" where
  "twice_per_tick lst tick n = concat (map (\<lambda>t. [t, t]) (boundaries lst tick n))"

lemma length_twice: "length (twice_per_tick lst tick n) = 2 * n"
  by (induction n) (simp_all add: twice_per_tick_def boundaries_def)

text \<open>. The update at the DOUBLE rate runs at half the rate. After \<open>n\<close> maintenance ticks over an
  unchanged book near its high, the base kernel, which updates twice per tick, has advanced the
  confirmation counter by \<open>2n\<close>; \<open>update_exit_state_interval_2x\<close> passes twice the tick as the step and
  advances it by only half of \<open>n\<close>, rounded up. The counter the replay confirms a high with is always
  behind the one it claims to reproduce.\<close>

theorem exit_2x_runs_at_half_rate:
  assumes "0 < tick" "0 < n" "usable e b" "settled D e b s" "near_high D (bv_best_bid b) s cfg"
    and room: "es_hwm_confirm_count s + 2 * n \<le> U32_MAX"
  shows "es_hwm_confirm_count (update_exit_state_interval_2x D e (Some b) (lst + int n * tick) cfg lst tick s) =
      es_hwm_confirm_count s + (n + 1) div 2 \<and>
    es_hwm_confirm_count (fold (\<lambda>t. update_exit_state D e (Some b) t cfg) (twice_per_tick lst tick n) s) =
      es_hwm_confirm_count s + 2 * n"
proof
  have le: "es_hwm_confirm_count s + (n + 1) div 2 \<le> U32_MAX" using room by linarith
  show "es_hwm_confirm_count (update_exit_state_interval_2x D e (Some b) (lst + int n * tick) cfg lst tick s) =
      es_hwm_confirm_count s + (n + 1) div 2"
    unfolding update_exit_state_interval_2x_def settled_run[OF assms(3,4)] skipped_double_step[OF assms(1,2)]
    by (rule walk_counter[OF assms(5) le])
  have ne: "twice_per_tick lst tick n \<noteq> []" using length_twice[of lst tick n] assms(2) by auto
  show "es_hwm_confirm_count (fold (\<lambda>t. update_exit_state D e (Some b) t cfg) (twice_per_tick lst tick n) s) =
      es_hwm_confirm_count s + 2 * n"
    unfolding walk_ticks[OF assms(3,4) ne] length_twice by (rule walk_counter[OF assms(5) room])
qed

section \<open>Witnesses\<close>

text \<open>A round with five minutes left, a position bought at 0.50, the shipped configuration.\<close>

definition sample_book :: "decimal \<Rightarrow> decimal \<Rightarrow> book_view" where
  "sample_book bid ask = \<lparr>bv_bid_depth = 100, bv_ask_depth = 100, bv_best_bid = bid, bv_best_ask = ask,
     bv_mid_price = (if 0 < bid \<and> 0 < ask then (bid + ask) / 2 else 0), bv_timestamp = 0,
     bv_has_bids = (0 < bid), bv_has_asks = (0 < ask)\<rparr>"

definition sample_tick :: "book_view \<Rightarrow> exit_tick_input" where
  "sample_tick b = \<lparr>xi_entry_price = 1 / 2, xi_book = Some b, xi_fallback_price = Some (1 / 2),
     xi_time_left_sec = 300, xi_hold_sec = 60, xi_state = exit_state_new (1 / 2) 0, xi_now_ms = 1000,
     xi_cfg = exit_config_default\<rparr>"

lemma sample_width: "stop_width exact_dec (sample_tick b) = 12"
  by (simp add: stop_width_def sample_tick_def exit_config_default_def effective_stop_pct_def)

lemma sample_open: "ladder_open (sample_tick b)"
  by (simp add: ladder_open_def sample_tick_def exit_config_default_def)

text \<open>A wick: the bid fell to 0.30 while the ask stayed at 0.66.\<close>

lemma sample_wick_held:
  "ev_decision (decide_exit_verdict exact_dec None (sample_tick (sample_book (3/10) (66/100)))) = None"
  by code_simp

theorem exit_stop_never_swallowed_witness:
  "\<exists>x. ev_suppressed_stop (decide_exit_verdict exact_dec None (sample_tick (sample_book (3/10) (66/100)))) = Some x \<and>
       ss_bid x = 3/10 \<and> ss_mid x = 48/100 \<and> - 12 < pnl_pct exact_dec (48/100) (1/2)"
  using exit_stop_never_swallowed[OF sample_open, of "sample_book (3/10) (66/100)" "sample_book (3/10) (66/100)" exact_dec None]
    sample_wick_held
  by (simp add: sample_width) (simp add: sample_tick_def sample_book_def pnl_pct_def)

theorem exit_swept_book_stops_witness:
  "ev_decision (decide_exit_verdict exact_dec None (sample_tick (sample_book 0 (2/10)))) \<noteq> None"
  by (rule exit_swept_book_stops[OF sample_open, of _ "sample_book 0 (2/10)" exact_dec None])
    (simp_all add: sample_width, simp_all add: sample_tick_def sample_book_def pnl_pct_def exit_config_default_def)

theorem exit_state_ok_update_witness:
  "exit_state_ok exact_dec (1/2) (update_exit_state_interval exact_dec (1/2) (Some (sample_book (6/10) (7/10)))
     100 exit_config_default 0 1 (exit_state_new (1/2) 0))"
  by (rule exit_state_ok_update[OF exact_div_laws exit_state_ok_new[OF exact_div_laws]])

lemma sample_usable: "usable (1/2) (sample_book (6/10) (7/10))"
  by (simp add: usable_def sample_book_def)

theorem exit_interval_is_every_tick_witness:
  "update_exit_state_interval exact_dec (1/2) (Some (sample_book (6/10) (7/10))) 100 exit_config_default 0 10
      (update_exit_state exact_dec (1/2) (Some (sample_book (6/10) (7/10))) 0 exit_config_default (exit_state_new (1/2) 0)) =
    fold (\<lambda>t. update_exit_state exact_dec (1/2) (Some (sample_book (6/10) (7/10))) t exit_config_default)
      (boundaries 0 10 (skipped_boundaries 100 0 10) @ [100])
      (update_exit_state exact_dec (1/2) (Some (sample_book (6/10) (7/10))) 0 exit_config_default (exit_state_new (1/2) 0))"
  by (rule exit_interval_is_every_tick[OF _ _ sample_usable]) simp_all

definition sample_high :: exit_state where
  "sample_high = (exit_state_new (1/2) 0)\<lparr>es_high_pnl_pct := 20, es_was_ever_positive := True,
     es_high_water_mark := 6/10, es_hwm_confirm_count := 1, es_last_bid_price := 6/10,
     es_last_progress_pct := 20, es_initial_depth := 200\<rparr>"

lemma sample_high_settled:
  "settled exact_dec (1/2) (sample_book (6/10) (7/10)) sample_high"
  "near_high exact_dec (bv_best_bid (sample_book (6/10) (7/10))) sample_high exit_config_default"
  "es_hwm_confirm_count sample_high + 2 * 10 \<le> U32_MAX"
  by (simp_all add: settled_def near_high_def sample_high_def sample_book_def exit_state_new_def pnl_pct_def
    exit_config_default_def U32_MAX_def)

theorem exit_2x_runs_at_half_rate_witness:
  "es_hwm_confirm_count (update_exit_state_interval_2x exact_dec (1/2) (Some (sample_book (6/10) (7/10)))
      (0 + int 10 * 1) exit_config_default 0 1 sample_high) = es_hwm_confirm_count sample_high + (10 + 1) div 2 \<and>
    es_hwm_confirm_count (fold (\<lambda>t. update_exit_state exact_dec (1/2) (Some (sample_book (6/10) (7/10))) t
      exit_config_default) (twice_per_tick 0 1 10) sample_high) = es_hwm_confirm_count sample_high + 2 * 10"
  by (rule exit_2x_runs_at_half_rate[OF _ _ sample_usable sample_high_settled]) simp_all

theorem exit_stop_width_witness:
  "min 12 10 \<le> effective_stop_pct exact_dec 12 100 exit_config_default \<and>
    effective_stop_pct exact_dec 12 100 exit_config_default \<le> 12 \<and>
    effective_stop_pct exact_dec 12 100 exit_config_default \<le> effective_stop_pct exact_dec 12 200 exit_config_default \<and>
    holder_effective_stop_pct exact_dec 100 exit_config_default = HOLDS_STOP_PCT"
  using exit_stop_width[OF exact_div_laws, of 12 exit_config_default 100 200]
  by (simp add: exit_config_default_def)

end
