(* ===== verification/PositionExits.thy ===== *)
theory PositionExits
  imports Position ExitPolicyProps
begin

text \<open>
  The exit sweep of the position manager, \<open>core/blitzkrieg_core/src/position/exits.rs\<close>: the valuation of
  the open rows from their books, the decision per row with the strategy's overlays, the operator's exit
  ladder, and the report of exits no order followed for. \<open>books\<close> is the callback that looks a token's
  book up. A row's part of the sweep is \<open>sweep_row\<close>; the sweep folds it over the open rows, the manager's
  per-position ledgers being threaded through.
\<close>

section \<open>Reports\<close>

definition UNPRICEABLE_ESCALATION_BUDGETS :: int where
  "UNPRICEABLE_ESCALATION_BUDGETS = 3"

record exit_request =
  xr_position_id :: string
  xr_reason :: exit_reason
  xr_exit_price :: decimal
  xr_use_maker :: bool
  xr_close_shares :: "decimal option"

fun exit_reason_debug :: "exit_reason \<Rightarrow> string" where
  "exit_reason_debug TakeProfit = ''TakeProfit''"
| "exit_reason_debug StopLoss = ''StopLoss''"
| "exit_reason_debug RatchetFloor = ''RatchetFloor''"
| "exit_reason_debug TrailingStop = ''TrailingStop''"
| "exit_reason_debug BreakevenLock = ''BreakevenLock''"
| "exit_reason_debug DepthCollapse = ''DepthCollapse''"
| "exit_reason_debug StaleProfit = ''StaleProfit''"
| "exit_reason_debug StagnantProfit = ''StagnantProfit''"
| "exit_reason_debug TimeExit = ''TimeExit''"
| "exit_reason_debug ForceExit = ''ForceExit''"
| "exit_reason_debug Manual = ''Manual''"
| "exit_reason_debug StrategySignal = ''StrategySignal''"
| "exit_reason_debug Settlement = ''Settlement''"
| "exit_reason_debug Merge = ''Merge''"
| "exit_reason_debug UnverifiableExpiry = ''UnverifiableExpiry''"
| "exit_reason_debug ThesisDeathExit = ''ThesisDeathExit''"

definition escalation_note :: "suppressed_stop_event \<Rightarrow> message" where
  "escalation_note e = (if se_escalated e
     then [Txt '', ESCALATED: unpriceable '', Num (tdiv (se_unpriceable_for_ms e) 1000), Txt ''s''] else [])"

definition event_what :: "suppressed_stop_event \<Rightarrow> message" where
  "event_what e = (case se_reason e of
     Some StopLoss \<Rightarrow> [Txt ''protective stop SUPPRESSED'']
   | Some r \<Rightarrow> [Txt ''exit rule '', Txt (exit_reason_debug r), Txt '' withheld'']
   | None \<Rightarrow> [Txt ''position UNPRICEABLE''])"

definition suppressed_message :: "suppressed_stop_event \<Rightarrow> message" where
  "suppressed_message e = event_what e @ (case se_cause e of
     WickGuard \<Rightarrow> [Txt '' (wick guard): '', Txt (se_position_id e), Txt '' '', Txt (se_asset e),
       Txt '' entry '', Dec (se_entry_price e), Txt '' bid '', Dec (se_bid e), Txt '' (-'',
       Dec \<bar>se_pnl_pct_at_bid e\<bar>, Txt ''%) mid '', Dec (se_mid e), Txt '' ('', Dec (se_pnl_pct_at_mid e),
       Txt ''%) stop '', Dec (se_stop_pct e),
       Txt ''% - raw bid breached the stop, mid did not confirm'']
   | StaleBook \<Rightarrow> [Txt '' (stale book''] @ escalation_note e @ [Txt ''): '', Txt (se_position_id e), Txt '' '',
       Txt (se_asset e), Txt '' entry '', Dec (se_entry_price e), Txt '' bid '', Dec (se_bid e), Txt '' ('',
       Dec (se_pnl_pct_at_bid e), Txt ''%) judged '', Dec (se_mid e), Txt '' ('', Dec (se_pnl_pct_at_mid e),
       Txt ''%) - the book is '', Num (case se_book_age_ms e of Some a \<Rightarrow> a | None \<Rightarrow> 0),
       Txt ''ms past its age budget, so that bid is not a buyer standing here now and no order was sent; the position is held until a fresh book arrives or expiry settles it'']
   | NoExecutableQuote \<Rightarrow>
       if se_bid e > 0
       then [Txt '' (stale quote): '', Txt (se_position_id e), Txt '' '', Txt (se_asset e), Txt '' entry '',
         Dec (se_entry_price e), Txt '' bid '', Dec (se_bid e), Txt '' ('', Dec (se_pnl_pct_at_bid e),
         Txt ''%) stop '', Dec (se_stop_pct e),
         Txt ''% - the exit rule fired, but the book was past its staleness budget, so that bid could not price a SELL; the position is held until a fresh quote appears or expiry settles it'']
       else [Txt '' (no executable bid): '', Txt (se_position_id e), Txt '' '', Txt (se_asset e),
         Txt '' entry '', Dec (se_entry_price e), Txt '' judged '', Dec (se_mid e), Txt '' ('',
         Dec (se_pnl_pct_at_mid e), Txt ''%) stop '', Dec (se_stop_pct e),
         Txt ''% - the exit rule fired, but the book showed no bid at all, so no order was sent; the position is held until a buyer appears or expiry settles it''])"

text \<open>A report is dropped within the repeat gap of the position's last one.\<close>

definition note_suppressed_stop :: "suppressed_stop_event \<Rightarrow> position_manager \<Rightarrow> position_manager" where
  "note_suppressed_stop e m =
    (let gap = max (pc_stop_suppression_repeat_sec (pm_config m)) 0 * 1000;
         record = m\<lparr>pm_last_suppression_at := AList.update (se_position_id e) (se_now_ms e) (pm_last_suppression_at m),
           pm_suppressed_stop_count := pm_suppressed_stop_count m + 1,
           pm_suppressed_stops := pm_suppressed_stops m @ [e]\<rparr>
     in case map_of (pm_last_suppression_at m) (se_position_id e) of
       Some prev \<Rightarrow> if gap > 0 \<and> se_now_ms e - prev < gap then m else record
     | None \<Rightarrow> record)"

definition drain_suppressed_stops :: "position_manager \<Rightarrow> position_manager \<times> suppressed_stop_event list" where
  "drain_suppressed_stops m = (m\<lparr>pm_suppressed_stops := []\<rparr>, pm_suppressed_stops m)"

section \<open>Valuation\<close>

text \<open>The display marks of a row, from its token's book.\<close>

definition refresh_mark :: "book_view option \<Rightarrow> int \<Rightarrow> open_position \<Rightarrow> open_position" where
  "refresh_mark book now p =
    (let v = reference_price book (p_current_price p);
         p1 = (if v > 0 \<and> p_current_price p \<noteq> v
           then p\<lparr>p_prev_price := p_current_price p, p_current_price := v\<rparr> else p)
     in case book of
       Some b \<Rightarrow> p1\<lparr>p_last_book_ts := (if bv_timestamp b > 0 then bv_timestamp b else now)\<rparr>
     | None \<Rightarrow> p1)"

definition valuate_one :: "dec_ops \<Rightarrow> book_view option \<Rightarrow> int \<Rightarrow> exit_config \<Rightarrow> open_position \<Rightarrow> open_position" where
  "valuate_one D book now cfg p = refresh_mark book now
     (p\<lparr>p_state := update_exit_state D (p_entry_price p) book now cfg (p_state p)\<rparr>)"

definition tick_pm :: "dec_ops \<Rightarrow> string \<Rightarrow> book_view option \<Rightarrow> int \<Rightarrow> position_manager \<Rightarrow> position_manager" where
  "tick_pm D i book now m = m\<lparr>pm_open :=
     update_first (\<lambda>p. p_id p = i) (valuate_one D book now (pc_exit (pm_config m))) (pm_open m)\<rparr>"

definition valuate :: "dec_ops \<Rightarrow> (string \<Rightarrow> book_view option) \<Rightarrow> int \<Rightarrow> position_manager \<Rightarrow> position_manager" where
  "valuate D books now m = m\<lparr>pm_open :=
     map (\<lambda>p. valuate_one D (books (p_token_id p)) now (pc_exit (pm_config m)) p) (pm_open m)\<rparr>"

definition valuate_dirty_tokens ::
  "dec_ops \<Rightarrow> (string \<Rightarrow> book_view option) \<Rightarrow> int \<Rightarrow> string list \<Rightarrow> position_manager \<Rightarrow> position_manager" where
  "valuate_dirty_tokens D books now dirty m =
    (if dirty = [] then m
     else m\<lparr>pm_open := map (\<lambda>p. if p_token_id p \<in> set dirty
       then valuate_one D (books (p_token_id p)) now (pc_exit (pm_config m)) p else p) (pm_open m)\<rparr>)"

definition refresh_marks ::
  "(string \<Rightarrow> book_view option) \<Rightarrow> int \<Rightarrow> bool \<Rightarrow> string list \<Rightarrow> position_manager \<Rightarrow> position_manager" where
  "refresh_marks books now all dirty m = m\<lparr>pm_open :=
     map (\<lambda>p. if \<not> all \<and> p_token_id p \<notin> set dirty then p else refresh_mark (books (p_token_id p)) now p)
       (pm_open m)\<rparr>"

section \<open>The exit ladder\<close>

text \<open>The overlay on one row: \<open>st\<close> is the index of the next step, \<open>fl\<close> the raised stop floor.\<close>

definition apply_exit_ladder_step ::
  "dec_ops \<Rightarrow> open_position \<Rightarrow> ladder_step list \<Rightarrow> nat \<Rightarrow> decimal \<Rightarrow> decimal \<Rightarrow> decimal
     \<Rightarrow> (exit_reason \<times> bool) option \<Rightarrow> bool \<Rightarrow> nat \<times> decimal \<times> exit_request option" where
  "apply_exit_ladder_step D p ladder st fl stop_pct exit_price verdict maker_first =
    (let policy_stop_price = p_entry_price p * (1 - ddiv D stop_pct 100);
         stop_price = max fl policy_stop_price;
         pnl = pnl_pct D exit_price (p_entry_price p)
     in if pnl \<le> - stop_pct \<or> exit_price \<le> stop_price
        then (st, fl, Some \<lparr>xr_position_id = p_id p, xr_reason = StopLoss, xr_exit_price = exit_price,
          xr_use_maker = False, xr_close_shares = None\<rparr>)
        else if st \<ge> length ladder then (st, fl, None)
        else
          let step = ladder ! st;
              triggered = (if ls_at_pct step \<ge> 0 then pnl \<ge> ls_at_pct step else pnl \<le> ls_at_pct step);
              tranche = floor_to_grid D (p_shares p * ls_close_ratio step)
          in if \<not> triggered then (st, fl, None)
             else if tranche \<le> 0 then (st, fl, None)
             else
               let fl' = (case ls_move_stop_to step of Some r \<Rightarrow> if r > fl then r else fl | None \<Rightarrow> fl);
                   (reason, use_maker) = (case verdict of Some v \<Rightarrow> v
                     | None \<Rightarrow> if ls_at_pct step \<ge> 0 then (TakeProfit, maker_first) else (StopLoss, False))
               in (st + 1, fl', Some \<lparr>xr_position_id = p_id p, xr_reason = reason,
                    xr_exit_price = exit_price, xr_use_maker = use_maker, xr_close_shares = Some tranche\<rparr>))"

section \<open>The sweep\<close>

definition row_config :: "position_manager \<Rightarrow> open_position \<Rightarrow> exit_config" where
  "row_config m p =
    (let cfg = pc_exit (pm_config m);
         holder = (map_of (pm_holder_stop_overrides m) (p_strategy p) \<noteq> None);
         trailing = map_of (pm_trailing_overrides m) (p_strategy p)
     in if \<not> holder
        then (case trailing of None \<Rightarrow> cfg
          | Some t \<Rightarrow> if t = xc_trailing_enabled cfg then cfg else cfg\<lparr>xc_trailing_enabled := t\<rparr>)
        else (holder_view cfg)\<lparr>xc_trailing_enabled :=
          (case trailing of Some t \<Rightarrow> t | None \<Rightarrow> xc_trailing_enabled cfg)\<rparr>)"

text \<open>The state update of a row, in the every-tick spelling and in the interval spelling.\<close>

definition sweep_update ::
  "dec_ops \<Rightarrow> (string \<Rightarrow> book_view option) \<Rightarrow> int \<Rightarrow> bool \<Rightarrow> int \<Rightarrow> open_position \<Rightarrow> position_manager
     \<Rightarrow> position_manager \<times> open_position" where
  "sweep_update D books now interval tick p m =
    (let cfg = row_config m p; book = books (p_token_id p) in
     if interval
     then (m\<lparr>pm_exit_ladder_last_run := AList.update (p_id p) now (pm_exit_ladder_last_run m)\<rparr>,
           p\<lparr>p_state := update_exit_state_interval_2x D (p_entry_price p) book now cfg
             (case map_of (pm_exit_ladder_last_run m) (p_id p) of Some t \<Rightarrow> t | None \<Rightarrow> now) tick (p_state p)\<rparr>)
     else (m, valuate_one D book now cfg p))"

definition row_fresh :: "book_view option \<Rightarrow> int \<Rightarrow> exit_config \<Rightarrow> bool" where
  "row_fresh book now cfg = (case book of Some b \<Rightarrow> book_is_fresh b now cfg | None \<Rightarrow> True)"

definition row_priceable :: "book_view option \<Rightarrow> int \<Rightarrow> exit_config \<Rightarrow> bool" where
  "row_priceable book now cfg \<longleftrightarrow> executable_bid book > 0 \<and> row_fresh book now cfg"

text \<open>How long the row has been unpriceable: the run starts at its first unpriceable tick and the first
  priceable one clears it.\<close>

definition outage :: "bool \<Rightarrow> string \<Rightarrow> int \<Rightarrow> position_manager \<Rightarrow> position_manager \<times> int" where
  "outage priceable i now m =
    (if priceable then (m\<lparr>pm_unpriceable_since := AList.delete i (pm_unpriceable_since m)\<rparr>, 0)
     else case map_of (pm_unpriceable_since m) i of
       Some since \<Rightarrow> (m, now - since)
     | None \<Rightarrow> (m\<lparr>pm_unpriceable_since := AList.update i now (pm_unpriceable_since m)\<rparr>, 0))"

definition row_tick :: "exit_config \<Rightarrow> book_view option \<Rightarrow> int \<Rightarrow> open_position \<Rightarrow> exit_tick_input" where
  "row_tick cfg book now p = \<lparr>xi_entry_price = p_entry_price p, xi_book = book,
     xi_fallback_price = Some (p_current_price p),
     xi_time_left_sec = tdiv (p_expires_at_ms p - now) 1000, xi_hold_sec = tdiv (now - p_entered_at_ms p) 1000,
     xi_state = p_state p, xi_now_ms = now, xi_cfg = cfg\<rparr>"

definition target_hit :: "exit_config \<Rightarrow> book_view option \<Rightarrow> int \<Rightarrow> open_position \<Rightarrow> decimal option" where
  "target_hit cfg book now p = (case p_target_exit_price p of
     Some t \<Rightarrow> if row_priceable book now cfg \<and> executable_bid book \<ge> t \<and>
                 tdiv (now - p_entered_at_ms p) 1000 \<ge> xc_exit_grace_sec cfg then Some t else None
   | None \<Rightarrow> None)"

definition wick_event ::
  "open_position \<Rightarrow> suppressed_stop \<Rightarrow> int option \<Rightarrow> int \<Rightarrow> bool \<Rightarrow> int \<Rightarrow> suppressed_stop_event" where
  "wick_event p s age unpriceable_for escalated now = \<lparr>se_cause = WickGuard, se_reason = Some StopLoss,
     se_position_id = p_id p, se_token_id = p_token_id p, se_strategy = p_strategy p, se_asset = p_asset p,
     se_entry_price = p_entry_price p, se_bid = ss_bid s, se_mid = ss_mid s,
     se_pnl_pct_at_bid = ss_pnl_pct_at_bid s, se_pnl_pct_at_mid = ss_pnl_pct_at_mid s,
     se_stop_pct = ss_stop_pct s, se_book_age_ms = age, se_unpriceable_for_ms = unpriceable_for,
     se_escalated = escalated, se_now_ms = now\<rparr>"

definition held_exit ::
  "dec_ops \<Rightarrow> open_position \<Rightarrow> exit_config \<Rightarrow> stop_suppression_cause \<Rightarrow> exit_reason option \<Rightarrow> decimal
     \<Rightarrow> stop_reference_t option \<Rightarrow> int option \<Rightarrow> int \<Rightarrow> bool \<Rightarrow> int \<Rightarrow> suppressed_stop_event" where
  "held_exit D p cfg cause reason exit_price stop_ref age unpriceable_for escalated now =
    (let judged = (case stop_ref of Some r \<Rightarrow> sr_price r | None \<Rightarrow> p_current_price p) in
     \<lparr>se_cause = cause, se_reason = reason, se_position_id = p_id p, se_token_id = p_token_id p,
      se_strategy = p_strategy p, se_asset = p_asset p, se_entry_price = p_entry_price p,
      se_bid = exit_price, se_mid = judged,
      se_pnl_pct_at_bid = (if exit_price > 0 then pnl_pct D exit_price (p_entry_price p) else 0),
      se_pnl_pct_at_mid = pnl_pct D judged (p_entry_price p),
      se_stop_pct = effective_stop_pct D (xc_stop_loss_pct cfg) (tdiv (p_expires_at_ms p - now) 1000) cfg,
      se_book_age_ms = age, se_unpriceable_for_ms = unpriceable_for, se_escalated = escalated,
      se_now_ms = now\<rparr>)"

definition tp_or_sl :: "exit_decision \<Rightarrow> bool" where
  "tp_or_sl d \<longleftrightarrow> xd_reason d = TakeProfit \<or> xd_reason d = StopLoss"

definition plain_request :: "open_position \<Rightarrow> decimal \<Rightarrow> exit_decision \<Rightarrow> exit_request" where
  "plain_request p price d = \<lparr>xr_position_id = p_id p, xr_reason = xd_reason d, xr_exit_price = price,
     xr_use_maker = xd_use_maker d, xr_close_shares = None\<rparr>"

text \<open>The overlay's branch of a row: its ledgers are seeded, its request comes first, and a policy
  verdict other than take-profit and stop-loss keeps its own request if the ladder made none.\<close>

definition ladder_branch ::
  "dec_ops \<Rightarrow> exit_config \<Rightarrow> open_position \<Rightarrow> decimal \<Rightarrow> decimal \<Rightarrow> exit_decision option \<Rightarrow> position_manager
     \<Rightarrow> position_manager \<times> exit_request list" where
  "ladder_branch D cfg p stop_pct exit_price decision m =
    (let verdict = (case decision of
           Some d \<Rightarrow> if tp_or_sl d then Some (xd_reason d, xd_use_maker d) else None | None \<Rightarrow> None);
         st = (case map_of (pm_ladder_steps_done m) (p_id p) of Some n \<Rightarrow> n | None \<Rightarrow> 0);
         fl = (case map_of (pm_ladder_stop_floor m) (p_id p) of Some f \<Rightarrow> f | None \<Rightarrow> 0);
         (st', fl', req) = apply_exit_ladder_step D p (pc_exit_ladder (pm_config m)) st fl stop_pct
           exit_price verdict (xc_maker_first_exit_enabled cfg);
         m1 = m\<lparr>pm_ladder_steps_done := AList.update (p_id p) st' (pm_ladder_steps_done m),
           pm_ladder_stop_floor := AList.update (p_id p) fl' (pm_ladder_stop_floor m)\<rparr>
     in (m1, case req of
          Some r \<Rightarrow> [r]
        | None \<Rightarrow> (case decision of
            Some d \<Rightarrow> if tp_or_sl d then [] else [plain_request p exit_price d] | None \<Rightarrow> [])))"

definition sweep_row ::
  "dec_ops \<Rightarrow> fee_schedule option \<Rightarrow> (string \<Rightarrow> book_view option) \<Rightarrow> int \<Rightarrow> bool \<Rightarrow> int \<Rightarrow> open_position
     \<Rightarrow> position_manager \<Rightarrow> position_manager \<times> open_position \<times> exit_request list \<times> suppressed_stop_event list" where
  "sweep_row D fees books now interval tick p0 m0 =
    (let cfg = pc_exit (pm_config m0); pos_cfg = row_config m0 p0; book = books (p_token_id p0);
         (m1, p) = sweep_update D books now interval tick p0 m0;
         exit_price = executable_bid book;
         age = (case book of Some b \<Rightarrow> book_age_ms b now | None \<Rightarrow> None);
         priceable = row_priceable book now cfg;
         (m2, unpriceable_for) = outage priceable (p_id p) now m1;
         escalated = (unpriceable_for \<ge> UNPRICEABLE_ESCALATION_BUDGETS * xc_max_book_age_sec cfg * 1000);
         cause = (if row_fresh book now cfg then NoExecutableQuote else StaleBook)
     in case target_hit cfg book now p of
          Some t \<Rightarrow> (m2, p, [\<lparr>xr_position_id = p_id p, xr_reason = TakeProfit, xr_exit_price = t,
            xr_use_maker = True, xr_close_shares = None\<rparr>], [])
        | None \<Rightarrow>
          let v = decide_exit_verdict D fees (row_tick pos_cfg book now p);
              wick = (case ev_suppressed_stop v of
                Some s \<Rightarrow> [wick_event p s age unpriceable_for escalated now] | None \<Rightarrow> []);
              held = (\<lambda>reason. held_exit D p pos_cfg cause reason exit_price (ev_stop_reference v) age
                unpriceable_for escalated now)
          in if pc_exit_ladder (pm_config m0) \<noteq> [] \<and> priceable
             then let (m3, reqs) = ladder_branch D cfg p
                 (effective_stop_pct D (xc_stop_loss_pct pos_cfg) (tdiv (p_expires_at_ms p - now) 1000) pos_cfg)
                 exit_price (ev_decision v) m2
               in (m3, p, reqs, wick)
             else case ev_decision v of
               Some d \<Rightarrow> if priceable then (m2, p, [plain_request p exit_price d], wick)
                 else (m2, p, [], wick @ [held (Some (xd_reason d))])
             | None \<Rightarrow> if escalated then (m2, p, [], wick @ [held None]) else (m2, p, [], wick))"

fun sweep_rows ::
  "dec_ops \<Rightarrow> fee_schedule option \<Rightarrow> (string \<Rightarrow> book_view option) \<Rightarrow> int \<Rightarrow> bool \<Rightarrow> int \<Rightarrow> open_position list
     \<Rightarrow> position_manager \<Rightarrow> position_manager \<times> open_position list \<times> exit_request list \<times> suppressed_stop_event list" where
  "sweep_rows D fees books now interval tick [] m = (m, [], [], [])"
| "sweep_rows D fees books now interval tick (p # ps) m =
    (let (m1, p', out1, w1) = sweep_row D fees books now interval tick p m;
         (m2, ps', out2, w2) = sweep_rows D fees books now interval tick ps m1
     in (m2, p' # ps', out1 @ out2, w1 @ w2))"

definition check_exits_inner ::
  "dec_ops \<Rightarrow> fee_schedule option \<Rightarrow> (string \<Rightarrow> book_view option) \<Rightarrow> int \<Rightarrow> bool \<Rightarrow> int \<Rightarrow> position_manager
     \<Rightarrow> position_manager \<times> exit_request list" where
  "check_exits_inner D fees books now interval tick m =
    (let (m1, rows, out, withheld) = sweep_rows D fees books now interval tick (pm_open m) m
     in (fold note_suppressed_stop withheld (m1\<lparr>pm_open := rows\<rparr>), out))"

definition check_exits ::
  "dec_ops \<Rightarrow> fee_schedule option \<Rightarrow> (string \<Rightarrow> book_view option) \<Rightarrow> int \<Rightarrow> position_manager
     \<Rightarrow> position_manager \<times> exit_request list" where
  "check_exits D fees books now m = check_exits_inner D fees books now False 0 m"

definition check_exits_interval ::
  "dec_ops \<Rightarrow> fee_schedule option \<Rightarrow> (string \<Rightarrow> book_view option) \<Rightarrow> int \<Rightarrow> bool \<Rightarrow> bool \<Rightarrow> int \<Rightarrow> position_manager
     \<Rightarrow> position_manager \<times> exit_request list" where
  "check_exits_interval D fees books now run_now interval tick m =
    (if \<not> run_now then (m, []) else check_exits_inner D fees books now interval tick m)"

section \<open>Deadlines\<close>

definition earliest :: "int \<Rightarrow> int list \<Rightarrow> int option" where
  "earliest now ts = (case filter (\<lambda>t. t > now) ts of [] \<Rightarrow> None | t # rest \<Rightarrow> Some (foldl min t rest))"

definition next_exit_deadline_ms :: "int \<Rightarrow> position_manager \<Rightarrow> int option" where
  "next_exit_deadline_ms now m = earliest now (map p_expires_at_ms (pm_open m))"

definition next_maintenance_deadline_ms :: "int \<Rightarrow> int \<Rightarrow> position_manager \<Rightarrow> int option" where
  "next_maintenance_deadline_ms now report_beat m =
    earliest now (map p_expires_at_ms (pm_open m) @ [now + report_beat])"

end
