(* ===== verification/PositionDaily.thy ===== *)
theory PositionDaily
  imports Position
begin

text \<open>
  The position manager as a machine over its operations, and its daily-loss budget: a latched trip
  lasts the UTC day whatever else happens, the day's base only tightens, identifiers are never
  reused, and the entry gate admits exactly what it should.
\<close>

section \<open>The manager as a machine\<close>

datatype pos_op = POpen open_params int | PEntry string decimal decimal decimal order_role
  | PExit string decimal decimal decimal order_role decimal | PRebate string decimal
  | PBackfill string int | PDrop string | PClose string decimal exit_reason bool int string
  | PMerge string int | PRestore open_position closed_position
  | PRoll string int decimal equity_basis | PTrips | PRemoveAccount string
  | PVenue string | PVenueTokens "string set" | PTrailing "(string \<times> bool) list"
  | PHolder "(string \<times> decimal) list" | PDisk bool

fun pos_step :: "dec_ops \<Rightarrow> fee_schedule option \<Rightarrow> position_manager \<Rightarrow> pos_op \<Rightarrow> position_manager" where
  "pos_step D st m (POpen o1 now) = fst (open_pm o1 now m)"
| "pos_step D st m (PEntry i sh pr fee r) = fst (apply_entry_fill D i sh pr fee r m)"
| "pos_step D st m (PExit i sh pr fee r reb) = fst (apply_exit_fill D i sh pr fee r reb m)"
| "pos_step D st m (PRebate i reb) = accrue_maker_rebate i reb m"
| "pos_step D st m (PBackfill i s) = backfill_round_duration_pm i s m"
| "pos_step D st m (PDrop i) = fst (drop_if_empty i m)"
| "pos_step D st m (PClose i pr rs mk now src) = fst (close_pm D st i pr rs mk now src m)"
| "pos_step D st m (PMerge c now) = fst (merge_condition D st c now m)"
| "pos_step D st m (PRestore p c) = fst (restore_closed p c m)"
| "pos_step D st m (PRoll a now e b) = fst (roll_daily D a now e b m)"
| "pos_step D st m PTrips = fst (take_daily_trips D m)"
| "pos_step D st m (PRemoveAccount a) = fst (remove_account_positions a m)"
| "pos_step D st m (PVenue c) = fst (backfill_fallback_to_venue c m)"
| "pos_step D st m (PVenueTokens ts) = fst (backfill_fallback_to_venue_tokens ts m)"
| "pos_step D st m (PTrailing o1) = set_trailing_overrides o1 m"
| "pos_step D st m (PHolder o1) = set_holder_stop_overrides o1 m"
| "pos_step D st m (PDisk b) = m\<lparr>pm_disk_ok := b\<rparr>"

section \<open>Buckets\<close>

lemma daily_bucket_put [simp]:
  "daily_bucket b (put_daily a d m) = (if b = a then d else daily_bucket b m)"
  by (simp add: daily_bucket_def put_daily_def)

lemma put_daily_frame [frame_simps]:
  "pm_open (put_daily a d m) = pm_open m" "pm_closed (put_daily a d m) = pm_closed m"
  "pm_next_id (put_daily a d m) = pm_next_id m" "pm_config (put_daily a d m) = pm_config m"
  by (simp_all add: put_daily_def)

lemma persist_daily_frame [frame_simps]:
  "pm_open (persist_daily m) = pm_open m" "pm_closed (persist_daily m) = pm_closed m"
  "pm_next_id (persist_daily m) = pm_next_id m" "pm_config (persist_daily m) = pm_config m"
  "pm_daily (persist_daily m) = pm_daily m"
  by (simp_all add: persist_daily_def split: option.splits)

lemma daily_bucket_persist [simp]: "daily_bucket a (persist_daily m) = daily_bucket a m"
  by (simp add: daily_bucket_def frame_simps)

lemma daily_bucket_cong: "pm_daily m = pm_daily n \<Longrightarrow> daily_bucket a m = daily_bucket a n"
  by (simp add: daily_bucket_def)

text \<open>Everything but the daily budget leaves the buckets alone.\<close>

lemma fills_keep_daily [frame_simps]:
  "pm_daily (fst (open_pm o1 now m)) = pm_daily m"
  "pm_daily (fst (apply_entry_fill D i sh pr fee r m)) = pm_daily m"
  "pm_daily (fst (apply_exit_fill D i sh pr fee r reb m)) = pm_daily m"
  "pm_daily (accrue_maker_rebate i reb m) = pm_daily m"
  "pm_daily (backfill_round_duration_pm i s m) = pm_daily m"
  "pm_daily (fst (drop_if_empty i m)) = pm_daily m"
  "pm_daily (fst (remove_account_positions acc m)) = pm_daily m"
  "pm_daily (fst (backfill_rows P m)) = pm_daily m"
  "pm_daily (clear_cooldowns c m) = pm_daily m"
  by (simp_all add: open_pm_def apply_entry_fill_def apply_exit_fill_def update_open_def Let_def
      accrue_maker_rebate_def backfill_round_duration_pm_def drop_if_empty_def
      remove_account_positions_def backfill_rows_def clear_cooldowns_def split: option.splits)

text \<open>What a close does to the day of its account: the net is added, and the breaker may latch.\<close>

definition latch :: "int \<Rightarrow> decimal \<Rightarrow> daily_loss_state \<Rightarrow> daily_loss_state" where
  "latch now limit d = d\<lparr>dl_tripped := True, dl_tripped_at_ms := now, dl_tripped_limit_usd := limit\<rparr>"

lemma note_bucket:
  "daily_bucket b (note_daily_drawdown D a now m) = daily_bucket b m \<or>
   \<not> dl_tripped (daily_bucket b m) \<and>
   daily_bucket b (note_daily_drawdown D a now m) =
     latch now (effective_daily_loss_limit_for D a m) (daily_bucket b m)"
proof -
  have "daily_bucket a m = d" if "map_of (pm_daily m) (AccountId a) = Some d" for d
    using that by (simp add: daily_bucket_def)
  then show ?thesis
    by (auto simp: note_daily_drawdown_def Let_def latch_def split: option.splits)
qed

lemma note_frame [frame_simps]:
  "pm_open (note_daily_drawdown D a now m) = pm_open m"
  "pm_closed (note_daily_drawdown D a now m) = pm_closed m"
  "pm_next_id (note_daily_drawdown D a now m) = pm_next_id m"
  "pm_config (note_daily_drawdown D a now m) = pm_config m"
  by (auto simp: note_daily_drawdown_def Let_def frame_simps split: option.splits)

lemma note_realized [simp]:
  "dl_realized_pnl_usd (daily_bucket b (note_daily_drawdown D a now m)) =
     dl_realized_pnl_usd (daily_bucket b m)"
  "dl_day_index (daily_bucket b (note_daily_drawdown D a now m)) = dl_day_index (daily_bucket b m)"
  "dl_opening_equity_usd (daily_bucket b (note_daily_drawdown D a now m)) =
     dl_opening_equity_usd (daily_bucket b m)"
  using note_bucket [of b D a now m] by (auto simp: latch_def)

lemma note_tripped: "dl_tripped (daily_bucket b m) \<Longrightarrow> dl_tripped (daily_bucket b (note_daily_drawdown D a now m))"
  using note_bucket [of b D a now m] by auto

lemma close_effects_frame [frame_simps]:
  "pm_open (close_effects D p c now m) = pm_open m"
  "pm_closed (close_effects D p c now m) = pm_closed m"
  "pm_next_id (close_effects D p c now m) = pm_next_id m"
  "pm_config (close_effects D p c now m) = pm_config m"
  by (simp_all add: close_effects_def Let_def frame_simps)

lemma daily_bucket_fields [simp]:
  "daily_bucket a (m\<lparr>pm_open := x1\<rparr>) = daily_bucket a m"
  "daily_bucket a (m\<lparr>pm_closed := x2\<rparr>) = daily_bucket a m"
  "daily_bucket a (m\<lparr>pm_last_stop_loss_at := x3\<rparr>) = daily_bucket a m"
  "daily_bucket a (m\<lparr>pm_exit_cooldowns := x4\<rparr>) = daily_bucket a m"
  "daily_bucket a (m\<lparr>pm_asset_last_exit_at := x5\<rparr>) = daily_bucket a m"
  "daily_bucket a (m\<lparr>pm_asset_last_loss_at := x6\<rparr>) = daily_bucket a m"
  "daily_bucket a (m\<lparr>pm_last_suppression_at := x7\<rparr>) = daily_bucket a m"
  "daily_bucket a (m\<lparr>pm_unpriceable_since := x8\<rparr>) = daily_bucket a m"
  "daily_bucket a (m\<lparr>pm_exit_ladder_last_run := x9\<rparr>) = daily_bucket a m"
  "daily_bucket a (m\<lparr>pm_ladder_steps_done := x10\<rparr>) = daily_bucket a m"
  "daily_bucket a (m\<lparr>pm_ladder_stop_floor := x11\<rparr>) = daily_bucket a m"
  "daily_bucket a (m\<lparr>pm_disk_ok := x12\<rparr>) = daily_bucket a m"
  "daily_bucket a (m\<lparr>pm_trailing_overrides := x13\<rparr>) = daily_bucket a m"
  "daily_bucket a (m\<lparr>pm_holder_stop_overrides := x14\<rparr>) = daily_bucket a m"
  by (simp_all add: daily_bucket_def)

lemma close_effects_bucket [simp]:
  "dl_realized_pnl_usd (daily_bucket b (close_effects D p c now m)) =
     dl_realized_pnl_usd (daily_bucket b m) + (if b = as_str (p_account_id p) then c_net_pnl_usd c else 0)"
  "dl_day_index (daily_bucket b (close_effects D p c now m)) = dl_day_index (daily_bucket b m)"
  "dl_opening_equity_usd (daily_bucket b (close_effects D p c now m)) =
     dl_opening_equity_usd (daily_bucket b m)"
  by (simp_all add: close_effects_def Let_def)

text \<open>A close of a position that is open.\<close>

lemma close_pm_Some:
  assumes "find_open i m = Some p"
    and "c = closed_record D (active_schedule st) p pr rs mk now src"
    and "n = fst (close_pm D st i pr rs mk now src m)"
  shows "close_pm D st i pr rs mk now src m = (n, Some c)"
    and "pm_open n = remove_first (\<lambda>q. p_id q = i) (pm_open m)"
    and "pm_closed n = last_n CLOSED_CAP (pm_closed m @ [c])"
    and "pm_next_id n = pm_next_id m" and "pm_config n = pm_config m"
    and "dl_realized_pnl_usd (daily_bucket b n) = dl_realized_pnl_usd (daily_bucket b m)
      + (if b = as_str (p_account_id p) then c_net_pnl_usd c else 0)"
    and "dl_opening_equity_usd (daily_bucket b n) = dl_opening_equity_usd (daily_bucket b m)"
  using assms by (simp_all add: close_pm_def Let_def frame_simps)

lemma close_effects_tripped:
  "dl_tripped (daily_bucket b m) \<Longrightarrow> dl_tripped (daily_bucket b (close_effects D p c now m))"
  by (auto simp: close_effects_def Let_def intro!: note_tripped)

section \<open>Within one day the budget only tightens\<close>

text \<open>\<open>tightens a m n\<close>: same day, a trip stays, and a base that was measured never grows.\<close>

definition tightens :: "string \<Rightarrow> position_manager \<Rightarrow> position_manager \<Rightarrow> bool" where
  "tightens a m n \<longleftrightarrow>
    dl_day_index (daily_bucket a n) = dl_day_index (daily_bucket a m) \<and>
    (dl_tripped (daily_bucket a m) \<longrightarrow> dl_tripped (daily_bucket a n)) \<and>
    (0 < dl_opening_equity_usd (daily_bucket a m) \<longrightarrow>
       0 < dl_opening_equity_usd (daily_bucket a n) \<and>
       dl_opening_equity_usd (daily_bucket a n) \<le> dl_opening_equity_usd (daily_bucket a m)) \<and>
    pm_config n = pm_config m"

lemma tightens_refl [simp]: "tightens a m m"
  by (simp add: tightens_def)

lemma tightens_trans: "tightens a l m \<Longrightarrow> tightens a m n \<Longrightarrow> tightens a l n"
  by (auto simp: tightens_def)

lemma tightens_same: "pm_daily n = pm_daily m \<Longrightarrow> pm_config n = pm_config m \<Longrightarrow> tightens a m n"
  by (simp add: tightens_def daily_bucket_def)

lemma tightens_close: "tightens a m (fst (close_pm D st i pr rs mk now src m))"
  by (auto simp: tightens_def close_pm_def Let_def frame_simps close_effects_tripped split: option.splits)

lemma tightens_exit: "tightens a m (fst (apply_exit_fill D i sh pr fee r reb m))"
  by (rule tightens_same) (simp_all add: frame_simps apply_exit_fill_def update_open_def Let_def)

lemma merge_leg_eq:
  "merge_leg D st pairs now leg (m, cs) =
    (let m1 = fst (apply_exit_fill D (p_id leg) pairs merge_leg_price 0 RoleMaker 0 m);
         rest = snd (apply_exit_fill D (p_id leg) pairs merge_leg_price 0 RoleMaker 0 m);
         r = close_pm D st (p_id leg) merge_leg_price Merge True now ''venue'' m1
     in if rest = Some 0 then (fst r, cs @ (case snd r of Some c \<Rightarrow> [c] | None \<Rightarrow> [])) else (m1, cs))"
  by (auto simp: merge_leg_def Let_def split: prod.splits option.splits)

lemma tightens_merge_leg: "tightens a (fst x) (fst (merge_leg D st pairs now leg x))"
proof (cases x)
  case (Pair m cs)
  then show ?thesis
    by (auto simp: merge_leg_eq Let_def intro: tightens_trans [OF tightens_exit tightens_close] tightens_exit)
qed

lemma clear_cooldowns_frame [frame_simps]:
  "pm_open (clear_cooldowns c m) = pm_open m" "pm_closed (clear_cooldowns c m) = pm_closed m"
  "pm_next_id (clear_cooldowns c m) = pm_next_id m" "pm_config (clear_cooldowns c m) = pm_config m"
  by (simp_all add: clear_cooldowns_def)

lemma fold_clear_frame [frame_simps]:
  "pm_open (fold clear_cooldowns cs m) = pm_open m" "pm_closed (fold clear_cooldowns cs m) = pm_closed m"
  "pm_next_id (fold clear_cooldowns cs m) = pm_next_id m"
  "pm_config (fold clear_cooldowns cs m) = pm_config m" "pm_daily (fold clear_cooldowns cs m) = pm_daily m"
  by (induction cs arbitrary: m) (simp_all add: frame_simps)

text \<open>A merge either changes nothing or is two legs and the cooldown clearing.\<close>

lemma merge_cases:
  "fst (merge_condition D st cond now m) = m \<and> snd (merge_condition D st cond now m) = None \<or>
   (\<exists>up down pairs n cs. find_leg cond Up m = Some up \<and> find_leg cond Down m = Some down \<and>
      p_account_id up = p_account_id down \<and>
      pairs = min (floor_to_grid D (p_shares up)) (floor_to_grid D (p_shares down)) \<and> 0 < pairs \<and>
      (n, cs) = merge_leg D st pairs now down (merge_leg D st pairs now up (m, [])) \<and>
      fst (merge_condition D st cond now m) = fold clear_cooldowns cs n \<and>
      snd (merge_condition D st cond now m) = Some \<lparr>mo_condition_id = cond,
        mo_account_id = p_account_id up, mo_venue = p_venue up, mo_pairs_merged = pairs,
        mo_cash_credited_usd = pairs, mo_closed = cs, mo_unpaired_shares = sum_list (map p_shares
          (filter (\<lambda>p. p_condition_id p = cond) (pm_open (fold clear_cooldowns cs n))))\<rparr>)"
  by (auto simp: merge_condition_def Let_def not_le split: option.splits prod.splits)

lemma tightens_merge: "tightens a m (fst (merge_condition D st cond now m))"
proof -
  have "tightens a m (fold clear_cooldowns cs n)"
    if "(n, cs) = merge_leg D st pairs now down (merge_leg D st pairs now up (m, []))" for n cs pairs up down
  proof -
    have "tightens a m n"
      using tightens_trans [OF tightens_merge_leg [of a "(m, [])" D st pairs now up] tightens_merge_leg
        [of a _ D st pairs now down]] that by (metis fst_conv)
    moreover have "tightens a n (fold clear_cooldowns cs n)"
      by (rule tightens_same) (simp_all add: frame_simps)
    ultimately show ?thesis by (rule tightens_trans)
  qed
  then show ?thesis using merge_cases [of D st cond now m] by auto
qed

lemma tightens_put:
  assumes "dl_day_index d = dl_day_index (daily_bucket b m)"
    and "dl_tripped (daily_bucket b m) \<Longrightarrow> dl_tripped d"
    and "0 < dl_opening_equity_usd (daily_bucket b m) \<Longrightarrow>
      0 < dl_opening_equity_usd d \<and> dl_opening_equity_usd d \<le> dl_opening_equity_usd (daily_bucket b m)"
  shows "tightens a m (put_daily b d m)"
  using assms by (auto simp: tightens_def frame_simps)

lemma tightens_persist [simp]: "tightens a m (persist_daily n) = tightens a m n"
  by (simp add: tightens_def frame_simps)

lemma tightens_trip_step: "tightens a (fst x) (fst (trip_step D acc x))"
proof (cases x)
  case (Pair m trips)
  then show ?thesis
    by (auto simp: trip_step_def Let_def intro!: tightens_put)
qed

lemma tightens_trips: "tightens a m (fst (take_daily_trips D m))"
proof -
  have "tightens a (fst x) (fst (fold (trip_step D) accs x))" for accs x
  proof (induction accs arbitrary: x)
    case (Cons acc accs)
    show ?case using tightens_trans [OF tightens_trip_step Cons.IH] by simp
  qed simp
  from this [of "(m, [])"] show ?thesis by (simp add: take_daily_trips_def)
qed

lemma tightens_reconcile: "tightens a m (reconcile_same_day_base D b now e bas m)"
proof -
  have put2: "tightens a m (put_daily b d2 (put_daily b d1 m))" if "tightens a m (put_daily b d2 m)" for d1 d2
    using that by (auto simp: tightens_def frame_simps split: if_splits)
  show ?thesis
    unfolding reconcile_same_day_base_def Let_def
    by (auto intro!: tightens_put put2)
qed

text \<open>An operation leaves day \<open>t\<close> of account \<open>a\<close> when it rolls that account on another day.\<close>

fun leaves_day :: "string \<Rightarrow> int \<Rightarrow> pos_op \<Rightarrow> bool" where
  "leaves_day a t (PRoll b now e bas) \<longleftrightarrow> b = a \<and> utc_day_index now \<noteq> t"
| "leaves_day a t _ \<longleftrightarrow> False"

lemma tightens_roll:
  assumes "dl_day_index (daily_bucket a m) = Some t" and "\<not> leaves_day a t (PRoll b now e bas)"
  shows "tightens a m (fst (roll_daily D b now e bas m))"
proof (cases "b = a")
  case True
  then show ?thesis using assms by (simp add: roll_daily_def Let_def tightens_reconcile)
next
  case False
  then show ?thesis
    by (cases "dl_day_index (daily_bucket b m) = Some (utc_day_index now)")
      (simp add: roll_daily_def Let_def tightens_reconcile,
       auto simp: roll_daily_def Let_def tightens_def frame_simps)
qed

lemma step_tightens:
  assumes "dl_day_index (daily_bucket a m) = Some t" and "\<not> leaves_day a t op"
  shows "tightens a m (pos_step D st m op)"
proof (cases op)
  case (PRoll b now e bas)
  then show ?thesis using tightens_roll assms by simp
next
  case (PRestore p c)
  then show ?thesis by (auto simp: restore_closed_def Let_def tightens_def frame_simps)
qed (auto simp: tightens_close tightens_merge tightens_trips frame_simps
    backfill_fallback_to_venue_def backfill_fallback_to_venue_tokens_def
    set_trailing_overrides_def set_holder_stop_overrides_def
    open_pm_def apply_entry_fill_def apply_exit_fill_def update_open_def Let_def
    accrue_maker_rebate_def backfill_round_duration_pm_def drop_if_empty_def
    remove_account_positions_def backfill_rows_def intro!: tightens_same split: option.splits)

lemma run_tightens:
  "dl_day_index (daily_bucket a m) = Some t \<Longrightarrow> \<forall>op \<in> set ops. \<not> leaves_day a t op \<Longrightarrow>
    tightens a m (run (pos_step D st) m ops)"
proof (induction ops arbitrary: m)
  case (Cons op ops)
  have 1: "tightens a m (pos_step D st m op)" using Cons.prems by (simp add: step_tightens)
  then have "dl_day_index (daily_bucket a (pos_step D st m op)) = Some t"
    using Cons.prems by (simp add: tightens_def)
  then have "tightens a (pos_step D st m op) (run (pos_step D st) (pos_step D st m op) ops)"
    using Cons by simp
  with 1 show ?case by (auto intro: tightens_trans)
qed simp

section \<open>The entry gate\<close>

text \<open>The entry gate admits a named entry exactly when the account's unexpired positions are under
  both caps, its daily budget is not tripped, and every cooldown that applies (stop loss, exit per
  asset and direction, loss and exit per asset) has run out.\<close>

theorem position_can_open_exact:
  "can_open D a (Some asset) (Some dir) now m = Inr () \<longleftrightarrow>
    length (live_positions a now m) < pc_max_positions (pm_config m) \<and>
    \<not> daily_loss_tripped_for D a m \<and>
    (0 < pc_stop_loss_cooldown_sec (pm_config m) \<and> 0 < pm_last_stop_loss_at m \<longrightarrow>
       pc_stop_loss_cooldown_sec (pm_config m) * 1000 \<le> now - pm_last_stop_loss_at m) \<and>
    length (filter (\<lambda>p. p_asset p = asset) (live_positions a now m))
      < pc_max_positions_per_asset (pm_config m) \<and>
    (\<forall>t. map_of (pm_exit_cooldowns m) (cooldown_key asset dir) = Some t \<longrightarrow>
       pc_exit_cooldown_sec (pm_config m) * 1000 \<le> now - t) \<and>
    (0 < pc_loss_cooldown_sec (pm_config m) \<longrightarrow>
       (\<forall>t. map_of (pm_asset_last_loss_at m) asset = Some t \<longrightarrow>
         pc_loss_cooldown_sec (pm_config m) * 1000 \<le> now - t)) \<and>
    (0 < pc_asset_cooldown_sec (pm_config m) \<longrightarrow>
       (\<forall>t. map_of (pm_asset_last_exit_at m) asset = Some t \<longrightarrow>
         pc_asset_cooldown_sec (pm_config m) * 1000 \<le> now - t))"
  unfolding can_open_def Let_def cooldown_left_def
  by (auto split: option.splits if_splits)

definition fresh_manager :: position_manager where
  "fresh_manager = manager_new (\<lambda>_. DfMissing) position_config_default"

theorem position_can_open_exact_witness:
  "can_open exact_dec ''a'' (Some ''BTC'') (Some Up) 7 fresh_manager = Inr ()"
  by (rule iffD2 [OF position_can_open_exact])
    (simp add: fresh_manager_def manager_new_def position_config_default_def live_positions_def
      daily_loss_tripped_for_def daily_bucket_def daily_default_def daily_drawdown_input_def
      effective_daily_loss_limit_for_def unrealized_pnl_usd_for_def paper_pnl_def Let_def)

lemma can_open_tripped: "dl_tripped (daily_bucket a m) \<Longrightarrow> can_open D a x y now m \<noteq> Inr ()"
  by (simp add: can_open_def Let_def daily_loss_tripped_for_def)

text \<open>C24: once the equity base of the day has been measured (it is positive), a latched daily-loss trip lasts the
  day: whatever fills, closes, merges, unwinds, equity
  reports or resets follow, until the account is rolled onto another UTC day its gate admits nothing
  and its measured equity base, hence its cap, never grows.\<close>

theorem position_trip_lasts_the_day:
  assumes "dl_tripped (daily_bucket a m)" and "dl_day_index (daily_bucket a m) = Some t"
    and "\<forall>op \<in> set ops. \<not> leaves_day a t op" and "0 < dl_opening_equity_usd (daily_bucket a m)"
  shows "can_open D a asset dir now (run (pos_step D st) m ops) \<noteq> Inr () \<and>
    dl_opening_equity_usd (daily_bucket a (run (pos_step D st) m ops))
      \<le> dl_opening_equity_usd (daily_bucket a m)"
proof -
  have "tightens a m (run (pos_step D st) m ops)"
    using assms by (intro run_tightens) auto
  with assms show ?thesis by (simp add: tightens_def can_open_tripped)
qed

definition tripped_manager :: position_manager where
  "tripped_manager = put_daily ''a'' (daily_default\<lparr>dl_day_index := Some 3, dl_tripped := True,
     dl_opening_equity_usd := 100\<rparr>) fresh_manager"

theorem position_trip_lasts_the_day_witness:
  "can_open exact_dec ''a'' None None 9
    (run (pos_step exact_dec None) tripped_manager
      [PRoll ''a'' (3 * 86400000 + 5) 500 BasisDry, PTrips]) \<noteq> Inr ()"
proof -
  have "dl_tripped (daily_bucket ''a'' tripped_manager)"
    and "dl_day_index (daily_bucket ''a'' tripped_manager) = Some 3"
    and "0 < dl_opening_equity_usd (daily_bucket ''a'' tripped_manager)"
    by (simp_all add: tripped_manager_def)
  moreover have "\<forall>op \<in> set [PRoll ''a'' (3 * 86400000 + 5) 500 BasisDry, PTrips]. \<not> leaves_day ''a'' 3 op"
    by (simp add: utc_day_index_def DAY_MS_def)
  ultimately show ?thesis
    using position_trip_lasts_the_day [where a = "''a''" and m = tripped_manager and t = 3
      and ops = "[PRoll ''a'' (3 * 86400000 + 5) 500 BasisDry, PTrips]"] by blast
qed

section \<open>The freeze survives a restart\<close>

lemma daily_load_save_bucket:
  "map_of (daily_load (daily_save d)) (AccountId a) =
    map_option (\<lambda>x. x\<lparr>dl_tripped_reported := False\<rparr>) (map_of d (AccountId a))"
proof (induction d)
  case Nil
  then show ?case by (simp add: daily_load_def daily_save_def)
next
  case (Cons x xs)
  obtain b y where "x = (b, y)" by (cases x)
  with Cons show ?case by (simp add: daily_load_def daily_save_def)
qed

lemma manager_new_bucket:
  "pc_daily_pnl_path cfg = Some path \<Longrightarrow> disk path = daily_save (pm_daily m) \<Longrightarrow>
    dl_tripped (daily_bucket a (manager_new disk cfg)) = dl_tripped (daily_bucket a m)"
  by (auto simp: manager_new_def Let_def daily_bucket_def daily_load_save_bucket daily_default_def
      split: option.splits)

lemma limit_cong:
  "pm_config n = pm_config m \<Longrightarrow> dl_opening_equity_usd (daily_bucket a n) = dl_opening_equity_usd (daily_bucket a m)
    \<Longrightarrow> effective_daily_loss_limit_for D a n = effective_daily_loss_limit_for D a m"
  by (simp add: effective_daily_loss_limit_for_def)

lemma drawdown_cong:
  "pm_config n = pm_config m \<Longrightarrow> pm_open n = pm_open m \<Longrightarrow>
    dl_realized_pnl_usd (daily_bucket a n) = dl_realized_pnl_usd (daily_bucket a m)
    \<Longrightarrow> daily_drawdown_input a n = daily_drawdown_input a m"
  by (simp add: daily_drawdown_input_def unrealized_pnl_usd_for_def Let_def)

lemma note_latches:
  assumes "AccountId a \<in> dom (map_of (pm_daily m))"
    and "0 < effective_daily_loss_limit_for D a m"
    and "daily_drawdown_input a m \<le> - effective_daily_loss_limit_for D a m"
  shows "dl_tripped (daily_bucket a (note_daily_drawdown D a now m))"
  using assms by (auto simp: note_daily_drawdown_def Let_def split: option.splits)

lemma note_persists:
  "pm_daily_file m = Some f \<Longrightarrow> pm_disk_ok m \<Longrightarrow>
    pm_daily_file (note_daily_drawdown D a now m) =
      Some (daily_save (pm_daily (note_daily_drawdown D a now m)))"
  by (auto simp: note_daily_drawdown_def Let_def persist_daily_def put_daily_def split: option.splits)

text \<open>A close seen from the daily budget: its effects are a realized amount, then the breaker's note.\<close>

lemma close_effects_note:
  "\<exists>m4. pm_daily_file m4 = pm_daily_file m \<and> pm_disk_ok m4 = pm_disk_ok m \<and> pm_open m4 = pm_open m \<and>
     pm_config m4 = pm_config m \<and> AccountId (as_str (p_account_id p)) \<in> dom (map_of (pm_daily m4)) \<and>
     pm_daily (close_effects D p c now m) =
       pm_daily (note_daily_drawdown D (as_str (p_account_id p)) now m4) \<and>
     pm_daily_file (close_effects D p c now m) =
       pm_daily_file (note_daily_drawdown D (as_str (p_account_id p)) now m4)"
proof -
  let ?a = "as_str (p_account_id p)"
  let ?m4 = "(let d = daily_bucket ?a m;
         m1 = put_daily ?a (d\<lparr>dl_realized_pnl_usd := dl_realized_pnl_usd d + c_net_pnl_usd c\<rparr>) m;
         m2 = (if c_exit_reason c = StopLoss then m1\<lparr>pm_last_stop_loss_at := now\<rparr> else m1);
         m3 = m2\<lparr>pm_exit_cooldowns := AList.update (cooldown_key (p_asset p) (p_direction p)) now
                   (pm_exit_cooldowns m2),
                 pm_asset_last_exit_at := AList.update (p_asset p) now (pm_asset_last_exit_at m2)\<rparr>
       in if c_net_pnl_usd c < 0
          then m3\<lparr>pm_asset_last_loss_at := AList.update (p_asset p) now (pm_asset_last_loss_at m3)\<rparr>
          else m3)"
  show ?thesis
    by (rule exI [of _ ?m4]) (simp add: close_effects_def Let_def put_daily_def)
qed

lemma close_pm_persists:
  assumes "find_open i m = Some p" and "pm_daily_file m = Some f" and "pm_disk_ok m"
    and "n = fst (close_pm D st i pr rs mk now src m)"
  shows "pm_daily_file n = Some (daily_save (pm_daily n))"
proof -
  obtain m4 where "pm_daily_file m4 = Some f" "pm_disk_ok m4"
    "pm_daily n = pm_daily (note_daily_drawdown D (as_str (p_account_id p)) now m4)"
    "pm_daily_file n = pm_daily_file (note_daily_drawdown D (as_str (p_account_id p)) now m4)"
    using close_effects_note [of "m\<lparr>pm_open := remove_first (\<lambda>q. p_id q = i) (pm_open m)\<rparr>" p D
        "closed_record D (active_schedule st) p pr rs mk now src" now] assms
    by (auto simp: close_pm_def Let_def)
  then show ?thesis using note_persists by simp
qed

text \<open>The freeze and its durable record travel with the loss. When a close takes an account's
  drawdown to its cap and the state file is writable, a process started from that file refuses the
  account's entries, whatever its configuration.\<close>

theorem position_restart_keeps_freeze:
  assumes "close_pm D st i pr rs mk now src m = (m1, Some c)"
    and "pm_daily_file m = Some f" and "pm_disk_ok m"
    and "0 < effective_daily_loss_limit_for D (as_str (c_account_id c)) m1"
    and "daily_drawdown_input (as_str (c_account_id c)) m1
      \<le> - effective_daily_loss_limit_for D (as_str (c_account_id c)) m1"
    and "pc_daily_pnl_path cfg = Some path" and "pm_daily_file m1 = Some (disk path)"
  shows "can_open D (as_str (c_account_id c)) asset dir later (manager_new disk cfg) \<noteq> Inr ()"
proof -
  obtain p where p: "find_open i m = Some p"
    and c: "c = closed_record D (active_schedule st) p pr rs mk now src"
    and m1: "m1 = (let m0 = close_effects D p c now (m\<lparr>pm_open := remove_first (\<lambda>q. p_id q = i) (pm_open m)\<rparr>)
      in m0\<lparr>pm_closed := last_n CLOSED_CAP (pm_closed m0 @ [c])\<rparr>)"
    using assms(1) by (auto simp: close_pm_def Let_def split: option.splits)
  let ?a = "as_str (p_account_id p)"
  have a: "as_str (c_account_id c) = ?a" by (simp add: c closed_record_def Let_def)
  obtain m4 where m4: "pm_daily_file m4 = Some f" "pm_disk_ok m4" "pm_open m4 = pm_open m1"
    "pm_config m4 = pm_config m1" "AccountId ?a \<in> dom (map_of (pm_daily m4))"
    "pm_daily m1 = pm_daily (note_daily_drawdown D ?a now m4)"
    "pm_daily_file m1 = pm_daily_file (note_daily_drawdown D ?a now m4)"
    using close_effects_note [of "m\<lparr>pm_open := remove_first (\<lambda>q. p_id q = i) (pm_open m)\<rparr>" p D c now]
      assms(2,3) by (auto simp: m1 Let_def frame_simps)
  have bucket: "daily_bucket b m1 = daily_bucket b (note_daily_drawdown D ?a now m4)" for b
    using m4(6) by (rule daily_bucket_cong)
  have "effective_daily_loss_limit_for D ?a m4 = effective_daily_loss_limit_for D ?a m1"
    and "daily_drawdown_input ?a m4 = daily_drawdown_input ?a m1"
    by (auto intro!: limit_cong drawdown_cong simp: bucket m4)
  then have "dl_tripped (daily_bucket ?a m1)"
    using note_latches [of ?a m4 D now] m4 assms(4,5) by (simp add: a bucket)
  moreover have "disk path = daily_save (pm_daily m1)"
    using assms(7) note_persists [OF m4(1,2)] m4 by simp
  ultimately have "dl_tripped (daily_bucket ?a (manager_new disk cfg))"
    using manager_new_bucket [OF assms(6), of disk m1 ?a] by simp
  then show ?thesis unfolding a by (rule can_open_tripped)
qed

definition demo_row :: open_position where
  "demo_row = \<lparr>p_id = ''hft-4'', p_strategy = ''s'', p_asset = ''BTC'', p_direction = Up,
     p_token_id = ''t'', p_condition_id = ''c'', p_entry_price = 1/2, p_current_price = 1/2,
     p_prev_price = 1/2, p_shares = 100, p_cost_usd = 50, p_was_maker_entry = True,
     p_entry_fee_pct = 0, p_entry_role = RoleMaker, p_exit_role = RolePending,
     p_target_exit_price = None, p_entered_at_ms = 10, p_expires_at_ms = 500000,
     p_account_id = AccountId ''a'', p_venue = ''v'', p_partner_token_id = ''u'', p_last_book_ts = 0,
     p_round_duration_sec = 300, p_round_slot = 0, p_state = exit_state_new (1/2) 10,
     p_flows = no_flows\<lparr>cf_opened_shares := 100, cf_entry_cost_usd := 50\<rparr>\<rparr>"

definition losing_manager :: position_manager where
  "losing_manager = put_daily ''a'' (daily_default\<lparr>dl_day_index := Some 0, dl_opening_equity_usd := 100\<rparr>)
     (fresh_manager\<lparr>pm_open := [demo_row], pm_daily_file := Some DfMissing\<rparr>)"

theorem position_restart_keeps_freeze_witness:
  "can_open exact_dec ''a'' None None 9 (manager_new
     (\<lambda>_. the (pm_daily_file (fst (close_pm exact_dec None ''hft-4'' (1/10) StopLoss True 20 ''venue'' losing_manager))))
     (position_config_default\<lparr>pc_daily_pnl_path := Some ''d.json''\<rparr>)) \<noteq> Inr ()"
proof -
  define r where "r = close_pm exact_dec None ''hft-4'' (1/10) StopLoss True 20 ''venue'' losing_manager"
  have find: "find_open ''hft-4'' losing_manager = Some demo_row"
    by (simp add: losing_manager_def find_open_def demo_row_def frame_simps)
  define c where "c = closed_record exact_dec (active_schedule None) demo_row (1/10) StopLoss True 20 ''venue''"
  have acc: "as_str (c_account_id c) = ''a''" and net: "c_net_pnl_usd c = -40"
    and why: "c_exit_reason c = StopLoss"
    by (simp_all add: c_def closed_record_def demo_row_def Let_def flows_def dust_fee_for_def no_flows_def)
  define m1 where "m1 = fst r"
  note cl = close_pm_Some [OF find c_def m1_def [unfolded r_def]]
  have r: "r = (m1, Some c)" unfolding r_def by (rule cl(1))
  have losing: "pm_config losing_manager = position_config_default" "pm_open losing_manager = [demo_row]"
    "dl_realized_pnl_usd (daily_bucket ''a'' losing_manager) = 0"
    "dl_opening_equity_usd (daily_bucket ''a'' losing_manager) = 100"
    by (simp_all add: losing_manager_def frame_simps fresh_manager_def manager_new_def daily_default_def)
  have cfg: "pm_config m1 = position_config_default" and opn: "pm_open m1 = []"
    and re: "dl_realized_pnl_usd (daily_bucket ''a'' m1) = -40"
    and eq: "dl_opening_equity_usd (daily_bucket ''a'' m1) = 100"
    using cl(2,5) cl(6) [of "''a''"] cl(7) [of "''a''"] net by (simp_all add: losing demo_row_def)
  have lim: "effective_daily_loss_limit_for exact_dec ''a'' m1 = 20"
    by (simp add: effective_daily_loss_limit_for_def cfg eq position_config_default_def)
  have dd: "daily_drawdown_input ''a'' m1 = -40"
    by (simp add: daily_drawdown_input_def re opn cfg position_config_default_def
        unrealized_pnl_usd_for_def paper_pnl_def)
  have store: "pm_daily_file losing_manager = Some DfMissing" and ok: "pm_disk_ok losing_manager"
    by (simp_all add: losing_manager_def put_daily_def fresh_manager_def manager_new_def)
  have "pm_daily_file m1 = Some (the (pm_daily_file m1))"
    using close_pm_persists [OF find store ok m1_def [unfolded r_def]] by simp
  then show ?thesis
    unfolding r_def [symmetric] m1_def [symmetric]
    using position_restart_keeps_freeze [OF r [unfolded r_def] store ok,
        where cfg = "position_config_default\<lparr>pc_daily_pnl_path := Some ''d.json''\<rparr>"
          and path = "''d.json''" and disk = "\<lambda>_. the (pm_daily_file m1)"]
    by (simp add: acc lim dd)
qed

end
