(* ===== verification/PositionBook.thy ===== *)
theory PositionBook
  imports PositionDaily
begin

text \<open>
  The books of the position manager: no cash is created or lost between the fills and the settled
  records, an unwound close leaves no trace in the book, merges burn pairs for exactly their
  collateral, and identifiers are never reused.
\<close>

section \<open>Sums over edited lists\<close>

lemma sum_update_first:
  fixes w :: "'a \<Rightarrow> decimal"
  shows "sum_list (map w (update_first P f xs)) =
    sum_list (map w xs) + (case List.find P xs of Some x \<Rightarrow> w (f x) - w x | None \<Rightarrow> 0)"
  by (induction xs) auto

lemma sum_remove_first:
  fixes w :: "'a \<Rightarrow> decimal"
  shows "sum_list (map w (remove_first P xs)) =
    sum_list (map w xs) - (case List.find P xs of Some x \<Rightarrow> w x | None \<Rightarrow> 0)"
  by (induction xs) auto

lemma last_n_all: "length xs \<le> n \<Longrightarrow> last_n n xs = xs"
  by (simp add: last_n_def)

section \<open>The cash of the book\<close>

definition flow_cash :: "cash_flows \<Rightarrow> decimal" where
  "flow_cash f = cf_proceeds_usd f - cf_entry_cost_usd f - cf_entry_fee_usd f - cf_exit_fee_usd f
     + cf_maker_rebate_usd f"

definition book_cash :: "position_manager \<Rightarrow> decimal" where
  "book_cash m = sum_list (map (flow_cash \<circ> p_flows) (pm_open m)) + sum_list (map c_net_pnl_usd (pm_closed m))"

text \<open>The shares a row shows are the shares bought less the shares sold.\<close>

definition row_ok :: "open_position \<Rightarrow> bool" where
  "row_ok p \<longleftrightarrow> 0 \<le> cf_sold_shares (p_flows p) \<and> 0 \<le> p_shares p \<and>
     p_shares p = cf_opened_shares (p_flows p) - cf_sold_shares (p_flows p)"

definition rows_ok :: "position_manager \<Rightarrow> bool" where
  "rows_ok m \<longleftrightarrow> (\<forall>p \<in> set (pm_open m). row_ok p)"

lemma rows_ok_find: "rows_ok m \<Longrightarrow> find_open i m = Some p \<Longrightarrow> row_ok p"
  by (auto simp: rows_ok_def find_open_def dest: find_Some_prop)

text \<open>The crate divides by the share grid without rounding.\<close>

definition div_by_grid_exact :: "dec_ops \<Rightarrow> bool" where
  "div_by_grid_exact D \<longleftrightarrow> (\<forall>v. ddiv D v share_grid = v / share_grid)"

lemma floor_to_grid_le: "div_by_grid_exact D \<Longrightarrow> floor_to_grid D v \<le> v"
proof -
  assume "div_by_grid_exact D"
  then have "floor_to_grid D v = of_int \<lfloor>v * 100\<rfloor> / 100"
    by (simp add: div_by_grid_exact_def floor_to_grid_def share_grid_def)
  moreover have "of_int \<lfloor>v * 100\<rfloor> \<le> v * 100" by (rule of_int_floor_le)
  ultimately show ?thesis by linarith
qed

text \<open>The cash an operation moves, as its caller reports it to the ledger: the notional and the fee
  of a fill, the remainder a close prices itself, the collateral of a merge.\<close>

definition op_cash :: "dec_ops \<Rightarrow> fee_schedule option \<Rightarrow> position_manager \<Rightarrow> pos_op \<Rightarrow> decimal" where
  "op_cash D st m op = (case op of
     PEntry i sh pr fee r \<Rightarrow> (case find_open i m of Some _ \<Rightarrow> - (pr * sh) - fee | None \<Rightarrow> 0)
   | PExit i sh pr fee r reb \<Rightarrow> (case find_open i m of Some _ \<Rightarrow> pr * sh - fee + reb | None \<Rightarrow> 0)
   | PRebate i reb \<Rightarrow> (case find_open i m of Some _ \<Rightarrow> reb | None \<Rightarrow> 0)
   | PClose i pr rs mk now src \<Rightarrow> (case find_open i m of
       Some p \<Rightarrow> pr * p_shares p - dust_fee_for D (active_schedule st) pr (pr * p_shares p) mk
     | None \<Rightarrow> 0)
   | PMerge cond now \<Rightarrow> (case snd (merge_condition D st cond now m) of
       Some out \<Rightarrow> mo_cash_credited_usd out | None \<Rightarrow> 0)
   | _ \<Rightarrow> 0)"

definition flows_nonneg :: "open_position \<Rightarrow> bool" where
  "flows_nonneg p \<longleftrightarrow> 0 \<le> cf_proceeds_usd (p_flows p) \<and> 0 \<le> cf_exit_fee_usd (p_flows p) \<and>
     0 \<le> cf_maker_rebate_usd (p_flows p)"

text \<open>A clean operation: a reversal takes back no more than was booked, an exit sells no more than is
  held, a closed row has had an entry fill, the history has room, and rows are neither dropped,
  removed nor restored.\<close>

definition clean_op :: "dec_ops \<Rightarrow> position_manager \<Rightarrow> pos_op \<Rightarrow> bool" where
  "clean_op D m op = (case op of
     PEntry i sh pr fee r \<Rightarrow> (case find_open i m of None \<Rightarrow> True
       | Some p \<Rightarrow> 0 \<le> p_shares p + sh \<and> 0 \<le> cf_entry_cost_usd (p_flows p) + pr * sh \<and>
           0 \<le> cf_entry_fee_usd (p_flows p) + fee)
   | PExit i sh pr fee r reb \<Rightarrow> (case find_open i m of None \<Rightarrow> True
       | Some p \<Rightarrow> sh \<le> p_shares p \<and> 0 \<le> cf_sold_shares (p_flows p) + sh \<and>
           0 \<le> cf_proceeds_usd (p_flows p) + pr * sh \<and> 0 \<le> cf_exit_fee_usd (p_flows p) + fee \<and>
           0 \<le> cf_maker_rebate_usd (p_flows p) + reb)
   | PRebate i reb \<Rightarrow> (case find_open i m of None \<Rightarrow> True
       | Some p \<Rightarrow> 0 \<le> cf_maker_rebate_usd (p_flows p) + reb)
   | PClose i pr rs mk now src \<Rightarrow> length (pm_closed m) < CLOSED_CAP \<and>
       (case find_open i m of None \<Rightarrow> True | Some p \<Rightarrow> 0 < cf_opened_shares (p_flows p))
   | PMerge cond now \<Rightarrow> length (pm_closed m) + 2 \<le> CLOSED_CAP \<and>
       distinct (map p_id (pm_open m)) \<and> (\<forall>p \<in> set (pm_open m). flows_nonneg p)
   | PDrop i \<Rightarrow> False | PRemoveAccount a \<Rightarrow> False | PRestore p c \<Rightarrow> False
   | _ \<Rightarrow> True)"

section \<open>What each operation does to the books\<close>

lemma entry_row_cash:
  "row_ok p \<Longrightarrow> 0 \<le> p_shares p + sh \<Longrightarrow> 0 \<le> cf_entry_cost_usd (p_flows p) + pr * sh \<Longrightarrow>
    0 \<le> cf_entry_fee_usd (p_flows p) + fee \<Longrightarrow>
    flow_cash (p_flows (entry_fill_row D sh pr fee r p)) = flow_cash (p_flows p) - pr * sh - fee \<and>
    row_ok (entry_fill_row D sh pr fee r p)"
  by (simp add: entry_fill_row_def refresh_view_def Let_def flow_cash_def row_ok_def)

lemma exit_row_cash:
  "row_ok p \<Longrightarrow> sh \<le> p_shares p \<Longrightarrow> 0 \<le> cf_sold_shares (p_flows p) + sh \<Longrightarrow>
    0 \<le> cf_proceeds_usd (p_flows p) + pr * sh \<Longrightarrow> 0 \<le> cf_exit_fee_usd (p_flows p) + fee \<Longrightarrow>
    0 \<le> cf_maker_rebate_usd (p_flows p) + reb \<Longrightarrow>
    flow_cash (p_flows (exit_fill_row D sh pr fee r reb p)) =
      flow_cash (p_flows p) + pr * sh - fee + reb \<and>
    row_ok (exit_fill_row D sh pr fee r reb p) \<and>
    p_shares (exit_fill_row D sh pr fee r reb p) = p_shares p - sh \<and>
    cf_opened_shares (p_flows (exit_fill_row D sh pr fee r reb p)) = cf_opened_shares (p_flows p)"
  by (simp add: exit_fill_row_def Let_def flow_cash_def row_ok_def)

lemma record_cash:
  assumes "row_ok p" and "0 < cf_opened_shares (p_flows p)"
  shows "c_net_pnl_usd (closed_record D s p pr rs mk now src) =
    flow_cash (p_flows p) + pr * p_shares p - dust_fee_for D s pr (pr * p_shares p) mk"
  using assms by (simp add: closed_record_def Let_def flows_def flow_cash_def row_ok_def min_def)

lemma book_update:
  assumes "find_open i m = Some p"
  shows "book_cash (update_open i f m) = book_cash m + flow_cash (p_flows (f p)) - flow_cash (p_flows p)"
  using assms by (simp add: book_cash_def update_open_def find_open_def sum_update_first)

lemma update_open_absent: "find_open i m = None \<Longrightarrow> update_open i f m = m"
  by (simp add: update_open_def find_open_def update_first_none)

lemma rows_ok_update: "rows_ok m \<Longrightarrow> (\<And>p. find_open i m = Some p \<Longrightarrow> row_ok p \<Longrightarrow> row_ok (f p)) \<Longrightarrow>
    rows_ok (update_open i f m)"
  unfolding rows_ok_def update_open_def find_open_def
  by (simp, rule all_update_first) blast+

lemma close_book:
  assumes "rows_ok m" and "length (pm_closed m) < CLOSED_CAP"
    and "find_open i m = Some p" and "0 < cf_opened_shares (p_flows p)"
  shows "book_cash (fst (close_pm D st i pr rs mk now src m)) = book_cash m + pr * p_shares p
      - dust_fee_for D (active_schedule st) pr (pr * p_shares p) mk \<and>
    rows_ok (fst (close_pm D st i pr rs mk now src m))"
proof -
  note cl = close_pm_Some [OF assms(3) refl refl, where D = D and st = st and pr = pr and rs = rs
      and mk = mk and now = now and src = src]
  let ?c = "closed_record D (active_schedule st) p pr rs mk now src"
  have find: "List.find (\<lambda>q. p_id q = i) (pm_open m) = Some p"
    using assms(3) by (simp add: find_open_def)
  have "last_n CLOSED_CAP (pm_closed m @ [?c]) = pm_closed m @ [?c]"
    using assms(2) by (simp add: last_n_all)
  then have "book_cash (fst (close_pm D st i pr rs mk now src m)) =
      book_cash m - flow_cash (p_flows p) + c_net_pnl_usd ?c"
    by (simp only: book_cash_def cl(2,3) sum_remove_first find option.case map_append sum_list_append
        list.map sum_list.Cons sum_list.Nil o_apply)
  then have "book_cash (fst (close_pm D st i pr rs mk now src m)) = book_cash m + pr * p_shares p
      - dust_fee_for D (active_schedule st) pr (pr * p_shares p) mk"
    unfolding record_cash [OF rows_ok_find [OF assms(1,3)] assms(4), of D "active_schedule st" pr rs mk now src]
    by simp
  moreover have "rows_ok (fst (close_pm D st i pr rs mk now src m))"
    using all_remove_first assms(1) unfolding rows_ok_def cl(2) by blast
  ultimately show ?thesis by blast
qed

text \<open>One leg of a merge.\<close>

lemma find_open_update: "(\<And>p. p_id (f p) = p_id p) \<Longrightarrow>
  find_open j (update_open i f m) = (if j = i then map_option f (find_open i m) else find_open j m)"
  by (auto simp: find_open_def update_open_def find_update_first find_update_other)

lemma find_open_remove:
  "j \<noteq> i \<Longrightarrow> List.find (\<lambda>p. p_id p = j) (remove_first (\<lambda>q. p_id q = i) xs) = List.find (\<lambda>p. p_id p = j) xs"
  by (induction xs) auto

lemma exit_row_id [simp]: "p_id (exit_fill_row D sh pr fee r reb p) = p_id p"
  by (simp add: exit_fill_row_def Let_def)

lemma merge_leg_book:
  assumes "rows_ok m" and "find_open (p_id leg) m = Some leg" and "0 < pairs" and "pairs \<le> p_shares leg"
    and "flows_nonneg leg" and "length (pm_closed m) < CLOSED_CAP"
    and "(n, cs') = merge_leg D st pairs now leg (m, cs)"
  shows "book_cash n = book_cash m + pairs / 2" and "rows_ok n"
    and "length (pm_closed n) \<le> Suc (length (pm_closed m))"
    and "j \<noteq> p_id leg \<Longrightarrow> find_open j n = find_open j m"
proof -
  let ?f = "exit_fill_row D pairs merge_leg_price 0 RoleMaker 0"
  let ?m1 = "update_open (p_id leg) ?f m"
  have ok: "row_ok leg" by (rule rows_ok_find [OF assms(1,2)])
  have pre: "0 \<le> cf_sold_shares (p_flows leg) + pairs"
    "0 \<le> cf_proceeds_usd (p_flows leg) + merge_leg_price * pairs"
    "0 \<le> cf_exit_fee_usd (p_flows leg) + 0" "0 \<le> cf_maker_rebate_usd (p_flows leg) + 0"
    using assms(3,5) ok by (simp_all add: flows_nonneg_def merge_leg_price_def row_ok_def)
  have row: "flow_cash (p_flows (?f leg)) = flow_cash (p_flows leg) + pairs / 2" "row_ok (?f leg)"
    "p_shares (?f leg) = p_shares leg - pairs"
    "cf_opened_shares (p_flows (?f leg)) = cf_opened_shares (p_flows leg)"
    using exit_row_cash [OF ok assms(4) pre(1) pre(2) pre(3) pre(4), of D RoleMaker]
    by (simp_all add: merge_leg_price_def)
  have m1: "fst (apply_exit_fill D (p_id leg) pairs merge_leg_price 0 RoleMaker 0 m) = ?m1"
    "snd (apply_exit_fill D (p_id leg) pairs merge_leg_price 0 RoleMaker 0 m) = Some (p_shares leg - pairs)"
    using assms(2) row(3) by (simp_all add: apply_exit_fill_def Let_def)
  have cash1: "book_cash ?m1 = book_cash m + pairs / 2"
    using book_update [OF assms(2), of ?f] row(1) by simp
  have ok1: "rows_ok ?m1" using assms(1,2) row(2) by (intro rows_ok_update) auto
  have find1: "find_open (p_id leg) ?m1 = Some (?f leg)"
    using assms(2) by (simp add: find_open_update)
  have closed1: "pm_closed ?m1 = pm_closed m" by (simp add: update_open_def)
  have opened: "0 < cf_opened_shares (p_flows (?f leg))"
    using ok assms(3,4) row(4) by (simp add: row_ok_def)
  let ?r = "close_pm D st (p_id leg) merge_leg_price Merge True now ''venue'' ?m1"
  note cl = close_pm_Some [OF find1 refl refl, where D = D and st = st and pr = merge_leg_price
      and rs = Merge and mk = True and now = now and src = "''venue''"]
  have cb: "book_cash (fst ?r) = book_cash ?m1" "rows_ok (fst ?r)" if "p_shares leg = pairs"
    using close_book [OF ok1 _ find1 opened, of D st merge_leg_price Merge True now "''venue''"] that
      row(3) assms(6) closed1 by (simp_all add: dust_fee_for_def)
  have n: "n = (if p_shares leg = pairs then fst ?r else ?m1)"
    using assms(7) m1 by (auto simp: merge_leg_eq Let_def split: if_splits)
  show "book_cash n = book_cash m + pairs / 2" "rows_ok n"
    using n cb cash1 ok1 by (auto split: if_splits)
  show "length (pm_closed n) \<le> Suc (length (pm_closed m))"
    using n cl(3) closed1 by (auto split: if_splits)
  show "find_open j n = find_open j m" if "j \<noteq> p_id leg"
  proof -
    have "find_open j ?m1 = find_open j m" using that by (simp add: find_open_update)
    moreover have "find_open j (fst ?r) = find_open j ?m1"
      using that cl(2) by (simp add: find_open_def find_open_remove)
    ultimately show ?thesis using n by simp
  qed
qed

lemma find_open_member:
  assumes "distinct (map p_id (pm_open m))" and "p \<in> set (pm_open m)"
  shows "find_open (p_id p) m = Some p"
proof -
  have "distinct (map p_id xs) \<Longrightarrow> p \<in> set xs \<Longrightarrow> List.find (\<lambda>q. p_id q = p_id p) xs = Some p" for xs
    by (induction xs) (auto simp: image_iff)
  with assms show ?thesis by (simp add: find_open_def)
qed

lemma merge_book:
  assumes "div_by_grid_exact D" and "rows_ok m" and "distinct (map p_id (pm_open m))"
    and "\<forall>p \<in> set (pm_open m). flows_nonneg p" and "length (pm_closed m) + 2 \<le> CLOSED_CAP"
  shows "book_cash (fst (merge_condition D st cond now m)) = book_cash m +
      (case snd (merge_condition D st cond now m) of Some out \<Rightarrow> mo_cash_credited_usd out | None \<Rightarrow> 0) \<and>
    rows_ok (fst (merge_condition D st cond now m))"
  using merge_cases [of D st cond now m]
proof (elim disjE exE conjE)
  assume "fst (merge_condition D st cond now m) = m" and "snd (merge_condition D st cond now m) = None"
  then show ?thesis using assms(2) by simp
next
  fix up down pairs n cs
  assume up: "find_leg cond Up m = Some up" and down: "find_leg cond Down m = Some down"
    and pairs: "pairs = min (floor_to_grid D (p_shares up)) (floor_to_grid D (p_shares down))" "0 < pairs"
    and legs: "(n, cs) = merge_leg D st pairs now down (merge_leg D st pairs now up (m, []))"
    and res: "fst (merge_condition D st cond now m) = fold clear_cooldowns cs n"
    and out: "snd (merge_condition D st cond now m) = Some \<lparr>mo_condition_id = cond,
        mo_account_id = p_account_id up, mo_venue = p_venue up, mo_pairs_merged = pairs,
        mo_cash_credited_usd = pairs, mo_closed = cs, mo_unpaired_shares = sum_list (map p_shares
          (filter (\<lambda>p. p_condition_id p = cond) (pm_open (fold clear_cooldowns cs n))))\<rparr>"
  have mem: "up \<in> set (pm_open m)" "p_direction up = Up" "down \<in> set (pm_open m)" "p_direction down = Down"
    using up down by (auto simp: find_leg_def dest: find_Some_prop)
  have fu: "find_open (p_id up) m = Some up" and fd: "find_open (p_id down) m = Some down"
    using assms(3) mem by (auto intro: find_open_member)
  have ne: "p_id down \<noteq> p_id up" using fu fd mem(2,4) by auto
  have "pairs \<le> p_shares up" "pairs \<le> p_shares down"
    using pairs(1) floor_to_grid_le [OF assms(1)] by (auto simp: min.coboundedI1 min.coboundedI2)
  note le = this
  obtain n1 cs1 where 1: "(n1, cs1) = merge_leg D st pairs now up (m, [])" by (metis surj_pair)
  note leg1 = merge_leg_book [OF assms(2) fu pairs(2) le(1) _ _ 1]
  have nn: "flows_nonneg up" "flows_nonneg down" using assms(4) mem by auto
  have room: "length (pm_closed m) < CLOSED_CAP" using assms(5) by simp
  have "find_open (p_id down) n1 = Some down" using leg1(4) [OF nn(1) room ne] fd by simp
  moreover have "length (pm_closed n1) < CLOSED_CAP" using leg1(3) [OF nn(1) room] assms(5) by simp
  ultimately have "book_cash n = book_cash n1 + pairs / 2 \<and> rows_ok n"
    using merge_leg_book [OF leg1(2) [OF nn(1) room] _ pairs(2) le(2) nn(2)] legs 1 by metis
  then have "book_cash n = book_cash m + pairs \<and> rows_ok n" using leg1(1) [OF nn(1) room] by simp
  then show ?thesis
    by (simp add: res out frame_simps book_cash_def rows_ok_def)
qed

section \<open>No cash is created or lost\<close>

lemma trips_frame [frame_simps]:
  "pm_open (fst (take_daily_trips D m)) = pm_open m"
  "pm_closed (fst (take_daily_trips D m)) = pm_closed m"
proof -
  have step: "pm_open (fst (trip_step D a x)) = pm_open (fst x) \<and> pm_closed (fst (trip_step D a x)) = pm_closed (fst x)"
    for a x by (cases x) (simp add: trip_step_def Let_def frame_simps)
  have "pm_open (fst (fold (trip_step D) as x)) = pm_open (fst x) \<and>
      pm_closed (fst (fold (trip_step D) as x)) = pm_closed (fst x)" for as x
    by (induction as arbitrary: x) (simp_all add: step)
  then show "pm_open (fst (take_daily_trips D m)) = pm_open m"
    and "pm_closed (fst (take_daily_trips D m)) = pm_closed m"
    by (simp_all add: take_daily_trips_def)
qed

lemma roll_frame [frame_simps]:
  "pm_open (fst (roll_daily D a now e b m)) = pm_open m"
  "pm_closed (fst (roll_daily D a now e b m)) = pm_closed m"
  by (simp_all add: roll_daily_def reconcile_same_day_base_def Let_def frame_simps)

lemma open_book:
  "book_cash (fst (open_pm o1 now m)) = book_cash m \<and> (rows_ok m \<longrightarrow> rows_ok (fst (open_pm o1 now m)))"
  by (auto simp: open_pm_def Let_def book_cash_def rows_ok_def row_ok_def flow_cash_def no_flows_def)

lemma backfill_book:
  "book_cash (fst (backfill_rows P m)) = book_cash m \<and> (rows_ok m \<longrightarrow> rows_ok (fst (backfill_rows P m)))"
proof -
  have "map c_net_pnl_usd (map (\<lambda>c. if P c \<and> is_fallback c then flip_to_venue c else c) cs) =
      map c_net_pnl_usd cs" for cs
    by (simp add: flip_to_venue_def)
  then show ?thesis by (simp add: backfill_rows_def book_cash_def rows_ok_def del: map_map)
qed

lemma daily_book:
  "book_cash (fst (take_daily_trips D m)) = book_cash m"
  "rows_ok (fst (take_daily_trips D m)) = rows_ok m"
  "book_cash (fst (roll_daily D a now e b m)) = book_cash m"
  "rows_ok (fst (roll_daily D a now e b m)) = rows_ok m"
  by (simp_all add: book_cash_def rows_ok_def frame_simps)

lemma overrides_book:
  "book_cash (set_trailing_overrides o1 m) = book_cash m" "rows_ok (set_trailing_overrides o1 m) = rows_ok m"
  "book_cash (set_holder_stop_overrides o2 m) = book_cash m"
  "rows_ok (set_holder_stop_overrides o2 m) = rows_ok m"
  "book_cash (m\<lparr>pm_disk_ok := b\<rparr>) = book_cash m" "rows_ok (m\<lparr>pm_disk_ok := b\<rparr>) = rows_ok m"
  by (simp_all add: set_trailing_overrides_def set_holder_stop_overrides_def book_cash_def rows_ok_def)

lemma step_book:
  assumes "div_by_grid_exact D" and "rows_ok m" and "clean_op D m op"
  shows "book_cash (pos_step D st m op) = book_cash m + op_cash D st m op \<and> rows_ok (pos_step D st m op)"
proof (cases op)
  case (PEntry i sh pr fee r)
  let ?f = "entry_fill_row D sh pr fee r"
  show ?thesis
  proof (cases "find_open i m")
    case None
    then show ?thesis using PEntry assms(2)
      by (simp add: apply_entry_fill_def Let_def update_open_absent op_cash_def)
  next
    case (Some p)
    have e: "flow_cash (p_flows (?f p)) = flow_cash (p_flows p) - pr * sh - fee" "row_ok (?f p)"
      using entry_row_cash [OF rows_ok_find [OF assms(2) Some]] PEntry Some assms(3)
      by (simp_all add: clean_op_def)
    have "rows_ok (update_open i ?f m)" using assms(2) Some e(2) by (intro rows_ok_update) auto
    then show ?thesis using PEntry Some e(1) book_update [OF Some, of ?f]
      by (simp add: apply_entry_fill_def Let_def op_cash_def)
  qed
next
  case (PExit i sh pr fee r reb)
  let ?f = "exit_fill_row D sh pr fee r reb"
  show ?thesis
  proof (cases "find_open i m")
    case None
    then show ?thesis using PExit assms(2)
      by (simp add: apply_exit_fill_def Let_def update_open_absent op_cash_def)
  next
    case (Some p)
    have e: "flow_cash (p_flows (?f p)) = flow_cash (p_flows p) + pr * sh - fee + reb" "row_ok (?f p)"
      using exit_row_cash [OF rows_ok_find [OF assms(2) Some]] PExit Some assms(3)
      by (simp_all add: clean_op_def)
    have "rows_ok (update_open i ?f m)" using assms(2) Some e(2) by (intro rows_ok_update) auto
    then show ?thesis using PExit Some e(1) book_update [OF Some, of ?f]
      by (simp add: apply_exit_fill_def Let_def op_cash_def)
  qed
next
  case (PRebate i reb)
  show ?thesis
  proof (cases "find_open i m")
    case None
    then show ?thesis using PRebate assms(2)
      by (simp add: accrue_maker_rebate_def update_open_absent op_cash_def)
  next
    case (Some p)
    have e: "flow_cash (p_flows (rebate_row reb p)) = flow_cash (p_flows p) + reb"
      "row_ok (rebate_row reb p)"
      using rows_ok_find [OF assms(2) Some] PRebate Some assms(3)
      by (simp_all add: clean_op_def rebate_row_def flow_cash_def row_ok_def)
    have "rows_ok (update_open i (rebate_row reb) m)"
      using assms(2) Some e(2) by (intro rows_ok_update) auto
    then show ?thesis using PRebate Some e(1) book_update [OF Some, of "rebate_row reb"] assms(2)
      by (simp add: accrue_maker_rebate_def op_cash_def)
  qed
next
  case (PClose i pr rs mk now src)
  then show ?thesis using assms(2,3) close_book [OF assms(2), of i _ D st pr rs mk now src]
    by (cases "find_open i m") (simp_all add: clean_op_def op_cash_def close_pm_def)
next
  case (PMerge cond now)
  then show ?thesis using merge_book [OF assms(1,2), of st cond now] assms(3)
    by (simp add: clean_op_def op_cash_def)
next
  case (PBackfill i s)
  have "flow_cash (p_flows (position_backfill s p)) = flow_cash (p_flows p)"
    "row_ok (position_backfill s p) = row_ok p" for p
    by (simp_all add: position_backfill_def row_ok_def)
  then show ?thesis using PBackfill assms(2) book_update [of i m _ "position_backfill s"]
    by (cases "find_open i m")
      (auto simp: backfill_round_duration_pm_def op_cash_def update_open_absent intro!: rows_ok_update)
qed (use assms(2,3) in \<open>simp_all add: clean_op_def op_cash_def daily_book
    open_book backfill_book backfill_fallback_to_venue_def backfill_fallback_to_venue_tokens_def
    overrides_book\<close>)

text \<open>The cash a history moves, and the histories all of whose operations are clean when they come.\<close>

fun run_cash :: "dec_ops \<Rightarrow> fee_schedule option \<Rightarrow> position_manager \<Rightarrow> pos_op list \<Rightarrow> decimal" where
  "run_cash D st m [] = 0"
| "run_cash D st m (op # ops) = op_cash D st m op + run_cash D st (pos_step D st m op) ops"

fun clean_run :: "dec_ops \<Rightarrow> fee_schedule option \<Rightarrow> position_manager \<Rightarrow> pos_op list \<Rightarrow> bool" where
  "clean_run D st m [] \<longleftrightarrow> True"
| "clean_run D st m (op # ops) \<longleftrightarrow> clean_op D m op \<and> clean_run D st (pos_step D st m op) ops"

lemma run_book:
  "div_by_grid_exact D \<Longrightarrow> rows_ok m \<Longrightarrow> clean_run D st m ops \<Longrightarrow>
    book_cash (run (pos_step D st) m ops) = book_cash m + run_cash D st m ops \<and>
    rows_ok (run (pos_step D st) m ops)"
  by (induction ops arbitrary: m) (auto simp: step_book)

text \<open>C23: the trade records and the cash agree. Over any history of fills, reversals, rebates, closes
  and merges, the net profit of the settled records plus what the open rows have cost and returned so
  far changes by exactly the cash the operations moved; once the book is flat, the settled net profit
  is that cash.\<close>

theorem position_records_equal_cash:
  assumes "div_by_grid_exact D" and "\<forall>p \<in> set (pm_open m). row_ok p" and "clean_run D st m ops"
  shows "sum_list (map c_net_pnl_usd (pm_closed (run (pos_step D st) m ops)))
      + sum_list (map (flow_cash \<circ> p_flows) (pm_open (run (pos_step D st) m ops))) =
    sum_list (map c_net_pnl_usd (pm_closed m)) + sum_list (map (flow_cash \<circ> p_flows) (pm_open m))
      + run_cash D st m ops"
  using run_book [OF assms(1) _ assms(3)] assms(2) by (simp add: book_cash_def rows_ok_def)

lemma grid_exact_dec: "div_by_grid_exact exact_dec"
  by (simp add: div_by_grid_exact_def)

definition demo_ops :: "pos_op list" where
  "demo_ops = [PExit ''hft-4'' 40 (3/5) (1/4) RoleTaker 0, PExit ''hft-4'' (-10) (3/5) 0 RoleTaker 0,
     PClose ''hft-4'' (1/2) TakeProfit True 30 ''venue'']"

definition demo_book :: position_manager where
  "demo_book = fresh_manager\<lparr>pm_open := [demo_row]\<rparr>"

lemma demo_row_sel [simp]:
  "p_id demo_row = ''hft-4''" "p_shares demo_row = 100" "p_cost_usd demo_row = 50"
  "p_flows demo_row = no_flows\<lparr>cf_opened_shares := 100, cf_entry_cost_usd := 50\<rparr>"
  by (simp_all add: demo_row_def)

lemma demo_book_find [simp]: "find_open ''hft-4'' demo_book = Some demo_row"
  by (simp add: find_open_def demo_book_def)

theorem position_records_equal_cash_witness:
  "sum_list (map c_net_pnl_usd (pm_closed (run (pos_step exact_dec None) demo_book demo_ops))) +
    sum_list (map (flow_cash \<circ> p_flows) (pm_open (run (pos_step exact_dec None) demo_book demo_ops)))
    = - 50 + run_cash exact_dec None demo_book demo_ops"
proof -
  have "clean_run exact_dec None demo_book demo_ops"
    by (simp add: demo_ops_def clean_op_def apply_exit_fill_def Let_def find_open_update
        exit_fill_row_def no_flows_def update_open_def CLOSED_CAP_def demo_book_def fresh_manager_def
        manager_new_def find_open_def)
  moreover have "\<forall>p \<in> set (pm_open demo_book). row_ok p"
    by (simp add: demo_book_def row_ok_def no_flows_def)
  ultimately show ?thesis
    using position_records_equal_cash [OF grid_exact_dec, of demo_book None demo_ops]
    by (simp add: demo_book_def fresh_manager_def manager_new_def flow_cash_def no_flows_def)
qed

section \<open>Unwinding a close\<close>

text \<open>A close the venue takes back is undone exactly: the row returns as it stood, the settled
  record leaves the history, and every account's realized profit of the day is what it was; a second
  unwind of the same close is refused and changes nothing.\<close>

theorem position_unwind_undoes_close:
  assumes "find_open i m = Some p" and "length (pm_closed m) < CLOSED_CAP"
    and "distinct (map p_id (pm_open m))"
    and "close_pm D st i pr rs mk now src m = (n, Some c)"
  shows "snd (restore_closed p c n) \<and>
    pm_open (fst (restore_closed p c n)) = remove_first (\<lambda>q. p_id q = i) (pm_open m) @ [p] \<and>
    pm_closed (fst (restore_closed p c n)) = pm_closed m \<and>
    daily_pnl_for a (fst (restore_closed p c n)) = daily_pnl_for a m \<and>
    restore_closed p c (fst (restore_closed p c n)) = (fst (restore_closed p c n), False)"
proof -
  have n: "n = fst (close_pm D st i pr rs mk now src m)" using assms(4) by simp
  have c: "c = closed_record D (active_schedule st) p pr rs mk now src"
    using close_pm_Some(1) [OF assms(1) refl n] assms(4) by simp
  note cl = close_pm_Some [OF assms(1) c n]
  have pid: "p_id p = i" using assms(1) by (auto simp: find_open_def dest: find_Some_prop)
  have "distinct (map p_id xs) \<Longrightarrow> \<forall>q \<in> set (remove_first (\<lambda>q. p_id q = i) xs). p_id q \<noteq> i" for xs
    by (induction xs) (auto, metis image_eqI)
  then have fresh: "\<forall>q \<in> set (pm_open n). p_id q \<noteq> p_id p" using assms(3) by (simp add: cl(2) pid)
  have closed: "pm_closed n = pm_closed m @ [c]" using assms(2) by (simp add: cl(3) last_n_all)
  have acc: "c_account_id c = p_account_id p" by (simp add: c closed_record_def Let_def)
  have "remove_last (\<lambda>x. c_id x = c_id c \<and> c_exited_at_ms x = c_exited_at_ms c) (pm_closed n) = pm_closed m"
    unfolding closed by (rule remove_last_snoc) simp
  then have r: "pm_open (fst (restore_closed p c n)) = pm_open n @ [p]"
    "pm_closed (fst (restore_closed p c n)) = pm_closed m" "snd (restore_closed p c n)"
    "daily_pnl_for a (fst (restore_closed p c n)) = daily_pnl_for a m"
    using fresh cl(6) [of a] cl(6) [of "as_str (p_account_id p)"]
    by (auto simp: restore_closed_def Let_def frame_simps daily_pnl_for_def acc)
  then have "restore_closed p c (fst (restore_closed p c n)) = (fst (restore_closed p c n), False)"
    by (subst restore_closed_def) simp
  with r show ?thesis by (simp add: cl(2))
qed

theorem position_unwind_undoes_close_witness:
  "pm_closed (fst (restore_closed demo_row
      (closed_record exact_dec (active_schedule None) demo_row (1/4) StopLoss True 30 ''venue'')
      (fst (close_pm exact_dec None ''hft-4'' (1/4) StopLoss True 30 ''venue'' demo_book)))) = []"
proof -
  have "length (pm_closed demo_book) < CLOSED_CAP" and "distinct (map p_id (pm_open demo_book))"
    and "pm_closed demo_book = []"
    by (simp_all add: demo_book_def fresh_manager_def manager_new_def CLOSED_CAP_def)
  then show ?thesis
    using position_unwind_undoes_close [OF demo_book_find _ _
      close_pm_Some(1) [OF demo_book_find refl refl]] by simp
qed

section \<open>Identifiers\<close>

lemma digit_value_char: "d < 10 \<Longrightarrow> digit_value (digit_char d) = Some d"
proof -
  assume "d < 10"
  then have "d \<in> {0, 1, 2, 3, 4, 5, 6, 7, 8, 9}" by auto
  then show ?thesis by (auto simp: digit_value_def digit_char_def upt_rec)
qed

lemma digit_char_not_plus: "d < 10 \<Longrightarrow> digit_char d \<noteq> CHR ''+''"
proof -
  assume "d < 10"
  then have "d \<in> {0, 1, 2, 3, 4, 5, 6, 7, 8, 9}" by auto
  then show ?thesis by (auto simp: digit_char_def)
qed

lemma digits_value_append:
  "digits_value acc (xs @ ys) = (case digits_value acc xs of Some a \<Rightarrow> digits_value a ys | None \<Rightarrow> None)"
  by (induction acc xs rule: digits_value.induct) (auto split: option.splits)

lemma digits_value_nat_str: "n < 2 ^ 64 \<Longrightarrow> digits_value 0 (nat_str n) = Some n"
proof (induction n rule: nat_str.induct)
  case (1 n)
  show ?case
  proof (cases "n < 10")
    case True
    then show ?thesis by (simp add: nat_str.simps [of n] digit_value_char)
  next
    case False
    then have "digits_value 0 (nat_str (n div 10)) = Some (n div 10)"
      using 1 by (meson div_le_dividend le_less_trans)
    moreover have "n div 10 * 10 + n mod 10 = n" by simp
    ultimately show ?thesis
      using False 1(2) by (simp add: nat_str.simps [of n] digits_value_append digit_value_char)
  qed
qed

lemma nat_str_hd: "\<exists>c cs. nat_str n = c # cs \<and> c \<noteq> CHR ''+''"
proof (induction n rule: nat_str.induct)
  case (1 n)
  then show ?case
    by (cases "n < 10") (auto simp: nat_str.simps [of n] digit_char_not_plus)
qed

text \<open>A minted identifier reads back as its number.\<close>

lemma hft_number_minted: "n < 2 ^ 64 \<Longrightarrow> hft_number (hft_prefix @ nat_str n) = Some n"
  using nat_str_hd [of n] digits_value_nat_str [of n]
  by (auto simp: hft_number_def hft_prefix_def parse_u64_def Let_def)

text \<open>The reachable books of a process: it boots from durable rows and a closed history with
  identifiers \<open>hist\<close>, whose largest number the history's scan reports; a row is put back only if it
  was open before. \<open>seen\<close> is every identifier that has been in the book or the history.\<close>

inductive pos_reach :: "dec_ops \<Rightarrow> fee_schedule option \<Rightarrow> string set \<Rightarrow> position_manager \<Rightarrow> bool"
  for D st where
  boot: "\<lbrakk>\<forall>i \<in> set hist. \<forall>n. hft_number i = Some n \<longrightarrow> (\<exists>h. history_max = Some h \<and> n \<le> h)\<rbrakk> \<Longrightarrow>
    pos_reach D st (set (map p_id rows) \<union> set hist)
      (restore_open rows history_max (manager_new disk cfg))"
| mint: "\<lbrakk>pos_reach D st seen m; pm_next_id m < 2 ^ 64; (n, p) = open_pm o1 now m\<rbrakk> \<Longrightarrow>
    pos_reach D st (insert (p_id p) seen) n"
| step: "\<lbrakk>pos_reach D st seen m; \<forall>o1 now. op \<noteq> POpen o1 now;
      \<forall>p c. op = PRestore p c \<longrightarrow> p_id p \<in> seen\<rbrakk> \<Longrightarrow> pos_reach D st seen (pos_step D st m op)"

inductive_cases pos_reachE: "pos_reach D st seen m"

definition ids_below :: "string set \<Rightarrow> position_manager \<Rightarrow> bool" where
  "ids_below seen m \<longleftrightarrow> (\<forall>i \<in> seen. \<forall>n. hft_number i = Some n \<longrightarrow> n < pm_next_id m)"

lemma next_id_frame [frame_simps]:
  "pm_next_id (fst (apply_entry_fill D i sh pr fee r m)) = pm_next_id m"
  "pm_next_id (fst (apply_exit_fill D i sh pr fee r reb m)) = pm_next_id m"
  "pm_next_id (accrue_maker_rebate i reb m) = pm_next_id m"
  "pm_next_id (backfill_round_duration_pm i s m) = pm_next_id m"
  "pm_next_id (fst (drop_if_empty i m)) = pm_next_id m"
  "pm_next_id (fst (remove_account_positions acc m)) = pm_next_id m"
  "pm_next_id (fst (backfill_rows P m)) = pm_next_id m"
  "pm_next_id (fst (restore_closed p c m)) = pm_next_id m"
  "pm_next_id (fst (close_pm D st i pr rs mk now src m)) = pm_next_id m"
  "pm_next_id (fst (roll_daily D a now2 e b m)) = pm_next_id m"
  by (simp_all add: apply_entry_fill_def apply_exit_fill_def update_open_def Let_def
      accrue_maker_rebate_def backfill_round_duration_pm_def drop_if_empty_def restore_closed_def
      remove_account_positions_def backfill_rows_def close_pm_def frame_simps
      roll_daily_def reconcile_same_day_base_def split: option.splits)

lemma next_id_merge [frame_simps]: "pm_next_id (fst (merge_condition D st cond now m)) = pm_next_id m"
proof -
  have leg: "pm_next_id (fst (merge_leg D st pairs t leg x)) = pm_next_id (fst x)" for pairs t leg x
    by (cases x) (simp add: merge_leg_eq Let_def frame_simps)
  have "pm_next_id n = pm_next_id m"
    if "(n, cs) = merge_leg D st pairs now down (merge_leg D st pairs now up (m, []))" for n cs pairs up down
    using leg [of pairs now down "merge_leg D st pairs now up (m, [])"] leg [of pairs now up "(m, [])"]
      that [symmetric] by simp
  then show ?thesis
    using merge_cases [of D st cond now m] by (auto simp: frame_simps)
qed

lemma next_id_trips [frame_simps]: "pm_next_id (fst (take_daily_trips D m)) = pm_next_id m"
proof -
  have step: "pm_next_id (fst (trip_step D a x)) = pm_next_id (fst x)" for a x
    by (cases x) (simp add: trip_step_def Let_def frame_simps)
  have "pm_next_id (fst (fold (trip_step D) as x)) = pm_next_id (fst x)" for as x
    by (induction as arbitrary: x) (simp_all add: step)
  then show ?thesis by (simp add: take_daily_trips_def)
qed

lemma next_id_step: "\<forall>o1 now. op \<noteq> POpen o1 now \<Longrightarrow> pm_next_id (pos_step D st m op) = pm_next_id m"
  by (cases op) (simp_all add: frame_simps backfill_fallback_to_venue_def
    backfill_fallback_to_venue_tokens_def set_trailing_overrides_def set_holder_stop_overrides_def)

lemma foldr_max_ge: "x \<in> set xs \<Longrightarrow> x \<le> foldr max xs (0::nat)"
  by (induction xs) (auto simp: max_def)

lemma restore_open_below:
  assumes "\<forall>i \<in> set hist. \<forall>n. hft_number i = Some n \<longrightarrow> (\<exists>h. history_max = Some h \<and> n \<le> h)"
  shows "ids_below (set (map p_id rows) \<union> set hist) (restore_open rows history_max m)"
proof -
  let ?max = "foldr max (List.map_filter hft_number (map p_id rows)) 0"
  have "n \<le> ?max" if "p \<in> set rows" "hft_number (p_id p) = Some n" for p n
    using that by (intro foldr_max_ge) (force simp: map_filter_def)
  moreover have "?max < pm_next_id (restore_open rows history_max m)"
    and "\<And>h. history_max = Some h \<Longrightarrow> h < pm_next_id (restore_open rows history_max m)"
    by (auto simp: restore_open_def Let_def)
  ultimately show ?thesis using assms unfolding ids_below_def by fastforce
qed

lemma reach_below: "pos_reach D st seen m \<Longrightarrow> ids_below seen m"
proof (induction rule: pos_reach.induct)
  case (boot hist history_max rows disk cfg)
  then show ?case by (rule restore_open_below)
next
  case (mint seen m n p o1 now)
  then show ?case
    using hft_number_minted [of "pm_next_id m"]
    by (auto simp: open_pm_def Let_def ids_below_def less_Suc_eq)
next
  case (step seen m op)
  then show ?case by (simp add: ids_below_def next_id_step)
qed

text \<open>An identifier is never issued twice. In every book a process can reach after booting from
  its durable rows and its closed history, and while the counter fits 64 bits, the position opened
  next carries an identifier that no row of the book, of the history or of the session has carried.\<close>

theorem position_ids_never_reused:
  assumes "pos_reach D st seen m" and "pm_next_id m < 2 ^ 64"
  shows "p_id (snd (open_pm o1 now m)) \<notin> seen"
  using reach_below [OF assms(1)] hft_number_minted [OF assms(2)]
  by (auto simp: open_pm_def Let_def ids_below_def)

definition demo_params :: open_params where
  "demo_params = \<lparr>opn_strategy = ''s'', opn_asset = ''BTC'', opn_direction = Up, opn_token_id = ''t'',
     opn_condition_id = ''c'', opn_account_id = AccountId ''a'', opn_venue = ''v'',
     opn_partner_token_id = ''u'', opn_entry_price = 1/2, opn_expires_at_ms = 500000,
     opn_was_maker = True, opn_target_exit_price = None, opn_round_duration_sec = 300,
     opn_round_slot = 0\<rparr>"

theorem position_ids_never_reused_witness:
  "p_id (snd (open_pm demo_params 0 (restore_open [demo_row] (Some 7) fresh_manager)))
    \<notin> {''hft-4'', ''hft-7''}"
proof -
  have numbers: "hft_number ''hft-7'' = Some 7" "hft_number ''hft-4'' = Some 4"
    by (simp_all add: hft_number_def hft_prefix_def parse_u64_def digit_value_def upt_rec)
  have "pos_reach exact_dec None (set (map p_id [demo_row]) \<union> set [''hft-7''])
      (restore_open [demo_row] (Some 7) (manager_new (\<lambda>_. DfMissing) position_config_default))"
    by (rule pos_reach.boot) (simp add: numbers)
  then have "pos_reach exact_dec None {''hft-4'', ''hft-7''} (restore_open [demo_row] (Some 7) fresh_manager)"
    by (simp add: fresh_manager_def insert_commute)
  moreover have "pm_next_id (restore_open [demo_row] (Some 7) fresh_manager) < 2 ^ 64"
    by (simp add: restore_open_def Let_def fresh_manager_def manager_new_def map_filter_def numbers)
  ultimately show ?thesis by (rule position_ids_never_reused)
qed

section \<open>Three places where the code departs from its documentation\<close>

text \<open>The daily store documents that a file it cannot parse does not start a fresh day; the load
  nevertheless returns the empty book, which is also what a missing file gives, and the next write
  replaces the file.\<close>

theorem daily_store_unreadable_is_fresh:
  "daily_load DfUnreadable = daily_load DfMissing \<and>
   (pm_daily_file m = Some DfUnreadable \<and> pm_disk_ok m \<longrightarrow>
      pm_daily_file (persist_daily m) = Some (daily_save (pm_daily m)))"
  by (simp add: daily_load_def persist_daily_def)

text \<open>A book in which two accounts hold the condition, the second of them both legs.\<close>

definition two_accounts :: position_manager where
  "two_accounts = fresh_manager\<lparr>pm_open :=
     [demo_row\<lparr>p_id := ''hft-1'', p_account_id := AccountId ''b''\<rparr>, demo_row,
      demo_row\<lparr>p_id := ''hft-2'', p_direction := Down\<rparr>]\<rparr>"

text \<open>The merge takes the first row of each direction whatever its account: with two accounts
  holding a condition it refuses, and changes nothing, although one of them holds both legs.\<close>

theorem merge_misses_same_account_pair:
  "\<exists>up down. up \<in> set (pm_open two_accounts) \<and> down \<in> set (pm_open two_accounts) \<and>
     p_account_id up = p_account_id down \<and> p_condition_id up = p_condition_id down \<and>
     p_direction up = Up \<and> p_direction down = Down \<and> p_shares up = 100 \<and> p_shares down = 100 \<and>
     merge_condition exact_dec None (p_condition_id up) 0 two_accounts = (two_accounts, None)"
  by (rule exI [of _ demo_row], rule exI [of _ "demo_row\<lparr>p_id := ''hft-2'', p_direction := Down\<rparr>"])
    (simp add: two_accounts_def merge_condition_def find_leg_def demo_row_def)

text \<open>The audit price of a fallback close does not survive its confirmation. A row whose position
  was partly sold before the fallback books the fallback price as its original price and the average of
  its real sales as its exit price; the later venue verdict overwrites the former with the latter.\<close>

theorem position_backfill_overwrites_fallback_price:
  assumes "find_open i m = Some p" and "0 < cf_opened_shares (p_flows p)"
    and "0 < cf_sold_shares (p_flows p)"
    and "close_pm D st i pr rs mk now ''fallback'' m = (n, Some c)"
    and "n2 = fst (backfill_fallback_to_venue (p_condition_id p) n)"
  shows "c_original_fallback_price c = Some pr \<and>
    (\<exists>c2 \<in> set (pm_closed n2). c_id c2 = c_id c \<and> c_source c2 = ''venue'' \<and>
       c_original_fallback_price c2 = Some (ddiv D (cf_proceeds_usd (p_flows p))
         (min (cf_sold_shares (p_flows p)) (cf_opened_shares (p_flows p)))))"
proof -
  have n: "n = fst (close_pm D st i pr rs mk now ''fallback'' m)" using assms(4) by simp
  have c: "c = closed_record D (active_schedule st) p pr rs mk now ''fallback''"
    using close_pm_Some(1) [OF assms(1) refl n] assms(4) by simp
  have "pm_closed n = last_n CLOSED_CAP (pm_closed m @ [c])" by (rule close_pm_Some(3) [OF assms(1) c n])
  moreover have "last (last_n CLOSED_CAP (pm_closed m @ [c])) = last (pm_closed m @ [c])"
    by (rule last_last_n) (simp_all add: CLOSED_CAP_def)
  moreover have "last_n CLOSED_CAP (pm_closed m @ [c]) \<noteq> []"
    using last_n_eq_Nil [of CLOSED_CAP "pm_closed m @ [c]"] by (simp add: CLOSED_CAP_def)
  ultimately have "c \<in> set (pm_closed n)" by (metis last_in_set last_snoc)
  then have "flip_to_venue c \<in> set (pm_closed n2)"
    by (auto simp: assms(5) backfill_fallback_to_venue_def backfill_rows_def c closed_record_def Let_def
        is_fallback_def image_iff intro!: bexI [of _ c])
  moreover have "c_original_fallback_price c = Some pr" "c_id (flip_to_venue c) = c_id c"
    "c_source (flip_to_venue c) = ''venue''"
    "c_original_fallback_price (flip_to_venue c) = Some (ddiv D (cf_proceeds_usd (p_flows p))
         (min (cf_sold_shares (p_flows p)) (cf_opened_shares (p_flows p))))"
    using assms(2,3) by (simp_all add: c closed_record_def Let_def flows_def flip_to_venue_def)
  ultimately show ?thesis by blast
qed

definition part_sold_book :: position_manager where
  "part_sold_book = fresh_manager\<lparr>pm_open := [demo_row\<lparr>p_shares := 60,
     p_flows := (p_flows demo_row)\<lparr>cf_sold_shares := 40, cf_proceeds_usd := 30\<rparr>\<rparr>]\<rparr>"

theorem position_backfill_overwrites_fallback_price_witness:
  "\<exists>c2 \<in> set (pm_closed (fst (backfill_fallback_to_venue ''c''
      (fst (close_pm exact_dec None ''hft-4'' (1/2) UnverifiableExpiry True 9 ''fallback'' part_sold_book))))).
     c_original_fallback_price c2 = Some (3/4)"
proof -
  let ?p = "demo_row\<lparr>p_shares := 60, p_flows := (p_flows demo_row)\<lparr>cf_sold_shares := 40, cf_proceeds_usd := 30\<rparr>\<rparr>"
  have f: "find_open ''hft-4'' part_sold_book = Some ?p"
    by (simp add: find_open_def part_sold_book_def)
  have cond: "p_condition_id ?p = ''c''" by (simp add: demo_row_def)
  note r = close_pm_Some(1) [OF f refl refl, of exact_dec None "1/2" UnverifiableExpiry True 9 "''fallback''"]
  show ?thesis
    using position_backfill_overwrites_fallback_price [OF f _ _ r refl]
    unfolding cond by (fastforce simp: no_flows_def)
qed

end
