(* ===== verification/PositionExitsProps.thy ===== *)
theory PositionExitsProps
  imports PositionExits PositionBook
begin

text \<open>
  What the exit sweep guarantees: every request is priced at a live, fresh bid; a warranted exit that
  cannot be priced is reported; the ladder's steps fire once and in order; and the sweep changes nothing
  a position's books are kept on.
\<close>

section \<open>What a sweep leaves alone\<close>

text \<open>Equal but for the exit state and the display marks.\<close>

definition same_holding :: "open_position \<Rightarrow> open_position \<Rightarrow> bool" where
  "same_holding p q \<longleftrightarrow> (\<exists>s c v t. q = p\<lparr>p_state := s, p_current_price := c, p_prev_price := v, p_last_book_ts := t\<rparr>)"

lemma same_holdingE:
  assumes "same_holding p q"
  obtains "p_id q = p_id p" "p_token_id q = p_token_id p" "p_entry_price q = p_entry_price p"
    "p_shares q = p_shares p" "p_flows q = p_flows p" "p_target_exit_price q = p_target_exit_price p"
    "p_cost_usd q = p_cost_usd p" "p_strategy q = p_strategy p"
  using assms by (auto simp: same_holding_def)

lemma same_holding_refl [simp]: "same_holding p p"
proof -
  have "p = p\<lparr>p_state := p_state p, p_current_price := p_current_price p, p_prev_price := p_prev_price p,
    p_last_book_ts := p_last_book_ts p\<rparr>" by simp
  thus ?thesis unfolding same_holding_def by blast
qed

lemma same_holding_trans: "same_holding p q \<Longrightarrow> same_holding q r \<Longrightarrow> same_holding p r"
  unfolding same_holding_def by force

lemma same_holding_state [simp]: "same_holding p (p\<lparr>p_state := s\<rparr>)"
proof -
  have "p\<lparr>p_state := s\<rparr> = p\<lparr>p_state := s, p_current_price := p_current_price p, p_prev_price := p_prev_price p,
    p_last_book_ts := p_last_book_ts p\<rparr>" by simp
  thus ?thesis unfolding same_holding_def by blast
qed

lemma same_holding_mark [simp]: "same_holding p (refresh_mark book now p)"
proof -
  obtain c v t where "refresh_mark book now p =
    p\<lparr>p_state := p_state p, p_current_price := c, p_prev_price := v, p_last_book_ts := t\<rparr>"
  proof
    show "refresh_mark book now p = p\<lparr>p_state := p_state p,
      p_current_price := p_current_price (refresh_mark book now p),
      p_prev_price := p_prev_price (refresh_mark book now p),
      p_last_book_ts := p_last_book_ts (refresh_mark book now p)\<rparr>"
      by (cases p) (simp add: refresh_mark_def Let_def split: option.splits)
  qed
  thus ?thesis unfolding same_holding_def by blast
qed

lemma same_holding_valuate [simp]: "same_holding p (valuate_one D book now cfg p)"
  unfolding valuate_one_def by (rule same_holding_trans[OF same_holding_state same_holding_mark])

lemma valuate_one_fields:
  "p_id (valuate_one D book now cfg p) = p_id p" "p_entry_price (valuate_one D book now cfg p) = p_entry_price p"
  "p_target_exit_price (valuate_one D book now cfg p) = p_target_exit_price p"
  "p_shares (valuate_one D book now cfg p) = p_shares p"
  by (rule same_holdingE[OF same_holding_valuate], assumption)+

text \<open>What the rows of one sweep share: the configuration and the declared overlays.\<close>

definition same_policy :: "position_manager \<Rightarrow> position_manager \<Rightarrow> bool" where
  "same_policy m n \<longleftrightarrow> pm_config n = pm_config m \<and> pm_holder_stop_overrides n = pm_holder_stop_overrides m \<and>
     pm_trailing_overrides n = pm_trailing_overrides m \<and> pm_last_suppression_at n = pm_last_suppression_at m \<and>
     pm_suppressed_stops n = pm_suppressed_stops m"

lemma same_policy_refl [simp]: "same_policy m m"
  by (simp add: same_policy_def)

lemma same_policy_trans: "same_policy m n \<Longrightarrow> same_policy n k \<Longrightarrow> same_policy m k"
  by (simp add: same_policy_def)

lemma row_config_policy: "same_policy m n \<Longrightarrow> row_config n p = row_config m p"
  by (simp add: row_config_def same_policy_def)

lemma sweep_update_policy: "same_policy m (fst (sweep_update D books now iv tick p m))"
  by (simp add: sweep_update_def same_policy_def Let_def)

lemma sweep_update_holding: "same_holding p (snd (sweep_update D books now iv tick p m))"
  by (simp add: sweep_update_def Let_def)

lemma outage_policy: "same_policy m (fst (outage pr i now m))"
  by (auto simp: outage_def same_policy_def split: option.splits)

lemma ladder_branch_policy: "same_policy m (fst (ladder_branch D cfg p w x d m))"
  by (auto simp: ladder_branch_def same_policy_def Let_def split: prod.splits)

text \<open>The parts of a row's sweep, named.\<close>

definition row_after where
  "row_after D books now iv tick p m = snd (sweep_update D books now iv tick p m)"

definition row_verdict where
  "row_verdict D fees books now iv tick p m = decide_exit_verdict D fees
     (row_tick (row_config m p) (books (p_token_id p)) now (row_after D books now iv tick p m))"

lemma row_after_holding: "same_holding p (row_after D books now iv tick p m)"
  unfolding row_after_def by (rule sweep_update_holding)

lemma sweep_row_facts:
  assumes "sweep_row D fees books now iv tick p m = (m', p', out, w)"
  shows "same_policy m m'" "p' = row_after D books now iv tick p m"
proof -
  have a: "same_policy m (fst (outage pr i now (fst (sweep_update D books now iv tick p m))))" for pr i
    by (rule same_policy_trans[OF sweep_update_policy outage_policy])
  have b: "same_policy m (fst (ladder_branch D c q x y d
      (fst (outage pr i now (fst (sweep_update D books now iv tick p m))))))" for c q x y d pr i
    by (rule same_policy_trans[OF a ladder_branch_policy])
  obtain m1 p1 where u: "sweep_update D books now iv tick p m = (m1, p1)" by (cases "sweep_update D books now iv tick p m")
  obtain m2 n where o: "outage (row_priceable (books (p_token_id p)) now (pc_exit (pm_config m))) (p_id p1) now m1 = (m2, n)"
    by (cases "outage (row_priceable (books (p_token_id p)) now (pc_exit (pm_config m))) (p_id p1) now m1")
  have m2: "same_policy m m2" using a[of "row_priceable (books (p_token_id p)) now (pc_exit (pm_config m))" "p_id p1"]
    by (simp add: u o)
  have m3: "same_policy m (fst (ladder_branch D c q x y d m2))" for c q x y d
    by (rule same_policy_trans[OF m2 ladder_branch_policy])
  show "same_policy m m'" using assms m2 m3
    by (auto simp: sweep_row_def Let_def u o split: option.splits if_splits prod.splits) (metis fst_conv)+
  show "p' = row_after D books now iv tick p m" using assms
    by (auto simp: sweep_row_def row_after_def Let_def u o split: option.splits if_splits prod.splits)
qed

lemma sweep_row_holding:
  "sweep_row D fees books now iv tick p m = (m', p', out, w) \<Longrightarrow> same_holding p p'"
  by (metis sweep_row_facts(2) row_after_holding)

lemma sweep_rows_facts:
  assumes "sweep_rows D fees books now iv tick ps m = (m', ps', out, w)"
  shows "same_policy m m'" "list_all2 same_holding ps ps'"
  using assms
proof (induction ps arbitrary: m m' ps' out w)
  case Nil
  { case 1 thus ?case by simp next case 2 thus ?case by simp }
next
  case (Cons p ps)
  { case 1 thus ?case using Cons.IH(1) sweep_row_facts(1) same_policy_trans
      by (auto split: prod.splits) blast
  next case 2 thus ?case using Cons.IH(2) sweep_row_holding
      by (auto split: prod.splits) }
qed


section \<open>Prices of requests\<close>

lemma ladder_step_request:
  assumes "apply_exit_ladder_step D p ladder st fl w x v mf = (st', fl', Some r)"
  shows "xr_position_id r = p_id p \<and> xr_exit_price r = x"
  using assms by (auto simp: apply_exit_ladder_step_def Let_def split: if_splits prod.splits)

lemma ladder_branch_request:
  assumes "r \<in> set (snd (ladder_branch D cfg p w x d m))"
  shows "xr_position_id r = p_id p \<and> xr_exit_price r = x"
  using assms ladder_step_request[of D p "pc_exit_ladder (pm_config m)"]
  by (auto simp: ladder_branch_def Let_def plain_request_def split: prod.splits option.splits if_splits)

definition request_priced ::
  "(string \<Rightarrow> book_view option) \<Rightarrow> int \<Rightarrow> exit_config \<Rightarrow> open_position \<Rightarrow> exit_request \<Rightarrow> bool" where
  "request_priced books now cfg p r \<longleftrightarrow> xr_position_id r = p_id p \<and> (\<exists>b. books (p_token_id p) = Some b \<and>
     0 < bv_best_bid b \<and> book_is_fresh b now cfg \<and> xr_exit_price r \<le> bv_best_bid b \<and>
     (xr_exit_price r = bv_best_bid b \<or>
      p_target_exit_price p = Some (xr_exit_price r) \<and> xr_reason r = TakeProfit \<and> xr_use_maker r))"

lemma row_priceableD:
  "row_priceable book now cfg \<Longrightarrow> \<exists>b. book = Some b \<and> 0 < bv_best_bid b \<and> executable_bid book = bv_best_bid b \<and>
     book_is_fresh b now cfg"
  by (auto simp: row_priceable_def executable_bid_def row_fresh_def split: option.splits if_splits)

text \<open>The three branches of a row.\<close>

lemma sweep_row_target:
  assumes "sweep_update D books now iv tick p m = (m1, p1)"
    and "target_hit (pc_exit (pm_config m)) (books (p_token_id p)) now p1 = Some t"
  shows "sweep_row D fees books now iv tick p m = (fst (outage True (p_id p1) now m1), p1,
    [\<lparr>xr_position_id = p_id p1, xr_reason = TakeProfit, xr_exit_price = t, xr_use_maker = True,
      xr_close_shares = None\<rparr>], [])"
  using assms by (auto simp: sweep_row_def Let_def target_hit_def split: prod.splits option.splits if_splits)

lemma sweep_row_ladder:
  assumes "sweep_update D books now iv tick p m = (m1, p1)"
    and "target_hit (pc_exit (pm_config m)) (books (p_token_id p)) now p1 = None"
    and "pc_exit_ladder (pm_config m) \<noteq> []"
    and "row_priceable (books (p_token_id p)) now (pc_exit (pm_config m))"
  shows "\<exists>wk. sweep_row D fees books now iv tick p m =
    (let v = decide_exit_verdict D fees (row_tick (row_config m p) (books (p_token_id p)) now p1);
         l = ladder_branch D (pc_exit (pm_config m)) p1
           (effective_stop_pct D (xc_stop_loss_pct (row_config m p)) (tdiv (p_expires_at_ms p1 - now) 1000) (row_config m p))
           (executable_bid (books (p_token_id p))) (ev_decision v) (fst (outage True (p_id p1) now m1))
     in (fst l, p1, snd l, wk)) \<and>
     (\<forall>s. ev_suppressed_stop (decide_exit_verdict D fees (row_tick (row_config m p) (books (p_token_id p)) now p1)) = Some s \<longrightarrow>
        (\<exists>e \<in> set wk. se_cause e = WickGuard \<and> se_position_id e = p_id p1 \<and> se_bid e = ss_bid s))"
  using assms by (auto simp: sweep_row_def Let_def wick_event_def split: prod.splits option.splits)

lemma sweep_row_plain:
  assumes "sweep_update D books now iv tick p m = (m1, p1)"
    and "target_hit (pc_exit (pm_config m)) (books (p_token_id p)) now p1 = None"
    and "pc_exit_ladder (pm_config m) = [] \<or> \<not> row_priceable (books (p_token_id p)) now (pc_exit (pm_config m))"
    and v: "v = decide_exit_verdict D fees (row_tick (row_config m p) (books (p_token_id p)) now p1)"
  shows "\<exists>mx wk. sweep_row D fees books now iv tick p m = (mx, p1,
      (case ev_decision v of
         Some d \<Rightarrow> if row_priceable (books (p_token_id p)) now (pc_exit (pm_config m))
           then [plain_request p1 (executable_bid (books (p_token_id p))) d] else [] | None \<Rightarrow> []), wk) \<and>
     (\<forall>d. ev_decision v = Some d \<and> \<not> row_priceable (books (p_token_id p)) now (pc_exit (pm_config m)) \<longrightarrow>
        (\<exists>e \<in> set wk. se_position_id e = p_id p1 \<and> se_reason e = Some (xd_reason d) \<and> se_now_ms e = now))"
  using assms by (auto simp: sweep_row_def Let_def held_exit_def split: prod.splits option.splits)

lemma sweep_row_priced:
  assumes "sweep_row D fees books now iv tick p m = (m', p', out, w)" "r \<in> set out"
  shows "request_priced books now (pc_exit (pm_config m)) p r"
proof -
  let ?cfg = "pc_exit (pm_config m)" and ?book = "books (p_token_id p)"
  obtain m1 p1 where u: "sweep_update D books now iv tick p m = (m1, p1)" by (cases "sweep_update D books now iv tick p m")
  have h: "p_id p1 = p_id p" "p_target_exit_price p1 = p_target_exit_price p"
    using sweep_update_holding[of p D books now iv tick m] by (auto simp: u elim: same_holdingE)
  have "row_priceable ?book now ?cfg \<and> xr_position_id r = p_id p \<and>
    (xr_exit_price r = executable_bid ?book \<or> (xr_exit_price r \<le> executable_bid ?book \<and>
      p_target_exit_price p = Some (xr_exit_price r) \<and> xr_reason r = TakeProfit \<and> xr_use_maker r))"
  proof (cases "target_hit ?cfg ?book now p1")
    case (Some t)
    thus ?thesis using assms h sweep_row_target[OF u Some, of fees]
      by (auto simp: target_hit_def split: option.splits if_splits)
  next
    case None
    show ?thesis
    proof (cases "pc_exit_ladder (pm_config m) \<noteq> [] \<and> row_priceable ?book now ?cfg")
      case True
      thus ?thesis using sweep_row_ladder[OF u None, of fees] assms ladder_branch_request h
        by (metis (no_types, lifting) Pair_inject)
    next
      case False
      thus ?thesis using sweep_row_plain[OF u None _ refl, of fees] assms h
        by (auto simp: plain_request_def split: option.splits if_splits)
    qed
  qed
  thus ?thesis using row_priceableD[of ?book now ?cfg] by (auto simp: request_priced_def)
qed

lemma sweep_rows_priced:
  "sweep_rows D fees books now iv tick ps m = (m', ps', out, w) \<Longrightarrow> r \<in> set out \<Longrightarrow>
     \<exists>p \<in> set ps. request_priced books now (pc_exit (pm_config m)) p r"
proof (induction ps arbitrary: m m' ps' out w)
  case (Cons p ps)
  obtain m1 p1 o1 w1 where r: "sweep_row D fees books now iv tick p m = (m1, p1, o1, w1)"
    by (cases "sweep_row D fees books now iv tick p m")
  obtain m2 p2 o2 w2 where rs: "sweep_rows D fees books now iv tick ps m1 = (m2, p2, o2, w2)"
    by (cases "sweep_rows D fees books now iv tick ps m1")
  have "pm_config m1 = pm_config m" using sweep_row_facts(1)[OF r] by (simp add: same_policy_def)
  thus ?case using Cons.prems Cons.IH[OF rs] sweep_row_priced[OF r] by (auto simp: r rs)
qed simp

text \<open>. Every exit the sweep asks for names an open position and is priced at what a buyer is
  quoting for it now: the book exists, is within its age budget and has a bid, and the price is that
  bid, except for the strategy's fixed target, a maker take-profit at or below the bid. A stale mark,
  a mid or a remembered price never becomes the price of an order.\<close>

theorem exits_priced_at_a_live_bid:
  assumes "check_exits_inner D fees books now iv tick m = (m', out)" "r \<in> set out"
  shows "\<exists>p \<in> set (pm_open m). xr_position_id r = p_id p \<and> (\<exists>b. books (p_token_id p) = Some b \<and>
     0 < bv_best_bid b \<and> book_is_fresh b now (pc_exit (pm_config m)) \<and> xr_exit_price r \<le> bv_best_bid b \<and>
     (xr_exit_price r = bv_best_bid b \<or>
      p_target_exit_price p = Some (xr_exit_price r) \<and> xr_reason r = TakeProfit \<and> xr_use_maker r))"
  using assms sweep_rows_priced unfolding request_priced_def check_exits_inner_def
  by (fastforce split: prod.splits)

lemma fold_note_open: "pm_open (fold note_suppressed_stop es m) = pm_open m"
  by (induction es arbitrary: m) (auto simp: note_suppressed_stop_def Let_def split: option.splits)

text \<open>The sweep's effect on the book is on the marks alone.\<close>

theorem sweep_keeps_holdings:
  assumes "check_exits_inner D fees books now iv tick m = (m', out)"
  shows "list_all2 same_holding (pm_open m) (pm_open m')"
  using assms sweep_rows_facts(2) by (fastforce simp: check_exits_inner_def fold_note_open split: prod.splits)


section \<open>No exit is silent\<close>

abbreviation repeat_gap :: "position_manager \<Rightarrow> int" where
  "repeat_gap m \<equiv> max (pc_stop_suppression_repeat_sec (pm_config m)) 0 * 1000"

lemma note_keeps [simp]: "pm_config (note_suppressed_stop e m) = pm_config m"
  "set (pm_suppressed_stops m) \<subseteq> set (pm_suppressed_stops (note_suppressed_stop e m))"
  by (auto simp: note_suppressed_stop_def Let_def split: option.splits)

lemma fold_note_keeps: "set (pm_suppressed_stops m) \<subseteq> set (pm_suppressed_stops (fold note_suppressed_stop es m))"
  by (induction es arbitrary: m) (auto dest: subsetD[OF note_keeps(2)])

lemma note_records:
  "e \<in> set (pm_suppressed_stops (note_suppressed_stop e m)) \<or>
   (\<exists>t. map_of (pm_last_suppression_at m) (se_position_id e) = Some t \<and> se_now_ms e - t < repeat_gap m)"
  by (auto simp: note_suppressed_stop_def Let_def split: option.splits)

lemma note_other: "se_position_id e \<noteq> i \<Longrightarrow>
  map_of (pm_last_suppression_at (note_suppressed_stop e m)) i = map_of (pm_last_suppression_at m) i"
  by (auto simp: note_suppressed_stop_def Let_def split: option.splits)

lemma fold_note_reports:
  assumes "\<forall>e \<in> set es. se_now_ms e = now" "e \<in> set es"
  shows "(\<exists>e' \<in> set (pm_suppressed_stops (fold note_suppressed_stop es m)).
      se_position_id e' = se_position_id e \<and> se_now_ms e' = now) \<or>
    (\<exists>t. map_of (pm_last_suppression_at m) (se_position_id e) = Some t \<and> now - t < repeat_gap m)"
  using assms
proof (induction es arbitrary: m)
  case (Cons x es)
  let ?m = "note_suppressed_stop x m"
  show ?case
  proof (cases "se_position_id x = se_position_id e")
    case True
    thus ?thesis using note_records[of x m] Cons.prems(1) fold_note_keeps[of ?m es] by fastforce
  next
    case False
    hence "e \<in> set es" using Cons.prems(2) by auto
    thus ?thesis using Cons.IH[of ?m] Cons.prems(1) note_other[OF False, of m] by simp
  qed
qed simp

lemma sweep_row_now:
  "sweep_row D fees books now iv tick p m = (m', p', out, w) \<Longrightarrow> e \<in> set w \<Longrightarrow> se_now_ms e = now"
  by (auto simp: sweep_row_def Let_def wick_event_def held_exit_def split: prod.splits option.splits if_splits)

lemma sweep_rows_now:
  "sweep_rows D fees books now iv tick ps m = (m', ps', out, w) \<Longrightarrow> \<forall>e \<in> set w. se_now_ms e = now"
  by (induction ps arbitrary: m m' ps' out w) (auto split: prod.splits dest: sweep_row_now)

text \<open>What the every-tick sweep decides for a row: it depends on the book, the row and the policy
  alone, not on the rows swept before.\<close>

definition tick_verdict ::
  "dec_ops \<Rightarrow> fee_schedule option \<Rightarrow> (string \<Rightarrow> book_view option) \<Rightarrow> int \<Rightarrow> position_manager \<Rightarrow> open_position \<Rightarrow> exit_verdict" where
  "tick_verdict D fees books now m p = decide_exit_verdict D fees
     (row_tick (row_config m p) (books (p_token_id p)) now
       (valuate_one D (books (p_token_id p)) now (row_config m p) p))"

lemma tick_verdict_policy: "same_policy m n \<Longrightarrow> tick_verdict D fees books now n p = tick_verdict D fees books now m p"
  by (simp add: tick_verdict_def row_config_policy)

definition answered :: "(string \<Rightarrow> book_view option) \<Rightarrow> int \<Rightarrow> position_manager \<Rightarrow> open_position \<Rightarrow> exit_decision
    \<Rightarrow> exit_request list \<Rightarrow> suppressed_stop_event list \<Rightarrow> bool" where
  "answered books now m p d out w \<longleftrightarrow> (\<exists>r \<in> set out. xr_position_id r = p_id p) \<or>
     (\<exists>e \<in> set w. se_position_id e = p_id p \<and> se_reason e = Some (xd_reason d)) \<or>
     (pc_exit_ladder (pm_config m) \<noteq> [] \<and> row_priceable (books (p_token_id p)) now (pc_exit (pm_config m)) \<and> tp_or_sl d)"

lemma ladder_branch_answers:
  assumes "\<not> tp_or_sl d"
  shows "\<exists>r \<in> set (snd (ladder_branch D cfg p w x (Some d) m)). xr_position_id r = p_id p"
  using assms ladder_step_request[of D p "pc_exit_ladder (pm_config m)"]
  by (auto simp: ladder_branch_def Let_def plain_request_def split: prod.splits option.splits)

lemma sweep_row_answers:
  assumes "sweep_row D fees books now False tick p m = (m', p', out, w)"
    and "ev_decision (tick_verdict D fees books now m p) = Some d"
  shows "answered books now m p d out w"
proof -
  let ?p = "valuate_one D (books (p_token_id p)) now (row_config m p) p"
  have u: "sweep_update D books now False tick p m = (m, ?p)" by (simp add: sweep_update_def Let_def)
  have h: "p_id ?p = p_id p" by (rule valuate_one_fields)
  have d: "ev_decision (decide_exit_verdict D fees (row_tick (row_config m p) (books (p_token_id p)) now ?p)) = Some d"
    using assms(2) by (simp add: tick_verdict_def)
  consider (target) t where "target_hit (pc_exit (pm_config m)) (books (p_token_id p)) now ?p = Some t"
    | (lad) "target_hit (pc_exit (pm_config m)) (books (p_token_id p)) now ?p = None"
        "pc_exit_ladder (pm_config m) \<noteq> []" "row_priceable (books (p_token_id p)) now (pc_exit (pm_config m))"
    | (plain) "target_hit (pc_exit (pm_config m)) (books (p_token_id p)) now ?p = None"
        "pc_exit_ladder (pm_config m) = [] \<or> \<not> row_priceable (books (p_token_id p)) now (pc_exit (pm_config m))"
    by (meson not_None_eq)
  thus ?thesis
  proof cases
    case target
    thus ?thesis using sweep_row_target[OF u target, of fees] assms(1) h by (auto simp: answered_def)
  next
    case lad
    show ?thesis
    proof (cases "tp_or_sl d")
      case True thus ?thesis using lad by (simp add: answered_def)
    next
      case False
      thus ?thesis using sweep_row_ladder[OF u lad, of fees] assms(1) h d ladder_branch_answers[OF False]
        by (auto simp: answered_def Let_def) metis
    qed
  next
    case plain
    thus ?thesis using sweep_row_plain[OF u plain refl, of fees] assms(1) h d
      by (cases "row_priceable (books (p_token_id p)) now (pc_exit (pm_config m))")
        (auto simp: answered_def plain_request_def)
  qed
qed

lemma sweep_rows_answers:
  assumes "sweep_rows D fees books now False tick ps m = (m', ps', out, w)" "p \<in> set ps"
    and "ev_decision (tick_verdict D fees books now m p) = Some d"
  shows "answered books now m p d out w"
  using assms
proof (induction ps arbitrary: m m' ps' out w)
  case (Cons q ps)
  obtain m1 p1 o1 w1 where r: "sweep_row D fees books now False tick q m = (m1, p1, o1, w1)"
    by (cases "sweep_row D fees books now False tick q m")
  obtain m2 p2 o2 w2 where rs: "sweep_rows D fees books now False tick ps m1 = (m2, p2, o2, w2)"
    by (cases "sweep_rows D fees books now False tick ps m1")
  have pol: "same_policy m m1" by (rule sweep_row_facts(1)[OF r])
  have ow: "out = o1 @ o2" "w = w1 @ w2" using Cons.prems(1) by (simp_all add: r rs)
  show ?case
  proof (cases "p \<in> set ps")
    case True
    thus ?thesis using Cons.IH[OF rs True] Cons.prems(3) tick_verdict_policy[OF pol] pol
      by (auto simp: answered_def ow same_policy_def)
  next
    case False
    hence "p = q" using Cons.prems(2) by simp
    thus ?thesis using sweep_row_answers r Cons.prems(3) by (fastforce simp: answered_def ow)
  qed
qed simp

text \<open>C26. No exit dies in silence. When a row's verdict says to exit, the sweep asks for an exit of that
  position, or a report about it is waiting for the panel (at this instant, or an earlier one within the
  repeat gap throttles it), or the operator's ladder, which was able to price the row and owns its
  take-profits and stop-losses, judged it.\<close>

theorem no_exit_is_silent:
  assumes "check_exits D fees books now m = (m', out)" "p \<in> set (pm_open m)"
    and "ev_decision (tick_verdict D fees books now m p) = Some d"
  shows "(\<exists>r \<in> set out. xr_position_id r = p_id p) \<or>
    (\<exists>e \<in> set (pm_suppressed_stops m'). se_position_id e = p_id p \<and> se_now_ms e = now) \<or>
    (\<exists>t. map_of (pm_last_suppression_at m) (p_id p) = Some t \<and> now - t < repeat_gap m) \<or>
    (pc_exit_ladder (pm_config m) \<noteq> [] \<and> row_priceable (books (p_token_id p)) now (pc_exit (pm_config m)) \<and> tp_or_sl d)"
proof -
  obtain m1 rows o1 w where s: "sweep_rows D fees books now False 0 (pm_open m) m = (m1, rows, o1, w)"
    by (cases "sweep_rows D fees books now False 0 (pm_open m) m")
  have m': "m' = fold note_suppressed_stop w (m1\<lparr>pm_open := rows\<rparr>)" "out = o1"
    using assms(1) by (simp_all add: check_exits_def check_exits_inner_def s)
  have pol: "pm_config m1 = pm_config m" "pm_last_suppression_at m1 = pm_last_suppression_at m"
    using sweep_rows_facts(1)[OF s] by (simp_all add: same_policy_def)
  have "answered books now m p d o1 w" by (rule sweep_rows_answers[OF s assms(2,3)])
  thus ?thesis using fold_note_reports[OF sweep_rows_now[OF s], of _ "m1\<lparr>pm_open := rows\<rparr>"] m' pol
    by (fastforce simp: answered_def)
qed


section \<open>The ladder against the wick guard\<close>

lemma ladder_branch_stop:
  assumes "pnl_pct D x (p_entry_price p) \<le> - w"
  shows "\<lparr>xr_position_id = p_id p, xr_reason = StopLoss, xr_exit_price = x, xr_use_maker = False,
    xr_close_shares = None\<rparr> \<in> set (snd (ladder_branch D cfg p w x d m))"
  using assms by (auto simp: ladder_branch_def apply_exit_ladder_step_def Let_def split: prod.splits)

lemma stop_suppressedD:
  assumes "stop_verdict D e w (stop_reference D book fb s now cfg) = StopSuppressed x"
  shows "executable_bid book = ss_bid x \<and> 0 < ss_bid x \<and> pnl_pct D (ss_bid x) e \<le> - w"
  using assms by (auto simp: stop_verdict_def stop_reference_def last_known_reference_def executable_bid_def Let_def
    split: option.splits if_splits)

text \<open>A report of the simple ladder is about the stop of that width on the live bid.\<close>

lemma decide_suppressedD:
  assumes "xc_simple_exit_enabled (xi_cfg i)" "ev_suppressed_stop (decide_exit_verdict D fees i) = Some x"
  shows "executable_bid (xi_book i) = ss_bid x \<and> 0 < ss_bid x \<and>
    pnl_pct D (ss_bid x) (xi_entry_price i) \<le>
      - effective_stop_pct D (xc_stop_loss_pct (xi_cfg i)) (xi_time_left_sec i) (xi_cfg i)"
proof -
  obtain r j where "decide_exit_verdict D fees i = simple_verdict D i r j"
    and r: "r = stop_reference D (xi_book i) (xi_fallback_price i) (xi_state i) (xi_now_ms i) (xi_cfg i)"
    using assms by (auto simp: decide_exit_verdict_def Let_def split: if_splits)
  hence sup: "ev_suppressed_stop (simple_verdict D i r j) = Some x" using assms(2) by simp
  let ?v = "stop_verdict D (xi_entry_price i)
    (effective_stop_pct D (xc_stop_loss_pct (xi_cfg i)) (xi_time_left_sec i) (xi_cfg i)) r"
  have "?v = StopSuppressed x" using sup unfolding simple_verdict_def Let_def
    by (auto simp: rule_exit_def stop_rule_def stop_withheld_def split: stop_verdict_t.splits if_splits)
  thus ?thesis unfolding r by (rule stop_suppressedD)
qed

lemma sweep_rows_mem:
  assumes "sweep_rows D fees books now False tick ps m = (m', ps', out, w)" "p \<in> set ps"
  shows "\<exists>n q o1 w1 k. same_policy m n \<and> sweep_row D fees books now False tick p n = (k, q, o1, w1) \<and>
    set o1 \<subseteq> set out \<and> set w1 \<subseteq> set w"
  using assms
proof (induction ps arbitrary: m m' ps' out w)
  case (Cons q ps)
  obtain m1 p1 o1 w1 where r: "sweep_row D fees books now False tick q m = (m1, p1, o1, w1)"
    by (cases "sweep_row D fees books now False tick q m")
  obtain m2 p2 o2 w2 where rs: "sweep_rows D fees books now False tick ps m1 = (m2, p2, o2, w2)"
    by (cases "sweep_rows D fees books now False tick ps m1")
  have pol: "same_policy m m1" by (rule sweep_row_facts(1)[OF r])
  have ow: "out = o1 @ o2" "w = w1 @ w2" using Cons.prems(1) by (simp_all add: r rs)
  show ?case
  proof (cases "p = q")
    case True thus ?thesis using r ow same_policy_refl by (metis set_append sup_ge1)
  next
    case False
    hence "p \<in> set ps" using Cons.prems(2) by simp
    thus ?thesis using Cons.IH[OF rs] same_policy_trans[OF pol] ow by (metis set_append sup.coboundedI2)
  qed
qed simp

text \<open>. With an exit ladder configured the wick guard guards nothing. When the policy withholds a
  protective stop because the mid does not confirm the bid, the same sweep sells the whole position as
  a stop-loss at exactly that withheld bid, while it also files the report that the stop was
  suppressed: the overlay compares the raw bid with the stop and never looks at the verdict.\<close>

theorem exit_ladder_defeats_the_wick_guard:
  assumes "check_exits D fees books now m = (m', out)" "p \<in> set (pm_open m)" "p_target_exit_price p = None"
    and "pc_exit_ladder (pm_config m) \<noteq> []" "row_priceable (books (p_token_id p)) now (pc_exit (pm_config m))"
    and "xc_simple_exit_enabled (row_config m p)"
    and sup: "ev_suppressed_stop (tick_verdict D fees books now m p) = Some x"
  shows "\<lparr>xr_position_id = p_id p, xr_reason = StopLoss, xr_exit_price = ss_bid x, xr_use_maker = False,
    xr_close_shares = None\<rparr> \<in> set out"
proof -
  let ?p = "valuate_one D (books (p_token_id p)) now (row_config m p) p"
  obtain m1 rows w where s: "sweep_rows D fees books now False 0 (pm_open m) m = (m1, rows, out, w)"
    using assms(1) by (auto simp: check_exits_def check_exits_inner_def split: prod.splits)
  obtain n q o1 w1 k where r: "same_policy m n" "sweep_row D fees books now False 0 p n = (k, q, o1, w1)" "set o1 \<subseteq> set out"
    using sweep_rows_mem[OF s assms(2)] by blast
  have cfg: "pm_config n = pm_config m" "row_config n p = row_config m p"
    using r(1) row_config_policy[OF r(1)] by (simp_all add: same_policy_def)
  have u: "sweep_update D books now False 0 p n = (n, ?p)" by (simp add: sweep_update_def Let_def cfg)
  have h: "p_id ?p = p_id p" "p_entry_price ?p = p_entry_price p" "p_target_exit_price ?p = None"
    using assms(3) by (simp_all add: valuate_one_fields)
  have t: "target_hit (pc_exit (pm_config n)) (books (p_token_id p)) now ?p = None"
    by (simp add: target_hit_def h(3))
  have x: "executable_bid (books (p_token_id p)) = ss_bid x"
    "pnl_pct D (ss_bid x) (p_entry_price ?p) \<le> - effective_stop_pct D (xc_stop_loss_pct (row_config m p))
       (tdiv (p_expires_at_ms ?p - now) 1000) (row_config m p)"
    using decide_suppressedD[of "row_tick (row_config m p) (books (p_token_id p)) now ?p" D fees x] sup assms(6)
    by (simp_all add: tick_verdict_def row_tick_def)
  note lb = ladder_branch_stop[OF x(2), of "pc_exit (pm_config n)"]
  have "\<lparr>xr_position_id = p_id ?p, xr_reason = StopLoss, xr_exit_price = ss_bid x, xr_use_maker = False,
    xr_close_shares = None\<rparr> \<in> set o1"
    using sweep_row_ladder[OF u t, of fees] r(2) lb assms(4,5) unfolding cfg x(1) Let_def by auto
  thus ?thesis using r(3) h(1) by auto
qed


section \<open>The ladder's steps\<close>

definition steps_done :: "position_manager \<Rightarrow> string \<Rightarrow> nat" where
  "steps_done m i = (case map_of (pm_ladder_steps_done m) i of Some n \<Rightarrow> n | None \<Rightarrow> 0)"

definition stop_floor :: "position_manager \<Rightarrow> string \<Rightarrow> decimal" where
  "stop_floor m i = (case map_of (pm_ladder_stop_floor m) i of Some f \<Rightarrow> f | None \<Rightarrow> 0)"

definition tranches :: "string \<Rightarrow> exit_request list \<Rightarrow> nat" where
  "tranches i out = length (filter (\<lambda>r. xr_position_id r = i \<and> xr_close_shares r \<noteq> None) out)"

lemma tranches_append [simp]: "tranches i (a @ b) = tranches i a + tranches i b"
  by (simp add: tranches_def)

text \<open>One manager's ladder ledgers against another's, over the requests made in between.\<close>

definition ladder_advance :: "position_manager \<Rightarrow> position_manager \<Rightarrow> exit_request list \<Rightarrow> bool" where
  "ladder_advance m n out \<longleftrightarrow> (\<forall>i. steps_done n i = steps_done m i + tranches i out \<and>
     steps_done n i \<le> max (steps_done m i) (length (pc_exit_ladder (pm_config m))) \<and>
     stop_floor m i \<le> stop_floor n i)"

lemma ladder_advanceD:
  assumes "ladder_advance m n out"
  shows "steps_done n i = steps_done m i + tranches i out"
    "steps_done n i \<le> max (steps_done m i) (length (pc_exit_ladder (pm_config m)))" "stop_floor m i \<le> stop_floor n i"
  using assms unfolding ladder_advance_def by (blast, blast, blast)

lemma ladder_advance_trans:
  assumes "ladder_advance m n a" "ladder_advance n k b" "pm_config n = pm_config m"
  shows "ladder_advance m k (a @ b)"
  unfolding ladder_advance_def
proof (intro allI)
  fix i
  show "steps_done k i = steps_done m i + tranches i (a @ b) \<and>
     steps_done k i \<le> max (steps_done m i) (length (pc_exit_ladder (pm_config m))) \<and> stop_floor m i \<le> stop_floor k i"
    using ladder_advanceD[OF assms(1), of i] ladder_advanceD[OF assms(2), of i] assms(3) by simp
qed

lemma ladder_advance_same:
  assumes "pm_ladder_steps_done n = pm_ladder_steps_done m" "pm_ladder_stop_floor n = pm_ladder_stop_floor m"
    and "\<forall>r \<in> set out. xr_close_shares r = None"
  shows "ladder_advance m n out"
  using assms by (auto simp: ladder_advance_def steps_done_def stop_floor_def tranches_def filter_empty_conv)

lemma ladder_step_cases:
  assumes "apply_exit_ladder_step D p ladder st fl w x v mf = (st', fl', req)"
  shows "(st' = st \<and> fl' = fl \<and> (case req of None \<Rightarrow> True | Some r \<Rightarrow> xr_close_shares r = None)) \<or>
    (st' = Suc st \<and> st < length ladder \<and> fl \<le> fl' \<and> (\<exists>r. req = Some r \<and> xr_position_id r = p_id p \<and>
       xr_close_shares r = Some (floor_to_grid D (p_shares p * ls_close_ratio (ladder ! st))) \<and>
       0 < floor_to_grid D (p_shares p * ls_close_ratio (ladder ! st))))"
  using assms by (auto simp: apply_exit_ladder_step_def Let_def split: if_splits prod.splits option.splits)

lemma ladder_branch_advance:
  "ladder_advance m (fst (ladder_branch D cfg p w x d m)) (snd (ladder_branch D cfg p w x d m))"
proof -
  define v where "v = (case d of Some d \<Rightarrow> if tp_or_sl d then Some (xd_reason d, xd_use_maker d) else None | None \<Rightarrow> None)"
  define T where "T = apply_exit_ladder_step D p (pc_exit_ladder (pm_config m))
      (steps_done m (p_id p)) (stop_floor m (p_id p)) w x v (xc_maker_first_exit_enabled cfg)"
  obtain st' fl' req where T: "T = (st', fl', req)" by (cases T)
  note a = T[unfolded T_def]
  have e: "ladder_branch D cfg p w x d m =
    (m\<lparr>pm_ladder_steps_done := AList.update (p_id p) st' (pm_ladder_steps_done m),
       pm_ladder_stop_floor := AList.update (p_id p) fl' (pm_ladder_stop_floor m)\<rparr>,
     case req of Some r \<Rightarrow> [r] | None \<Rightarrow>
       (case d of Some d \<Rightarrow> if tp_or_sl d then [] else [plain_request p x d] | None \<Rightarrow> []))"
    using a unfolding ladder_branch_def v_def[symmetric] steps_done_def[symmetric] stop_floor_def[symmetric] Let_def by simp
  have new: "steps_done (fst (ladder_branch D cfg p w x d m)) i = (if i = p_id p then st' else steps_done m i)"
    "stop_floor (fst (ladder_branch D cfg p w x d m)) i = (if i = p_id p then fl' else stop_floor m i)" for i
    by (simp_all add: e steps_done_def stop_floor_def)
  have quiet: "tranches i (snd (ladder_branch D cfg p w x d m)) = 0"
    if "case req of None \<Rightarrow> True | Some r \<Rightarrow> xr_close_shares r = None" for i
    using that by (auto simp: e tranches_def plain_request_def split: option.splits)
  have fired: "tranches i (snd (ladder_branch D cfg p w x d m)) = (if i = p_id p then 1 else 0)"
    if "req = Some r" "xr_position_id r = p_id p" "xr_close_shares r = Some q" for i r q
    using that by (simp add: e tranches_def)
  show ?thesis using ladder_step_cases[OF a] unfolding ladder_advance_def new
    by (auto simp: quiet fired)
qed

lemma sweep_update_ladders:
  "pm_ladder_steps_done (fst (sweep_update D books now iv tick p m)) = pm_ladder_steps_done m"
  "pm_ladder_stop_floor (fst (sweep_update D books now iv tick p m)) = pm_ladder_stop_floor m"
  "pm_config (fst (sweep_update D books now iv tick p m)) = pm_config m"
  by (simp_all add: sweep_update_def Let_def)

lemma outage_ladders:
  "pm_ladder_steps_done (fst (outage pr i now m)) = pm_ladder_steps_done m"
  "pm_ladder_stop_floor (fst (outage pr i now m)) = pm_ladder_stop_floor m"
  "pm_config (fst (outage pr i now m)) = pm_config m"
  by (auto simp: outage_def split: option.splits)


lemma sweep_row_advance:
  assumes "sweep_row D fees books now iv tick p m = (m', p', out, w)"
  shows "ladder_advance m m' out"
proof -
  obtain m1 p1 where u: "sweep_update D books now iv tick p m = (m1, p1)" by (cases "sweep_update D books now iv tick p m")
  have m1: "pm_ladder_steps_done m1 = pm_ladder_steps_done m" "pm_ladder_stop_floor m1 = pm_ladder_stop_floor m"
    "pm_config m1 = pm_config m"
    using sweep_update_ladders[of D books now iv tick p m] by (simp_all add: u)
  have quiet: "ladder_advance m m' out"
    if "fst (outage pr (p_id p1) now m1) = m'" "\<forall>r \<in> set out. xr_close_shares r = None" for pr
    using ladder_advance_same[of m' m out] that outage_ladders[of pr "p_id p1" now m1] m1 by simp
  consider (target) t where "target_hit (pc_exit (pm_config m)) (books (p_token_id p)) now p1 = Some t"
    | (lad) "target_hit (pc_exit (pm_config m)) (books (p_token_id p)) now p1 = None"
        "pc_exit_ladder (pm_config m) \<noteq> []" "row_priceable (books (p_token_id p)) now (pc_exit (pm_config m))"
    | (plain) "target_hit (pc_exit (pm_config m)) (books (p_token_id p)) now p1 = None"
        "pc_exit_ladder (pm_config m) = [] \<or> \<not> row_priceable (books (p_token_id p)) now (pc_exit (pm_config m))"
    by (meson not_None_eq)
  thus ?thesis
  proof cases
    case target
    thus ?thesis using sweep_row_target[OF u target, of fees] assms by (intro quiet) auto
  next
    case lad
    have o: "ladder_advance m (fst (outage True (p_id p1) now m1)) []"
      using outage_ladders[of True "p_id p1" now m1] m1 by (intro ladder_advance_same) simp_all
    have c: "pm_config (fst (outage True (p_id p1) now m1)) = pm_config m" using outage_ladders(3) m1(3) by simp
    obtain c1 w1 x1 d1 where "m' = fst (ladder_branch D c1 p1 w1 x1 d1 (fst (outage True (p_id p1) now m1)))"
      "out = snd (ladder_branch D c1 p1 w1 x1 d1 (fst (outage True (p_id p1) now m1)))"
      using sweep_row_ladder[OF u lad, of fees] assms unfolding Let_def by (metis Pair_inject)
    thus ?thesis using ladder_advance_trans[OF o ladder_branch_advance c] by simp
  next
    case plain
    show ?thesis
    proof (rule quiet)
      show "fst (outage (row_priceable (books (p_token_id p)) now (pc_exit (pm_config m))) (p_id p1) now m1) = m'"
        using assms plain by (auto simp: sweep_row_def Let_def u split: prod.splits option.splits if_splits)
      show "\<forall>r \<in> set out. xr_close_shares r = None"
        using sweep_row_plain[OF u plain refl, of fees] assms
        by (auto simp: plain_request_def split: option.splits if_splits)
    qed
  qed
qed

lemma sweep_rows_advance:
  "sweep_rows D fees books now iv tick ps m = (m', ps', out, w) \<Longrightarrow> ladder_advance m m' out"
proof (induction ps arbitrary: m m' ps' out w)
  case Nil thus ?case by (auto intro: ladder_advance_same)
next
  case (Cons p ps)
  obtain m1 p1 o1 w1 where r: "sweep_row D fees books now iv tick p m = (m1, p1, o1, w1)"
    by (cases "sweep_row D fees books now iv tick p m")
  obtain m2 p2 o2 w2 where rs: "sweep_rows D fees books now iv tick ps m1 = (m2, p2, o2, w2)"
    by (cases "sweep_rows D fees books now iv tick ps m1")
  have "pm_config m1 = pm_config m" using sweep_row_facts(1)[OF r] by (simp add: same_policy_def)
  thus ?case using ladder_advance_trans[OF sweep_row_advance[OF r] Cons.IH[OF rs]] Cons.prems
    by (simp add: r rs)
qed

lemma fold_note_ladders:
  "pm_ladder_steps_done (fold note_suppressed_stop es m) = pm_ladder_steps_done m"
  "pm_ladder_stop_floor (fold note_suppressed_stop es m) = pm_ladder_stop_floor m"
  "pm_config (fold note_suppressed_stop es m) = pm_config m"
  by (induction es arbitrary: m) (auto simp: note_suppressed_stop_def Let_def split: option.splits)

lemma check_exits_advance:
  assumes "check_exits D fees books now m = (m', out)"
  shows "ladder_advance m m' out \<and> pm_config m' = pm_config m"
proof -
  obtain m1 rows w where s: "sweep_rows D fees books now False 0 (pm_open m) m = (m1, rows, out, w)"
    "m' = fold note_suppressed_stop w (m1\<lparr>pm_open := rows\<rparr>)"
    using assms by (auto simp: check_exits_def check_exits_inner_def split: prod.splits)
  have "pm_config m1 = pm_config m" using sweep_rows_facts(1)[OF s(1)] by (simp add: same_policy_def)
  moreover have eq: "steps_done m' i = steps_done m1 i" "stop_floor m' i = stop_floor m1 i" for i
    by (simp_all add: s(2) fold_note_ladders steps_done_def stop_floor_def)
  moreover have "ladder_advance m m' out"
    using sweep_rows_advance[OF s(1)] unfolding ladder_advance_def eq .
  ultimately show ?thesis by (simp add: s(2) fold_note_ladders)
qed

text \<open>A run of sweeps, each with the books and the clock it sees.\<close>

fun sweeps ::
  "dec_ops \<Rightarrow> fee_schedule option \<Rightarrow> ((string \<Rightarrow> book_view option) \<times> int) list \<Rightarrow> position_manager
     \<Rightarrow> position_manager \<times> exit_request list" where
  "sweeps D fees [] m = (m, [])"
| "sweeps D fees ((books, now) # xs) m =
    (let (m1, o1) = check_exits D fees books now m; (m2, o2) = sweeps D fees xs m1 in (m2, o1 @ o2))"

lemma sweeps_advance: "sweeps D fees xs m = (m', out) \<Longrightarrow> ladder_advance m m' out \<and> pm_config m' = pm_config m"
proof (induction xs arbitrary: m m' out)
  case Nil thus ?case by (auto intro: ladder_advance_same)
next
  case (Cons x xs)
  obtain books now where x: "x = (books, now)" by (cases x)
  obtain m1 o1 where a: "check_exits D fees books now m = (m1, o1)" by (cases "check_exits D fees books now m")
  obtain m2 o2 where b: "sweeps D fees xs m1 = (m2, o2)" by (cases "sweeps D fees xs m1")
  show ?case using check_exits_advance[OF a] Cons.IH[OF b] Cons.prems ladder_advance_trans
    by (fastforce simp: x a b)
qed

text \<open>C27. The ladder's steps fire once, and its stop only rises. Over any run of sweeps, whatever the
  books show, the step counter of a position grows by exactly the number of tranches asked for, so a
  position that starts without a step behind it is never asked for more tranches than the ladder has
  steps; and its stop floor never falls.\<close>

theorem ladder_steps_fire_once:
  assumes "sweeps D fees xs m = (m', out)"
  shows "steps_done m' i = steps_done m i + tranches i out \<and>
    (steps_done m i = 0 \<longrightarrow> tranches i out \<le> length (pc_exit_ladder (pm_config m))) \<and>
    stop_floor m i \<le> stop_floor m' i"
  using sweeps_advance[OF assms] ladder_advanceD[of m m' out i] by auto

section \<open>Witnesses\<close>

definition exit_row :: open_position where
  "exit_row = \<lparr>p_id = ''hft-1'', p_strategy = ''s'', p_asset = ''BTC'', p_direction = Up, p_token_id = ''t'',
     p_condition_id = ''c'', p_entry_price = 1/2, p_current_price = 1/2, p_prev_price = 1/2, p_shares = 10,
     p_cost_usd = 5, p_was_maker_entry = False, p_entry_fee_pct = 0, p_entry_role = RoleTaker,
     p_exit_role = RoleTaker, p_target_exit_price = None, p_entered_at_ms = 0, p_expires_at_ms = 300000,
     p_account_id = default_account_id, p_venue = ''v'', p_partner_token_id = ''u'', p_last_book_ts = 0,
     p_round_duration_sec = 300, p_round_slot = 0, p_state = exit_state_new (1/2) 0, p_flows = no_flows\<rparr>"

definition sample_manager :: "ladder_step list \<Rightarrow> position_manager" where
  "sample_manager l = (manager_new (\<lambda>_. DfMissing) (position_config_default\<lparr>pc_exit_ladder := l\<rparr>))\<lparr>pm_open := [exit_row]\<rparr>"

definition sample_books :: "decimal \<Rightarrow> decimal \<Rightarrow> string \<Rightarrow> book_view option" where
  "sample_books bid ask = (\<lambda>_. Some (sample_book bid ask))"


definition sample_ladder :: "ladder_step list" where
  "sample_ladder = [\<lparr>ls_at_pct = 20, ls_close_ratio = 1/2, ls_move_stop_to = Some (1/2)\<rparr>]"

definition wick_request :: exit_request where
  "wick_request = \<lparr>xr_position_id = ''hft-1'', xr_reason = StopLoss, xr_exit_price = 3/10, xr_use_maker = False,
     xr_close_shares = None\<rparr>"

lemma sample_wick_out:
  "snd (check_exits exact_dec None (sample_books (3/10) (66/100)) 1000 (sample_manager sample_ladder)) = [wick_request]"
  by code_simp


lemma exit_row_open: "exit_row \<in> set (pm_open (sample_manager l))"
  by (simp add: sample_manager_def)

theorem exits_priced_at_a_live_bid_witness:
  "\<exists>p \<in> set (pm_open (sample_manager sample_ladder)). xr_position_id wick_request = p_id p \<and>
     (\<exists>b. sample_books (3/10) (66/100) (p_token_id p) = Some b \<and> 0 < bv_best_bid b \<and>
       book_is_fresh b 1000 (pc_exit (pm_config (sample_manager sample_ladder))) \<and>
       xr_exit_price wick_request \<le> bv_best_bid b \<and>
       (xr_exit_price wick_request = bv_best_bid b \<or> p_target_exit_price p = Some (xr_exit_price wick_request) \<and>
         xr_reason wick_request = TakeProfit \<and> xr_use_maker wick_request))"
proof (rule exits_priced_at_a_live_bid)
  show "check_exits_inner exact_dec None (sample_books (3/10) (66/100)) 1000 False 0 (sample_manager sample_ladder) =
    (fst (check_exits exact_dec None (sample_books (3/10) (66/100)) 1000 (sample_manager sample_ladder)), [wick_request])"
    using sample_wick_out by (simp add: check_exits_def prod_eq_iff)
qed simp

lemma sample_stop_verdict:
  "ev_decision (tick_verdict exact_dec None (sample_books (4/10) (42/100)) 1000 (sample_manager []) exit_row) =
     Some \<lparr>xd_reason = StopLoss, xd_use_maker = False\<rparr>"
  by code_simp

lemma sample_no_report:
  "pm_suppressed_stops (fst (check_exits exact_dec None (sample_books (4/10) (42/100)) 1000 (sample_manager []))) = []"
  "pm_last_suppression_at (sample_manager []) = []" "pc_exit_ladder (pm_config (sample_manager [])) = []"
  by code_simp+

theorem no_exit_is_silent_witness:
  "\<exists>r \<in> set (snd (check_exits exact_dec None (sample_books (4/10) (42/100)) 1000 (sample_manager []))).
     xr_position_id r = ''hft-1''"
  using no_exit_is_silent[OF prod.collapse[symmetric] exit_row_open sample_stop_verdict] sample_no_report
  by (simp add: exit_row_def)

lemma sample_wick_report:
  "ev_suppressed_stop (tick_verdict exact_dec None (sample_books (3/10) (66/100)) 1000 (sample_manager sample_ladder) exit_row) =
     Some \<lparr>ss_bid = 3/10, ss_mid = 48/100, ss_pnl_pct_at_bid = -40, ss_pnl_pct_at_mid = -4, ss_stop_pct = 1799/150\<rparr>"
  by code_simp

lemma sample_wick_rest:
  "p_target_exit_price exit_row = None" "pc_exit_ladder (pm_config (sample_manager sample_ladder)) \<noteq> []"
  "row_priceable (sample_books (3/10) (66/100) (p_token_id exit_row)) 1000 (pc_exit (pm_config (sample_manager sample_ladder)))"
  "xc_simple_exit_enabled (row_config (sample_manager sample_ladder) exit_row)"
  by code_simp+

theorem exit_ladder_defeats_the_wick_guard_witness:
  "\<lparr>xr_position_id = ''hft-1'', xr_reason = StopLoss, xr_exit_price = 3/10, xr_use_maker = False, xr_close_shares = None\<rparr>
     \<in> set (snd (check_exits exact_dec None (sample_books (3/10) (66/100)) 1000 (sample_manager sample_ladder)))"
  using exit_ladder_defeats_the_wick_guard[OF prod.collapse[symmetric] exit_row_open sample_wick_rest sample_wick_report]
  by (simp add: exit_row_def)

text \<open>Two sweeps at a profit of thirty per cent ask for at most the one tranche of the ladder.\<close>

theorem ladder_steps_fire_once_witness:
  "tranches ''hft-1'' (snd (sweeps exact_dec None
     [(sample_books (65/100) (66/100), 1000), (sample_books (65/100) (66/100), 2000)] (sample_manager sample_ladder))) \<le> 1"
proof -
  have "steps_done (sample_manager sample_ladder) ''hft-1'' = 0"
    "length (pc_exit_ladder (pm_config (sample_manager sample_ladder))) = 1" by code_simp+
  thus ?thesis using ladder_steps_fire_once[OF prod.collapse[symmetric], of exact_dec None
    "[(sample_books (65/100) (66/100), 1000), (sample_books (65/100) (66/100), 2000)]" "sample_manager sample_ladder" "''hft-1''"]
    by simp
qed

end
