(* ===== verification/Risk.thy ===== *)
theory Risk
  imports Position
begin

text \<open>
  The risk gate, \<open>core/blitzkrieg_core/src/risk.rs\<close>: what counts as a close, the kill switch and the
  per-order caps, the consecutive-loss breakers, the hot-reload boundary; the per-account limits,
  \<open>risk/limits.rs\<close>; and the survival binding, \<open>risk/physics.rs\<close>. Parsing a decimal is the parameter
  \<open>parse\<close> of \<open>limits_from_lookup\<close>. The breakers' map is an association list.
\<close>

section \<open>Closing intents\<close>

definition starts_with :: "string \<Rightarrow> string \<Rightarrow> bool" where
  "starts_with s pre \<longleftrightarrow> take (length pre) s = pre"

definition is_close_intent :: "string \<Rightarrow> bool" where
  "is_close_intent key \<longleftrightarrow> starts_with key ''exit:'' \<or> starts_with key ''exit-strategy:'' \<or>
     starts_with key ''flatten:'' \<or> starts_with key ''exit-residual:'' \<or> starts_with key ''exit-escalated:''"

definition closes_exposure :: "order_request \<Rightarrow> bool" where
  "closes_exposure req \<longleftrightarrow> rq_side req = Sell \<and> is_close_intent (rq_internal_key req)"

section \<open>Limits\<close>

datatype limit_source = LsDefault | LsEnv | LsFlag

fun limit_source_as_str :: "limit_source \<Rightarrow> string" where
  "limit_source_as_str LsDefault = ''default''"
| "limit_source_as_str LsEnv = ''env''"
| "limit_source_as_str LsFlag = ''flag''"

record bound =
  bd_value :: decimal
  bd_source :: limit_source

definition bound_off :: bound where
  "bound_off = \<lparr>bd_value = 0, bd_source = LsDefault\<rparr>"

definition bound_new :: "decimal \<Rightarrow> limit_source \<Rightarrow> bound" where
  "bound_new v s = \<lparr>bd_value = v, bd_source = s\<rparr>"

definition is_enabled :: "bound \<Rightarrow> bool" where
  "is_enabled b \<longleftrightarrow> bd_value b > 0"

record account_risk_limits =
  al_max_single_loss_usd :: bound
  al_max_daily_drawdown_usd :: bound
  al_max_position_size :: bound
  al_max_consecutive_losses :: bound
  al_cooldown_minutes :: bound

text \<open>\<open>SystemicRiskLimits\<close> wraps the account matrix in one field; the model is the matrix.\<close>

definition systemic_default :: account_risk_limits where
  "systemic_default = \<lparr>al_max_single_loss_usd = bound_off, al_max_daily_drawdown_usd = bound_off,
     al_max_position_size = bound_off, al_max_consecutive_losses = bound_off, al_cooldown_minutes = bound_off\<rparr>"

definition limit_from :: "(string \<Rightarrow> decimal option) \<Rightarrow> (string \<Rightarrow> string option) \<Rightarrow> string \<Rightarrow> bound" where
  "limit_from parse env key = (case env key of
     Some raw \<Rightarrow> (case parse raw of Some v \<Rightarrow> bound_new v LsEnv | None \<Rightarrow> bound_off)
   | None \<Rightarrow> bound_off)"

definition limits_from_lookup ::
  "(string \<Rightarrow> decimal option) \<Rightarrow> (string \<Rightarrow> string option) \<Rightarrow> account_risk_limits" where
  "limits_from_lookup parse env = \<lparr>al_max_single_loss_usd = limit_from parse env ''BK_RISK_MAX_SINGLE_LOSS_USD'',
     al_max_daily_drawdown_usd = limit_from parse env ''BK_RISK_MAX_DAILY_DRAWDOWN_USD'',
     al_max_position_size = limit_from parse env ''BK_RISK_MAX_POSITION_SIZE'',
     al_max_consecutive_losses = limit_from parse env ''BK_RISK_MAX_CONSECUTIVE_LOSSES'',
     al_cooldown_minutes = limit_from parse env ''BK_RISK_COOLDOWN_MINUTES''\<rparr>"

definition named_bounds :: "account_risk_limits \<Rightarrow> (string \<times> bound) list" where
  "named_bounds a = [(''max_single_loss_usd'', al_max_single_loss_usd a),
     (''max_daily_drawdown_usd'', al_max_daily_drawdown_usd a), (''max_position_size'', al_max_position_size a),
     (''max_consecutive_losses'', al_max_consecutive_losses a), (''cooldown_minutes'', al_cooldown_minutes a)]"

definition report_lines :: "account_risk_limits \<Rightarrow> message list" where
  "report_lines a =
    (let out = map (\<lambda>(n, b). [Txt ''risk.systemic: '', Txt n, Txt ''='', Dec (bd_value b), Txt '' ('',
           Txt (limit_source_as_str (bd_source b)), Txt '')'']) (filter (is_enabled \<circ> snd) (named_bounds a))
     in if out = [] then [[Txt ''risk.systemic: at factory (all five per-account limits off)'']] else out)"

definition any_armed :: "account_risk_limits \<Rightarrow> bool" where
  "any_armed a \<longleftrightarrow> is_enabled (al_max_single_loss_usd a) \<or> is_enabled (al_max_daily_drawdown_usd a) \<or>
     is_enabled (al_max_position_size a) \<or> is_enabled (al_max_consecutive_losses a) \<or>
     is_enabled (al_cooldown_minutes a)"

datatype single_loss_verdict_t = SlWithin | SlReduce decimal | SlRefuse

definition loss_per_share :: "dec_ops \<Rightarrow> decimal \<Rightarrow> decimal \<Rightarrow> decimal" where
  "loss_per_share D entry_price stop_pct =
    (let stop_price = entry_price * (1 - ddiv D stop_pct 100);
         fillable = ddiv D (of_int \<lfloor>stop_price * 100\<rfloor>) 100
     in entry_price - fillable)"

definition single_loss_verdict :: "dec_ops \<Rightarrow> decimal \<Rightarrow> decimal \<Rightarrow> decimal \<Rightarrow> decimal \<Rightarrow> single_loss_verdict_t" where
  "single_loss_verdict D max_single_loss entry_price stop_pct suggested =
    (let per_share = loss_per_share D entry_price stop_pct in
     if per_share \<le> 0 then SlWithin
     else let approved = of_int \<lfloor>ddiv D max_single_loss per_share\<rfloor> in
       if approved < 1 then SlRefuse
       else if approved \<ge> suggested then SlWithin
       else SlReduce approved)"

datatype entry_judgment = EjPass | EjReduce decimal string | EjReject message

definition judge_entry :: "dec_ops \<Rightarrow> account_risk_limits \<Rightarrow> decimal \<Rightarrow> decimal \<Rightarrow> decimal \<Rightarrow> entry_judgment" where
  "judge_entry D limits entry_price entry_size bound_stop_pct =
    (let size_cap = al_max_position_size limits; cap = of_int \<lfloor>bd_value size_cap\<rfloor>;
         loss_cap = al_max_single_loss_usd limits
     in if is_enabled size_cap \<and> cap < 1
        then EjReject [Txt ''max_position_size '', Dec (bd_value size_cap), Txt '': fewer than one whole share fits'']
        else
          let (approved, binding) = (if is_enabled size_cap \<and> entry_size > cap
                then (cap, Some ''max_position_size'') else (entry_size, None));
              verdict = (if is_enabled loss_cap
                then single_loss_verdict D (bd_value loss_cap) entry_price bound_stop_pct approved else SlWithin)
          in case verdict of
               SlRefuse \<Rightarrow> EjReject [Txt ''max_single_loss_usd '', Dec (bd_value loss_cap), Txt '': one share at stop '',
                 Dec bound_stop_pct, Txt ''% would lose '', Dec (loss_per_share D entry_price bound_stop_pct),
                 Txt '' - nothing fits'']
             | SlReduce shrunk \<Rightarrow> EjReduce shrunk ''max_single_loss_usd''
             | SlWithin \<Rightarrow> (case binding of Some l \<Rightarrow> EjReduce approved l | None \<Rightarrow> EjPass))"

definition ACCOUNT_BREAKER_KEY_PREFIX :: string where
  "ACCOUNT_BREAKER_KEY_PREFIX = ''__account__:''"

definition account_breaker_key :: "string \<Rightarrow> string" where
  "account_breaker_key account_id = ACCOUNT_BREAKER_KEY_PREFIX @ account_id"

section \<open>The survival binding\<close>

record physics_binding =
  pb_stop_price :: decimal
  pb_force_exit_sec :: int
  pb_ladder :: "ladder_step list"

fun validate_ladder_from :: "nat \<Rightarrow> decimal option \<Rightarrow> ladder_step list \<Rightarrow> message + unit" where
  "validate_ladder_from i prev [] = Inr ()"
| "validate_ladder_from i prev (s # ss) =
    (if ls_close_ratio s \<le> 0 \<or> ls_close_ratio s > 1
     then Inl [Txt ''risk.ladder['', Num (int i), Txt '']: close_ratio '', Dec (ls_close_ratio s), Txt '' outside (0, 1]'']
     else case prev of
       Some q \<Rightarrow> if ls_at_pct s < q
         then Inl [Txt ''risk.ladder['', Num (int i), Txt '']: at_pct '', Dec (ls_at_pct s),
                Txt '' goes backwards (previous '', Dec q, Txt '')'']
         else validate_ladder_from (i + 1) (Some (ls_at_pct s)) ss
     | None \<Rightarrow> validate_ladder_from (i + 1) (Some (ls_at_pct s)) ss)"

definition validate_ladder :: "ladder_step list \<Rightarrow> message + unit" where
  "validate_ladder steps = validate_ladder_from 0 None steps"

definition apply_physics :: "dec_ops \<Rightarrow> decimal \<Rightarrow> int \<Rightarrow> exit_config \<Rightarrow> ladder_step list \<Rightarrow> physics_binding" where
  "apply_physics D entry_price time_left exit_cfg explicit_ladder =
    (let stop_pct = effective_stop_pct D (xc_stop_loss_pct exit_cfg) time_left exit_cfg in
     \<lparr>pb_stop_price = entry_price * (1 - ddiv D stop_pct 100), pb_force_exit_sec = xc_force_exit_sec exit_cfg,
      pb_ladder = (if explicit_ladder = []
        then [\<lparr>ls_at_pct = xc_take_profit_pct exit_cfg, ls_close_ratio = 1, ls_move_stop_to = None\<rparr>]
        else explicit_ladder)\<rparr>)"

section \<open>The gate\<close>

record risk_config =
  rk_max_order_notional :: decimal
  rk_max_order_notional_pct :: decimal
  rk_max_open_notional_usd :: decimal
  rk_min_price :: decimal
  rk_max_price :: decimal
  rk_systemic :: account_risk_limits
  rk_explicit_ladder :: "ladder_step list"

definition risk_config_default :: risk_config where
  "risk_config_default = \<lparr>rk_max_order_notional = 100, rk_max_order_notional_pct = 0,
     rk_max_open_notional_usd = 0, rk_min_price = 0, rk_max_price = 1, rk_systemic = systemic_default,
     rk_explicit_ladder = []\<rparr>"

record risk_gate =
  rg_config :: risk_config
  rg_killed :: bool
  rg_kill_reason :: "string option"

definition risk_gate_new :: "risk_config \<Rightarrow> risk_gate" where
  "risk_gate_new c = \<lparr>rg_config = c, rg_killed = False, rg_kill_reason = None\<rparr>"

definition kill :: "string \<Rightarrow> risk_gate \<Rightarrow> risk_gate" where
  "kill reason g = g\<lparr>rg_killed := True, rg_kill_reason := Some reason\<rparr>"

definition resume :: "risk_gate \<Rightarrow> risk_gate" where
  "resume g = g\<lparr>rg_killed := False, rg_kill_reason := None\<rparr>"

definition set_risk_config :: "risk_config \<Rightarrow> risk_gate \<Rightarrow> risk_gate" where
  "set_risk_config c g = g\<lparr>rg_config := c\<rparr>"

definition check_with_equity :: "dec_ops \<Rightarrow> risk_gate \<Rightarrow> order_request \<Rightarrow> decimal \<Rightarrow> core_error + unit" where
  "check_with_equity D g req equity =
    (let c = rg_config g; notional = rq_price req * rq_size req;
         cap = ddiv D (equity * rk_max_order_notional_pct c) 100
     in if rg_killed g \<and> \<not> closes_exposure req
        then Inl (core_error_new KillSwitchActive [Txt (case rg_kill_reason g of Some r \<Rightarrow> r | None \<Rightarrow> ''kill switch active'')])
        else if rq_price req \<le> rk_min_price c \<or> rq_price req > rk_max_price c
        then Inl (core_error_new RiskRejected [Txt ''price '', Dec (rq_price req), Txt '' outside ('',
               Dec (rk_min_price c), Txt ''..'', Dec (rk_max_price c), Txt '']''])
        else if rq_size req \<le> 0
        then Inl (core_error_new RiskRejected [Txt ''size must be positive''])
        else if rq_side req = Buy \<and> notional > rk_max_order_notional c
        then Inl (core_error_new RiskRejected [Txt ''notional '', Dec notional, Txt '' exceeds per-order cap '',
               Dec (rk_max_order_notional c)])
        else if \<not> closes_exposure req \<and> rk_max_order_notional_pct c > 0 \<and> equity > 0 \<and> notional > cap
        then Inl (core_error_new RiskRejected [Txt ''notional '', Dec notional, Txt '' exceeds the '',
               Dec (rk_max_order_notional_pct c), Txt ''% equity cap '', Dec cap, Txt '' (equity '', Dec equity,
               Txt ''); size the order down or raise the cap - the cap never truncates''])
        else Inr ())"

definition check :: "dec_ops \<Rightarrow> risk_gate \<Rightarrow> order_request \<Rightarrow> core_error + unit" where
  "check D g req = check_with_equity D g req 0"

section \<open>The hot-reload boundary\<close>

definition HOT_RELOADABLE :: "string list" where
  "HOT_RELOADABLE = [''maxOrderNotional'', ''maxOrderNotionalPct'', ''maxOpenNotionalUsd'', ''minShares'', ''maxShares'']"

definition HOT_RELOAD_REFUSED :: "(string list \<times> string) list" where
  "HOT_RELOAD_REFUSED = [
     ([''maxDailyLossUsd'', ''max_daily_loss_usd'', ''max-daily-loss''],
      ''the daily-loss breaker is judged against the day's accumulated realized-loss book; re-arming it mid-day silently changes what is already spent''),
     ([''maxDailyLossEquityPct'', ''max_daily_loss_equity_pct'', ''max-daily-loss-pct''],
      ''a share of the day's OPENING equity - a number the day fixed when it rolled, so a live change would be measured against a basis the day no longer has''),
     ([''maxConsecutiveLosses'', ''max_consecutive_losses'', ''max-consecutive-losses''],
      ''the consecutive-loss counter is already running; a new threshold retroactively decides whether the streak on file has tripped''),
     ([''breakerCooldownSec'', ''breaker_cooldown_sec'', ''breaker-cooldown-sec''],
      ''the cooldown is a deadline already running against the streak on file''),
     ([''maxPositions'', ''max_positions'', ''max-positions''],
      ''enforced by the position manager, in the same config block as the exit policy - the whole block is outside this whitelist and needs that review''),
     ([''stopLossPct'', ''stop_loss_pct'', ''stop-loss-pct''],
      ''an exit threshold: already-open positions were entered under the old one, and a live change moves their risk budget invisibly''),
     ([''takeProfitPct'', ''take_profit_pct'', ''take-profit-pct''],
      ''an exit threshold - same reason as stopLossPct''),
     ([''privateKey'', ''private_key'', ''POLYMARKET_PRIVATE_KEY''],
      ''credentials are read from the environment at startup and the live executor is built from them; they are never a runtime parameter''),
     ([''seedBalance'', ''seed_balance'', ''drySeedBalance'', ''dry_seed_balance''],
      ''the ledger's principal is fixed when the session opens; changing it mid-session breaks the balance identity the audit checks''),
     ([''sizeUsd'', ''size_usd'', ''sizePct'', ''size_pct''],
      ''the per-entry BUDGET, not a bound: it decides how much a new ticket commits, so a live change moves every future entry's size at once'')]"

definition ascii_upper :: "char \<Rightarrow> bool" where
  "ascii_upper c \<longleftrightarrow> 65 \<le> (of_char c :: nat) \<and> (of_char c :: nat) \<le> 90"

definition ascii_alphanumeric :: "char \<Rightarrow> bool" where
  "ascii_alphanumeric c \<longleftrightarrow> ascii_upper c \<or> (97 \<le> (of_char c :: nat) \<and> (of_char c :: nat) \<le> 122) \<or>
     (48 \<le> (of_char c :: nat) \<and> (of_char c :: nat) \<le> 57)"

definition normalised :: "string \<Rightarrow> string" where
  "normalised key = map (\<lambda>c. if ascii_upper c then char_of (of_char c + 32 :: nat) else c)
     (filter ascii_alphanumeric key)"

definition hot_reload_refusal :: "string \<Rightarrow> string option" where
  "hot_reload_refusal key =
    map_option snd (List.find (\<lambda>(names, why). \<exists>n \<in> set names. normalised n = normalised key) HOT_RELOAD_REFUSED)"

section \<open>Consecutive-loss breakers\<close>

record loss_breaker =
  lb_max_consecutive_losses :: nat
  lb_cooldown_sec :: int
  lb_consecutive_losses :: nat
  lb_halted_until_ms :: int

definition breaker_new :: "nat \<Rightarrow> int \<Rightarrow> loss_breaker" where
  "breaker_new n cd = \<lparr>lb_max_consecutive_losses = n, lb_cooldown_sec = cd, lb_consecutive_losses = 0,
     lb_halted_until_ms = 0\<rparr>"

definition breaker_record :: "decimal \<Rightarrow> int \<Rightarrow> loss_breaker \<Rightarrow> loss_breaker \<times> bool" where
  "breaker_record net_pnl now b =
    (if net_pnl < 0
     then let b1 = b\<lparr>lb_consecutive_losses := lb_consecutive_losses b + 1\<rparr> in
       if lb_consecutive_losses b1 \<ge> lb_max_consecutive_losses b1
       then (b1\<lparr>lb_halted_until_ms := now + lb_cooldown_sec b1 * 1000\<rparr>, True) else (b1, False)
     else if net_pnl > 0 then (b\<lparr>lb_consecutive_losses := 0\<rparr>, False)
     else (b, False))"

definition breaker_is_halted :: "int \<Rightarrow> loss_breaker \<Rightarrow> bool" where
  "breaker_is_halted now b \<longleftrightarrow> now < lb_halted_until_ms b"

definition breaker_maybe_resume :: "int \<Rightarrow> loss_breaker \<Rightarrow> loss_breaker \<times> bool" where
  "breaker_maybe_resume now b =
    (if lb_halted_until_ms b > 0 \<and> now \<ge> lb_halted_until_ms b
     then (b\<lparr>lb_halted_until_ms := 0, lb_consecutive_losses := 0\<rparr>, True) else (b, False))"

definition breaker_retract :: "decimal \<Rightarrow> nat \<Rightarrow> loss_breaker \<Rightarrow> loss_breaker" where
  "breaker_retract net_pnl streak_before b =
    (if net_pnl < 0
     then let b1 = b\<lparr>lb_consecutive_losses := lb_consecutive_losses b - 1\<rparr> in
       if lb_halted_until_ms b1 > 0 \<and> lb_consecutive_losses b1 < lb_max_consecutive_losses b1
       then b1\<lparr>lb_halted_until_ms := 0\<rparr> else b1
     else if net_pnl > 0 then b\<lparr>lb_consecutive_losses := streak_before\<rparr> else b)"

record loss_breakers =
  bs_max_consecutive_losses :: nat
  bs_cooldown_sec :: int
  bs_per_strategy :: "(string \<times> loss_breaker) list"

definition breakers_new :: "nat \<Rightarrow> int \<Rightarrow> loss_breakers" where
  "breakers_new n cd = \<lparr>bs_max_consecutive_losses = n, bs_cooldown_sec = cd, bs_per_strategy = []\<rparr>"

definition record_with :: "string \<Rightarrow> nat \<Rightarrow> int \<Rightarrow> decimal \<Rightarrow> int \<Rightarrow> loss_breakers \<Rightarrow> loss_breakers \<times> bool" where
  "record_with key n cd net_pnl now bs =
    (let b = (case map_of (bs_per_strategy bs) key of Some b \<Rightarrow> b | None \<Rightarrow> breaker_new n cd);
         (b', tripped) = breaker_record net_pnl now b
     in (bs\<lparr>bs_per_strategy := AList.update key b' (bs_per_strategy bs)\<rparr>, tripped))"

definition record_close :: "string \<Rightarrow> decimal \<Rightarrow> int \<Rightarrow> loss_breakers \<Rightarrow> loss_breakers \<times> bool" where
  "record_close strategy net_pnl now bs =
    record_with strategy (bs_max_consecutive_losses bs) (bs_cooldown_sec bs) net_pnl now bs"

definition retract :: "string \<Rightarrow> decimal \<Rightarrow> nat \<Rightarrow> loss_breakers \<Rightarrow> loss_breakers" where
  "retract strategy net_pnl streak_before bs = (case map_of (bs_per_strategy bs) strategy of
     None \<Rightarrow> bs
   | Some b \<Rightarrow> bs\<lparr>bs_per_strategy :=
       AList.update strategy (breaker_retract net_pnl streak_before b) (bs_per_strategy bs)\<rparr>)"

definition is_halted :: "string \<Rightarrow> int \<Rightarrow> loss_breakers \<Rightarrow> bool" where
  "is_halted strategy now bs = (case map_of (bs_per_strategy bs) strategy of
     Some b \<Rightarrow> breaker_is_halted now b | None \<Rightarrow> False)"

definition halted_until_ms :: "string \<Rightarrow> loss_breakers \<Rightarrow> int" where
  "halted_until_ms strategy bs = (case map_of (bs_per_strategy bs) strategy of
     Some b \<Rightarrow> lb_halted_until_ms b | None \<Rightarrow> 0)"

definition consecutive_losses :: "string \<Rightarrow> loss_breakers \<Rightarrow> nat" where
  "consecutive_losses strategy bs = (case map_of (bs_per_strategy bs) strategy of
     Some b \<Rightarrow> lb_consecutive_losses b | None \<Rightarrow> 0)"

definition maybe_resume_all :: "int \<Rightarrow> loss_breakers \<Rightarrow> loss_breakers \<times> string list" where
  "maybe_resume_all now bs =
    (bs\<lparr>bs_per_strategy := map (\<lambda>(n, b). (n, fst (breaker_maybe_resume now b))) (bs_per_strategy bs)\<rparr>,
     sort (map fst (filter (\<lambda>(n, b). snd (breaker_maybe_resume now b)) (bs_per_strategy bs))))"

definition halted :: "int \<Rightarrow> loss_breakers \<Rightarrow> string list" where
  "halted now bs = sort (map fst (filter (breaker_is_halted now \<circ> snd) (bs_per_strategy bs)))"

definition next_resume_ms :: "loss_breakers \<Rightarrow> int" where
  "next_resume_ms bs =
    (case filter (\<lambda>t. t > 0) (map (lb_halted_until_ms \<circ> snd) (bs_per_strategy bs)) of
       [] \<Rightarrow> 9223372036854775807 | t # ts \<Rightarrow> foldl min t ts)"

end
