(* ===== verification/Arbitration.thy ===== *)
theory Arbitration
  imports Risk Ledger
begin

text \<open>
  The arbitration of strategy suggestions, \<open>core/blitzkrieg_core/src/arbitration/mod.rs\<close> and
  \<open>pipeline.rs\<close>: the four gates between a suggestion and an order. \<open>process_intent\<close> returns the outcome
  and the ledger, which only the third gate's probe touches. The wall-clock latency of an outcome is not
  modelled.
\<close>

section \<open>Vocabulary\<close>

datatype gate_id = Legality | RiskGateId | Reservation | Physics

datatype gate_outcome = GoPass | GoModify | GoReject

record gate_trace =
  gt_gate :: gate_id
  gt_outcome :: gate_outcome
  gt_detail :: message

datatype modification =
    SizeReduced (md_suggested: decimal) (md_approved: decimal) (md_limit: string)
  | PriceClamped (md_suggested: decimal) (md_approved: decimal) (md_tick: decimal)

datatype reject_reason = Malformed | OutOfPriceBand | BadTick | NotInRound | RjAccountLimit | GlobalLimit
  | RjLossBreaker | Cooldown | RjKillSwitch | Capacity | RjInsufficientFunds | RjInternal

fun reason_code :: "reject_reason \<Rightarrow> core_error_code" where
  "reason_code Malformed = InvalidParams"
| "reason_code OutOfPriceBand = InvalidParams"
| "reason_code BadTick = InvalidTickSize"
| "reason_code NotInRound = InvalidParams"
| "reason_code RjAccountLimit = AccountLimit"
| "reason_code GlobalLimit = RiskRejected"
| "reason_code RjLossBreaker = RiskRejected"
| "reason_code Cooldown = RiskRejected"
| "reason_code RjKillSwitch = KillSwitchActive"
| "reason_code Capacity = RiskRejected"
| "reason_code RjInsufficientFunds = InsufficientFunds"
| "reason_code RjInternal = Internal"

datatype arb_decision =
    ArbApproved (ad_request_id: string) (ad_shares: decimal) (ad_price: decimal) (ad_physics: physics_binding)
  | ArbModified (ad_request_id: string) (ad_modification: modification) (ad_shares: decimal) (ad_price: decimal)
      (ad_physics: physics_binding)
  | ArbRejected (ad_reason: reject_reason) (ad_gate: gate_id) (ad_detail: message)

fun decision_status :: "arb_decision \<Rightarrow> string" where
  "decision_status (ArbApproved _ _ _ _) = ''APPROVED''"
| "decision_status (ArbModified _ _ _ _ _) = ''MODIFIED''"
| "decision_status (ArbRejected _ _ _) = ''REJECTED''"

record strategy_intent =
  si_request :: order_request

definition order_intent_of :: "strategy_intent \<Rightarrow> order_intent" where
  "order_intent_of i = \<lparr>oi_market = Prediction, oi_symbol = rq_token_id (si_request i),
     oi_side = rq_side (si_request i), oi_order_kind = KindLimit, oi_price = Some (rq_price (si_request i)),
     oi_size = rq_size (si_request i), oi_time_in_force = TifGtd, oi_metadata = []\<rparr>"

definition is_close :: "strategy_intent \<Rightarrow> bool" where
  "is_close i \<longleftrightarrow> is_close_intent (rq_internal_key (si_request i))"

record intent_ctx =
  ic_round_tokens :: "string list"
  ic_risk :: risk_gate
  ic_breaker :: loss_breakers
  ic_ledger :: ledger
  ic_exit_cfg :: exit_config
  ic_time_left_sec :: int
  ic_now_ms :: int
  ic_equity :: decimal
  ic_account_entry_block :: "string option"
  ic_strategy_holds_to_settlement :: bool

record arb_outcome =
  ao_decision :: arb_decision
  ao_gates :: "gate_trace list"

section \<open>The gates\<close>

definition trace :: "gate_id \<Rightarrow> gate_outcome \<Rightarrow> message \<Rightarrow> gate_trace" where
  "trace g r d = \<lparr>gt_gate = g, gt_outcome = r, gt_detail = d\<rparr>"

text \<open>A gate refuses with a decision, or passes with its result; either way with its traces.\<close>

type_synonym 'a gate_result = "(arb_decision + 'a) \<times> gate_trace list"

definition refuse :: "reject_reason \<Rightarrow> gate_id \<Rightarrow> message \<Rightarrow> 'a gate_result" where
  "refuse reason g d = (Inl (ArbRejected reason g d), [trace g GoReject d])"

fun str_contains :: "string \<Rightarrow> string \<Rightarrow> bool" where
  "str_contains pat [] = (pat = [])"
| "str_contains pat (c # cs) = (starts_with (c # cs) pat \<or> str_contains pat cs)"

definition msg_contains :: "string \<Rightarrow> message \<Rightarrow> bool" where
  "msg_contains pat m = list_ex (\<lambda>p. case p of Txt s \<Rightarrow> str_contains pat s | _ \<Rightarrow> False) m"

definition gate_legality :: "strategy_intent \<Rightarrow> intent_ctx \<Rightarrow> unit gate_result" where
  "gate_legality i c = (case order_intent_validate (order_intent_of i) of
     Inl e \<Rightarrow> refuse (if ce_code e = InvalidSize then Malformed
         else if msg_contains ''price must be in'' (ce_message e) then OutOfPriceBand else Malformed)
       Legality (ce_message e)
   | Inr _ \<Rightarrow>
       if rq_side (si_request i) = Buy \<and> rq_token_id (si_request i) \<notin> set (ic_round_tokens c)
       then refuse NotInRound Legality [Txt ''token '', Txt (rq_token_id (si_request i)),
         Txt '' is not part of round slot '', Num (rq_round_slot (si_request i))]
       else (Inr (), [trace Legality GoPass [Txt ''OrderIntent::validate() ok'']]))"

definition bound_stop_pct :: "dec_ops \<Rightarrow> intent_ctx \<Rightarrow> decimal" where
  "bound_stop_pct D c = effective_stop_pct D (xc_stop_loss_pct (ic_exit_cfg c)) (ic_time_left_sec c) (ic_exit_cfg c)"

text \<open>The systemic block of the second gate: invisible unless a bound is armed; otherwise it passes,
  shrinks the entry or refuses it.\<close>

definition gate_systemic ::
  "dec_ops \<Rightarrow> strategy_intent \<Rightarrow> intent_ctx \<Rightarrow> (decimal \<times> string) option gate_result" where
  "gate_systemic D i c =
    (let limits = rk_systemic (rg_config (ic_risk c)); req = si_request i in
     if any_armed limits
     then case judge_entry D limits (rq_price req) (rq_size req) (bound_stop_pct D c) of
         EjPass \<Rightarrow> (Inr None, [trace RiskGateId GoPass [Txt ''systemic limits armed - entry within every bound'']])
       | EjReduce approved limit \<Rightarrow> (Inr (Some (approved, limit)),
           [trace RiskGateId GoModify [Txt ''systemic: '', Txt limit, Txt '' shrinks '', Dec (rq_size req),
              Txt '' -> '', Dec approved, Txt '' shares'']])
       | EjReject d \<Rightarrow> refuse RjAccountLimit RiskGateId d
     else (Inr None, []))"

definition gate_risk ::
  "dec_ops \<Rightarrow> strategy_intent \<Rightarrow> intent_ctx \<Rightarrow> (decimal \<times> string) option gate_result" where
  "gate_risk D i c =
    (let req = si_request i; akey = account_breaker_key (as_str (rq_account_id req)) in
     if is_close i
     then (Inr None, [trace RiskGateId GoPass
       [Txt ''close intent exempt - closing intents always pass (existing rule)'']])
     else case ic_account_entry_block c of
       Some block \<Rightarrow> refuse RjAccountLimit RiskGateId [Txt block]
     | None \<Rightarrow> (case check_with_equity D (ic_risk c) req (ic_equity c) of
         Inl e \<Rightarrow> refuse (if ce_code e = KillSwitchActive then RjKillSwitch else GlobalLimit) RiskGateId (ce_message e)
       | Inr _ \<Rightarrow>
           if is_halted (rq_strategy req) (ic_now_ms c) (ic_breaker c)
           then refuse RjLossBreaker RiskGateId [Txt ''loss breaker active until '',
             Num (halted_until_ms (rq_strategy req) (ic_breaker c)), Txt '' for strategy '', Txt (rq_strategy req)]
           else if is_halted akey (ic_now_ms c) (ic_breaker c)
           then refuse RjLossBreaker RiskGateId [Txt ''loss breaker active until '',
             Num (halted_until_ms akey (ic_breaker c)), Txt '' for account '', Txt (as_str (rq_account_id req))]
           else case gate_systemic D i c of
               (r, ts) \<Rightarrow> (r, trace RiskGateId GoPass [Txt ''RiskGate::check_with_equity ok, breaker clear''] # ts)))"

definition PROBE :: string where
  "PROBE = ''__arbitration_probe__''"

definition effective_size :: "strategy_intent \<Rightarrow> (decimal \<times> string) option \<Rightarrow> decimal" where
  "effective_size i shrink = (case shrink of Some (s, _) \<Rightarrow> s | None \<Rightarrow> rq_size (si_request i))"

definition gate_reservation ::
  "strategy_intent \<Rightarrow> (decimal \<times> string) option \<Rightarrow> ledger \<Rightarrow> ledger \<times> unit gate_result" where
  "gate_reservation i shrink l =
    (if rq_side (si_request i) = Buy
     then let notional = rq_price (si_request i) * effective_size i shrink in
       case reserve PROBE notional l of
         (l1, Inl e) \<Rightarrow> (l1, refuse RjInsufficientFunds Reservation (ce_message e))
       | (l1, Inr _) \<Rightarrow> (fst (release PROBE l1),
           (Inr (), [trace Reservation GoPass [Txt ''Ledger::reserve probe ok ('', Dec notional, Txt '' USD)'']]))
     else (l, (Inr (), [trace Reservation GoPass [Txt ''sells do not reserve (BUY-only reservation table)'']])))"

definition physics_cfg :: "intent_ctx \<Rightarrow> exit_config" where
  "physics_cfg c = (if ic_strategy_holds_to_settlement c then holder_view (ic_exit_cfg c) else ic_exit_cfg c)"

definition gate_physics :: "dec_ops \<Rightarrow> strategy_intent \<Rightarrow> intent_ctx \<Rightarrow> physics_binding \<times> gate_trace list" where
  "gate_physics D i c =
    (if is_close i
     then (\<lparr>pb_stop_price = 0, pb_force_exit_sec = 0, pb_ladder = []\<rparr>,
       [trace Physics GoPass [Txt ''close intent: no survival binding'']])
     else
       let cfg = physics_cfg c;
           stop_pct = effective_stop_pct D (xc_stop_loss_pct cfg) (ic_time_left_sec c) cfg;
           b = apply_physics D (rq_price (si_request i)) (ic_time_left_sec c) cfg
             (rk_explicit_ladder (rg_config (ic_risk c)));
           stop = [Dec stop_pct, Txt ''% -> '', Dec (pb_stop_price b), Txt '', force-exit '',
             Num (xc_force_exit_sec (ic_exit_cfg c)), Txt ''s, '']
       in (b, [trace Physics GoPass (case pb_ladder b of
            [] \<Rightarrow> Txt ''projection: stop '' # stop @ [Txt ''empty ladder'']
          | step # rest \<Rightarrow> if rest = [] \<and> ls_close_ratio step = 1
              then Txt ''projection: stop '' # stop @ [Txt ''ladder[0] close 1.0 at '', Dec (ls_at_pct step), Txt ''%'']
              else Txt ''explicit ladder: stop '' # stop @ [Num (int (length (pb_ladder b))), Txt '' steps''])]))"

section \<open>The pipeline\<close>

definition final_decision ::
  "strategy_intent \<Rightarrow> (decimal \<times> string) option \<Rightarrow> physics_binding \<Rightarrow> arb_decision" where
  "final_decision i shrink b =
    (let req = si_request i in
     case shrink of
       Some (approved, limit) \<Rightarrow> ArbModified (rq_internal_key req) (SizeReduced (rq_size req) approved limit)
         approved (rq_price req) b
     | None \<Rightarrow> ArbApproved (rq_internal_key req) (rq_size req) (rq_price req) b)"

definition process_intent :: "dec_ops \<Rightarrow> strategy_intent \<Rightarrow> intent_ctx \<Rightarrow> ledger \<times> arb_outcome" where
  "process_intent D i c = (case gate_legality i c of
     (Inl d, t1) \<Rightarrow> (ic_ledger c, \<lparr>ao_decision = d, ao_gates = t1\<rparr>)
   | (Inr _, t1) \<Rightarrow> (case gate_risk D i c of
       (Inl d, t2) \<Rightarrow> (ic_ledger c, \<lparr>ao_decision = d, ao_gates = t1 @ t2\<rparr>)
     | (Inr shrink, t2) \<Rightarrow> (case gate_reservation i shrink (ic_ledger c) of
         (l, Inl d, t3) \<Rightarrow> (l, \<lparr>ao_decision = d, ao_gates = t1 @ t2 @ t3\<rparr>)
       | (l, Inr _, t3) \<Rightarrow>
           let (b, t4) = gate_physics D i c
           in (l, \<lparr>ao_decision = final_decision i shrink b, ao_gates = t1 @ t2 @ t3 @ t4\<rparr>))))"

end
