(* ===== verification/ArbitrationProps.thy ===== *)
theory ArbitrationProps
  imports Arbitration LedgerProps
begin

text \<open>
  What the risk gate, the loss breakers and the arbitration pipeline guarantee: the kill switch never
  traps a close, a retracted close leaves the breaker as it was, the sizing bounds hold on the venue's
  grid, and a suggestion is judged without moving the ledger.
\<close>

section \<open>The kill switch\<close>

text \<open>C32. The kill switch freezes entries and nothing else: whatever the order, a closing SELL is judged
  exactly as if trading were not frozen, and it is never refused for the account's size; every other
  order is refused with the reason the operator gave, whatever it asks for.\<close>

theorem risk_kill_freezes_only_entries:
  "check_with_equity D (kill reason g) req equity =
    (if closes_exposure req then check_with_equity D (resume g) req 0
     else Inl (core_error_new KillSwitchActive [Txt reason]))"
  by (simp add: check_with_equity_def kill_def resume_def Let_def)

section \<open>Breakers\<close>

lemma map_breakers_record:
  "map_of (bs_per_strategy (fst (record_with s n cd pnl now bs))) =
     (map_of (bs_per_strategy bs))(s \<mapsto> fst (breaker_record pnl now
        (case map_of (bs_per_strategy bs) s of Some b \<Rightarrow> b | None \<Rightarrow> breaker_new n cd)))"
  by (simp add: record_with_def Let_def split: prod.splits)

lemma breaker_retract_record:
  assumes "lb_consecutive_losses b < lb_max_consecutive_losses b" "lb_halted_until_ms b = 0"
    and "0 < now + lb_cooldown_sec b * 1000"
  shows "breaker_retract pnl (lb_consecutive_losses b) (fst (breaker_record pnl now b)) = b"
  using assms by (cases b) (auto simp: breaker_retract_def breaker_record_def Let_def)

lemma map_breakers_retract:
  assumes "map_of (bs_per_strategy bs) s = Some b"
  shows "map_of (bs_per_strategy (retract s pnl k bs)) = (map_of (bs_per_strategy bs))(s \<mapsto> breaker_retract pnl k b)"
  using assms by (simp add: retract_def)

text \<open>The observable state: streak, deadline and halt of every strategy.\<close>

definition breakers_view :: "loss_breakers \<Rightarrow> string \<Rightarrow> nat \<times> int" where
  "breakers_view bs s = (consecutive_losses s bs, halted_until_ms s bs)"

text \<open>. A close that never settled leaves no trace in the breakers. For a strategy that is not halted
  and below its threshold, retracting a recorded close with the streak on file before it restores the
  streak, the deadline and the halt of every strategy, the recorded one included, whether it won, lost,
  broke even or tripped the breaker. No other strategy ever notices either step.\<close>

theorem breakers_retract_undoes_record:
  assumes "case map_of (bs_per_strategy bs) s of
      Some b \<Rightarrow> lb_consecutive_losses b < lb_max_consecutive_losses b \<and> lb_halted_until_ms b = 0 \<and>
        0 < now + lb_cooldown_sec b * 1000
    | None \<Rightarrow> 0 < n \<and> 0 < now + cd * 1000"
  shows "breakers_view (retract s pnl (consecutive_losses s bs) (fst (record_with s n cd pnl now bs))) = breakers_view bs \<and>
    (t \<noteq> s \<longrightarrow> breakers_view (fst (record_with s n cd pnl now bs)) t = breakers_view bs t)"
proof -
  let ?b = "case map_of (bs_per_strategy bs) s of Some b \<Rightarrow> b | None \<Rightarrow> breaker_new n cd"
  define k where "k = consecutive_losses s bs"
  have k: "k = lb_consecutive_losses ?b"
    by (simp add: k_def consecutive_losses_def breaker_new_def split: option.splits)
  have u: "breaker_retract pnl k (fst (breaker_record pnl now ?b)) = ?b"
    unfolding k using assms by (intro breaker_retract_record) (auto simp: breaker_new_def split: option.splits)
  have "map_of (bs_per_strategy (fst (record_with s n cd pnl now bs))) s = Some (fst (breaker_record pnl now ?b))"
    by (simp add: map_breakers_record)
  from map_breakers_retract[OF this, of pnl k]
  have m: "map_of (bs_per_strategy (retract s pnl k (fst (record_with s n cd pnl now bs)))) =
    (map_of (bs_per_strategy bs))(s \<mapsto> ?b)"
    unfolding u map_breakers_record by simp
  have "breakers_view (retract s pnl k (fst (record_with s n cd pnl now bs))) = breakers_view bs"
    unfolding breakers_view_def consecutive_losses_def halted_until_ms_def m
    by (auto simp: fun_eq_iff breaker_new_def split: option.splits)
  moreover have "breakers_view (fst (record_with s n cd pnl now bs)) t = breakers_view bs t" if "t \<noteq> s"
    using that unfolding breakers_view_def consecutive_losses_def halted_until_ms_def map_breakers_record by simp
  ultimately show ?thesis unfolding k_def by blast
qed

text \<open>. A loss retracted out of a running halt leaves the halt longer than it was. A strategy that is
  already halted can still close positions; a loss recorded then restarts the cooldown, and when that
  close is later retracted the streak comes back but the deadline does not: the freeze caused by a trade
  that never settled stands.\<close>

theorem breakers_retract_keeps_extended_halt:
  assumes "map_of (bs_per_strategy bs) s = Some b" "lb_max_consecutive_losses b \<le> lb_consecutive_losses b"
    and "lb_halted_until_ms b < now + lb_cooldown_sec b * 1000" "pnl < 0"
  shows "consecutive_losses s (retract s pnl (consecutive_losses s bs) (fst (record_close s pnl now bs))) =
      consecutive_losses s bs \<and>
    halted_until_ms s bs < halted_until_ms s (retract s pnl (consecutive_losses s bs) (fst (record_close s pnl now bs)))"
proof -
  let ?r = "fst (breaker_record pnl now b)"
  have r: "lb_consecutive_losses ?r = Suc (lb_consecutive_losses b)" "lb_halted_until_ms ?r = now + lb_cooldown_sec b * 1000"
    "lb_max_consecutive_losses ?r = lb_max_consecutive_losses b"
    using assms(2,4) by (auto simp: breaker_record_def Let_def)
  have "map_of (bs_per_strategy (fst (record_close s pnl now bs))) s = Some ?r"
    using assms(1) by (simp add: record_close_def map_breakers_record)
  define k where "k = consecutive_losses s bs"
  have k: "k = lb_consecutive_losses b" using assms(1) by (simp add: k_def consecutive_losses_def)
  from map_breakers_retract[OF \<open>map_of _ s = Some ?r\<close>, of pnl k]
  have m: "map_of (bs_per_strategy (retract s pnl k (fst (record_close s pnl now bs)))) s =
      Some (breaker_retract pnl k ?r)" by simp
  have "consecutive_losses s (retract s pnl k (fst (record_close s pnl now bs))) = k"
    "halted_until_ms s (retract s pnl k (fst (record_close s pnl now bs))) = now + lb_cooldown_sec b * 1000"
    unfolding consecutive_losses_def halted_until_ms_def m option.case
    using assms(2,4) r k by (simp_all add: breaker_retract_def)
  thus ?thesis using assms(1,3) by (simp add: k_def[symmetric]) (simp add: halted_until_ms_def)
qed

section \<open>Sizing\<close>

definition divides_exactly :: "dec_ops \<Rightarrow> decimal \<Rightarrow> decimal \<Rightarrow> bool" where
  "divides_exactly D a b \<longleftrightarrow> ddiv D a b = a / b"

lemma single_loss_sound:
  assumes "divides_exactly D cap (loss_per_share D price stop)" "0 < cap" "0 < sz"
  shows "case single_loss_verdict D cap price stop sz of
      SlWithin \<Rightarrow> sz * loss_per_share D price stop \<le> cap
    | SlReduce a \<Rightarrow> 1 \<le> a \<and> a < sz \<and> a \<in> \<int> \<and> a * loss_per_share D price stop \<le> cap \<and>
        cap < (a + 1) * loss_per_share D price stop
    | SlRefuse \<Rightarrow> cap < loss_per_share D price stop"
proof (cases "loss_per_share D price stop \<le> 0")
  case True
  have "sz * loss_per_share D price stop \<le> 0" using True assms(3) by (simp add: mult_nonneg_nonpos)
  thus ?thesis using True assms(2) by (simp add: single_loss_verdict_def Let_def)
next
  case False
  let ?l = "loss_per_share D price stop" and ?a = "of_int \<lfloor>cap / loss_per_share D price stop\<rfloor> :: decimal"
  have l: "0 < ?l" using False by simp
  have lo: "?a \<le> cap / ?l" and hi: "cap / ?l < ?a + 1" by linarith+
  have fits: "?a * ?l \<le> cap" by (rule iffD1[OF pos_le_divide_eq[OF l] lo])
  have more: "cap < (?a + 1) * ?l" by (rule iffD1[OF pos_divide_less_eq[OF l] hi])
  have within: "sz * ?l \<le> cap" if "sz \<le> ?a" using mult_right_mono[OF that, of ?l] l fits by linarith
  have none: "cap < ?l" if "?a < 1"
  proof -
    have "?a \<le> 0" using that by (metis int_one_le_iff_zero_less linorder_not_le of_int_le_0_iff of_int_less_1_iff)
    hence "(?a + 1) * ?l \<le> 1 * ?l" using l by (intro mult_right_mono) auto
    thus ?thesis using more by simp
  qed
  show ?thesis using False assms(1) fits more within none
    by (auto simp: single_loss_verdict_def Let_def divides_exactly_def)
qed

text \<open>. The sizing bounds are kept, tightly. An entry that passes as suggested respects both caps of
  its account; one that is shrunk is shrunk to fewer shares that respect both caps, the loss cap at the
  stop's fillable price on the venue's cent grid; when the loss cap is what bit, one more share would
  break it; and an entry refused for its loss could not have held a single share.\<close>

theorem risk_sizing_sound:
  assumes "divides_exactly D (bd_value (al_max_single_loss_usd limits)) (loss_per_share D price stop)" "0 < sz"
  shows "case judge_entry D limits price sz stop of
      EjPass \<Rightarrow> (is_enabled (al_max_position_size limits) \<longrightarrow> sz \<le> bd_value (al_max_position_size limits)) \<and>
        (is_enabled (al_max_single_loss_usd limits) \<longrightarrow>
          sz * loss_per_share D price stop \<le> bd_value (al_max_single_loss_usd limits))
    | EjReduce a limit \<Rightarrow> 1 \<le> a \<and> a < sz \<and> a \<in> \<int> \<and>
        (is_enabled (al_max_position_size limits) \<longrightarrow> a \<le> bd_value (al_max_position_size limits)) \<and>
        (is_enabled (al_max_single_loss_usd limits) \<longrightarrow>
          a * loss_per_share D price stop \<le> bd_value (al_max_single_loss_usd limits)) \<and>
        (limit = ''max_single_loss_usd'' \<longrightarrow>
          bd_value (al_max_single_loss_usd limits) < (a + 1) * loss_per_share D price stop)
    | EjReject d \<Rightarrow> (is_enabled (al_max_position_size limits) \<and> bd_value (al_max_position_size limits) < 1) \<or>
        (is_enabled (al_max_single_loss_usd limits) \<and>
          bd_value (al_max_single_loss_usd limits) < loss_per_share D price stop)"
proof -
  let ?c = "al_max_position_size limits" and ?l = "al_max_single_loss_usd limits"
  let ?cap = "of_int \<lfloor>bd_value ?c\<rfloor> :: decimal"
  define a where "a = (if is_enabled ?c \<and> sz > ?cap then ?cap else sz)"
  have fl: "?cap \<le> bd_value ?c" "?cap \<in> \<int>" "bd_value ?c < ?cap + 1" by (linarith, simp, linarith)
  have small: "bd_value ?c < 1" if "?cap < 1" using that fl(3)
    by (metis fl(1) floor_less_one floor_of_int le_less_trans not_le of_int_less_1_iff)
  have pos: "0 < a" if "\<not> (is_enabled ?c \<and> ?cap < 1)" using that assms(2) by (auto simp: a_def)
  have sl: "is_enabled ?l \<Longrightarrow> 0 < a \<Longrightarrow> case single_loss_verdict D (bd_value ?l) price stop a of
      SlWithin \<Rightarrow> a * loss_per_share D price stop \<le> bd_value ?l
    | SlReduce x \<Rightarrow> 1 \<le> x \<and> x < a \<and> x \<in> \<int> \<and> x * loss_per_share D price stop \<le> bd_value ?l \<and>
        bd_value ?l < (x + 1) * loss_per_share D price stop
    | SlRefuse \<Rightarrow> bd_value ?l < loss_per_share D price stop"
    using single_loss_sound[OF assms(1)] by (simp add: is_enabled_def)
  have le: "a \<le> sz" "is_enabled ?c \<Longrightarrow> a \<le> bd_value ?c" using order_trans[OF _ fl(1)] by (auto simp: a_def not_less)
  show ?thesis
  proof (cases "is_enabled ?c \<and> ?cap < 1")
    case True
    thus ?thesis using small by (simp add: judge_entry_def Let_def)
  next
    case False
    note s = sl[OF _ pos[OF False]]
    have j: "judge_entry D limits price sz stop =
      (case (if is_enabled ?l then single_loss_verdict D (bd_value ?l) price stop a else SlWithin) of
        SlRefuse \<Rightarrow> judge_entry D limits price sz stop
      | SlReduce x \<Rightarrow> EjReduce x ''max_single_loss_usd''
      | SlWithin \<Rightarrow> (if is_enabled ?c \<and> sz > ?cap then EjReduce a ''max_position_size'' else EjPass))"
      using False by (auto simp: judge_entry_def Let_def a_def split: single_loss_verdict_t.splits)
    have refuse: "\<exists>d. judge_entry D limits price sz stop = EjReject d"
      if "is_enabled ?l" "single_loss_verdict D (bd_value ?l) price stop a = SlRefuse"
      using False that by (auto simp: judge_entry_def Let_def a_def split: if_splits)
    have cap1: "is_enabled ?c \<and> sz > ?cap \<Longrightarrow> 1 \<le> ?cap" using False by auto
    show ?thesis
    proof (cases "is_enabled ?l")
      case True
      show ?thesis
      proof (cases "single_loss_verdict D (bd_value ?l) price stop a")
        case SlWithin
        thus ?thesis using j s[OF True] True le cap1 fl(2) by (auto simp: a_def)
      next
        case (SlReduce x)
        hence "judge_entry D limits price sz stop = EjReduce x ''max_single_loss_usd''" using j True by simp
        thus ?thesis using s[OF True] SlReduce le by auto
      next
        case SlRefuse
        thus ?thesis using refuse[OF True SlRefuse] s[OF True] True by auto
      qed
    next
      case False
      thus ?thesis using j le cap1 fl(2) by (auto simp: a_def)
    qed
  qed
qed


section \<open>The pipeline\<close>

lemma delete_update_fresh: "map_of m k = None \<Longrightarrow> AList.delete k (AList.update k v m) = m"
proof (induction m)
  case (Cons a m)
  thus ?case by (cases a) (auto split: if_splits)
qed simp

lemma probe_release:
  assumes "map_of (l_reservations l) PROBE = None" "gate_reservation i s l = (l', r, ts)"
  shows "l' = l"
  using assms delete_update_fresh[OF assms(1)]
  by (auto simp: gate_reservation_def reserve_def release_def take_reservation_def refuse_def Let_def
      split: if_splits prod.splits sum.splits)

text \<open>. Arbitration moves no money: whatever the suggestion and whatever the verdict, the ledger after
  the four gates is the ledger before them, the probe's reservation included.\<close>

theorem arbitration_keeps_ledger:
  assumes "map_of (l_reservations (ic_ledger c)) PROBE = None"
  shows "fst (process_intent D i c) = ic_ledger c"
  using probe_release[OF assms]
  by (auto simp: process_intent_def split: prod.splits sum.splits)

text \<open>An accepted suggestion, and what is to be placed for it.\<close>

fun accepted :: "arb_decision \<Rightarrow> (decimal \<times> decimal \<times> physics_binding) option" where
  "accepted (ArbApproved _ s p b) = Some (s, p, b)"
| "accepted (ArbModified _ _ s p b) = Some (s, p, b)"
| "accepted (ArbRejected _ _ _) = None"

lemma accepted_refuse: "accepted (ArbRejected r g d) = None" by simp

lemma gate_fails:
  "gate_legality i c = (Inl d, t) \<Longrightarrow> accepted d = None" "gate_systemic D i c = (Inl d, t) \<Longrightarrow> accepted d = None"
  "gate_reservation i s l = (l', Inl d, t) \<Longrightarrow> accepted d = None"
  by (auto simp: gate_legality_def gate_systemic_def gate_reservation_def refuse_def Let_def
      split: sum.splits if_splits entry_judgment.splits prod.splits)

lemma gate_risk_fails: "gate_risk D i c = (Inl d, t) \<Longrightarrow> accepted d = None"
  by (auto simp: gate_risk_def refuse_def Let_def split: if_splits option.splits sum.splits prod.splits dest: gate_fails(2))

lemma accepted_stages:
  assumes "accepted (ao_decision (snd (process_intent D i c))) = Some (s, p, b)"
  obtains t1 shrink t2 l t3 where "gate_legality i c = (Inr (), t1)" "gate_risk D i c = (Inr shrink, t2)"
    "gate_reservation i shrink (ic_ledger c) = (l, Inr (), t3)" "s = effective_size i shrink"
    "p = rq_price (si_request i)" "b = fst (gate_physics D i c)"
proof -
  obtain r1 t1 where g1: "gate_legality i c = (r1, t1)" by fastforce
  obtain r2 t2 where g2: "gate_risk D i c = (r2, t2)" by fastforce
  have ok1: "r1 = Inr ()" using assms gate_fails(1) g1
    by (cases r1) (auto simp: process_intent_def)
  have "\<exists>shrink. r2 = Inr shrink" using assms gate_risk_fails g1 g2 ok1
    by (cases r2) (auto simp: process_intent_def)
  then obtain shrink where ok2: "r2 = Inr shrink" by blast
  obtain l r3 t3 where g3: "gate_reservation i shrink (ic_ledger c) = (l, r3, t3)" by (metis prod_cases3)
  have ok3: "r3 = Inr ()" using assms gate_fails(3) g1 g2 g3 ok1 ok2
    by (cases r3) (auto simp: process_intent_def)
  have "ao_decision (snd (process_intent D i c)) = final_decision i shrink (fst (gate_physics D i c))"
    using g1 g2 g3 ok1 ok2 ok3 by (simp add: process_intent_def split: prod.splits)
  hence "s = effective_size i shrink \<and> p = rq_price (si_request i) \<and> b = fst (gate_physics D i c)"
    using assms by (auto simp: final_decision_def effective_size_def Let_def split: option.splits)
  thus ?thesis using that g1 g2 g3 ok1 ok2 ok3 by blast
qed

lemma gate_risk_shrink:
  assumes "gate_risk D i c = (Inr shrink, t)"
  shows "shrink = None \<or> (\<exists>a limit. shrink = Some (a, limit) \<and>
    judge_entry D (rk_systemic (rg_config (ic_risk c))) (rq_price (si_request i)) (rq_size (si_request i))
      (bound_stop_pct D c) = EjReduce a limit)"
  using assms by (auto simp: gate_risk_def gate_systemic_def refuse_def Let_def
    split: if_splits option.splits sum.splits prod.splits entry_judgment.splits)

lemma judge_reduce_le: "judge_entry D limits price sz stop = EjReduce a limit \<Longrightarrow> a < sz"
  by (auto simp: judge_entry_def single_loss_verdict_def Let_def split: if_splits)

lemma gate_risk_open:
  assumes "gate_risk D i c = (Inr shrink, t)" "\<not> is_close i"
  shows "ic_account_entry_block c = None \<and> check_with_equity D (ic_risk c) (si_request i) (ic_equity c) = Inr () \<and>
    \<not> is_halted (rq_strategy (si_request i)) (ic_now_ms c) (ic_breaker c) \<and>
    \<not> is_halted (account_breaker_key (as_str (rq_account_id (si_request i)))) (ic_now_ms c) (ic_breaker c)"
  using assms by (auto simp: gate_risk_def refuse_def Let_def split: if_splits option.splits sum.splits)

text \<open>C33. What an accepted suggestion went through. The price is the suggested one and the size at most
  the suggested one; the order is well formed and a BUY trades a token of the round; an entry comes
  from an account that may enter, with trading not frozen, and neither its strategy nor its account on
  a losing halt.\<close>

theorem arbitration_accepts_soundly:
  assumes "accepted (ao_decision (snd (process_intent D i c))) = Some (s, p, b)"
  shows "p = rq_price (si_request i) \<and> s \<le> rq_size (si_request i) \<and> 0 < p \<and> p \<le> 1 \<and>
    (rq_side (si_request i) = Buy \<longrightarrow> rq_token_id (si_request i) \<in> set (ic_round_tokens c)) \<and>
    (\<not> is_close i \<longrightarrow> ic_account_entry_block c = None \<and> \<not> rg_killed (ic_risk c) \<and>
      \<not> is_halted (rq_strategy (si_request i)) (ic_now_ms c) (ic_breaker c) \<and>
      \<not> is_halted (account_breaker_key (as_str (rq_account_id (si_request i)))) (ic_now_ms c) (ic_breaker c))"
proof -
  obtain t1 shrink t2 l t3 where g: "gate_legality i c = (Inr (), t1)" "gate_risk D i c = (Inr shrink, t2)"
    "s = effective_size i shrink" "p = rq_price (si_request i)"
    using accepted_stages[OF assms] by metis
  have "order_intent_validate (order_intent_of i) = Inr ()"
    using g(1) by (auto simp: gate_legality_def refuse_def split: sum.splits)
  hence v: "0 < p" "p \<le> 1" using g(4) by (auto simp: order_intent_validate_ok order_intent_of_def)
  have r: "rq_side (si_request i) = Buy \<longrightarrow> rq_token_id (si_request i) \<in> set (ic_round_tokens c)"
    using g(1) by (auto simp: gate_legality_def refuse_def split: sum.splits if_splits)
  have s: "s \<le> rq_size (si_request i)"
    using gate_risk_shrink[OF g(2)] judge_reduce_le by (fastforce simp: g(3) effective_size_def)
  have k: "\<not> rg_killed (ic_risk c)" if "\<not> is_close i" "check_with_equity D (ic_risk c) (si_request i) (ic_equity c) = Inr ()"
    using that by (auto simp: check_with_equity_def Let_def is_close_def closes_exposure_def split: if_splits)
  show ?thesis using v r s k gate_risk_open[OF g(2)] g(4) by blast
qed

text \<open>C34. An accepted BUY can be paid for: reserving its approved size at its price, under the id the
  submission path will use, succeeds on the ledger arbitration leaves behind.\<close>

theorem arbitration_acceptance_reserves:
  assumes "accepted (ao_decision (snd (process_intent D i c))) = Some (s, p, b)"
    and "rq_side (si_request i) = Buy" "map_of (l_reservations (ic_ledger c)) PROBE = None"
  shows "snd (reserve oid (p * s) (fst (process_intent D i c))) = Inr ()"
proof -
  obtain t1 shrink t2 l t3 where g: "gate_reservation i shrink (ic_ledger c) = (l, Inr (), t3)"
    "s = effective_size i shrink" "p = rq_price (si_request i)"
    using accepted_stages[OF assms(1)] by metis
  have "snd (reserve PROBE (p * s) (ic_ledger c)) = Inr ()"
    using g assms(2) by (auto simp: gate_reservation_def refuse_def Let_def split: prod.splits sum.splits)
  hence "\<not> p * s < 0" "\<not> available (ic_ledger c) < p * s"
    using assms(3) by (auto simp: reserve_def split: if_splits)
  thus ?thesis unfolding arbitration_keeps_ledger[OF assms(3)] by (simp add: reserve_def)
qed


section \<open>The trace\<close>

fun gate_rank :: "gate_id \<Rightarrow> nat" where
  "gate_rank Legality = 1" | "gate_rank RiskGateId = 2" | "gate_rank Reservation = 3" | "gate_rank Physics = 4"

definition traced :: "gate_id \<Rightarrow> (arb_decision + 'a) \<times> gate_trace list \<Rightarrow> bool" where
  "traced g r \<longleftrightarrow> (case r of
     (Inr _, ts) \<Rightarrow> ts \<noteq> [] \<and> (\<forall>t \<in> set ts. gt_gate t = g \<and> gt_outcome t \<noteq> GoReject)
   | (Inl d, ts) \<Rightarrow> \<exists>init why. d = ArbRejected (ad_reason d) g why \<and> ts = init @ [trace g GoReject why] \<and>
       (\<forall>t \<in> set init. gt_gate t = g \<and> gt_outcome t \<noteq> GoReject))"

lemma traced_refuse: "traced g (refuse r g d)"
  by (auto simp: traced_def refuse_def)

lemma traced_pass: "traced g (Inr x, [trace g GoPass d])"
  by (simp add: traced_def trace_def)

lemma traced_cons:
  assumes "traced g (r, ts)" "gt_gate t = g" "gt_outcome t \<noteq> GoReject"
  shows "traced g (r, t # ts)"
  using assms by (cases r) (auto simp: traced_def intro: exI[of _ "t # _"])

lemma legality_traced: "traced Legality (gate_legality i c)"
  by (auto simp: gate_legality_def traced_refuse traced_pass split: sum.splits)

lemma systemic_cases:
  "gate_systemic D i c = (Inr None, []) \<or> traced RiskGateId (gate_systemic D i c)"
  by (auto simp: gate_systemic_def traced_refuse traced_pass traced_def trace_def Let_def refuse_def
      split: entry_judgment.splits)

lemma risk_traced: "traced RiskGateId (gate_risk D i c)"
proof -
  have sys: "traced RiskGateId (r, trace RiskGateId GoPass m # ts)" if "gate_systemic D i c = (r, ts)" for r ts m
    using systemic_cases[of D i c] traced_cons[of RiskGateId r ts "trace RiskGateId GoPass m"] that
    by (auto simp: trace_def traced_def)
  show ?thesis
    by (auto simp: gate_risk_def traced_refuse traced_pass sys Let_def split: option.splits sum.splits prod.splits)
qed

lemma reservation_traced: "traced Reservation (snd (gate_reservation i s l))"
  by (auto simp: gate_reservation_def traced_refuse traced_pass Let_def split: prod.splits sum.splits)

lemma physics_traced: "traced Physics (Inr (), snd (gate_physics D i c))"
  by (auto simp: gate_physics_def traced_pass Let_def)

text \<open>A trace list that tells the decision.\<close>

definition tells :: "arb_decision \<Rightarrow> gate_trace list \<Rightarrow> bool" where
  "tells d ts \<longleftrightarrow> ts \<noteq> [] \<and> sorted (map (gate_rank \<circ> gt_gate) ts) \<and> (\<forall>t \<in> set (butlast ts). gt_outcome t \<noteq> GoReject) \<and>
     (case accepted d of
        None \<Rightarrow> last ts = trace (ad_gate d) GoReject (ad_detail d)
      | Some _ \<Rightarrow> gt_outcome (last ts) \<noteq> GoReject \<and>
          gt_gate ` set ts = {Legality, RiskGateId, Reservation, Physics})"

definition clean_before :: "nat \<Rightarrow> gate_trace list \<Rightarrow> bool" where
  "clean_before n ts \<longleftrightarrow> sorted (map (gate_rank \<circ> gt_gate) ts) \<and>
     (\<forall>t \<in> set ts. gate_rank (gt_gate t) \<le> n \<and> gt_outcome t \<noteq> GoReject)"

lemma clean_append:
  assumes "clean_before n ts" "\<forall>t \<in> set us. gt_gate t = g \<and> gt_outcome t \<noteq> GoReject" "n \<le> gate_rank g"
  shows "clean_before (gate_rank g) (ts @ us)"
proof -
  have "sorted (map (gate_rank \<circ> gt_gate) us)"
    using assms(2) by (induction us) auto
  thus ?thesis using assms by (auto simp: clean_before_def sorted_append)
qed

lemma tells_refusal:
  assumes "clean_before n ts" "traced g (Inl d, us)" "n \<le> gate_rank g"
  shows "tells d (ts @ us)"
proof -
  obtain init why where d: "d = ArbRejected (ad_reason d) g why" "us = init @ [trace g GoReject why]"
    "\<forall>t \<in> set init. gt_gate t = g \<and> gt_outcome t \<noteq> GoReject"
    using assms(2) by (auto simp: traced_def)
  have c: "clean_before (gate_rank g) (ts @ init)" by (rule clean_append[OF assms(1) d(3) assms(3)])
  have a: "accepted d = None" "ad_gate d = g" "ad_detail d = why" by (subst d(1), simp)+
  show ?thesis using c by (auto simp: tells_def a d(2) clean_before_def sorted_append trace_def butlast_append)
qed

text \<open>. The audit can be read back: the traces are never empty and come in the order of the gates. A
  refusal is the last trace and the only refusing one, and it names the gate and the reason of the
  decision; an accepted suggestion has passed all four gates, none of them refusing.\<close>

theorem arbitration_trace_tells:
  "tells (ao_decision (snd (process_intent D i c))) (ao_gates (snd (process_intent D i c)))"
proof -
  obtain r1 t1 where g1: "gate_legality i c = (r1, t1)" by fastforce
  obtain r2 t2 where g2: "gate_risk D i c = (r2, t2)" by fastforce
  note T1 = legality_traced[of i c, unfolded g1] and T2 = risk_traced[of D i c, unfolded g2]
  have c0: "clean_before 0 []" by (simp add: clean_before_def)
  have pass: "clean_before n ts \<Longrightarrow> traced g (Inr x, us) \<Longrightarrow> n \<le> gate_rank g \<Longrightarrow> clean_before (gate_rank g) (ts @ us)"
    for n ts g us and x :: 'z by (rule clean_append) (auto simp: traced_def)
  show ?thesis
  proof (cases r1)
    case (Inl d)
    thus ?thesis using tells_refusal[OF c0 T1[unfolded Inl]] g1 by (simp add: process_intent_def)
  next
    case ok1: (Inr x1)
    have c1: "clean_before 1 t1" using clean_append[OF c0, of t1 Legality] T1 by (auto simp: ok1 traced_def)
    show ?thesis
    proof (cases r2)
      case (Inl d)
      thus ?thesis using tells_refusal[OF c1 T2[unfolded Inl]] g1 g2 ok1 by (simp add: process_intent_def)
    next
      case ok2: (Inr shrink)
      obtain l r3 t3 where g3: "gate_reservation i shrink (ic_ledger c) = (l, r3, t3)" by (metis prod_cases3)
      note T3 = reservation_traced[of i shrink "ic_ledger c", unfolded g3 snd_conv]
      have c2: "clean_before 2 (t1 @ t2)" using clean_append[OF c1, of t2 RiskGateId] T2 by (auto simp: ok2 traced_def)
      show ?thesis
      proof (cases r3)
        case (Inl d)
        thus ?thesis using tells_refusal[OF c2 T3[unfolded Inl]] g1 g2 g3 ok1 ok2 by (simp add: process_intent_def)
      next
        case ok3: (Inr x3)
        have c3: "clean_before 3 ((t1 @ t2) @ t3)" using clean_append[OF c2, of t3 Reservation] T3 by (auto simp: ok3 traced_def)
        let ?t4 = "snd (gate_physics D i c)"
        have p4: "?t4 \<noteq> []" "\<forall>t \<in> set ?t4. gt_gate t = Physics \<and> gt_outcome t \<noteq> GoReject"
          using physics_traced[of D i c] by (auto simp: traced_def)
        have c4: "clean_before 4 (((t1 @ t2) @ t3) @ ?t4)" using clean_append[OF c3, of ?t4 Physics] p4 by simp
        have ids: "gt_gate ` set t1 = {Legality}" "gt_gate ` set t2 = {RiskGateId}" "gt_gate ` set t3 = {Reservation}"
          "gt_gate ` set ?t4 = {Physics}"
          using T1 T2 T3 p4 by (simp_all add: ok1 ok2 ok3 traced_def image_constant_conv)
        have acc: "accepted (final_decision i shrink b) \<noteq> None" for b
          by (auto simp: final_decision_def Let_def split: option.splits)
        have po: "snd (process_intent D i c) =
          \<lparr>ao_decision = final_decision i shrink (fst (gate_physics D i c)), ao_gates = ((t1 @ t2) @ t3) @ ?t4\<rparr>"
          using g1 g2 g3 ok1 ok2 ok3 by (simp add: process_intent_def split: prod.splits)
        show ?thesis using c4 acc[of "fst (gate_physics D i c)"] p4 ids
          unfolding po tells_def clean_before_def by (auto simp: image_Un dest!: in_set_butlastD)
      qed
    qed
  qed
qed

section \<open>Holders and the single-loss cap\<close>

text \<open>The declaration of holding to settlement reaches the last gate only.\<close>

lemma systemic_ignores_holding:
  "gate_systemic D i (c\<lparr>ic_strategy_holds_to_settlement := x\<rparr>) = gate_systemic D i c"
  by (simp add: gate_systemic_def bound_stop_pct_def Let_def split: entry_judgment.splits)

lemma gates_ignore_holding:
  "gate_legality i (c\<lparr>ic_strategy_holds_to_settlement := x\<rparr>) = gate_legality i c"
  "gate_risk D i (c\<lparr>ic_strategy_holds_to_settlement := x\<rparr>) = gate_risk D i c"
  by (auto simp: gate_legality_def split: sum.splits)
    (simp add: gate_risk_def systemic_ignores_holding Let_def split: option.splits sum.splits)

lemma holding_decision:
  "accepted (ao_decision (snd (process_intent D i (c\<lparr>ic_strategy_holds_to_settlement := x\<rparr>)))) =
     map_option (\<lambda>(s, p, b). (s, p, fst (gate_physics D i (c\<lparr>ic_strategy_holds_to_settlement := x\<rparr>))))
       (accepted (ao_decision (snd (process_intent D i c))))"
proof -
  have fd: "accepted (final_decision i sh b) = Some (effective_size i sh, rq_price (si_request i), b)" for sh b
    by (auto simp: final_decision_def effective_size_def Let_def split: option.splits)
  show ?thesis unfolding process_intent_def gates_ignore_holding
    by (auto simp: fd split: prod.splits sum.splits dest: gate_fails(1) gate_fails(3) gate_risk_fails)
qed

text \<open>A BUY of 100 shares at 0.50 by a strategy that holds to settlement, on an account whose single-loss
  cap is 10 USD, with the shipped exit configuration.\<close>

definition holder_request :: order_request where
  "holder_request = \<lparr>rq_token_id = ''t'', rq_condition_id = ''c'', rq_side = Buy, rq_mode = PolTaker, rq_price = 1/2,
     rq_size = 100, rq_internal_key = ''k'', rq_strategy = ''almach'', rq_asset = ''BTC'', rq_direction = ''up'',
     rq_round_slot = 1, rq_account_id = default_account_id\<rparr>"

definition holder_ctx :: "bool \<Rightarrow> intent_ctx" where
  "holder_ctx h = \<lparr>ic_round_tokens = [''t''],
     ic_risk = risk_gate_new (risk_config_default\<lparr>rk_systemic :=
       systemic_default\<lparr>al_max_single_loss_usd := bound_new 10 LsEnv\<rparr>\<rparr>),
     ic_breaker = breakers_new 3 60, ic_ledger = ledger_new\<lparr>l_balance := 100\<rparr>, ic_exit_cfg = exit_config_default,
     ic_time_left_sec = 600, ic_now_ms = 0, ic_equity = 100, ic_account_entry_block = None,
     ic_strategy_holds_to_settlement = h\<rparr>"

definition worst_loss :: "decimal \<times> decimal \<times> physics_binding \<Rightarrow> decimal" where
  "worst_loss d = (case d of (s, p, b) \<Rightarrow> s * (p - pb_stop_price b))"

lemma holder_accepted:
  "map_option worst_loss (accepted (ao_decision (snd (process_intent exact_dec \<lparr>si_request = holder_request\<rparr> (holder_ctx True))))) =
     Some 25"
  by code_simp

text \<open>. The single-loss cap does not see the stop a holder is bound to. Declaring that a strategy holds
  to settlement changes nothing in what arbitration accepts nor in the size it approves, only the stop
  it binds; so an entry capped to lose at most 10 USD is accepted in full and bound, in the same
  decision, to a stop that loses 25.\<close>

theorem arbitration_holder_escapes_loss_cap:
  "map_option (\<lambda>(s, p, b). (s, p)) (accepted (ao_decision (snd (process_intent D i (c\<lparr>ic_strategy_holds_to_settlement := True\<rparr>))))) =
     map_option (\<lambda>(s, p, b). (s, p)) (accepted (ao_decision (snd (process_intent D i (c\<lparr>ic_strategy_holds_to_settlement := False\<rparr>))))) \<and>
   bd_value (al_max_single_loss_usd (rk_systemic (rg_config (ic_risk (holder_ctx True))))) = 10 \<and>
   map_option worst_loss (accepted (ao_decision (snd (process_intent exact_dec \<lparr>si_request = holder_request\<rparr> (holder_ctx True))))) =
     Some 25"
  by (simp add: holding_decision option.map_comp comp_def split_def holder_accepted)
    (simp add: holder_ctx_def risk_gate_new_def bound_new_def)


section \<open>Witnesses\<close>

theorem breakers_retract_undoes_record_witness:
  "breakers_view (retract ''s'' (-5) (consecutive_losses ''s'' (breakers_new 1 60))
     (fst (record_with ''s'' 1 60 (-5) 1000 (breakers_new 1 60)))) = breakers_view (breakers_new 1 60)"
  using breakers_retract_undoes_record[where bs = "breakers_new 1 60" and s = "''s''" and now = 1000 and n = 1 and cd = 60
    and pnl = "-5" and t = "''s''"]
  by (simp add: breakers_new_def)

definition tripped_breakers :: loss_breakers where
  "tripped_breakers = (breakers_new 1 60)\<lparr>bs_per_strategy := [(''s'', \<lparr>lb_max_consecutive_losses = 1,
     lb_cooldown_sec = 60, lb_consecutive_losses = 1, lb_halted_until_ms = 61000\<rparr>)]\<rparr>"

theorem breakers_retract_keeps_extended_halt_witness:
  "halted_until_ms ''s'' tripped_breakers <
     halted_until_ms ''s'' (retract ''s'' (-5) (consecutive_losses ''s'' tripped_breakers)
       (fst (record_close ''s'' (-5) 2000 tripped_breakers)))"
  using breakers_retract_keeps_extended_halt[where bs = tripped_breakers and s = "''s''" and now = 2000 and pnl = "-5"]
  by (simp add: tripped_breakers_def breakers_new_def)

definition capped_limits :: account_risk_limits where
  "capped_limits = systemic_default\<lparr>al_max_single_loss_usd := bound_new 3 LsEnv\<rparr>"

lemma capped_judgment: "judge_entry exact_dec capped_limits (1/2) 100 12 = EjReduce 50 ''max_single_loss_usd''"
  by code_simp

theorem risk_sizing_sound_witness:
  "50 * loss_per_share exact_dec (1/2) 12 \<le> 3 \<and> 3 < (50 + 1) * loss_per_share exact_dec (1/2) 12"
  using risk_sizing_sound[where D = exact_dec and limits = capped_limits and price = "1/2" and stop = 12 and sz = 100] capped_judgment
  by (simp add: divides_exactly_def)
    (simp add: capped_limits_def systemic_default_def bound_new_def bound_off_def is_enabled_def)

lemma holder_probe_free: "map_of (l_reservations (ic_ledger (holder_ctx h))) PROBE = None"
  by (simp add: holder_ctx_def ledger_new_def)

lemma plain_accepted:
  "accepted (ao_decision (snd (process_intent exact_dec \<lparr>si_request = holder_request\<rparr> (holder_ctx False)))) =
     Some (100, 1/2, \<lparr>pb_stop_price = 11/25, pb_force_exit_sec = 0,
       pb_ladder = [\<lparr>ls_at_pct = 100, ls_close_ratio = 1, ls_move_stop_to = None\<rparr>]\<rparr>)"
  by code_simp

theorem arbitration_keeps_ledger_witness:
  "fst (process_intent exact_dec \<lparr>si_request = holder_request\<rparr> (holder_ctx False)) = ledger_new\<lparr>l_balance := 100\<rparr>"
  using arbitration_keeps_ledger[OF holder_probe_free, of exact_dec "\<lparr>si_request = holder_request\<rparr>" False]
  by (simp add: holder_ctx_def)

theorem arbitration_accepts_soundly_witness:
  "rq_token_id holder_request \<in> set (ic_round_tokens (holder_ctx False)) \<and> \<not> rg_killed (ic_risk (holder_ctx False))"
proof -
  have "\<not> is_close \<lparr>si_request = holder_request\<rparr>" "rq_side holder_request = Buy" by code_simp+
  thus ?thesis using arbitration_accepts_soundly[OF plain_accepted] by simp
qed

theorem arbitration_acceptance_reserves_witness:
  "snd (reserve ''order-1'' (1/2 * 100)
     (fst (process_intent exact_dec \<lparr>si_request = holder_request\<rparr> (holder_ctx False)))) = Inr ()"
  by (rule arbitration_acceptance_reserves[OF plain_accepted _ holder_probe_free]) (simp add: holder_request_def)

end
