(* ===== verification/Trim.thy ===== *)
theory Trim
  imports StdLib "HOL-Library.Sublist"
begin

text \<open>
  \<open>str::trim\<close> of the Rust standard library on the UTF-8 bytes of a string, and what it leaves alone.
\<close>

section \<open>White space\<close>

text \<open>The UTF-8 byte sequences of the characters with the Unicode property \<open>White_Space\<close>, which
  \<open>str::trim\<close> strips at both ends.\<close>

definition white_space :: "string list" where
  "white_space = map (map char_of) ([[9], [10], [11], [12], [13], [32], [194, 133], [194, 160],
     [225, 154, 128]] @ map (\<lambda>n. [226, 128, n]) ([128..<139] @ [168, 169, 175]) @
     [[226, 129, 159], [227, 128, 128 :: nat]])"

lemma white_space_bytes [code]:
  "white_space =
    [[CHR 0x09], [CHR 0x0A], [CHR 0x0B], [CHR 0x0C], [CHR 0x0D], [CHR 0x20], [CHR 0xC2, CHR 0x85], [CHR
     0xC2, CHR 0xA0], [CHR 0xE1, CHR 0x9A, CHR 0x80], [CHR 0xE2, CHR 0x80, CHR 0x80], [CHR 0xE2, CHR
     0x80, CHR 0x81], [CHR 0xE2, CHR 0x80, CHR 0x82], [CHR 0xE2, CHR 0x80, CHR 0x83], [CHR 0xE2, CHR
     0x80, CHR 0x84], [CHR 0xE2, CHR 0x80, CHR 0x85], [CHR 0xE2, CHR 0x80, CHR 0x86], [CHR 0xE2, CHR
     0x80, CHR 0x87], [CHR 0xE2, CHR 0x80, CHR 0x88], [CHR 0xE2, CHR 0x80, CHR 0x89], [CHR 0xE2, CHR
     0x80, CHR 0x8A], [CHR 0xE2, CHR 0x80, CHR 0xA8], [CHR 0xE2, CHR 0x80, CHR 0xA9], [CHR 0xE2, CHR
     0x80, CHR 0xAF], [CHR 0xE2, CHR 0x81, CHR 0x9F], [CHR 0xE3, CHR 0x80, CHR 0x80]]"
  by code_simp

lemma white_space_nonempty: "w \<in> set white_space \<Longrightarrow> w \<noteq> []"
  by (auto simp: white_space_def)

lemma trim_shorter:
  assumes "List.find (\<lambda>w. prefix w s) ws = Some w" and "[] \<notin> set ws"
  shows "length (drop (length w) s) < length s"
  using find_Some_prop [OF assms(1)] assms(2) by (cases w; cases s) auto

function trim_start :: "string \<Rightarrow> string" where
  "trim_start s = (case List.find (\<lambda>w. prefix w s) white_space of
     None \<Rightarrow> s | Some w \<Rightarrow> trim_start (drop (length w) s))"
  by auto

termination
  by (relation "measure length") (use white_space_nonempty trim_shorter in auto)

function trim_rev :: "string \<Rightarrow> string" where
  "trim_rev s = (case List.find (\<lambda>w. prefix w s) (map rev white_space) of
     None \<Rightarrow> s | Some w \<Rightarrow> trim_rev (drop (length w) s))"
  by auto

termination
  by (relation "measure length") (use white_space_nonempty trim_shorter [of _ "map rev white_space"] in auto)

declare trim_start.simps [simp del] trim_rev.simps [simp del]

definition str_trim :: "string \<Rightarrow> string" where
  "str_trim s = rev (trim_rev (rev (trim_start s)))"

section \<open>Laws\<close>

text \<open>A text that begins and ends with a visible ASCII character is left alone; a carriage return at the
  end is not seen through a trim.\<close>

definition visible :: "char \<Rightarrow> bool" where
  "visible c \<longleftrightarrow> (let n = of_char c :: nat in 33 \<le> n \<and> n \<le> 126)"

lemma white_space_invisible:
  "\<forall>w \<in> set white_space. w \<noteq> [] \<and> \<not> visible (hd w) \<and> \<not> visible (last w)"
  by code_simp

lemma no_white_prefix:
  assumes "\<forall>w \<in> set ws. w \<noteq> [] \<and> \<not> visible (hd w)" "s \<noteq> [] \<Longrightarrow> visible (hd s)"
  shows "List.find (\<lambda>w. prefix w s) ws = None"
  unfolding find_None_iff
proof
  assume "\<exists>w. w \<in> set ws \<and> prefix w s"
  then obtain w where w: "w \<in> set ws" "prefix w s" by blast
  then have "s \<noteq> []" "hd s = hd w" using assms(1) by (auto simp: prefix_def hd_append)
  then show False using assms w by auto
qed

lemma trim_start_visible: "(s \<noteq> [] \<Longrightarrow> visible (hd s)) \<Longrightarrow> trim_start s = s"
  using no_white_prefix [of white_space s] white_space_invisible by (subst trim_start.simps) auto

lemma trim_rev_visible:
  assumes "s \<noteq> [] \<Longrightarrow> visible (hd s)"
  shows "trim_rev s = s"
proof -
  have "\<forall>w \<in> set (map rev white_space). w \<noteq> [] \<and> \<not> visible (hd w)"
    using white_space_invisible by (auto simp: hd_rev)
  then show ?thesis using no_white_prefix [of "map rev white_space" s] assms by (subst trim_rev.simps) auto
qed

lemma trim_visible: "(s \<noteq> [] \<Longrightarrow> visible (hd s)) \<Longrightarrow> (s \<noteq> [] \<Longrightarrow> visible (last s)) \<Longrightarrow> str_trim s = s"
  using trim_rev_visible [of "rev s"] by (simp add: str_trim_def trim_start_visible hd_rev)

definition CR :: char where "CR = CHR 0x0D"

lemma white_space_CR: "\<forall>w \<in> set white_space. last w = CR \<longrightarrow> w = [CR]"
  by code_simp

lemma prefix_before_CR:
  assumes "s \<noteq> []" "w \<in> set white_space"
  shows "prefix w (s @ [CR]) \<longleftrightarrow> prefix w s"
proof
  assume "prefix w (s @ [CR])"
  then have "w = s @ [CR] \<or> prefix w s" by (simp only: prefix_snoc)
  moreover have "w \<noteq> s @ [CR]"
  proof
    assume w: "w = s @ [CR]"
    then have "last w = CR" by simp
    then have "w = [CR]" using assms(2) white_space_CR by blast
    then show False using w assms(1) by simp
  qed
  ultimately show "prefix w s" by blast
qed (rule prefix_prefix)

lemma find_cong: "(\<And>x. x \<in> set xs \<Longrightarrow> P x = Q x) \<Longrightarrow> List.find P xs = List.find Q xs"
  by (induction xs) auto

lemma find_only:
  assumes "a \<in> set xs" "P a" "\<And>x. x \<in> set xs \<Longrightarrow> P x \<Longrightarrow> x = a"
  shows "List.find P xs = Some a"
proof (cases "List.find P xs")
  case None
  then have "\<not> (\<exists>x. x \<in> set xs \<and> P x)" by (simp only: find_None_iff not_False_eq_True)
  then show ?thesis using assms(1,2) by blast
next
  case (Some x)
  then have "x \<in> set xs" "P x" by (auto simp: find_Some_iff)
  then have "x = a" by (rule assms(3))
  then show ?thesis using Some by simp
qed

lemma trim_start_CR: "trim_start (s @ [CR]) = (if trim_start s = [] then [] else trim_start s @ [CR])"
proof (induction s rule: trim_start.induct)
  case (1 s)
  have nil: "List.find (\<lambda>w. prefix w []) white_space = None"
    using white_space_nonempty by (auto simp: find_None_iff)
  show ?case
  proof (cases "s = []")
    case True
    have "List.find (\<lambda>w. prefix w [CR]) white_space = Some [CR]" by code_simp
    then have "trim_start [CR] = trim_start []" by (subst trim_start.simps) simp
    moreover have "trim_start [] = []" by (subst trim_start.simps) (simp only: nil option.case)
    ultimately show ?thesis using True by simp
  next
    case False
    have same: "List.find (\<lambda>w. prefix w (s @ [CR])) white_space = List.find (\<lambda>w. prefix w s) white_space"
      by (rule find_cong) (rule prefix_before_CR [OF False])
    show ?thesis
    proof (cases "List.find (\<lambda>w. prefix w s) white_space")
      case None
      then show ?thesis using False same by (subst (1 2 3) trim_start.simps) simp
    next
      case (Some w)
      then have "prefix w s" by (auto simp: find_Some_iff)
      then have "drop (length w) (s @ [CR]) = drop (length w) s @ [CR]"
        using prefix_length_le by fastforce
      then have "trim_start (s @ [CR]) = trim_start (drop (length w) s @ [CR])" "trim_start s = trim_start (drop (length w) s)"
        using Some same by (simp_all add: trim_start.simps [of "s @ [CR]"] trim_start.simps [of s])
      then show ?thesis using 1 [OF Some] by simp
    qed
  qed
qed

lemma trim_CR: "str_trim (s @ [CR]) = str_trim s"
proof -
  have "List.find (\<lambda>w. prefix w (CR # r)) (map rev white_space) = Some [CR]" for r
  proof (rule find_only)
    have "[CR] \<in> set white_space" by code_simp
    then show "[CR] \<in> set (map rev white_space)" by force
    show "w = [CR]" if w: "w \<in> set (map rev white_space)" "prefix w (CR # r)" for w
    proof -
      obtain v where v: "v \<in> set white_space" "w = rev v" using w(1) by auto
      then have "v \<noteq> []" using white_space_nonempty by blast
      then have "last v = CR" using w(2) by (cases v rule: rev_cases) (auto simp: v(2))
      then show ?thesis using v white_space_CR by auto
    qed
  qed simp
  then have "trim_rev (CR # r) = trim_rev r" for r by (simp add: trim_rev.simps [of "CR # r"])
  then show ?thesis by (simp add: str_trim_def trim_start_CR)
qed

end
