(* ===== verification/Unified.thy ===== *)
theory Unified
  imports Types Trim
begin

text \<open>
  Cross-venue events: the model and the automatic proposer (\<open>core/bk_contract/src/unified/\<close>, files
  \<open>model.rs\<close>, \<open>matching.rs\<close> and \<open>mod.rs\<close>) and the operator's confirmation ledger
  (\<open>core/market_api/src/unified/ledger.rs\<close>). Similarities are doubles (\<open>StdLib\<close>). A string is the list of
  its UTF-8 bytes. The JSON encoder and decoder of the ledger file are arguments, and the three calls
  that write it (create the directory, write the temporary file, rename it) are a triple of answers.
\<close>

section \<open>Text\<close>

fun split_words :: "(char \<Rightarrow> bool) \<Rightarrow> string \<Rightarrow> string \<Rightarrow> string list" where
  "split_words sep acc [] = [acc]"
| "split_words sep acc (c # s) = (if sep c then acc # split_words sep [] s else split_words sep (acc @ [c]) s)"

definition tokens :: "string \<Rightarrow> string set" where
  "tokens text = set (map (map ascii_lowercase)
     (filter (\<lambda>w. w \<noteq> []) (split_words (\<lambda>c. \<not> alnum_byte c) [] text)))"

section \<open>The model\<close>

datatype venue = Polymarket | Kalshi | PredictFun | PolySimulator

fun venue_as_str :: "venue \<Rightarrow> string" where
  "venue_as_str Polymarket = ''polymarket''"
| "venue_as_str Kalshi = ''kalshi''"
| "venue_as_str PredictFun = ''predictfun''"
| "venue_as_str PolySimulator = ''polysimulator''"

fun venue_index :: "venue \<Rightarrow> nat" where
  "venue_index Polymarket = 0"
| "venue_index Kalshi = 1"
| "venue_index PredictFun = 2"
| "venue_index PolySimulator = 3"

lemma venue_index_inj [simp]: "venue_index a = venue_index b \<longleftrightarrow> a = b"
  by (cases a; cases b) auto

instantiation venue :: linorder
begin

definition less_eq_venue :: "venue \<Rightarrow> venue \<Rightarrow> bool" where
  "less_eq_venue a b \<longleftrightarrow> venue_index a \<le> venue_index b"

definition less_venue :: "venue \<Rightarrow> venue \<Rightarrow> bool" where
  "less_venue a b \<longleftrightarrow> venue_index a < venue_index b"

instance
  by standard (auto simp: less_eq_venue_def less_venue_def)

end

datatype settlement_source = SrcChainlink | SrcCfBrti | SrcUma | SrcOfficialStatement | SrcUnknown

datatype listing_status = LsActive | LsPaused | LsHalted | LsExpired | LsDelisted

record platform_listing =
  pl_venue :: venue
  pl_condition_id :: string
  pl_up_token :: token_id
  pl_down_token :: token_id
  pl_asset :: "string option"
  pl_title :: string
  pl_rules :: string
  pl_source :: settlement_source
  pl_expires_at_ms :: int
  pl_status :: listing_status

datatype discrepancy_kind = DkSettlementSource | DkSettlementRules | DkExpiryGap

datatype event_status = EvPaired | EvSingleLegAvailable

record unified_event =
  ue_id :: string
  ue_title :: string
  ue_rules :: string
  ue_source :: settlement_source
  ue_listings :: "(venue \<times> platform_listing) list"
  ue_discrepancies :: "discrepancy_kind list"
  ue_status :: event_status

definition event_listings :: "unified_event \<Rightarrow> platform_listing list" where
  "event_listings e = map snd (ue_listings e)"

datatype mapping_action = MaConfirmed | MaRevoked

record mapping_audit_entry =
  ma_at_ms :: int
  ma_actor :: string
  ma_action :: mapping_action
  ma_event_id :: string
  ma_listing_count :: nat
  ma_discrepancies :: "discrepancy_kind list"

section \<open>Matching\<close>

definition MIN_TITLE_SIMILARITY :: rat where "MIN_TITLE_SIMILARITY = f64_round (70 / 100)"
definition MIN_RULES_SIMILARITY :: rat where "MIN_RULES_SIMILARITY = f64_round (25 / 100)"
definition MIN_RULES_JACCARD_PROVIDER_AGREED :: rat where
  "MIN_RULES_JACCARD_PROVIDER_AGREED = f64_round (15 / 100)"
definition MIN_CANDIDATE_SCORE :: rat where "MIN_CANDIDATE_SCORE = f64_round (80 / 100)"
definition DEFAULT_EXPIRY_WINDOW_MS :: int where "DEFAULT_EXPIRY_WINDOW_MS = 10 * 60 * 1000"
definition EXPIRY_HARD_GAP_MS :: int where "EXPIRY_HARD_GAP_MS = 6 * 60 * 60 * 1000"

definition PROVIDER_TOKENS :: "string list" where
  "PROVIDER_TOKENS = [''binance'', ''btcusdt'', ''ethusdt'', ''solusdt'', ''xbtusd'', ''coinbase'',
     ''kraken'', ''bitstamp'', ''bybit'', ''okx'', ''chainlink'', ''brti'', ''pyth'', ''cme'', ''nasdaq'']"

definition provider_set :: "string set \<Rightarrow> string set" where
  "provider_set ts = Set.filter (\<lambda>t. t \<in> set PROVIDER_TOKENS) ts"

definition jaccard :: "string set \<Rightarrow> string set \<Rightarrow> rat" where
  "jaccard a b = (if a = {} \<or> b = {} then 0 else
     let i = card (a \<inter> b) in
     if i = 0 then 0 else
     let u = card a + card b - i in f64_round (of_nat i / of_nat u))"

definition rules_conflict :: "string \<Rightarrow> string \<Rightarrow> bool" where
  "rules_conflict a b = (let ta = tokens a; tb = tokens b in
     if ta = {} \<and> tb = {} then False else
     let pa = provider_set ta; pb = provider_set tb in
     if pa \<noteq> {} \<and> pb \<noteq> {} \<and> pa \<inter> pb = {} then True
     else if pa \<noteq> {} \<and> pb \<noteq> {} then jaccard ta tb < MIN_RULES_JACCARD_PROVIDER_AGREED
     else jaccard ta tb < MIN_RULES_SIMILARITY)"

definition expiry_factor :: "int \<Rightarrow> int \<Rightarrow> rat" where
  "expiry_factor delta window = (if window \<le> 0 then 0 else
     max 0 (min 1 (f64_round (1 - f64_round
       (f64_round (of_int \<bar>delta\<bar>) / f64_round (of_int window))))))"

definition assets_compatible :: "platform_listing \<Rightarrow> platform_listing \<Rightarrow> bool" where
  "assets_compatible a b = (case (pl_asset a, pl_asset b) of
     (Some x, Some y) \<Rightarrow> eq_ignore_ascii_case x y | _ \<Rightarrow> True)"

record match_candidate =
  mc_a :: platform_listing
  mc_b :: platform_listing
  mc_title :: rat
  mc_rules :: rat
  mc_expiry_delta_ms :: int
  mc_score :: rat

definition title_similarity :: "platform_listing \<Rightarrow> platform_listing \<Rightarrow> rat" where
  "title_similarity a b = jaccard (tokens (pl_title a)) (tokens (pl_title b))"

definition candidate_score :: "rat \<Rightarrow> rat \<Rightarrow> rat \<Rightarrow> rat" where
  "candidate_score t r e = f64_round (f64_round
     (f64_round (f64_round (65 / 100) * t) + f64_round (f64_round (15 / 100) * r)) +
      f64_round (f64_round (20 / 100) * e))"

text \<open>The body of the double loop: the candidate of one pair, or \<open>continue\<close>.\<close>

definition match_pair :: "int \<Rightarrow> platform_listing \<Rightarrow> platform_listing \<Rightarrow> match_candidate option" where
  "match_pair window a b =
    (if pl_venue a = pl_venue b then None
     else if \<not> assets_compatible a b then None
     else let ts = title_similarity a b in
       if ts < MIN_TITLE_SIMILARITY then None
       else let delta = \<bar>pl_expires_at_ms a - pl_expires_at_ms b\<bar> in
         if delta > window then None
         else let rs = jaccard (tokens (pl_rules a)) (tokens (pl_rules b));
             score = candidate_score ts rs (expiry_factor delta window) in
           if score < MIN_CANDIDATE_SCORE then None
           else Some \<lparr>mc_a = a, mc_b = b, mc_title = ts, mc_rules = rs, mc_expiry_delta_ms = delta,
                      mc_score = score\<rparr>)"

definition candidate_key :: "match_candidate \<Rightarrow> rat \<times> string \<times> string" where
  "candidate_key c = (- mc_score c, pl_condition_id (mc_a c), pl_condition_id (mc_b c))"

definition candidates :: "platform_listing list \<Rightarrow> platform_listing list \<Rightarrow> int \<Rightarrow> match_candidate list" where
  "candidates side_a side_b window =
    sort_key candidate_key (concat (map (\<lambda>a. List.map_filter (match_pair window a) side_b) side_a))"

section \<open>Derived fields and the hedge verdict\<close>

definition source_equal :: "settlement_source \<Rightarrow> settlement_source \<Rightarrow> bool" where
  "source_equal a b = (if a = SrcUnknown \<or> b = SrcUnknown then False else a = b)"

definition rules_disagree :: "string \<Rightarrow> string \<Rightarrow> bool" where
  "rules_disagree a b = (let ta = str_trim a; tb = str_trim b in
     if ta = [] \<and> tb = [] then False
     else if ta = [] \<or> tb = [] then True
     else rules_conflict ta tb)"

definition push_new :: "'a \<Rightarrow> 'a list \<Rightarrow> 'a list" where
  "push_new k ks = (if k \<in> set ks then ks else ks @ [k])"

definition compare_listing ::
  "platform_listing \<Rightarrow> platform_listing \<Rightarrow> discrepancy_kind list \<Rightarrow> discrepancy_kind list" where
  "compare_listing f l d0 =
    (let d1 = (if \<not> source_equal (pl_source f) (pl_source l) then push_new DkSettlementSource d0 else d0);
         d2 = (if rules_disagree (pl_rules f) (pl_rules l) then push_new DkSettlementRules d1 else d1)
     in if \<bar>pl_expires_at_ms f - pl_expires_at_ms l\<bar> > EXPIRY_HARD_GAP_MS
        then push_new DkExpiryGap d2 else d2)"

definition find_discrepancies :: "platform_listing list \<Rightarrow> discrepancy_kind list" where
  "find_discrepancies ls = (case ls of [] \<Rightarrow> [] | f # os \<Rightarrow> fold (compare_listing f) os [])"

definition revalidate :: "unified_event \<Rightarrow> unified_event" where
  "revalidate e = e\<lparr>ue_discrepancies := find_discrepancies (event_listings e),
     ue_status := (if list_all (\<lambda>l. pl_status l = LsActive) (event_listings e) then EvPaired
                   else EvSingleLegAvailable)\<rparr>"

datatype hedge_verdict = HvAllowed unified_event | HvPseudoHedge unified_event | HvNotHedgeable

definition verdict_for_event :: "unified_event \<Rightarrow> hedge_verdict" where
  "verdict_for_event e = (if ue_discrepancies e \<noteq> [] then HvPseudoHedge e
     else if ue_status e = EvPaired then HvAllowed e else HvNotHedgeable)"

section \<open>The confirmation ledger\<close>

definition MIN_CONFIRM_TITLE_SIMILARITY :: rat where
  "MIN_CONFIRM_TITLE_SIMILARITY = f64_round (70 / 100)"

record ledger_doc =
  ld_version :: nat
  ld_events :: "unified_event list"
  ld_audit :: "mapping_audit_entry list"

record mapping_ledger =
  ml_path :: "string option"
  ml_events :: "(string \<times> unified_event) list"
  ml_audit :: "mapping_audit_entry list"

definition mapping_ledger_new :: mapping_ledger where
  "mapping_ledger_new = \<lparr>ml_path = None, ml_events = [], ml_audit = []\<rparr>"

definition mapping_ledger_at :: "string \<Rightarrow> mapping_ledger \<Rightarrow> mapping_ledger" where
  "mapping_ledger_at p m = m\<lparr>ml_path := Some p\<rparr>"

definition load_from_disk :: "('t \<Rightarrow> ledger_doc option) \<Rightarrow> 't option \<Rightarrow> mapping_ledger \<Rightarrow> mapping_ledger" where
  "load_from_disk dec file m = (case ml_path m of None \<Rightarrow> m | Some _ \<Rightarrow>
    (case file of None \<Rightarrow> m | Some text \<Rightarrow>
      (case dec text of None \<Rightarrow> m
       | Some d \<Rightarrow> m\<lparr>ml_events := foldl (\<lambda>ev e. bt_insert (ue_id e) e ev) (ml_events m) (ld_events d),
                    ml_audit := ld_audit d\<rparr>)))"

definition mapping_ledger_load :: "('t \<Rightarrow> ledger_doc option) \<Rightarrow> string \<Rightarrow> 't option \<Rightarrow> mapping_ledger" where
  "mapping_ledger_load dec path file =
    (let m = load_from_disk dec file (mapping_ledger_at path mapping_ledger_new)
     in m\<lparr>ml_events := map (\<lambda>(k, e). (k, revalidate e)) (ml_events m)\<rparr>)"

definition doc_of :: "mapping_ledger \<Rightarrow> ledger_doc" where
  "doc_of m = \<lparr>ld_version = 1, ld_events = map snd (ml_events m), ld_audit = ml_audit m\<rparr>"

text \<open>The answers of the file system: \<open>create_dir_all\<close>, \<open>write\<close> of the temporary file, \<open>rename\<close>.\<close>

type_synonym persist_io = "bool \<times> bool \<times> bool"

definition mapping_persist ::
  "(ledger_doc \<Rightarrow> 't option) \<Rightarrow> persist_io \<Rightarrow> mapping_ledger \<Rightarrow> 't option \<Rightarrow> 't option" where
  "mapping_persist enc io m file = (case ml_path m of None \<Rightarrow> file | Some _ \<Rightarrow>
    (case enc (doc_of m) of None \<Rightarrow> file
     | Some text \<Rightarrow> (let (dir, tmp, ren) = io in
         if \<not> dir then file else if \<not> tmp then file else if \<not> ren then file else Some text)))"

datatype confirm_error =
    NeedsTwoVenues
  | DuplicateVenue venue
  | TitleTooDissimilar string string rat
  | AssetMismatch string string string string
  | AlreadyMapped venue string string

datatype revoke_error = UnknownEvent string

fun by_venue :: "(venue \<times> platform_listing) list \<Rightarrow> platform_listing list \<Rightarrow>
    confirm_error + (venue \<times> platform_listing) list" where
  "by_venue m [] = Inr m"
| "by_venue m (l # ls) = (if map_of m (pl_venue l) \<noteq> None then Inl (DuplicateVenue (pl_venue l))
     else by_venue (bt_insert (pl_venue l) l m) ls)"

definition pair_refusal :: "platform_listing \<Rightarrow> platform_listing \<Rightarrow> confirm_error option" where
  "pair_refusal x y =
    (if (case (pl_asset x, pl_asset y) of (Some u, Some v) \<Rightarrow> \<not> eq_ignore_ascii_case u v | _ \<Rightarrow> False)
     then Some (AssetMismatch (pl_condition_id x) (pl_condition_id y)
       (case pl_asset x of None \<Rightarrow> [] | Some u \<Rightarrow> u) (case pl_asset y of None \<Rightarrow> [] | Some v \<Rightarrow> v))
     else let sim = title_similarity x y in
       if sim < MIN_CONFIRM_TITLE_SIMILARITY
       then Some (TitleTooDissimilar (pl_condition_id x) (pl_condition_id y) sim) else None)"

fun first_some :: "('a \<Rightarrow> 'b option) \<Rightarrow> 'a list \<Rightarrow> 'b option" where
  "first_some f [] = None"
| "first_some f (x # xs) = (case f x of Some y \<Rightarrow> Some y | None \<Rightarrow> first_some f xs)"

fun pairs_refusal :: "platform_listing list \<Rightarrow> confirm_error option" where
  "pairs_refusal [] = None"
| "pairs_refusal (x # xs) = (case first_some (pair_refusal x) xs of Some e \<Rightarrow> Some e | None \<Rightarrow> pairs_refusal xs)"

fun join_with :: "string \<Rightarrow> string list \<Rightarrow> string" where
  "join_with sep [] = []"
| "join_with sep [s] = s"
| "join_with sep (s # t # ss) = s @ sep @ join_with sep (t # ss)"

definition format_unified_id :: "platform_listing list \<Rightarrow> string" where
  "format_unified_id ls =
    join_with ''|'' (sort (map (\<lambda>l. venue_as_str (pl_venue l) @ '':'' @ pl_condition_id l) ls))"

definition holds_listing :: "venue \<Rightarrow> string \<Rightarrow> unified_event \<Rightarrow> bool" where
  "holds_listing v cid e = (case map_of (ue_listings e) v of None \<Rightarrow> False | Some l \<Rightarrow> pl_condition_id l = cid)"

definition find_by_listing :: "mapping_ledger \<Rightarrow> venue \<Rightarrow> string \<Rightarrow> string option" where
  "find_by_listing m v cid = map_option ue_id (List.find (holds_listing v cid) (map snd (ml_events m)))"

definition mapped_refusal :: "mapping_ledger \<Rightarrow> string \<Rightarrow> platform_listing \<Rightarrow> confirm_error option" where
  "mapped_refusal m i l = (case find_by_listing m (pl_venue l) (pl_condition_id l) of
     None \<Rightarrow> None
   | Some k \<Rightarrow> if k \<noteq> i then Some (AlreadyMapped (pl_venue l) (pl_condition_id l) k) else None)"

definition new_event :: "string \<Rightarrow> string \<Rightarrow> platform_listing list \<Rightarrow> (venue \<times> platform_listing) list \<Rightarrow> unified_event" where
  "new_event i title ls bv = revalidate \<lparr>ue_id = i, ue_title = title,
     ue_rules = (case List.find (\<lambda>r. str_trim r \<noteq> []) (map pl_rules ls) of None \<Rightarrow> [] | Some r \<Rightarrow> r),
     ue_source = (case List.find (\<lambda>s. s \<noteq> SrcUnknown) (map pl_source ls) of None \<Rightarrow> SrcUnknown | Some s \<Rightarrow> s),
     ue_listings = bv, ue_discrepancies = [], ue_status = EvPaired\<rparr>"

definition confirm_gate :: "mapping_ledger \<Rightarrow> platform_listing list \<Rightarrow> confirm_error + (venue \<times> platform_listing) list" where
  "confirm_gate m ls =
    (if length ls < 2 then Inl NeedsTwoVenues
     else case by_venue [] ls of
       Inl e \<Rightarrow> Inl e
     | Inr bv \<Rightarrow> (case pairs_refusal (map snd bv) of
         Some e \<Rightarrow> Inl e
       | None \<Rightarrow> (case first_some (mapped_refusal m (format_unified_id ls)) ls of
           Some e \<Rightarrow> Inl e | None \<Rightarrow> Inr bv)))"

text \<open>The ledger with the contents of its file.\<close>

type_synonym 't mapping_store = "mapping_ledger \<times> 't option"

definition confirm :: "(ledger_doc \<Rightarrow> 't option) \<Rightarrow> persist_io \<Rightarrow> string \<Rightarrow> string \<Rightarrow> platform_listing list \<Rightarrow> int \<Rightarrow>
    't mapping_store \<Rightarrow> 't mapping_store \<times> (confirm_error + unified_event)" where
  "confirm enc io title actor ls at_ms s = (let (m, file) = s in
    (case confirm_gate m ls of
       Inl e \<Rightarrow> (s, Inl e)
     | Inr bv \<Rightarrow>
         (let i = format_unified_id ls; e = new_event i title ls bv;
              m' = m\<lparr>ml_events := bt_insert i e (ml_events m),
                     ml_audit := ml_audit m @ [\<lparr>ma_at_ms = at_ms, ma_actor = actor, ma_action = MaConfirmed,
                       ma_event_id = i, ma_listing_count = length ls, ma_discrepancies = ue_discrepancies e\<rparr>]\<rparr>
          in ((m', mapping_persist enc io m' file), Inr e))))"

definition revoke :: "(ledger_doc \<Rightarrow> 't option) \<Rightarrow> persist_io \<Rightarrow> string \<Rightarrow> string \<Rightarrow> int \<Rightarrow>
    't mapping_store \<Rightarrow> 't mapping_store \<times> (revoke_error + unit)" where
  "revoke enc io i actor at_ms s = (let (m, file) = s in
    (case map_of (ml_events m) i of
       None \<Rightarrow> (s, Inl (UnknownEvent i))
     | Some e \<Rightarrow>
         (let m' = m\<lparr>ml_events := AList.delete i (ml_events m),
                     ml_audit := ml_audit m @ [\<lparr>ma_at_ms = at_ms, ma_actor = actor, ma_action = MaRevoked,
                       ma_event_id = i, ma_listing_count = length (ue_listings e),
                       ma_discrepancies = ue_discrepancies e\<rparr>]\<rparr>
          in ((m', mapping_persist enc io m' file), Inr ()))))"

end
