(* ===== verification/Hedge.thy ===== *)
theory Hedge
  imports Unified Fees
begin

text \<open>
  Cross-venue hedging, \<open>core/blitzkrieg_core/src/hedge/\<close>: the two-leg execution machine
  (\<open>executor.rs\<close>, \<open>mod.rs\<close>), its audit lines (\<open>audit.rs\<close>), the feasibility gate (\<open>plan.rs\<close>), the merged
  exposure and the joint risk gate (\<open>exposure.rs\<close>) and the settlement aligner (\<open>settlement.rs\<close>).

  The array of two legs is two fields, and an index into it is \<open>LegA\<close> or \<open>LegB\<close> (the code's callers use
  0 and 1; any other index panics there). The venue-facing hook a tick may call is an argument: a
  function from the demand and the time to the action taken, or a refusal. The two hooks no code of the
  machine calls, \<open>submit_leg\<close> and \<open>cancel_leg\<close>, have no counterpart.
\<close>

section \<open>Vocabulary\<close>

definition NAKED_LEG_DEADLINE_MS :: int where "NAKED_LEG_DEADLINE_MS = 2000"
definition SUBMIT_DEADLINE_MS :: int where "SUBMIT_DEADLINE_MS = 500"
definition FORCE_UNWIND_AFTER_REFUSALS :: nat where "FORCE_UNWIND_AFTER_REFUSALS = 2"

datatype hedge_outcome = HoBothFilled | HoReHedged | HoUnwound | HoBothFailedClean | HoRefused

fun hedge_outcome_as_str :: "hedge_outcome \<Rightarrow> string" where
  "hedge_outcome_as_str HoBothFilled = ''both_filled''"
| "hedge_outcome_as_str HoReHedged = ''re_hedged''"
| "hedge_outcome_as_str HoUnwound = ''unwound''"
| "hedge_outcome_as_str HoBothFailedClean = ''both_failed_clean''"
| "hedge_outcome_as_str HoRefused = ''refused''"

datatype protective_kind = PkReHedge | PkForceUnwind

fun protective_kind_as_str :: "protective_kind \<Rightarrow> string" where
  "protective_kind_as_str PkReHedge = ''re_hedge''"
| "protective_kind_as_str PkForceUnwind = ''force_unwind''"

datatype leg_side = LegUp | LegDown

record hedge_leg_id =
  hl_venue :: string
  hl_token :: string

definition hedge_leg_id_new :: "venue \<Rightarrow> string \<Rightarrow> hedge_leg_id" where
  "hedge_leg_id_new v tok = \<lparr>hl_venue = venue_as_str v, hl_token = tok\<rparr>"

definition show_leg_id :: "hedge_leg_id \<Rightarrow> string" where
  "show_leg_id l = hl_venue l @ '':'' @ hl_token l"

datatype leg_state = LegPending | LegSubmitted | LegFilled | LegFailed | LegCancelled

fun leg_state_str :: "leg_state \<Rightarrow> string" where
  "leg_state_str LegPending = ''pending''"
| "leg_state_str LegSubmitted = ''submitted''"
| "leg_state_str LegFilled = ''filled''"
| "leg_state_str LegFailed = ''failed''"
| "leg_state_str LegCancelled = ''cancelled''"

record leg_report =
  lr_id :: hedge_leg_id
  lr_side :: leg_side
  lr_state :: leg_state
  lr_filled :: decimal
  lr_fill_price :: "decimal option"

definition leg_report_new :: "hedge_leg_id \<Rightarrow> leg_side \<Rightarrow> leg_report" where
  "leg_report_new i sd = \<lparr>lr_id = i, lr_side = sd, lr_state = LegPending, lr_filled = 0, lr_fill_price = None\<rparr>"

definition leg_is_live :: "leg_report \<Rightarrow> bool" where
  "leg_is_live l \<longleftrightarrow> lr_state l = LegPending \<or> lr_state l = LegSubmitted"

definition has_exposure :: "leg_report \<Rightarrow> bool" where
  "has_exposure l \<longleftrightarrow> 0 < lr_filled l"

datatype hedge_execution_state = HsSubmitting | HsLive | HsProtecting | HsDone

record protective_action =
  pa_leg :: hedge_leg_id
  pa_kind :: protective_kind
  pa_at_ms :: int

datatype protective_demand = DemandReHedge hedge_leg_id decimal | DemandForceUnwind hedge_leg_id decimal

type_synonym protective_hook = "protective_demand \<Rightarrow> int \<Rightarrow> protective_action option"

section \<open>Audit lines\<close>

record hedge_audit_record =
  hr_ts_ms :: int
  hr_execution_id :: string
  hr_event_id :: string
  hr_action :: string
  hr_leg :: "hedge_leg_id option"
  hr_side :: "leg_side option"
  hr_protective :: "protective_kind option"
  hr_detail :: "message option"

record hedge_audit_sink =
  hs_enabled :: bool
  hs_path :: "string option"

definition hedge_sink_at :: "string option \<Rightarrow> hedge_audit_sink" where
  "hedge_sink_at p = \<lparr>hs_enabled = (p \<noteq> None), hs_path = p\<rparr>"

text \<open>\<open>written\<close> is whether the append to the JSONL file succeeds.\<close>

definition hedge_sink_record ::
  "hedge_audit_sink \<Rightarrow> bool \<Rightarrow> hedge_audit_record \<Rightarrow> hedge_audit_record list \<Rightarrow> hedge_audit_record list" where
  "hedge_sink_record sink written r lines = (if \<not> hs_enabled sink then lines else
    (case hs_path sink of None \<Rightarrow> lines | Some _ \<Rightarrow> if written then lines @ [r] else lines))"

section \<open>The two-leg machine\<close>

datatype leg_ix = LegA | LegB

fun other_leg :: "leg_ix \<Rightarrow> leg_ix" where
  "other_leg LegA = LegB"
| "other_leg LegB = LegA"

record hedge_execution =
  he_execution_id :: string
  he_event_id :: string
  he_a :: leg_report
  he_b :: leg_report
  he_state :: hedge_execution_state
  he_outcome :: "hedge_outcome option"
  he_armed_at_ms :: int
  he_naked_since_ms :: "int option"
  he_naked_leg :: "leg_ix option"
  he_naked_gap :: "decimal option"
  he_protective_actions :: "protective_action list"
  he_protective_refusals :: nat
  he_protective_in_flight :: "(protective_kind \<times> decimal) option"

fun the_leg :: "leg_ix \<Rightarrow> hedge_execution \<Rightarrow> leg_report" where
  "the_leg LegA s = he_a s"
| "the_leg LegB s = he_b s"

fun upd_leg :: "leg_ix \<Rightarrow> (leg_report \<Rightarrow> leg_report) \<Rightarrow> hedge_execution \<Rightarrow> hedge_execution" where
  "upd_leg LegA f s = s\<lparr>he_a := f (he_a s)\<rparr>"
| "upd_leg LegB f s = s\<lparr>he_b := f (he_b s)\<rparr>"

definition arm :: "string \<Rightarrow> string \<Rightarrow> hedge_leg_id \<times> leg_side \<Rightarrow> hedge_leg_id \<times> leg_side \<Rightarrow> int \<Rightarrow>
    string + hedge_execution" where
  "arm ex ev a b at_ms = (if snd a = snd b then Inl ''both legs are the same side - nothing to hedge'' else
     Inr \<lparr>he_execution_id = ex, he_event_id = ev, he_a = leg_report_new (fst a) (snd a),
          he_b = leg_report_new (fst b) (snd b), he_state = HsSubmitting, he_outcome = None,
          he_armed_at_ms = at_ms, he_naked_since_ms = None, he_naked_leg = None, he_naked_gap = None,
          he_protective_actions = [], he_protective_refusals = 0, he_protective_in_flight = None\<rparr>)"

definition hedge_finish :: "hedge_outcome \<Rightarrow> hedge_execution \<Rightarrow> hedge_execution" where
  "hedge_finish oc s = s\<lparr>he_state := HsDone, he_outcome := Some oc, he_naked_leg := None,
     he_naked_gap := None, he_naked_since_ms := None\<rparr>"

definition took_action :: "protective_kind \<Rightarrow> hedge_execution \<Rightarrow> bool" where
  "took_action k s \<longleftrightarrow> list_ex (\<lambda>p. pa_kind p = k) (he_protective_actions s)"

definition balanced_outcome :: "hedge_execution \<Rightarrow> hedge_execution" where
  "balanced_outcome s =
    (if 0 < lr_filled (he_a s) then
       hedge_finish (if took_action PkReHedge s then HoReHedged else HoBothFilled) s
     else if \<not> leg_is_live (he_a s) \<and> \<not> leg_is_live (he_b s) then
       hedge_finish (if took_action PkForceUnwind s then HoUnwound else HoBothFailedClean) s
     else s)"

definition refresh_state :: "int \<Rightarrow> hedge_execution \<Rightarrow> hedge_execution" where
  "refresh_state now s =
    (if he_state s = HsDone then s else
     let sa = lr_filled (he_a s); sb = lr_filled (he_b s) in
     if sa = sb then
       (balanced_outcome s)\<lparr>he_naked_leg := None, he_naked_since_ms := None, he_naked_gap := None,
          he_protective_in_flight := None\<rparr>
     else
       let naked = (if sa > sb then LegA else LegB);
           gap = (if sa > sb then sa - sb else sb - sa);
           changed = (he_naked_leg s \<noteq> Some naked \<or>
             (case map_option (\<lambda>g. g \<noteq> gap) (he_naked_gap s) of None \<Rightarrow> True | Some c \<Rightarrow> c));
           s' = (if changed then s\<lparr>he_naked_leg := Some naked, he_naked_gap := Some gap,
                   he_naked_since_ms := Some now, he_protective_in_flight := None\<rparr> else s)
       in s'\<lparr>he_state := HsProtecting\<rparr>)"

definition leg_acked :: "leg_ix \<Rightarrow> hedge_execution \<Rightarrow> hedge_execution" where
  "leg_acked i s = (if he_state s \<noteq> HsSubmitting then s
     else if lr_state (the_leg i s) = LegPending then upd_leg i (\<lambda>l. l\<lparr>lr_state := LegSubmitted\<rparr>) s else s)"

definition leg_filled :: "leg_ix \<Rightarrow> decimal \<Rightarrow> decimal \<Rightarrow> int \<Rightarrow> hedge_execution \<Rightarrow> hedge_execution" where
  "leg_filled i size' price at_ms s = refresh_state at_ms
     (upd_leg i (\<lambda>l. l\<lparr>lr_state := LegFilled,
        lr_filled := (if size' > lr_filled l then size' else lr_filled l), lr_fill_price := Some price\<rparr>) s)"

definition leg_reduced :: "leg_ix \<Rightarrow> decimal \<Rightarrow> decimal \<Rightarrow> int \<Rightarrow> hedge_execution \<Rightarrow> hedge_execution" where
  "leg_reduced i remaining price at_ms s =
    (if lr_state (the_leg i s) = LegFailed then s else
     refresh_state at_ms (upd_leg i (\<lambda>l. if remaining = 0 then l\<lparr>lr_filled := remaining\<rparr>
        else l\<lparr>lr_filled := remaining, lr_state := LegFilled, lr_fill_price := Some price\<rparr>) s))"

definition leg_failed :: "leg_ix \<Rightarrow> int \<Rightarrow> hedge_execution \<Rightarrow> hedge_execution" where
  "leg_failed i at_ms s = refresh_state at_ms (upd_leg i (\<lambda>l. if lr_filled l = 0
     then l\<lparr>lr_state := LegFailed, lr_fill_price := None\<rparr> else l\<lparr>lr_state := LegFailed\<rparr>) s)"

definition hedge_audit_line :: "hedge_execution \<Rightarrow> int \<Rightarrow> string \<Rightarrow> leg_report \<Rightarrow> protective_kind option \<Rightarrow> message \<Rightarrow>
    hedge_audit_record" where
  "hedge_audit_line s now act l pk detail = \<lparr>hr_ts_ms = now, hr_execution_id = he_execution_id s,
     hr_event_id = he_event_id s, hr_action = act, hr_leg = Some (lr_id l), hr_side = Some (lr_side l),
     hr_protective = pk, hr_detail = Some detail\<rparr>"

definition timeout_leg :: "int \<Rightarrow> leg_ix \<Rightarrow> hedge_execution \<Rightarrow> hedge_execution \<times> hedge_audit_record list" where
  "timeout_leg now i s = (if lr_state (the_leg i s) = LegPending then
     (upd_leg i (\<lambda>l. l\<lparr>lr_state := LegFailed\<rparr>) s,
      [hedge_audit_line s now ''submit_timeout'' (the_leg i s) None
        [Txt ''no ack within '', Num SUBMIT_DEADLINE_MS, Txt ''ms - treating as failed'']])
     else (s, []))"

text \<open>The first half of a tick: the submit deadline.\<close>

definition submit_deadline :: "int \<Rightarrow> hedge_execution \<Rightarrow> hedge_execution \<times> hedge_audit_record list" where
  "submit_deadline now s = (if now - he_armed_at_ms s \<ge> SUBMIT_DEADLINE_MS then
     let (s1, r1) = timeout_leg now LegA s; (s2, r2) = timeout_leg now LegB s1
     in (refresh_state now s2, r1 @ r2) else (s, []))"

text \<open>The gap a tick must act on: the leg and the size, when the clock ran out and no order for this
  very gap is in flight.\<close>

definition demand_due :: "int \<Rightarrow> hedge_execution \<Rightarrow> (leg_ix \<times> decimal) option" where
  "demand_due now s = (case he_naked_leg s of None \<Rightarrow> None | Some naked \<Rightarrow>
    (case he_naked_since_ms s of None \<Rightarrow> None | Some since \<Rightarrow>
      if now - since < NAKED_LEG_DEADLINE_MS \<or> he_state s \<noteq> HsProtecting then None
      else let gap = (case he_naked_gap s of None \<Rightarrow> 0 | Some g \<Rightarrow> g) in
        if gap = 0 then None
        else if (case he_protective_in_flight s of None \<Rightarrow> False | Some (_, g) \<Rightarrow> g = gap) then None
        else Some (naked, gap)))"

definition demand_kind :: "hedge_execution \<Rightarrow> protective_kind" where
  "demand_kind s = (if he_protective_refusals s \<ge> FORCE_UNWIND_AFTER_REFUSALS then PkForceUnwind else PkReHedge)"

definition demand_of :: "protective_kind \<Rightarrow> leg_ix \<Rightarrow> decimal \<Rightarrow> hedge_execution \<Rightarrow> protective_demand" where
  "demand_of k naked gap s = (case k of
     PkReHedge \<Rightarrow> DemandReHedge (lr_id (the_leg (other_leg naked) s)) gap
   | PkForceUnwind \<Rightarrow> DemandForceUnwind (lr_id (the_leg naked s)) gap)"

definition demand_detail :: "protective_kind \<Rightarrow> decimal \<Rightarrow> message" where
  "demand_detail k gap = (case k of PkForceUnwind \<Rightarrow> [Txt ''force-unwind '', Dec gap]
     | PkReHedge \<Rightarrow> [Txt ''re-hedge '', Dec gap, Txt '' on counter venue''])"

definition apply_action :: "int \<Rightarrow> leg_ix \<Rightarrow> decimal \<Rightarrow> protective_action \<Rightarrow> hedge_execution \<Rightarrow> hedge_execution" where
  "apply_action now naked gap a s =
    (let s1 = s\<lparr>he_protective_actions := he_protective_actions s @ [a]\<rparr>;
         s2 = (case pa_kind a of
             PkReHedge \<Rightarrow> upd_leg (other_leg naked) (\<lambda>l. l\<lparr>lr_state := LegSubmitted\<rparr>) s1
           | PkForceUnwind \<Rightarrow> upd_leg naked (\<lambda>l. l\<lparr>lr_state := LegCancelled\<rparr>) s1)
     in refresh_state now (s2\<lparr>he_protective_in_flight := Some (pa_kind a, gap)\<rparr>))"

definition hedge_tick :: "int \<Rightarrow> protective_hook \<Rightarrow> hedge_execution \<Rightarrow> hedge_execution \<times> hedge_audit_record list" where
  "hedge_tick now hook s0 =
    (let (s, r0) = submit_deadline now s0 in
     case demand_due now s of None \<Rightarrow> (s, r0)
     | Some (naked, gap) \<Rightarrow>
        (let k = demand_kind s; l = the_leg naked s; detail = demand_detail k gap in
         case hook (demand_of k naked gap s) now of
           Some a \<Rightarrow> (apply_action now naked gap a s,
             r0 @ [hedge_audit_line s now ''protective_action'' l (Some (pa_kind a)) detail])
         | None \<Rightarrow> (s\<lparr>he_protective_refusals := he_protective_refusals s + 1\<rparr>,
             r0 @ [hedge_audit_line s now ''protective_refused'' l (Some k) detail])))"

definition audit_armed :: "int \<Rightarrow> hedge_execution \<Rightarrow> hedge_audit_record" where
  "audit_armed at_ms s = \<lparr>hr_ts_ms = at_ms, hr_execution_id = he_execution_id s, hr_event_id = he_event_id s,
     hr_action = ''proposed'', hr_leg = None, hr_side = None, hr_protective = None,
     hr_detail = Some [Txt ''armed '', Txt (show_leg_id (lr_id (he_a s))), Txt '' vs '',
       Txt (show_leg_id (lr_id (he_b s)))]\<rparr>"

fun leg_side_debug :: "leg_side \<Rightarrow> string" where
  "leg_side_debug LegUp = ''Up''"
| "leg_side_debug LegDown = ''Down''"

definition leg_detail :: "leg_report \<Rightarrow> message" where
  "leg_detail l = [Txt (show_leg_id (lr_id l)), Txt '' ('', Txt (leg_state_str (lr_state l)), Txt '' '',
     Txt (leg_side_debug (lr_side l)), Txt '' filled='', Dec (lr_filled l), Txt '')'']"

definition audit_done :: "int \<Rightarrow> hedge_execution \<Rightarrow> hedge_audit_record option" where
  "audit_done at_ms s = (case he_outcome s of None \<Rightarrow> None | Some oc \<Rightarrow>
     Some \<lparr>hr_ts_ms = at_ms, hr_execution_id = he_execution_id s, hr_event_id = he_event_id s,
       hr_action = hedge_outcome_as_str oc, hr_leg = None, hr_side = None, hr_protective = None,
       hr_detail = Some ([Txt ''legs: ''] @ leg_detail (he_a s) @ [Txt '', ''] @ leg_detail (he_b s) @
         [Txt ''; '', Num (int (length (he_protective_actions s))), Txt '' protective action(s)''])\<rparr>)"

section \<open>The feasibility gate\<close>

record plan_leg =
  pg_venue :: venue
  pg_token :: token_id
  pg_side :: leg_side
  pg_price :: decimal
  pg_size :: decimal

definition leg_notional :: "plan_leg \<Rightarrow> decimal" where
  "leg_notional l = pg_price l * pg_size l"

record fee_quote =
  fq_venue :: venue
  fq_token :: token_id
  fq_fee_usd :: decimal

record hedge_plan =
  hp_event_id :: string
  hp_legs :: "plan_leg \<times> plan_leg"
  hp_fees :: "fee_quote \<times> fee_quote"
  hp_gross_edge_per_share :: decimal
  hp_total_fees_usd :: decimal
  hp_net_edge_usd :: decimal
  hp_viable :: bool

datatype plan_error = SettlementDiscrepancy string | NotHedgeable string | LegMismatch | BadQuote | SameSide

definition leg_fee_usd :: "fee_schedule \<Rightarrow> plan_leg \<Rightarrow> decimal" where
  "leg_fee_usd sched l = fee_per_share sched (pg_price l) * pg_size l"

definition fee_quote_of :: "fee_schedule \<Rightarrow> plan_leg \<Rightarrow> fee_quote" where
  "fee_quote_of sched l = \<lparr>fq_venue = pg_venue l, fq_token = pg_token l, fq_fee_usd = leg_fee_usd sched l\<rparr>"

definition event_tokens :: "unified_event \<Rightarrow> token_id list" where
  "event_tokens e = concat (map (\<lambda>l. [pl_up_token l, pl_down_token l]) (event_listings e))"

definition bad_quote :: "plan_leg \<Rightarrow> bool" where
  "bad_quote l \<longleftrightarrow> pg_price l \<le> 0 \<or> pg_price l \<ge> 1 \<or> pg_size l \<le> 0"

definition assess :: "unified_event \<Rightarrow> decimal \<Rightarrow> plan_leg \<Rightarrow> plan_leg \<Rightarrow> fee_schedule \<Rightarrow> plan_error + hedge_plan" where
  "assess e edge a b sched = (case verdict_for_event e of
     HvPseudoHedge _ \<Rightarrow> Inl (SettlementDiscrepancy (ue_id e))
   | HvNotHedgeable \<Rightarrow> Inl (NotHedgeable (ue_id e))
   | HvAllowed _ \<Rightarrow>
      (if pg_token a = pg_token b then Inl LegMismatch
       else if \<not> (pg_token a \<in> set (event_tokens e) \<and> pg_token b \<in> set (event_tokens e)) then Inl LegMismatch
       else if pg_side a = pg_side b then Inl SameSide
       else if bad_quote a \<or> bad_quote b then Inl BadQuote
       else let fa = fee_quote_of sched a; fb = fee_quote_of sched b;
                total = fq_fee_usd fa + fq_fee_usd fb;
                gross = edge * pg_size a;
                net = gross - total
         in Inr \<lparr>hp_event_id = ue_id e, hp_legs = (a, b), hp_fees = (fa, fb), hp_gross_edge_per_share = edge,
              hp_total_fees_usd = total, hp_net_edge_usd = net, hp_viable = (0 < net)\<rparr>))"

definition fee_drag_per_share :: "dec_ops \<Rightarrow> hedge_plan \<Rightarrow> decimal" where
  "fee_drag_per_share D p = (if pg_size (fst (hp_legs p)) = 0 then 0
     else ddiv D (hp_total_fees_usd p) (pg_size (fst (hp_legs p))))"

definition hedge_size :: "hedge_plan \<Rightarrow> decimal" where
  "hedge_size p = min (pg_size (fst (hp_legs p))) (pg_size (snd (hp_legs p)))"

section \<open>Merged exposure and the joint risk gate\<close>

record leg_position =
  lp_venue :: string
  lp_token :: string
  lp_side :: string
  lp_shares :: decimal
  lp_entry_price :: decimal

record merged_position =
  mp_event_id :: string
  mp_legs :: "leg_position list"
  mp_gross_shares :: decimal
  mp_net_direction :: decimal
  mp_notional_usd :: decimal
  mp_hedged :: bool

definition HEDGED_TOLERANCE_SHARES :: decimal where "HEDGED_TOLERANCE_SHARES = 5 / 10"

definition merge_legs :: "string \<Rightarrow> leg_position list \<Rightarrow> merged_position" where
  "merge_legs i ls0 =
    (let ls = sort_key (\<lambda>l. (lp_venue l, lp_token l)) ls0;
         net = sum_list (map (\<lambda>l. if lp_side l = ''up'' then lp_shares l else - lp_shares l) ls)
     in \<lparr>mp_event_id = i, mp_legs = ls, mp_gross_shares = sum_list (map lp_shares ls),
         mp_net_direction = net,
         mp_notional_usd = sum_list (map (\<lambda>l. lp_shares l * lp_entry_price l) ls),
         mp_hedged = (\<bar>net\<bar> \<le> HEDGED_TOLERANCE_SHARES)\<rparr>)"

datatype joint_risk_refusal =
    TotalExposureCap decimal decimal decimal
  | SingleEventConcentration string decimal decimal

record joint_risk_gate =
  jg_total_cap :: decimal
  jg_event_cap :: decimal

definition joint_check :: "joint_risk_gate \<Rightarrow> (string \<times> decimal) list \<Rightarrow> string \<Rightarrow> decimal \<Rightarrow> joint_risk_refusal + unit" where
  "joint_check g open_by_event ev new =
    (let cur = (case map_of open_by_event ev of None \<Rightarrow> 0 | Some n \<Rightarrow> n) in
     if cur + new > jg_event_cap g then Inl (SingleEventConcentration ev new (jg_event_cap g))
     else let total = sum_list (map snd open_by_event) in
       if total + new > jg_total_cap g then Inl (TotalExposureCap total new (jg_total_cap g))
       else Inr ())"

section \<open>The settlement aligner\<close>

definition PAYOUT_TOLERANCE_USD :: decimal where "PAYOUT_TOLERANCE_USD = 1 / 100"

record venue_settlement =
  vs_venue :: string
  vs_payout_usd :: decimal
  vs_shares :: decimal
  vs_payout_per_share :: decimal

datatype settlement_reconcile = Aligned | Mismatched message string string decimal | Partial string string

definition is_aligned :: "settlement_reconcile \<Rightarrow> bool" where
  "is_aligned r \<longleftrightarrow> r = Aligned"

type_synonym settlement_facts = "(string \<times> (string \<times> venue_settlement) list) list"

definition payout_detail :: "venue_settlement \<Rightarrow> message" where
  "payout_detail a = [Txt (vs_venue a), Txt '' paid '', Dec (vs_payout_per_share a), Txt ''/share x '',
     Dec (vs_shares a), Txt '' shares = $'', Dec (vs_payout_usd a)]"

definition align_reconcile :: "string \<Rightarrow> settlement_facts \<Rightarrow> settlement_reconcile" where
  "align_reconcile ev facts = (case map_of facts ev of None \<Rightarrow> Aligned
   | Some pv \<Rightarrow> (case map snd pv of
       a # b # _ \<Rightarrow>
         (let delta = vs_payout_usd a - vs_payout_usd b in
          if vs_payout_per_share a \<noteq> vs_payout_per_share b \<or> \<bar>delta\<bar> > PAYOUT_TOLERANCE_USD \<or>
             vs_shares a \<noteq> vs_shares b
          then Mismatched ([Txt ''venues disagree on settlement: ''] @ payout_detail a @ [Txt '', ''] @
                 payout_detail b) (vs_venue a) (vs_venue b) delta
          else Aligned)
     | _ \<Rightarrow> Partial (case pv of [] \<Rightarrow> ''none'' | (k, _) # _ \<Rightarrow> k) ''second venue''))"

definition align_record :: "string \<Rightarrow> venue_settlement \<Rightarrow> settlement_facts \<Rightarrow> settlement_facts \<times> settlement_reconcile" where
  "align_record ev fct facts =
    (let pv = (case map_of facts ev of None \<Rightarrow> [] | Some m \<Rightarrow> m);
         facts' = bt_insert ev (bt_insert (vs_venue fct) fct pv) facts
     in (facts', align_reconcile ev facts'))"

definition align_clear :: "string \<Rightarrow> settlement_facts \<Rightarrow> settlement_facts" where
  "align_clear ev facts = AList.delete ev facts"

definition align_event_ids :: "settlement_facts \<Rightarrow> string list" where
  "align_event_ids facts = map fst facts"

end
