(* ===== verification/HedgeProps.thy ===== *)
theory HedgeProps
  imports Hedge
begin

text \<open>
  The two-leg machine over all its runs: the invariant that ties its state to the size gap, the deadline
  and escalation of the protection, the absorbing end, and the two ways a leg ends up naked with nobody
  watching. Then the feasibility gate, the joint risk gate and the settlement aligner.
\<close>

section \<open>Runs\<close>

datatype hedge_op =
    HAck leg_ix
  | HFill leg_ix decimal decimal int
  | HReduce leg_ix decimal decimal int
  | HFail leg_ix int
  | HTick int protective_hook

fun hedge_step :: "hedge_execution \<Rightarrow> hedge_op \<Rightarrow> hedge_execution" where
  "hedge_step s (HAck i) = leg_acked i s"
| "hedge_step s (HFill i q p t) = leg_filled i q p t s"
| "hedge_step s (HReduce i q p t) = leg_reduced i q p t s"
| "hedge_step s (HFail i t) = leg_failed i t s"
| "hedge_step s (HTick t h) = fst (hedge_tick t h s)"

fun keeps_sizes :: "hedge_op \<Rightarrow> bool" where
  "keeps_sizes (HFill _ _ _ _) = False"
| "keeps_sizes (HReduce _ _ _ _) = False"
| "keeps_sizes _ = True"

definition size_a :: "hedge_execution \<Rightarrow> decimal" where "size_a s = lr_filled (he_a s)"
definition size_b :: "hedge_execution \<Rightarrow> decimal" where "size_b s = lr_filled (he_b s)"

section \<open>What each step leaves alone\<close>

lemma upd_leg_frame [simp]:
  "he_state (upd_leg i f s) = he_state s" "he_outcome (upd_leg i f s) = he_outcome s"
  "he_armed_at_ms (upd_leg i f s) = he_armed_at_ms s" "he_naked_since_ms (upd_leg i f s) = he_naked_since_ms s"
  "he_naked_leg (upd_leg i f s) = he_naked_leg s" "he_naked_gap (upd_leg i f s) = he_naked_gap s"
  "he_protective_actions (upd_leg i f s) = he_protective_actions s"
  "he_protective_refusals (upd_leg i f s) = he_protective_refusals s"
  "he_protective_in_flight (upd_leg i f s) = he_protective_in_flight s"
  by (cases i; simp)+

lemma upd_leg_sizes:
  "(\<And>l. lr_filled (f l) = lr_filled l) \<Longrightarrow> size_a (upd_leg i f s) = size_a s \<and> size_b (upd_leg i f s) = size_b s"
  by (cases i) (simp_all add: size_a_def size_b_def)

lemma refresh_frame [simp]:
  "he_a (refresh_state now s) = he_a s" "he_b (refresh_state now s) = he_b s"
  "he_armed_at_ms (refresh_state now s) = he_armed_at_ms s"
  "he_protective_actions (refresh_state now s) = he_protective_actions s"
  "he_protective_refusals (refresh_state now s) = he_protective_refusals s"
  by (simp_all add: refresh_state_def balanced_outcome_def hedge_finish_def Let_def)

lemma refresh_sizes [simp]:
  "size_a (refresh_state now s) = size_a s" "size_b (refresh_state now s) = size_b s"
  by (simp_all add: size_a_def size_b_def)

lemma refresh_done: "he_state s = HsDone \<Longrightarrow> refresh_state now s = s"
  by (simp add: refresh_state_def)

section \<open>The invariant\<close>

text \<open>Outside the end, the clock, the naked leg and the gap are exactly what the two sizes say, and the
  machine is in the protecting state whenever there is a gap; at the end they are cleared.\<close>

definition gap_of :: "hedge_execution \<Rightarrow> decimal" where
  "gap_of s = \<bar>size_a s - size_b s\<bar>"

definition bigger_leg :: "hedge_execution \<Rightarrow> leg_ix" where
  "bigger_leg s = (if size_a s > size_b s then LegA else LegB)"

definition clock_ok :: "hedge_execution \<Rightarrow> bool" where
  "clock_ok s = (if he_state s = HsDone \<or> size_a s = size_b s
     then he_naked_leg s = None \<and> he_naked_gap s = None \<and> he_naked_since_ms s = None \<and>
       he_protective_in_flight s = None
     else he_state s = HsProtecting \<and> he_naked_leg s = Some (bigger_leg s) \<and>
       he_naked_gap s = Some (gap_of s) \<and> he_naked_since_ms s \<noteq> None \<and>
       (\<forall>k g. he_protective_in_flight s = Some (k, g) \<longrightarrow> took_action k s \<and> g = gap_of s))"

definition hedge_inv :: "hedge_execution \<Rightarrow> bool" where
  "hedge_inv s \<longleftrightarrow> he_state s \<noteq> HsLive \<and> (he_state s = HsDone \<longleftrightarrow> he_outcome s \<noteq> None) \<and> clock_ok s"

text \<open>What the invariant needs before a refresh: the same, with the clock possibly out of date.\<close>

definition hedge_pre :: "hedge_execution \<Rightarrow> bool" where
  "hedge_pre s \<longleftrightarrow> he_state s \<noteq> HsLive \<and> (he_state s = HsDone \<longleftrightarrow> he_outcome s \<noteq> None) \<and>
     (he_state s = HsDone \<longrightarrow> clock_ok s) \<and>
     (he_naked_gap s \<noteq> None \<longrightarrow> he_naked_since_ms s \<noteq> None) \<and>
     (\<forall>k g. he_protective_in_flight s = Some (k, g) \<longrightarrow> took_action k s \<and> he_naked_gap s = Some g)"

lemma refresh_inv: "hedge_pre s \<Longrightarrow> hedge_inv (refresh_state now s)"
proof (cases "he_state s = HsDone")
  case True
  then show "hedge_pre s \<Longrightarrow> ?thesis" by (simp add: hedge_pre_def hedge_inv_def refresh_done)
next
  case False
  assume pre: "hedge_pre s"
  show ?thesis
  proof (cases "size_a s = size_b s")
    case True
    then show ?thesis using pre False
      by (auto simp: hedge_inv_def hedge_pre_def clock_ok_def refresh_state_def balanced_outcome_def
          hedge_finish_def size_a_def size_b_def Let_def)
  next
    case neq: False
    then show ?thesis using pre False
      by (auto simp: hedge_inv_def hedge_pre_def clock_ok_def refresh_state_def took_action_def Let_def
          size_a_def size_b_def gap_of_def bigger_leg_def split: option.splits)
  qed
qed

lemma inv_pre: "hedge_inv s \<Longrightarrow> hedge_pre s"
  by (auto simp: hedge_inv_def hedge_pre_def clock_ok_def split: option.splits if_splits)

text \<open>A change of a leg keeps the precondition.\<close>

lemma took_upd [simp]: "took_action k (upd_leg i f s) = took_action k s"
  by (simp add: took_action_def)

lemma pre_upd_leg: "hedge_inv s \<Longrightarrow> hedge_pre (upd_leg i f s)"
  by (auto simp: hedge_inv_def hedge_pre_def clock_ok_def split: option.splits if_splits)

lemma inv_upd_leg:
  "hedge_inv s \<Longrightarrow> (\<And>l. lr_filled (f l) = lr_filled l) \<Longrightarrow> hedge_inv (upd_leg i f s)"
  using upd_leg_sizes [of f i s]
  by (simp add: hedge_inv_def clock_ok_def gap_of_def bigger_leg_def cong: if_cong)

lemma inv_acked: "hedge_inv s \<Longrightarrow> hedge_inv (leg_acked i s)"
  by (simp add: leg_acked_def inv_upd_leg)

lemma inv_filled: "hedge_inv s \<Longrightarrow> hedge_inv (leg_filled i q p t s)"
  by (simp add: leg_filled_def refresh_inv pre_upd_leg)

lemma inv_reduced: "hedge_inv s \<Longrightarrow> hedge_inv (leg_reduced i q p t s)"
  by (simp add: leg_reduced_def refresh_inv pre_upd_leg)

lemma inv_failed: "hedge_inv s \<Longrightarrow> hedge_inv (leg_failed i t s)"
  by (simp add: leg_failed_def refresh_inv pre_upd_leg)

lemma timeout_inv: "hedge_inv s \<Longrightarrow> hedge_inv (fst (timeout_leg now i s))"
  by (simp add: timeout_leg_def inv_upd_leg)

lemma submit_deadline_inv: "hedge_inv s \<Longrightarrow> hedge_inv (fst (submit_deadline now s))"
  by (auto simp: submit_deadline_def split_beta Let_def intro!: refresh_inv inv_pre timeout_inv)

lemma demand_due_Some:
  "demand_due now s = Some (n, g) \<Longrightarrow> he_state s = HsProtecting \<and> he_naked_leg s = Some n \<and>
    he_naked_gap s = Some g \<and> g \<noteq> 0"
  by (auto simp: demand_due_def Let_def split: option.splits if_splits)

lemma apply_action_inv:
  assumes "hedge_inv s" and "demand_due now s = Some (n, g)"
  shows "hedge_inv (apply_action now n g a s)"
proof -
  have "hedge_pre (upd_leg i f (s\<lparr>he_protective_actions := he_protective_actions s @ [a]\<rparr>)
      \<lparr>he_protective_in_flight := Some (pa_kind a, g)\<rparr>)" for i f
    using assms(1) demand_due_Some [OF assms(2)]
    by (auto simp: hedge_pre_def hedge_inv_def took_action_def clock_ok_def split: if_splits)
  then show ?thesis
    by (auto simp: apply_action_def Let_def intro!: refresh_inv split: protective_kind.splits)
qed

lemma refusals_frame [simp]:
  "size_a (s\<lparr>he_protective_refusals := x\<rparr>) = size_a s" "size_b (s\<lparr>he_protective_refusals := x\<rparr>) = size_b s"
  "gap_of (s\<lparr>he_protective_refusals := x\<rparr>) = gap_of s" "bigger_leg (s\<lparr>he_protective_refusals := x\<rparr>) = bigger_leg s"
  "took_action k (s\<lparr>he_protective_refusals := x\<rparr>) = took_action k s"
  by (simp_all add: size_a_def size_b_def gap_of_def bigger_leg_def took_action_def)

lemma refusals_inv [simp]: "hedge_inv (s\<lparr>he_protective_refusals := x\<rparr>) = hedge_inv s"
  by (simp add: hedge_inv_def clock_ok_def)

lemma tick_inv: "hedge_inv s \<Longrightarrow> hedge_inv (fst (hedge_tick now h s))"
proof -
  assume s: "hedge_inv s"
  obtain s1 r where d: "submit_deadline now s = (s1, r)" by (cases "submit_deadline now s")
  have s1: "hedge_inv s1" using submit_deadline_inv [OF s, of now] by (simp add: d)
  then show ?thesis
    by (auto simp: hedge_tick_def d Let_def split: option.splits intro: apply_action_inv)
qed

interpretation hedge: invariant_machine hedge_step hedge_inv
proof
  show "hedge_inv s \<Longrightarrow> hedge_inv (hedge_step s x)" for s x
    by (cases x) (simp_all add: inv_acked inv_filled inv_reduced inv_failed tick_inv)
qed

lemma arm_inv: "arm ex ev a b t = Inr s \<Longrightarrow> hedge_inv s"
  by (auto simp: arm_def hedge_inv_def clock_ok_def size_a_def size_b_def leg_report_new_def split: if_splits)

lemma reach_inv: "arm ex ev a b t = Inr s0 \<Longrightarrow> hedge_inv (run hedge_step s0 ops)"
  by (intro hedge.run_inv arm_inv)

text \<open>C36: in every state a run from the arming can reach: unless the machine is over, filled sizes that differ
  mean that it is protecting, with the gap recorded against the bigger leg, the clock started and any order in
  flight targeting that very gap, while equal sizes mean that no leg, gap, clock or order in flight is recorded;
  once it is over all four are cleared, whatever fills came late; it is over exactly when it has an outcome;
  and the state "both legs acknowledged" is never entered.\<close>

theorem hedge_machine_invariant:
  assumes "arm ex ev a b t = Inr s0"
  shows "hedge_inv (run hedge_step s0 ops)"
  using assms by (rule reach_inv)

section \<open>Ticks on an exposed leg\<close>

text \<open>A leg has been naked since \<open>t0\<close>.\<close>

definition exposed :: "hedge_execution \<Rightarrow> int \<Rightarrow> bool" where
  "exposed s t0 \<longleftrightarrow> hedge_inv s \<and> he_state s = HsProtecting \<and> he_naked_since_ms s = Some t0"

lemma exposed_sel:
  assumes "exposed s t0"
  shows "size_a s \<noteq> size_b s" "he_naked_leg s = Some (bigger_leg s)" "he_naked_gap s = Some (gap_of s)"
    "he_outcome s = None" "gap_of s \<noteq> 0"
  using assms by (auto simp: exposed_def hedge_inv_def clock_ok_def gap_of_def split: if_splits)

lemma exposed_refresh: "exposed s t0 \<Longrightarrow> refresh_state now s = s"
  using exposed_sel [of s t0]
  by (auto simp: exposed_def refresh_state_def size_a_def size_b_def gap_of_def bigger_leg_def Let_def)

lemma exposed_upd_leg: "exposed s t0 \<Longrightarrow> (\<And>l. lr_filled (f l) = lr_filled l) \<Longrightarrow> exposed (upd_leg i f s) t0"
  by (simp add: exposed_def inv_upd_leg)

lemma exposed_timeout:
  assumes "exposed s t0"
  shows "exposed (fst (timeout_leg now i s)) t0 \<and>
    he_protective_in_flight (fst (timeout_leg now i s)) = he_protective_in_flight s \<and>
    he_protective_actions (fst (timeout_leg now i s)) = he_protective_actions s \<and>
    he_protective_refusals (fst (timeout_leg now i s)) = he_protective_refusals s \<and>
    size_a (fst (timeout_leg now i s)) = size_a s \<and> size_b (fst (timeout_leg now i s)) = size_b s"
  using assms by (simp add: timeout_leg_def exposed_upd_leg upd_leg_sizes)

lemma exposed_submit:
  assumes "exposed s t0" and "s' = fst (submit_deadline now s)"
  shows "exposed s' t0 \<and> he_protective_in_flight s' = he_protective_in_flight s \<and>
    he_protective_actions s' = he_protective_actions s \<and>
    he_protective_refusals s' = he_protective_refusals s \<and> size_a s' = size_a s \<and> size_b s' = size_b s"
proof -
  let ?s1 = "fst (timeout_leg now LegA s)"
  let ?s2 = "fst (timeout_leg now LegB ?s1)"
  note a = exposed_timeout [OF assms(1), of now LegA]
  note b = exposed_timeout [OF conjunct1 [OF a], of now LegB]
  show ?thesis
    using assms a b exposed_refresh [OF conjunct1 [OF b]]
    by (simp add: submit_deadline_def split_beta Let_def)
qed

lemma exposed_due:
  assumes "exposed s t0" and "he_protective_in_flight s = None" and "t0 + NAKED_LEG_DEADLINE_MS \<le> now"
  shows "demand_due now s = Some (bigger_leg s, gap_of s)"
  using assms exposed_sel [OF assms(1)] by (simp add: demand_due_def exposed_def)

lemma exposed_in_flight:
  assumes "exposed s t0" and "he_protective_in_flight s = Some (k, g)"
  shows "demand_due now s = None" "g = gap_of s"
proof -
  show g: "g = gap_of s"
    using assms exposed_sel [OF assms(1)] by (auto simp: exposed_def hedge_inv_def clock_ok_def split: if_splits)
  show "demand_due now s = None"
    using assms exposed_sel [OF assms(1)] g by (simp add: demand_due_def exposed_def)
qed

lemma upd_leg_setters:
  "he_protective_actions ((upd_leg i f s)\<lparr>he_protective_in_flight := x\<rparr>) = he_protective_actions s"
  by simp

lemma exposed_action:
  assumes "exposed s t0" and "demand_due now s = Some (n, g)" and "s' = apply_action now n g a s"
  shows "exposed s' t0 \<and> he_protective_in_flight s' = Some (pa_kind a, g) \<and>
    he_protective_actions s' = he_protective_actions s @ [a] \<and>
    he_protective_refusals s' = he_protective_refusals s \<and> size_a s' = size_a s \<and> size_b s' = size_b s"
proof -
  have g: "g = gap_of s" using demand_due_Some [OF assms(2)] exposed_sel [OF assms(1)] by simp
  have "exposed ((upd_leg i f (s\<lparr>he_protective_actions := he_protective_actions s @ [a]\<rparr>))
      \<lparr>he_protective_in_flight := Some (pa_kind a, g)\<rparr>) t0"
    if "\<And>l. lr_filled (f l) = lr_filled l" for i f
    using assms(1) g that
    by (cases i) (auto simp: exposed_def hedge_inv_def clock_ok_def took_action_def size_a_def size_b_def
        gap_of_def bigger_leg_def split: if_splits)
  note e = this
  show ?thesis
  proof (cases "pa_kind a")
    case PkReHedge
    note e' = e [of "\<lambda>l. l\<lparr>lr_state := LegSubmitted\<rparr>" "other_leg n", simplified]
    show ?thesis using e' exposed_refresh [OF e'] assms(3) PkReHedge
      by (cases n) (simp_all add: apply_action_def Let_def size_a_def size_b_def)
  next
    case PkForceUnwind
    note e' = e [of "\<lambda>l. l\<lparr>lr_state := LegCancelled\<rparr>" n, simplified]
    show ?thesis using e' exposed_refresh [OF e'] assms(3) PkForceUnwind
      by (cases n) (simp_all add: apply_action_def Let_def size_a_def size_b_def)
  qed
qed

text \<open>A tick past the deadline with nothing in flight: the hook is asked, and its answer is recorded.\<close>

lemma exposed_tick:
  assumes "exposed s t0" and "he_protective_in_flight s = None" and "t0 + NAKED_LEG_DEADLINE_MS \<le> now"
  obtains d where "exposed (fst (hedge_tick now h s)) t0"
    "d = demand_of (demand_kind s) (bigger_leg s) (gap_of s) (fst (submit_deadline now s))"
    "case h d now of
       Some a \<Rightarrow> he_protective_actions (fst (hedge_tick now h s)) = he_protective_actions s @ [a] \<and>
         he_protective_in_flight (fst (hedge_tick now h s)) = Some (pa_kind a, gap_of s)
     | None \<Rightarrow> he_protective_actions (fst (hedge_tick now h s)) = he_protective_actions s \<and>
         he_protective_in_flight (fst (hedge_tick now h s)) = None \<and>
         he_protective_refusals (fst (hedge_tick now h s)) = Suc (he_protective_refusals s)"
    "snd (hedge_tick now h s) \<noteq> []"
proof -
  obtain s1 r where d: "submit_deadline now s = (s1, r)" by (cases "submit_deadline now s")
  note f = exposed_submit [OF assms(1), of s1 now, unfolded d, simplified]
  have gb: "gap_of s1 = gap_of s" "bigger_leg s1 = bigger_leg s" "demand_kind s1 = demand_kind s"
    using f by (simp_all add: gap_of_def bigger_leg_def demand_kind_def)
  have due: "demand_due now s1 = Some (bigger_leg s, gap_of s)"
    using exposed_due [of s1 t0 now] f assms(2,3) gb by simp
  have e: "exposed (s1\<lparr>he_protective_refusals := x\<rparr>) t0" for x
    using f by (simp add: exposed_def)
  show thesis
  proof (cases "h (demand_of (demand_kind s) (bigger_leg s) (gap_of s) s1) now")
    case None
    then have tick: "fst (hedge_tick now h s) = s1\<lparr>he_protective_refusals := he_protective_refusals s1 + 1\<rparr>"
      "snd (hedge_tick now h s) \<noteq> []" by (simp_all add: hedge_tick_def d due gb Let_def)
    show thesis using f e assms(2) by (intro that [OF _ refl]) (simp_all only: tick d fst_conv None option.case, simp_all)
  next
    case (Some a)
    then have tick: "fst (hedge_tick now h s) = apply_action now (bigger_leg s) (gap_of s) a s1"
      "snd (hedge_tick now h s) \<noteq> []" by (simp_all add: hedge_tick_def d due gb Let_def)
    show thesis using f exposed_action [of s1 t0 now, OF _ due refl, of a]
      by (intro that [OF _ refl]) (simp_all only: tick d fst_conv Some option.case, simp_all)
  qed
qed

lemma idle_tick:
  assumes "demand_due now (fst (submit_deadline now s)) = None"
  shows "fst (hedge_tick now h s) = fst (submit_deadline now s)"
  using assms by (simp add: hedge_tick_def split_beta)

section \<open>Protection\<close>

lemma tick_actions_mono: "length (he_protective_actions s) \<le> length (he_protective_actions (hedge_step s x))"
proof (cases x)
  case (HTick t h)
  have "he_protective_actions (fst (submit_deadline t s)) = he_protective_actions s"
    by (simp add: submit_deadline_def timeout_leg_def split_beta Let_def)
  then show ?thesis
    by (auto simp: HTick hedge_tick_def apply_action_def split_beta Let_def
        split: option.splits protective_kind.splits)
qed (simp_all add: leg_acked_def leg_filled_def leg_reduced_def leg_failed_def)

interpretation hedge_actions: monotone_machine hedge_step hedge_inv "\<lambda>s. length (he_protective_actions s)"
  by unfold_locales (rule tick_actions_mono)

lemma protection_escalates:
  assumes "exposed s t0" and "he_protective_in_flight s = None"
    and "\<forall>(t, h) \<in> set ticks. t0 + NAKED_LEG_DEADLINE_MS \<le> t \<and> (\<forall>l q. h (DemandForceUnwind l q) t \<noteq> None)"
    and "FORCE_UNWIND_AFTER_REFUSALS < length ticks + he_protective_refusals s" and "ticks \<noteq> []"
  shows "length (he_protective_actions s) <
    length (he_protective_actions (run hedge_step s (map (\<lambda>(t, h). HTick t h) ticks)))"
  using assms
proof (induction ticks arbitrary: s)
  case (Cons th ticks)
  obtain t h where th: "th = (t, h)" by (cases th)
  let ?s = "fst (hedge_tick t h s)"
  obtain d where e: "exposed ?s t0"
    and dm: "d = demand_of (demand_kind s) (bigger_leg s) (gap_of s) (fst (submit_deadline t s))"
    and r: "case h d t of
       Some a \<Rightarrow> he_protective_actions ?s = he_protective_actions s @ [a] \<and>
         he_protective_in_flight ?s = Some (pa_kind a, gap_of s)
     | None \<Rightarrow> he_protective_actions ?s = he_protective_actions s \<and> he_protective_in_flight ?s = None \<and>
         he_protective_refusals ?s = Suc (he_protective_refusals s)"
  proof (rule exposed_tick [OF Cons.prems(1,2), of t h])
    show "t0 + NAKED_LEG_DEADLINE_MS \<le> t" using Cons.prems(3) th by simp
  qed
  show ?case
  proof (cases "h d t")
    case (Some a)
    have "length (he_protective_actions ?s) \<le>
      length (he_protective_actions (run hedge_step ?s (map (\<lambda>(t, h). HTick t h) ticks)))"
      using e by (intro hedge_actions.run_mono) (simp add: exposed_def)
    then show ?thesis using r Some by (simp add: th)
  next
    case None
    moreover have "h (DemandForceUnwind l q) t \<noteq> None" for l q using Cons.prems(3) th by auto
    ultimately have no: "d \<noteq> DemandForceUnwind l q" for l q by metis
    have "demand_kind s \<noteq> PkForceUnwind"
    proof
      assume "demand_kind s = PkForceUnwind"
      then have "\<exists>l q. d = DemandForceUnwind l q" using dm by (simp add: demand_of_def)
      then show False using no by metis
    qed
    then have "he_protective_refusals s < FORCE_UNWIND_AFTER_REFUSALS" by (simp add: demand_kind_def split: if_splits)
    then have "ticks \<noteq> []" using Cons.prems(4) by auto
    then show ?thesis using Cons.IH [of ?s] Cons.prems(3,4) r None e by (simp add: th)
  qed
qed simp

text \<open>C35: a leg naked since \<open>t0\<close> with no order in flight is acted on: whatever the venues answered
  before, three ticks at or past the deadline place a protective order, provided only that a forced
  unwind is accepted when it is asked for.\<close>

theorem hedge_protection_escalates:
  assumes "arm ex ev a b t = Inr s0" and "s = run hedge_step s0 ops"
    and "he_state s = HsProtecting" and "he_naked_since_ms s = Some t0" and "he_protective_in_flight s = None"
    and "\<forall>(t, h) \<in> set ticks. t0 + NAKED_LEG_DEADLINE_MS \<le> t \<and> (\<forall>l q. h (DemandForceUnwind l q) t \<noteq> None)"
    and "3 \<le> length ticks"
  shows "length (he_protective_actions s) <
    length (he_protective_actions (run hedge_step s (map (\<lambda>(t, h). HTick t h) ticks)))"
proof -
  have "exposed s t0" using reach_inv [OF assms(1), of ops] assms(2-4) by (simp add: exposed_def)
  then show ?thesis
    using assms(5-7) by (intro protection_escalates) (auto simp: FORCE_UNWIND_AFTER_REFUSALS_def)
qed

section \<open>One order per gap\<close>

text \<open>A step that reports no size either leaves the machine's exposure as it is, or is a tick that
  acts on it.\<close>

definition order_budget :: "hedge_execution \<Rightarrow> nat" where
  "order_budget s = length (he_protective_actions s) + (if he_protective_in_flight s = None then 1 else 0)"

lemma in_flight_exposed:
  assumes "hedge_inv s" and "he_protective_in_flight s = Some (k, g)"
  obtains t0 where "exposed s t0" "g = gap_of s"
  using assms by (auto simp: exposed_def hedge_inv_def clock_ok_def split: if_splits)

lemma in_flight_step:
  assumes "hedge_inv s" and "he_protective_in_flight s = Some (k, g)" and "keeps_sizes x"
  shows "he_protective_in_flight (hedge_step s x) = Some (k, g) \<and>
    he_protective_actions (hedge_step s x) = he_protective_actions s \<and>
    size_a (hedge_step s x) = size_a s \<and> size_b (hedge_step s x) = size_b s"
proof -
  obtain t0 where e: "exposed s t0" using in_flight_exposed [OF assms(1,2)] by blast
  show ?thesis
  proof (cases x)
    case (HAck i)
    then show ?thesis using e assms(2) by (simp add: leg_acked_def exposed_def)
  next
    case (HFail i t)
    let ?f = "\<lambda>l. if lr_filled l = 0 then l\<lparr>lr_state := LegFailed, lr_fill_price := None\<rparr> else l\<lparr>lr_state := LegFailed\<rparr>"
    have "exposed (upd_leg i ?f s) t0" using e by (rule exposed_upd_leg) simp
    then show ?thesis using assms(2) exposed_refresh upd_leg_sizes [of ?f i s] by (simp add: HFail leg_failed_def)
  next
    case (HTick t h)
    note f = exposed_submit [OF e refl, of t]
    then have "demand_due t (fst (submit_deadline t s)) = None"
      using exposed_in_flight(1) [of "fst (submit_deadline t s)" t0 k g] assms(2) by simp
    then show ?thesis using f assms(2) by (simp add: HTick idle_tick)
  qed (use assms(3) in auto)
qed

lemma budget_step:
  assumes "hedge_inv s" and "keeps_sizes x"
  shows "order_budget (hedge_step s x) \<le> order_budget s"
proof (cases "he_protective_in_flight s")
  case (Some kg)
  then show ?thesis using in_flight_step [OF assms(1) _ assms(2)] by (cases kg) (auto simp: order_budget_def)
next
  case None
  show ?thesis
  proof (cases x)
    case (HTick t h)
    obtain s1 r where d: "submit_deadline t s = (s1, r)" by (cases "submit_deadline t s")
    have s1: "hedge_inv s1" using submit_deadline_inv [OF assms(1), of t] by (simp add: d)
    have a: "he_protective_actions s1 = he_protective_actions s"
      using d by (auto simp: submit_deadline_def timeout_leg_def split_beta Let_def split: if_splits)
    have "he_protective_in_flight (apply_action t n g act s1) \<noteq> None \<and>
        he_protective_actions (apply_action t n g act s1) = he_protective_actions s1 @ [act]"
      if due: "demand_due t s1 = Some (n, g)" for n g act
    proof -
      obtain t0 where "exposed s1 t0"
        using s1 demand_due_Some [OF due] by (auto simp: exposed_def hedge_inv_def clock_ok_def split: if_splits)
      from exposed_action [OF this due refl] show ?thesis by simp
    qed
    then show ?thesis
      by (auto simp: HTick hedge_tick_def d Let_def order_budget_def None a split: option.splits)
  qed (use assms(2) None in \<open>simp_all add: order_budget_def leg_acked_def leg_failed_def\<close>)
qed

lemma budget_run:
  "hedge_inv s \<Longrightarrow> list_all keeps_sizes ops \<Longrightarrow> order_budget (run hedge_step s ops) \<le> order_budget s"
proof (induction ops arbitrary: s)
  case (Cons x ops)
  then show ?case using budget_step [of s x] hedge.step_inv [of s x] by fastforce
qed simp

text \<open>As long as no fill and no reduction is reported, at most one protective order is placed, and
  none while one is in flight, however often the machine is ticked.\<close>

theorem hedge_one_order_per_gap:
  assumes "arm ex ev a b t = Inr s0" and "s = run hedge_step s0 ops" and "list_all keeps_sizes later"
  shows "length (he_protective_actions (run hedge_step s later)) \<le>
    length (he_protective_actions s) + (if he_protective_in_flight s = None then 1 else 0)"
proof -
  have "hedge_inv s" unfolding assms(2) by (rule reach_inv [OF assms(1)])
  from budget_run [OF this assms(3)] show ?thesis by (simp add: order_budget_def split: if_splits)
qed

text \<open>The order in flight is never given up. When the venue took a protective order and then fails
  it, the gap does not change, so no tick ever demands protection again: the leg stays naked, with the
  machine protecting and no outcome, for as long as nothing is filled or reduced.\<close>

theorem hedge_failed_order_strands_the_leg:
  assumes "arm ex ev a b t = Inr s0" and "s = run hedge_step s0 ops"
    and "he_protective_in_flight s = Some (k, g)" and "list_all keeps_sizes later"
    and "s' = run hedge_step (leg_failed i t' s) later"
  shows "he_protective_actions s' = he_protective_actions s \<and> he_state s' = HsProtecting \<and>
    he_outcome s' = None \<and> \<bar>size_a s' - size_b s'\<bar> = g \<and> g \<noteq> 0"
proof -
  define P where "P r \<longleftrightarrow> hedge_inv r \<and> he_protective_in_flight r = Some (k, g) \<and>
    he_protective_actions r = he_protective_actions s" for r
  have step: "P r \<Longrightarrow> keeps_sizes x \<Longrightarrow> P (hedge_step r x)" for r x
    using in_flight_step [of r k g x] hedge.step_inv [of r x] by (auto simp: P_def)
  have "P s" using assms(3) reach_inv [OF assms(1)] by (simp add: P_def assms(2))
  then have "P (leg_failed i t' s)" using step [of s "HFail i t'"] by simp
  moreover have "P r \<Longrightarrow> list_all keeps_sizes xs \<Longrightarrow> P (run hedge_step r xs)" for r xs
    by (induction xs arbitrary: r) (auto intro: step)
  ultimately have p: "P s'" using assms(4,5) by blast
  then obtain t0 where "exposed s' t0" "g = gap_of s'"
    unfolding P_def by (meson in_flight_exposed)
  then show ?thesis using p exposed_sel [of s' t0] by (simp add: P_def exposed_def gap_of_def)
qed

section \<open>The end\<close>

definition truthful :: "hedge_outcome \<Rightarrow> hedge_execution \<Rightarrow> bool" where
  "truthful oc s \<longleftrightarrow> size_a s = size_b s \<and> (case oc of
     HoBothFilled \<Rightarrow> 0 < size_a s \<and> \<not> took_action PkReHedge s
   | HoReHedged \<Rightarrow> 0 < size_a s \<and> took_action PkReHedge s
   | HoUnwound \<Rightarrow> size_a s \<le> 0 \<and> \<not> leg_is_live (he_a s) \<and> \<not> leg_is_live (he_b s) \<and> took_action PkForceUnwind s
   | HoBothFailedClean \<Rightarrow> size_a s \<le> 0 \<and> \<not> leg_is_live (he_a s) \<and> \<not> leg_is_live (he_b s) \<and>
       \<not> took_action PkForceUnwind s
   | HoRefused \<Rightarrow> False)"

lemma took_refresh [simp]: "took_action k (refresh_state now s) = took_action k s"
  by (simp add: took_action_def)

lemma refresh_truthful:
  assumes "he_outcome s = None" and "he_outcome (refresh_state now s) = Some oc"
  shows "truthful oc (refresh_state now s)"
  using assms unfolding truthful_def
  by (auto simp: refresh_state_def balanced_outcome_def hedge_finish_def Let_def took_action_def
      size_a_def size_b_def split: if_splits)

lemma done_step:
  assumes "hedge_inv s" and "he_state s = HsDone"
  shows "he_state (hedge_step s x) = HsDone \<and> he_outcome (hedge_step s x) = he_outcome s \<and>
    he_protective_actions (hedge_step s x) = he_protective_actions s"
proof (cases x)
  case (HTick t h)
  obtain s1 r where d: "submit_deadline t s = (s1, r)" by (cases "submit_deadline t s")
  have s1: "he_state s1 = HsDone \<and> he_outcome s1 = he_outcome s \<and> he_protective_actions s1 = he_protective_actions s"
    using d assms(2)
    by (auto simp: submit_deadline_def timeout_leg_def refresh_done split_beta Let_def split: if_splits)
  then have "demand_due t s1 = None" by (auto simp: demand_due_def split: option.splits)
  then show ?thesis using s1 by (simp add: HTick hedge_tick_def d)
qed (use assms in \<open>simp_all add: leg_acked_def leg_filled_def leg_reduced_def leg_failed_def refresh_done\<close>)

lemma step_truthful:
  assumes "hedge_inv s" and "he_outcome s = None" and "he_outcome (hedge_step s x) = Some oc"
  shows "truthful oc (hedge_step s x)"
proof (cases x)
  case (HTick t h)
  obtain s1 r where d: "submit_deadline t s = (s1, r)" by (cases "submit_deadline t s")
  show ?thesis
  proof (cases "demand_due t s1")
    case None
    then have f: "hedge_step s x = s1" by (simp add: HTick hedge_tick_def d)
    let ?r = "fst (timeout_leg t LegB (fst (timeout_leg t LegA s)))"
    have "s1 = s \<or> s1 = refresh_state t ?r"
      using d by (auto simp: submit_deadline_def split_beta Let_def split: if_splits)
    moreover have "he_outcome ?r = None" using assms(2) by (simp add: timeout_leg_def)
    ultimately show ?thesis using f assms(2,3) refresh_truthful by auto
  next
    case (Some ng)
    obtain n g where ng: "ng = (n, g)" by (cases ng)
    have s1: "hedge_inv s1" using submit_deadline_inv [OF assms(1), of t] by (simp add: d)
    then obtain t0 where e: "exposed s1 t0"
      using demand_due_Some [OF Some [unfolded ng]]
      by (auto simp: exposed_def hedge_inv_def clock_ok_def split: if_splits)
    have "he_outcome (apply_action t n g act s1) = None" for act
      using exposed_action [OF e Some [unfolded ng] refl] exposed_sel(4) by blast
    then show ?thesis
      using assms(3) exposed_sel(4) [OF e] by (auto simp: HTick hedge_tick_def d Some ng Let_def split: option.splits)
  qed
qed (use assms in \<open>auto simp: leg_acked_def leg_filled_def leg_reduced_def leg_failed_def
       intro!: refresh_truthful split: if_splits\<close>)

text \<open>The step that ends an execution states the truth: equal filled sizes, positive for "both
  filled" and "re-hedged" (told apart by whether a re-hedge was placed), otherwise nothing held, no live
  leg, and "unwound" exactly when a forced unwind was placed. No later step changes the verdict or
  places an order.\<close>

theorem hedge_outcome_truthful:
  assumes "arm ex ev a b t = Inr s0" and "s = run hedge_step s0 ops" and "he_outcome s = None"
    and "he_outcome (hedge_step s x) = Some oc"
  shows "truthful oc (hedge_step s x) \<and>
    he_outcome (run hedge_step (hedge_step s x) later) = Some oc \<and>
    he_protective_actions (run hedge_step (hedge_step s x) later) = he_protective_actions (hedge_step s x)"
proof -
  have inv: "hedge_inv s" unfolding assms(2) by (rule reach_inv [OF assms(1)])
  have "he_state r = HsDone \<Longrightarrow> hedge_inv r \<Longrightarrow> he_outcome (run hedge_step r xs) = he_outcome r \<and>
      he_protective_actions (run hedge_step r xs) = he_protective_actions r" for r xs
    using done_step hedge.step_inv by (induction xs arbitrary: r) auto
  moreover have "hedge_inv (hedge_step s x)" using inv by (rule hedge.step_inv)
  moreover from this assms(4) have "he_state (hedge_step s x) = HsDone" by (simp add: hedge_inv_def)
  ultimately show ?thesis using step_truthful [OF inv assms(3,4)] assms(4) by simp
qed

text \<open>An execution both of whose legs timed out is over and clean, and a venue's late fill is then
  recorded on its leg but watched by nobody: no sequence of further events ever places a protective
  order, whatever the size that is held alone.\<close>

theorem hedge_late_fill_is_unwatched:
  assumes "arm ex ev a b t = Inr s0" and "t + SUBMIT_DEADLINE_MS \<le> now" and "0 < q"
    and "s = leg_filled LegA q p late (fst (hedge_tick now h s0))"
  shows "he_outcome s = Some HoBothFailedClean \<and> size_a s = q \<and> size_b s = 0 \<and>
    he_protective_actions (run hedge_step s later) = [] \<and> he_outcome (run hedge_step s later) = Some HoBothFailedClean"
proof -
  have s0: "lr_state (he_a s0) = LegPending" "lr_state (he_b s0) = LegPending" "lr_filled (he_a s0) = 0"
      "lr_filled (he_b s0) = 0" "he_armed_at_ms s0 = t" "he_state s0 = HsSubmitting" "he_protective_actions s0 = []"
    using assms(1) by (auto simp: arm_def leg_report_new_def split: if_splits)
  let ?s1 = "fst (hedge_tick now h s0)"
  have d: "he_state ?s1 = HsDone \<and> he_outcome ?s1 = Some HoBothFailedClean \<and> he_protective_actions ?s1 = [] \<and>
      size_a ?s1 = 0 \<and> size_b ?s1 = 0"
    using s0 assms(2)
    by (simp add: hedge_tick_def submit_deadline_def timeout_leg_def refresh_state_def balanced_outcome_def
        hedge_finish_def leg_is_live_def took_action_def demand_due_def Let_def size_a_def size_b_def)
  then have s: "he_state s = HsDone" "he_outcome s = Some HoBothFailedClean" "he_protective_actions s = []"
      "size_a s = q" "size_b s = 0"
    using assms(3,4) by (simp_all add: leg_filled_def refresh_done size_a_def size_b_def)
  have "hedge_inv s" using assms(4) inv_filled tick_inv arm_inv [OF assms(1)] by simp
  then have "he_outcome (run hedge_step s xs) = he_outcome s \<and>
      he_protective_actions (run hedge_step s xs) = he_protective_actions s" for xs
    using s(1) done_step hedge.step_inv by (induction xs arbitrary: s) auto
  then show ?thesis using s by simp
qed

section \<open>Witnesses\<close>

definition demo_hook :: protective_hook where
  "demo_hook d t = Some \<lparr>pa_leg = \<lparr>hl_venue = ''kalshi'', hl_token = ''k''\<rparr>,
     pa_kind = (case d of DemandReHedge _ _ \<Rightarrow> PkReHedge | DemandForceUnwind _ _ \<Rightarrow> PkForceUnwind), pa_at_ms = t\<rparr>"

definition unwind_hook :: protective_hook where
  "unwind_hook d t = (case d of DemandReHedge _ _ \<Rightarrow> None | DemandForceUnwind _ _ \<Rightarrow> demo_hook d t)"

definition demo_execution :: hedge_execution where
  "demo_execution = (case arm ''x'' ''e'' (\<lparr>hl_venue = ''polymarket'', hl_token = ''p''\<rparr>, LegUp)
     (\<lparr>hl_venue = ''kalshi'', hl_token = ''k''\<rparr>, LegDown) 0 of Inr s \<Rightarrow> s)"

lemma demo_arm: "arm ''x'' ''e'' (\<lparr>hl_venue = ''polymarket'', hl_token = ''p''\<rparr>, LegUp)
     (\<lparr>hl_venue = ''kalshi'', hl_token = ''k''\<rparr>, LegDown) 0 = Inr demo_execution"
  by (simp add: demo_execution_def arm_def)

definition naked_execution :: hedge_execution where
  "naked_execution = run hedge_step demo_execution [HFill LegA 10 (6 / 10) 100]"

theorem hedge_machine_invariant_witness: "hedge_inv (run hedge_step demo_execution [HFill LegA 10 (6 / 10) 100])"
  by (rule hedge_machine_invariant [OF demo_arm])

lemma naked_facts:
  "he_state naked_execution = HsProtecting" "he_naked_since_ms naked_execution = Some 100"
  "he_protective_in_flight naked_execution = None" "length (he_protective_actions naked_execution) = 0"
  "he_outcome naked_execution = None"
  by code_simp+

theorem hedge_protection_escalates_witness:
  "0 < length (he_protective_actions (run hedge_step naked_execution
     [HTick 2100 unwind_hook, HTick 2101 unwind_hook, HTick 2102 unwind_hook]))"
proof -
  have h: "unwind_hook (DemandForceUnwind l q) t \<noteq> None" for l q t
    by (simp add: unwind_hook_def demo_hook_def)
  show ?thesis
    using hedge_protection_escalates [OF demo_arm, of naked_execution "[HFill LegA 10 (6 / 10) 100]" 100
        "[(2100, unwind_hook), (2101, unwind_hook), (2102, unwind_hook)]"] naked_facts h
    by (simp add: naked_execution_def NAKED_LEG_DEADLINE_MS_def)
qed

theorem hedge_one_order_per_gap_witness:
  "length (he_protective_actions (run hedge_step naked_execution [HTick 2100 demo_hook, HTick 9000 demo_hook])) \<le> 1"
  using hedge_one_order_per_gap [OF demo_arm, of naked_execution "[HFill LegA 10 (6 / 10) 100]"
      "[HTick 2100 demo_hook, HTick 9000 demo_hook]"] naked_facts
  by (simp add: naked_execution_def)

definition rehedged_execution :: hedge_execution where
  "rehedged_execution = run hedge_step demo_execution [HFill LegA 10 (6 / 10) 100, HTick 2100 demo_hook]"

theorem hedge_failed_order_strands_the_leg_witness:
  "length (he_protective_actions (run hedge_step (leg_failed LegB 2200 rehedged_execution)
     [HTick 5000 demo_hook, HTick 100000 demo_hook])) = 1 \<and>
   he_state (run hedge_step (leg_failed LegB 2200 rehedged_execution)
     [HTick 5000 demo_hook, HTick 100000 demo_hook]) = HsProtecting"
proof -
  have "he_protective_in_flight rehedged_execution = Some (PkReHedge, 10)"
      "length (he_protective_actions rehedged_execution) = 1"
    by code_simp+
  then show ?thesis
    using hedge_failed_order_strands_the_leg [OF demo_arm, of rehedged_execution
        "[HFill LegA 10 (6 / 10) 100, HTick 2100 demo_hook]" PkReHedge 10
        "[HTick 5000 demo_hook, HTick 100000 demo_hook]" _ LegB 2200]
    by (simp add: rehedged_execution_def)
qed

theorem hedge_outcome_truthful_witness:
  "truthful HoBothFilled (hedge_step naked_execution (HFill LegB 10 (3 / 10) 200))"
proof -
  have "he_outcome (hedge_step naked_execution (HFill LegB 10 (3 / 10) 200)) = Some HoBothFilled"
    by code_simp
  from hedge_outcome_truthful [OF demo_arm naked_execution_def naked_facts(5) this]
  show ?thesis by (rule conjunct1)
qed

theorem hedge_late_fill_is_unwatched_witness:
  "size_a (leg_filled LegA 10 (6 / 10) 700 (fst (hedge_tick 500 demo_hook demo_execution))) = 10"
proof -
  have a: "0 + SUBMIT_DEADLINE_MS \<le> 500" and b: "0 < (10 :: decimal)" by (simp_all add: SUBMIT_DEADLINE_MS_def)
  show ?thesis by (rule conjunct1 [OF conjunct2 [OF hedge_late_fill_is_unwatched [OF demo_arm a b refl]]])
qed

end
