(* ===== verification/UnifiedProps.thy ===== *)
theory UnifiedProps
  imports Unified
begin

text \<open>
  What the cross-venue mapping guarantees: the confirmation ledger keeps its events well formed, one
  listing in at most one event, over any sequence of confirmations and revocations; its file restores
  it; a proposed candidate passes the operator's gate; the hedge verdict implies agreement with the
  FIRST listing, and only that.
\<close>

section \<open>Similarities\<close>

lemma finite_tokens [simp]: "finite (tokens s)"
  by (simp add: tokens_def)

lemma jaccard_commute: "jaccard a b = jaccard b a"
  by (auto simp: jaccard_def Let_def Int_commute [of b] add.commute [of "card b"])

lemma jaccard_unit:
  assumes "finite a" "finite b"
  shows "0 \<le> jaccard a b \<and> jaccard a b \<le> 1"
proof (cases "a \<inter> b = {}")
  case True
  then show ?thesis by (simp add: jaccard_def)
next
  case False
  have ie: "card a + card b - card (a \<inter> b) = card (a \<union> b)"
    using card_Un_Int [OF assms] by simp
  have "card (a \<inter> b) \<le> card (a \<union> b)" using assms by (intro card_mono) auto
  moreover have "0 < card (a \<union> b)" using False assms by (auto simp: card_gt_0_iff)
  ultimately have "0 \<le> of_nat (card (a \<inter> b)) / (of_nat (card (a \<union> b)) :: rat)"
      "of_nat (card (a \<inter> b)) / (of_nat (card (a \<union> b)) :: rat) \<le> 1"
    by (simp_all add: divide_le_eq)
  then show ?thesis
    using False f64_round_unit by (auto simp: jaccard_def Let_def ie)
qed

lemma jaccard_self: "finite a \<Longrightarrow> a \<noteq> {} \<Longrightarrow> jaccard a a = 1"
  by (simp add: jaccard_def Let_def)

lemma title_similarity_commute: "title_similarity a b = title_similarity b a"
  by (simp add: title_similarity_def jaccard_commute)

lemma assets_compatible_commute: "assets_compatible a b = assets_compatible b a"
  by (auto simp: assets_compatible_def eq_ignore_ascii_case_def split: option.splits)

lemma pair_refusal_None:
  "pair_refusal a b = None \<longleftrightarrow> assets_compatible a b \<and> MIN_CONFIRM_TITLE_SIMILARITY \<le> title_similarity a b"
  by (auto simp: pair_refusal_def assets_compatible_def Let_def split: option.splits)

lemma pair_refusal_commute: "pair_refusal a b = None \<longleftrightarrow> pair_refusal b a = None"
  by (simp add: pair_refusal_None title_similarity_commute [of a] assets_compatible_commute [of a])

lemma first_some_None: "first_some f xs = None \<longleftrightarrow> (\<forall>x \<in> set xs. f x = None)"
  by (induction xs) (auto split: option.splits)

lemma pairs_refusal_None: "pairs_refusal xs = None \<longleftrightarrow> sorted_wrt (\<lambda>x y. pair_refusal x y = None) xs"
  proof (induction xs)
  case (Cons x xs)
  then show ?case
    using first_some_None [of "pair_refusal x" xs] by (cases "first_some (pair_refusal x) xs") auto
qed simp

lemma pairs_refusal_all:
  assumes "pairs_refusal xs = None" and "x \<in> set xs" "y \<in> set xs" "x \<noteq> y"
  shows "pair_refusal x y = None"
proof -
  obtain i j where ij: "x = xs ! i" "y = xs ! j" "i < length xs" "j < length xs" "i \<noteq> j"
    using assms(2-4) by (metis in_set_conv_nth)
  then show ?thesis
    using assms(1) pair_refusal_commute [of x y]
    by (cases "i < j") (auto simp: pairs_refusal_None sorted_wrt_iff_nth_less)
qed

section \<open>Discrepancies\<close>

definition kinds_between :: "platform_listing \<Rightarrow> platform_listing \<Rightarrow> discrepancy_kind set" where
  "kinds_between f l =
     (if source_equal (pl_source f) (pl_source l) then {} else {DkSettlementSource}) \<union>
     (if rules_disagree (pl_rules f) (pl_rules l) then {DkSettlementRules} else {}) \<union>
     (if \<bar>pl_expires_at_ms f - pl_expires_at_ms l\<bar> > EXPIRY_HARD_GAP_MS then {DkExpiryGap} else {})"

lemma set_push_new [simp]: "set (push_new k ks) = insert k (set ks)"
  by (auto simp: push_new_def)

lemma set_compare_listing: "set (compare_listing f l d) = set d \<union> kinds_between f l"
  by (simp add: compare_listing_def kinds_between_def Let_def)

lemma set_find_discrepancies:
  "set (find_discrepancies ls) = (\<Union>l \<in> set (tl ls). kinds_between (hd ls) l)"
proof -
  have "set (fold (compare_listing f) os d) = set d \<union> (\<Union>l \<in> set os. kinds_between f l)" for f os d
    by (induction os arbitrary: d) (auto simp: set_compare_listing)
  then show ?thesis by (cases ls) (auto simp: find_discrepancies_def)
qed

lemma find_discrepancies_distinct: "distinct (find_discrepancies ls)"
proof -
  have p: "distinct d \<Longrightarrow> distinct (push_new k d)" for k :: discrepancy_kind and d
    by (simp add: push_new_def)
  have "distinct d \<Longrightarrow> distinct (fold (compare_listing f) os d)" for f os d
    by (induction os arbitrary: d) (auto simp: compare_listing_def Let_def p)
  then show ?thesis by (cases ls) (auto simp: find_discrepancies_def)
qed

lemma revalidate_sel [simp]:
  "ue_id (revalidate e) = ue_id e" "ue_listings (revalidate e) = ue_listings e"
  "event_listings (revalidate e) = event_listings e"
  by (simp_all add: revalidate_def event_listings_def)

lemma revalidate_idem [simp]: "revalidate (revalidate e) = revalidate e"
  by (simp add: revalidate_def event_listings_def)

lemma verdict_allowed:
  "verdict_for_event (revalidate e) = HvAllowed e' \<longleftrightarrow> e' = revalidate e \<and>
     (\<forall>l \<in> set (event_listings e). pl_status l = LsActive) \<and>
     (\<forall>l \<in> set (tl (event_listings e)). kinds_between (hd (event_listings e)) l = {})"
proof -
  have "ue_discrepancies (revalidate e) = [] \<longleftrightarrow>
    (\<forall>l \<in> set (tl (event_listings e)). kinds_between (hd (event_listings e)) l = {})"
    using set_find_discrepancies [of "event_listings e"] by (auto simp: revalidate_def)
  moreover have "ue_status (revalidate e) = EvPaired \<longleftrightarrow> (\<forall>l \<in> set (event_listings e). pl_status l = LsActive)"
    by (simp add: revalidate_def list_all_iff)
  ultimately show ?thesis by (auto simp: verdict_for_event_def)
qed

text \<open>An allowed event of two or more listings agrees with its first listing.\<close>

lemma allowed_agrees:
  assumes "verdict_for_event (revalidate e) = HvAllowed e'" and "2 \<le> length (event_listings e)"
    and "l \<in> set (event_listings e)"
  shows "pl_status l = LsActive \<and> pl_source l \<noteq> SrcUnknown \<and> pl_source l = pl_source (hd (event_listings e)) \<and>
    \<bar>pl_expires_at_ms (hd (event_listings e)) - pl_expires_at_ms l\<bar> \<le> EXPIRY_HARD_GAP_MS"
proof -
  obtain f os where fo: "event_listings e = f # os" "os \<noteq> []"
    using assms(2) by (cases "event_listings e") (auto simp: Suc_le_eq)
  have k: "\<forall>l \<in> set os. kinds_between f l = {}" and act: "pl_status l = LsActive"
    using assms(1,3) by (auto simp: verdict_allowed fo)
  have o: "source_equal (pl_source f) (pl_source x) \<and>
      \<bar>pl_expires_at_ms f - pl_expires_at_ms x\<bar> \<le> EXPIRY_HARD_GAP_MS" if "x \<in> set os" for x
    using k that by (auto simp: kinds_between_def split: if_splits)
  obtain l0 where "l0 \<in> set os" using fo(2) by (cases os) auto
  then have f: "pl_source f \<noteq> SrcUnknown" using o by (auto simp: source_equal_def split: if_splits)
  show ?thesis
    using act f assms(3) o [of l] fo by (auto simp: source_equal_def EXPIRY_HARD_GAP_MS_def split: if_splits)
qed

text \<open>An event of two or more listings whose verdict allows a hedge has every listing active and
  one known settlement source throughout, and no listing closes more than the hard gap away from the
  first one; so any two of its listings close within twice the hard gap.\<close>

theorem hedge_verdict_sound:
  assumes "verdict_for_event (revalidate e) = HvAllowed e'" and "2 \<le> length (event_listings e)"
    and "a \<in> set (event_listings e)" and "b \<in> set (event_listings e)"
  shows "pl_status a = LsActive \<and> pl_source a \<noteq> SrcUnknown \<and> pl_source a = pl_source b \<and>
    \<bar>pl_expires_at_ms (hd (event_listings e)) - pl_expires_at_ms a\<bar> \<le> EXPIRY_HARD_GAP_MS \<and>
    \<bar>pl_expires_at_ms a - pl_expires_at_ms b\<bar> \<le> 2 * EXPIRY_HARD_GAP_MS"
  using allowed_agrees [OF assms(1,2,3)] allowed_agrees [OF assms(1,2,4)] by auto

section \<open>Confirmation and revocation\<close>

definition event_ok :: "unified_event \<Rightarrow> bool" where
  "event_ok e \<longleftrightarrow> revalidate e = e \<and> bt_sorted (ue_listings e) \<and> 2 \<le> length (ue_listings e) \<and>
     (\<forall>(v, l) \<in> set (ue_listings e). pl_venue l = v) \<and>
     (\<forall>a \<in> set (event_listings e). \<forall>b \<in> set (event_listings e). a \<noteq> b \<longrightarrow>
        assets_compatible a b \<and> MIN_CONFIRM_TITLE_SIMILARITY \<le> title_similarity a b)"

definition mapping_inv :: "mapping_ledger \<Rightarrow> bool" where
  "mapping_inv m \<longleftrightarrow> bt_sorted (ml_events m) \<and>
     (\<forall>(k, e) \<in> set (ml_events m). ue_id e = k \<and> event_ok e) \<and>
     (\<forall>(k, e) \<in> set (ml_events m). \<forall>(k', e') \<in> set (ml_events m). \<forall>v c.
        holds_listing v c e \<longrightarrow> holds_listing v c e' \<longrightarrow> k = k')"

lemma by_venue_ok:
  assumes "by_venue m ls = Inr bv" and "bt_sorted m"
  shows "bt_sorted bv \<and> set bv = set m \<union> (\<lambda>l. (pl_venue l, l)) ` set ls \<and> length bv = length m + length ls"
  using assms
proof (induction ls arbitrary: m)
  case (Cons l ls)
  let ?n = "bt_insert (pl_venue l) l m"
  have new: "map_of m (pl_venue l) = None" using Cons.prems(1) by (auto split: if_splits)
  then have "{e \<in> set m. fst e \<noteq> pl_venue l} = set m" by (auto simp: map_of_eq_None_iff image_iff)
  then have s: "set ?n = insert (pl_venue l, l) (set m)" using set_bt_insert [OF Cons.prems(2)] by simp
  have d: "distinct ?n" "distinct m"
    using bt_sorted_distinct [of ?n] bt_sorted_distinct [OF Cons.prems(2)] Cons.prems(2)
    by (auto simp: distinct_map)
  have "(pl_venue l, l) \<notin> set m" using new by (force simp: map_of_eq_None_iff)
  then have "length ?n = Suc (length m)" using s d by (metis card_insert_disjoint distinct_card finite_set)
  then show ?case
    using Cons.IH [of ?n] Cons.prems new s by (auto split: if_splits)
qed simp

lemma gate_accepts:
  assumes "confirm_gate m ls = Inr bv"
  shows "by_venue [] ls = Inr bv" "2 \<le> length ls" "pairs_refusal (map snd bv) = None"
    "\<forall>l \<in> set ls. mapped_refusal m (format_unified_id ls) l = None"
  using assms by (auto simp: confirm_gate_def first_some_None split: if_splits sum.splits option.splits)

lemma new_event_ok:
  assumes "confirm_gate m ls = Inr bv"
  shows "event_ok (new_event i t ls bv) \<and> ue_id (new_event i t ls bv) = i \<and> ue_listings (new_event i t ls bv) = bv"
proof -
  note g = gate_accepts [OF assms]
  have bv: "bt_sorted bv" "set bv = (\<lambda>l. (pl_venue l, l)) ` set ls" "length bv = length ls"
    using by_venue_ok [OF g(1)] by simp_all
  have "assets_compatible a b \<and> MIN_CONFIRM_TITLE_SIMILARITY \<le> title_similarity a b"
    if "a \<in> snd ` set bv" "b \<in> snd ` set bv" "a \<noteq> b" for a b
    using pairs_refusal_all [OF g(3), of a b] that by (simp add: pair_refusal_None)
  then show ?thesis
    using bv g(2) by (auto simp: event_ok_def new_event_def event_listings_def image_iff)
qed

lemma holds_new:
  assumes "confirm_gate m ls = Inr bv" and "holds_listing v c (new_event i t ls bv)"
  obtains l where "l \<in> set ls" "pl_venue l = v" "pl_condition_id l = c"
proof -
  obtain l where "map_of bv v = Some l" "pl_condition_id l = c"
    using assms new_event_ok [OF assms(1)] by (auto simp: holds_listing_def split: option.splits)
  moreover have "set bv = (\<lambda>l. (pl_venue l, l)) ` set ls"
    using by_venue_ok [OF gate_accepts(1) [OF assms(1)]] by simp
  ultimately show thesis using that by (auto dest!: map_of_SomeD)
qed

lemma other_events_free:
  assumes inv: "mapping_inv m" and "mapped_refusal m i l = None" and e: "(k, e) \<in> set (ml_events m)"
    and h: "holds_listing (pl_venue l) (pl_condition_id l) e"
  shows "k = i"
proof -
  let ?h = "holds_listing (pl_venue l) (pl_condition_id l)"
  have "List.find ?h (map snd (ml_events m)) \<noteq> None" using e h by (auto simp: find_None_iff image_iff)
  then obtain f where f: "List.find ?h (map snd (ml_events m)) = Some f" by auto
  from find_Some_prop [OF this] obtain k' where k': "(k', f) \<in> set (ml_events m)" "?h f" by auto
  have "ue_id f = i"
    using assms(2) f by (auto simp: mapped_refusal_def find_by_listing_def split: if_splits)
  moreover have "ue_id f = k'" "k = k'" using inv e k' h unfolding mapping_inv_def by blast+
  ultimately show ?thesis by simp
qed

lemma confirm_inv:
  assumes "mapping_inv (fst s)"
  shows "mapping_inv (fst (fst (confirm enc io title actor ls at_ms s)))"
proof -
  obtain m f where s: "s = (m, f)" by (cases s)
  show ?thesis
  proof (cases "confirm_gate m ls")
    case (Inl e)
    then show ?thesis using assms by (simp add: confirm_def s)
  next
    case (Inr bv)
    let ?i = "format_unified_id ls" and ?e = "new_event (format_unified_id ls) title ls bv"
    have inv: "mapping_inv m" using assms by (simp add: s)
    then have srt: "bt_sorted (ml_events m)" by (simp add: mapping_inv_def)
    note ok = new_event_ok [OF Inr, of ?i title]
    have set': "set (bt_insert ?i ?e (ml_events m)) = insert (?i, ?e) {x \<in> set (ml_events m). fst x \<noteq> ?i}"
      by (rule set_bt_insert [OF srt])
    have free: "k = ?i" if "(k, e) \<in> set (ml_events m)" "holds_listing v c e" "holds_listing v c ?e" for k e v c
      using that other_events_free [OF inv] gate_accepts(4) [OF Inr] holds_new [OF Inr that(3)] by metis
    have "mapping_inv (m\<lparr>ml_events := bt_insert ?i ?e (ml_events m), ml_audit := au\<rparr>)" for au
      using inv ok free unfolding mapping_inv_def by (auto simp: set' srt) blast+
    then show ?thesis by (simp add: confirm_def s Inr Let_def)
  qed
qed

lemma revoke_inv:
  assumes "mapping_inv (fst s)"
  shows "mapping_inv (fst (fst (revoke enc io i actor at_ms s)))"
proof -
  obtain m f where s: "s = (m, f)" by (cases s)
  have "mapping_inv (m\<lparr>ml_events := AList.delete i (ml_events m), ml_audit := au\<rparr>)" for au
    using assms unfolding s mapping_inv_def by (auto simp: set_delete_eq) blast+
  then show ?thesis using assms by (auto simp: revoke_def s Let_def split: option.splits)
qed

datatype mapping_op =
    OpConfirm persist_io string string "platform_listing list" int
  | OpRevoke persist_io string string int

fun mapping_step :: "(ledger_doc \<Rightarrow> 't option) \<Rightarrow> 't mapping_store \<Rightarrow> mapping_op \<Rightarrow> 't mapping_store" where
  "mapping_step enc s (OpConfirm io title actor ls at_ms) = fst (confirm enc io title actor ls at_ms s)"
| "mapping_step enc s (OpRevoke io i actor at_ms) = fst (revoke enc io i actor at_ms s)"

interpretation mapping: invariant_machine "mapping_step enc" "\<lambda>s. mapping_inv (fst s)" for enc
proof
  show "mapping_inv (fst s) \<Longrightarrow> mapping_inv (fst (mapping_step enc s x))" for s x
    using confirm_inv revoke_inv by (cases x) simp_all
qed

lemma mapping_inv_empty [simp]: "mapping_inv (m\<lparr>ml_events := []\<rparr>)" "mapping_inv mapping_ledger_new"
    "mapping_inv (mapping_ledger_at p mapping_ledger_new)"
  by (simp_all add: mapping_inv_def mapping_ledger_new_def mapping_ledger_at_def)

text \<open>C38: after any sequence of confirmations and revocations, whatever the disk answers, every event
  has at least two listings, one per venue, pairwise compatible in asset and title, with its marks and
  status derived from the listings, and no listing belongs to two events.\<close>

theorem mapping_ledger_invariant:
  "mapping_inv (fst (run (mapping_step enc) (mapping_ledger_at p mapping_ledger_new, file) ops))"
  by (rule mapping.run_inv) simp

section \<open>The file\<close>

lemma rebuild_events:
  assumes "bt_sorted m" and "\<forall>(k, e) \<in> set m. ue_id e = k"
  shows "foldl (\<lambda>ev e. bt_insert (ue_id e) e ev) [] (map snd m) = m"
proof -
  have "foldl (\<lambda>ev e. bt_insert (ue_id e) e ev) a (map snd m) = foldl (\<lambda>a (k, v). bt_insert k v a) a m"
    if "\<forall>(k, e) \<in> set m. ue_id e = k" for a m
    using that by (induction m arbitrary: a) auto
  from this [OF assms(2)] show ?thesis using bt_rebuild [of "[]" m] assms(1) by simp
qed

lemma load_restores:
  assumes "mapping_inv m" and "ml_path m = Some p" and "enc (doc_of m) = Some t" and "dec t = Some (doc_of m)"
  shows "mapping_ledger_load dec p (Some t) = m"
proof -
  have inv: "bt_sorted (ml_events m)" "\<forall>(k, e) \<in> set (ml_events m). ue_id e = k \<and> revalidate e = e"
    using assms(1) by (auto simp: mapping_inv_def event_ok_def)
  then have "map (\<lambda>(k, e). (k, revalidate e)) (ml_events m) = ml_events m"
    by (intro map_idI) auto
  moreover have "foldl (\<lambda>ev e. bt_insert (ue_id e) e ev) [] (map snd (ml_events m)) = ml_events m"
    using inv by (intro rebuild_events) auto
  ultimately show ?thesis
    using assms(2,4)
    by (simp add: mapping_ledger_load_def load_from_disk_def mapping_ledger_at_def
        mapping_ledger_new_def doc_of_def Let_def)
qed

fun persisted :: "mapping_op \<Rightarrow> bool" where
  "persisted (OpConfirm io _ _ _ _) \<longleftrightarrow> io = (True, True, True)"
| "persisted (OpRevoke io _ _ _) \<longleftrightarrow> io = (True, True, True)"

definition file_current :: "(ledger_doc \<Rightarrow> 't option) \<Rightarrow> string \<Rightarrow> 't mapping_store \<Rightarrow> bool" where
  "file_current enc p s \<longleftrightarrow> ml_path (fst s) = Some p \<and>
     (snd s = enc (doc_of (fst s)) \<or> s = (mapping_ledger_at p mapping_ledger_new, None))"

lemma step_file_current:
  assumes "file_current enc p s" and "\<And>d. enc d \<noteq> None" and "persisted x"
  shows "file_current enc p (mapping_step enc s x)"
proof -
  have w: "file_current enc p (m', mapping_persist enc (True, True, True) m' f)"
    if "ml_path m' = Some p" for m' f
    using that assms(2) [of "doc_of m'"] by (auto simp: file_current_def mapping_persist_def)
  show ?thesis
    using assms(1,3) w unfolding file_current_def
    by (cases s; cases x) (auto simp: confirm_def revoke_def Let_def split: option.splits sum.splits)
qed

lemma run_file_current:
  "file_current enc p s \<Longrightarrow> (\<And>d. enc d \<noteq> None) \<Longrightarrow> list_all persisted ops \<Longrightarrow>
    file_current enc p (run (mapping_step enc) s ops)"
proof (induction ops arbitrary: s)
  case (Cons x ops)
  then show ?case using step_file_current [of enc p s x] by simp
qed simp

text \<open>When the file is written every time, loading it restores exactly the ledger that was in
  memory: events, marks, statuses and the whole audit trail.\<close>

theorem mapping_survives_restart:
  assumes "\<And>d. \<exists>t. enc d = Some t \<and> dec t = Some d" and "list_all persisted ops"
    and "s = run (mapping_step enc) (mapping_ledger_at p mapping_ledger_new, None) ops"
  shows "mapping_ledger_load dec p (snd s) = fst s"
proof -
  have "file_current enc p s"
    unfolding assms(3)
  proof (rule run_file_current)
    show "enc d \<noteq> None" for d using assms(1) [of d] by auto
  qed (simp_all add: assms(2) file_current_def mapping_ledger_at_def)
  moreover have "mapping_inv (fst s)" unfolding assms(3) by (rule mapping_ledger_invariant)
  moreover have "mapping_ledger_load dec p None = mapping_ledger_at p mapping_ledger_new"
    by (simp add: mapping_ledger_load_def load_from_disk_def mapping_ledger_at_def mapping_ledger_new_def)
  ultimately show ?thesis
    using load_restores [of "fst s" p enc _ dec] assms(1) [of "doc_of (fst s)"]
    by (auto simp: file_current_def)
qed

section \<open>From a candidate to an event\<close>

lemma match_pair_Some:
  "match_pair w a b = Some c \<Longrightarrow> mc_a c = a \<and> mc_b c = b \<and> pl_venue a \<noteq> pl_venue b \<and> assets_compatible a b \<and>
    MIN_TITLE_SIMILARITY \<le> title_similarity a b \<and> \<bar>pl_expires_at_ms a - pl_expires_at_ms b\<bar> \<le> w \<and>
    MIN_CANDIDATE_SCORE \<le> mc_score c"
  by (auto simp: match_pair_def Let_def split: if_splits)

lemma candidates_set:
  "c \<in> set (candidates A B w) \<longleftrightarrow> (\<exists>a \<in> set A. \<exists>b \<in> set B. match_pair w a b = Some c)"
proof -
  have "set (List.map_filter g xs) = {y. \<exists>x \<in> set xs. g x = Some y}" for g :: "platform_listing \<Rightarrow> match_candidate option" and xs
    by (induction xs) (auto simp: List.map_filter_simps split: option.splits)
  then show ?thesis by (auto simp: candidates_def)
qed

lemma candidates_sorted: "sorted (map candidate_key (candidates A B w))"
  by (simp add: candidates_def)

lemma pair_gate_new:
  assumes "pl_venue a \<noteq> pl_venue b" and "assets_compatible a b"
    and "MIN_CONFIRM_TITLE_SIMILARITY \<le> title_similarity a b"
  obtains x y where "confirm_gate mapping_ledger_new [a, b] = Inr [(pl_venue x, x), (pl_venue y, y)]"
    "{x, y} = {a, b}"
proof -
  have f: "mapped_refusal mapping_ledger_new i l = None" for i l
    by (simp add: mapped_refusal_def find_by_listing_def mapping_ledger_new_def)
  have p: "pair_refusal a b = None" "pair_refusal b a = None"
    using assms(2,3) by (simp_all add: pair_refusal_None assets_compatible_commute [of b] title_similarity_commute [of b])
  show thesis
  proof (cases "pl_venue b < pl_venue a")
    case True
    then show thesis using assms(1) p f by (intro that [of b a]) (auto simp: confirm_gate_def)
  next
    case False
    then show thesis using assms(1) p f by (intro that [of a b]) (auto simp: confirm_gate_def)
  qed
qed

text \<open>Whatever the matcher proposes within a window no wider than the hard gap, the operator can
  confirm on a ledger that does not hold the listings, and the event it makes has no expiry mark.\<close>

theorem candidate_is_confirmable:
  assumes "c \<in> set (candidates A B w)" and "w \<le> EXPIRY_HARD_GAP_MS"
  shows "\<exists>e. snd (confirm enc io title actor [mc_a c, mc_b c] at_ms (mapping_ledger_new, f)) = Inr e \<and>
    DkExpiryGap \<notin> set (ue_discrepancies e)"
proof -
  obtain a b where ab: "match_pair w a b = Some c" using assms(1) by (auto simp: candidates_set)
  note m = match_pair_Some [OF ab]
  obtain x y where xy: "confirm_gate mapping_ledger_new [a, b] = Inr [(pl_venue x, x), (pl_venue y, y)]"
      "{x, y} = {a, b}"
    using m by (auto intro: pair_gate_new simp: MIN_TITLE_SIMILARITY_def MIN_CONFIRM_TITLE_SIMILARITY_def)
  have "\<bar>pl_expires_at_ms x - pl_expires_at_ms y\<bar> \<le> EXPIRY_HARD_GAP_MS"
    using xy(2) m assms(2) by (auto simp: doubleton_eq_iff)
  then have "DkExpiryGap \<notin> set (ue_discrepancies (new_event i t [a, b] [(pl_venue x, x), (pl_venue y, y)]))" for i t
    by (auto simp: new_event_def revalidate_def event_listings_def set_find_discrepancies kinds_between_def)
  then show ?thesis using xy(1) m by (simp add: confirm_def Let_def)
qed

section \<open>Three listings\<close>

definition demo_listing :: "venue \<Rightarrow> int \<Rightarrow> platform_listing" where
  "demo_listing v t = \<lparr>pl_venue = v, pl_condition_id = ''c'', pl_up_token = venue_as_str v @ ''-up'',
     pl_down_token = venue_as_str v @ ''-down'', pl_asset = None, pl_title = ''btc'', pl_rules = [],
     pl_source = SrcUma, pl_expires_at_ms = t, pl_status = LsActive\<rparr>"

definition spread_listings :: "platform_listing list" where
  "spread_listings = [demo_listing Polymarket (6 * 3600000), demo_listing Kalshi 0,
     demo_listing PredictFun (12 * 3600000)]"

lemma demo_title [simp]: "title_similarity (demo_listing v s) (demo_listing w t) = 1"
proof -
  have "tokens ''btc'' \<noteq> {}" by code_simp
  then show ?thesis by (simp add: title_similarity_def demo_listing_def jaccard_self)
qed

lemma demo_pair [simp]: "pair_refusal (demo_listing v s) (demo_listing w t) = None"
  using f64_round_unit [of "70 / 100"]
  by (simp add: pair_refusal_None assets_compatible_def MIN_CONFIRM_TITLE_SIMILARITY_def)
    (simp add: demo_listing_def)

lemma demo_sel [simp]:
  "pl_venue (demo_listing v t) = v" "pl_expires_at_ms (demo_listing v t) = t"
  "pl_source (demo_listing v t) = SrcUma" "pl_status (demo_listing v t) = LsActive"
  "pl_rules (demo_listing v t) = []"
  by (simp_all add: demo_listing_def)

lemma trim_empty [simp]: "str_trim [] = []"
proof -
  have "List.find (\<lambda>w. prefix w []) white_space = None"
      "List.find (\<lambda>w. prefix w []) (map rev white_space) = None"
    using white_space_nonempty by (auto simp: find_None_iff)
  then show ?thesis by (simp add: str_trim_def trim_start.simps [of "[]"] trim_rev.simps [of "[]"])
qed

lemma no_rules_agree [simp]: "\<not> rules_disagree [] []"
  by (simp add: rules_disagree_def)

lemma spread_gate:
  "confirm_gate mapping_ledger_new spread_listings = Inr (map (\<lambda>l. (pl_venue l, l)) spread_listings)"
  by (simp add: confirm_gate_def spread_listings_def less_venue_def mapped_refusal_def find_by_listing_def
      mapping_ledger_new_def)

text \<open>The marks compare every listing with the first one only. Three listings, confirmed together,
  of which two close twelve hours apart (twice the bound beyond which two listings cannot describe one
  event) get no mark, and the verdict allows hedging them.\<close>

theorem verdict_misses_a_pair:
  "\<exists>e. snd (confirm Some (True, True, True) ''BTC'' ''operator'' spread_listings 0 (mapping_ledger_new, None)) = Inr e \<and>
     verdict_for_event e = HvAllowed e \<and> demo_listing Kalshi 0 \<in> set (event_listings e) \<and>
     demo_listing PredictFun (12 * 3600000) \<in> set (event_listings e) \<and> 12 * 3600000 = 2 * EXPIRY_HARD_GAP_MS"
proof -
  let ?bv = "map (\<lambda>l. (pl_venue l, l)) spread_listings"
  let ?e = "new_event (format_unified_id spread_listings) ''BTC'' spread_listings ?bv"
  have l: "event_listings ?e = spread_listings"
    by (simp add: new_event_def event_listings_def comp_def)
  have "verdict_for_event ?e = HvAllowed ?e"
    using verdict_allowed l unfolding new_event_def
    by (simp add: event_listings_def comp_def)
      (simp add: spread_listings_def kinds_between_def source_equal_def EXPIRY_HARD_GAP_MS_def)
  then show ?thesis
    using l by (intro exI [of _ ?e]) (simp add: confirm_def spread_gate Let_def, simp add: spread_listings_def EXPIRY_HARD_GAP_MS_def)
qed

section \<open>Witnesses\<close>

definition pair_event :: unified_event where
  "pair_event = revalidate \<lparr>ue_id = ''e'', ue_title = [], ue_rules = [], ue_source = SrcUma,
     ue_listings = [(Polymarket, demo_listing Polymarket 0), (Kalshi, demo_listing Kalshi 5)],
     ue_discrepancies = [], ue_status = EvPaired\<rparr>"

theorem hedge_verdict_sound_witness:
  "\<bar>pl_expires_at_ms (demo_listing Polymarket 0) - pl_expires_at_ms (demo_listing Kalshi 5)\<bar>
     \<le> 2 * EXPIRY_HARD_GAP_MS"
proof -
  have l: "event_listings pair_event = [demo_listing Polymarket 0, demo_listing Kalshi 5]"
    by (simp add: pair_event_def event_listings_def)
  then have "verdict_for_event (revalidate pair_event) = HvAllowed (revalidate pair_event)"
    by (simp add: verdict_allowed kinds_between_def source_equal_def EXPIRY_HARD_GAP_MS_def)
  from hedge_verdict_sound [OF this, of "demo_listing Polymarket 0" "demo_listing Kalshi 5"] l
  show ?thesis by simp
qed

theorem mapping_survives_restart_witness:
  "mapping_ledger_load Some ''p'' (snd (run (mapping_step Some) (mapping_ledger_at ''p'' mapping_ledger_new, None)
      [OpConfirm (True, True, True) ''BTC'' ''operator'' spread_listings 0])) =
    fst (run (mapping_step Some) (mapping_ledger_at ''p'' mapping_ledger_new, None)
      [OpConfirm (True, True, True) ''BTC'' ''operator'' spread_listings 0])"
  by (rule mapping_survives_restart [where enc = Some, OF _ _ refl]) simp_all

theorem candidate_is_confirmable_witness:
  "\<exists>e. snd (confirm Some (True, True, True) ''BTC'' ''operator''
     [demo_listing Polymarket 0, demo_listing Kalshi 0] 0 (mapping_ledger_new, None)) = Inr e"
proof -
  have "f64_round (85 / 100) \<ge> f64_round (80 / 100)" by (rule f64_round_mono) simp
  have "candidate_score 1 0 (expiry_factor 0 600000) \<ge> MIN_CANDIDATE_SCORE" by code_simp
  moreover have "1 \<ge> MIN_TITLE_SIMILARITY" by code_simp
  moreover have "jaccard (tokens []) (tokens []) = 0" by code_simp
  ultimately have "\<exists>c. match_pair 600000 (demo_listing Polymarket 0) (demo_listing Kalshi 0) = Some c"
    by (simp add: match_pair_def Let_def assets_compatible_def not_less) (simp add: demo_listing_def)
  then obtain c where c: "match_pair 600000 (demo_listing Polymarket 0) (demo_listing Kalshi 0) = Some c" ..
  then have "c \<in> set (candidates [demo_listing Polymarket 0] [demo_listing Kalshi 0] 600000)"
    by (simp add: candidates_set)
  from candidate_is_confirmable [OF this, of Some "(True, True, True)" "''BTC''" "''operator''" 0 None]
  show ?thesis using match_pair_Some [OF c] by (auto simp: EXPIRY_HARD_GAP_MS_def)
qed

end
