(* ===== verification/HedgePlanProps.thy ===== *)
theory HedgePlanProps
  imports UnifiedProps Hedge "HOL-Library.Multiset"
begin

text \<open>
  The gates around the two-leg machine: what a plan that passed the feasibility gate guarantees about
  its event and its fees, and what it does not; the joint risk caps; the merged exposure; and the
  settlement aligner, which depends on the last report of each venue and looks at two venues only.
\<close>

section \<open>The feasibility gate\<close>

lemma assess_Inr:
  "assess e edge a b sched = Inr p \<longleftrightarrow> verdict_for_event e = HvAllowed e \<and> pg_token a \<noteq> pg_token b \<and>
     {pg_token a, pg_token b} \<subseteq> set (event_tokens e) \<and> pg_side a \<noteq> pg_side b \<and> \<not> bad_quote a \<and> \<not> bad_quote b \<and>
     p = \<lparr>hp_event_id = ue_id e, hp_legs = (a, b), hp_fees = (fee_quote_of sched a, fee_quote_of sched b),
       hp_gross_edge_per_share = edge, hp_total_fees_usd = leg_fee_usd sched a + leg_fee_usd sched b,
       hp_net_edge_usd = edge * pg_size a - (leg_fee_usd sched a + leg_fee_usd sched b),
       hp_viable = (0 < edge * pg_size a - (leg_fee_usd sched a + leg_fee_usd sched b))\<rparr>"
proof -
  have "verdict_for_event e = HvAllowed e' \<Longrightarrow> e' = e" for e'
    by (auto simp: verdict_for_event_def split: if_splits)
  then show ?thesis
    by (auto simp: assess_def fee_quote_of_def Let_def split: hedge_verdict.splits if_splits)
qed

lemma ledger_event_ok:
  assumes "(k, e) \<in> set (ml_events (fst (run (mapping_step enc) (mapping_ledger_at pth mapping_ledger_new, f) ops)))"
  shows "event_ok e"
proof -
  have "mapping_inv (fst (run (mapping_step enc) (mapping_ledger_at pth mapping_ledger_new, f) ops))"
    by (rule mapping.run_inv) simp
  with assms show ?thesis by (auto simp: mapping_inv_def)
qed

lemma allowed_listings:
  assumes "event_ok e" and "verdict_for_event e = HvAllowed e" and "l \<in> set (event_listings e)"
  shows "pl_status l = LsActive \<and> pl_source l \<noteq> SrcUnknown \<and> pl_source l = pl_source (hd (event_listings e)) \<and>
    \<bar>pl_expires_at_ms (hd (event_listings e)) - pl_expires_at_ms l\<bar> \<le> EXPIRY_HARD_GAP_MS"
proof -
  have r: "revalidate e = e" and n: "2 \<le> length (event_listings e)"
    using assms(1) by (simp_all add: event_ok_def event_listings_def)
  then show ?thesis
    using allowed_agrees [of e e l] assms(2,3) by metis
qed

text \<open>C37: a plan that passes the gate on an event of the confirmation ledger is about an event with at
  least two active listings settling from one known source; its two legs hold different tokens of that
  event on opposite sides at prices inside (0, 1) and positive sizes; both legs' fees are charged, and it
  is viable exactly when the edge exceeds them.\<close>

theorem plan_only_on_sound_events:
  assumes "(k, e) \<in> set (ml_events (fst (run (mapping_step enc) (mapping_ledger_at pth mapping_ledger_new, f) ops)))"
    and "assess e edge a b sched = Inr p" and "l \<in> set (event_listings e)"
  shows "2 \<le> length (event_listings e) \<and> pl_status l = LsActive \<and> pl_source l \<noteq> SrcUnknown \<and>
    pl_source l = pl_source (hd (event_listings e)) \<and>
    pg_token a \<noteq> pg_token b \<and> {pg_token a, pg_token b} \<subseteq> set (event_tokens e) \<and> pg_side a \<noteq> pg_side b \<and>
    \<not> bad_quote a \<and> \<not> bad_quote b \<and>
    hp_total_fees_usd p = fee_per_share sched (pg_price a) * pg_size a + fee_per_share sched (pg_price b) * pg_size b \<and>
    hp_viable p = (hp_total_fees_usd p < edge * pg_size a)"
proof -
  note ok = ledger_event_ok [OF assms(1)] and p = assms(2) [unfolded assess_Inr]
  have "2 \<le> length (event_listings e)" using ok by (simp add: event_ok_def event_listings_def)
  moreover have "pl_status l = LsActive \<and> pl_source l \<noteq> SrcUnknown \<and> pl_source l = pl_source (hd (event_listings e))"
    using p allowed_listings [OF ok _ assms(3)] by metis
  moreover have "hp_total_fees_usd p = fee_per_share sched (pg_price a) * pg_size a + fee_per_share sched (pg_price b) * pg_size b \<and>
      hp_viable p = (hp_total_fees_usd p < edge * pg_size a)"
    using p by (simp add: leg_fee_usd_def)
  ultimately show ?thesis using p by metis
qed

definition plan_leg_of :: "platform_listing \<Rightarrow> token_id \<Rightarrow> leg_side \<Rightarrow> decimal \<Rightarrow> plan_leg" where
  "plan_leg_of l tok sd q = \<lparr>pg_venue = pl_venue l, pg_token = tok, pg_side = sd, pg_price = 1 / 2, pg_size = q\<rparr>"

lemma pair_event_listings: "event_listings pair_event = [demo_listing Polymarket 0, demo_listing Kalshi 5]"
  by (simp add: pair_event_def event_listings_def)

lemma pair_event_allowed: "verdict_for_event pair_event = HvAllowed pair_event"
proof -
  have "revalidate pair_event = pair_event" by (simp add: pair_event_def)
  then show ?thesis
    using verdict_allowed [of pair_event pair_event]
    by (simp add: pair_event_listings kinds_between_def source_equal_def EXPIRY_HARD_GAP_MS_def)
qed

text \<open>The gate does not look at which token a leg buys. A plan that buys the UP token on both
  venues, with the sides labelled up and down, passes it and is viable: both legs win and lose together.\<close>

theorem plan_accepts_two_up_tokens:
  "\<exists>p. assess pair_event (1 / 10)
       (plan_leg_of (demo_listing Polymarket 0) (pl_up_token (demo_listing Polymarket 0)) LegUp 10)
       (plan_leg_of (demo_listing Kalshi 5) (pl_up_token (demo_listing Kalshi 5)) LegDown 10)
       legacy_quadratic_schedule = Inr p \<and> hp_viable p"
  by (simp add: assess_Inr pair_event_allowed plan_leg_of_def bad_quote_def event_tokens_def
      pair_event_listings leg_fee_usd_def legacy_quadratic_schedule_def fee_per_share_eq)
    (simp add: demo_listing_def power2_eq_square)

text \<open>The edge is counted on the first leg's size, the hedge is only as large as the shorter leg. A
  plan of 10 shares against 1 is viable although the edge on the one hedged share is below its fees.\<close>

theorem plan_counts_unhedged_edge:
  "\<exists>p. assess pair_event (2 / 100)
       (plan_leg_of (demo_listing Polymarket 0) (pl_up_token (demo_listing Polymarket 0)) LegUp 10)
       (plan_leg_of (demo_listing Kalshi 5) (pl_down_token (demo_listing Kalshi 5)) LegDown 1)
       legacy_quadratic_schedule = Inr p \<and> hp_viable p \<and>
     hp_gross_edge_per_share p * hedge_size p < hp_total_fees_usd p"
  by (simp add: assess_Inr pair_event_allowed plan_leg_of_def bad_quote_def event_tokens_def
      pair_event_listings leg_fee_usd_def legacy_quadratic_schedule_def fee_per_share_eq hedge_size_def)
    (simp add: demo_listing_def power2_eq_square)

lemma fee_drag_viable:
  assumes "assess e edge a b sched = Inr p"
  shows "hp_viable p = (fee_drag_per_share exact_dec p < edge)"
  using assms by (auto simp: assess_Inr fee_drag_per_share_def bad_quote_def pos_divide_less_eq)

section \<open>Caps and exposure\<close>

lemma sum_bt_insert:
  fixes m :: "(string \<times> decimal) list"
  assumes "bt_sorted m"
  shows "sum_list (map snd (bt_insert k v m)) = sum_list (map snd m) - held m k + v"
  using assms
proof (induction m)
  case (Cons e m)
  have "held m k = 0" if "k < fst e"
    using Cons.prems that by (force simp: bt_sorted_def held_def split: option.splits dest: map_of_SomeD)
  then show ?case using Cons by (cases e) (auto simp: bt_sorted_def held_def)
qed (simp add: held_def)

text \<open>Adding a notional the joint gate accepted keeps that event under the event cap and the sum
  of all events under the total cap.\<close>

theorem joint_gate_keeps_caps:
  assumes "joint_check g m ev n = Inr ()" and "bt_sorted m" and "m' = bt_insert ev (held m ev + n) m"
  shows "held m' ev \<le> jg_event_cap g \<and> sum_list (map snd m') \<le> jg_total_cap g"
  using assms(1) sum_bt_insert [OF assms(2), of ev "held m ev + n"] assms(2,3)
  by (auto simp: joint_check_def Let_def held_def split: if_splits)

lemma merge_permutation:
  assumes "mset ls = mset ls'"
  shows "mp_gross_shares (merge_legs i ls) = mp_gross_shares (merge_legs i ls') \<and>
    mp_net_direction (merge_legs i ls) = mp_net_direction (merge_legs i ls') \<and>
    mp_notional_usd (merge_legs i ls) = mp_notional_usd (merge_legs i ls') \<and>
    mp_hedged (merge_legs i ls) = mp_hedged (merge_legs i ls')"
proof -
  have "sum_list (map f (sort_key k xs)) = sum_mset (image_mset f (mset xs))" for f :: "leg_position \<Rightarrow> decimal" and k :: "leg_position \<Rightarrow> string \<times> string" and xs
    using sum_mset_sum_list [of "map f (sort_key k xs)"] by simp
  then show ?thesis using assms by (simp add: merge_legs_def Let_def)
qed

lemma merge_net_le_gross:
  assumes "\<forall>l \<in> set ls. 0 \<le> lp_shares l"
  shows "\<bar>mp_net_direction (merge_legs i ls)\<bar> \<le> mp_gross_shares (merge_legs i ls)"
proof -
  have "\<bar>sum_list (map (\<lambda>l. if lp_side l = ''up'' then lp_shares l else - lp_shares l) xs)\<bar> \<le> sum_list (map lp_shares xs)"
    if "\<forall>l \<in> set xs. 0 \<le> lp_shares l" for xs
    using that by (induction xs) auto
  from this [of "sort_key (\<lambda>l. (lp_venue l, lp_token l)) ls"] show ?thesis
    using assms by (simp add: merge_legs_def Let_def)
qed

section \<open>The settlement aligner\<close>

lemma bt_insert_commute:
  assumes "bt_sorted m" and "k \<noteq> k'"
  shows "bt_insert k v (bt_insert k' v' m) = bt_insert k' v' (bt_insert k v m)"
  using assms by (intro bt_sorted_eqI) (auto simp: fun_upd_twist)

lemma bt_insert_again: "bt_sorted m \<Longrightarrow> bt_insert k v (bt_insert k v' m) = bt_insert k v m"
  by (intro bt_sorted_eqI) auto

definition facts_ok :: "settlement_facts \<Rightarrow> bool" where
  "facts_ok facts \<longleftrightarrow> bt_sorted facts \<and> (\<forall>pv \<in> snd ` set facts. bt_sorted pv)"

lemma facts_of_sorted: "facts_ok facts \<Longrightarrow> bt_sorted (case map_of facts ev of None \<Rightarrow> [] | Some m \<Rightarrow> m)"
  by (auto simp: facts_ok_def split: option.splits dest!: map_of_SomeD_snd)

text \<open>The aligner's state depends on the last report of each venue, not on the order in which two
  venues report; a repeated or corrected report replaces the earlier one.\<close>

theorem aligner_order_independent:
  assumes "facts_ok facts" and "vs_venue x \<noteq> vs_venue y" and "vs_venue x = vs_venue x'"
  shows "fst (align_record ev x (fst (align_record ev y facts))) =
      fst (align_record ev y (fst (align_record ev x facts))) \<and>
    fst (align_record ev x (fst (align_record ev x' facts))) = fst (align_record ev x facts)"
proof -
  let ?pv = "case map_of facts ev of None \<Rightarrow> [] | Some m \<Rightarrow> m"
  have s: "bt_sorted facts" and pv: "bt_sorted ?pv"
    using assms(1) facts_of_sorted by (simp_all add: facts_ok_def)
  have "bt_insert (vs_venue x) x (bt_insert (vs_venue y) y ?pv) = bt_insert (vs_venue y) y (bt_insert (vs_venue x) x ?pv)"
    using pv assms(2) by (rule bt_insert_commute)
  moreover have "bt_insert (vs_venue x) x (bt_insert (vs_venue x') x' ?pv) = bt_insert (vs_venue x) x ?pv"
    using pv assms(3) by (simp add: bt_insert_again)
  ultimately show ?thesis using s by (simp add: align_record_def Let_def bt_insert_again)
qed

text \<open>The aligner compares two venues, the first two in the order of their names. A third venue
  that paid nothing for the winning shares is not seen: the verdict is "aligned".\<close>

theorem aligner_ignores_a_third_venue:
  "\<exists>ks ps pf facts. vs_payout_per_share pf \<noteq> vs_payout_per_share ks \<and>
     facts = fst (align_record ''ev'' pf (fst (align_record ''ev'' ps (fst (align_record ''ev'' ks []))))) \<and>
     map snd (the (map_of facts ''ev'')) = [ks, ps, pf] \<and> align_reconcile ''ev'' facts = Aligned"
proof -
  define v where "v name per = \<lparr>vs_venue = name, vs_payout_usd = per * 10, vs_shares = 10,
     vs_payout_per_share = per\<rparr>" for name :: string and per :: decimal
  let ?f = "fst (align_record ''ev'' (v ''predictfun'' 0) (fst (align_record ''ev'' (v ''polymarket'' 1)
     (fst (align_record ''ev'' (v ''kalshi'' 1) [])))))"
  have "?f = [(''ev'', [(''kalshi'', v ''kalshi'' 1), (''polymarket'', v ''polymarket'' 1),
     (''predictfun'', v ''predictfun'' 0)])]"
    by (simp add: align_record_def Let_def v_def)
  moreover from this have "align_reconcile ''ev'' ?f = Aligned"
    by (simp add: align_reconcile_def v_def PAYOUT_TOLERANCE_USD_def)
  ultimately show ?thesis
    by (intro exI [of _ "v ''kalshi'' 1"] exI [of _ "v ''polymarket'' 1"] exI [of _ "v ''predictfun'' 0"] exI [of _ ?f])
      (simp add: v_def)
qed

section \<open>Witnesses\<close>

definition demo_store :: "ledger_doc mapping_store" where
  "demo_store = run (mapping_step Some) (mapping_ledger_at ''p'' mapping_ledger_new, None)
     [OpConfirm (True, True, True) [] ''op'' [demo_listing Polymarket 0, demo_listing Kalshi 5] 0]"

lemma demo_store_event:
  "\<exists>k e. (k, e) \<in> set (ml_events (fst demo_store)) \<and> verdict_for_event e = HvAllowed e \<and>
     event_listings e = [demo_listing Polymarket 0, demo_listing Kalshi 5]"
proof -
  let ?ls = "[demo_listing Polymarket 0, demo_listing Kalshi 5]"
  let ?bv = "[(Polymarket, demo_listing Polymarket 0), (Kalshi, demo_listing Kalshi 5)]"
  let ?e = "new_event (format_unified_id ?ls) [] ?ls ?bv"
  have g: "confirm_gate (mapping_ledger_at ''p'' mapping_ledger_new) ?ls = Inr ?bv"
    by (simp add: confirm_gate_def less_venue_def mapped_refusal_def find_by_listing_def
        mapping_ledger_new_def mapping_ledger_at_def)
  have l: "event_listings ?e = ?ls" by (simp add: new_event_def event_listings_def)
  then have v: "verdict_for_event ?e = HvAllowed ?e"
    using verdict_allowed unfolding new_event_def
    by (simp add: event_listings_def kinds_between_def source_equal_def EXPIRY_HARD_GAP_MS_def)
  have "(format_unified_id ?ls, ?e) \<in> set (ml_events (fst demo_store))"
    by (simp only: demo_store_def run.simps mapping_step.simps confirm_def g prod.case sum.case Let_def)
      (simp add: mapping_ledger_at_def mapping_ledger_new_def)
  with l v show ?thesis by blast
qed

theorem plan_only_on_sound_events_witness:
  "\<exists>e p. assess e (1 / 10) (plan_leg_of (demo_listing Polymarket 0) ''polymarket-up'' LegUp 10)
       (plan_leg_of (demo_listing Kalshi 5) ''kalshi-down'' LegDown 10) official_schedule = Inr p \<and>
     hp_total_fees_usd p = 20 * fee_per_share official_schedule (1 / 2)"
proof -
  obtain k e where e: "(k, e) \<in> set (ml_events (fst demo_store))" "verdict_for_event e = HvAllowed e"
      "event_listings e = [demo_listing Polymarket 0, demo_listing Kalshi 5]"
    using demo_store_event by blast
  let ?a = "plan_leg_of (demo_listing Polymarket 0) ''polymarket-up'' LegUp 10"
  let ?b = "plan_leg_of (demo_listing Kalshi 5) ''kalshi-down'' LegDown 10"
  have "\<exists>p. assess e (1 / 10) ?a ?b official_schedule = Inr p"
    using e(2,3) by (simp add: assess_Inr plan_leg_of_def bad_quote_def event_tokens_def)
      (simp add: demo_listing_def)
  then obtain p where p: "assess e (1 / 10) ?a ?b official_schedule = Inr p" ..
  have l: "demo_listing Polymarket 0 \<in> set (event_listings e)" using e(3) by simp
  have "hp_total_fees_usd p = 20 * fee_per_share official_schedule (1 / 2)"
    using plan_only_on_sound_events [OF e(1) [unfolded demo_store_def] p l] by (simp add: plan_leg_of_def)
  with p show ?thesis by blast
qed

theorem joint_gate_keeps_caps_witness:
  "held (bt_insert ''e'' 60 [(''e'', 10)]) ''e'' \<le> (100 :: decimal)"
  using joint_gate_keeps_caps [of "\<lparr>jg_total_cap = 1000, jg_event_cap = 100\<rparr>" "[(''e'', 10)]" "''e''" 50]
  by (simp add: joint_check_def bt_sorted_def held_def)

theorem aligner_order_independent_witness:
  "fst (align_record ''e'' \<lparr>vs_venue = ''a'', vs_payout_usd = 1, vs_shares = 1, vs_payout_per_share = 1\<rparr>
     (fst (align_record ''e'' \<lparr>vs_venue = ''b'', vs_payout_usd = 1, vs_shares = 1, vs_payout_per_share = 1\<rparr> []))) =
   fst (align_record ''e'' \<lparr>vs_venue = ''b'', vs_payout_usd = 1, vs_shares = 1, vs_payout_per_share = 1\<rparr>
     (fst (align_record ''e'' \<lparr>vs_venue = ''a'', vs_payout_usd = 1, vs_shares = 1, vs_payout_per_share = 1\<rparr> [])))"
  by (rule conjunct1 [OF aligner_order_independent [of "[]" _ _ "\<lparr>vs_venue = ''a'', vs_payout_usd = 1, vs_shares = 1, vs_payout_per_share = 1\<rparr>"]])
    (simp_all add: facts_ok_def)

end
