(* ===== verification/ExitReasons.thy ===== *)
theory ExitReasons
  imports Types
begin

text \<open>
  The pending-close table of the service layer (\<open>service.rs\<close>, \<open>service/settlement_orders/closing.rs\<close>): for
  every token with a closing order in flight the reason it was submitted with, so that the fill which
  completes the close records the right attribution. A map with its insertion order, bounded, swept when
  positions disappear. The tokens with an open position are an argument of the operations that read them.
\<close>

section \<open>The table\<close>

definition EXIT_REASON_TABLE_MAX :: nat where "EXIT_REASON_TABLE_MAX = 64"

record exit_reason_ledger =
  er_reasons :: "(token_id \<times> exit_reason) list"
  er_order :: "token_id list"
  er_evicted :: nat
  er_swept :: nat

definition exit_reason_ledger_new :: exit_reason_ledger where
  "exit_reason_ledger_new = \<lparr>er_reasons = [], er_order = [], er_evicted = 0, er_swept = 0\<rparr>"

definition repair_exit_reason_order :: "exit_reason_ledger \<Rightarrow> exit_reason_ledger" where
  "repair_exit_reason_order l = l\<lparr>er_order := filter (\<lambda>t. map_of (er_reasons l) t \<noteq> None) (er_order l)\<rparr>"

text \<open>The two loops of the bound: stale entries first, each counted; then the oldest, popped from the
  order and counted when it was still in the map.\<close>

fun evict_ghosts :: "token_id list \<Rightarrow> exit_reason_ledger \<Rightarrow> exit_reason_ledger" where
  "evict_ghosts [] l = l"
| "evict_ghosts (t # ts) l = (if length (er_reasons l) \<le> EXIT_REASON_TABLE_MAX then l
     else evict_ghosts ts (l\<lparr>er_reasons := AList.delete t (er_reasons l), er_evicted := er_evicted l + 1\<rparr>))"

fun evict_oldest :: "token_id list \<Rightarrow> exit_reason_ledger \<Rightarrow> exit_reason_ledger" where
  "evict_oldest [] l = l\<lparr>er_order := []\<rparr>"
| "evict_oldest (t # ts) l = (if length (er_reasons l) \<le> EXIT_REASON_TABLE_MAX then l\<lparr>er_order := t # ts\<rparr>
     else if map_of (er_reasons l) t \<noteq> None
       then evict_oldest ts (l\<lparr>er_reasons := AList.delete t (er_reasons l), er_evicted := er_evicted l + 1\<rparr>)
       else evict_oldest ts l)"

definition enforce_exit_reason_bound :: "token_id set \<Rightarrow> exit_reason_ledger \<Rightarrow> exit_reason_ledger" where
  "enforce_exit_reason_bound opened l =
    (if length (er_reasons l) \<le> EXIT_REASON_TABLE_MAX then l
     else let l1 = evict_ghosts (filter (\<lambda>t. t \<notin> opened) (er_order l)) l
       in repair_exit_reason_order (evict_oldest (er_order l1) l1))"

definition note_exit_reason :: "token_id set \<Rightarrow> token_id \<Rightarrow> exit_reason \<Rightarrow> exit_reason_ledger \<Rightarrow> exit_reason_ledger" where
  "note_exit_reason opened t r l =
    (let fresh = (map_of (er_reasons l) t = None);
         l1 = l\<lparr>er_reasons := AList.update t r (er_reasons l)\<rparr>;
         l2 = (if fresh then l1\<lparr>er_order := er_order l1 @ [t]\<rparr> else l1)
     in enforce_exit_reason_bound opened l2)"

definition take_exit_reason :: "token_id \<Rightarrow> exit_reason_ledger \<Rightarrow> exit_reason_ledger \<times> exit_reason option" where
  "take_exit_reason t l = (case map_of (er_reasons l) t of
     None \<Rightarrow> (l, None)
   | Some r \<Rightarrow> (l\<lparr>er_reasons := AList.delete t (er_reasons l), er_order := filter (\<lambda>u. u \<noteq> t) (er_order l)\<rparr>, Some r))"

definition clear_exit_reason :: "token_id \<Rightarrow> exit_reason_ledger \<Rightarrow> exit_reason_ledger" where
  "clear_exit_reason t l = (case map_of (er_reasons l) t of
     None \<Rightarrow> l
   | Some r \<Rightarrow> l\<lparr>er_reasons := AList.delete t (er_reasons l), er_order := filter (\<lambda>u. u \<noteq> t) (er_order l)\<rparr>)"

definition sweep_exit_reasons :: "token_id set \<Rightarrow> exit_reason_ledger \<Rightarrow> exit_reason_ledger" where
  "sweep_exit_reasons opened l =
    (if er_reasons l = [] then l
     else let stale = filter (\<lambda>t. t \<notin> opened) (map fst (er_reasons l))
       in repair_exit_reason_order (fold (\<lambda>t l. l\<lparr>er_reasons := AList.delete t (er_reasons l),
            er_swept := er_swept l + 1\<rparr>) stale l))"

section \<open>What every operation keeps\<close>

text \<open>The order lists exactly the keys of the map, each once, and the table is within its bound.\<close>

definition mirrored :: "exit_reason_ledger \<Rightarrow> bool" where
  "mirrored l \<longleftrightarrow> distinct (map fst (er_reasons l)) \<and> distinct (er_order l) \<and>
     set (er_order l) = fst ` set (er_reasons l)"

definition reasons_inv :: "exit_reason_ledger \<Rightarrow> bool" where
  "reasons_inv l \<longleftrightarrow> mirrored l \<and> length (er_reasons l) \<le> EXIT_REASON_TABLE_MAX"

text \<open>While a loop of the bound runs, the order may list more than the map.\<close>

definition covered :: "exit_reason_ledger \<Rightarrow> bool" where
  "covered l \<longleftrightarrow> distinct (map fst (er_reasons l)) \<and> distinct (er_order l) \<and>
     fst ` set (er_reasons l) \<subseteq> set (er_order l)"

lemma keys_delete: "fst ` set (AList.delete t m) = fst ` set m - {t}"
  by (auto simp: set_delete_eq image_iff)

lemma mirrored_delete:
  "mirrored l \<Longrightarrow> mirrored (l\<lparr>er_reasons := AList.delete t (er_reasons l), er_order := filter (\<lambda>u. u \<noteq> t) (er_order l)\<rparr>)"
  by (auto simp: mirrored_def keys_delete)

lemma repair_mirrored: "covered l \<Longrightarrow> mirrored (repair_exit_reason_order l)"
  by (auto simp: covered_def mirrored_def repair_exit_reason_order_def map_of_eq_None_iff)

lemma evict_ghosts_covered: "covered l \<Longrightarrow> covered (evict_ghosts ts l)"
  by (induction ts l rule: evict_ghosts.induct) (auto simp: covered_def keys_delete)

lemma evict_ghosts_order [simp]: "er_order (evict_ghosts ts l) = er_order l"
  by (induction ts l rule: evict_ghosts.induct) auto

lemma evict_ghosts_keeps: "t \<notin> set ts \<Longrightarrow> map_of (er_reasons (evict_ghosts ts l)) t = map_of (er_reasons l) t"
  by (induction ts l rule: evict_ghosts.induct) auto

text \<open>Popping the oldest entries ends within the bound and keeps what the rest of the order lists.\<close>

lemma evict_oldest_covered:
  assumes "distinct (map fst (er_reasons l))" and "distinct ts" and "fst ` set (er_reasons l) \<subseteq> set ts"
  shows "covered (evict_oldest ts l) \<and> length (er_reasons (evict_oldest ts l)) \<le> EXIT_REASON_TABLE_MAX"
  using assms
proof (induction ts l rule: evict_oldest.induct)
  case (2 t ts l)
  have d: "distinct (map fst (AList.delete t (er_reasons l)))" using 2 by simp
  have s: "fst ` set (AList.delete t (er_reasons l)) \<subseteq> set ts" using 2 by (auto simp: keys_delete)
  show ?case
  proof (cases "map_of (er_reasons l) t")
    case None
    then have "fst ` set (er_reasons l) \<subseteq> set ts" using 2(5) by (auto simp: map_of_eq_None_iff)
    then show ?thesis using 2 None by (auto simp: covered_def)
  next
    case (Some r)
    then show ?thesis using 2 d s by (auto simp: covered_def)
  qed
qed (auto simp: covered_def)

lemma enforce_inv:
  assumes "mirrored l"
  shows "reasons_inv (enforce_exit_reason_bound opened l)"
proof (cases "length (er_reasons l) \<le> EXIT_REASON_TABLE_MAX")
  case True
  then show ?thesis using assms by (simp add: enforce_exit_reason_bound_def reasons_inv_def)
next
  case False
  let ?l1 = "evict_ghosts (filter (\<lambda>t. t \<notin> opened) (er_order l)) l"
  have "covered ?l1" using assms by (intro evict_ghosts_covered) (auto simp: mirrored_def covered_def)
  then have "covered (evict_oldest (er_order ?l1) ?l1) \<and>
      length (er_reasons (evict_oldest (er_order ?l1) ?l1)) \<le> EXIT_REASON_TABLE_MAX"
    by (intro evict_oldest_covered) (auto simp: covered_def)
  then show ?thesis using False repair_mirrored
    by (simp add: enforce_exit_reason_bound_def reasons_inv_def Let_def)
      (simp add: repair_exit_reason_order_def)
qed

lemma note_mirrored:
  assumes "mirrored l"
  shows "mirrored (let l1 = l\<lparr>er_reasons := AList.update t r (er_reasons l)\<rparr>
    in if map_of (er_reasons l) t = None then l1\<lparr>er_order := er_order l1 @ [t]\<rparr> else l1)"
  using assms
  by (auto simp: mirrored_def dom_update Let_def map_of_eq_None_iff)

datatype reason_op = RNote "token_id set" token_id exit_reason | RTake token_id | RClear token_id
  | RSweep "token_id set"

fun reason_step :: "exit_reason_ledger \<Rightarrow> reason_op \<Rightarrow> exit_reason_ledger" where
  "reason_step l (RNote opened t r) = note_exit_reason opened t r l"
| "reason_step l (RTake t) = fst (take_exit_reason t l)"
| "reason_step l (RClear t) = clear_exit_reason t l"
| "reason_step l (RSweep opened) = sweep_exit_reasons opened l"

definition delete_all :: "token_id list \<Rightarrow> (token_id \<times> exit_reason) list \<Rightarrow> (token_id \<times> exit_reason) list" where
  "delete_all ts m = filter (\<lambda>(t, r). t \<notin> set ts) m"

lemma sweep_fold:
  "er_reasons (fold (\<lambda>t l. l\<lparr>er_reasons := AList.delete t (er_reasons l), er_swept := er_swept l + 1\<rparr>) ts l) =
     delete_all ts (er_reasons l)"
  "er_order (fold (\<lambda>t l. l\<lparr>er_reasons := AList.delete t (er_reasons l), er_swept := er_swept l + 1\<rparr>) ts l) = er_order l"
proof -
  have d: "delete_all (t # ts) m = delete_all ts (AList.delete t m)" for t ts m
    by (induction m) (auto simp: delete_all_def)
  show "er_reasons (fold (\<lambda>t l. l\<lparr>er_reasons := AList.delete t (er_reasons l), er_swept := er_swept l + 1\<rparr>) ts l) =
     delete_all ts (er_reasons l)"
    by (induction ts arbitrary: l) (auto simp: d, simp add: delete_all_def)
  show "er_order (fold (\<lambda>t l. l\<lparr>er_reasons := AList.delete t (er_reasons l), er_swept := er_swept l + 1\<rparr>) ts l) = er_order l"
    by (induction ts arbitrary: l) auto
qed

lemma sweep_inv:
  assumes "reasons_inv l"
  shows "reasons_inv (sweep_exit_reasons opened l) \<and>
    fst ` set (er_reasons (sweep_exit_reasons opened l)) = fst ` set (er_reasons l) \<inter> opened"
proof (cases "er_reasons l = []")
  case True
  then show ?thesis using assms by (simp add: sweep_exit_reasons_def)
next
  case False
  let ?stale = "filter (\<lambda>t. t \<notin> opened) (map fst (er_reasons l))"
  let ?l1 = "fold (\<lambda>t l. l\<lparr>er_reasons := AList.delete t (er_reasons l), er_swept := er_swept l + 1\<rparr>) ?stale l"
  have r: "er_reasons ?l1 = delete_all ?stale (er_reasons l)" "er_order ?l1 = er_order l"
    by (rule sweep_fold)+
  have c: "covered ?l1"
    using assms unfolding covered_def r
    by (auto simp: reasons_inv_def mirrored_def delete_all_def distinct_map filter_map o_def
        intro!: inj_on_subset [of fst "set (er_reasons l)"])
  have "length (er_reasons ?l1) \<le> length (er_reasons l)" unfolding r by (simp add: delete_all_def)
  moreover have "fst ` set (er_reasons ?l1) = fst ` set (er_reasons l) \<inter> opened"
    unfolding r by (force simp: delete_all_def)
  ultimately show ?thesis
    using assms repair_mirrored [OF c] False
    by (simp add: sweep_exit_reasons_def reasons_inv_def Let_def) (simp add: repair_exit_reason_order_def)
qed

interpretation reasons: invariant_machine reason_step reasons_inv
proof
  fix l x
  assume l: "reasons_inv l"
  show "reasons_inv (reason_step l x)"
  proof (cases x)
    case (RNote opened t r)
    then show ?thesis using l enforce_inv note_mirrored [of l t r]
      by (simp add: note_exit_reason_def reasons_inv_def Let_def)
  next
    case (RTake t)
    then show ?thesis using l mirrored_delete [of l t] length_delete_le [of t "er_reasons l"]
      by (auto simp: take_exit_reason_def reasons_inv_def split: option.splits)
  next
    case (RClear t)
    then show ?thesis using l mirrored_delete [of l t] length_delete_le [of t "er_reasons l"]
      by (auto simp: clear_exit_reason_def reasons_inv_def split: option.splits)
  next
    case (RSweep opened)
    then show ?thesis using sweep_inv [OF l] by simp
  qed
qed

section \<open>Properties\<close>

lemma reasons_new [simp]: "reasons_inv exit_reason_ledger_new"
  by (simp add: reasons_inv_def mirrored_def exit_reason_ledger_new_def)

text \<open>Whatever sequence of notes, takes, clears and sweeps runs, the order of the table lists
  exactly the tokens of its map, each once, and the table stays within its bound: the assertion the
  repair ends with never fires.\<close>

theorem exit_reasons_mirrored_and_bounded:
  "reasons_inv (run reason_step exit_reason_ledger_new ops)"
  by (rule reasons.run_inv) simp

text \<open>One note too many: a ghost goes if there is one, else the oldest entry, and nothing else.\<close>

lemma evict_ghosts_stop: "length (er_reasons l) \<le> EXIT_REASON_TABLE_MAX \<Longrightarrow> evict_ghosts ts l = l"
  by (cases ts) auto

lemma delete_length:
  "distinct (map fst m) \<Longrightarrow> map_of m t = Some r \<Longrightarrow> Suc (length (AList.delete t m)) = length m"
  by (induction m) (auto split: if_splits simp: map_of_eq_None_iff image_iff)

lemma enforce_full:
  assumes m: "mirrored l" and full: "length (er_reasons l) = Suc EXIT_REASON_TABLE_MAX"
    and tl: "er_order l = ts @ [t]"
  shows "\<exists>u. u \<in> set (er_order l) \<and> (u \<notin> opened \<or> u \<noteq> t) \<and>
    er_reasons (enforce_exit_reason_bound opened l) = AList.delete u (er_reasons l) \<and>
    er_evicted (enforce_exit_reason_bound opened l) = er_evicted l + 1"
proof -
  have dm: "distinct (map fst (er_reasons l))" using m by (simp add: mirrored_def)
  have some: "\<exists>r. map_of (er_reasons l) u = Some r" if "u \<in> set (er_order l)" for u
  proof -
    have "u \<in> fst ` set (er_reasons l)" using that m by (simp add: mirrored_def)
    then show ?thesis by (cases "map_of (er_reasons l) u") (auto simp: map_of_eq_None_iff)
  qed
  have less: "length (AList.delete u (er_reasons l)) \<le> EXIT_REASON_TABLE_MAX" if "u \<in> set (er_order l)" for u
    using some [OF that] delete_length [OF dm] full by fastforce
  have "length (er_order l) = length (er_reasons l)"
    using m by (metis distinct_card list.set_map length_map mirrored_def)
  then have "ts \<noteq> []" using tl full by (auto simp: EXIT_REASON_TABLE_MAX_def)
  then obtain v vs where ts: "ts = v # vs" by (cases ts) auto
  have vt: "v \<noteq> t" and vo: "v \<in> set (er_order l)" using m tl ts by (auto simp: mirrored_def)
  show ?thesis
  proof (cases "filter (\<lambda>t. t \<notin> opened) (er_order l)")
    case Nil
    have "evict_oldest (er_order l) l = l\<lparr>er_reasons := AList.delete v (er_reasons l),
        er_evicted := er_evicted l + 1, er_order := vs @ [t]\<rparr>"
      using some [OF vo] less [OF vo] full tl ts by (cases vs) auto
    then show ?thesis using Nil vo vt full
      by (intro exI [of _ v]) (simp add: enforce_exit_reason_bound_def Let_def repair_exit_reason_order_def)
  next
    case (Cons g gs)
    then have g: "g \<in> set (er_order l)" "g \<notin> opened" by (auto simp: filter_eq_Cons_iff)
    let ?l1 = "l\<lparr>er_reasons := AList.delete g (er_reasons l), er_evicted := er_evicted l + 1\<rparr>"
    have e: "evict_ghosts (g # gs) l = ?l1"
      using less [OF g(1)] full by (simp add: evict_ghosts_stop)
    have "evict_oldest (er_order l) ?l1 = ?l1"
      using less [OF g(1)] tl ts by simp
    then show ?thesis using Cons e g full
      by (intro exI [of _ g]) (simp add: enforce_exit_reason_bound_def Let_def repair_exit_reason_order_def)
  qed
qed

text \<open>The reason noted for a close of a token with an open position is the reason the close reads,
  even when the table is full, and one note evicts at most one other entry. (A note for a token without
  an open position can be evicted at once.)\<close>

theorem exit_reason_survives_its_note:
  assumes "reasons_inv l" and "t \<in> opened"
  shows "snd (take_exit_reason t (note_exit_reason opened t r l)) = Some r \<and>
    er_evicted (note_exit_reason opened t r l) \<le> er_evicted l + 1"
proof -
  let ?l1 = "l\<lparr>er_reasons := AList.update t r (er_reasons l)\<rparr>"
  let ?l2 = "if map_of (er_reasons l) t = None then ?l1\<lparr>er_order := er_order ?l1 @ [t]\<rparr> else ?l1"
  have m: "mirrored ?l2" using note_mirrored [of l t r] assms(1) by (simp add: reasons_inv_def Let_def)
  have look: "map_of (er_reasons ?l2) t = Some r" "er_evicted ?l2 = er_evicted l" by auto
  have nt: "note_exit_reason opened t r l = enforce_exit_reason_bound opened ?l2"
    by (simp add: note_exit_reason_def Let_def)
  show ?thesis
  proof (cases "length (er_reasons ?l2) \<le> EXIT_REASON_TABLE_MAX")
    case True
    then have "enforce_exit_reason_bound opened ?l2 = ?l2" by (simp add: enforce_exit_reason_bound_def)
    then show ?thesis unfolding nt using look by (simp add: take_exit_reason_def)
  next
    case False
    have none: "map_of (er_reasons l) t = None"
      using False assms(1) by (auto simp: reasons_inv_def length_update split: if_splits)
    have "length (er_reasons ?l2) = Suc EXIT_REASON_TABLE_MAX"
      using False none assms(1) by (auto simp: reasons_inv_def length_update)
    moreover have "er_order ?l2 = er_order l @ [t]" using none by simp
    ultimately obtain u where "u \<notin> opened \<or> u \<noteq> t"
        "er_reasons (enforce_exit_reason_bound opened ?l2) = AList.delete u (er_reasons ?l2)"
        "er_evicted (enforce_exit_reason_bound opened ?l2) = er_evicted ?l2 + 1"
      using enforce_full [OF m] by blast
    moreover have "u \<noteq> t" using calculation(1) assms(2) by auto
    ultimately show ?thesis unfolding nt using look by (simp add: take_exit_reason_def)
  qed
qed

definition full_table :: exit_reason_ledger where
  "full_table = \<lparr>er_reasons = map (\<lambda>n. (replicate n CHR ''x'', Manual)) [0..<64],
     er_order = map (\<lambda>n. replicate n CHR ''x'') [0..<64], er_evicted = 0, er_swept = 0\<rparr>"

theorem exit_reason_survives_its_note_witness:
  "snd (take_exit_reason ''t'' (note_exit_reason {''t''} ''t'' StopLoss full_table)) = Some StopLoss"
proof -
  have "inj_on (\<lambda>n. replicate n CHR ''x'') {0..<64}" by (rule inj_onI) (metis length_replicate)
  then have "reasons_inv full_table"
    by (simp add: reasons_inv_def mirrored_def full_table_def distinct_map o_def image_image
        EXIT_REASON_TABLE_MAX_def del: upt_rec_numeral)
  then show ?thesis using exit_reason_survives_its_note [of full_table "''t''" "{''t''}" StopLoss] by simp
qed

end
