(* ===== verification/PairBook.thy ===== *)
theory PairBook
  imports Types StdLib
begin

text \<open>
  The pair book, \<open>core/blitzkrieg_core/src/pair.rs\<close>: for every declared two-legged entry the legs, what
  filled and what died, and the status derived from that. An observer fed with facts, never asked for a
  decision. The book is ordered by the economic identity (strategy, owner account, asset, slot); a
  loop over the values that stops at its first hit is \<open>update_first\<close>.
\<close>

section \<open>State\<close>

datatype pair_status_t = PPending | PPartial token_id | PComplete | POrphan token_id | PClosed

fun pair_status_as_str :: "pair_status_t \<Rightarrow> string" where
  "pair_status_as_str PPending = ''pending''"
| "pair_status_as_str (PPartial _) = ''partial''"
| "pair_status_as_str PComplete = ''complete''"
| "pair_status_as_str (POrphan _) = ''orphan''"
| "pair_status_as_str PClosed = ''closed''"

record pair_leg_state =
  plg_token_id :: token_id
  plg_account_id :: string
  plg_internal_key :: string
  plg_declared_shares :: decimal
  plg_filled_shares :: decimal
  plg_dead :: bool

definition alive_filled :: "pair_leg_state \<Rightarrow> bool" where
  "alive_filled l \<longleftrightarrow> plg_filled_shares l > 0"

record pair_state =
  prs_id :: string
  prs_owner_strategy :: string
  prs_slot :: int
  prs_legs :: "pair_leg_state list"
  prs_status :: pair_status_t
  prs_created_ms :: int

fun naked_token :: "pair_status_t \<Rightarrow> token_id option" where
  "naked_token (PPartial t) = Some t"
| "naked_token (POrphan t) = Some t"
| "naked_token _ = None"

record pair_leg_decl =
  pld_token_id :: token_id
  pld_shares :: decimal
  pld_leg :: string
  pld_leg_account :: string

record token_market_facts =
  tmf_asset :: string
  tmf_slot :: int

type_synonym pair_key = "string \<times> string \<times> string \<times> int"

record pair_book =
  pbk_pairs :: "(pair_key \<times> pair_state) list"
  pbk_continuations :: "(string \<times> string) list"

definition pair_book_new :: pair_book where
  "pair_book_new = \<lparr>pbk_pairs = [], pbk_continuations = []\<rparr>"

datatype declare_outcome = Attached string bool | Full string

section \<open>Operations\<close>

text \<open>\<open>U+0001\<close> between the parts of the readable label.\<close>

definition pair_label :: "string \<Rightarrow> string \<Rightarrow> string \<Rightarrow> string" where
  "pair_label strategy account key = strategy @ [CHR 0x01] @ account @ [CHR 0x01] @ key"

definition declared_leg :: "pair_leg_decl \<Rightarrow> pair_leg_state" where
  "declared_leg d = \<lparr>plg_token_id = pld_token_id d, plg_account_id = pld_leg_account d,
     plg_internal_key = [], plg_declared_shares = pld_shares d, plg_filled_shares = 0, plg_dead = False\<rparr>"

definition pair_declare ::
  "string \<Rightarrow> string \<Rightarrow> string \<Rightarrow> pair_leg_decl \<Rightarrow> token_market_facts \<Rightarrow> int \<Rightarrow> pair_book
     \<Rightarrow> pair_book \<times> declare_outcome" where
  "pair_declare strategy account label d facts now b =
    (if tmf_slot facts = 0 then (b, Full [])
     else
       let key = (strategy, account, tmf_asset facts, tmf_slot facts);
           fresh = \<lparr>prs_id = pair_label strategy account label, prs_owner_strategy = strategy,
             prs_slot = tmf_slot facts, prs_legs = [declared_leg d], prs_status = PPending,
             prs_created_ms = now\<rparr>;
           opened = (b\<lparr>pbk_pairs := bt_insert key fresh (pbk_pairs b)\<rparr>, Attached (prs_id fresh) True)
       in case map_of (pbk_pairs b) key of
            None \<Rightarrow> opened
          | Some p \<Rightarrow>
              if prs_status p = PClosed then opened
              else if \<exists>l \<in> set (prs_legs p). plg_token_id l = pld_token_id d then (b, Attached (prs_id p) False)
              else if length (prs_legs p) \<ge> 2 then (b, Full (prs_id p))
              else (b\<lparr>pbk_pairs := bt_insert key (p\<lparr>prs_legs := prs_legs p @ [declared_leg d]\<rparr>) (pbk_pairs b)\<rparr>,
                    Attached (prs_id p) False))"

text \<open>The token of the first leg with a property, empty when there is none.\<close>

definition first_token :: "(pair_leg_state \<Rightarrow> bool) \<Rightarrow> pair_leg_state list \<Rightarrow> token_id" where
  "first_token P ls = (case List.find P ls of Some l \<Rightarrow> plg_token_id l | None \<Rightarrow> [])"

definition recompute_status :: "pair_state \<Rightarrow> pair_state" where
  "recompute_status p =
    (let filled = length (filter alive_filled (prs_legs p)) in
     p\<lparr>prs_status :=
       (if filled = 2 then PComplete
        else if filled = 1 then PPartial (first_token (\<lambda>l. \<not> alive_filled l) (prs_legs p))
        else if \<exists>l \<in> set (prs_legs p). plg_dead l then POrphan (first_token plg_dead (prs_legs p))
        else prs_status p)\<rparr>)"

definition leg_keyed :: "string \<Rightarrow> pair_leg_state \<Rightarrow> bool" where
  "leg_keyed k l \<longleftrightarrow> plg_internal_key l \<noteq> [] \<and> plg_internal_key l = k"

definition absorb_leg :: "decimal \<Rightarrow> bool \<Rightarrow> pair_leg_state \<Rightarrow> pair_leg_state" where
  "absorb_leg delta dead l = l\<lparr>
     plg_filled_shares := (if delta > 0 then plg_filled_shares l + delta else plg_filled_shares l),
     plg_dead := (if dead then True else plg_dead l)\<rparr>"

definition absorb_pair :: "string \<Rightarrow> decimal \<Rightarrow> bool \<Rightarrow> pair_state \<Rightarrow> pair_state" where
  "absorb_pair k delta dead p =
    recompute_status (p\<lparr>prs_legs := update_first (leg_keyed k) (absorb_leg delta dead) (prs_legs p)\<rparr>)"

definition pair_hit :: "string \<Rightarrow> pair_key \<times> pair_state \<Rightarrow> bool" where
  "pair_hit k e \<longleftrightarrow> prs_status (snd e) \<noteq> PClosed \<and> (\<exists>l \<in> set (prs_legs (snd e)). leg_keyed k l)"

definition resolve_key :: "string \<Rightarrow> pair_book \<Rightarrow> string" where
  "resolve_key k b = (case map_of (pbk_continuations b) k of Some r \<Rightarrow> r | None \<Rightarrow> k)"

definition pair_order_event :: "string \<Rightarrow> decimal \<Rightarrow> bool \<Rightarrow> pair_book \<Rightarrow> pair_book" where
  "pair_order_event k delta dead b =
    (if delta \<le> 0 \<and> \<not> dead then b
     else let r = resolve_key k b
       in b\<lparr>pbk_pairs := update_first (pair_hit r) (apsnd (absorb_pair r delta dead)) (pbk_pairs b)\<rparr>)"

text \<open>Binding looks for a leg by its token and, unless the account is empty, by the leg's account.\<close>

definition leg_named :: "string \<Rightarrow> string \<Rightarrow> pair_leg_state \<Rightarrow> bool" where
  "leg_named account token l \<longleftrightarrow> plg_token_id l = token \<and> (account = [] \<or> plg_account_id l = account)"

definition owned_live :: "string \<Rightarrow> pair_key \<times> pair_state \<Rightarrow> bool" where
  "owned_live strategy e \<longleftrightarrow> prs_owner_strategy (snd e) = strategy \<and> prs_status (snd e) \<noteq> PClosed"

definition bind_leg :: "string \<Rightarrow> pair_leg_state \<Rightarrow> pair_leg_state" where
  "bind_leg k l = (if plg_internal_key l = [] then l\<lparr>plg_internal_key := k\<rparr> else l)"

definition bind_by_leg :: "string \<Rightarrow> string \<Rightarrow> string \<Rightarrow> string \<Rightarrow> pair_book \<Rightarrow> pair_book" where
  "bind_by_leg strategy account token k b = b\<lparr>pbk_pairs :=
     update_first (\<lambda>e. owned_live strategy e \<and> (\<exists>l \<in> set (prs_legs (snd e)). leg_named account token l))
       (apsnd (\<lambda>p. p\<lparr>prs_legs := update_first (leg_named account token) (bind_leg k) (prs_legs p)\<rparr>)) (pbk_pairs b)\<rparr>"

definition bound_leg :: "string \<Rightarrow> string \<Rightarrow> pair_leg_state \<Rightarrow> bool" where
  "bound_leg account token l \<longleftrightarrow> plg_token_id l = token \<and> plg_internal_key l \<noteq> [] \<and>
     (account = [] \<or> plg_account_id l = account)"

definition bind_continuation :: "string \<Rightarrow> string \<Rightarrow> string \<Rightarrow> string \<Rightarrow> pair_book \<Rightarrow> pair_book" where
  "bind_continuation strategy account token k b =
    (if k = [] then b
     else case List.find (\<lambda>e. owned_live strategy e \<and> (\<exists>l \<in> set (prs_legs (snd e)). bound_leg account token l))
            (pbk_pairs b) of
       None \<Rightarrow> b
     | Some e \<Rightarrow> (case List.find (bound_leg account token) (prs_legs (snd e)) of
         None \<Rightarrow> b
       | Some l \<Rightarrow> b\<lparr>pbk_continuations := bt_insert k (plg_internal_key l) (pbk_continuations b)\<rparr>))"

definition close_state :: "pair_state \<Rightarrow> pair_state" where
  "close_state p = p\<lparr>prs_status := PClosed\<rparr>"

definition retire_before :: "int \<Rightarrow> pair_book \<Rightarrow> pair_book" where
  "retire_before bound b =
    (if bound \<le> 0 then b
     else b\<lparr>pbk_pairs := map (apsnd (\<lambda>p. if prs_slot p < bound \<and> prs_status p \<noteq> PClosed then close_state p else p))
            (pbk_pairs b)\<rparr>)"

definition close_pair :: "string \<Rightarrow> string \<Rightarrow> string \<Rightarrow> int \<Rightarrow> pair_book \<Rightarrow> pair_book" where
  "close_pair strategy account asset slot b =
    (case map_of (pbk_pairs b) (strategy, account, asset, slot) of
       None \<Rightarrow> b
     | Some p \<Rightarrow> b\<lparr>pbk_pairs := bt_insert (strategy, account, asset, slot) (close_state p) (pbk_pairs b)\<rparr>)"

definition close_by_token :: "string \<Rightarrow> string \<Rightarrow> pair_book \<Rightarrow> pair_book" where
  "close_by_token strategy token b = b\<lparr>pbk_pairs := map (apsnd (\<lambda>p.
     if prs_owner_strategy p = strategy \<and> prs_status p \<noteq> PClosed \<and> (\<exists>l \<in> set (prs_legs p). plg_token_id l = token)
     then close_state p else p)) (pbk_pairs b)\<rparr>"

section \<open>Views\<close>

record pair_leg_view =
  plv_token :: token_id
  plv_account_id :: string
  plv_shares :: string
  plv_filled :: string

record pair_view =
  pvw_owner_strategy :: string
  pvw_id :: string
  pvw_slot :: int
  pvw_status :: string
  pvw_legs :: "pair_leg_view list"
  pvw_naked_token :: "token_id option"

definition view_of :: "dec_ops \<Rightarrow> pair_state \<Rightarrow> pair_view" where
  "view_of D p = \<lparr>pvw_owner_strategy = prs_owner_strategy p, pvw_id = prs_id p, pvw_slot = prs_slot p,
     pvw_status = pair_status_as_str (prs_status p),
     pvw_legs = map (\<lambda>l. \<lparr>plv_token = plg_token_id l, plv_account_id = plg_account_id l,
       plv_shares = dshow D (plg_declared_shares l), plv_filled = dshow D (plg_filled_shares l)\<rparr>) (prs_legs p),
     pvw_naked_token = naked_token (prs_status p)\<rparr>"

definition views_for :: "dec_ops \<Rightarrow> string \<Rightarrow> string set \<Rightarrow> pair_book \<Rightarrow> pair_view list" where
  "views_for D strategy accounts b = map (view_of D) (filter (\<lambda>p. prs_owner_strategy p = strategy \<and>
     (\<exists>l \<in> set (prs_legs p). plg_account_id l \<in> accounts)) (map snd (pbk_pairs b)))"

definition pair_with_id :: "string \<Rightarrow> pair_book \<Rightarrow> pair_state option" where
  "pair_with_id i b = List.find (\<lambda>p. prs_id p = i) (map snd (pbk_pairs b))"

definition active_pairs_count :: "string \<Rightarrow> pair_book \<Rightarrow> nat" where
  "active_pairs_count strategy b = length (filter (owned_live strategy) (pbk_pairs b))"

section \<open>The book as a machine\<close>

datatype pair_op = PDeclare string string string pair_leg_decl token_market_facts int
  | PEvent string decimal bool | PBind string string string string
  | PContinue string string string string | PRetire int | PCloseKey string string string int
  | PCloseToken string string

fun pair_step :: "pair_book \<Rightarrow> pair_op \<Rightarrow> pair_book" where
  "pair_step b (PDeclare s a l d f now) = fst (pair_declare s a l d f now b)"
| "pair_step b (PEvent k delta dead) = pair_order_event k delta dead b"
| "pair_step b (PBind s a t k) = bind_by_leg s a t k b"
| "pair_step b (PContinue s a t k) = bind_continuation s a t k b"
| "pair_step b (PRetire n) = retire_before n b"
| "pair_step b (PCloseKey s a x n) = close_pair s a x n b"
| "pair_step b (PCloseToken s t) = close_by_token s t b"

section \<open>Statuses tell the truth\<close>

text \<open>What the status claims about the legs.\<close>

definition status_true :: "pair_state \<Rightarrow> bool" where
  "status_true p \<longleftrightarrow> (case prs_status p of
     PPending \<Rightarrow> (\<forall>l \<in> set (prs_legs p). plg_filled_shares l = 0 \<and> \<not> plg_dead l)
   | PPartial t \<Rightarrow> length (filter alive_filled (prs_legs p)) = 1 \<and>
       (t = [] \<or> (\<exists>l \<in> set (prs_legs p). plg_token_id l = t \<and> plg_filled_shares l = 0))
   | PComplete \<Rightarrow> length (prs_legs p) = 2 \<and> (\<forall>l \<in> set (prs_legs p). 0 < plg_filled_shares l)
   | POrphan t \<Rightarrow> (\<forall>l \<in> set (prs_legs p). plg_filled_shares l = 0) \<and>
       (\<exists>l \<in> set (prs_legs p). plg_dead l \<and> plg_token_id l = t)
   | PClosed \<Rightarrow> True)"

definition pair_ok :: "pair_key \<times> pair_state \<Rightarrow> bool" where
  "pair_ok e \<longleftrightarrow> (let p = snd e in
     fst (fst e) = prs_owner_strategy p \<and> snd (snd (snd (fst e))) = prs_slot p \<and> prs_slot p \<noteq> 0 \<and>
     prs_legs p \<noteq> [] \<and> length (prs_legs p) \<le> 2 \<and> distinct (map plg_token_id (prs_legs p)) \<and>
     (\<forall>l \<in> set (prs_legs p). 0 \<le> plg_filled_shares l) \<and> status_true p)"

definition book_ok :: "pair_book \<Rightarrow> bool" where
  "book_ok b \<longleftrightarrow> bt_sorted (pbk_pairs b) \<and> (\<forall>e \<in> set (pbk_pairs b). pair_ok e)"

lemma recompute_true:
  assumes "length (prs_legs p) \<le> 2" and "\<forall>l \<in> set (prs_legs p). 0 \<le> plg_filled_shares l"
    and "\<exists>l \<in> set (prs_legs p). alive_filled l \<or> plg_dead l"
  shows "status_true (recompute_status p)"
proof -
  let ?ls = "prs_legs p" and ?n = "length (filter alive_filled (prs_legs p))"
  have zero: "\<not> alive_filled l \<Longrightarrow> l \<in> set ?ls \<Longrightarrow> plg_filled_shares l = 0" for l
    using assms(2) by (force simp: alive_filled_def)
  consider "?n = 2" | "?n = 1" | "?n = 0"
    using length_filter_le [of alive_filled ?ls] assms(1) by linarith
  then show ?thesis
  proof cases
    case 1
    then have "length (filter alive_filled ?ls) = length ?ls"
      using length_filter_le [of alive_filled ?ls] assms(1) by linarith
    then have "\<forall>l \<in> set ?ls. alive_filled l" by (metis filter_id_conv length_filter_less less_irrefl)
    with 1 \<open>length (filter alive_filled ?ls) = length ?ls\<close> show ?thesis
      by (simp add: recompute_status_def status_true_def alive_filled_def)
  next
    case 2
    have "first_token (\<lambda>l. \<not> alive_filled l) ?ls = [] \<or>
        (\<exists>l \<in> set ?ls. plg_token_id l = first_token (\<lambda>l. \<not> alive_filled l) ?ls \<and> plg_filled_shares l = 0)"
      using zero by (auto simp: first_token_def split: option.splits dest!: find_Some_prop)
    with 2 show ?thesis by (simp add: recompute_status_def status_true_def)
  next
    case 3
    then have none: "\<forall>l \<in> set ?ls. \<not> alive_filled l" by (simp add: filter_empty_conv)
    then obtain l where l: "l \<in> set ?ls" "plg_dead l" using assms(3) by blast
    then obtain x where x: "List.find plg_dead ?ls = Some x" by (metis find_None_all not_None_eq)
    then have "x \<in> set ?ls" "plg_dead x" by (auto dest: find_Some_prop)
    with 3 l none zero x show ?thesis
      by (auto simp: recompute_status_def status_true_def first_token_def)
  qed
qed

lemma recompute_sel [simp]:
  "prs_legs (recompute_status p) = prs_legs p" "prs_slot (recompute_status p) = prs_slot p"
  "prs_owner_strategy (recompute_status p) = prs_owner_strategy p" "prs_id (recompute_status p) = prs_id p"
  by (simp_all add: recompute_status_def Let_def)

lemma update_first_Nil: "update_first P f xs = [] \<longleftrightarrow> xs = []"
  by (cases xs) auto

lemma absorb_ok:
  assumes ok: "pair_ok e" and hit: "pair_hit k e" and d: "0 < delta \<or> dead"
  shows "pair_ok (apsnd (absorb_pair k delta dead) e)"
proof -
  let ?ls = "update_first (leg_keyed k) (absorb_leg delta dead) (prs_legs (snd e))"
  have toks: "map plg_token_id ?ls = map plg_token_id (prs_legs (snd e))"
    by (rule map_update_first) (simp add: absorb_leg_def)
  obtain l where l: "List.find (leg_keyed k) (prs_legs (snd e)) = Some l"
    using hit find_None_all [of "leg_keyed k" "prs_legs (snd e)"] by (auto simp: pair_hit_def)
  have nn: "\<forall>l \<in> set (prs_legs (snd e)). 0 \<le> plg_filled_shares l" using ok by (simp add: pair_ok_def Let_def)
  have nn': "\<forall>l \<in> set ?ls. 0 \<le> plg_filled_shares l"
    using nn by (rule all_update_first) (simp add: absorb_leg_def)
  have "absorb_leg delta dead l \<in> set ?ls" using l by (rule update_first_hit)
  moreover have "alive_filled (absorb_leg delta dead l) \<or> plg_dead (absorb_leg delta dead l)"
    using d nn l by (auto simp: absorb_leg_def alive_filled_def dest!: find_Some_prop)
  ultimately have "\<exists>l \<in> set ?ls. alive_filled l \<or> plg_dead l" by blast
  then have "status_true (absorb_pair k delta dead (snd e))"
    unfolding absorb_pair_def using ok nn' by (intro recompute_true) (simp_all add: pair_ok_def Let_def)
  then show ?thesis
    using ok nn' toks by (auto simp: pair_ok_def Let_def absorb_pair_def update_first_Nil)
qed

lemma close_ok [simp]: "pair_ok e \<Longrightarrow> pair_ok (apsnd close_state e)"
  by (simp add: pair_ok_def Let_def close_state_def status_true_def)

text \<open>Operations that rewrite values in place keep the keys, hence the order.\<close>

lemma book_ok_update:
  assumes "book_ok b" and "\<And>e. pair_ok e \<Longrightarrow> P e \<Longrightarrow> pair_ok (apsnd f e)"
  shows "book_ok (b\<lparr>pbk_pairs := update_first P (apsnd f) (pbk_pairs b)\<rparr>)"
proof -
  have "map fst (update_first P (apsnd f) (pbk_pairs b)) = map fst (pbk_pairs b)"
    by (rule map_update_first) simp
  moreover have "\<forall>e \<in> set (update_first P (apsnd f) (pbk_pairs b)). pair_ok e"
    using assms by (intro all_update_first) (auto simp: book_ok_def dest: find_Some_prop)
  ultimately show ?thesis using assms(1) by (simp add: book_ok_def bt_sorted_def)
qed

lemma book_ok_map:
  assumes "book_ok b" and "\<And>e. pair_ok e \<Longrightarrow> pair_ok (apsnd f e)"
  shows "book_ok (b\<lparr>pbk_pairs := map (apsnd f) (pbk_pairs b)\<rparr>)"
  using assms by (auto simp: book_ok_def bt_sorted_def o_def)

lemma book_ok_insert:
  assumes "book_ok b" and "pair_ok (k, p)"
  shows "book_ok (b\<lparr>pbk_pairs := bt_insert k p (pbk_pairs b)\<rparr>)"
  using assms by (auto simp: book_ok_def set_bt_insert)

lemma book_ok_lookup: "book_ok b \<Longrightarrow> map_of (pbk_pairs b) k = Some p \<Longrightarrow> pair_ok (k, p)"
  by (auto simp: book_ok_def dest: map_of_SomeD)

lemma attach_ok:
  assumes "pair_ok (k, p)" and "prs_status p \<noteq> PClosed" and "length (prs_legs p) < 2"
    and "\<forall>l \<in> set (prs_legs p). plg_token_id l \<noteq> pld_token_id d"
  shows "pair_ok (k, p\<lparr>prs_legs := prs_legs p @ [declared_leg d]\<rparr>)"
  using assms
  by (auto simp: pair_ok_def Let_def status_true_def declared_leg_def alive_filled_def
      split: pair_status_t.splits)

lemma declare_book_ok: "book_ok b \<Longrightarrow> book_ok (fst (pair_declare s a lb d f now b))"
proof -
  assume b: "book_ok b"
  let ?k = "(s, a, tmf_asset f, tmf_slot f)"
  have fresh: "tmf_slot f \<noteq> 0 \<Longrightarrow> pair_ok (?k, \<lparr>prs_id = pair_label s a lb, prs_owner_strategy = s,
      prs_slot = tmf_slot f, prs_legs = [declared_leg d], prs_status = PPending, prs_created_ms = now\<rparr>)"
    by (simp add: pair_ok_def status_true_def declared_leg_def)
  show ?thesis
  proof (cases "map_of (pbk_pairs b) ?k")
    case None
    then show ?thesis using b book_ok_insert [OF b fresh] by (simp add: pair_declare_def Let_def)
  next
    case (Some p)
    note ok = book_ok_lookup [OF b Some]
    show ?thesis
      using Some b book_ok_insert [OF b fresh] book_ok_insert [OF b attach_ok [OF ok]]
      by (auto simp: pair_declare_def Let_def)
  qed
qed

lemma alive_count: "length (filter alive_filled ls) = length (filter (\<lambda>x. 0 < x) (map plg_filled_shares ls))"
  by (induction ls) (simp_all add: alive_filled_def)

lemma bind_ok: "pair_ok e \<Longrightarrow> pair_ok (apsnd (\<lambda>p. p\<lparr>prs_legs := update_first Q (bind_leg k) (prs_legs p)\<rparr>) e)"
proof -
  assume ok: "pair_ok e"
  let ?ls = "update_first Q (bind_leg k) (prs_legs (snd e))"
  let ?v = "\<lambda>l. (plg_token_id l, plg_filled_shares l, plg_dead l)"
  have v: "map ?v ?ls = map ?v (prs_legs (snd e))"
    by (rule map_update_first) (simp add: bind_leg_def)
  have filled: "map plg_filled_shares ?ls = map plg_filled_shares (prs_legs (snd e))"
    and toks: "map plg_token_id ?ls = map plg_token_id (prs_legs (snd e))"
    by (rule map_update_first, simp add: bind_leg_def)+
  have sets: "?v ` set ?ls = ?v ` set (prs_legs (snd e))"
    using arg_cong [OF v, of set] by (simp only: list.set_map)
  have all: "(\<forall>l \<in> set ?ls. R (?v l)) = (\<forall>l \<in> set (prs_legs (snd e)). R (?v l))" for R
    using arg_cong [OF sets, of "\<lambda>X. \<forall>x \<in> X. R x"] by simp
  have ex: "(\<exists>l \<in> set ?ls. R (?v l)) = (\<exists>l \<in> set (prs_legs (snd e)). R (?v l))" for R
    using arg_cong [OF sets, of "\<lambda>X. \<exists>x \<in> X. R x"] by simp
  have n: "length (filter alive_filled ?ls) = length (filter alive_filled (prs_legs (snd e)))"
    using filled by (simp only: alive_count)
  have "status_true ((snd e)\<lparr>prs_legs := ?ls\<rparr>) = status_true (snd e)"
    using n all [of "\<lambda>(t, f, d). f = 0 \<and> \<not> d"] all [of "\<lambda>(t, f, d). 0 < f"] all [of "\<lambda>(t, f, d). f = 0"]
      ex [of "\<lambda>(t', f, d). d \<and> t' = t" for t] ex [of "\<lambda>(t', f, d). t' = t \<and> f = 0" for t]
    by (simp add: status_true_def split: pair_status_t.splits)
  then show ?thesis
    using ok toks all [of "\<lambda>(t, f, d). 0 \<le> f"] by (auto simp: pair_ok_def Let_def update_first_Nil)
qed

interpretation pairs: invariant_machine pair_step book_ok
proof
  fix b x
  assume b: "book_ok b"
  show "book_ok (pair_step b x)"
  proof (cases x)
    case (PDeclare s a l d f now)
    then show ?thesis using declare_book_ok [OF b] by simp
  next
    case (PEvent k delta dead)
    then show ?thesis using b absorb_ok
      by (auto simp: pair_order_event_def Let_def intro!: book_ok_update)
  next
    case (PBind s a t k)
    then show ?thesis using b bind_ok by (auto simp: bind_by_leg_def intro!: book_ok_update)
  next
    case (PContinue s a t k)
    then show ?thesis using b
      by (auto simp: bind_continuation_def book_ok_def split: option.splits)
  next
    case (PRetire n)
    have "pair_ok e \<Longrightarrow> pair_ok (apsnd (\<lambda>p. if prs_slot p < n \<and> prs_status p \<noteq> PClosed then close_state p else p) e)" for e
      using close_ok [of e] by (cases e) auto
    then show ?thesis using PRetire b by (auto simp: retire_before_def intro!: book_ok_map)
  next
    case (PCloseKey s a y n)
    then show ?thesis using b book_ok_lookup [OF b] close_ok [of "((s, a, y, n), p)" for p]
      by (auto simp: close_pair_def split: option.splits intro!: book_ok_insert)
  next
    case (PCloseToken s t)
    have "pair_ok e \<Longrightarrow> pair_ok (apsnd (\<lambda>p. if prs_owner_strategy p = s \<and> prs_status p \<noteq> PClosed \<and>
        (\<exists>l \<in> set (prs_legs p). plg_token_id l = t) then close_state p else p) e)" for e
      using close_ok [of e] by (cases e) auto
    then show ?thesis using PCloseToken b by (auto simp: close_by_token_def intro!: book_ok_map)
  qed
qed

lemma book_ok_new [simp]: "book_ok pair_book_new"
  by (simp add: book_ok_def pair_book_new_def)

text \<open>C39: in every book reachable from the empty one, by any sequence of declarations, bindings,
  continuations, order events, retirements and closings, each pair has one or two legs with distinct
  tokens, sits under its own owner and slot, and its status tells what its legs did: a pending pair has
  no fill and no death, a partial one exactly one filled leg and names an unfilled leg when it names
  one, a complete one two filled legs, an orphan no fill and names a dead leg.\<close>

theorem pair_status_truthful: "book_ok (run pair_step pair_book_new ops)"
  by (rule pairs.run_inv) simp

section \<open>Closed pairs\<close>

lemma map_of_update_first:
  "distinct (map fst m) \<Longrightarrow> map_of m k = Some p \<Longrightarrow> \<not> P (k, p) \<Longrightarrow>
    map_of (update_first P (apsnd f) m) k = Some p"
proof (induction m)
  case (Cons e m)
  then show ?case by (cases e) (auto split: if_splits simp: map_of_eq_None_iff dest: map_of_SomeD)
qed simp

lemma map_of_map_apsnd: "map_of (map (apsnd f) m) k = map_option f (map_of m k)"
  by (induction m) auto

lemma book_ok_distinct: "book_ok b \<Longrightarrow> distinct (map fst (pbk_pairs b))"
  by (simp add: book_ok_def bt_sorted_distinct)

fun declares_key :: "pair_key \<Rightarrow> pair_op \<Rightarrow> bool" where
  "declares_key k (PDeclare s a l d f now) \<longleftrightarrow> k = (s, a, tmf_asset f, tmf_slot f)"
| "declares_key k _ \<longleftrightarrow> False"

lemma closed_step:
  assumes b: "book_ok b" and k: "map_of (pbk_pairs b) k = Some p" and c: "prs_status p = PClosed"
    and nd: "\<not> declares_key k x"
  shows "map_of (pbk_pairs (pair_step b x)) k = Some p"
proof -
  note d = book_ok_distinct [OF b]
  have s: "bt_sorted (pbk_pairs b)" using b by (simp add: book_ok_def)
  have cl: "close_state p = p" using c by (simp add: close_state_def)
  show ?thesis
  proof (cases x)
    case (PDeclare s1 a l d1 f now)
    then have "k \<noteq> (s1, a, tmf_asset f, tmf_slot f)" using nd by simp
    then show ?thesis using PDeclare k s
      by (auto simp: pair_declare_def Let_def split: option.splits)
  next
    case (PEvent k1 delta dead)
    then show ?thesis using k c map_of_update_first [OF d k]
      by (simp add: pair_order_event_def Let_def pair_hit_def)
  next
    case (PBind s1 a t k1)
    then show ?thesis using c map_of_update_first [OF d k] by (simp add: bind_by_leg_def owned_live_def)
  next
    case (PContinue s1 a t k1)
    then show ?thesis using k by (auto simp: bind_continuation_def split: option.splits)
  next
    case (PRetire n)
    then show ?thesis using k c by (simp add: retire_before_def map_of_map_apsnd)
  next
    case (PCloseKey s1 a y n)
    then show ?thesis using k s cl by (auto simp: close_pair_def split: option.splits)
  next
    case (PCloseToken s1 t)
    then show ?thesis using k c by (simp add: close_by_token_def map_of_map_apsnd)
  qed
qed

text \<open>A closed pair is final. Whatever events, bindings and closings arrive afterwards, late fills
  included, its record stays as it was, until its own economic identity is declared again.\<close>

theorem pair_closed_absorbs:
  assumes "book_ok b" and "map_of (pbk_pairs b) k = Some p" and "prs_status p = PClosed"
    and "filter (declares_key k) ops = []"
  shows "map_of (pbk_pairs (run pair_step b ops)) k = Some p"
  using assms
proof (induction ops arbitrary: b)
  case (Cons x ops)
  then show ?case
    using closed_step [OF Cons.prems(1-3)] pairs.step_inv [OF Cons.prems(1)] by (simp split: if_splits)
qed simp

definition up_leg :: pair_leg_decl where
  "up_leg = \<lparr>pld_token_id = ''u'', pld_shares = 10, pld_leg = ''up'', pld_leg_account = ''a''\<rparr>"

definition down_leg :: pair_leg_decl where
  "down_leg = \<lparr>pld_token_id = ''d'', pld_shares = 10, pld_leg = ''down'', pld_leg_account = ''a''\<rparr>"

definition btc_round :: token_market_facts where
  "btc_round = \<lparr>tmf_asset = ''BTC'', tmf_slot = 7\<rparr>"

definition closed_demo :: pair_book where
  "closed_demo = run pair_step pair_book_new [PDeclare ''s'' ''a'' ''p'' up_leg btc_round 0,
     PBind ''s'' ''a'' ''u'' ''k'', PRetire 8]"

lemmas pair_demo_defs = up_leg_def down_leg_def btc_round_def pair_declare_def pair_book_new_def
  declared_leg_def pair_order_event_def resolve_key_def pair_hit_def leg_keyed_def absorb_pair_def
  absorb_leg_def recompute_status_def alive_filled_def first_token_def bind_by_leg_def owned_live_def
  leg_named_def bind_leg_def bind_continuation_def bound_leg_def

theorem pair_closed_absorbs_witness:
  "\<exists>p. map_of (pbk_pairs (run pair_step closed_demo [PEvent ''k'' 5 False])) (''s'', ''a'', ''BTC'', 7) = Some p \<and>
    prs_status p = PClosed"
proof -
  have "book_ok closed_demo" unfolding closed_demo_def by (rule pairs.run_inv) simp
  moreover have "\<exists>p. map_of (pbk_pairs closed_demo) (''s'', ''a'', ''BTC'', 7) = Some p \<and> prs_status p = PClosed"
    by (simp add: closed_demo_def pair_demo_defs retire_before_def close_state_def)
  ultimately obtain p where "map_of (pbk_pairs closed_demo) (''s'', ''a'', ''BTC'', 7) = Some p"
      "prs_status p = PClosed" "book_ok closed_demo" by blast
  then show ?thesis
    using pair_closed_absorbs [of closed_demo "(''s'', ''a'', ''BTC'', 7)" p "[PEvent ''k'' 5 False]"] by simp
qed

section \<open>Replayed events\<close>

lemma update_first_twice:
  assumes "\<And>x. x \<in> set xs \<Longrightarrow> P x \<Longrightarrow> P (f x)"
  shows "update_first P f (update_first P f xs) = update_first P (f \<circ> f) xs"
  using assms by (induction xs) auto

definition leg_view :: "pair_leg_state \<Rightarrow> bool \<times> bool \<times> token_id" where
  "leg_view l = (alive_filled l, plg_dead l, plg_token_id l)"

text \<open>The status is a function of what the legs show.\<close>

lemma first_token_view:
  "map leg_view ls = map leg_view ms \<Longrightarrow> (\<And>l m. leg_view l = leg_view m \<Longrightarrow> P l = P m) \<Longrightarrow>
    first_token P ls = first_token P ms"
proof (induction ls arbitrary: ms)
  case (Cons l ls)
  from Cons.prems(1) obtain m ms' where ms: "ms = m # ms'" "leg_view l = leg_view m" "map leg_view ls = map leg_view ms'"
    by (cases ms) auto
  have pm: "P l = P m" by (rule Cons.prems(2) [OF ms(2)])
  have tm: "plg_token_id l = plg_token_id m" using ms(2) by (simp add: leg_view_def)
  have step: "first_token P (x # xs) = (if P x then plg_token_id x else first_token P xs)" for x xs
    by (simp add: first_token_def)
  have "first_token P ls = first_token P ms'" by (rule Cons.IH [OF ms(3) Cons.prems(2)])
  then show ?case unfolding ms(1) step pm tm by simp
qed simp

lemma recompute_view:
  assumes "map leg_view (prs_legs p) = map leg_view (prs_legs q)"
    and "prs_status p = prs_status (recompute_status q)"
  shows "prs_status (recompute_status p) = prs_status (recompute_status q)"
proof -
  have cn: "length (filter alive_filled ls) = length (filter fst (map leg_view ls))" for ls
    by (induction ls) (simp_all add: leg_view_def)
  have n: "length (filter alive_filled (prs_legs p)) = length (filter alive_filled (prs_legs q))"
    by (simp only: cn assms(1))
  have dn: "(\<exists>l \<in> set ls. plg_dead l) = (\<exists>x \<in> set (map leg_view ls). fst (snd x))" for ls
    by (simp add: leg_view_def)
  have d: "(\<exists>l \<in> set (prs_legs p). plg_dead l) = (\<exists>l \<in> set (prs_legs q). plg_dead l)"
    by (simp only: dn assms(1))
  have "first_token (\<lambda>l. \<not> alive_filled l) (prs_legs p) = first_token (\<lambda>l. \<not> alive_filled l) (prs_legs q)"
    "first_token plg_dead (prs_legs p) = first_token plg_dead (prs_legs q)"
    by (rule first_token_view [OF assms(1)], simp add: leg_view_def)+
  with n d assms(2) show ?thesis by (auto simp: recompute_status_def Let_def)
qed

lemma absorb_twice:
  assumes "\<forall>l \<in> set (prs_legs p). 0 \<le> plg_filled_shares l"
  shows "prs_status (absorb_pair k delta dead (absorb_pair k delta dead p)) =
    prs_status (absorb_pair k delta dead p)"
proof -
  let ?f = "absorb_leg delta dead"
  have tw: "update_first (leg_keyed k) ?f (update_first (leg_keyed k) ?f (prs_legs p)) =
      update_first (leg_keyed k) (?f \<circ> ?f) (prs_legs p)"
    by (rule update_first_twice) (auto simp: leg_keyed_def absorb_leg_def)
  have "map leg_view (update_first P (?f \<circ> ?f) ls) = map leg_view (update_first P ?f ls)"
    if "\<forall>l \<in> set ls. 0 \<le> plg_filled_shares l" for P ls
    using that by (induction ls) (auto simp: leg_view_def absorb_leg_def alive_filled_def)
  note v = this [OF assms, of "leg_keyed k"]
  show ?thesis
    unfolding absorb_pair_def [of k delta dead "absorb_pair k delta dead p"]
    by (simp add: absorb_pair_def [of k delta dead p] tw)
      (rule recompute_view, simp_all add: v)
qed

definition filled_by :: "string \<Rightarrow> pair_book \<Rightarrow> decimal" where
  "filled_by k b = (case List.find (pair_hit k) (pbk_pairs b) of
     Some e \<Rightarrow> (case List.find (leg_keyed k) (prs_legs (snd e)) of Some l \<Rightarrow> plg_filled_shares l | None \<Rightarrow> 0)
   | None \<Rightarrow> 0)"

lemma absorb_not_closed:
  "prs_status p \<noteq> PClosed \<Longrightarrow> prs_status (absorb_pair k delta dead p) \<noteq> PClosed"
  by (simp add: absorb_pair_def recompute_status_def Let_def)

lemma ex_update_first: "(\<And>x. P x \<Longrightarrow> P (f x)) \<Longrightarrow> (\<exists>x \<in> set (update_first P f xs). P x) = (\<exists>x \<in> set xs. P x)"
  by (induction xs) auto

lemma pair_hit_absorb: "pair_hit k e \<Longrightarrow> pair_hit k (apsnd (absorb_pair k delta dead) e)"
proof -
  assume h: "pair_hit k e"
  have "(\<exists>l \<in> set (update_first (leg_keyed k) (absorb_leg delta dead) (prs_legs (snd e))). leg_keyed k l) =
      (\<exists>l \<in> set (prs_legs (snd e)). leg_keyed k l)"
    by (rule ex_update_first) (auto simp: leg_keyed_def absorb_leg_def)
  then show ?thesis using h absorb_not_closed [of "snd e"] by (simp add: pair_hit_def absorb_pair_def)
qed

lemma event_twice_status:
  assumes "\<forall>e \<in> set ps. \<forall>l \<in> set (prs_legs (snd e)). 0 \<le> plg_filled_shares l"
  shows "map (apsnd prs_status) (update_first (pair_hit k) (apsnd (absorb_pair k delta dead) \<circ> apsnd (absorb_pair k delta dead)) ps) =
    map (apsnd prs_status) (update_first (pair_hit k) (apsnd (absorb_pair k delta dead)) ps)"
  using assms by (induction ps) (auto simp: absorb_twice apsnd_def map_prod_def split: prod.splits)

lemma filled_event:
  assumes "List.find (pair_hit (resolve_key k b)) (pbk_pairs b) = Some e" and "0 < delta"
  shows "filled_by (resolve_key k b) (pair_order_event k delta dead b) = filled_by (resolve_key k b) b + delta"
    and "List.find (pair_hit (resolve_key k b)) (pbk_pairs (pair_order_event k delta dead b)) \<noteq> None"
proof -
  let ?r = "resolve_key k b" and ?f = "apsnd (absorb_pair (resolve_key k b) delta dead)"
  have u: "List.find (pair_hit ?r) (update_first (pair_hit ?r) ?f (pbk_pairs b)) = Some (?f e)"
    using assms(1) pair_hit_absorb by (subst find_update_first) auto
  have "List.find (leg_keyed ?r) (update_first (leg_keyed ?r) (absorb_leg delta dead) (prs_legs (snd e))) =
      map_option (absorb_leg delta dead) (List.find (leg_keyed ?r) (prs_legs (snd e)))"
    by (rule find_update_first) (auto simp: leg_keyed_def absorb_leg_def)
  moreover obtain l where "List.find (leg_keyed ?r) (prs_legs (snd e)) = Some l"
    using find_Some_prop [OF assms(1)] find_None_all [of "leg_keyed ?r" "prs_legs (snd e)"]
    by (auto simp: pair_hit_def)
  ultimately show "filled_by ?r (pair_order_event k delta dead b) = filled_by ?r b + delta"
    using u assms by (simp add: filled_by_def pair_order_event_def Let_def absorb_pair_def absorb_leg_def)
  show "List.find (pair_hit ?r) (pbk_pairs (pair_order_event k delta dead b)) \<noteq> None"
    using u assms(2) by (simp add: pair_order_event_def Let_def)
qed

text \<open>Replaying one order event moves no pair's status, but it is not idempotent: a fill delivered
  twice is counted twice in the filled shares of its leg.\<close>

theorem pair_event_replay:
  assumes "book_ok b" and "pair_hit (resolve_key k b) e" and "e \<in> set (pbk_pairs b)" and "0 < delta"
  shows "map (apsnd prs_status) (pbk_pairs (run pair_step b [PEvent k delta dead, PEvent k delta dead])) =
      map (apsnd prs_status) (pbk_pairs (run pair_step b [PEvent k delta dead])) \<and>
    filled_by (resolve_key k b) (run pair_step b [PEvent k delta dead, PEvent k delta dead]) =
      filled_by (resolve_key k b) b + 2 * delta"
proof
  let ?r = "resolve_key k b" and ?b1 = "pair_order_event k delta dead b"
  let ?f = "apsnd (absorb_pair (resolve_key k b) delta dead)"
  have r: "resolve_key k ?b1 = ?r" by (simp add: resolve_key_def pair_order_event_def Let_def)
  have b1: "pbk_pairs ?b1 = update_first (pair_hit ?r) ?f (pbk_pairs b)"
    using assms(4) by (simp add: pair_order_event_def Let_def)
  have b2: "pbk_pairs (pair_order_event k delta dead ?b1) = update_first (pair_hit ?r) (?f \<circ> ?f) (pbk_pairs b)"
    using assms(4) r update_first_twice [of "pbk_pairs b" "pair_hit ?r" ?f] pair_hit_absorb
    by (simp add: pair_order_event_def [of _ _ _ ?b1] Let_def b1)
  have "\<forall>e \<in> set (pbk_pairs b). \<forall>l \<in> set (prs_legs (snd e)). 0 \<le> plg_filled_shares l"
    using assms(1) by (simp add: book_ok_def pair_ok_def Let_def)
  then show "map (apsnd prs_status) (pbk_pairs (run pair_step b [PEvent k delta dead, PEvent k delta dead])) =
      map (apsnd prs_status) (pbk_pairs (run pair_step b [PEvent k delta dead]))"
    using event_twice_status b1 b2 by simp
  obtain x where x: "List.find (pair_hit ?r) (pbk_pairs b) = Some x"
    using assms(2,3) find_None_all [of "pair_hit ?r" "pbk_pairs b"] by auto
  obtain y where y: "List.find (pair_hit (resolve_key k ?b1)) (pbk_pairs ?b1) = Some y"
    using filled_event(2) [OF x assms(4), of dead] unfolding r by blast
  show "filled_by ?r (run pair_step b [PEvent k delta dead, PEvent k delta dead]) = filled_by ?r b + 2 * delta"
    using filled_event(1) [OF x assms(4), of dead] filled_event(1) [OF y assms(4), of dead] r by simp
qed

definition bound_demo :: pair_book where
  "bound_demo = run pair_step pair_book_new [PDeclare ''s'' ''a'' ''p'' up_leg btc_round 0,
     PBind ''s'' ''a'' ''u'' ''k'']"

theorem pair_event_replay_witness:
  "filled_by ''k'' (run pair_step bound_demo [PEvent ''k'' 5 False, PEvent ''k'' 5 False]) = 10"
proof -
  have b: "book_ok bound_demo" unfolding bound_demo_def by (rule pairs.run_inv) simp
  have h: "\<exists>e \<in> set (pbk_pairs bound_demo). pair_hit ''k'' e" and r: "resolve_key ''k'' bound_demo = ''k''"
    and z: "filled_by ''k'' bound_demo = 0"
    by (simp_all add: bound_demo_def pair_demo_defs filled_by_def)
  from h obtain e where "pair_hit (resolve_key ''k'' bound_demo) e" "e \<in> set (pbk_pairs bound_demo)"
    using r by auto
  from pair_event_replay [OF b this, of 5 False] show ?thesis by (simp add: r z)
qed

section \<open>Chasing a dead leg\<close>

text \<open>Both legs bound, the first filled, the second dead.\<close>

definition half_done :: "string \<Rightarrow> string \<Rightarrow> decimal \<Rightarrow> pair_op list" where
  "half_done ku kd n = [PDeclare ''s'' ''a'' ''p'' up_leg btc_round 0, PBind ''s'' ''a'' ''u'' ku,
     PDeclare ''s'' ''a'' ''p'' down_leg btc_round 0, PBind ''s'' ''a'' ''d'' kd,
     PEvent ku n False, PEvent kd 0 True]"

definition status_at :: "pair_key \<Rightarrow> pair_book \<Rightarrow> pair_status_t option" where
  "status_at k b = map_option prs_status (map_of (pbk_pairs b) k)"

text \<open>A chase order for the missing leg that is attached by binding its key, as the sweep does, is
  not attached at all when the leg had an order before: the first binding holds, the fill of the chase
  reaches no leg and the pair still reads as half done. Registered as a continuation, as the
  escalations do, the same fill completes the pair.\<close>

theorem pair_chase_fill_is_lost:
  assumes "ku \<noteq> []" and "kd \<noteq> []" and "kc \<noteq> []" and "distinct [ku, kd, kc]" and "0 < n" and "0 < m"
  shows "status_at (''s'', ''a'', ''BTC'', 7) (run pair_step pair_book_new
        (half_done ku kd n @ [PBind ''s'' ''a'' ''d'' kc, PEvent kc m False])) = Some (PPartial ''d'') \<and>
    status_at (''s'', ''a'', ''BTC'', 7) (run pair_step pair_book_new
        (half_done ku kd n @ [PContinue ''s'' ''a'' ''d'' kc, PEvent kc m False])) = Some PComplete"
  using assms by (auto simp: half_done_def status_at_def pair_demo_defs)

theorem pair_chase_fill_is_lost_witness:
  "status_at (''s'', ''a'', ''BTC'', 7) (run pair_step pair_book_new
     (half_done ''ku'' ''kd'' 10 @ [PBind ''s'' ''a'' ''d'' ''kc'', PEvent ''kc'' 10 False])) = Some (PPartial ''d'')"
  using pair_chase_fill_is_lost [of "''ku''" "''kd''" "''kc''" 10 10] by simp

text \<open>A leg declared after the first one filled leaves the pair partial without a name for the
  naked leg: the empty token is recorded at the fill and kept until the next event.\<close>

theorem pair_naked_leg_unnamed:
  assumes "k \<noteq> []" and "0 < n"
  shows "status_at (''s'', ''a'', ''BTC'', 7) (run pair_step pair_book_new
      [PDeclare ''s'' ''a'' ''p'' up_leg btc_round 0, PBind ''s'' ''a'' ''u'' k, PEvent k n False,
       PDeclare ''s'' ''a'' ''p'' down_leg btc_round 0]) = Some (PPartial [])"
  using assms by (auto simp: status_at_def pair_demo_defs)

theorem pair_naked_leg_unnamed_witness:
  "status_at (''s'', ''a'', ''BTC'', 7) (run pair_step pair_book_new
      [PDeclare ''s'' ''a'' ''p'' up_leg btc_round 0, PBind ''s'' ''a'' ''u'' ''k'', PEvent ''k'' 10 False,
       PDeclare ''s'' ''a'' ''p'' down_leg btc_round 0]) = Some (PPartial [])"
  using pair_naked_leg_unnamed [of "''k''" 10] by simp

end
