(* ===== verification/TradeDb.thy ===== *)
theory TradeDb
  imports Position StdLib "HOL-Library.Monad_Syntax"
begin

text \<open>
  The trade database, \<open>core/blitzkrieg_core/src/trade_db.rs\<close>: one JSON line per closed trade, the
  summary folded from them in doubles, the per-account summaries, and the retraction of a trade whose
  execution failed at the venue. The log file is a list of lines, a line that no trade can be read from
  being \<open>None\<close>; amounts pass through \<open>wire_decimal\<close> when they are read back. The environment's answers
  to the writes of one operation are the argument \<open>disk_answers\<close>.
\<close>

section \<open>Records\<close>

definition default_trade_log_path :: "mode \<Rightarrow> string" where
  "default_trade_log_path m =
    (if may_trade m then ''data/trades/trades-live.jsonl'' else ''data/trades/trades.jsonl'')"

fun exit_reason_snake :: "exit_reason \<Rightarrow> string" where
  "exit_reason_snake TakeProfit = ''take_profit''"
| "exit_reason_snake StopLoss = ''stop_loss''"
| "exit_reason_snake RatchetFloor = ''ratchet_floor''"
| "exit_reason_snake TrailingStop = ''trailing_stop''"
| "exit_reason_snake BreakevenLock = ''breakeven_lock''"
| "exit_reason_snake DepthCollapse = ''depth_collapse''"
| "exit_reason_snake StaleProfit = ''stale_profit''"
| "exit_reason_snake StagnantProfit = ''stagnant_profit''"
| "exit_reason_snake TimeExit = ''time_exit''"
| "exit_reason_snake ForceExit = ''force_exit''"
| "exit_reason_snake Manual = ''manual''"
| "exit_reason_snake StrategySignal = ''strategy_signal''"
| "exit_reason_snake Settlement = ''settlement''"
| "exit_reason_snake Merge = ''merge''"
| "exit_reason_snake UnverifiableExpiry = ''unverifiable_expiry''"
| "exit_reason_snake ThesisDeathExit = ''thesis_death_exit''"

record trade_record =
  tr_id :: string
  tr_strategy :: string
  tr_asset :: string
  tr_direction :: string
  tr_token_id :: string
  tr_condition_id :: string
  tr_account_id :: account_id
  tr_entry_price :: decimal
  tr_exit_price :: decimal
  tr_shares :: decimal
  tr_cost_usd :: decimal
  tr_gross_pnl_usd :: decimal
  tr_entry_fee_pct :: decimal
  tr_exit_fee_pct :: decimal
  tr_fees_usd :: decimal
  tr_net_pnl_usd :: decimal
  tr_net_pnl_pct :: decimal
  tr_hold_time_sec :: int
  tr_entry_time :: int
  tr_exit_time :: int
  tr_exit_reason :: string
  tr_was_maker_entry :: bool
  tr_was_maker_exit :: bool
  tr_market_price_at_entry :: decimal
  tr_market_price_at_exit :: decimal
  tr_high_pnl_pct :: decimal
  tr_low_pnl_pct :: decimal
  tr_venue :: string
  tr_source :: string
  tr_original_fallback_price :: "decimal option"

text \<open>The two fees a closed position implies: percentages applied to its average prices.\<close>

definition closed_fees :: "dec_ops \<Rightarrow> closed_position \<Rightarrow> decimal \<times> decimal" where
  "closed_fees D c = (ddiv D (c_entry_fee_pct c) 100 * c_entry_price c * c_shares c,
     ddiv D (c_exit_fee_pct c) 100 * c_exit_price c * c_shares c)"

definition from_closed :: "dec_ops \<Rightarrow> closed_position \<Rightarrow> trade_record" where
  "from_closed D c =
    (let (entry_fee, exit_fee) = closed_fees D c in
     \<lparr>tr_id = c_id c, tr_strategy = c_strategy c, tr_asset = c_asset c,
      tr_direction = direction_as_str (c_direction c), tr_token_id = c_token_id c,
      tr_condition_id = c_condition_id c, tr_account_id = c_account_id c,
      tr_entry_price = c_entry_price c, tr_exit_price = c_exit_price c, tr_shares = c_shares c,
      tr_cost_usd = c_cost_usd c, tr_gross_pnl_usd = c_net_pnl_usd c + entry_fee + exit_fee,
      tr_entry_fee_pct = c_entry_fee_pct c, tr_exit_fee_pct = c_exit_fee_pct c,
      tr_fees_usd = entry_fee + exit_fee, tr_net_pnl_usd = c_net_pnl_usd c,
      tr_net_pnl_pct = c_net_pnl_pct c, tr_hold_time_sec = c_hold_time_sec c,
      tr_entry_time = c_entered_at_ms c, tr_exit_time = c_exited_at_ms c,
      tr_exit_reason = exit_reason_snake (c_exit_reason c), tr_was_maker_entry = c_was_maker_entry c,
      tr_was_maker_exit = c_was_maker_exit c, tr_market_price_at_entry = c_entry_price c,
      tr_market_price_at_exit = c_exit_price c, tr_high_pnl_pct = c_high_pnl_pct c,
      tr_low_pnl_pct = c_low_pnl_pct c, tr_venue = c_venue c, tr_source = c_source c,
      tr_original_fallback_price = c_original_fallback_price c\<rparr>)"

text \<open>A record read back from its line.\<close>

definition read_trade :: "dec_ops \<Rightarrow> trade_record \<Rightarrow> trade_record option" where
  "read_trade D r = do {
     entry \<leftarrow> wire_decimal D (tr_entry_price r);
     exit_px \<leftarrow> wire_decimal D (tr_exit_price r);
     shares \<leftarrow> wire_decimal D (tr_shares r);
     cost \<leftarrow> wire_decimal D (tr_cost_usd r);
     gross \<leftarrow> wire_decimal D (tr_gross_pnl_usd r);
     entry_pct \<leftarrow> wire_decimal D (tr_entry_fee_pct r);
     exit_pct \<leftarrow> wire_decimal D (tr_exit_fee_pct r);
     fees \<leftarrow> wire_decimal D (tr_fees_usd r);
     net \<leftarrow> wire_decimal D (tr_net_pnl_usd r);
     net_pct \<leftarrow> wire_decimal D (tr_net_pnl_pct r);
     market_entry \<leftarrow> wire_decimal D (tr_market_price_at_entry r);
     market_exit \<leftarrow> wire_decimal D (tr_market_price_at_exit r);
     high \<leftarrow> wire_decimal D (tr_high_pnl_pct r);
     low \<leftarrow> wire_decimal D (tr_low_pnl_pct r);
     fallback \<leftarrow> (case tr_original_fallback_price r of
        None \<Rightarrow> Some None | Some v \<Rightarrow> map_option Some (wire_decimal D v));
     Some (r\<lparr>tr_entry_price := entry, tr_exit_price := exit_px, tr_shares := shares, tr_cost_usd := cost,
       tr_gross_pnl_usd := gross, tr_entry_fee_pct := entry_pct, tr_exit_fee_pct := exit_pct,
       tr_fees_usd := fees, tr_net_pnl_usd := net, tr_net_pnl_pct := net_pct,
       tr_market_price_at_entry := market_entry, tr_market_price_at_exit := market_exit,
       tr_high_pnl_pct := high, tr_low_pnl_pct := low, tr_original_fallback_price := fallback\<rparr>) }"

section \<open>The summary\<close>

record trade_summary =
  ts_total_trades :: nat
  ts_wins :: nat
  ts_losses :: nat
  ts_win_rate :: rat
  ts_total_gross_pnl :: rat
  ts_total_fees :: rat
  ts_total_net_pnl :: rat
  ts_avg_hold_time_sec :: rat
  ts_best_trade_pnl :: rat
  ts_worst_trade_pnl :: rat
  ts_last_updated :: int

definition no_trades :: trade_summary where
  "no_trades = \<lparr>ts_total_trades = 0, ts_wins = 0, ts_losses = 0, ts_win_rate = 0, ts_total_gross_pnl = 0,
     ts_total_fees = 0, ts_total_net_pnl = 0, ts_avg_hold_time_sec = 0, ts_best_trade_pnl = 0,
     ts_worst_trade_pnl = 0, ts_last_updated = 0\<rparr>"

definition f64_of :: "decimal \<Rightarrow> rat" where
  "f64_of d = f64_round d"

definition fold_into :: "trade_record \<Rightarrow> trade_summary \<Rightarrow> trade_summary" where
  "fold_into r s =
    (let net = f64_of (tr_net_pnl_usd r);
         tot = ts_total_trades s + 1;
         wins = (if net \<ge> 0 then ts_wins s + 1 else ts_wins s);
         losses = (if net \<ge> 0 then ts_losses s else ts_losses s + 1);
         n = f64_round (of_nat tot)
     in s\<lparr>ts_total_trades := tot, ts_wins := wins, ts_losses := losses,
          ts_win_rate := f64_round (f64_round (f64_round (of_nat wins) / n) * 100),
          ts_total_gross_pnl := f64_round (ts_total_gross_pnl s + f64_of (tr_gross_pnl_usd r)),
          ts_total_fees := f64_round (ts_total_fees s + f64_of (tr_fees_usd r)),
          ts_total_net_pnl := f64_round (ts_total_net_pnl s + net),
          ts_avg_hold_time_sec := f64_round (f64_round (f64_round (ts_avg_hold_time_sec s * f64_round (n - 1)) +
             f64_round (of_int (tr_hold_time_sec r))) / n),
          ts_best_trade_pnl := max (ts_best_trade_pnl s) net,
          ts_worst_trade_pnl := min (ts_worst_trade_pnl s) net\<rparr>)"

section \<open>The database\<close>

record trade_db =
  tdb_lines :: "trade_record option list option"
  tdb_summary_file :: "trade_summary option"
  tdb_summary :: trade_summary
  tdb_by_account :: "(account_id \<times> trade_summary) list"
  tdb_max_hft_tail :: nat

record disk_answers =
  da_append :: bool
  da_rewrite :: bool
  da_summary :: bool

definition read_lines :: "dec_ops \<Rightarrow> trade_record option list \<Rightarrow> trade_record list" where
  "read_lines D ls = List.map_filter (\<lambda>l. Option.bind l (read_trade D)) ls"

text \<open>\<open>by_account.entry(..).or_default()\<close>, folded into.\<close>

definition fold_account ::
  "trade_record \<Rightarrow> (account_id \<times> trade_summary) list \<Rightarrow> (account_id \<times> trade_summary) list" where
  "fold_account r m = AList.update (tr_account_id r)
     (fold_into r (case map_of m (tr_account_id r) of Some s \<Rightarrow> s | None \<Rightarrow> no_trades)) m"

definition tdb_new :: "dec_ops \<Rightarrow> trade_record option list option \<Rightarrow> trade_summary option \<Rightarrow> trade_db" where
  "tdb_new D lines summary_file =
    (let rws = (case lines of Some ls \<Rightarrow> read_lines D ls | None \<Rightarrow> []) in
     \<lparr>tdb_lines = lines, tdb_summary_file = summary_file,
      tdb_summary = (case summary_file of Some s \<Rightarrow> s | None \<Rightarrow> no_trades),
      tdb_by_account = fold fold_account rws [],
      tdb_max_hft_tail = fold max (List.map_filter (hft_number \<circ> tr_id) rws) 0\<rparr>)"

definition persist_summary :: "disk_answers \<Rightarrow> trade_db \<Rightarrow> trade_db" where
  "persist_summary x db = (if da_summary x then db\<lparr>tdb_summary_file := Some (tdb_summary db)\<rparr> else db)"

definition append_line :: "disk_answers \<Rightarrow> trade_record \<Rightarrow> trade_db \<Rightarrow> trade_db" where
  "append_line x r db = (if da_append x
     then db\<lparr>tdb_lines := Some ((case tdb_lines db of Some ls \<Rightarrow> ls | None \<Rightarrow> []) @ [Some r])\<rparr> else db)"

definition tdb_record :: "disk_answers \<Rightarrow> trade_record \<Rightarrow> int \<Rightarrow> trade_db \<Rightarrow> trade_db" where
  "tdb_record x r now db =
    (let db1 = append_line x r db
     in persist_summary x (db1\<lparr>tdb_by_account := fold_account r (tdb_by_account db1),
          tdb_summary := (fold_into r (tdb_summary db1))\<lparr>ts_last_updated := now\<rparr>\<rparr>))"

definition summary_for :: "string \<Rightarrow> trade_db \<Rightarrow> trade_summary" where
  "summary_for account db = (case List.find (\<lambda>(a, s). as_str a = account) (tdb_by_account db) of
     Some (a, s) \<Rightarrow> s | None \<Rightarrow> no_trades)"

text \<open>Rewriting the log and rebuilding everything derived from it.\<close>

definition rebuild_from :: "disk_answers \<Rightarrow> trade_record list \<Rightarrow> int \<Rightarrow> trade_db \<Rightarrow> trade_db" where
  "rebuild_from x rws now db = persist_summary x (db\<lparr>tdb_lines := Some (map Some rws),
     tdb_by_account := fold fold_account rws [],
     tdb_summary := (fold fold_into rws no_trades)\<lparr>ts_last_updated := now\<rparr>\<rparr>)"

definition same_close :: "trade_record \<Rightarrow> trade_record \<Rightarrow> bool" where
  "same_close r q \<longleftrightarrow> tr_id q = tr_id r \<and> tr_exit_time q = tr_exit_time r \<and> tr_net_pnl_usd q = tr_net_pnl_usd r"

definition tdb_retract :: "dec_ops \<Rightarrow> disk_answers \<Rightarrow> trade_record \<Rightarrow> int \<Rightarrow> trade_db \<Rightarrow> trade_db" where
  "tdb_retract D x r now db = (case tdb_lines db of
     None \<Rightarrow> db
   | Some ls \<Rightarrow> (let rws = read_lines D ls in
       if List.find (same_close r) rws = None then db
       else if \<not> da_rewrite x then db
       else rebuild_from x (remove_first (same_close r) rws) now db))"

definition tdb_reset :: "disk_answers \<Rightarrow> trade_db \<Rightarrow> trade_db" where
  "tdb_reset x db = persist_summary x (db\<lparr>tdb_lines := (if da_rewrite x then Some [] else tdb_lines db),
     tdb_summary := no_trades, tdb_by_account := []\<rparr>)"

definition tdb_retract_account ::
  "dec_ops \<Rightarrow> disk_answers \<Rightarrow> string \<Rightarrow> int \<Rightarrow> trade_db \<Rightarrow> trade_db \<times> nat" where
  "tdb_retract_account D x account now db = (case tdb_lines db of
     None \<Rightarrow> (db, 0)
   | Some ls \<Rightarrow>
       (let rws = read_lines D ls;
            kept = filter (\<lambda>r. as_str (tr_account_id r) \<noteq> account) rws;
            removed = filter (\<lambda>r. as_str (tr_account_id r) = account) rws
        in if removed = [] then (db, 0)
           else if \<not> da_rewrite x then (db, 0)
           else (rebuild_from x kept now db, length removed)))"

section \<open>What the summaries are\<close>

definition clean_record :: "dec_ops \<Rightarrow> trade_record \<Rightarrow> bool" where
  "clean_record D r \<longleftrightarrow> read_trade D r = Some r"

definition logged :: "dec_ops \<Rightarrow> trade_db \<Rightarrow> trade_record list" where
  "logged D db = (case tdb_lines db of Some ls \<Rightarrow> read_lines D ls | None \<Rightarrow> [])"

definition totals :: "trade_summary \<Rightarrow> trade_summary" where
  "totals s = s\<lparr>ts_last_updated := 0\<rparr>"

definition all_ok :: disk_answers where
  "all_ok = \<lparr>da_append = True, da_rewrite = True, da_summary = True\<rparr>"

datatype trade_op = TRecord disk_answers trade_record int | TRetract disk_answers trade_record int
  | TRetractAccount disk_answers string int | TReset disk_answers

fun tdb_step :: "dec_ops \<Rightarrow> trade_db \<Rightarrow> trade_op \<Rightarrow> trade_db" where
  "tdb_step D db (TRecord x r now) = tdb_record x r now db"
| "tdb_step D db (TRetract x r now) = tdb_retract D x r now db"
| "tdb_step D db (TRetractAccount x a now) = fst (tdb_retract_account D x a now db)"
| "tdb_step D db (TReset x) = tdb_reset x db"

text \<open>The lines hold clean records, and both summaries are the folds of them.\<close>

definition account_folds :: "(account_id \<times> trade_summary) list \<Rightarrow> trade_record list \<Rightarrow> bool" where
  "account_folds m rws \<longleftrightarrow> (\<forall>a. map_of m a =
     (let rs = filter (\<lambda>r. tr_account_id r = a) rws in
      if rs = [] then None else Some (fold fold_into rs no_trades)))"

definition tdb_inv :: "dec_ops \<Rightarrow> trade_db \<Rightarrow> bool" where
  "tdb_inv D db \<longleftrightarrow> (tdb_lines db = Some (map Some (logged D db)) \<or> tdb_lines db = None) \<and>
     (\<forall>r \<in> set (logged D db). clean_record D r) \<and>
     totals (tdb_summary db) = totals (fold fold_into (logged D db) no_trades) \<and>
     account_folds (tdb_by_account db) (logged D db) \<and>
     totals (tdb_summary db) = totals (case tdb_summary_file db of Some s \<Rightarrow> s | None \<Rightarrow> no_trades)"

lemma read_lines_Nil [simp]: "read_lines D [] = []"
  by (simp add: read_lines_def List.map_filter_simps)

lemma read_lines_append: "read_lines D (xs @ ys) = read_lines D xs @ read_lines D ys"
  by (simp add: read_lines_def map_filter_def)

lemma read_lines_single: "read_lines D [Some r] = (case read_trade D r of None \<Rightarrow> [] | Some q \<Rightarrow> [q])"
  by (simp add: read_lines_def List.map_filter_simps split: option.splits)

lemma read_trade_net: "read_trade D r = Some q \<Longrightarrow> wire_decimal D (tr_net_pnl_usd r) = Some (tr_net_pnl_usd q)"
  by (auto simp: read_trade_def bind_eq_Some_conv)

lemma read_lines_clean: "(\<forall>r \<in> set rws. clean_record D r) \<Longrightarrow> read_lines D (map Some rws) = rws"
  by (induction rws) (simp_all add: read_lines_def List.map_filter_simps clean_record_def)

lemma totals_fold_into: "totals (fold_into r s) = fold_into r (totals s)"
  by (simp add: totals_def fold_into_def Let_def)

lemma totals_idem [simp]: "totals (totals s) = totals s" "totals (s\<lparr>ts_last_updated := t\<rparr>) = totals s"
  by (simp_all add: totals_def)

lemma totals_no_trades: "totals no_trades = no_trades"
  by (simp add: totals_def no_trades_def)

lemma account_folds_Nil: "account_folds [] []"
  by (simp add: account_folds_def)

lemma account_folds_snoc: "account_folds m rws \<Longrightarrow> account_folds (fold_account r m) (rws @ [r])"
  by (auto simp: account_folds_def fold_account_def Let_def)

lemma account_folds_all: "account_folds (fold fold_account rws []) rws"
  by (induction rws rule: rev_induct) (simp_all add: account_folds_Nil account_folds_snoc)

lemma summary_for_lookup:
  "summary_for a db = (case map_of (tdb_by_account db) (AccountId a) of Some s \<Rightarrow> s | None \<Rightarrow> no_trades)"
proof -
  have "List.find (\<lambda>(b, s). as_str b = a) m = map_option (\<lambda>s. (AccountId a, s)) (map_of m (AccountId a))"
    for m :: "(account_id \<times> trade_summary) list"
  proof (induction m)
    case (Cons e m)
    then show ?case by (cases e; cases "fst e") auto
  qed simp
  then show ?thesis by (simp add: summary_for_def split: option.splits)
qed

lemma account_id_eq: "(tr_account_id r = AccountId a) = (as_str (tr_account_id r) = a)"
  by (cases "tr_account_id r") auto

lemma inv_summary_for:
  "account_folds (tdb_by_account db) rws \<Longrightarrow>
    summary_for a db = fold fold_into (filter (\<lambda>r. as_str (tr_account_id r) = a) rws) no_trades"
  by (auto simp: summary_for_lookup account_folds_def Let_def account_id_eq)

text \<open>Recording, rebuilding, resetting.\<close>

lemma record_inv:
  assumes "tdb_inv D db" and "clean_record D r"
  shows "tdb_inv D (tdb_record all_ok r now db) \<and> logged D (tdb_record all_ok r now db) = logged D db @ [r]"
proof -
  have l: "logged D (tdb_record all_ok r now db) = logged D db @ [r]"
    using assms by (auto simp: logged_def tdb_record_def append_line_def persist_summary_def all_ok_def Let_def
        read_lines_append read_lines_single clean_record_def split: option.splits)
  moreover have "tdb_lines (tdb_record all_ok r now db) = Some (map Some (logged D db @ [r]))"
    using assms by (auto simp: tdb_inv_def tdb_record_def append_line_def persist_summary_def all_ok_def Let_def
        logged_def split: option.splits)
  moreover have "totals (tdb_summary (tdb_record all_ok r now db)) = fold_into r (totals (tdb_summary db))"
    by (simp add: tdb_record_def append_line_def persist_summary_def all_ok_def Let_def totals_fold_into)
  moreover have "tdb_summary_file (tdb_record all_ok r now db) = Some (tdb_summary (tdb_record all_ok r now db))"
    "tdb_by_account (tdb_record all_ok r now db) = fold_account r (tdb_by_account db)"
    by (simp_all add: tdb_record_def append_line_def persist_summary_def all_ok_def Let_def)
  ultimately show ?thesis
    using assms by (auto simp: tdb_inv_def account_folds_snoc totals_fold_into)
qed

lemma rebuild_inv:
  assumes "\<forall>r \<in> set rws. clean_record D r"
  shows "tdb_inv D (rebuild_from all_ok rws now db) \<and> logged D (rebuild_from all_ok rws now db) = rws"
  using assms
  by (simp add: tdb_inv_def logged_def rebuild_from_def persist_summary_def all_ok_def read_lines_clean
      account_folds_all)

lemma new_inv: "tdb_inv D (tdb_new D None None)"
  by (simp add: tdb_inv_def logged_def tdb_new_def account_folds_Nil)

section \<open>The summary is the fold of the log\<close>

text \<open>What the text of a double denotes has that double as its nearest one: the shortest text that names it is
  what the writer of a JSON number prints.\<close>

definition numbers_survive :: "dec_ops \<Rightarrow> bool" where
  "numbers_survive D \<longleftrightarrow> (\<forall>a d. wire_decimal D a = Some d \<longrightarrow> f64_round d = f64_round a)"

lemma wire_again: "numbers_survive D \<Longrightarrow> wire_decimal D a = Some d \<Longrightarrow> wire_decimal D d = Some d"
  by (auto simp: numbers_survive_def wire_decimal_def)

lemma fold_into_doubles:
  "f64_round (tr_net_pnl_usd q) = f64_round (tr_net_pnl_usd r) \<Longrightarrow> f64_round (tr_gross_pnl_usd q) = f64_round (tr_gross_pnl_usd r) \<Longrightarrow>
    f64_round (tr_fees_usd q) = f64_round (tr_fees_usd r) \<Longrightarrow> tr_hold_time_sec q = tr_hold_time_sec r \<Longrightarrow>
    fold_into q s = fold_into r s"
  by (simp add: fold_into_def f64_of_def)

text \<open>The summary sees a record and the record read back from its line alike.\<close>

lemma read_trade_same:
  assumes "read_trade D r = Some q"
  shows "wire_decimal D (tr_net_pnl_usd r) = Some (tr_net_pnl_usd q)" "wire_decimal D (tr_gross_pnl_usd r) = Some (tr_gross_pnl_usd q)"
    "wire_decimal D (tr_fees_usd r) = Some (tr_fees_usd q)" "tr_hold_time_sec q = tr_hold_time_sec r"
    "tr_account_id q = tr_account_id r"
  using assms by (auto simp: read_trade_def bind_eq_Some_conv)

lemma read_trade_fold:
  assumes "numbers_survive D" and "read_trade D r = Some q"
  shows "fold_into q s = fold_into r s"
  using assms(1) read_trade_same [OF assms(2)] unfolding numbers_survive_def by (intro fold_into_doubles) blast+

lemma read_trade_again:
  assumes "numbers_survive D" and "read_trade D r = Some q"
  shows "read_trade D q = Some q"
proof -
  obtain a1 a2 a3 a4 a5 a6 a7 a8 a9 a10 a11 a12 a13 a14 f where
    w: "wire_decimal D (tr_entry_price r) = Some a1" "wire_decimal D (tr_exit_price r) = Some a2"
      "wire_decimal D (tr_shares r) = Some a3" "wire_decimal D (tr_cost_usd r) = Some a4"
      "wire_decimal D (tr_gross_pnl_usd r) = Some a5" "wire_decimal D (tr_entry_fee_pct r) = Some a6"
      "wire_decimal D (tr_exit_fee_pct r) = Some a7" "wire_decimal D (tr_fees_usd r) = Some a8"
      "wire_decimal D (tr_net_pnl_usd r) = Some a9" "wire_decimal D (tr_net_pnl_pct r) = Some a10"
      "wire_decimal D (tr_market_price_at_entry r) = Some a11" "wire_decimal D (tr_market_price_at_exit r) = Some a12"
      "wire_decimal D (tr_high_pnl_pct r) = Some a13" "wire_decimal D (tr_low_pnl_pct r) = Some a14"
    and f: "(case tr_original_fallback_price r of None \<Rightarrow> Some None | Some v \<Rightarrow> map_option Some (wire_decimal D v)) = Some f"
    and q: "q = r\<lparr>tr_entry_price := a1, tr_exit_price := a2, tr_shares := a3, tr_cost_usd := a4, tr_gross_pnl_usd := a5,
       tr_entry_fee_pct := a6, tr_exit_fee_pct := a7, tr_fees_usd := a8, tr_net_pnl_usd := a9, tr_net_pnl_pct := a10,
       tr_market_price_at_entry := a11, tr_market_price_at_exit := a12, tr_high_pnl_pct := a13, tr_low_pnl_pct := a14,
       tr_original_fallback_price := f\<rparr>"
    using assms(2) unfolding read_trade_def bind_eq_Some_conv by blast
  have "(case f of None \<Rightarrow> Some None | Some v \<Rightarrow> map_option Some (wire_decimal D v)) = Some f"
    using f wire_again [OF assms(1)] by (auto split: option.splits)
  then show ?thesis by (simp add: q read_trade_def w [THEN wire_again [OF assms(1)]])
qed

definition written :: "trade_db \<Rightarrow> trade_record list" where
  "written db = (case tdb_lines db of Some ls \<Rightarrow> List.map_filter id ls | None \<Rightarrow> [])"

definition sum_inv :: "dec_ops \<Rightarrow> trade_db \<Rightarrow> bool" where
  "sum_inv D db \<longleftrightarrow> (tdb_lines db = Some (map Some (written db)) \<or> tdb_lines db = None) \<and>
     (\<forall>r \<in> set (written db). read_trade D r \<noteq> None) \<and>
     totals (tdb_summary db) = totals (fold fold_into (written db) no_trades) \<and>
     account_folds (tdb_by_account db) (written db) \<and>
     totals (tdb_summary db) = totals (case tdb_summary_file db of Some s \<Rightarrow> s | None \<Rightarrow> no_trades)"

lemma map_filter_Some [simp]: "List.map_filter id (map Some xs) = xs"
  by (simp add: map_filter_def comp_def)

lemma logged_written:
  assumes "sum_inv D db"
  shows "logged D db = map (\<lambda>r. the (read_trade D r)) (written db)"
proof -
  have read: "read_lines D (map Some rs) = map (\<lambda>r. the (read_trade D r)) rs" if "\<forall>r \<in> set rs. read_trade D r \<noteq> None" for rs
    using that by (induction rs) (auto simp: read_lines_def List.map_filter_simps)
  have ok: "\<forall>r \<in> set (written db). read_trade D r \<noteq> None" using assms by (simp add: sum_inv_def)
  have "tdb_lines db = Some (map Some (written db)) \<or> tdb_lines db = None" using assms by (simp add: sum_inv_def)
  then show ?thesis
  proof
    assume "tdb_lines db = Some (map Some (written db))"
    then show ?thesis using read [OF ok] by (simp only: logged_def option.case)
  next
    assume "tdb_lines db = None"
    then show ?thesis by (simp add: logged_def written_def)
  qed
qed

lemma fold_reread:
  assumes "numbers_survive D" "\<forall>r \<in> set rs. read_trade D r \<noteq> None"
  shows "fold fold_into (map (\<lambda>r. the (read_trade D r)) rs) s = fold fold_into rs s"
    "fold fold_into (filter (\<lambda>r. as_str (tr_account_id r) = a) (map (\<lambda>r. the (read_trade D r)) rs)) s =
      fold fold_into (filter (\<lambda>r. as_str (tr_account_id r) = a) rs) s"
proof -
  have one: "fold_into (the (read_trade D r)) s = fold_into r s" "tr_account_id (the (read_trade D r)) = tr_account_id r"
    if "read_trade D r \<noteq> None" for r s
    using that read_trade_fold [OF assms(1), of r] read_trade_same(5) [of D r] by auto
  show "fold fold_into (map (\<lambda>r. the (read_trade D r)) rs) s = fold fold_into rs s"
    using assms(2) by (induction rs arbitrary: s) (simp_all add: one)
  show "fold fold_into (filter (\<lambda>r. as_str (tr_account_id r) = a) (map (\<lambda>r. the (read_trade D r)) rs)) s =
      fold fold_into (filter (\<lambda>r. as_str (tr_account_id r) = a) rs) s"
    using assms(2) by (induction rs arbitrary: s) (simp_all add: one)
qed

lemma sum_record: "sum_inv D db \<Longrightarrow> read_trade D r \<noteq> None \<Longrightarrow> sum_inv D (tdb_record all_ok r now db)"
proof -
  assume i: "sum_inv D db" and r: "read_trade D r \<noteq> None"
  let ?db = "tdb_record all_ok r now db"
  have "tdb_lines ?db = Some (map Some (written db @ [r]))"
    using i by (auto simp: sum_inv_def tdb_record_def append_line_def persist_summary_def all_ok_def Let_def written_def
        split: option.splits)
  moreover from this have "written ?db = written db @ [r]" by (simp only: written_def option.case map_filter_Some)
  moreover have "totals (tdb_summary ?db) = fold_into r (totals (tdb_summary db))"
    "tdb_summary_file ?db = Some (tdb_summary ?db)" "tdb_by_account ?db = fold_account r (tdb_by_account db)"
    by (simp_all add: tdb_record_def append_line_def persist_summary_def all_ok_def Let_def totals_fold_into)
  ultimately show ?thesis using i r by (auto simp: sum_inv_def account_folds_snoc totals_fold_into)
qed

lemma sum_rebuild:
  assumes "numbers_survive D" "sum_inv D db" "set rws \<subseteq> set (logged D db)"
  shows "sum_inv D (rebuild_from all_ok rws now db)"
proof -
  have "read_trade D q \<noteq> None" if "q \<in> set rws" for q
  proof -
    have "q \<in> (\<lambda>r. the (read_trade D r)) ` set (written db)"
      using that assms(3) unfolding logged_written [OF assms(2)] set_map by (rule rev_subsetD)
    then obtain r where "r \<in> set (written db)" "q = the (read_trade D r)" by blast
    then have "read_trade D r = Some q" using assms(2) by (auto simp: sum_inv_def)
    then show ?thesis using read_trade_again [OF assms(1)] by simp
  qed
  moreover have "written (rebuild_from all_ok rws now db) = rws"
    by (simp add: written_def rebuild_from_def persist_summary_def all_ok_def)
  ultimately show ?thesis
    by (simp add: sum_inv_def) (simp add: rebuild_from_def persist_summary_def all_ok_def account_folds_all)
qed

text \<open>The writes succeed, and a recorded trade can be read back from its line.\<close>

fun legible_op :: "dec_ops \<Rightarrow> trade_op \<Rightarrow> bool" where
  "legible_op D (TRecord x r now) \<longleftrightarrow> x = all_ok \<and> read_trade D r \<noteq> None"
| "legible_op D (TRetract x r now) \<longleftrightarrow> x = all_ok"
| "legible_op D (TRetractAccount x a now) \<longleftrightarrow> x = all_ok"
| "legible_op D (TReset x) \<longleftrightarrow> x = all_ok"

lemma sum_step:
  assumes "numbers_survive D" "sum_inv D db" "legible_op D x"
  shows "sum_inv D (tdb_step D db x)"
proof (cases x)
  case (TRetract y r now)
  have "sum_inv D (rebuild_from all_ok (remove_first (same_close r) (logged D db)) now db)"
    using set_remove_first [of "same_close r" "logged D db"] by (intro sum_rebuild assms(1,2)) auto
  then show ?thesis
    using assms TRetract by (auto simp: tdb_retract_def logged_def Let_def split: option.splits)
next
  case (TRetractAccount y a now)
  have "sum_inv D (rebuild_from all_ok (filter (\<lambda>r. as_str (tr_account_id r) \<noteq> a) (logged D db)) now db)"
    by (intro sum_rebuild assms(1,2)) auto
  then show ?thesis
    using assms TRetractAccount by (auto simp: tdb_retract_account_def logged_def Let_def split: option.splits)
next
  case (TReset y)
  then show ?thesis
    using assms(3) by (simp add: sum_inv_def written_def tdb_reset_def persist_summary_def all_ok_def account_folds_Nil
        List.map_filter_simps totals_no_trades)
qed (use assms in \<open>auto simp: sum_record\<close>)

lemma sum_new: "sum_inv D (tdb_new D None None)"
  by (simp add: sum_inv_def written_def tdb_new_def account_folds_Nil)

interpretation trades: invariant_machine
  "\<lambda>db x. if numbers_survive D \<and> legible_op D x then tdb_step D db x else db" "sum_inv D"
  by unfold_locales (simp add: sum_step)

lemma sum_inv_summaries:
  assumes "numbers_survive D" "sum_inv D db"
  shows "totals (tdb_summary db) = fold fold_into (logged D db) no_trades"
    "summary_for a db = fold fold_into (filter (\<lambda>r. as_str (tr_account_id r) = a) (logged D db)) no_trades"
proof -
  have ok: "\<forall>r \<in> set (written db). read_trade D r \<noteq> None" "account_folds (tdb_by_account db) (written db)"
    "totals (tdb_summary db) = totals (fold fold_into (written db) no_trades)"
    using assms(2) by (simp_all add: sum_inv_def)
  have "totals (fold fold_into rws s) = fold fold_into rws (totals s)" for rws s
    by (induction rws arbitrary: s) (simp_all add: totals_fold_into)
  then show "totals (tdb_summary db) = fold fold_into (logged D db) no_trades"
    using ok by (simp add: logged_written [OF assms(2)] fold_reread [OF assms(1)] totals_no_trades)
  show "summary_for a db = fold fold_into (filter (\<lambda>r. as_str (tr_account_id r) = a) (logged D db)) no_trades"
    unfolding logged_written [OF assms(2)] fold_reread(2) [OF assms(1) ok(1)] by (rule inv_summary_for [OF ok(2)])
qed


section \<open>Retracting a trade\<close>

lemma remove_first_snoc: "List.find P xs = None \<Longrightarrow> P x \<Longrightarrow> remove_first P (xs @ [x]) = xs"
  by (induction xs) (auto split: if_splits)

text \<open>Retracting a trade undoes its record: if the log can hold its amounts and holds no other
  trade with its key, the log, the summary and every account's summary are what they were before.\<close>

theorem tradedb_retract_undoes_record:
  assumes "tdb_inv D db" and "clean_record D r" and "List.find (same_close r) (logged D db) = None"
  shows "logged D (tdb_retract D all_ok r t1 (tdb_record all_ok r t0 db)) = logged D db \<and>
    totals (tdb_summary (tdb_retract D all_ok r t1 (tdb_record all_ok r t0 db))) = totals (tdb_summary db) \<and>
    summary_for a (tdb_retract D all_ok r t1 (tdb_record all_ok r t0 db)) = summary_for a db"
proof -
  let ?db = "tdb_record all_ok r t0 db"
  have i: "tdb_inv D ?db" "logged D ?db = logged D db @ [r]"
    using record_inv [OF assms(1,2)] by blast+
  have "same_close r r" by (simp add: same_close_def)
  then have f: "List.find (same_close r) (logged D ?db) \<noteq> None"
      "remove_first (same_close r) (logged D ?db) = logged D db"
    using i(2) assms(3) by (auto simp: find_append remove_first_snoc)
  obtain ls where ls: "tdb_lines ?db = Some ls"
    by (simp add: tdb_record_def append_line_def persist_summary_def all_ok_def Let_def)
  then have "read_lines D ls = logged D ?db" by (simp add: logged_def)
  then have e: "tdb_retract D all_ok r t1 ?db = rebuild_from all_ok (logged D db) t1 ?db"
    using f ls by (auto simp: tdb_retract_def Let_def all_ok_def)
  have c: "\<forall>q \<in> set (logged D db). clean_record D q" using assms(1) by (simp add: tdb_inv_def)
  have j: "tdb_inv D (rebuild_from all_ok (logged D db) t1 ?db)"
    "logged D (rebuild_from all_ok (logged D db) t1 ?db) = logged D db"
    using rebuild_inv [OF c] by blast+
  show ?thesis unfolding e using j assms(1) by (auto simp: tdb_inv_def inv_summary_for)
qed

definition demo_trade :: trade_record where
  "demo_trade = \<lparr>tr_id = ''hft-3'', tr_strategy = ''s'', tr_asset = ''BTC'', tr_direction = ''up'',
     tr_token_id = ''t'', tr_condition_id = ''c'', tr_account_id = AccountId ''a'', tr_entry_price = 0,
     tr_exit_price = 0, tr_shares = 1, tr_cost_usd = 0, tr_gross_pnl_usd = 1, tr_entry_fee_pct = 0,
     tr_exit_fee_pct = 0, tr_fees_usd = 0, tr_net_pnl_usd = 1, tr_net_pnl_pct = 0, tr_hold_time_sec = 1,
     tr_entry_time = 0, tr_exit_time = 9, tr_exit_reason = ''manual'', tr_was_maker_entry = True,
     tr_was_maker_exit = True, tr_market_price_at_entry = 0, tr_market_price_at_exit = 0,
     tr_high_pnl_pct = 0, tr_low_pnl_pct = 0, tr_venue = ''v'', tr_source = ''venue'',
     tr_original_fallback_price = None\<rparr>"

lemma demo_trade_clean: "clean_record exact_dec demo_trade"
  by (simp add: clean_record_def read_trade_def wire_decimal_def demo_trade_def)

lemma exact_numbers_survive: "numbers_survive exact_dec"
  by (simp add: numbers_survive_def wire_decimal_def)


theorem tradedb_retract_undoes_record_witness:
  "logged exact_dec (tdb_retract exact_dec all_ok demo_trade 2
     (tdb_record all_ok demo_trade 1 (tdb_new exact_dec None None))) = []"
proof -
  have "logged exact_dec (tdb_new exact_dec None None) = []" by (simp add: logged_def tdb_new_def)
  then show ?thesis
    using tradedb_retract_undoes_record [OF new_inv demo_trade_clean, of 2 1 "''a''"] by simp
qed

text \<open>A retraction can miss. The record is found by comparing its exact net result with the one
  read back from the log; when that result does not survive the round trip through a double, the
  retraction changes nothing and the failed trade stays in the log and in every summary.\<close>

theorem tradedb_retract_misses:
  assumes "wire_decimal D (tr_net_pnl_usd r) \<noteq> Some (tr_net_pnl_usd r)"
    and "List.find (same_close r) (logged D db) = None"
  shows "tdb_retract D y r t1 (tdb_record x r t0 db) = tdb_record x r t0 db"
proof -
  have read: "tr_net_pnl_usd q \<noteq> tr_net_pnl_usd r" if "read_trade D r = Some q" for q
    using read_trade_net [OF that] assms(1) by auto
  have "List.find (same_close r) (read_lines D [Some r]) = None"
    using read by (auto simp: read_lines_single same_close_def split: option.splits)
  then have "List.find (same_close r) (logged D (append_line x r db)) = None"
    using assms(2) by (auto simp: logged_def append_line_def read_lines_append find_append split: option.splits)
  moreover have "tdb_lines (tdb_record x r t0 db) = tdb_lines (append_line x r db)"
    by (simp add: tdb_record_def persist_summary_def Let_def)
  ultimately show ?thesis by (simp add: tdb_retract_def logged_def split: option.splits)
qed

theorem tradedb_retract_misses_witness:
  "ts_total_trades (tdb_summary (tdb_retract exact_dec all_ok
      (demo_trade\<lparr>tr_net_pnl_usd := 1234567890123456789 / 10 ^ 9\<rparr>) 2
    (tdb_record all_ok (demo_trade\<lparr>tr_net_pnl_usd := 1234567890123456789 / 10 ^ 9\<rparr>) 1
      (tdb_new exact_dec None None)))) = 1"
proof -
  let ?r = "demo_trade\<lparr>tr_net_pnl_usd := 1234567890123456789 / 10 ^ 9\<rparr>"
  have "f64_round (1234567890123456789 / 10 ^ 9) \<noteq> 1234567890123456789 / 10 ^ 9" by code_simp
  then have "wire_decimal exact_dec (tr_net_pnl_usd ?r) \<noteq> Some (tr_net_pnl_usd ?r)"
    by (simp add: wire_decimal_def)
  moreover have "List.find (same_close ?r) (logged exact_dec (tdb_new exact_dec None None)) = None"
    by (simp add: logged_def tdb_new_def)
  ultimately show ?thesis
    using tradedb_retract_misses [of exact_dec ?r "tdb_new exact_dec None None" all_ok 2 all_ok 1]
    by (simp add: tdb_record_def append_line_def persist_summary_def Let_def all_ok_def tdb_new_def
        fold_into_def no_trades_def)
qed

section \<open>Restarts\<close>

lemma fold_into_total: "ts_total_trades (fold fold_into rws s) = ts_total_trades s + length rws"
  by (induction rws arbitrary: s) (simp_all add: fold_into_def Let_def)

lemma totals_total [simp]: "ts_total_trades (totals s) = ts_total_trades s"
  by (simp add: totals_def)

definition lagging :: "dec_ops \<Rightarrow> trade_db \<Rightarrow> bool" where
  "lagging D db \<longleftrightarrow> ts_total_trades (tdb_summary db) + 1 = length (logged D db) \<and>
     account_folds (tdb_by_account db) (logged D db)"

lemma lagging_record: "lagging D db \<Longrightarrow> clean_record D r \<Longrightarrow> lagging D (tdb_record all_ok r now db)"
  by (auto simp: lagging_def logged_def tdb_record_def append_line_def persist_summary_def all_ok_def Let_def
      read_lines_append read_lines_single clean_record_def fold_into_def account_folds_snoc
      split: option.splits)

lemma lagging_run:
  "lagging D db \<Longrightarrow> (\<forall>r \<in> set rs. clean_record D r) \<Longrightarrow>
    lagging D (run (tdb_step D) db (map (\<lambda>r. TRecord all_ok r now) rs))"
  by (induction rs arbitrary: db) (simp_all add: lagging_record)

text \<open>A summary write that fails is not made good. When the line of a trade reached the log and
  the write of the summary failed, the next start reads the old summary beside the full log: the
  summary is one trade short of the log and of its accounts, and stays so over every later record.\<close>

theorem tradedb_summary_lags_after_restart:
  fixes D :: dec_ops and db :: trade_db and r :: trade_record and rw :: bool and t0 :: int
  defines "crashed \<equiv> tdb_record \<lparr>da_append = True, da_rewrite = rw, da_summary = False\<rparr> r t0 db"
  defines "booted \<equiv> tdb_new D (tdb_lines crashed) (tdb_summary_file crashed)"
  assumes "tdb_inv D db" and "clean_record D r" and "filter (\<lambda>r. \<not> clean_record D r) rs = []"
  shows "ts_total_trades (tdb_summary (run (tdb_step D) booted (map (\<lambda>r. TRecord all_ok r t1) rs))) + 1 =
    length (logged D (run (tdb_step D) booted (map (\<lambda>r. TRecord all_ok r t1) rs)))"
proof -
  have lines: "tdb_lines crashed = Some (map Some (logged D db @ [r]))"
    using assms(3) by (auto simp: crashed_def tdb_inv_def tdb_record_def append_line_def persist_summary_def Let_def
        logged_def split: option.splits)
  have "\<forall>q \<in> set (logged D db @ [r]). clean_record D q" using assms(3,4) by (auto simp: tdb_inv_def)
  then have rows: "read_lines D (map Some (logged D db @ [r])) = logged D db @ [r]" by (rule read_lines_clean)
  have "tdb_summary_file crashed = tdb_summary_file db"
    by (simp add: crashed_def tdb_record_def append_line_def persist_summary_def Let_def)
  then have "totals (tdb_summary booted) = totals (fold fold_into (logged D db) no_trades)"
    using assms(3) by (auto simp: booted_def tdb_new_def tdb_inv_def Let_def)
  then have "ts_total_trades (tdb_summary booted) = length (logged D db)"
    by (metis fold_into_total totals_total no_trades_def trade_summary.select_convs(1) add_0)
  moreover have "logged D (tdb_new D (Some (map Some ls)) sf) = ls"
    "tdb_by_account (tdb_new D (Some (map Some ls)) sf) = fold fold_account ls []"
    if "read_lines D (map Some ls) = ls" for ls sf
    using that by (simp_all add: logged_def tdb_new_def Let_def)
  note boot = this [OF rows]
  have "logged D booted = logged D db @ [r]" "tdb_by_account booted = fold fold_account (logged D db @ [r]) []"
    unfolding booted_def lines by (rule boot)+
  ultimately have "lagging D booted" by (simp only: lagging_def account_folds_all) simp
  moreover have "\<forall>r \<in> set rs. clean_record D r" using assms(5) by (simp add: filter_empty_conv)
  ultimately have "lagging D (run (tdb_step D) booted (map (\<lambda>r. TRecord all_ok r t1) rs))"
    by (rule lagging_run)
  then show ?thesis by (simp add: lagging_def)
qed

theorem tradedb_summary_lags_after_restart_witness:
  "ts_total_trades (tdb_summary (tdb_new exact_dec (Some [Some demo_trade]) None)) + 1 =
    length (logged exact_dec (tdb_new exact_dec (Some [Some demo_trade]) None))"
  using tradedb_summary_lags_after_restart [OF new_inv demo_trade_clean, of "[]" True 1 0]
  by (simp add: tdb_record_def append_line_def persist_summary_def tdb_new_def Let_def)

lemma fold_max_ge: "(n::nat) \<le> fold max ns n" "m \<in> set ns \<Longrightarrow> m \<le> fold max ns n"
proof (induction ns arbitrary: n)
  case (Cons k ns)
  {
    case 1
    then show ?case using Cons.IH(1) [of "max k n"] by simp
  next
    case 2
    then show ?case using Cons.IH(1) [of "max k n"] Cons.IH(2) [of "max k n"] by auto
  }
qed simp_all

text \<open>The log and the position book together never reissue an identifier: after a start from the
  open rows and the log, the number of the next position is above the number of every trade the log
  holds and of every open row.\<close>

theorem tradedb_boot_outnumbers_history:
  assumes "r \<in> set (logged D (tdb_new D lines sm))" and "hft_number (tr_id r) = Some n"
  shows "n < pm_next_id (restore_open ps (Some (tdb_max_hft_tail (tdb_new D lines sm))) m)"
proof -
  have "r \<in> set (case lines of Some ls \<Rightarrow> read_lines D ls | None \<Rightarrow> [])"
    using assms(1) by (simp add: logged_def tdb_new_def Let_def)
  then have "n \<in> set (List.map_filter (hft_number \<circ> tr_id) (case lines of Some ls \<Rightarrow> read_lines D ls | None \<Rightarrow> []))"
    using assms(2) by (force simp: map_filter_def)
  then have "n \<le> tdb_max_hft_tail (tdb_new D lines sm)"
    by (simp add: tdb_new_def Let_def fold_max_ge(2))
  then show ?thesis by (auto simp: restore_open_def Let_def)
qed

theorem tradedb_boot_outnumbers_history_witness:
  "3 < pm_next_id (restore_open [] (Some (tdb_max_hft_tail (tdb_new exact_dec (Some [Some demo_trade]) None)))
    (manager_new (\<lambda>_. DfMissing) position_config_default))"
proof (rule tradedb_boot_outnumbers_history)
  show "demo_trade \<in> set (logged exact_dec (tdb_new exact_dec (Some [Some demo_trade]) None))"
    using demo_trade_clean
    by (simp add: logged_def tdb_new_def Let_def read_lines_def List.map_filter_simps clean_record_def)
  show "hft_number (tr_id demo_trade) = Some 3"
    by (simp add: demo_trade_def hft_number_def hft_prefix_def parse_u64_def digit_value_def upt_rec)
qed

end
