(* ===== verification/Stores.thy ===== *)
theory Stores
  imports Ome Position StdLib
begin

text \<open>
  The durable files of the books: the order log (\<open>core/blitzkrieg_core/src/order_db.rs\<close>), the snapshot
  of the open positions with its backup (\<open>position_db.rs\<close>), and the log of the engine's fill ledger
  (\<open>service/config.rs\<close>, \<open>AppliedFillLog\<close>). A file is \<open>None\<close> when it does not exist, else its non-blank
  lines, a line nothing can be read from being \<open>None\<close>. Whether a write lands is an argument.
\<close>

section \<open>Lines\<close>

type_synonym 'a lines = "'a option list option"

definition lines_of :: "'a lines \<Rightarrow> 'a option list" where
  "lines_of f = (case f of Some ls \<Rightarrow> ls | None \<Rightarrow> [])"

definition load_lines :: "'a lines \<Rightarrow> 'a list" where
  "load_lines f = List.map_filter id (lines_of f)"

definition append_to :: "bool \<Rightarrow> 'a \<Rightarrow> 'a lines \<Rightarrow> 'a lines" where
  "append_to ok v f = (if ok then Some (lines_of f @ [Some v]) else f)"

definition rewrite_to :: "bool \<Rightarrow> 'a list \<Rightarrow> 'a lines \<Rightarrow> 'a lines" where
  "rewrite_to ok vs f = (if ok then Some (map Some vs) else f)"

section \<open>The order log\<close>

text \<open>A line holds the amounts of an order as JSON numbers, doubles; a load reads the decimal each number's
  text denotes, and a line with an amount that denotes none is skipped.\<close>

definition order_numbers :: "tracked_order \<Rightarrow> tracked_order" where
  "order_numbers ord = ord\<lparr>o_price := f64_round (o_price ord), o_size := f64_round (o_size ord),
     o_filled_size := f64_round (o_filled_size ord), o_avg_fill_price := map_option f64_round (o_avg_fill_price ord)\<rparr>"

definition read_number_opt :: "dec_ops \<Rightarrow> decimal option \<Rightarrow> decimal option option" where
  "read_number_opt D v = (case v of None \<Rightarrow> Some None | Some x \<Rightarrow> map_option Some (dnum D x))"

definition read_order :: "dec_ops \<Rightarrow> tracked_order \<Rightarrow> tracked_order option" where
  "read_order D l = (case (dnum D (o_price l), dnum D (o_size l), dnum D (o_filled_size l),
       read_number_opt D (o_avg_fill_price l)) of
     (Some price, Some amount, Some filled, Some avg) \<Rightarrow>
       Some (l\<lparr>o_price := price, o_size := amount, o_filled_size := filled, o_avg_fill_price := avg\<rparr>)
   | _ \<Rightarrow> None)"

definition order_log_append :: "bool \<Rightarrow> tracked_order \<Rightarrow> tracked_order lines \<Rightarrow> tracked_order lines" where
  "order_log_append ok ord f = append_to ok (order_numbers ord) f"

text \<open>Later lines win; the map's values come out in its own order.\<close>

definition order_log_load :: "dec_ops \<Rightarrow> tracked_order lines \<Rightarrow> tracked_order list" where
  "order_log_load D f =
    map snd (fold (\<lambda>ord m. AList.update (o_order_id ord) ord m) (List.map_filter (read_order D) (load_lines f)) [])"

definition order_log_compact :: "bool \<Rightarrow> tracked_order list \<Rightarrow> tracked_order lines \<Rightarrow> tracked_order lines" where
  "order_log_compact ok os f = rewrite_to ok (map order_numbers os) f"

definition order_log_compact_account ::
  "dec_ops \<Rightarrow> bool \<Rightarrow> string \<Rightarrow> tracked_order lines \<Rightarrow> tracked_order lines \<times> nat" where
  "order_log_compact_account D ok account f =
    (let kept = filter (\<lambda>ord. as_str (o_account_id ord) \<noteq> account) (order_log_load D f)
     in (order_log_compact ok kept f, length kept))"

section \<open>The position snapshot\<close>

definition default_position_log_for :: "mode \<Rightarrow> string" where
  "default_position_log_for m =
    (if may_trade m then ''data/positions/positions.jsonl'' else ''data/positions/positions.dry.jsonl'')"

record position_store =
  pst_file :: "open_position lines"
  pst_bak :: "open_position lines"
  pst_watermark :: "int option"

text \<open>The file is rewritten; once it is, it is copied over the backup.\<close>

definition position_save :: "bool \<Rightarrow> bool \<Rightarrow> open_position list \<Rightarrow> position_store \<Rightarrow> position_store" where
  "position_save wrote copied ps st =
    (if wrote then st\<lparr>pst_file := Some (map Some ps),
       pst_bak := (if copied then Some (map Some ps) else pst_bak st)\<rparr> else st)"

definition save_watermark :: "bool \<Rightarrow> int \<Rightarrow> position_store \<Rightarrow> position_store" where
  "save_watermark ok ms st = (if ok then st\<lparr>pst_watermark := Some ms\<rparr> else st)"

definition load_watermark :: "position_store \<Rightarrow> int" where
  "load_watermark st = (case pst_watermark st of Some ms \<Rightarrow> ms | None \<Rightarrow> 0)"

definition load_backup :: "position_store \<Rightarrow> open_position list option" where
  "load_backup st = (let rws = load_lines (pst_bak st) in if rws = [] then None else Some rws)"

definition position_load :: "position_store \<Rightarrow> open_position list" where
  "position_load st =
    (let fallback = (case load_backup st of Some rws \<Rightarrow> rws | None \<Rightarrow> []) in
     case pst_file st of
       Some ls \<Rightarrow> (let rws = load_lines (Some ls) in if ls \<noteq> [] \<and> rws = [] then fallback else rws)
     | None \<Rightarrow> fallback)"

section \<open>The log of the fill ledger\<close>

definition read_applied :: "dec_ops \<Rightarrow> applied_fill_record \<Rightarrow> applied_fill_record option" where
  "read_applied D r = (case (wire_decimal D (afr_applied r), wire_decimal D (afr_price r)) of
     (Some a, Some p) \<Rightarrow> Some (r\<lparr>afr_applied := a, afr_price := p\<rparr>)
   | _ \<Rightarrow> None)"

definition applied_log_append ::
  "bool \<Rightarrow> applied_fill_record list \<Rightarrow> applied_fill_record lines \<Rightarrow> applied_fill_record lines" where
  "applied_log_append ok rs f = (if rs = [] then f else if ok then Some (lines_of f @ map Some rs) else f)"

definition applied_log_load :: "dec_ops \<Rightarrow> applied_fill_record lines \<Rightarrow> applied_fill_record list" where
  "applied_log_load D f = List.map_filter (read_applied D) (load_lines f)"

definition applied_log_compact ::
  "bool \<Rightarrow> applied_fill_record list \<Rightarrow> applied_fill_record lines \<Rightarrow> applied_fill_record lines" where
  "applied_log_compact ok rs f = rewrite_to ok rs f"

section \<open>What the files keep\<close>

lemma load_lines_map [simp]: "load_lines (Some (map Some vs)) = vs"
  by (induction vs) (simp_all add: load_lines_def lines_of_def List.map_filter_simps)

lemma load_lines_append: "load_lines (append_to True v f) = load_lines f @ [v]"
  by (simp add: load_lines_def append_to_def lines_of_def map_filter_def)

lemma load_lines_junk: "load_lines (Some (replicate n None)) = []"
  by (induction n) (simp_all add: load_lines_def lines_of_def List.map_filter_simps)

lemma fold_latest:
  "map_of (fold (\<lambda>ord m. AList.update (o_order_id ord) ord m) os m) i =
    (case List.find (\<lambda>ord. o_order_id ord = i) (rev os) of Some ord \<Rightarrow> Some ord | None \<Rightarrow> map_of m i)"
  by (induction os arbitrary: m) (auto simp: find_append split: option.splits)

lemma fold_latest_distinct:
  "distinct (map fst m) \<Longrightarrow> distinct (map fst (fold (\<lambda>ord m. AList.update (o_order_id ord) ord m) os m))"
  by (induction os arbitrary: m) simp_all

text \<open>The order a line written for \<open>ord\<close> is read as.\<close>

definition reread_order :: "dec_ops \<Rightarrow> tracked_order \<Rightarrow> tracked_order option" where
  "reread_order D ord = read_order D (order_numbers ord)"

lemma reread_order_id: "reread_order D ord = Some q \<Longrightarrow> o_order_id q = o_order_id ord"
  by (auto simp: reread_order_def read_order_def order_numbers_def split: option.splits)

text \<open>After any sequence of snapshots appended to the order log whose lines can be read back, a load
  returns, of every order that ever had one, exactly its latest snapshot as the line holds it.\<close>

theorem order_log_holds_the_latest:
  assumes "\<forall>ord \<in> set os. reread_order D ord \<noteq> None"
  shows "set (order_log_load D (fold (order_log_append True) os None)) =
    {q. \<exists>i ord. List.find (\<lambda>ord. o_order_id ord = i) (rev os) = Some ord \<and> reread_order D ord = Some q}"
proof -
  let ?rd = "List.map_filter (reread_order D)"
  have l: "load_lines (fold (order_log_append True) os f) = load_lines f @ map order_numbers os" for f
    by (induction os arbitrary: f) (simp_all add: order_log_append_def load_lines_append)
  have r: "List.map_filter (read_order D) (map order_numbers os) = ?rd os"
    by (simp add: map_filter_def comp_def filter_map reread_order_def)
  let ?m = "fold (\<lambda>ord m. AList.update (o_order_id ord) ord m) (?rd os) []"
  have d: "distinct (map fst ?m)" by (rule fold_latest_distinct) simp
  have find: "List.find (\<lambda>ord. o_order_id ord = i) (rev (?rd os)) =
      Option.bind (List.find (\<lambda>ord. o_order_id ord = i) (rev os)) (reread_order D)" for i
    using assms
  proof (induction os rule: rev_induct)
    case (snoc ord os)
    then obtain q where q: "reread_order D ord = Some q" by auto
    then have "?rd (os @ [ord]) = ?rd os @ [q]" by (simp add: map_filter_def)
    then show ?case using snoc q by (simp add: reread_order_id)
  qed (simp add: List.map_filter_simps)
  have look: "map_of ?m i = Option.bind (List.find (\<lambda>ord. o_order_id ord = i) (rev os)) (reread_order D)" for i
    unfolding fold_latest find by (simp split: option.split)
  have "set (order_log_load D (fold (order_log_append True) os None)) = snd ` set ?m"
    by (simp add: order_log_load_def l) (simp add: load_lines_def lines_of_def List.map_filter_simps r)
  also have "\<dots> = {q. \<exists>i. map_of ?m i = Some q}" using map_of_values [OF d] by blast
  finally show ?thesis by (auto simp: look bind_eq_Some_conv)
qed

text \<open>A saved position book survives the loss of its file: when the file is missing, or none of its
  lines can be read, the load returns the book that was saved.\<close>

theorem position_store_survives_damage:
  assumes "ps \<noteq> []" and "damaged = None \<or> (\<exists>n. damaged = Some (replicate (Suc n) None))"
  shows "position_load ((position_save True True ps st)\<lparr>pst_file := damaged\<rparr>) = ps \<and>
    position_load (position_save True True ps st) = ps"
proof -
  have bak: "load_backup ((position_save True True ps st)\<lparr>pst_file := f\<rparr>) = Some ps" for f
    using assms(1) by (simp add: position_save_def load_backup_def)
  have "position_load ((position_save True True ps st)\<lparr>pst_file := damaged\<rparr>) = ps"
    using assms(2) by (auto simp: position_load_def bak Let_def load_lines_junk simp del: replicate_Suc)
  moreover have "position_load (position_save True True ps st) = ps"
    using assms(1) by (simp add: position_load_def position_save_def Let_def)
  ultimately show ?thesis ..
qed

definition stored_row :: open_position where
  "stored_row = snd (open_pm \<lparr>opn_strategy = ''s'', opn_asset = ''BTC'', opn_direction = Up,
     opn_token_id = ''t'', opn_condition_id = ''c'', opn_account_id = AccountId ''a'', opn_venue = ''v'',
     opn_partner_token_id = ''u'', opn_entry_price = 1/2, opn_expires_at_ms = 500000,
     opn_was_maker = True, opn_target_exit_price = None, opn_round_duration_sec = 300,
     opn_round_slot = 0\<rparr> 0 (manager_new (\<lambda>_. DfMissing) position_config_default))"

definition empty_store :: position_store where
  "empty_store = \<lparr>pst_file = None, pst_bak = None, pst_watermark = None\<rparr>"

theorem position_store_survives_damage_witness:
  "position_load ((position_save True True [stored_row] empty_store)\<lparr>pst_file := None\<rparr>) = [stored_row]"
  using position_store_survives_damage [of "[stored_row]" None empty_store] by simp

text \<open>A file that a crash emptied is taken for an empty book, whatever the backup holds, and a file
  that lost part of its lines is taken as it is: in both cases the backup is not consulted.\<close>

theorem position_store_forgets_silently:
  assumes "qs \<noteq> []"
  shows "position_load ((position_save True True ps st)\<lparr>pst_file := Some []\<rparr>) = [] \<and>
    position_load ((position_save True True (qs @ rs) st)\<lparr>pst_file := Some (map Some qs @ [None])\<rparr>) = qs"
proof -
  have "load_lines (Some (map Some qs @ [None])) = qs"
    using load_lines_map [of qs] by (simp add: load_lines_def lines_of_def map_filter_def)
  then show ?thesis
    using assms by (simp add: position_load_def load_lines_def lines_of_def Let_def)
qed

theorem position_store_forgets_silently_witness:
  "position_load ((position_save True True [stored_row] empty_store)\<lparr>pst_file := Some []\<rparr>) = []"
  using position_store_forgets_silently [of "[stored_row]" "[stored_row]" empty_store "[]"] by simp

end
