(* ===== verification/Booking.thy ===== *)
theory Booking
  imports OmeFills Ledger VirtualAccount PositionBook Risk ExitReasons PairBook TradeDb Stores
begin

text \<open>
  The booking of a fill (\<open>core/blitzkrieg_core/src/service.rs\<close>, \<open>service/settlement_orders/orders.rs\<close>
  and \<open>closing.rs\<close>): the service layer takes the delta the order engine announced and moves, in one
  step, the account's cash, its reservation, the virtual hold, the position, the close with its
  records and breakers, the pair book and the durable files. \<open>core_books\<close> is the part of the service's
  state these steps touch, \<open>core_config\<close> the settings they read, \<open>core_env\<close> what the engine's market
  table answers and what the environment answers to the writes. \<open>None\<close> is the panic of the one
  assertion on the path. Emitted events are collected in order.
\<close>

section \<open>State\<close>

record close_credential =
  cc_restored :: open_position
  cc_closed :: closed_position
  cc_streak_before :: nat
  cc_account_streak_before :: nat

datatype credential_line = CredPush trade_id close_credential | CredConsumed trade_id

text \<open>Of a credential's amounts two are written as JSON numbers, doubles: the rebate and the fallback price of
  the closed record. The others, and the whole position to restore, are written as decimal text.\<close>

definition credential_numbers :: "close_credential \<Rightarrow> close_credential" where
  "credential_numbers c = c\<lparr>cc_closed := (cc_closed c)\<lparr>
     c_maker_rebate_usd := f64_round (c_maker_rebate_usd (cc_closed c)),
     c_original_fallback_price := map_option f64_round (c_original_fallback_price (cc_closed c))\<rparr>\<rparr>"

fun line_numbers :: "credential_line \<Rightarrow> credential_line" where
  "line_numbers (CredPush t c) = CredPush t (credential_numbers c)"
| "line_numbers (CredConsumed t) = CredConsumed t"

definition read_credential :: "dec_ops \<Rightarrow> close_credential \<Rightarrow> close_credential option" where
  "read_credential D c = (case (dnum D (c_maker_rebate_usd (cc_closed c)),
       read_number_opt D (c_original_fallback_price (cc_closed c))) of
     (Some rebate, Some fallback) \<Rightarrow> Some (c\<lparr>cc_closed := (cc_closed c)\<lparr>c_maker_rebate_usd := rebate,
        c_original_fallback_price := fallback\<rparr>\<rparr>)
   | _ \<Rightarrow> None)"

fun read_credential_line :: "dec_ops \<Rightarrow> credential_line \<Rightarrow> credential_line option" where
  "read_credential_line D (CredPush t c) = map_option (CredPush t) (read_credential D c)"
| "read_credential_line D (CredConsumed t) = Some (CredConsumed t)"

record strategy_accounting =
  sa_placed :: nat
  sa_rejected :: nat
  sa_limit_rejected :: nat
  sa_rejection_causes :: "(string \<times> nat) list"
  sa_closed_trades :: nat
  sa_wins :: nat
  sa_losses :: nat
  sa_fees_usd :: decimal
  sa_net_pnl_usd :: decimal

definition no_accounting :: strategy_accounting where
  "no_accounting = \<lparr>sa_placed = 0, sa_rejected = 0, sa_limit_rejected = 0, sa_rejection_causes = [],
     sa_closed_trades = 0, sa_wins = 0, sa_losses = 0, sa_fees_usd = 0, sa_net_pnl_usd = 0\<rparr>"

definition strategy_acc_key :: "string \<Rightarrow> string \<Rightarrow> string" where
  "strategy_acc_key strategy account = strategy @ [CHR 0x01] @ account"

datatype core_event = EvRiskAlert core_error_code message | EvError core_error
  | EvPositionClosed closed_position decimal | EvFill fill_delta tracked_order
  | EvLateFillAudit int late_fill | EvGhostFillAudit int ghost_fill | EvOrderUpdate tracked_order

text \<open>The marks the replay scheduler reads.\<close>

record fast_path =
  fp_orders_dirty :: bool
  fp_eval_wake :: bool
  fp_positions_dirty :: bool
  fp_dirty_tokens :: "token_id set"

record core_config =
  cg_model_maker_rebate :: bool
  cg_fee_schedule_replay :: bool
  cg_replay_sched :: bool
  cg_round_duration_sec :: int
  cg_breaker_cooldown_sec :: int
  cg_max_daily_loss_equity_pct :: decimal
  cg_account_limits :: account_risk_limits

record core_env =
  ce_market_decl :: "token_id \<Rightarrow> int option"
  ce_execution_venue :: "string \<Rightarrow> token_id \<Rightarrow> string"
  ce_partner_of :: "token_id \<Rightarrow> token_id option"
  ce_cash :: io
  ce_fee :: io
  ce_rebate :: io
  ce_trade_log :: disk_answers
  ce_credential_ok :: "credential_line \<Rightarrow> bool"
  ce_positions_wrote :: bool
  ce_positions_copied :: bool
  ce_order_log_ok :: bool
  ce_applied_log_ok :: bool

record core_books =
  cb_ome :: ome
  cb_accounts :: "(account_id \<times> ledger) list"
  cb_virtual :: virtual_accounts
  cb_positions :: position_manager
  cb_breaker :: loss_breakers
  cb_reasons :: exit_reason_ledger
  cb_pairs :: pair_book
  cb_credentials :: "(trade_id \<times> close_credential) list"
  cb_credential_log :: "credential_line list option"
  cb_accounting :: "(string \<times> strategy_accounting) list"
  cb_trade_db :: "trade_db option"
  cb_position_db :: "position_store option"
  cb_order_log :: "tracked_order lines option"
  cb_applied_log :: "applied_fill_record lines option"
  cb_modeled_rebate :: decimal
  cb_fast :: fast_path
  cb_events :: "core_event list"

definition emit :: "core_event \<Rightarrow> core_books \<Rightarrow> core_books" where
  "emit ev b = b\<lparr>cb_events := cb_events b @ [ev]\<rparr>"

definition open_tokens :: "core_books \<Rightarrow> token_id set" where
  "open_tokens b = set (map p_token_id (pm_open (cb_positions b)))"

section \<open>Durable files\<close>

definition persist_positions :: "core_env \<Rightarrow> core_books \<Rightarrow> core_books" where
  "persist_positions E b = b\<lparr>cb_position_db := map_option
     (position_save (ce_positions_wrote E) (ce_positions_copied E) (pm_open (cb_positions b))) (cb_position_db b)\<rparr>"

definition persist_order :: "core_env \<Rightarrow> order_id \<Rightarrow> core_books \<Rightarrow> core_books" where
  "persist_order E i b = (case (cb_order_log b, ome_get (cb_ome b) i) of
     (Some f, Some ord) \<Rightarrow> b\<lparr>cb_order_log := Some (order_log_append (ce_order_log_ok E) ord f)\<rparr>
   | _ \<Rightarrow> b)"

definition persist_applied_journal :: "core_env \<Rightarrow> core_books \<Rightarrow> core_books" where
  "persist_applied_journal E b =
    (let (s, rs) = take_applied_journal (cb_ome b); b1 = b\<lparr>cb_ome := s\<rparr>
     in if rs = [] then b1
        else b1\<lparr>cb_applied_log := map_option (applied_log_append (ce_applied_log_ok E) rs) (cb_applied_log b1)\<rparr>)"

definition append_credential :: "core_env \<Rightarrow> credential_line \<Rightarrow> core_books \<Rightarrow> core_books" where
  "append_credential E l b =
    b\<lparr>cb_credential_log := map_option (\<lambda>ls. if ce_credential_ok E l then ls @ [line_numbers l] else ls) (cb_credential_log b)\<rparr>"

section \<open>Fees\<close>

definition may_charge :: "core_config \<Rightarrow> fee_schedule \<Rightarrow> bool" where
  "may_charge G s \<longleftrightarrow> cg_fee_schedule_replay G \<or> s = legacy_quadratic_schedule"

text \<open>\<open>None\<close> is the failed assertion.\<close>

definition live_taker_fee_pct ::
  "dec_ops \<Rightarrow> core_config \<Rightarrow> fee_schedule option \<Rightarrow> decimal \<Rightarrow> decimal option" where
  "live_taker_fee_pct D G st price =
    (let s = active_schedule st in if may_charge G s then Some (fee_pct D s price) else None)"

text \<open>A term that overflows is skipped.\<close>

definition or_zero :: "decimal option \<Rightarrow> decimal" where
  "or_zero v = (case v of Some x \<Rightarrow> x | None \<Rightarrow> 0)"

definition fill_fee ::
  "dec_ops \<Rightarrow> core_config \<Rightarrow> fee_schedule option \<Rightarrow> fill_delta \<Rightarrow> decimal \<Rightarrow> decimal option" where
  "fill_fee D G st d notional =
    (if fd_delta d > 0
     then map_option (\<lambda>pct. or_zero (Option.bind (checked_div D pct 100) (\<lambda>rate. checked_mul D rate notional)))
       (if is_maker (fd_role d) then Some 0 else live_taker_fee_pct D G st (fd_price d))
     else Some 0)"

definition fill_rebate :: "dec_ops \<Rightarrow> core_config \<Rightarrow> fee_schedule option \<Rightarrow> fill_delta \<Rightarrow> decimal" where
  "fill_rebate D G st d =
    (if fd_delta d > 0 \<and> is_maker (fd_role d) \<and> cg_model_maker_rebate G
     then or_zero (Option.bind (checked_mul D (fee_per_share (active_schedule st) (fd_price d)) (20 / 100))
            (\<lambda>r. checked_mul D r (fd_delta d)))
     else 0)"

section \<open>A position closed\<close>

definition accounting_of :: "string \<Rightarrow> core_books \<Rightarrow> strategy_accounting" where
  "accounting_of key b = (case map_of (cb_accounting b) key of Some a \<Rightarrow> a | None \<Rightarrow> no_accounting)"

definition book_accounting :: "dec_ops \<Rightarrow> closed_position \<Rightarrow> core_books \<Rightarrow> core_books" where
  "book_accounting D c b =
    (let key = strategy_acc_key (c_strategy c) (as_str (c_account_id c)); a = accounting_of key b;
         (entry_fee, exit_fee) = closed_fees D c
     in b\<lparr>cb_accounting := AList.update key (a\<lparr>sa_closed_trades := sa_closed_trades a + 1,
            sa_wins := (if c_net_pnl_usd c \<ge> 0 then sa_wins a + 1 else sa_wins a),
            sa_losses := (if c_net_pnl_usd c \<ge> 0 then sa_losses a else sa_losses a + 1),
            sa_fees_usd := sa_fees_usd a + (entry_fee + exit_fee),
            sa_net_pnl_usd := sa_net_pnl_usd a + c_net_pnl_usd c\<rparr>) (cb_accounting b)\<rparr>)"

definition unbook_accounting :: "dec_ops \<Rightarrow> closed_position \<Rightarrow> core_books \<Rightarrow> core_books" where
  "unbook_accounting D c b =
    (let key = strategy_acc_key (c_strategy c) (as_str (c_account_id c)); a = accounting_of key b;
         (entry_fee, exit_fee) = closed_fees D c
     in b\<lparr>cb_accounting := AList.update key (a\<lparr>sa_closed_trades := sa_closed_trades a - 1,
            sa_wins := (if c_net_pnl_usd c \<ge> 0 then sa_wins a - 1 else sa_wins a),
            sa_losses := (if c_net_pnl_usd c \<ge> 0 then sa_losses a else sa_losses a - 1),
            sa_fees_usd := sa_fees_usd a - (entry_fee + exit_fee),
            sa_net_pnl_usd := sa_net_pnl_usd a - c_net_pnl_usd c\<rparr>) (cb_accounting b)\<rparr>)"

definition emit_daily_trip :: "dec_ops \<Rightarrow> core_config \<Rightarrow> core_books \<Rightarrow> core_books" where
  "emit_daily_trip D G b =
    (let (m, trips) = take_daily_trips D (cb_positions b)
     in fold (\<lambda>(account, t). emit (EvRiskAlert RiskRejected
            [Txt ''DAILY LOSS LIMIT REACHED for account '', Txt (as_str account), Txt '': realized $'',
             Dec (dt_realized_pnl_usd t), Txt '' + unrealized $'', Dec (unrealized_pnl_usd_for (as_str account) m),
             Txt '' = net $'', Dec (dt_realized_pnl_usd t + unrealized_pnl_usd_for (as_str account) m),
             Txt '' against a $'', Dec (dt_limit_usd t), Txt '' cap ('', Dec (cg_max_daily_loss_equity_pct G),
             Txt ''% of the day's opening equity $'', Dec (dt_opening_equity_usd t),
             Txt '') - new entries for this account are frozen until the next UTC day (positions still exit normally)'']))
          trips (b\<lparr>cb_positions := m\<rparr>))"

text \<open>\<open>u32::try_from(v.floor())\<close> and \<open>i64::try_from(v)\<close>, the latter truncating; both values are
  non-negative where the code converts them.\<close>

definition to_u32 :: "decimal \<Rightarrow> nat" where
  "to_u32 v = (let n = \<lfloor>v\<rfloor> in if 0 \<le> n \<and> n < 2 ^ 32 then nat n else 0)"

definition to_i64 :: "decimal \<Rightarrow> int option" where
  "to_i64 v = (if \<lfloor>v\<rfloor> < 2 ^ 63 then Some \<lfloor>v\<rfloor> else None)"

definition account_cooldown :: "core_config \<Rightarrow> int" where
  "account_cooldown G =
    (let c = al_cooldown_minutes (cg_account_limits G) in
     if is_enabled c
     then (case to_i64 (bd_value c * 60) of Some n \<Rightarrow> n | None \<Rightarrow> cg_breaker_cooldown_sec G)
     else cg_breaker_cooldown_sec G)"

definition breaker_alert :: "string \<Rightarrow> string \<Rightarrow> nat \<Rightarrow> int \<Rightarrow> core_event" where
  "breaker_alert kind name n cooldown = EvRiskAlert RiskRejected
     [Txt ''consecutive-loss breaker tripped for '', Txt kind, Txt '' '', Txt name, Txt '': '', Num (int n),
      Txt '' losses, halting its new entries '', Num cooldown, Txt ''s'']"

definition record_streaks :: "core_config \<Rightarrow> closed_position \<Rightarrow> int \<Rightarrow> core_books \<Rightarrow> core_books" where
  "record_streaks G c now b =
    (let limits = cg_account_limits G; n = to_u32 (bd_value (al_max_consecutive_losses limits));
         cd = account_cooldown G; key = account_breaker_key (as_str (c_account_id c))
     in if n \<ge> 1
        then (let (bs, tripped) = record_with key n cd (c_net_pnl_usd c) now (cb_breaker b); b1 = b\<lparr>cb_breaker := bs\<rparr>
          in if tripped then emit (breaker_alert ''account'' (as_str (c_account_id c)) (consecutive_losses key bs) cd) b1
             else b1)
        else b)"

definition mark_positions_dirty :: "core_config \<Rightarrow> core_books \<Rightarrow> core_books" where
  "mark_positions_dirty G b =
    (if cg_replay_sched G then b\<lparr>cb_fast := (cb_fast b)\<lparr>fp_positions_dirty := True\<rparr>\<rparr> else b)"

definition on_position_closed ::
  "dec_ops \<Rightarrow> core_config \<Rightarrow> core_env \<Rightarrow> closed_position \<Rightarrow> int \<Rightarrow> core_books \<Rightarrow> core_books" where
  "on_position_closed D G E c now b =
    (let b1 = mark_positions_dirty G b;
         b2 = b1\<lparr>cb_reasons := clear_exit_reason (c_token_id c) (cb_reasons b1)\<rparr>;
         b3 = b2\<lparr>cb_trade_db := map_option (tdb_record (ce_trade_log E) (from_closed D c) now) (cb_trade_db b2)\<rparr>;
         b4 = book_accounting D c b3;
         (bs, tripped) = record_close (c_strategy c) (c_net_pnl_usd c) now (cb_breaker b4);
         b5 = emit (EvPositionClosed c (daily_pnl_for (as_str (c_account_id c)) (cb_positions b4)))
                (b4\<lparr>cb_breaker := bs\<rparr>);
         b6 = (if tripped then emit (breaker_alert ''strategy'' (c_strategy c)
                  (consecutive_losses (c_strategy c) bs) (cg_breaker_cooldown_sec G)) b5 else b5)
     in emit_daily_trip D G (record_streaks G c now b6))"

section \<open>Credentials of closes\<close>

definition CREDENTIAL_CAP :: nat where "CREDENTIAL_CAP = 512"

text \<open>The loop at the cap: the oldest goes, and its consumption is written down.\<close>

fun evict_credentials :: "core_env \<Rightarrow> (trade_id \<times> close_credential) list \<Rightarrow> core_books \<Rightarrow> core_books" where
  "evict_credentials E [] b = b\<lparr>cb_credentials := []\<rparr>"
| "evict_credentials E (c # cs) b =
    (if length (c # cs) \<ge> CREDENTIAL_CAP
     then evict_credentials E cs (append_credential E (CredConsumed (fst c)) b)
     else b\<lparr>cb_credentials := c # cs\<rparr>)"

definition push_close_credential :: "core_env \<Rightarrow> trade_id \<Rightarrow> close_credential \<Rightarrow> core_books \<Rightarrow> core_books" where
  "push_close_credential E t cred b =
    (if t = [] then b
     else let b1 = append_credential E (CredPush t cred) (evict_credentials E (cb_credentials b) b)
       in b1\<lparr>cb_credentials := cb_credentials b1 @ [(t, cred)]\<rparr>)"

text \<open>Replaying the log at a start.\<close>

fun replay_credential ::
  "credential_line \<Rightarrow> (trade_id \<times> close_credential) list \<Rightarrow> (trade_id \<times> close_credential) list" where
  "replay_credential (CredPush t cred) q = q @ [(t, cred)]"
| "replay_credential (CredConsumed t) q = remove_first (\<lambda>(u, _). u = t) q"

definition restore_close_credentials :: "dec_ops \<Rightarrow> core_books \<Rightarrow> core_books" where
  "restore_close_credentials D b = (case cb_credential_log b of
     None \<Rightarrow> b
   | Some ls \<Rightarrow> (let q = fold replay_credential (List.map_filter (read_credential_line D) ls) []
       in if q \<noteq> [] then b\<lparr>cb_credentials := q\<rparr> else b))"

definition unwind_closed_trade ::
  "dec_ops \<Rightarrow> core_env \<Rightarrow> close_credential \<Rightarrow> int \<Rightarrow> core_books \<Rightarrow> core_books" where
  "unwind_closed_trade D E cred now b =
    (let c = cc_closed cred;
         (m, restored) = restore_closed (cc_restored cred) c (cb_positions b);
         b1 = b\<lparr>cb_positions := m\<rparr>;
         b2 = (if restored then persist_positions E b1 else b1);
         b3 = b2\<lparr>cb_trade_db := map_option (tdb_retract D (ce_trade_log E) (from_closed D c) now) (cb_trade_db b2)\<rparr>;
         b4 = unbook_accounting D c b3
     in b4\<lparr>cb_breaker := retract (account_breaker_key (as_str (c_account_id c))) (c_net_pnl_usd c)
            (cc_account_streak_before cred)
            (retract (c_strategy c) (c_net_pnl_usd c) (cc_streak_before cred) (cb_breaker b4))\<rparr>)"

section \<open>Projecting a fill on the positions\<close>

definition parse_direction :: "string \<Rightarrow> signal_direction" where
  "parse_direction s = (if map ascii_lowercase s = ''down'' then Down else Up)"

definition order_eff_round_sec :: "core_config \<Rightarrow> core_env \<Rightarrow> tracked_order \<Rightarrow> int" where
  "order_eff_round_sec G E ord =
    order_effective_round_duration_sec ord (ce_market_decl E (o_token_id ord)) (cg_round_duration_sec G)"

definition find_holding :: "token_id \<Rightarrow> account_id \<Rightarrow> position_manager \<Rightarrow> open_position option" where
  "find_holding token account m = List.find (\<lambda>p. p_token_id p = token \<and> p_account_id p = account) (pm_open m)"

definition entry_params :: "core_env \<Rightarrow> fill_delta \<Rightarrow> int \<Rightarrow> int \<Rightarrow> open_params" where
  "entry_params E d eff_sec now = \<lparr>opn_strategy = fd_strategy d, opn_asset = fd_asset d,
     opn_direction = parse_direction (fd_direction d), opn_token_id = fd_token_id d,
     opn_condition_id = fd_condition_id d, opn_account_id = fd_account_id d,
     opn_venue = ce_execution_venue E (as_str (fd_account_id d)) (fd_token_id d),
     opn_partner_token_id = (case ce_partner_of E (fd_token_id d) of Some t \<Rightarrow> t | None \<Rightarrow> []),
     opn_entry_price = fd_price d,
     opn_expires_at_ms = (if fd_round_slot d > 0 then (fd_round_slot d + 1) * eff_sec * 1000
                          else now + eff_sec * 1000),
     opn_was_maker = is_maker (fd_role d), opn_target_exit_price = None,
     opn_round_duration_sec = eff_sec, opn_round_slot = fd_round_slot d\<rparr>"

definition open_for_fill ::
  "core_config \<Rightarrow> core_env \<Rightarrow> fill_delta \<Rightarrow> int \<Rightarrow> core_books \<Rightarrow> core_books \<times> string" where
  "open_for_fill G E d now b =
    (let eff = (case ome_get (cb_ome b) (fd_order_id d) of
           Some ord \<Rightarrow> if order_eff_round_sec G E ord > 0 then order_eff_round_sec G E ord else cg_round_duration_sec G
         | None \<Rightarrow> cg_round_duration_sec G);
         s = backfill_round_duration (fd_order_id d) eff (cb_ome b);
         (m, p) = open_pm (entry_params E d eff now) now (cb_positions b)
     in (b\<lparr>cb_ome := s, cb_positions := m\<rparr>, p_id p))"

definition project_buy ::
  "dec_ops \<Rightarrow> core_config \<Rightarrow> core_env \<Rightarrow> fill_delta \<Rightarrow> decimal \<Rightarrow> decimal \<Rightarrow> int \<Rightarrow> core_books \<Rightarrow> core_books" where
  "project_buy D G E d fee rebate now b =
    (let (b1, pid) = (case find_holding (fd_token_id d) (fd_account_id d) (cb_positions b) of
           Some p \<Rightarrow> (b, p_id p)
         | None \<Rightarrow> open_for_fill G E d now b);
         m1 = fst (apply_entry_fill D pid (fd_delta d) (fd_price d) fee (fd_role d) (cb_positions b1));
         m2 = (if rebate \<noteq> 0 then accrue_maker_rebate pid rebate m1 else m1);
         m3 = fst (drop_if_empty pid m2)
     in persist_positions E (b1\<lparr>cb_positions := m3\<rparr>))"

definition no_position_to_reverse :: "fill_delta \<Rightarrow> core_event" where
  "no_position_to_reverse d = EvError (core_error_new Internal
     [Txt ''exit rollback '', Txt (fd_order_id d), Txt '' for token '', Txt (fd_token_id d),
      Txt '' has no open position to reverse''])"

text \<open>The close that ends a position whose remainder cannot be sold.\<close>

definition close_by_fill ::
  "dec_ops \<Rightarrow> core_config \<Rightarrow> core_env \<Rightarrow> fee_schedule option \<Rightarrow> fill_delta \<Rightarrow> string \<Rightarrow> open_position option
     \<Rightarrow> int \<Rightarrow> core_books \<Rightarrow> core_books" where
  "close_by_fill D G E st d pid pre_exit now b =
    (let (rl, noted) = take_exit_reason (fd_token_id d) (cb_reasons b);
         b1 = b\<lparr>cb_reasons := rl\<rparr>;
         reason = (case noted of Some r \<Rightarrow> r | None \<Rightarrow> Manual);
         streak = consecutive_losses (fd_strategy d) (cb_breaker b1);
         account_streak = consecutive_losses (account_breaker_key (as_str (fd_account_id d))) (cb_breaker b1)
     in case close_pm D st pid (fd_price d) reason (is_maker (fd_role d)) now ''venue'' (cb_positions b1) of
          (m, Some c) \<Rightarrow>
            (let b2 = (case pre_exit of
                   Some pre \<Rightarrow> push_close_credential E (fd_trade_id d) \<lparr>cc_restored = pre, cc_closed = c,
                     cc_streak_before = streak, cc_account_streak_before = account_streak\<rparr> (b1\<lparr>cb_positions := m\<rparr>)
                 | None \<Rightarrow> b1\<lparr>cb_positions := m\<rparr>)
             in on_position_closed D G E c now (persist_positions E b2))
        | (m, None) \<Rightarrow> b1\<lparr>cb_positions := m\<rparr>)"

definition credential_for :: "fill_delta \<Rightarrow> trade_id \<times> close_credential \<Rightarrow> bool" where
  "credential_for d c \<longleftrightarrow> fst c = fd_trade_id d \<and> p_account_id (cc_restored (snd c)) = fd_account_id d"

definition reverse_closed ::
  "dec_ops \<Rightarrow> core_env \<Rightarrow> fill_delta \<Rightarrow> int \<Rightarrow> core_books \<Rightarrow> core_books" where
  "reverse_closed D E d now b = (case List.find (credential_for d) (cb_credentials b) of
     None \<Rightarrow> emit (no_position_to_reverse d) b
   | Some (t, cred) \<Rightarrow>
       (let b1 = b\<lparr>cb_credentials := remove_first (credential_for d) (cb_credentials b)\<rparr>;
            b2 = append_credential E (CredConsumed (fd_trade_id d)) b1
        in unwind_closed_trade D E cred now b2))"

definition project_sell ::
  "dec_ops \<Rightarrow> core_config \<Rightarrow> core_env \<Rightarrow> fee_schedule option \<Rightarrow> fill_delta \<Rightarrow> decimal \<Rightarrow> decimal \<Rightarrow> int
     \<Rightarrow> core_books \<Rightarrow> core_books" where
  "project_sell D G E st d fee rebate now b =
    (case find_holding (fd_token_id d) (fd_account_id d) (cb_positions b) of
       Some p \<Rightarrow>
         (let pid = p_id p; pre_exit = find_open pid (cb_positions b);
              (m, left) = apply_exit_fill D pid (fd_delta d) (fd_price d) fee (fd_role d) rebate (cb_positions b);
              b1 = b\<lparr>cb_positions := m\<rparr>
          in if fd_delta d < 0 \<and> left = None then emit (no_position_to_reverse d) b1
             else case left of
               None \<Rightarrow> b1
             | Some x \<Rightarrow>
                 if x \<le> 0 \<or> floor_to_grid D x = 0 then close_by_fill D G E st d pid pre_exit now b1
                 else persist_positions E b1)
     | None \<Rightarrow> if fd_delta d < 0 then reverse_closed D E d now b else b)"

definition project_fill_delta ::
  "dec_ops \<Rightarrow> core_config \<Rightarrow> core_env \<Rightarrow> fee_schedule option \<Rightarrow> fill_delta \<Rightarrow> decimal \<Rightarrow> decimal \<Rightarrow> int
     \<Rightarrow> core_books \<Rightarrow> core_books" where
  "project_fill_delta D G E st d fee rebate now b =
    (let b1 = mark_positions_dirty G b;
         b2 = b1\<lparr>cb_fast := (cb_fast b1)\<lparr>fp_dirty_tokens := insert (fd_token_id d) (fp_dirty_tokens (cb_fast b1))\<rparr>\<rparr>
     in case fd_side d of
          Buy \<Rightarrow> project_buy D G E d fee rebate now b2
        | Sell \<Rightarrow> project_sell D G E st d fee rebate now b2)"

section \<open>Booking a delta\<close>

definition feed_pair_book :: "fill_delta \<Rightarrow> core_books \<Rightarrow> core_books" where
  "feed_pair_book d b =
    (if fd_side d = Buy \<and> fd_delta d > 0
     then (case ome_get (cb_ome b) (fd_order_id d) of
         Some ord \<Rightarrow> b\<lparr>cb_pairs := pair_order_event (o_internal_key ord) (fd_delta d) False (cb_pairs b)\<rparr>
       | None \<Rightarrow> b)
     else b)"

definition wake_replay :: "core_config \<Rightarrow> core_books \<Rightarrow> core_books" where
  "wake_replay G b = (if cg_replay_sched G
     then b\<lparr>cb_fast := (cb_fast b)\<lparr>fp_orders_dirty := True, fp_eval_wake := True\<rparr>\<rparr> else b)"

text \<open>The cash of one delta, on the account's ledger.\<close>

definition settle_delta ::
  "core_env \<Rightarrow> fill_delta \<Rightarrow> decimal \<Rightarrow> decimal \<Rightarrow> decimal \<Rightarrow> decimal \<Rightarrow> ledger \<Rightarrow> ledger" where
  "settle_delta E d notional released fee rebate l =
    (if fd_delta d > 0
     then (let l1 = (case fd_side d of
               Buy \<Rightarrow> charge_fee (ce_fee E) fee (fst (settle_buy_fill (ce_cash E) (fd_order_id d) notional released l))
             | Sell \<Rightarrow> settle_sell_fill (ce_cash E) notional fee l)
           in if rebate > 0 then credit_cashflow (ce_rebate E) rebate ''rebate'' l1 else l1)
     else (case fd_side d of
         Buy \<Rightarrow> settle_sell_fill (ce_cash E) (- notional) 0 l
       | Sell \<Rightarrow> fst (settle_buy_fill (ce_cash E) (fd_order_id d) (- notional) 0 l)))"

text \<open>The commitment an order still has.\<close>

definition outstanding :: "ome \<Rightarrow> order_id \<Rightarrow> decimal" where
  "outstanding s i = (case ome_get s i of
     Some ord \<Rightarrow> if is_live (o_status ord) then o_price ord * remaining s i else 0
   | None \<Rightarrow> 0)"

definition release_hold :: "fill_delta \<Rightarrow> decimal \<Rightarrow> core_books \<Rightarrow> core_books" where
  "release_hold d released b =
    (if fd_delta d > 0
     then (case ome_get (cb_ome b) (fd_order_id d) of
         Some ord \<Rightarrow> b\<lparr>cb_virtual := va_release (as_str (o_account_id ord)) (o_strategy ord) (o_internal_key ord)
             released (cb_virtual b)\<rparr>
       | None \<Rightarrow> b)
     else b)"

definition put_ledger :: "account_id \<Rightarrow> ledger \<Rightarrow> core_books \<Rightarrow> core_books" where
  "put_ledger a l b = b\<lparr>cb_accounts := AList.update a l (cb_accounts b)\<rparr>"

definition emit_fill :: "core_env \<Rightarrow> fill_delta \<Rightarrow> core_books \<Rightarrow> core_books" where
  "emit_fill E d b = (case ome_get (cb_ome b) (fd_order_id d) of
     Some ord \<Rightarrow> emit (EvFill d ord) (persist_order E (fd_order_id d) b)
   | None \<Rightarrow> b)"

definition apply_delta_effects ::
  "dec_ops \<Rightarrow> core_config \<Rightarrow> core_env \<Rightarrow> fee_schedule option \<Rightarrow> fill_delta \<Rightarrow> int \<Rightarrow> core_books
     \<Rightarrow> core_books option" where
  "apply_delta_effects D G E st d now b =
    (let b1 = wake_replay G (feed_pair_book d b);
         notional = or_zero (checked_mul D (fd_price d) (fd_delta d));
         released = or_zero (checked_mul D (fd_limit_price d) (fd_delta d));
         rebate = fill_rebate D G st d
     in case fill_fee D G st d notional of
          None \<Rightarrow> None
        | Some fee \<Rightarrow>
            (case map_of (cb_accounts b1) (fd_account_id d) of
               None \<Rightarrow> Some b1
             | Some l \<Rightarrow>
                 (let l1 = settle_delta E d notional released fee rebate l;
                      b2 = (if fd_delta d > 0 \<and> rebate > 0
                            then b1\<lparr>cb_modeled_rebate := cb_modeled_rebate b1 + rebate\<rparr> else b1);
                      b3 = (if fd_side d = Buy
                            then release_hold d released (put_ledger (fd_account_id d)
                                   (fst (sync_buy_reservation (fd_order_id d)
                                     (outstanding (cb_ome b2) (fd_order_id d)) l1)) b2)
                            else put_ledger (fd_account_id d) l1 b2);
                      b4 = project_fill_delta D G E st d fee rebate now b3
                  in Some (persist_applied_journal E (emit_fill E d b4)))))"

section \<open>Reports\<close>

fun status_debug :: "order_status \<Rightarrow> string" where
  "status_debug StPending = ''Pending''"
| "status_debug StLive = ''Live''"
| "status_debug StPartiallyFilled = ''PartiallyFilled''"
| "status_debug StFilled = ''Filled''"
| "status_debug StCancelled = ''Cancelled''"
| "status_debug StRejected = ''Rejected''"
| "status_debug StFailed = ''Failed''"
| "status_debug StForceClosed = ''ForceClosed''"

definition emit_late_fill :: "late_fill \<Rightarrow> int \<Rightarrow> core_books \<Rightarrow> core_books" where
  "emit_late_fill l now b =
    emit (EvLateFillAudit now l) (emit (EvRiskAlert (if lf_overfill l then RiskRejected else Internal)
      [Txt ''late_fill order='', Txt (lf_order_id l), Txt '' trade='',
       Txt (if lf_trade_id l = [] then ''-'' else lf_trade_id l), Txt '' status='',
       Txt (case lf_absorbed_by l of Some s \<Rightarrow> status_debug s | None \<Rightarrow> ''live''), Txt '' size='', Dec (lf_size l),
       Txt '' cumulative='', Dec (lf_cumulative l), Txt ''/'', Dec (lf_order_size l), Txt '' reported='',
       Dec (lf_reported_cumulative l), Txt '' overfill='',
       Txt (if lf_overfill l then ''true'' else ''false'')]) b)"

definition emit_ghost_fill :: "ghost_fill \<Rightarrow> int \<Rightarrow> core_books \<Rightarrow> core_books" where
  "emit_ghost_fill g now b =
    emit (EvGhostFillAudit now g) (emit (EvRiskAlert Internal
      [Txt ''ghost_fill trade='', Txt (if gf_trade_id g = [] then ''-'' else gf_trade_id g), Txt '' token='',
       Txt (gf_token_id g), Txt '' side='', Txt (side_as_str (gf_side g)), Txt '' size='', Dec (gf_size g),
       Txt '' price='', Dec (gf_price g), Txt '' - no order to attribute; buffered for retry'']) b)"

definition report_fill_outcome ::
  "dec_ops \<Rightarrow> core_config \<Rightarrow> core_env \<Rightarrow> fee_schedule option \<Rightarrow> fill_outcome \<Rightarrow> int \<Rightarrow> core_books
     \<Rightarrow> core_books option" where
  "report_fill_outcome D G E st out now b =
    map_option (\<lambda>b1.
        let b2 = (case oc_late_fill out of Some l \<Rightarrow> emit_late_fill l now b1 | None \<Rightarrow> b1)
        in case oc_ghost_fill out of Some g \<Rightarrow> emit_ghost_fill g now b2 | None \<Rightarrow> b2)
      (case oc_delta out of Some d \<Rightarrow> apply_delta_effects D G E st d now b | None \<Rightarrow> Some b)"

definition ingest_fill ::
  "dec_ops \<Rightarrow> core_config \<Rightarrow> core_env \<Rightarrow> fee_schedule option \<Rightarrow> fill \<Rightarrow> int \<Rightarrow> core_books
     \<Rightarrow> (core_books \<times> (core_error + unit)) option" where
  "ingest_fill D G E st f now b = (case apply_fill_report D f now (cb_ome b) of
     (s, Inl e) \<Rightarrow> Some (b\<lparr>cb_ome := s\<rparr>, Inl e)
   | (s, Inr out) \<Rightarrow> map_option (\<lambda>b1. (b1, Inr ())) (report_fill_outcome D G E st out now (b\<lparr>cb_ome := s\<rparr>)))"

end
