(* ===== verification/BookingProps.thy ===== *)
theory BookingProps
  imports Booking OmeProps LedgerProps
begin

text \<open>
  What booking a fill keeps. The cash the accounts hold and the cash the positions explain move
  together; a reservation is what the order still commits; a close that is taken back takes its
  records back. And where the booking does not do what it means to: a rolled-back entry keeps its fee,
  an exit reason reaches the wrong account, a rollback after a re-entry never finds its close.
\<close>

section \<open>What each step leaves alone\<close>

lemma emit_sel [simp]:
  "cb_ome (emit e b) = cb_ome b" "cb_accounts (emit e b) = cb_accounts b"
  "cb_virtual (emit e b) = cb_virtual b" "cb_positions (emit e b) = cb_positions b"
  "cb_breaker (emit e b) = cb_breaker b" "cb_reasons (emit e b) = cb_reasons b"
  "cb_pairs (emit e b) = cb_pairs b" "cb_credentials (emit e b) = cb_credentials b"
  "cb_credential_log (emit e b) = cb_credential_log b" "cb_accounting (emit e b) = cb_accounting b"
  "cb_trade_db (emit e b) = cb_trade_db b" "cb_position_db (emit e b) = cb_position_db b"
  "cb_events (emit e b) = cb_events b @ [e]"
  by (simp_all add: emit_def)

lemma fold_emit: "fold (\<lambda>(a, t). emit (f a t)) xs b = b\<lparr>cb_events := cb_events b @ map (\<lambda>(a, t). f a t) xs\<rparr>"
  by (induction xs arbitrary: b) (auto simp: emit_def)

lemma persist_sel [simp]:
  "cb_accounts (persist_positions E b) = cb_accounts b" "cb_positions (persist_positions E b) = cb_positions b"
  "cb_ome (persist_positions E b) = cb_ome b" "cb_credentials (persist_positions E b) = cb_credentials b"
  "cb_trade_db (persist_positions E b) = cb_trade_db b" "cb_breaker (persist_positions E b) = cb_breaker b"
  "cb_accounting (persist_positions E b) = cb_accounting b" "cb_reasons (persist_positions E b) = cb_reasons b"
  "cb_events (persist_positions E b) = cb_events b" "cb_credential_log (persist_positions E b) = cb_credential_log b"
  by (simp_all add: persist_positions_def)

lemma append_credential_sel [simp]:
  "cb_accounts (append_credential E l b) = cb_accounts b" "cb_positions (append_credential E l b) = cb_positions b"
  "cb_ome (append_credential E l b) = cb_ome b" "cb_credentials (append_credential E l b) = cb_credentials b"
  "cb_trade_db (append_credential E l b) = cb_trade_db b" "cb_breaker (append_credential E l b) = cb_breaker b"
  "cb_accounting (append_credential E l b) = cb_accounting b" "cb_reasons (append_credential E l b) = cb_reasons b"
  "cb_events (append_credential E l b) = cb_events b"
  by (simp_all add: append_credential_def)

lemma evict_credentials_sel [simp]:
  "cb_accounts (evict_credentials E cs b) = cb_accounts b" "cb_positions (evict_credentials E cs b) = cb_positions b"
  "cb_ome (evict_credentials E cs b) = cb_ome b" "cb_trade_db (evict_credentials E cs b) = cb_trade_db b"
  "cb_breaker (evict_credentials E cs b) = cb_breaker b" "cb_accounting (evict_credentials E cs b) = cb_accounting b"
  "cb_reasons (evict_credentials E cs b) = cb_reasons b" "cb_events (evict_credentials E cs b) = cb_events b"
  by (induction cs arbitrary: b) simp_all

lemma push_credential_sel [simp]:
  "cb_accounts (push_close_credential E t c b) = cb_accounts b"
  "cb_positions (push_close_credential E t c b) = cb_positions b"
  "cb_ome (push_close_credential E t c b) = cb_ome b" "cb_trade_db (push_close_credential E t c b) = cb_trade_db b"
  "cb_breaker (push_close_credential E t c b) = cb_breaker b"
  "cb_accounting (push_close_credential E t c b) = cb_accounting b"
  "cb_reasons (push_close_credential E t c b) = cb_reasons b"
  by (simp_all add: push_close_credential_def Let_def)

lemma daily_trip_sel [simp]:
  "cb_accounts (emit_daily_trip D G b) = cb_accounts b" "cb_ome (emit_daily_trip D G b) = cb_ome b"
  "cb_positions (emit_daily_trip D G b) = fst (take_daily_trips D (cb_positions b))"
  "cb_trade_db (emit_daily_trip D G b) = cb_trade_db b" "cb_breaker (emit_daily_trip D G b) = cb_breaker b"
  "cb_accounting (emit_daily_trip D G b) = cb_accounting b" "cb_reasons (emit_daily_trip D G b) = cb_reasons b"
  "cb_credentials (emit_daily_trip D G b) = cb_credentials b"
  by (simp_all add: emit_daily_trip_def fold_emit split: prod.splits)

lemma streaks_sel [simp]:
  "cb_accounts (record_streaks G c now b) = cb_accounts b" "cb_ome (record_streaks G c now b) = cb_ome b"
  "cb_positions (record_streaks G c now b) = cb_positions b"
  "cb_trade_db (record_streaks G c now b) = cb_trade_db b"
  "cb_accounting (record_streaks G c now b) = cb_accounting b" "cb_reasons (record_streaks G c now b) = cb_reasons b"
  "cb_credentials (record_streaks G c now b) = cb_credentials b"
  by (simp_all add: record_streaks_def Let_def split: prod.splits)

lemma book_accounting_sel [simp]:
  "cb_accounts (book_accounting D c b) = cb_accounts b" "cb_ome (book_accounting D c b) = cb_ome b"
  "cb_positions (book_accounting D c b) = cb_positions b" "cb_trade_db (book_accounting D c b) = cb_trade_db b"
  "cb_breaker (book_accounting D c b) = cb_breaker b" "cb_reasons (book_accounting D c b) = cb_reasons b"
  "cb_credentials (book_accounting D c b) = cb_credentials b"
  by (simp_all add: book_accounting_def Let_def split: prod.splits)

lemma dirty_sel [simp]:
  "cb_accounts (mark_positions_dirty G b) = cb_accounts b" "cb_ome (mark_positions_dirty G b) = cb_ome b"
  "cb_positions (mark_positions_dirty G b) = cb_positions b" "cb_trade_db (mark_positions_dirty G b) = cb_trade_db b"
  "cb_breaker (mark_positions_dirty G b) = cb_breaker b" "cb_reasons (mark_positions_dirty G b) = cb_reasons b"
  "cb_credentials (mark_positions_dirty G b) = cb_credentials b"
  "cb_accounting (mark_positions_dirty G b) = cb_accounting b"
  by (simp_all add: mark_positions_dirty_def)

lemma closed_sel [simp]:
  "cb_accounts (on_position_closed D G E c now b) = cb_accounts b"
  "cb_ome (on_position_closed D G E c now b) = cb_ome b"
  "cb_positions (on_position_closed D G E c now b) = fst (take_daily_trips D (cb_positions b))"
  "cb_credentials (on_position_closed D G E c now b) = cb_credentials b"
  "cb_reasons (on_position_closed D G E c now b) = clear_exit_reason (c_token_id c) (cb_reasons b)"
  by (simp_all add: on_position_closed_def Let_def split: prod.splits)

lemma feed_sel [simp]:
  "cb_accounts (feed_pair_book d b) = cb_accounts b" "cb_positions (feed_pair_book d b) = cb_positions b"
  "cb_ome (feed_pair_book d b) = cb_ome b" "cb_reasons (feed_pair_book d b) = cb_reasons b"
  "cb_credentials (feed_pair_book d b) = cb_credentials b"
  by (simp_all add: feed_pair_book_def split: option.splits)

lemma wake_sel [simp]:
  "cb_accounts (wake_replay G b) = cb_accounts b" "cb_positions (wake_replay G b) = cb_positions b"
  "cb_ome (wake_replay G b) = cb_ome b" "cb_reasons (wake_replay G b) = cb_reasons b"
  "cb_credentials (wake_replay G b) = cb_credentials b"
  by (simp_all add: wake_replay_def)

lemma hold_sel [simp]:
  "cb_accounts (release_hold d r b) = cb_accounts b" "cb_positions (release_hold d r b) = cb_positions b"
  "cb_ome (release_hold d r b) = cb_ome b" "cb_reasons (release_hold d r b) = cb_reasons b"
  "cb_credentials (release_hold d r b) = cb_credentials b"
  by (simp_all add: release_hold_def split: option.splits)

lemma put_ledger_sel [simp]:
  "cb_accounts (put_ledger a l b) = AList.update a l (cb_accounts b)"
  "cb_positions (put_ledger a l b) = cb_positions b" "cb_ome (put_ledger a l b) = cb_ome b"
  "cb_reasons (put_ledger a l b) = cb_reasons b" "cb_credentials (put_ledger a l b) = cb_credentials b"
  by (simp_all add: put_ledger_def)

lemma emit_fill_sel [simp]:
  "cb_accounts (emit_fill E d b) = cb_accounts b" "cb_positions (emit_fill E d b) = cb_positions b"
  "cb_ome (emit_fill E d b) = cb_ome b" "cb_credentials (emit_fill E d b) = cb_credentials b"
  "cb_reasons (emit_fill E d b) = cb_reasons b"
  by (simp_all add: emit_fill_def persist_order_def split: option.splits)

lemma applied_journal_sel [simp]:
  "cb_accounts (persist_applied_journal E b) = cb_accounts b"
  "cb_positions (persist_applied_journal E b) = cb_positions b"
  "cb_credentials (persist_applied_journal E b) = cb_credentials b"
  "cb_reasons (persist_applied_journal E b) = cb_reasons b"
  by (simp_all add: persist_applied_journal_def Let_def split: prod.splits)

lemma open_for_fill_sel [simp]:
  "cb_accounts (fst (open_for_fill G E d now b)) = cb_accounts b"
  "cb_positions (fst (open_for_fill G E d now b)) =
    fst (open_pm (entry_params E d (case ome_get (cb_ome b) (fd_order_id d) of
       Some ord \<Rightarrow> if order_eff_round_sec G E ord > 0 then order_eff_round_sec G E ord else cg_round_duration_sec G
     | None \<Rightarrow> cg_round_duration_sec G) now) now (cb_positions b))"
  "snd (open_for_fill G E d now b) = hft_prefix @ nat_str (pm_next_id (cb_positions b))"
  by (simp_all add: open_for_fill_def open_pm_def Let_def)

lemma project_buy_accounts: "cb_accounts (project_buy D G E d fee reb now b) = cb_accounts b"
  by (auto simp: project_buy_def Let_def split: option.splits prod.splits)
     (metis fst_conv open_for_fill_sel(1))

lemma close_by_fill_accounts: "cb_accounts (close_by_fill D G E st d pid pre now b) = cb_accounts b"
  by (auto simp: close_by_fill_def Let_def split: option.splits prod.splits)

lemma unwind_sel [simp]:
  "cb_accounts (unwind_closed_trade D E cred now b) = cb_accounts b"
  "cb_ome (unwind_closed_trade D E cred now b) = cb_ome b"
  "cb_credentials (unwind_closed_trade D E cred now b) = cb_credentials b"
  "cb_positions (unwind_closed_trade D E cred now b) = fst (restore_closed (cc_restored cred) (cc_closed cred) (cb_positions b))"
  by (auto simp: unwind_closed_trade_def unbook_accounting_def Let_def split: prod.splits)

lemma project_sell_accounts: "cb_accounts (project_sell D G E st d fee reb now b) = cb_accounts b"
  by (auto simp: project_sell_def reverse_closed_def Let_def close_by_fill_accounts split: option.splits prod.splits)

lemma project_accounts [simp]: "cb_accounts (project_fill_delta D G E st d fee reb now b) = cb_accounts b"
  by (simp add: project_fill_delta_def Let_def project_buy_accounts project_sell_accounts split: side.splits)

section \<open>Cash and positions move together\<close>

definition total_cash :: "core_books \<Rightarrow> decimal" where
  "total_cash b = sum_list (map (l_balance \<circ> snd) (cb_accounts b))"

text \<open>A row between two fills: it holds shares, and nothing it accrued is negative.\<close>

definition sound_row :: "open_position \<Rightarrow> bool" where
  "sound_row p \<longleftrightarrow> row_ok p \<and> 0 < p_shares p \<and> 0 \<le> cf_entry_cost_usd (p_flows p) \<and>
     0 \<le> cf_entry_fee_usd (p_flows p) \<and> flows_nonneg p"

definition sound_rows :: "position_manager \<Rightarrow> bool" where
  "sound_rows m \<longleftrightarrow> distinct (map p_id (pm_open m)) \<and> ids_below (set (map p_id (pm_open m))) m \<and>
     (\<forall>p \<in> set (pm_open m). sound_row p)"

text \<open>What the last fill of a position leaves on the books: a remainder below the share grid, priced
  at the fill although nobody paid for it.\<close>

definition dust_of :: "dec_ops \<Rightarrow> fee_schedule option \<Rightarrow> core_books \<Rightarrow> fill_delta \<Rightarrow> decimal" where
  "dust_of D st b d = (case (fd_side d, find_holding (fd_token_id d) (fd_account_id d) (cb_positions b)) of
     (Sell, Some p) \<Rightarrow> (let left = p_shares p - fd_delta d in
        if left \<le> 0 \<or> floor_to_grid D left = 0
        then fd_price d * left - dust_fee_for D (active_schedule st) (fd_price d) (fd_price d * left)
               (is_maker (fd_role d))
        else 0)
   | _ \<Rightarrow> 0)"

text \<open>A fill the books can take: a positive size at a non-negative price whose notional fits the
  crate's range, a known account that can pay, and for a sell a holding of that size in a book with
  room in its history.\<close>

definition clean_fill ::
  "dec_ops \<Rightarrow> core_config \<Rightarrow> fee_schedule option \<Rightarrow> core_books \<Rightarrow> fill_delta \<Rightarrow> bool" where
  "clean_fill D G st b d \<longleftrightarrow>
     0 < fd_delta d \<and> 0 \<le> fd_price d \<and>
     checked_mul D (fd_price d) (fd_delta d) = Some (fd_price d * fd_delta d) \<and> 0 \<le> fill_rebate D G st d \<and>
     (case (fill_fee D G st d (fd_price d * fd_delta d), map_of (cb_accounts b) (fd_account_id d)) of
        (Some fee, Some l) \<Rightarrow> 0 \<le> fee \<and> 0 \<le> l_balance l \<and>
          (case fd_side d of
             Buy \<Rightarrow> fd_price d * fd_delta d + fee \<le> l_balance l \<and> pm_next_id (cb_positions b) < 2 ^ 64
           | Sell \<Rightarrow> fee \<le> l_balance l + fd_price d * fd_delta d \<and>
               length (pm_closed (cb_positions b)) < CLOSED_CAP \<and>
               (case find_holding (fd_token_id d) (fd_account_id d) (cb_positions b) of
                  Some p \<Rightarrow> fd_delta d \<le> p_shares p | None \<Rightarrow> False))
      | _ \<Rightarrow> False)"

lemma find_holding_open:
  assumes "sound_rows m" and "find_holding t a m = Some p"
  shows "find_open (p_id p) m = Some p" and "sound_row p" and "p_token_id p = t" and "p_account_id p = a"
  using assms find_open_member [of m p] by (auto simp: sound_rows_def find_holding_def dest: find_Some_prop)

lemma update_first_only:
  "distinct (map g xs) \<Longrightarrow> (\<forall>x \<in> set xs. g x \<noteq> i \<longrightarrow> Q x) \<Longrightarrow>
    (\<forall>x. List.find (\<lambda>x. g x = i) xs = Some x \<longrightarrow> Q (f x)) \<Longrightarrow> \<forall>x \<in> set (update_first (\<lambda>x. g x = i) f xs). Q x"
proof (induction xs)
  case (Cons x xs)
  show ?case
  proof (cases "g x = i")
    case True
    then have "\<forall>y \<in> set xs. g y \<noteq> i" using Cons.prems(1) by (metis distinct.simps(2) imageI list.set_map list.simps(9))
    then show ?thesis using True Cons.prems(2,3) by simp
  next
    case False
    then show ?thesis using Cons by simp
  qed
qed simp

lemma sound_rows_update:
  assumes "distinct (map p_id (pm_open m))" and "ids_below (set (map p_id (pm_open m))) m"
    and "\<forall>p \<in> set (pm_open m). p_id p \<noteq> i \<longrightarrow> sound_row p"
    and "\<And>p. p_id (f p) = p_id p" and "\<And>p. find_open i m = Some p \<Longrightarrow> sound_row (f p)"
  shows "sound_rows (update_open i f m)"
proof -
  have ids: "map p_id (pm_open (update_open i f m)) = map p_id (pm_open m)"
    using assms(4) by (simp add: update_open_def map_update_first)
  have "\<forall>p \<in> set (pm_open (update_open i f m)). sound_row p"
    unfolding update_open_def using assms(5) unfolding find_open_def
    by simp (rule update_first_only [OF assms(1,3)], blast)
  then show ?thesis
    using assms(1,2) unfolding sound_rows_def ids by (simp add: ids_below_def update_open_def)
qed

lemma map_remove_first_sub: "set (map g (remove_first P xs)) \<subseteq> set (map g xs) \<and>
  (distinct (map g xs) \<longrightarrow> distinct (map g (remove_first P xs)))"
  by (induction xs) auto

lemma sound_rows_remove:
  assumes "sound_rows m" and "pm_open n = remove_first P (pm_open m)" and "pm_next_id n = pm_next_id m"
  shows "sound_rows n"
  using assms map_remove_first_sub [of p_id P "pm_open m"] set_remove_first [of P "pm_open m"]
  unfolding sound_rows_def ids_below_def assms(2,3) by blast

lemma sound_rows_cong: "pm_open n = pm_open m \<Longrightarrow> pm_next_id n = pm_next_id m \<Longrightarrow> sound_rows n = sound_rows m"
  by (simp add: sound_rows_def ids_below_def)

lemma sound_entry:
  assumes "row_ok p" "0 \<le> p_shares p" "0 \<le> cf_entry_cost_usd (p_flows p)" "0 \<le> cf_entry_fee_usd (p_flows p)"
    and "flows_nonneg p" and "0 < sh" "0 \<le> pr" "0 \<le> fee"
  shows "sound_row (entry_fill_row D sh pr fee r p)"
    and "flow_cash (p_flows (entry_fill_row D sh pr fee r p)) = flow_cash (p_flows p) - pr * sh - fee"
  using assms by (simp_all add: sound_row_def row_ok_def flows_nonneg_def entry_fill_row_def refresh_view_def
    Let_def flow_cash_def add_nonneg_pos)

lemma sound_rebate:
  "0 \<le> reb \<Longrightarrow> sound_row p \<Longrightarrow> sound_row (rebate_row reb p) \<and>
     flow_cash (p_flows (rebate_row reb p)) = flow_cash (p_flows p) + reb"
  by (simp add: sound_row_def row_ok_def flows_nonneg_def rebate_row_def flow_cash_def)

lemma entry_row_id [simp]: "p_id (entry_fill_row D sh pr fee r p) = p_id p" "p_id (rebate_row reb p) = p_id p"
  by (simp_all add: entry_fill_row_def refresh_view_def rebate_row_def Let_def)


lemma drop_none: "sound_rows m \<Longrightarrow> fst (drop_if_empty i m) = m"
proof -
  assume "sound_rows m"
  then have "List.find (\<lambda>p. p_id p = i \<and> p_shares p \<le> 0 \<and> p_cost_usd p = 0) (pm_open m) = None"
    by (auto simp: find_None_all sound_rows_def sound_row_def)
  then show ?thesis by (simp add: drop_if_empty_def)
qed

text \<open>An entry fill on the row it belongs to, which may be a row just opened.\<close>

lemma entry_books:
  assumes "distinct (map p_id (pm_open m))" and "ids_below (set (map p_id (pm_open m))) m"
    and "\<forall>p \<in> set (pm_open m). p_id p \<noteq> i \<longrightarrow> sound_row p"
    and "find_open i m = Some p" and "row_ok p" "0 \<le> p_shares p" "0 \<le> cf_entry_cost_usd (p_flows p)"
    "0 \<le> cf_entry_fee_usd (p_flows p)" "flows_nonneg p" and "0 < sh" "0 \<le> pr" "0 \<le> fee" "0 \<le> reb"
    and "m1 = fst (apply_entry_fill D i sh pr fee r m)"
    and "m2 = (if reb \<noteq> 0 then accrue_maker_rebate i reb m1 else m1)"
  shows "book_cash (fst (drop_if_empty i m2)) = book_cash m - pr * sh - fee + reb"
    and "sound_rows (fst (drop_if_empty i m2))"
proof -
  let ?f = "entry_fill_row D sh pr fee r"
  have m1: "m1 = update_open i ?f m" by (simp add: assms(14) apply_entry_fill_def Let_def)
  note row = sound_entry [OF assms(5-12), of D r]
  have s1: "sound_rows m1"
    unfolding m1 using assms(4) row(1) by (intro sound_rows_update [OF assms(1-3)]) simp_all
  have c1: "book_cash m1 = book_cash m - pr * sh - fee"
    unfolding m1 using book_update [OF assms(4), of ?f] row(2) by simp
  have f1: "find_open i m1 = Some (?f p)" unfolding m1 using assms(4) by (simp add: find_open_update)
  have "sound_rows m2 \<and> book_cash m2 = book_cash m1 + reb"
  proof (cases "reb = 0")
    case False
    then have m2: "m2 = update_open i (rebate_row reb) m1" by (simp add: assms(15) accrue_maker_rebate_def)
    have "sound_rows m2"
      unfolding m2 using s1 f1 sound_rebate [OF assms(13) row(1)] unfolding sound_rows_def [of m1]
      by (intro sound_rows_update) simp_all
    moreover have "book_cash m2 = book_cash m1 + reb"
      unfolding m2 using book_update [OF f1, of "rebate_row reb"] sound_rebate [OF assms(13) row(1)] by simp
    ultimately show ?thesis by blast
  qed (use s1 assms(15) in simp)
  then show "book_cash (fst (drop_if_empty i m2)) = book_cash m - pr * sh - fee + reb"
    and "sound_rows (fst (drop_if_empty i m2))" by (simp_all add: drop_none c1)
qed

lemma opened_id: "p_id (snd (open_pm o1 now m)) = hft_prefix @ nat_str (pm_next_id m)"
  by (simp add: open_pm_def Let_def)

lemma opened_row:
  assumes "sound_rows m" and "pm_next_id m < 2 ^ 64"
  shows "find_open (p_id (snd (open_pm o1 now m))) (fst (open_pm o1 now m)) = Some (snd (open_pm o1 now m))"
    and "distinct (map p_id (pm_open (fst (open_pm o1 now m))))"
    and "ids_below (set (map p_id (pm_open (fst (open_pm o1 now m))))) (fst (open_pm o1 now m))"
    and "\<forall>p \<in> set (pm_open (fst (open_pm o1 now m))). p_id p \<noteq> p_id (snd (open_pm o1 now m)) \<longrightarrow> sound_row p"
    and "p_flows (snd (open_pm o1 now m)) = no_flows" and "p_shares (snd (open_pm o1 now m)) = 0"
proof -
  have fresh: "\<forall>p \<in> set (pm_open m). p_id p \<noteq> hft_prefix @ nat_str (pm_next_id m)"
    using assms(1) hft_number_minted [OF assms(2)] unfolding sound_rows_def ids_below_def by fastforce
  then have "List.find (\<lambda>p. p_id p = hft_prefix @ nat_str (pm_next_id m)) (pm_open m) = None"
    by (simp add: find_None_all)
  then show "find_open (p_id (snd (open_pm o1 now m))) (fst (open_pm o1 now m)) = Some (snd (open_pm o1 now m))"
    by (simp add: open_pm_def Let_def find_open_def find_append)
  show "distinct (map p_id (pm_open (fst (open_pm o1 now m))))"
    and "\<forall>p \<in> set (pm_open (fst (open_pm o1 now m))). p_id p \<noteq> p_id (snd (open_pm o1 now m)) \<longrightarrow> sound_row p"
    using fresh assms(1) by (auto simp: open_pm_def Let_def sound_rows_def image_iff)
  show "ids_below (set (map p_id (pm_open (fst (open_pm o1 now m))))) (fst (open_pm o1 now m))"
    using assms hft_number_minted [OF assms(2)]
    by (auto simp: open_pm_def Let_def sound_rows_def ids_below_def less_Suc_eq)
  show "p_flows (snd (open_pm o1 now m)) = no_flows" "p_shares (snd (open_pm o1 now m)) = 0"
    by (simp_all add: open_pm_def Let_def)
qed


lemma buy_books:
  assumes "sound_rows (cb_positions b)" and "pm_next_id (cb_positions b) < 2 ^ 64"
    and "0 < fd_delta d" "0 \<le> fd_price d" "0 \<le> fee" "0 \<le> reb"
  shows "book_cash (cb_positions (project_buy D G E d fee reb now b)) =
      book_cash (cb_positions b) - fd_price d * fd_delta d - fee + reb"
    and "sound_rows (cb_positions (project_buy D G E d fee reb now b))"
proof -
  have "book_cash (cb_positions (project_buy D G E d fee reb now b)) =
      book_cash (cb_positions b) - fd_price d * fd_delta d - fee + reb \<and>
    sound_rows (cb_positions (project_buy D G E d fee reb now b))"
  proof (cases "find_holding (fd_token_id d) (fd_account_id d) (cb_positions b)")
    case (Some p)
    note h = find_holding_open [OF assms(1) Some]
    have r: "row_ok p" "0 \<le> p_shares p" "0 \<le> cf_entry_cost_usd (p_flows p)"
      "0 \<le> cf_entry_fee_usd (p_flows p)" "flows_nonneg p"
      using h(2) by (simp_all add: sound_row_def)
    have m: "distinct (map p_id (pm_open (cb_positions b)))"
      "ids_below (set (map p_id (pm_open (cb_positions b)))) (cb_positions b)"
      "\<forall>q \<in> set (pm_open (cb_positions b)). p_id q \<noteq> p_id p \<longrightarrow> sound_row q"
      using assms(1) by (simp_all add: sound_rows_def)
    note entry_books [OF m h(1) r assms(3-6) refl refl, of D "fd_role d"]
    then show ?thesis by (simp add: project_buy_def Some Let_def)
  next
    case None
    obtain o1 where o1: "cb_positions (fst (open_for_fill G E d now b)) = fst (open_pm o1 now (cb_positions b))"
      "snd (open_for_fill G E d now b) = p_id (snd (open_pm o1 now (cb_positions b)))"
      using open_for_fill_sel(2,3) [of G E d now b] opened_id by metis
    let ?m = "fst (open_pm o1 now (cb_positions b))" and ?p = "snd (open_pm o1 now (cb_positions b))"
    note o = opened_row [OF assms(1,2), of o1 now]
    have r: "row_ok ?p" "0 \<le> p_shares ?p" "0 \<le> cf_entry_cost_usd (p_flows ?p)"
      "0 \<le> cf_entry_fee_usd (p_flows ?p)" "flows_nonneg ?p"
      by (simp_all add: row_ok_def o(5,6) no_flows_def flows_nonneg_def)
    note eb = entry_books [OF o(2-4,1) r assms(3-6) refl refl, of D "fd_role d"]
    have "cb_positions (project_buy D G E d fee reb now b) = fst (drop_if_empty (p_id ?p)
       (if reb \<noteq> 0 then accrue_maker_rebate (p_id ?p) reb
          (fst (apply_entry_fill D (p_id ?p) (fd_delta d) (fd_price d) fee (fd_role d) ?m))
        else fst (apply_entry_fill D (p_id ?p) (fd_delta d) (fd_price d) fee (fd_role d) ?m)))"
      unfolding project_buy_def None option.case Let_def split_beta o1 persist_sel by simp
    then show ?thesis using eb open_book [of o1 now "cb_positions b"] by simp
  qed
  then show "book_cash (cb_positions (project_buy D G E d fee reb now b)) =
      book_cash (cb_positions b) - fd_price d * fd_delta d - fee + reb"
    and "sound_rows (cb_positions (project_buy D G E d fee reb now b))" by blast+
qed

lemma close_by_fill_eq:
  assumes "find_open pid (cb_positions b) = Some p"
    and "take_exit_reason (fd_token_id d) (cb_reasons b) = (rl, noted)"
    and "r = (case noted of Some r \<Rightarrow> r | None \<Rightarrow> Manual)"
    and "c = closed_record D (active_schedule st) p (fd_price d) r (is_maker (fd_role d)) now ''venue''"
    and "n = fst (close_pm D st pid (fd_price d) r (is_maker (fd_role d)) now ''venue'' (cb_positions b))"
  shows "close_by_fill D G E st d pid pre now b = on_position_closed D G E c now (persist_positions E
    (let b1 = b\<lparr>cb_reasons := rl, cb_positions := n\<rparr> in case pre of
       Some q \<Rightarrow> push_close_credential E (fd_trade_id d) \<lparr>cc_restored = q, cc_closed = c,
         cc_streak_before = consecutive_losses (fd_strategy d) (cb_breaker b),
         cc_account_streak_before =
           consecutive_losses (account_breaker_key (as_str (fd_account_id d))) (cb_breaker b)\<rparr> b1
     | None \<Rightarrow> b1))"
proof -
  have "close_pm D st pid (fd_price d) r (is_maker (fd_role d)) now ''venue'' (cb_positions b) = (n, Some c)"
    by (rule close_pm_Some(1) [OF assms(1,4,5)])
  then show ?thesis
    by (simp add: close_by_fill_def assms(2) Let_def flip: assms(3) split: option.split)
qed

lemma close_by_fill_positions:
  assumes "find_open pid (cb_positions b) = Some p"
  shows "\<exists>r. cb_positions (close_by_fill D G E st d pid pre now b) = fst (take_daily_trips D
    (fst (close_pm D st pid (fd_price d) r (is_maker (fd_role d)) now ''venue'' (cb_positions b))))"
proof -
  obtain rl noted where t: "take_exit_reason (fd_token_id d) (cb_reasons b) = (rl, noted)" by fastforce
  define r where r: "r = (case noted of Some r \<Rightarrow> r | None \<Rightarrow> Manual)"
  show ?thesis
    by (rule exI [of _ r], subst close_by_fill_eq [OF assms t r refl refl]) (cases pre; simp)
qed

lemma remove_update_first: "(\<And>x. P x \<Longrightarrow> P (f x)) \<Longrightarrow> remove_first P (update_first P f xs) = remove_first P xs"
  by (induction xs) auto

lemma sell_books:
  assumes "div_by_grid_exact D" and "sound_rows (cb_positions b)" and "length (pm_closed (cb_positions b)) < CLOSED_CAP"
    and "find_holding (fd_token_id d) (fd_account_id d) (cb_positions b) = Some p"
    and "0 < fd_delta d" "fd_delta d \<le> p_shares p" "0 \<le> fd_price d" "0 \<le> fee" "0 \<le> reb" and "fd_side d = Sell"
  shows "book_cash (cb_positions (project_sell D G E st d fee reb now b)) =
      book_cash (cb_positions b) + fd_price d * fd_delta d - fee + reb + dust_of D st b d"
    and "sound_rows (cb_positions (project_sell D G E st d fee reb now b))"
proof -
  note h = find_holding_open [OF assms(2,4)]
  let ?f = "exit_fill_row D (fd_delta d) (fd_price d) fee (fd_role d) reb"
  let ?m = "update_open (p_id p) ?f (cb_positions b)"
  let ?left = "p_shares p - fd_delta d"
  have r: "row_ok p" "0 < p_shares p" "0 \<le> cf_proceeds_usd (p_flows p)" "0 \<le> cf_exit_fee_usd (p_flows p)"
    "0 \<le> cf_maker_rebate_usd (p_flows p)" "0 \<le> cf_sold_shares (p_flows p)"
    using h(2) by (simp_all add: sound_row_def row_ok_def flows_nonneg_def)
  have nn: "0 \<le> cf_sold_shares (p_flows p) + fd_delta d" "0 \<le> cf_proceeds_usd (p_flows p) + fd_price d * fd_delta d"
    "0 \<le> cf_exit_fee_usd (p_flows p) + fee" "0 \<le> cf_maker_rebate_usd (p_flows p) + reb"
    using r assms(5-9) by simp_all
  note e = exit_row_cash [OF r(1) assms(6) nn, of D "fd_role d"]
  have m1: "fst (apply_exit_fill D (p_id p) (fd_delta d) (fd_price d) fee (fd_role d) reb (cb_positions b)) = ?m"
    and left: "snd (apply_exit_fill D (p_id p) (fd_delta d) (fd_price d) fee (fd_role d) reb (cb_positions b)) = Some ?left"
    using e h(1) by (simp_all add: apply_exit_fill_def Let_def)
  have cash: "book_cash ?m = book_cash (cb_positions b) + fd_price d * fd_delta d - fee + reb"
    using book_update [OF h(1), of ?f] e by simp
  have f1: "find_open (p_id p) ?m = Some (?f p)" using h(1) by (simp add: find_open_update)
  have rows: "rows_ok (cb_positions b)" using assms(2) by (simp add: sound_rows_def sound_row_def rows_ok_def)
  show "book_cash (cb_positions (project_sell D G E st d fee reb now b)) =
      book_cash (cb_positions b) + fd_price d * fd_delta d - fee + reb + dust_of D st b d"
    and "sound_rows (cb_positions (project_sell D G E st d fee reb now b))"
  proof -
    have "sound_rows (cb_positions (project_sell D G E st d fee reb now b)) \<and>
      book_cash (cb_positions (project_sell D G E st d fee reb now b)) = book_cash ?m + dust_of D st b d"
    proof (cases "?left \<le> 0 \<or> floor_to_grid D ?left = 0")
      case True
      let ?b = "b\<lparr>cb_positions := ?m\<rparr>"
      have "project_sell D G E st d fee reb now b = close_by_fill D G E st d (p_id p) (find_open (p_id p) (cb_positions b)) now ?b"
        unfolding project_sell_def assms(4) option.case Let_def split_beta m1 left using True assms(5) by simp
      moreover obtain r where "cb_positions (close_by_fill D G E st d (p_id p) (find_open (p_id p) (cb_positions b)) now ?b)
          = fst (take_daily_trips D (fst (close_pm D st (p_id p) (fd_price d) r (is_maker (fd_role d)) now ''venue'' ?m)))"
        using close_by_fill_positions [of "p_id p" ?b "?f p" D G E st d] f1 by auto
      ultimately obtain n where n: "n = fst (close_pm D st (p_id p) (fd_price d) r (is_maker (fd_role d)) now ''venue'' ?m)"
        and pos: "cb_positions (project_sell D G E st d fee reb now b) = fst (take_daily_trips D n)" by simp
      have rowsm: "rows_ok ?m" and full: "length (pm_closed ?m) < CLOSED_CAP"
        using rows_ok_update [OF rows, of "p_id p" ?f] e h(1) assms(3) by (simp_all add: update_open_def)
      have opened: "0 < cf_opened_shares (p_flows (?f p))"
        using e r by (simp add: row_ok_def)
      have "pm_open n = remove_first (\<lambda>q. p_id q = p_id p) (pm_open (cb_positions b))"
        using close_pm_Some(2) [OF f1 refl n] by (simp add: update_open_def remove_update_first)
      then have "sound_rows n"
        by (rule sound_rows_remove [OF assms(2)]) (simp add: n frame_simps update_open_def)
      then have sn: "sound_rows (fst (take_daily_trips D n))"
        by (simp add: sound_rows_cong [of "fst (take_daily_trips D n)" n] frame_simps)
      have "book_cash (fst (take_daily_trips D n)) = book_cash ?m + dust_of D st b d"
        using close_book [OF rowsm full f1 opened, of D st "fd_price d" r "is_maker (fd_role d)" now "''venue''"] True e
        by (simp add: daily_book dust_of_def assms(4,10) Let_def n)
      then show ?thesis using pos sn by simp
    next
      case False
      then have "project_sell D G E st d fee reb now b = persist_positions E (b\<lparr>cb_positions := ?m\<rparr>)"
        unfolding project_sell_def assms(4) option.case Let_def split_beta m1 left using assms(5) by simp
      moreover have "sound_row (?f p)"
        using False e h(2) by (simp add: sound_row_def) (simp add: exit_fill_row_def Let_def flows_nonneg_def)
      then have "sound_rows ?m"
        using assms(2) h(1) by (intro sound_rows_update) (simp_all add: sound_rows_def)
      ultimately show ?thesis using False by (simp add: dust_of_def assms(4,10) Let_def)
    qed
    then show "book_cash (cb_positions (project_sell D G E st d fee reb now b)) =
      book_cash (cb_positions b) + fd_price d * fd_delta d - fee + reb + dust_of D st b d"
      and "sound_rows (cb_positions (project_sell D G E st d fee reb now b))" by (simp_all add: cash)
  qed
qed


lemma project_books:
  assumes "div_by_grid_exact D" and "sound_rows (cb_positions b)" and "clean_fill D G st b d"
    and "fill_fee D G st d (fd_price d * fd_delta d) = Some fee" and "reb = fill_rebate D G st d"
    and "cb_positions b1 = cb_positions b"
  shows "book_cash (cb_positions (project_fill_delta D G E st d fee reb now b1)) = book_cash (cb_positions b) +
      (case fd_side d of Buy \<Rightarrow> - (fd_price d * fd_delta d) - fee
       | Sell \<Rightarrow> fd_price d * fd_delta d - fee) + reb + dust_of D st b d"
    and "sound_rows (cb_positions (project_fill_delta D G E st d fee reb now b1))"
proof -
  define b2 where "b2 = (mark_positions_dirty G b1)\<lparr>cb_fast := (cb_fast (mark_positions_dirty G b1))
    \<lparr>fp_dirty_tokens := insert (fd_token_id d) (fp_dirty_tokens (cb_fast (mark_positions_dirty G b1)))\<rparr>\<rparr>"
  have b2: "cb_positions b2 = cb_positions b" by (simp add: b2_def assms(6))
  have p: "project_fill_delta D G E st d fee reb now b1 = (case fd_side d of
      Buy \<Rightarrow> project_buy D G E d fee reb now b2 | Sell \<Rightarrow> project_sell D G E st d fee reb now b2)"
    unfolding project_fill_delta_def Let_def b2_def by (rule refl)
  note c = assms(3) [unfolded clean_fill_def assms(4) option.case]
  have "book_cash (cb_positions (project_fill_delta D G E st d fee reb now b1)) = book_cash (cb_positions b) +
      (case fd_side d of Buy \<Rightarrow> - (fd_price d * fd_delta d) - fee
       | Sell \<Rightarrow> fd_price d * fd_delta d - fee) + reb + dust_of D st b d \<and>
    sound_rows (cb_positions (project_fill_delta D G E st d fee reb now b1))"
  proof (cases "fd_side d")
    case Buy
    then show ?thesis
      using buy_books [of b2 d fee reb D G E now] c assms(2,5) p b2
      by (auto simp: dust_of_def split: option.splits)
  next
    case Sell
    then obtain h where "find_holding (fd_token_id d) (fd_account_id d) (cb_positions b) = Some h"
      and "fd_delta d \<le> p_shares h"
      using c by (auto split: option.splits prod.splits)
    then show ?thesis
      using sell_books [of D b2 d h fee reb G E st now] c assms(1,2,5) p b2 Sell
      by (auto simp: dust_of_def split: option.splits)
  qed
  then show "book_cash (cb_positions (project_fill_delta D G E st d fee reb now b1)) = book_cash (cb_positions b) +
      (case fd_side d of Buy \<Rightarrow> - (fd_price d * fd_delta d) - fee
       | Sell \<Rightarrow> fd_price d * fd_delta d - fee) + reb + dust_of D st b d"
    and "sound_rows (cb_positions (project_fill_delta D G E st d fee reb now b1))" by blast+
qed


text \<open>The cash side of the same fill.\<close>

definition fill_cash :: "fill_delta \<Rightarrow> decimal \<Rightarrow> decimal \<Rightarrow> decimal" where
  "fill_cash d fee reb = (case fd_side d of Buy \<Rightarrow> - (fd_price d * fd_delta d) - fee
     | Sell \<Rightarrow> fd_price d * fd_delta d - fee) + reb"

lemma settle_buy_balance: "l_balance (fst (settle_buy_fill x i c r l)) = max (l_balance l - c) 0"
  by (simp add: settle_buy_fill_def Let_def)

lemma sync_balance [simp]: "l_balance (fst (sync_buy_reservation i n l)) = l_balance l"
  by (simp add: sync_buy_reservation_def take_reservation_def Let_def)

lemma settle_delta_balance:
  assumes "0 < fd_delta d" "0 \<le> fd_price d" "0 \<le> fee" "0 \<le> reb" "0 \<le> l_balance l"
    and "case fd_side d of Buy \<Rightarrow> fd_price d * fd_delta d + fee \<le> l_balance l
      | Sell \<Rightarrow> fee \<le> l_balance l + fd_price d * fd_delta d"
  shows "l_balance (settle_delta E d (fd_price d * fd_delta d) rel fee reb l) = l_balance l + fill_cash d fee reb"
proof -
  have "0 \<le> fd_price d * fd_delta d" using assms(1,2) by simp
  then show ?thesis
    using assms
    by (cases "fd_side d") (auto simp: settle_delta_def fill_cash_def Let_def settle_buy_balance charge_fee_def
        settle_sell_fill_def credit_cashflow_def credit_as_def max_def)
qed

lemma total_cash_put:
  assumes "map_of (cb_accounts b) a = Some l"
  shows "sum_list (map (l_balance \<circ> snd) (AList.update a l' (cb_accounts b))) = total_cash b - l_balance l + l_balance l'"
  using sum_update [of l_balance a l' "cb_accounts b"] assms by (simp add: total_cash_def)

lemma apply_delta_books:
  assumes "div_by_grid_exact D" and "sound_rows (cb_positions b)" and "clean_fill D G st b d"
  shows "\<exists>b'. apply_delta_effects D G E st d now b = Some b' \<and> sound_rows (cb_positions b') \<and>
    total_cash b' - book_cash (cb_positions b') = total_cash b - book_cash (cb_positions b) - dust_of D st b d"
proof -
  obtain fee l where f: "fill_fee D G st d (fd_price d * fd_delta d) = Some fee"
    and l: "map_of (cb_accounts b) (fd_account_id d) = Some l"
    using assms(3) by (auto simp: clean_fill_def split: option.splits)
  note c = assms(3) [unfolded clean_fill_def f l option.case prod.case]
  define reb where "reb = fill_rebate D G st d"
  have bal: "l_balance (settle_delta E d (fd_price d * fd_delta d) rel fee reb l) = l_balance l + fill_cash d fee reb" for rel
    using c by (intro settle_delta_balance) (auto simp: reb_def split: side.splits option.splits)
  define b1 where "b1 = wake_replay G (feed_pair_book d b)"
  have b1: "cb_positions b1 = cb_positions b" "cb_accounts b1 = cb_accounts b" by (simp_all add: b1_def)
  obtain b3 l3 where b3: "cb_positions b3 = cb_positions b" "cb_accounts b3 = AList.update (fd_account_id d) l3 (cb_accounts b)"
    "l_balance l3 = l_balance l + fill_cash d fee reb"
    and eff: "apply_delta_effects D G E st d now b = Some (persist_applied_journal E (emit_fill E d
       (project_fill_delta D G E st d fee reb now b3)))"
  proof -
    let ?b2 = "if fd_delta d > 0 \<and> reb > 0 then b1\<lparr>cb_modeled_rebate := cb_modeled_rebate b1 + reb\<rparr> else b1"
    let ?rel = "or_zero (checked_mul D (fd_limit_price d) (fd_delta d))"
    let ?l1 = "settle_delta E d (fd_price d * fd_delta d) ?rel fee reb l"
    let ?l3 = "if fd_side d = Buy then fst (sync_buy_reservation (fd_order_id d)
        (outstanding (cb_ome ?b2) (fd_order_id d)) ?l1) else ?l1"
    let ?b3 = "if fd_side d = Buy then release_hold d ?rel (put_ledger (fd_account_id d) (fst (sync_buy_reservation
        (fd_order_id d) (outstanding (cb_ome ?b2) (fd_order_id d)) ?l1)) ?b2)
      else put_ledger (fd_account_id d) ?l1 ?b2"
    have n: "or_zero (checked_mul D (fd_price d) (fd_delta d)) = fd_price d * fd_delta d"
      using c by (simp add: or_zero_def)
    have "apply_delta_effects D G E st d now b = Some (persist_applied_journal E (emit_fill E d
       (project_fill_delta D G E st d fee reb now ?b3)))"
      unfolding apply_delta_effects_def Let_def n f option.case b1_def [symmetric] b1(2) l reb_def [symmetric] by (rule refl)
    moreover have "cb_positions ?b3 = cb_positions b" "cb_accounts ?b3 = AList.update (fd_account_id d) ?l3 (cb_accounts b)"
      "l_balance ?l3 = l_balance l + fill_cash d fee reb" by (simp_all add: b1 bal)
    ultimately show ?thesis using that by blast
  qed
  note p = project_books [OF assms f reb_def b3(1), of E now]
  show ?thesis
    using p total_cash_put [OF l, of l3] b3 unfolding eff
    by (simp add: total_cash_def fill_cash_def)
qed


section \<open>A session of fills\<close>

text \<open>Reports from the venue, each with the answers of the environment and the time, one after the
  other; \<open>None\<close> is the failed assertion on the fee schedule.\<close>

type_synonym report = "core_env \<times> fill \<times> int"

fun ingest_all :: "dec_ops \<Rightarrow> core_config \<Rightarrow> fee_schedule option \<Rightarrow> report list \<Rightarrow> core_books \<Rightarrow> core_books option" where
  "ingest_all D G st [] b = Some b"
| "ingest_all D G st ((E, f, now) # rs) b =
    Option.bind (ingest_fill D G E st f now b) (\<lambda>(b1, _). ingest_all D G st rs b1)"

definition announced :: "dec_ops \<Rightarrow> fill \<Rightarrow> int \<Rightarrow> core_books \<Rightarrow> fill_delta option" where
  "announced D f now b = (case snd (apply_fill_report D f now (cb_ome b)) of Inr out \<Rightarrow> oc_delta out | Inl _ \<Rightarrow> None)"

text \<open>Every delta the engine announces during the session is one the books can take, and the
  remainders written off by its closes.\<close>

fun clean_session :: "dec_ops \<Rightarrow> core_config \<Rightarrow> fee_schedule option \<Rightarrow> report list \<Rightarrow> core_books \<Rightarrow> bool" where
  "clean_session D G st [] b \<longleftrightarrow> True"
| "clean_session D G st ((E, f, now) # rs) b \<longleftrightarrow>
    (case announced D f now b of None \<Rightarrow> True | Some d \<Rightarrow> clean_fill D G st b d) \<and>
    (case ingest_fill D G E st f now b of Some (b1, _) \<Rightarrow> clean_session D G st rs b1 | None \<Rightarrow> False)"

fun session_dust :: "dec_ops \<Rightarrow> core_config \<Rightarrow> fee_schedule option \<Rightarrow> report list \<Rightarrow> core_books \<Rightarrow> decimal" where
  "session_dust D G st [] b = 0"
| "session_dust D G st ((E, f, now) # rs) b =
    (case announced D f now b of None \<Rightarrow> 0 | Some d \<Rightarrow> dust_of D st b d) +
    (case ingest_fill D G E st f now b of Some (b1, _) \<Rightarrow> session_dust D G st rs b1 | None \<Rightarrow> 0)"

lemma report_alerts:
  assumes "b2 = (case lf of Some l \<Rightarrow> emit_late_fill l now b1 | None \<Rightarrow> b1)"
    and "b3 = (case gf of Some g \<Rightarrow> emit_ghost_fill g now b2 | None \<Rightarrow> b2)"
  shows "cb_positions b3 = cb_positions b1 \<and> cb_accounts b3 = cb_accounts b1"
  using assms by (simp add: emit_late_fill_def emit_ghost_fill_def split: option.splits)

lemma clean_fill_cong:
  "cb_positions c = cb_positions b \<Longrightarrow> cb_accounts c = cb_accounts b \<Longrightarrow>
    clean_fill D G st c d = clean_fill D G st b d \<and> dust_of D st c d = dust_of D st b d"
  by (simp only: clean_fill_def dust_of_def)

lemma ingest_books:
  assumes "div_by_grid_exact D" and "sound_rows (cb_positions b)"
    and "case announced D f now b of None \<Rightarrow> True | Some d \<Rightarrow> clean_fill D G st b d"
  shows "\<exists>b' r. ingest_fill D G E st f now b = Some (b', r) \<and> sound_rows (cb_positions b') \<and>
    total_cash b' - book_cash (cb_positions b') = total_cash b - book_cash (cb_positions b)
      - (case announced D f now b of None \<Rightarrow> 0 | Some d \<Rightarrow> dust_of D st b d)"
proof -
  obtain s r where rep: "apply_fill_report D f now (cb_ome b) = (s, r)" by fastforce
  let ?b = "b\<lparr>cb_ome := s\<rparr>"
  have b: "cb_positions ?b = cb_positions b" "cb_accounts ?b = cb_accounts b" "total_cash ?b = total_cash b"
    by (simp_all add: total_cash_def)
  show ?thesis
  proof (cases r)
    case (Inl e)
    then show ?thesis using assms(2) rep b by (simp add: ingest_fill_def announced_def)
  next
    case (Inr out)
    have an: "announced D f now b = oc_delta out" by (simp add: announced_def rep Inr)
    have "\<exists>b1. (case oc_delta out of Some d \<Rightarrow> apply_delta_effects D G E st d now ?b | None \<Rightarrow> Some ?b) = Some b1 \<and>
      sound_rows (cb_positions b1) \<and> total_cash b1 - book_cash (cb_positions b1) =
        total_cash b - book_cash (cb_positions b) - (case oc_delta out of None \<Rightarrow> 0 | Some d \<Rightarrow> dust_of D st b d)"
    proof (cases "oc_delta out")
      case None
      then show ?thesis using assms(2) b by simp
    next
      case (Some d)
      then have c: "clean_fill D G st ?b d" and du: "dust_of D st ?b d = dust_of D st b d"
        using assms(3) clean_fill_cong [of ?b b D G st d] by (simp_all add: an)
      show ?thesis using apply_delta_books [OF assms(1) _ c, of E now] assms(2) b du Some by simp
    qed
    then obtain b1 where b1: "(case oc_delta out of Some d \<Rightarrow> apply_delta_effects D G E st d now ?b | None \<Rightarrow> Some ?b) = Some b1"
      "sound_rows (cb_positions b1)" "total_cash b1 - book_cash (cb_positions b1) =
        total_cash b - book_cash (cb_positions b) - (case oc_delta out of None \<Rightarrow> 0 | Some d \<Rightarrow> dust_of D st b d)"
      by blast
    let ?b2 = "case oc_late_fill out of Some l \<Rightarrow> emit_late_fill l now b1 | None \<Rightarrow> b1"
    let ?b3 = "case oc_ghost_fill out of Some g \<Rightarrow> emit_ghost_fill g now ?b2 | None \<Rightarrow> ?b2"
    have "ingest_fill D G E st f now b = Some (?b3, Inr ())"
      by (simp add: ingest_fill_def rep Inr report_fill_outcome_def b1(1) Let_def)
    moreover have "cb_positions ?b3 = cb_positions b1 \<and> cb_accounts ?b3 = cb_accounts b1"
      by (rule report_alerts [OF refl refl])
    ultimately show ?thesis using b1(2,3) by (simp add: an total_cash_def)
  qed
qed

text \<open>No cash is created or lost between the ledgers and the positions. Over any session of
  venue reports whose announced fills the books can take, every report is booked, and the cash on all
  accounts less the cash the position book explains (net profit of its settled records, cost and
  returns of its open rows) changes only by the remainders below the share grid that closes priced
  without a buyer.\<close>

theorem booking_conserves_cash:
  assumes "div_by_grid_exact D" and "sound_rows (cb_positions b)" and "clean_session D G st rs b"
  shows "\<exists>b'. ingest_all D G st rs b = Some b' \<and> sound_rows (cb_positions b') \<and>
    total_cash b' - book_cash (cb_positions b') =
      total_cash b - book_cash (cb_positions b) - session_dust D G st rs b"
  using assms(2,3)
proof (induction rs arbitrary: b)
  case (Cons x rs)
  obtain E f now where x: "x = (E, f, now)" by (cases x)
  obtain b1 r where b1: "ingest_fill D G E st f now b = Some (b1, r)" "sound_rows (cb_positions b1)"
    "total_cash b1 - book_cash (cb_positions b1) = total_cash b - book_cash (cb_positions b)
      - (case announced D f now b of None \<Rightarrow> 0 | Some d \<Rightarrow> dust_of D st b d)"
    using ingest_books [OF assms(1) Cons.prems(1), where f = f and now = now and G = G and st = st and E = E]
      Cons.prems(2) x by auto
  have "clean_session D G st rs b1" using Cons.prems(2) b1(1) by (simp add: x)
  from Cons.IH [OF b1(2) this] b1 show ?case by (auto simp: x)
qed simp


definition demo_config :: core_config where
  "demo_config = \<lparr>cg_model_maker_rebate = True, cg_fee_schedule_replay = False, cg_replay_sched = False,
     cg_round_duration_sec = 300, cg_breaker_cooldown_sec = 600, cg_max_daily_loss_equity_pct = 5,
     cg_account_limits = systemic_default\<rparr>"

definition demo_env :: core_env where
  "demo_env = \<lparr>ce_market_decl = (\<lambda>_. None), ce_execution_venue = (\<lambda>_ _. ''poly''), ce_partner_of = (\<lambda>_. None),
     ce_cash = \<lparr>io_now = 1, io_ok = True\<rparr>, ce_fee = \<lparr>io_now = 1, io_ok = True\<rparr>,
     ce_rebate = \<lparr>io_now = 1, io_ok = True\<rparr>, ce_trade_log = all_ok, ce_credential_ok = (\<lambda>_. True),
     ce_positions_wrote = True, ce_positions_copied = True, ce_order_log_ok = True, ce_applied_log_ok = True\<rparr>"

definition demo_core :: "ome \<Rightarrow> position_manager \<Rightarrow> core_books" where
  "demo_core s m = \<lparr>cb_ome = s, cb_accounts = [(default_account_id, ledger_new\<lparr>l_balance := 100\<rparr>)],
     cb_virtual = va_new [], cb_positions = m, cb_breaker = breakers_new 3 600,
     cb_reasons = exit_reason_ledger_new, cb_pairs = pair_book_new, cb_credentials = [],
     cb_credential_log = Some [], cb_accounting = [], cb_trade_db = None, cb_position_db = None,
     cb_order_log = None, cb_applied_log = None, cb_modeled_rebate = 0,
     cb_fast = \<lparr>fp_orders_dirty = False, fp_eval_wake = False, fp_positions_dirty = False, fp_dirty_tokens = {}\<rparr>,
     cb_events = []\<rparr>"

lemma demo_core_sel [simp]:
  "cb_ome (demo_core s m) = s" "cb_positions (demo_core s m) = m"
  "cb_accounts (demo_core s m) = [(default_account_id, ledger_new\<lparr>l_balance := 100\<rparr>)]"
  "cb_reasons (demo_core s m) = exit_reason_ledger_new" "cb_credentials (demo_core s m) = []"
  "cb_accounting (demo_core s m) = []"
  by (simp_all add: demo_core_def)

lemma sample_more_sel [simp]:
  "f_price (sample_fill q) = 1/2" "f_maker (sample_fill q) = Some True" "o_side (sample_row q) = Buy"
  "o_account_id (sample_row q) = default_account_id"
  by (simp_all add: sample_fill_def sample_row_def fresh_order_def sample_params_def sample_request_def)

lemma sample_announced:
  "\<exists>d. announced exact_dec (sample_fill 4) 130 (demo_core (sample_ome 0) m) = Some d \<and> fd_delta d = 4 \<and>
    fd_price d = 1/2 \<and> fd_side d = Buy \<and> is_maker (fd_role d) \<and> fd_account_id d = default_account_id"
proof -
  obtain s' out where rep: "apply_fill_report exact_dec (sample_fill 4) 130 (sample_ome 0) = (s', Inr out)"
    using fill_report_accounts [OF sample_ome_facts(1)] by blast
  have "\<exists>d. oc_delta out = Some d \<and> fd_delta d = 4 \<and>
    fd_price d = 1/2 \<and> fd_side d = Buy \<and> is_maker (fd_role d) \<and> fd_account_id d = default_account_id"
    using rep resolve_by_id [OF sample_ome_facts(1), where f = "sample_fill 4"]
    by (auto simp: apply_fill_report_def apply_reported_def record_delta_def capped_size_def delta_of_def
        stamped_def duplicate_untracked_def fill_role_def is_maker_def Let_def split: prod.splits)
  then show ?thesis by (simp add: announced_def rep)
qed


lemma sound_fresh: "sound_rows fresh_manager"
  by (simp add: sound_rows_def fresh_manager_def manager_new_def ids_below_def)

theorem booking_conserves_cash_witness:
  "\<exists>b'. ingest_all exact_dec demo_config None [(demo_env, sample_fill 4, 130)] (demo_core (sample_ome 0) fresh_manager)
      = Some b' \<and> total_cash b' - book_cash (cb_positions b') = 100"
proof -
  let ?b = "demo_core (sample_ome 0) fresh_manager"
  obtain d where an: "announced exact_dec (sample_fill 4) 130 ?b = Some d" and d: "fd_delta d = 4" "fd_price d = 1/2"
    "fd_side d = Buy" "is_maker (fd_role d)" "fd_account_id d = default_account_id"
    using sample_announced by blast
  have clean: "clean_fill exact_dec demo_config None ?b d"
    by (simp add: clean_fill_def d fill_fee_def fill_rebate_def or_zero_def active_schedule_def fee_per_share_nonneg
        legacy_quadratic_schedule_def demo_config_def fresh_manager_def manager_new_def ledger_new_def split: option.splits)
  have sound: "sound_rows (cb_positions ?b)" by (simp add: sound_fresh)
  have "case announced exact_dec (sample_fill 4) 130 ?b of None \<Rightarrow> True | Some d \<Rightarrow> clean_fill exact_dec demo_config None ?b d"
    by (simp add: an clean)
  from ingest_books [OF grid_exact_dec sound this, of demo_env]
  have session: "clean_session exact_dec demo_config None [(demo_env, sample_fill 4, 130)] ?b"
    and dust: "session_dust exact_dec demo_config None [(demo_env, sample_fill 4, 130)] ?b = 0"
    using clean by (auto simp: an dust_of_def d)
  then show ?thesis
    using booking_conserves_cash [OF grid_exact_dec sound session]
    by (auto simp: dust total_cash_def book_cash_def fresh_manager_def manager_new_def)
qed

end
