(* ===== verification/BookingRollback.thy ===== *)
theory BookingRollback
  imports BookingProps
begin

text \<open>
  The booking of a fill seen from outside: what it may touch at all, and what is left when the venue
  takes a fill back.
\<close>

section \<open>The cash step\<close>

text \<open>Everything before the projection on the positions.\<close>

definition cash_booked ::
  "dec_ops \<Rightarrow> core_config \<Rightarrow> core_env \<Rightarrow> fee_schedule option \<Rightarrow> fill_delta \<Rightarrow> decimal \<Rightarrow> ledger \<Rightarrow> core_books
     \<Rightarrow> core_books" where
  "cash_booked D G E st d fee l b =
    (let b1 = wake_replay G (feed_pair_book d b);
         released = or_zero (checked_mul D (fd_limit_price d) (fd_delta d));
         rebate = fill_rebate D G st d;
         l1 = settle_delta E d (or_zero (checked_mul D (fd_price d) (fd_delta d))) released fee rebate l;
         b2 = (if fd_delta d > 0 \<and> rebate > 0
               then b1\<lparr>cb_modeled_rebate := cb_modeled_rebate b1 + rebate\<rparr> else b1)
     in if fd_side d = Buy
        then release_hold d released (put_ledger (fd_account_id d)
               (fst (sync_buy_reservation (fd_order_id d) (outstanding (cb_ome b2) (fd_order_id d)) l1)) b2)
        else put_ledger (fd_account_id d) l1 b2)"

definition booked_ledger ::
  "dec_ops \<Rightarrow> core_config \<Rightarrow> core_env \<Rightarrow> fee_schedule option \<Rightarrow> fill_delta \<Rightarrow> decimal \<Rightarrow> ledger \<Rightarrow> core_books
     \<Rightarrow> ledger" where
  "booked_ledger D G E st d fee l b =
    (let l1 = settle_delta E d (or_zero (checked_mul D (fd_price d) (fd_delta d)))
           (or_zero (checked_mul D (fd_limit_price d) (fd_delta d))) fee (fill_rebate D G st d) l
     in if fd_side d = Buy
        then fst (sync_buy_reservation (fd_order_id d) (outstanding (cb_ome b) (fd_order_id d)) l1) else l1)"

lemma distinct_remove_first:
  "distinct (map g xs) \<Longrightarrow> \<forall>x \<in> set (remove_first (\<lambda>x. g x = i) xs). g x \<noteq> i"
proof (induction xs)
  case (Cons x xs)
  then show ?case by (cases "g x = i") (auto, metis imageI)
qed simp

lemma apply_delta_eq:
  assumes "fill_fee D G st d (or_zero (checked_mul D (fd_price d) (fd_delta d))) = Some fee"
    and "map_of (cb_accounts b) (fd_account_id d) = Some l"
  shows "apply_delta_effects D G E st d now b = Some (persist_applied_journal E (emit_fill E d
    (project_fill_delta D G E st d fee (fill_rebate D G st d) now (cash_booked D G E st d fee l b))))"
  using assms by (simp add: apply_delta_effects_def cash_booked_def Let_def cong: if_cong)

lemma cash_booked_sel [simp]:
  "cb_positions (cash_booked D G E st d fee l b) = cb_positions b"
  "cb_ome (cash_booked D G E st d fee l b) = cb_ome b"
  "cb_reasons (cash_booked D G E st d fee l b) = cb_reasons b"
  "cb_credentials (cash_booked D G E st d fee l b) = cb_credentials b"
  "cb_accounts (cash_booked D G E st d fee l b) =
    AList.update (fd_account_id d) (booked_ledger D G E st d fee l b) (cb_accounts b)"
  by (simp_all add: cash_booked_def booked_ledger_def Let_def)

lemma apply_delta_Some:
  assumes "apply_delta_effects D G E st d now b = Some b'"
  shows "(map_of (cb_accounts b) (fd_account_id d) = None \<and> cb_accounts b' = cb_accounts b \<and>
      cb_positions b' = cb_positions b) \<or>
    (\<exists>l fee. map_of (cb_accounts b) (fd_account_id d) = Some l \<and>
      fill_fee D G st d (or_zero (checked_mul D (fd_price d) (fd_delta d))) = Some fee \<and>
      cb_accounts b' = AList.update (fd_account_id d) (booked_ledger D G E st d fee l b) (cb_accounts b) \<and>
      cb_positions b' = cb_positions (project_fill_delta D G E st d fee (fill_rebate D G st d) now
        (cash_booked D G E st d fee l b)))"
proof -
  obtain fee where fee: "fill_fee D G st d (or_zero (checked_mul D (fd_price d) (fd_delta d))) = Some fee"
    using assms by (auto simp: apply_delta_effects_def Let_def split: option.splits)
  show ?thesis
  proof (cases "map_of (cb_accounts b) (fd_account_id d)")
    case None
    then show ?thesis using assms fee by (simp add: apply_delta_effects_def Let_def) auto
  next
    case (Some l)
    have "b' = persist_applied_journal E (emit_fill E d (project_fill_delta D G E st d fee
        (fill_rebate D G st d) now (cash_booked D G E st d fee l b)))"
      using assms apply_delta_eq [OF fee Some, of E now] by simp
    then show ?thesis using fee Some by (intro disjI2 exI [of _ l] exI [of _ fee]) simp
  qed
qed

section \<open>The order's reservation\<close>

lemma settle_delta_held:
  "j \<noteq> fd_order_id d \<Longrightarrow> held (l_reservations (settle_delta E d n r fee reb l)) j = held (l_reservations l) j"
  by (auto simp: settle_delta_def settle_buy_fill_def settle_sell_fill_def charge_fee_def credit_cashflow_def
      credit_as_def Let_def split: side.splits)

lemma sync_held: "held (l_reservations (fst (sync_buy_reservation i n l))) j =
    (if j = i then max n 0 else held (l_reservations l) j)"
  by (auto simp: sync_buy_reservation_def take_reservation_def Let_def held_def)

lemma resync_ledger:
  assumes "apply_delta_effects D G E st d now b = Some b'" and "fd_side d = Buy"
    and "map_of (cb_accounts b) (fd_account_id d) = Some l"
  shows "\<exists>l'. map_of (cb_accounts b') (fd_account_id d) = Some l' \<and>
    (\<forall>j. held (l_reservations l') j =
      (if j = fd_order_id d then max (outstanding (cb_ome b) j) 0 else held (l_reservations l) j)) \<and>
    (\<forall>a. a \<noteq> fd_account_id d \<longrightarrow> map_of (cb_accounts b') a = map_of (cb_accounts b) a)"
  using apply_delta_Some [OF assms(1)] assms(2,3)
  by (auto simp: booked_ledger_def Let_def sync_held settle_delta_held)

text \<open>C11: after a buy fill, of any size and also when it is taken back, the order holds in its account's
  reservation exactly what it still commits (its limit price on what is left while it is live, nothing
  once it has ended), whatever was held before; no other reservation of the account and no other
  account's ledger changes.\<close>

theorem booking_resyncs_reservation:
  assumes "apply_delta_effects D G E st d now b = Some b'" and "fd_side d = Buy"
    and "map_of (cb_accounts b) (fd_account_id d) = Some l"
  shows "\<exists>l'. map_of (cb_accounts b') (fd_account_id d) = Some l' \<and>
    (\<forall>j. held (l_reservations l') j =
      (if j = fd_order_id d then max (outstanding (cb_ome b) j) 0 else held (l_reservations l) j)) \<and>
    (\<forall>a. a \<noteq> fd_account_id d \<longrightarrow> map_of (cb_accounts b') a = map_of (cb_accounts b) a)"
  by (rule resync_ledger [OF assms])

definition demo_delta :: fill_delta where
  "demo_delta = \<lparr>fd_order_id = ''o1'', fd_token_id = ''tok'', fd_account_id = default_account_id, fd_side = Buy,
     fd_delta = 4, fd_price = 1/2, fd_cumulative = 4, fd_strategy = ''strat'', fd_asset = ''btc'',
     fd_direction = ''up'', fd_condition_id = ''cond'', fd_round_slot = 7, fd_mode = PolTaker, fd_role = RoleTaker,
     fd_limit_price = 1/2, fd_trade_id = ''t1''\<rparr>"

lemma demo_delta_sel [simp]:
  "fd_order_id demo_delta = ''o1''" "fd_token_id demo_delta = ''tok''" "fd_account_id demo_delta = default_account_id"
  "fd_side demo_delta = Buy" "fd_delta demo_delta = 4" "fd_price demo_delta = 1/2" "fd_role demo_delta = RoleTaker"
  "fd_limit_price demo_delta = 1/2" "fd_trade_id demo_delta = ''t1''" "fd_strategy demo_delta = ''strat''"
  by (simp_all add: demo_delta_def)

lemma demo_fee: "fill_fee exact_dec demo_config None demo_delta 2 = Some (1/32)"
  by (simp add: fill_fee_def is_maker_def live_taker_fee_pct_def may_charge_def demo_config_def active_schedule_def
      fee_pct_def fee_per_share_def legacy_quadratic_schedule_def or_zero_def numeral_2_eq_2 Let_def)

theorem booking_resyncs_reservation_witness:
  "\<exists>b' l'. apply_delta_effects exact_dec demo_config demo_env None demo_delta 5
      (demo_core (sample_ome 4) fresh_manager) = Some b' \<and>
    map_of (cb_accounts b') default_account_id = Some l' \<and> held (l_reservations l') ''o1'' = 3"
proof -
  let ?b = "demo_core (sample_ome 4) fresh_manager"
  have l: "map_of (cb_accounts ?b) (fd_account_id demo_delta) = Some (ledger_new\<lparr>l_balance := 100\<rparr>)" by simp
  obtain b' where b': "apply_delta_effects exact_dec demo_config demo_env None demo_delta 5 ?b = Some b'"
    using apply_delta_eq [OF _ l, of exact_dec demo_config None "1/32" demo_env 5] demo_fee
    by (auto simp: or_zero_def)
  have "outstanding (cb_ome ?b) ''o1'' = 3"
    by (simp add: outstanding_def ome_get_def remaining_def sample_row_def fresh_order_def sample_params_def
        sample_request_def)
  then show ?thesis using booking_resyncs_reservation [OF b' _ l] b' by auto
qed


section \<open>Accounts stay apart\<close>

definition rows_of_account :: "account_id \<Rightarrow> position_manager \<Rightarrow> open_position list" where
  "rows_of_account a m = filter (\<lambda>p. p_account_id p = a) (pm_open m)"

text \<open>Every row under an identifier belongs to the account.\<close>

definition owned :: "string \<Rightarrow> account_id \<Rightarrow> position_manager \<Rightarrow> bool" where
  "owned i acct m \<longleftrightarrow> (\<forall>p \<in> set (pm_open m). p_id p = i \<longrightarrow> p_account_id p = acct)"

lemma filter_update_first:
  "(\<forall>x \<in> set xs. P x \<longrightarrow> \<not> Q x \<and> \<not> Q (f x)) \<Longrightarrow> filter Q (update_first P f xs) = filter Q xs"
  by (induction xs) auto

lemma filter_remove_first: "(\<forall>x \<in> set xs. P x \<longrightarrow> \<not> Q x) \<Longrightarrow> filter Q (remove_first P xs) = filter Q xs"
  by (induction xs) auto

lemma update_keeps_others:
  assumes "owned i acct m" and "a \<noteq> acct" and "\<And>p. p_account_id (f p) = p_account_id p"
    and "\<And>p. p_id (f p) = p_id p"
  shows "rows_of_account a (update_open i f m) = rows_of_account a m \<and> owned i acct (update_open i f m)"
proof -
  have "\<forall>p \<in> set (pm_open (update_open i f m)). p_id p = i \<longrightarrow> p_account_id p = acct"
    using assms(1) unfolding owned_def update_open_def by (simp, intro all_update_first) (auto simp: assms(3,4))
  then show ?thesis
    using assms by (auto simp: rows_of_account_def owned_def update_open_def intro!: filter_update_first)
qed

lemma fill_rows_account [simp]:
  "p_account_id (entry_fill_row D sh pr fee r p) = p_account_id p"
  "p_account_id (exit_fill_row D sh pr fee r reb p) = p_account_id p"
  "p_account_id (rebate_row reb p) = p_account_id p"
  by (simp_all add: entry_fill_row_def refresh_view_def exit_fill_row_def rebate_row_def Let_def)

lemma drop_keeps_others:
  assumes "owned i acct m" and "a \<noteq> acct"
  shows "rows_of_account a (fst (drop_if_empty i m)) = rows_of_account a m"
  using assms by (auto simp: drop_if_empty_def rows_of_account_def owned_def Let_def split: option.splits
      intro!: filter_remove_first)

lemma entry_keeps_others:
  assumes "owned i acct m" and "a \<noteq> acct"
    and "m1 = fst (apply_entry_fill D i sh pr fee r m)"
    and "m2 = (if reb \<noteq> 0 then accrue_maker_rebate i reb m1 else m1)"
  shows "rows_of_account a (fst (drop_if_empty i m2)) = rows_of_account a m"
proof -
  have 1: "rows_of_account a m1 = rows_of_account a m \<and> owned i acct m1"
    unfolding assms(3) apply_entry_fill_def Let_def fst_conv
    by (rule update_keeps_others [OF assms(1,2)]) simp_all
  have "rows_of_account a m2 = rows_of_account a m1 \<and> owned i acct m2"
    using 1 update_keeps_others [OF _ assms(2), of i m1 "rebate_row reb"]
    by (auto simp: assms(4) accrue_maker_rebate_def)
  with 1 drop_keeps_others [OF _ assms(2), of i m2] show ?thesis by simp
qed

lemma find_holding_owned:
  assumes "distinct (map p_id (pm_open m))" and "find_holding t acct m = Some p"
  shows "owned (p_id p) acct m"
proof -
  have p: "p \<in> set (pm_open m)" "p_account_id p = acct"
    using assms(2) by (auto simp: find_holding_def dest: find_Some_prop)
  show ?thesis
    unfolding owned_def using inj_onD [OF assms(1) [unfolded distinct_map, THEN conjunct2] _ _ p(1)] p(2) by blast
qed

lemma buy_keeps_others:
  assumes "distinct (map p_id (pm_open (cb_positions b)))" and "ids_below (set (map p_id (pm_open (cb_positions b)))) (cb_positions b)"
    and "pm_next_id (cb_positions b) < 2 ^ 64" and "a \<noteq> fd_account_id d"
  shows "rows_of_account a (cb_positions (project_buy D G E d fee reb now b)) = rows_of_account a (cb_positions b)"
proof (cases "find_holding (fd_token_id d) (fd_account_id d) (cb_positions b)")
  case (Some p)
  note entry_keeps_others [OF find_holding_owned [OF assms(1) Some] assms(4) refl refl]
  then show ?thesis unfolding project_buy_def Some option.case Let_def split_beta prod.sel persist_sel by simp
next
  case None
  let ?b = "fst (open_for_fill G E d now b)" and ?i = "snd (open_for_fill G E d now b)"
  have fresh: "\<forall>p \<in> set (pm_open (cb_positions b)). p_id p \<noteq> ?i"
    using assms(2) hft_number_minted [OF assms(3)] unfolding ids_below_def by fastforce
  have "owned ?i (fd_account_id d) (cb_positions ?b)"
    and "rows_of_account a (cb_positions ?b) = rows_of_account a (cb_positions b)"
    using fresh assms(4) by (auto simp: owned_def rows_of_account_def open_pm_def entry_params_def Let_def)
  with entry_keeps_others [OF this(1) assms(4) refl refl] show ?thesis
    unfolding project_buy_def None option.case Let_def split_beta persist_sel by simp
qed

lemma close_keeps_others:
  assumes "owned i acct m" and "a \<noteq> acct"
  shows "rows_of_account a (fst (close_pm D st i pr rs mk now src m)) = rows_of_account a m"
proof (cases "find_open i m")
  case None
  then show ?thesis by (simp add: close_pm_def)
next
  case (Some p)
  show ?thesis
    using assms unfolding rows_of_account_def owned_def close_pm_Some(2) [OF Some refl refl]
    by (auto intro!: filter_remove_first)
qed


lemma rows_trips [simp]: "rows_of_account a (fst (take_daily_trips D m)) = rows_of_account a m"
  by (simp add: rows_of_account_def frame_simps)

lemma close_by_fill_keeps_others:
  assumes "owned pid acct (cb_positions b)" and "a \<noteq> acct"
  shows "rows_of_account a (cb_positions (close_by_fill D G E st d pid pre now b)) = rows_of_account a (cb_positions b)"
proof (cases "find_open pid (cb_positions b)")
  case None
  then show ?thesis by (simp add: close_by_fill_def close_pm_def split_beta)
next
  case (Some p)
  obtain r where "cb_positions (close_by_fill D G E st d pid pre now b) = fst (take_daily_trips D
      (fst (close_pm D st pid (fd_price d) r (is_maker (fd_role d)) now ''venue'' (cb_positions b))))"
    using close_by_fill_positions [OF Some] by blast
  then show ?thesis using close_keeps_others [OF assms] by simp
qed

lemma reverse_keeps_others:
  assumes "a \<noteq> fd_account_id d"
  shows "rows_of_account a (cb_positions (reverse_closed D E d now b)) = rows_of_account a (cb_positions b)"
proof (cases "List.find (credential_for d) (cb_credentials b)")
  case (Some c)
  then have "p_account_id (cc_restored (snd c)) = fd_account_id d"
    by (auto simp: credential_for_def dest: find_Some_prop)
  then show ?thesis
    using assms Some by (auto simp: reverse_closed_def Let_def split_beta restore_closed_def rows_of_account_def frame_simps)
qed (simp add: reverse_closed_def)

lemma sell_keeps_others:
  assumes "distinct (map p_id (pm_open (cb_positions b)))" and "a \<noteq> fd_account_id d"
  shows "rows_of_account a (cb_positions (project_sell D G E st d fee reb now b)) = rows_of_account a (cb_positions b)"
proof (cases "find_holding (fd_token_id d) (fd_account_id d) (cb_positions b)")
  case None
  then show ?thesis using reverse_keeps_others [OF assms(2)] by (simp add: project_sell_def)
next
  case (Some p)
  let ?f = "exit_fill_row D (fd_delta d) (fd_price d) fee (fd_role d) reb"
  let ?b = "b\<lparr>cb_positions := update_open (p_id p) ?f (cb_positions b)\<rparr>"
  have u: "rows_of_account a (cb_positions ?b) = rows_of_account a (cb_positions b)"
    and o: "owned (p_id p) (fd_account_id d) (cb_positions ?b)"
    using update_keeps_others [OF find_holding_owned [OF assms(1) Some] assms(2), of ?f] by simp_all
  have c: "rows_of_account a (cb_positions (close_by_fill D G E st d (p_id p) pre now ?b)) = rows_of_account a (cb_positions ?b)"
    for pre by (rule close_by_fill_keeps_others [OF o assms(2)])
  show ?thesis
    unfolding project_sell_def Some option.case Let_def apply_exit_fill_def prod.case
    using u c by (simp split: option.split)
qed

text \<open>C10: two accounts that hold the same token stay apart. Booking a fill or a rollback of one account
  changes neither the ledger nor any open row of another, in a book whose identifiers are distinct and
  below the counter.\<close>

theorem booking_stays_in_its_account:
  assumes "apply_delta_effects D G E st d now b = Some b'" and "a \<noteq> fd_account_id d"
    and "distinct (map p_id (pm_open (cb_positions b)))"
    and "ids_below (set (map p_id (pm_open (cb_positions b)))) (cb_positions b)"
    and "pm_next_id (cb_positions b) < 2 ^ 64"
  shows "map_of (cb_accounts b') a = map_of (cb_accounts b) a \<and>
    filter (\<lambda>p. p_account_id p = a) (pm_open (cb_positions b')) =
      filter (\<lambda>p. p_account_id p = a) (pm_open (cb_positions b))"
proof -
  have keep: "rows_of_account a (cb_positions (project_fill_delta D G E st d fee reb now b1)) =
      rows_of_account a (cb_positions b)" if "cb_positions b1 = cb_positions b" for fee reb b1
    using buy_keeps_others [of _ a d D G E fee reb now] sell_keeps_others [of _ a d D G E st fee reb now] assms(2-5) that
    by (simp add: project_fill_delta_def Let_def split: side.split)
  show ?thesis
    using apply_delta_Some [OF assms(1)] assms(2) keep by (auto simp: rows_of_account_def)
qed


definition account_beside :: core_books where
  "account_beside = demo_core (sample_ome 4) (fresh_manager\<lparr>pm_open := [demo_row], pm_next_id := 5\<rparr>)"

lemma demo_applies:
  assumes "cb_accounts b = [(default_account_id, ledger_new\<lparr>l_balance := 100\<rparr>)]"
  shows "\<exists>b'. apply_delta_effects exact_dec demo_config demo_env None demo_delta now b = Some b'"
  using apply_delta_eq [where b = b and d = demo_delta and D = exact_dec and G = demo_config and st = None and fee = "1/32"]
    demo_fee assms by (simp add: or_zero_def)

theorem booking_stays_in_its_account_witness:
  "\<exists>b'. apply_delta_effects exact_dec demo_config demo_env None demo_delta 5 account_beside = Some b' \<and>
    filter (\<lambda>p. p_account_id p = AccountId ''a'') (pm_open (cb_positions b')) = [demo_row]"
proof -
  obtain b' where b': "apply_delta_effects exact_dec demo_config demo_env None demo_delta 5 account_beside = Some b'"
    using demo_applies [of account_beside] by (auto simp: account_beside_def)
  have "hft_number ''hft-4'' = Some 4"
    using hft_number_minted [of 4] by (simp add: hft_prefix_def nat_str.simps [of 4] digit_char_def)
  then show ?thesis
    using booking_stays_in_its_account [OF b', of "AccountId ''a''"] b'
    by (auto simp: account_beside_def ids_below_def default_account_id_def demo_row_def)
qed

section \<open>An entry that is taken back\<close>

lemma remove_first_last: "(\<forall>x \<in> set xs. \<not> P x) \<Longrightarrow> P y \<Longrightarrow> remove_first P (xs @ [y]) = xs"
  by (induction xs) auto

lemma update_first_snoc: "(\<forall>x \<in> set xs. \<not> P x) \<Longrightarrow> P y \<Longrightarrow> update_first P f (xs @ [y]) = xs @ [f y]"
  by (induction xs) auto

text \<open>A fill on a token the account does not hold opens a row at the end of the book; the reversal
  empties the row, and it goes.\<close>

lemma drop_by_shares: "(\<forall>p \<in> set (pm_open m). 0 < p_shares p) \<Longrightarrow> drop_if_empty i m = (m, False)"
proof -
  assume "\<forall>p \<in> set (pm_open m). 0 < p_shares p"
  then have "List.find (\<lambda>p. p_id p = i \<and> p_shares p \<le> 0 \<and> p_cost_usd p = 0) (pm_open m) = None"
    unfolding find_None_all by (meson not_le)
  then show ?thesis by (simp add: drop_if_empty_def)
qed

lemma first_entry:
  assumes "sound_rows (cb_positions b)" and "pm_next_id (cb_positions b) < 2 ^ 64"
    and "find_holding (fd_token_id d) (fd_account_id d) (cb_positions b) = None" and "0 < fd_delta d" "0 \<le> fd_price d"
  shows "\<exists>p. pm_open (cb_positions (project_buy D G E d fee reb now b)) = pm_open (cb_positions b) @ [p] \<and>
    pm_closed (cb_positions (project_buy D G E d fee reb now b)) = pm_closed (cb_positions b) \<and>
    p_shares p = fd_delta d \<and> p_cost_usd p = fd_price d * fd_delta d \<and>
    p_token_id p = fd_token_id d \<and> p_account_id p = fd_account_id d"
proof -
  let ?xs = "pm_open (cb_positions b)"
  obtain eff where eff: "cb_positions (fst (open_for_fill G E d now b)) =
      fst (open_pm (entry_params E d eff now) now (cb_positions b))"
    using open_for_fill_sel(2) [of G E d now b] by blast
  define o1 where "o1 = entry_params E d eff now"
  have o1: "cb_positions (fst (open_for_fill G E d now b)) = fst (open_pm o1 now (cb_positions b))"
    "opn_token_id o1 = fd_token_id d" "opn_account_id o1 = fd_account_id d"
    using eff by (simp_all add: o1_def entry_params_def)
  let ?i = "hft_prefix @ nat_str (pm_next_id (cb_positions b))" and ?p = "snd (open_pm o1 now (cb_positions b))"
  have i: "\<forall>p \<in> set ?xs. p_id p \<noteq> ?i"
    using assms(1) hft_number_minted [OF assms(2)] unfolding sound_rows_def ids_below_def by fastforce
  have p: "p_id ?p = ?i" "p_token_id ?p = fd_token_id d" "p_account_id ?p = fd_account_id d" "p_shares ?p = 0" "p_cost_usd ?p = 0"
    and open1: "pm_open (fst (open_pm o1 now (cb_positions b))) = ?xs @ [?p]"
    and closed1: "pm_closed (fst (open_pm o1 now (cb_positions b))) = pm_closed (cb_positions b)"
    using o1 by (simp_all add: open_pm_def Let_def)
  let ?q = "entry_fill_row D (fd_delta d) (fd_price d) fee (fd_role d) ?p"
  let ?r = "if reb \<noteq> 0 then rebate_row reb ?q else ?q"
  let ?m1 = "fst (apply_entry_fill D ?i (fd_delta d) (fd_price d) fee (fd_role d) (fst (open_pm o1 now (cb_positions b))))"
  let ?m2 = "if reb \<noteq> 0 then accrue_maker_rebate ?i reb ?m1 else ?m1"
  have "pm_open ?m1 = ?xs @ [?q]"
    unfolding apply_entry_fill_def Let_def fst_conv update_open_def using i p(1) open1 by (simp add: update_first_snoc)
  then have m2: "pm_open ?m2 = ?xs @ [?r]" "pm_closed ?m2 = pm_closed (cb_positions b)"
    using i p(1) closed1 by (auto simp: accrue_maker_rebate_def update_open_def update_first_snoc apply_entry_fill_def Let_def)
  have r: "p_shares ?r = fd_delta d" "p_cost_usd ?r = fd_price d * fd_delta d" "p_token_id ?r = fd_token_id d"
    "p_account_id ?r = fd_account_id d"
    using p assms(4,5) by (simp_all add: entry_fill_row_def refresh_view_def rebate_row_def Let_def)
  have "\<forall>q \<in> set (pm_open ?m2). 0 < p_shares q"
    using assms(1,4) r(1) unfolding m2 sound_rows_def sound_row_def by (auto split del: if_split)
  then have "drop_if_empty ?i ?m2 = (?m2, False)" by (rule drop_by_shares)
  then have "cb_positions (project_buy D G E d fee reb now b) = ?m2"
    unfolding project_buy_def assms(3) option.case Let_def split_beta persist_sel open_for_fill_sel(3) o1(1)
    by simp
  then show ?thesis using m2 r by auto
qed

lemma entry_reversed:
  assumes "pm_open (cb_positions b) = xs @ [p]" and "distinct (map p_id (xs @ [p]))"
    and "\<forall>x \<in> set xs. \<not> (p_token_id x = fd_token_id d \<and> p_account_id x = fd_account_id d)"
    and "p_token_id p = fd_token_id d" "p_account_id p = fd_account_id d"
    and "p_shares p = - fd_delta d" "p_cost_usd p = fd_price d * (- fd_delta d)"
  shows "pm_open (cb_positions (project_buy D G E d fee 0 now b)) = xs"
    and "pm_closed (cb_positions (project_buy D G E d fee 0 now b)) = pm_closed (cb_positions b)"
proof -
  let ?f = "entry_fill_row D (fd_delta d) (fd_price d) fee (fd_role d)"
  have h: "find_holding (fd_token_id d) (fd_account_id d) (cb_positions b) = Some p"
    using assms(1,3-5) by (auto simp: find_holding_def find_append find_None_all split: option.splits dest: find_Some_prop)
  have "p_id p \<notin> p_id ` set xs" using assms(2) by simp
  then have i: "\<forall>x \<in> set xs. p_id x \<noteq> p_id p" by (metis imageI)
  have f: "p_shares (?f p) = 0" "p_cost_usd (?f p) = 0"
    using assms(6,7) by (simp_all add: entry_fill_row_def refresh_view_def Let_def)
  let ?m = "update_open (p_id p) ?f (cb_positions b)"
  have m: "pm_open ?m = xs @ [?f p]" using assms(1) i by (simp add: update_open_def update_first_snoc)
  have "List.find (\<lambda>q. p_id q = p_id p \<and> p_shares q \<le> 0 \<and> p_cost_usd q = 0) (pm_open ?m) = Some (?f p)"
    using i f unfolding m by (auto simp: find_append find_None_all split: option.splits dest: find_Some_prop)
  then have d: "fst (drop_if_empty (p_id p) ?m) = ?m\<lparr>pm_open := xs\<rparr>"
    using i f unfolding drop_if_empty_def Let_def m by (simp add: remove_first_last)
  have "cb_positions (project_buy D G E d fee 0 now b) = ?m\<lparr>pm_open := xs\<rparr>"
    unfolding project_buy_def h option.case Let_def split_beta persist_sel apply_entry_fill_def fst_conv using d by simp
  then show "pm_open (cb_positions (project_buy D G E d fee 0 now b)) = xs"
    and "pm_closed (cb_positions (project_buy D G E d fee 0 now b)) = pm_closed (cb_positions b)"
    by (simp_all add: update_open_def)
qed


lemma project_side:
  obtains b2 where "cb_positions b2 = cb_positions b" "cb_credentials b2 = cb_credentials b"
    "cb_reasons b2 = cb_reasons b" "cb_accounting b2 = cb_accounting b" "cb_ome b2 = cb_ome b"
    "cb_breaker b2 = cb_breaker b"
    "project_fill_delta D G E st d fee reb now b = (case fd_side d of
       Buy \<Rightarrow> project_buy D G E d fee reb now b2 | Sell \<Rightarrow> project_sell D G E st d fee reb now b2)"
proof
  let ?b = "(mark_positions_dirty G b)\<lparr>cb_fast := (cb_fast (mark_positions_dirty G b))
    \<lparr>fp_dirty_tokens := insert (fd_token_id d) (fp_dirty_tokens (cb_fast (mark_positions_dirty G b)))\<rparr>\<rparr>"
  show "project_fill_delta D G E st d fee reb now b = (case fd_side d of
       Buy \<Rightarrow> project_buy D G E d fee reb now ?b | Sell \<Rightarrow> project_sell D G E st d fee reb now ?b)"
    unfolding project_fill_delta_def Let_def by (rule refl)
qed simp_all

text \<open>A reversal moves the notional back, nothing else.\<close>

lemma reversal_fee: "fd_delta d \<le> 0 \<Longrightarrow> fill_fee D G st d n = Some 0 \<and> fill_rebate D G st d = 0"
  by (simp add: fill_fee_def fill_rebate_def)

lemma reversed_balance:
  assumes "fd_delta d \<le> 0" and "checked_mul D (fd_price d) (fd_delta d) = Some n"
  shows "l_balance (booked_ledger D G E st d fee l b) =
    max (l_balance l + (case fd_side d of Buy \<Rightarrow> - n | Sell \<Rightarrow> n)) 0"
  using assms by (cases "fd_side d") (simp_all add: booked_ledger_def Let_def settle_delta_def or_zero_def
    settle_sell_fill_def settle_buy_balance)

lemma clean_balance:
  assumes "clean_fill D G st b d" and "map_of (cb_accounts b) (fd_account_id d) = Some l"
    and "fill_fee D G st d (fd_price d * fd_delta d) = Some fee"
  shows "l_balance (booked_ledger D G E st d fee l c) = l_balance l + fill_cash d fee (fill_rebate D G st d)"
    and "0 \<le> l_balance l" "0 \<le> fee" "0 \<le> fill_rebate D G st d" "0 < fd_delta d" "0 \<le> fd_price d"
    and "or_zero (checked_mul D (fd_price d) (fd_delta d)) = fd_price d * fd_delta d"
proof -
  note c = assms(1) [unfolded clean_fill_def assms(2,3) option.case prod.case]
  show "0 \<le> l_balance l" "0 \<le> fee" "0 \<le> fill_rebate D G st d" "0 < fd_delta d" "0 \<le> fd_price d"
    and n: "or_zero (checked_mul D (fd_price d) (fd_delta d)) = fd_price d * fd_delta d"
    using c by (simp_all add: or_zero_def)
  have "l_balance (settle_delta E d (fd_price d * fd_delta d) rel fee (fill_rebate D G st d) l) =
      l_balance l + fill_cash d fee (fill_rebate D G st d)" for rel
    using c by (intro settle_delta_balance) (auto split: side.splits option.splits)
  then show "l_balance (booked_ledger D G E st d fee l c) = l_balance l + fill_cash d fee (fill_rebate D G st d)"
    by (simp add: booked_ledger_def Let_def n)
qed

lemma total_cash_update:
  "cb_accounts b' = AList.update a l' (cb_accounts b) \<Longrightarrow> map_of (cb_accounts b) a = Some l \<Longrightarrow>
    total_cash b' = total_cash b - l_balance l + l_balance l'"
  using total_cash_put by (simp add: total_cash_def)

text \<open>An entry the venue takes back keeps its fee. The fill that opens a position and its FAILED
  reversal leave the position book as it was, but the account is short of the fee the fill was charged
  (and richer by its rebate), and no record of the books says so: the reversal refunds the notional
  only, and dropping the emptied row forgets the fee it carried.\<close>

theorem rolled_back_entry_keeps_its_fee:
  assumes "sound_rows (cb_positions b)" and "clean_fill D G st b d" and "fd_side d = Buy"
    and "find_holding (fd_token_id d) (fd_account_id d) (cb_positions b) = None"
    and "fill_fee D G st d (fd_price d * fd_delta d) = Some fee" and "d' = d\<lparr>fd_delta := - fd_delta d\<rparr>"
    and "checked_mul D (fd_price d) (- fd_delta d) = Some (- (fd_price d * fd_delta d))"
    and "apply_delta_effects D G E st d now b = Some b1" and "apply_delta_effects D G E' st d' now' b1 = Some b2"
  shows "pm_open (cb_positions b2) = pm_open (cb_positions b) \<and>
    pm_closed (cb_positions b2) = pm_closed (cb_positions b) \<and>
    total_cash b2 = total_cash b - fee + fill_rebate D G st d"
proof -
  obtain l where l: "map_of (cb_accounts b) (fd_account_id d) = Some l"
    using assms(2) by (auto simp: clean_fill_def split: option.splits)
  note c = clean_balance [OF assms(2) l assms(5)]
  have next64: "pm_next_id (cb_positions b) < 2 ^ 64"
    using assms(2,3,5) l by (auto simp: clean_fill_def)
  let ?l1 = "booked_ledger D G E st d fee l b"
  have 1: "cb_accounts b1 = AList.update (fd_account_id d) ?l1 (cb_accounts b)"
    "cb_positions b1 = cb_positions (project_fill_delta D G E st d fee (fill_rebate D G st d) now
        (cash_booked D G E st d fee l b))"
    using apply_delta_Some [OF assms(8)] l assms(5) c(7) by auto
  obtain c1 where c1: "cb_positions c1 = cb_positions b"
    "cb_positions b1 = cb_positions (project_buy D G E d fee (fill_rebate D G st d) now c1)"
    using project_side [of "cash_booked D G E st d fee l b" D G E st d fee "fill_rebate D G st d" now] 1(2) assms(3)
    by (metis cash_booked_sel(1) side.case(1))
  obtain p where p: "pm_open (cb_positions b1) = pm_open (cb_positions b) @ [p]"
    "pm_closed (cb_positions b1) = pm_closed (cb_positions b)" "p_shares p = fd_delta d"
    "p_cost_usd p = fd_price d * fd_delta d" "p_token_id p = fd_token_id d" "p_account_id p = fd_account_id d"
    using first_entry [of c1 d D G E fee "fill_rebate D G st d" now] assms(1,4) next64 c(5,6) c1 by auto
  have "sound_rows (cb_positions b1)"
    using buy_books(2) [of c1 d fee "fill_rebate D G st d" D G E now] assms(1) next64 c(3-6) c1 by simp
  then have ids: "distinct (map p_id (pm_open (cb_positions b) @ [p]))" by (simp add: sound_rows_def flip: p(1))
  have d': "fd_side d' = Buy" "fd_token_id d' = fd_token_id d" "fd_account_id d' = fd_account_id d"
    "fd_price d' = fd_price d" "fd_delta d' = - fd_delta d" using assms(3,6) by simp_all
  have neg: "fd_delta d' \<le> 0" using c(5) by (simp add: d')
  note z = reversal_fee [OF neg, of D G st]
  let ?l2 = "booked_ledger D G E' st d' 0 ?l1 b1"
  have 2: "cb_accounts b2 = AList.update (fd_account_id d) ?l2 (cb_accounts b1)"
    "cb_positions b2 = cb_positions (project_fill_delta D G E' st d' 0 0 now' (cash_booked D G E' st d' 0 ?l1 b1))"
    using apply_delta_Some [OF assms(9)] 1(1) z by (auto simp: d')
  obtain c2 where c2: "cb_positions c2 = cb_positions b1"
    "cb_positions b2 = cb_positions (project_buy D G E' d' 0 0 now' c2)"
    using project_side [of "cash_booked D G E' st d' 0 ?l1 b1" D G E' st d' 0 0 now'] 2(2) d'(1)
    by (metis cash_booked_sel(1) side.case(1))
  have "\<forall>x \<in> set (pm_open (cb_positions b)). \<not> (p_token_id x = fd_token_id d' \<and> p_account_id x = fd_account_id d')"
    using assms(4) by (auto simp: find_holding_def find_None_all d')
  note r = entry_reversed [OF _ ids this, of c2 D G E' 0 now']
  have "l_balance ?l2 = max (l_balance ?l1 + fd_price d * fd_delta d) 0"
    using reversed_balance [OF neg, of D "- (fd_price d * fd_delta d)" G E' st 0 ?l1 b1] assms(7) by (simp add: d')
  moreover have "l_balance ?l1 + fd_price d * fd_delta d = l_balance l - fee + fill_rebate D G st d"
    using c(1) [of E b] assms(3) by (simp add: fill_cash_def)
  moreover have "fee \<le> l_balance l"
  proof -
    have "fd_price d * fd_delta d + fee \<le> l_balance l" using assms(2,3,5) l by (auto simp: clean_fill_def)
    moreover have "0 \<le> fd_price d * fd_delta d" using c(5,6) by simp
    ultimately show ?thesis by linarith
  qed
  ultimately have "l_balance ?l2 = l_balance l - fee + fill_rebate D G st d" using c(4) by simp
  then have "total_cash b2 = total_cash b - fee + fill_rebate D G st d"
    using total_cash_update [OF 1(1) l] total_cash_update [OF 2(1), of ?l1] 1(1) by simp
  then show ?thesis using r p c2 by (simp add: d')
qed


lemma fresh_rows [simp]: "pm_open fresh_manager = []" "pm_closed fresh_manager = []" "pm_next_id fresh_manager = 1"
  by (simp_all add: fresh_manager_def manager_new_def)

definition demo_reversal :: fill_delta where
  "demo_reversal = demo_delta\<lparr>fd_delta := - fd_delta demo_delta\<rparr>"

lemma demo_clean: "clean_fill exact_dec demo_config None (demo_core s fresh_manager) demo_delta"
  using demo_fee by (simp add: clean_fill_def fill_rebate_def is_maker_def ledger_new_def fresh_manager_def manager_new_def)

theorem rolled_back_entry_keeps_its_fee_witness:
  "\<exists>b1 b2. apply_delta_effects exact_dec demo_config demo_env None demo_delta 5
      (demo_core (sample_ome 4) fresh_manager) = Some b1 \<and>
    apply_delta_effects exact_dec demo_config demo_env None demo_reversal 6 b1 = Some b2 \<and>
    pm_open (cb_positions b2) = [] \<and> total_cash b2 = 100 - 1/32"
proof -
  let ?b = "demo_core (sample_ome 4) fresh_manager"
  obtain b1 where b1: "apply_delta_effects exact_dec demo_config demo_env None demo_delta 5 ?b = Some b1"
    using demo_applies [of ?b] by auto
  obtain l where "map_of (cb_accounts b1) default_account_id = Some l"
    using resync_ledger [OF b1] by auto
  then obtain b2 where b2: "apply_delta_effects exact_dec demo_config demo_env None demo_reversal 6 b1 = Some b2"
    using apply_delta_eq [where b = b1 and d = demo_reversal and l = l] reversal_fee [of demo_reversal]
    by (auto simp: demo_reversal_def)
  have "find_holding (fd_token_id demo_delta) (fd_account_id demo_delta) (cb_positions ?b) = None"
    by (simp add: find_holding_def fresh_manager_def manager_new_def)
  note keep = rolled_back_entry_keeps_its_fee [OF _ demo_clean _ this _ demo_reversal_def _ b1 b2, of "1/32"]
  have "pm_open (cb_positions b2) = [] \<and> total_cash b2 = total_cash ?b - 1/32"
    using keep demo_fee sound_fresh fresh_rows by (simp add: fill_rebate_def is_maker_def)
  moreover have "total_cash ?b = 100" by (simp add: total_cash_def)
  ultimately show ?thesis using b1 b2 by auto
qed

end
