(* ===== verification/BookingCloses.thy ===== *)
theory BookingCloses
  imports BookingRollback
begin

text \<open>
  Closes by fill, the records they write and the credentials that let a FAILED trade take a close
  back, now or after a restart.
\<close>

section \<open>A sell that closes\<close>

text \<open>The remainder it leaves cannot be sold, so the position ends with it.\<close>

definition ends_position :: "dec_ops \<Rightarrow> fill_delta \<Rightarrow> open_position \<Rightarrow> bool" where
  "ends_position D d p \<longleftrightarrow> (let left = p_shares p - fd_delta d in left \<le> 0 \<or> floor_to_grid D left = 0)"

lemma events_grow:
  "set (cb_events b) \<subseteq> set (cb_events (emit e b))"
  "set (cb_events b) \<subseteq> set (cb_events (emit_daily_trip D G b))"
  "set (cb_events b) \<subseteq> set (cb_events (record_streaks G c now b))"
  "set (cb_events b) \<subseteq> set (cb_events (emit_fill E d b))"
  "set (cb_events b) \<subseteq> set (cb_events (persist_applied_journal E b))"
  by (auto simp: emit_daily_trip_def fold_emit record_streaks_def emit_fill_def persist_order_def
      persist_applied_journal_def Let_def split: prod.splits option.splits)

lemma closed_event: "\<exists>v. EvPositionClosed c v \<in> set (cb_events (on_position_closed D G E c now b))"
proof -
  have "\<exists>b1 v. on_position_closed D G E c now b = emit_daily_trip D G (record_streaks G c now b1) \<and>
      EvPositionClosed c v \<in> set (cb_events b1)"
    unfolding on_position_closed_def Let_def split_beta
    by (rule exI, rule exI [of _ "daily_pnl_for (as_str (c_account_id c)) (cb_positions b)"], rule conjI, rule refl) simp
  then show ?thesis using events_grow(2,3) by (metis subsetD)
qed

lemma persist_credential_log [simp]: "cb_accounting (persist_applied_journal E b) = cb_accounting b"
  "cb_accounting (emit_fill E d b) = cb_accounting b"
  by (simp_all add: persist_applied_journal_def emit_fill_def persist_order_def Let_def split: prod.splits option.splits)

lemma accounting_sel [simp]:
  "cb_accounting (feed_pair_book d b) = cb_accounting b" "cb_accounting (wake_replay G b) = cb_accounting b"
  "cb_accounting (release_hold d r b) = cb_accounting b" "cb_accounting (put_ledger a l b) = cb_accounting b"
  "cb_accounting (cash_booked D G E st d fee l b) = cb_accounting b"
  "cb_accounting (on_position_closed D G E c now b) = cb_accounting (book_accounting D c b)"
  by (simp_all add: feed_pair_book_def wake_replay_def release_hold_def put_ledger_def cash_booked_def
      on_position_closed_def book_accounting_def accounting_of_def mark_positions_dirty_def Let_def
      split: option.splits prod.splits)

lemma push_credentials:
  "t \<noteq> [] \<Longrightarrow> length (cb_credentials b) < CREDENTIAL_CAP \<Longrightarrow>
    cb_credentials (push_close_credential E t c b) = cb_credentials b @ [(t, c)]"
  by (cases "cb_credentials b") (simp_all add: push_close_credential_def Let_def)

lemma book_accounting_cong:
  "cb_accounting b = cb_accounting c \<Longrightarrow> cb_accounting (book_accounting D r b) = cb_accounting (book_accounting D r c)"
  by (simp add: book_accounting_def accounting_of_def Let_def split: prod.splits)

lemma accounting_of_cong: "cb_accounting b = cb_accounting c \<Longrightarrow> accounting_of key b = accounting_of key c"
  by (simp add: accounting_of_def)

lemma sell_ends:
  assumes "find_holding (fd_token_id d) (fd_account_id d) (cb_positions b) = Some p"
    and "find_open (p_id p) (cb_positions b) = Some p" and "0 < fd_delta d" and "fd_delta d \<le> p_shares p"
    and "ends_position D d p"
  shows "project_sell D G E st d fee reb now b = close_by_fill D G E st d (p_id p) (Some p) now
    (b\<lparr>cb_positions := update_open (p_id p) (exit_fill_row D (fd_delta d) (fd_price d) fee (fd_role d) reb)
       (cb_positions b)\<rparr>)"
proof -
  have "p_shares (exit_fill_row D (fd_delta d) (fd_price d) fee (fd_role d) reb p) = p_shares p - fd_delta d"
    using assms(4) by (simp add: exit_fill_row_def Let_def)
  then show ?thesis
    using assms(2,3,5) unfolding project_sell_def assms(1) option.case Let_def apply_exit_fill_def prod.case ends_position_def
    by (simp add: Let_def)
qed

lemma closed_record_sel [simp]:
  "c_account_id (closed_record D s p pr rs mk now src) = p_account_id p"
  "c_token_id (closed_record D s p pr rs mk now src) = p_token_id p"
  "c_exit_reason (closed_record D s p pr rs mk now src) = rs"
  "c_id (closed_record D s p pr rs mk now src) = p_id p"
  "c_strategy (closed_record D s p pr rs mk now src) = p_strategy p"
  by (simp_all add: closed_record_def Let_def)

lemma exit_row_sel [simp]:
  "p_token_id (exit_fill_row D sh pr fee r reb p) = p_token_id p"
  "p_strategy (exit_fill_row D sh pr fee r reb p) = p_strategy p"
  by (simp_all add: exit_fill_row_def Let_def)

text \<open>What the last fill of a position does: one record, the row gone, a credential on file.\<close>

lemma closing_sell:
  assumes "sound_rows (cb_positions b)" and "clean_fill D G st b d" and "fd_side d = Sell"
    and "find_holding (fd_token_id d) (fd_account_id d) (cb_positions b) = Some p" and "ends_position D d p"
    and "fill_fee D G st d (fd_price d * fd_delta d) = Some fee"
    and "apply_delta_effects D G E st d now b = Some b'"
  obtains r c q where "r = (case snd (take_exit_reason (fd_token_id d) (cb_reasons b)) of Some r \<Rightarrow> r | None \<Rightarrow> Manual)"
    "q = exit_fill_row D (fd_delta d) (fd_price d) fee (fd_role d) (fill_rebate D G st d) p"
    "c = closed_record D (active_schedule st) q (fd_price d) r (is_maker (fd_role d)) now ''venue''"
    "cb_positions b' = fst (take_daily_trips D (fst (close_pm D st (p_id p) (fd_price d) r (is_maker (fd_role d)) now
       ''venue'' (update_open (p_id p) (exit_fill_row D (fd_delta d) (fd_price d) fee (fd_role d)
         (fill_rebate D G st d)) (cb_positions b)))))"
    "\<exists>v. EvPositionClosed c v \<in> set (cb_events b')" "c_account_id c = fd_account_id d" "c_token_id c = fd_token_id d"
    "c_exit_reason c = r"
    "cb_reasons b' = clear_exit_reason (fd_token_id d) (fst (take_exit_reason (fd_token_id d) (cb_reasons b)))"
    "fd_trade_id d \<noteq> [] \<and> length (cb_credentials b) < CREDENTIAL_CAP \<longrightarrow> (\<exists>cred. cc_restored cred = p \<and> cc_closed cred = c \<and>
       cb_credentials b' = cb_credentials b @ [(fd_trade_id d, cred)])"
    "\<forall>key. accounting_of key b' = accounting_of key (book_accounting D c b)"
proof -
  obtain l where l: "map_of (cb_accounts b) (fd_account_id d) = Some l"
    using assms(2) by (auto simp: clean_fill_def split: option.splits)
  note c = clean_balance [OF assms(2) l assms(6)]
  have le: "fd_delta d \<le> p_shares p"
    using assms(2-4,6) l by (auto simp: clean_fill_def)
  note h = find_holding_open [OF assms(1,4)]
  let ?f = "exit_fill_row D (fd_delta d) (fd_price d) fee (fd_role d) (fill_rebate D G st d)"
  obtain b2 where b2: "cb_positions b2 = cb_positions b" "cb_credentials b2 = cb_credentials b" "cb_reasons b2 = cb_reasons b"
    "cb_accounting b2 = cb_accounting b"
    and proj: "project_fill_delta D G E st d fee (fill_rebate D G st d) now (cash_booked D G E st d fee l b) =
      project_sell D G E st d fee (fill_rebate D G st d) now b2"
    using project_side [of "cash_booked D G E st d fee l b" D G E st d fee "fill_rebate D G st d" now] assms(3)
    by (metis accounting_sel(5) cash_booked_sel(1,3,4) side.case(2))
  define m where "m = update_open (p_id p) ?f (cb_positions b)"
  have b': "b' = persist_applied_journal E (emit_fill E d (close_by_fill D G E st d (p_id p) (Some p) now (b2\<lparr>cb_positions := m\<rparr>)))"
    using apply_delta_eq [OF _ l, of D G st fee E now] assms(6,7) c(7) proj
      sell_ends [of d b2 p D G E st fee "fill_rebate D G st d" now] assms(4,5) h(1) c(5) le
    by (simp add: b2 m_def)
  obtain rl noted where t: "take_exit_reason (fd_token_id d) (cb_reasons b) = (rl, noted)" by fastforce
  define r where "r = (case noted of Some r \<Rightarrow> r | None \<Rightarrow> Manual)"
  have f1: "find_open (p_id p) m = Some (?f p)" using h(1) by (simp add: m_def find_open_update)
  let ?c = "closed_record D (active_schedule st) (?f p) (fd_price d) r (is_maker (fd_role d)) now ''venue''"
  let ?n = "fst (close_pm D st (p_id p) (fd_price d) r (is_maker (fd_role d)) now ''venue'' m)"
  let ?x = "b2\<lparr>cb_reasons := rl, cb_positions := ?n\<rparr>"
  define cred where "cred = \<lparr>cc_restored = p, cc_closed = ?c,
         cc_streak_before = consecutive_losses (fd_strategy d) (cb_breaker b2),
         cc_account_streak_before = consecutive_losses (account_breaker_key (as_str (fd_account_id d))) (cb_breaker b2)\<rparr>"
  have eq: "close_by_fill D G E st d (p_id p) (Some p) now (b2\<lparr>cb_positions := m\<rparr>) =
      on_position_closed D G E ?c now (persist_positions E (push_close_credential E (fd_trade_id d) cred ?x))"
    by (subst close_by_fill_eq [of "p_id p" "b2\<lparr>cb_positions := m\<rparr>" "?f p" d rl noted r ?c D st now ?n])
      (simp_all add: f1 t r_def b2 Let_def cred_def)
  have tok: "c_token_id ?c = fd_token_id d" using h(3) by simp
  show thesis
  proof (rule that [of r "?f p" ?c])
    show "\<exists>v. EvPositionClosed ?c v \<in> set (cb_events b')"
      unfolding b' eq using closed_event events_grow(4,5) by (meson subsetD)
    show "\<forall>key. accounting_of key b' = accounting_of key (book_accounting D ?c b)"
      unfolding b' eq by (auto intro!: accounting_of_cong book_accounting_cong simp: b2)
    show "fd_trade_id d \<noteq> [] \<and> length (cb_credentials b) < CREDENTIAL_CAP \<longrightarrow> (\<exists>cred. cc_restored cred = p \<and> cc_closed cred = ?c \<and>
       cb_credentials b' = cb_credentials b @ [(fd_trade_id d, cred)])"
      unfolding b' eq by (intro impI exI [of _ cred]) (simp add: push_credentials b2 cred_def)
    show "cb_reasons b' = clear_exit_reason (fd_token_id d) (fst (take_exit_reason (fd_token_id d) (cb_reasons b)))"
      unfolding b' eq using tok by (simp add: t)
    show "cb_positions b' = fst (take_daily_trips D (fst (close_pm D st (p_id p) (fd_price d) r (is_maker (fd_role d)) now
       ''venue'' (update_open (p_id p) ?f (cb_positions b)))))"
      unfolding b' eq unfolding m_def by simp
    show "r = (case snd (take_exit_reason (fd_token_id d) (cb_reasons b)) of Some r \<Rightarrow> r | None \<Rightarrow> Manual)"
      by (simp add: r_def t)
    show "c_account_id ?c = fd_account_id d" "c_token_id ?c = fd_token_id d" "c_exit_reason ?c = r"
      using h(3,4) by simp_all
  qed (rule refl)+
qed


section \<open>Exit reasons\<close>

lemma take_clear: "snd (take_exit_reason t (clear_exit_reason t (fst (take_exit_reason t l)))) = None"
  by (auto simp: take_exit_reason_def clear_exit_reason_def split: option.splits)

lemma closing_reason:
  assumes "sound_rows (cb_positions b)" and "clean_fill D G st b d" and "fd_side d = Sell"
    and "find_holding (fd_token_id d) (fd_account_id d) (cb_positions b) = Some p" and "ends_position D d p"
    and "apply_delta_effects D G E st d now b = Some b'"
  shows "\<exists>c v. EvPositionClosed c v \<in> set (cb_events b') \<and> c_account_id c = fd_account_id d \<and> c_exit_reason c =
      (case snd (take_exit_reason (fd_token_id d) (cb_reasons b)) of Some r \<Rightarrow> r | None \<Rightarrow> Manual)"
    and "cb_reasons b' = clear_exit_reason (fd_token_id d) (fst (take_exit_reason (fd_token_id d) (cb_reasons b)))"
proof -
  obtain fee where fee: "fill_fee D G st d (fd_price d * fd_delta d) = Some fee"
    using assms(2) by (auto simp: clean_fill_def split: option.splits)
  show "\<exists>c v. EvPositionClosed c v \<in> set (cb_events b') \<and> c_account_id c = fd_account_id d \<and> c_exit_reason c =
      (case snd (take_exit_reason (fd_token_id d) (cb_reasons b)) of Some r \<Rightarrow> r | None \<Rightarrow> Manual)"
    by (rule closing_sell [OF assms(1-5) fee assms(6)]) blast
  show "cb_reasons b' = clear_exit_reason (fd_token_id d) (fst (take_exit_reason (fd_token_id d) (cb_reasons b)))"
    by (rule closing_sell [OF assms(1-5) fee assms(6)]) blast
qed

lemma closing_rows:
  assumes "sound_rows (cb_positions b)" and "clean_fill D G st b d" and "fd_side d = Sell"
    and "find_holding (fd_token_id d) (fd_account_id d) (cb_positions b) = Some p" and "ends_position D d p"
    and "apply_delta_effects D G E st d now b = Some b'"
  shows "pm_open (cb_positions b') = remove_first (\<lambda>q. p_id q = p_id p) (pm_open (cb_positions b))"
    and "length (pm_closed (cb_positions b')) \<le> length (pm_closed (cb_positions b)) + 1"
proof -
  obtain fee where fee: "fill_fee D G st d (fd_price d * fd_delta d) = Some fee"
    using assms(2) by (auto simp: clean_fill_def split: option.splits)
  note h = find_holding_open [OF assms(1,4)]
  have "pm_open (cb_positions b') = remove_first (\<lambda>q. p_id q = p_id p) (pm_open (cb_positions b)) \<and>
    length (pm_closed (cb_positions b')) \<le> length (pm_closed (cb_positions b)) + 1"
  proof (rule closing_sell [OF assms(1-5) fee assms(6)])
    fix r
    let ?m = "update_open (p_id p) (exit_fill_row D (fd_delta d) (fd_price d) fee (fd_role d) (fill_rebate D G st d)) (cb_positions b)"
    assume b': "cb_positions b' = fst (take_daily_trips D (fst (close_pm D st (p_id p) (fd_price d) r (is_maker (fd_role d)) now ''venue'' ?m)))"
    have "find_open (p_id p) ?m = Some (exit_fill_row D (fd_delta d) (fd_price d) fee (fd_role d) (fill_rebate D G st d) p)"
      using h(1) by (simp add: find_open_update)
    note cl = close_pm_Some(2,3) [OF this refl refl]
    show ?thesis
      unfolding b' trips_frame cl by (simp add: update_open_def remove_update_first last_n_def)
  qed
  then show "pm_open (cb_positions b') = remove_first (\<lambda>q. p_id q = p_id p) (pm_open (cb_positions b))"
    and "length (pm_closed (cb_positions b')) \<le> length (pm_closed (cb_positions b)) + 1" by blast+
qed

text \<open>The reason noted for an exit reaches whichever account closes the token first. Two accounts
  hold one token and one exit of it is noted; the closing fill of either account takes the reason, and
  the close of the other account that follows is recorded as a manual one.\<close>

theorem exit_reason_reaches_the_wrong_account:
  assumes "div_by_grid_exact D" and "sound_rows (cb_positions b)" and "snd (take_exit_reason (fd_token_id d1) (cb_reasons b)) = Some r"
    and "clean_fill D G st b d1" "fd_side d1 = Sell" and "apply_delta_effects D G E st d1 now b = Some b1"
    and "find_holding (fd_token_id d1) (fd_account_id d1) (cb_positions b) = Some p" "ends_position D d1 p"
    and "clean_fill D G st b1 d2" "fd_side d2 = Sell" and "apply_delta_effects D G E' st d2 now' b1 = Some b2"
    and "find_holding (fd_token_id d2) (fd_account_id d2) (cb_positions b1) = Some q" "ends_position D d2 q"
    and "fd_token_id d2 = fd_token_id d1" and "fd_account_id d2 \<noteq> fd_account_id d1"
  shows "(\<exists>c v. EvPositionClosed c v \<in> set (cb_events b1) \<and> c_account_id c = fd_account_id d1 \<and> c_exit_reason c = r) \<and>
    (\<exists>c v. EvPositionClosed c v \<in> set (cb_events b2) \<and> c_account_id c = fd_account_id d2 \<and> c_exit_reason c = Manual)"
proof -
  have sound: "sound_rows (cb_positions b1)"
    using apply_delta_books [OF assms(1,2,4), of E now] assms(6) by auto
  have "snd (take_exit_reason (fd_token_id d2) (cb_reasons b1)) = None"
    unfolding closing_reason(2) [OF assms(2,4,5,7,8,6)] assms(14) by (rule take_clear)
  then show ?thesis
    using closing_reason(1) [OF assms(2,4,5,7,8,6)] closing_reason(1) [OF sound assms(9,10,12,13,11)] assms(3) by simp
qed


section \<open>A close that is taken back\<close>

lemma realized_trips [simp]: "daily_pnl_for a (fst (take_daily_trips D m)) = daily_pnl_for a m"
proof -
  have step: "daily_pnl_for a (fst (trip_step D acc x)) = daily_pnl_for a (fst x)" for acc x
    by (cases x) (auto simp: trip_step_def daily_pnl_for_def Let_def)
  have "daily_pnl_for a (fst (fold (trip_step D) as x)) = daily_pnl_for a (fst x)" for as x
    by (induction as arbitrary: x) (simp_all add: step)
  then show ?thesis by (simp add: take_daily_trips_def)
qed

text \<open>Restoring the row a close removed, into a manager that only reported trips since.\<close>

lemma restore_after_close:
  assumes "find_open i m = Some q" and "p_id p = i" and "distinct (map p_id (pm_open m))"
    and "length (pm_closed m) < CLOSED_CAP"
    and "c = closed_record D (active_schedule st) q pr rs mk now src"
    and "n = fst (take_daily_trips D (fst (close_pm D st i pr rs mk now src m)))"
  shows "pm_open (fst (restore_closed p c n)) = remove_first (\<lambda>x. p_id x = i) (pm_open m) @ [p]"
    and "pm_closed (fst (restore_closed p c n)) = pm_closed m"
    and "daily_pnl_for a (fst (restore_closed p c n)) = daily_pnl_for a m"
proof -
  note cl = close_pm_Some [OF assms(1,5) refl]
  have n: "pm_open n = remove_first (\<lambda>x. p_id x = i) (pm_open m)" "pm_closed n = pm_closed m @ [c]"
    using assms(4) by (simp_all add: assms(6) frame_simps cl(2,3) last_n_all)
  have pnl: "daily_pnl_for a n = daily_pnl_for a m + (if a = as_str (c_account_id c) then c_net_pnl_usd c else 0)" for a
    using cl(6) [of a] by (simp add: assms(5,6) daily_pnl_for_def realized_trips [unfolded daily_pnl_for_def])
  have fresh: "\<forall>x \<in> set (pm_open n). p_id x \<noteq> p_id p"
    using distinct_remove_first [OF assms(3)] by (simp add: n assms(2))
  have "remove_last (\<lambda>x. c_id x = c_id c \<and> c_exited_at_ms x = c_exited_at_ms c) (pm_closed n) = pm_closed m"
    unfolding n by (rule remove_last_snoc) simp
  then show "pm_open (fst (restore_closed p c n)) = remove_first (\<lambda>x. p_id x = i) (pm_open m) @ [p]"
    and "pm_closed (fst (restore_closed p c n)) = pm_closed m"
    and "daily_pnl_for a (fst (restore_closed p c n)) = daily_pnl_for a m"
    using fresh pnl [of a] pnl [of "as_str (c_account_id c)"]
    by (auto simp: restore_closed_def Let_def frame_simps daily_pnl_for_def n(1))
qed

lemma accounting_undone:
  assumes "\<forall>key. accounting_of key c = accounting_of key (book_accounting D r b)"
  shows "accounting_of key (unbook_accounting D r c) = accounting_of key b"
proof -
  let ?k = "strategy_acc_key (c_strategy r) (as_str (c_account_id r))"
  let ?f = "fst (closed_fees D r) + snd (closed_fees D r)"
  let ?w = "c_net_pnl_usd r \<ge> 0"
  define a where "a = accounting_of ?k b"
  define a1 where "a1 = a\<lparr>sa_closed_trades := sa_closed_trades a + 1, sa_wins := (if ?w then sa_wins a + 1 else sa_wins a),
     sa_losses := (if ?w then sa_losses a else sa_losses a + 1), sa_fees_usd := sa_fees_usd a + ?f,
     sa_net_pnl_usd := sa_net_pnl_usd a + c_net_pnl_usd r\<rparr>"
  define a2 where "a2 = a1\<lparr>sa_closed_trades := sa_closed_trades a1 - 1, sa_wins := (if ?w then sa_wins a1 - 1 else sa_wins a1),
     sa_losses := (if ?w then sa_losses a1 else sa_losses a1 - 1), sa_fees_usd := sa_fees_usd a1 - ?f,
     sa_net_pnl_usd := sa_net_pnl_usd a1 - c_net_pnl_usd r\<rparr>"
  have same: "a2 = a" by (cases ?w) (simp_all add: a1_def a2_def)
  have "cb_accounting (book_accounting D r b) = AList.update ?k a1 (cb_accounting b)"
    unfolding book_accounting_def Let_def split_beta a_def a1_def by simp
  then have 1: "accounting_of key c = (if key = ?k then a1 else accounting_of key b)" for key
    using assms by (simp add: accounting_of_def [of _ "book_accounting D r b"]) (simp add: accounting_of_def)
  have k: "accounting_of ?k c = a1" by (simp add: 1)
  have "cb_accounting (unbook_accounting D r c) = AList.update ?k a2 (cb_accounting c)"
    unfolding unbook_accounting_def Let_def split_beta k a2_def by simp
  then have "accounting_of key (unbook_accounting D r c) = (if key = ?k then a2 else accounting_of key c)"
    by (simp add: accounting_of_def)
  then show ?thesis using same 1 by (simp add: a_def)
qed

lemma unwind_accounting:
  "cb_accounting (unwind_closed_trade D E cred now b) = cb_accounting (unbook_accounting D (cc_closed cred) b)"
  by (simp add: unwind_closed_trade_def unbook_accounting_def accounting_of_def persist_positions_def Let_def
      split: prod.splits)


text \<open>The reversal of a sell that finds no holding unwinds the close it paid for.\<close>

lemma reversal_unwinds:
  assumes "fd_side d = Sell" and "fd_delta d < 0" and "map_of (cb_accounts b) (fd_account_id d) = Some l"
    and "find_holding (fd_token_id d) (fd_account_id d) (cb_positions b) = None"
    and "List.find (credential_for d) (cb_credentials b) = Some (t, cred)"
    and "apply_delta_effects D G E st d now b = Some b'"
  shows "cb_positions b' = fst (restore_closed (cc_restored cred) (cc_closed cred) (cb_positions b))"
    and "cb_credentials b' = remove_first (credential_for d) (cb_credentials b)"
    and "accounting_of key b' = accounting_of key (unbook_accounting D (cc_closed cred) b)"
    and "cb_accounts b' = AList.update (fd_account_id d) (booked_ledger D G E st d 0 l b) (cb_accounts b)"
proof -
  have zero: "fill_fee D G st d n = Some 0" and z: "fill_fee D G st d n = Some 0" "fill_rebate D G st d = 0" for n
    using reversal_fee [of d D G st n] assms(2) by simp_all
  obtain c where c: "cb_positions c = cb_positions b" "cb_credentials c = cb_credentials b" "cb_accounting c = cb_accounting b"
    "project_fill_delta D G E st d 0 0 now (cash_booked D G E st d 0 l b) = project_sell D G E st d 0 0 now c"
    using project_side [of "cash_booked D G E st d 0 l b" D G E st d 0 0 now] assms(1)
    by (metis accounting_sel(5) cash_booked_sel(1,4) side.case(2))
  have b': "b' = persist_applied_journal E (emit_fill E d (project_sell D G E st d 0 0 now c))"
    using apply_delta_eq [OF _ assms(3), of D G st 0 E now] assms(2,6) z c(4) by simp
  have p: "project_sell D G E st d 0 0 now c = unwind_closed_trade D E cred now (append_credential E (CredConsumed (fd_trade_id d))
      (c\<lparr>cb_credentials := remove_first (credential_for d) (cb_credentials c)\<rparr>))"
    using assms(2,4,5) by (simp add: project_sell_def reverse_closed_def c Let_def)
  show "cb_positions b' = fst (restore_closed (cc_restored cred) (cc_closed cred) (cb_positions b))"
    and "cb_credentials b' = remove_first (credential_for d) (cb_credentials b)"
    unfolding b' p by (simp_all add: c)
  have cong: "cb_accounting (unbook_accounting D r x) = cb_accounting (unbook_accounting D r y)"
    if "cb_accounting x = cb_accounting y" for r x y
    using that by (simp add: unbook_accounting_def accounting_of_def Let_def split: prod.splits)
  show "accounting_of key b' = accounting_of key (unbook_accounting D (cc_closed cred) b)"
    unfolding b' p by (rule accounting_of_cong, unfold persist_credential_log unwind_accounting, rule cong) (simp add: c)
  show "cb_accounts b' = AList.update (fd_account_id d) (booked_ledger D G E st d 0 l b) (cb_accounts b)"
    using apply_delta_Some [OF assms(6)] unfolding assms(3) zero by auto
qed



section \<open>Two accounts on one token\<close>

definition row_b :: open_position where
  "row_b = demo_row\<lparr>p_id := ''hft-5'', p_account_id := AccountId ''b''\<rparr>"

definition shared_token :: core_books where
  "shared_token = (demo_core (sample_ome 4) (fresh_manager\<lparr>pm_open := [demo_row, row_b], pm_next_id := 6\<rparr>))
     \<lparr>cb_accounts := [(AccountId ''a'', ledger_new\<lparr>l_balance := 100\<rparr>), (AccountId ''b'', ledger_new\<lparr>l_balance := 100\<rparr>)],
      cb_reasons := note_exit_reason {''t''} ''t'' StopLoss exit_reason_ledger_new\<rparr>"

definition sell_all :: "string \<Rightarrow> fill_delta" where
  "sell_all a = demo_delta\<lparr>fd_order_id := ''s'', fd_token_id := ''t'', fd_account_id := AccountId a, fd_side := Sell,
     fd_delta := 100\<rparr>"

lemma sell_all_sel [simp]:
  "fd_token_id (sell_all a) = ''t''" "fd_account_id (sell_all a) = AccountId a" "fd_side (sell_all a) = Sell"
  "fd_delta (sell_all a) = 100" "fd_price (sell_all a) = 1/2" "fd_trade_id (sell_all a) = ''t1''"
  "fd_role (sell_all a) = RoleTaker"
  by (simp_all add: sell_all_def)

lemma sell_all_fee: "fill_fee exact_dec demo_config None (sell_all a) 50 = Some (50/64)"
  by (simp add: fill_fee_def is_maker_def live_taker_fee_pct_def may_charge_def demo_config_def active_schedule_def
      fee_pct_def fee_per_share_def legacy_quadratic_schedule_def or_zero_def numeral_2_eq_2 Let_def)

lemma row_b_sel [simp]:
  "p_id row_b = ''hft-5''" "p_account_id row_b = AccountId ''b''" "p_token_id row_b = ''t''" "p_shares row_b = 100"
  "p_flows row_b = no_flows\<lparr>cf_opened_shares := 100, cf_entry_cost_usd := 50\<rparr>"
  "p_token_id demo_row = ''t''" "p_account_id demo_row = AccountId ''a''"
  by (simp_all add: row_b_def demo_row_def)

lemma shared_sel [simp]:
  "pm_open (cb_positions shared_token) = [demo_row, row_b]" "pm_closed (cb_positions shared_token) = []"
  "cb_accounts shared_token = [(AccountId ''a'', ledger_new\<lparr>l_balance := 100\<rparr>), (AccountId ''b'', ledger_new\<lparr>l_balance := 100\<rparr>)]"
  "cb_credentials shared_token = []" "snd (take_exit_reason ''t'' (cb_reasons shared_token)) = Some StopLoss"
  by (simp_all add: shared_token_def note_exit_reason_def enforce_exit_reason_bound_def exit_reason_ledger_new_def
      EXIT_REASON_TABLE_MAX_def take_exit_reason_def Let_def)

lemma shared_sound: "sound_rows (cb_positions shared_token)"
proof -
  have "hft_number ''hft-4'' = Some 4" "hft_number ''hft-5'' = Some 5"
    using hft_number_minted [of 4] hft_number_minted [of 5]
    by (simp_all add: hft_prefix_def nat_str.simps [of 4] nat_str.simps [of 5] digit_char_def)
  then show ?thesis
    by (simp add: sound_rows_def ids_below_def sound_row_def row_ok_def flows_nonneg_def no_flows_def)
      (simp add: shared_token_def)
qed

lemma sell_all_clean:
  assumes "map_of (cb_accounts b) (AccountId a) = Some l" and "0 \<le> l_balance l"
    and "find_holding ''t'' (AccountId a) (cb_positions b) = Some p" and "p_shares p = 100"
    and "length (pm_closed (cb_positions b)) < CLOSED_CAP"
  shows "clean_fill exact_dec demo_config None b (sell_all a)" and "ends_position exact_dec (sell_all a) p"
    and "\<exists>b'. apply_delta_effects exact_dec demo_config demo_env None (sell_all a) now b = Some b'"
  using assms sell_all_fee [of a] apply_delta_eq [where d = "sell_all a" and D = exact_dec and G = demo_config and st = None
      and fee = "50/64" and l = l and b = b and now = now and E = demo_env]
  by (simp_all add: clean_fill_def fill_rebate_def is_maker_def ends_position_def Let_def or_zero_def)

theorem exit_reason_reaches_the_wrong_account_witness:
  "\<exists>b1 b2. apply_delta_effects exact_dec demo_config demo_env None (sell_all ''b'') 5 shared_token = Some b1 \<and>
    apply_delta_effects exact_dec demo_config demo_env None (sell_all ''a'') 6 b1 = Some b2 \<and>
    (\<exists>c v. EvPositionClosed c v \<in> set (cb_events b2) \<and> c_account_id c = AccountId ''a'' \<and> c_exit_reason c = Manual)"
proof -
  let ?d = "sell_all ''b''"
  have h: "find_holding ''t'' (AccountId ''b'') (cb_positions shared_token) = Some row_b" by (simp add: find_holding_def)
  note s = sell_all_clean [of shared_token "''b''" _ row_b, OF _ _ h]
  have clean: "clean_fill exact_dec demo_config None shared_token ?d" and ends: "ends_position exact_dec ?d row_b"
    and "\<exists>b'. apply_delta_effects exact_dec demo_config demo_env None ?d 5 shared_token = Some b'"
    using s by (simp_all add: CLOSED_CAP_def)
  then obtain b1 where b1: "apply_delta_effects exact_dec demo_config demo_env None ?d 5 shared_token = Some b1" by blast
  have d: "fd_side ?d = Sell" "find_holding (fd_token_id ?d) (fd_account_id ?d) (cb_positions shared_token) = Some row_b"
    using h by simp_all
  note rows = closing_rows [OF shared_sound clean d(1) d(2) ends b1]
  have h1: "find_holding ''t'' (AccountId ''a'') (cb_positions b1) = Some demo_row"
    using rows(1) by (simp add: find_holding_def)
  have "map_of (cb_accounts b1) (AccountId ''a'') = Some (ledger_new\<lparr>l_balance := 100\<rparr>)"
    using apply_delta_Some [OF b1] by auto
  note s1 = sell_all_clean [OF this _ h1]
  have clean1: "clean_fill exact_dec demo_config None b1 (sell_all ''a'')"
    and ends1: "ends_position exact_dec (sell_all ''a'') demo_row"
    and "\<exists>b'. apply_delta_effects exact_dec demo_config demo_env None (sell_all ''a'') 6 b1 = Some b'"
    using s1 rows(2) by (simp_all add: CLOSED_CAP_def)
  then obtain b2 where b2: "apply_delta_effects exact_dec demo_config demo_env None (sell_all ''a'') 6 b1 = Some b2" by blast
  have "find_holding (fd_token_id (sell_all ''a'')) (fd_account_id (sell_all ''a'')) (cb_positions b1) = Some demo_row"
    using h1 by simp
  from exit_reason_reaches_the_wrong_account [OF grid_exact_dec shared_sound _ clean d(1) b1 d(2) ends clean1 _ b2 this ends1]
  show ?thesis using b1 b2 by auto
qed


definition unsell :: fill_delta where
  "unsell = (sell_all ''b'')\<lparr>fd_delta := - fd_delta (sell_all ''b'')\<rparr>"



section \<open>A reversal that comes after a re-entry\<close>

text \<open>A FAILED sell that arrives after the account has bought the token again is booked on the new
  position. The credential of the close stays on file unused, the settled record and the accounting of
  the failed trade stand, and the new row shows shares it never bought.\<close>

theorem reversal_hits_the_new_position:
  assumes "sound_rows (cb_positions b)" and "fd_side d = Sell" and "fd_delta d < 0"
    and "map_of (cb_accounts b) (fd_account_id d) = Some l"
    and "find_holding (fd_token_id d) (fd_account_id d) (cb_positions b) = Some p"
    and "cf_sold_shares (p_flows p) = 0" and "floor_to_grid D (p_shares p - fd_delta d) \<noteq> 0"
    and "apply_delta_effects D G E st d now b = Some b'"
  shows "cb_credentials b' = cb_credentials b \<and> pm_closed (cb_positions b') = pm_closed (cb_positions b) \<and>
    (\<forall>key. accounting_of key b' = accounting_of key b) \<and>
    (\<exists>q. find_open (p_id p) (cb_positions b') = Some q \<and>
       p_shares q = cf_opened_shares (p_flows q) - cf_sold_shares (p_flows q) - fd_delta d)"
proof -
  note h = find_holding_open [OF assms(1,5)]
  let ?f = "exit_fill_row D (fd_delta d) (fd_price d) 0 (fd_role d) 0"
  have z: "fill_fee D G st d n = Some 0" "fill_rebate D G st d = 0" for n
    using reversal_fee [of d D G st n] assms(3) by simp_all
  obtain c where c: "cb_positions c = cb_positions b" "cb_credentials c = cb_credentials b" "cb_accounting c = cb_accounting b"
    "project_fill_delta D G E st d 0 0 now (cash_booked D G E st d 0 l b) = project_sell D G E st d 0 0 now c"
    using project_side [of "cash_booked D G E st d 0 l b" D G E st d 0 0 now] assms(2)
    by (metis accounting_sel(5) cash_booked_sel(1,4) side.case(2))
  have b': "b' = persist_applied_journal E (emit_fill E d (project_sell D G E st d 0 0 now c))"
    using apply_delta_eq [OF _ assms(4), of D G st 0 E now] assms(8) z c(4) by simp
  have row: "row_ok p" "0 < p_shares p" using h(2) by (simp_all add: sound_row_def)
  have q: "p_shares (?f p) = p_shares p - fd_delta d" "cf_opened_shares (p_flows (?f p)) = cf_opened_shares (p_flows p)"
    "cf_sold_shares (p_flows (?f p)) = 0"
    using row assms(3,6) by (simp_all add: exit_fill_row_def Let_def)
  have "project_sell D G E st d 0 0 now c = persist_positions E (c\<lparr>cb_positions := update_open (p_id p) ?f (cb_positions c)\<rparr>)"
    using assms(3,5,7) h(1) row(2) q(1) by (simp add: project_sell_def c apply_exit_fill_def Let_def)
  then have "cb_positions b' = update_open (p_id p) ?f (cb_positions b)" and "cb_credentials b' = cb_credentials b"
    and "cb_accounting b' = cb_accounting b"
    by (simp_all add: b' c)
  then show ?thesis
    using h(1) q row(1) assms(6) by (simp add: find_open_update accounting_of_def row_ok_def) (simp add: update_open_def)
qed

text \<open>The close of the second account on the token above, reversed after it bought again.\<close>

definition reentered :: core_books where
  "reentered = shared_token\<lparr>cb_credentials := [(''t1'', \<lparr>cc_restored = row_b\<lparr>p_id := ''hft-3''\<rparr>,
     cc_closed = closed_record exact_dec legacy_quadratic_schedule row_b (1/2) Manual False 4 ''venue'',
     cc_streak_before = 0, cc_account_streak_before = 0\<rparr>)]\<rparr>"

theorem reversal_hits_the_new_position_witness:
  "\<exists>b'. apply_delta_effects exact_dec demo_config demo_env None unsell 6 reentered = Some b' \<and>
    List.find (credential_for unsell) (cb_credentials b') \<noteq> None \<and>
    (\<exists>q. find_open ''hft-5'' (cb_positions b') = Some q \<and> p_shares q \<noteq> cf_opened_shares (p_flows q) - cf_sold_shares (p_flows q))"
proof -
  have u: "fd_token_id unsell = ''t''" "fd_account_id unsell = AccountId ''b''" "fd_side unsell = Sell" "fd_delta unsell = - 100"
    "fd_trade_id unsell = ''t1''"
    by (simp_all add: unsell_def)
  have r: "cb_positions reentered = cb_positions shared_token" "cb_accounts reentered = cb_accounts shared_token"
    by (simp_all add: reentered_def)
  have h: "find_holding (fd_token_id unsell) (fd_account_id unsell) (cb_positions reentered) = Some row_b"
    by (simp add: find_holding_def u r)
  have l: "map_of (cb_accounts reentered) (fd_account_id unsell) = Some (ledger_new\<lparr>l_balance := 100\<rparr>)" by (simp add: u r)
  have g: "floor_to_grid exact_dec (p_shares row_b - fd_delta unsell) \<noteq> 0"
    by (simp add: u floor_to_grid_def share_grid_def)
  obtain b' where b': "apply_delta_effects exact_dec demo_config demo_env None unsell 6 reentered = Some b'"
    using apply_delta_eq [OF _ l] reversal_fee [of unsell] u by (metis less_eq_rat_def neg_less_0_iff_less zero_less_numeral)
  have "sound_rows (cb_positions reentered)" by (simp add: r shared_sound)
  from reversal_hits_the_new_position [OF this u(3) _ l h _ g b'] b' show ?thesis
    by (auto simp: u reentered_def credential_for_def no_flows_def)
qed

end
