(* ===== verification/Credentials.thy ===== *)
theory Credentials
  imports BookingCloses "HOL-Library.While_Combinator"
begin

text \<open>
  The queue of close credentials and its log: the eviction loop ends, the queue is bounded, a restart
  rebuilds it, and where the log cannot tell two accounts apart.
\<close>

section \<open>The eviction loop\<close>

text \<open>The body of the loop: the front goes and its consumption is logged.\<close>

definition pop_credential :: "core_env \<Rightarrow> core_books \<Rightarrow> core_books" where
  "pop_credential E b = append_credential E (CredConsumed (fst (hd (cb_credentials b))))
     (b\<lparr>cb_credentials := tl (cb_credentials b)\<rparr>)"

definition queue_full :: "core_books \<Rightarrow> bool" where
  "queue_full b \<longleftrightarrow> CREDENTIAL_CAP \<le> length (cb_credentials b)"

lemma append_credential_queue:
  "append_credential E l (b\<lparr>cb_credentials := cs\<rparr>) = (append_credential E l b)\<lparr>cb_credentials := cs\<rparr>"
  by (simp add: append_credential_def)

lemma evict_ignores_queue: "evict_credentials E cs (b\<lparr>cb_credentials := ds\<rparr>) = evict_credentials E cs b"
  by (induction cs arbitrary: b) (simp_all add: append_credential_queue)

lemma evict_is_while:
  "while_option queue_full (pop_credential E) (b\<lparr>cb_credentials := cs\<rparr>) = Some (evict_credentials E cs b)"
proof (induction cs arbitrary: b)
  case Nil
  then show ?case by (subst while_option_unfold) (simp add: queue_full_def CREDENTIAL_CAP_def)
next
  case (Cons c cs)
  show ?case
  proof (cases "CREDENTIAL_CAP \<le> length (c # cs)")
    case True
    have "pop_credential E (b\<lparr>cb_credentials := c # cs\<rparr>) = (append_credential E (CredConsumed (fst c)) b)\<lparr>cb_credentials := cs\<rparr>"
      by (simp add: pop_credential_def append_credential_queue)
    moreover have "queue_full (b\<lparr>cb_credentials := c # cs\<rparr>)" using True by (simp add: queue_full_def)
    ultimately show ?thesis using True Cons.IH [of "append_credential E (CredConsumed (fst c)) b"]
      by (subst while_option_unfold) simp
  next
    case False
    then have "\<not> queue_full (b\<lparr>cb_credentials := c # cs\<rparr>)" by (simp add: queue_full_def)
    then show ?thesis using False by (subst while_option_unfold) simp
  qed
qed

lemma evict_bounded: "length (cb_credentials (evict_credentials E cs b)) < CREDENTIAL_CAP"
  by (induction cs arbitrary: b) (simp_all add: CREDENTIAL_CAP_def)

text \<open>The loop that makes room for a credential ends, whatever the queue held: run as written, on a
  full or even overfull queue, it stops with room for one more, and the element it pops always exists.\<close>

theorem credential_eviction_terminates:
  "\<exists>b'. while_option queue_full (pop_credential E) b = Some b' \<and>
     b' = evict_credentials E (cb_credentials b) b \<and> length (cb_credentials b') < CREDENTIAL_CAP"
proof -
  have "while_option queue_full (pop_credential E) b = Some (evict_credentials E (cb_credentials b) b)"
    using evict_is_while [where b = b and cs = "cb_credentials b"] by simp
  then show ?thesis using evict_bounded by blast
qed

section \<open>The log rebuilds the queue\<close>

datatype credential_op = CoPush trade_id close_credential | CoReverse fill_delta int

fun credential_step :: "dec_ops \<Rightarrow> core_env \<Rightarrow> core_books \<Rightarrow> credential_op \<Rightarrow> core_books" where
  "credential_step D E b (CoPush t c) = push_close_credential E t c b"
| "credential_step D E b (CoReverse d now) = reverse_closed D E d now b"

text \<open>No two closes on file share a trade identifier.\<close>

fun fresh_trades :: "dec_ops \<Rightarrow> core_env \<Rightarrow> core_books \<Rightarrow> credential_op list \<Rightarrow> bool" where
  "fresh_trades D E b [] \<longleftrightarrow> True"
| "fresh_trades D E b (op # ops) \<longleftrightarrow>
    (case op of CoPush t c \<Rightarrow> t \<notin> fst ` set (cb_credentials b) | CoReverse d now \<Rightarrow> True) \<and>
    fresh_trades D E (credential_step D E b op) ops"

text \<open>What a line reads back as. Exactly two amounts of a credential are read from doubles.\<close>

definition reread :: "dec_ops \<Rightarrow> close_credential \<Rightarrow> close_credential" where
  "reread D c = c\<lparr>cc_closed := (cc_closed c)\<lparr>
     c_maker_rebate_usd := the (wire_decimal D (c_maker_rebate_usd (cc_closed c))),
     c_original_fallback_price := map_option (\<lambda>v. the (wire_decimal D v)) (c_original_fallback_price (cc_closed c))\<rparr>\<rparr>"

definition readable :: "dec_ops \<Rightarrow> close_credential \<Rightarrow> bool" where
  "readable D c \<longleftrightarrow> wire_decimal D (c_maker_rebate_usd (cc_closed c)) \<noteq> None \<and>
     (\<forall>v. c_original_fallback_price (cc_closed c) = Some v \<longrightarrow> wire_decimal D v \<noteq> None)"

fun readable_line :: "dec_ops \<Rightarrow> credential_line \<Rightarrow> bool" where
  "readable_line D (CredPush t c) \<longleftrightarrow> readable D c"
| "readable_line D (CredConsumed t) \<longleftrightarrow> True"

lemma read_credential_numbers: "readable D c \<Longrightarrow> read_credential D (credential_numbers c) = Some (reread D c)"
  by (auto simp: readable_def reread_def read_credential_def credential_numbers_def wire_decimal_def read_number_opt_def
      split: option.splits)

lemma remove_first_map:
  "remove_first (\<lambda>(u, _). u = t) (map (\<lambda>(t, c). (t, f c)) q) = map (\<lambda>(t, c). (t, f c)) (remove_first (\<lambda>(u, _). u = t) q)"
  by (induction q) auto

lemma replay_reread:
  "\<forall>l \<in> set ls. readable_line D l \<Longrightarrow>
    fold replay_credential (List.map_filter (read_credential_line D) (map line_numbers ls)) (map (\<lambda>(t, c). (t, reread D c)) q) =
      map (\<lambda>(t, c). (t, reread D c)) (fold replay_credential ls q)"
proof (induction ls arbitrary: q)
  case (Cons l ls)
  then show ?case
  proof (cases l)
    case (CredPush t c)
    then show ?thesis using Cons.IH [of "q @ [(t, c)]"] Cons.prems
      by (simp add: List.map_filter_simps read_credential_numbers)
  next
    case (CredConsumed t)
    then show ?thesis using Cons.IH [of "remove_first (\<lambda>(u, _). u = t) q"] Cons.prems
      by (simp add: List.map_filter_simps remove_first_map)
  qed
qed (simp add: List.map_filter_simps)

definition log_exact :: "dec_ops \<Rightarrow> core_books \<Rightarrow> bool" where
  "log_exact D b \<longleftrightarrow> (\<exists>ls. cb_credential_log b = Some (map line_numbers ls) \<and> fold replay_credential ls [] = cb_credentials b \<and>
     (\<forall>l \<in> set ls. readable_line D l)) \<and> distinct (map fst (cb_credentials b))"

lemma evict_log:
  assumes "\<forall>l. ce_credential_ok E l" and "cb_credential_log b = Some (map line_numbers ls)"
    and "fold replay_credential ls [] = cs" and "\<forall>l \<in> set ls. readable_line D l"
  shows "\<exists>ls' k. cb_credential_log (evict_credentials E cs b) = Some (map line_numbers ls') \<and>
    fold replay_credential ls' [] = cb_credentials (evict_credentials E cs b) \<and> (\<forall>l \<in> set ls'. readable_line D l) \<and>
    cb_credentials (evict_credentials E cs b) = drop k cs"
  using assms(2-4)
proof (induction cs arbitrary: b ls)
  case (Cons c cs)
  show ?case
  proof (cases "CREDENTIAL_CAP \<le> length (c # cs)")
    case True
    let ?b = "append_credential E (CredConsumed (fst c)) b"
    have l: "cb_credential_log ?b = Some (map line_numbers (ls @ [CredConsumed (fst c)]))"
      using Cons.prems(1) assms(1) by (simp add: append_credential_def)
    have "fold replay_credential (ls @ [CredConsumed (fst c)]) [] = cs" using Cons.prems(2) by (cases c) auto
    moreover have "\<forall>l \<in> set (ls @ [CredConsumed (fst c)]). readable_line D l" using Cons.prems(3) by simp
    ultimately obtain ls' k where "cb_credential_log (evict_credentials E cs ?b) = Some (map line_numbers ls')"
      "fold replay_credential ls' [] = cb_credentials (evict_credentials E cs ?b)" "\<forall>l \<in> set ls'. readable_line D l"
      "cb_credentials (evict_credentials E cs ?b) = drop (Suc k) (c # cs)" using Cons.IH [OF l] by auto
    then show ?thesis using True by (intro exI [of _ ls'] exI [of _ "Suc k"]) simp
  next
    case False
    then show ?thesis using Cons.prems by (auto intro!: exI [of _ 0])
  qed
qed auto

lemma remove_same:
  assumes "distinct (map fst cs)" and "List.find (credential_for d) cs = Some (t, c)"
  shows "remove_first (credential_for d) cs = remove_first (\<lambda>(u, _). u = fd_trade_id d) cs"
  using assms
proof (induction cs)
  case (Cons x cs)
  show ?case
  proof (cases "credential_for d x")
    case True
    then show ?thesis by (cases x) (simp add: credential_for_def)
  next
    case False
    then have f: "List.find (credential_for d) cs = Some (t, c)" using Cons.prems(2) by simp
    then have "(t, c) \<in> set cs" "t = fd_trade_id d" by (auto simp: credential_for_def dest: find_Some_prop)
    then have "fst x \<noteq> fd_trade_id d" using Cons.prems(1) by (auto simp: image_iff)
    then show ?thesis using Cons f False by (cases x) simp
  qed
qed simp

lemma unwind_log [simp]: "cb_credential_log (unwind_closed_trade D E cred now b) = cb_credential_log b"
  by (simp add: unwind_closed_trade_def unbook_accounting_def Let_def split: prod.splits)

lemma step_log_exact:
  assumes "\<forall>l. ce_credential_ok E l" and "log_exact D b"
    and "case op of CoPush t c \<Rightarrow> t \<notin> fst ` set (cb_credentials b) \<and> readable D c | CoReverse d now \<Rightarrow> True"
  shows "log_exact D (credential_step D' E b op)"
proof -
  obtain ls where ls: "cb_credential_log b = Some (map line_numbers ls)" "fold replay_credential ls [] = cb_credentials b"
    "\<forall>l \<in> set ls. readable_line D l" and dist: "distinct (map fst (cb_credentials b))"
    using assms(2) by (auto simp: log_exact_def)
  show ?thesis
  proof (cases op)
    case (CoPush t c)
    obtain ls' k where e: "cb_credential_log (evict_credentials E (cb_credentials b) b) = Some (map line_numbers ls')"
      "fold replay_credential ls' [] = cb_credentials (evict_credentials E (cb_credentials b) b)" "\<forall>l \<in> set ls'. readable_line D l"
      "cb_credentials (evict_credentials E (cb_credentials b) b) = drop k (cb_credentials b)"
      using evict_log [OF assms(1) ls] by blast
    have d: "distinct (map fst (drop k (cb_credentials b) @ [(t, c)]))"
      using dist assms(3) CoPush by (auto simp: drop_map [symmetric] image_iff dest: in_set_dropD)
    have "cb_credential_log (append_credential E (CredPush t c) (evict_credentials E (cb_credentials b) b)) =
        Some (map line_numbers (ls' @ [CredPush t c]))"
      using assms(1) e(1) by (simp add: append_credential_def)
    moreover have "\<forall>l \<in> set (ls' @ [CredPush t c]). readable_line D l" using e(3) assms(3) CoPush by auto
    moreover have "cb_credentials (append_credential E l x) = cb_credentials x" for l x by (simp add: append_credential_def)
    ultimately show ?thesis
      using assms(2) e d CoPush by (auto simp: push_close_credential_def log_exact_def Let_def intro!: exI [of _ "ls' @ [CredPush t c]"])
  next
    case (CoReverse d now)
    show ?thesis
    proof (cases "List.find (credential_for d) (cb_credentials b)")
      case None
      then show ?thesis using assms(2) CoReverse by (simp add: reverse_closed_def log_exact_def)
    next
      case (Some x)
      obtain t cr where x: "x = (t, cr)" by (cases x)
      have "distinct (map fst (remove_first P (cb_credentials b)))" for P
        using map_remove_first_sub [of fst P "cb_credentials b"] dist by blast
      then show ?thesis
        using assms(1) ls remove_same [OF dist Some [unfolded x]] CoReverse Some x
        by (auto simp: reverse_closed_def log_exact_def append_credential_def Let_def
            intro!: exI [of _ "ls @ [CredConsumed (fd_trade_id d)]"])
    qed
  qed
qed

text \<open>C13: credentials survive a restart. Over any history of closes, reversals and evictions whose log
  writes succeed, whose closes carry distinct trade identifiers and whose lines can be read back,
  replaying the log rebuilds the queue that was in memory: the same trades in the same order, each with
  its position to restore, its streaks and its closed record, of which only the rebate and the fallback
  price pass through doubles; so a FAILED notice after the restart finds the close it takes back.\<close>

theorem credentials_survive_restart:
  assumes "\<forall>l. ce_credential_ok E l" and "cb_credentials b = []" and "cb_credential_log b = Some []"
    and "fresh_trades D E b ops" and "\<forall>t c. CoPush t c \<in> set ops \<longrightarrow> readable D c" and "b' = run (credential_step D E) b ops"
    and "cb_credential_log c = cb_credential_log b'" and "cb_credentials c = []"
  shows "cb_credentials (restore_close_credentials D c) = map (\<lambda>(t, cr). (t, reread D cr)) (cb_credentials b')"
proof -
  have "log_exact D x \<Longrightarrow> fresh_trades D E x ops \<Longrightarrow> \<forall>t c. CoPush t c \<in> set ops \<longrightarrow> readable D c \<Longrightarrow>
      log_exact D (run (credential_step D E) x ops)" for x ops
  proof (induction ops arbitrary: x)
    case (Cons op ops)
    have "log_exact D (credential_step D E x op)"
      using Cons.prems by (intro step_log_exact [OF assms(1)]) (auto split: credential_op.splits)
    then show ?case using Cons by auto
  qed simp
  moreover have "log_exact D b" using assms(2,3) by (simp add: log_exact_def)
  ultimately have "log_exact D b'" using assms(4-6) by blast
  then obtain ls where "cb_credential_log c = Some (map line_numbers ls)" "fold replay_credential ls [] = cb_credentials b'"
    "\<forall>l \<in> set ls. readable_line D l"
    using assms(7) by (auto simp: log_exact_def)
  then show ?thesis
    using assms(8) replay_reread [of ls D "[]"] by (simp add: restore_close_credentials_def Let_def)
qed

definition demo_credential :: "string \<Rightarrow> close_credential" where
  "demo_credential a = \<lparr>cc_restored = demo_row\<lparr>p_account_id := AccountId a\<rparr>,
     cc_closed = closed_record exact_dec legacy_quadratic_schedule (demo_row\<lparr>p_account_id := AccountId a\<rparr>) (1/2)
       Manual False 4 ''venue'', cc_streak_before = 0, cc_account_streak_before = 0\<rparr>"

lemma demo_credential_account [simp]: "p_account_id (cc_restored (demo_credential a)) = AccountId a"
  by (simp add: demo_credential_def)

lemma demo_credential_unrebated:
  "c_maker_rebate_usd (cc_closed (demo_credential a)) = 0" "c_original_fallback_price (cc_closed (demo_credential a)) = None"
  by (simp_all add: demo_credential_def closed_record_def demo_row_def flows_def no_flows_def Let_def)

lemma demo_logged [simp]: "ce_credential_ok demo_env l" "cb_credential_log (demo_core s m) = Some []"
  by (simp_all add: demo_env_def demo_core_def)

theorem credentials_survive_restart_witness:
  "cb_credentials (restore_close_credentials exact_dec ((run (credential_step exact_dec demo_env) (demo_core ome_new fresh_manager)
      [CoPush ''t1'' (demo_credential ''a''), CoPush ''t2'' (demo_credential ''b'')])\<lparr>cb_credentials := []\<rparr>)) =
    [(''t1'', demo_credential ''a''), (''t2'', demo_credential ''b'')]"
proof -
  let ?b = "demo_core ome_new fresh_manager"
  let ?ops = "[CoPush ''t1'' (demo_credential ''a''), CoPush ''t2'' (demo_credential ''b'')]"
  let ?s = "run (credential_step exact_dec demo_env) ?b ?ops"
  have fresh: "fresh_trades exact_dec demo_env ?b ?ops"
    by (simp add: push_close_credential_def CREDENTIAL_CAP_def)
  have "cb_credentials ?s = [(''t1'', demo_credential ''a''), (''t2'', demo_credential ''b'')]"
    by (simp add: push_close_credential_def CREDENTIAL_CAP_def)
  moreover have "readable exact_dec (demo_credential a)" "reread exact_dec (demo_credential a) = demo_credential a" for a
    by (simp_all add: readable_def reread_def demo_credential_unrebated wire_decimal_def)
  ultimately show ?thesis
    using credentials_survive_restart [OF _ _ _ fresh _ refl, of "?s\<lparr>cb_credentials := []\<rparr>"] by auto
qed

text \<open>The log knows a consumption by its trade alone. When one trade of the venue closed positions
  of two accounts and the later one is taken back, memory keeps the credential of the first account,
  but a restart brings back the one that was spent: the FAILED notice of the first account then finds
  nothing, and a second notice of the spent one would unwind its close twice.\<close>

theorem tombstone_takes_the_wrong_account:
  assumes "\<forall>l. ce_credential_ok E l" and "cb_credentials b = []" and "cb_credential_log b = Some []"
    and "t \<noteq> []" and "fd_trade_id d = t" and "p_account_id (cc_restored x) \<noteq> fd_account_id d"
    and "p_account_id (cc_restored y) = fd_account_id d"
    and "b' = run (credential_step D E) b [CoPush t x, CoPush t y, CoReverse d now]" and "readable D x" and "readable D y"
    and "cb_credential_log c = cb_credential_log b'" and "cb_credentials c = []"
  shows "cb_credentials b' = [(t, x)] \<and> cb_credentials (restore_close_credentials D c) = [(t, reread D y)]"
proof -
  have push: "cb_credentials (push_close_credential E t z s) = cb_credentials s @ [(t, z)] \<and>
      cb_credential_log (push_close_credential E t z s) = Some (map line_numbers (ls @ [CredPush t z]))"
    if "length (cb_credentials s) < CREDENTIAL_CAP" "cb_credential_log s = Some (map line_numbers ls)" for z s ls
    using that assms(1,4) by (cases "cb_credentials s") (simp_all add: push_close_credential_def append_credential_def Let_def)
  let ?s = "push_close_credential E t y (push_close_credential E t x b)"
  have s: "cb_credentials ?s = [(t, x), (t, y)]" "cb_credential_log ?s = Some (map line_numbers [CredPush t x, CredPush t y])"
    using push [of b "[]" x] push [of "push_close_credential E t x b" "[CredPush t x]" y] assms(2,3)
    by (simp_all add: CREDENTIAL_CAP_def)
  have "cb_credentials b' = [(t, x)]" "cb_credential_log b' = Some (map line_numbers [CredPush t x, CredPush t y, CredConsumed t])"
    using s assms(1,5-8) by (simp_all add: reverse_closed_def credential_for_def append_credential_def Let_def)
  then show ?thesis
    using assms(9-12) replay_reread [of "[CredPush t x, CredPush t y, CredConsumed t]" D "[]"]
    by (simp add: restore_close_credentials_def Let_def)
qed

theorem tombstone_takes_the_wrong_account_witness:
  "let b = run (credential_step exact_dec demo_env) (demo_core ome_new fresh_manager)
       [CoPush ''t1'' (demo_credential ''a''), CoPush ''t1'' (demo_credential ''b''), CoReverse unsell 7]
   in cb_credentials b = [(''t1'', demo_credential ''a'')] \<and>
     cb_credentials (restore_close_credentials exact_dec (b\<lparr>cb_credentials := []\<rparr>)) = [(''t1'', demo_credential ''b'')]"
proof -
  let ?b = "demo_core ome_new fresh_manager"
  let ?s = "run (credential_step exact_dec demo_env) ?b
    [CoPush ''t1'' (demo_credential ''a''), CoPush ''t1'' (demo_credential ''b''), CoReverse unsell 7]"
  have "fd_trade_id unsell = ''t1''" "fd_account_id unsell = AccountId ''b''" by (simp_all add: unsell_def)
  then show ?thesis
    using tombstone_takes_the_wrong_account [of demo_env ?b "''t1''" unsell "demo_credential ''a''" "demo_credential ''b''"
      ?s exact_dec 7 "?s\<lparr>cb_credentials := []\<rparr>"]
    by (simp add: Let_def readable_def reread_def demo_credential_unrebated wire_decimal_def)
qed

end
