(* ===== verification/Settlement.thy ===== *)
theory Settlement
  imports Position Stores
begin

text \<open>
  The settlement book (\<open>core/blitzkrieg_core/src/settlement.rs\<close>): which positions were settled, which
  payouts are still owed (claims), which complete pairs were burned and await their collateral
  (merges), which markets the venue was asked about, and the journal all of it is rebuilt from.
  Ordered maps are association lists in key order. \<open>None\<close> of \<open>stl_journal\<close> is a book without a file,
  \<open>Some f\<close> the file. Whether a line lands in the file is an argument of the operations that write.
\<close>

section \<open>The contract with the venue\<close>

record settlement_query =
  sq_condition_id :: string
  sq_token_ids :: "token_id list"
  sq_expires_at_ms :: int

record market_resolution =
  mr_condition_id :: string
  mr_resolved :: bool
  mr_payouts :: "(token_id \<times> decimal) list"
  mr_neg_risk :: bool
  mr_source :: string

definition payout_per_share :: "token_id \<Rightarrow> market_resolution \<Rightarrow> decimal option" where
  "payout_per_share t r = map_option snd (List.find (\<lambda>(u, _). u = t) (mr_payouts r))"

definition winning_token :: "market_resolution \<Rightarrow> token_id option" where
  "winning_token r = map_option fst (List.find (\<lambda>(_, p). p > 0) (mr_payouts r))"

record redemption_request =
  rdq_id :: string
  rdq_condition_id :: string
  rdq_neg_risk :: bool
  rdq_outcome_shares :: "decimal list"
  rdq_expected_payout_usd :: decimal
  rdq_winning_token_id :: token_id
  rdq_venue :: string

record redemption_failure =
  rf_message :: string
  rf_manual :: bool

record redemption_result =
  rr_id :: string
  rr_condition_id :: string
  rr_tx_hash :: "string option"
  rr_block_number :: "nat option"
  rr_failure :: "redemption_failure option"
  rr_at_ms :: int

record merge_request =
  mq_id :: string
  mq_condition_id :: string
  mq_neg_risk :: bool
  mq_pairs_usd :: decimal
  mq_venue :: string

record merge_result =
  mx_id :: string
  mx_condition_id :: string
  mx_tx_hash :: "string option"
  mx_block_number :: "nat option"
  mx_failure :: "redemption_failure option"
  mx_at_ms :: int

definition merge_success :: "merge_request \<Rightarrow> string \<Rightarrow> nat option \<Rightarrow> int \<Rightarrow> merge_result" where
  "merge_success r tx blk at0 = \<lparr>mx_id = mq_id r, mx_condition_id = mq_condition_id r, mx_tx_hash = Some tx,
     mx_block_number = blk, mx_failure = None, mx_at_ms = at0\<rparr>"

section \<open>Constants\<close>

definition RETRY_BASE_MS :: int where "RETRY_BASE_MS = 5000"
definition RETRY_MAX_MS :: int where "RETRY_MAX_MS = 300000"
definition REQUERY_MS :: int where "REQUERY_MS = 60000"
definition BLIND_AFTER_MS :: int where "BLIND_AFTER_MS = 300000"
definition EXPIRY_TRUST_MS :: int where "EXPIRY_TRUST_MS = 300000"
definition I64_MAX :: int where "I64_MAX = 2 ^ 63 - 1"

definition backoff_ms :: "nat \<Rightarrow> int" where
  "backoff_ms attempts = min (RETRY_BASE_MS * 2 ^ min (attempts - 1) 6) RETRY_MAX_MS"

section \<open>What a position books\<close>

record settlement_booking =
  bk_key :: string
  bk_position_id :: string
  bk_condition_id :: string
  bk_token_id :: token_id
  bk_strategy :: string
  bk_asset :: string
  bk_shares :: decimal
  bk_payout_per_share :: decimal
  bk_payout_usd :: decimal
  bk_winning :: bool
  bk_account_id :: string
  bk_venue :: string
  bk_outcome_index :: "nat option"
  bk_claim_id :: string

definition settlement_key :: "open_position \<Rightarrow> string" where
  "settlement_key p = p_condition_id p @ '':'' @ p_token_id p @ '':'' @ int_str (p_entered_at_ms p)"

fun index_where :: "('a \<Rightarrow> bool) \<Rightarrow> 'a list \<Rightarrow> nat option" where
  "index_where P [] = None"
| "index_where P (x # xs) = (if P x then Some 0 else map_option Suc (index_where P xs))"

definition booking_for :: "open_position \<Rightarrow> market_resolution \<Rightarrow> settlement_booking option" where
  "booking_for p r =
    (if p_condition_id p \<noteq> mr_condition_id r then None
     else map_option (\<lambda>pps. let sh = max (p_shares p) 0 in
       \<lparr>bk_key = settlement_key p, bk_position_id = p_id p, bk_condition_id = p_condition_id p,
        bk_token_id = p_token_id p, bk_strategy = p_strategy p, bk_asset = p_asset p, bk_shares = sh,
        bk_payout_per_share = pps, bk_payout_usd = sh * pps, bk_winning = pps > 0,
        bk_account_id = as_str (p_account_id p), bk_venue = p_venue p,
        bk_outcome_index = index_where (\<lambda>(t, _). t = p_token_id p) (mr_payouts r), bk_claim_id = []\<rparr>)
       (payout_per_share (p_token_id p) r))"

record settlement_record =
  srec_key :: string
  srec_position_id :: string
  srec_condition_id :: string
  srec_token_id :: token_id
  srec_strategy :: string
  srec_asset :: string
  srec_shares :: decimal
  srec_payout_per_share :: decimal
  srec_payout_usd :: decimal
  srec_winning :: bool
  srec_claim_id :: string
  srec_neg_risk :: bool
  srec_winning_token_id :: token_id
  srec_outcome_index :: "nat option"
  srec_outcome_count :: nat
  srec_source :: string
  srec_account_id :: string
  srec_venue :: string
  srec_applied_at_ms :: int

definition shares_at :: "nat \<Rightarrow> nat option \<Rightarrow> decimal \<Rightarrow> decimal list" where
  "shares_at n i sh = (let v = replicate n 0 in case i of Some k \<Rightarrow> v[k := sh] | None \<Rightarrow> v)"

definition settled_shares :: "settlement_record \<Rightarrow> decimal list" where
  "settled_shares r = shares_at (max (srec_outcome_count r) 2) (srec_outcome_index r) (srec_shares r)"

definition outcome_shares_for :: "market_resolution \<Rightarrow> settlement_booking \<Rightarrow> decimal list" where
  "outcome_shares_for r k = shares_at (max (length (mr_payouts r)) 2) (bk_outcome_index k) (bk_shares k)"

section \<open>State\<close>

record redemption_claim =
  rc_id :: string
  rc_condition_id :: string
  rc_account_id :: string
  rc_venue :: string
  rc_neg_risk :: bool
  rc_winning_token_id :: token_id
  rc_outcome_shares :: "decimal list"
  rc_payout_usd :: decimal
  rc_position_ids :: "string list"
  rc_created_at_ms :: int
  rc_attempts :: nat
  rc_next_attempt_ms :: int
  rc_manual :: bool
  rc_last_error :: "string option"
  rc_tx_hash :: "string option"
  rc_block_number :: "nat option"

definition claim_request :: "redemption_claim \<Rightarrow> redemption_request" where
  "claim_request c = \<lparr>rdq_id = rc_id c, rdq_condition_id = rc_condition_id c, rdq_neg_risk = rc_neg_risk c,
     rdq_outcome_shares = rc_outcome_shares c, rdq_expected_payout_usd = rc_payout_usd c,
     rdq_winning_token_id = rc_winning_token_id c, rdq_venue = rc_venue c\<rparr>"

record merge_claim =
  mcl_id :: string
  mcl_condition_id :: string
  mcl_account_id :: string
  mcl_venue :: string
  mcl_neg_risk :: bool
  mcl_pairs_usd :: decimal
  mcl_created_at_ms :: int
  mcl_attempts :: nat
  mcl_next_attempt_ms :: int
  mcl_manual :: bool
  mcl_last_error :: "string option"
  mcl_tx_hash :: "string option"
  mcl_block_number :: "nat option"

definition merge_request_of :: "merge_claim \<Rightarrow> merge_request" where
  "merge_request_of m = \<lparr>mq_id = mcl_id m, mq_condition_id = mcl_condition_id m, mq_neg_risk = mcl_neg_risk m,
     mq_pairs_usd = mcl_pairs_usd m, mq_venue = mcl_venue m\<rparr>"

record query_state =
  qs_condition_id :: string
  qs_token_ids :: "token_id list"
  qs_expires_at_ms :: int
  qs_first_sent_ms :: int
  qs_sent_at_ms :: int
  qs_next_query_ms :: int
  qs_answers :: nat

datatype journal_line =
    JSettlement int settlement_record
  | JClosed int string
  | JRedeemed int string "string option" "nat option"
  | JMergeBurned int string string string string bool decimal
  | JMergeConfirmed int string "string option" "nat option"

text \<open>Reading a line back: the amounts pass through \<open>wire_decimal\<close>.\<close>

definition read_settlement :: "dec_ops \<Rightarrow> settlement_record \<Rightarrow> settlement_record option" where
  "read_settlement D r = (case (wire_decimal D (srec_shares r), wire_decimal D (srec_payout_per_share r),
       wire_decimal D (srec_payout_usd r)) of
     (Some sh, Some pps, Some usd) \<Rightarrow> Some (r\<lparr>srec_shares := sh, srec_payout_per_share := pps, srec_payout_usd := usd\<rparr>)
   | _ \<Rightarrow> None)"

fun read_line :: "dec_ops \<Rightarrow> journal_line \<Rightarrow> journal_line option" where
  "read_line D (JSettlement t r) = map_option (JSettlement t) (read_settlement D r)"
| "read_line D (JMergeBurned t i c a v neg usd) = map_option (JMergeBurned t i c a v neg) (wire_decimal D usd)"
| "read_line D l = Some l"

record settlement_book =
  stl_applied :: "(string \<times> settlement_record) list"
  stl_closed :: "string set"
  stl_claims :: "(string \<times> redemption_claim) list"
  stl_redeemed :: "string set"
  stl_redeemed_per_condition :: "(string \<times> nat) list"
  stl_queries :: "(string \<times> query_state) list"
  stl_booked :: nat
  stl_blind_alerted :: bool
  stl_merges :: "(string \<times> merge_claim) list"
  stl_merged :: "string set"
  stl_journal :: "journal_line lines option"

definition journal_append :: "bool \<Rightarrow> journal_line \<Rightarrow> settlement_book \<Rightarrow> settlement_book" where
  "journal_append ok l b = b\<lparr>stl_journal := map_option (append_to ok l) (stl_journal b)\<rparr>"

definition redeemed_count_of :: "string \<Rightarrow> settlement_book \<Rightarrow> nat" where
  "redeemed_count_of c b = (case map_of (stl_redeemed_per_condition b) c of Some n \<Rightarrow> n | None \<Rightarrow> 0)"

definition count_redeemed :: "string \<Rightarrow> settlement_book \<Rightarrow> settlement_book" where
  "count_redeemed c b = b\<lparr>stl_redeemed_per_condition :=
     bt_insert c (redeemed_count_of c b + 1) (stl_redeemed_per_condition b)\<rparr>"

section \<open>Folding a leg into a claim\<close>

definition add_shares :: "decimal list \<Rightarrow> decimal list \<Rightarrow> decimal list" where
  "add_shares xs ys = (let n = max (length xs) (length ys); pad = (\<lambda>v. v @ replicate (n - length v) 0)
     in map2 (+) (pad xs) (pad ys))"

definition fresh_claim :: "string \<Rightarrow> string \<Rightarrow> string \<Rightarrow> string \<Rightarrow> bool \<Rightarrow> token_id \<Rightarrow> int \<Rightarrow> redemption_claim" where
  "fresh_claim i cond account venue neg win now =
    \<lparr>rc_id = i, rc_condition_id = cond, rc_account_id = account, rc_venue = venue, rc_neg_risk = neg,
     rc_winning_token_id = win, rc_outcome_shares = [], rc_payout_usd = 0, rc_position_ids = [],
     rc_created_at_ms = now, rc_attempts = 0, rc_next_attempt_ms = 0, rc_manual = False,
     rc_last_error = None, rc_tx_hash = None, rc_block_number = None\<rparr>"

definition fold_leg ::
  "decimal list \<Rightarrow> decimal \<Rightarrow> string \<Rightarrow> bool \<Rightarrow> string \<Rightarrow> token_id \<Rightarrow> redemption_claim \<Rightarrow> redemption_claim" where
  "fold_leg sh usd pid neg venue win c =
    c\<lparr>rc_outcome_shares := add_shares (rc_outcome_shares c) sh, rc_payout_usd := rc_payout_usd c + usd,
      rc_position_ids := rc_position_ids c @ [pid], rc_neg_risk := neg,
      rc_venue := (if rc_venue c = [] then venue else rc_venue c),
      rc_winning_token_id := (if rc_winning_token_id c = [] then win else rc_winning_token_id c)\<rparr>"

definition entry_or :: "string \<Rightarrow> 'v \<Rightarrow> (string \<times> 'v) list \<Rightarrow> 'v" where
  "entry_or i v m = (case map_of m i of Some c \<Rightarrow> c | None \<Rightarrow> v)"

section \<open>Replay\<close>

definition replay_settlement :: "settlement_record \<Rightarrow> settlement_book \<Rightarrow> settlement_book" where
  "replay_settlement r b =
    (let b1 = (if srec_claim_id r = [] then b
       else b\<lparr>stl_claims := bt_insert (srec_claim_id r)
          (fold_leg (settled_shares r) (srec_payout_usd r) (srec_position_id r) (srec_neg_risk r) (srec_venue r)
             (srec_winning_token_id r)
             (entry_or (srec_claim_id r) (fresh_claim (srec_claim_id r) (srec_condition_id r) (srec_account_id r)
                (srec_venue r) (srec_neg_risk r) (srec_winning_token_id r) (srec_applied_at_ms r)) (stl_claims b)))
          (stl_claims b)\<rparr>)
     in b1\<lparr>stl_applied := bt_insert (srec_key r) r (stl_applied b1)\<rparr>)"

definition new_merge_claim :: "string \<Rightarrow> string \<Rightarrow> string \<Rightarrow> string \<Rightarrow> bool \<Rightarrow> decimal \<Rightarrow> int \<Rightarrow> merge_claim" where
  "new_merge_claim i cond account venue neg usd now =
    \<lparr>mcl_id = i, mcl_condition_id = cond, mcl_account_id = account, mcl_venue = venue, mcl_neg_risk = neg,
     mcl_pairs_usd = usd, mcl_created_at_ms = now, mcl_attempts = 0, mcl_next_attempt_ms = 0, mcl_manual = False,
     mcl_last_error = None, mcl_tx_hash = None, mcl_block_number = None\<rparr>"

fun replay :: "journal_line \<Rightarrow> settlement_book \<Rightarrow> settlement_book" where
  "replay (JSettlement t r) b = replay_settlement r b"
| "replay (JClosed t key) b = b\<lparr>stl_closed := insert key (stl_closed b)\<rparr>"
| "replay (JRedeemed t i tx blk) b =
    (let b1 = (case map_of (stl_claims b) i of
         Some c \<Rightarrow> count_redeemed (rc_condition_id c) (b\<lparr>stl_claims := AList.delete i (stl_claims b)\<rparr>)
       | None \<Rightarrow> b)
     in b1\<lparr>stl_redeemed := insert i (stl_redeemed b1)\<rparr>)"
| "replay (JMergeBurned t i cond account venue neg usd) b =
    b\<lparr>stl_merges := bt_insert i (entry_or i (new_merge_claim i cond account venue neg usd t) (stl_merges b))
       (stl_merges b)\<rparr>"
| "replay (JMergeConfirmed t i tx blk) b =
    b\<lparr>stl_merges := AList.delete i (stl_merges b), stl_merged := insert i (stl_merged b)\<rparr>"

definition settlement_empty :: "journal_line lines option \<Rightarrow> settlement_book" where
  "settlement_empty f = \<lparr>stl_applied = [], stl_closed = {}, stl_claims = [], stl_redeemed = {},
     stl_redeemed_per_condition = [], stl_queries = [], stl_booked = 0, stl_blind_alerted = False,
     stl_merges = [], stl_merged = {}, stl_journal = f\<rparr>"

definition settlement_book_new :: "dec_ops \<Rightarrow> journal_line lines option \<Rightarrow> settlement_book" where
  "settlement_book_new D f = (case f of None \<Rightarrow> settlement_empty None
     | Some ls \<Rightarrow> fold replay (List.map_filter (read_line D) (load_lines ls)) (settlement_empty f))"

section \<open>Amounts owed\<close>

definition is_applied :: "string \<Rightarrow> settlement_book \<Rightarrow> bool" where
  "is_applied key b \<longleftrightarrow> map_of (stl_applied b) key \<noteq> None"

definition receivable_usd :: "settlement_book \<Rightarrow> decimal" where
  "receivable_usd b = fold (\<lambda>(_, c) a. a + rc_payout_usd c) (stl_claims b) 0"

definition receivable_usd_for :: "string \<Rightarrow> settlement_book \<Rightarrow> decimal" where
  "receivable_usd_for account b =
     fold (\<lambda>(_, c) a. a + rc_payout_usd c) (filter (\<lambda>(_, c). rc_account_id c = account) (stl_claims b)) 0"

definition merge_receivable_usd :: "settlement_book \<Rightarrow> decimal" where
  "merge_receivable_usd b = fold (\<lambda>(_, m) a. a + mcl_pairs_usd m) (stl_merges b) 0"

definition merge_receivable_usd_for :: "string \<Rightarrow> settlement_book \<Rightarrow> decimal" where
  "merge_receivable_usd_for account b =
     fold (\<lambda>(_, m) a. a + mcl_pairs_usd m) (filter (\<lambda>(_, m). mcl_account_id m = account) (stl_merges b)) 0"

definition retryable_claim_count :: "settlement_book \<Rightarrow> nat" where
  "retryable_claim_count b = length (filter (\<lambda>(_, c). \<not> rc_manual c) (stl_claims b))"

definition manual_claim_count :: "settlement_book \<Rightarrow> nat" where
  "manual_claim_count b = length (filter (\<lambda>(_, c). rc_manual c) (stl_claims b))"

definition settlement_last_error :: "settlement_book \<Rightarrow> (string \<times> string \<times> bool) option" where
  "settlement_last_error b =
    (let es = List.map_filter (\<lambda>(_, c). map_option (\<lambda>e. (rc_id c, e, rc_manual c)) (rc_last_error c)) (stl_claims b)
     in if es = [] then None else Some (last es))"

section \<open>Queries\<close>

text \<open>The smallest of a list, \<open>None\<close> of none.\<close>

fun min_of :: "int list \<Rightarrow> int option" where
  "min_of [] = None"
| "min_of (x # xs) = Some (case min_of xs of None \<Rightarrow> x | Some y \<Rightarrow> min x y)"

definition min_or_max :: "int list \<Rightarrow> int" where
  "min_or_max xs = (case min_of xs of Some t \<Rightarrow> t | None \<Rightarrow> I64_MAX)"

lemma min_or_max_le: "x \<in> set xs \<Longrightarrow> min_or_max xs \<le> x"
proof -
  assume "x \<in> set xs"
  then have "\<exists>y. min_of xs = Some y \<and> y \<le> x" by (induction xs) (fastforce split: option.splits)+
  then show ?thesis by (fastforce simp: min_or_max_def)
qed

definition sign_of_life :: "query_state \<Rightarrow> int" where
  "sign_of_life q = max (qs_first_sent_ms q) (qs_next_query_ms q - REQUERY_MS)"

definition blind_since_ms :: "int \<Rightarrow> settlement_book \<Rightarrow> int option" where
  "blind_since_ms now b =
    (case min_of (map (sign_of_life \<circ> snd) (filter (\<lambda>(_, q). qs_first_sent_ms q > 0) (stl_queries b))) of
       Some t \<Rightarrow> if now - t > BLIND_AFTER_MS then Some t else None
     | None \<Rightarrow> None)"

definition note_blind_state :: "bool \<Rightarrow> settlement_book \<Rightarrow> settlement_book \<times> bool" where
  "note_blind_state blind b = (b\<lparr>stl_blind_alerted := blind\<rparr>, blind \<and> \<not> stl_blind_alerted b)"

definition unanswered_since :: "int \<Rightarrow> int \<Rightarrow> settlement_book \<Rightarrow> (string \<times> int) list" where
  "unanswered_since min_ms now b = map (\<lambda>(_, q). (qs_condition_id q, qs_first_sent_ms q))
     (filter (\<lambda>(_, q). qs_answers q = 0 \<and> qs_first_sent_ms q > 0 \<and> now - qs_first_sent_ms q > min_ms) (stl_queries b))"

definition watchable :: "int \<Rightarrow> open_position \<Rightarrow> bool" where
  "watchable now p \<longleftrightarrow> \<not> (p_condition_id p = [] \<or> p_expires_at_ms p > now \<or>
     p_entered_at_ms p - p_expires_at_ms p > EXPIRY_TRUST_MS)"

definition track_market :: "int \<Rightarrow> open_position \<Rightarrow> settlement_book \<times> nat \<Rightarrow> settlement_book \<times> nat" where
  "track_market now p acc = (let (b, added) = acc in
    if \<not> watchable now p then (b, added)
    else case map_of (stl_queries b) (p_condition_id p) of
      Some q \<Rightarrow> ((if p_token_id p \<in> set (qs_token_ids q) then b
        else b\<lparr>stl_queries := bt_insert (p_condition_id p)
               (q\<lparr>qs_token_ids := qs_token_ids q @ [p_token_id p]\<rparr>) (stl_queries b)\<rparr>), added)
    | None \<Rightarrow> (b\<lparr>stl_queries := bt_insert (p_condition_id p)
          \<lparr>qs_condition_id = p_condition_id p, qs_token_ids = [p_token_id p], qs_expires_at_ms = p_expires_at_ms p,
           qs_first_sent_ms = 0, qs_sent_at_ms = 0, qs_next_query_ms = 0, qs_answers = 0\<rparr> (stl_queries b)\<rparr>,
        added + 1))"

definition track_markets :: "open_position list \<Rightarrow> int \<Rightarrow> settlement_book \<Rightarrow> settlement_book \<times> nat" where
  "track_markets ps now b = fold (track_market now) ps (b, 0)"

definition query_due :: "int \<Rightarrow> query_state \<Rightarrow> bool" where
  "query_due now q \<longleftrightarrow> \<not> ((qs_sent_at_ms q > 0 \<and> now - qs_sent_at_ms q \<le> REQUERY_MS) \<or>
     (qs_sent_at_ms q = 0 \<and> now < qs_next_query_ms q))"

definition send_query :: "int \<Rightarrow> query_state \<Rightarrow> query_state" where
  "send_query now q = q\<lparr>qs_first_sent_ms := (if qs_first_sent_ms q = 0 then now else qs_first_sent_ms q),
     qs_sent_at_ms := now\<rparr>"

definition query_of :: "query_state \<Rightarrow> settlement_query" where
  "query_of q = \<lparr>sq_condition_id = qs_condition_id q, sq_token_ids = qs_token_ids q,
     sq_expires_at_ms = qs_expires_at_ms q\<rparr>"

definition take_queries :: "int \<Rightarrow> settlement_book \<Rightarrow> settlement_book \<times> settlement_query list" where
  "take_queries now b =
    (b\<lparr>stl_queries := map (\<lambda>(i, q). (i, if query_due now q then send_query now q else q)) (stl_queries b)\<rparr>,
     map (\<lambda>(_, q). query_of q) (filter (\<lambda>(_, q). query_due now q) (stl_queries b)))"

definition note_answer :: "string \<Rightarrow> int \<Rightarrow> settlement_book \<Rightarrow> settlement_book" where
  "note_answer cond now b = (case map_of (stl_queries b) cond of
     Some q \<Rightarrow> b\<lparr>stl_queries := bt_insert cond (q\<lparr>qs_answers := qs_answers q + 1, qs_sent_at_ms := 0,
         qs_next_query_ms := now + REQUERY_MS\<rparr>) (stl_queries b)\<rparr>
   | None \<Rightarrow> b)"

definition forget_market :: "string \<Rightarrow> settlement_book \<Rightarrow> settlement_book" where
  "forget_market cond b = b\<lparr>stl_queries := AList.delete cond (stl_queries b)\<rparr>"

definition next_query_deadline_ms :: "settlement_book \<Rightarrow> int" where
  "next_query_deadline_ms b = min_or_max (map (\<lambda>(_, q). if qs_sent_at_ms q > 0 then qs_sent_at_ms q + REQUERY_MS
     else qs_next_query_ms q) (stl_queries b))"

section \<open>Booking a settlement\<close>

definition claim_id_for :: "string \<Rightarrow> string \<Rightarrow> settlement_book \<Rightarrow> string" where
  "claim_id_for cond account b = (let used = redeemed_count_of cond b in
     if used = 0 \<and> map_of (stl_claims b) cond = None then cond
     else cond @ ''#'' @ nat_str (used + 1))"

definition accumulate_claim :: "string \<Rightarrow> settlement_booking \<Rightarrow> market_resolution \<Rightarrow> decimal list \<Rightarrow> token_id \<Rightarrow>
    int \<Rightarrow> settlement_book \<Rightarrow> settlement_book" where
  "accumulate_claim i k r sh win now b = b\<lparr>stl_claims := bt_insert i
     (fold_leg sh (bk_payout_usd k) (bk_position_id k) (mr_neg_risk r) (bk_venue k) win
        (entry_or i (fresh_claim i (bk_condition_id k) (bk_account_id k) (bk_venue k) (mr_neg_risk r) win now)
           (stl_claims b))) (stl_claims b)\<rparr>"

definition open_claim_of :: "settlement_booking \<Rightarrow> settlement_book \<Rightarrow> string option" where
  "open_claim_of k b = map_option (rc_id \<circ> snd) (List.find (\<lambda>(_, c). rc_condition_id c = bk_condition_id k \<and>
     rc_account_id c = bk_account_id k) (stl_claims b))"

definition claim_for :: "settlement_booking \<Rightarrow> settlement_book \<Rightarrow> string option" where
  "claim_for k b = (if bk_payout_usd k > 0
     then Some (case open_claim_of k b of Some i \<Rightarrow> i | None \<Rightarrow> claim_id_for (bk_condition_id k) (bk_account_id k) b)
     else open_claim_of k b)"

definition winner_or_own :: "market_resolution \<Rightarrow> settlement_booking \<Rightarrow> token_id" where
  "winner_or_own r k = (case winning_token r of Some t \<Rightarrow> t | None \<Rightarrow> bk_token_id k)"

definition record_for :: "settlement_booking \<Rightarrow> market_resolution \<Rightarrow> string option \<Rightarrow> int \<Rightarrow> settlement_record" where
  "record_for k r i now =
    \<lparr>srec_key = bk_key k, srec_position_id = bk_position_id k, srec_condition_id = bk_condition_id k,
     srec_token_id = bk_token_id k, srec_strategy = bk_strategy k, srec_asset = bk_asset k, srec_shares = bk_shares k,
     srec_payout_per_share = bk_payout_per_share k, srec_payout_usd = bk_payout_usd k, srec_winning = bk_winning k,
     srec_claim_id = (case i of Some s \<Rightarrow> s | None \<Rightarrow> []), srec_neg_risk = mr_neg_risk r,
     srec_winning_token_id = winner_or_own r k, srec_outcome_index = bk_outcome_index k,
     srec_outcome_count = max (length (mr_payouts r)) 2, srec_source = mr_source r, srec_account_id = bk_account_id k,
     srec_venue = bk_venue k, srec_applied_at_ms = now\<rparr>"

definition book_settlement :: "bool \<Rightarrow> settlement_booking \<Rightarrow> market_resolution \<Rightarrow> int \<Rightarrow> settlement_book \<Rightarrow>
    settlement_book \<times> settlement_booking option" where
  "book_settlement ok k r now b =
    (if is_applied (bk_key k) b then (b, None)
     else let i = claim_for k b;
         b1 = (case i of Some s \<Rightarrow> accumulate_claim s k r (outcome_shares_for r k) (winner_or_own r k) now b
           | None \<Rightarrow> b);
         rcd = record_for k r i now;
         b2 = b1\<lparr>stl_applied := bt_insert (srec_key rcd) rcd (stl_applied b1), stl_booked := stl_booked b1 + 1\<rparr>
       in (journal_append ok (JSettlement now rcd) b2, Some (k\<lparr>bk_claim_id := srec_claim_id rcd\<rparr>)))"

definition recover :: "open_position list \<Rightarrow> settlement_book \<Rightarrow> open_position list" where
  "recover ps b = filter (\<lambda>p. is_applied (settlement_key p) b \<and> settlement_key p \<notin> stl_closed b) ps"

definition note_closed :: "bool \<Rightarrow> string \<Rightarrow> int \<Rightarrow> settlement_book \<Rightarrow> settlement_book" where
  "note_closed ok key now b = (if key \<in> stl_closed b then b
     else journal_append ok (JClosed now key) (b\<lparr>stl_closed := insert key (stl_closed b)\<rparr>))"

section \<open>Redemption\<close>

definition claim_due :: "int \<Rightarrow> redemption_claim \<Rightarrow> bool" where
  "claim_due now c \<longleftrightarrow> \<not> rc_manual c \<and> rc_next_attempt_ms c \<le> now"

definition attempt_claim :: "int \<Rightarrow> redemption_claim \<Rightarrow> redemption_claim" where
  "attempt_claim now c = c\<lparr>rc_attempts := rc_attempts c + 1, rc_next_attempt_ms := now + backoff_ms (rc_attempts c + 1)\<rparr>"

text \<open>Stamp each of the claims listed and hand its request out.\<close>

definition dispatch_claim :: "int \<Rightarrow> string \<Rightarrow> settlement_book \<times> redemption_request list \<Rightarrow>
    settlement_book \<times> redemption_request list" where
  "dispatch_claim now i acc = (let (b, out) = acc in case map_of (stl_claims b) i of
     Some c \<Rightarrow> (b\<lparr>stl_claims := bt_insert i (attempt_claim now c) (stl_claims b)\<rparr>,
       out @ [claim_request (attempt_claim now c)])
   | None \<Rightarrow> (b, out))"

definition take_redemptions :: "int \<Rightarrow> settlement_book \<Rightarrow> settlement_book \<times> redemption_request list" where
  "take_redemptions now b = fold (dispatch_claim now)
     (map (rc_id \<circ> snd) (filter (claim_due now \<circ> snd) (stl_claims b))) (b, [])"

definition for_venue :: "string \<Rightarrow> bool \<Rightarrow> string \<Rightarrow> bool" where
  "for_venue venue untagged_fallback v \<longleftrightarrow> v = venue \<or> (untagged_fallback \<and> v = [])"

definition take_redemptions_for_venue ::
  "string \<Rightarrow> bool \<Rightarrow> int \<Rightarrow> settlement_book \<Rightarrow> settlement_book \<times> redemption_request list" where
  "take_redemptions_for_venue venue fallback now b = fold (dispatch_claim now)
     (map (rc_id \<circ> snd) (filter (\<lambda>(_, c). claim_due now c \<and> for_venue venue fallback (rc_venue c)) (stl_claims b)))
     (b, [])"

definition next_redemption_ms :: "settlement_book \<Rightarrow> int" where
  "next_redemption_ms b = min_or_max (map (rc_next_attempt_ms \<circ> snd) (filter (\<lambda>(_, c). \<not> rc_manual c) (stl_claims b)))"

definition note_failure :: "string \<Rightarrow> redemption_failure \<Rightarrow> int \<Rightarrow> settlement_book \<Rightarrow> settlement_book \<times> bool" where
  "note_failure i f now b = (case map_of (stl_claims b) i of None \<Rightarrow> (b, False)
     | Some c \<Rightarrow> (b\<lparr>stl_claims := bt_insert i (c\<lparr>rc_last_error := Some (rf_message f), rc_manual := rf_manual f,
           rc_next_attempt_ms := (if rf_manual f then I64_MAX else now + backoff_ms (rc_attempts c))\<rparr>) (stl_claims b)\<rparr>,
         True))"

definition note_confirmed :: "bool \<Rightarrow> string \<Rightarrow> string option \<Rightarrow> nat option \<Rightarrow> int \<Rightarrow> settlement_book \<Rightarrow>
    settlement_book \<times> (string \<times> decimal) option" where
  "note_confirmed ok i tx blk now b = (case map_of (stl_claims b) i of None \<Rightarrow> (b, None)
     | Some c \<Rightarrow> (let b1 = count_redeemed (rc_condition_id c) (b\<lparr>stl_claims := AList.delete i (stl_claims b)\<rparr>)
         in (journal_append ok (JRedeemed now i tx blk) (b1\<lparr>stl_redeemed := insert i (stl_redeemed b1)\<rparr>),
             Some (rc_account_id c, rc_payout_usd c))))"

section \<open>Merges\<close>

definition merge_id_taken :: "settlement_book \<Rightarrow> string \<Rightarrow> bool" where
  "merge_id_taken b i \<longleftrightarrow> map_of (stl_merges b) i \<noteq> None \<or> i \<in> stl_merged b"

definition merge_name :: "string \<Rightarrow> nat \<Rightarrow> string" where
  "merge_name cond n = (if n = 1 then cond @ ''#merge'' else cond @ ''#merge-'' @ nat_str n)"

text \<open>The loop: it tries the next number until a name is free; \<open>None\<close> would be a loop that never ends.\<close>

partial_function (option) free_merge_number :: "(nat \<Rightarrow> bool) \<Rightarrow> nat \<Rightarrow> nat option" where
  [code]: "free_merge_number taken n = (if taken n then free_merge_number taken (n + 1) else Some n)"

definition note_merge_burned_inner :: "bool \<Rightarrow> string \<Rightarrow> string \<Rightarrow> string \<Rightarrow> string \<Rightarrow> bool \<Rightarrow> decimal \<Rightarrow> int \<Rightarrow>
    settlement_book \<Rightarrow> settlement_book" where
  "note_merge_burned_inner ok i cond account venue neg pairs now b =
     journal_append ok (JMergeBurned now i cond account venue neg pairs)
       (b\<lparr>stl_merges := bt_insert i (new_merge_claim i cond account venue neg pairs now) (stl_merges b)\<rparr>)"

definition note_merge_burned :: "bool \<Rightarrow> string \<Rightarrow> string \<Rightarrow> string \<Rightarrow> bool \<Rightarrow> decimal \<Rightarrow> int \<Rightarrow> settlement_book \<Rightarrow>
    (settlement_book \<times> string) option" where
  "note_merge_burned ok cond account venue neg pairs now b =
     map_option (\<lambda>n. (note_merge_burned_inner ok (merge_name cond n) cond account venue neg pairs now b, merge_name cond n))
       (free_merge_number (\<lambda>n. merge_id_taken b (merge_name cond n)) 1)"

definition merge_due :: "int \<Rightarrow> merge_claim \<Rightarrow> bool" where
  "merge_due now m \<longleftrightarrow> \<not> mcl_manual m \<and> mcl_next_attempt_ms m \<le> now"

definition attempt_merge :: "int \<Rightarrow> merge_claim \<Rightarrow> merge_claim" where
  "attempt_merge now m = m\<lparr>mcl_attempts := mcl_attempts m + 1, mcl_next_attempt_ms := now + backoff_ms (mcl_attempts m + 1)\<rparr>"

definition dispatch_merge :: "int \<Rightarrow> string \<Rightarrow> settlement_book \<times> merge_request list \<Rightarrow>
    settlement_book \<times> merge_request list" where
  "dispatch_merge now i acc = (let (b, out) = acc in case map_of (stl_merges b) i of
     Some m \<Rightarrow> (b\<lparr>stl_merges := bt_insert i (attempt_merge now m) (stl_merges b)\<rparr>,
       out @ [merge_request_of (attempt_merge now m)])
   | None \<Rightarrow> (b, out))"

definition take_merges :: "int \<Rightarrow> settlement_book \<Rightarrow> settlement_book \<times> merge_request list" where
  "take_merges now b = fold (dispatch_merge now)
     (map (mcl_id \<circ> snd) (filter (merge_due now \<circ> snd) (stl_merges b))) (b, [])"

definition take_merges_for_venue ::
  "string \<Rightarrow> bool \<Rightarrow> int \<Rightarrow> settlement_book \<Rightarrow> settlement_book \<times> merge_request list" where
  "take_merges_for_venue venue fallback now b = fold (dispatch_merge now)
     (map (mcl_id \<circ> snd) (filter (\<lambda>(_, m). merge_due now m \<and> for_venue venue fallback (mcl_venue m)) (stl_merges b)))
     (b, [])"

definition next_merge_ms :: "settlement_book \<Rightarrow> int" where
  "next_merge_ms b = min_or_max (map (mcl_next_attempt_ms \<circ> snd) (filter (\<lambda>(_, m). \<not> mcl_manual m) (stl_merges b)))"

definition note_merge_failure :: "string \<Rightarrow> redemption_failure \<Rightarrow> int \<Rightarrow> settlement_book \<Rightarrow> settlement_book \<times> bool" where
  "note_merge_failure i f now b = (case map_of (stl_merges b) i of None \<Rightarrow> (b, False)
     | Some m \<Rightarrow> (b\<lparr>stl_merges := bt_insert i (m\<lparr>mcl_last_error := Some (rf_message f), mcl_manual := rf_manual f,
           mcl_next_attempt_ms := (if rf_manual f then I64_MAX else now + backoff_ms (mcl_attempts m))\<rparr>) (stl_merges b)\<rparr>,
         True))"

definition note_merge_confirmed :: "bool \<Rightarrow> string \<Rightarrow> string option \<Rightarrow> nat option \<Rightarrow> int \<Rightarrow> settlement_book \<Rightarrow>
    settlement_book \<times> (string \<times> decimal) option" where
  "note_merge_confirmed ok i tx blk now b = (case map_of (stl_merges b) i of None \<Rightarrow> (b, None)
     | Some m \<Rightarrow> (journal_append ok (JMergeConfirmed now i tx blk)
           (b\<lparr>stl_merges := AList.delete i (stl_merges b), stl_merged := insert i (stl_merged b)\<rparr>),
         Some (mcl_account_id m, mcl_pairs_usd m)))"

end
