(* ===== verification/SettlementCore.thy ===== *)
theory SettlementCore
  imports Settlement Booking
begin

text \<open>
  The service's side of settlement (\<open>service/settlement_orders/settlement.rs\<close>): the watch on expired
  markets, the booking of a resolution (close, record, receivable), the redemption and merge results
  that turn a receivable into cash, the dry mode's own answers, the fallback for markets nobody
  answers, the operator's close, and the recovery after a crash between journal and close.
  \<open>settle_core\<close> is the books of \<open>Booking\<close> with the settlement book, the mirrored order books and the
  marks of the replay scheduler; the environment's answers to writes are in \<open>settle_env\<close>. The panel's slot
  for the last error is not part of it.
\<close>

section \<open>State\<close>

record settle_env =
  se_core :: core_env
  se_journal_ok :: "string \<Rightarrow> bool"
  se_io :: "string \<Rightarrow> io"
  se_mode :: mode
  se_dry_redeem_fail :: nat
  se_dry_redeem_manual :: bool
  se_audit_path :: "string option"
  se_audit_ok :: bool

text \<open>The operator's fingerprint on a manual close, a line of the audit file.\<close>

record manual_op =
  mop_at_ms :: int
  mop_actor :: string
  mop_position_id :: string
  mop_condition_id :: string
  mop_token_id :: token_id
  mop_account_id :: account_id
  mop_strategy :: string
  mop_shares :: decimal
  mop_price :: decimal

record settle_core =
  sc_core :: core_books
  sc_settlement :: settlement_book
  sc_active :: account_id
  sc_archive_verdicts :: "string set"
  sc_mirror :: "(token_id \<times> sim_book) list"
  sc_next_expiry_ms :: int
  sc_manual_ops :: "manual_op list"

definition sc_emit :: "core_event \<Rightarrow> settle_core \<Rightarrow> settle_core" where
  "sc_emit ev c = c\<lparr>sc_core := emit ev (sc_core c)\<rparr>"

definition sc_positions :: "settle_core \<Rightarrow> open_position list" where
  "sc_positions c = pm_open (cb_positions (sc_core c))"

definition sc_persist :: "settle_env \<Rightarrow> settle_core \<Rightarrow> settle_core" where
  "sc_persist V c = c\<lparr>sc_core := persist_positions (se_core V) (sc_core c)\<rparr>"

section \<open>The watch\<close>

definition forget_gone :: "string set \<Rightarrow> settlement_book \<Rightarrow> settlement_book" where
  "forget_gone held_ids b = fold (\<lambda>i a. if i \<in> held_ids then a else forget_market i a) (map fst (stl_queries b)) b"

definition sync_settlement_watch :: "core_config \<Rightarrow> int \<Rightarrow> settle_core \<Rightarrow> settle_core" where
  "sync_settlement_watch G now c =
    (if cg_replay_sched G \<and> \<not> fp_positions_dirty (cb_fast (sc_core c)) \<and> now < sc_next_expiry_ms c then c
     else let ps = filter (\<lambda>p. p_condition_id p \<notin> sc_archive_verdicts c) (sc_positions c);
         b = forget_gone (set (map p_condition_id ps)) (fst (track_markets ps now (sc_settlement c)));
         c1 = c\<lparr>sc_settlement := b\<rparr>
       in if cg_replay_sched G
          then c1\<lparr>sc_core := (sc_core c1)\<lparr>cb_fast := (cb_fast (sc_core c1))\<lparr>fp_positions_dirty := False\<rparr>\<rparr>,
             sc_next_expiry_ms := min_or_max (filter (\<lambda>t. t > now) (map p_expires_at_ms (sc_positions c)))\<rparr>
          else c1)"

definition take_settlement_queries :: "core_config \<Rightarrow> int \<Rightarrow> settle_core \<Rightarrow> settle_core \<times> settlement_query list" where
  "take_settlement_queries G now c =
    (let c1 = sync_settlement_watch G now c; (b, qs) = take_queries now (sc_settlement c1)
     in (c1\<lparr>sc_settlement := b\<rparr>, qs))"

section \<open>A resolution arrives\<close>

text \<open>One position of the market: commit, close at the payout, write the record, mark it closed. The
  accumulator counts the closes and the payouts and collects what the resolution does not price.\<close>

definition settle_position ::
  "dec_ops \<Rightarrow> core_config \<Rightarrow> settle_env \<Rightarrow> fee_schedule option \<Rightarrow> market_resolution \<Rightarrow> int \<Rightarrow> open_position
     \<Rightarrow> settle_core \<times> nat \<times> decimal \<times> open_position list \<Rightarrow> settle_core \<times> nat \<times> decimal \<times> open_position list" where
  "settle_position D G V st r now p acc = (let (c, settled, usd, unpriced) = acc in
    case booking_for p r of
      None \<Rightarrow> (c, settled, usd, unpriced @ [p])
    | Some k \<Rightarrow> (case book_settlement (se_journal_ok V (bk_key k)) k r now (sc_settlement c) of
        (b, None) \<Rightarrow> (c\<lparr>sc_settlement := b\<rparr>, settled, usd, unpriced)
      | (b, Some k1) \<Rightarrow>
          (case close_pm D st (bk_position_id k1) (bk_payout_per_share k1) Settlement True now ''venue''
                 (cb_positions (sc_core c)) of
             (m, None) \<Rightarrow> (c\<lparr>sc_settlement := b\<rparr>, settled, usd + bk_payout_usd k1, unpriced)
           | (m, Some shut) \<Rightarrow>
               (sc_persist V (c\<lparr>sc_core := on_position_closed D G (se_core V) shut now
                    ((sc_core c)\<lparr>cb_positions := m\<rparr>),
                  sc_settlement := note_closed (se_journal_ok V (bk_key k1)) (bk_key k1) now b\<rparr>),
                settled + 1, usd + bk_payout_usd k1, unpriced))))"

definition resolution_order :: "market_resolution \<Rightarrow> open_position list \<Rightarrow> open_position list" where
  "resolution_order r ps = sort_key (\<lambda>p. - (case payout_per_share (p_token_id p) r of Some v \<Rightarrow> v | None \<Rightarrow> 0)) ps"

definition settled_alert :: "nat \<Rightarrow> string \<Rightarrow> decimal \<Rightarrow> core_event" where
  "settled_alert n cond usd = EvRiskAlert Internal [Txt ''settled '', Num (int n), Txt '' position(s) on '', Txt cond,
     Txt '' - '', Dec usd, Txt '' USDC receivable pending redemption'']"

fun comma_separated :: "message list \<Rightarrow> message" where
  "comma_separated [] = []"
| "comma_separated [x] = x"
| "comma_separated (x # y # xs) = x @ [Txt '', ''] @ comma_separated (y # xs)"

definition unpriced_error :: "market_resolution \<Rightarrow> open_position list \<Rightarrow> core_event" where
  "unpriced_error r ps = EvError (core_error_new Internal
     ([Txt ''settlement: resolution of '', Txt (mr_condition_id r), Txt '' (source '', Txt (mr_source r),
       Txt '') prices no outcome for ''] @
      comma_separated (map (\<lambda>p. [Txt (p_token_id p), Txt '' (position '', Txt (p_id p), Txt '')'']) ps) @
      [Txt '' - left open'']))"

definition on_market_resolution ::
  "dec_ops \<Rightarrow> core_config \<Rightarrow> settle_env \<Rightarrow> fee_schedule option \<Rightarrow> market_resolution \<Rightarrow> int \<Rightarrow> settle_core \<Rightarrow> settle_core" where
  "on_market_resolution D G V st r now c =
    (let c1 = c\<lparr>sc_settlement := note_answer (mr_condition_id r) now (sc_settlement c)\<rparr> in
     if \<not> mr_resolved r then c1
     else let ps = resolution_order r (filter (\<lambda>p. p_condition_id p = mr_condition_id r) (sc_positions c1)) in
       if ps = [] then c1\<lparr>sc_settlement := forget_market (mr_condition_id r) (sc_settlement c1)\<rparr>
       else let (c2, settled, usd, unpriced) = fold (settle_position D G V st r now) ps (c1, 0, 0, []);
           c3 = (if settled > 0 then sc_emit (settled_alert settled (mr_condition_id r) usd) (sc_persist V c2) else c2)
         in if unpriced \<noteq> [] then sc_emit (unpriced_error r unpriced) c3
            else c3\<lparr>sc_core := (sc_core c3)\<lparr>cb_positions :=
                fst (backfill_fallback_to_venue (mr_condition_id r) (cb_positions (sc_core c3)))\<rparr>,
              sc_settlement := forget_market (mr_condition_id r) (sc_settlement c3)\<rparr>)"

section \<open>Redemptions and merges come back\<close>

text \<open>Credit an account's ledger; \<open>None\<close> when no such account is configured.\<close>

definition credit_account ::
  "account_id \<Rightarrow> (ledger \<Rightarrow> ledger) \<Rightarrow> core_books \<Rightarrow> core_books option" where
  "credit_account a f b = map_option (\<lambda>l. put_ledger a (f l) b) (map_of (cb_accounts b) a)"

text \<open>The active account always has a ledger (\<open>account/mod.rs\<close>).\<close>

definition credit_or_active ::
  "account_id \<Rightarrow> string \<Rightarrow> (ledger \<Rightarrow> ledger) \<Rightarrow> core_books \<Rightarrow> core_books" where
  "credit_or_active active account f b =
    (let home = (if account = [] then None else credit_account (AccountId account) f b) in
     case home of Some b1 \<Rightarrow> b1
     | None \<Rightarrow> (case credit_account active f b of Some b1 \<Rightarrow> b1 | None \<Rightarrow> b))"

definition tx_or_na :: "string option \<Rightarrow> string" where
  "tx_or_na tx = (case tx of Some t \<Rightarrow> t | None \<Rightarrow> ''n/a'')"

definition failure_message :: "string \<Rightarrow> string \<Rightarrow> string \<Rightarrow> redemption_failure \<Rightarrow> message" where
  "failure_message kind i manual f = [Txt kind, Txt '' of claim '', Txt i, Txt '' failed ('',
     Txt (if rf_manual f then manual else ''will retry''), Txt ''): '', Txt (rf_message f)]"

definition on_redemption_result :: "settle_env \<Rightarrow> redemption_result \<Rightarrow> int \<Rightarrow> settle_core \<Rightarrow> settle_core" where
  "on_redemption_result V r now c = (case rr_failure r of
     None \<Rightarrow> (case note_confirmed (se_journal_ok V (rr_id r)) (rr_id r) (rr_tx_hash r) (rr_block_number r) now (sc_settlement c) of
         (b, None) \<Rightarrow> c\<lparr>sc_settlement := b\<rparr>
       | (b, Some (account, payout)) \<Rightarrow>
           sc_emit (EvRiskAlert Internal [Txt ''redeemed settled position: +'', Dec payout, Txt '' USDC on-chain (claim '',
               Txt (rr_id r), Txt '', tx '', Txt (tx_or_na (rr_tx_hash r)), Txt '')''])
             (c\<lparr>sc_settlement := b,
               sc_core := credit_or_active (sc_active c) account
                 (credit_redemption (se_io V (rr_id r)) payout (rr_id r)) (sc_core c)\<rparr>))
   | Some f \<Rightarrow> sc_emit (EvError (core_error_new VenueError
         (failure_message ''redemption'' (rr_id r) ''manual redemption required'' f)))
       (c\<lparr>sc_settlement := fst (note_failure (rr_id r) f now (sc_settlement c))\<rparr>))"

definition on_merge_result :: "settle_env \<Rightarrow> merge_result \<Rightarrow> int \<Rightarrow> settle_core \<Rightarrow> settle_core" where
  "on_merge_result V r now c = (case mx_failure r of
     None \<Rightarrow> (case note_merge_confirmed (se_journal_ok V (mx_id r)) (mx_id r) (mx_tx_hash r) (mx_block_number r) now (sc_settlement c) of
         (b, None) \<Rightarrow> c\<lparr>sc_settlement := b\<rparr>
       | (b, Some (account, usd)) \<Rightarrow>
           (case credit_account (AccountId account) (credit_merge (se_io V (mx_id r)) usd (mx_id r)) (sc_core c) of
              Some b1 \<Rightarrow> sc_emit (EvRiskAlert Internal [Txt ''merge confirmed: +'', Dec usd, Txt '' USDC on-chain (claim '',
                  Txt (mx_id r), Txt '', tx '', Txt (tx_or_na (mx_tx_hash r)), Txt '')''])
                (c\<lparr>sc_settlement := b, sc_core := b1\<rparr>)
            | None \<Rightarrow> sc_emit (EvError (core_error_new Internal [Txt ''merge '', Txt (mx_id r), Txt '' confirmed '', Dec usd,
                  Txt '' USDC for unknown account '', Txt account, Txt '' - cash NOT credited'']))
                (c\<lparr>sc_settlement := b\<rparr>)))
   | Some f \<Rightarrow> sc_emit (EvError (core_error_new VenueError
         (failure_message ''merge'' (mx_id r) ''manual merge required'' f)))
       (c\<lparr>sc_settlement := fst (note_merge_failure (mx_id r) f now (sc_settlement c))\<rparr>))"

section \<open>Dry mode\<close>

definition dry_result :: "settle_env \<Rightarrow> settlement_book \<Rightarrow> redemption_request \<Rightarrow> int \<Rightarrow> redemption_result" where
  "dry_result V b q now =
    (let attempts = (case map_of (stl_claims b) (rdq_id q) of Some c \<Rightarrow> rc_attempts c | None \<Rightarrow> 0);
         fails = attempts \<le> se_dry_redeem_fail V
     in \<lparr>rr_id = rdq_id q, rr_condition_id = rdq_condition_id q,
         rr_tx_hash = (if fails then None else Some ''dry-simulated''), rr_block_number = None,
         rr_failure = (if fails then Some \<lparr>rf_message = ''dry-simulated redemption failure (attempt '' @ nat_str attempts @
             '' of '' @ nat_str (se_dry_redeem_fail V) @ '' injected)'', rf_manual = se_dry_redeem_manual V\<rparr> else None), rr_at_ms = now\<rparr>)"

definition simulate_redemptions :: "settle_env \<Rightarrow> int \<Rightarrow> settle_core \<Rightarrow> settle_core" where
  "simulate_redemptions V now c =
    (let (b, qs) = take_redemptions now (sc_settlement c)
     in fold (\<lambda>q a. on_redemption_result V (dry_result V (sc_settlement a) q now) now a) qs (c\<lparr>sc_settlement := b\<rparr>))"

definition simulate_merges :: "settle_env \<Rightarrow> int \<Rightarrow> settle_core \<Rightarrow> settle_core" where
  "simulate_merges V now c =
    (let (b, qs) = take_merges now (sc_settlement c)
     in fold (\<lambda>q a. on_merge_result V (merge_success q ''dry-simulated'' None now) now a) qs (c\<lparr>sc_settlement := b\<rparr>))"

definition best_of :: "(decimal \<Rightarrow> decimal \<Rightarrow> decimal) \<Rightarrow> decimal list \<Rightarrow> decimal option" where
  "best_of f xs = (case xs of [] \<Rightarrow> None | x # ys \<Rightarrow> Some (foldl f x ys))"

definition top_bid :: "sim_book option \<Rightarrow> decimal option" where
  "top_bid b = (case b of None \<Rightarrow> None | Some v \<Rightarrow> best_of max (filter (\<lambda>p. p > 0) (map fst (sb_bids v))))"

definition top_ask :: "sim_book option \<Rightarrow> decimal option" where
  "top_ask b = (case b of None \<Rightarrow> None | Some v \<Rightarrow> best_of min (filter (\<lambda>p. p > 0 \<and> p < 1) (map fst (sb_asks v))))"

definition token_value :: "dec_ops \<Rightarrow> settle_core \<Rightarrow> token_id \<Rightarrow> decimal" where
  "token_value D c t =
    (let b = map_of (sc_mirror c) t; bid = (case top_bid b of Some v \<Rightarrow> v | None \<Rightarrow> 0);
         v = (if bid > 0 then (case top_ask b of Some a \<Rightarrow> ddiv D (bid + a) 2 | None \<Rightarrow> bid)
              else (case top_ask b of Some a \<Rightarrow> a | None \<Rightarrow> 0))
     in if v \<le> 0
        then (case List.find (\<lambda>p. p_token_id p = t) (sc_positions c) of Some p \<Rightarrow> p_current_price p | None \<Rightarrow> 0)
        else v)"

definition COUNTER_DECISIVE_HIGH :: decimal where "COUNTER_DECISIVE_HIGH = 99 / 100"

definition counter_partners :: "settle_core \<Rightarrow> settlement_query \<Rightarrow> (token_id \<times> decimal) list" where
  "counter_partners c q = List.map_filter
     (\<lambda>t. case top_bid (map_of (sc_mirror c) t) of
        Some v \<Rightarrow> if v \<ge> COUNTER_DECISIVE_HIGH then Some (t, v) else None | None \<Rightarrow> None)
     (filter (\<lambda>t. t \<notin> set (sq_token_ids q)) (map p_partner_token_id
        (filter (\<lambda>p. p_token_id p \<in> set (sq_token_ids q) \<and> p_partner_token_id p \<noteq> []) (sc_positions c))))"

text \<open>\<open>max_by_key\<close> keeps the last of equal keys.\<close>

definition last_max :: "('a \<times> decimal) list \<Rightarrow> ('a \<times> decimal) option" where
  "last_max xs = fold (\<lambda>x a. case a of None \<Rightarrow> Some x | Some y \<Rightarrow> if snd y \<le> snd x then Some x else Some y) xs None"

definition resolution_of :: "settlement_query \<Rightarrow> (token_id \<times> decimal) list \<Rightarrow> market_resolution" where
  "resolution_of q ps = \<lparr>mr_condition_id = sq_condition_id q, mr_resolved = True, mr_payouts = ps,
     mr_neg_risk = False, mr_source = ''core-dry''\<rparr>"

definition dry_resolution :: "dec_ops \<Rightarrow> settle_core \<Rightarrow> settlement_query \<Rightarrow> market_resolution option" where
  "dry_resolution D c q =
    (let priced = map (\<lambda>t. (t, token_value D c t)) (sq_token_ids q) in
     if priced = [] then None
     else let (winner, best) = foldl (\<lambda>a x. if snd x > snd a then x else a) ([], 0) priced in
       if best \<le> 5 / 10
       then map_option (\<lambda>(partner, _). resolution_of q (map (\<lambda>(t, _). (t, 0)) priced @ [(partner, 1)]))
              (last_max (counter_partners c q))
       else Some (resolution_of q (map (\<lambda>(t, _). (t, if t = winner then 1 else 0)) priced)))"

definition drive_settlement ::
  "dec_ops \<Rightarrow> core_config \<Rightarrow> settle_env \<Rightarrow> fee_schedule option \<Rightarrow> int \<Rightarrow> settle_core \<Rightarrow> settle_core" where
  "drive_settlement D G V st now c =
    (if \<not> settles_locally (se_mode V) then c
     else let (c1, qs) = take_settlement_queries G now c;
         c2 = fold (\<lambda>q a. case dry_resolution D a q of Some r \<Rightarrow> on_market_resolution D G V st r now a | None \<Rightarrow> a) qs c1
       in simulate_merges V now (simulate_redemptions V now c2))"

definition settlement_pass_due :: "core_config \<Rightarrow> int \<Rightarrow> settle_core \<Rightarrow> bool" where
  "settlement_pass_due G now c \<longleftrightarrow> \<not> cg_replay_sched G \<or> fp_positions_dirty (cb_fast (sc_core c)) \<or>
     now \<ge> sc_next_expiry_ms c \<or> now \<ge> next_query_deadline_ms (sc_settlement c) \<or>
     now \<ge> next_redemption_ms (sc_settlement c) \<or> now \<ge> next_merge_ms (sc_settlement c)"

definition alert_if_settlement_blind :: "int \<Rightarrow> settle_core \<Rightarrow> settle_core" where
  "alert_if_settlement_blind now c =
    (let blind = blind_since_ms now (sc_settlement c); (b, edge) = note_blind_state (blind \<noteq> None) (sc_settlement c);
         c1 = c\<lparr>sc_settlement := b\<rparr>; since = (case blind of Some t \<Rightarrow> t | None \<Rightarrow> now)
     in if edge then sc_emit (EvError (core_error_new Internal [Txt ''settlement: no market verdict since '', Num since,
          Txt '' - '', Num (int (length (stl_queries b))),
          Txt '' market(s) past expiry cannot settle until the venue answers''])) c1
        else c1)"

section \<open>Markets nobody answers\<close>

definition EXPIRY_FALLBACK_AFTER_MS :: int where "EXPIRY_FALLBACK_AFTER_MS = 120000"

definition fallback_price :: "open_position \<Rightarrow> decimal" where
  "fallback_price p = (if p_current_price p > 0 then p_current_price p else p_entry_price p)"

definition credit_expiry_fallback_cash :: "settle_env \<Rightarrow> closed_position \<Rightarrow> decimal \<Rightarrow> core_books \<Rightarrow> core_books" where
  "credit_expiry_fallback_cash V shut price b =
    (let amount = price * c_dust_shares shut in
     if amount \<le> 0 then b
     else case credit_account (c_account_id shut)
         (credit_expiry_fallback (se_io V (c_id shut)) amount (c_id shut)) b of Some b1 \<Rightarrow> b1 | None \<Rightarrow> b)"

text \<open>One position shut at its fallback price.\<close>

definition fallback_close ::
  "dec_ops \<Rightarrow> core_config \<Rightarrow> settle_env \<Rightarrow> fee_schedule option \<Rightarrow> int \<Rightarrow> open_position \<Rightarrow> core_books
     \<Rightarrow> core_books \<times> closed_position option" where
  "fallback_close D G V st now p b =
    (case close_pm D st (p_id p) (fallback_price p) UnverifiableExpiry True now ''fallback'' (cb_positions b) of
       (m, None) \<Rightarrow> (b, None)
     | (m, Some shut) \<Rightarrow> (on_position_closed D G (se_core V) shut now
           (credit_expiry_fallback_cash V shut (fallback_price p) (b\<lparr>cb_positions := m\<rparr>)), Some shut))"

definition fallback_alert :: "nat \<Rightarrow> core_event" where
  "fallback_alert n = EvRiskAlert Internal [Txt ''expiry fallback: closed '', Num (int n),
     Txt '' position(s) on market(s) the venue never answered (unverifiable-expiry, no redemption claim - reconcile sweep owns the cash truth)'']"

definition run_expiry_fallback_sweep ::
  "dec_ops \<Rightarrow> core_config \<Rightarrow> settle_env \<Rightarrow> fee_schedule option \<Rightarrow> int \<Rightarrow> settle_core \<Rightarrow> settle_core" where
  "run_expiry_fallback_sweep D G V st now c =
    (let silent = map fst (unanswered_since EXPIRY_FALLBACK_AFTER_MS now (sc_settlement c)) in
     if silent = [] then c
     else let targets = filter (\<lambda>p. p_condition_id p \<in> set silent \<and> p_expires_at_ms p \<le> now) (sc_positions c) in
       if targets = [] then c
       else let c1 = c\<lparr>sc_core := persist_positions (se_core V)
             (fold (\<lambda>p b. fst (fallback_close D G V st now p b)) targets (sc_core c))\<rparr>;
           gone = filter (\<lambda>i. \<forall>p \<in> set (sc_positions c1). p_condition_id p \<noteq> i) silent
         in sc_emit (fallback_alert (length targets))
            (c1\<lparr>sc_settlement := fold forget_market gone (sc_settlement c1)\<rparr>))"

definition round_over :: "core_config \<Rightarrow> int \<Rightarrow> open_position \<Rightarrow> bool" where
  "round_over G now p \<longleftrightarrow> (if p_round_slot p > 0
     then now \<ge> (p_round_slot p + 1) * position_effective_round_duration_sec p None (cg_round_duration_sec G) * 1000
     else now > p_expires_at_ms p)"

definition no_open_position :: "string \<Rightarrow> core_error" where
  "no_open_position i = core_error_new InvalidParams
     [Txt ''positions.force_close: no open position '', Txt [CHR 34], Txt i, Txt [CHR 34]]"

definition round_still_live :: "open_position \<Rightarrow> core_error" where
  "round_still_live p = core_error_new InvalidOrderState
     [Txt ''positions.force_close: position '', Txt (p_id p), Txt [CHR 39], Txt ''s round is still live (slot '',
      Num (p_round_slot p), Txt '', expires_at '', Num (p_expires_at_ms p),
      Txt '') - use positions.exit for a position the venue can still settle'']"

definition no_audit_path :: core_error where
  "no_audit_path = core_error_new InvalidParams
     [Txt ''positions.force_close: no manual-ops audit path configured - an operator close with no audit trail is refused (backtests and in-process tests carry None)'']"

definition manual_close_op :: "string \<Rightarrow> decimal \<Rightarrow> int \<Rightarrow> closed_position \<Rightarrow> manual_op" where
  "manual_close_op actor price now shut = \<lparr>mop_at_ms = now, mop_actor = actor, mop_position_id = c_id shut,
     mop_condition_id = c_condition_id shut, mop_token_id = c_token_id shut, mop_account_id = c_account_id shut,
     mop_strategy = c_strategy shut, mop_shares = c_shares shut, mop_price = price\<rparr>"

definition force_closed_alert :: "closed_position \<Rightarrow> decimal \<Rightarrow> core_event" where
  "force_closed_alert shut price = EvRiskAlert Internal [Txt ''operator force-closed position '', Txt (c_id shut),
     Txt '' on '', Txt (c_condition_id shut), Txt '' at '', Dec price,
     Txt '' (unverifiable-expiry; no redemption claim - reconcile sweep owns the cash truth)'']"

definition force_close_expired_position ::
  "dec_ops \<Rightarrow> core_config \<Rightarrow> settle_env \<Rightarrow> fee_schedule option \<Rightarrow> string \<Rightarrow> string \<Rightarrow> int \<Rightarrow> settle_core
     \<Rightarrow> settle_core \<times> (core_error + closed_position)" where
  "force_close_expired_position D G V st i actor now c =
    (case find_open i (cb_positions (sc_core c)) of
       None \<Rightarrow> (c, Inl (no_open_position i))
     | Some p \<Rightarrow>
         if \<not> round_over G now p then (c, Inl (round_still_live p))
         else if se_audit_path V = None then (c, Inl no_audit_path)
         else (case fallback_close D G V st now p (sc_core c) of
             (b, None) \<Rightarrow> (c, Inl (no_open_position i))
           | (b, Some shut) \<Rightarrow>
               (sc_emit (force_closed_alert shut (fallback_price p))
                 (c\<lparr>sc_core := persist_positions (se_core V) b,
                   sc_manual_ops := (if se_audit_ok V
                     then sc_manual_ops c @ [manual_close_op actor (fallback_price p) now shut] else sc_manual_ops c)\<rparr>),
                Inr shut)))"

section \<open>Recovery\<close>

definition recover_one ::
  "dec_ops \<Rightarrow> core_config \<Rightarrow> settle_env \<Rightarrow> fee_schedule option \<Rightarrow> open_position \<Rightarrow> settle_core \<times> nat \<Rightarrow> settle_core \<times> nat" where
  "recover_one D G V st p acc = (let (c, n) = acc; key = settlement_key p in
    case map_of (stl_applied (sc_settlement c)) key of
      None \<Rightarrow> (c, n)
    | Some rcd \<Rightarrow>
        (case close_pm D st (p_id p) (srec_payout_per_share rcd) Settlement True (srec_applied_at_ms rcd) ''venue''
               (cb_positions (sc_core c)) of
           (m, None) \<Rightarrow> (c, n)
         | (m, Some shut) \<Rightarrow> (c\<lparr>sc_core := on_position_closed D G (se_core V) shut (srec_applied_at_ms rcd)
                ((sc_core c)\<lparr>cb_positions := m\<rparr>),
              sc_settlement := note_closed (se_journal_ok V key) key (srec_applied_at_ms rcd) (sc_settlement c)\<rparr>, n + 1)))"

definition recover_settlements ::
  "dec_ops \<Rightarrow> core_config \<Rightarrow> settle_env \<Rightarrow> fee_schedule option \<Rightarrow> settle_core \<Rightarrow> settle_core \<times> nat" where
  "recover_settlements D G V st c =
    (let (c1, n) = fold (recover_one D G V st) (recover (sc_positions c) (sc_settlement c)) (c, 0)
     in if n > 0
        then (sc_emit (EvRiskAlert Internal [Txt ''recovered '', Num (int n),
            Txt '' settled position(s) whose close was interrupted - redeemed claims unaffected'']) (sc_persist V c1), n)
        else (c1, n))"

section \<open>Burning complete pairs\<close>

text \<open>The service's answer to a merge intent: burn the pairs of the market the intent's position is on,
  book the collateral as a receivable, then the records. \<open>None\<close> is a name search that never ends.\<close>

definition on_merge_intent ::
  "dec_ops \<Rightarrow> core_config \<Rightarrow> settle_env \<Rightarrow> fee_schedule option \<Rightarrow> (token_id \<Rightarrow> bool) \<Rightarrow> token_id \<Rightarrow> account_id \<Rightarrow> int
     \<Rightarrow> settle_core \<Rightarrow> settle_core option" where
  "on_merge_intent D G V st neg_risk_of token account now c =
    (case List.find (\<lambda>p. p_token_id p = token \<and> p_account_id p = account) (sc_positions c) of
       None \<Rightarrow> Some c
     | Some p \<Rightarrow> (case merge_condition D st (p_condition_id p) now (cb_positions (sc_core c)) of
         (m, None) \<Rightarrow> Some (c\<lparr>sc_core := (sc_core c)\<lparr>cb_positions := m\<rparr>\<rparr>)
       | (m, Some out) \<Rightarrow>
           (let c1 = c\<lparr>sc_core := (sc_core c)\<lparr>cb_positions := m\<rparr>\<rparr>;
                c2 = (if mo_pairs_merged out > 0
                  then map_option (\<lambda>(b, _). c1\<lparr>sc_settlement := b\<rparr>)
                    (note_merge_burned (se_journal_ok V (mo_condition_id out)) (mo_condition_id out)
                       (as_str (mo_account_id out)) (mo_venue out) (neg_risk_of token) (mo_pairs_merged out) now
                       (sc_settlement c1))
                  else Some c1)
            in map_option (\<lambda>a. let a1 = sc_persist V a in a1\<lparr>sc_core := fold (\<lambda>cl b.
                on_position_closed D G (se_core V) cl now b) (mo_closed out) (sc_core a1)\<rparr>) c2)))"

end
