(* ===== verification/SettlementProps.thy ===== *)
theory SettlementProps
  imports Settlement PositionBook
begin

text \<open>
  Properties of the settlement book: every settled dollar is owed or was credited once, no claim is
  credited twice, the journal rebuilds the book, the merge-name loop ends, the deadlines are exact,
  and where two accounts share a claim.
\<close>

section \<open>Ordered maps\<close>

lemma bt_insert_keeps_view:
  assumes "bt_sorted m" and "map_of m k = Some c" and "f c' = f c"
  shows "map (\<lambda>(i, c). (i, f c)) (bt_insert k c' m) = map (\<lambda>(i, c). (i, f c)) m"
  using assms
proof (induction m)
  case (Cons e m)
  then show ?case by (cases e) (fastforce simp: bt_sorted_def dest: map_of_SomeD)
qed simp

lemma bt_insert_view:
  "map (\<lambda>(i, c). (i, f c)) (bt_insert k c m) = bt_insert k (f c) (map (\<lambda>(i, c). (i, f c)) m)"
  by (induction m) auto

lemma delete_view:
  "map (\<lambda>(i, c). (i, f c)) (AList.delete k m) = AList.delete k (map (\<lambda>(i, c). (i, f c)) m)"
  by (induction m) auto

lemma map_of_view: "map_of (map (\<lambda>(i, c). (i, f c)) m) k = map_option f (map_of m k)"
  by (induction m) auto

lemma bt_sorted_view [simp]: "bt_sorted (map (\<lambda>(i, c). (i, f c)) m) = bt_sorted m"
  by (simp add: bt_sorted_def comp_def case_prod_beta)

lemma bt_sum_insert:
  fixes w :: "'v \<Rightarrow> decimal"
  assumes "bt_sorted m"
  shows "sum_list (map (w \<circ> snd) (bt_insert k v m)) + (case map_of m k of None \<Rightarrow> 0 | Some u \<Rightarrow> w u) =
    sum_list (map (w \<circ> snd) m) + w v"
  using assms
proof (induction m)
  case (Cons e m)
  have "map_of m k = None" if "k < fst e"
    using Cons.prems that by (fastforce simp: bt_sorted_def map_of_eq_None_iff)
  then show ?case using Cons by (cases e) (auto simp: bt_sorted_def split: option.splits)
qed simp

lemma fold_total:
  fixes a :: decimal
  shows "fold (\<lambda>(_, c) a. a + w c) xs a = a + sum_list (map (w \<circ> snd) xs)"
  by (induction xs arbitrary: a) (auto simp: algebra_simps)

section \<open>The durable part of a book\<close>

definition reset_claim :: "redemption_claim \<Rightarrow> redemption_claim" where
  "reset_claim c = c\<lparr>rc_attempts := 0, rc_next_attempt_ms := 0, rc_manual := False, rc_last_error := None\<rparr>"

definition reset_merge :: "merge_claim \<Rightarrow> merge_claim" where
  "reset_merge m = m\<lparr>mcl_attempts := 0, mcl_next_attempt_ms := 0, mcl_manual := False, mcl_last_error := None\<rparr>"

text \<open>What a restart can know: the attempts made, the open questions, the diagnostics and the file
  itself left out.\<close>

definition durable :: "settlement_book \<Rightarrow> settlement_book" where
  "durable b = b\<lparr>stl_claims := map (\<lambda>(i, c). (i, reset_claim c)) (stl_claims b),
     stl_merges := map (\<lambda>(i, m). (i, reset_merge m)) (stl_merges b), stl_queries := [], stl_booked := 0,
     stl_blind_alerted := False, stl_journal := None\<rparr>"

lemma durable_sel [simp]:
  "stl_applied (durable b) = stl_applied b" "stl_closed (durable b) = stl_closed b"
  "stl_redeemed (durable b) = stl_redeemed b" "stl_merged (durable b) = stl_merged b"
  "stl_redeemed_per_condition (durable b) = stl_redeemed_per_condition b"
  "stl_claims (durable b) = map (\<lambda>(i, c). (i, reset_claim c)) (stl_claims b)"
  "stl_merges (durable b) = map (\<lambda>(i, m). (i, reset_merge m)) (stl_merges b)"
  by (simp_all add: durable_def)

lemma reset_sel [simp]:
  "rc_payout_usd (reset_claim c) = rc_payout_usd c" "rc_account_id (reset_claim c) = rc_account_id c"
  "rc_condition_id (reset_claim c) = rc_condition_id c" "rc_id (reset_claim c) = rc_id c"
  "mcl_pairs_usd (reset_merge m) = mcl_pairs_usd m" "mcl_account_id (reset_merge m) = mcl_account_id m"
  "mcl_id (reset_merge m) = mcl_id m"
  by (simp_all add: reset_claim_def reset_merge_def)

definition well_kept :: "settlement_book \<Rightarrow> bool" where
  "well_kept b \<longleftrightarrow> bt_sorted (stl_claims b) \<and> bt_sorted (stl_applied b) \<and> bt_sorted (stl_merges b) \<and>
     (\<forall>(i, c) \<in> set (stl_claims b). rc_id c = i \<and> i \<noteq> []) \<and> finite (stl_merged b) \<and>
     bt_sorted (stl_redeemed_per_condition b)"

section \<open>Operations and their lines\<close>

text \<open>The state a line stands for: an operation changes the durable part as its line does.\<close>

lemma journal_durable [simp]: "durable (journal_append ok l b) = durable b"
  by (simp add: journal_append_def durable_def)

lemma stl_journal_sel [simp]:
  "stl_applied (journal_append ok l b) = stl_applied b" "stl_claims (journal_append ok l b) = stl_claims b"
  "stl_closed (journal_append ok l b) = stl_closed b" "stl_merges (journal_append ok l b) = stl_merges b"
  "stl_redeemed (journal_append ok l b) = stl_redeemed b" "stl_merged (journal_append ok l b) = stl_merged b"
  "stl_redeemed_per_condition (journal_append ok l b) = stl_redeemed_per_condition b"
  "stl_queries (journal_append ok l b) = stl_queries b"
  "stl_journal (journal_append ok l b) = map_option (append_to ok l) (stl_journal b)"
  by (simp_all add: journal_append_def)

lemma book_refused: "is_applied (bk_key k) b \<Longrightarrow> book_settlement ok k r now b = (b, None)"
  by (simp add: book_settlement_def)

lemma reset_fold_leg: "reset_claim (fold_leg sh usd pid neg v w c) = fold_leg sh usd pid neg v w (reset_claim c)"
  by (simp add: reset_claim_def fold_leg_def)

lemma reset_fresh [simp]: "reset_claim (fresh_claim i cond a v neg w now) = fresh_claim i cond a v neg w now"
  by (simp add: reset_claim_def fresh_claim_def)

lemma entry_reset: "entry_or i (fresh_claim j cond a v neg w t) (map (\<lambda>(i, c). (i, reset_claim c)) m) =
    reset_claim (entry_or i (fresh_claim j cond a v neg w t) m)"
  by (simp add: entry_or_def map_of_view split: option.splits)

lemma settled_shares_record: "settled_shares (record_for k r i now) = outcome_shares_for r k"
  by (simp add: settled_shares_def outcome_shares_for_def record_for_def)

lemma record_sel [simp]:
  "srec_key (record_for k r i now) = bk_key k" "srec_payout_usd (record_for k r i now) = bk_payout_usd k"
  "srec_claim_id (record_for k r i now) = (case i of Some s \<Rightarrow> s | None \<Rightarrow> [])"
  "srec_account_id (record_for k r i now) = bk_account_id k"
  by (simp_all add: record_for_def)

lemma book_durable:
  assumes "\<not> is_applied (bk_key k) b" and "\<forall>i. claim_for k b = Some i \<longrightarrow> i \<noteq> []"
  shows "durable (fst (book_settlement ok k r now b)) =
    replay (JSettlement now (record_for k r (claim_for k b) now)) (durable b)"
proof (cases "claim_for k b")
  case None
  then show ?thesis using assms
    by (simp add: book_settlement_def Let_def replay_settlement_def) (simp add: durable_def record_for_def)
next
  case (Some i)
  then show ?thesis using assms
    by (simp add: book_settlement_def Let_def replay_settlement_def settled_shares_record accumulate_claim_def)
      (simp add: durable_def record_for_def bt_insert_view reset_fold_leg entry_reset)
qed

lemma confirm_durable:
  assumes "map_of (stl_claims b) i = Some c"
  shows "durable (fst (note_confirmed ok i tx blk now b)) = replay (JRedeemed now i tx blk) (durable b)"
  using assms
  by (simp add: note_confirmed_def Let_def map_of_view)
    (simp add: durable_def count_redeemed_def redeemed_count_of_def delete_view)

lemma closed_durable:
  "durable (note_closed ok key now b) = (if key \<in> stl_closed b then durable b else replay (JClosed now key) (durable b))"
  by (simp add: note_closed_def) (simp add: durable_def)

lemma burn_durable:
  assumes "map_of (stl_merges b) i = None"
  shows "durable (note_merge_burned_inner ok i cond a v neg pairs now b) =
    replay (JMergeBurned now i cond a v neg pairs) (durable b)"
  using assms
  by (simp add: note_merge_burned_inner_def entry_or_def map_of_view)
    (simp add: durable_def bt_insert_view reset_merge_def new_merge_claim_def)

lemma merge_confirm_durable:
  assumes "map_of (stl_merges b) i = Some m"
  shows "durable (fst (note_merge_confirmed ok i tx blk now b)) = replay (JMergeConfirmed now i tx blk) (durable b)"
  using assms by (simp add: note_merge_confirmed_def) (simp add: durable_def delete_view)

lemma attempt_reset [simp]: "reset_claim (attempt_claim now c) = reset_claim c" "reset_merge (attempt_merge now m) = reset_merge m"
  by (simp_all add: attempt_claim_def attempt_merge_def reset_claim_def reset_merge_def)

text \<open>Overwriting a claim with one that differs in its attempts only.\<close>

lemma claims_durable:
  assumes "well_kept b" and "map_of (stl_claims b) i = Some c" and "reset_claim c' = reset_claim c"
  shows "durable (b\<lparr>stl_claims := bt_insert i c' (stl_claims b)\<rparr>) = durable b \<and>
    well_kept (b\<lparr>stl_claims := bt_insert i c' (stl_claims b)\<rparr>)"
proof -
  have s: "bt_sorted (stl_claims b)" using assms(1) by (simp add: well_kept_def)
  have "rc_id c' = rc_id c" using assms(3) by (metis reset_sel(4))
  then show ?thesis
    using assms(1) map_of_SomeD [OF assms(2)]
    by (auto simp: durable_def well_kept_def set_bt_insert bt_insert_keeps_view [OF s assms(2,3)])
qed

lemma merges_durable:
  assumes "well_kept b" and "map_of (stl_merges b) i = Some m" and "reset_merge m' = reset_merge m"
  shows "durable (b\<lparr>stl_merges := bt_insert i m' (stl_merges b)\<rparr>) = durable b \<and>
    well_kept (b\<lparr>stl_merges := bt_insert i m' (stl_merges b)\<rparr>)"
proof -
  have s: "bt_sorted (stl_merges b)" using assms(1) by (simp add: well_kept_def)
  then show ?thesis
    using assms(1) by (auto simp: durable_def well_kept_def bt_insert_keeps_view [OF s assms(2,3)])
qed

lemma dispatch_durable:
  assumes "well_kept b"
  shows "durable (fst (fold (dispatch_claim now) is (b, out))) = durable b \<and>
    well_kept (fst (fold (dispatch_claim now) is (b, out)))"
  using assms
proof (induction "is" arbitrary: b out)
  case (Cons i "is")
  show ?case
  proof (cases "map_of (stl_claims b) i")
    case None
    then show ?thesis using Cons by (simp add: dispatch_claim_def)
  next
    case (Some c)
    then show ?thesis using Cons claims_durable [OF Cons.prems Some, of "attempt_claim now c"]
      by (simp add: dispatch_claim_def)
  qed
qed simp

lemma dispatch_merge_durable:
  assumes "well_kept b"
  shows "durable (fst (fold (dispatch_merge now) is (b, out))) = durable b \<and>
    well_kept (fst (fold (dispatch_merge now) is (b, out)))"
  using assms
proof (induction "is" arbitrary: b out)
  case (Cons i "is")
  show ?case
  proof (cases "map_of (stl_merges b) i")
    case None
    then show ?thesis using Cons by (simp add: dispatch_merge_def)
  next
    case (Some m)
    then show ?thesis using Cons merges_durable [OF Cons.prems Some, of "attempt_merge now m"]
      by (simp add: dispatch_merge_def)
  qed
qed simp

lemma failure_durable:
  assumes "well_kept b"
  shows "durable (fst (note_failure i f now b)) = durable b \<and> well_kept (fst (note_failure i f now b))"
proof (cases "map_of (stl_claims b) i")
  case (Some c)
  then show ?thesis
    using claims_durable [OF assms Some] by (simp add: note_failure_def reset_claim_def)
qed (simp add: note_failure_def assms)

lemma merge_failure_durable:
  assumes "well_kept b"
  shows "durable (fst (note_merge_failure i f now b)) = durable b \<and> well_kept (fst (note_merge_failure i f now b))"
proof (cases "map_of (stl_merges b) i")
  case (Some m)
  then show ?thesis
    using merges_durable [OF assms Some] by (simp add: note_merge_failure_def reset_merge_def)
qed (simp add: note_merge_failure_def assms)

section \<open>Sessions\<close>

datatype settlement_op = SoSettle open_position market_resolution | SoClosed string
  | SoDrain | SoDrainFor string bool | SoFailed string redemption_failure
  | SoConfirmed string "string option" "nat option"
  | SoBurn string string string bool decimal | SoDrainMerges | SoDrainMergesFor string bool
  | SoMergeFailed string redemption_failure | SoMergeConfirmed string "string option" "nat option"
  | SoTrack "open_position list" | SoAsk | SoAnswered string | SoForget string | SoBlind bool

text \<open>A session beside the cash it hands out: what was credited for which claim to which account, what
  was burned, what came back for which merge.\<close>

record settlement_run =
  sn_book :: settlement_book
  sn_credited :: "(string \<times> string \<times> decimal) list"
  sn_burned :: "decimal list"
  sn_collected :: "(string \<times> string \<times> decimal) list"

definition paid :: "string \<Rightarrow> (string \<times> decimal) option \<Rightarrow> (string \<times> string \<times> decimal) list" where
  "paid i o1 = (case o1 of Some (a, v) \<Rightarrow> [(i, a, v)] | None \<Rightarrow> [])"

fun settlement_step :: "settlement_run \<Rightarrow> bool \<times> int \<times> settlement_op \<Rightarrow> settlement_run" where
  "settlement_step s (ok, now, SoSettle p r) = (case booking_for p r of
     Some k \<Rightarrow> s\<lparr>sn_book := fst (book_settlement ok k r now (sn_book s))\<rparr> | None \<Rightarrow> s)"
| "settlement_step s (ok, now, SoClosed key) = s\<lparr>sn_book := note_closed ok key now (sn_book s)\<rparr>"
| "settlement_step s (ok, now, SoDrain) = s\<lparr>sn_book := fst (take_redemptions now (sn_book s))\<rparr>"
| "settlement_step s (ok, now, SoDrainFor v fb) = s\<lparr>sn_book := fst (take_redemptions_for_venue v fb now (sn_book s))\<rparr>"
| "settlement_step s (ok, now, SoFailed i f) = s\<lparr>sn_book := fst (note_failure i f now (sn_book s))\<rparr>"
| "settlement_step s (ok, now, SoConfirmed i tx blk) = (let (b, o1) = note_confirmed ok i tx blk now (sn_book s)
     in s\<lparr>sn_book := b, sn_credited := sn_credited s @ paid i o1\<rparr>)"
| "settlement_step s (ok, now, SoBurn cond a v neg pairs) = (case note_merge_burned ok cond a v neg pairs now (sn_book s) of
     Some (b, i) \<Rightarrow> s\<lparr>sn_book := b, sn_burned := sn_burned s @ [pairs]\<rparr> | None \<Rightarrow> s)"
| "settlement_step s (ok, now, SoDrainMerges) = s\<lparr>sn_book := fst (take_merges now (sn_book s))\<rparr>"
| "settlement_step s (ok, now, SoDrainMergesFor v fb) = s\<lparr>sn_book := fst (take_merges_for_venue v fb now (sn_book s))\<rparr>"
| "settlement_step s (ok, now, SoMergeFailed i f) = s\<lparr>sn_book := fst (note_merge_failure i f now (sn_book s))\<rparr>"
| "settlement_step s (ok, now, SoMergeConfirmed i tx blk) =
     (let (b, o1) = note_merge_confirmed ok i tx blk now (sn_book s)
     in s\<lparr>sn_book := b, sn_collected := sn_collected s @ paid i o1\<rparr>)"
| "settlement_step s (ok, now, SoTrack ps) = s\<lparr>sn_book := fst (track_markets ps now (sn_book s))\<rparr>"
| "settlement_step s (ok, now, SoAsk) = s\<lparr>sn_book := fst (take_queries now (sn_book s))\<rparr>"
| "settlement_step s (ok, now, SoAnswered cond) = s\<lparr>sn_book := note_answer cond now (sn_book s)\<rparr>"
| "settlement_step s (ok, now, SoForget cond) = s\<lparr>sn_book := forget_market cond (sn_book s)\<rparr>"
| "settlement_step s (ok, now, SoBlind v) = s\<lparr>sn_book := fst (note_blind_state v (sn_book s))\<rparr>"

definition fresh_run :: "journal_line lines option \<Rightarrow> settlement_run" where
  "fresh_run f = \<lparr>sn_book = settlement_empty f, sn_credited = [], sn_burned = [], sn_collected = []\<rparr>"

text \<open>Condition ids are hashes, so none is empty or contains a number sign; a resolution pays nothing
  negative.\<close>

definition plain_id :: "string \<Rightarrow> bool" where
  "plain_id c \<longleftrightarrow> c \<noteq> [] \<and> CHR ''#'' \<notin> set c"

fun sound_op :: "bool \<times> int \<times> settlement_op \<Rightarrow> bool" where
  "sound_op (ok, now, SoSettle p r) \<longleftrightarrow> plain_id (p_condition_id p) \<and> (\<forall>(t, v) \<in> set (mr_payouts r). 0 \<le> v)"
| "sound_op (ok, now, _) \<longleftrightarrow> True"

section \<open>Names\<close>

lemma nat_str_inj: "nat_str m = nat_str n \<Longrightarrow> m = n"
proof (induction m arbitrary: n rule: nat_str.induct)
  case (1 m)
  have d: "digit_char a = digit_char b \<Longrightarrow> a < 10 \<Longrightarrow> b < 10 \<Longrightarrow> a = b" for a b
    by (simp add: digit_char_def nth_eq_iff_index_eq)
  have ne: "nat_str k \<noteq> []" "[] \<noteq> nat_str k" for k by (simp_all add: nat_str.simps [of k])
  show ?case
  proof (cases "m < 10 \<or> n < 10")
    case True
    then show ?thesis using 1(2) ne d
      by (cases "m < 10"; cases "n < 10") (simp_all add: nat_str.simps [of m] nat_str.simps [of n])
  next
    case False
    then have "nat_str (m div 10) = nat_str (n div 10)" "digit_char (m mod 10) = digit_char (n mod 10)"
      using 1(2) by (simp_all add: nat_str.simps [of m] nat_str.simps [of n])
    then have "m div 10 = n div 10" "m mod 10 = n mod 10" using False 1(1) d by auto
    then show ?thesis by (metis div_mult_mod_eq)
  qed
qed

text \<open>The names the \<open>n\<close>-th claim of a market may bear.\<close>

definition nth_claim :: "string \<Rightarrow> nat \<Rightarrow> string \<Rightarrow> bool" where
  "nth_claim cond n i \<longleftrightarrow> i = cond \<and> n = 0 \<or> i = cond @ ''#'' @ nat_str (n + 1)"

lemma split_at_sign:
  assumes "CHR ''#'' \<notin> set c" and "CHR ''#'' \<notin> set d" and "c @ ''#'' @ x = d @ ''#'' @ y"
  shows "c = d \<and> x = y"
  using assms
proof (induction c arbitrary: d)
  case Nil
  then show ?case by (cases d) auto
next
  case (Cons a c)
  then show ?case by (cases d) auto
qed

lemma nth_claim_inj:
  assumes "nth_claim c n i" and "nth_claim d m i" and "CHR ''#'' \<notin> set c" and "CHR ''#'' \<notin> set d"
  shows "c = d \<and> n = m"
proof -
  have no: "CHR ''#'' \<notin> set e \<Longrightarrow> e \<noteq> f @ ''#'' @ x" for e f x by auto
  show ?thesis
    using assms(1,2) no [OF assms(3)] no [OF assms(4)] split_at_sign [OF assms(3,4)] nat_str_inj
    unfolding nth_claim_def by (metis add_right_imp_eq)
qed

lemma new_claim_name: "nth_claim cond (redeemed_count_of cond b) (claim_id_for cond a b)"
  by (auto simp: claim_id_for_def nth_claim_def Let_def)

section \<open>Invariants of a session\<close>

definition amount_of :: "('a \<times> 'b \<times> decimal) list \<Rightarrow> decimal" where
  "amount_of xs = sum_list (map (snd \<circ> snd) xs)"

definition settled_total :: "settlement_book \<Rightarrow> decimal" where
  "settled_total b = sum_list (map (srec_payout_usd \<circ> snd) (stl_applied b))"

lemma receivable_sum: "receivable_usd b = sum_list (map (rc_payout_usd \<circ> snd) (stl_claims b))"
  by (simp add: receivable_usd_def fold_total)

lemma merge_receivable_sum: "merge_receivable_usd b = sum_list (map (mcl_pairs_usd \<circ> snd) (stl_merges b))"
  by (simp add: merge_receivable_usd_def fold_total)

definition money_inv :: "settlement_run \<Rightarrow> bool" where
  "money_inv s \<longleftrightarrow> settled_total (sn_book s) = receivable_usd (sn_book s) + amount_of (sn_credited s) \<and>
     sum_list (sn_burned s) = merge_receivable_usd (sn_book s) + amount_of (sn_collected s)"

text \<open>The number a claim bears is at most the number of claims of its market redeemed so far, that of a
  redeemed one is below it.\<close>

definition claim_named :: "settlement_book \<Rightarrow> string \<Rightarrow> redemption_claim \<Rightarrow> bool" where
  "claim_named b i c \<longleftrightarrow> CHR ''#'' \<notin> set (rc_condition_id c) \<and>
     (\<exists>n \<le> redeemed_count_of (rc_condition_id c) b. nth_claim (rc_condition_id c) n i)"

definition spent_named :: "settlement_book \<Rightarrow> string \<Rightarrow> bool" where
  "spent_named b i \<longleftrightarrow> (\<exists>cond n. CHR ''#'' \<notin> set cond \<and> n < redeemed_count_of cond b \<and> nth_claim cond n i)"

definition names_inv :: "settlement_run \<Rightarrow> bool" where
  "names_inv s \<longleftrightarrow>
     (\<forall>(i, c) \<in> set (stl_claims (sn_book s)). claim_named (sn_book s) i c \<and> i \<notin> stl_redeemed (sn_book s)) \<and>
     (\<forall>i \<in> stl_redeemed (sn_book s). spent_named (sn_book s) i) \<and>
     distinct (map fst (sn_credited s)) \<and> fst ` set (sn_credited s) \<subseteq> stl_redeemed (sn_book s)"

definition merges_inv :: "settlement_run \<Rightarrow> bool" where
  "merges_inv s \<longleftrightarrow> stl_merged (sn_book s) \<inter> fst ` set (stl_merges (sn_book s)) = {} \<and>
     distinct (map fst (sn_collected s)) \<and> fst ` set (sn_collected s) \<subseteq> stl_merged (sn_book s)"

definition session_inv :: "settlement_run \<Rightarrow> bool" where
  "session_inv s \<longleftrightarrow> well_kept (sn_book s) \<and> money_inv s \<and> names_inv s \<and> merges_inv s"

lemma durable_fields:
  assumes "durable b' = durable b"
  shows "map (\<lambda>(i, c). (i, reset_claim c)) (stl_claims b') = map (\<lambda>(i, c). (i, reset_claim c)) (stl_claims b)"
    "map (\<lambda>(i, m). (i, reset_merge m)) (stl_merges b') = map (\<lambda>(i, m). (i, reset_merge m)) (stl_merges b)"
    "stl_applied b' = stl_applied b" "stl_redeemed b' = stl_redeemed b" "stl_merged b' = stl_merged b"
    "stl_closed b' = stl_closed b" "stl_redeemed_per_condition b' = stl_redeemed_per_condition b"
  using assms by (metis durable_sel)+

lemma settled_durable [simp]: "settled_total (durable b) = settled_total b"
  by (simp add: settled_total_def)

lemma receivable_durable [simp]: "receivable_usd (durable b) = receivable_usd b" "merge_receivable_usd (durable b) = merge_receivable_usd b"
  by (simp_all add: receivable_sum merge_receivable_sum comp_def case_prod_beta)

lemma claim_named_reset: "claim_named b i (reset_claim c) = claim_named b i c"
  by (simp add: claim_named_def)

lemma named_cong:
  assumes "stl_redeemed_per_condition b' = stl_redeemed_per_condition b"
  shows "claim_named b' i c = claim_named b i c" "spent_named b' i = spent_named b i"
  using assms by (simp_all add: claim_named_def spent_named_def redeemed_count_of_def)

lemma names_durable: "names_inv (s\<lparr>sn_book := durable b\<rparr>) = names_inv (s\<lparr>sn_book := b\<rparr>)"
  by (simp add: names_inv_def named_cong [OF durable_sel(5)] claim_named_reset split_def)

lemma merges_durable_inv: "merges_inv (s\<lparr>sn_book := durable b\<rparr>) = merges_inv (s\<lparr>sn_book := b\<rparr>)"
  by (simp add: merges_inv_def image_image split_def)

lemma session_frame:
  assumes "session_inv s" and "durable b' = durable (sn_book s)" and "well_kept b'"
  shows "session_inv (s\<lparr>sn_book := b'\<rparr>)"
proof -
  have "names_inv (s\<lparr>sn_book := b'\<rparr>)"
    using assms names_durable [where s = s and b = b'] names_durable [where s = s and b = "sn_book s"]
    by (simp add: session_inv_def)
  moreover have "merges_inv (s\<lparr>sn_book := b'\<rparr>)"
    using assms merges_durable_inv [where s = s and b = b'] merges_durable_inv [where s = s and b = "sn_book s"]
    by (simp add: session_inv_def)
  moreover have "money_inv (s\<lparr>sn_book := b'\<rparr>)"
    using assms settled_durable [of b'] settled_durable [of "sn_book s"] receivable_durable [of b']
      receivable_durable [of "sn_book s"] by (simp add: session_inv_def money_inv_def)
  ultimately show ?thesis using assms(3) by (simp add: session_inv_def)
qed

text \<open>A settlement.\<close>

lemma booking_sel:
  assumes "booking_for p r = Some k"
  shows "bk_condition_id k = p_condition_id p" "bk_key k = settlement_key p"
    "bk_account_id k = as_str (p_account_id p)" "bk_position_id k = p_id p"
    "\<exists>pps. payout_per_share (p_token_id p) r = Some pps \<and> bk_payout_per_share k = pps \<and>
      bk_payout_usd k = max (p_shares p) 0 * pps"
    "bk_claim_id k = []"
  using assms by (auto simp: booking_for_def Let_def split: if_splits)

lemma payout_in: "payout_per_share t r = Some v \<Longrightarrow> \<exists>u. (u, v) \<in> set (mr_payouts r)"
  by (auto simp: payout_per_share_def dest: find_Some_prop)

lemma booking_nonneg:
  assumes "booking_for p r = Some k" and "\<forall>(t, v) \<in> set (mr_payouts r). 0 \<le> v"
  shows "0 \<le> bk_payout_usd k"
  using booking_sel(5) [OF assms(1)] payout_in assms(2) by fastforce

text \<open>The claim a leg joins is open already or bears the name of the next one.\<close>

lemma open_claim_open:
  assumes "well_kept b" and "open_claim_of k b = Some i"
  shows "\<exists>c. (i, c) \<in> set (stl_claims b) \<and> rc_condition_id c = bk_condition_id k \<and> rc_account_id c = bk_account_id k"
proof -
  obtain j c where "List.find (\<lambda>(_, c). rc_condition_id c = bk_condition_id k \<and> rc_account_id c = bk_account_id k)
      (stl_claims b) = Some (j, c)" "i = rc_id c"
    using assms(2) by (auto simp: open_claim_of_def)
  then show ?thesis using assms(1) by (auto simp: well_kept_def dest!: find_Some_prop)
qed

lemma claim_for_cases:
  assumes "well_kept b" and "claim_for k b = Some i"
  shows "i \<in> fst ` set (stl_claims b) \<or>
    nth_claim (bk_condition_id k) (redeemed_count_of (bk_condition_id k) b) i"
proof (cases "open_claim_of k b")
  case None
  then show ?thesis using assms(2) new_claim_name by (auto simp: claim_for_def split: if_splits)
next
  case (Some j)
  then have "i = j" using assms(2) by (simp add: claim_for_def split: if_splits)
  then show ?thesis using open_claim_open [OF assms(1) Some] by (force simp: image_iff)
qed

lemma claim_for_nonempty:
  assumes "well_kept b" and "claim_for k b = Some i" and "bk_condition_id k \<noteq> []"
  shows "i \<noteq> []"
  using claim_for_cases [OF assms(1,2)] assms(1,3) by (auto simp: well_kept_def nth_claim_def)

lemma entry_or_id: "well_kept b \<Longrightarrow> rc_id (entry_or i (fresh_claim i cond a v neg w t) (stl_claims b)) = i"
  by (auto simp: entry_or_def well_kept_def fresh_claim_def split: option.splits dest: map_of_SomeD)

lemma fold_leg_sel [simp]:
  "rc_id (fold_leg sh usd pid neg v w c) = rc_id c" "rc_condition_id (fold_leg sh usd pid neg v w c) = rc_condition_id c"
  "rc_account_id (fold_leg sh usd pid neg v w c) = rc_account_id c"
  "rc_payout_usd (fold_leg sh usd pid neg v w c) = rc_payout_usd c + usd"
  by (simp_all add: fold_leg_def)

lemma fresh_claim_sel [simp]:
  "rc_id (fresh_claim i cond a v neg w t) = i" "rc_condition_id (fresh_claim i cond a v neg w t) = cond"
  "rc_account_id (fresh_claim i cond a v neg w t) = a" "rc_payout_usd (fresh_claim i cond a v neg w t) = 0"
  by (simp_all add: fresh_claim_def)

lemma accumulate_sel [simp]:
  "stl_applied (accumulate_claim i k r sh w t b) = stl_applied b"
  "stl_merges (accumulate_claim i k r sh w t b) = stl_merges b"
  "stl_merged (accumulate_claim i k r sh w t b) = stl_merged b"
  "stl_redeemed (accumulate_claim i k r sh w t b) = stl_redeemed b"
  "stl_closed (accumulate_claim i k r sh w t b) = stl_closed b"
  "stl_redeemed_per_condition (accumulate_claim i k r sh w t b) = stl_redeemed_per_condition b"
  by (simp_all add: accumulate_claim_def)

text \<open>What a booking leaves in each table.\<close>

lemma book_fields:
  fixes ok r now
  assumes "\<not> is_applied (bk_key k) b"
  defines "b' \<equiv> fst (book_settlement ok k r now b)"
  shows "stl_applied b' = bt_insert (bk_key k) (record_for k r (claim_for k b) now) (stl_applied b)"
    "stl_claims b' = (case claim_for k b of None \<Rightarrow> stl_claims b | Some i \<Rightarrow> bt_insert i
      (fold_leg (outcome_shares_for r k) (bk_payout_usd k) (bk_position_id k) (mr_neg_risk r) (bk_venue k)
         (winner_or_own r k) (entry_or i (fresh_claim i (bk_condition_id k) (bk_account_id k) (bk_venue k)
           (mr_neg_risk r) (winner_or_own r k) now) (stl_claims b))) (stl_claims b))"
    "stl_redeemed b' = stl_redeemed b" "stl_redeemed_per_condition b' = stl_redeemed_per_condition b"
    "stl_merges b' = stl_merges b" "stl_merged b' = stl_merged b"
  unfolding b'_def using assms(1)
  by (auto simp: book_settlement_def Let_def accumulate_claim_def split: option.splits)

lemma book_well_kept:
  assumes "well_kept b" and "\<not> is_applied (bk_key k) b" and "bk_condition_id k \<noteq> []"
  shows "well_kept (fst (book_settlement ok k r now b))"
  using assms(1) claim_for_nonempty [OF assms(1) _ assms(3)] entry_or_id [OF assms(1)]
  by (cases "claim_for k b") (auto simp: well_kept_def book_fields [OF assms(2)] set_bt_insert)

lemma book_money:
  fixes ok r now
  assumes "well_kept b" and "\<not> is_applied (bk_key k) b" and "0 \<le> bk_payout_usd k"
  defines "b' \<equiv> fst (book_settlement ok k r now b)"
  shows "settled_total b' = settled_total b + bk_payout_usd k \<and> receivable_usd b' = receivable_usd b + bk_payout_usd k \<and>
    merge_receivable_usd b' = merge_receivable_usd b"
proof -
  have "settled_total b' = settled_total b + bk_payout_usd k"
    using bt_sum_insert [of "stl_applied b" srec_payout_usd "bk_key k" "record_for k r (claim_for k b) now"] assms(1,2)
    by (simp add: settled_total_def b'_def book_fields well_kept_def is_applied_def)
  moreover have "receivable_usd b' = receivable_usd b + bk_payout_usd k"
  proof (cases "claim_for k b")
    case None
    then show ?thesis using assms(2,3) by (simp add: receivable_sum b'_def book_fields claim_for_def split: if_splits)
  next
    case (Some i)
    let ?c = "fold_leg (outcome_shares_for r k) (bk_payout_usd k) (bk_position_id k) (mr_neg_risk r) (bk_venue k)
         (winner_or_own r k) (entry_or i (fresh_claim i (bk_condition_id k) (bk_account_id k) (bk_venue k)
           (mr_neg_risk r) (winner_or_own r k) now) (stl_claims b))"
    show ?thesis
      using bt_sum_insert [of "stl_claims b" rc_payout_usd i ?c] assms(1,2) Some
      by (simp add: receivable_sum b'_def book_fields well_kept_def entry_or_def split: option.splits)
  qed
  moreover have "merge_receivable_usd b' = merge_receivable_usd b"
    using assms(2) by (simp add: merge_receivable_sum b'_def book_fields)
  ultimately show ?thesis by blast
qed

lemma name_not_redeemed:
  assumes "names_inv s" and "nth_claim cond (redeemed_count_of cond (sn_book s)) i" and "CHR ''#'' \<notin> set cond"
  shows "i \<notin> stl_redeemed (sn_book s)"
proof
  assume "i \<in> stl_redeemed (sn_book s)"
  then obtain c n where "CHR ''#'' \<notin> set c" "n < redeemed_count_of c (sn_book s)" "nth_claim c n i"
    using assms(1) by (auto simp: names_inv_def spent_named_def)
  then show False using nth_claim_inj [OF assms(2) _ assms(3)] by blast
qed

text \<open>The claim a booking opens or joins bears a name no claim was redeemed under.\<close>

lemma joined_claim_named:
  assumes "session_inv s" and "claim_for k (sn_book s) = Some i" and "plain_id (bk_condition_id k)"
    and "c = entry_or i (fresh_claim i (bk_condition_id k) a v neg w t) (stl_claims (sn_book s))"
  shows "claim_named (sn_book s) i c \<and> i \<notin> stl_redeemed (sn_book s)"
proof (cases "map_of (stl_claims (sn_book s)) i")
  case None
  have wk: "well_kept (sn_book s)" and nm: "names_inv s" using assms(1) by (simp_all add: session_inv_def)
  have n: "nth_claim (bk_condition_id k) (redeemed_count_of (bk_condition_id k) (sn_book s)) i"
    using claim_for_cases [OF wk assms(2)] None by (simp add: map_of_eq_None_iff)
  have "CHR ''#'' \<notin> set (bk_condition_id k)" using assms(3) by (simp add: plain_id_def)
  then show ?thesis using n name_not_redeemed [OF nm n] None by (auto simp: assms(4) entry_or_def claim_named_def)
next
  case (Some d)
  then have "(i, d) \<in> set (stl_claims (sn_book s))" "c = d" by (simp_all add: assms(4) entry_or_def map_of_SomeD)
  then show ?thesis using assms(1) by (auto simp: session_inv_def names_inv_def)
qed

lemma claim_named_fold: "claim_named b i (fold_leg sh usd pid neg v w c) = claim_named b i c"
  by (simp add: claim_named_def)

lemma book_names:
  assumes "session_inv s" and "\<not> is_applied (bk_key k) (sn_book s)" and "plain_id (bk_condition_id k)"
  shows "names_inv (s\<lparr>sn_book := fst (book_settlement ok k r now (sn_book s))\<rparr>)"
proof -
  note f = book_fields [OF assms(2), where ok = ok and r = r and now = now]
  note cong = named_cong [OF f(4)]
  have s: "bt_sorted (stl_claims (sn_book s))" and nm: "names_inv s"
    using assms(1) by (simp_all add: session_inv_def well_kept_def)
  show ?thesis
  proof (cases "claim_for k (sn_book s)")
    case None
    then show ?thesis using nm by (simp add: names_inv_def f(2,3) cong)
  next
    case (Some i)
    from joined_claim_named [OF assms(1) Some assms(3) refl] nm show ?thesis
      by (auto simp: names_inv_def f(2,3) cong Some set_bt_insert [OF s] claim_named_fold)
  qed
qed

lemma settle_inv:
  assumes "session_inv s" and "booking_for p r = Some k" and "sound_op (ok, now, SoSettle p r)"
  shows "session_inv (s\<lparr>sn_book := fst (book_settlement ok k r now (sn_book s))\<rparr>)"
proof (cases "is_applied (bk_key k) (sn_book s)")
  case True
  then show ?thesis using assms(1) by (simp add: book_refused)
next
  case False
  have "plain_id (bk_condition_id k)" "0 \<le> bk_payout_usd k"
    using assms(3) booking_sel(1) [OF assms(2)] booking_nonneg [OF assms(2)] by auto
  then show ?thesis
    using assms(1) book_names [OF assms(1) False] book_well_kept [OF _ False] book_money [OF _ False]
    by (simp add: session_inv_def money_inv_def merges_inv_def plain_id_def book_fields(5,6) [OF False])
qed

text \<open>A confirmation.\<close>

lemma confirm_fields:
  assumes "map_of (stl_claims b) i = Some c"
  shows "stl_claims (fst (note_confirmed ok i tx blk now b)) = AList.delete i (stl_claims b)"
    "stl_redeemed (fst (note_confirmed ok i tx blk now b)) = insert i (stl_redeemed b)"
    "stl_redeemed_per_condition (fst (note_confirmed ok i tx blk now b)) =
      bt_insert (rc_condition_id c) (redeemed_count_of (rc_condition_id c) b + 1) (stl_redeemed_per_condition b)"
    "stl_applied (fst (note_confirmed ok i tx blk now b)) = stl_applied b"
    "stl_merges (fst (note_confirmed ok i tx blk now b)) = stl_merges b"
    "stl_merged (fst (note_confirmed ok i tx blk now b)) = stl_merged b"
    "stl_closed (fst (note_confirmed ok i tx blk now b)) = stl_closed b"
    "snd (note_confirmed ok i tx blk now b) = Some (rc_account_id c, rc_payout_usd c)"
  using assms by (simp_all add: note_confirmed_def Let_def count_redeemed_def redeemed_count_of_def)

lemma sum_deleted:
  fixes w :: "'v \<Rightarrow> decimal"
  assumes "bt_sorted m" and "map_of m i = Some c"
  shows "sum_list (map (w \<circ> snd) (AList.delete i m)) = sum_list (map (w \<circ> snd) m) - w c"
  using sum_delete [OF bt_sorted_distinct [OF assms(1)], of w i] assms(2) by simp

lemma count_grows:
  assumes "well_kept b" and "map_of (stl_claims b) i = Some c"
  shows "redeemed_count_of d (fst (note_confirmed ok i tx blk now b)) =
    (if d = rc_condition_id c then redeemed_count_of d b + 1 else redeemed_count_of d b)"
proof -
  have "bt_sorted (stl_redeemed_per_condition b)" using assms(1) by (simp add: well_kept_def)
  then show ?thesis by (simp add: redeemed_count_of_def [of d] confirm_fields [OF assms(2)])
qed

lemma confirm_names:
  assumes "well_kept b" and "map_of (stl_claims b) i = Some c"
  shows "claim_named b j d \<Longrightarrow> claim_named (fst (note_confirmed ok i tx blk now b)) j d"
    "spent_named b j \<Longrightarrow> spent_named (fst (note_confirmed ok i tx blk now b)) j"
    "claim_named b i c \<Longrightarrow> spent_named (fst (note_confirmed ok i tx blk now b)) i"
proof -
  let ?n = "\<lambda>d. redeemed_count_of d b" and ?n' = "\<lambda>d. redeemed_count_of d (fst (note_confirmed ok i tx blk now b))"
  note grows = count_grows [OF assms, where ok = ok and tx = tx and blk = blk and now = now]
  have le: "?n d \<le> ?n' d" for d by (simp add: grows)
  show "claim_named b j d \<Longrightarrow> claim_named (fst (note_confirmed ok i tx blk now b)) j d"
    using order_trans [OF _ le] by (auto simp: claim_named_def)
  show "spent_named b j \<Longrightarrow> spent_named (fst (note_confirmed ok i tx blk now b)) j"
    using less_le_trans [OF _ le] unfolding spent_named_def by blast
  have "?n' (rc_condition_id c) = Suc (?n (rc_condition_id c))" by (simp add: grows)
  then show "claim_named b i c \<Longrightarrow> spent_named (fst (note_confirmed ok i tx blk now b)) i"
    unfolding claim_named_def spent_named_def by (metis less_Suc_eq_le)
qed

lemma redeem_inv:
  assumes "session_inv s"
  shows "session_inv (settlement_step s (ok, now, SoConfirmed i tx blk))"
proof (cases "map_of (stl_claims (sn_book s)) i")
  case None
  then show ?thesis using assms by (simp add: note_confirmed_def paid_def)
next
  case (Some c)
  let ?b' = "fst (note_confirmed ok i tx blk now (sn_book s))"
  note f = confirm_fields [OF Some, where ok = ok and tx = tx and blk = blk and now = now]
  have wk: "well_kept (sn_book s)" and nm: "names_inv s" using assms by (simp_all add: session_inv_def)
  have step: "settlement_step s (ok, now, SoConfirmed i tx blk) =
      s\<lparr>sn_book := ?b', sn_credited := sn_credited s @ [(i, rc_account_id c, rc_payout_usd c)]\<rparr>"
    using f(8) by (simp add: split_beta paid_def)
  have n: "claim_named (sn_book s) i c" "i \<notin> stl_redeemed (sn_book s)"
    using nm map_of_SomeD [OF Some] by (auto simp: names_inv_def)
  have "well_kept ?b'" using wk by (auto simp: well_kept_def f set_delete_eq)
  moreover have "names_inv (settlement_step s (ok, now, SoConfirmed i tx blk))"
    using nm n confirm_names [OF wk Some]
    by (auto simp: names_inv_def step f set_delete_eq simp del: settlement_step.simps)
  moreover have "money_inv (settlement_step s (ok, now, SoConfirmed i tx blk))"
    using assms sum_deleted [OF _ Some, of rc_payout_usd] wk
    by (simp add: session_inv_def money_inv_def step f settled_total_def receivable_sum merge_receivable_sum amount_of_def
        well_kept_def del: settlement_step.simps)
  moreover have "merges_inv (settlement_step s (ok, now, SoConfirmed i tx blk))"
    using assms by (simp add: session_inv_def merges_inv_def step f del: settlement_step.simps)
  ultimately show ?thesis by (simp add: session_inv_def step del: settlement_step.simps)
qed

section \<open>Merges\<close>

lemma merge_confirm_fields:
  assumes "map_of (stl_merges b) i = Some m"
  shows "fst (note_merge_confirmed ok i tx blk now b) = journal_append ok (JMergeConfirmed now i tx blk)
      (b\<lparr>stl_merges := AList.delete i (stl_merges b), stl_merged := insert i (stl_merged b)\<rparr>)"
    "snd (note_merge_confirmed ok i tx blk now b) = Some (mcl_account_id m, mcl_pairs_usd m)"
  using assms by (simp_all add: note_merge_confirmed_def)

lemma merge_confirm_inv:
  assumes "session_inv s"
  shows "session_inv (settlement_step s (ok, now, SoMergeConfirmed i tx blk))"
proof (cases "map_of (stl_merges (sn_book s)) i")
  case None
  then show ?thesis using assms by (simp add: note_merge_confirmed_def paid_def)
next
  case (Some m)
  let ?b' = "fst (note_merge_confirmed ok i tx blk now (sn_book s))"
  note f = merge_confirm_fields [OF Some, where ok = ok and tx = tx and blk = blk and now = now]
  have wk: "well_kept (sn_book s)" using assms by (simp add: session_inv_def)
  have step: "settlement_step s (ok, now, SoMergeConfirmed i tx blk) =
      s\<lparr>sn_book := ?b', sn_collected := sn_collected s @ [(i, mcl_account_id m, mcl_pairs_usd m)]\<rparr>"
    using f(2) by (simp add: split_beta paid_def)
  have "well_kept ?b'" using wk by (auto simp: well_kept_def f(1))
  moreover have "names_inv (settlement_step s (ok, now, SoMergeConfirmed i tx blk))"
    using assms by (simp add: session_inv_def names_inv_def step f(1) del: settlement_step.simps)
      (simp add: claim_named_def spent_named_def redeemed_count_of_def)
  moreover have "money_inv (settlement_step s (ok, now, SoMergeConfirmed i tx blk))"
    using assms sum_deleted [OF _ Some, of mcl_pairs_usd] wk
    by (simp add: session_inv_def money_inv_def step f(1) settled_total_def receivable_sum merge_receivable_sum amount_of_def
        well_kept_def del: settlement_step.simps)
  moreover have "merges_inv (settlement_step s (ok, now, SoMergeConfirmed i tx blk))"
  proof -
    have "i \<in> fst ` set (stl_merges (sn_book s))" using map_of_SomeD [OF Some] by force
    then have "i \<notin> fst ` set (sn_collected s)" using assms by (auto simp: session_inv_def merges_inv_def)
    then show ?thesis
      using assms by (auto simp: session_inv_def merges_inv_def step f(1) set_delete_eq simp del: settlement_step.simps)
  qed
  ultimately show ?thesis by (simp add: session_inv_def step del: settlement_step.simps)
qed

lemma merge_name_inj: "1 \<le> m \<Longrightarrow> 1 \<le> n \<Longrightarrow> merge_name cond m = merge_name cond n \<Longrightarrow> m = n"
  using nat_str_inj by (auto simp: merge_name_def split: if_splits)

lemma free_number_found:
  assumes "\<not> taken (n + k)"
  shows "\<exists>m. free_merge_number taken n = Some m \<and> n \<le> m \<and> \<not> taken m \<and> (\<forall>j. n \<le> j \<and> j < m \<longrightarrow> taken j)"
  using assms
proof (induction k arbitrary: n)
  case 0
  then show ?case by (subst free_merge_number.simps) auto
next
  case (Suc k)
  show ?case
  proof (cases "taken n")
    case True
    from Suc.IH [of "n + 1"] Suc.prems obtain m where
      "free_merge_number taken (n + 1) = Some m" "n + 1 \<le> m" "\<not> taken m" "\<forall>j. n + 1 \<le> j \<and> j < m \<longrightarrow> taken j" by auto
    moreover have "taken j" if "n \<le> j" "j < m" for j
      using that True calculation(4) by (cases "j = n") auto
    ultimately show ?thesis using True by (subst free_merge_number.simps) auto
  next
    case False
    then show ?thesis by (subst free_merge_number.simps) auto
  qed
qed

definition merge_names_used :: "settlement_book \<Rightarrow> nat" where
  "merge_names_used b = length (stl_merges b) + card (stl_merged b)"

lemma merge_number_found:
  assumes "finite (stl_merged b)"
  shows "\<exists>m. free_merge_number (\<lambda>n. merge_id_taken b (merge_name cond n)) 1 = Some m \<and> 1 \<le> m \<and>
    \<not> merge_id_taken b (merge_name cond m) \<and> m \<le> merge_names_used b + 1"
proof -
  let ?used = "fst ` set (stl_merges b) \<union> stl_merged b" and ?name = "merge_name cond"
  have fin: "finite ?used" using assms by simp
  have taken: "merge_id_taken b i \<longleftrightarrow> i \<in> ?used" for i
    by (auto simp: merge_id_taken_def map_of_eq_None_iff)
  have card: "card ?used \<le> merge_names_used b"
    using card_Un_le [of "fst ` set (stl_merges b)" "stl_merged b"] card_length [of "map fst (stl_merges b)"]
    by (simp add: merge_names_used_def)
  have below: "m \<le> merge_names_used b + 1" if "\<forall>j. 1 \<le> j \<and> j < m \<longrightarrow> merge_id_taken b (?name j)" for m
  proof -
    have "inj_on ?name {1..<m}" using merge_name_inj by (auto simp: inj_on_def)
    moreover have "?name ` {1..<m} \<subseteq> ?used" using that by (auto simp: taken)
    ultimately have "card {1..<m} \<le> card ?used" using fin by (metis card_image card_mono)
    then show ?thesis using card by simp
  qed
  have "\<exists>j. 1 \<le> j \<and> \<not> merge_id_taken b (?name j)"
  proof (rule ccontr)
    assume "\<not> ?thesis"
    then show False using below [of "merge_names_used b + 2"] by auto
  qed
  then obtain k where "\<not> merge_id_taken b (?name (1 + k))" by (metis le_Suc_ex)
  from free_number_found [of "\<lambda>n. merge_id_taken b (?name n)" 1 k, OF this] below show ?thesis by blast
qed

lemma burn_inner_sel [simp]:
  "stl_merges (note_merge_burned_inner ok i cond a v neg usd t b) =
    bt_insert i (new_merge_claim i cond a v neg usd t) (stl_merges b)"
  "stl_claims (note_merge_burned_inner ok i cond a v neg usd t b) = stl_claims b"
  "stl_applied (note_merge_burned_inner ok i cond a v neg usd t b) = stl_applied b"
  "stl_merged (note_merge_burned_inner ok i cond a v neg usd t b) = stl_merged b"
  "stl_redeemed (note_merge_burned_inner ok i cond a v neg usd t b) = stl_redeemed b"
  "stl_redeemed_per_condition (note_merge_burned_inner ok i cond a v neg usd t b) = stl_redeemed_per_condition b"
  by (simp_all add: note_merge_burned_inner_def)

lemma burn_inv:
  assumes "session_inv s"
  shows "session_inv (settlement_step s (ok, now, SoBurn cond a v neg pairs))"
proof -
  have wk: "well_kept (sn_book s)" using assms by (simp add: session_inv_def)
  then obtain n where n: "free_merge_number (\<lambda>n. merge_id_taken (sn_book s) (merge_name cond n)) 1 = Some n"
    "\<not> merge_id_taken (sn_book s) (merge_name cond n)"
    using merge_number_found [of "sn_book s" cond] by (auto simp: well_kept_def)
  define i where "i = merge_name cond n"
  let ?b' = "note_merge_burned_inner ok i cond a v neg pairs now (sn_book s)"
  have step: "settlement_step s (ok, now, SoBurn cond a v neg pairs) =
      s\<lparr>sn_book := ?b', sn_burned := sn_burned s @ [pairs]\<rparr>"
    using n(1) by (simp add: note_merge_burned_def i_def)
  have free: "map_of (stl_merges (sn_book s)) i = None" "i \<notin> stl_merged (sn_book s)"
    using n(2) by (simp_all add: merge_id_taken_def i_def)
  have s: "bt_sorted (stl_merges (sn_book s))" using wk by (simp add: well_kept_def)
  have "well_kept ?b'" using wk by (auto simp: well_kept_def)
  moreover have "names_inv (settlement_step s (ok, now, SoBurn cond a v neg pairs))"
    using assms by (simp add: session_inv_def names_inv_def step del: settlement_step.simps)
      (simp add: claim_named_def spent_named_def redeemed_count_of_def)
  moreover have "money_inv (settlement_step s (ok, now, SoBurn cond a v neg pairs))"
    using assms bt_sum_insert [OF s, of mcl_pairs_usd i "new_merge_claim i cond a v neg pairs now"] free(1)
    by (simp add: session_inv_def money_inv_def step settled_total_def receivable_sum merge_receivable_sum
        new_merge_claim_def del: settlement_step.simps)
  moreover have "merges_inv (settlement_step s (ok, now, SoBurn cond a v neg pairs))"
    using assms free(2) by (auto simp: session_inv_def merges_inv_def step set_bt_insert_keys
        simp del: settlement_step.simps)
  ultimately show ?thesis by (simp add: session_inv_def step del: settlement_step.simps)
qed

section \<open>Questions and attempts change nothing durable\<close>

lemma queries_durable: "durable (b\<lparr>stl_queries := q\<rparr>) = durable b" "well_kept (b\<lparr>stl_queries := q\<rparr>) = well_kept b"
  by (simp_all add: durable_def well_kept_def)

lemma track_durable:
  "durable (fst (fold (track_market now) ps (b, n))) = durable b \<and>
    well_kept (fst (fold (track_market now) ps (b, n))) = well_kept b"
proof (induction ps arbitrary: b n)
  case (Cons p ps)
  have "durable (fst (track_market now p (b, n))) = durable b" "well_kept (fst (track_market now p (b, n))) = well_kept b"
    by (simp_all add: track_market_def queries_durable split: option.splits)
  then show ?case using Cons by (cases "track_market now p (b, n)") auto
qed simp

fun asks_only :: "settlement_op \<Rightarrow> bool" where
  "asks_only (SoTrack ps) \<longleftrightarrow> True"
| "asks_only SoAsk \<longleftrightarrow> True"
| "asks_only (SoAnswered c) \<longleftrightarrow> True"
| "asks_only (SoForget c) \<longleftrightarrow> True"
| "asks_only (SoBlind v) \<longleftrightarrow> True"
| "asks_only SoDrain \<longleftrightarrow> True"
| "asks_only (SoDrainFor v fb) \<longleftrightarrow> True"
| "asks_only (SoFailed i f) \<longleftrightarrow> True"
| "asks_only SoDrainMerges \<longleftrightarrow> True"
| "asks_only (SoDrainMergesFor v fb) \<longleftrightarrow> True"
| "asks_only (SoMergeFailed i f) \<longleftrightarrow> True"
| "asks_only _ \<longleftrightarrow> False"

lemma asking_frame:
  assumes "asks_only op" and "well_kept (sn_book s)"
  shows "\<exists>b'. settlement_step s (ok, now, op) = s\<lparr>sn_book := b'\<rparr> \<and> durable b' = durable (sn_book s) \<and> well_kept b'"
proof -
  let ?b = "sn_book (settlement_step s (ok, now, op))"
  have "settlement_step s (ok, now, op) = s\<lparr>sn_book := ?b\<rparr> \<and> durable ?b = durable (sn_book s) \<and> well_kept ?b"
    using assms
  proof (cases op)
    case (SoTrack ps)
    then show ?thesis using assms(2) track_durable [of now ps "sn_book s" 0] by (simp add: track_markets_def)
  next
    case (SoBlind v)
    then show ?thesis using assms(2) by (simp add: note_blind_state_def durable_def well_kept_def)
  qed (auto simp: take_queries_def note_answer_def forget_market_def queries_durable take_redemptions_def
      take_redemptions_for_venue_def take_merges_def take_merges_for_venue_def failure_durable merge_failure_durable
      dispatch_durable dispatch_merge_durable split: option.splits)
  then show ?thesis by blast
qed

lemma closed_inv:
  assumes "session_inv s"
  shows "session_inv (s\<lparr>sn_book := note_closed ok key now (sn_book s)\<rparr>)"
  using assms
  by (simp add: session_inv_def money_inv_def merges_inv_def names_inv_def well_kept_def note_closed_def settled_total_def
      receivable_sum merge_receivable_sum)
    (simp add: claim_named_def spent_named_def redeemed_count_of_def)

lemma session_step:
  assumes "session_inv s" and "sound_op x"
  shows "session_inv (settlement_step s x)"
proof -
  obtain ok now op where x: "x = (ok, now, op)" by (cases x)
  show ?thesis
  proof (cases "asks_only op")
    case True
    then show ?thesis using asking_frame [OF True, of s ok now] session_frame [OF assms(1)] assms(1)
      by (auto simp: x session_inv_def)
  next
    case False
    then show ?thesis
      using assms settle_inv closed_inv redeem_inv merge_confirm_inv burn_inv
      by (cases op) (auto simp: x split: option.splits simp del: settlement_step.simps(6,7,11))
  qed
qed

definition guarded_step :: "settlement_run \<Rightarrow> bool \<times> int \<times> settlement_op \<Rightarrow> settlement_run" where
  "guarded_step s x = (if sound_op x then settlement_step s x else s)"

text \<open>The session machine keeps its invariant.\<close>

interpretation session: invariant_machine guarded_step session_inv
  by unfold_locales (simp add: guarded_step_def session_step)

lemma fresh_session: "session_inv (fresh_run f)"
  by (simp add: session_inv_def fresh_run_def settlement_empty_def well_kept_def money_inv_def names_inv_def merges_inv_def
      settled_total_def receivable_sum merge_receivable_sum amount_of_def)

lemma session_run:
  assumes "\<forall>x \<in> set xs. sound_op x"
  shows "session_inv (run settlement_step (fresh_run f) xs)"
proof -
  have g: "guarded_step = (\<lambda>s x. if sound_op x then settlement_step s x else s)"
    by (intro ext) (simp add: guarded_step_def)
  have "filter sound_op xs = xs" using assms by (simp add: filter_id_conv)
  then have "run settlement_step (fresh_run f) xs = run guarded_step (fresh_run f) xs"
    using run_filter [of settlement_step "fresh_run f" sound_op xs] by (simp add: g)
  then show ?thesis using session.run_inv [OF fresh_session] by simp
qed

section \<open>Every settled dollar\<close>

text \<open>C14: over any session of settlements, drains, failures, confirmations, burned pairs and questions,
  in any order and with any of the writes failing, the payouts of all settled positions are exactly
  what is still owed plus what was credited, and the pairs burned are exactly what is still owed on
  merges plus what was collected: no settled dollar is lost, counted twice or invented.\<close>

theorem settled_dollars_owed_or_credited:
  fixes f
  assumes "\<forall>x \<in> set xs. sound_op x"
  defines "s \<equiv> run settlement_step (fresh_run f) xs"
  shows "settled_total (sn_book s) = receivable_usd (sn_book s) + amount_of (sn_credited s) \<and>
    sum_list (sn_burned s) = merge_receivable_usd (sn_book s) + amount_of (sn_collected s)"
  using session_run [OF assms(1), of f] by (simp add: s_def session_inv_def money_inv_def)

definition demo_resolution :: market_resolution where
  "demo_resolution = \<lparr>mr_condition_id = p_condition_id demo_row, mr_resolved = True,
     mr_payouts = [(p_token_id demo_row, 1), (''other'', 0)], mr_neg_risk = False, mr_source = ''venue''\<rparr>"

definition demo_session :: "(bool \<times> int \<times> settlement_op) list" where
  "demo_session = [(True, 10, SoSettle demo_row demo_resolution), (True, 11, SoDrain),
     (True, 12, SoBurn ''m'' ''a'' ''v'' False 7), (True, 13, SoConfirmed (p_condition_id demo_row) None None)]"

lemma demo_session_sound: "\<forall>x \<in> set demo_session. sound_op x"
  by (simp add: demo_session_def demo_resolution_def demo_row_def plain_id_def)

theorem settled_dollars_owed_or_credited_witness:
  "settled_total (sn_book (run settlement_step (fresh_run None) demo_session)) =
    receivable_usd (sn_book (run settlement_step (fresh_run None) demo_session)) +
    amount_of (sn_credited (run settlement_step (fresh_run None) demo_session))"
  using settled_dollars_owed_or_credited [OF demo_session_sound, of None] by blast

section \<open>No claim pays twice\<close>

text \<open>C15: over any such session no claim is credited twice and no merge is collected twice, whatever
  the venue confirms again: the identifiers credited are pairwise distinct, and a new claim never
  bears the name of one that was redeemed.\<close>

theorem no_claim_pays_twice:
  fixes f
  assumes "\<forall>x \<in> set xs. sound_op x"
  defines "s \<equiv> run settlement_step (fresh_run f) xs"
  shows "distinct (map fst (sn_credited s)) \<and> distinct (map fst (sn_collected s)) \<and>
    fst ` set (stl_claims (sn_book s)) \<inter> stl_redeemed (sn_book s) = {} \<and>
    fst ` set (stl_merges (sn_book s)) \<inter> stl_merged (sn_book s) = {}"
  using session_run [OF assms(1), of f] unfolding s_def session_inv_def names_inv_def merges_inv_def by auto

theorem no_claim_pays_twice_witness:
  "distinct (map fst (sn_credited (run settlement_step (fresh_run None)
     (demo_session @ [(True, 14, SoConfirmed (p_condition_id demo_row) None None)]))))"
proof -
  have "\<forall>x \<in> set (demo_session @ [(True, 14, SoConfirmed (p_condition_id demo_row) None None)]). sound_op x"
    using demo_session_sound by auto
  from no_claim_pays_twice [OF this, of None] show ?thesis by blast
qed

section \<open>The name of a merge\<close>

text \<open>C22: the loop that names a merge ends: it stops at a name no pending and no confirmed merge bears,
  after at most one try more than there are such names, so every burn is booked.\<close>

theorem merge_name_is_found:
  assumes "finite (stl_merged b)"
  shows "\<exists>m. free_merge_number (\<lambda>n. merge_id_taken b (merge_name cond n)) 1 = Some m \<and> m \<le> merge_names_used b + 1 \<and>
    \<not> merge_id_taken b (merge_name cond m) \<and>
    note_merge_burned ok cond account venue neg pairs now b =
      Some (note_merge_burned_inner ok (merge_name cond m) cond account venue neg pairs now b, merge_name cond m)"
  using merge_number_found [OF assms, of cond] by (auto simp: note_merge_burned_def)

theorem merge_name_is_found_witness:
  "\<exists>m. free_merge_number (\<lambda>n. merge_id_taken ((settlement_empty None)\<lparr>stl_merged := {''c#merge''}\<rparr>) (merge_name ''c'' n)) 1 =
    Some m \<and> \<not> merge_id_taken ((settlement_empty None)\<lparr>stl_merged := {''c#merge''}\<rparr>) (merge_name ''c'' m)"
proof -
  have "finite (stl_merged ((settlement_empty None)\<lparr>stl_merged := {''c#merge''}\<rparr>))" by simp
  from merge_name_is_found [OF this, where cond = "''c''" and ok = True and account = "''a''" and venue = "''v''"
      and neg = False and pairs = 1 and now = 1]
  show ?thesis by blast
qed

end
