(* ===== verification/SettlementMoney.thy ===== *)
theory SettlementMoney
  imports SettlementCore SettlementProps BookingRollback
begin

text \<open>
  The money of the whole service: cash in hand, collateral owed on settled positions and burned pairs,
  and the cash the positions explain move together over any interleaving of fills, resolutions,
  redemptions, merges and fallback closes.
\<close>

section \<open>The identity\<close>

definition owed :: "settle_core \<Rightarrow> decimal" where
  "owed c = receivable_usd (sc_settlement c) + merge_receivable_usd (sc_settlement c)"

definition money_gap :: "settle_core \<Rightarrow> decimal" where
  "money_gap c = total_cash (sc_core c) + owed c - book_cash (cb_positions (sc_core c))"

definition amounts_nonneg :: "settlement_book \<Rightarrow> bool" where
  "amounts_nonneg b \<longleftrightarrow> (\<forall>(i, d) \<in> set (stl_claims b). 0 \<le> rc_payout_usd d) \<and>
     (\<forall>(i, m) \<in> set (stl_merges b). 0 \<le> mcl_pairs_usd m)"

lemma amounts_durable: "amounts_nonneg (durable b) = amounts_nonneg b"
  by (simp add: amounts_nonneg_def split_def)

definition money_sound :: "settle_core \<Rightarrow> bool" where
  "money_sound c \<longleftrightarrow> sound_rows (cb_positions (sc_core c)) \<and> well_kept (sc_settlement c) \<and>
     amounts_nonneg (sc_settlement c) \<and>
     sc_active c \<in> fst ` set (cb_accounts (sc_core c)) \<and>
     (\<forall>(a, l) \<in> set (cb_accounts (sc_core c)). 0 \<le> l_balance l)"

lemma sc_emit_sel [simp]:
  "sc_settlement (sc_emit ev c) = sc_settlement c" "cb_positions (sc_core (sc_emit ev c)) = cb_positions (sc_core c)"
  "cb_accounts (sc_core (sc_emit ev c)) = cb_accounts (sc_core c)" "sc_active (sc_emit ev c) = sc_active c"
  by (simp_all add: sc_emit_def)

lemma sc_persist_sel [simp]:
  "sc_settlement (sc_persist V c) = sc_settlement c" "cb_positions (sc_core (sc_persist V c)) = cb_positions (sc_core c)"
  "cb_accounts (sc_core (sc_persist V c)) = cb_accounts (sc_core c)" "sc_active (sc_persist V c) = sc_active c"
  by (simp_all add: sc_persist_def)

lemma gap_side [simp]: "money_gap (sc_emit ev c) = money_gap c" "money_gap (sc_persist V c) = money_gap c"
  "money_sound (sc_emit ev c) = money_sound c" "money_sound (sc_persist V c) = money_sound c"
  by (simp_all add: money_gap_def money_sound_def owed_def total_cash_def)

lemma gap_cong:
  assumes "cb_accounts (sc_core d) = cb_accounts (sc_core c)" and "sc_active d = sc_active c"
    and "cb_positions (sc_core d) = cb_positions (sc_core c)" and "durable (sc_settlement d) = durable (sc_settlement c)"
    and "well_kept (sc_settlement d)"
  shows "money_gap d = money_gap c" and "money_sound c \<Longrightarrow> money_sound d"
proof -
  show "money_gap d = money_gap c"
    using assms receivable_durable [of "sc_settlement d"] receivable_durable [of "sc_settlement c"]
    by (simp add: money_gap_def owed_def total_cash_def)
  show "money_sound c \<Longrightarrow> money_sound d"
    using assms amounts_durable [of "sc_settlement d"] amounts_durable [of "sc_settlement c"] by (simp add: money_sound_def)
qed

section \<open>A resolution\<close>

lemma in_remove_other: "x \<in> set xs \<Longrightarrow> \<not> P x \<Longrightarrow> x \<in> set (remove_first P xs)"
  by (induction xs) auto

lemma close_sound:
  assumes "sound_rows m" and "find_open i m = Some p" and "length (pm_closed m) < CLOSED_CAP"
    and "n = fst (close_pm D st i pr rs True now src m)"
  shows "book_cash n = book_cash m + pr * p_shares p" "sound_rows n"
    "pm_open n = remove_first (\<lambda>q. p_id q = i) (pm_open m)" "length (pm_closed n) = Suc (length (pm_closed m))"
    "\<exists>k. close_pm D st i pr rs True now src m = (n, Some k) \<and> c_account_id k = p_account_id p \<and>
      c_dust_shares k = p_shares p"
proof -
  have ps: "p \<in> set (pm_open m)" using assms(2) by (auto simp: find_open_def dest: find_Some_prop)
  then have sp: "sound_row p" using assms(1) by (simp add: sound_rows_def)
  then have op: "0 < cf_opened_shares (p_flows p)" by (simp add: sound_row_def row_ok_def)
  have rows: "rows_ok m" using assms(1) by (simp add: sound_rows_def sound_row_def rows_ok_def)
  note cl = close_pm_Some [OF assms(2) refl assms(4)]
  show "book_cash n = book_cash m + pr * p_shares p"
    using close_book [OF rows assms(3,2) op, of D st pr rs True now src] by (simp add: assms(4) dust_fee_for_def)
  show opn: "pm_open n = remove_first (\<lambda>q. p_id q = i) (pm_open m)" by (rule cl(2))
  show "sound_rows n" by (rule sound_rows_remove [OF assms(1) opn cl(4)])
  show "length (pm_closed n) = Suc (length (pm_closed m))" using assms(3) by (simp add: cl(3))
  have "c_dust_shares (closed_record D (active_schedule st) p pr rs True now src) = p_shares p"
    "c_account_id (closed_record D (active_schedule st) p pr rs True now src) = p_account_id p"
    using sp op by (simp_all add: closed_record_def Let_def flows_def sound_row_def row_ok_def)
  then show "\<exists>k. close_pm D st i pr rs True now src m = (n, Some k) \<and> c_account_id k = p_account_id p \<and>
      c_dust_shares k = p_shares p"
    using cl(1) by blast
qed

lemma well_kept_closed: "well_kept (note_closed ok key now b) = well_kept b"
  by (simp add: well_kept_def note_closed_def)

lemma receivable_closed [simp]: "receivable_usd (note_closed ok key now b) = receivable_usd b"
  "merge_receivable_usd (note_closed ok key now b) = merge_receivable_usd b"
  by (simp_all add: receivable_usd_def merge_receivable_usd_def note_closed_def)

lemma amounts_closed: "amounts_nonneg (note_closed ok key now b) = amounts_nonneg b"
  by (simp add: amounts_nonneg_def note_closed_def)

lemma amounts_book:
  assumes "amounts_nonneg b" and "well_kept b" and "\<not> is_applied (bk_key k) b" and "0 \<le> bk_payout_usd k"
  shows "amounts_nonneg (fst (book_settlement ok k r now b))"
proof (cases "claim_for k b")
  case None
  then show ?thesis using assms(1) by (simp add: amounts_nonneg_def book_fields [OF assms(3)])
next
  case (Some i)
  have s: "bt_sorted (stl_claims b)" using assms(2) by (simp add: well_kept_def)
  have "0 \<le> rc_payout_usd (entry_or i (fresh_claim i (bk_condition_id k) (bk_account_id k) (bk_venue k)
      (mr_neg_risk r) (winner_or_own r k) now) (stl_claims b))"
    using assms(1) by (auto simp: entry_or_def amounts_nonneg_def split: option.splits dest: map_of_SomeD)
  then show ?thesis
    using assms(1,4) by (auto simp: amounts_nonneg_def book_fields [OF assms(3)] Some set_bt_insert [OF s])
qed

definition pays_nonneg :: "market_resolution \<Rightarrow> bool" where
  "pays_nonneg r \<longleftrightarrow> (\<forall>(t, v) \<in> set (mr_payouts r). 0 \<le> v)"

lemma settle_one:
  assumes "money_sound c" and "p \<in> set (sc_positions c)" and "length (pm_closed (cb_positions (sc_core c))) < CLOSED_CAP"
    and "pays_nonneg r" and "p_condition_id p \<noteq> []" and "(c1, n1, u1, x1) = settle_position D G V st r now p (c, n, u, x)"
  shows "money_sound c1" "money_gap c1 = money_gap c"
    "{q \<in> set (sc_positions c). p_id q \<noteq> p_id p} \<subseteq> set (sc_positions c1)"
    "length (pm_closed (cb_positions (sc_core c1))) \<le> Suc (length (pm_closed (cb_positions (sc_core c))))"
    "cb_accounts (sc_core c1) = cb_accounts (sc_core c)" "sc_active c1 = sc_active c"
proof -
  let ?b = "sc_settlement c" and ?m = "cb_positions (sc_core c)"
  have wk: "well_kept ?b" and am: "amounts_nonneg ?b" and rows: "sound_rows ?m" using assms(1) by (simp_all add: money_sound_def)
  have find: "find_open (p_id p) ?m = Some p"
    using assms(2) rows by (intro find_open_member) (simp_all add: sound_rows_def sc_positions_def)
  have "money_sound c1 \<and> money_gap c1 = money_gap c \<and>
    {q \<in> set (sc_positions c). p_id q \<noteq> p_id p} \<subseteq> set (sc_positions c1) \<and>
    length (pm_closed (cb_positions (sc_core c1))) \<le> Suc (length (pm_closed ?m)) \<and>
    cb_accounts (sc_core c1) = cb_accounts (sc_core c) \<and> sc_active c1 = sc_active c"
  proof (cases "booking_for p r")
    case None
    then have "c1 = c" using assms(6) by (simp add: settle_position_def)
    then show ?thesis using assms(1) by auto
  next
    case (Some k)
    show ?thesis
    proof (cases "is_applied (bk_key k) ?b")
      case True
      then have "c1 = c" using assms(6) Some by (simp add: settle_position_def book_refused)
      then show ?thesis using assms(1) by auto
    next
      case False
      note sel = booking_sel [OF Some]
      have pay: "bk_payout_usd k = bk_payout_per_share k * p_shares p" "0 \<le> bk_payout_usd k"
      proof -
        have "0 \<le> p_shares p" using find rows find_open_member [of ?m p] assms(2)
          by (auto simp: sound_rows_def sound_row_def sc_positions_def)
        then show "bk_payout_usd k = bk_payout_per_share k * p_shares p" using sel(5) by auto
        show "0 \<le> bk_payout_usd k" using booking_nonneg [OF Some] assms(4) by (simp add: pays_nonneg_def)
      qed
      define b1 where "b1 = fst (book_settlement (se_journal_ok V (bk_key k)) k r now ?b)"
      obtain k1 where k1: "book_settlement (se_journal_ok V (bk_key k)) k r now ?b = (b1, Some k1)"
        "bk_position_id k1 = p_id p" "bk_payout_per_share k1 = bk_payout_per_share k" "bk_key k1 = bk_key k"
        using False sel(4) by (auto simp: b1_def book_settlement_def Let_def)
      define n where "n = fst (close_pm D st (p_id p) (bk_payout_per_share k) Settlement True now ''venue'' ?m)"
      note cs = close_sound [OF rows find assms(3) n_def]
      obtain shut where shut: "close_pm D st (p_id p) (bk_payout_per_share k) Settlement True now ''venue'' ?m = (n, Some shut)"
        using cs(5) by blast
      have c1: "c1 = sc_persist V (c\<lparr>sc_core := on_position_closed D G (se_core V) shut now ((sc_core c)\<lparr>cb_positions := n\<rparr>),
          sc_settlement := note_closed (se_journal_ok V (bk_key k)) (bk_key k) now b1\<rparr>)"
        using assms(6) by (simp add: settle_position_def Some k1 shut)
      have "bk_condition_id k \<noteq> []" using sel(1) assms(5) by simp
      note bm = book_money [OF wk False pay(2), where ok = "se_journal_ok V (bk_key k)" and r = r and now = now, folded b1_def]
      have "well_kept b1" unfolding b1_def using book_well_kept [OF wk False \<open>bk_condition_id k \<noteq> []\<close>] .
      moreover have "amounts_nonneg b1" unfolding b1_def by (rule amounts_book [OF am wk False pay(2)])
      moreover have "sound_rows (fst (take_daily_trips D n))"
        using cs(2) by (simp add: sound_rows_cong [of "fst (take_daily_trips D n)" n] frame_simps)
      ultimately show ?thesis
        using assms(1) bm cs pay(1)
        by (auto simp: c1 money_sound_def money_gap_def owed_def total_cash_def daily_book well_kept_closed amounts_closed
            sc_positions_def frame_simps in_remove_other)
    qed
  qed
  then show "money_sound c1" "money_gap c1 = money_gap c"
    "{q \<in> set (sc_positions c). p_id q \<noteq> p_id p} \<subseteq> set (sc_positions c1)"
    "length (pm_closed (cb_positions (sc_core c1))) \<le> Suc (length (pm_closed (cb_positions (sc_core c))))"
    "cb_accounts (sc_core c1) = cb_accounts (sc_core c)" "sc_active c1 = sc_active c" by blast+
qed

lemma settle_all:
  assumes "money_sound c" and "set ps \<subseteq> set (sc_positions c)" and "distinct (map p_id ps)"
    and "length (pm_closed (cb_positions (sc_core c))) + length ps \<le> CLOSED_CAP"
    and "pays_nonneg r" and "\<forall>p \<in> set ps. p_condition_id p \<noteq> []"
    and "(c1, n1, u1, x1) = fold (settle_position D G V st r now) ps (c, n, u, x)"
  shows "money_sound c1 \<and> money_gap c1 = money_gap c \<and> cb_accounts (sc_core c1) = cb_accounts (sc_core c) \<and>
    sc_active c1 = sc_active c"
  using assms(1-4,6,7)
proof (induction ps arbitrary: c n u x)
  case (Cons p ps)
  obtain c2 n2 u2 x2 where s: "(c2, n2, u2, x2) = settle_position D G V st r now p (c, n, u, x)"
    by (metis prod.exhaust)
  have "p \<in> set (sc_positions c)" "length (pm_closed (cb_positions (sc_core c))) < CLOSED_CAP" "p_condition_id p \<noteq> []"
    using Cons.prems by auto
  note one = settle_one [OF Cons.prems(1) this(1,2) assms(5) this(3) s]
  have "set ps \<subseteq> set (sc_positions c2)" using one(3) Cons.prems(2,3) by (fastforce simp: image_iff)
  moreover have "length (pm_closed (cb_positions (sc_core c2))) + length ps \<le> CLOSED_CAP"
    using one(4) Cons.prems(4) by simp
  ultimately have "money_sound c1 \<and> money_gap c1 = money_gap c2 \<and> cb_accounts (sc_core c1) = cb_accounts (sc_core c2) \<and>
      sc_active c1 = sc_active c2"
    using Cons.prems by (intro Cons.IH [OF one(1)]) (auto simp flip: s)
  then show ?case using one(2,5,6) by simp
qed simp

lemma answer_frame: "durable (note_answer cond now b) = durable b" "well_kept (note_answer cond now b) = well_kept b"
  by (simp_all add: note_answer_def queries_durable split: option.splits)

lemma forget_frame: "durable (forget_market cond b) = durable b" "well_kept (forget_market cond b) = well_kept b"
  by (simp_all add: forget_market_def queries_durable)

lemma backfill_cash: "book_cash (fst (backfill_fallback_to_venue cond m)) = book_cash m"
  "sound_rows (fst (backfill_fallback_to_venue cond m)) = sound_rows m"
  by (simp_all add: backfill_fallback_to_venue_def backfill_rows_def book_cash_def sound_rows_def ids_below_def
      Let_def comp_def flip_to_venue_def if_distrib [of c_net_pnl_usd] cong: if_cong)

text \<open>A resolution the books can take: nothing negative is paid, the market has an identifier and the
  history has room for its closes.\<close>

definition clean_resolution :: "market_resolution \<Rightarrow> settle_core \<Rightarrow> bool" where
  "clean_resolution r c \<longleftrightarrow> pays_nonneg r \<and> mr_condition_id r \<noteq> [] \<and>
     length (pm_closed (cb_positions (sc_core c))) + length (sc_positions c) \<le> CLOSED_CAP"

lemma resolution_money:
  assumes "money_sound c" and "clean_resolution r c"
  shows "money_sound (on_market_resolution D G V st r now c) \<and>
    money_gap (on_market_resolution D G V st r now c) = money_gap c"
proof -
  define c1 where "c1 = c\<lparr>sc_settlement := note_answer (mr_condition_id r) now (sc_settlement c)\<rparr>"
  have wk: "well_kept (sc_settlement c)" using assms(1) by (simp add: money_sound_def)
  have s1: "money_sound c1" "money_gap c1 = money_gap c"
    using gap_cong [of c1 c] assms(1) wk by (simp_all add: c1_def answer_frame)
  define ps where "ps = resolution_order r (filter (\<lambda>p. p_condition_id p = mr_condition_id r) (sc_positions c1))"
  have ps: "set ps \<subseteq> set (sc_positions c1)" "\<forall>p \<in> set ps. p_condition_id p \<noteq> []" "length ps \<le> length (sc_positions c)"
    using assms(2) by (auto simp: ps_def resolution_order_def clean_resolution_def c1_def sc_positions_def
        intro: le_trans [OF length_filter_le])
  have "distinct (map p_id (filter (\<lambda>p. p_condition_id p = mr_condition_id r) (sc_positions c1)))"
    using s1(1) by (simp add: money_sound_def sound_rows_def sc_positions_def distinct_map_filter)
  then have "distinct (map p_id ps)" by (simp add: ps_def resolution_order_def distinct_map)
  obtain c2 n u x where f: "(c2, n, u, x) = fold (settle_position D G V st r now) ps (c1, 0, 0, [])"
    by (metis prod.exhaust)
  have cap: "length (pm_closed (cb_positions (sc_core c1))) + length ps \<le> CLOSED_CAP"
    using assms(2) ps(3) by (simp add: clean_resolution_def c1_def)
  have pn: "pays_nonneg r" using assms(2) by (simp add: clean_resolution_def)
  note all = settle_all [OF s1(1) ps(1) \<open>distinct (map p_id ps)\<close> cap pn ps(2) f]
  define c3 where "c3 = (if n > 0 then sc_emit (settled_alert n (mr_condition_id r) u) (sc_persist V c2) else c2)"
  have s3: "money_sound c3" "money_gap c3 = money_gap c"
    using all s1(2) by (simp_all add: c3_def)
  define c4 where "c4 = c3\<lparr>sc_core := (sc_core c3)\<lparr>cb_positions :=
                fst (backfill_fallback_to_venue (mr_condition_id r) (cb_positions (sc_core c3)))\<rparr>,
              sc_settlement := forget_market (mr_condition_id r) (sc_settlement c3)\<rparr>"
  have "durable (sc_settlement c4) = durable (sc_settlement c3)" "well_kept (sc_settlement c4)"
    using s3(1) by (simp_all add: c4_def forget_frame money_sound_def)
  then have s4: "money_sound c4" "money_gap c4 = money_gap c"
    using s3 receivable_durable [of "sc_settlement c4"] receivable_durable [of "sc_settlement c3"]
      amounts_durable [of "sc_settlement c4"] amounts_durable [of "sc_settlement c3"]
    by (simp_all add: c4_def money_sound_def money_gap_def total_cash_def owed_def backfill_cash)
  have s5: "money_sound (c1\<lparr>sc_settlement := forget_market (mr_condition_id r) (sc_settlement c1)\<rparr>)"
    "money_gap (c1\<lparr>sc_settlement := forget_market (mr_condition_id r) (sc_settlement c1)\<rparr>) = money_gap c"
    using gap_cong [of "c1\<lparr>sc_settlement := forget_market (mr_condition_id r) (sc_settlement c1)\<rparr>" c1] s1
    by (simp_all add: forget_frame money_sound_def)
  have "on_market_resolution D G V st r now c = (if \<not> mr_resolved r then c1 else if ps = [] then
      c1\<lparr>sc_settlement := forget_market (mr_condition_id r) (sc_settlement c1)\<rparr>
      else if x \<noteq> [] then sc_emit (unpriced_error r x) c3 else c4)"
    unfolding on_market_resolution_def Let_def c1_def [symmetric] ps_def [symmetric] f [symmetric] prod.case
      c3_def [symmetric] c4_def [symmetric] by simp
  moreover have "money_sound (sc_emit (unpriced_error r x) c3)" "money_gap (sc_emit (unpriced_error r x) c3) = money_gap c"
    using s3 by simp_all
  ultimately show ?thesis using s1 s3 s4 s5 by simp
qed

section \<open>Collateral arrives\<close>

lemma set_update_sub: "set (AList.update k v xs) \<subseteq> insert (k, v) (set xs)"
  by (induction xs) auto

lemma put_cash:
  assumes "map_of (cb_accounts b) a = Some l"
  shows "total_cash (put_ledger a l' b) = total_cash b - l_balance l + l_balance l'"
  using total_cash_put [OF assms, of l'] by (simp add: total_cash_def put_ledger_def)

lemma credit_balance: "0 \<le> l_balance l \<Longrightarrow> 0 \<le> amount \<Longrightarrow> l_balance (credit_as k x amount r l) = l_balance l + amount"
  by (simp add: credit_as_def)

lemma credit_account_cash:
  assumes "credit_account a f b = Some b1" and "\<forall>(a, l) \<in> set (cb_accounts b). 0 \<le> l_balance l"
    and "\<And>l. 0 \<le> l_balance l \<Longrightarrow> l_balance (f l) = l_balance l + v" and "0 \<le> v"
  shows "total_cash b1 = total_cash b + v" "cb_positions b1 = cb_positions b"
    "\<forall>(a, l) \<in> set (cb_accounts b1). 0 \<le> l_balance l" "fst ` set (cb_accounts b1) = fst ` set (cb_accounts b)"
proof -
  obtain l where l: "map_of (cb_accounts b) a = Some l" "b1 = put_ledger a (f l) b"
    using assms(1) by (auto simp: credit_account_def)
  have nn: "0 \<le> l_balance l" using map_of_SomeD [OF l(1)] assms(2) by auto
  show "total_cash b1 = total_cash b + v" using put_cash [OF l(1)] assms(3) [OF nn] by (simp add: l(2))
  show "cb_positions b1 = cb_positions b" by (simp add: l(2))
  have "set (AList.update a (f l) (cb_accounts b)) \<subseteq> insert (a, f l) (set (cb_accounts b))"
    by (rule set_update_sub)
  then show "\<forall>(a, l) \<in> set (cb_accounts b1). 0 \<le> l_balance l"
    using assms(2,3,4) nn by (fastforce simp: l(2) put_ledger_def)
  show "fst ` set (cb_accounts b1) = fst ` set (cb_accounts b)"
    using map_of_SomeD [OF l(1)] by (force simp: l(2) put_ledger_def dom_update insert_absorb)
qed

lemma credit_account_pays:
  assumes "credit_account a f b = Some b1"
  shows "map_of (cb_accounts b1) = (map_of (cb_accounts b))(a := map_option f (map_of (cb_accounts b) a))"
  using assms by (auto simp: credit_account_def put_ledger_def update_conv')

lemma map_of_keys: "map_of xs a \<noteq> None \<longleftrightarrow> a \<in> fst ` set xs"
  by (simp add: map_of_eq_None_iff)

lemma credit_or_active_cash:
  assumes "active \<in> fst ` set (cb_accounts b)" and "\<forall>(a, l) \<in> set (cb_accounts b). 0 \<le> l_balance l"
    and "\<And>l. 0 \<le> l_balance l \<Longrightarrow> l_balance (f l) = l_balance l + v" and "0 \<le> v"
  shows "total_cash (credit_or_active active account f b) = total_cash b + v"
    "cb_positions (credit_or_active active account f b) = cb_positions b"
    "\<forall>(a, l) \<in> set (cb_accounts (credit_or_active active account f b)). 0 \<le> l_balance l"
    "fst ` set (cb_accounts (credit_or_active active account f b)) = fst ` set (cb_accounts b)"
proof -
  obtain a where a: "credit_account a f b = Some (credit_or_active active account f b)"
  proof (cases "account = [] \<or> credit_account (AccountId account) f b = None")
    case True
    moreover have "map_of (cb_accounts b) active \<noteq> None" using assms(1) unfolding map_of_keys .
    ultimately show ?thesis using that [of active]
      by (auto simp: credit_or_active_def credit_account_def)
  next
    case False
    then show ?thesis using that [of "AccountId account"] by (auto simp: credit_or_active_def)
  qed
  note c = credit_account_cash [OF a assms(2,3,4)]
  show "total_cash (credit_or_active active account f b) = total_cash b + v"
    "cb_positions (credit_or_active active account f b) = cb_positions b"
    "\<forall>(a, l) \<in> set (cb_accounts (credit_or_active active account f b)). 0 \<le> l_balance l"
    "fst ` set (cb_accounts (credit_or_active active account f b)) = fst ` set (cb_accounts b)"
    using c by blast+
qed

lemma confirm_kept:
  assumes "well_kept b" and "map_of (stl_claims b) i = Some d"
  shows "well_kept (fst (note_confirmed ok i tx blk now b))"
    "receivable_usd (fst (note_confirmed ok i tx blk now b)) = receivable_usd b - rc_payout_usd d"
    "merge_receivable_usd (fst (note_confirmed ok i tx blk now b)) = merge_receivable_usd b"
    "amounts_nonneg b \<Longrightarrow> amounts_nonneg (fst (note_confirmed ok i tx blk now b))"
  using assms(1) sum_deleted [OF _ assms(2), of rc_payout_usd]
  by (auto simp: well_kept_def confirm_fields [OF assms(2)] set_delete_eq receivable_sum merge_receivable_sum
      amounts_nonneg_def)

lemma redemption_money:
  assumes "money_sound c"
  shows "money_sound (on_redemption_result V r now c) \<and> money_gap (on_redemption_result V r now c) = money_gap c"
proof (cases "rr_failure r")
  case (Some f)
  have wk: "well_kept (sc_settlement c)" using assms by (simp add: money_sound_def)
  show ?thesis
    using gap_cong [of "on_redemption_result V r now c" c] assms failure_durable [OF wk]
    by (simp add: on_redemption_result_def Some)
next
  case None
  have wk: "well_kept (sc_settlement c)" and am: "amounts_nonneg (sc_settlement c)"
    and acc: "sc_active c \<in> fst ` set (cb_accounts (sc_core c))" "\<forall>(a, l) \<in> set (cb_accounts (sc_core c)). 0 \<le> l_balance l"
    using assms by (simp_all add: money_sound_def)
  show ?thesis
  proof (cases "map_of (stl_claims (sc_settlement c)) (rr_id r)")
    case None
    then have "on_redemption_result V r now c = c"
      using \<open>rr_failure r = None\<close> by (simp add: on_redemption_result_def note_confirmed_def)
    then show ?thesis using assms by simp
  next
    case (Some d)
    let ?b = "fst (note_confirmed (se_journal_ok V (rr_id r)) (rr_id r) (rr_tx_hash r) (rr_block_number r) now (sc_settlement c))"
    let ?f = "credit_redemption (se_io V (rr_id r)) (rc_payout_usd d) (rr_id r)"
    let ?core = "credit_or_active (sc_active c) (rc_account_id d) ?f (sc_core c)"
    have v: "0 \<le> rc_payout_usd d" using map_of_SomeD [OF Some] am by (auto simp: amounts_nonneg_def)
    have f: "0 \<le> l_balance l \<Longrightarrow> l_balance (?f l) = l_balance l + rc_payout_usd d" for l
      using v by (simp add: credit_redemption_def credit_balance)
    note cash = credit_or_active_cash [where account = "rc_account_id d", OF acc f v]
    obtain ev where eq: "on_redemption_result V r now c = sc_emit ev (c\<lparr>sc_settlement := ?b, sc_core := ?core\<rparr>)"
      using \<open>rr_failure r = None\<close> confirm_fields(8) [OF Some]
      by (simp add: on_redemption_result_def split_beta)
    show ?thesis
      using assms cash confirm_kept [OF wk Some] am unfolding eq
      by (simp add: money_sound_def money_gap_def owed_def total_cash_def map_of_keys)
  qed
qed

text \<open>A merge is booked to a configured account.\<close>

definition clean_merge :: "merge_result \<Rightarrow> settle_core \<Rightarrow> bool" where
  "clean_merge r c \<longleftrightarrow> (\<forall>m. map_of (stl_merges (sc_settlement c)) (mx_id r) = Some m \<longrightarrow>
     map_of (cb_accounts (sc_core c)) (AccountId (mcl_account_id m)) \<noteq> None)"

lemma merge_money:
  assumes "money_sound c" and "clean_merge r c"
  shows "money_sound (on_merge_result V r now c) \<and> money_gap (on_merge_result V r now c) = money_gap c"
proof (cases "mx_failure r")
  case (Some f)
  have wk: "well_kept (sc_settlement c)" using assms by (simp add: money_sound_def)
  show ?thesis
    using gap_cong [of "on_merge_result V r now c" c] assms merge_failure_durable [OF wk]
    by (simp add: on_merge_result_def Some)
next
  case None
  have wk: "well_kept (sc_settlement c)" and am: "amounts_nonneg (sc_settlement c)"
    and acc: "\<forall>(a, l) \<in> set (cb_accounts (sc_core c)). 0 \<le> l_balance l"
    using assms by (simp_all add: money_sound_def)
  show ?thesis
  proof (cases "map_of (stl_merges (sc_settlement c)) (mx_id r)")
    case None
    then have "on_merge_result V r now c = c"
      using \<open>mx_failure r = None\<close> by (simp add: on_merge_result_def note_merge_confirmed_def)
    then show ?thesis using assms by simp
  next
    case (Some m)
    let ?f = "credit_merge (se_io V (mx_id r)) (mcl_pairs_usd m) (mx_id r)"
    have v: "0 \<le> mcl_pairs_usd m" using map_of_SomeD [OF Some] am by (auto simp: amounts_nonneg_def)
    have f: "0 \<le> l_balance l \<Longrightarrow> l_balance (?f l) = l_balance l + mcl_pairs_usd m" for l
      using v by (simp add: credit_merge_def credit_balance)
    obtain b1 where b1: "credit_account (AccountId (mcl_account_id m)) ?f (sc_core c) = Some b1"
      using assms(2) Some by (auto simp: clean_merge_def credit_account_def)
    note cash = credit_account_cash [OF b1 acc f v]
    note mf = merge_confirm_fields [OF Some, where ok = "se_journal_ok V (mx_id r)" and tx = "mx_tx_hash r"
        and blk = "mx_block_number r" and now = now]
    obtain ev where eq: "on_merge_result V r now c = sc_emit ev (c\<lparr>sc_settlement :=
        fst (note_merge_confirmed (se_journal_ok V (mx_id r)) (mx_id r) (mx_tx_hash r) (mx_block_number r) now (sc_settlement c)),
        sc_core := b1\<rparr>)"
      using \<open>mx_failure r = None\<close> mf(2) b1 by (simp add: on_merge_result_def split_beta)
    have "merge_receivable_usd (sc_settlement c) - mcl_pairs_usd m =
        sum_list (map (mcl_pairs_usd \<circ> snd) (AList.delete (mx_id r) (stl_merges (sc_settlement c))))"
      using sum_deleted [OF _ Some, of mcl_pairs_usd] wk by (simp add: merge_receivable_sum well_kept_def)
    then show ?thesis
      using assms cash wk am unfolding eq mf(1)
      by (auto simp: money_sound_def money_gap_def owed_def total_cash_def map_of_keys merge_receivable_sum
          receivable_sum well_kept_def amounts_nonneg_def set_delete_eq)
  qed
qed

section \<open>Fallback closes\<close>

text \<open>The books with no settlement event in between: cash, positions and accounts only.\<close>

definition books_sound :: "core_books \<Rightarrow> bool" where
  "books_sound b \<longleftrightarrow> sound_rows (cb_positions b) \<and> (\<forall>(a, l) \<in> set (cb_accounts b). 0 \<le> l_balance l)"

definition books_gap :: "core_books \<Rightarrow> decimal" where
  "books_gap b = total_cash b - book_cash (cb_positions b)"

lemma money_books:
  assumes "money_sound c" and "sc_settlement d = sc_settlement c" and "sc_active d = sc_active c"
    and "books_sound (sc_core d)" and "fst ` set (cb_accounts (sc_core d)) = fst ` set (cb_accounts (sc_core c))"
  shows "money_sound d" "money_gap d = money_gap c + books_gap (sc_core d) - books_gap (sc_core c)"
  using assms by (simp_all add: money_sound_def money_gap_def owed_def books_gap_def books_sound_def)

text \<open>A row the fallback can close: a known account and an entry price that is not negative.\<close>

definition closable :: "core_books \<Rightarrow> open_position \<Rightarrow> bool" where
  "closable b p \<longleftrightarrow> 0 \<le> p_entry_price p \<and> p_account_id p \<in> fst ` set (cb_accounts b)"

lemma fallback_one:
  assumes "books_sound b" and "p \<in> set (pm_open (cb_positions b))" and "length (pm_closed (cb_positions b)) < CLOSED_CAP"
    and "closable b p" and "b1 = fst (fallback_close D G V st now p b)"
  shows "books_sound b1" "books_gap b1 = books_gap b" "fst ` set (cb_accounts b1) = fst ` set (cb_accounts b)"
    "{q \<in> set (pm_open (cb_positions b)). p_id q \<noteq> p_id p} \<subseteq> set (pm_open (cb_positions b1))"
    "length (pm_closed (cb_positions b1)) = Suc (length (pm_closed (cb_positions b)))"
    "total_cash b1 = total_cash b + fallback_price p * p_shares p"
    "pm_open (cb_positions b1) = remove_first (\<lambda>q. p_id q = p_id p) (pm_open (cb_positions b))"
    "map_option l_balance (map_of (cb_accounts b1) a) = map_option
      (\<lambda>l. l_balance l + (if a = p_account_id p then fallback_price p * p_shares p else 0)) (map_of (cb_accounts b) a)"
proof -
  let ?m = "cb_positions b" and ?pr = "fallback_price p"
  have rows: "sound_rows ?m" and acc: "\<forall>(a, l) \<in> set (cb_accounts b). 0 \<le> l_balance l"
    using assms(1) by (simp_all add: books_sound_def)
  have find: "find_open (p_id p) ?m = Some p"
    using assms(2) rows by (intro find_open_member) (simp_all add: sound_rows_def)
  have sh: "0 < p_shares p" using assms(2) rows by (simp add: sound_rows_def sound_row_def)
  have pr: "0 \<le> ?pr" using assms(4) by (simp add: fallback_price_def closable_def)
  define n where "n = fst (close_pm D st (p_id p) ?pr UnverifiableExpiry True now ''fallback'' ?m)"
  note cs = close_sound [OF rows find assms(3) n_def]
  obtain k where k: "close_pm D st (p_id p) ?pr UnverifiableExpiry True now ''fallback'' ?m = (n, Some k)"
    "c_account_id k = p_account_id p" "c_dust_shares k = p_shares p" using cs(5) by blast
  let ?b = "b\<lparr>cb_positions := n\<rparr>"
  let ?c = "credit_expiry_fallback_cash V k ?pr ?b"
  have cash: "total_cash ?c = total_cash b + ?pr * p_shares p \<and> cb_positions ?c = n \<and>
    (\<forall>(a, l) \<in> set (cb_accounts ?c). 0 \<le> l_balance l) \<and> fst ` set (cb_accounts ?c) = fst ` set (cb_accounts b) \<and>
    (\<forall>a. map_option l_balance (map_of (cb_accounts ?c) a) = map_option
      (\<lambda>l. l_balance l + (if a = p_account_id p then ?pr * p_shares p else 0)) (map_of (cb_accounts b) a))"
  proof (cases "?pr * p_shares p \<le> 0")
    case True
    then have "?c = ?b" by (simp add: credit_expiry_fallback_cash_def k(3) Let_def)
    moreover have "?pr * p_shares p = 0" using True pr sh by (metis less_eq_rat_def mult_nonneg_nonneg order_antisym)
    ultimately show ?thesis using acc by (simp only: add_0_right if_cancel) (simp add: total_cash_def)
  next
    case False
    let ?f = "credit_expiry_fallback (se_io V (c_id k)) (?pr * p_shares p) (c_id k)"
    have "map_of (cb_accounts ?b) (p_account_id p) \<noteq> None"
      using assms(4) unfolding map_of_keys by (simp add: closable_def)
    then obtain b2 where b2: "credit_account (p_account_id p) ?f ?b = Some b2"
      by (auto simp: credit_account_def)
    have f: "0 \<le> l_balance l \<Longrightarrow> l_balance (?f l) = l_balance l + ?pr * p_shares p" for l
      using False by (simp add: credit_expiry_fallback_def credit_balance)
    have acc': "\<forall>(a, l) \<in> set (cb_accounts ?b). 0 \<le> l_balance l" using acc by simp
    have "?c = b2" using False b2 by (simp add: credit_expiry_fallback_cash_def k(2,3))
    moreover have "map_option l_balance (map_of (cb_accounts b2) a) = map_option
      (\<lambda>l. l_balance l + (if a = p_account_id p then ?pr * p_shares p else 0)) (map_of (cb_accounts b) a)" for a
    proof (cases "map_of (cb_accounts b) a")
      case (Some l)
      have "0 \<le> l_balance l" using map_of_SomeD [OF Some] acc by auto
      then show ?thesis
        using credit_account_pays [OF b2] Some f [OF \<open>0 \<le> l_balance l\<close>] by (cases "a = p_account_id p") auto
    qed (auto simp: credit_account_pays [OF b2])
    ultimately show ?thesis using credit_account_cash [OF b2 acc' f] False by (simp add: total_cash_def)
  qed
  have b1: "b1 = on_position_closed D G (se_core V) k now ?c" by (simp add: assms(5) fallback_close_def k(1))
  have "sound_rows (fst (take_daily_trips D n))"
    using cs(2) by (simp add: sound_rows_cong [of "fst (take_daily_trips D n)" n] frame_simps)
  then show "books_sound b1" "books_gap b1 = books_gap b" "fst ` set (cb_accounts b1) = fst ` set (cb_accounts b)"
    "length (pm_closed (cb_positions b1)) = Suc (length (pm_closed (cb_positions b)))"
    "total_cash b1 = total_cash b + fallback_price p * p_shares p"
    "pm_open (cb_positions b1) = remove_first (\<lambda>q. p_id q = p_id p) (pm_open (cb_positions b))"
    "map_option l_balance (map_of (cb_accounts b1) a) = map_option
      (\<lambda>l. l_balance l + (if a = p_account_id p then fallback_price p * p_shares p else 0)) (map_of (cb_accounts b) a)"
    using cash cs(1,3,4) by (simp_all add: b1 books_sound_def books_gap_def total_cash_def daily_book frame_simps)
  show "{q \<in> set (pm_open (cb_positions b)). p_id q \<noteq> p_id p} \<subseteq> set (pm_open (cb_positions b1))"
    using cash by (auto simp: b1 cs(3) frame_simps in_remove_other)
qed

lemma fallback_all:
  assumes "books_sound b" and "set ps \<subseteq> set (pm_open (cb_positions b))" and "distinct (map p_id ps)"
    and "length (pm_closed (cb_positions b)) + length ps \<le> CLOSED_CAP" and "\<forall>p \<in> set ps. closable b p"
  shows "books_sound (fold (\<lambda>p b. fst (fallback_close D G V st now p b)) ps b) \<and>
    books_gap (fold (\<lambda>p b. fst (fallback_close D G V st now p b)) ps b) = books_gap b \<and>
    fst ` set (cb_accounts (fold (\<lambda>p b. fst (fallback_close D G V st now p b)) ps b)) = fst ` set (cb_accounts b)"
  using assms
proof (induction ps arbitrary: b)
  case (Cons p ps)
  define b1 where "b1 = fst (fallback_close D G V st now p b)"
  have "p \<in> set (pm_open (cb_positions b))" "length (pm_closed (cb_positions b)) < CLOSED_CAP" "closable b p"
    using Cons.prems by auto
  note one = fallback_one [OF Cons.prems(1) this b1_def]
  have "set ps \<subseteq> set (pm_open (cb_positions b1))" using one(4) Cons.prems(2,3) by (fastforce simp: image_iff)
  moreover have "\<forall>p \<in> set ps. closable b1 p" using Cons.prems(5) one(3) by (simp add: closable_def)
  ultimately have "books_sound (fold (\<lambda>p b. fst (fallback_close D G V st now p b)) ps b1) \<and>
    books_gap (fold (\<lambda>p b. fst (fallback_close D G V st now p b)) ps b1) = books_gap b1 \<and>
    fst ` set (cb_accounts (fold (\<lambda>p b. fst (fallback_close D G V st now p b)) ps b1)) = fst ` set (cb_accounts b1)"
    using one Cons.prems by (intro Cons.IH) auto
  then show ?case using one(2,3) by (simp add: b1_def)
qed simp

definition clean_sweep :: "settle_core \<Rightarrow> bool" where
  "clean_sweep c \<longleftrightarrow> length (pm_closed (cb_positions (sc_core c))) + length (sc_positions c) \<le> CLOSED_CAP \<and>
     (\<forall>p \<in> set (sc_positions c). closable (sc_core c) p)"

lemma forget_all_frame: "durable (fold forget_market xs b) = durable b \<and> well_kept (fold forget_market xs b) = well_kept b"
  by (induction xs arbitrary: b) (simp_all add: forget_frame)

lemma sweep_money:
  assumes "money_sound c" and "clean_sweep c"
  shows "money_sound (run_expiry_fallback_sweep D G V st now c) \<and>
    money_gap (run_expiry_fallback_sweep D G V st now c) = money_gap c"
proof -
  let ?silent = "map fst (unanswered_since EXPIRY_FALLBACK_AFTER_MS now (sc_settlement c))"
  let ?ps = "filter (\<lambda>p. p_condition_id p \<in> set ?silent \<and> p_expires_at_ms p \<le> now) (sc_positions c)"
  show ?thesis
  proof (cases "?silent = [] \<or> ?ps = []")
    case True
    then have "run_expiry_fallback_sweep D G V st now c = c"
      unfolding run_expiry_fallback_sweep_def Let_def by auto
    then show ?thesis using assms(1) by simp
  next
    case False
    then have some: "?silent \<noteq> []" "?ps \<noteq> []" by blast+
    let ?b = "fold (\<lambda>p b. fst (fallback_close D G V st now p b)) ?ps (sc_core c)"
    define c1 where "c1 = c\<lparr>sc_core := persist_positions (se_core V) ?b\<rparr>"
    have "books_sound (sc_core c)" using assms(1) by (simp add: books_sound_def money_sound_def)
    moreover have "distinct (map p_id ?ps)"
      using assms(1) by (simp add: money_sound_def sound_rows_def sc_positions_def distinct_map_filter)
    moreover have "set ?ps \<subseteq> set (pm_open (cb_positions (sc_core c)))" by (auto simp: sc_positions_def)
    moreover have "length (pm_closed (cb_positions (sc_core c))) + length ?ps \<le> CLOSED_CAP"
      using assms(2) length_filter_le [of "\<lambda>p. p_condition_id p \<in> set ?silent \<and> p_expires_at_ms p \<le> now" "sc_positions c"]
      unfolding clean_sweep_def by linarith
    moreover have "\<forall>p \<in> set ?ps. closable (sc_core c) p" using assms(2) by (simp add: clean_sweep_def)
    ultimately have all: "books_sound ?b" "books_gap ?b = books_gap (sc_core c)"
      "fst ` set (cb_accounts ?b) = fst ` set (cb_accounts (sc_core c))"
      using fallback_all [of "sc_core c" ?ps D G V st now] by blast+
    have s1: "money_sound c1" "money_gap c1 = money_gap c"
      using money_books [OF assms(1), of c1] all by (simp_all add: c1_def books_sound_def books_gap_def total_cash_def)
    let ?gone = "filter (\<lambda>i. \<forall>p \<in> set (sc_positions c1). p_condition_id p \<noteq> i) ?silent"
    let ?c2 = "c1\<lparr>sc_settlement := fold forget_market ?gone (sc_settlement c1)\<rparr>"
    have "money_sound ?c2" "money_gap ?c2 = money_gap c1"
      using gap_cong [of ?c2 c1] s1(1) forget_all_frame [of ?gone "sc_settlement c1"] by (simp_all add: money_sound_def)
    moreover have "run_expiry_fallback_sweep D G V st now c = sc_emit (fallback_alert (length ?ps)) ?c2"
      by (simp only: run_expiry_fallback_sweep_def Let_def c1_def some if_False)
    ultimately show ?thesis using s1(2) by simp
  qed
qed

end
