(* ===== verification/SettlementFlow.thy ===== *)
theory SettlementFlow
  imports SettlementMoney
begin

text \<open>
  The service's money over whole sessions: fills, merge intents, resolutions, redemption and merge
  results and fallback closes in any order.
\<close>

section \<open>A fill\<close>

lemma update_all:
  assumes "\<forall>(a, l) \<in> set xs. Q l" and "Q l'"
  shows "\<forall>(a, l) \<in> set (AList.update k l' xs). Q l"
  using assms set_update_sub [of k l' xs] by fastforce

lemma update_keys: "map_of xs k = Some l \<Longrightarrow> fst ` set (AList.update k l' xs) = fst ` set xs"
  by (simp add: dom_update insert_absorb) (metis fst_conv image_eqI insert_absorb map_of_SomeD)

lemma clean_fill_cash:
  assumes "clean_fill D G st b d" and "map_of (cb_accounts b) (fd_account_id d) = Some l"
    and "fill_fee D G st d (fd_price d * fd_delta d) = Some fee"
  shows "0 \<le> l_balance l + fill_cash d fee (fill_rebate D G st d)"
proof -
  note c = assms(1) [unfolded clean_fill_def assms(2,3) option.case prod.case]
  then show ?thesis by (cases "fd_side d") (auto simp: fill_cash_def)
qed

lemma delta_accounts:
  assumes "clean_fill D G st b d" and "apply_delta_effects D G E st d now b = Some b'"
    and "\<forall>(a, l) \<in> set (cb_accounts b). 0 \<le> l_balance l"
  shows "(\<forall>(a, l) \<in> set (cb_accounts b'). 0 \<le> l_balance l) \<and> fst ` set (cb_accounts b') = fst ` set (cb_accounts b)"
proof -
  obtain l fee where l: "map_of (cb_accounts b) (fd_account_id d) = Some l"
    and fee: "fill_fee D G st d (fd_price d * fd_delta d) = Some fee"
    using assms(1) by (auto simp: clean_fill_def split: option.splits)
  note c = clean_balance [OF assms(1) l fee]
  have acc: "cb_accounts b' = AList.update (fd_account_id d) (booked_ledger D G E st d fee l b) (cb_accounts b)"
    using apply_delta_Some [OF assms(2)] l fee c(7) by auto
  have nn: "0 \<le> l_balance (booked_ledger D G E st d fee l b)"
    using c(1) clean_fill_cash [OF assms(1) l fee] by simp
  show ?thesis
    using update_all [where Q = "\<lambda>l. 0 \<le> l_balance l", OF assms(3) nn] update_keys [OF l] unfolding acc by blast
qed

lemma ingest_accounts:
  assumes "ingest_fill D G E st f now b = Some (b', r)"
    and "case announced D f now b of None \<Rightarrow> True | Some d \<Rightarrow> clean_fill D G st b d"
    and "\<forall>(a, l) \<in> set (cb_accounts b). 0 \<le> l_balance l"
  shows "(\<forall>(a, l) \<in> set (cb_accounts b'). 0 \<le> l_balance l) \<and> fst ` set (cb_accounts b') = fst ` set (cb_accounts b)"
proof -
  obtain s out where rep: "apply_fill_report D f now (cb_ome b) = (s, out)" by fastforce
  let ?b = "b\<lparr>cb_ome := s\<rparr>"
  show ?thesis
  proof (cases out)
    case (Inl e)
    then show ?thesis using assms(1,3) by (auto simp: ingest_fill_def rep)
  next
    case (Inr o1)
    obtain b1 where b1: "(case oc_delta o1 of Some d \<Rightarrow> apply_delta_effects D G E st d now ?b | None \<Rightarrow> Some ?b) = Some b1"
      and b': "cb_accounts b' = cb_accounts b1"
      using assms(1) by (auto simp: ingest_fill_def rep Inr report_fill_outcome_def Let_def emit_late_fill_def
          emit_ghost_fill_def split: option.splits)
    show ?thesis
    proof (cases "oc_delta o1")
      case None
      then show ?thesis using b1 b' assms(3) by auto
    next
      case (Some d)
      have c: "clean_fill D G st ?b d"
        using assms(2) clean_fill_cong [of ?b b D G st d] by (simp add: announced_def rep Inr Some)
      show ?thesis using delta_accounts [OF c, of E now b1] b1 Some assms(3) by (simp add: b')
    qed
  qed
qed

lemma fill_money:
  assumes "div_by_grid_exact D" and "money_sound c"
    and "case announced D f now (sc_core c) of None \<Rightarrow> True | Some d \<Rightarrow> clean_fill D G st (sc_core c) d"
  shows "\<exists>b r. ingest_fill D G E st f now (sc_core c) = Some (b, r) \<and> money_sound (c\<lparr>sc_core := b\<rparr>) \<and>
    money_gap (c\<lparr>sc_core := b\<rparr>) = money_gap c -
      (case announced D f now (sc_core c) of None \<Rightarrow> 0 | Some d \<Rightarrow> dust_of D st (sc_core c) d)"
proof -
  have bs: "books_sound (sc_core c)" using assms(2) by (simp add: books_sound_def money_sound_def)
  obtain b r where b: "ingest_fill D G E st f now (sc_core c) = Some (b, r)" "sound_rows (cb_positions b)"
    "books_gap b = books_gap (sc_core c) -
      (case announced D f now (sc_core c) of None \<Rightarrow> 0 | Some d \<Rightarrow> dust_of D st (sc_core c) d)"
    using ingest_books [OF assms(1) _ assms(3), of E] bs unfolding books_gap_def books_sound_def by blast
  have acc: "(\<forall>(a, l) \<in> set (cb_accounts b). 0 \<le> l_balance l) \<and> fst ` set (cb_accounts b) = fst ` set (cb_accounts (sc_core c))"
    using bs by (intro ingest_accounts [OF b(1) assms(3)]) (simp add: books_sound_def)
  have "money_sound (c\<lparr>sc_core := b\<rparr>)" "money_gap (c\<lparr>sc_core := b\<rparr>) = money_gap c + books_gap b - books_gap (sc_core c)"
    using money_books [OF assms(2), of "c\<lparr>sc_core := b\<rparr>"] b(2) acc by (simp_all add: books_sound_def)
  then show ?thesis using b by simp
qed

section \<open>A merge intent\<close>

lemma in_update_other: "x \<in> set xs \<Longrightarrow> \<not> P x \<Longrightarrow> x \<in> set (update_first P f xs)"
  by (induction xs) auto

lemma merge_leg_sound:
  assumes "sound_rows m" and "leg \<in> set (pm_open m)" and "0 < pairs" and "pairs \<le> p_shares leg"
    and "(n, cs') = merge_leg D st pairs now leg (m, cs)"
  shows "sound_rows n" and "q \<in> set (pm_open m) \<Longrightarrow> p_id q \<noteq> p_id leg \<Longrightarrow> q \<in> set (pm_open n)"
proof -
  let ?f = "exit_fill_row D pairs merge_leg_price 0 RoleMaker 0"
  let ?m1 = "update_open (p_id leg) ?f m"
  have find: "find_open (p_id leg) m = Some leg"
    using assms(1,2) by (intro find_open_member) (simp_all add: sound_rows_def)
  have leg: "sound_row leg" using assms(1,2) by (simp add: sound_rows_def)
  have row: "p_shares (?f leg) = p_shares leg - pairs" "row_ok (?f leg)"
    using exit_row_cash [of leg pairs merge_leg_price 0 0 D RoleMaker] leg assms(3,4)
    by (simp_all add: sound_row_def row_ok_def flows_nonneg_def merge_leg_price_def)
  have m1: "fst (apply_exit_fill D (p_id leg) pairs merge_leg_price 0 RoleMaker 0 m) = ?m1"
    "snd (apply_exit_fill D (p_id leg) pairs merge_leg_price 0 RoleMaker 0 m) = Some (p_shares leg - pairs)"
    using find row(1) by (simp_all add: apply_exit_fill_def Let_def)
  have f1: "find_open (p_id leg) ?m1 = Some (?f leg)" using find by (simp add: find_open_update)
  let ?r = "close_pm D st (p_id leg) merge_leg_price Merge True now ''venue'' ?m1"
  have n: "n = (if p_shares leg = pairs then fst ?r else ?m1)"
    using assms(5) m1 by (auto simp: merge_leg_eq Let_def split: if_splits)
  have opn: "pm_open (fst ?r) = remove_first (\<lambda>q. p_id q = p_id leg) (pm_open m)"
    using close_pm_Some(2) [OF f1 refl refl] by (simp add: update_open_def remove_update_first)
  have "sound_rows n \<and> (\<forall>q \<in> set (pm_open m). p_id q \<noteq> p_id leg \<longrightarrow> q \<in> set (pm_open n))"
  proof (cases "p_shares leg = pairs")
    case True
    have "sound_rows (fst ?r)"
      by (rule sound_rows_remove [OF assms(1) opn]) (simp add: frame_simps update_open_def)
    then show ?thesis using True by (auto simp: n opn in_remove_other)
  next
    case False
    have "sound_row (?f leg)"
      using False assms(3,4) leg row
      by (simp add: sound_row_def) (simp add: exit_fill_row_def Let_def flows_nonneg_def merge_leg_price_def)
    then have "sound_rows ?m1"
      using assms(1) find by (intro sound_rows_update) (simp_all add: sound_rows_def)
    then show ?thesis using False by (auto simp: n update_open_def in_update_other)
  qed
  then show "sound_rows n" "q \<in> set (pm_open m) \<Longrightarrow> p_id q \<noteq> p_id leg \<Longrightarrow> q \<in> set (pm_open n)" by blast+
qed

lemma cooldowns_sound: "sound_rows (fold clear_cooldowns cs n) = sound_rows n"
  by (rule sound_rows_cong) (simp_all add: frame_simps)

lemma merge_sound:
  assumes "div_by_grid_exact D" and "sound_rows m"
  shows "sound_rows (fst (merge_condition D st cond now m))"
  using merge_cases [of D st cond now m]
proof (elim disjE exE conjE)
  assume "fst (merge_condition D st cond now m) = m"
  then show ?thesis using assms(2) by simp
next
  fix up down pairs n cs
  assume up: "find_leg cond Up m = Some up" and down: "find_leg cond Down m = Some down"
    and pairs: "pairs = min (floor_to_grid D (p_shares up)) (floor_to_grid D (p_shares down))" "0 < pairs"
    and legs: "(n, cs) = merge_leg D st pairs now down (merge_leg D st pairs now up (m, []))"
    and res: "fst (merge_condition D st cond now m) = fold clear_cooldowns cs n"
  have mem: "up \<in> set (pm_open m)" "p_direction up = Up" "down \<in> set (pm_open m)" "p_direction down = Down"
    using up down by (auto simp: find_leg_def dest: find_Some_prop)
  have ne: "p_id down \<noteq> p_id up"
    using mem find_open_member [of m up] find_open_member [of m down] assms(2) by (auto simp: sound_rows_def)
  have le: "pairs \<le> p_shares up" "pairs \<le> p_shares down"
    using pairs(1) floor_to_grid_le [OF assms(1)] by (auto simp: min.coboundedI1 min.coboundedI2)
  obtain n1 cs1 where 1: "(n1, cs1) = merge_leg D st pairs now up (m, [])" by (metis surj_pair)
  note leg1 = merge_leg_sound [OF assms(2) mem(1) pairs(2) le(1) 1]
  have "sound_rows n"
    using merge_leg_sound(1) [OF leg1(1) leg1(2) [OF mem(3) ne] pairs(2) le(2)] legs 1 by metis
  then show ?thesis by (simp add: res cooldowns_sound)
qed

lemma merge_pays: "snd (merge_condition D st cond now m) = Some out \<Longrightarrow> mo_cash_credited_usd out = mo_pairs_merged out \<and>
  0 < mo_pairs_merged out"
  using merge_cases [of D st cond now m] by auto

lemma closes_frame:
  "cb_accounts (fold (\<lambda>cl b. on_position_closed D G E cl now b) cs b) = cb_accounts b"
  "pm_open (cb_positions (fold (\<lambda>cl b. on_position_closed D G E cl now b) cs b)) = pm_open (cb_positions b)"
  "pm_next_id (cb_positions (fold (\<lambda>cl b. on_position_closed D G E cl now b) cs b)) = pm_next_id (cb_positions b)"
  "book_cash (cb_positions (fold (\<lambda>cl b. on_position_closed D G E cl now b) cs b)) = book_cash (cb_positions b)"
  by (induction cs arbitrary: b) (simp_all add: frame_simps daily_book)

lemma burn_money_book:
  assumes "well_kept b" and "amounts_nonneg b" and "0 < usd"
  shows "\<exists>b1 i. note_merge_burned ok cond a v neg usd now b = Some (b1, i) \<and> well_kept b1 \<and> amounts_nonneg b1 \<and>
    receivable_usd b1 = receivable_usd b \<and> merge_receivable_usd b1 = merge_receivable_usd b + usd"
proof -
  obtain n where n: "free_merge_number (\<lambda>n. merge_id_taken b (merge_name cond n)) 1 = Some n"
    "\<not> merge_id_taken b (merge_name cond n)"
    using merge_number_found [of b cond] assms(1) by (auto simp: well_kept_def)
  let ?i = "merge_name cond n"
  let ?b1 = "note_merge_burned_inner ok ?i cond a v neg usd now b"
  have s: "bt_sorted (stl_merges b)" using assms(1) by (simp add: well_kept_def)
  have "map_of (stl_merges b) ?i = None" using n(2) by (simp add: merge_id_taken_def)
  then have "merge_receivable_usd ?b1 = merge_receivable_usd b + usd"
    using bt_sum_insert [OF s, of mcl_pairs_usd ?i "new_merge_claim ?i cond a v neg usd now"]
    by (simp add: merge_receivable_sum new_merge_claim_def)
  moreover have "receivable_usd ?b1 = receivable_usd b" by (simp add: receivable_sum)
  moreover have "well_kept ?b1" using assms(1) by (auto simp: well_kept_def)
  moreover have "amounts_nonneg ?b1"
    using assms(2,3) by (auto simp: amounts_nonneg_def set_bt_insert [OF s] new_merge_claim_def)
  moreover have "note_merge_burned ok cond a v neg usd now b = Some (?b1, ?i)"
    using n(1) by (simp add: note_merge_burned_def)
  ultimately show ?thesis by blast
qed

lemma intent_money:
  assumes "div_by_grid_exact D" and "money_sound c" and "length (pm_closed (cb_positions (sc_core c))) + 2 \<le> CLOSED_CAP"
  shows "\<exists>c1. on_merge_intent D G V st neg token account now c = Some c1 \<and> money_sound c1 \<and> money_gap c1 = money_gap c"
proof (cases "List.find (\<lambda>p. p_token_id p = token \<and> p_account_id p = account) (sc_positions c)")
  case None
  then show ?thesis using assms(2) by (simp add: on_merge_intent_def)
next
  case (Some p)
  let ?m = "cb_positions (sc_core c)"
  let ?r = "merge_condition D st (p_condition_id p) now ?m"
  have sound: "sound_rows ?m" using assms(2) by (simp add: money_sound_def)
  then have rows: "rows_ok ?m" "distinct (map p_id (pm_open ?m))" "\<forall>p \<in> set (pm_open ?m). flows_nonneg p"
    by (simp_all add: sound_rows_def sound_row_def rows_ok_def)
  note cash = conjunct1 [OF merge_book [OF assms(1) rows assms(3), of st "p_condition_id p" now]]
  have sound1: "sound_rows (fst ?r)" by (rule merge_sound [OF assms(1) sound])
  let ?c1 = "c\<lparr>sc_core := (sc_core c)\<lparr>cb_positions := fst ?r\<rparr>\<rparr>"
  show ?thesis
  proof (cases "snd ?r")
    case None
    then have "on_merge_intent D G V st neg token account now c = Some ?c1"
      using Some by (simp add: on_merge_intent_def split_beta)
    moreover have "money_sound ?c1" "money_gap ?c1 = money_gap c"
      using assms(2) sound1 cash None by (simp_all add: money_sound_def money_gap_def owed_def total_cash_def)
    ultimately show ?thesis by blast
  next
    case out: (Some out)
    note pay = merge_pays [OF out]
    have wk: "well_kept (sc_settlement c)" "amounts_nonneg (sc_settlement c)" using assms(2) by (simp_all add: money_sound_def)
    obtain b1 i where b1: "note_merge_burned (se_journal_ok V (mo_condition_id out)) (mo_condition_id out)
          (as_str (mo_account_id out)) (mo_venue out) (neg token) (mo_pairs_merged out) now (sc_settlement c) = Some (b1, i)"
      "well_kept b1" "amounts_nonneg b1" "receivable_usd b1 = receivable_usd (sc_settlement c)"
      "merge_receivable_usd b1 = merge_receivable_usd (sc_settlement c) + mo_pairs_merged out"
      using burn_money_book [OF wk conjunct2 [OF pay]] by metis
    let ?a = "sc_persist V (?c1\<lparr>sc_settlement := b1\<rparr>)"
    let ?c2 = "?a\<lparr>sc_core := fold (\<lambda>cl b. on_position_closed D G (se_core V) cl now b) (mo_closed out) (sc_core ?a)\<rparr>"
    have "on_merge_intent D G V st neg token account now c = Some ?c2"
      using Some out b1(1) pay by (simp add: on_merge_intent_def split_beta Let_def)
    moreover have "sound_rows (cb_positions (sc_core ?c2)) = sound_rows (fst ?r)"
      by (rule sound_rows_cong) (simp_all add: closes_frame)
    then have "money_sound ?c2" using assms(2) b1 sound1 by (simp add: money_sound_def closes_frame)
    moreover have "money_gap ?c2 = money_gap c"
      using cash out pay b1 by (simp add: money_gap_def owed_def total_cash_def closes_frame)
    ultimately show ?thesis by blast
  qed
qed

section \<open>Sessions\<close>

datatype money_op = MoFill fill | MoIntent "token_id \<Rightarrow> bool" token_id account_id | MoResolution market_resolution
  | MoRedemption redemption_result | MoMerge merge_result | MoSweep

type_synonym money_event = "settle_env \<times> int \<times> money_op"

fun money_step :: "dec_ops \<Rightarrow> core_config \<Rightarrow> fee_schedule option \<Rightarrow> money_event \<Rightarrow> settle_core \<Rightarrow> settle_core option" where
  "money_step D G st (V, now, MoFill f) c =
     map_option (\<lambda>(b, _). c\<lparr>sc_core := b\<rparr>) (ingest_fill D G (se_core V) st f now (sc_core c))"
| "money_step D G st (V, now, MoIntent neg token account) c = on_merge_intent D G V st neg token account now c"
| "money_step D G st (V, now, MoResolution r) c = Some (on_market_resolution D G V st r now c)"
| "money_step D G st (V, now, MoRedemption r) c = Some (on_redemption_result V r now c)"
| "money_step D G st (V, now, MoMerge r) c = Some (on_merge_result V r now c)"
| "money_step D G st (V, now, MoSweep) c = Some (run_expiry_fallback_sweep D G V st now c)"

fun money_run :: "dec_ops \<Rightarrow> core_config \<Rightarrow> fee_schedule option \<Rightarrow> money_event list \<Rightarrow> settle_core \<Rightarrow> settle_core option" where
  "money_run D G st [] c = Some c"
| "money_run D G st (x # xs) c = Option.bind (money_step D G st x c) (money_run D G st xs)"

text \<open>What an event may ask of the books, and the remainder a fill leaves.\<close>

fun clean_event :: "dec_ops \<Rightarrow> core_config \<Rightarrow> fee_schedule option \<Rightarrow> money_event \<Rightarrow> settle_core \<Rightarrow> bool" where
  "clean_event D G st (V, now, MoFill f) c \<longleftrightarrow>
     (case announced D f now (sc_core c) of None \<Rightarrow> True | Some d \<Rightarrow> clean_fill D G st (sc_core c) d)"
| "clean_event D G st (V, now, MoIntent neg token account) c \<longleftrightarrow> length (pm_closed (cb_positions (sc_core c))) + 2 \<le> CLOSED_CAP"
| "clean_event D G st (V, now, MoResolution r) c \<longleftrightarrow> clean_resolution r c"
| "clean_event D G st (V, now, MoRedemption r) c \<longleftrightarrow> True"
| "clean_event D G st (V, now, MoMerge r) c \<longleftrightarrow> clean_merge r c"
| "clean_event D G st (V, now, MoSweep) c \<longleftrightarrow> clean_sweep c"

fun event_dust :: "dec_ops \<Rightarrow> fee_schedule option \<Rightarrow> money_event \<Rightarrow> settle_core \<Rightarrow> decimal" where
  "event_dust D st (V, now, MoFill f) c =
     (case announced D f now (sc_core c) of None \<Rightarrow> 0 | Some d \<Rightarrow> dust_of D st (sc_core c) d)"
| "event_dust D st x c = 0"

fun clean_money_run :: "dec_ops \<Rightarrow> core_config \<Rightarrow> fee_schedule option \<Rightarrow> money_event list \<Rightarrow> settle_core \<Rightarrow> bool" where
  "clean_money_run D G st [] c \<longleftrightarrow> True"
| "clean_money_run D G st (x # xs) c \<longleftrightarrow> clean_event D G st x c \<and>
    (case money_step D G st x c of Some c1 \<Rightarrow> clean_money_run D G st xs c1 | None \<Rightarrow> True)"

fun run_dust :: "dec_ops \<Rightarrow> core_config \<Rightarrow> fee_schedule option \<Rightarrow> money_event list \<Rightarrow> settle_core \<Rightarrow> decimal" where
  "run_dust D G st [] c = 0"
| "run_dust D G st (x # xs) c = event_dust D st x c +
    (case money_step D G st x c of Some c1 \<Rightarrow> run_dust D G st xs c1 | None \<Rightarrow> 0)"

lemma event_money:
  assumes "div_by_grid_exact D" and "money_sound c" and "clean_event D G st x c"
  shows "\<exists>c1. money_step D G st x c = Some c1 \<and> money_sound c1 \<and> money_gap c1 = money_gap c - event_dust D st x c"
proof -
  obtain V now y where x: "x = (V, now, y)" by (cases x)
  show ?thesis
  proof (cases y)
    case (MoFill f)
    then show ?thesis using fill_money [OF assms(1,2), where f = f and now = now and G = G and st = st and E = "se_core V"] assms(3) by (auto simp: x)
  next
    case (MoIntent neg token account)
    then show ?thesis using intent_money [OF assms(1,2), of G V st neg token account now] assms(3) by (simp add: x)
  next
    case (MoResolution r)
    then show ?thesis using resolution_money [OF assms(2), of r D G V st now] assms(3) by (simp add: x)
  next
    case (MoRedemption r)
    then show ?thesis using redemption_money [OF assms(2), of V r now] by (simp add: x)
  next
    case (MoMerge r)
    then show ?thesis using merge_money [OF assms(2), of r V now] assms(3) by (simp add: x)
  next
    case MoSweep
    then show ?thesis using sweep_money [OF assms(2), of D G V st now] assms(3) by (simp add: x)
  qed
qed

text \<open>C1: from sound books and with the division by the share grid exact, over any session of fills, merge
  intents, resolutions, redemption and merge results and fallback closes, in any order, whose events are clean
  (each fill has a positive size, a price, fee and rebate that are not negative, and the cash of its account or the
  shares held to cover it; payouts are not negative and name their market; a merge report names an account with
  a ledger; swept rows have a ledger and an entry price that is not negative; the closed history stays under its
  cap), every event is booked, and the cash on all accounts plus the collateral owed on
  settled positions and burned pairs less the cash the position book explains changes only by the
  remainders below the share grid that fills write off: settlement, redemption, burning and the fallback
  neither create nor lose money, whatever fails to reach the disk.\<close>

theorem kernel_conserves_money:
  assumes "div_by_grid_exact D" and "money_sound c" and "clean_money_run D G st xs c"
  shows "\<exists>c1. money_run D G st xs c = Some c1 \<and> money_sound c1 \<and>
    total_cash (sc_core c1) + owed c1 - book_cash (cb_positions (sc_core c1)) =
      total_cash (sc_core c) + owed c - book_cash (cb_positions (sc_core c)) - run_dust D G st xs c"
  using assms(2,3)
proof (induction xs arbitrary: c)
  case (Cons x xs)
  obtain c2 where c2: "money_step D G st x c = Some c2" "money_sound c2" "money_gap c2 = money_gap c - event_dust D st x c"
    using event_money [OF assms(1) Cons.prems(1), of G st x] Cons.prems(2) by auto
  have "clean_money_run D G st xs c2" using Cons.prems(2) c2(1) by simp
  from Cons.IH [OF c2(2) this] c2 show ?case by (auto simp: money_gap_def)
qed simp


text \<open>A session: a buy opens a position, its market resolves in its favour, a redemption report names a
  claim that does not exist.\<close>

lemma announced_entry_rows:
  assumes "sound_rows (cb_positions b)" and "announced D f now b = Some d" and "clean_fill D G st b d"
    and "fd_side d = Buy" and "find_holding (fd_token_id d) (fd_account_id d) (cb_positions b) = None"
    and "ingest_fill D G E st f now b = Some (b', r)"
  shows "length (pm_open (cb_positions b')) = Suc (length (pm_open (cb_positions b)))"
    "pm_closed (cb_positions b') = pm_closed (cb_positions b)"
proof -
  obtain l fee where l: "map_of (cb_accounts b) (fd_account_id d) = Some l"
    and fee: "fill_fee D G st d (fd_price d * fd_delta d) = Some fee"
    using assms(3) by (auto simp: clean_fill_def split: option.splits)
  note c = clean_balance [OF assms(3) l fee]
  have next64: "pm_next_id (cb_positions b) < 2 ^ 64"
    using assms(3,4) l fee by (auto simp: clean_fill_def)
  obtain s out where rep: "apply_fill_report D f now (cb_ome b) = (s, Inr out)" and delta: "oc_delta out = Some d"
    using assms(2) by (auto simp: announced_def split: sum.splits) (metis prod.collapse)
  let ?b = "b\<lparr>cb_ome := s\<rparr>"
  obtain b1 where b1: "apply_delta_effects D G E st d now ?b = Some b1" "cb_positions b' = cb_positions b1"
    using assms(6) by (auto simp: ingest_fill_def rep delta report_fill_outcome_def Let_def emit_late_fill_def
        emit_ghost_fill_def split: option.splits)
  have pos: "cb_positions b1 = cb_positions (project_fill_delta D G E st d fee (fill_rebate D G st d) now
      (cash_booked D G E st d fee l ?b))"
    using apply_delta_Some [OF b1(1)] l fee c(7) by auto
  obtain c1 where c1: "cb_positions c1 = cb_positions b"
    "cb_positions b1 = cb_positions (project_buy D G E d fee (fill_rebate D G st d) now c1)"
  proof (rule project_side [of "cash_booked D G E st d fee l ?b" D G E st d fee "fill_rebate D G st d" now])
    fix c
    assume "cb_positions c = cb_positions (cash_booked D G E st d fee l ?b)"
      and "project_fill_delta D G E st d fee (fill_rebate D G st d) now (cash_booked D G E st d fee l ?b) =
        (case fd_side d of Buy \<Rightarrow> project_buy D G E d fee (fill_rebate D G st d) now c
         | Sell \<Rightarrow> project_sell D G E st d fee (fill_rebate D G st d) now c)"
    then show thesis using that [of c] pos assms(4) by simp
  qed
  show "length (pm_open (cb_positions b')) = Suc (length (pm_open (cb_positions b)))"
    "pm_closed (cb_positions b') = pm_closed (cb_positions b)"
    using first_entry [of c1 d D G E fee "fill_rebate D G st d" now] assms(1,5) next64 c(5,6) c1 b1(2) by auto
qed

definition demo_settle_env :: settle_env where
  "demo_settle_env = \<lparr>se_core = demo_env, se_journal_ok = (\<lambda>_. True), se_io = (\<lambda>_. \<lparr>io_now = 1, io_ok = True\<rparr>),
     se_mode = ModeDry, se_dry_redeem_fail = 0, se_dry_redeem_manual = False, se_audit_path = None,
     se_audit_ok = True\<rparr>"

definition demo_settle_core :: settle_core where
  "demo_settle_core = \<lparr>sc_core = demo_core (sample_ome 0) fresh_manager, sc_settlement = settlement_empty None,
     sc_active = default_account_id, sc_archive_verdicts = {}, sc_mirror = [], sc_next_expiry_ms = 0,
     sc_manual_ops = []\<rparr>"

definition flow_resolution :: market_resolution where
  "flow_resolution = \<lparr>mr_condition_id = ''cond'', mr_resolved = True, mr_payouts = [(''tok'', 1)],
     mr_neg_risk = False, mr_source = ''gamma''\<rparr>"

definition demo_redemption :: redemption_result where
  "demo_redemption = \<lparr>rr_id = ''nothing'', rr_condition_id = ''cond'', rr_tx_hash = None, rr_block_number = None,
     rr_failure = None, rr_at_ms = 150\<rparr>"

definition flow_session :: "money_event list" where
  "flow_session = [(demo_settle_env, 130, MoFill (sample_fill 4)), (demo_settle_env, 140, MoResolution flow_resolution),
     (demo_settle_env, 150, MoRedemption demo_redemption)]"

lemma demo_settle_sel [simp]: "sc_core demo_settle_core = demo_core (sample_ome 0) fresh_manager"
  "sc_settlement demo_settle_core = settlement_empty None" "sc_active demo_settle_core = default_account_id"
  by (simp_all add: demo_settle_core_def)

lemma demo_settle_sound: "money_sound demo_settle_core" "owed demo_settle_core = 0"
  by (simp_all add: money_sound_def sound_fresh owed_def settlement_empty_def well_kept_def amounts_nonneg_def
      receivable_sum merge_receivable_sum ledger_new_def)

lemma demo_entry_clean: "\<exists>d. announced exact_dec (sample_fill 4) 130 (demo_core (sample_ome 0) fresh_manager) = Some d \<and>
    fd_side d = Buy \<and> clean_fill exact_dec demo_config None (demo_core (sample_ome 0) fresh_manager) d"
proof -
  let ?b = "demo_core (sample_ome 0) fresh_manager"
  obtain d where an: "announced exact_dec (sample_fill 4) 130 ?b = Some d" and d: "fd_delta d = 4" "fd_price d = 1/2"
    "fd_side d = Buy" "is_maker (fd_role d)" "fd_account_id d = default_account_id"
    using sample_announced by blast
  have "clean_fill exact_dec demo_config None ?b d"
    by (simp add: clean_fill_def d fill_fee_def fill_rebate_def or_zero_def active_schedule_def fee_per_share_nonneg
        legacy_quadratic_schedule_def demo_config_def fresh_manager_def manager_new_def ledger_new_def split: option.splits)
  then show ?thesis using an d(3) by blast
qed

lemma flow_session_clean: "clean_money_run exact_dec demo_config None flow_session demo_settle_core"
  and flow_session_dust: "run_dust exact_dec demo_config None flow_session demo_settle_core = 0"
proof -
  let ?b = "demo_core (sample_ome 0) fresh_manager"
  obtain d where d: "announced exact_dec (sample_fill 4) 130 ?b = Some d" "fd_side d = Buy"
    "clean_fill exact_dec demo_config None ?b d"
    using demo_entry_clean by blast
  obtain b r where b: "ingest_fill exact_dec demo_config demo_env None (sample_fill 4) 130 ?b = Some (b, r)"
    using ingest_books [OF grid_exact_dec, where b = ?b and f = "sample_fill 4" and now = 130 and G = demo_config and st = None
        and E = demo_env] d sound_fresh by auto
  have none: "find_holding (fd_token_id d) (fd_account_id d) (cb_positions ?b) = None"
    by (simp add: find_holding_def fresh_manager_def manager_new_def)
  have sound: "sound_rows (cb_positions ?b)" by (simp add: sound_fresh)
  note rows = announced_entry_rows [OF sound d(1,3,2) none b]
  have "clean_resolution flow_resolution (demo_settle_core\<lparr>sc_core := b\<rparr>)"
    using rows by (simp add: clean_resolution_def pays_nonneg_def flow_resolution_def sc_positions_def CLOSED_CAP_def
        fresh_manager_def manager_new_def)
  then show "clean_money_run exact_dec demo_config None flow_session demo_settle_core"
    "run_dust exact_dec demo_config None flow_session demo_settle_core = 0"
    using b d none by (simp_all add: flow_session_def demo_settle_env_def dust_of_def)
qed

theorem kernel_conserves_money_witness:
  "\<exists>c1. money_run exact_dec demo_config None flow_session demo_settle_core = Some c1 \<and>
    total_cash (sc_core c1) + owed c1 - book_cash (cb_positions (sc_core c1)) = 100"
  using kernel_conserves_money [OF grid_exact_dec demo_settle_sound(1) flow_session_clean]
  by (auto simp: flow_session_dust demo_settle_sound(2) total_cash_def book_cash_def fresh_manager_def manager_new_def)

end
