(* ===== verification/SettlementRestart.thy ===== *)
theory SettlementRestart
  imports SettlementProps
begin

text \<open>
  The journal of the settlement book rebuilds it; a drain before its deadline is idle; which accounts
  end up sharing a claim; when a book counts as blind.
\<close>

section \<open>Rebuilding the book\<close>

definition journal_inv :: "settlement_book \<Rightarrow> bool" where
  "journal_inv b \<longleftrightarrow> (\<exists>f ls. stl_journal b = Some f \<and> lines_of f = map Some ls \<and>
     durable b = fold replay ls (settlement_empty None))"

lemma lines_append: "lines_of (append_to True l f) = lines_of f @ [Some l]"
  by (simp add: append_to_def lines_of_def)

lemma journal_line_step:
  assumes "journal_inv b" and "durable b' = replay l (durable b)"
    and "stl_journal b' = map_option (append_to True l) (stl_journal b)"
  shows "journal_inv b'"
proof -
  obtain f ls where f: "stl_journal b = Some f" "lines_of f = map Some ls" "durable b = fold replay ls (settlement_empty None)"
    using assms(1) by (auto simp: journal_inv_def)
  then have "stl_journal b' = Some (append_to True l f)" "lines_of (append_to True l f) = map Some (ls @ [l])"
    "durable b' = fold replay (ls @ [l]) (settlement_empty None)"
    using assms(2,3) by (simp_all add: lines_append)
  then show ?thesis unfolding journal_inv_def by blast
qed

lemma journal_frame: "journal_inv b \<Longrightarrow> durable b' = durable b \<Longrightarrow> stl_journal b' = stl_journal b \<Longrightarrow> journal_inv b'"
  by (simp add: journal_inv_def)

lemma accumulate_journal [simp]: "stl_journal (accumulate_claim i k r sh w t b) = stl_journal b"
  by (simp add: accumulate_claim_def)

lemma dispatch_journal: "stl_journal (fst (fold (dispatch_claim now) is (b, out))) = stl_journal b"
proof (induction "is" arbitrary: b out)
  case (Cons i "is")
  then show ?case by (cases "map_of (stl_claims b) i") (simp_all add: dispatch_claim_def)
qed simp

lemma dispatch_merge_journal: "stl_journal (fst (fold (dispatch_merge now) is (b, out))) = stl_journal b"
proof (induction "is" arbitrary: b out)
  case (Cons i "is")
  then show ?case by (cases "map_of (stl_merges b) i") (simp_all add: dispatch_merge_def)
qed simp

lemma track_journal: "stl_journal (fst (fold (track_market now) ps (b, n))) = stl_journal b"
proof (induction ps arbitrary: b n)
  case (Cons p ps)
  have "stl_journal (fst (track_market now p (b, n))) = stl_journal b"
    by (simp add: track_market_def split: option.splits)
  then show ?case using Cons by (cases "track_market now p (b, n)") auto
qed simp

lemma asking_journal:
  "asks_only op \<Longrightarrow> stl_journal (sn_book (settlement_step s (ok, now, op))) = stl_journal (sn_book s)"
  by (cases op) (auto simp: take_queries_def note_answer_def forget_market_def take_redemptions_def note_blind_state_def
      take_redemptions_for_venue_def take_merges_def take_merges_for_venue_def note_failure_def note_merge_failure_def
      dispatch_journal dispatch_merge_journal track_markets_def track_journal split: option.splits)

lemma book_journal:
  assumes "\<not> is_applied (bk_key k) b"
  shows "stl_journal (fst (book_settlement ok k r now b)) =
    map_option (append_to ok (JSettlement now (record_for k r (claim_for k b) now))) (stl_journal b)"
  using assms by (simp add: book_settlement_def Let_def split: option.splits)

lemma journal_op:
  assumes "journal_inv (sn_book s)" and "session_inv s" and "sound_op (True, now, op)"
  shows "journal_inv (sn_book (settlement_step s (True, now, op)))"
proof -
  have wk: "well_kept (sn_book s)" using assms(2) by (simp add: session_inv_def)
  consider (asks) "asks_only op" | (settle) p r where "op = SoSettle p r" | (closed) key where "op = SoClosed key"
    | (confirm) i tx blk where "op = SoConfirmed i tx blk" | (burn) cond a v neg n where "op = SoBurn cond a v neg n"
    | (merged) i tx blk where "op = SoMergeConfirmed i tx blk"
    by (cases op) auto
  then show ?thesis
  proof cases
    case asks
    then obtain b' where "settlement_step s (True, now, op) = s\<lparr>sn_book := b'\<rparr>" "durable b' = durable (sn_book s)"
      using asking_frame [OF asks wk, of True now] by blast
    then show ?thesis using journal_frame [OF assms(1)] asking_journal [OF asks, of s True now] by simp
  next
    case settle
    show ?thesis
    proof (cases "booking_for p r")
      case (Some k)
      have "\<forall>i. claim_for k (sn_book s) = Some i \<longrightarrow> i \<noteq> []"
        using claim_for_nonempty [OF wk] booking_sel(1) [OF Some] assms(3) settle by (auto simp: plain_id_def)
      then show ?thesis
        using journal_line_step [OF assms(1) book_durable book_journal] assms(1) Some settle
        by (cases "is_applied (bk_key k) (sn_book s)") (simp_all add: book_refused)
    qed (simp add: settle assms(1))
  next
    case closed
    then show ?thesis
      using journal_line_step [OF assms(1), of "note_closed True key now (sn_book s)" "JClosed now key"]
        closed_durable [of True key now "sn_book s"] assms(1)
      by (cases "key \<in> stl_closed (sn_book s)") (simp_all add: note_closed_def)
  next
    case confirm
    show ?thesis
    proof (cases "map_of (stl_claims (sn_book s)) i")
      case (Some c)
      have "stl_journal (fst (note_confirmed True i tx blk now (sn_book s))) =
          map_option (append_to True (JRedeemed now i tx blk)) (stl_journal (sn_book s))"
        using Some by (simp add: note_confirmed_def Let_def count_redeemed_def)
      then show ?thesis using journal_line_step [OF assms(1) confirm_durable [OF Some]] confirm
        by (simp add: split_beta)
    qed (simp add: confirm note_confirmed_def assms(1))
  next
    case burn
    obtain m where m: "free_merge_number (\<lambda>n. merge_id_taken (sn_book s) (merge_name cond n)) 1 = Some m"
      "\<not> merge_id_taken (sn_book s) (merge_name cond m)"
      using merge_number_found [of "sn_book s" cond] wk by (auto simp: well_kept_def)
    let ?i = "merge_name cond m"
    have free: "map_of (stl_merges (sn_book s)) ?i = None" using m(2) by (simp add: merge_id_taken_def)
    have "stl_journal (note_merge_burned_inner True ?i cond a v neg n now (sn_book s)) =
        map_option (append_to True (JMergeBurned now ?i cond a v neg n)) (stl_journal (sn_book s))"
      by (simp add: note_merge_burned_inner_def)
    then show ?thesis using journal_line_step [OF assms(1) burn_durable [OF free]] burn m(1)
      by (simp add: note_merge_burned_def)
  next
    case merged
    show ?thesis
    proof (cases "map_of (stl_merges (sn_book s)) i")
      case (Some c)
      have "stl_journal (fst (note_merge_confirmed True i tx blk now (sn_book s))) =
          map_option (append_to True (JMergeConfirmed now i tx blk)) (stl_journal (sn_book s))"
        using Some by (simp add: note_merge_confirmed_def)
      then show ?thesis using journal_line_step [OF assms(1) merge_confirm_durable [OF Some]] merged
        by (simp add: split_beta)
    qed (simp add: merged note_merge_confirmed_def assms(1))
  qed
qed

definition durable_step :: "settlement_run \<Rightarrow> bool \<times> int \<times> settlement_op \<Rightarrow> settlement_run" where
  "durable_step s x = (if sound_op x \<and> fst x then settlement_step s x else s)"

interpretation durable_session: invariant_machine durable_step "\<lambda>s. session_inv s \<and> journal_inv (sn_book s)"
proof unfold_locales
  fix s x
  assume "session_inv s \<and> journal_inv (sn_book s)"
  then show "session_inv (durable_step s x) \<and> journal_inv (sn_book (durable_step s x))"
    using session_step [of s x] journal_op [of s "fst (snd x)" "snd (snd x)"]
    by (cases x) (auto simp: durable_step_def)
qed

lemma durable_run:
  assumes "\<forall>x \<in> set xs. sound_op x \<and> fst x"
  shows "journal_inv (sn_book (run settlement_step (fresh_run (Some None)) xs))"
proof -
  have g: "durable_step = (\<lambda>s x. if sound_op x \<and> fst x then settlement_step s x else s)"
    by (intro ext) (simp add: durable_step_def)
  have "filter (\<lambda>x. sound_op x \<and> fst x) xs = xs" using assms by (simp add: filter_id_conv)
  then have "run settlement_step (fresh_run (Some None)) xs = run durable_step (fresh_run (Some None)) xs"
    using run_filter [of settlement_step "fresh_run (Some None)" "\<lambda>x. sound_op x \<and> fst x" xs] by (simp add: g)
  moreover have "journal_inv (settlement_empty (Some None))"
    unfolding journal_inv_def by (intro exI [of _ None] exI [of _ "[]"]) (simp add: settlement_empty_def durable_def lines_of_def)
  ultimately show ?thesis
    using durable_session.run_inv [of "fresh_run (Some None)" xs] fresh_session by (simp add: fresh_run_def)
qed

text \<open>Replaying does not look at the file the book carries.\<close>

lemma replay_keeps_journal: "replay l (b\<lparr>stl_journal := x\<rparr>) = (replay l b)\<lparr>stl_journal := x\<rparr>"
  by (cases l) (simp_all add: replay_settlement_def count_redeemed_def redeemed_count_of_def Let_def split: option.splits)

lemma fold_replay_journal: "fold replay ls (b\<lparr>stl_journal := x\<rparr>) = (fold replay ls b)\<lparr>stl_journal := x\<rparr>"
  by (induction ls arbitrary: b) (simp_all add: replay_keeps_journal)

lemma load_written: "lines_of f = map Some ls \<Longrightarrow> load_lines f = ls"
  by (simp add: load_lines_def map_filter_def comp_def)

lemma read_back: "(\<forall>l \<in> set ls. read_line D l = Some l) \<Longrightarrow> List.map_filter (read_line D) ls = ls"
  by (induction ls) (simp_all add: map_filter_def)

text \<open>C16: after any session of settlements (with plain condition ids and payouts that are not negative), closes,
  confirmations and burned pairs whose lines all reached the journal and read back as written, their amounts
  surviving the JSON doubles, opening the book again rebuilds everything but the attempts
  and the open questions: what is settled, closed, owed, redeemed, burned and collected.\<close>

theorem settlement_survives_restart:
  assumes "\<forall>x \<in> set xs. sound_op x \<and> fst x"
    and "sn_book (run settlement_step (fresh_run (Some None)) xs) = b"
    and "\<forall>f. stl_journal b = Some f \<longrightarrow> (\<forall>l \<in> set (load_lines f). read_line D l = Some l)"
  shows "\<exists>f. stl_journal b = Some f \<and> settlement_book_new D (Some f) = (durable b)\<lparr>stl_journal := Some f\<rparr>"
proof -
  obtain f ls where f: "stl_journal b = Some f" "lines_of f = map Some ls" "durable b = fold replay ls (settlement_empty None)"
    using durable_run [OF assms(1)] assms(2) by (auto simp: journal_inv_def)
  have "settlement_empty (Some f) = (settlement_empty None)\<lparr>stl_journal := Some f\<rparr>" by (simp add: settlement_empty_def)
  then have "settlement_book_new D (Some f) = (durable b)\<lparr>stl_journal := Some f\<rparr>"
    using assms(3) f load_written [OF f(2)] read_back [of ls D] fold_replay_journal [where ls = ls and b = "settlement_empty None" and x = "Some f"]
    by (simp add: settlement_book_new_def)
  then show ?thesis using f(1) by blast
qed

lemma demo_unit_booking:
  "booking_for (demo_row\<lparr>p_shares := 1\<rparr>) demo_resolution = Some k \<Longrightarrow> bk_shares k = 1 \<and> bk_payout_per_share k = 1 \<and> bk_payout_usd k = 1"
  by (auto simp: booking_for_def Let_def demo_resolution_def payout_per_share_def)

theorem settlement_survives_restart_witness:
  "\<exists>f. settlement_book_new exact_dec (Some f) = (durable (sn_book (run settlement_step (fresh_run (Some None))
     [(True, 10, SoSettle (demo_row\<lparr>p_shares := 1\<rparr>) demo_resolution), (True, 11, SoDrain)])))\<lparr>stl_journal := Some f\<rparr>"
proof -
  let ?xs = "[(True, 10, SoSettle (demo_row\<lparr>p_shares := 1\<rparr>) demo_resolution), (True, 11, SoDrain)]"
  let ?b = "sn_book (run settlement_step (fresh_run (Some None)) ?xs)"
  obtain k where k: "booking_for (demo_row\<lparr>p_shares := 1\<rparr>) demo_resolution = Some k"
    by (simp add: booking_for_def demo_resolution_def payout_per_share_def)
  have na: "\<not> is_applied (bk_key k) (settlement_empty (Some None))" by (simp add: is_applied_def settlement_empty_def)
  let ?r = "record_for k demo_resolution (claim_for k (settlement_empty (Some None))) 10"
  have "stl_journal ?b = Some (Some [Some (JSettlement 10 ?r)])"
    by (simp add: fresh_run_def k book_journal [OF na] take_redemptions_def dispatch_journal)
      (simp add: settlement_empty_def append_to_def lines_of_def)
  moreover have "read_line exact_dec (JSettlement 10 ?r) = Some (JSettlement 10 ?r)"
    using demo_unit_booking [OF k] by (simp add: read_settlement_def wire_decimal_def record_for_def)
  ultimately have "\<forall>f. stl_journal ?b = Some f \<longrightarrow> (\<forall>l \<in> set (load_lines f). read_line exact_dec l = Some l)"
    by (simp add: load_lines_def map_filter_def lines_of_def)
  moreover have "\<forall>x \<in> set ?xs. sound_op x \<and> fst x"
    by (simp add: demo_resolution_def demo_row_def plain_id_def)
  ultimately show ?thesis using settlement_survives_restart [OF _ refl] by blast
qed

section \<open>A drain before its deadline\<close>

text \<open>What the three deadlines promise about the drains.\<close>

lemma drain_deadlines:
  assumes "\<forall>(i, q) \<in> set (stl_queries b). 0 \<le> qs_sent_at_ms q" and "now < I64_MAX"
  shows "(now < next_query_deadline_ms b \<longrightarrow> take_queries now b = (b, [])) \<and>
    (now < next_redemption_ms b \<longleftrightarrow> filter (claim_due now \<circ> snd) (stl_claims b) = []) \<and>
    (now < next_redemption_ms b \<longrightarrow> take_redemptions now b = (b, []) \<and>
       take_redemptions_for_venue venue fallback now b = (b, [])) \<and>
    (now < next_merge_ms b \<longleftrightarrow> filter (merge_due now \<circ> snd) (stl_merges b) = []) \<and>
    (now < next_merge_ms b \<longrightarrow> take_merges now b = (b, []) \<and> take_merges_for_venue venue fallback now b = (b, []))"
proof -
  have ne: "now < min_or_max xs \<longleftrightarrow> (\<forall>x \<in> set xs. now < x)" for xs
    by (induction xs) (auto simp: min_or_max_def assms(2) split: option.splits)
  have q: "take_queries now b = (b, [])" if "now < next_query_deadline_ms b"
  proof -
    have "\<not> query_due now q" if iq: "(i, q) \<in> set (stl_queries b)" for i q
    proof -
      have "now < (if 0 < qs_sent_at_ms q then qs_sent_at_ms q + REQUERY_MS else qs_next_query_ms q)"
        using \<open>now < next_query_deadline_ms b\<close> iq by (force simp: next_query_deadline_ms_def ne)
      moreover have "0 \<le> qs_sent_at_ms q" using assms(1) iq by force
      ultimately show ?thesis by (auto simp: query_due_def split: if_splits)
    qed
    then have "filter (\<lambda>(_, q). query_due now q) (stl_queries b) = []"
      "map (\<lambda>(i, q). (i, if query_due now q then send_query now q else q)) (stl_queries b) = stl_queries b"
      by (auto simp: filter_empty_conv intro!: map_idI)
    then show ?thesis by (simp add: take_queries_def)
  qed
  have c: "now < next_redemption_ms b \<longleftrightarrow> (\<forall>(i, c) \<in> set (stl_claims b). \<not> claim_due now c)"
    by (auto simp: next_redemption_ms_def ne claim_due_def not_le)
  have m: "now < next_merge_ms b \<longleftrightarrow> (\<forall>(i, c) \<in> set (stl_merges b). \<not> merge_due now c)"
    by (auto simp: next_merge_ms_def ne merge_due_def not_le)
  have "take_redemptions now b = (b, []) \<and> take_redemptions_for_venue venue fallback now b = (b, [])"
    if "now < next_redemption_ms b"
  proof -
    have "filter (claim_due now \<circ> snd) (stl_claims b) = []"
      "filter (\<lambda>(_, c). claim_due now c \<and> for_venue venue fallback (rc_venue c)) (stl_claims b) = []"
      using that by (auto simp: c filter_empty_conv)
    then show ?thesis by (simp add: take_redemptions_def take_redemptions_for_venue_def)
  qed
  moreover have "take_merges now b = (b, []) \<and> take_merges_for_venue venue fallback now b = (b, [])"
    if "now < next_merge_ms b"
  proof -
    have "filter (merge_due now \<circ> snd) (stl_merges b) = []"
      "filter (\<lambda>(_, c). merge_due now c \<and> for_venue venue fallback (mcl_venue c)) (stl_merges b) = []"
      using that by (auto simp: m filter_empty_conv)
    then show ?thesis by (simp add: take_merges_def take_merges_for_venue_def)
  qed
  ultimately show ?thesis using q c m by (auto simp: filter_empty_conv)
qed

text \<open>Before the three deadlines the book names, its drains hand out nothing and leave the book as
  it is, so a scheduler that skips them until then loses no dispatch and moves no stamp; a claim or a
  merge is due at its own deadline and not before.\<close>

theorem drains_idle_before_deadline:
  assumes "\<forall>(i, q) \<in> set (stl_queries b). 0 \<le> qs_sent_at_ms q" and "now < I64_MAX"
  shows "(now < next_query_deadline_ms b \<longrightarrow> take_queries now b = (b, [])) \<and>
    (now < next_redemption_ms b \<longleftrightarrow> filter (claim_due now \<circ> snd) (stl_claims b) = []) \<and>
    (now < next_redemption_ms b \<longrightarrow> take_redemptions now b = (b, []) \<and>
       take_redemptions_for_venue venue fallback now b = (b, [])) \<and>
    (now < next_merge_ms b \<longleftrightarrow> filter (merge_due now \<circ> snd) (stl_merges b) = []) \<and>
    (now < next_merge_ms b \<longrightarrow> take_merges now b = (b, []) \<and> take_merges_for_venue venue fallback now b = (b, []))"
  by (rule drain_deadlines [OF assms])

theorem drains_idle_before_deadline_witness:
  "take_redemptions 5 ((settlement_empty None)\<lparr>stl_claims := [(''c'', (fresh_claim ''c'' ''c'' ''a'' ''v'' False ''t'' 1)
     \<lparr>rc_next_attempt_ms := 10\<rparr>)]\<rparr>) = ((settlement_empty None)\<lparr>stl_claims := [(''c'', (fresh_claim ''c'' ''c'' ''a'' ''v'' False ''t'' 1)
     \<lparr>rc_next_attempt_ms := 10\<rparr>)]\<rparr>, [])"
proof -
  let ?b = "(settlement_empty None)\<lparr>stl_claims := [(''c'', (fresh_claim ''c'' ''c'' ''a'' ''v'' False ''t'' 1)
     \<lparr>rc_next_attempt_ms := 10\<rparr>)]\<rparr>"
  have "\<forall>(i, q) \<in> set (stl_queries ?b). 0 \<le> qs_sent_at_ms q" "(5::int) < I64_MAX"
    by (simp_all add: settlement_empty_def I64_MAX_def)
  moreover have "5 < next_redemption_ms ?b"
    by (simp add: next_redemption_ms_def min_or_max_def fresh_claim_def)
  ultimately show ?thesis using drains_idle_before_deadline [where b = ?b and now = 5] by blast
qed

section \<open>Accounts that share a claim\<close>

lemma append_not_less: "\<not> xs @ ys < (xs :: string)"
  by (induction xs) auto

text \<open>The first three settlements of a market, of three accounts.\<close>

lemma first_leg:
  assumes "booking_for p r = Some k" and "bk_payout_usd k > 0" and "stl_claims b = []"
    and "redeemed_count_of (bk_condition_id k) b = 0" and "\<not> is_applied (bk_key k) b"
  shows "\<exists>c. stl_claims (fst (book_settlement ok k r now b)) = [(bk_condition_id k, c)] \<and> rc_id c = bk_condition_id k \<and>
    rc_condition_id c = bk_condition_id k \<and> rc_account_id c = bk_account_id k \<and> rc_payout_usd c = bk_payout_usd k"
  using assms by (simp add: book_fields claim_for_def open_claim_of_def claim_id_for_def entry_or_def)

lemma second_leg:
  assumes "bk_payout_usd k > 0" and "stl_claims b = [(bk_condition_id k, c)]" and "rc_account_id c \<noteq> bk_account_id k"
    and "redeemed_count_of (bk_condition_id k) b = 0" and "\<not> is_applied (bk_key k) b"
  shows "\<exists>d. stl_claims (fst (book_settlement ok k r now b)) = [(bk_condition_id k, c), (bk_condition_id k @ ''#1'', d)] \<and>
    rc_id d = bk_condition_id k @ ''#1'' \<and>
    rc_condition_id d = bk_condition_id k \<and> rc_account_id d = bk_account_id k \<and> rc_payout_usd d = bk_payout_usd k"
proof -
  have n: "nat_str (Suc 0) = ''1''" by (simp add: nat_str.simps [of "Suc 0"] digit_char_def)
  show ?thesis using assms
    by (simp add: book_fields claim_for_def open_claim_of_def claim_id_for_def entry_or_def n append_not_less)
qed

lemma third_leg:
  assumes "bk_payout_usd k > 0" and "stl_claims b = [(bk_condition_id k, c), (bk_condition_id k @ ''#1'', d)]"
    and "rc_account_id c \<noteq> bk_account_id k" and "rc_account_id d \<noteq> bk_account_id k"
    and "redeemed_count_of (bk_condition_id k) b = 0" and "\<not> is_applied (bk_key k) b"
  shows "\<exists>e. stl_claims (fst (book_settlement ok k r now b)) = [(bk_condition_id k, c), (bk_condition_id k @ ''#1'', e)] \<and>
    rc_account_id e = rc_account_id d \<and> rc_payout_usd e = rc_payout_usd d + bk_payout_usd k"
proof -
  have n: "nat_str (Suc 0) = ''1''" by (simp add: nat_str.simps [of "Suc 0"] digit_char_def)
  show ?thesis using assms
    by (simp add: book_fields claim_for_def open_claim_of_def claim_id_for_def entry_or_def n append_not_less)
qed

definition three_settle :: "open_position \<Rightarrow> open_position \<Rightarrow> open_position \<Rightarrow> market_resolution \<Rightarrow>
    (bool \<times> int \<times> settlement_op) list" where
  "three_settle p1 p2 p3 r = [(True, 1, SoSettle p1 r), (True, 2, SoSettle p2 r), (True, 3, SoSettle p3 r),
     (True, 4, SoConfirmed (mr_condition_id r) None None), (True, 5, SoConfirmed (mr_condition_id r @ ''#1'') None None)]"

lemma applied_after:
  assumes "\<not> is_applied (bk_key k) b" and "bt_sorted (stl_applied b)"
  shows "is_applied key (fst (book_settlement ok k r now b)) \<longleftrightarrow> key = bk_key k \<or> is_applied key b"
  using assms(2) by (simp add: is_applied_def book_fields [OF assms(1)])

text \<open>Three accounts hold winning shares of one market and the market settles. The first account gets a claim
  of its own, the second too, but the third one's payout is folded into the second account's claim: when
  both claims are redeemed, the second account is credited the third one's money and the third
  nothing.\<close>

theorem third_account_pays_the_second:
  assumes "booking_for p1 r = Some k1" and "booking_for p2 r = Some k2" and "booking_for p3 r = Some k3"
    and "bk_payout_usd k1 > 0" and "bk_payout_usd k2 > 0" and "bk_payout_usd k3 > 0"
    and "distinct [bk_account_id k1, bk_account_id k2, bk_account_id k3]"
    and "distinct [bk_key k1, bk_key k2, bk_key k3]"
  shows "sn_credited (run settlement_step (fresh_run f) (three_settle p1 p2 p3 r)) =
    [(mr_condition_id r, bk_account_id k1, bk_payout_usd k1),
     (mr_condition_id r @ ''#1'', bk_account_id k2, bk_payout_usd k2 + bk_payout_usd k3)]"
proof -
  let ?m = "mr_condition_id r"
  have cond: "bk_condition_id k1 = ?m" "bk_condition_id k2 = ?m" "bk_condition_id k3 = ?m"
    using assms(1-3) by (auto simp: booking_for_def Let_def split: if_splits)
  define b0 where "b0 = settlement_empty f"
  define b1 where "b1 = fst (book_settlement True k1 r 1 b0)"
  define b2 where "b2 = fst (book_settlement True k2 r 2 b1)"
  define b3 where "b3 = fst (book_settlement True k3 r 3 b2)"
  have a0: "\<not> is_applied x b0" "stl_claims b0 = []" "stl_applied b0 = []" "stl_redeemed_per_condition b0 = []" for x
    by (simp_all add: b0_def settlement_empty_def is_applied_def)
  have a1: "is_applied x b1 \<longleftrightarrow> x = bk_key k1" for x
    using applied_after [of k1 b0] a0 by (simp add: b1_def)
  have s1: "bt_sorted (stl_applied b1)" using book_fields(1) [of k1 b0] a0 by (simp add: b1_def bt_sorted_def)
  have a2: "is_applied x b2 \<longleftrightarrow> x = bk_key k2 \<or> x = bk_key k1" for x
    using applied_after [of k2 b1] a1 s1 assms(8) by (auto simp: b2_def)
  have n1: "stl_redeemed_per_condition b1 = []" using book_fields(4) [of k1 b0] a0 by (simp add: b1_def)
  have n2: "stl_redeemed_per_condition b2 = []" using book_fields(4) [of k2 b1] a1 n1 assms(8) by (auto simp: b2_def)
  have n3: "stl_redeemed_per_condition b3 = []" using book_fields(4) [of k3 b2] a2 n2 assms(8) by (auto simp: b3_def)
  have u: "redeemed_count_of x b0 = 0" "redeemed_count_of x b1 = 0" "redeemed_count_of x b2 = 0" for x
    by (simp_all add: redeemed_count_of_def a0 n1 n2)
  obtain c where c: "stl_claims b1 = [(?m, c)]" "rc_account_id c = bk_account_id k1" "rc_payout_usd c = bk_payout_usd k1"
    using first_leg [OF assms(1,4) a0(2) u(1) a0(1), where ok = True and now = 1] by (auto simp: b1_def cond)
  obtain d where d: "stl_claims b2 = [(?m, c), (?m @ ''#1'', d)]" "rc_account_id d = bk_account_id k2"
    "rc_payout_usd d = bk_payout_usd k2"
    using second_leg [OF assms(5), where b = b1 and c = c and ok = True and r = r and now = 2] c u(2) a1 assms(7,8) by (auto simp: b2_def cond)
  obtain e where e: "stl_claims b3 = [(?m, c), (?m @ ''#1'', e)]" "rc_account_id e = bk_account_id k2"
    "rc_payout_usd e = bk_payout_usd k2 + bk_payout_usd k3"
    using third_leg [OF assms(6), where b = b2 and c = c and d = d and ok = True and r = r and now = 3] c(2) d u(3) a2 assms(7,8) by (auto simp: b3_def cond)
  show ?thesis
    using c(2,3) e
    by (simp add: three_settle_def fresh_run_def assms(1-3) paid_def note_confirmed_def Let_def count_redeemed_def
        flip: b0_def b1_def b2_def b3_def)
qed

definition demo_of :: "string \<Rightarrow> int \<Rightarrow> open_position" where
  "demo_of a t = demo_row\<lparr>p_account_id := AccountId a, p_entered_at_ms := t\<rparr>"

lemma demo_of_booking:
  "\<exists>k. booking_for (demo_of a t) demo_resolution = Some k \<and> bk_payout_usd k = 100 \<and> bk_account_id k = a \<and>
    bk_key k = ''c'' @ '':'' @ ''t'' @ '':'' @ int_str t"
  by (simp add: booking_for_def demo_resolution_def demo_of_def demo_row_def payout_per_share_def settlement_key_def)

theorem third_account_pays_the_second_witness:
  "sn_credited (run settlement_step (fresh_run None) (three_settle (demo_of ''a'' 1) (demo_of ''b'' 2) (demo_of ''d'' 3) demo_resolution)) =
    [(''c'', ''a'', 100), (''c#1'', ''b'', 200)]"
proof -
  obtain k1 k2 k3 where k: "booking_for (demo_of ''a'' 1) demo_resolution = Some k1" "booking_for (demo_of ''b'' 2) demo_resolution = Some k2"
    "booking_for (demo_of ''d'' 3) demo_resolution = Some k3" "bk_payout_usd k1 = 100" "bk_payout_usd k2 = 100" "bk_payout_usd k3 = 100"
    "bk_account_id k1 = ''a''" "bk_account_id k2 = ''b''" "bk_account_id k3 = ''d''"
    "bk_key k1 = ''c:t:1''" "bk_key k2 = ''c:t:2''" "bk_key k3 = ''c:t:3''"
    using demo_of_booking [of "''a''" 1] demo_of_booking [of "''b''" 2] demo_of_booking [of "''d''" 3]
    by (auto simp: int_str_def nat_str.simps [of "Suc 0"] nat_str.simps [of 2] nat_str.simps [of 3] digit_char_def)
  have "mr_condition_id demo_resolution = ''c''" by (simp add: demo_resolution_def demo_row_def)
  then show ?thesis using third_account_pays_the_second [OF k(1-3), where f = None] k(4-) by simp
qed

end
