(* ===== verification/SettlementEdges.thy ===== *)
theory SettlementEdges
  imports SettlementFlow SettlementRestart
begin

text \<open>
  The edges of the service's settlement: the scheduler's gate, a confirmation for an account nobody
  knows, and a merge intent on a market where another account's rows come first.
\<close>

section \<open>The gate of the replay scheduler\<close>

definition stamps_sane :: "settlement_book \<Rightarrow> bool" where
  "stamps_sane b \<longleftrightarrow> (\<forall>(i, q) \<in> set (stl_queries b). 0 \<le> qs_sent_at_ms q)"

lemma settlement_same: "sc_settlement c = b \<Longrightarrow> c\<lparr>sc_settlement := b\<rparr> = c"
  by (cases c) simp

lemma out_question_deadline:
  assumes "q \<in> snd ` set (stl_queries b)" and "0 < qs_sent_at_ms q"
  shows "next_query_deadline_ms b \<le> qs_sent_at_ms q + REQUERY_MS"
  using assms unfolding next_query_deadline_ms_def by (intro min_or_max_le) force

text \<open>C17: when the replay scheduler's gate says a settlement pass is not due, the settlement drive of that pass
  (its questions, resolutions, redemptions and merges) would have changed nothing at all: no market is watched or
  forgotten, no question asked, no claim or merge attempted and no event emitted. The blind alert and the
  fallback sweep behind the same gate go by the clock alone and are not idle; what the gate costs them is
  bounded: while a question is out, the pass is due one re-query interval later at the latest. Stated for stamps
  within the range of the clock.\<close>

theorem skipped_pass_is_idle:
  assumes "\<not> settlement_pass_due G now c" and "stamps_sane (sc_settlement c)" and "now < I64_MAX"
  shows "drive_settlement D G V st now c = c \<and>
    (\<forall>q t. q \<in> snd ` set (stl_queries (sc_settlement c)) \<and> 0 < qs_sent_at_ms q \<and> qs_sent_at_ms q \<le> now \<and>
       now + REQUERY_MS \<le> t \<longrightarrow> settlement_pass_due G t c)"
proof -
  let ?b = "sc_settlement c"
  have gate: "cg_replay_sched G" "\<not> fp_positions_dirty (cb_fast (sc_core c))" "now < sc_next_expiry_ms c"
    "now < next_query_deadline_ms ?b" "now < next_redemption_ms ?b" "now < next_merge_ms ?b"
    using assms(1) by (auto simp: settlement_pass_due_def not_le)
  note idle = drain_deadlines [OF assms(2) [unfolded stamps_sane_def] assms(3), of "[]" False]
  have q: "take_queries now ?b = (?b, [])" and r: "take_redemptions now ?b = (?b, [])" and m: "take_merges now ?b = (?b, [])"
    using idle gate(4-6) by blast+
  have "take_settlement_queries G now c = (c, [])"
    using gate(1-3) by (simp add: take_settlement_queries_def sync_settlement_watch_def q settlement_same)
  moreover have "simulate_redemptions V now c = c" by (simp add: simulate_redemptions_def r settlement_same)
  moreover have "simulate_merges V now c = c" by (simp add: simulate_merges_def m settlement_same)
  ultimately have "drive_settlement D G V st now c = c" by (simp add: drive_settlement_def Let_def)
  moreover have "settlement_pass_due G t c"
    if "q \<in> snd ` set (stl_queries ?b)" "0 < qs_sent_at_ms q" "qs_sent_at_ms q \<le> now" "now + REQUERY_MS \<le> t" for q t
    using out_question_deadline [OF that(1,2)] that(3,4) by (simp add: settlement_pass_due_def)
  ultimately show ?thesis by blast
qed

definition waiting_core :: settle_core where
  "waiting_core = demo_settle_core\<lparr>sc_next_expiry_ms := 900, sc_settlement := (settlement_empty None)\<lparr>stl_claims :=
     [(''c'', (fresh_claim ''c'' ''c'' ''default'' ''poly'' False ''tok'' 1)\<lparr>rc_next_attempt_ms := 700, rc_payout_usd := 4\<rparr>)]\<rparr>\<rparr>"

theorem skipped_pass_is_idle_witness:
  "drive_settlement exact_dec (demo_config\<lparr>cg_replay_sched := True\<rparr>) demo_settle_env None 600 waiting_core = waiting_core \<and>
   owed waiting_core = 4"
proof -
  have sel: "sc_settlement waiting_core = (settlement_empty None)\<lparr>stl_claims :=
      [(''c'', (fresh_claim ''c'' ''c'' ''default'' ''poly'' False ''tok'' 1)\<lparr>rc_next_attempt_ms := 700, rc_payout_usd := 4\<rparr>)]\<rparr>"
    "sc_next_expiry_ms waiting_core = 900" "sc_core waiting_core = demo_core (sample_ome 0) fresh_manager"
    by (simp_all add: waiting_core_def)
  have clean: "\<not> fp_positions_dirty (cb_fast (demo_core (sample_ome 0) fresh_manager))" by (simp add: demo_core_def)
  have "\<not> settlement_pass_due (demo_config\<lparr>cg_replay_sched := True\<rparr>) 600 waiting_core"
    using clean by (simp add: settlement_pass_due_def sel next_query_deadline_ms_def next_redemption_ms_def
        next_merge_ms_def min_or_max_def settlement_empty_def fresh_claim_def I64_MAX_def)
  moreover have "stamps_sane (sc_settlement waiting_core)" by (simp add: stamps_sane_def sel settlement_empty_def)
  moreover have "(600 :: int) < I64_MAX" by (simp add: I64_MAX_def)
  ultimately have "drive_settlement exact_dec (demo_config\<lparr>cg_replay_sched := True\<rparr>) demo_settle_env None 600 waiting_core = waiting_core"
    using skipped_pass_is_idle by blast
  moreover have "owed waiting_core = 4"
    by (simp add: owed_def sel receivable_sum merge_receivable_sum settlement_empty_def fresh_claim_def)
  ultimately show ?thesis by blast
qed

section \<open>A confirmation nobody can take\<close>

text \<open>A confirmed merge whose account has no ledger is collateral the books lose: the claim leaves the
  journal for good and no cash arrives anywhere, while a confirmed redemption in the same situation
  credits the active account in full.\<close>

theorem unknown_account_merge_is_lost:
  assumes "money_sound c" and "map_of (stl_merges (sc_settlement c)) (mx_id r) = Some m" and "mx_failure r = None"
    and "map_of (cb_accounts (sc_core c)) (AccountId (mcl_account_id m)) = None"
    and "map_of (stl_claims (sc_settlement c)) (rr_id q) = Some k" and "rr_failure q = None"
    and "map_of (cb_accounts (sc_core c)) (AccountId (rc_account_id k)) = None"
  shows "total_cash (sc_core (on_merge_result V r now c)) = total_cash (sc_core c) \<and>
    map_of (stl_merges (sc_settlement (on_merge_result V r now c))) (mx_id r) = None \<and>
    mx_id r \<in> stl_merged (sc_settlement (on_merge_result V r now c)) \<and>
    money_gap (on_merge_result V r now c) = money_gap c - mcl_pairs_usd m \<and>
    total_cash (sc_core (on_redemption_result V q now c)) = total_cash (sc_core c) + rc_payout_usd k"
proof -
  let ?b = "fst (note_merge_confirmed (se_journal_ok V (mx_id r)) (mx_id r) (mx_tx_hash r) (mx_block_number r) now (sc_settlement c))"
  note mf = merge_confirm_fields [OF assms(2), where ok = "se_journal_ok V (mx_id r)" and tx = "mx_tx_hash r"
      and blk = "mx_block_number r" and now = now]
  have wk: "well_kept (sc_settlement c)" using assms(1) by (simp add: money_sound_def)
  obtain ev where eq: "on_merge_result V r now c = sc_emit ev (c\<lparr>sc_settlement := ?b\<rparr>)"
    using assms(3,4) mf(2) by (simp add: on_merge_result_def credit_account_def split_beta)
  have "merge_receivable_usd ?b = merge_receivable_usd (sc_settlement c) - mcl_pairs_usd m"
    using sum_deleted [OF _ assms(2), of mcl_pairs_usd] wk by (simp add: mf(1) merge_receivable_sum well_kept_def)
  moreover have "receivable_usd ?b = receivable_usd (sc_settlement c)" by (simp add: mf(1) receivable_sum)
  ultimately have gap: "money_gap (on_merge_result V r now c) = money_gap c - mcl_pairs_usd m"
    by (simp add: eq money_gap_def owed_def total_cash_def)
  have total: "total_cash (sc_core (on_merge_result V r now c)) = total_cash (sc_core c)"
    by (simp add: eq total_cash_def)
  have gone: "map_of (stl_merges (sc_settlement (on_merge_result V r now c))) (mx_id r) = None"
    "mx_id r \<in> stl_merged (sc_settlement (on_merge_result V r now c))"
    by (simp_all add: eq mf(1))
  have kept: "money_gap (on_redemption_result V q now c) = money_gap c"
    using redemption_money [OF assms(1)] by blast
  have "total_cash (sc_core (on_redemption_result V q now c)) = total_cash (sc_core c) + rc_payout_usd k"
  proof -
    let ?r = "fst (note_confirmed (se_journal_ok V (rr_id q)) (rr_id q) (rr_tx_hash q) (rr_block_number q) now (sc_settlement c))"
    let ?f = "credit_redemption (se_io V (rr_id q)) (rc_payout_usd k) (rr_id q)"
    obtain ev where "on_redemption_result V q now c = sc_emit ev (c\<lparr>sc_settlement := ?r,
        sc_core := credit_or_active (sc_active c) (rc_account_id k) ?f (sc_core c)\<rparr>)"
      using assms(6) confirm_fields(8) [OF assms(5)] by (simp add: on_redemption_result_def split_beta)
    moreover have "receivable_usd ?r = receivable_usd (sc_settlement c) - rc_payout_usd k"
      "merge_receivable_usd ?r = merge_receivable_usd (sc_settlement c)"
      using confirm_kept [OF wk assms(5)] by blast+
    moreover have "cb_positions (credit_or_active (sc_active c) (rc_account_id k) ?f (sc_core c)) = cb_positions (sc_core c)"
      by (simp add: credit_or_active_def credit_account_def split: option.splits)
    ultimately show ?thesis using kept by (simp add: money_gap_def owed_def total_cash_def)
  qed
  then show ?thesis using gap total gone by blast
qed


text \<open>An account nobody configured, with a merge and a redemption in flight.\<close>

definition orphan_core :: settle_core where
  "orphan_core = demo_settle_core\<lparr>sc_settlement := (settlement_empty None)\<lparr>
     stl_claims := [(''c'', (fresh_claim ''c'' ''c'' ''ghost'' ''poly'' False ''tok'' 1)\<lparr>rc_payout_usd := 4\<rparr>)],
     stl_merges := [(''m'', new_merge_claim ''m'' ''c'' ''ghost'' ''poly'' False 7 1)]\<rparr>\<rparr>"

definition confirmed_merge :: merge_result where
  "confirmed_merge = \<lparr>mx_id = ''m'', mx_condition_id = ''c'', mx_tx_hash = None, mx_block_number = None,
     mx_failure = None, mx_at_ms = 5\<rparr>"

theorem unknown_account_merge_is_lost_witness:
  "total_cash (sc_core (on_merge_result demo_settle_env confirmed_merge 5 orphan_core)) = 100 \<and>
   money_gap (on_merge_result demo_settle_env confirmed_merge 5 orphan_core) = money_gap orphan_core - 7 \<and>
   total_cash (sc_core (on_redemption_result demo_settle_env (demo_redemption\<lparr>rr_id := ''c''\<rparr>) 5 orphan_core)) = 104"
proof -
  have sel: "sc_core orphan_core = demo_core (sample_ome 0) fresh_manager" "sc_active orphan_core = default_account_id"
    "stl_claims (sc_settlement orphan_core) = [(''c'', (fresh_claim ''c'' ''c'' ''ghost'' ''poly'' False ''tok'' 1)\<lparr>rc_payout_usd := 4\<rparr>)]"
    "stl_merges (sc_settlement orphan_core) = [(''m'', new_merge_claim ''m'' ''c'' ''ghost'' ''poly'' False 7 1)]"
    by (simp_all add: orphan_core_def)
  have "well_kept (sc_settlement orphan_core)"
    by (simp add: well_kept_def orphan_core_def settlement_empty_def bt_sorted_def fresh_claim_def new_merge_claim_def)
  then have sound: "money_sound orphan_core"
    by (simp add: money_sound_def sel sound_fresh amounts_nonneg_def ledger_new_def new_merge_claim_def)
  have m: "map_of (stl_merges (sc_settlement orphan_core)) (mx_id confirmed_merge) =
      Some (new_merge_claim ''m'' ''c'' ''ghost'' ''poly'' False 7 1)" "mx_failure confirmed_merge = None"
    by (simp_all add: sel confirmed_merge_def)
  have k: "map_of (stl_claims (sc_settlement orphan_core)) (rr_id (demo_redemption\<lparr>rr_id := ''c''\<rparr>)) =
      Some ((fresh_claim ''c'' ''c'' ''ghost'' ''poly'' False ''tok'' 1)\<lparr>rc_payout_usd := 4\<rparr>)"
    "rr_failure (demo_redemption\<lparr>rr_id := ''c''\<rparr>) = None"
    by (simp_all add: sel demo_redemption_def)
  have a: "map_of (cb_accounts (sc_core orphan_core)) (AccountId (mcl_account_id (new_merge_claim ''m'' ''c'' ''ghost'' ''poly'' False 7 1))) = None"
    "map_of (cb_accounts (sc_core orphan_core)) (AccountId (rc_account_id
        ((fresh_claim ''c'' ''c'' ''ghost'' ''poly'' False ''tok'' 1)\<lparr>rc_payout_usd := 4\<rparr>))) = None"
    by (simp_all add: sel new_merge_claim_def fresh_claim_def default_account_id_def)
  have cash: "total_cash (demo_core (sample_ome 0) fresh_manager) = 100" by (simp add: total_cash_def ledger_new_def)
  show ?thesis
    using unknown_account_merge_is_lost [OF sound m a(1) k a(2), of demo_settle_env 5]
    by (simp add: cash sel new_merge_claim_def)
qed

section \<open>Whose pairs an intent burns\<close>

text \<open>A merge intent names an account, but the pairs burned are those of the first rows of the market in
  either direction: when another account's rows come first, its pairs are burned and the collateral is
  booked to it, although the intent's own account holds the token it names.\<close>

theorem intent_burns_the_first_rows:
  assumes "List.find (\<lambda>p. p_token_id p = token \<and> p_account_id p = account) (sc_positions c) = Some p"
    and "find_leg (p_condition_id p) Up (cb_positions (sc_core c)) = Some up"
    and "find_leg (p_condition_id p) Down (cb_positions (sc_core c)) = Some down"
    and "p_account_id down = p_account_id up" and "p_account_id up \<noteq> account"
    and "pairs = min (floor_to_grid D (p_shares up)) (floor_to_grid D (p_shares down))" and "0 < pairs"
    and "well_kept (sc_settlement c)"
  shows "\<exists>c1 i. on_merge_intent D G V st neg token account now c = Some c1 \<and>
    map_of (stl_merges (sc_settlement c)) i = None \<and>
    map_of (stl_merges (sc_settlement c1)) i =
      Some (new_merge_claim i (p_condition_id p) (as_str (p_account_id up)) (p_venue up) (neg token) pairs now) \<and>
    as_str (p_account_id up) \<noteq> as_str account"
proof -
  let ?r = "merge_condition D st (p_condition_id p) now (cb_positions (sc_core c))"
  obtain out where out: "snd ?r = Some out" "mo_condition_id out = p_condition_id p" "mo_account_id out = p_account_id up"
    "mo_venue out = p_venue up" "mo_pairs_merged out = pairs"
    using assms(2-7) by (auto simp: merge_condition_def Let_def split_beta)
  obtain n where n: "free_merge_number (\<lambda>n. merge_id_taken (sc_settlement c) (merge_name (p_condition_id p) n)) 1 = Some n"
    "\<not> merge_id_taken (sc_settlement c) (merge_name (p_condition_id p) n)"
    using merge_number_found [of "sc_settlement c" "p_condition_id p"] assms(8) by (auto simp: well_kept_def)
  let ?i = "merge_name (p_condition_id p) n"
  let ?b1 = "note_merge_burned_inner (se_journal_ok V (p_condition_id p)) ?i (p_condition_id p) (as_str (p_account_id up))
      (p_venue up) (neg token) pairs now (sc_settlement c)"
  let ?a = "sc_persist V (c\<lparr>sc_core := (sc_core c)\<lparr>cb_positions := fst ?r\<rparr>, sc_settlement := ?b1\<rparr>)"
  define c1 where "c1 = ?a\<lparr>sc_core := fold (\<lambda>cl b. on_position_closed D G (se_core V) cl now b) (mo_closed out) (sc_core ?a)\<rparr>"
  have s: "sc_settlement c1 = ?b1" by (simp add: c1_def)
  have "on_merge_intent D G V st neg token account now c = Some c1"
    unfolding c1_def using assms(1,7) out n(1) by (simp add: on_merge_intent_def split_beta Let_def note_merge_burned_def)
  moreover have "map_of (stl_merges (sc_settlement c)) ?i = None" using n(2) by (simp add: merge_id_taken_def)
  moreover have "map_of (stl_merges (sc_settlement c1)) ?i =
      Some (new_merge_claim ?i (p_condition_id p) (as_str (p_account_id up)) (p_venue up) (neg token) pairs now)"
    using assms(8) by (simp add: s well_kept_def)
  moreover have "as_str (p_account_id up) \<noteq> as_str account" using assms(5) by (metis account_id.collapse)
  ultimately show ?thesis by blast
qed


text \<open>One market held by two accounts, the pairs of ''a'' before those of ''b''.\<close>

definition shared_manager :: position_manager where
  "shared_manager = fresh_manager\<lparr>pm_open := [demo_row, demo_row\<lparr>p_id := ''hft-5'', p_direction := Down, p_token_id := ''u''\<rparr>,
     demo_row\<lparr>p_id := ''hft-6'', p_account_id := AccountId ''b''\<rparr>]\<rparr>"

definition shared_core :: settle_core where
  "shared_core = demo_settle_core\<lparr>sc_core := demo_core (sample_ome 0) shared_manager\<rparr>"

theorem intent_burns_the_first_rows_witness:
  "\<exists>c1 i. on_merge_intent exact_dec demo_config demo_settle_env None (\<lambda>_. False) ''t'' (AccountId ''b'') 9 shared_core = Some c1 \<and>
     map_of (stl_merges (sc_settlement c1)) i = Some (new_merge_claim i ''c'' ''a'' ''v'' False 100 9)"
proof -
  have sel: "sc_core shared_core = demo_core (sample_ome 0) shared_manager" "sc_settlement shared_core = settlement_empty None"
    by (simp_all add: shared_core_def)
  have rows: "sc_positions shared_core = [demo_row, demo_row\<lparr>p_id := ''hft-5'', p_direction := Down, p_token_id := ''u''\<rparr>,
     demo_row\<lparr>p_id := ''hft-6'', p_account_id := AccountId ''b''\<rparr>]"
    by (simp add: sc_positions_def sel shared_manager_def)
  let ?p = "demo_row\<lparr>p_id := ''hft-6'', p_account_id := AccountId ''b''\<rparr>"
  have f: "List.find (\<lambda>p. p_token_id p = ''t'' \<and> p_account_id p = AccountId ''b'') (sc_positions shared_core) = Some ?p"
    by (simp add: rows demo_row_def)
  have up: "find_leg (p_condition_id ?p) Up (cb_positions (sc_core shared_core)) = Some demo_row"
    by (simp add: find_leg_def sel shared_manager_def demo_row_def)
  have down: "find_leg (p_condition_id ?p) Down (cb_positions (sc_core shared_core)) =
      Some (demo_row\<lparr>p_id := ''hft-5'', p_direction := Down, p_token_id := ''u''\<rparr>)"
    by (simp add: find_leg_def sel shared_manager_def demo_row_def)
  have acc: "p_account_id (demo_row\<lparr>p_id := ''hft-5'', p_direction := Down, p_token_id := ''u''\<rparr>) = p_account_id demo_row"
    "p_account_id demo_row \<noteq> AccountId ''b''" by (simp_all add: demo_row_def)
  have pairs: "100 = min (floor_to_grid exact_dec (p_shares demo_row))
      (floor_to_grid exact_dec (p_shares (demo_row\<lparr>p_id := ''hft-5'', p_direction := Down, p_token_id := ''u''\<rparr>)))"
    by (simp add: demo_row_def floor_to_grid_def share_grid_def)
  have wk: "well_kept (sc_settlement shared_core)" using demo_settle_sound(1) by (simp add: money_sound_def sel)
  from intent_burns_the_first_rows [OF f up down acc pairs _ wk, of demo_config demo_settle_env None "\<lambda>_. False" 9]
  show ?thesis by (auto simp: demo_row_def)
qed


section \<open>The operator's close\<close>

text \<open>C18: a refused manual close leaves no trace, and one that is granted was gated and paid what it says: the
  position was open, its round over and an audit file configured; the position is no longer open; the balance of
  its account, and of no other, is up by the fallback price (the last price seen, or the entry price) times the shares it held; and
  exactly one audit line names the close at that price. Stated for sound books whose closed history is under
  its cap, an open position with a known account and an entry price that is not negative, and an audit write that
  succeeds.\<close>

theorem operator_close_is_gated:
  assumes "money_sound c" and "length (pm_closed (cb_positions (sc_core c))) < CLOSED_CAP"
    and "\<forall>p \<in> set (sc_positions c). closable (sc_core c) p" and "se_audit_ok V"
    and "force_close_expired_position D G V st i actor now c = (c1, r)"
  shows "case r of
      Inl e \<Rightarrow> c1 = c
    | Inr shut \<Rightarrow> (\<exists>p. find_open i (cb_positions (sc_core c)) = Some p \<and> round_over G now p \<and> se_audit_path V \<noteq> None \<and>
        find_open i (cb_positions (sc_core c1)) = None \<and>
        (\<forall>a. map_option l_balance (map_of (cb_accounts (sc_core c1)) a) = map_option
          (\<lambda>l. l_balance l + (if a = p_account_id p then fallback_price p * p_shares p else 0))
          (map_of (cb_accounts (sc_core c)) a)) \<and>
        total_cash (sc_core c1) = total_cash (sc_core c) + fallback_price p * p_shares p \<and>
        sc_manual_ops c1 = sc_manual_ops c @ [manual_close_op actor (fallback_price p) now shut] \<and>
        money_sound c1 \<and> money_gap c1 = money_gap c)"
proof (cases r)
  case (Inl e)
  then show ?thesis
    using assms(5) by (auto simp: force_close_expired_position_def split: option.splits if_splits prod.splits)
next
  case (Inr shut)
  obtain p b where p: "find_open i (cb_positions (sc_core c)) = Some p" "round_over G now p" "se_audit_path V \<noteq> None"
    and f: "fallback_close D G V st now p (sc_core c) = (b, Some shut)"
    and c1: "c1 = sc_emit (force_closed_alert shut (fallback_price p)) (c\<lparr>sc_core := persist_positions (se_core V) b,
        sc_manual_ops := sc_manual_ops c @ [manual_close_op actor (fallback_price p) now shut]\<rparr>)"
    using assms(4,5) Inr
    by (auto simp: force_close_expired_position_def split: option.splits if_splits prod.splits)
  have open_row: "p \<in> set (pm_open (cb_positions (sc_core c)))"
    using p(1) by (auto simp: find_open_def dest: find_Some_prop)
  have bs: "books_sound (sc_core c)" using assms(1) by (simp add: money_sound_def books_sound_def)
  have cl: "closable (sc_core c) p" using assms(3) open_row by (simp add: sc_positions_def)
  have b: "b = fst (fallback_close D G V st now p (sc_core c))" by (simp add: f)
  note one = fallback_one [OF bs open_row assms(2) cl b]
  let ?c = "c\<lparr>sc_core := persist_positions (se_core V) b,
      sc_manual_ops := sc_manual_ops c @ [manual_close_op actor (fallback_price p) now shut]\<rparr>"
  have "money_sound ?c" "money_gap ?c = money_gap c"
    using money_books [OF assms(1), of ?c] one by (simp_all add: books_sound_def books_gap_def total_cash_def)
  moreover have i: "p_id p = i" using p(1) by (auto simp: find_open_def dest: find_Some_prop)
  have "\<forall>q \<in> set (pm_open (cb_positions b)). p_id q \<noteq> i"
    using distinct_remove_first [of p_id "pm_open (cb_positions (sc_core c))" i] bs one(7)
    by (simp add: b i books_sound_def sound_rows_def)
  then have "find_open i (cb_positions b) = None" by (auto simp: find_open_def find_None_iff)
  moreover have "cb_positions (sc_core c1) = cb_positions b" "cb_accounts (sc_core c1) = cb_accounts b"
    "sc_manual_ops c1 = sc_manual_ops c @ [manual_close_op actor (fallback_price p) now shut]"
    "money_sound c1 = money_sound ?c" "money_gap c1 = money_gap ?c"
    by (simp_all add: c1) (simp_all add: sc_emit_def frame_simps)
  ultimately show ?thesis using p Inr one(6,8) by (simp add: total_cash_def find_open_def)
qed


definition overdue_row :: open_position where
  "overdue_row = demo_row\<lparr>p_account_id := default_account_id\<rparr>"

definition overdue_core :: settle_core where
  "overdue_core = demo_settle_core\<lparr>sc_core := demo_core (sample_ome 0)
     (fresh_manager\<lparr>pm_open := [overdue_row], pm_next_id := 5\<rparr>)\<rparr>"

theorem operator_close_is_gated_witness:
  "let out = force_close_expired_position exact_dec demo_config (demo_settle_env\<lparr>se_audit_path := Some ''ops''\<rparr>) None
      ''hft-4'' ''operator'' 600000 overdue_core
   in (case snd out of Inl e \<Rightarrow> False | Inr shut \<Rightarrow> length (sc_manual_ops (fst out)) = 1) \<and>
      money_gap (fst out) = money_gap overdue_core"
proof -
  let ?V = "demo_settle_env\<lparr>se_audit_path := Some ''ops''\<rparr>"
  let ?m = "fresh_manager\<lparr>pm_open := [overdue_row], pm_next_id := 5\<rparr>"
  have sel: "sc_core overdue_core = demo_core (sample_ome 0) ?m" "sc_settlement overdue_core = settlement_empty None"
    "sc_active overdue_core = default_account_id" "sc_manual_ops overdue_core = []"
    by (simp_all add: overdue_core_def) (simp add: demo_settle_core_def)
  have row: "p_id overdue_row = ''hft-4''" "p_account_id overdue_row = default_account_id" "0 \<le> p_entry_price overdue_row"
    "p_round_slot overdue_row = 0" "p_expires_at_ms overdue_row = 500000"
    by (simp_all add: overdue_row_def demo_row_def)
  have hft: "hft_number ''hft-4'' = Some 4"
    using hft_number_minted [of 4] by (simp add: hft_prefix_def nat_str.simps [of 4] digit_char_def)
  have "sound_row overdue_row"
    by (simp add: sound_row_def row_ok_def flows_nonneg_def overdue_row_def demo_row_def no_flows_def)
  then have rows: "sound_rows ?m" by (simp add: sound_rows_def ids_below_def row hft)
  have sound: "money_sound overdue_core"
    using rows demo_settle_sound(1) by (simp add: money_sound_def sel)
  have cap: "length (pm_closed (cb_positions (sc_core overdue_core))) < CLOSED_CAP"
    by (simp add: sel CLOSED_CAP_def)
  have cl: "\<forall>p \<in> set (sc_positions overdue_core). closable (sc_core overdue_core) p"
    by (simp add: sc_positions_def sel closable_def row)
  have ok: "se_audit_ok ?V" by (simp add: demo_settle_env_def)
  have find: "find_open ''hft-4'' (cb_positions (sc_core overdue_core)) = Some overdue_row"
    by (simp add: sel find_open_def row)
  obtain c1 r where out: "force_close_expired_position exact_dec demo_config ?V None ''hft-4'' ''operator'' 600000 overdue_core = (c1, r)"
    by fastforce
  have cap0: "length (pm_closed ?m) < CLOSED_CAP" using cap by (simp add: sel)
  have find0: "find_open (p_id overdue_row) ?m = Some overdue_row" using find by (simp add: sel row)
  obtain n k where close: "close_pm exact_dec None (p_id overdue_row) (fallback_price overdue_row) UnverifiableExpiry True
      600000 ''fallback'' ?m = (n, Some k)"
    using close_sound(5) [OF rows find0 cap0 refl, of exact_dec None "fallback_price overdue_row" UnverifiableExpiry 600000
        "''fallback''"] by blast
  obtain b where f: "fallback_close exact_dec demo_config ?V None 600000 overdue_row (sc_core overdue_core) = (b, Some k)"
    using close by (simp add: fallback_close_def sel)
  have r: "r = Inr k"
    using out f find by (simp add: force_close_expired_position_def round_over_def row)
  show ?thesis
    using operator_close_is_gated [OF sound cap cl ok out] by (simp add: out r sel Let_def) auto
qed

end
