(* ===== verification/Sim.thy ===== *)
theory Sim
  imports ExitPolicy Ome "HOL-Library.Word"
begin

text \<open>
  The matcher of dry runs, \<open>sim.rs\<close>: what a book offers to an order, the walk a taker takes through the
  levels, the rules a resting order is hit by, and the dials that price travel time, queue position and
  slippage. The hash behind the draws runs on 32-bit words with the wrap-around of the source; a string
  is its bytes. The timestamp of a snapshot is not part of these functions.
\<close>

section \<open>The book\<close>

definition extreme :: "(decimal \<Rightarrow> decimal \<Rightarrow> decimal) \<Rightarrow> decimal list \<Rightarrow> decimal option" where
  "extreme f xs = (case xs of [] \<Rightarrow> None | x # ys \<Rightarrow> Some (foldl f x ys))"

definition sim_best_bid :: "sim_book \<Rightarrow> decimal option" where
  "sim_best_bid b = extreme max (map fst (sb_bids b))"

definition sim_best_ask :: "sim_book \<Rightarrow> decimal option" where
  "sim_best_ask b = extreme min (map fst (sb_asks b))"

definition sim_mid :: "dec_ops \<Rightarrow> sim_book \<Rightarrow> decimal option" where
  "sim_mid D b = (case (sim_best_bid b, sim_best_ask b) of
     (Some bid, Some ask) \<Rightarrow> if ask > 0 then Some (ddiv D (bid + ask) 2) else None
   | _ \<Rightarrow> None)"

text \<open>Reaching the limit, and going through it.\<close>

definition crosses :: "side \<Rightarrow> decimal \<Rightarrow> sim_book \<Rightarrow> bool" where
  "crosses d limit b = (case d of
     Buy \<Rightarrow> (case sim_best_ask b of Some a \<Rightarrow> a \<le> limit | None \<Rightarrow> False)
   | Sell \<Rightarrow> (case sim_best_bid b of Some v \<Rightarrow> v \<ge> limit | None \<Rightarrow> False))"

definition trades_through :: "side \<Rightarrow> decimal \<Rightarrow> sim_book \<Rightarrow> bool" where
  "trades_through d limit b = (case d of
     Buy \<Rightarrow> (case sim_best_ask b of Some a \<Rightarrow> a < limit | None \<Rightarrow> False)
   | Sell \<Rightarrow> (case sim_best_bid b of Some v \<Rightarrow> v > limit | None \<Rightarrow> False))"

definition strict_trade_through_depth :: "side \<Rightarrow> decimal \<Rightarrow> sim_book \<Rightarrow> decimal" where
  "strict_trade_through_depth d limit b = (case d of
     Buy \<Rightarrow> sum_list (map snd (filter (\<lambda>l. fst l < limit) (sb_asks b)))
   | Sell \<Rightarrow> sum_list (map snd (filter (\<lambda>l. fst l > limit) (sb_bids b))))"

text \<open>The levels an order trades against, best first: sorted by price and then size, reversed for a
  sale, cut at the limit.\<close>

definition inside_limit :: "side \<Rightarrow> decimal \<Rightarrow> decimal \<Rightarrow> bool" where
  "inside_limit d limit p = (case d of Buy \<Rightarrow> p \<le> limit | Sell \<Rightarrow> p \<ge> limit)"

definition opposite_levels :: "side \<Rightarrow> sim_book \<Rightarrow> (decimal \<times> decimal) list" where
  "opposite_levels d b = (case d of Buy \<Rightarrow> sb_asks b | Sell \<Rightarrow> sb_bids b)"

definition crossing_levels :: "side \<Rightarrow> decimal \<Rightarrow> sim_book \<Rightarrow> (decimal \<times> decimal) list" where
  "crossing_levels d limit b =
    (let sorted = sort_key fst (sort_key snd (opposite_levels d b));
         best_first = (if d = Sell then rev sorted else sorted)
     in filter (\<lambda>l. inside_limit d limit (fst l)) best_first)"

definition crossing_depth :: "side \<Rightarrow> decimal \<Rightarrow> sim_book \<Rightarrow> bool \<times> decimal" where
  "crossing_depth d limit b =
    (let ls = crossing_levels d limit b in (ls \<noteq> [], sum_list (filter (\<lambda>s. s > 0) (map snd ls))))"

definition marketable_depth :: "side \<Rightarrow> decimal \<Rightarrow> sim_book \<Rightarrow> decimal" where
  "marketable_depth d limit b = sum_list (map snd (crossing_levels d limit b))"

text \<open>The loop of the walk: what is left and the money so far.\<close>

fun walk_levels :: "(decimal \<times> decimal) list \<Rightarrow> decimal \<Rightarrow> decimal \<Rightarrow> decimal \<times> decimal" where
  "walk_levels [] left notional = (left, notional)"
| "walk_levels ((price, sz) # ls) left notional =
    (let take = min sz left; notional' = notional + price * take; left' = left - take
     in if left' \<le> 0 then (left', notional') else walk_levels ls left' notional')"

definition worse :: "side \<Rightarrow> decimal \<Rightarrow> decimal \<Rightarrow> decimal" where
  "worse d = (case d of Buy \<Rightarrow> max | Sell \<Rightarrow> min)"

definition worst_level :: "side \<Rightarrow> (decimal \<times> decimal) list \<Rightarrow> decimal option" where
  "worst_level d ls = extreme (worse d) (map fst (filter (\<lambda>l. snd l > 0) ls))"

definition walk_marketable :: "dec_ops \<Rightarrow> side \<Rightarrow> decimal \<Rightarrow> decimal \<Rightarrow> sim_book \<Rightarrow> (decimal \<times> decimal) option" where
  "walk_marketable D d limit sz b =
    (if sz \<le> 0 then None
     else let ls = crossing_levels d limit b; (left, notional) = walk_levels ls sz 0
       in if left > 0 then None
          else map_option (\<lambda>w. (ddiv D notional sz, w)) (worst_level d ls))"

definition rests_on_book :: "fill_policy \<Rightarrow> bool" where
  "rests_on_book p \<longleftrightarrow> p = PolMaker \<or> p = PolMakerThenTaker"

section \<open>The dials\<close>

datatype maker_fill_rule = Touch | TradeThrough

fun maker_fill_rule_as_str :: "maker_fill_rule \<Rightarrow> string" where
  "maker_fill_rule_as_str Touch = ''touch''"
| "maker_fill_rule_as_str TradeThrough = ''trade-through''"

definition sim_tick :: decimal where "sim_tick = 1 / 100"
definition sim_price_min :: decimal where "sim_price_min = 1 / 100"
definition sim_price_max :: decimal where "sim_price_max = 99 / 100"

record fill_model =
  fm_taker_slippage_ticks :: nat
  fm_maker_latency_ms :: int
  fm_maker_fill_prob_bps :: nat
  fm_maker_depth_share_bps :: nat
  fm_taker_latency_ms :: int
  fm_taker_rtt_ms :: int
  fm_maker_fill_rule :: maker_fill_rule

definition fill_model_default :: fill_model where
  "fill_model_default = \<lparr>fm_taker_slippage_ticks = 0, fm_maker_latency_ms = 0, fm_maker_fill_prob_bps = 10000,
     fm_maker_depth_share_bps = 10000, fm_taker_latency_ms = 0, fm_taker_rtt_ms = 0, fm_maker_fill_rule = Touch\<rparr>"

definition fill_model_preset :: "string \<Rightarrow> fill_model option" where
  "fill_model_preset name =
    (if name = ''identity'' then Some fill_model_default
     else if name = ''l2-delay'' then Some (fill_model_default\<lparr>fm_taker_latency_ms := 150, fm_taker_rtt_ms := 150,
         fm_taker_slippage_ticks := 0, fm_maker_fill_rule := TradeThrough\<rparr>)
     else None)"

definition is_identity :: "fill_model \<Rightarrow> bool" where
  "is_identity m \<longleftrightarrow> fm_taker_slippage_ticks m = 0 \<and> fm_maker_latency_ms m \<le> 0 \<and> fm_maker_fill_prob_bps m \<ge> 10000 \<and>
     fm_maker_depth_share_bps m \<ge> 10000 \<and> fm_taker_latency_ms m \<le> 0 \<and> fm_taker_rtt_ms m \<le> 0 \<and>
     fm_maker_fill_rule m = Touch"

definition apply_slippage :: "fill_model \<Rightarrow> side \<Rightarrow> decimal \<Rightarrow> decimal" where
  "apply_slippage m d price =
    (if fm_taker_slippage_ticks m = 0 then price
     else let slip = sim_tick * of_nat (fm_taker_slippage_ticks m);
         p = (case d of Buy \<Rightarrow> price + slip | Sell \<Rightarrow> price - slip)
       in min (max p sim_price_min) sim_price_max)"

text \<open>\<open>i64::saturating_add\<close>.\<close>

definition sat_add :: "int \<Rightarrow> int \<Rightarrow> int" where
  "sat_add a b = max (- (2 ^ 63)) (min (2 ^ 63 - 1) (a + b))"

definition maker_eligible_at_ms :: "fill_model \<Rightarrow> int \<Rightarrow> int" where
  "maker_eligible_at_ms m submitted = sat_add submitted (max (fm_maker_latency_ms m) 0)"

text \<open>FNV-1a over the bytes of an identifier, mixed with a salt.\<close>

definition FNV_OFFSET :: "32 word" where "FNV_OFFSET = 0x811c9dc5"
definition FNV_PRIME :: "32 word" where "FNV_PRIME = 0x01000193"

definition fnv_step :: "char \<Rightarrow> 32 word \<Rightarrow> 32 word" where
  "fnv_step c h = (xor h (of_char c)) * FNV_PRIME"

definition draw_salted :: "string \<Rightarrow> 8 word \<Rightarrow> 32 word" where
  "draw_salted i salt = fold fnv_step i (xor FNV_OFFSET (ucast salt * 0x9e3779b9))"

definition DEPTH_SHARE_SALT :: "8 word" where "DEPTH_SHARE_SALT = 0x5d"

definition draw :: "string \<Rightarrow> 32 word" where
  "draw i = draw_salted i 0"

definition maker_fill_wins :: "fill_model \<Rightarrow> string \<Rightarrow> bool" where
  "maker_fill_wins m i =
    (if fm_maker_fill_prob_bps m \<ge> 10000 then True
     else if fm_maker_fill_prob_bps m = 0 then False
     else unat (draw i) mod 10000 < fm_maker_fill_prob_bps m)"

definition maker_fill_size :: "dec_ops \<Rightarrow> fill_model \<Rightarrow> string \<Rightarrow> decimal \<Rightarrow> decimal \<Rightarrow> decimal" where
  "maker_fill_size D m i left depth =
    (if left \<le> 0 \<or> depth \<le> 0 then 0
     else let reachable = min left depth in
       if fm_maker_depth_share_bps m \<ge> 10000 then reachable
       else if fm_maker_depth_share_bps m = 0 then 0
       else let bps = 1 + unat (draw_salted i DEPTH_SHARE_SALT) mod fm_maker_depth_share_bps m
         in max (min (ddiv D (reachable * of_nat bps) 10000) reachable) 0)"

section \<open>The walk\<close>

text \<open>A book as a venue sends it: no level has a negative size.\<close>

definition sane_levels :: "(decimal \<times> decimal) list \<Rightarrow> bool" where
  "sane_levels ls \<longleftrightarrow> (\<forall>l \<in> set ls. 0 \<le> snd l)"

definition sane_book :: "sim_book \<Rightarrow> bool" where
  "sane_book b \<longleftrightarrow> sane_levels (sb_bids b) \<and> sane_levels (sb_asks b)"

lemma set_crossing: "set (crossing_levels d limit b) = {l \<in> set (opposite_levels d b). inside_limit d limit (fst l)}"
  by (auto simp: crossing_levels_def Let_def)

lemma sane_crossing: "sane_book b \<Longrightarrow> sane_levels (crossing_levels d limit b)"
  by (cases d) (auto simp: sane_book_def sane_levels_def set_crossing opposite_levels_def)

text \<open>The price as a cost: what a buyer pays, and minus what a seller gets.\<close>

definition cost_of :: "side \<Rightarrow> decimal \<Rightarrow> decimal" where
  "cost_of d p = (case d of Buy \<Rightarrow> p | Sell \<Rightarrow> - p)"

lemma cost_linear: "cost_of d (p * x) = cost_of d p * x" "cost_of d (p + q) = cost_of d p + cost_of d q"
  by (cases d; simp add: cost_of_def)+

lemma crossing_sorted: "sorted (map (cost_of d \<circ> fst) (crossing_levels d limit b))"
proof (cases d)
  case Buy
  have "sorted (map fst (filter (\<lambda>l. inside_limit Buy limit (fst l)) (sort_key fst (sort_key snd (sb_asks b)))))"
    by (rule sorted_filter) simp
  then show ?thesis by (simp add: Buy cost_of_def crossing_levels_def opposite_levels_def Let_def comp_def)
next
  case Sell
  have "sorted (map fst (sort_key fst (sort_key snd (sb_bids b))))" by simp
  then have "sorted_wrt (\<lambda>x y. fst y \<le> fst x) (rev (sort_key fst (sort_key snd (sb_bids b))))"
    by (simp add: sorted_map sorted_wrt_rev)
  then have "sorted_wrt (\<lambda>x y. - fst x \<le> - fst y) (rev (sort_key fst (sort_key snd (sb_bids b))))" by simp
  then have "sorted (map (\<lambda>l. - fst l) (rev (sort_key fst (sort_key snd (sb_bids b)))))"
    unfolding sorted_map .
  then show ?thesis
    by (simp add: Sell cost_of_def crossing_levels_def opposite_levels_def Let_def comp_def sorted_filter)
qed

lemma walk_left:
  assumes "sane_levels ls" and "0 < left"
  shows "fst (walk_levels ls left n) = max (left - sum_list (map snd ls)) 0"
  using assms
proof (induction ls left n rule: walk_levels.induct)
  case (2 p s ls left n)
  have s: "0 \<le> s" "sane_levels ls" using "2.prems"(1) by (simp_all add: sane_levels_def)
  then have total: "0 \<le> sum_list (map snd ls)" by (auto simp: sane_levels_def intro!: sum_list_nonneg)
  show ?case
  proof (cases "left - min s left \<le> 0")
    case True
    then have "left \<le> s" by linarith
    then show ?thesis using total by (simp add: Let_def)
  next
    case False
    then have "s < left" by linarith
    then show ?thesis using "2.IH" [OF refl refl refl False s(2)] by (simp add: Let_def algebra_simps)
  qed
qed simp

text \<open>The cheapest way to take a size from levels in order of cost is to take each in full before the
  next: no other split of the same size costs less.\<close>

definition allocation :: "(decimal \<times> decimal) list \<Rightarrow> decimal list \<Rightarrow> decimal \<Rightarrow> bool" where
  "allocation ls ts sz \<longleftrightarrow> list_all2 (\<lambda>l t. 0 \<le> t \<and> t \<le> snd l) ls ts \<and> sum_list ts = sz"

definition allocation_cost :: "side \<Rightarrow> (decimal \<times> decimal) list \<Rightarrow> decimal list \<Rightarrow> decimal" where
  "allocation_cost d ls ts = sum_list (map2 (\<lambda>l t. cost_of d (fst l) * t) ls ts)"

lemma allocation_cost_simps [simp]: "allocation_cost d [] ts = 0"
  "allocation_cost d (l # ls) (t # ts) = cost_of d (fst l) * t + allocation_cost d ls ts"
  by (simp_all add: allocation_cost_def)

lemma parts_nonneg:
  fixes ts :: "decimal list"
  shows "list_all2 (\<lambda>l t. 0 \<le> t \<and> t \<le> snd l) ls ts \<Longrightarrow> 0 \<le> sum_list ts"
  by (induction rule: list_all2_induct) auto

lemma cost_at_least:
  assumes "\<forall>l \<in> set ls. c \<le> cost_of d (fst l)" and "list_all2 (\<lambda>l t. 0 \<le> t \<and> t \<le> snd l) ls ts"
  shows "c * sum_list ts \<le> allocation_cost d ls ts"
  using assms(2,1)
proof (induction rule: list_all2_induct)
  case (Cons l ls t ts)
  then have "c * t \<le> cost_of d (fst l) * t" by (simp add: mult_right_mono)
  then show ?case using Cons by (simp add: distrib_left)
qed  simp

lemma move_to_front:
  assumes "list_all2 (\<lambda>l t. 0 \<le> t \<and> t \<le> snd l) ls ts" and "0 \<le> x" and "x \<le> sum_list ts"
  shows "\<exists>us. list_all2 (\<lambda>l t. 0 \<le> t \<and> t \<le> snd l) ls us \<and> sum_list us = sum_list ts - x \<and>
    (\<forall>c. (\<forall>l \<in> set ls. c \<le> cost_of d (fst l)) \<longrightarrow> allocation_cost d ls us + c * x \<le> allocation_cost d ls ts)"
  using assms
proof (induction arbitrary: x rule: list_all2_induct)
  case Nil
  then show ?case by (intro exI [of _ "[]"])  simp
next
  case (Cons l ls t ts)
  define y where "y = min x t"
  have y: "0 \<le> y" "y \<le> t" "0 \<le> x - y" "x - y \<le> sum_list ts"
    using Cons.hyps(1) Cons.prems parts_nonneg [OF Cons.hyps(2)] by (auto simp: y_def min_def)
  obtain us where us: "list_all2 (\<lambda>l t. 0 \<le> t \<and> t \<le> snd l) ls us" "sum_list us = sum_list ts - (x - y)"
    "\<And>c. (\<forall>l \<in> set ls. c \<le> cost_of d (fst l)) \<Longrightarrow> allocation_cost d ls us + c * (x - y) \<le> allocation_cost d ls ts"
    using Cons.IH [OF y(3,4)] by blast
  show ?case
  proof (intro exI [of _ "(t - y) # us"] conjI allI impI)
    show "list_all2 (\<lambda>l t. 0 \<le> t \<and> t \<le> snd l) (l # ls) ((t - y) # us)" using us(1) y Cons.hyps(1) by simp
    show "sum_list ((t - y) # us) = sum_list (t # ts) - x" using us(2) by simp
  next
    fix c assume c: "\<forall>l \<in> set (l # ls). c \<le> cost_of d (fst l)"
    have "c * y \<le> cost_of d (fst l) * y" using c y(1) by (simp add: mult_right_mono)
    then show "allocation_cost d (l # ls) ((t - y) # us) + c * x \<le> allocation_cost d (l # ls) (t # ts)"
      using us(3) [of c] c by (simp add: algebra_simps)
  qed
qed

lemma greedy_cheapest:
  assumes "sorted (map (cost_of d \<circ> fst) ls)" and "sane_levels ls" and "0 < sz"
    and "allocation ls ts sz" and "(r, m) = walk_levels ls sz n"
  shows "cost_of d m - cost_of d n \<le> allocation_cost d ls ts"
  using assms
proof (induction ls arbitrary: sz ts n)
  case Nil
  then show ?case by (auto simp: allocation_def)
next
  case (Cons l ls)
  obtain p s where l: "l = (p, s)" by (cases l)
  obtain t us where ts: "ts = t # us" "0 \<le> t" "t \<le> s" "list_all2 (\<lambda>l t. 0 \<le> t \<and> t \<le> snd l) ls us"
    "t + sum_list us = sz"
    using Cons.prems(4) by (auto simp: allocation_def l list_all2_Cons1)
  have low: "\<forall>k \<in> set ls. cost_of d p \<le> cost_of d (fst k)" using Cons.prems(1) by (simp add: l)
  show ?case
  proof (cases "sz - min s sz \<le> 0")
    case True
    then have "min s sz = sz" by linarith
    then have m: "m = n + p * sz" using Cons.prems(5) True by (simp add: l)
    have "cost_of d p * sum_list us \<le> allocation_cost d ls us" by (rule cost_at_least [OF low ts(4)])
    then show ?thesis
      using ts(5) by (simp add: m l ts(1) cost_linear algebra_simps flip: ts(5))
  next
    case False
    then have s: "min s sz = s" "s < sz" by linarith+
    have walk: "(r, m) = walk_levels ls (sz - s) (n + p * s)" using Cons.prems(5) False s by (simp add: l)
    have x: "0 \<le> s - t" "s - t \<le> sum_list us" using ts(3,5) s(2) by linarith+
    obtain vs where vs: "list_all2 (\<lambda>l t. 0 \<le> t \<and> t \<le> snd l) ls vs" "sum_list vs = sum_list us - (s - t)"
      "allocation_cost d ls vs + cost_of d p * (s - t) \<le> allocation_cost d ls us"
      using move_to_front [OF ts(4) x, of d] low by blast
    have "allocation ls vs (sz - s)" using vs(1,2) ts(5) by (simp add: allocation_def)
    then have "cost_of d m - cost_of d (n + p * s) \<le> allocation_cost d ls vs"
      using Cons.prems(1,2) s(2) walk by (intro Cons.IH [of "sz - s"]) (simp_all add: sane_levels_def)
    then show ?thesis using vs(3) by (simp add: l ts(1) cost_linear algebra_simps)
  qed
qed

end
