(* ===== verification/DryMatch.thy ===== *)
theory DryMatch
  imports Booking Sim
begin

text \<open>
  The dry matcher inside the service (\<open>service/risk_admission/admission.rs\<close>): taker legs in flight, which
  match when they arrive at the venue and are booked when their report comes back, and resting orders hit
  by the mirrored book. \<open>dry_core\<close> is the books of \<open>Booking\<close> with the mirror, the legs and the error slot.
  Not here: the refusal of a post-only order that crosses on submission, which places a new order.
\<close>

section \<open>State\<close>

record inflight_taker =
  il_order_id :: order_id
  il_execute_at_ms :: int
  il_report_at_ms :: int
  il_matched_price :: "decimal option"
  il_rejected_msg :: "message option"

record dry_core =
  dc_core :: core_books
  dc_mirror :: "(token_id \<times> sim_book) list"
  dc_inflight :: "inflight_taker list"
  dc_last_error :: "(int \<times> core_error_code \<times> message) option"

definition empty_sim_book :: sim_book where
  "empty_sim_book = \<lparr>sb_bids = [], sb_asks = []\<rparr>"

definition emit_order :: "core_env \<Rightarrow> order_id \<Rightarrow> core_books \<Rightarrow> core_books" where
  "emit_order E i b = (case ome_get (cb_ome b) i of
     None \<Rightarrow> b
   | Some ord \<Rightarrow> emit (EvOrderUpdate ord) (persist_order E i b))"

definition emit_error_at :: "core_error \<Rightarrow> int \<Rightarrow> dry_core \<Rightarrow> dry_core" where
  "emit_error_at e now c = c\<lparr>dc_last_error := Some (now, ce_code e, ce_message e), dc_core := emit (EvError e) (dc_core c)\<rparr>"

section \<open>One execution\<close>

definition execution_fill :: "tracked_order \<Rightarrow> order_id \<Rightarrow> trade_id \<Rightarrow> decimal \<Rightarrow> decimal \<Rightarrow> bool \<Rightarrow> int \<Rightarrow> fill" where
  "execution_fill ord i trade cumulative price maker now = \<lparr>f_order_id = i, f_trade_id = Some trade,
     f_token_id = o_token_id ord, f_side = o_side ord, f_price = price, f_size = cumulative, f_status = FsConfirmed,
     f_ts_ms = now, f_tx_hash = None, f_maker = Some maker, f_account_id = o_account_id ord\<rparr>"

text \<open>\<open>None\<close> is the failed assertion on the fee schedule, as in \<open>Booking\<close>.\<close>

definition authoritative_fill ::
  "dec_ops \<Rightarrow> core_config \<Rightarrow> core_env \<Rightarrow> fee_schedule option \<Rightarrow> order_id \<Rightarrow> trade_id \<Rightarrow> decimal \<Rightarrow> decimal \<Rightarrow> bool \<Rightarrow> int
     \<Rightarrow> core_books \<Rightarrow> (core_books \<times> (core_error + unit)) option" where
  "authoritative_fill D G E st i trade cumulative price maker now b = (case ome_get (cb_ome b) i of
     None \<Rightarrow> Some (b, Inl (core_error_new UnknownOrder [Txt i]))
   | Some ord \<Rightarrow>
       (case apply_fill D (execution_fill ord i trade cumulative price maker now) now (cb_ome b) of
          (s, Inl e) \<Rightarrow> Some (b\<lparr>cb_ome := s\<rparr>, Inl e)
        | (s, Inr delta) \<Rightarrow> map_option (\<lambda>b1. (emit_order E i b1, Inr ()))
            (case delta of Some d \<Rightarrow> apply_delta_effects D G E st d now (b\<lparr>cb_ome := s\<rparr>) | None \<Rightarrow> Some (b\<lparr>cb_ome := s\<rparr>))))"

section \<open>Why a taker is refused\<close>

definition best_opposite :: "side \<Rightarrow> sim_book \<Rightarrow> message" where
  "best_opposite d b = (case d of
     Buy \<Rightarrow> (case sim_best_ask b of Some p \<Rightarrow> [Txt ''best ask '', Dec p] | None \<Rightarrow> [Txt ''no ask rests''])
   | Sell \<Rightarrow> (case sim_best_bid b of Some p \<Rightarrow> [Txt ''best bid '', Dec p] | None \<Rightarrow> [Txt ''no bid rests'']))"

definition taker_refusal :: "tracked_order \<Rightarrow> sim_book \<Rightarrow> core_error" where
  "taker_refusal ord b =
    (let (any, depth) = crossing_depth (o_side ord) (o_price ord) b; best = best_opposite (o_side ord) b;
         word = (case o_side ord of Buy \<Rightarrow> ''buy'' | Sell \<Rightarrow> ''sell''); level = (case o_side ord of Buy \<Rightarrow> ''ask'' | Sell \<Rightarrow> ''bid'')
     in core_error_new WouldCross
       (if \<not> any then [Txt ''taker_no_crossing_liquidity: no '', Txt level, Txt '' at or inside the '', Dec (o_price ord),
            Txt '' '', Txt word, Txt '' limit (''] @ best @ [Txt ''; token '', Txt (o_token_id ord), Txt '', size '', Dec (o_size ord), Txt '')'']
        else [Txt ''taker_insufficient_depth: only '', Dec depth, Txt '' of '', Dec (o_size ord),
            Txt '' shares rest at or inside the '', Dec (o_price ord), Txt '' '', Txt word, Txt '' limit (''] @ best @
            [Txt ''; token '', Txt (o_token_id ord), Txt '')'']))"

section \<open>Legs in flight\<close>

text \<open>Stage 1: the venue matches the leg against the book as it stands, or kills it. \<open>None\<close> drops a leg
  whose order ended meanwhile.\<close>

definition match_leg :: "dec_ops \<Rightarrow> fill_model \<Rightarrow> dry_core \<Rightarrow> inflight_taker \<Rightarrow> inflight_taker option" where
  "match_leg D m c leg = (case ome_get (cb_ome (dc_core c)) (il_order_id leg) of
     None \<Rightarrow> None
   | Some ord \<Rightarrow>
       if \<not> is_live (o_status ord) then None
       else let b = (case map_of (dc_mirror c) (o_token_id ord) of Some b \<Rightarrow> b | None \<Rightarrow> empty_sim_book)
         in Some (case walk_marketable D (o_side ord) (o_price ord) (o_size ord) b of
              Some (vwap, _) \<Rightarrow> leg\<lparr>il_matched_price := Some (apply_slippage m (o_side ord) vwap)\<rparr>
            | None \<Rightarrow> leg\<lparr>il_rejected_msg := Some (ce_message (taker_refusal ord b))\<rparr>))"

definition virtual_release_order :: "tracked_order \<Rightarrow> core_books \<Rightarrow> core_books" where
  "virtual_release_order ord b =
    (if o_side ord \<noteq> Buy then b
     else b\<lparr>cb_virtual := va_release_all (as_str (o_account_id ord)) (o_strategy ord) (o_internal_key ord) (cb_virtual b)\<rparr>)"

definition release_order_cash :: "tracked_order \<Rightarrow> core_books \<Rightarrow> core_books" where
  "release_order_cash ord b = (case map_of (cb_accounts b) (o_account_id ord) of
     Some l \<Rightarrow> put_ledger (o_account_id ord) (fst (release (o_order_id ord) l)) b | None \<Rightarrow> b)"

text \<open>Stage 2: the report of a fill, and of a kill.\<close>

definition report_match ::
  "dec_ops \<Rightarrow> core_config \<Rightarrow> core_env \<Rightarrow> fee_schedule option \<Rightarrow> decimal \<Rightarrow> inflight_taker \<Rightarrow> dry_core \<Rightarrow> dry_core option" where
  "report_match D G E st price leg c = (case ome_get (cb_ome (dc_core c)) (il_order_id leg) of
     None \<Rightarrow> Some c
   | Some ord \<Rightarrow>
       if \<not> is_live (o_status ord) then Some c
       else map_option (\<lambda>(b, r). (case r of Inl e \<Rightarrow> emit_error_at e (il_report_at_ms leg) (c\<lparr>dc_core := b\<rparr>) | Inr _ \<Rightarrow> c\<lparr>dc_core := b\<rparr>))
         (authoritative_fill D G E st (o_order_id ord) (o_order_id ord @ '':'' @ int_str (il_execute_at_ms leg)) (o_size ord)
            price False (il_report_at_ms leg) (dc_core c)))"

definition report_kill :: "core_env \<Rightarrow> message \<Rightarrow> inflight_taker \<Rightarrow> dry_core \<Rightarrow> dry_core" where
  "report_kill E msg leg c = (case ome_get (cb_ome (dc_core c)) (il_order_id leg) of
     None \<Rightarrow> c
   | Some ord \<Rightarrow>
       (let b = dc_core c;
            b1 = (if o_side ord = Buy then virtual_release_order ord (release_order_cash ord b) else b);
            b2 = b1\<lparr>cb_ome := fst (mark_terminal (o_order_id ord) StRejected (il_report_at_ms leg) (cb_ome b1))\<rparr>;
            b3 = b2\<lparr>cb_pairs := pair_order_event (o_internal_key ord) 0 True (cb_pairs b2)\<rparr>;
            c1 = emit_error_at (core_error_new WouldCross msg) (il_report_at_ms leg) (c\<lparr>dc_core := b3\<rparr>)
        in c1\<lparr>dc_core := emit_order E (o_order_id ord) (dc_core c1)\<rparr>))"

definition report_leg ::
  "dec_ops \<Rightarrow> core_config \<Rightarrow> core_env \<Rightarrow> fee_schedule option \<Rightarrow> inflight_taker \<Rightarrow> dry_core \<Rightarrow> dry_core option" where
  "report_leg D G E st leg c = (case il_matched_price leg of
     Some price \<Rightarrow> report_match D G E st price leg c
   | None \<Rightarrow> (case il_rejected_msg leg of Some msg \<Rightarrow> Some (report_kill E msg leg c) | None \<Rightarrow> Some c))"

definition undecided :: "inflight_taker \<Rightarrow> bool" where
  "undecided leg \<longleftrightarrow> il_matched_price leg = None \<and> il_rejected_msg leg = None"

definition drain_leg ::
  "dec_ops \<Rightarrow> core_config \<Rightarrow> core_env \<Rightarrow> fee_schedule option \<Rightarrow> fill_model \<Rightarrow> int \<Rightarrow> inflight_taker
     \<Rightarrow> (dry_core \<times> inflight_taker list) option \<Rightarrow> (dry_core \<times> inflight_taker list) option" where
  "drain_leg D G E st m now leg acc = Option.bind acc (\<lambda>(c, kept).
     if undecided leg \<and> now < il_execute_at_ms leg then Some (c, kept @ [leg])
     else (case (if undecided leg then match_leg D m c leg else Some leg) of
         None \<Rightarrow> Some (c, kept)
       | Some leg1 \<Rightarrow>
           if now < il_report_at_ms leg1 then Some (c, kept @ [leg1])
           else map_option (\<lambda>c1. (c1, kept)) (report_leg D G E st leg1 c)))"

definition drain_inflight_takers ::
  "dec_ops \<Rightarrow> core_config \<Rightarrow> core_env \<Rightarrow> fee_schedule option \<Rightarrow> fill_model \<Rightarrow> int \<Rightarrow> dry_core \<Rightarrow> dry_core option" where
  "drain_inflight_takers D G E st m now c =
    (if dc_inflight c = [] then Some c
     else map_option (\<lambda>(c1, kept). c1\<lparr>dc_inflight := kept\<rparr>)
       (fold (drain_leg D G E st m now) (dc_inflight c) (Some (c\<lparr>dc_inflight := []\<rparr>, []))))"

section \<open>Resting orders\<close>

text \<open>A resting order that the post-only gate let rest: whether the book hits it, and for how much.\<close>

definition rested_hit :: "fill_model \<Rightarrow> tracked_order \<Rightarrow> sim_book \<Rightarrow> bool" where
  "rested_hit m ord b = (case fm_maker_fill_rule m of
     Touch \<Rightarrow> crosses (o_side ord) (o_price ord) b | TradeThrough \<Rightarrow> trades_through (o_side ord) (o_price ord) b)"

definition rested_depth :: "fill_model \<Rightarrow> tracked_order \<Rightarrow> sim_book \<Rightarrow> decimal" where
  "rested_depth m ord b = (case fm_maker_fill_rule m of
     Touch \<Rightarrow> marketable_depth (o_side ord) (o_price ord) b
   | TradeThrough \<Rightarrow> strict_trade_through_depth (o_side ord) (o_price ord) b)"

definition rested_chunk :: "dec_ops \<Rightarrow> fill_model \<Rightarrow> tracked_order \<Rightarrow> sim_book \<Rightarrow> int \<Rightarrow> decimal" where
  "rested_chunk D m ord b now =
    (if \<not> rested_hit m ord b \<or> now < maker_eligible_at_ms m (o_submitted_at_ms ord) \<or> \<not> maker_fill_wins m (o_order_id ord) then 0
     else maker_fill_size D m (o_order_id ord) (max (o_size ord - o_filled_size ord) 0) (rested_depth m ord b))"

definition hit_rested ::
  "dec_ops \<Rightarrow> core_config \<Rightarrow> core_env \<Rightarrow> fee_schedule option \<Rightarrow> fill_model \<Rightarrow> tracked_order \<Rightarrow> sim_book \<Rightarrow> int \<Rightarrow> dry_core
     \<Rightarrow> dry_core option" where
  "hit_rested D G E st m ord b now c =
    (let chunk = rested_chunk D m ord b now; i = o_order_id ord in
     if chunk \<le> 0 then Some c
     else map_option (\<lambda>(b1, r). (case r of Inl e \<Rightarrow> emit_error_at e now (c\<lparr>dc_core := b1\<rparr>) | Inr _ \<Rightarrow> c\<lparr>dc_core := b1\<rparr>))
       (authoritative_fill D G E st i (i @ '':'' @ int_str now @ '':'' @ dshow D (o_filled_size ord + chunk)) chunk
          (o_price ord) True now (dc_core c)))"

end
