(* ===== verification/ReplayWake.thy ===== *)
theory ReplayWake
  imports SettlementEdges DryMatch
begin

text \<open>
  When a replay wakes next (\<open>next_replay_wake_ms\<close> in \<open>service.rs\<close>): the driver of a backtest jumps its
  clock to the earliest deadline the service names. \<open>wake_clocks\<close> holds the clocks that belong to parts
  of the service not modelled here; the others are read off the components.
\<close>

record wake_clocks =
  wk_timing_ms :: int
  wk_last_eval_ms :: int
  wk_exit_deadline_ms :: int
  wk_escalation_ms :: int
  wk_place_cooldowns :: "int list"
  wk_policy_cooldowns :: "int list"
  wk_audit_last_ms :: int
  wk_audit_interval_sec :: int

definition FAST_EVAL_FALLBACK_MS :: int where "FAST_EVAL_FALLBACK_MS = 2000"

text \<open>\<open>checked_add(..).unwrap_or(i64::MAX)\<close>.\<close>

definition add_or_max :: "int \<Rightarrow> int \<Rightarrow> int" where
  "add_or_max a b = (if a + b < 2 ^ 63 then a + b else I64_MAX)"

definition wake_deadlines :: "int \<Rightarrow> wake_clocks \<Rightarrow> inflight_taker list \<Rightarrow> settle_core \<Rightarrow> int list" where
  "wake_deadlines now w legs c =
     [wk_timing_ms w, sat_add (wk_last_eval_ms w) FAST_EVAL_FALLBACK_MS, wk_exit_deadline_ms w, wk_escalation_ms w,
      sc_next_expiry_ms c, next_query_deadline_ms (sc_settlement c), next_redemption_ms (sc_settlement c)] @
     wk_place_cooldowns w @ wk_policy_cooldowns w @
     concat (map (\<lambda>l. [il_execute_at_ms l, il_report_at_ms l]) legs) @
     [next_resume_ms (cb_breaker (sc_core c)),
      add_or_max (wk_audit_last_ms w) (max (wk_audit_interval_sec w) 0 * 1000), (utc_day_index now + 1) * DAY_MS]"

definition consider_wake :: "int \<Rightarrow> int \<Rightarrow> int \<Rightarrow> int" where
  "consider_wake now t best = (if t > now \<and> t < best \<and> t \<noteq> I64_MAX then t else best)"

definition next_replay_wake_ms ::
  "core_config \<Rightarrow> int \<Rightarrow> wake_clocks \<Rightarrow> inflight_taker list \<Rightarrow> settle_core \<Rightarrow> int option" where
  "next_replay_wake_ms G now w legs c =
    (if \<not> cg_replay_sched G then None
     else let best = fold (consider_wake now) (wake_deadlines now w legs c) I64_MAX
       in if best = I64_MAX then None else Some best)"

lemma wake_fold:
  assumes "b0 \<le> I64_MAX" and "best = fold (consider_wake now) ts b0"
  shows "best \<le> b0 \<and> (best = b0 \<or> best \<in> set ts \<and> now < best) \<and> (\<forall>t \<in> set ts. now < t \<longrightarrow> best \<le> t \<or> I64_MAX \<le> t)"
  using assms
proof (induction ts arbitrary: b0)
  case (Cons t ts)
  define b1 where "b1 = consider_wake now t b0"
  have b1: "b1 \<le> b0" "b1 = b0 \<or> b1 = t \<and> now < t" "now < t \<longrightarrow> b1 \<le> t \<or> I64_MAX \<le> t"
    using Cons.prems(1) by (auto simp: b1_def consider_wake_def)
  have "best = fold (consider_wake now) ts b1" using Cons.prems(2) by (simp add: b1_def)
  from Cons.IH [OF _ this] b1 Cons.prems(1) show ?case by force
qed simp

text \<open>The wake is the earliest deadline named that is still ahead: nothing named lies strictly between
  now and the wake, and without a wake no named deadline is ahead at all.\<close>

theorem wake_is_the_earliest_deadline:
  assumes "cg_replay_sched G"
  shows "case next_replay_wake_ms G now w legs c of
      Some t \<Rightarrow> t \<in> set (wake_deadlines now w legs c) \<and> now < t \<and>
        (\<forall>u \<in> set (wake_deadlines now w legs c). now < u \<longrightarrow> t \<le> u)
    | None \<Rightarrow> (\<forall>u \<in> set (wake_deadlines now w legs c). now < u \<longrightarrow> I64_MAX \<le> u)"
proof -
  let ?ts = "wake_deadlines now w legs c"
  define best where "best = fold (consider_wake now) ?ts I64_MAX"
  note f = wake_fold [OF order_refl best_def]
  have "next_replay_wake_ms G now w legs c = (if best = I64_MAX then None else Some best)"
    using assms by (simp add: next_replay_wake_ms_def best_def Let_def)
  then show ?thesis using f by force
qed

definition idle_clocks :: wake_clocks where
  "idle_clocks = \<lparr>wk_timing_ms = 0, wk_last_eval_ms = 0, wk_exit_deadline_ms = 0, wk_escalation_ms = 0,
     wk_place_cooldowns = [], wk_policy_cooldowns = [], wk_audit_last_ms = 0, wk_audit_interval_sec = 0\<rparr>"

definition replay_config :: core_config where
  "replay_config = demo_config\<lparr>cg_replay_sched := True\<rparr>"

lemma idle_deadlines: "wake_deadlines 5000 idle_clocks [] demo_settle_core =
   [0, 2000, 0, 0, 0, I64_MAX, I64_MAX, next_resume_ms (breakers_new 3 600), 0, 86400000]"
  by (simp add: wake_deadlines_def idle_clocks_def sat_add_def FAST_EVAL_FALLBACK_MS_def demo_settle_core_def
      next_query_deadline_ms_def next_redemption_ms_def settlement_empty_def min_or_max_def add_or_max_def
      utc_day_index_def DAY_MS_def demo_core_def)

lemma idle_wake: "next_replay_wake_ms replay_config 5000 idle_clocks [] demo_settle_core = Some 86400000"
  by (simp add: next_replay_wake_ms_def replay_config_def idle_deadlines consider_wake_def I64_MAX_def
      next_resume_ms_def breakers_new_def)

theorem wake_is_the_earliest_deadline_witness:
  "\<forall>u \<in> set (wake_deadlines 5000 idle_clocks [] demo_settle_core). 5000 < u \<longrightarrow> 86400000 \<le> u"
proof -
  have "cg_replay_sched replay_config" by (simp add: replay_config_def)
  from wake_is_the_earliest_deadline [OF this, of 5000 idle_clocks "[]" demo_settle_core]
  show ?thesis by (simp add: idle_wake)
qed

section \<open>The deadline the wake forgets\<close>

lemma merge_due_at:
  assumes "(i, m) \<in> set (stl_merges b)" and "\<not> mcl_manual m"
  shows "next_merge_ms b \<le> mcl_next_attempt_ms m"
  using assms unfolding next_merge_ms_def by (intro min_or_max_le) force

text \<open>A burned pair waiting for its next attempt is not a wake: whatever the replay would wake for without
  it, it still wakes for, although the service's own settlement gate opens at the merge's deadline, which
  may lie long before. The attempt waits for a wake that has nothing to do with it.\<close>

theorem replay_wake_forgets_merges:
  assumes "next_replay_wake_ms G now w legs c = Some t" and "map_of (stl_merges (sc_settlement c)) i = None"
    and "bt_sorted (stl_merges (sc_settlement c))" and "\<not> mcl_manual m" and "mcl_next_attempt_ms m < t"
    and "c' = c\<lparr>sc_settlement := (sc_settlement c)\<lparr>stl_merges := bt_insert i m (stl_merges (sc_settlement c))\<rparr>\<rparr>"
  shows "next_replay_wake_ms G now w legs c' = Some t \<and> settlement_pass_due G (mcl_next_attempt_ms m) c' \<and>
    mcl_next_attempt_ms m < t"
proof -
  have "wake_deadlines now w legs c' = wake_deadlines now w legs c"
    by (simp add: assms(6) wake_deadlines_def next_query_deadline_ms_def next_redemption_ms_def)
  then have "next_replay_wake_ms G now w legs c' = next_replay_wake_ms G now w legs c"
    by (simp add: next_replay_wake_ms_def)
  then have "next_replay_wake_ms G now w legs c' = Some t" using assms(1) by simp
  moreover have "next_merge_ms (sc_settlement c') \<le> mcl_next_attempt_ms m"
    using assms(3,4) by (intro merge_due_at [of i]) (auto simp: assms(6) set_bt_insert)
  ultimately show ?thesis using assms(5) by (simp add: settlement_pass_due_def)
qed

theorem replay_wake_forgets_merges_witness:
  "\<exists>c'. next_replay_wake_ms replay_config 5000 idle_clocks [] c' = Some 86400000 \<and> settlement_pass_due replay_config 6000 c' \<and>
     owed c' = 7"
proof -
  let ?m = "(new_merge_claim ''c'' ''c'' ''default'' ''poly'' False 7 1)\<lparr>mcl_next_attempt_ms := 6000\<rparr>"
  let ?c = "demo_settle_core\<lparr>sc_settlement := (sc_settlement demo_settle_core)\<lparr>stl_merges :=
      bt_insert ''c'' ?m (stl_merges (sc_settlement demo_settle_core))\<rparr>\<rparr>"
  have "map_of (stl_merges (sc_settlement demo_settle_core)) ''c'' = None" "bt_sorted (stl_merges (sc_settlement demo_settle_core))"
    "\<not> mcl_manual ?m" "mcl_next_attempt_ms ?m < 86400000"
    by (simp_all add: settlement_empty_def bt_sorted_def new_merge_claim_def)
  from replay_wake_forgets_merges [OF idle_wake this refl]
  have "next_replay_wake_ms replay_config 5000 idle_clocks [] ?c = Some 86400000" "settlement_pass_due replay_config 6000 ?c"
    by simp_all
  moreover have "owed ?c = 7"
    by (simp add: owed_def receivable_sum merge_receivable_sum settlement_empty_def new_merge_claim_def)
  ultimately show ?thesis by blast
qed

end
