(* ===== verification/SimProps.thy ===== *)
theory SimProps
  imports Sim
begin

text \<open>
  What the matcher of dry runs guarantees: the walk fills exactly when the depth is there, at the best
  price any split of the size can get; the price it states for a live request is the deepest crossing
  level, whatever the size; the dials stay inside their bounds.
\<close>

section \<open>The walk\<close>

lemma walk_rest_nonneg: "0 < left \<Longrightarrow> 0 \<le> fst (walk_levels ls left n)"
  by (induction ls left n rule: walk_levels.induct) (auto simp: Let_def min_def)

lemma walk_cost_le:
  assumes "sane_levels ls" and "0 < left" and "\<forall>l \<in> set ls. cost_of d (fst l) \<le> c" and "(r, m) = walk_levels ls left n"
  shows "cost_of d m \<le> cost_of d n + c * (left - r)"
  using assms
proof (induction ls left n rule: walk_levels.induct)
  case (2 p s ls left n)
  have take: "0 \<le> min s left" using "2.prems"(1,2) by (simp add: sane_levels_def)
  then have step: "cost_of d (n + p * min s left) \<le> cost_of d n + c * min s left"
    using "2.prems"(3) by (simp add: cost_linear mult_right_mono)
  show ?case
  proof (cases "left - min s left \<le> 0")
    case True
    then have "r = left - min s left" "m = n + p * min s left" using "2.prems"(4) by (simp_all add: Let_def)
    then show ?thesis using step by simp
  next
    case False
    then have walk: "(r, m) = walk_levels ls (left - min s left) (n + p * min s left)"
      using "2.prems"(4) by (simp add: Let_def)
    have "cost_of d m \<le> cost_of d (n + p * min s left) + c * (left - min s left - r)"
      using "2.prems"(1,3) False by (intro "2.IH" [OF refl refl refl False _ _ _ walk]) (simp_all add: sane_levels_def)
    then show ?thesis using step by (simp add: algebra_simps)
  qed
qed simp

lemma extreme_None [simp]: "extreme f xs = None \<longleftrightarrow> xs = []"
  by (simp add: extreme_def split: list.splits)

lemma positive_level: "sane_levels ls \<Longrightarrow> 0 < sum_list (map snd ls) \<Longrightarrow> \<exists>l \<in> set ls. 0 < snd l"
proof (rule ccontr)
  assume "sane_levels ls" "0 < sum_list (map snd ls)" "\<not> (\<exists>l \<in> set ls. 0 < snd l)"
  then have "\<forall>x \<in> set (map snd ls). x = 0" by (force simp: sane_levels_def)
  then have "sum_list (map snd ls) = 0" by (induction ls) auto
  then show False using \<open>0 < sum_list (map snd ls)\<close> by simp
qed

lemma walk_fills:
  assumes "sane_book b" and "0 < sz"
  shows "walk_marketable D d limit sz b =
    (if marketable_depth d limit b < sz then None
     else map_option (\<lambda>w. (ddiv D (snd (walk_levels (crossing_levels d limit b) sz 0)) sz, w))
       (worst_level d (crossing_levels d limit b)))"
proof -
  have "fst (walk_levels (crossing_levels d limit b) sz 0) = max (sz - marketable_depth d limit b) 0"
    using walk_left [OF sane_crossing [OF assms(1)] assms(2)] by (simp add: marketable_depth_def)
  then show ?thesis using assms(2) by (auto simp: walk_marketable_def Let_def split_beta)
qed

lemma worst_exists:
  assumes "sane_book b" and "0 < sz" and "sz \<le> marketable_depth d limit b"
  shows "worst_level d (crossing_levels d limit b) \<noteq> None"
proof -
  have "0 < sum_list (map snd (crossing_levels d limit b))"
    using assms(2,3) by (simp add: marketable_depth_def)
  then show ?thesis
    using positive_level [OF sane_crossing [OF assms(1)]] by (auto simp: worst_level_def filter_empty_conv)
qed

text \<open>The walk is itself a split of the size over the levels.\<close>

lemma walk_splits:
  assumes "sane_levels ls" and "0 < left" and "(0, m) = walk_levels ls left n"
  shows "\<exists>ts. allocation ls ts left \<and> allocation_cost d ls ts = cost_of d m - cost_of d n"
  using assms
proof (induction ls left n rule: walk_levels.induct)
  case (2 p s ls left n)
  let ?t = "min s left"
  have t: "0 \<le> ?t" "?t \<le> s" using "2.prems"(1,2) by (simp_all add: sane_levels_def)
  have sane: "sane_levels ls" using "2.prems"(1) by (simp add: sane_levels_def)
  show ?case
  proof (cases "left - ?t \<le> 0")
    case True
    then have m: "left - ?t = 0" "m = n + p * ?t" using "2.prems"(3) by (simp_all add: Let_def)
    have "allocation ls (replicate (length ls) 0) 0 \<and> allocation_cost d ls (replicate (length ls) 0) = 0"
      using sane by (induction ls) (simp_all add: allocation_def sane_levels_def)
    then show ?thesis using t m by (intro exI [of _ "?t # replicate (length ls) 0"]) (simp add: allocation_def cost_linear)
  next
    case False
    then have walk: "(0, m) = walk_levels ls (left - ?t) (n + p * ?t)" using "2.prems"(3) by (simp add: Let_def)
    obtain ts where "allocation ls ts (left - ?t)" "allocation_cost d ls ts = cost_of d m - cost_of d (n + p * ?t)"
      using "2.IH" [OF refl refl refl False sane _ walk] False by auto
    then show ?thesis using t by (intro exI [of _ "?t # ts"]) (simp add: allocation_def cost_linear)
  qed
qed simp

text \<open>C19: On a book whose sizes are not negative, a taker's walk of a positive size fills exactly when the crossing depth covers the size, and then states as its price the
  quotient by the size, as the decimal division rounds it, of what it pays in all: the least that any split of
  the size over the crossing levels pays (the most it receives, when it sells), and never more than the
  size at the limit.\<close>

theorem walk_is_the_cheapest:
  assumes "sane_book b" and "0 < sz"
  shows "(walk_marketable D d limit sz b \<noteq> None \<longleftrightarrow> sz \<le> marketable_depth d limit b) \<and>
    (\<forall>v w. walk_marketable D d limit sz b = Some (v, w) \<longrightarrow> (\<exists>m. v = ddiv D m sz \<and> cost_of d m \<le> cost_of d limit * sz \<and>
      (\<exists>ts. allocation (crossing_levels d limit b) ts sz \<and> allocation_cost d (crossing_levels d limit b) ts = cost_of d m) \<and>
      (\<forall>ts. allocation (crossing_levels d limit b) ts sz \<longrightarrow> cost_of d m \<le> allocation_cost d (crossing_levels d limit b) ts)))"
proof (intro conjI allI impI)
  show "walk_marketable D d limit sz b \<noteq> None \<longleftrightarrow> sz \<le> marketable_depth d limit b"
    using worst_exists [OF assms(1,2)] by (auto simp: walk_fills [OF assms(1,2)])
next
  fix v w
  assume w: "walk_marketable D d limit sz b = Some (v, w)"
  let ?ls = "crossing_levels d limit b"
  obtain r m where walk: "(r, m) = walk_levels ?ls sz 0" by (metis prod.exhaust)
  have v: "v = ddiv D m sz" and r: "r = 0"
    using w walk_rest_nonneg [OF assms(2), of ?ls 0] assms(2)
    by (auto simp: walk_marketable_def Let_def simp flip: walk split: if_splits)
  have sane: "sane_levels ?ls" by (rule sane_crossing [OF assms(1)])
  have z: "cost_of d 0 = 0" by (simp add: cost_of_def split: side.splits)
  have "\<forall>l \<in> set ?ls. cost_of d (fst l) \<le> cost_of d limit"
    by (cases d) (auto simp: set_crossing inside_limit_def cost_of_def)
  from walk_cost_le [OF sane assms(2) this walk]
  have limit: "cost_of d m \<le> cost_of d limit * sz" by (simp add: r z)
  have "cost_of d m \<le> allocation_cost d ?ls ts" if "allocation ?ls ts sz" for ts
    using greedy_cheapest [OF crossing_sorted sane assms(2) that walk] by (simp add: z)
  moreover have "\<exists>ts. allocation ?ls ts sz \<and> allocation_cost d ?ls ts = cost_of d m"
    using walk_splits [OF sane assms(2) walk [unfolded r], of d] by (simp add: z)
  ultimately show "\<exists>m. v = ddiv D m sz \<and> cost_of d m \<le> cost_of d limit * sz \<and>
      (\<exists>ts. allocation ?ls ts sz \<and> allocation_cost d ?ls ts = cost_of d m) \<and>
      (\<forall>ts. allocation ?ls ts sz \<longrightarrow> cost_of d m \<le> allocation_cost d ?ls ts)"
    using v limit by blast
qed

text \<open>A book with one deep offer at a half and one share far above it.\<close>

definition far_offer :: sim_book where
  "far_offer = \<lparr>sb_bids = [], sb_asks = [(19 / 20, 1), (1 / 2, 100)]\<rparr>"

lemma far_offer_sel [simp]: "sb_bids far_offer = []" "sb_asks far_offer = [(19 / 20, 1), (1 / 2, 100)]"
  by (simp_all add: far_offer_def)

lemma far_crossing: "crossing_levels Buy (99 / 100) far_offer = [(1 / 2, 100), (19 / 20, 1)]"
  by (simp add: crossing_levels_def opposite_levels_def inside_limit_def Let_def)

lemma far_walk: "walk_marketable exact_dec Buy (99 / 100) 5 far_offer = Some (1 / 2, 19 / 20)"
  by (simp add: walk_marketable_def far_crossing Let_def worst_level_def extreme_def worse_def)

theorem walk_is_the_cheapest_witness:
  "allocation [(1 / 2, 100), (19 / 20, 1)] [4, 1] 5 \<and>
     5 / 2 \<le> allocation_cost Buy [(1 / 2, 100), (19 / 20, 1)] [4, 1]"
proof -
  have sane: "sane_book far_offer" by (simp add: sane_book_def sane_levels_def)
  have five: "(0 :: decimal) < 5" by simp
  obtain m where m: "1 / 2 = ddiv exact_dec m 5" "\<forall>ts. allocation (crossing_levels Buy (99 / 100) far_offer) ts 5 \<longrightarrow>
      cost_of Buy m \<le> allocation_cost Buy (crossing_levels Buy (99 / 100) far_offer) ts"
    using walk_is_the_cheapest [OF sane five, of exact_dec Buy "99 / 100"] far_walk by blast
  moreover have "allocation [(1 / 2, 100), (19 / 20, 1)] [4, 1] 5" by (simp add: allocation_def)
  moreover have "m = 5 / 2" using m(1) by simp
  ultimately show ?thesis by (simp add: far_crossing cost_of_def del: allocation_cost_simps)
qed

section \<open>The price for a live request\<close>

lemma fold_worse: "cost_of d (foldl (worse d) x ys) = foldl max (cost_of d x) (map (cost_of d) ys)"
proof (induction ys arbitrary: x)
  case (Cons y ys)
  have "cost_of d (worse d x y) = max (cost_of d x) (cost_of d y)"
    by (cases d) (auto simp: worse_def cost_of_def max_def min_def)
  then show ?case by (simp add: Cons.IH)
qed simp

lemma foldl_max_ge: "x \<le> foldl max x ys \<and> (\<forall>y \<in> set ys. y \<le> foldl max x (ys :: decimal list))"
proof (induction ys arbitrary: x)
  case (Cons y ys)
  from Cons.IH [of "max x y"] show ?case by auto
qed simp

lemma fold_worse_in: "foldl (worse d) x ys \<in> set (x # ys)"
proof (induction ys arbitrary: x)
  case (Cons y ys)
  have "worse d x y = x \<or> worse d x y = y" by (cases d) (auto simp: worse_def max_def min_def)
  then show ?case using Cons.IH [of "worse d x y"] by auto
qed simp

lemma worst_level_spec:
  assumes "worst_level d ls = Some w"
  shows "\<exists>l \<in> set ls. 0 < snd l \<and> fst l = w" and "l \<in> set ls \<Longrightarrow> 0 < snd l \<Longrightarrow> cost_of d (fst l) \<le> cost_of d w"
proof -
  obtain x xs where xs: "map fst (filter (\<lambda>l. snd l > 0) ls) = x # xs" and w: "w = foldl (worse d) x xs"
    using assms by (auto simp: worst_level_def extreme_def split: list.splits)
  have set_eq: "set (x # xs) = fst ` {l \<in> set ls. snd l > 0}" by (simp flip: xs)
  have "w \<in> set (x # xs)" unfolding w by (rule fold_worse_in)
  then show "\<exists>l \<in> set ls. 0 < snd l \<and> fst l = w" unfolding set_eq by auto
  assume "l \<in> set ls" "0 < snd l"
  then have "fst l \<in> set (x # xs)" unfolding set_eq by auto
  then show "cost_of d (fst l) \<le> cost_of d w"
    using foldl_max_ge [of "cost_of d x" "map (cost_of d) xs"] by (auto simp: w fold_worse)
qed

text \<open>The price the walk states for a live request is the deepest level with any size inside the
  limit, the same for every size the walk fills: one share resting far away moves it, however little is
  asked for.\<close>

theorem stated_price_is_the_deepest_level:
  assumes "walk_marketable D d limit sz b = Some (v, w)"
  shows "(\<exists>l \<in> set (opposite_levels d b). inside_limit d limit (fst l) \<and> 0 < snd l \<and> fst l = w) \<and>
    (\<forall>l \<in> set (opposite_levels d b). inside_limit d limit (fst l) \<longrightarrow> 0 < snd l \<longrightarrow> cost_of d (fst l) \<le> cost_of d w) \<and>
    (\<forall>sz' v' w'. walk_marketable D d limit sz' b = Some (v', w') \<longrightarrow> w' = w)"
proof -
  have w: "worst_level d (crossing_levels d limit b) = Some w'"
    if "walk_marketable D d limit sz' b = Some (v', w')" for sz' v' w'
    using that by (auto simp: walk_marketable_def Let_def split: if_splits prod.splits)
  note spec = worst_level_spec [OF w [OF assms]]
  have "\<exists>l \<in> set (opposite_levels d b). inside_limit d limit (fst l) \<and> 0 < snd l \<and> fst l = w"
    using spec(1) by (force simp: set_crossing)
  moreover have "\<forall>l \<in> set (opposite_levels d b). inside_limit d limit (fst l) \<longrightarrow> 0 < snd l \<longrightarrow> cost_of d (fst l) \<le> cost_of d w"
    using spec(2) by (simp add: set_crossing)
  moreover have "\<forall>sz' v' w'. walk_marketable D d limit sz' b = Some (v', w') \<longrightarrow> w' = w"
    using w [OF assms] w by fastforce
  ultimately show ?thesis by blast
qed

theorem stated_price_is_the_deepest_level_witness:
  "walk_marketable exact_dec Buy (99 / 100) 5 far_offer = Some (1 / 2, 19 / 20) \<and>
   (\<exists>l \<in> set (opposite_levels Buy far_offer). inside_limit Buy (99 / 100) (fst l) \<and> 0 < snd l \<and> fst l = 19 / 20)"
  using stated_price_is_the_deepest_level [OF far_walk] far_walk by blast

section \<open>The dials\<close>

lemma fill_size_bounds: "0 \<le> maker_fill_size D m i left depth \<and> maker_fill_size D m i left depth \<le> max 0 (min left depth)"
  by (auto simp: maker_fill_size_def Let_def)

lemma fill_size_positive:
  assumes "0 < left" and "0 < depth" and "fm_maker_depth_share_bps m \<noteq> 0" and "\<forall>x y. ddiv D x y = x / y"
  shows "0 < maker_fill_size D m i left depth"
  using assms by (auto simp: maker_fill_size_def Let_def add_pos_nonneg)

lemma slippage_adverse:
  assumes "sim_price_min \<le> p" and "p \<le> sim_price_max"
  shows "cost_of d p \<le> cost_of d (apply_slippage m d p)"
    "sim_price_min \<le> apply_slippage m d p" "apply_slippage m d p \<le> sim_price_max"
proof -
  define slip where "slip = sim_tick * of_nat (fm_taker_slippage_ticks m)"
  have "0 \<le> slip" by (simp add: slip_def sim_tick_def)
  moreover have "sim_price_min \<le> sim_price_max" by (simp add: sim_price_min_def sim_price_max_def)
  moreover have "apply_slippage m d p = (if fm_taker_slippage_ticks m = 0 then p
      else min (max (case d of Buy \<Rightarrow> p + slip | Sell \<Rightarrow> p - slip) sim_price_min) sim_price_max)"
    by (cases d) (simp_all add: apply_slippage_def slip_def Let_def)
  ultimately show "cost_of d p \<le> cost_of d (apply_slippage m d p)"
    "sim_price_min \<le> apply_slippage m d p" "apply_slippage m d p \<le> sim_price_max"
    using assms by (cases d; simp add: cost_of_def min_def max_def)+
qed

text \<open>The test vector of the source's own tests: the queue-share draw of one order, pinned.\<close>

lemma depth_share_hash_is_pinned:
  "maker_fill_size exact_dec (fill_model_default\<lparr>fm_maker_depth_share_bps := 5000\<rparr>) ''dry_order_7'' 100 100 = 313 / 100"
proof -
  have "unat (draw_salted ''dry_order_7'' DEPTH_SHARE_SALT) mod 5000 = 312"
    by (simp add: draw_salted_def fnv_step_def FNV_OFFSET_def FNV_PRIME_def DEPTH_SHARE_SALT_def of_char_def)
  then show ?thesis by (simp add: maker_fill_size_def fill_model_default_def Let_def)
qed

text \<open>The dials: a chunk never exceeds what is left of the order or the depth, and with any share
  above zero an order that can trade does; slippage never helps and stays on the grid; a higher fill
  probability keeps every win; and a model that calls itself the identity changes nothing.\<close>

theorem fill_model_sound:
  assumes "\<forall>x y. ddiv D x y = x / y" and "sim_price_min \<le> p" and "p \<le> sim_price_max"
    and "- (2 ^ 63) \<le> t" and "t < 2 ^ 63"
  shows "0 \<le> maker_fill_size D m i left depth \<and> maker_fill_size D m i left depth \<le> max 0 (min left depth) \<and>
    (0 < left \<longrightarrow> 0 < depth \<longrightarrow> fm_maker_depth_share_bps m \<noteq> 0 \<longrightarrow> 0 < maker_fill_size D m i left depth) \<and>
    cost_of d p \<le> cost_of d (apply_slippage m d p) \<and>
    sim_price_min \<le> apply_slippage m d p \<and> apply_slippage m d p \<le> sim_price_max \<and>
    t \<le> maker_eligible_at_ms m t \<and>
    (maker_fill_wins m i \<longrightarrow> fm_maker_fill_prob_bps m \<le> q \<longrightarrow> maker_fill_wins (m\<lparr>fm_maker_fill_prob_bps := q\<rparr>) i) \<and>
    (is_identity m \<longrightarrow> apply_slippage m d p = p \<and> maker_eligible_at_ms m t = t \<and> maker_fill_wins m i \<and>
       (0 < left \<longrightarrow> 0 < depth \<longrightarrow> maker_fill_size D m i left depth = min left depth))"
proof -
  have "t \<le> maker_eligible_at_ms m t" using assms(4,5) by (auto simp: maker_eligible_at_ms_def sat_add_def)
  moreover have "maker_fill_wins m i \<longrightarrow> fm_maker_fill_prob_bps m \<le> q \<longrightarrow> maker_fill_wins (m\<lparr>fm_maker_fill_prob_bps := q\<rparr>) i"
    by (auto simp: maker_fill_wins_def)
  moreover have "is_identity m \<longrightarrow> apply_slippage m d p = p \<and> maker_eligible_at_ms m t = t \<and> maker_fill_wins m i \<and>
       (0 < left \<longrightarrow> 0 < depth \<longrightarrow> maker_fill_size D m i left depth = min left depth)"
    using assms(4,5) by (auto simp: is_identity_def apply_slippage_def maker_eligible_at_ms_def sat_add_def
        maker_fill_wins_def maker_fill_size_def)
  ultimately show ?thesis
    using fill_size_bounds [of D m i left depth] fill_size_positive [OF _ _ _ assms(1)] slippage_adverse [OF assms(2,3)]
    by blast
qed

theorem fill_model_sound_witness:
  "let m = fill_model_default\<lparr>fm_taker_slippage_ticks := 3, fm_maker_depth_share_bps := 2500\<rparr>
   in 0 < maker_fill_size exact_dec m ''dry_1'' 40 10 \<and> maker_fill_size exact_dec m ''dry_1'' 40 10 \<le> 10 \<and>
      1 / 2 \<le> apply_slippage m Buy (1 / 2) \<and> \<not> is_identity m \<and> is_identity fill_model_default"
proof -
  have "\<forall>x y. ddiv exact_dec x y = x / y" by simp
  moreover have "sim_price_min \<le> 1 / 2" "1 / 2 \<le> sim_price_max" by (simp_all add: sim_price_min_def sim_price_max_def)
  ultimately show ?thesis
    using fill_model_sound [of exact_dec "1 / 2" 0 "fill_model_default\<lparr>fm_taker_slippage_ticks := 3, fm_maker_depth_share_bps := 2500\<rparr>"
        "''dry_1''" 40 10 Buy 0]
    by (simp add: Let_def cost_of_def is_identity_def fill_model_default_def)
qed

end
