(* ===== verification/DryMatchProps.thy ===== *)
theory DryMatchProps
  imports DryMatch SimProps BookingRollback
begin

text \<open>
  Taker legs in flight: none overstays its report, none is priced by a book from after its arrival, and
  what a kill does to an order cancelled meanwhile; resting orders: the depth they share.
\<close>

section \<open>Legs in flight\<close>

definition same_leg :: "inflight_taker \<Rightarrow> inflight_taker \<Rightarrow> bool" where
  "same_leg a b \<longleftrightarrow> il_order_id a = il_order_id b \<and> il_execute_at_ms a = il_execute_at_ms b \<and>
     il_report_at_ms a = il_report_at_ms b"

text \<open>A leg that may still wait.\<close>

definition waiting :: "int \<Rightarrow> inflight_taker \<Rightarrow> bool" where
  "waiting now leg \<longleftrightarrow> now < il_report_at_ms leg \<and> (undecided leg \<longrightarrow> now < il_execute_at_ms leg)"

definition leg_ordered :: "inflight_taker \<Rightarrow> bool" where
  "leg_ordered leg \<longleftrightarrow> il_execute_at_ms leg \<le> il_report_at_ms leg"

lemma match_leg_decides:
  assumes "match_leg D m c leg = Some leg1"
  shows "same_leg leg leg1" and "\<not> undecided leg1"
  using assms
  by (auto simp: match_leg_def same_leg_def undecided_def Let_def split: option.splits if_splits)

lemma fee_defined:
  assumes "may_charge G (active_schedule st)"
  shows "\<exists>b1. apply_delta_effects D G E st d now b = Some b1"
proof -
  have "fill_fee D G st d n \<noteq> None" for n
    using assms by (simp add: fill_fee_def live_taker_fee_pct_def Let_def)
  then obtain fee where "fill_fee D G st d (or_zero (checked_mul D (fd_price d) (fd_delta d))) = Some fee" by blast
  then show ?thesis
    by (cases "map_of (cb_accounts b) (fd_account_id d)") (simp_all add: apply_delta_effects_def Let_def)
qed

lemma fill_returns:
  assumes "may_charge G (active_schedule st)"
  shows "\<exists>b1 r. authoritative_fill D G E st i trade cumulative price maker now b = Some (b1, r)"
  using fee_defined [OF assms] by (auto simp: authoritative_fill_def split: option.splits prod.splits sum.splits)

lemma report_returns:
  assumes "may_charge G (active_schedule st)"
  shows "\<exists>c1. report_leg D G E st leg c = Some c1"
proof -
  have "\<exists>c1. report_match D G E st p leg c = Some c1" for p
    using fill_returns [OF assms] by (auto simp: report_match_def split: option.splits)
  then show ?thesis by (auto simp: report_leg_def split: option.splits)
qed

lemma drain_leg_step:
  assumes "may_charge G (active_schedule st)" and "leg_ordered leg"
  shows "\<exists>c1 new. drain_leg D G E st m now leg (Some (c, kept)) = Some (c1, kept @ new) \<and>
    (\<forall>l \<in> set new. waiting now l \<and> same_leg leg l)"
proof (cases "undecided leg \<and> now < il_execute_at_ms leg")
  case True
  then show ?thesis
    using assms(2) by (auto simp: drain_leg_def waiting_def same_leg_def leg_ordered_def)
next
  case False
  let ?m = "if undecided leg then match_leg D m c leg else Some leg"
  have m: "same_leg leg l \<and> \<not> undecided l" if "?m = Some l" for l
    using that match_leg_decides [of D m c leg l] by (auto simp: same_leg_def split: if_splits)
  show ?thesis
  proof (cases ?m)
    case None
    then show ?thesis using False by (simp add: drain_leg_def) blast
  next
    case (Some l)
    obtain c1 where c1: "report_leg D G E st l c = Some c1" using report_returns [OF assms(1)] by blast
    have "drain_leg D G E st m now leg (Some (c, kept)) =
        (if now < il_report_at_ms l then Some (c, kept @ [l]) else Some (c1, kept))"
      by (simp only: drain_leg_def Option.bind.bind_lunit prod.case if_not_P [OF False] Some option.case c1 option.map)
    then show ?thesis using m [OF Some] by (auto simp: waiting_def)
  qed
qed

lemma drain_all:
  assumes "may_charge G (active_schedule st)" and "\<forall>leg \<in> set legs. leg_ordered leg"
  shows "\<exists>c1 new. fold (drain_leg D G E st m now) legs (Some (c, kept)) = Some (c1, kept @ new) \<and>
    (\<forall>l \<in> set new. waiting now l \<and> (\<exists>leg \<in> set legs. same_leg leg l))"
  using assms(2)
proof (induction legs arbitrary: c kept)
  case (Cons leg legs)
  obtain c1 n1 where 1: "drain_leg D G E st m now leg (Some (c, kept)) = Some (c1, kept @ n1)"
    "\<forall>l \<in> set n1. waiting now l \<and> same_leg leg l"
    using drain_leg_step [OF assms(1), of leg D E m now c kept] Cons.prems by auto
  obtain c2 n2 where 2: "fold (drain_leg D G E st m now) legs (Some (c1, kept @ n1)) = Some (c2, (kept @ n1) @ n2)"
    "\<forall>l \<in> set n2. waiting now l \<and> (\<exists>leg \<in> set legs. same_leg leg l)"
    using Cons.IH [of c1 "kept @ n1"] Cons.prems by auto
  show ?case
    by (intro exI [of _ c2] exI [of _ "n1 @ n2"]) (use 1 2 in auto)
qed simp

text \<open>C20: a drain always returns when the fee schedule may be charged, and no leg overstays it: every leg it
  keeps was in flight before, has its report still ahead, and is decided unless its arrival is still ahead;
  once all reports are due, nothing is in flight.\<close>

theorem no_leg_overstays:
  assumes "may_charge G (active_schedule st)" and "\<forall>leg \<in> set (dc_inflight c). leg_ordered leg"
  shows "\<exists>c1. drain_inflight_takers D G E st m now c = Some c1 \<and>
    (\<forall>l \<in> set (dc_inflight c1). waiting now l \<and> (\<exists>leg \<in> set (dc_inflight c). same_leg leg l)) \<and>
    ((\<forall>leg \<in> set (dc_inflight c). il_report_at_ms leg \<le> now) \<longrightarrow> dc_inflight c1 = [])"
proof -
  have "\<exists>c1. drain_inflight_takers D G E st m now c = Some c1 \<and>
    (\<forall>l \<in> set (dc_inflight c1). waiting now l \<and> (\<exists>leg \<in> set (dc_inflight c). same_leg leg l))"
    using drain_all [OF assms, of D E m now "c\<lparr>dc_inflight := []\<rparr>" "[]"]
    by (auto simp: drain_inflight_takers_def)
  then obtain c1 where c1: "drain_inflight_takers D G E st m now c = Some c1"
    "\<forall>l \<in> set (dc_inflight c1). waiting now l \<and> (\<exists>leg \<in> set (dc_inflight c). same_leg leg l)" by blast
  moreover have "dc_inflight c1 = []" if "\<forall>leg \<in> set (dc_inflight c). il_report_at_ms leg \<le> now"
  proof (rule ccontr)
    assume "dc_inflight c1 \<noteq> []"
    then obtain l where "l \<in> set (dc_inflight c1)" by (cases "dc_inflight c1") auto
    with c1(2) obtain leg where "waiting now l" "leg \<in> set (dc_inflight c)" "same_leg leg l" by blast
    then show False using that by (auto simp: waiting_def same_leg_def)
  qed
  ultimately show ?thesis by blast
qed

definition demo_leg :: inflight_taker where
  "demo_leg = \<lparr>il_order_id = ''o1'', il_execute_at_ms = 150, il_report_at_ms = 200, il_matched_price = None,
     il_rejected_msg = None\<rparr>"

definition demo_dry :: "ome \<Rightarrow> inflight_taker list \<Rightarrow> dry_core" where
  "demo_dry s legs = \<lparr>dc_core = demo_core s fresh_manager, dc_mirror = [(''tok'', far_offer)], dc_inflight = legs,
     dc_last_error = None\<rparr>"

lemma demo_dry_sel [simp]: "dc_core (demo_dry s legs) = demo_core s fresh_manager" "dc_inflight (demo_dry s legs) = legs"
  by (simp_all add: demo_dry_def)

lemma demo_may_charge: "may_charge demo_config (active_schedule None)"
  by (simp add: may_charge_def active_schedule_def)

theorem no_leg_overstays_witness:
  "(\<exists>c1. drain_inflight_takers exact_dec demo_config demo_env None fill_model_default 160 (demo_dry (sample_ome 0) [demo_leg])
      = Some c1 \<and> (\<forall>l \<in> set (dc_inflight c1). \<not> undecided l \<and> il_report_at_ms l = 200)) \<and>
   (\<exists>c1. drain_inflight_takers exact_dec demo_config demo_env None fill_model_default 200 (demo_dry (sample_ome 0) [demo_leg])
      = Some c1 \<and> dc_inflight c1 = [])"
proof -
  have o: "\<forall>leg \<in> set (dc_inflight (demo_dry (sample_ome 0) [demo_leg])). leg_ordered leg"
    by (simp add: leg_ordered_def demo_leg_def)
  have w: "\<not> undecided l \<and> il_report_at_ms l = 200" if "waiting 160 l" "same_leg demo_leg l" for l
    using that by (auto simp: waiting_def same_leg_def demo_leg_def)
  have d: "il_report_at_ms demo_leg = 200" by (simp add: demo_leg_def)
  show ?thesis
    using no_leg_overstays [OF demo_may_charge o, of exact_dec demo_env fill_model_default 160] w
      no_leg_overstays [OF demo_may_charge o, of exact_dec demo_env fill_model_default 200]
    by (simp add: d) blast
qed

section \<open>No data from the future\<close>

lemma report_mirror:
  "report_leg D G E st leg (c\<lparr>dc_mirror := x\<rparr>) = map_option (\<lambda>c1. c1\<lparr>dc_mirror := x\<rparr>) (report_leg D G E st leg c)"
  by (auto simp: report_leg_def report_match_def report_kill_def emit_error_at_def Let_def option.map_comp comp_def
      split: option.splits sum.splits intro!: option.map_cong)

definition with_mirror :: "(token_id \<times> sim_book) list \<Rightarrow> dry_core \<times> inflight_taker list \<Rightarrow> dry_core \<times> inflight_taker list" where
  "with_mirror x a = ((fst a)\<lparr>dc_mirror := x\<rparr>, snd a)"

lemma drain_leg_mirror:
  assumes "\<not> undecided leg \<or> now < il_execute_at_ms leg"
  shows "drain_leg D G E st m now leg (map_option (with_mirror x) acc) =
    map_option (with_mirror x) (drain_leg D G E st m now leg acc)"
  using assms
  by (cases acc) (auto simp: drain_leg_def with_mirror_def report_mirror option.map_comp comp_def split: prod.splits)

lemma drain_fold_mirror:
  assumes "\<forall>leg \<in> set legs. \<not> undecided leg \<or> now < il_execute_at_ms leg"
  shows "fold (drain_leg D G E st m now) legs (map_option (with_mirror x) acc) =
    map_option (with_mirror x) (fold (drain_leg D G E st m now) legs acc)"
  using assms by (induction legs arbitrary: acc) (simp_all add: drain_leg_mirror)

text \<open>C21: no data from the future: a leg that has been matched or killed, and a leg that has not arrived yet,
  is not touched by the mirrored books. Whatever books came in since, the drain does exactly the same.\<close>

theorem decided_legs_ignore_the_books:
  assumes "\<forall>leg \<in> set (dc_inflight c). \<not> undecided leg \<or> now < il_execute_at_ms leg"
  shows "drain_inflight_takers D G E st m now (c\<lparr>dc_mirror := x\<rparr>) =
    map_option (\<lambda>c1. c1\<lparr>dc_mirror := x\<rparr>) (drain_inflight_takers D G E st m now c)"
proof -
  have start: "Some (c\<lparr>dc_mirror := x, dc_inflight := []\<rparr>, []) = map_option (with_mirror x) (Some (c\<lparr>dc_inflight := []\<rparr>, []))"
    by (simp add: with_mirror_def)
  have finish: "(\<lambda>(c1, kept). c1\<lparr>dc_inflight := kept\<rparr>) (with_mirror x a) = (case a of (c1, kept) \<Rightarrow> c1\<lparr>dc_inflight := kept\<rparr>)\<lparr>dc_mirror := x\<rparr>" for a
    by (cases a) (simp add: with_mirror_def)
  show ?thesis
  proof (cases "dc_inflight c = []")
    case False
    then have "drain_inflight_takers D G E st m now (c\<lparr>dc_mirror := x\<rparr>) = map_option (\<lambda>(c1, kept). c1\<lparr>dc_inflight := kept\<rparr>)
        (fold (drain_leg D G E st m now) (dc_inflight c) (Some (c\<lparr>dc_mirror := x, dc_inflight := []\<rparr>, [])))"
      by (simp add: drain_inflight_takers_def)
    then show ?thesis
      unfolding start drain_fold_mirror [OF assms] using False
      by (simp only: drain_inflight_takers_def option.map_comp comp_def finish if_False)
  qed (simp add: drain_inflight_takers_def)
qed

theorem decided_legs_ignore_the_books_witness:
  "drain_inflight_takers exact_dec demo_config demo_env None fill_model_default 160
      ((demo_dry (sample_ome 0) [demo_leg\<lparr>il_matched_price := Some (1 / 2)\<rparr>])\<lparr>dc_mirror := []\<rparr>) =
   map_option (\<lambda>c1. c1\<lparr>dc_mirror := []\<rparr>) (drain_inflight_takers exact_dec demo_config demo_env None fill_model_default 160
      (demo_dry (sample_ome 0) [demo_leg\<lparr>il_matched_price := Some (1 / 2)\<rparr>]))"
proof -
  have "\<forall>leg \<in> set (dc_inflight (demo_dry (sample_ome 0) [demo_leg\<lparr>il_matched_price := Some (1 / 2)\<rparr>])).
      \<not> undecided leg \<or> 160 < il_execute_at_ms leg"
    by (simp add: undecided_def)
  then show ?thesis by (rule decided_legs_ignore_the_books)
qed

section \<open>A kill after a cancel\<close>

lemma mark_terminal_row:
  assumes "ome_get s i = Some ord"
  shows "ome_get (fst (mark_terminal i st now s)) i = Some (ord\<lparr>o_status := st, o_updated_at_ms := now\<rparr>)"
  using assms by (simp add: ome_get_def mark_terminal_def mutate_def)

lemma emit_order_ome [simp]: "cb_ome (emit_order E i b) = cb_ome b"
  by (simp add: emit_order_def persist_order_def emit_def split: option.splits)

text \<open>A kill overwrites a cancel: an order cancelled while its killed leg was travelling back is marked
  rejected and reported as an error, although it had ended; the report of a fill in the same place is
  dropped and changes nothing.\<close>

theorem late_kill_overwrites_cancel:
  assumes "ome_get (cb_ome (dc_core c)) i = Some ord" and "o_status ord = StCancelled" and "o_order_id ord = i"
    and "dc_inflight c = [\<lparr>il_order_id = i, il_execute_at_ms = e, il_report_at_ms = r, il_matched_price = None,
      il_rejected_msg = Some msg\<rparr>]" and "r \<le> now"
    and "c' = c\<lparr>dc_inflight := [\<lparr>il_order_id = i, il_execute_at_ms = e, il_report_at_ms = r, il_matched_price = Some p,
      il_rejected_msg = None\<rparr>]\<rparr>"
  shows "(\<exists>c1 o1. drain_inflight_takers D G E st m now c = Some c1 \<and> ome_get (cb_ome (dc_core c1)) i = Some o1 \<and>
      o_status o1 = StRejected \<and> dc_last_error c1 = Some (r, WouldCross, msg) \<and> dc_inflight c1 = []) \<and>
    drain_inflight_takers D G E st m now c' = Some (c\<lparr>dc_inflight := []\<rparr>)"
proof
  let ?leg = "\<lparr>il_order_id = i, il_execute_at_ms = e, il_report_at_ms = r, il_matched_price = None, il_rejected_msg = Some msg\<rparr>"
  let ?c1 = "report_kill E msg ?leg (c\<lparr>dc_inflight := []\<rparr>)"
  have "drain_inflight_takers D G E st m now c = Some (?c1\<lparr>dc_inflight := []\<rparr>)"
    using assms(4,5) by (simp add: drain_inflight_takers_def drain_leg_def undecided_def report_leg_def)
  moreover have "ome_get (cb_ome (dc_core (?c1\<lparr>dc_inflight := []\<rparr>))) i = Some (ord\<lparr>o_status := StRejected, o_updated_at_ms := r\<rparr>)"
  proof -
    have "cb_ome (virtual_release_order ord (release_order_cash ord b)) = cb_ome b" for b
      by (simp add: virtual_release_order_def release_order_cash_def put_ledger_def split: option.splits)
    then show ?thesis
      using assms(1,3) mark_terminal_row [OF assms(1), of StRejected r]
      by (simp add: report_kill_def Let_def emit_error_at_def)
  qed
  moreover have "dc_last_error ?c1 = Some (r, WouldCross, msg)"
    using assms(1) by (simp add: report_kill_def Let_def emit_error_at_def)
  ultimately show "\<exists>c1 o1. drain_inflight_takers D G E st m now c = Some c1 \<and> ome_get (cb_ome (dc_core c1)) i = Some o1 \<and>
      o_status o1 = StRejected \<and> dc_last_error c1 = Some (r, WouldCross, msg) \<and> dc_inflight c1 = []" by fastforce
  show "drain_inflight_takers D G E st m now c' = Some (c\<lparr>dc_inflight := []\<rparr>)"
    using assms(1,2,5) by (simp add: assms(6) drain_inflight_takers_def drain_leg_def undecided_def report_leg_def report_match_def)
qed


theorem late_kill_overwrites_cancel_witness:
  "\<exists>s. (\<exists>o0. ome_get s ''o1'' = Some o0 \<and> o_status o0 = StCancelled) \<and>
    (\<exists>c1 o1. drain_inflight_takers exact_dec demo_config demo_env None fill_model_default 200
        (demo_dry s [demo_leg\<lparr>il_rejected_msg := Some []\<rparr>]) = Some c1 \<and>
      ome_get (cb_ome (dc_core c1)) ''o1'' = Some o1 \<and> o_status o1 = StRejected)"
proof -
  define s where "s = fst (mark_terminal ''o1'' StCancelled 140 (sample_ome 0))"
  obtain o0 where o0: "ome_get s ''o1'' = Some o0" "o_status o0 = StCancelled" "o_order_id o0 = ''o1''"
    using mark_terminal_row [of "sample_ome 0" "''o1''" _ StCancelled 140] sample_ome_facts(1)
    by (fastforce simp: s_def ome_get_def sample_row_def fresh_order_def sample_params_def)
  have leg: "demo_leg\<lparr>il_rejected_msg := Some []\<rparr> = \<lparr>il_order_id = ''o1'', il_execute_at_ms = 150, il_report_at_ms = 200,
      il_matched_price = None, il_rejected_msg = Some []\<rparr>" by (simp add: demo_leg_def)
  from late_kill_overwrites_cancel [where c = "demo_dry s [demo_leg\<lparr>il_rejected_msg := Some []\<rparr>]" and i = "''o1''"
      and ord = o0 and e = 150 and r = 200 and msg = "[]" and now = 200 and p = "1 / 2" and D = exact_dec
      and G = demo_config and E = demo_env and st = None and m = fill_model_default, OF _ o0(2,3) _ _ refl]
  show ?thesis using o0 by (auto simp: leg)
qed

section \<open>Resting orders\<close>

lemma hit_keeps_mirror:
  assumes "hit_rested D G E st m ord b now c = Some c1"
  shows "dc_mirror c1 = dc_mirror c"
proof -
  have "dc_mirror (case r of Inl e \<Rightarrow> emit_error_at e now (c\<lparr>dc_core := b1\<rparr>) | Inr u \<Rightarrow> c\<lparr>dc_core := b1\<rparr>) = dc_mirror c"
    for r :: "core_error + unit" and b1
    by (cases r) (simp_all add: emit_error_at_def)
  then show ?thesis
    using assms by (auto simp: hit_rested_def Let_def split: if_splits)
qed

text \<open>The depth is not consumed: two orders resting at one price on one side are each given the whole
  depth of the same snapshot, and filling the first leaves the mirrored book as it was, so together they
  trade twice what the book offers.\<close>

theorem orders_share_no_depth:
  assumes "is_identity m" and "rested_hit m a b" and "o_side a' = o_side a" and "o_price a' = o_price a"
    and "o_submitted_at_ms a \<le> now" and "o_submitted_at_ms a' \<le> now" and "- (2 ^ 63) \<le> o_submitted_at_ms a"
    and "- (2 ^ 63) \<le> o_submitted_at_ms a'" and "now < 2 ^ 63"
    and "depth = marketable_depth (o_side a) (o_price a) b" and "0 < depth"
    and "depth \<le> o_size a - o_filled_size a" and "depth \<le> o_size a' - o_filled_size a'"
  shows "rested_chunk D m a b now = depth \<and> rested_chunk D m a' b now = depth \<and>
    rested_chunk D m a b now + rested_chunk D m a' b now = 2 * depth \<and>
    (\<forall>G E st c c1. hit_rested D G E st m a b now c = Some c1 \<longrightarrow> dc_mirror c1 = dc_mirror c)"
proof -
  have m: "fm_maker_fill_rule m = Touch" "fm_maker_latency_ms m \<le> 0" "maker_fill_wins m i"
    "fm_maker_depth_share_bps m \<ge> 10000" for i
    using assms(1) by (simp_all add: is_identity_def maker_fill_wins_def)
  have "maker_eligible_at_ms m (o_submitted_at_ms a) \<le> now" "maker_eligible_at_ms m (o_submitted_at_ms a') \<le> now"
    using assms(5-9) m(2) by (simp_all add: maker_eligible_at_ms_def sat_add_def)
  then have "rested_chunk D m a b now = depth" "rested_chunk D m a' b now = depth"
    using assms m by (simp_all add: rested_chunk_def rested_hit_def rested_depth_def maker_fill_size_def not_less)
  then show ?thesis using hit_keeps_mirror by auto
qed

theorem orders_share_no_depth_witness:
  "rested_chunk exact_dec fill_model_default (sample_row 0) \<lparr>sb_bids = [], sb_asks = [(1 / 2, 6)]\<rparr> 130 +
   rested_chunk exact_dec fill_model_default ((sample_row 0)\<lparr>o_order_id := ''o2''\<rparr>) \<lparr>sb_bids = [], sb_asks = [(1 / 2, 6)]\<rparr> 130 = 12"
proof -
  let ?b = "\<lparr>sb_bids = [], sb_asks = [(1 / 2, 6)]\<rparr>" and ?a = "sample_row 0"
  have row: "o_side ?a = Buy" "o_price ?a = 1 / 2" "o_submitted_at_ms ?a = 100" "o_size ?a = 10" "o_filled_size ?a = 0"
    by (simp_all add: sample_row_def fresh_order_def sample_params_def sample_request_def)
  have id: "is_identity fill_model_default" by (simp add: is_identity_def fill_model_default_def)
  have hit: "rested_hit fill_model_default ?a ?b"
    by (simp add: rested_hit_def fill_model_default_def crosses_def row sim_best_ask_def extreme_def)
  have depth: "marketable_depth (o_side ?a) (o_price ?a) ?b = 6"
    by (simp add: marketable_depth_def crossing_levels_def opposite_levels_def inside_limit_def row Let_def)
  show ?thesis
    using orders_share_no_depth [OF id hit, of "?a\<lparr>o_order_id := ''o2''\<rparr>" 130 6 exact_dec] depth by (simp add: row)
qed

end
