(* ===== verification/OmeRestart.thy ===== *)
theory OmeRestart
  imports OmeProps Stores
begin

text \<open>
  The fill ledger of the order engine across a restart: the journal the engine keeps
  (\<open>core/blitzkrieg_core/src/ome.rs\<close>) is drained to a file after every report (\<open>AppliedFillLog\<close>,
  \<open>service/config.rs\<close>), whose lines hold the amounts as doubles, and a new engine replays the file.
\<close>

text \<open>A session as the service runs it, with the file it leaves.\<close>

fun logged_session ::
  "dec_ops \<Rightarrow> (fill \<times> int) list \<Rightarrow> ome \<Rightarrow> applied_fill_record lines \<Rightarrow> ome \<times> applied_fill_record lines" where
  "logged_session D [] s f = (s, f)"
| "logged_session D ((x, now) # fs) s f =
    (case take_applied_journal (fst (apply_fill_report D x now s)) of
       (s1, rs) \<Rightarrow> logged_session D fs s1 (applied_log_append True rs f))"

lemma load_appended: "load_lines (applied_log_append True rs f) = load_lines f @ rs"
  by (cases f) (simp_all add: applied_log_append_def load_lines_def lines_of_def map_filter_def comp_def)

lemma logged_session_lines:
  "logged_session D fs s f = (s1, f1) \<Longrightarrow> session D fs s (load_lines f) = (s1, load_lines f1)"
proof (induction fs arbitrary: s f)
  case (Cons x fs)
  show ?case
    using Cons.prems by (cases x) (auto simp: take_applied_journal_def load_appended dest!: Cons.IH)
qed simp

text \<open>What the ledger says of its trades, read back through doubles.\<close>

definition wired ::
  "dec_ops \<Rightarrow> (string \<Rightarrow> (decimal \<times> decimal \<times> order_id) option) \<Rightarrow> string \<Rightarrow> (decimal \<times> decimal \<times> order_id) option" where
  "wired D m k = map_option (\<lambda>(a, p, i). (the (wire_decimal D a), the (wire_decimal D p), i)) (m k)"

lemma wired_apply:
  assumes "read_applied D r = Some q"
  shows "apply_record q (wired D m) = wired D (apply_record r m)"
proof -
  obtain a p where "wire_decimal D (afr_applied r) = Some a" "wire_decimal D (afr_price r) = Some p"
    "q = r\<lparr>afr_applied := a, afr_price := p\<rparr>"
    using assms by (auto simp: read_applied_def split: option.splits)
  then show ?thesis by (auto simp: apply_record_def wired_def fun_eq_iff)
qed

lemma wired_replay:
  "\<forall>r \<in> set rs. read_applied D r \<noteq> None \<Longrightarrow>
    fold apply_record (List.map_filter (read_applied D) rs) (wired D m) = wired D (fold apply_record rs m)"
proof (induction rs arbitrary: m)
  case (Cons r rs)
  then obtain q where "read_applied D r = Some q" by auto
  then show ?case using Cons by (simp add: List.map_filter_simps wired_apply)
qed (simp add: List.map_filter_simps)

text \<open>C7: the journal is a faithful write-ahead log. A session that starts from a ledger the log already holds,
  whose reports and initial entries stay two below the journal's cap of 16384, and that drains the journal to
  the file after every report, each write succeeding, leaves a file from which a restart rebuilds the fill
  ledger: the same trade keys, evictions included, each with its order, and with its amount and price as the
  doubles on its line read back, provided every line can be read.\<close>

theorem ome_journal_replays:
  assumes "index_inv s" and "applied_journal s = []"
    and "length (applied s) + length fs + 2 \<le> APPLIED_JOURNAL_CAP"
    and "booked (restore_applied (load_lines f) ome_new) = booked s"
    and "logged_session D fs s f = (s1, f1)" and "\<forall>r \<in> set (load_lines f1). read_applied D r \<noteq> None"
  shows "booked (restore_applied (applied_log_load D f1) ome_new) = wired D (booked s1)"
proof -
  have s: "session D fs s (load_lines f) = (s1, load_lines f1)" by (rule logged_session_lines [OF assms(5)])
  have "booked (restore_applied (load_lines f1) ome_new) = booked s1"
    using session_replays [OF assms(1-4), of D] by (simp add: s)
  moreover have "booked ome_new = Map.empty" "wired D Map.empty = Map.empty"
    by (simp_all add: fun_eq_iff booked_def wired_def ome_new_def)
  ultimately show ?thesis
    using wired_replay [OF assms(6), of Map.empty] by (simp add: booked_restore applied_log_load_def)
qed

theorem ome_journal_replays_witness:
  "booked (restore_applied (applied_log_load exact_dec (snd (logged_session exact_dec
      [(sample_fill 4, 130), (sample_fill 6, 140)] (sample_ome 0) None))) ome_new) =
    wired exact_dec (booked (fst (logged_session exact_dec [(sample_fill 4, 130), (sample_fill 6, 140)] (sample_ome 0) None)))"
proof (rule ome_journal_replays [OF _ _ _ _ surjective_pairing])
  show "booked (restore_applied (load_lines None) ome_new) = booked (sample_ome 0)"
    by (simp add: restore_applied_def load_lines_def lines_of_def List.map_filter_simps booked_empty)
qed (simp_all add: APPLIED_JOURNAL_CAP_def read_applied_def wire_decimal_def)

end
