(* ===== verification/RustText.thy ===== *)
theory RustText
  imports PositionBook Trim
begin

text \<open>
  The text operations of the Rust standard library the configuration code is written with. A
  \<open>string\<close> of the model is the UTF-8 byte sequence of the Rust string: \<open>trim\<close> (\<open>Trim\<close>) removes the
  encodings of white space, the tests for ASCII classes look at a byte below 128, and a character of several
  bytes is its leading byte followed by its continuation bytes.
\<close>

abbreviation trim :: "string \<Rightarrow> string" where
  "trim \<equiv> str_trim"

section \<open>Searching and splitting\<close>

definition has_prefix :: "string \<Rightarrow> string \<Rightarrow> bool" where
  "has_prefix p s \<longleftrightarrow> take (length p) s = p"

definition has_suffix :: "string \<Rightarrow> string \<Rightarrow> bool" where
  "has_suffix p s \<longleftrightarrow> has_prefix (rev p) (rev s)"

definition strip_prefix :: "string \<Rightarrow> string \<Rightarrow> string option" where
  "strip_prefix p s = (if has_prefix p s then Some (drop (length p) s) else None)"

definition strip_suffix :: "string \<Rightarrow> string \<Rightarrow> string option" where
  "strip_suffix p s = (if has_suffix p s then Some (take (length s - length p) s) else None)"

fun find_sub :: "string \<Rightarrow> string \<Rightarrow> nat option" where
  "find_sub p [] = (if p = [] then Some 0 else None)"
| "find_sub p (c # s) = (if has_prefix p (c # s) then Some 0 else map_option Suc (find_sub p s))"

fun split_once :: "char \<Rightarrow> string \<Rightarrow> (string \<times> string) option" where
  "split_once d [] = None"
| "split_once d (c # s) = (if c = d then Some ([], s) else map_option (\<lambda>(a, b). (c # a, b)) (split_once d s))"

fun split_on :: "char \<Rightarrow> string \<Rightarrow> string \<Rightarrow> string list" where
  "split_on d acc [] = [rev acc]"
| "split_on d acc (c # s) = (if c = d then rev acc # split_on d [] s else split_on d (c # acc) s)"

text \<open>\<open>str::lines\<close>: a line ends at a line feed, a carriage return just before it is dropped with it, and
  a last line needs no line feed.\<close>

definition LF :: char where "LF = CHR 0x0A"

fun lines_from :: "string \<Rightarrow> string \<Rightarrow> string list" where
  "lines_from acc [] = (if acc = [] then [] else [rev acc])"
| "lines_from acc (c # s) =
    (if c = LF then (case acc of [] \<Rightarrow> [] | a # acc1 \<Rightarrow> if a = CR then rev acc1 else rev acc) # lines_from [] s
     else lines_from (c # acc) s)"

definition str_lines :: "string \<Rightarrow> string list" where
  "str_lines s = lines_from [] s"

fun str_join :: "string \<Rightarrow> string list \<Rightarrow> string" where
  "str_join d [] = []"
| "str_join d [s] = s"
| "str_join d (s # t # ss) = s @ d @ str_join d (t # ss)"

section \<open>ASCII letters and numerals\<close>

definition ascii_alphabetic :: "char \<Rightarrow> bool" where
  "ascii_alphabetic c \<longleftrightarrow> (let n = of_char c :: nat in 65 \<le> n \<and> n \<le> 90 \<or> 97 \<le> n \<and> n \<le> 122)"

definition ascii_uppercase :: "char \<Rightarrow> char" where
  "ascii_uppercase c = (let n = of_char c :: nat in if 97 \<le> n \<and> n \<le> 122 then char_of (n - 32) else c)"

definition continuation_byte :: "char \<Rightarrow> bool" where
  "continuation_byte c \<longleftrightarrow> (let n = of_char c :: nat in 128 \<le> n \<and> n < 192)"

definition parse_u32 :: "string \<Rightarrow> nat option" where
  "parse_u32 s = (case parse_u64 s of Some n \<Rightarrow> if n < 2 ^ 32 then Some n else None | None \<Rightarrow> None)"

section \<open>Laws\<close>

lemma has_prefix_append [simp]: "has_prefix p (p @ s)"
  by (simp add: has_prefix_def)

lemma has_prefix_Cons [simp]: "has_prefix (a # p) (c # s) \<longleftrightarrow> a = c \<and> has_prefix p s" "has_prefix [] s"
  "\<not> has_prefix (a # p) []"
  by (auto simp: has_prefix_def)

lemma split_once_append: "d \<notin> set a \<Longrightarrow> split_once d (a @ d # b) = Some (a, b)"
  by (induction a) auto

text \<open>What is written line by line is read back line by line; a carriage return at the end of a line
  goes.\<close>

definition chomp :: "string \<Rightarrow> string" where
  "chomp l = (case rev l of [] \<Rightarrow> [] | a # r \<Rightarrow> if a = CR then rev r else l)"

lemma lines_from_line:
  "LF \<notin> set l \<Longrightarrow> lines_from acc (l @ LF # s) = chomp (rev acc @ l) # lines_from [] s"
proof (induction l arbitrary: acc)
  case Nil
  then show ?case by (cases acc) (auto simp: chomp_def)
next
  case (Cons c l)
  then show ?case using Cons.IH [of "c # acc"] by auto
qed

lemma str_lines_line: "LF \<notin> set l \<Longrightarrow> str_lines (l @ LF # s) = chomp l # str_lines s"
  by (simp add: str_lines_def lines_from_line)

lemma str_join_lines: "ls \<noteq> [] \<Longrightarrow> str_join [LF] ls @ [LF] = concat (map (\<lambda>l. l @ [LF]) ls)"
proof (induction ls rule: induct_list012)
  case (3 a b ls)
  then show ?case by simp
qed auto

lemma str_lines_concat: "\<forall>l \<in> set ls. LF \<notin> set l \<Longrightarrow> str_lines (concat (map (\<lambda>l. l @ [LF]) ls)) = map chomp ls"
proof (induction ls)
  case Nil
  then show ?case by (simp add: str_lines_def)
next
  case (Cons l ls)
  then show ?case using str_lines_line [of l "concat (map (\<lambda>l. l @ [LF]) ls)"] by simp
qed

lemma str_lines_join:
  "\<forall>l \<in> set ls. LF \<notin> set l \<Longrightarrow> ls \<noteq> [] \<Longrightarrow> str_lines (str_join [LF] ls @ [LF]) = map chomp ls"
  using str_join_lines [of ls] str_lines_concat [of ls] by simp

lemma str_lines_no_LF: "\<forall>l \<in> set (str_lines s). LF \<notin> set l"
proof -
  have "LF \<notin> set acc \<Longrightarrow> \<forall>l \<in> set (lines_from acc s). LF \<notin> set l" for acc
    by (induction acc s rule: lines_from.induct) (auto split: list.splits if_splits simp: LF_def)
  from this [of "[]"] show ?thesis by (simp add: str_lines_def)
qed

lemma trim_chomp: "trim (chomp l) = trim l"
  by (cases l rule: rev_cases) (auto simp: chomp_def trim_CR)

text \<open>A printed number is read back.\<close>

lemma nat_str_digit: "\<exists>d r. d < 10 \<and> nat_str n = digit_char d # r"
proof (induction n rule: nat_str.induct)
  case (1 n)
  then show ?case by (cases "n < 10") (auto simp: nat_str.simps [of n])
qed

lemma nat_str_chars: "c \<in> set (nat_str n) \<Longrightarrow> \<exists>d<10. c = digit_char d"
proof (induction n rule: nat_str.induct)
  case (1 n)
  note IH = 1(1)
  show ?case
  proof (cases "n < 10")
    case True
    then show ?thesis using 1(2) by (auto simp: nat_str.simps [of n])
  next
    case False
    then consider "c \<in> set (nat_str (n div 10))" | "c = digit_char (n mod 10)"
      using 1(2) by (auto simp: nat_str.simps [of n])
    then show ?thesis
    proof cases
      case 1
      then show ?thesis using False IH by blast
    next
      case 2
      then show ?thesis by (intro exI [of _ "n mod 10"]) simp
    qed
  qed
qed

lemma digit_char_visible: "d < 10 \<Longrightarrow> visible (digit_char d) \<and> digit_char d \<notin> {CHR ''+'', CHR 0x22, CHR 0x27, LF}"
proof -
  have "\<forall>c \<in> set ''0123456789''. visible c \<and> c \<notin> {CHR ''+'', CHR 0x22, CHR 0x27, LF}"
    by code_simp
  moreover have "d < 10 \<Longrightarrow> digit_char d \<in> set ''0123456789''"
    unfolding digit_char_def by (rule nth_mem) simp
  ultimately show "d < 10 \<Longrightarrow> ?thesis" by blast
qed

lemma nat_str_plain: "c \<in> set (nat_str n) \<Longrightarrow> visible c \<and> c \<notin> {CHR ''+'', CHR 0x22, CHR 0x27, LF}"
  using nat_str_chars [of c n] digit_char_visible by metis

lemma nat_str_nonempty [simp]: "nat_str n \<noteq> []"
  using nat_str_digit [of n] by auto

lemma trim_nat_str [simp]: "trim (nat_str n) = nat_str n"
  by (intro trim_visible conjunct1 [OF nat_str_plain [of _ n]]) simp_all

lemma parse_u32_nat_str: "n < 2 ^ 32 \<Longrightarrow> parse_u32 (nat_str n) = Some n"
proof -
  assume n: "n < 2 ^ 32"
  obtain d r where d: "d < 10" "nat_str n = digit_char d # r" using nat_str_digit by blast
  have "digits_value 0 (nat_str n) = Some n" using n by (intro digits_value_nat_str) simp
  then show ?thesis using n d digit_char_visible [of d] by (simp add: parse_u32_def parse_u64_def)
qed

end
