(* ===== verification/Policy.thy ===== *)
theory Policy
  imports RustText
begin

text \<open>
  The execution policy of an account, \<open>core/blitzkrieg_core/src/execution_policy/\<close> (\<open>mod.rs\<close>,
  \<open>rules.rs\<close>): the rule vocabulary, the verdict on one candidate order, the layering of a section out
  of defaults, file and environment, and the two spellings of a condition.

  The text formats are arguments: \<open>policy_io\<close> holds what \<open>Decimal::from_str_exact\<close> reads, what
  \<open>serde_json\<close> reads and writes of a list of rules, and what a policy file is after its TOML text has
  been written and read back. A TOML text is given as the \<open>policy_file\<close> it parses to, or \<open>None\<close>.
  Accounts are listed in the order their map is iterated.
\<close>

section \<open>Results with an error\<close>

definition and_then :: "'e + 'a \<Rightarrow> ('a \<Rightarrow> 'e + 'b) \<Rightarrow> 'e + 'b" where
  "and_then r f = (case r of Inl e \<Rightarrow> Inl e | Inr a \<Rightarrow> f a)"

lemma and_then_simps [simp]: "and_then (Inl e) f = Inl e" "and_then (Inr a) f = f a"
  by (simp_all add: and_then_def)

lemma and_then_Inr: "and_then r f = Inr b \<longleftrightarrow> (\<exists>a. r = Inr a \<and> f a = Inr b)"
  by (cases r) auto

fun fold_try :: "('x \<Rightarrow> 'a \<Rightarrow> 'e + 'a) \<Rightarrow> 'x list \<Rightarrow> 'a \<Rightarrow> 'e + 'a" where
  "fold_try f [] a = Inr a"
| "fold_try f (x # xs) a = and_then (f x a) (fold_try f xs)"

section \<open>Conditions\<close>

datatype condition_field =
  AvailableBalance | TotalEquity | OpenPositions | CurrentPrice | TimeLeftSec | FSymbol | RecentPnl1h
| ConsecutiveLosses

datatype compare_op = OpLt | OpLe | OpGt | OpGe | OpEq | OpNe | OpIn

datatype condition_value = CvNum decimal | CvText string | CvTextList "string list"

record when_cond =
  w_field :: condition_field
  w_op :: compare_op
  w_value :: condition_value

text \<open>\<open>PolicyInput\<close>: what a condition can ask about.\<close>

record policy_input =
  pi_available_balance :: decimal
  pi_total_equity :: decimal
  pi_open_positions :: nat
  pi_current_price :: decimal
  pi_time_left_sec :: int
  pi_symbol :: string
  pi_recent_pnl_1h :: decimal
  pi_consecutive_losses :: nat

definition policy_input_zero :: policy_input where
  "policy_input_zero = \<lparr>pi_available_balance = 0, pi_total_equity = 0, pi_open_positions = 0, pi_current_price = 0,
     pi_time_left_sec = 0, pi_symbol = [], pi_recent_pnl_1h = 0, pi_consecutive_losses = 0\<rparr>"

definition numeric_value :: "condition_field \<Rightarrow> policy_input \<Rightarrow> decimal option" where
  "numeric_value f input = (case f of
     AvailableBalance \<Rightarrow> Some (pi_available_balance input)
   | TotalEquity \<Rightarrow> Some (pi_total_equity input)
   | OpenPositions \<Rightarrow> Some (of_nat (pi_open_positions input))
   | CurrentPrice \<Rightarrow> Some (pi_current_price input)
   | TimeLeftSec \<Rightarrow> Some (of_int (pi_time_left_sec input))
   | RecentPnl1h \<Rightarrow> Some (pi_recent_pnl_1h input)
   | ConsecutiveLosses \<Rightarrow> Some (of_nat (pi_consecutive_losses input))
   | FSymbol \<Rightarrow> None)"

definition field_name :: "condition_field \<Rightarrow> string" where
  "field_name f = (case f of
     AvailableBalance \<Rightarrow> ''available_balance'' | TotalEquity \<Rightarrow> ''total_equity''
   | OpenPositions \<Rightarrow> ''open_positions'' | CurrentPrice \<Rightarrow> ''current_price''
   | TimeLeftSec \<Rightarrow> ''time_left_sec'' | FSymbol \<Rightarrow> ''symbol''
   | RecentPnl1h \<Rightarrow> ''recent_pnl_1h'' | ConsecutiveLosses \<Rightarrow> ''consecutive_losses'')"

definition op_symbol :: "compare_op \<Rightarrow> string" where
  "op_symbol p = (case p of OpLt \<Rightarrow> ''<'' | OpLe \<Rightarrow> ''<='' | OpGt \<Rightarrow> ''>'' | OpGe \<Rightarrow> ''>='' | OpEq \<Rightarrow> ''==''
   | OpNe \<Rightarrow> ''!='' | OpIn \<Rightarrow> ''in'')"

text \<open>\<open>When::holds\<close>.\<close>

definition compares :: "compare_op \<Rightarrow> decimal \<Rightarrow> decimal \<Rightarrow> bool" where
  "compares p v n = (case p of OpLt \<Rightarrow> v < n | OpLe \<Rightarrow> v \<le> n | OpGt \<Rightarrow> v > n | OpGe \<Rightarrow> v \<ge> n | OpEq \<Rightarrow> v = n
   | OpNe \<Rightarrow> v \<noteq> n | OpIn \<Rightarrow> False)"

definition when_holds :: "when_cond \<Rightarrow> policy_input \<Rightarrow> bool" where
  "when_holds w input =
    (if w_field w = FSymbol then
       (case w_value w of
          CvText t \<Rightarrow> (case w_op w of OpEq \<Rightarrow> pi_symbol input = t | OpNe \<Rightarrow> pi_symbol input \<noteq> t | _ \<Rightarrow> False)
        | CvTextList ts \<Rightarrow> (case w_op w of OpIn \<Rightarrow> pi_symbol input \<in> set ts | _ \<Rightarrow> False)
        | CvNum _ \<Rightarrow> False)
     else (case w_value w of
          CvNum n \<Rightarrow> (case numeric_value (w_field w) input of None \<Rightarrow> False | Some v \<Rightarrow> compares (w_op w) v n)
        | _ \<Rightarrow> False))"

section \<open>Rules, sections, policies\<close>

datatype skip_action = Skip

record policy_action =
  act_action :: "skip_action option"
  act_budget_ratio :: "decimal option"
  act_min_budget_usd :: "decimal option"
  act_max_budget_usd :: "decimal option"
  act_cooldown_sec :: "int option"

record policy_rule =
  r_name :: string
  r_priority :: nat
  r_enabled :: bool
  r_when :: when_cond
  r_then :: policy_action
  r_reason :: "string option"

text \<open>\<open>SectionFields\<close> and \<open>DefaultsSection\<close> have the same fields; so do the two readings of
  \<open>SectionLike\<close>.\<close>

record section_fields =
  sf_budget_ratio :: "decimal option"
  sf_min_budget_usd :: "decimal option"
  sf_max_budget_usd :: "decimal option"
  sf_min_equity_usd :: "decimal option"
  sf_max_positions_per_asset :: "nat option"
  sf_rules :: "policy_rule list option"

definition no_fields :: section_fields where
  "no_fields = \<lparr>sf_budget_ratio = None, sf_min_budget_usd = None, sf_max_budget_usd = None, sf_min_equity_usd = None,
     sf_max_positions_per_asset = None, sf_rules = None\<rparr>"

record policy_file =
  pf_version :: nat
  pf_defaults :: section_fields
  pf_accounts :: "(string \<times> section_fields) list"

definition POLICY_VERSION :: nat where
  "POLICY_VERSION = 1"

definition policy_file_default :: policy_file where
  "policy_file_default = \<lparr>pf_version = POLICY_VERSION, pf_defaults = no_fields, pf_accounts = []\<rparr>"

record section_defaults =
  sd_budget_ratio :: decimal
  sd_min_budget_usd :: decimal
  sd_max_budget_usd :: decimal
  sd_min_equity_usd :: decimal
  sd_max_positions_per_asset :: nat
  sd_rules :: "policy_rule list"

definition code_defaults :: section_defaults where
  "code_defaults = \<lparr>sd_budget_ratio = 1, sd_min_budget_usd = 0, sd_max_budget_usd = 1000000000, sd_min_equity_usd = 0,
     sd_max_positions_per_asset = 1, sd_rules = []\<rparr>"

record policy =
  po_defaults :: section_defaults
  po_accounts :: "(string \<times> section_defaults) list"

definition policy_default :: policy where
  "policy_default = \<lparr>po_defaults = code_defaults, po_accounts = []\<rparr>"

definition section_for :: "policy \<Rightarrow> string \<Rightarrow> section_defaults" where
  "section_for p account = (case map_of (po_accounts p) account of Some s \<Rightarrow> s | None \<Rightarrow> po_defaults p)"

definition policy_max_positions_per_asset :: "policy \<Rightarrow> string \<Rightarrow> nat" where
  "policy_max_positions_per_asset p account = sd_max_positions_per_asset (section_for p account)"

section \<open>Verdicts and errors\<close>

text \<open>One constructor per message the module formats, with the values it prints.\<close>

datatype policy_error =
  NoAccountId
| BadCooldown string int
| RatioOutside string decimal
| BudgetFloors string
| CeilingBelowFloor string decimal decimal
| NegativeFloor string decimal
| CeilingNotPositive string decimal
| NegativeEquity string decimal
| ZeroPositions string
| WhenIsText condition_field
| WhenIsNumber condition_field
| RuleWhen string string policy_error
| ActionCount string nat
| In string policy_error
| TomlDoesNotParse
| VersionUnsupported nat
| EnvNotDecimal string string
| EnvNotU32 string string
| EnvNotRules string string
| NoOperator string
| UnknownField string
| EmptyList string
| BadValue string
| TableRefused

datatype policy_output = PPlace decimal decimal decimal decimal | PSkip message | PCooldown int

section \<open>The verdict\<close>

record scoped_defaults =
  sc_budget_ratio :: decimal
  sc_min_budget_usd :: decimal
  sc_max_budget_usd :: decimal

definition scoped_validate :: "string \<Rightarrow> scoped_defaults \<Rightarrow> policy_error + unit" where
  "scoped_validate label s =
    (if sc_budget_ratio s \<le> 0 \<or> sc_budget_ratio s > 1 then Inl (RatioOutside label (sc_budget_ratio s))
     else if sc_min_budget_usd s < 0 \<or> sc_max_budget_usd s \<le> 0 then Inl (BudgetFloors label)
     else if sc_max_budget_usd s < sc_min_budget_usd s then
       Inl (CeilingBelowFloor label (sc_max_budget_usd s) (sc_min_budget_usd s))
     else Inr ())"

definition section_budget :: "section_defaults \<Rightarrow> scoped_defaults" where
  "section_budget s = \<lparr>sc_budget_ratio = sd_budget_ratio s, sc_min_budget_usd = sd_min_budget_usd s,
     sc_max_budget_usd = sd_max_budget_usd s\<rparr>"

definition place_budget :: "scoped_defaults \<Rightarrow> policy_input \<Rightarrow> policy_output" where
  "place_budget s input =
    (let raw = pi_available_balance input * sc_budget_ratio s;
         floored = max raw (sc_min_budget_usd s);
         budget = min floored (sc_max_budget_usd s)
     in PPlace budget (sc_budget_ratio s) (sc_min_budget_usd s) (sc_max_budget_usd s))"

definition scoped_by :: "policy_action \<Rightarrow> section_defaults \<Rightarrow> scoped_defaults" where
  "scoped_by a s =
    \<lparr>sc_budget_ratio = (case act_budget_ratio a of None \<Rightarrow> sd_budget_ratio s | Some v \<Rightarrow> v),
     sc_min_budget_usd = (case act_min_budget_usd a of None \<Rightarrow> sd_min_budget_usd s | Some v \<Rightarrow> v),
     sc_max_budget_usd =
       (case act_max_budget_usd a of None \<Rightarrow> sd_max_budget_usd s | Some v \<Rightarrow> min v (sd_max_budget_usd s))\<rparr>"

definition apply_rule :: "policy_rule \<Rightarrow> section_defaults \<Rightarrow> policy_input \<Rightarrow> policy_error + policy_output" where
  "apply_rule r s input =
    (let a = r_then r in
     if act_action a = Some Skip then
       Inr (PSkip (case r_reason r of Some t \<Rightarrow> [Txt t] | None \<Rightarrow> [Txt ''rule `'', Txt (r_name r), Txt ''`: skip'']))
     else case act_cooldown_sec a of
       Some sec \<Rightarrow> if sec \<le> 0 then Inl (BadCooldown (r_name r) sec) else Inr (PCooldown sec)
     | None \<Rightarrow> and_then (scoped_validate (r_name r) (scoped_by a s)) (\<lambda>_. Inr (place_budget (scoped_by a s) input)))"

definition winning_rule :: "section_defaults \<Rightarrow> policy_input \<Rightarrow> policy_rule option" where
  "winning_rule s input = find (\<lambda>r. when_holds (r_when r) input) (sort_key r_priority (filter r_enabled (sd_rules s)))"

definition below_equity_floor :: "policy_input \<Rightarrow> section_defaults \<Rightarrow> message" where
  "below_equity_floor input s = [Txt ''equity '', Dec (pi_total_equity input), Txt '' below min_equity_usd '',
     Dec (sd_min_equity_usd s)]"

definition policy_evaluate :: "policy \<Rightarrow> string \<Rightarrow> policy_input \<Rightarrow> policy_error + policy_output" where
  "policy_evaluate p account input =
    (if trim account = [] then Inl NoAccountId
     else let s = section_for p account in
       if pi_total_equity input < sd_min_equity_usd s then Inr (PSkip (below_equity_floor input s))
       else case winning_rule s input of
         Some r \<Rightarrow> apply_rule r s input
       | None \<Rightarrow> Inr (place_budget (section_budget s) input))"

section \<open>Validation\<close>

definition validate_when :: "when_cond \<Rightarrow> policy_error + unit" where
  "validate_when w =
    (let numeric = numeric_value (w_field w) policy_input_zero \<noteq> None
     in case w_value w of
       CvNum _ \<Rightarrow> if numeric then Inr () else Inl (WhenIsText (w_field w))
     | _ \<Rightarrow> if numeric then Inl (WhenIsNumber (w_field w)) else Inr ())"

definition action_validate :: "policy_action \<Rightarrow> string \<Rightarrow> policy_error + unit" where
  "action_validate a name =
    (let n = length (filter id [act_action a \<noteq> None, act_budget_ratio a \<noteq> None, act_min_budget_usd a \<noteq> None,
               act_max_budget_usd a \<noteq> None, act_cooldown_sec a \<noteq> None])
     in if n \<noteq> 1 then Inl (ActionCount name n) else Inr ())"

definition map_error :: "('e \<Rightarrow> 'f) \<Rightarrow> 'e + 'a \<Rightarrow> 'f + 'a" where
  "map_error f r = (case r of Inl e \<Rightarrow> Inl (f e) | Inr a \<Rightarrow> Inr a)"

definition validate_rule_when :: "string \<Rightarrow> policy_rule \<Rightarrow> unit \<Rightarrow> policy_error + unit" where
  "validate_rule_when label r u = map_error (RuleWhen label (r_name r)) (validate_when (r_when r))"

definition section_validate :: "string \<Rightarrow> section_defaults \<Rightarrow> policy_error + unit" where
  "section_validate label s =
    (if sd_budget_ratio s \<le> 0 \<or> sd_budget_ratio s > 1 then Inl (RatioOutside label (sd_budget_ratio s))
     else if sd_min_budget_usd s < 0 then Inl (NegativeFloor label (sd_min_budget_usd s))
     else if sd_max_budget_usd s \<le> 0 then Inl (CeilingNotPositive label (sd_max_budget_usd s))
     else if sd_max_budget_usd s < sd_min_budget_usd s then
       Inl (CeilingBelowFloor label (sd_max_budget_usd s) (sd_min_budget_usd s))
     else if sd_min_equity_usd s < 0 then Inl (NegativeEquity label (sd_min_equity_usd s))
     else if sd_max_positions_per_asset s = 0 then Inl (ZeroPositions label)
     else fold_try (validate_rule_when label) (sd_rules s) ())"

section \<open>Layers\<close>

definition validate_then :: "string \<Rightarrow> policy_rule \<Rightarrow> unit \<Rightarrow> policy_error + unit" where
  "validate_then label r u = map_error (In label) (action_validate (r_then r) (r_name r))"

definition over :: "'a option \<Rightarrow> 'a \<Rightarrow> 'a" where
  "over v old = (case v of Some x \<Rightarrow> x | None \<Rightarrow> old)"

definition layer_section :: "section_defaults \<Rightarrow> section_fields \<Rightarrow> string \<Rightarrow> policy_error + section_defaults" where
  "layer_section into from label =
    (let s = into\<lparr>sd_budget_ratio := over (sf_budget_ratio from) (sd_budget_ratio into),
                  sd_min_budget_usd := over (sf_min_budget_usd from) (sd_min_budget_usd into),
                  sd_max_budget_usd := over (sf_max_budget_usd from) (sd_max_budget_usd into),
                  sd_min_equity_usd := over (sf_min_equity_usd from) (sd_min_equity_usd into),
                  sd_max_positions_per_asset := over (sf_max_positions_per_asset from) (sd_max_positions_per_asset into)\<rparr>
     in case sf_rules from of
          None \<Rightarrow> Inr s
        | Some rules \<Rightarrow> and_then (fold_try (validate_then label) rules ()) (\<lambda>_. Inr (s\<lparr>sd_rules := rules\<rparr>)))"

record policy_io =
  dec_parse :: "string \<Rightarrow> decimal option"
  rules_parse :: "string \<Rightarrow> policy_rule list option"
  rules_render :: "policy_rule list \<Rightarrow> string option"
  toml_reread :: "policy_file \<Rightarrow> policy_file option"

text \<open>\<open>env_account_suffix\<close>: every character that is not an ASCII letter or digit is one underscore.\<close>

definition env_account_suffix :: "string \<Rightarrow> string" where
  "env_account_suffix i = map (\<lambda>c. ascii_uppercase (if alnum_byte c then c else CHR ''_''))
     (filter (\<lambda>c. \<not> continuation_byte c) i)"

definition env_decimal :: "policy_io \<Rightarrow> string \<Rightarrow> string option \<Rightarrow> decimal \<Rightarrow> policy_error + decimal" where
  "env_decimal io key raw old = (case raw of None \<Rightarrow> Inr old
   | Some t \<Rightarrow> (case dec_parse io (trim t) of Some v \<Rightarrow> Inr v | None \<Rightarrow> Inl (EnvNotDecimal key t)))"

definition env_u32 :: "string \<Rightarrow> string option \<Rightarrow> nat \<Rightarrow> policy_error + nat" where
  "env_u32 key raw old = (case raw of None \<Rightarrow> Inr old
   | Some t \<Rightarrow> (case parse_u32 (trim t) of Some v \<Rightarrow> Inr v | None \<Rightarrow> Inl (EnvNotU32 key t)))"

definition env_rules :: "policy_io \<Rightarrow> string \<Rightarrow> string option \<Rightarrow> policy_rule list \<Rightarrow> policy_error + policy_rule list" where
  "env_rules io key raw old = (case raw of None \<Rightarrow> Inr old
   | Some t \<Rightarrow> (case rules_parse io (trim t) of
       None \<Rightarrow> Inl (EnvNotRules key t)
     | Some rules \<Rightarrow> and_then (fold_try (validate_then key) rules ()) (\<lambda>_. Inr rules)))"

definition or_alias :: "'a option \<Rightarrow> 'a option \<Rightarrow> 'a option" where
  "or_alias a b = (case a of None \<Rightarrow> b | Some x \<Rightarrow> Some x)"

definition account_suffix :: "string option \<Rightarrow> string" where
  "account_suffix account = (case account of None \<Rightarrow> [] | Some i \<Rightarrow> ''_'' @ env_account_suffix i)"

definition apply_env ::
  "policy_io \<Rightarrow> string option \<Rightarrow> (string \<Rightarrow> string option) \<Rightarrow> section_defaults \<Rightarrow> policy_error + section_defaults" where
  "apply_env io account env s =
    (let x = account_suffix account in
     and_then (env_decimal io (''POLICY_BUDGET_RATIO'' @ x)
         (or_alias (env (''POLICY_BUDGET_RATIO'' @ x)) (env (''BUDGET_RATIO'' @ x))) (sd_budget_ratio s)) (\<lambda>ratio.
     and_then (env_decimal io (''POLICY_MIN_BUDGET_USD'' @ x) (env (''POLICY_MIN_BUDGET_USD'' @ x))
         (sd_min_budget_usd s)) (\<lambda>min_usd.
     and_then (env_decimal io (''POLICY_MAX_BUDGET_USD'' @ x)
         (or_alias (env (''POLICY_MAX_BUDGET_USD'' @ x)) (env (''MAX_BUDGET_USD'' @ x))) (sd_max_budget_usd s)) (\<lambda>max_usd.
     and_then (env_decimal io (''POLICY_MIN_EQUITY_USD'' @ x) (env (''POLICY_MIN_EQUITY_USD'' @ x))
         (sd_min_equity_usd s)) (\<lambda>equity.
     and_then (env_u32 (''POLICY_MAX_POSITIONS_PER_ASSET'' @ x) (env (''POLICY_MAX_POSITIONS_PER_ASSET'' @ x))
         (sd_max_positions_per_asset s)) (\<lambda>cap.
     and_then (env_rules io (''POLICY_RULES'' @ x) (env (''POLICY_RULES'' @ x)) (sd_rules s)) (\<lambda>rules.
     Inr (s\<lparr>sd_budget_ratio := ratio, sd_min_budget_usd := min_usd, sd_max_budget_usd := max_usd,
            sd_min_equity_usd := equity, sd_max_positions_per_asset := cap, sd_rules := rules\<rparr>))))))))"

definition section_tails :: "string list" where
  "section_tails = [''BUDGET_RATIO'', ''MIN_BUDGET_USD'', ''MAX_BUDGET_USD'', ''MIN_EQUITY_USD'',
     ''MAX_POSITIONS_PER_ASSET'', ''RULES'']"

definition section_key :: "string \<Rightarrow> string \<Rightarrow> string" where
  "section_key account tail = ''POLICY_'' @ tail @ ''_'' @ env_account_suffix account"

definition env_has_policy_section :: "(string \<Rightarrow> string option) \<Rightarrow> string \<Rightarrow> bool" where
  "env_has_policy_section env i \<longleftrightarrow> list_ex (\<lambda>t. env (section_key i t) \<noteq> None) section_tails"

section \<open>Loading\<close>

definition load_file_account ::
  "policy_io \<Rightarrow> (string \<Rightarrow> string option) \<Rightarrow> section_defaults \<Rightarrow> string \<times> section_fields
     \<Rightarrow> (string \<times> section_defaults) list \<Rightarrow> policy_error + (string \<times> section_defaults) list" where
  "load_file_account io env defaults e accounts =
    (let (i, fields) = e; label = ''[accounts.'' @ i @ '']'' in
     and_then (layer_section defaults fields label) (\<lambda>s.
     and_then (apply_env io (Some i) env s) (\<lambda>s1.
     and_then (section_validate label s1) (\<lambda>_. Inr (AList.update i s1 accounts)))))"

definition load_env_account ::
  "policy_io \<Rightarrow> (string \<Rightarrow> string option) \<Rightarrow> section_defaults \<Rightarrow> string
     \<Rightarrow> (string \<times> section_defaults) list \<Rightarrow> policy_error + (string \<times> section_defaults) list" where
  "load_env_account io env defaults i accounts =
    (if map_of accounts i \<noteq> None \<or> \<not> env_has_policy_section env i then Inr accounts
     else and_then (apply_env io (Some i) env defaults) (\<lambda>s.
       and_then (section_validate (''[accounts.'' @ i @ ''] (env)'') s) (\<lambda>_. Inr (AList.update i s accounts))))"

definition account_list_of :: "(string \<Rightarrow> string option) \<Rightarrow> string list" where
  "account_list_of env = (case env ''ACCOUNT_LIST'' of None \<Rightarrow> []
   | Some l \<Rightarrow> filter (\<lambda>i. i \<noteq> []) (map trim (split_on (CHR '','') [] l)))"

definition load_with_env ::
  "policy_io \<Rightarrow> policy_file option \<Rightarrow> (string \<Rightarrow> string option) \<Rightarrow> policy_error + policy" where
  "load_with_env io parsed env = (case parsed of
     None \<Rightarrow> Inl TomlDoesNotParse
   | Some file \<Rightarrow>
     if pf_version file \<noteq> POLICY_VERSION then Inl (VersionUnsupported (pf_version file))
     else and_then (layer_section code_defaults (pf_defaults file) ''[defaults]'') (\<lambda>d.
       and_then (apply_env io None env d) (\<lambda>defaults.
       and_then (section_validate ''[defaults]'' defaults) (\<lambda>_.
       and_then (fold_try (load_file_account io env defaults) (pf_accounts file) []) (\<lambda>accounts.
       and_then (fold_try (load_env_account io env defaults) (account_list_of env) accounts) (\<lambda>accounts1.
       Inr \<lparr>po_defaults = defaults, po_accounts = accounts1\<rparr>))))))"

section \<open>The two spellings of a condition\<close>

definition trim_quotes :: "string \<Rightarrow> string" where
  "trim_quotes s = (let q = (\<lambda>c. c = CHR 0x22 \<or> c = CHR 0x27) in rev (dropWhile q (rev (dropWhile q s))))"

definition quoted_by :: "char \<Rightarrow> string \<Rightarrow> bool" where
  "quoted_by q s \<longleftrightarrow> has_prefix [q] s \<and> has_suffix [q] s \<and> length s \<ge> 2"

definition parse_condition_value :: "policy_io \<Rightarrow> string \<Rightarrow> policy_error + condition_value" where
  "parse_condition_value io t0 =
    (let t = trim t0 in
     case Option.bind (strip_prefix ''['' t) (strip_suffix '']'') of
       Some inner \<Rightarrow>
         (let items = filter (\<lambda>i. i \<noteq> []) (map (\<lambda>i. trim_quotes (trim i)) (split_on (CHR '','') [] inner))
          in if items = [] then Inl (EmptyList t) else Inr (CvTextList items))
     | None \<Rightarrow>
         if quoted_by (CHR 0x22) t \<or> quoted_by (CHR 0x27) t then Inr (CvText (take (length t - 2) (drop 1 t)))
         else (case dec_parse io t of Some d \<Rightarrow> Inr (CvNum d) | None \<Rightarrow> Inl (BadValue t)))"

definition field_named :: "string \<Rightarrow> condition_field option" where
  "field_named n = map_of
    [(''available_balance'', AvailableBalance), (''total_equity'', TotalEquity), (''open_positions'', OpenPositions),
     (''current_price'', CurrentPrice), (''time_left_sec'', TimeLeftSec), (''symbol'', FSymbol),
     (''recent_pnl_1h'', RecentPnl1h), (''consecutive_losses'', ConsecutiveLosses)] n"

definition build_when :: "policy_io \<Rightarrow> string \<Rightarrow> nat \<Rightarrow> nat \<Rightarrow> compare_op \<Rightarrow> policy_error + when_cond" where
  "build_when io t op_start op_len p =
    (let name = trim (take op_start t); rest = trim (drop (op_start + op_len) t) in
     case field_named name of
       None \<Rightarrow> Inl (UnknownField name)
     | Some f \<Rightarrow> and_then (parse_condition_value io rest) (\<lambda>v.
         let w = \<lparr>w_field = f, w_op = p, w_value = v\<rparr>
         in and_then (validate_when w) (\<lambda>_. Inr w)))"

definition spelled_ops :: "(compare_op \<times> string) list" where
  "spelled_ops = [(OpGe, ''>=''), (OpLe, ''<=''), (OpNe, ''!=''), (OpEq, ''==''), (OpLt, ''<''), (OpGt, ''>'')]"

fun first_spelled :: "(compare_op \<times> string) list \<Rightarrow> string \<Rightarrow> (nat \<times> compare_op \<times> string) option" where
  "first_spelled [] t = None"
| "first_spelled ((p, s) # ps) t = (case find_sub s t of Some i \<Rightarrow> Some (i, p, s) | None \<Rightarrow> first_spelled ps t)"

definition parse_when :: "policy_io \<Rightarrow> string \<Rightarrow> policy_error + when_cond" where
  "parse_when io t0 =
    (let t = trim t0 in
     case first_spelled spelled_ops t of
       Some (i, p, s) \<Rightarrow> build_when io t i (length s) p
     | None \<Rightarrow> (case find_sub '' in '' t of
         Some i \<Rightarrow> build_when io t (i + 1) 2 OpIn
       | None \<Rightarrow> Inl (NoOperator t)))"

text \<open>The table spelling. The derived reader names the fields by the rule of
  \<open>rename_all = "snake_case"\<close>: an underscore before every capital letter, and nothing else. The
  reader of the operator takes the symbols, one spelling more for equality, and the snake case names.\<close>

definition serde_field_name :: "condition_field \<Rightarrow> string" where
  "serde_field_name f = (case f of
     AvailableBalance \<Rightarrow> ''available_balance'' | TotalEquity \<Rightarrow> ''total_equity''
   | OpenPositions \<Rightarrow> ''open_positions'' | CurrentPrice \<Rightarrow> ''current_price''
   | TimeLeftSec \<Rightarrow> ''time_left_sec'' | FSymbol \<Rightarrow> ''symbol''
   | RecentPnl1h \<Rightarrow> ''recent_pnl1h'' | ConsecutiveLosses \<Rightarrow> ''consecutive_losses'')"

definition serde_field :: "string \<Rightarrow> condition_field option" where
  "serde_field n = find (\<lambda>f. serde_field_name f = n)
     [AvailableBalance, TotalEquity, OpenPositions, CurrentPrice, TimeLeftSec, FSymbol, RecentPnl1h, ConsecutiveLosses]"

definition read_op :: "string \<Rightarrow> compare_op option" where
  "read_op s = map_of
    [(''<'', OpLt), (''<='', OpLe), (''>'', OpGt), (''>='', OpGe), (''=='', OpEq), (''='', OpEq), (''!='', OpNe), (''in'', OpIn),
     (''lt'', OpLt), (''le'', OpLe), (''gt'', OpGt), (''ge'', OpGe), (''eq'', OpEq), (''ne'', OpNe)] s"

datatype when_source = WhenString string | WhenTable string string condition_value

definition read_when :: "policy_io \<Rightarrow> when_source \<Rightarrow> policy_error + when_cond" where
  "read_when io src = (case src of
     WhenString t \<Rightarrow> parse_when io t
   | WhenTable f p v \<Rightarrow> (case (serde_field f, read_op p) of
       (Some field, Some oper) \<Rightarrow> Inr \<lparr>w_field = field, w_op = oper, w_value = v\<rparr>
     | _ \<Rightarrow> Inl TableRefused))"

end
