(* ===== verification/EnvFile.thy ===== *)
theory EnvFile
  imports RustText
begin

text \<open>
  The \<open>.env\<close> file the kernel keeps its configuration in, \<open>core/blitzkrieg_core/src/env_file.rs\<close>: how a
  line is read and written, and the two operations that change the file. \<open>env_text\<close> is what
  \<open>read_to_string\<close> meets at the path. A write replaces the whole file through a temporary one; the
  flag \<open>ok\<close> is the answer of the file system.
\<close>

section \<open>Lines\<close>

definition key_start :: "char \<Rightarrow> bool" where
  "key_start c \<longleftrightarrow> ascii_alphabetic c \<or> c = CHR ''_''"

definition key_char :: "char \<Rightarrow> bool" where
  "key_char c \<longleftrightarrow> alnum_byte c \<or> c = CHR ''_''"

definition key_shape :: "string \<Rightarrow> bool" where
  "key_shape k \<longleftrightarrow> k \<noteq> [] \<and> key_start (hd k) \<and> list_all key_char k"

text \<open>The text after an optional \<open>export\<close> and one blank.\<close>

definition unexported :: "string \<Rightarrow> string" where
  "unexported l = trim_start (case strip_prefix ''export '' (trim l) of Some t \<Rightarrow> t | None \<Rightarrow> trim l)"

definition line_key :: "string \<Rightarrow> string option" where
  "line_key l =
    (if trim l = [] \<or> has_prefix ''#'' (trim l) then None
     else case split_once (CHR ''='') (unexported l) of
       None \<Rightarrow> None
     | Some (k, _) \<Rightarrow> if key_shape (trim k) then Some (trim k) else None)"

definition wrapped_in :: "char \<Rightarrow> string \<Rightarrow> bool" where
  "wrapped_in q v \<longleftrightarrow> has_prefix [q] v \<and> has_suffix [q] v"

definition unquoted :: "string \<Rightarrow> string" where
  "unquoted v = (if length v \<ge> 2 \<and> (wrapped_in (CHR 0x22) v \<or> wrapped_in (CHR 0x27) v)
     then take (length v - 2) (drop 1 v) else v)"

definition parse_line :: "string \<Rightarrow> (string \<times> string) option" where
  "parse_line l = (case line_key l of
     None \<Rightarrow> None
   | Some k \<Rightarrow> Some (k, unquoted (case split_once (CHR ''='') (unexported l) of Some (_, v) \<Rightarrow> trim v | None \<Rightarrow> [])))"

datatype env_error = QuoteClash string | EnvWriteFailed

definition render_line :: "string \<Rightarrow> string \<Rightarrow> env_error + string" where
  "render_line k v =
    (let dq = CHR 0x22 \<in> set v; sq = CHR 0x27 \<in> set v in
     if dq \<and> sq then Inl (QuoteClash k)
     else let q = (if dq then CHR 0x27 else CHR 0x22) in Inr (k @ ''='' @ [q] @ v @ [q]))"

section \<open>The file\<close>

datatype env_text = EnvAbsent | EnvUnreadable | EnvText string

definition env_lines :: "env_text \<Rightarrow> string list" where
  "env_lines f = (case f of EnvText t \<Rightarrow> str_lines t | _ \<Rightarrow> [])"

definition write_atomic :: "bool \<Rightarrow> string list \<Rightarrow> env_text \<Rightarrow> (env_error + unit) \<times> env_text" where
  "write_atomic ok ls f = (if ok then (Inr (), EnvText (str_join [LF] ls @ [LF])) else (Inl EnvWriteFailed, f))"

definition upsert_line :: "string list \<Rightarrow> string \<Rightarrow> string \<Rightarrow> string list \<Rightarrow> string list" where
  "upsert_line existing k line ls =
    (if k \<in> set existing then map (\<lambda>l. if line_key l = Some k then line else l) ls else ls @ [line])"

fun upsert_lines :: "string list \<Rightarrow> (string \<times> string) list \<Rightarrow> string list \<Rightarrow> env_error + string list" where
  "upsert_lines existing [] ls = Inr ls"
| "upsert_lines existing ((k, v) # vars) ls = (case render_line k v of
     Inl e \<Rightarrow> Inl e
   | Inr line \<Rightarrow> upsert_lines existing vars (upsert_line existing k line ls))"

definition env_file_key_set :: "string list \<Rightarrow> string list" where
  "env_file_key_set ls = List.map_filter line_key ls"

definition upsert_env_vars ::
  "bool \<Rightarrow> (string \<times> string) list \<Rightarrow> env_text \<Rightarrow> (env_error + string list) \<times> env_text" where
  "upsert_env_vars ok vars f =
    (if vars = [] then (Inr [], f)
     else let ls = env_lines f in
       case upsert_lines (env_file_key_set ls) vars ls of
         Inl e \<Rightarrow> (Inl e, f)
       | Inr ls1 \<Rightarrow> (case write_atomic ok ls1 f of
           (Inl e, f1) \<Rightarrow> (Inl e, f1)
         | (Inr _, f1) \<Rightarrow> (Inr (map fst vars), f1)))"

definition managed_by :: "string list \<Rightarrow> string \<Rightarrow> bool" where
  "managed_by keys l \<longleftrightarrow> (case line_key l of Some k \<Rightarrow> k \<in> set keys | None \<Rightarrow> False)"

definition remove_env_vars ::
  "bool \<Rightarrow> string list \<Rightarrow> env_text \<Rightarrow> (env_error + string list) \<times> env_text" where
  "remove_env_vars ok keys f = (case f of
     EnvText t \<Rightarrow>
       (let ls = str_lines t;
            removed = List.map_filter line_key (filter (managed_by keys) ls);
            kept = filter (\<lambda>l. \<not> managed_by keys l) ls
        in if removed = [] then (Inr [], f)
           else case write_atomic ok kept f of
             (Inl e, f1) \<Rightarrow> (Inl e, f1)
           | (Inr _, f1) \<Rightarrow> (Inr removed, f1))
   | _ \<Rightarrow> (Inr [], f))"

text \<open>How the readers collect the file into a map: of two lines with one key the later counts.\<close>

definition collect_lines :: "string list \<Rightarrow> string \<Rightarrow> string option" where
  "collect_lines ls = map_of (rev (List.map_filter parse_line ls))"

definition env_map :: "env_text \<Rightarrow> string \<Rightarrow> string option" where
  "env_map f = collect_lines (env_lines f)"

section \<open>What is written is read\<close>

lemma ascii_facts:
  "\<forall>c. key_char c \<longrightarrow> visible c \<and> c \<noteq> CHR ''='' \<and> c \<noteq> CHR '' '' \<and> c \<noteq> CHR ''#'' \<and> c \<noteq> LF \<and> c \<noteq> CR"
proof (intro allI impI)
  fix c
  assume "key_char c"
  moreover have "c = CHR ''='' \<or> c = CHR '' '' \<or> c = CHR ''#'' \<or> c = LF \<or> c = CR \<Longrightarrow> \<not> key_char c"
    by (auto simp: key_char_def alnum_byte_def LF_def CR_def)
  moreover have "key_char c \<Longrightarrow> visible c"
    by (auto simp: key_char_def alnum_byte_def visible_def Let_def)
  ultimately show "visible c \<and> c \<noteq> CHR ''='' \<and> c \<noteq> CHR '' '' \<and> c \<noteq> CHR ''#'' \<and> c \<noteq> LF \<and> c \<noteq> CR" by blast
qed

lemma key_shapeD:
  assumes "key_shape k"
  shows "k \<noteq> []" "\<And>c. c \<in> set k \<Longrightarrow> key_char c"
  using assms by (auto simp: key_shape_def list_all_iff)

lemma visible_quote [simp]: "visible (CHR 0x22)" "visible (CHR 0x27)"
  by (simp_all add: visible_def)

lemma trim_key: "key_shape k \<Longrightarrow> trim k = k"
  using key_shapeD [of k] ascii_facts by (intro trim_visible) auto

lemma rendered_trim: "key_shape k \<Longrightarrow> visible q \<Longrightarrow> trim (k @ CHR ''='' # q # v @ [q]) = k @ CHR ''='' # q # v @ [q]"
  using key_shapeD [of k] ascii_facts by (intro trim_visible) (auto simp: hd_append)

lemma starts_before: "has_prefix p (k @ d # s) \<Longrightarrow> d \<notin> set p \<Longrightarrow> set p \<subseteq> set k"
proof (induction k arbitrary: p)
  case Nil
  then show ?case by (cases p) auto
next
  case (Cons c k)
  then show ?case by (cases p) auto
qed

lemma strip_export_key: "key_shape k \<Longrightarrow> strip_prefix ''export '' (k @ CHR ''='' # s) = None"
  using starts_before [of "''export ''" k "CHR ''=''" s] key_shapeD(2) [of k "CHR '' ''"] ascii_facts
  by (auto simp: strip_prefix_def)

text \<open>A rendered line reads back as the key and the value it was made of.\<close>

lemma rendered:
  assumes "key_shape k" "render_line k v = Inr line"
  obtains q where "line = k @ CHR ''='' # q # v @ [q]" "q = CHR 0x22 \<or> q = CHR 0x27"
  using assms by (auto simp: render_line_def Let_def split: if_splits)

lemma wrapped_value: "q = CHR 0x22 \<or> q = CHR 0x27 \<Longrightarrow> unquoted (q # v @ [q]) = v"
  by (auto simp: unquoted_def wrapped_in_def has_suffix_def has_prefix_def)

lemma parse_rendered:
  assumes k: "key_shape k" and line: "render_line k v = Inr line"
  shows "line_key line = Some k" "parse_line line = Some (k, v)"
proof -
  obtain q where l: "line = k @ CHR ''='' # q # v @ [q]" and q: "q = CHR 0x22 \<or> q = CHR 0x27"
    using rendered [OF assms] by blast
  have vis: "visible q" using q by auto
  have t: "trim line = line" using rendered_trim [OF k vis] by (simp add: l)
  have hd: "hd line = hd k" "line \<noteq> []" using key_shapeD [OF k] by (auto simp: l hd_append)
  have start: "visible (hd k)" "hd k \<noteq> CHR ''#''" using key_shapeD [OF k] ascii_facts by (auto simp: hd_in_set)
  have u: "unexported line = line"
    using strip_export_key [OF k] start hd trim_start_visible [of line] unfolding unexported_def t
    by (metis l option.simps(4))
  have "CHR ''='' \<notin> set k" using key_shapeD [OF k] ascii_facts by blast
  then have s: "split_once (CHR ''='') (unexported line) = Some (k, q # v @ [q])"
    by (simp only: u) (simp add: l split_once_append)
  have "\<not> has_prefix ''#'' line" using start hd by (cases line) auto
  then show lk: "line_key line = Some k"
    using s hd by (simp add: line_key_def t trim_key k)
  have "trim (q # v @ [q]) = q # v @ [q]" using vis by (intro trim_visible) auto
  then show "parse_line line = Some (k, v)"
    by (simp add: parse_line_def lk s wrapped_value q)
qed

lemma parse_line_key: "line_key l = map_option fst (parse_line l)"
  by (simp add: parse_line_def split: option.splits)

text \<open>The end of a line does not matter to its reading.\<close>

lemma unexported_chomp: "unexported (chomp l) = unexported l"
  unfolding unexported_def trim_chomp ..

lemma parse_chomp: "parse_line (chomp l) = parse_line l"
  unfolding parse_line_def line_key_def unexported_chomp trim_chomp ..

lemma map_filter_chomp: "List.map_filter parse_line (map chomp ls) = List.map_filter parse_line ls"
  by (simp add: map_filter_def parse_chomp comp_def filter_map)

lemma read_written:
  assumes "\<forall>l \<in> set ls. LF \<notin> set l"
  shows "collect_lines (str_lines (str_join [LF] ls @ [LF])) = collect_lines ls"
proof (cases "ls = []")
  case True
  have "str_lines [LF] = [[]]" "parse_line [] = None" by code_simp+
  then show ?thesis by (simp add: True collect_lines_def map_filter_def)
next
  case False
  then show ?thesis using assms by (simp add: str_lines_join collect_lines_def map_filter_chomp)
qed

section \<open>The map after a change\<close>

lemma collect_lines_Nil [simp]: "collect_lines [] k = None"
  by (simp add: collect_lines_def map_filter_def)

lemma map_filter_app: "List.map_filter f (xs @ ys) = List.map_filter f xs @ List.map_filter f ys"
  by (simp add: map_filter_def)

lemma collect_lines_append: "collect_lines (ls @ ms) k = (case collect_lines ms k of None \<Rightarrow> collect_lines ls k | Some v \<Rightarrow> Some v)"
  by (simp add: collect_lines_def map_filter_app map_add_def split: option.split)

lemma collect_lines_one: "collect_lines [l] k = (case parse_line l of Some (k', v) \<Rightarrow> if k' = k then Some v else None | None \<Rightarrow> None)"
  by (simp add: collect_lines_def map_filter_def split: option.splits)

lemma collect_lines_Cons: "collect_lines (l # ls) k = (case collect_lines ls k of None \<Rightarrow> collect_lines [l] k | Some v \<Rightarrow> Some v)"
  using collect_lines_append [of "[l]" ls k] by simp

lemma collect_lines_filter:
  "collect_lines (filter (\<lambda>l. \<not> managed_by keys l) ls) k = (if k \<in> set keys then None else collect_lines ls k)"
proof (induction ls)
  case (Cons l ls)
  have "collect_lines [l] k = None" if "managed_by keys l" "k \<notin> set keys"
    using that by (auto simp: collect_lines_one managed_by_def parse_line_key split: option.splits)
  moreover have "collect_lines [l] k = None" if "\<not> managed_by keys l" "k \<in> set keys"
    using that by (auto simp: collect_lines_one managed_by_def parse_line_key split: option.splits)
  ultimately show ?case
    using Cons collect_lines_Cons [of l "filter (\<lambda>l. \<not> managed_by keys l) ls" k] collect_lines_Cons [of l ls k]
    by (cases "managed_by keys l"; cases "k \<in> set keys") (simp_all split: option.split)
qed simp

lemma removed_map:
  assumes "remove_env_vars ok keys f = (Inr removed, f1)"
  shows "env_map f1 k = (if k \<in> set keys then None else env_map f k)"
proof (cases f)
  case (EnvText t)
  let ?ls = "str_lines t" and ?kept = "filter (\<lambda>l. \<not> managed_by keys l) (str_lines t)"
  show ?thesis
  proof (cases "List.map_filter line_key (filter (managed_by keys) ?ls) = []")
    case True
    have "\<not> managed_by keys l" if "l \<in> set ?ls" for l
    proof
      assume m: "managed_by keys l"
      then obtain k where "line_key l = Some k" by (auto simp: managed_by_def split: option.splits)
      then have "k \<in> set (List.map_filter line_key (filter (managed_by keys) ?ls))"
        using m that by (force simp: map_filter_def)
      then show False using True by simp
    qed
    then have "?kept = ?ls" by simp
    then have "collect_lines ?ls k = (if k \<in> set keys then None else collect_lines ?ls k)"
      using collect_lines_filter [of keys ?ls k] by simp
    then show ?thesis using assms EnvText True by (auto simp: remove_env_vars_def env_map_def env_lines_def)
  next
    case False
    then have "f1 = EnvText (str_join [LF] ?kept @ [LF])"
      using assms EnvText by (auto simp: remove_env_vars_def Let_def write_atomic_def split: if_splits)
    then show ?thesis
      using EnvText str_lines_no_LF [of t] by (simp add: env_map_def env_lines_def read_written collect_lines_filter)
  qed
qed (use assms in \<open>auto simp: remove_env_vars_def env_map_def env_lines_def\<close>)

text \<open>An insertion makes the key read as the new value and no other key read differently.\<close>

lemma collect_lines_none: "k \<notin> set (env_file_key_set ls) \<Longrightarrow> collect_lines ls k = None"
proof (induction ls)
  case (Cons l ls)
  then show ?case
    by (auto simp: env_file_key_set_def map_filter_def collect_lines_Cons [of l ls] collect_lines_one parse_line_key
        split: option.splits if_splits)
qed simp

lemma collect_lines_replace:
  assumes "line_key line = Some k" "parse_line line = Some (k, v)"
  shows "collect_lines (map (\<lambda>l. if line_key l = Some k then line else l) ls) k' =
    (if k' = k \<and> k \<in> set (env_file_key_set ls) then Some v else collect_lines ls k')"
proof (induction ls)
  case (Cons l ls)
  let ?f = "\<lambda>l. if line_key l = Some k then line else l"
  have keys: "env_file_key_set (l # ls) = (case line_key l of None \<Rightarrow> [] | Some k \<Rightarrow> [k]) @ env_file_key_set ls"
    by (simp add: env_file_key_set_def map_filter_def split: option.splits)
  have one: "collect_lines [?f l] k' = (if line_key l = Some k then if k' = k then Some v else None else collect_lines [l] k')"
    using assms by (simp add: collect_lines_one)
  have other: "collect_lines [l] k' = None" if "line_key l \<noteq> Some k'"
    using that by (auto simp: collect_lines_one parse_line_key split: option.splits)
  have none: "k \<notin> set (env_file_key_set ls) \<Longrightarrow> collect_lines ls k = None" by (rule collect_lines_none)
  have "collect_lines (map ?f (l # ls)) k' = (case collect_lines (map ?f ls) k' of None \<Rightarrow> collect_lines [?f l] k' | Some v \<Rightarrow> Some v)"
    unfolding list.map by (rule collect_lines_Cons)
  then show ?case unfolding Cons one collect_lines_Cons [of l ls k'] keys
    using other none by (cases "line_key l = Some k"; cases "k' = k") (auto split: option.splits)
qed (simp add: env_file_key_set_def map_filter_def)

lemma set_key_set: "set (env_file_key_set ls) = {k. \<exists>l \<in> set ls. line_key l = Some k}"
  by (force simp: env_file_key_set_def map_filter_def)

lemma key_set_replace:
  "line_key line = Some k \<Longrightarrow>
    set (env_file_key_set (map (\<lambda>l. if line_key l = Some k then line else l) ls)) = set (env_file_key_set ls)"
  by (induction ls) (auto simp: env_file_key_set_def map_filter_def)

lemma upsert_line_map:
  assumes "line_key line = Some k" "parse_line line = Some (k, v)"
    "k \<in> set existing \<longleftrightarrow> k \<in> set (env_file_key_set ls)"
  shows "collect_lines (upsert_line existing k line ls) = (collect_lines ls)(k \<mapsto> v)"
    "set (env_file_key_set (upsert_line existing k line ls)) = insert k (set (env_file_key_set ls))"
proof -
  have "collect_lines (upsert_line existing k line ls) k' = ((collect_lines ls)(k \<mapsto> v)) k'" for k'
    using assms collect_lines_replace [OF assms(1,2), of ls k']
    by (auto simp: upsert_line_def collect_lines_append collect_lines_one split: option.splits)
  then show "collect_lines (upsert_line existing k line ls) = (collect_lines ls)(k \<mapsto> v)" by blast
  show "set (env_file_key_set (upsert_line existing k line ls)) = insert k (set (env_file_key_set ls))"
    using assms key_set_replace [OF assms(1), of ls]
    by (auto simp: upsert_line_def set_key_set)
qed

lemma rendered_no_LF: "key_shape k \<Longrightarrow> LF \<notin> set v \<Longrightarrow> render_line k v = Inr line \<Longrightarrow> LF \<notin> set line"
  using key_shapeD(2) [of k LF] ascii_facts by (auto simp: render_line_def Let_def LF_def split: if_splits)

lemma upsert_lines_map:
  assumes "upsert_lines existing vars ls = Inr ls1" "distinct (map fst vars)"
    "\<forall>(k, v) \<in> set vars. key_shape k \<and> LF \<notin> set v" "\<forall>l \<in> set ls. LF \<notin> set l"
    "\<forall>k \<in> fst ` set vars. k \<in> set existing \<longleftrightarrow> k \<in> set (env_file_key_set ls)"
  shows "collect_lines ls1 = collect_lines ls ++ map_of vars \<and> (\<forall>l \<in> set ls1. LF \<notin> set l)"
  using assms
proof (induction vars arbitrary: ls)
  case (Cons kv vars)
  obtain k v where kv: "kv = (k, v)" by (cases kv)
  obtain line where line: "render_line k v = Inr line" "upsert_lines existing vars (upsert_line existing k line ls) = Inr ls1"
    using Cons.prems(1) by (auto simp: kv split: sum.splits)
  have k: "key_shape k" "LF \<notin> set v" using Cons.prems(3) by (auto simp: kv)
  note p = parse_rendered [OF k(1) line(1)]
  note u = upsert_line_map [OF p, of existing ls]
  have e: "k \<in> set existing \<longleftrightarrow> k \<in> set (env_file_key_set ls)" using Cons.prems(5) by (auto simp: kv)
  have lf: "\<forall>l \<in> set (upsert_line existing k line ls). LF \<notin> set l"
    using Cons.prems(4) rendered_no_LF [OF k line(1)] by (auto simp: upsert_line_def)
  have "collect_lines ls1 = collect_lines (upsert_line existing k line ls) ++ map_of vars \<and> (\<forall>l \<in> set ls1. LF \<notin> set l)"
    using Cons.prems(2,3,5) u(2) [OF e] by (intro Cons.IH [OF line(2)] lf) (auto simp: kv)
  moreover have "map_of vars k = None" using Cons.prems(2) by (auto simp: kv map_of_eq_None_iff)
  ultimately show ?case using u(1) [OF e] by (auto simp: kv fun_eq_iff map_add_def split: option.splits)
qed simp

lemma upserted_map:
  assumes "upsert_env_vars ok vars f = (Inr ks, f1)" "distinct (map fst vars)"
    "\<forall>(k, v) \<in> set vars. key_shape k \<and> LF \<notin> set v"
  shows "env_map f1 = env_map f ++ map_of vars"
proof (cases "vars = []")
  case True
  then show ?thesis using assms by (simp add: upsert_env_vars_def)
next
  case False
  have lf: "\<forall>l \<in> set (env_lines f). LF \<notin> set l"
    using str_lines_no_LF by (auto simp: env_lines_def split: env_text.splits)
  obtain ls1 where ls1: "upsert_lines (env_file_key_set (env_lines f)) vars (env_lines f) = Inr ls1"
    "f1 = EnvText (str_join [LF] ls1 @ [LF])"
    using assms(1) False by (auto simp: upsert_env_vars_def Let_def write_atomic_def split: sum.splits if_splits)
  have "collect_lines ls1 = collect_lines (env_lines f) ++ map_of vars" "\<forall>l \<in> set ls1. LF \<notin> set l"
    using upsert_lines_map [OF ls1(1) assms(2,3) lf] by auto
  then show ?thesis by (simp add: env_map_def ls1(2) env_lines_def [of "EnvText t" for t] read_written)
qed

text \<open>What is written to the \<open>.env\<close> file is what the readers collect from it. An insertion that reports
  success makes every written key read as the written value, quotation marks, blanks and \<open>=\<close> included, and
  leaves the reading of every other key as it was; a removal makes the removed keys unread and no others.
  The keys have the shape of a name and the values no line feed.\<close>

theorem env_write_is_read_back:
  assumes "remove_env_vars ok keys f = (Inr removed, f1)" and "upsert_env_vars ok1 vars f1 = (Inr ks, f2)"
    and "distinct (map fst vars)" and "\<forall>(k, v) \<in> set vars. key_shape k \<and> LF \<notin> set v"
  shows "env_map f2 k = (case map_of vars k of Some v \<Rightarrow> Some v
    | None \<Rightarrow> if k \<in> set keys then None else env_map f k)"
  using removed_map [OF assms(1), of k] upserted_map [OF assms(2-4)] by (simp add: map_add_def split: option.split)

text \<open>The module promises that every line outside the managed keys is preserved. A file that is there and
  cannot be read, for one byte that is not UTF-8, counts as a file without lines: the write succeeds and
  what it leaves is the managed keys alone.\<close>

theorem unreadable_file_is_replaced:
  assumes "key_shape k" and "LF \<notin> set v" and "render_line k v = Inr line"
  shows "\<exists>f1. upsert_env_vars True [(k, v)] EnvUnreadable = (Inr [k], f1) \<and> env_map f1 = [k \<mapsto> v]"
proof -
  have run: "upsert_env_vars True [(k, v)] EnvUnreadable = (Inr [k], EnvText (str_join [LF] [line] @ [LF]))"
    by (simp add: upsert_env_vars_def Let_def env_lines_def env_file_key_set_def map_filter_def assms(3) upsert_line_def
        write_atomic_def)
  have "env_map EnvUnreadable = Map.empty" by (simp add: fun_eq_iff env_map_def env_lines_def)
  then show ?thesis using run upserted_map [OF run] assms(1,2) by simp
qed

lemma demo_env_key: "key_shape ''K''"
  by (simp add: key_shape_def key_start_def key_char_def ascii_alphabetic_def alnum_byte_def)

theorem env_write_is_read_back_witness:
  "\<exists>f2. upsert_env_vars True [(''K'', ''a = b'')] (EnvText []) = (Inr [''K''], f2) \<and> env_map f2 ''K'' = Some ''a = b''"
proof -
  have rm: "remove_env_vars True [''K''] (EnvText []) = (Inr [], EnvText [])"
    by (simp add: remove_env_vars_def str_lines_def map_filter_def)
  obtain f2 where up: "upsert_env_vars True [(''K'', ''a = b'')] (EnvText []) = (Inr [''K''], f2)"
    by (simp add: upsert_env_vars_def write_atomic_def render_line_def env_lines_def str_lines_def Let_def)
  have "env_map f2 ''K'' = Some ''a = b''"
    using env_write_is_read_back [OF rm up, of "''K''"] demo_env_key by (simp add: LF_def)
  then show ?thesis using up by blast
qed

theorem unreadable_file_is_replaced_witness:
  "\<exists>f1. upsert_env_vars True [(''K'', ''v'')] EnvUnreadable = (Inr [''K''], f1) \<and> env_map f1 = [''K'' \<mapsto> ''v'']"
  by (rule unreadable_file_is_replaced [OF demo_env_key, where line = "''K='' @ [CHR 0x22, CHR ''v'', CHR 0x22]"])
    (simp_all add: LF_def render_line_def Let_def)

end
