(* ===== verification/PolicyWrite.thy ===== *)
theory PolicyWrite
  imports Policy EnvFile
begin

text \<open>
  Changing the policy of a running kernel: the section's footprint in the \<open>.env\<close> file
  (\<open>execution_policy/mod.rs\<close>), the two loaders over the environment, the reload of the service
  (\<open>service/assembly.rs\<close>) and the write face, \<open>ipc/server/handlers/execution_policy.rs\<close>. The core's
  lock is given up between reading the view before a change and applying it; the model runs one
  request at a time.
\<close>

section \<open>The footprint of a section\<close>

text \<open>The six keys in the order of their \<open>BTreeMap\<close>: \<open>Some\<close> is a value to write, \<open>None\<close> a key to sweep.\<close>

datatype policy_write_error =
  LoadError policy_error
| PolicyDisabled
| EnvPathNotSet
| EnvFileUnreadable
| NotADecimal string string
| RulesEntryDoesNotParse
| SectionDoesNotRender
| SectionRejected policy_error
| EmptyAccountId
| NoEnvPathConfigured
| LegacyFileExists
| RulesDoNotRender
| NoSectionToReset string
| SweepFailed env_error
| WriteFailed env_error

definition section_env_state ::
  "dec_ops \<Rightarrow> policy_io \<Rightarrow> string \<Rightarrow> section_fields option \<Rightarrow> policy_write_error + (string \<times> string option) list" where
  "section_env_state D io account section =
    (let s = (case section of None \<Rightarrow> no_fields | Some s \<Rightarrow> s); key = section_key account in
     case (case sf_rules s of None \<Rightarrow> Some None | Some rs \<Rightarrow> map_option Some (rules_render io rs)) of
       None \<Rightarrow> Inl RulesDoNotRender
     | Some rules \<Rightarrow> Inr
        [(key ''BUDGET_RATIO'', map_option (dshow D) (sf_budget_ratio s)),
         (key ''MAX_BUDGET_USD'', map_option (dshow D) (sf_max_budget_usd s)),
         (key ''MAX_POSITIONS_PER_ASSET'', map_option nat_str (sf_max_positions_per_asset s)),
         (key ''MIN_BUDGET_USD'', map_option (dshow D) (sf_min_budget_usd s)),
         (key ''MIN_EQUITY_USD'', map_option (dshow D) (sf_min_equity_usd s)),
         (key ''RULES'', rules)])"

section \<open>The loaders\<close>

text \<open>\<open>penv\<close> is the process environment; a blank value counts as absent.\<close>

definition process_value :: "(string \<Rightarrow> string option) \<Rightarrow> string \<Rightarrow> string option" where
  "process_value penv k = (case penv k of Some v \<Rightarrow> if trim v = [] then None else Some v | None \<Rightarrow> None)"

definition boot_env :: "(string \<Rightarrow> string option) \<Rightarrow> env_text option \<Rightarrow> string \<Rightarrow> string option" where
  "boot_env penv file k = or_alias (process_value penv k) (case file of None \<Rightarrow> None | Some f \<Rightarrow> env_map f k)"

definition load_single_source ::
  "policy_io \<Rightarrow> (string \<Rightarrow> string option) \<Rightarrow> env_text option \<Rightarrow> policy_error + policy" where
  "load_single_source io penv file = load_with_env io (Some policy_file_default) (boot_env penv file)"

definition reload_env ::
  "(string \<Rightarrow> string option) \<Rightarrow> (string \<times> string option) list \<Rightarrow> env_text \<Rightarrow> string \<Rightarrow> string option" where
  "reload_env penv written file k = (case env_map file k of
     Some v \<Rightarrow> Some v
   | None \<Rightarrow> (case map_of written k of Some v \<Rightarrow> v | None \<Rightarrow> process_value penv k))"

definition load_for_reload ::
  "policy_io \<Rightarrow> (string \<Rightarrow> string option) \<Rightarrow> (string \<times> string option) list \<Rightarrow> env_text \<Rightarrow> policy_write_error + policy" where
  "load_for_reload io penv written file = (case file of
     EnvText _ \<Rightarrow> map_error LoadError (load_with_env io (Some policy_file_default) (reload_env penv written file))
   | _ \<Rightarrow> Inl EnvFileUnreadable)"

section \<open>The running kernel\<close>

datatype policy_action_name = ActSet | ActReset | ActLoadRefused

datatype policy_actor = ActorBoot | ActorIpc

record section_view =
  sv_budget_ratio :: string
  sv_min_budget_usd :: string
  sv_max_budget_usd :: string
  sv_min_equity_usd :: string
  sv_max_positions_per_asset :: nat
  sv_rules :: "policy_rule list"

record policy_audit_record =
  pa_actor :: policy_actor
  pa_action :: policy_action_name
  pa_account_id :: string
  pa_before :: "section_view option"
  pa_after :: "section_view option"
  pa_error :: "policy_write_error option"

datatype legacy_toml = LegacyAbsent | LegacyTemplate | LegacyEdited

text \<open>What a request meets: whether the two paths are configured, the process environment, the
  command line's position cap, the configuration of the position manager with the disk its daily file
  is on, and whether the file system accepts the removal of the template, the sweep, the write and the
  audit line.\<close>

record policy_env =
  pe_path :: bool
  pe_env_path :: bool
  pe_process :: "string \<Rightarrow> string option"
  pe_cap :: "nat option"
  pe_positions :: position_config
  pe_disk :: "string \<Rightarrow> daily_file"
  pe_unlink_ok :: bool
  pe_sweep_ok :: bool
  pe_write_ok :: bool
  pe_audit_ok :: bool

record policy_kernel =
  pk_policy :: "policy option"
  pk_env_writes :: "(string \<times> string option) list"
  pk_positions :: position_manager
  pk_env_file :: env_text
  pk_legacy :: legacy_toml
  pk_audit :: "policy_audit_record list"

definition append_audit :: "policy_env \<Rightarrow> policy_audit_record \<Rightarrow> policy_kernel \<Rightarrow> policy_kernel" where
  "append_audit E r k = (if pe_audit_ok E then k\<lparr>pk_audit := pk_audit k @ [r]\<rparr> else k)"

definition execution_policy_section_view :: "dec_ops \<Rightarrow> policy_kernel \<Rightarrow> string \<Rightarrow> section_view option" where
  "execution_policy_section_view D k account = map_option (\<lambda>p. let s = section_for p account in
     \<lparr>sv_budget_ratio = dshow D (sd_budget_ratio s), sv_min_budget_usd = dshow D (sd_min_budget_usd s),
      sv_max_budget_usd = dshow D (sd_max_budget_usd s), sv_min_equity_usd = dshow D (sd_min_equity_usd s),
      sv_max_positions_per_asset = sd_max_positions_per_asset s, sv_rules = sd_rules s\<rparr>) (pk_policy k)"

definition execution_policy_record_env_write :: "(string \<times> string option) list \<Rightarrow> policy_kernel \<Rightarrow> policy_kernel" where
  "execution_policy_record_env_write written k =
    k\<lparr>pk_env_writes := fold (\<lambda>(key, v). AList.update key v) written (pk_env_writes k)\<rparr>"

definition load_refused :: "policy_actor \<Rightarrow> policy_write_error \<Rightarrow> policy_audit_record" where
  "load_refused actor e = \<lparr>pa_actor = actor, pa_action = ActLoadRefused, pa_account_id = ''*'', pa_before = None,
     pa_after = None, pa_error = Some e\<rparr>"

definition reload_execution_policy ::
  "policy_io \<Rightarrow> policy_env \<Rightarrow> policy_kernel \<Rightarrow> (policy_write_error + unit) \<times> policy_kernel" where
  "reload_execution_policy io E k =
    (if \<not> pe_path E then (Inl PolicyDisabled, k)
     else if \<not> pe_env_path E then (Inl EnvPathNotSet, k)
     else case load_for_reload io (pe_process E) (pk_env_writes k) (pk_env_file k) of
       Inl e \<Rightarrow> (Inl e, append_audit E (load_refused ActorIpc e) k)
     | Inr p \<Rightarrow>
         let cfg = (pe_positions E)\<lparr>pc_max_positions_per_asset :=
               over (pe_cap E) (sd_max_positions_per_asset (po_defaults p))\<rparr>
         in (Inr (), k\<lparr>pk_positions := set_config (pe_disk E) cfg (pk_positions k), pk_policy := Some p\<rparr>))"

text \<open>The boot. A policy that does not load leaves one audit line and stops the process, which is
  \<open>Inl\<close> here.\<close>

definition load_execution_policy_at_boot ::
  "policy_io \<Rightarrow> policy_env \<Rightarrow> env_text \<Rightarrow> (policy_error + policy option) \<times> policy_audit_record list" where
  "load_execution_policy_at_boot io E file =
    (if \<not> pe_path E then (Inr None, [])
     else case load_single_source io (pe_process E) (if pe_env_path E then Some file else None) of
       Inr p \<Rightarrow> (Inr (Some p), [])
     | Inl e \<Rightarrow> (Inl e, if pe_audit_ok E then [load_refused ActorBoot (LoadError e)] else []))"

section \<open>The write face\<close>

record set_params =
  sp_account_id :: string
  sp_budget_ratio :: "string option"
  sp_min_budget_usd :: "string option"
  sp_max_budget_usd :: "string option"
  sp_min_equity_usd :: "string option"
  sp_max_positions_per_asset :: "nat option"
  sp_rules :: "policy_rule option list option"

definition wire_dec :: "policy_io \<Rightarrow> string \<Rightarrow> string option \<Rightarrow> policy_write_error + decimal option" where
  "wire_dec io name raw = (case raw of None \<Rightarrow> Inr None
   | Some t \<Rightarrow> (case dec_parse io t of Some d \<Rightarrow> Inr (Some d) | None \<Rightarrow> Inl (NotADecimal name t)))"

text \<open>A rule on the wire is \<open>None\<close> where its JSON does not read as a rule.\<close>

definition wire_rules :: "policy_rule option list option \<Rightarrow> policy_write_error + policy_rule list option" where
  "wire_rules rules = (case rules of None \<Rightarrow> Inr None
   | Some rs \<Rightarrow> if list_all (\<lambda>r. r \<noteq> None) rs then Inr (Some (map the rs)) else Inl RulesEntryDoesNotParse)"

definition section_from_set_params ::
  "policy_io \<Rightarrow> (policy_file \<Rightarrow> bool) \<Rightarrow> set_params \<Rightarrow> policy_write_error + section_fields" where
  "section_from_set_params io renders p =
    and_then (wire_dec io ''budgetRatio'' (sp_budget_ratio p)) (\<lambda>ratio.
    and_then (wire_dec io ''minBudgetUsd'' (sp_min_budget_usd p)) (\<lambda>min_usd.
    and_then (wire_dec io ''maxBudgetUsd'' (sp_max_budget_usd p)) (\<lambda>max_usd.
    and_then (wire_dec io ''minEquityUsd'' (sp_min_equity_usd p)) (\<lambda>equity.
    and_then (wire_rules (sp_rules p)) (\<lambda>rules.
     let s = \<lparr>sf_budget_ratio = ratio, sf_min_budget_usd = min_usd, sf_max_budget_usd = max_usd,
              sf_min_equity_usd = equity, sf_max_positions_per_asset = sp_max_positions_per_asset p, sf_rules = rules\<rparr>;
         probe = policy_file_default\<lparr>pf_accounts := [(''__probe__'', s)]\<rparr>
     in if \<not> renders probe then Inl SectionDoesNotRender
        else and_then (map_error SectionRejected (load_with_env io (toml_reread io probe) (\<lambda>_. None))) (\<lambda>_. Inr s))))))"

definition sweep_legacy :: "policy_env \<Rightarrow> policy_kernel \<Rightarrow> policy_write_error + policy_kernel" where
  "sweep_legacy E k = (case pk_legacy k of
     LegacyAbsent \<Rightarrow> Inr k
   | LegacyTemplate \<Rightarrow> Inr (if pe_unlink_ok E then k\<lparr>pk_legacy := LegacyAbsent\<rparr> else k)
   | LegacyEdited \<Rightarrow> Inl LegacyFileExists)"

definition written_vars :: "(string \<times> string option) list \<Rightarrow> (string \<times> string) list" where
  "written_vars state = List.map_filter (\<lambda>(k, v). map_option (Pair k) v) state"

definition policy_section_write ::
  "dec_ops \<Rightarrow> policy_io \<Rightarrow> policy_env \<Rightarrow> string \<Rightarrow> section_fields option \<Rightarrow> policy_kernel
     \<Rightarrow> (policy_write_error + (string \<times> string option) list) \<times> policy_kernel" where
  "policy_section_write D io E account section k =
    (if trim account = [] then (Inl EmptyAccountId, k)
     else if \<not> pe_env_path E then (Inl NoEnvPathConfigured, k)
     else case sweep_legacy E k of
       Inl e \<Rightarrow> (Inl e, k)
     | Inr k1 \<Rightarrow>
        case section_env_state D io account section of
          Inl e \<Rightarrow> (Inl e, k1)
        | Inr state \<Rightarrow>
          if section = None \<and> list_all (\<lambda>key. env_map (pk_env_file k1) key = None) (map fst state) then
            (Inl (NoSectionToReset account), k1)
          else case remove_env_vars (pe_sweep_ok E) (map fst state) (pk_env_file k1) of
            (Inl e, f) \<Rightarrow> (Inl (SweepFailed e), k1\<lparr>pk_env_file := f\<rparr>)
          | (Inr _, f) \<Rightarrow>
            (case upsert_env_vars (pe_write_ok E) (written_vars state) f of
              (Inl e, f1) \<Rightarrow> (Inl (WriteFailed e), k1\<lparr>pk_env_file := f1\<rparr>)
            | (Inr _, f1) \<Rightarrow> (Inr state, k1\<lparr>pk_env_file := f1\<rparr>)))"

definition change_record :: "policy_action_name \<Rightarrow> string \<Rightarrow> section_view option \<Rightarrow> section_view option \<Rightarrow> policy_audit_record" where
  "change_record a account before after = \<lparr>pa_actor = ActorIpc, pa_action = a, pa_account_id = account,
     pa_before = before, pa_after = after, pa_error = None\<rparr>"

text \<open>What both verbs do once the section to write is known.\<close>

definition apply_section ::
  "dec_ops \<Rightarrow> policy_io \<Rightarrow> policy_env \<Rightarrow> policy_action_name \<Rightarrow> string \<Rightarrow> section_fields option \<Rightarrow> policy_kernel
     \<Rightarrow> (policy_write_error + string) \<times> policy_kernel" where
  "apply_section D io E a account section k =
    (let before = execution_policy_section_view D k account in
     case policy_section_write D io E account section k of
       (Inl e, k1) \<Rightarrow> (Inl e, k1)
     | (Inr written, k1) \<Rightarrow>
       (case reload_execution_policy io E (execution_policy_record_env_write written k1) of
         (Inl e, k2) \<Rightarrow> (Inl e, k2)
       | (Inr _, k2) \<Rightarrow> (Inr account,
           append_audit E (change_record a account before (execution_policy_section_view D k2 account)) k2)))"

definition execution_policy_set ::
  "dec_ops \<Rightarrow> policy_io \<Rightarrow> (policy_file \<Rightarrow> bool) \<Rightarrow> policy_env \<Rightarrow> set_params \<Rightarrow> policy_kernel
     \<Rightarrow> (policy_write_error + string) \<times> policy_kernel" where
  "execution_policy_set D io renders E p k =
    (if \<not> pe_path E then (Inl PolicyDisabled, k)
     else case section_from_set_params io renders p of
       Inl e \<Rightarrow> (Inl e, k)
     | Inr s \<Rightarrow> apply_section D io E ActSet (sp_account_id p) (Some s) k)"

definition execution_policy_reset ::
  "dec_ops \<Rightarrow> policy_io \<Rightarrow> policy_env \<Rightarrow> string \<Rightarrow> policy_kernel \<Rightarrow> (policy_write_error + string) \<times> policy_kernel" where
  "execution_policy_reset D io E account k =
    (if \<not> pe_path E then (Inl PolicyDisabled, k) else apply_section D io E ActReset account None k)"

end
