(* ===== verification/PolicyProps.thy ===== *)
theory PolicyProps
  imports Policy
begin

text \<open>
  What the execution policy guarantees about a budget and about the choice of a rule, and where the
  vocabulary of its conditions does not do what its documentation says.
\<close>

section \<open>Loading keeps the ranges\<close>

lemma fold_try_inv:
  assumes "fold_try f xs a = Inr b" "P a" "\<And>x a b. x \<in> set xs \<Longrightarrow> P a \<Longrightarrow> f x a = Inr b \<Longrightarrow> P b"
  shows "P b"
  using assms
proof (induction xs arbitrary: a)
  case (Cons x xs)
  obtain a1 where a1: "f x a = Inr a1" "fold_try f xs a1 = Inr b" using Cons.prems(1) by (auto simp: and_then_Inr)
  have "P a1" by (rule Cons.prems(3) [OF _ Cons.prems(2) a1(1)]) simp
  then show ?case
  proof (rule Cons.IH [OF a1(2)])
    show "P c \<Longrightarrow> f y c = Inr d \<Longrightarrow> P d" if "y \<in> set xs" for y c d
      using that by (intro Cons.prems(3) [of y c d]) simp_all
  qed
qed simp

definition ranges_ok :: "section_defaults \<Rightarrow> bool" where
  "ranges_ok s \<longleftrightarrow> 0 < sd_budget_ratio s \<and> sd_budget_ratio s \<le> 1 \<and> 0 \<le> sd_min_budget_usd s \<and> 0 < sd_max_budget_usd s \<and>
     sd_min_budget_usd s \<le> sd_max_budget_usd s \<and> 0 \<le> sd_min_equity_usd s \<and> 0 < sd_max_positions_per_asset s"

lemma section_validate_ranges: "section_validate label s = Inr u \<Longrightarrow> ranges_ok s"
  by (auto simp: section_validate_def ranges_ok_def split: if_splits)

definition accounts_ok :: "(string \<times> section_defaults) list \<Rightarrow> bool" where
  "accounts_ok m \<longleftrightarrow> (\<forall>s \<in> snd ` set m. ranges_ok s)"

lemma accounts_ok_update: "accounts_ok m \<Longrightarrow> ranges_ok s \<Longrightarrow> accounts_ok (AList.update k s m)"
  using snd_set_update [of k s m] unfolding accounts_ok_def by blast

lemma load_file_account_ok: "accounts_ok m \<Longrightarrow> load_file_account io env d e m = Inr m1 \<Longrightarrow> accounts_ok m1"
  by (cases e) (auto simp: load_file_account_def and_then_Inr Let_def intro!: accounts_ok_update intro: section_validate_ranges)

lemma load_env_account_ok: "accounts_ok m \<Longrightarrow> load_env_account io env d i m = Inr m1 \<Longrightarrow> accounts_ok m1"
  by (auto simp: load_env_account_def and_then_Inr split: if_splits
      intro!: accounts_ok_update intro: section_validate_ranges)

lemma loaded_ranges:
  assumes "load_with_env io parsed env = Inr p"
  shows "ranges_ok (section_for p account)"
proof -
  obtain pf where f: "parsed = Some pf" using assms by (auto simp: load_with_env_def split: option.splits)
  obtain d accounts where d: "section_validate ''[defaults]'' (po_defaults p) = Inr d"
    and a: "fold_try (load_file_account io env (po_defaults p)) (pf_accounts pf) [] = Inr accounts"
    and e: "fold_try (load_env_account io env (po_defaults p)) (account_list_of env) accounts = Inr (po_accounts p)"
    using assms by (auto simp: load_with_env_def f and_then_Inr split: if_splits)
  have "accounts_ok accounts" using a by (rule fold_try_inv) (auto simp: accounts_ok_def [of "[]"] intro: load_file_account_ok)
  with e have "accounts_ok (po_accounts p)" by (rule fold_try_inv) (rule load_env_account_ok)
  then show ?thesis
    using section_validate_ranges [OF d] by (auto simp: section_for_def accounts_ok_def dest!: map_of_SomeD split: option.splits)
qed

section \<open>The budget\<close>

lemma placed_budget:
  assumes "load_with_env io parsed env = Inr p"
    and "policy_evaluate p account input = Inr (PPlace b ratio lo hi)"
  shows "b = min (max (pi_available_balance input * ratio) lo) hi \<and> lo \<le> b \<and> b \<le> hi \<and>
    hi \<le> sd_max_budget_usd (section_for p account) \<and> 0 \<le> lo \<and> 0 < hi \<and> 0 < ratio \<and> ratio \<le> 1"
proof -
  let ?s = "section_for p account"
  have ranges: "ranges_ok ?s" using assms(1) by (rule loaded_ranges)
  have "trim account \<noteq> []" "\<not> pi_total_equity input < sd_min_equity_usd ?s"
    using assms(2) by (auto simp: policy_evaluate_def Let_def split: if_splits)
  then consider (none) "winning_rule ?s input = None" "place_budget (section_budget ?s) input = PPlace b ratio lo hi"
    | (rule) r where "apply_rule r ?s input = Inr (PPlace b ratio lo hi)"
    using assms(2) by (auto simp: policy_evaluate_def Let_def split: option.splits)
  then show ?thesis
  proof cases
    case none
    then show ?thesis using ranges by (auto simp: place_budget_def section_budget_def ranges_ok_def Let_def)
  next
    case rule
    let ?c = "scoped_by (r_then r) ?s"
    have c: "scoped_validate (r_name r) ?c = Inr ()" "place_budget ?c input = PPlace b ratio lo hi"
      using rule by (auto simp: apply_rule_def Let_def and_then_Inr split: if_splits option.splits)
    have "sc_max_budget_usd ?c \<le> sd_max_budget_usd ?s" by (simp add: scoped_by_def split: option.splits)
    then show ?thesis using c
      by (auto simp: place_budget_def scoped_validate_def Let_def split: if_splits)
  qed
qed

text \<open>C28 The safety lock of the module's header. Whatever policy file and environment a policy was loaded
  from, and whatever an order's facts are: a budget the verdict grants is the account's balance times the
  ratio in force, raised to the floor in force and cut at the ceiling in force; the ceiling in force is never
  above the ceiling of the account's section, and ratio, floor and ceiling are in their ranges, so the
  budget lies between floor and ceiling. No rule can lift it.\<close>

theorem policy_budget_within_ceiling:
  assumes "load_with_env io parsed env = Inr p"
    and "policy_evaluate p account input = Inr (PPlace b ratio lo hi)"
  shows "b = min (max (pi_available_balance input * ratio) lo) hi \<and> lo \<le> b \<and> b \<le> hi \<and>
    hi \<le> sd_max_budget_usd (section_for p account) \<and> 0 \<le> lo \<and> 0 < hi \<and> 0 < ratio \<and> ratio \<le> 1"
  using assms by (rule placed_budget)

section \<open>The rule that decides\<close>

lemma find_sorted:
  "case find P (sort_key f xs) of
     None \<Rightarrow> \<forall>x \<in> set xs. \<not> P x
   | Some r \<Rightarrow> (\<exists>pre post. xs = pre @ r # post \<and> P r \<and> (\<forall>x \<in> set pre. P x \<longrightarrow> f r < f x) \<and> (\<forall>x \<in> set post. P x \<longrightarrow> f r \<le> f x))"
proof (induction xs)
  case (Cons x xs)
  have sorted: "sorted (map f (sort_key f xs))" by simp
  have step: "find P (insort_key f x ys) =
      (if P x then (case find P ys of None \<Rightarrow> Some x | Some r \<Rightarrow> if f x \<le> f r then Some x else Some r) else find P ys)"
    if "sorted (map f ys)" for ys
    using that
  proof (induction ys)
    case (Cons y ys)
    have "find P ys = Some r \<Longrightarrow> f y \<le> f r" for r
      using Cons.prems by (auto simp: find_Some_iff)
    then show ?case using Cons by (auto split: option.splits)
  qed simp
  show ?case
  proof (cases "find P (sort_key f xs)")
    case None
    have "find P (sort_key f (x # xs)) = (if P x then Some x else None)" using None step [OF sorted] by simp
    moreover have "\<forall>y \<in> set xs. \<not> P y" using Cons None by simp
    moreover have "\<exists>pre post. x # xs = pre @ x # post \<and> (\<forall>x \<in> set pre. False) \<and> set post \<subseteq> set xs"
      by (intro exI [of _ "[]"] exI [of _ xs]) simp
    ultimately show ?thesis by (cases "P x") fastforce+
  next
    case (Some r)
    then obtain pre post where d: "xs = pre @ r # post" "P r" "\<forall>x \<in> set pre. P x \<longrightarrow> f r < f x" "\<forall>x \<in> set post. P x \<longrightarrow> f r \<le> f x"
      using Cons by auto
    show ?thesis
    proof (cases "P x \<and> f x \<le> f r")
      case True
      have "\<forall>y \<in> set xs. P y \<longrightarrow> f x \<le> f y" using d True by (fastforce intro: order_trans less_imp_le)
      moreover have "find P (sort_key f (x # xs)) = Some x" using True Some step [OF sorted] by simp
      moreover have "x # xs = [] @ x # xs" "\<forall>y \<in> set []. P y \<longrightarrow> f x < f y" by simp_all
      ultimately show ?thesis using True by (simp only: option.case) blast
    next
      case False
      then have "find P (sort_key f (x # xs)) = Some r" using Some step [OF sorted] by auto
      moreover have "\<forall>y \<in> set (x # pre). P y \<longrightarrow> f r < f y" using d False by auto
      moreover have "x # xs = (x # pre) @ r # post" using d by simp
      ultimately show ?thesis using d(2,4) by (simp only: option.case) blast
    qed
  qed
qed simp

lemma filter_split:
  "filter P xs = pre @ r # post \<Longrightarrow> \<exists>us vs. xs = us @ r # vs \<and> P r \<and> filter P us = pre \<and> filter P vs = post"
proof (induction xs arbitrary: pre)
  case (Cons x xs)
  show ?case
  proof (cases "P x \<and> pre = []")
    case True
    then show ?thesis using Cons.prems by (intro exI [of _ "[]"] exI [of _ xs]) simp
  next
    case False
    then obtain qre where q: "filter P xs = qre @ r # post" "pre = (if P x then x # qre else qre)"
      using Cons.prems by (cases pre) (auto split: if_splits)
    then obtain us vs where "xs = us @ r # vs" "P r" "filter P us = qre" "filter P vs = post" using Cons.IH by blast
    then show ?thesis using q(2) by (intro exI [of _ "x # us"] exI [of _ vs]) simp
  qed
qed simp

text \<open>C29 The order of the rules. An order with an account and enough equity is judged by the first rule, by
  ascending priority and then by the order of the file, among the enabled rules whose condition holds: that
  rule stands in the section, every rule before it that also fires has a larger priority number and every
  rule after it that also fires has at least its number. If no enabled rule fires, the section's own three
  knobs decide. An account without a name, and equity under the floor, are decided before any rule.\<close>

theorem first_enabled_rule_decides:
  "policy_evaluate p account input =
    (if trim account = [] then Inl NoAccountId
     else if pi_total_equity input < sd_min_equity_usd (section_for p account)
     then Inr (PSkip (below_equity_floor input (section_for p account)))
     else case winning_rule (section_for p account) input of
       None \<Rightarrow> Inr (place_budget (section_budget (section_for p account)) input)
     | Some r \<Rightarrow> apply_rule r (section_for p account) input) \<and>
   (case winning_rule s input of
      None \<Rightarrow> \<forall>r \<in> set (sd_rules s). r_enabled r \<longrightarrow> \<not> when_holds (r_when r) input
    | Some r \<Rightarrow> \<exists>pre post. sd_rules s = pre @ r # post \<and> r_enabled r \<and> when_holds (r_when r) input \<and>
        (\<forall>q \<in> set pre. r_enabled q \<and> when_holds (r_when q) input \<longrightarrow> r_priority r < r_priority q) \<and>
        (\<forall>q \<in> set post. r_enabled q \<and> when_holds (r_when q) input \<longrightarrow> r_priority r \<le> r_priority q))"
proof (rule conjI)
  let ?fires = "\<lambda>r. when_holds (r_when r) input" and ?rs = "filter r_enabled (sd_rules s)"
  note f = find_sorted [where P = ?fires and f = r_priority and xs = ?rs]
  show "case winning_rule s input of
      None \<Rightarrow> \<forall>r \<in> set (sd_rules s). r_enabled r \<longrightarrow> \<not> when_holds (r_when r) input
    | Some r \<Rightarrow> \<exists>pre post. sd_rules s = pre @ r # post \<and> r_enabled r \<and> when_holds (r_when r) input \<and>
        (\<forall>q \<in> set pre. r_enabled q \<and> when_holds (r_when q) input \<longrightarrow> r_priority r < r_priority q) \<and>
        (\<forall>q \<in> set post. r_enabled q \<and> when_holds (r_when q) input \<longrightarrow> r_priority r \<le> r_priority q)"
  proof (cases "winning_rule s input")
    case None
    then show ?thesis using f by (auto simp: winning_rule_def)
  next
    case (Some r)
    then obtain pre post where d: "?rs = pre @ r # post" "?fires r" "\<forall>x \<in> set pre. ?fires x \<longrightarrow> r_priority r < r_priority x"
      "\<forall>x \<in> set post. ?fires x \<longrightarrow> r_priority r \<le> r_priority x"
      using f by (auto simp: winning_rule_def)
    from d(1) obtain us vs where v: "sd_rules s = us @ r # vs" "r_enabled r" "filter r_enabled us = pre"
        "filter r_enabled vs = post"
      using filter_split [OF d(1)] by blast
    have "\<forall>q \<in> set us. r_enabled q \<and> ?fires q \<longrightarrow> r_priority r < r_priority q" using d(3) by (simp flip: v(3))
    moreover have "\<forall>q \<in> set vs. r_enabled q \<and> ?fires q \<longrightarrow> r_priority r \<le> r_priority q" using d(4) by (simp flip: v(4))
    ultimately show ?thesis using Some v(1,2) d(2) by (simp only: option.case) blast
  qed
qed (simp add: policy_evaluate_def Let_def)

section \<open>A policy that loads and still refuses\<close>

definition knob_broken :: "policy_rule \<Rightarrow> section_defaults \<Rightarrow> bool" where
  "knob_broken r s \<longleftrightarrow> act_action (r_then r) = None \<and> (case act_cooldown_sec (r_then r) of
     Some sec \<Rightarrow> sec \<le> 0 | None \<Rightarrow> scoped_validate (r_name r) (scoped_by (r_then r) s) \<noteq> Inr ())"

definition rules_env :: "string \<Rightarrow> string \<Rightarrow> string option" where
  "rules_env t k = (if k = ''POLICY_RULES'' then Some t else None)"

lemma rules_env_sel [simp]:
  "rules_env t ''POLICY_RULES'' = Some t" "rules_env t ''POLICY_BUDGET_RATIO'' = None" "rules_env t ''BUDGET_RATIO'' = None"
  "rules_env t ''POLICY_MIN_BUDGET_USD'' = None" "rules_env t ''POLICY_MAX_BUDGET_USD'' = None" "rules_env t ''MAX_BUDGET_USD'' = None"
  "rules_env t ''POLICY_MIN_EQUITY_USD'' = None" "rules_env t ''POLICY_MAX_POSITIONS_PER_ASSET'' = None"
  "rules_env t ''ACCOUNT_LIST'' = None"
  by (simp_all add: rules_env_def)

definition rules_policy :: "policy_rule list \<Rightarrow> policy" where
  "rules_policy rs = \<lparr>po_defaults = code_defaults\<lparr>sd_rules := rs\<rparr>, po_accounts = []\<rparr>"

lemma rules_env_loads:
  assumes "rules_parse io (trim t) = Some [r]" "action_validate (r_then r) (r_name r) = Inr ()"
    "validate_when (r_when r) = Inr ()"
  shows "load_with_env io (Some policy_file_default) (rules_env t) = Inr (rules_policy [r])"
proof -
  let ?s = "code_defaults\<lparr>sd_rules := [r]\<rparr>"
  have env: "apply_env io None (rules_env t) code_defaults = Inr ?s"
    using assms by (simp add: apply_env_def account_suffix_def env_decimal_def env_u32_def env_rules_def or_alias_def
        validate_then_def map_error_def code_defaults_def)
  have val: "section_validate ''[defaults]'' ?s = Inr ()"
    using assms by (simp add: section_validate_def code_defaults_def validate_rule_when_def map_error_def)
  show ?thesis
    using env val by (simp add: load_with_env_def policy_file_default_def layer_section_def no_fields_def over_def
        account_list_of_def rules_policy_def)
qed

text \<open>The knobs of a rule are not part of the load. The module's header says that an out-of-range value
  refuses the whole load and \<open>PolicyRefusal\<close> that a valid load never yields one; a rule with a cooldown that
  is not positive, a ratio outside its range, or a ceiling under the section's floor loads like any other,
  and every order it decides is then refused.\<close>

theorem loaded_rule_refuses_orders:
  assumes "rules_parse io (trim t) = Some [r]" and "action_validate (r_then r) (r_name r) = Inr ()"
    and "validate_when (r_when r) = Inr ()" and "r_enabled r" and "when_holds (r_when r) input"
    and "knob_broken r code_defaults" and "0 \<le> pi_total_equity input" and "trim account \<noteq> []"
  shows "\<exists>p e. load_with_env io (Some policy_file_default) (rules_env t) = Inr p \<and>
    policy_evaluate p account input = Inl e"
proof -
  let ?s = "code_defaults\<lparr>sd_rules := [r]\<rparr>" and ?p = "rules_policy [r]"
  have load: "load_with_env io (Some policy_file_default) (rules_env t) = Inr ?p"
    by (rule rules_env_loads) (simp_all add: assms)
  have win: "winning_rule ?s input = Some r" using assms(4,5) by (simp add: winning_rule_def)
  have "section_for ?p account = ?s" by (simp add: section_for_def rules_policy_def)
  moreover have "\<exists>e. apply_rule r ?s input = Inl e"
    using assms(6) by (auto simp: apply_rule_def knob_broken_def Let_def scoped_by_def code_defaults_def and_then_def
        split: option.splits sum.splits)
  moreover have "\<not> pi_total_equity input < sd_min_equity_usd ?s" using assms(7) by (simp add: code_defaults_def)
  ultimately show ?thesis using load win assms(8) by (auto simp: policy_evaluate_def Let_def)
qed

section \<open>The two spellings of a condition\<close>

lemma parse_less:
  assumes "trim t = t" "first_spelled spelled_ops t = Some (i, p, o1)" "trim (take i t) = n" "trim (drop (i + length o1) t) = v"
    "trim v = v" "strip_prefix ''['' v = None" "\<not> quoted_by (CHR 0x22) v" "\<not> quoted_by (CHR 0x27) v" "dec_parse io v = Some d"
  shows "parse_when io t = (case field_named n of None \<Rightarrow> Inl (UnknownField n)
    | Some f \<Rightarrow> and_then (validate_when \<lparr>w_field = f, w_op = p, w_value = CvNum d\<rparr>) (\<lambda>_. Inr \<lparr>w_field = f, w_op = p, w_value = CvNum d\<rparr>))"
  using assms by (simp add: parse_when_def build_when_def parse_condition_value_def Let_def split: option.split)

text \<open>The reader of a condition documents that a rule can never be valid in one spelling and refused in the
  other. The hourly result is: the text form takes the documented name of the field and refuses the name the
  derived reader of the table form knows, the table form takes that one and refuses the documented name,
  which is the one the user interface sends. The other seven fields have one name in both forms.\<close>

theorem condition_spellings_disagree:
  assumes "dec_parse io ''0'' = Some 0"
  shows "parse_when io ''recent_pnl_1h < 0'' = Inr \<lparr>w_field = RecentPnl1h, w_op = OpLt, w_value = CvNum 0\<rparr> \<and>
    read_when io (WhenTable ''recent_pnl_1h'' ''<'' (CvNum 0)) = Inl TableRefused \<and>
    read_when io (WhenTable ''recent_pnl1h'' ''<'' (CvNum 0)) = Inr \<lparr>w_field = RecentPnl1h, w_op = OpLt, w_value = CvNum 0\<rparr> \<and>
    parse_when io ''recent_pnl1h < 0'' = Inl (UnknownField ''recent_pnl1h'') \<and>
    list_all (\<lambda>f. f = RecentPnl1h \<or> serde_field (field_name f) = Some f \<and> field_named (field_name f) = Some f)
      [AvailableBalance, TotalEquity, OpenPositions, CurrentPrice, TimeLeftSec, FSymbol, RecentPnl1h, ConsecutiveLosses]"
proof (intro conjI)
  have texts: "trim ''recent_pnl_1h < 0'' = ''recent_pnl_1h < 0''" "trim ''recent_pnl1h < 0'' = ''recent_pnl1h < 0''"
    "first_spelled spelled_ops ''recent_pnl_1h < 0'' = Some (14, OpLt, ''<'')"
    "first_spelled spelled_ops ''recent_pnl1h < 0'' = Some (13, OpLt, ''<'')"
    "trim (take 14 ''recent_pnl_1h < 0'') = ''recent_pnl_1h''" "trim (take 13 ''recent_pnl1h < 0'') = ''recent_pnl1h''"
    "trim (drop (14 + length ''<'') ''recent_pnl_1h < 0'') = ''0''" "trim (drop (13 + length ''<'') ''recent_pnl1h < 0'') = ''0''"
    by code_simp+
  have zero: "trim ''0'' = ''0''" "strip_prefix ''['' ''0'' = None" "\<not> quoted_by (CHR 0x22) ''0''" "\<not> quoted_by (CHR 0x27) ''0''"
    by code_simp+
  show "parse_when io ''recent_pnl_1h < 0'' = Inr \<lparr>w_field = RecentPnl1h, w_op = OpLt, w_value = CvNum 0\<rparr>"
    unfolding parse_less [OF texts(1,3,5,7) zero assms]
    by (simp add: field_named_def validate_when_def numeric_value_def)
  show "parse_when io ''recent_pnl1h < 0'' = Inl (UnknownField ''recent_pnl1h'')"
    unfolding parse_less [OF texts(2,4,6,8) zero assms] by (simp add: field_named_def)
  show "read_when io (WhenTable ''recent_pnl_1h'' ''<'' (CvNum 0)) = Inl TableRefused"
    by (simp add: read_when_def serde_field_def serde_field_name_def)
  show "read_when io (WhenTable ''recent_pnl1h'' ''<'' (CvNum 0)) = Inr \<lparr>w_field = RecentPnl1h, w_op = OpLt, w_value = CvNum 0\<rparr>"
    by (simp add: read_when_def serde_field_def serde_field_name_def read_op_def)
qed (simp add: serde_field_def serde_field_name_def field_name_def field_named_def)

text \<open>An operator that does not fit is not a refusal. The load checks the kind of the value against the
  field; the pairs it lets through in which the operator has no reading, an order on names, equality with a
  list, membership in a number, are conditions that no facts satisfy.\<close>

theorem accepted_condition_never_holds:
  assumes "validate_when w = Inr ()"
    and "case w_value w of CvNum _ \<Rightarrow> w_op w = OpIn | CvText _ \<Rightarrow> w_op w \<notin> {OpEq, OpNe} | CvTextList _ \<Rightarrow> w_op w \<noteq> OpIn"
  shows "\<not> when_holds w input"
  using assms by (auto simp: when_holds_def validate_when_def compares_def numeric_value_def
      split: condition_value.splits compare_op.splits condition_field.splits option.splits)

section \<open>Concrete policies\<close>

definition demo_rule :: policy_rule where
  "demo_rule = \<lparr>r_name = ''cheap'', r_priority = 100, r_enabled = True,
     r_when = \<lparr>w_field = CurrentPrice, w_op = OpLt, w_value = CvNum 1\<rparr>,
     r_then = \<lparr>act_action = None, act_budget_ratio = Some (1 / 10), act_min_budget_usd = None, act_max_budget_usd = None,
       act_cooldown_sec = None\<rparr>, r_reason = None\<rparr>"

definition pause_rule :: policy_rule where
  "pause_rule = demo_rule\<lparr>r_name := ''pause'', r_priority := 10,
     r_then := \<lparr>act_action = None, act_budget_ratio = None, act_min_budget_usd = None, act_max_budget_usd = None,
       act_cooldown_sec = Some (-5)\<rparr>\<rparr>"

definition demo_io :: policy_io where
  "demo_io = \<lparr>dec_parse = (\<lambda>t. if t = ''#'' \<or> t = ''0.1'' then Some (1 / 10) else if t = ''0'' then Some 0 else None),
     rules_parse = (\<lambda>t. if t = ''R'' then Some [demo_rule] else if t = ''P'' then Some [pause_rule] else None),
     rules_render = (\<lambda>_. Some [CHR 0x22, CHR 0x27]), toml_reread = Some\<rparr>"

definition demo_facts :: policy_input where
  "demo_facts = \<lparr>pi_available_balance = 100, pi_total_equity = 100, pi_open_positions = 0, pi_current_price = 1 / 2,
     pi_time_left_sec = 60, pi_symbol = ''BTC'', pi_recent_pnl_1h = 0, pi_consecutive_losses = 0\<rparr>"

lemma demo_texts: "trim ''R'' = ''R''" "trim ''P'' = ''P''" "trim ''a'' = ''a''" "trim [] = []"
  by code_simp+

lemmas demo_rules = demo_rule_def pause_rule_def action_validate_def validate_when_def numeric_value_def

lemma demo_loads: "load_with_env demo_io (Some policy_file_default) (rules_env ''R'') = Inr (rules_policy [demo_rule])"
  by (rule rules_env_loads) (simp_all add: demo_io_def demo_texts demo_rules)

lemma demo_fires: "when_holds (r_when demo_rule) demo_facts" "when_holds (r_when pause_rule) demo_facts"
  by (simp_all add: demo_rules when_holds_def compares_def demo_facts_def)

lemma demo_verdict: "policy_evaluate (rules_policy [demo_rule]) ''a'' demo_facts = Inr (PPlace 10 (1 / 10) 0 1000000000)"
proof -
  have "winning_rule (code_defaults\<lparr>sd_rules := [demo_rule]\<rparr>) demo_facts = Some demo_rule"
    using demo_fires by (simp add: winning_rule_def) (simp add: demo_rule_def)
  then show ?thesis
    by (simp add: policy_evaluate_def rules_policy_def section_for_def demo_texts code_defaults_def demo_facts_def)
      (simp add: apply_rule_def demo_rule_def scoped_by_def scoped_validate_def place_budget_def code_defaults_def demo_facts_def)
qed

theorem policy_budget_within_ceiling_witness:
  "load_with_env demo_io (Some policy_file_default) (rules_env ''R'') = Inr (rules_policy [demo_rule]) \<and>
   (10 :: decimal) = min (max (pi_available_balance demo_facts * (1 / 10)) 0) 1000000000 \<and>
   (1000000000 :: decimal) \<le> sd_max_budget_usd (section_for (rules_policy [demo_rule]) ''a'')"
  using policy_budget_within_ceiling [OF demo_loads demo_verdict] demo_loads by blast

theorem first_enabled_rule_decides_witness:
  "winning_rule (code_defaults\<lparr>sd_rules := [demo_rule, pause_rule]\<rparr>) demo_facts = Some pause_rule \<and>
   (\<exists>pre post. [demo_rule, pause_rule] = pre @ pause_rule # post)"
proof -
  let ?s = "code_defaults\<lparr>sd_rules := [demo_rule, pause_rule]\<rparr>"
  have win: "winning_rule ?s demo_facts = Some pause_rule"
    using demo_fires by (simp add: winning_rule_def) (simp add: demo_rules)
  have "case winning_rule ?s demo_facts of None \<Rightarrow> True | Some r \<Rightarrow> \<exists>pre post. sd_rules ?s = pre @ r # post"
    using first_enabled_rule_decides [where s = ?s and input = demo_facts and p = "rules_policy []" and account = "''a''"]
    by (auto split: option.splits)
  then show ?thesis by (simp add: win)
qed

theorem loaded_rule_refuses_orders_witness:
  "\<exists>p e. load_with_env demo_io (Some policy_file_default) (rules_env ''P'') = Inr p \<and>
    policy_evaluate p ''a'' demo_facts = Inl e"
  by (rule loaded_rule_refuses_orders [where r = pause_rule])
    (use demo_fires in \<open>simp_all add: demo_io_def demo_texts demo_rules knob_broken_def demo_facts_def\<close>)

theorem condition_spellings_disagree_witness:
  "parse_when demo_io ''recent_pnl_1h < 0'' = Inr \<lparr>w_field = RecentPnl1h, w_op = OpLt, w_value = CvNum 0\<rparr> \<and>
   read_when demo_io (WhenTable ''recent_pnl_1h'' ''<'' (CvNum 0)) = Inl TableRefused"
  using condition_spellings_disagree [of demo_io] by (simp add: demo_io_def)

theorem accepted_condition_never_holds_witness:
  "\<not> when_holds \<lparr>w_field = FSymbol, w_op = OpIn, w_value = CvText ''BTC''\<rparr> demo_facts"
  by (rule accepted_condition_never_holds) (simp_all add: validate_when_def numeric_value_def)

end
