(* ===== verification/PolicyWriteProps.thy ===== *)
theory PolicyWriteProps
  imports PolicyWrite PolicyProps
begin

text \<open>
  Changing the policy of a running kernel. A section that the write face reports as written is the
  section the kernel judges under, and it is the file that says so; where the write is reported and is
  not in force, or refused and has taken the old section with it, and which accounts share one section.
\<close>

section \<open>The sections an environment gives\<close>

definition env_section :: "policy_io \<Rightarrow> (string \<Rightarrow> string option) \<Rightarrow> section_defaults \<Rightarrow> string \<Rightarrow> section_defaults option" where
  "env_section io env d i = (if env_has_policy_section env i
     then (case apply_env io (Some i) env d of Inr s \<Rightarrow> Some s | Inl _ \<Rightarrow> None) else None)"

lemma load_env_accounts:
  "fold_try (load_env_account io env d) ids m = Inr m1 \<Longrightarrow>
    map_of m1 i = (if map_of m i \<noteq> None \<or> i \<notin> set ids then map_of m i else env_section io env d i) \<and>
    (i \<in> set ids \<and> map_of m i = None \<and> env_has_policy_section env i \<longrightarrow> (\<exists>s. apply_env io (Some i) env d = Inr s))"
proof (induction ids arbitrary: m)
  case (Cons j ids)
  obtain n where n: "load_env_account io env d j m = Inr n" "fold_try (load_env_account io env d) ids n = Inr m1"
    using Cons.prems by (auto simp: and_then_Inr)
  show ?case
  proof (cases "map_of m j \<noteq> None \<or> \<not> env_has_policy_section env j")
    case True
    then have "n = m" using n(1) by (simp add: load_env_account_def)
    then show ?thesis using Cons.IH [OF n(2)] True by (auto simp: env_section_def)
  next
    case False
    then obtain s where "apply_env io (Some j) env d = Inr s" "n = AList.update j s m"
      using n(1) by (auto simp: load_env_account_def and_then_Inr split: if_splits)
    then show ?thesis using Cons.IH [OF n(2)] False by (auto simp: env_section_def)
  qed
qed simp

lemma loaded_from_env:
  assumes "load_with_env io (Some policy_file_default) env = Inr q"
  shows "section_for q i = (if i \<in> set (account_list_of env) \<and> env_has_policy_section env i
      then the (env_section io env (po_defaults q) i) else po_defaults q)"
    and "i \<in> set (account_list_of env) \<Longrightarrow> env_has_policy_section env i \<Longrightarrow>
      \<exists>s. apply_env io (Some i) env (po_defaults q) = Inr s"
proof -
  have f: "fold_try (load_env_account io env (po_defaults q)) (account_list_of env) [] = Inr (po_accounts q)"
    using assms by (auto simp: load_with_env_def policy_file_default_def and_then_Inr POLICY_VERSION_def)
  note l = load_env_accounts [OF f, of i]
  show "section_for q i = (if i \<in> set (account_list_of env) \<and> env_has_policy_section env i
      then the (env_section io env (po_defaults q) i) else po_defaults q)"
    using l by (auto simp: section_for_def env_section_def split: option.splits)
  show "\<exists>s. apply_env io (Some i) env (po_defaults q) = Inr s"
    if "i \<in> set (account_list_of env)" "env_has_policy_section env i"
    using l that by simp
qed

section \<open>The keys of a section\<close>

lemma upper_key_char: "key_char (ascii_uppercase (if alnum_byte c then c else CHR ''_''))"
proof (cases "alnum_byte c")
  case True
  then show ?thesis
    by (auto simp: key_char_def ascii_uppercase_def alnum_byte_def Let_def)
qed (simp add: key_char_def ascii_uppercase_def Let_def)

lemma section_key_shape: "t \<in> set section_tails \<Longrightarrow> key_shape (section_key i t)"
  using upper_key_char
  by (auto simp: key_shape_def section_key_def section_tails_def key_start_def list_all_iff env_account_suffix_def
      ascii_alphabetic_def key_char_def alnum_byte_def)

lemma section_key_inj: "section_key i t = section_key i u \<longleftrightarrow> t = u"
  by (simp add: section_key_def)

lemma state_keys:
  assumes "section_env_state D io i section = Inr state"
  shows "distinct (map fst state)" "fst ` set state = section_key i ` set section_tails"
  using assms by (auto simp: section_env_state_def Let_def section_key_inj section_tails_def
      split: option.splits)

text \<open>What the environment has to say for a section to be read from it.\<close>

definition printed_fields :: "dec_ops \<Rightarrow> policy_io \<Rightarrow> section_fields \<Rightarrow> (string \<times> string option) list" where
  "printed_fields D io s =
    [(''BUDGET_RATIO'', map_option (dshow D) (sf_budget_ratio s)),
     (''MAX_BUDGET_USD'', map_option (dshow D) (sf_max_budget_usd s)),
     (''MAX_POSITIONS_PER_ASSET'', map_option nat_str (sf_max_positions_per_asset s)),
     (''MIN_BUDGET_USD'', map_option (dshow D) (sf_min_budget_usd s)),
     (''MIN_EQUITY_USD'', map_option (dshow D) (sf_min_equity_usd s)),
     (''RULES'', Option.bind (sf_rules s) (rules_render io))]"

lemma state_printed:
  assumes "section_env_state D io i (Some s) = Inr state"
  shows "state = map (\<lambda>(t, v). (section_key i t, v)) (printed_fields D io s)"
  using assms by (auto simp: section_env_state_def printed_fields_def Let_def split: option.splits)

definition reads_back :: "dec_ops \<Rightarrow> policy_io \<Rightarrow> decimal option \<Rightarrow> bool" where
  "reads_back D io v \<longleftrightarrow> (case v of None \<Rightarrow> True | Some d \<Rightarrow> dec_parse io (trim (dshow D d)) = Some d \<and> LF \<notin> set (dshow D d))"

definition readable_fields :: "dec_ops \<Rightarrow> policy_io \<Rightarrow> section_fields \<Rightarrow> bool" where
  "readable_fields D io s \<longleftrightarrow> reads_back D io (sf_budget_ratio s) \<and> reads_back D io (sf_min_budget_usd s) \<and>
     reads_back D io (sf_max_budget_usd s) \<and> reads_back D io (sf_min_equity_usd s) \<and>
     (case sf_max_positions_per_asset s of None \<Rightarrow> True | Some n \<Rightarrow> n < 2 ^ 32) \<and>
     (case sf_rules s of None \<Rightarrow> True | Some rs \<Rightarrow>
        (case rules_render io rs of None \<Rightarrow> False | Some t \<Rightarrow> rules_parse io (trim t) = Some rs \<and> LF \<notin> set t))"

lemma printed_no_LF: "readable_fields D io s \<Longrightarrow> (t, Some v) \<in> set (printed_fields D io s) \<Longrightarrow> LF \<notin> set v"
  using nat_str_plain [of LF] by (auto simp: printed_fields_def readable_fields_def reads_back_def split: option.splits)

lemma validate_then_label:
  "fold_try (validate_then l) rs () = Inr () \<longleftrightarrow> (\<forall>r \<in> set rs. action_validate (r_then r) (r_name r) = Inr ())"
  by (induction rs) (auto simp: validate_then_def map_error_def and_then_def split: sum.splits)

text \<open>An environment that holds the printed fields at the section's keys, and nothing at the older names,
  layers the section.\<close>

lemma apply_env_layers:
  assumes read: "\<forall>(t, v) \<in> set (printed_fields D io s). env (section_key i t) = v"
    and aliases: "env (''BUDGET_RATIO_'' @ env_account_suffix i) = None" "env (''MAX_BUDGET_USD_'' @ env_account_suffix i) = None"
    and fields: "readable_fields D io s" and ok: "apply_env io (Some i) env d = Inr d1"
  shows "layer_section d s label = Inr d1"
proof -
  let ?x = "account_suffix (Some i)"
  have key: "''POLICY_'' @ t @ ?x = section_key i t" for t by (simp add: account_suffix_def section_key_def)
  have dec: "env_decimal io l (map_option (dshow D) v) old = Inr (over v old)" if "reads_back D io v" for l v old
    using that by (auto simp: env_decimal_def reads_back_def over_def split: option.splits)
  have e: "env (''POLICY_BUDGET_RATIO'' @ ?x) = map_option (dshow D) (sf_budget_ratio s)"
    "env (''POLICY_MIN_BUDGET_USD'' @ ?x) = map_option (dshow D) (sf_min_budget_usd s)"
    "env (''POLICY_MAX_BUDGET_USD'' @ ?x) = map_option (dshow D) (sf_max_budget_usd s)"
    "env (''POLICY_MIN_EQUITY_USD'' @ ?x) = map_option (dshow D) (sf_min_equity_usd s)"
    "env (''POLICY_MAX_POSITIONS_PER_ASSET'' @ ?x) = map_option nat_str (sf_max_positions_per_asset s)"
    "env (''POLICY_RULES'' @ ?x) = Option.bind (sf_rules s) (rules_render io)"
    "env (''BUDGET_RATIO'' @ ?x) = None" "env (''MAX_BUDGET_USD'' @ ?x) = None"
    using read aliases key [of "''BUDGET_RATIO''"] key [of "''MIN_BUDGET_USD''"] key [of "''MAX_BUDGET_USD''"]
      key [of "''MIN_EQUITY_USD''"] key [of "''MAX_POSITIONS_PER_ASSET''"] key [of "''RULES''"]
    by (simp_all add: printed_fields_def account_suffix_def)
  have none: "or_alias (map_option g v) None = map_option g v" for g :: "decimal \<Rightarrow> string" and v
    by (simp add: or_alias_def split: option.splits)
  have cap: "env_u32 l (map_option nat_str (sf_max_positions_per_asset s)) old = Inr (over (sf_max_positions_per_asset s) old)" for l old
    using fields by (auto simp: env_u32_def readable_fields_def over_def parse_u32_nat_str split: option.splits)
  obtain rules where r: "env_rules io (''POLICY_RULES'' @ ?x) (Option.bind (sf_rules s) (rules_render io)) (sd_rules d) = Inr rules"
    and d1: "d1 = d\<lparr>sd_budget_ratio := over (sf_budget_ratio s) (sd_budget_ratio d),
       sd_min_budget_usd := over (sf_min_budget_usd s) (sd_min_budget_usd d),
       sd_max_budget_usd := over (sf_max_budget_usd s) (sd_max_budget_usd d),
       sd_min_equity_usd := over (sf_min_equity_usd s) (sd_min_equity_usd d),
       sd_max_positions_per_asset := over (sf_max_positions_per_asset s) (sd_max_positions_per_asset d), sd_rules := rules\<rparr>"
    using ok fields unfolding apply_env_def Let_def e none
    by (auto simp: dec cap readable_fields_def and_then_Inr)
  show ?thesis
  proof (cases "sf_rules s")
    case None
    then have "rules = sd_rules d" using r by (simp add: env_rules_def)
    then show ?thesis using None by (simp add: layer_section_def d1)
  next
    case (Some rs)
    then obtain t where t: "rules_render io rs = Some t" "rules_parse io (trim t) = Some rs"
      using fields by (auto simp: readable_fields_def split: option.splits)
    then have "rules = rs" "\<forall>r \<in> set rs. action_validate (r_then r) (r_name r) = Inr ()"
      using r Some by (auto simp: env_rules_def and_then_Inr validate_then_label)
    then have "fold_try (validate_then label) rs () = Inr ()" by (simp add: validate_then_label)
    then show ?thesis using Some \<open>rules = rs\<close> by (simp add: layer_section_def d1)
  qed
qed

end
