(* ===== verification/PolicyInForce.thy ===== *)
theory PolicyInForce
  imports PolicyWriteProps
begin

text \<open>
  The write face as a whole, from the request to the policy the kernel judges under: when a section that
  was reported as written is in force, the two ways in which it is not, and a refused write that leaves the
  file without the section it had.
\<close>

section \<open>A reported write is in force\<close>

lemma map_of_record_fold:
  "distinct (map fst xs) \<Longrightarrow> map_of (fold (\<lambda>(k, v). AList.update k v) xs m) k =
    (case map_of xs k of Some v \<Rightarrow> Some v | None \<Rightarrow> map_of m k)"
proof (induction xs arbitrary: m)
  case (Cons x xs)
  obtain k1 v where x: "x = (k1, v)" by (cases x)
  have "map_of xs k1 = None" using Cons.prems by (simp add: x map_of_eq_None_iff)
  moreover have "map_of (fold (\<lambda>(k, v). AList.update k v) (x # xs) m) k =
      (case map_of xs k of Some v \<Rightarrow> Some v | None \<Rightarrow> map_of (AList.update k1 v m) k)"
    using Cons by (simp add: x)
  ultimately show ?case by (cases "k = k1") (simp_all add: x split: option.split)
qed simp

lemma written_vars_simps [simp]: "written_vars [] = []"
  "written_vars ((k, None) # state) = written_vars state" "written_vars ((k, Some v) # state) = (k, v) # written_vars state"
  by (simp_all add: written_vars_def map_filter_def)

lemma written_vars_map:
  "distinct (map fst state) \<Longrightarrow> map_of (written_vars state) k = Option.bind (map_of state k) id"
proof (induction state)
  case (Cons x state)
  obtain k1 v where x: "x = (k1, v)" by (cases x)
  have "map_of state k1 = None" using Cons.prems by (simp add: x map_of_eq_None_iff)
  then show ?case using Cons by (cases v) (simp_all add: x)
qed simp

lemma set_written_vars: "(k, v) \<in> set (written_vars state) \<longleftrightarrow> (k, Some v) \<in> set state"
proof (induction state)
  case (Cons x state)
  then show ?case by (cases x; cases "snd x") auto
qed simp

lemma distinct_written_vars: "distinct (map fst state) \<Longrightarrow> distinct (map fst (written_vars state))"
proof (induction state)
  case (Cons x state)
  then show ?case using set_written_vars [of _ _ state] by (cases x; cases "snd x") force+
qed simp

lemma section_write_file:
  assumes "policy_section_write D io E i section k = (Inr state, k1)"
    and "\<forall>(key, v) \<in> set (written_vars state). LF \<notin> set v"
  shows "section_env_state D io i section = Inr state"
    "\<And>key. env_map (pk_env_file k1) key = (case map_of state key of Some v \<Rightarrow> v | None \<Rightarrow> env_map (pk_env_file k) key)"
    "pk_policy k1 = pk_policy k" "pk_env_writes k1 = pk_env_writes k" "pk_positions k1 = pk_positions k"
proof -
  obtain k0 where k0: "sweep_legacy E k = Inr k0" and st: "section_env_state D io i section = Inr state"
    using assms(1) by (auto simp: policy_section_write_def split: if_splits sum.splits prod.splits)
  have same: "pk_env_file k0 = pk_env_file k" "pk_policy k0 = pk_policy k" "pk_env_writes k0 = pk_env_writes k"
    "pk_positions k0 = pk_positions k"
    using k0 by (auto simp: sweep_legacy_def split: legacy_toml.splits if_splits)
  obtain r f ks f1 where rm: "remove_env_vars (pe_sweep_ok E) (map fst state) (pk_env_file k0) = (Inr r, f)"
    and up: "upsert_env_vars (pe_write_ok E) (written_vars state) f = (Inr ks, f1)" and k1: "k1 = k0\<lparr>pk_env_file := f1\<rparr>"
    using assms(1) by (auto simp: policy_section_write_def k0 st split: if_splits sum.splits prod.splits)
  note keys = state_keys [OF st]
  have shape: "key_shape key" if "(key, v) \<in> set (written_vars state)" for key v
  proof -
    have "key \<in> fst ` set state" using that by (force simp: set_written_vars)
    then show ?thesis unfolding keys(2) using section_key_shape by blast
  qed
  then have "\<forall>(key, v) \<in> set (written_vars state). key_shape key \<and> LF \<notin> set v" using assms(2) by blast
  then have map: "env_map f1 = env_map f ++ map_of (written_vars state)"
    by (rule upserted_map [OF up distinct_written_vars [OF keys(1)]])
  show "section_env_state D io i section = Inr state" by (rule st)
  show "env_map (pk_env_file k1) key = (case map_of state key of Some v \<Rightarrow> v | None \<Rightarrow> env_map (pk_env_file k) key)" for key
  proof -
    have file1: "env_map (pk_env_file k1) key =
        (case Option.bind (map_of state key) id of None \<Rightarrow> env_map f key | Some v \<Rightarrow> Some v)"
      unfolding k1 written_vars_map [OF keys(1), symmetric] by (simp add: map map_add_def)
    have gone: "env_map f key = (if map_of state key \<noteq> None then None else env_map (pk_env_file k) key)"
      using removed_map [OF rm, of key] by (simp add: same map_of_eq_None_iff)
    show ?thesis unfolding file1 gone by (cases "map_of state key") (auto split: option.split)
  qed
  show "pk_policy k1 = pk_policy k" "pk_env_writes k1 = pk_env_writes k" "pk_positions k1 = pk_positions k"
    by (simp_all add: k1 same)
qed

definition env_of :: "policy_env \<Rightarrow> policy_kernel \<Rightarrow> string \<Rightarrow> string option" where
  "env_of E k = reload_env (pe_process E) (pk_env_writes k) (pk_env_file k)"

lemma reload_done:
  assumes "reload_execution_policy io E k = (Inr u, k1)"
  obtains q where "pk_policy k1 = Some q" "load_with_env io (Some policy_file_default) (env_of E k) = Inr q"
    "pk_env_writes k1 = pk_env_writes k" "pk_env_file k1 = pk_env_file k"
proof -
  obtain q where q: "load_for_reload io (pe_process E) (pk_env_writes k) (pk_env_file k) = Inr q"
    "k1 = k\<lparr>pk_positions := set_config (pe_disk E) ((pe_positions E)\<lparr>pc_max_positions_per_asset :=
       over (pe_cap E) (sd_max_positions_per_asset (po_defaults q))\<rparr>) (pk_positions k), pk_policy := Some q\<rparr>"
    using assms by (auto simp: reload_execution_policy_def Let_def split: if_splits sum.splits)
  moreover have "load_with_env io (Some policy_file_default) (env_of E k) = Inr q"
    using q(1) by (auto simp: load_for_reload_def env_of_def map_error_def split: env_text.splits sum.splits)
  ultimately show ?thesis using that by simp
qed

lemma apply_section_done:
  assumes "apply_section D io E a i section k = (Inr i1, k1)"
    and lf: "\<And>state. section_env_state D io i section = Inr state \<Longrightarrow> \<forall>(key, v) \<in> set (written_vars state). LF \<notin> set v"
  obtains q state where "pk_policy k1 = Some q" "load_with_env io (Some policy_file_default) (env_of E k1) = Inr q"
    "section_env_state D io i section = Inr state" "\<And>key v. map_of state key = Some v \<Longrightarrow> env_of E k1 key = v"
proof -
  obtain state k2 k3 where w: "policy_section_write D io E i section k = (Inr state, k2)"
    and r: "reload_execution_policy io E (execution_policy_record_env_write state k2) = (Inr (), k3)"
    and k1: "k1 = append_audit E (change_record a i (execution_policy_section_view D k i)
        (execution_policy_section_view D k3 i)) k3"
    using assms(1) by (auto simp: apply_section_def Let_def split: prod.splits sum.splits)
  have st: "section_env_state D io i section = Inr state"
    using w by (auto simp: policy_section_write_def split: if_splits sum.splits prod.splits)
  note fl = section_write_file [OF w lf [OF st]]
  obtain q where q: "pk_policy k3 = Some q"
    "load_with_env io (Some policy_file_default) (env_of E (execution_policy_record_env_write state k2)) = Inr q"
    "pk_env_writes k3 = pk_env_writes (execution_policy_record_env_write state k2)"
    "pk_env_file k3 = pk_env_file (execution_policy_record_env_write state k2)"
    using reload_done [OF r] by metis
  have same: "pk_env_writes k1 = pk_env_writes k3" "pk_env_file k1 = pk_env_file k3" "pk_policy k1 = pk_policy k3"
    by (simp_all add: k1 append_audit_def)
  have env: "env_of E k1 = env_of E (execution_policy_record_env_write state k2)"
    by (simp add: env_of_def same q(3,4))
  have "env_of E k1 key = v" if "map_of state key = Some v" for key v
  proof -
    have f: "env_map (pk_env_file k1) key = v" using that fl(2) [of key]
      by (simp add: same q(4) execution_policy_record_env_write_def)
    have w: "map_of (pk_env_writes k1) key = Some v" using that
      by (simp add: same q(3) execution_policy_record_env_write_def map_of_record_fold [OF state_keys(1) [OF st]])
    show ?thesis unfolding env_of_def reload_env_def f w by (cases v) simp_all
  qed
  then show ?thesis using that [OF _ _ st] q(1,2) by (simp add: same env)
qed

lemma nothing_printed:
  assumes "\<forall>(t, v) \<in> set (printed_fields D io s). v = None" "readable_fields D io s"
  shows "s = no_fields"
proof -
  have "sf_rules s = None"
    using assms by (auto simp: printed_fields_def readable_fields_def split: option.splits)
  moreover have "sf_budget_ratio s = None" "sf_min_budget_usd s = None" "sf_max_budget_usd s = None"
    "sf_min_equity_usd s = None" "sf_max_positions_per_asset s = None"
    using assms(1) by (auto simp: printed_fields_def)
  ultimately show ?thesis by (simp add: no_fields_def)
qed

text \<open>C30 A section that the write face reports as written is the section the kernel judges under. If
  \<open>execution_policy.set\<close> answers with success, every value prints to a line of text that reads back as
  itself, the account is on the account list and no value stands at the two older names, then the running
  policy's section for the account is the defaults with exactly the written fields layered on top: absent
  fields inherit, whatever the process environment of the boot still carries for them.\<close>

theorem policy_write_is_in_force:
  assumes set: "execution_policy_set D io renders E p k = (Inr i, k1)"
    and s: "section_from_set_params io renders p = Inr s" and fields: "readable_fields D io s"
    and listed: "sp_account_id p \<in> set (account_list_of (env_of E k1))"
    and older: "env_of E k1 (''BUDGET_RATIO_'' @ env_account_suffix (sp_account_id p)) = None"
      "env_of E k1 (''MAX_BUDGET_USD_'' @ env_account_suffix (sp_account_id p)) = None"
  shows "\<exists>q. pk_policy k1 = Some q \<and> layer_section (po_defaults q) s label = Inr (section_for q (sp_account_id p))"
proof -
  let ?i = "sp_account_id p"
  have a: "apply_section D io E ActSet ?i (Some s) k = (Inr i, k1)"
    using set s by (auto simp: execution_policy_set_def split: if_splits)
  have lf: "\<forall>(key, v) \<in> set (written_vars state). LF \<notin> set v" if "section_env_state D io ?i (Some s) = Inr state" for state
    using printed_no_LF [OF fields] by (auto simp: set_written_vars state_printed [OF that])
  obtain q state where q: "pk_policy k1 = Some q" "load_with_env io (Some policy_file_default) (env_of E k1) = Inr q"
    and st: "section_env_state D io ?i (Some s) = Inr state" and reads: "\<And>key v. map_of state key = Some v \<Longrightarrow> env_of E k1 key = v"
    using apply_section_done [OF a lf] by blast
  have read: "env_of E k1 (section_key ?i t) = v" if "(t, v) \<in> set (printed_fields D io s)" for t v
    using that by (intro reads map_of_is_SomeI state_keys(1) [OF st]) (auto simp: state_printed [OF st])
  have "layer_section (po_defaults q) s label = Inr (section_for q ?i)"
  proof (cases "env_has_policy_section (env_of E k1) ?i")
    case True
    then obtain d where d: "apply_env io (Some ?i) (env_of E k1) (po_defaults q) = Inr d"
      using loaded_from_env(2) [OF q(2) listed] by blast
    then have "section_for q ?i = d" using True listed by (simp add: loaded_from_env(1) [OF q(2)] env_section_def)
    then show ?thesis using apply_env_layers [OF _ older fields d] read by blast
  next
    case False
    then have none: "env_of E k1 (section_key ?i t) = None" if "t \<in> set section_tails" for t
      using that by (auto simp: env_has_policy_section_def list_ex_iff)
    have "v = None" if "(t, v) \<in> set (printed_fields D io s)" for t v
    proof -
      have "t \<in> fst ` set (printed_fields D io s)" using that by force
      then have "t \<in> set section_tails" by (auto simp: printed_fields_def section_tails_def)
      then show ?thesis using read [OF that] none by simp
    qed
    then have "s = no_fields" using fields by (intro nothing_printed) blast+
    then show ?thesis using False by (simp add: loaded_from_env(1) [OF q(2)] layer_section_def no_fields_def over_def)
  qed
  then show ?thesis using q(1) by blast
qed

section \<open>A refused write that takes the section along\<close>

lemma upsert_lines_refuse:
  "(k, v) \<in> set vars \<Longrightarrow> CHR 0x22 \<in> set v \<Longrightarrow> CHR 0x27 \<in> set v \<Longrightarrow> \<exists>e. upsert_lines existing vars ls = Inl e"
proof (induction vars arbitrary: ls)
  case (Cons x vars)
  obtain k1 v1 where x: "x = (k1, v1)" by (cases x)
  show ?case
  proof (cases "render_line k1 v1")
    case (Inr line)
    then have "(k, v) \<in> set vars" using Cons.prems by (auto simp: x render_line_def)
    then show ?thesis using Cons.IH Cons.prems(2,3) Inr by (simp add: x)
  qed (simp add: x)
qed simp

lemma remove_ok: "\<exists>r f1. remove_env_vars True keys f = (Inr r, f1)"
  by (cases f) (auto simp: remove_env_vars_def Let_def write_atomic_def)

text \<open>\<open>policy_section_write\<close> documents that a rejected write has not touched the file. The sweep comes
  first: rules whose JSON text carries both kinds of quotation mark, as every rule with an apostrophe in its
  name or reason does, cannot be rendered as a line, the write is refused, and by then the account's six
  keys are gone from the file. The running kernel keeps its policy; the next boot, unless the process
  environment itself carries the keys, judges the account under the global defaults.\<close>

theorem refused_write_drops_the_section:
  assumes "section_from_set_params io renders p = Inr s" and "sf_rules s = Some rs" and "rules_render io rs = Some t"
    and "CHR 0x22 \<in> set t" and "CHR 0x27 \<in> set t"
    and "pe_path E" "pe_env_path E" "pe_sweep_ok E" and "pk_legacy k \<noteq> LegacyEdited" and "trim (sp_account_id p) \<noteq> []"
  shows "\<exists>e k1. execution_policy_set D io renders E p k = (Inl (WriteFailed e), k1) \<and> pk_policy k1 = pk_policy k \<and>
    (\<forall>key. env_map (pk_env_file k1) key =
       (if key \<in> section_key (sp_account_id p) ` set section_tails then None else env_map (pk_env_file k) key)) \<and>
    ((\<forall>tail \<in> set section_tails. process_value penv (section_key (sp_account_id p) tail) = None) \<longrightarrow>
     (\<forall>q. load_single_source io penv (Some (pk_env_file k1)) = Inr q \<longrightarrow> section_for q (sp_account_id p) = po_defaults q))"
proof -
  let ?i = "sp_account_id p"
  obtain k0 where k0: "sweep_legacy E k = Inr k0" "pk_env_file k0 = pk_env_file k" "pk_policy k0 = pk_policy k"
    using assms(9) by (cases "pk_legacy k") (auto simp: sweep_legacy_def)
  obtain state where st: "section_env_state D io ?i (Some s) = Inr state"
    using assms(2,3) by (simp add: section_env_state_def Let_def)
  note keys = state_keys [OF st]
  have "(section_key ?i ''RULES'', t) \<in> set (written_vars state)"
    using assms(2,3) by (simp add: set_written_vars state_printed [OF st] printed_fields_def image_iff)
  then have bad: "\<exists>e. upsert_lines existing (written_vars state) ls = Inl e" "written_vars state \<noteq> []" for existing ls
    using upsert_lines_refuse assms(4,5) by (blast, force)
  obtain r f where rm: "remove_env_vars True (map fst state) (pk_env_file k) = (Inr r, f)" using remove_ok by blast
  obtain e where up: "upsert_env_vars (pe_write_ok E) (written_vars state) f = (Inl e, f)"
    using bad(1) [of "env_file_key_set (env_lines f)" "env_lines f"] bad(2) by (auto simp: upsert_env_vars_def Let_def)
  let ?k1 = "k0\<lparr>pk_env_file := f\<rparr>"
  have run: "execution_policy_set D io renders E p k = (Inl (WriteFailed e), ?k1)"
    using assms(1,6-8,10) k0 st rm up
    by (simp add: execution_policy_set_def apply_section_def policy_section_write_def Let_def)
  have map: "env_map f key = (if key \<in> section_key ?i ` set section_tails then None else env_map (pk_env_file k) key)" for key
    using removed_map [OF rm, of key] keys(2) by (simp add: set_map)
  have "section_for q ?i = po_defaults q"
    if env: "\<forall>tail \<in> set section_tails. process_value penv (section_key ?i tail) = None"
      and q: "load_single_source io penv (Some f) = Inr q" for q
  proof -
    have "\<not> env_has_policy_section (boot_env penv (Some f)) ?i"
      using env map by (auto simp: env_has_policy_section_def list_ex_iff boot_env_def or_alias_def)
    then show ?thesis using loaded_from_env(1) [OF q [unfolded load_single_source_def]] by simp
  qed
  then show ?thesis using run map k0(3) by (intro exI [of _ e] exI [of _ ?k1]) simp
qed

section \<open>A reported write that is not in force\<close>

lemma apply_section_policy:
  assumes "apply_section D io E a i section k = (Inr i1, k1)"
  obtains q where "pk_policy k1 = Some q" "load_with_env io (Some policy_file_default) (env_of E k1) = Inr q"
proof -
  obtain state k2 k3 where r: "reload_execution_policy io E (execution_policy_record_env_write state k2) = (Inr (), k3)"
    and k1: "k1 = append_audit E (change_record a i (execution_policy_section_view D k i)
        (execution_policy_section_view D k3 i)) k3"
    using assms by (auto simp: apply_section_def Let_def split: prod.splits sum.splits)
  have same: "pk_env_writes k1 = pk_env_writes k3" "pk_env_file k1 = pk_env_file k3" "pk_policy k1 = pk_policy k3"
    by (simp_all add: k1 append_audit_def)
  show ?thesis using reload_done [OF r] that by (metis env_of_def same)
qed

text \<open>The loader makes account sections for the ids of \<open>ACCOUNT_LIST\<close> only. A section written for any
  other account, the default account of a deployment without a list included, is reported as set and
  audited, and the account is judged under the global defaults all the same.\<close>

theorem unlisted_account_write_is_inert:
  assumes "execution_policy_set D io renders E p k = (Inr i, k1)"
    and "sp_account_id p \<notin> set (account_list_of (env_of E k1))"
  shows "\<exists>q. pk_policy k1 = Some q \<and> section_for q (sp_account_id p) = po_defaults q"
proof -
  obtain s where "apply_section D io E ActSet (sp_account_id p) (Some s) k = (Inr i, k1)"
    using assms(1) by (auto simp: execution_policy_set_def split: if_splits sum.splits)
  then obtain q where q: "pk_policy k1 = Some q" "load_with_env io (Some policy_file_default) (env_of E k1) = Inr q"
    by (rule apply_section_policy)
  then show ?thesis using assms(2) by (simp add: loaded_from_env(1) [OF q(2)])
qed

section \<open>Accounts with one suffix\<close>

text \<open>The section of an account is found by its environment suffix, which forgets case and punctuation:
  two listed accounts that differ only there are judged under one section, so a write to one of them is a
  write to the other.\<close>

theorem equal_suffix_shares_the_section:
  assumes "load_with_env io (Some policy_file_default) env = Inr q"
    and "env_account_suffix a = env_account_suffix b"
    and "a \<in> set (account_list_of env)" and "b \<in> set (account_list_of env)"
  shows "section_for q a = section_for q b"
proof -
  have key: "section_key a t = section_key b t" for t using assms(2) by (simp add: section_key_def)
  have "env_has_policy_section env a = env_has_policy_section env b" by (simp add: env_has_policy_section_def key)
  moreover have "apply_env io (Some a) env d = apply_env io (Some b) env d" for d
    by (simp add: apply_env_def account_suffix_def assms(2))
  ultimately show ?thesis using assms(3,4) by (simp add: loaded_from_env(1) [OF assms(1)] env_section_def)
qed

section \<open>Concrete requests\<close>

definition demo_policy_env :: policy_env where
  "demo_policy_env = \<lparr>pe_path = True, pe_env_path = True,
     pe_process = (\<lambda>k. if k = ''ACCOUNT_LIST'' then Some ''a'' else None), pe_cap = None,
     pe_positions = position_config_default, pe_disk = (\<lambda>_. DfMissing), pe_unlink_ok = True, pe_sweep_ok = True,
     pe_write_ok = True, pe_audit_ok = True\<rparr>"

definition demo_policy_kernel :: policy_kernel where
  "demo_policy_kernel = \<lparr>pk_policy = None, pk_env_writes = [],
     pk_positions = manager_new (\<lambda>_. DfMissing) position_config_default, pk_env_file = EnvText [],
     pk_legacy = LegacyAbsent, pk_audit = []\<rparr>"

definition demo_set_params :: "string \<Rightarrow> set_params" where
  "demo_set_params account = \<lparr>sp_account_id = account, sp_budget_ratio = Some ''0.1'', sp_min_budget_usd = None,
     sp_max_budget_usd = None, sp_min_equity_usd = None, sp_max_positions_per_asset = None, sp_rules = None\<rparr>"

definition ratio_fields :: section_fields where
  "ratio_fields = no_fields\<lparr>sf_budget_ratio := Some (1 / 10)\<rparr>"

lemma demo_suffix: "env_account_suffix ''__probe__'' = ''__PROBE__''" "env_account_suffix ''a'' = ''A''"
  "env_account_suffix ''b'' = ''B''"
  by code_simp+

lemma no_env: "apply_env io account (\<lambda>_. None) s = Inr s"
  by (simp add: apply_env_def Let_def env_decimal_def env_u32_def env_rules_def or_alias_def)

lemma demo_io_sel [simp]: "dec_parse demo_io ''0.1'' = Some (1 / 10)" "dec_parse demo_io ''#'' = Some (1 / 10)"
  "toml_reread demo_io = Some" "rules_render demo_io rs = Some [CHR 0x22, CHR 0x27]"
  by (simp_all add: demo_io_def)

lemma probe_loads:
  assumes "s = ratio_fields \<or> s = no_fields\<lparr>sf_rules := Some [demo_rule]\<rparr>"
  shows "\<exists>q. load_with_env io (Some (policy_file_default\<lparr>pf_accounts := [(''__probe__'', s)]\<rparr>)) (\<lambda>_. None) = Inr q"
  using assms
  by (auto simp: load_with_env_def policy_file_default_def layer_section_def no_fields_def over_def no_env section_validate_def
      code_defaults_def load_file_account_def ratio_fields_def account_list_of_def validate_then_def validate_rule_when_def
      demo_rules map_error_def)

lemma demo_section: "section_from_set_params demo_io (\<lambda>_. True) (demo_set_params i) = Inr ratio_fields"
proof -
  have s: "\<lparr>sf_budget_ratio = Some (1 / 10), sf_min_budget_usd = None, sf_max_budget_usd = None, sf_min_equity_usd = None,
      sf_max_positions_per_asset = None, sf_rules = None\<rparr> = ratio_fields"
    by (simp add: ratio_fields_def no_fields_def)
  obtain q where "load_with_env demo_io (Some (policy_file_default\<lparr>pf_accounts := [(''__probe__'', ratio_fields)]\<rparr>)) (\<lambda>_. None) = Inr q"
    using probe_loads by blast
  then show ?thesis
    by (simp add: section_from_set_params_def demo_set_params_def wire_dec_def wire_rules_def s map_error_def Let_def)
qed

lemma demo_readable: "readable_fields exact_dec demo_io ratio_fields"
proof -
  have "trim ''#'' = ''#''" by code_simp
  then show ?thesis
    by (simp add: readable_fields_def ratio_fields_def no_fields_def reads_back_def demo_io_def LF_def)
qed

definition ratio_key :: "string \<Rightarrow> string" where
  "ratio_key i = section_key i ''BUDGET_RATIO''"

lemma demo_write:
  assumes "trim i \<noteq> []"
  obtains state f where
    "policy_section_write exact_dec demo_io demo_policy_env i (Some ratio_fields) demo_policy_kernel =
      (Inr state, demo_policy_kernel\<lparr>pk_env_file := EnvText f\<rparr>)"
    "section_env_state exact_dec demo_io i (Some ratio_fields) = Inr state"
    "written_vars state = [(ratio_key i, ''#'')]"
proof -
  obtain state where st: "section_env_state exact_dec demo_io i (Some ratio_fields) = Inr state"
    by (simp add: section_env_state_def ratio_fields_def no_fields_def Let_def)
  have vars: "written_vars state = [(ratio_key i, ''#'')]"
    by (simp add: state_printed [OF st] printed_fields_def ratio_fields_def no_fields_def ratio_key_def)
  have "remove_env_vars True (map fst state) (EnvText []) = (Inr [], EnvText [])"
    by (simp add: remove_env_vars_def str_lines_def map_filter_def)
  moreover have "\<exists>f. upsert_env_vars True [(ratio_key i, ''#'')] (EnvText []) = (Inr [ratio_key i], EnvText f)"
    by (simp add: upsert_env_vars_def write_atomic_def render_line_def env_lines_def str_lines_def Let_def)
  then obtain f where "upsert_env_vars True [(ratio_key i, ''#'')] (EnvText []) = (Inr [ratio_key i], EnvText f)" by blast
  ultimately have "policy_section_write exact_dec demo_io demo_policy_env i (Some ratio_fields) demo_policy_kernel =
      (Inr state, demo_policy_kernel\<lparr>pk_env_file := EnvText f\<rparr>)"
    using assms by (simp add: policy_section_write_def demo_policy_env_def demo_policy_kernel_def sweep_legacy_def st vars)
  then show ?thesis using that st vars by blast
qed

definition one_key_env :: "string \<Rightarrow> string \<Rightarrow> string option" where
  "one_key_env i k = (if k = ratio_key i then Some ''#'' else if k = ''ACCOUNT_LIST'' then Some ''a'' else None)"

lemma one_key_list: "account_list_of (one_key_env i) = [''a'']"
  by (simp add: account_list_of_def one_key_env_def ratio_key_def section_key_def demo_texts)

lemma one_key_globals: "apply_env io None (one_key_env i) s = Inr s"
  by (simp add: apply_env_def account_suffix_def Let_def env_decimal_def env_u32_def env_rules_def or_alias_def one_key_env_def
      ratio_key_def section_key_def)

lemma one_key_account:
  "apply_env demo_io (Some ''a'') (one_key_env ''a'') code_defaults = Inr (code_defaults\<lparr>sd_budget_ratio := 1 / 10\<rparr>)"
proof -
  have "trim ''#'' = ''#''" by code_simp
  then show ?thesis
    by (simp add: apply_env_def account_suffix_def Let_def env_decimal_def env_u32_def env_rules_def or_alias_def one_key_env_def
        ratio_key_def section_key_def demo_suffix code_defaults_def)
qed

lemma one_key_loads: "i = ''a'' \<or> i = ''b'' \<Longrightarrow> \<exists>q. load_with_env demo_io (Some policy_file_default) (one_key_env i) = Inr q"
proof -
  have d: "section_validate l code_defaults = Inr ()" "section_validate l (code_defaults\<lparr>sd_budget_ratio := 1 / 10\<rparr>) = Inr ()" for l
    by (simp_all add: section_validate_def code_defaults_def)
  have layer: "layer_section code_defaults no_fields l = Inr code_defaults" for l
    by (simp add: layer_section_def no_fields_def over_def)
  have b: "\<not> env_has_policy_section (one_key_env ''b'') ''a''"
    by (simp add: env_has_policy_section_def section_tails_def one_key_env_def ratio_key_def section_key_def demo_suffix)
  assume "i = ''a'' \<or> i = ''b''"
  then show ?thesis
    using b by (auto simp: load_with_env_def policy_file_default_def layer one_key_globals d one_key_list load_env_account_def
        one_key_account)
qed

lemma demo_set_runs:
  assumes i: "i = ''a'' \<or> i = ''b''"
  shows "\<exists>k1. execution_policy_set exact_dec demo_io (\<lambda>_. True) demo_policy_env (demo_set_params i) demo_policy_kernel = (Inr i, k1) \<and>
    env_of demo_policy_env k1 = one_key_env i"
proof -
  have "trim ''b'' = ''b''" by code_simp
  then have "trim i \<noteq> []" using i demo_texts by auto
  then obtain state f where w: "policy_section_write exact_dec demo_io demo_policy_env i (Some ratio_fields) demo_policy_kernel =
      (Inr state, demo_policy_kernel\<lparr>pk_env_file := EnvText f\<rparr>)"
    and st: "section_env_state exact_dec demo_io i (Some ratio_fields) = Inr state"
    and vars: "written_vars state = [(ratio_key i, ''#'')]"
    by (rule demo_write)
  let ?k = "execution_policy_record_env_write state (demo_policy_kernel\<lparr>pk_env_file := EnvText f\<rparr>)"
  have fl: "env_map (EnvText f) key = (case map_of state key of Some v \<Rightarrow> v | None \<Rightarrow> None)" for key
    using section_write_file(2) [OF w, of key]
    by (simp add: vars LF_def demo_policy_kernel_def env_map_def env_lines_def str_lines_def split: option.splits)
  have val: "map_of state key = (if key = ratio_key i then Some (Some ''#'')
      else if key \<in> section_key i ` set section_tails then Some None else None)" for key
    by (auto simp: state_printed [OF st] printed_fields_def ratio_fields_def no_fields_def ratio_key_def section_tails_def
        section_key_inj)
  have "''ACCOUNT_LIST'' \<notin> section_key i ` set section_tails" "''ACCOUNT_LIST'' \<noteq> ratio_key i"
    by (auto simp: section_tails_def section_key_def ratio_key_def)
  then have env: "env_of demo_policy_env ?k = one_key_env i"
    by (auto simp: fun_eq_iff env_of_def reload_env_def execution_policy_record_env_write_def fl val one_key_env_def
        map_of_record_fold [OF state_keys(1) [OF st]] demo_policy_kernel_def demo_policy_env_def process_value_def demo_texts)
  obtain q where q: "load_with_env demo_io (Some policy_file_default) (one_key_env i) = Inr q" using one_key_loads [OF i] by blast
  have "load_for_reload demo_io (pe_process demo_policy_env) (pk_env_writes ?k) (pk_env_file ?k) = Inr q"
    using q env by (simp add: load_for_reload_def map_error_def env_of_def execution_policy_record_env_write_def)
  then obtain k2 where r: "reload_execution_policy demo_io demo_policy_env ?k = (Inr (), k2)"
      "pk_env_writes k2 = pk_env_writes ?k" "pk_env_file k2 = pk_env_file ?k"
    by (simp add: reload_execution_policy_def demo_policy_env_def Let_def)
  let ?k1 = "append_audit demo_policy_env (change_record ActSet i (execution_policy_section_view exact_dec demo_policy_kernel i)
      (execution_policy_section_view exact_dec k2 i)) k2"
  have "execution_policy_set exact_dec demo_io (\<lambda>_. True) demo_policy_env (demo_set_params i) demo_policy_kernel = (Inr i, ?k1)"
    using w r by (simp add: execution_policy_set_def demo_section apply_section_def)
      (simp add: demo_policy_env_def demo_set_params_def)
  moreover have "env_of demo_policy_env ?k1 = env_of demo_policy_env ?k" by (simp add: env_of_def append_audit_def r)
  ultimately show ?thesis using env by metis
qed

theorem policy_write_is_in_force_witness:
  "\<exists>k1 q. execution_policy_set exact_dec demo_io (\<lambda>_. True) demo_policy_env (demo_set_params ''a'') demo_policy_kernel = (Inr ''a'', k1) \<and>
     pk_policy k1 = Some q \<and> layer_section (po_defaults q) ratio_fields [] = Inr (section_for q ''a'')"
proof -
  obtain k1 where k1: "execution_policy_set exact_dec demo_io (\<lambda>_. True) demo_policy_env (demo_set_params ''a'') demo_policy_kernel
      = (Inr ''a'', k1)" "env_of demo_policy_env k1 = one_key_env ''a''"
    using demo_set_runs by blast
  have a: "sp_account_id (demo_set_params ''a'') = ''a''" by (simp add: demo_set_params_def)
  have older: "one_key_env ''a'' (''BUDGET_RATIO_'' @ env_account_suffix ''a'') = None"
    "one_key_env ''a'' (''MAX_BUDGET_USD_'' @ env_account_suffix ''a'') = None"
    by (simp_all add: one_key_env_def ratio_key_def section_key_def demo_suffix)
  have "\<exists>q. pk_policy k1 = Some q \<and> layer_section (po_defaults q) ratio_fields [] = Inr (section_for q ''a'')"
    using policy_write_is_in_force [OF k1(1) demo_section demo_readable, where label = "[]"] older k1(2)
    by (simp add: a one_key_list)
  then show ?thesis using k1(1) by blast
qed

theorem unlisted_account_write_is_inert_witness:
  "\<exists>k1 q. execution_policy_set exact_dec demo_io (\<lambda>_. True) demo_policy_env (demo_set_params ''b'') demo_policy_kernel = (Inr ''b'', k1) \<and>
     pk_policy k1 = Some q \<and> section_for q ''b'' = po_defaults q"
proof -
  obtain k1 where k1: "execution_policy_set exact_dec demo_io (\<lambda>_. True) demo_policy_env (demo_set_params ''b'') demo_policy_kernel
      = (Inr ''b'', k1)" "env_of demo_policy_env k1 = one_key_env ''b''"
    using demo_set_runs by blast
  have a: "sp_account_id (demo_set_params ''b'') = ''b''" by (simp add: demo_set_params_def)
  show ?thesis using unlisted_account_write_is_inert [OF k1(1)] k1 by (simp add: a one_key_list)
qed

definition ruled_params :: set_params where
  "ruled_params = (demo_set_params ''a'')\<lparr>sp_budget_ratio := None, sp_rules := Some [Some demo_rule]\<rparr>"

lemma ruled_section: "section_from_set_params demo_io (\<lambda>_. True) ruled_params = Inr (no_fields\<lparr>sf_rules := Some [demo_rule]\<rparr>)"
proof -
  have s: "\<lparr>sf_budget_ratio = None, sf_min_budget_usd = None, sf_max_budget_usd = None, sf_min_equity_usd = None,
      sf_max_positions_per_asset = None, sf_rules = Some [demo_rule]\<rparr> = no_fields\<lparr>sf_rules := Some [demo_rule]\<rparr>"
    by (simp add: no_fields_def)
  obtain q where "load_with_env demo_io
      (Some (policy_file_default\<lparr>pf_accounts := [(''__probe__'', no_fields\<lparr>sf_rules := Some [demo_rule]\<rparr>)]\<rparr>)) (\<lambda>_. None) = Inr q"
    using probe_loads by blast
  then show ?thesis
    by (simp add: section_from_set_params_def demo_set_params_def ruled_params_def wire_dec_def wire_rules_def s map_error_def Let_def)
qed

definition guarded_kernel :: policy_kernel where
  "guarded_kernel = demo_policy_kernel\<lparr>pk_env_file := EnvText (''POLICY_BUDGET_RATIO_A=0.1'' @ [LF])\<rparr>"

theorem refused_write_drops_the_section_witness:
  "\<exists>e k1. execution_policy_set exact_dec demo_io (\<lambda>_. True) demo_policy_env ruled_params guarded_kernel = (Inl (WriteFailed e), k1) \<and>
     env_map (pk_env_file guarded_kernel) (ratio_key ''a'') = Some ''0.1'' \<and> env_map (pk_env_file k1) (ratio_key ''a'') = None"
proof -
  have a: "sp_account_id ruled_params = ''a''" by (simp add: ruled_params_def demo_set_params_def)
  have lines: "str_lines (''POLICY_BUDGET_RATIO_A=0.1'' @ [LF]) = [''POLICY_BUDGET_RATIO_A=0.1'']"
    "parse_line ''POLICY_BUDGET_RATIO_A=0.1'' = Some (''POLICY_BUDGET_RATIO_A'', ''0.1'')"
    by code_simp+
  have before: "env_map (pk_env_file guarded_kernel) (ratio_key ''a'') = Some ''0.1''"
    by (simp add: guarded_kernel_def env_map_def env_lines_def lines(1) collect_lines_one lines(2) ratio_key_def section_key_def
        demo_suffix del: append.simps)
  have flags: "pe_path demo_policy_env" "pe_env_path demo_policy_env" "pe_sweep_ok demo_policy_env"
    "pk_legacy guarded_kernel \<noteq> LegacyEdited" "trim (sp_account_id ruled_params) \<noteq> []"
    by (simp_all add: demo_policy_env_def guarded_kernel_def demo_policy_kernel_def a demo_texts)
  have rules: "sf_rules (no_fields\<lparr>sf_rules := Some [demo_rule]\<rparr>) = Some [demo_rule]" by simp
  have quotes: "rules_render demo_io [demo_rule] = Some [CHR 0x22, CHR 0x27]" "CHR 0x22 \<in> set [CHR 0x22, CHR 0x27]"
    "CHR 0x27 \<in> set [CHR 0x22, CHR 0x27]" by simp_all
  obtain e k1 where run: "execution_policy_set exact_dec demo_io (\<lambda>_. True) demo_policy_env ruled_params guarded_kernel
        = (Inl (WriteFailed e), k1)"
    and map: "\<forall>key. env_map (pk_env_file k1) key = (if key \<in> section_key (sp_account_id ruled_params) ` set section_tails then None
        else env_map (pk_env_file guarded_kernel) key)"
    using refused_write_drops_the_section [OF ruled_section rules quotes flags] by blast
  have "ratio_key ''a'' \<in> section_key ''a'' ` set section_tails" by (simp add: ratio_key_def section_tails_def)
  then have "env_map (pk_env_file k1) (ratio_key ''a'') = None" using map by (simp add: a)
  then show ?thesis using run before by blast
qed

definition twin_env :: "string \<Rightarrow> string option" where
  "twin_env k = (if k = ''ACCOUNT_LIST'' then Some ''a-b,a_b'' else None)"

theorem equal_suffix_shares_the_section_witness:
  "section_for policy_default ''a-b'' = section_for policy_default ''a_b'' \<and> env_account_suffix ''a-b'' = ''A_B''"
proof -
  have list: "account_list_of twin_env = [''a-b'', ''a_b'']" by code_simp
  have none: "\<not> env_has_policy_section twin_env i" for i
    by (simp add: env_has_policy_section_def section_tails_def twin_env_def section_key_def)
  have globals: "apply_env demo_io None twin_env s = Inr s" for s
    by (simp add: apply_env_def account_suffix_def Let_def env_decimal_def env_u32_def env_rules_def or_alias_def twin_env_def)
  have "load_with_env demo_io (Some policy_file_default) twin_env = Inr policy_default"
    by (simp add: load_with_env_def policy_file_default_def layer_section_def no_fields_def over_def globals list
        load_env_account_def none section_validate_def code_defaults_def policy_default_def)
  moreover have suffix: "env_account_suffix ''a-b'' = ''A_B''" "env_account_suffix ''a_b'' = ''A_B''" by code_simp+
  ultimately show ?thesis using equal_suffix_shares_the_section [of demo_io twin_env policy_default "''a-b''" "''a_b''"]
    by (simp add: list)
qed

end
