(* ===== verification/PolicyGate.thy ===== *)
theory PolicyGate
  imports BookingProps PolicyProps
begin

text \<open>
  Where the policy meets an order: the placement loops of \<open>service/engine_cycle/evaluate.rs\<close>, up to the
  arbitration. Per intent: the guard on the price, the cooldown of the account, the verdict and what it does
  to the ticket. \<open>gate_live\<close> is the loop of the real cycle, with the verdicts computed before it;
  \<open>gate_replay\<close> is the loop that replays a cycle's candidates. The intents themselves come from the
  strategies, and how many buys a cycle has placed from the placement; both are arguments.
\<close>

record policy_gate =
  pg_books :: core_books
  pg_policy :: "policy option"
  pg_cooldowns :: "(string \<times> int) list"
  pg_place_rejected :: nat
  pg_illegal_price_rejected :: nat

definition SKIP_BUCKET :: string where
  "SKIP_BUCKET = ''policy.skip''"

definition live_count :: "string \<Rightarrow> int \<Rightarrow> core_books \<Rightarrow> nat" where
  "live_count account now b = length (filter (\<lambda>p. p_expires_at_ms p > now)
     (filter (\<lambda>p. as_str (p_account_id p) = account) (pm_open (cb_positions b)))) mod 2 ^ 32"

definition book_balance :: "account_id \<Rightarrow> core_books \<Rightarrow> decimal" where
  "book_balance a b = (case map_of (cb_accounts b) a of Some l \<Rightarrow> l_balance l | None \<Rightarrow> 0)"

definition policy_facts :: "int \<Rightarrow> int \<Rightarrow> nat \<Rightarrow> order_request \<Rightarrow> core_books \<Rightarrow> policy_input" where
  "policy_facts time_left now placed req b =
    (let account = as_str (rq_account_id req) in
     \<lparr>pi_available_balance = book_balance (rq_account_id req) b,
      pi_total_equity = book_balance (rq_account_id req) b,
      pi_open_positions = live_count account now b + placed,
      pi_current_price = rq_price req, pi_time_left_sec = time_left, pi_symbol = rq_asset req,
      pi_recent_pnl_1h = recent_pnl_1h_for account now (cb_positions b),
      pi_consecutive_losses = consecutive_losses (rq_strategy req) (cb_breaker b)\<rparr>)"

type_synonym verdict = "policy_error + policy_output"

definition verdict_key :: "order_request \<Rightarrow> string" where
  "verdict_key req = as_str (rq_account_id req) @ '':'' @ rq_token_id req"

text \<open>The verdicts of a cycle, collected into a map: the last of two intents under one key stays.\<close>

definition policy_verdicts :: "int \<Rightarrow> int \<Rightarrow> order_request list \<Rightarrow> policy_gate \<Rightarrow> (string \<times> verdict) list" where
  "policy_verdicts time_left now reqs g = (case pg_policy g of
     None \<Rightarrow> []
   | Some p \<Rightarrow> foldl (\<lambda>m req. AList.update (verdict_key req)
       (policy_evaluate p (as_str (rq_account_id req)) (policy_facts time_left now 0 req (pg_books g))) m) [] reqs)"

definition count_cause :: "string \<Rightarrow> (string \<times> nat) list \<Rightarrow> (string \<times> nat) list" where
  "count_cause cause m = AList.update cause (Suc (case map_of m cause of Some n \<Rightarrow> n | None \<Rightarrow> 0)) m"

definition reject_entry :: "string \<Rightarrow> order_request \<Rightarrow> policy_gate \<Rightarrow> policy_gate" where
  "reject_entry cause req g =
    (let b = pg_books g; key = strategy_acc_key (rq_strategy req) (as_str (rq_account_id req)); a = accounting_of key b
     in g\<lparr>pg_place_rejected := pg_place_rejected g + 1,
          pg_books := b\<lparr>cb_accounting := AList.update key (a\<lparr>sa_rejected := sa_rejected a + 1,
            sa_rejection_causes := count_cause cause (sa_rejection_causes a)\<rparr>) (cb_accounting b)\<rparr>\<rparr>)"

definition budget_to_shares :: "dec_ops \<Rightarrow> decimal \<Rightarrow> decimal \<Rightarrow> decimal option" where
  "budget_to_shares D budget price = map_option (\<lambda>s. of_int \<lfloor>s\<rfloor>) (checked_div D budget price)"

text \<open>What a verdict does to the intent: \<open>Some\<close> is the ticket that goes on to the arbitration.\<close>

definition apply_verdict ::
  "dec_ops \<Rightarrow> int \<Rightarrow> verdict option \<Rightarrow> order_request \<Rightarrow> policy_gate \<Rightarrow> order_request option \<times> policy_gate" where
  "apply_verdict D now v req g = (case v of
     None \<Rightarrow> (Some req, g)
   | Some (Inl _) \<Rightarrow> (None, reject_entry SKIP_BUCKET req g)
   | Some (Inr (PSkip _)) \<Rightarrow> (None, reject_entry SKIP_BUCKET req g)
   | Some (Inr (PCooldown seconds)) \<Rightarrow> (None, reject_entry SKIP_BUCKET req
       (g\<lparr>pg_cooldowns := AList.update (as_str (rq_account_id req)) (now + seconds * 1000) (pg_cooldowns g)\<rparr>))
   | Some (Inr (PPlace budget _ _ _)) \<Rightarrow>
       (let shares = (case budget_to_shares D budget (rq_price req) of Some s \<Rightarrow> s | None \<Rightarrow> 0)
        in if shares < 1 then (None, reject_entry SKIP_BUCKET req g)
           else (Some (if rq_size req > shares then req\<lparr>rq_size := shares\<rparr> else req), g)))"

definition illegal_entry :: "order_request \<Rightarrow> bool" where
  "illegal_entry req \<longleftrightarrow> rq_side req = Buy \<and> rq_price req \<le> 0"

definition verdict_for :: "int \<Rightarrow> int \<Rightarrow> (string \<times> verdict) list \<Rightarrow> nat \<Rightarrow> order_request \<Rightarrow> policy_gate \<Rightarrow> verdict option" where
  "verdict_for time_left now verdicts placed req g =
    (case (if placed > 0 then pg_policy g else None) of
       Some p \<Rightarrow> Some (policy_evaluate p (as_str (rq_account_id req)) (policy_facts time_left now placed req (pg_books g)))
     | None \<Rightarrow> map_of verdicts (verdict_key req))"

definition gate_live ::
  "dec_ops \<Rightarrow> int \<Rightarrow> int \<Rightarrow> (string \<times> verdict) list \<Rightarrow> nat \<Rightarrow> order_request \<Rightarrow> policy_gate
     \<Rightarrow> order_request option \<times> policy_gate" where
  "gate_live D time_left now verdicts placed req g =
    (let account = as_str (rq_account_id req) in
     if illegal_entry req then
       (None, (reject_entry ''illegal.price'' req g)\<lparr>pg_illegal_price_rejected := pg_illegal_price_rejected g + 1\<rparr>)
     else case map_of (pg_cooldowns g) account of
       Some until \<Rightarrow>
         if until > now then (None, reject_entry SKIP_BUCKET req g)
         else let g1 = g\<lparr>pg_cooldowns := AList.delete account (pg_cooldowns g)\<rparr>
              in apply_verdict D now (verdict_for time_left now verdicts placed req g1) req g1
     | None \<Rightarrow> apply_verdict D now (verdict_for time_left now verdicts placed req g) req g)"

definition gate_replay ::
  "dec_ops \<Rightarrow> int \<Rightarrow> int \<Rightarrow> nat \<Rightarrow> order_request \<Rightarrow> policy_gate \<Rightarrow> order_request option \<times> policy_gate" where
  "gate_replay D time_left now placed req g =
    apply_verdict D now (map_option (\<lambda>p. policy_evaluate p (as_str (rq_account_id req))
        (policy_facts time_left now placed req (pg_books g))) (pg_policy g)) req g"

section \<open>The ticket\<close>

lemma verdicts_collected:
  "distinct (map verdict_key reqs) \<Longrightarrow> req \<in> set reqs \<Longrightarrow> pg_policy g = Some p \<Longrightarrow>
    map_of (policy_verdicts time_left now reqs g) (verdict_key req) =
      Some (policy_evaluate p (as_str (rq_account_id req)) (policy_facts time_left now 0 req (pg_books g)))"
proof -
  let ?v = "\<lambda>req. policy_evaluate p (as_str (rq_account_id req)) (policy_facts time_left now 0 req (pg_books g))"
  let ?add = "\<lambda>m req. AList.update (verdict_key req) (?v req) m"
  have other: "map_of (foldl ?add m reqs) k = map_of m k" if "k \<notin> set (map verdict_key reqs)" for m k reqs
    using that by (induction reqs arbitrary: m) auto
  have "distinct (map verdict_key reqs) \<Longrightarrow> req \<in> set reqs \<Longrightarrow> map_of (foldl ?add m reqs) (verdict_key req) = Some (?v req)" for m
  proof (induction reqs arbitrary: m)
    case (Cons x reqs)
    then show ?case using other [of "verdict_key req" reqs] by (cases "req = x") auto
  qed simp
  then show "distinct (map verdict_key reqs) \<Longrightarrow> req \<in> set reqs \<Longrightarrow> pg_policy g = Some p \<Longrightarrow> ?thesis"
    by (simp add: policy_verdicts_def)
qed

lemma reject_entry_frame:
  "pg_place_rejected (reject_entry c req g) = pg_place_rejected g + 1"
  "pg_books (reject_entry c req g) = (pg_books g)\<lparr>cb_accounting := cb_accounting (pg_books (reject_entry c req g))\<rparr>"
  "key \<noteq> strategy_acc_key (rq_strategy req) (as_str (rq_account_id req)) \<Longrightarrow>
    map_of (cb_accounting (pg_books (reject_entry c req g))) key = map_of (cb_accounting (pg_books g)) key"
  "pg_policy (reject_entry c req g) = pg_policy g" "pg_cooldowns (reject_entry c req g) = pg_cooldowns g"
  by (simp_all add: reject_entry_def Let_def)

text \<open>What a gate may do to an intent, for one policy and the account the intent names.\<close>

definition only_shrinks :: "dec_ops \<Rightarrow> policy \<Rightarrow> order_request \<Rightarrow> policy_gate \<Rightarrow> order_request option \<times> policy_gate \<Rightarrow> bool" where
  "only_shrinks D p req g x \<longleftrightarrow> (case x of
     (Some r, g1) \<Rightarrow> r = req\<lparr>rq_size := rq_size r\<rparr> \<and> rq_size r \<le> rq_size req \<and> pg_books g1 = pg_books g \<and>
       (\<exists>b q. b \<le> sd_max_budget_usd (section_for p (as_str (rq_account_id req))) \<and> checked_div D b (rq_price req) = Some q \<and>
         1 \<le> \<lfloor>q\<rfloor> \<and> rq_size r \<le> of_int \<lfloor>q\<rfloor> \<and>
         rq_size r * rq_price r \<le> sd_max_budget_usd (section_for p (as_str (rq_account_id req))) + (q * rq_price req - b))
   | (None, g1) \<Rightarrow> pg_place_rejected g1 = pg_place_rejected g + 1 \<and>
       pg_books g1 = (pg_books g)\<lparr>cb_accounting := cb_accounting (pg_books g1)\<rparr> \<and>
       (\<forall>key. key \<noteq> strategy_acc_key (rq_strategy req) (as_str (rq_account_id req)) \<longrightarrow>
         map_of (cb_accounting (pg_books g1)) key = map_of (cb_accounting (pg_books g)) key))"

lemma only_shrinks_refused:
  "pg_books h = pg_books g \<Longrightarrow> pg_place_rejected h = pg_place_rejected g \<Longrightarrow> only_shrinks D p req g (None, reject_entry c req h)"
  using reject_entry_frame [where c = c and req = req and g = h] by (simp add: only_shrinks_def)

lemma bought_within:
  assumes "checked_div D b (rq_price req) = Some q" "b \<le> c" "0 < rq_price req" "1 \<le> \<lfloor>q\<rfloor>" "z \<le> of_int \<lfloor>q\<rfloor>"
  shows "\<exists>b q. b \<le> c \<and> checked_div D b (rq_price req) = Some q \<and> 1 \<le> \<lfloor>q\<rfloor> \<and> z \<le> of_int \<lfloor>q\<rfloor> \<and>
    z * rq_price req \<le> c + (q * rq_price req - b)"
proof -
  have "z * rq_price req \<le> q * rq_price req" using assms(3,5) by (intro mult_right_mono) linarith+
  then have "z * rq_price req \<le> c + (q * rq_price req - b)" using assms(2) by linarith
  then show ?thesis using assms(1,2,4,5) by blast
qed

lemma apply_verdict_shrinks:
  assumes "load_with_env io parsed env = Inr p" and "0 < rq_price req"
    and "v = Some (policy_evaluate p (as_str (rq_account_id req)) input)"
    and "pg_books h = pg_books g" "pg_place_rejected h = pg_place_rejected g"
  shows "only_shrinks D p req g (apply_verdict D now v req h)"
proof (cases "policy_evaluate p (as_str (rq_account_id req)) input")
  case (Inl e)
  then show ?thesis using assms(3-5) by (simp add: apply_verdict_def only_shrinks_refused)
next
  case (Inr o1)
  show ?thesis
  proof (cases o1)
    case (PPlace budget ratio lo hi)
    note b = placed_budget [OF assms(1) Inr [unfolded PPlace]]
    show ?thesis
    proof (cases "checked_div D budget (rq_price req)")
      case None
      then show ?thesis using assms(3-5) Inr PPlace by (simp add: apply_verdict_def budget_to_shares_def only_shrinks_refused)
    next
      case (Some q)
      show ?thesis
      proof (cases "of_int \<lfloor>q\<rfloor> < (1 :: decimal)")
        case True
        then show ?thesis using assms(3-5) Inr PPlace Some
          by (simp add: apply_verdict_def budget_to_shares_def only_shrinks_refused)
      next
        case False
        then have one: "1 \<le> \<lfloor>q\<rfloor>" by simp
        have under: "budget \<le> sd_max_budget_usd (section_for p (as_str (rq_account_id req)))" using b by linarith
        define z where "z = (if of_int \<lfloor>q\<rfloor> < rq_size req then of_int \<lfloor>q\<rfloor> else rq_size req)"
        have z: "z \<le> of_int \<lfloor>q\<rfloor>" "z \<le> rq_size req" by (simp_all add: z_def)
        have "apply_verdict D now v req h = (Some (req\<lparr>rq_size := z\<rparr>), h)"
          using False assms(3) Inr PPlace Some by (simp add: apply_verdict_def budget_to_shares_def Let_def z_def)
        then show ?thesis
          using z(2) assms(4) bought_within [OF Some under assms(2) one z(1)] by (simp add: only_shrinks_def)
      qed
    qed
  qed (use assms(3-5) Inr in \<open>simp_all add: apply_verdict_def only_shrinks_refused\<close>)
qed

text \<open>C31 The policy can only remove an entry or make it smaller. In the live loop, under a policy that loaded and
  for a buy among the intents of a cycle with pairwise distinct verdict keys, whichever intents came before:
  the ticket that goes on is the intent with a size not larger than the strategy's and not larger than the
  whole shares that a budget within the ceiling of its account's section buys, as the crate divides, so that
  it costs at most the ceiling and the rounding of that one division; the books are untouched. A refused
  intent changes no balance, position or order, and is counted once in the statistics and under its own
  strategy and account alone.\<close>

theorem gate_only_removes_or_shrinks:
  assumes "pg_policy g = Some p" and "load_with_env io parsed env = Inr p"
    and "verdicts = policy_verdicts time_left now reqs g0" and "pg_policy g0 = Some p"
    and "distinct (map verdict_key reqs)" and "req \<in> set reqs" and "rq_side req = Buy"
  shows "only_shrinks D p req g (gate_live D time_left now verdicts placed req g)"
proof (cases "illegal_entry req")
  case True
  have "only_shrinks D p req g (None, reject_entry ''illegal.price'' req g)" by (simp add: only_shrinks_refused)
  then show ?thesis using True by (simp add: gate_live_def only_shrinks_def)
next
  case False
  then have price: "0 < rq_price req" using assms(7) by (simp add: illegal_entry_def)
  have v: "\<exists>input. verdict_for time_left now verdicts placed req h = Some (policy_evaluate p (as_str (rq_account_id req)) input)"
    if "pg_policy h = Some p" for h
    using that verdicts_collected [OF assms(5,6,4)] by (cases "placed > 0") (auto simp: verdict_for_def assms(3))
  have go: "only_shrinks D p req g (apply_verdict D now (verdict_for time_left now verdicts placed req h) req h)"
    if "pg_policy h = Some p" "pg_books h = pg_books g" "pg_place_rejected h = pg_place_rejected g" for h
    using v [OF that(1)] apply_verdict_shrinks [OF assms(2) price _ that(2,3)] by auto
  show ?thesis
    using False go [of g] go [of "g\<lparr>pg_cooldowns := AList.delete (as_str (rq_account_id req)) (pg_cooldowns g)\<rparr>"] assms(1)
    by (auto simp: gate_live_def Let_def only_shrinks_refused split: option.split)
qed

section \<open>The two loops\<close>

definition cooling :: "string \<Rightarrow> int \<Rightarrow> policy_gate \<Rightarrow> bool" where
  "cooling account now g \<longleftrightarrow> (case map_of (pg_cooldowns g) account of Some until \<Rightarrow> until > now | None \<Rightarrow> False)"

text \<open>The replay of a cycle is the live loop without its two first guards. For an intent judged with the
  cycle's own count the two loops agree exactly, except that the live loop refuses a non-positive price, and
  refuses while the account is cooling down, which the replay sets and never reads, and drops a cooldown
  that is over: a rule that pauses an account stops its live entries and none of the replayed ones.\<close>

theorem replay_is_live_without_the_guards:
  assumes "0 < placed" and "pg_policy g = Some p"
  shows "gate_live D time_left now verdicts placed req g =
    (if illegal_entry req then (None, (reject_entry ''illegal.price'' req g)\<lparr>pg_illegal_price_rejected := pg_illegal_price_rejected g + 1\<rparr>)
     else if cooling (as_str (rq_account_id req)) now g then (None, reject_entry SKIP_BUCKET req g)
     else gate_replay D time_left now placed req
       (g\<lparr>pg_cooldowns := AList.delete (as_str (rq_account_id req)) (pg_cooldowns g)\<rparr>)) \<and>
    fst (gate_replay D time_left now placed req (g\<lparr>pg_cooldowns := m\<rparr>)) = fst (gate_replay D time_left now placed req g)"
proof
  have verdict: "verdict_for time_left now verdicts placed req h = map_option (\<lambda>p. policy_evaluate p (as_str (rq_account_id req))
      (policy_facts time_left now placed req (pg_books h))) (pg_policy h)" if "pg_policy h = Some p" for h
    using assms(1) that by (simp add: verdict_for_def)
  show "gate_live D time_left now verdicts placed req g =
    (if illegal_entry req then (None, (reject_entry ''illegal.price'' req g)\<lparr>pg_illegal_price_rejected := pg_illegal_price_rejected g + 1\<rparr>)
     else if cooling (as_str (rq_account_id req)) now g then (None, reject_entry SKIP_BUCKET req g)
     else gate_replay D time_left now placed req
       (g\<lparr>pg_cooldowns := AList.delete (as_str (rq_account_id req)) (pg_cooldowns g)\<rparr>))"
    using verdict [of g] verdict [of "g\<lparr>pg_cooldowns := AList.delete (as_str (rq_account_id req)) (pg_cooldowns g)\<rparr>"] assms(2)
    by (auto simp: gate_live_def gate_replay_def cooling_def Let_def split: option.split)
  have "fst (apply_verdict D now v req (g\<lparr>pg_cooldowns := m\<rparr>)) = fst (apply_verdict D now v req g)" for v
    by (auto simp: apply_verdict_def Let_def split: option.split sum.split policy_output.split)
  then show "fst (gate_replay D time_left now placed req (g\<lparr>pg_cooldowns := m\<rparr>)) = fst (gate_replay D time_left now placed req g)"
    by (simp add: gate_replay_def)
qed

section \<open>A concrete cycle\<close>

definition demo_entry :: order_request where
  "demo_entry = \<lparr>rq_token_id = ''tok'', rq_condition_id = ''cond'', rq_side = Buy, rq_mode = PolMaker, rq_price = 1 / 2,
     rq_size = 100, rq_internal_key = ''k'', rq_strategy = ''s'', rq_asset = ''BTC'', rq_direction = ''up'',
     rq_round_slot = 0, rq_account_id = default_account_id\<rparr>"

definition demo_gate :: "(string \<times> int) list \<Rightarrow> policy_gate" where
  "demo_gate cooldowns = \<lparr>pg_books = demo_core (sample_ome 0) fresh_manager, pg_policy = Some (rules_policy [demo_rule]),
     pg_cooldowns = cooldowns, pg_place_rejected = 0, pg_illegal_price_rejected = 0\<rparr>"

lemma demo_gate_facts:
  "apply_verdict exact_dec now (Some (policy_evaluate (rules_policy [demo_rule]) (as_str default_account_id)
      (policy_facts 60 1000 placed demo_entry (pg_books (demo_gate m))))) demo_entry h = (Some (demo_entry\<lparr>rq_size := 20\<rparr>), h)"
proof -
  let ?f = "policy_facts 60 1000 placed demo_entry (pg_books (demo_gate m))"
  have f: "pi_available_balance ?f = 100" "pi_total_equity ?f = 100" "pi_current_price ?f = 1 / 2"
    by (simp_all add: policy_facts_def Let_def demo_gate_def book_balance_def demo_entry_def)
  have fires: "when_holds (r_when demo_rule) ?f"
    using f by (simp add: demo_rules when_holds_def compares_def)
  have win: "winning_rule (code_defaults\<lparr>sd_rules := [demo_rule]\<rparr>) ?f = Some demo_rule"
    using fires by (simp add: winning_rule_def) (simp add: demo_rule_def)
  have account: "trim (as_str default_account_id) \<noteq> []" by code_simp
  have "policy_evaluate (rules_policy [demo_rule]) (as_str default_account_id) ?f = Inr (PPlace 10 (1 / 10) 0 1000000000)"
    using account f win by (simp add: policy_evaluate_def rules_policy_def section_for_def)
      (simp add: apply_rule_def demo_rule_def scoped_by_def scoped_validate_def place_budget_def code_defaults_def f Let_def)
  then show ?thesis by (simp add: apply_verdict_def budget_to_shares_def demo_entry_def)
qed

theorem gate_only_removes_or_shrinks_witness:
  "only_shrinks exact_dec (rules_policy [demo_rule]) demo_entry (demo_gate [])
     (gate_live exact_dec 60 1000 (policy_verdicts 60 1000 [demo_entry] (demo_gate [])) 0 demo_entry (demo_gate [])) \<and>
   map_option rq_size (fst (gate_live exact_dec 60 1000 (policy_verdicts 60 1000 [demo_entry] (demo_gate [])) 0 demo_entry (demo_gate [])))
     = Some 20"
proof -
  have policy: "pg_policy (demo_gate []) = Some (rules_policy [demo_rule])" by (simp add: demo_gate_def)
  have one: "distinct (map verdict_key [demo_entry])" "demo_entry \<in> set [demo_entry]" "rq_side demo_entry = Buy"
    by (simp_all add: demo_entry_def)
  have "only_shrinks exact_dec (rules_policy [demo_rule]) demo_entry (demo_gate [])
     (gate_live exact_dec 60 1000 (policy_verdicts 60 1000 [demo_entry] (demo_gate [])) 0 demo_entry (demo_gate []))"
    by (rule gate_only_removes_or_shrinks [OF policy demo_loads refl policy one])
  moreover have "rq_account_id demo_entry = default_account_id" "\<not> illegal_entry demo_entry"
    by (simp_all add: demo_entry_def illegal_entry_def)
  moreover have "verdict_for 60 1000 (policy_verdicts 60 1000 [demo_entry] (demo_gate [])) 0 demo_entry (demo_gate []) =
      Some (policy_evaluate (rules_policy [demo_rule]) (as_str default_account_id) (policy_facts 60 1000 0 demo_entry (pg_books (demo_gate []))))"
    using verdicts_collected [OF one(1,2) policy] calculation(2) by (simp add: verdict_for_def)
  moreover have "map_of (pg_cooldowns (demo_gate [])) k = None" for k by (simp add: demo_gate_def)
  ultimately show ?thesis by (simp add: gate_live_def demo_gate_facts)
qed

theorem replay_is_live_without_the_guards_witness:
  "fst (gate_live exact_dec 60 1000 [] 1 demo_entry (demo_gate [(as_str default_account_id, 2000)])) = None \<and>
   map_option rq_size (fst (gate_replay exact_dec 60 1000 1 demo_entry (demo_gate [(as_str default_account_id, 2000)]))) = Some 20"
proof -
  let ?g = "demo_gate [(as_str default_account_id, 2000)]"
  have policy: "pg_policy ?g = Some (rules_policy [demo_rule])" by (simp add: demo_gate_def)
  have e: "rq_account_id demo_entry = default_account_id" "\<not> illegal_entry demo_entry" "cooling (as_str default_account_id) 1000 ?g"
    by (simp_all add: demo_entry_def illegal_entry_def cooling_def demo_gate_def)
  have "gate_replay exact_dec 60 1000 1 demo_entry ?g = (Some (demo_entry\<lparr>rq_size := 20\<rparr>), ?g)"
    by (simp add: gate_replay_def policy e(1) demo_gate_facts)
  moreover have "gate_live exact_dec 60 1000 [] 1 demo_entry ?g = (None, reject_entry SKIP_BUCKET demo_entry ?g)"
    using replay_is_live_without_the_guards [OF zero_less_one policy, of exact_dec 60 1000 "[]" demo_entry] e by simp
  ultimately show ?thesis by simp
qed

end
