(* ===== verification/PolicyPreview.thy ===== *)
theory PolicyPreview
  imports PolicyGate
begin

text \<open>
  The preview of a policy, \<open>Core::execution_policy_preview\<close> (\<open>service/assembly.rs\<close>): the section in force
  judged on the recent closed trades of one account, for the operator to see what it would have done.
  The verdict word of a row and its detail are one constructor of \<open>preview_verdict\<close>.
\<close>

datatype preview_verdict = NoPolicyLoaded | Refused policy_error | WouldPlace decimal | WouldSkip message | WouldPause int

record preview_row =
  pv_ts_ms :: int
  pv_symbol :: string
  pv_balance :: decimal
  pv_price :: decimal
  pv_verdict :: preview_verdict

record preview_result =
  pr_considered :: nat
  pr_skipped :: nat
  pr_avg_budget_usd :: "string option"
  pr_rows :: "preview_row list"

definition preview_facts :: "string \<Rightarrow> int \<Rightarrow> core_books \<Rightarrow> closed_position \<Rightarrow> policy_input" where
  "preview_facts account now b c =
    (let balance = book_balance (AccountId account) b in
     \<lparr>pi_available_balance = balance, pi_total_equity = balance, pi_open_positions = live_count account now b,
      pi_current_price = c_entry_price c, pi_time_left_sec = 0, pi_symbol = c_asset c,
      pi_recent_pnl_1h = recent_pnl_1h_for account now (cb_positions b),
      pi_consecutive_losses = consecutive_losses (c_strategy c) (cb_breaker b)\<rparr>)"

definition verdict_shown :: "verdict option \<Rightarrow> preview_verdict" where
  "verdict_shown v = (case v of
     None \<Rightarrow> NoPolicyLoaded
   | Some (Inl e) \<Rightarrow> Refused e
   | Some (Inr (PPlace budget _ _ _)) \<Rightarrow> WouldPlace budget
   | Some (Inr (PSkip reason)) \<Rightarrow> WouldSkip reason
   | Some (Inr (PCooldown seconds)) \<Rightarrow> WouldPause seconds)"

definition preview_row_of :: "policy option \<Rightarrow> string \<Rightarrow> int \<Rightarrow> core_books \<Rightarrow> closed_position \<Rightarrow> preview_row" where
  "preview_row_of p account now b c =
    (let facts = preview_facts account now b c in
     \<lparr>pv_ts_ms = c_exited_at_ms c, pv_symbol = pi_symbol facts, pv_balance = book_balance (AccountId account) b,
      pv_price = c_entry_price c, pv_verdict = verdict_shown (map_option (\<lambda>p. policy_evaluate p account facts) p)\<rparr>)"

definition counts_as_skipped :: "preview_row \<Rightarrow> bool" where
  "counts_as_skipped r = (case pv_verdict r of WouldSkip _ \<Rightarrow> True | WouldPause _ \<Rightarrow> True | _ \<Rightarrow> False)"

definition budget_shown :: "preview_row \<Rightarrow> decimal option" where
  "budget_shown r = (case pv_verdict r of WouldPlace budget \<Rightarrow> Some budget | _ \<Rightarrow> None)"

definition execution_policy_preview ::
  "dec_ops \<Rightarrow> string \<Rightarrow> nat \<Rightarrow> int \<Rightarrow> policy option \<Rightarrow> core_books \<Rightarrow> preview_result" where
  "execution_policy_preview D account limit now p b =
    (let closed = last_n limit (filter (\<lambda>c. as_str (c_account_id c) = account) (pm_closed (cb_positions b)));
         rows = map (preview_row_of p account now b) closed;
         budgets = List.map_filter budget_shown rows
     in \<lparr>pr_considered = length closed, pr_skipped = length (filter counts_as_skipped rows),
         pr_avg_budget_usd = (if budgets = [] then None
           else Some (dshow D (ddiv D (sum_list budgets) (of_nat (length budgets))))),
         pr_rows = rows\<rparr>)"

section \<open>The preview and the gate\<close>

text \<open>The facts of a row are those the gate builds for an entry that names the row's trade, with no time
  left and nothing placed in the cycle.\<close>

definition names_trade :: "string \<Rightarrow> closed_position \<Rightarrow> order_request \<Rightarrow> bool" where
  "names_trade account c req \<longleftrightarrow> rq_account_id req = AccountId account \<and> rq_price req = c_entry_price c \<and>
     rq_asset req = c_asset c \<and> rq_strategy req = c_strategy c"

lemma preview_facts_gate: "names_trade account c req \<Longrightarrow> preview_facts account now b c = policy_facts 0 now 0 req b"
  by (simp add: preview_facts_def policy_facts_def names_trade_def Let_def)

text \<open>The documentation of the preview says that it can never disagree with the kernel, because the verdict
  function is the kernel's. Its facts are not: the time left is always zero. A section whose one rule skips
  entries late in a round previews every trade as skipped, and places every entry made early enough.\<close>

theorem preview_skips_what_the_gate_places:
  assumes "sd_rules (section_for p account) = [r]" and "r_enabled r"
    and "r_when r = \<lparr>w_field = TimeLeftSec, w_op = OpLt, w_value = CvNum x\<rparr>" and "0 < x"
    and "act_action (r_then r) = Some Skip" and "trim account \<noteq> []"
    and "sd_min_equity_usd (section_for p account) \<le> book_balance (AccountId account) b"
  shows "pr_skipped (execution_policy_preview D account limit now (Some p) b) =
      pr_considered (execution_policy_preview D account limit now (Some p) b) \<and>
    (\<forall>req time_left placed. rq_account_id req = AccountId account \<and> x \<le> of_int time_left \<longrightarrow>
      policy_evaluate p account (policy_facts time_left now placed req b) =
        Inr (place_budget (section_budget (section_for p account)) (policy_facts time_left now placed req b)))"
proof (intro conjI allI impI)
  let ?s = "section_for p account"
  have late: "counts_as_skipped (preview_row_of (Some p) account now b c)" for c
  proof -
    let ?f = "preview_facts account now b c"
    have "pi_time_left_sec ?f = 0" "pi_total_equity ?f = book_balance (AccountId account) b"
      by (simp_all add: preview_facts_def Let_def)
    then have "winning_rule ?s ?f = Some r" "\<not> pi_total_equity ?f < sd_min_equity_usd ?s"
      using assms(1-4,7) by (simp_all add: winning_rule_def when_holds_def numeric_value_def compares_def)
    then show ?thesis
      using assms(5,6) by (simp add: counts_as_skipped_def preview_row_of_def verdict_shown_def policy_evaluate_def apply_rule_def Let_def)
  qed
  have "filter counts_as_skipped (map (preview_row_of (Some p) account now b) cs) = map (preview_row_of (Some p) account now b) cs" for cs
    using late by (induction cs) auto
  then show "pr_skipped (execution_policy_preview D account limit now (Some p) b) =
      pr_considered (execution_policy_preview D account limit now (Some p) b)"
    by (simp add: execution_policy_preview_def Let_def del: filter_map)
  fix req :: order_request and time_left :: int and placed :: nat
  assume early: "rq_account_id req = AccountId account \<and> x \<le> of_int time_left"
  let ?f = "policy_facts time_left now placed req b"
  have "pi_time_left_sec ?f = time_left" "pi_total_equity ?f = book_balance (AccountId account) b"
    using early by (simp_all add: policy_facts_def Let_def)
  then have "winning_rule ?s ?f = None" "\<not> pi_total_equity ?f < sd_min_equity_usd ?s"
    using assms(1-3,7) early by (simp_all add: winning_rule_def when_holds_def numeric_value_def compares_def)
  then show "policy_evaluate p account ?f = Inr (place_budget (section_budget ?s) ?f)"
    using assms(6) by (simp add: policy_evaluate_def)
qed

definition late_rule :: policy_rule where
  "late_rule = demo_rule\<lparr>r_name := ''late'', r_when := \<lparr>w_field = TimeLeftSec, w_op = OpLt, w_value = CvNum 30\<rparr>,
     r_then := \<lparr>act_action = Some Skip, act_budget_ratio = None, act_min_budget_usd = None, act_max_budget_usd = None,
       act_cooldown_sec = None\<rparr>\<rparr>"

theorem preview_skips_what_the_gate_places_witness:
  "pr_skipped (execution_policy_preview exact_dec ''a'' 100 5 (Some (rules_policy [late_rule])) (pg_books (demo_gate []))) =
     pr_considered (execution_policy_preview exact_dec ''a'' 100 5 (Some (rules_policy [late_rule])) (pg_books (demo_gate []))) \<and>
   policy_evaluate (rules_policy [late_rule]) ''a'' (policy_facts 60 5 0 (demo_entry\<lparr>rq_account_id := AccountId ''a''\<rparr>) (pg_books (demo_gate []))) =
     Inr (place_budget (section_budget (code_defaults\<lparr>sd_rules := [late_rule]\<rparr>))
       (policy_facts 60 5 0 (demo_entry\<lparr>rq_account_id := AccountId ''a''\<rparr>) (pg_books (demo_gate []))))"
proof -
  have s: "section_for (rules_policy [late_rule]) ''a'' = code_defaults\<lparr>sd_rules := [late_rule]\<rparr>"
    by (simp add: section_for_def rules_policy_def)
  have r: "sd_rules (code_defaults\<lparr>sd_rules := [late_rule]\<rparr>) = [late_rule]" "r_enabled late_rule"
    "r_when late_rule = \<lparr>w_field = TimeLeftSec, w_op = OpLt, w_value = CvNum 30\<rparr>" "act_action (r_then late_rule) = Some Skip"
    by (simp_all add: late_rule_def demo_rule_def)
  have b: "sd_min_equity_usd (code_defaults\<lparr>sd_rules := [late_rule]\<rparr>) \<le> book_balance (AccountId ''a'') (pg_books (demo_gate []))"
    by (simp add: book_balance_def demo_gate_def default_account_id_def code_defaults_def demo_core_def)
  have "trim ''a'' \<noteq> []" by (simp add: demo_texts)
  note all = preview_skips_what_the_gate_places [where p = "rules_policy [late_rule]" and account = "''a''" and r = late_rule
      and x = 30 and b = "pg_books (demo_gate [])" and D = exact_dec and limit = 100 and now = 5,
      unfolded s, OF r(1-3) _ r(4) this b]
  show ?thesis using all by (simp add: demo_entry_def)
qed

end
