(* ===== verification/Spec2Isabelle.thy ===== *)
theory Spec2Isabelle
  imports OmeProps LedgerProps KlineProps VirtualAccount PositionExitsProps ArbitrationProps HedgeProps
    HedgePlanProps Credentials ReplayWake DryMatchProps OmeRestart PolicyInForce PolicyPreview
begin

text \<open>
  A verification development for the trading core of BlitzkriegBot, a Rust bot that trades binary
  prediction markets. The core is the crate \<open>core/blitzkrieg_core\<close> with its contract crate
  \<open>core/bk_contract\<close>; paths below are relative to the repository's root, and where none is given the
  file is in \<open>core/blitzkrieg_core/src/\<close>.

  \<^item> How the program is put together. A strategy proposes; the service layer asks the position manager
    whether the account may open (\<open>can_open\<close>), a virtual account and the cash ledger whether the order
    fits (\<open>reserve_batch\<close>, \<open>reserve_for_order\<close>), and submits to the order management engine. Reports of
    fills come back from a venue or from the simulated matcher, out of order and more than once; the
    engine turns them into deltas, each of which the service books once: into the cash ledger
    (\<open>settle_buy_fill\<close>, \<open>settle_sell_fill\<close>) and into the position it belongs to (\<open>apply_entry_fill\<close>,
    \<open>apply_exit_fill\<close>, \<open>close\<close>). Everything runs under one lock, so an interleaving is a sequence of
    operations and each component below is a step function over its operations.

  \<^item> The shared vocabulary. \<open>Prelude\<close>: decimals, association lists, tables of amounts, bounded
    histories, machines and their invariants (the locales \<open>amount_table\<close>, \<open>invariant_machine\<close>,
    \<open>monotone_machine\<close>). \<open>Types\<close>: the enumerations and records of \<open>core/bk_contract/src/types.rs\<close>,
    \<open>account.rs\<close> and \<open>model.rs\<close>.

  \<^item> The order management engine, \<open>ome.rs\<close>. \<open>Ome\<close> is the model: the table of orders, the two indexes of
    live orders, the fill ledger with its journal and eviction, the buffer of fills that came before
    their order. \<open>OmeIndex\<close> keeps the indexes equal to the live rows, \<open>OmeSafety\<close> holds sizes, keys and
    terminal statuses, \<open>OmeFills\<close> the accounting of fills, \<open>OmeProps\<close> the properties: the size filled
    is the sum of the deltas announced, a re-delivered report changes nothing, no order is overfilled,
    a failed fill is taken back, the live views are exact, eviction never forgets a trade of a live order.
    \<open>OmeRestart\<close> takes the journal through the file of \<open>Stores\<close>: a restart rebuilds the fill ledger, its
    amounts as doubles.

  \<^item> The cash ledger, \<open>ledger.rs\<close> with \<open>ledger_api.rs\<close> and \<open>jsonl.rs\<close>. \<open>Ledger\<close> is the model (balance,
    reservations, the journal window in memory and the durable file, whose writes may fail);
    \<open>LedgerProps\<close> shows that the durable rows explain the balance, that a boot restores it, that
    reservations neither overcommit nor leave residue. The trait \<open>LedgerApi\<close> is the locale
    \<open>ledger_api\<close>, interpreted on the model.

  \<^item> Price bars, \<open>kline/aggregator.rs\<close> and \<open>core/bk_contract/src/kline.rs\<close>. \<open>Kline\<close> and \<open>KlineProps\<close>:
    the incremental bars equal an offline grouping of the ticks, bars are well formed, ticks are
    conserved.

  \<^item> Virtual accounts, \<open>risk/virtual_account.rs\<close>. \<open>VirtualAccount\<close>: caps are never exceeded, batches are
    all or nothing.

  \<^item> Fees, \<open>exit_fees.rs\<close>. \<open>Fees\<close>: the schedules and the shape of the curve.

  \<^item> The exit policy, \<open>exit_policy.rs\<close>. \<open>ExitPolicy\<close> is the model: stop and trail tables, the prices an
    exit may rest on, the state a row accrues tick by tick, the verdict of the ladder of rules.
    \<open>ExitPolicyProps\<close>: a stop is never swallowed, the compensated interval update equals the ticks it
    skipped (and its double-rate variant does not).

  \<^item> The position manager, \<open>position/\<close>. \<open>Position\<close> is the model: open rows with the cash flows they
    accrue, closes, merges of complete pairs, unwinds, the entry gate, the daily-loss budget of every
    account and its state file. \<open>PositionDaily\<close> shows that within a day the budget only tightens, that
    a trip outlives restarts, and what the gate admits; \<open>PositionBook\<close> that the settled records and the
    open rows carry exactly the cash the operations moved, that an unwind undoes a close, that
    identifiers are never reused. \<open>PositionExits\<close> is the sweep of \<open>position/exits.rs\<close> with its ladder
    and its reports; \<open>PositionExitsProps\<close>: every exit is priced at a live bid, an exit that cannot be
    priced is reported, no ladder step fires twice.

  \<^item> Risk, \<open>risk.rs\<close> with \<open>risk/limits.rs\<close> and \<open>risk/physics.rs\<close>, and the arbitration of order intents,
    \<open>arbitration/\<close>. \<open>Risk\<close> is the kill switch, the circuit breakers and the survival sizing;
    \<open>Arbitration\<close> the four gates in order, over the ledger and the position manager;
    \<open>ArbitrationProps\<close>: a kill freezes entries only, a retracted loss undoes its record, sizing stays
    inside the loss bound, arbitration leaves the ledger as it found it, and an accepted intent can be
    reserved.

  \<^item> Cross-venue events, \<open>core/bk_contract/src/unified/\<close> and \<open>core/market_api/src/unified/ledger.rs\<close>.
    \<open>StdLib\<close> holds doubles (rounding to 53 bits), ordered maps and ASCII text; \<open>Unified\<close> is the matcher, the derived
    discrepancy marks, the hedge verdict and the operator's confirmation ledger; \<open>UnifiedProps\<close>: the
    ledger's invariant over all confirmations and revocations, the round trip through its file, what an
    allowing verdict implies and what it misses with three venues.

  \<^item> Hedging, \<open>hedge/\<close>. \<open>Hedge\<close> is the two-leg machine (acknowledgements, fills, failures, the two
    deadlines, the escalation from re-hedge to forced unwind, the audit lines), the feasibility gate,
    merged exposure, joint caps and the settlement aligner. \<open>HedgeProps\<close>: the machine's invariant over
    all runs of \<open>hedge_step\<close>, that a naked leg is acted on, that one gap gets one order, that outcomes
    are truthful, and two ways a leg stays naked unwatched; \<open>HedgePlanProps\<close>: what a plan accepted on a
    confirmed event guarantees, and what the gate does not look at.

  \<^item> The pair book, \<open>pair.rs\<close>. \<open>PairBook\<close>: legs, bindings, continuations, absorbed facts and the statuses
    they imply; statuses are truthful, a closed pair absorbs everything, and which fills never reach it.

  \<^item> Durable records. \<open>TradeDb\<close> is \<open>trade_db.rs\<close>: the trade log with its running summaries, which equal
    the fold over the lines as they read back, before and after a restart, and what a retraction misses. \<open>Stores\<close> is \<open>order_db.rs\<close>, \<open>position_db.rs\<close> and
    the applied-fill log of \<open>service/config.rs\<close>. A decimal written to a line passes through a double
    (\<open>wire_decimal\<close>, \<open>core/bk_contract/src/decimal.rs\<close>): a line holds the doubles (\<open>order_numbers\<close>,
    \<open>line_numbers\<close>) and its reading parses them, which may fail (\<open>read_order\<close>, \<open>read_credential\<close>).

  \<^item> The booking of a fill, \<open>service.rs\<close>, \<open>service/settlement_orders/orders.rs\<close> and \<open>closing.rs\<close>.
    \<open>ExitReasons\<close> is the table of noted exit reasons. \<open>Booking\<close> composes the components: \<open>core_books\<close> is
    the part of the service's state the path touches, \<open>ingest_fill\<close> takes a venue report through the
    engine (\<open>apply_fill_report\<close>) and books the delta it announces (\<open>apply_delta_effects\<close>: pair book,
    cash, reservation, virtual hold, position, close with record, breakers and credential, durable
    files). \<open>BookingProps\<close>: cash and positions move together over whole sessions; \<open>BookingRollback\<close>:
    accounts stay apart, reservations are resynchronised, what a FAILED entry leaves behind;
    \<open>BookingCloses\<close>: a FAILED sell takes its close back everywhere, when it cannot, and whom an exit
    reason reaches; \<open>Credentials\<close>: the eviction loop ends, the log rebuilds the queue up to the doubles on its
    lines.

  \<^item> Settlement, \<open>settlement.rs\<close> with the contract of \<open>core/bk_contract/src/types.rs\<close>. \<open>Settlement\<close> is the model: the
    watch on expired markets with its queries and backoff, the book of claims (a settled position's
    collateral until it is redeemed) and of merges (burned pairs until the chain confirms), the journal
    every event is appended to and replayed from. \<open>SettlementProps\<close>: every dollar settled is either owed
    or credited, no claim pays twice, over all sessions of the operations; the search for a free merge
    name ends. \<open>SettlementRestart\<close>: replaying the journal rebuilds the book, and when it does not; what a
    third account on one market does to the claims.

  \<^item> The service's side of settlement, \<open>service/settlement_orders/settlement.rs\<close> and the merge intents of
    \<open>service/risk_admission/exits.rs\<close>. \<open>SettlementCore\<close> is the model over \<open>settle_core\<close> (the books of
    \<open>Booking\<close>, the settlement book, the mirrored order books): the watch, resolutions, redemption and merge
    results, the dry mode's own answers, the fallback for markets nobody answers, the operator's close,
    recovery, merge intents. \<open>SettlementMoney\<close> shows for each operation that cash plus collateral owed less
    the cash the positions explain stays the same; \<open>SettlementFlow\<close> composes them with fills into the
    conservation of money over any session (\<open>kernel_conserves_money\<close>); \<open>SettlementEdges\<close>: the
    settlement drives the scheduler's gate skips are idle and the alert and sweep behind it are held back by one
    re-query interval at most, manual closes are gated and paid, where a merge loses its collateral or burns another account's
    pairs; \<open>ReplayWake\<close> is the clock of a replay (\<open>next_replay_wake_ms\<close>), the earliest deadline named, and the one it
    leaves out.

  \<^item> The dry matcher, \<open>sim.rs\<close> and \<open>service/risk_admission/admission.rs\<close>. \<open>Sim\<close> is the book walk, the
    rules for resting orders, the dials and the hash behind their draws on 32-bit words; \<open>SimProps\<close>: a
    walk fills exactly when the depth is there, at the quotient of the least total any split of the size pays, and the price it
    states for a live request. \<open>DryMatch\<close> is the service's half: taker legs in flight through
    match and report, and the hit of a resting order; \<open>DryMatchProps\<close>: no leg overstays its report, decided
    legs ignore later books, what a late kill and a shared snapshot do.

  \<^item> The execution policy, \<open>execution_policy/mod.rs\<close>, \<open>execution_policy/rules.rs\<close> and \<open>env_file.rs\<close>, with its
    handlers \<open>ipc/server/handlers/execution_policy.rs\<close> and its uses in \<open>service/assembly.rs\<close> and
    \<open>service/engine_cycle/evaluate.rs\<close>. \<open>Trim\<close> and \<open>RustText\<close> are the string operations of Rust the code
    uses, on characters of one byte. \<open>Policy\<close> is the rule language, its two spellings, the validation, the
    layering of defaults, globals and account sections from the environment, and the evaluation of an
    order's facts; \<open>PolicyProps\<close>: the budget stays within the section's ceiling whatever rule decides, the
    first enabled rule by priority decides, what loads and can never fire. \<open>EnvFile\<close> is the list of lines of
    \<open>.env\<close> with the upsert and the removal of keys; \<open>PolicyWrite\<close> the set and reset handlers, the sweep of
    an account's keys, the reload and its audit records, \<open>PolicyWriteProps\<close> what a write leaves in the file,
    \<open>PolicyInForce\<close> that a written section is the section in force, and the writes that are not.
    \<open>PolicyGate\<close> is the gate of the live and of the replayed cycle, which only removes or shrinks entries;
    \<open>PolicyPreview\<close> the preview over closed trades. The texts of decimals, rules and policy files (JSON,
    TOML) are the parameter \<open>policy_io\<close>, about which the round trip of a section assumes that each value
    written reads back.

  \<^item> Abstractions. A decimal is the rational number it denotes; division, checked operations and
    printing belong to the external decimal crate and are the parameter \<open>dec_ops\<close>, about which a
    property assumes at most exactness of division by the share grid or by two (two theorems of \<open>SimProps\<close> on the
    depth of a resting hit assume it of every division), that a double printed and
    read again is the same double (\<open>numbers_survive\<close>), and that a line written can be read. Hash maps are association
    lists, ordered maps are association lists read in key order, times and durations are integers without
    a bound (the code's are of 64 bits; only differences of times near the ends of that range would wrap, as in
    \<open>compare_listing\<close>), counters are naturals. A double is the rational it denotes and every operation on doubles rounds to
    53 bits; subnormals, infinities and NaN do not occur in the code modelled. Durable files are values carried by the state; the environment's answer to
    a write is an argument or a field. Log output is left out. Errors are values of a sum type.

  \<^item> Termination and bounds. Definitions are total but one; the loops of the code run over lists and are
    folds, the engine's eviction loop is a function with a measure. The search for a free merge name is a
    partial function, and that it returns is a theorem. The caps of the code (5000 trades
    in the fill ledger, 500 buffered fills, the journal window, 5000 settled records, 512 credentials, 64 exit reasons) are the
    code's constants. No definition takes fuel.

  \<^item> Not modelled. Reconciliation, the
    rest of the service layer (placement with its refusals, order sweeps, assembly, commands). Transport, parsing, persistence of
    audit lines, venues, user interfaces and strategies (floating-point signals and Lua) are outside the model.
\<close>

end
